(* ===== verification/Prelude.thy ===== *)
theory Prelude
  imports Main
begin

text \<open>
  Shared vocabulary of the development: the result type of code that may throw and the
  combinators that sequence it, JavaScript numbers and strings as far as the sources use
  them, decimal printing and parsing (what \<open>BigInt(s)\<close> and \<open>.toString()\<close> do on
  non-negative integers), and the generic lemmas the component theories rely on.

  A throwing TypeScript function is a function into \<open>'e + 'a\<close>: \<open>Inl e\<close> is the
  exception that leaves the function, \<open>Inr x\<close> the value it returns. Strings are
  character lists; a character stands for one UTF-16 code unit below 256.
\<close>

named_theorems domain_simps \<open>characterisations of successful and failing checks\<close>
named_theorems eval_simps \<open>equations that evaluate closed instances of the model\<close>

section \<open>Throwing code\<close>

definition andThen :: "'e + 'a \<Rightarrow> ('a \<Rightarrow> 'e + 'b) \<Rightarrow> 'e + 'b" where
  "andThen m f = (case m of Inl e \<Rightarrow> Inl e | Inr x \<Rightarrow> f x)"

text \<open>
  Evaluation decides the first computation before it looks at the continuation.
\<close>

declare andThen_def [code_unfold]

definition throwIf :: "bool \<Rightarrow> 'e \<Rightarrow> 'e + unit" where
  "throwIf b e = (if b then Inl e else Inr ())"

definition catchAs :: "'e \<Rightarrow> 'd + 'a \<Rightarrow> 'e + 'a" where
  "catchAs e m = (case m of Inl _ \<Rightarrow> Inl e | Inr x \<Rightarrow> Inr x)"

fun forEach :: "'a list \<Rightarrow> ('a \<Rightarrow> 'e + unit) \<Rightarrow> 'e + unit" where
  "forEach [] f = Inr ()"
| "forEach (x # xs) f = andThen (f x) (\<lambda>_. forEach xs f)"

text \<open>\<open>Array.prototype.some\<close> and \<open>filter\<close> with a callback that may throw.\<close>

fun someM :: "('a \<Rightarrow> 'e + bool) \<Rightarrow> 'a list \<Rightarrow> 'e + bool" where
  "someM p [] = Inr False"
| "someM p (x # xs) = andThen (p x) (\<lambda>b. if b then Inr True else someM p xs)"

fun filterM :: "('a \<Rightarrow> 'e + bool) \<Rightarrow> 'a list \<Rightarrow> 'e + 'a list" where
  "filterM p [] = Inr []"
| "filterM p (x # xs) = andThen (p x) (\<lambda>b. andThen (filterM p xs) (\<lambda>ys.
     Inr (if b then x # ys else ys)))"

text \<open>A loop over a list that threads a state and stops at the first throw.\<close>

fun foldE :: "('s \<Rightarrow> 'a \<Rightarrow> 'e + 's) \<Rightarrow> 's \<Rightarrow> 'a list \<Rightarrow> 'e + 's" where
  "foldE f s [] = Inr s"
| "foldE f s (x # xs) = andThen (f s x) (\<lambda>s'. foldE f s' xs)"

lemma andThen_simps [simp]:
  "andThen (Inl e) f = Inl e"
  "andThen (Inr x) f = f x"
  by (simp_all add: andThen_def)

lemma andThen_Inr_iff [simp, domain_simps]:
  "andThen m f = Inr y \<longleftrightarrow> (\<exists>x. m = Inr x \<and> f x = Inr y)"
  by (cases m) auto

lemma andThen_Inl_iff:
  "andThen m f = Inl e \<longleftrightarrow> m = Inl e \<or> (\<exists>x. m = Inr x \<and> f x = Inl e)"
  by (cases m) auto

text \<open>Congruence for evaluation by \<open>simp\<close>: leave a continuation alone until it is entered.\<close>

lemma andThen_weak_cong: "m = m' \<Longrightarrow> andThen m f = andThen m' f"
  by simp

lemma throwIf_Inr [simp, domain_simps]: "throwIf b e = Inr u \<longleftrightarrow> \<not> b"
  by (simp add: throwIf_def)

lemma throwIf_Inl [simp, domain_simps]: "throwIf b e = Inl e' \<longleftrightarrow> b \<and> e' = e"
  by (auto simp: throwIf_def)

lemma throwIf_simps [simp]:
  "throwIf True e = Inl e"
  "throwIf False e = Inr ()"
  by (simp_all add: throwIf_def)

lemma catchAs_Inr [simp, domain_simps]: "catchAs e m = Inr x \<longleftrightarrow> m = Inr x"
  by (cases m) (auto simp: catchAs_def)

lemma catchAs_Inl [simp, domain_simps]: "catchAs e m = Inl e' \<longleftrightarrow> e' = e \<and> (\<exists>d. m = Inl d)"
  by (cases m) (auto simp: catchAs_def)

lemma forEach_Inr [domain_simps]: "forEach xs f = Inr u \<longleftrightarrow> (\<forall>x \<in> set xs. f x = Inr ())"
  by (induction xs) auto

lemma forEach_Inl_origin: "forEach xs f = Inl e \<Longrightarrow> \<exists>x \<in> set xs. f x = Inl e"
  by (induction xs) (auto simp: andThen_Inl_iff)

lemma someM_True:
  "someM p xs = Inr True \<Longrightarrow> \<exists>x \<in> set xs. p x = Inr True"
  by (induction xs) (auto split: if_splits)

lemma someM_False:
  "someM p xs = Inr False \<Longrightarrow> \<forall>x \<in> set xs. p x = Inr False"
  by (induction xs) (auto split: if_splits)

lemma someM_Inr_total:
  "(\<And>x. x \<in> set xs \<Longrightarrow> p x = Inr (q x)) \<Longrightarrow> someM p xs = Inr (list_ex q xs)"
  by (induction xs) auto

lemma filterM_set:
  "filterM p xs = Inr ys \<Longrightarrow> set ys = {x \<in> set xs. p x = Inr True}"
proof (induction xs arbitrary: ys)
  case Nil
  then show ?case by simp
next
  case (Cons x xs)
  then obtain b zs where "p x = Inr b" "filterM p xs = Inr zs"
    "ys = (if b then x # zs else zs)" by auto
  with Cons.IH [of zs] show ?case by (cases b) auto
qed

lemma filterM_Inr_total:
  "(\<And>x. x \<in> set xs \<Longrightarrow> p x = Inr (q x)) \<Longrightarrow> filterM p xs = Inr (filter q xs)"
  by (induction xs) auto

lemma filterM_Nil_iff:
  "filterM p xs = Inr [] \<longleftrightarrow> (\<forall>x \<in> set xs. p x = Inr False)"
  by (induction xs) (auto split: if_splits)

lemma foldE_append: "foldE f s (xs @ ys) = andThen (foldE f s xs) (\<lambda>s'. foldE f s' ys)"
proof (induction xs arbitrary: s)
  case (Cons x xs)
  then show ?case by (cases "f s x") simp_all
qed simp

lemma foldE_snoc [simp]: "foldE f s (xs @ [x]) = andThen (foldE f s xs) (\<lambda>s'. f s' x)"
proof -
  have "andThen (f s' x) Inr = f s' x" for s' by (cases "f s' x") simp_all
  then show ?thesis by (simp add: foldE_append)
qed

text \<open>
  The contract of a component whose operations each keep an invariant: \<open>step\<close> performs one
  operation on a state and may refuse it. Whatever sequence of operations is run, the
  invariant holds of the resulting state, and of every state in between.
\<close>

locale invariant_steps =
  fixes step :: "'s \<Rightarrow> 'a \<Rightarrow> 'e + 's"
    and inv :: "'s \<Rightarrow> bool"
  assumes step_inv: "inv s \<Longrightarrow> step s x = Inr s' \<Longrightarrow> inv s'"
begin

lemma run_inv: "inv s \<Longrightarrow> foldE step s xs = Inr s' \<Longrightarrow> inv s'"
  by (induction xs arbitrary: s) (auto intro: step_inv)

lemma run_prefix_inv:
  assumes "inv s" "foldE step s (xs @ ys) = Inr s'"
  shows "\<exists>m. foldE step s xs = Inr m \<and> inv m \<and> foldE step m ys = Inr s'"
  using assms by (auto simp: foldE_append intro: run_inv)

end

text \<open>
  A component with a quantity that no operation lowers (a version, a clock, a counter).
\<close>

locale monotone_steps = invariant_steps step inv
  for step :: "'s \<Rightarrow> 'a \<Rightarrow> 'e + 's" and inv :: "'s \<Rightarrow> bool" +
  fixes rank :: "'s \<Rightarrow> 'r :: preorder"
  assumes step_rank: "inv s \<Longrightarrow> step s x = Inr s' \<Longrightarrow> rank s \<le> rank s'"
begin

lemma run_rank: "inv s \<Longrightarrow> foldE step s xs = Inr s' \<Longrightarrow> rank s \<le> rank s'"
proof (induction xs arbitrary: s)
  case (Cons x xs)
  then obtain m where m: "step s x = Inr m" "foldE step m xs = Inr s'" by auto
  with Cons step_inv have "rank m \<le> rank s'" by blast
  moreover have "rank s \<le> rank m" using m(1) Cons.prems(1) by (rule step_rank [rotated])
  ultimately show ?case by (rule order_trans [rotated])
qed simp

end

section \<open>JavaScript numbers\<close>

text \<open>
  A number is an integral double, a finite non-integral double (only its floor is kept:
  that fixes every comparison with an integer), or one of the three special values.
\<close>

datatype jsnum = NInt int | NFrac int | NNaN | NPosInf | NNegInf

definition MAX_SAFE_INTEGER :: int where
  "MAX_SAFE_INTEGER = 9007199254740991"

fun isSafeInteger :: "jsnum \<Rightarrow> bool" where
  "isSafeInteger (NInt i) = (\<bar>i\<bar> \<le> MAX_SAFE_INTEGER)"
| "isSafeInteger _ = False"

fun isFiniteNum :: "jsnum \<Rightarrow> bool" where
  "isFiniteNum (NInt i) = True"
| "isFiniteNum (NFrac i) = True"
| "isFiniteNum _ = False"

fun numLe :: "jsnum \<Rightarrow> int \<Rightarrow> bool" where
  "numLe (NInt i) k = (i \<le> k)"
| "numLe (NFrac f) k = (f < k)"
| "numLe NNaN k = False"
| "numLe NPosInf k = False"
| "numLe NNegInf k = True"

fun numLt :: "jsnum \<Rightarrow> int \<Rightarrow> bool" where
  "numLt (NInt i) k = (i < k)"
| "numLt (NFrac f) k = (f < k)"
| "numLt NNaN k = False"
| "numLt NPosInf k = False"
| "numLt NNegInf k = True"

fun numGt :: "jsnum \<Rightarrow> int \<Rightarrow> bool" where
  "numGt (NInt i) k = (i > k)"
| "numGt (NFrac f) k = (f \<ge> k)"
| "numGt NNaN k = False"
| "numGt NPosInf k = True"
| "numGt NNegInf k = False"

text \<open>The integer of a number, meaningful after a successful \<open>isSafeInteger\<close> check.\<close>

fun numInt :: "jsnum \<Rightarrow> int" where
  "numInt (NInt i) = i"
| "numInt (NFrac f) = f"
| "numInt _ = 0"

lemma isSafeInteger_iff:
  "isSafeInteger n \<longleftrightarrow> (\<exists>i. n = NInt i \<and> \<bar>i\<bar> \<le> MAX_SAFE_INTEGER)"
  by (cases n) auto

text \<open>
  Rounding of an integer to the nearest double (53 significant bits, ties to even): what
  a JavaScript product of two integral numbers is, below the overflow to infinity.
\<close>

function excess_bits :: "int \<Rightarrow> nat" where
  "excess_bits n = (if n < 9007199254740992 then 0 else Suc (excess_bits (n div 2)))"
  by pat_completeness auto
termination
  by (relation "measure nat") auto

declare excess_bits.simps [simp del]

definition round_even :: "int \<Rightarrow> nat \<Rightarrow> int" where
  "round_even n k = (let q = n div 2 ^ k; r = n mod 2 ^ k in
     if 2 * r < 2 ^ k \<or> (2 * r = 2 ^ k \<and> q mod 2 = 0) then q else q + 1)"

definition dbl :: "int \<Rightarrow> int" where
  "dbl x = (if \<bar>x\<bar> < 9007199254740992 then x
     else let k = excess_bits \<bar>x\<bar> in sgn x * (round_even \<bar>x\<bar> k * 2 ^ k))"

text \<open>An equation whose rounding branch is entered only once its guard is decided.\<close>

lemma dbl_eval [code]:
  "dbl x = (case \<bar>x\<bar> < 9007199254740992 of True \<Rightarrow> x
     | False \<Rightarrow> (let k = excess_bits \<bar>x\<bar> in sgn x * (round_even \<bar>x\<bar> k * 2 ^ k)))"
  by (simp add: dbl_def)

lemma excess_bits_eval [code]:
  "excess_bits n = (case n < 9007199254740992 of True \<Rightarrow> 0 | False \<Rightarrow> Suc (excess_bits (n div 2)))"
  by (simp add: excess_bits.simps [of n])

lemma dbl_exact: "\<bar>x\<bar> \<le> MAX_SAFE_INTEGER \<Longrightarrow> dbl x = x"
  by (simp add: dbl_def MAX_SAFE_INTEGER_def)

lemma excess_bits_leading:
  "9007199254740992 \<le> n \<Longrightarrow> 0 < excess_bits n \<and> 4503599627370496 \<le> n div 2 ^ excess_bits n"
proof (induction n rule: excess_bits.induct)
  case (1 n)
  then have n: "excess_bits n = Suc (excess_bits (n div 2))" by (simp add: excess_bits.simps [of n])
  show ?case
  proof (cases "9007199254740992 \<le> n div 2")
    case True
    with "1" have "4503599627370496 \<le> n div 2 div 2 ^ excess_bits (n div 2)" by simp
    with n show ?thesis by (simp add: zdiv_zmult2_eq)
  next
    case False
    then have "excess_bits (n div 2) = 0" by (simp add: excess_bits.simps)
    moreover have "4503599627370496 \<le> n div 2" using "1.prems" by simp
    ultimately show ?thesis using n by simp
  qed
qed

lemma dbl_unsafe: "MAX_SAFE_INTEGER < x \<Longrightarrow> MAX_SAFE_INTEGER < dbl x"
proof -
  assume x: "MAX_SAFE_INTEGER < x"
  let ?k = "excess_bits x"
  from x have k: "0 < ?k" "4503599627370496 \<le> x div 2 ^ ?k"
    using excess_bits_leading [of x] by (auto simp: MAX_SAFE_INTEGER_def)
  have two: "(2::int) \<le> 2 ^ ?k" using k(1)
    by (metis One_nat_def Suc_leI one_le_numeral power_increasing power_one_right)
  have "4503599627370496 * 2 \<le> (4503599627370496 :: int) * 2 ^ ?k" using two by simp
  also have "\<dots> \<le> round_even x ?k * 2 ^ ?k"
    using k(2) by (intro mult_right_mono) (auto simp: round_even_def Let_def)
  finally have "9007199254740992 \<le> round_even x ?k * 2 ^ ?k" by simp
  with x show ?thesis by (simp add: dbl_def MAX_SAFE_INTEGER_def Let_def)
qed

section \<open>Strings\<close>

definition is_lower :: "char \<Rightarrow> bool" where
  "is_lower c = (97 \<le> (of_char c :: nat) \<and> (of_char c :: nat) \<le> 122)"

definition is_upper :: "char \<Rightarrow> bool" where
  "is_upper c = (65 \<le> (of_char c :: nat) \<and> (of_char c :: nat) \<le> 90)"

definition is_digit :: "char \<Rightarrow> bool" where
  "is_digit c = (48 \<le> (of_char c :: nat) \<and> (of_char c :: nat) \<le> 57)"

definition is_alnum :: "char \<Rightarrow> bool" where
  "is_alnum c = (is_lower c \<or> is_upper c \<or> is_digit c)"

text \<open>The white space and line terminators of \<open>String.prototype.trim\<close> below 256.\<close>

definition is_js_space :: "char \<Rightarrow> bool" where
  "is_js_space c = (let n = (of_char c :: nat) in (9 \<le> n \<and> n \<le> 13) \<or> n = 32 \<or> n = 160)"

definition js_trim :: "string \<Rightarrow> string" where
  "js_trim s = rev (dropWhile is_js_space (rev (dropWhile is_js_space s)))"

definition js_lower_char :: "char \<Rightarrow> char" where
  "js_lower_char c = (let n = (of_char c :: nat) in
     if (65 \<le> n \<and> n \<le> 90) \<or> (192 \<le> n \<and> n \<le> 222 \<and> n \<noteq> 215) then char_of (n + 32) else c)"

definition toLowerCase :: "string \<Rightarrow> string" where
  "toLowerCase s = map js_lower_char s"

fun startsWith :: "string \<Rightarrow> string \<Rightarrow> bool" where
  "startsWith s [] = True"
| "startsWith [] (p # ps) = False"
| "startsWith (c # cs) (p # ps) = (c = p \<and> startsWith cs ps)"

definition endsWith :: "string \<Rightarrow> string \<Rightarrow> bool" where
  "endsWith s p = startsWith (rev s) (rev p)"

fun includesStr :: "string \<Rightarrow> string \<Rightarrow> bool" where
  "includesStr [] p = (p = [])"
| "includesStr (c # cs) p = (startsWith (c # cs) p \<or> includesStr cs p)"

text \<open>\<open>[a, b, c].join(sep)\<close>\<close>

fun joinStr :: "string \<Rightarrow> string list \<Rightarrow> string" where
  "joinStr sep [] = []"
| "joinStr sep [x] = x"
| "joinStr sep (x # y # ys) = x @ sep @ joinStr sep (y # ys)"

lemma startsWith_iff: "startsWith s p \<longleftrightarrow> (\<exists>t. s = p @ t)"
  by (induction s p rule: startsWith.induct) auto

lemma endsWith_iff: "endsWith s p \<longleftrightarrow> (\<exists>t. s = t @ p)"
proof -
  have "(\<exists>t. rev s = rev p @ t) \<longleftrightarrow> (\<exists>t. s = t @ p)"
    by (metis rev_append rev_rev_ident)
  then show ?thesis by (simp add: endsWith_def startsWith_iff)
qed

lemma includesStr_iff: "includesStr s p \<longleftrightarrow> (\<exists>a b. s = a @ p @ b)"
proof (induction s)
  case Nil
  then show ?case by auto
next
  case (Cons c cs)
  show ?case
  proof
    assume "includesStr (c # cs) p"
    then consider t where "c # cs = p @ t" | a b where "cs = a @ p @ b"
      using Cons.IH by (auto simp: startsWith_iff)
    then show "\<exists>a b. c # cs = a @ p @ b"
      by cases (metis append_Nil, metis append_Cons)
  next
    assume "\<exists>a b. c # cs = a @ p @ b"
    then obtain a b where ab: "c # cs = a @ p @ b" by blast
    show "includesStr (c # cs) p"
    proof (cases a)
      case Nil
      with ab have "startsWith (c # cs) p" by (auto simp: startsWith_iff)
      then show ?thesis by simp
    next
      case (Cons d ds)
      with ab have "cs = ds @ p @ b" by simp
      with \<open>includesStr cs p = _\<close> show ?thesis by auto
    qed
  qed
qed

text \<open>A fixed separator that no field contains makes a join unambiguous.\<close>

lemma append_sep_inject:
  assumes "c \<notin> set x" "c \<notin> set x'" "x @ c # r = x' @ c # r'"
  shows "x = x' \<and> r = r'"
  using assms by (induction x arbitrary: x') (auto simp: Cons_eq_append_conv append_eq_Cons_conv)

lemma joinStr_inject:
  assumes "length xs = length ys" "\<forall>x \<in> set xs. c \<notin> set x" "\<forall>y \<in> set ys. c \<notin> set y"
    and "joinStr [c] xs = joinStr [c] ys"
  shows "xs = ys"
  using assms
proof (induction xs ys rule: list_induct2)
  case Nil
  then show ?case by simp
next
  case (Cons x xs y ys)
  show ?case
  proof (cases xs)
    case Nil
    with Cons show ?thesis by (cases ys) auto
  next
    case xs: (Cons x' xs')
    with Cons.hyps obtain y' ys' where ys: "ys = y' # ys'" by (cases ys) auto
    from Cons.prems xs ys have "x @ c # joinStr [c] xs = y @ c # joinStr [c] ys" by simp
    with Cons.prems have "x = y \<and> joinStr [c] xs = joinStr [c] ys"
      by (intro append_sep_inject) auto
    with Cons.IH Cons.prems show ?thesis by simp
  qed
qed

section \<open>Decimal numerals\<close>

definition digit_char :: "nat \<Rightarrow> char" where
  "digit_char d = char_of (48 + d)"

definition digit_val :: "char \<Rightarrow> nat" where
  "digit_val c = of_char c - 48"

fun dec_of_nat :: "nat \<Rightarrow> string" where
  "dec_of_nat n = (if n < 10 then [digit_char n]
     else dec_of_nat (n div 10) @ [digit_char (n mod 10)])"

declare dec_of_nat.simps [simp del]

lemma dec_of_nat_eval [code, eval_simps]:
  "dec_of_nat n = (case n < 10 of True \<Rightarrow> [digit_char n]
     | False \<Rightarrow> dec_of_nat (n div 10) @ [digit_char (n mod 10)])"
  by (simp add: dec_of_nat.simps [of n])

definition nat_of_dec :: "string \<Rightarrow> nat" where
  "nat_of_dec s = foldl (\<lambda>a c. 10 * a + digit_val c) 0 s"

text \<open>\<open>/^[1-9][0-9]*$/\<close>\<close>

fun is_pos_decimal :: "string \<Rightarrow> bool" where
  "is_pos_decimal [] = False"
| "is_pos_decimal (c # cs) = (is_digit c \<and> c \<noteq> CHR ''0'' \<and> list_all is_digit cs)"

lemma digit_char_eval [eval_simps]:
  "digit_char 0 = CHR ''0''" "digit_char (Suc 0) = CHR ''1''" "digit_char 1 = CHR ''1''"
  "digit_char 2 = CHR ''2''" "digit_char 3 = CHR ''3''" "digit_char 4 = CHR ''4''"
  "digit_char 5 = CHR ''5''" "digit_char 6 = CHR ''6''" "digit_char 7 = CHR ''7''"
  "digit_char 8 = CHR ''8''" "digit_char 9 = CHR ''9''"
  by code_simp+

declare MAX_SAFE_INTEGER_def [eval_simps] is_lower_def [eval_simps] is_upper_def [eval_simps]
  is_digit_def [eval_simps] is_alnum_def [eval_simps] is_js_space_def [eval_simps]
  js_trim_def [eval_simps] js_lower_char_def [eval_simps] toLowerCase_def [eval_simps]
  endsWith_def [eval_simps] digit_val_def [eval_simps] nat_of_dec_def [eval_simps]

lemma digit_val_char [simp]: "d < 10 \<Longrightarrow> digit_val (digit_char d) = d"
  by (simp add: digit_val_def digit_char_def)

lemma is_digit_digit_char [simp]: "d < 10 \<Longrightarrow> is_digit (digit_char d)"
  by (simp add: is_digit_def digit_char_def)

lemma nat_of_dec_snoc: "nat_of_dec (s @ [c]) = 10 * nat_of_dec s + digit_val c"
  by (simp add: nat_of_dec_def)

lemma nat_of_dec_of_nat [simp]: "nat_of_dec (dec_of_nat n) = n"
proof (induction n rule: dec_of_nat.induct)
  case (1 n)
  then show ?case
    by (cases "n < 10") (simp_all add: dec_of_nat.simps [of n] nat_of_dec_snoc,
      simp add: nat_of_dec_def)
qed

lemma dec_of_nat_digits: "list_all is_digit (dec_of_nat n)"
proof (induction n rule: dec_of_nat.induct)
  case (1 n)
  then show ?case by (cases "n < 10") (simp_all add: dec_of_nat.simps [of n])
qed

lemma dec_of_nat_inject [simp]: "dec_of_nat m = dec_of_nat n \<longleftrightarrow> m = n"
  by (metis nat_of_dec_of_nat)

lemma dec_of_nat_nonempty [simp]: "dec_of_nat n \<noteq> []"
  by (simp add: dec_of_nat.simps)

lemma digit_char_zero: "d < 10 \<Longrightarrow> digit_char d = CHR ''0'' \<longleftrightarrow> d = 0"
proof
  assume d: "d < 10" and "digit_char d = CHR ''0''"
  then have "digit_val (digit_char d) = digit_val CHR ''0''" by simp
  then have "digit_val (digit_char d) = 0" by (simp add: digit_val_def)
  with d show "d = 0" by simp
next
  assume "d = 0"
  moreover have "digit_char 0 = CHR ''0''" by code_simp
  ultimately show "digit_char d = CHR ''0''" by simp
qed

lemma dec_of_nat_pos: "0 < n \<Longrightarrow> is_pos_decimal (dec_of_nat n)"
proof (induction n rule: dec_of_nat.induct)
  case (1 n)
  show ?case
  proof (cases "n < 10")
    case True
    with "1.prems" show ?thesis by (simp add: dec_of_nat.simps [of n] digit_char_zero)
  next
    case False
    then have "0 < n div 10" by (simp add: div_greater_zero_iff)
    with False "1.IH" have "is_pos_decimal (dec_of_nat (n div 10))" by blast
    with False show ?thesis
      by (cases "dec_of_nat (n div 10)") (simp_all add: dec_of_nat.simps [of n])
  qed
qed

lemma nat_of_dec_pos: "is_pos_decimal s \<Longrightarrow> 0 < nat_of_dec s"
proof (cases s)
  case (Cons c cs)
  assume pos: "is_pos_decimal s"
  have mono: "0 < a \<Longrightarrow> 0 < foldl (\<lambda>a c. 10 * a + digit_val c) a cs" for a
    by (induction cs arbitrary: a) auto
  have "digit_val c \<noteq> 0"
  proof
    assume "digit_val c = 0"
    with pos Cons have "(of_char c :: nat) = 48" by (simp add: digit_val_def is_digit_def)
    then have "(of_char c :: nat) = of_char (CHR ''0'')" by simp
    then have "c = CHR ''0''" by (simp only: of_char_eq_iff)
    with pos Cons show False by simp
  qed
  with mono [of "digit_val c"] Cons show ?thesis by (simp add: nat_of_dec_def)
qed simp

section \<open>Time stamps\<close>

text \<open>
  \<open>Date.parse\<close> on the 24-character form that \<open>toISOString\<close> produces
  (\<^verbatim>\<open>YYYY-MM-DDTHH:mm:ss.sssZ\<close>), as milliseconds since the epoch. Other forms are
  engine-defined, so the models take the parser as a parameter; this one is the instance on
  which concrete runs are evaluated.
\<close>

definition daysFromCivil :: "int \<Rightarrow> int \<Rightarrow> int \<Rightarrow> int" where
  "daysFromCivil y m d =
     (let y' = (if m \<le> 2 then y - 1 else y); era = y' div 400; yoe = y' - era * 400;
          doy = (153 * ((m + 9) mod 12) + 2) div 5 + d - 1;
          doe = yoe * 365 + yoe div 4 - yoe div 100 + doy
      in era * 146097 + doe - 719468)"

definition isoField :: "string \<Rightarrow> nat \<Rightarrow> nat \<Rightarrow> int" where
  "isoField s i n = int (nat_of_dec (take n (drop i s)))"

definition isoParse :: "string \<Rightarrow> int option" where
  "isoParse s =
     (if length s = 24 \<and> s ! 4 = CHR ''-'' \<and> s ! 7 = CHR ''-'' \<and> s ! 10 = CHR ''T'' \<and>
         s ! 13 = CHR '':'' \<and> s ! 16 = CHR '':'' \<and> s ! 19 = CHR ''.'' \<and> s ! 23 = CHR ''Z'' \<and>
         list_all (\<lambda>i. is_digit (s ! i)) [0, 1, 2, 3, 5, 6, 8, 9, 11, 12, 14, 15, 17, 18, 20, 21, 22] \<and>
         isoField s 5 2 \<in> {1..12} \<and> isoField s 8 2 \<in> {1..31} \<and> isoField s 11 2 < 24 \<and>
         isoField s 14 2 < 60 \<and> isoField s 17 2 < 60
      then Some (((daysFromCivil (isoField s 0 4) (isoField s 5 2) (isoField s 8 2) * 24 +
             isoField s 11 2) * 60 + isoField s 14 2) * 60000 + isoField s 17 2 * 1000 +
             isoField s 20 3)
      else None)"

declare daysFromCivil_def [eval_simps] isoField_def [eval_simps] isoParse_def [eval_simps]

section \<open>Lists\<close>

lemma find_Some_mem: "find p xs = Some x \<Longrightarrow> x \<in> set xs \<and> p x"
  by (induction xs) (auto split: if_splits)

lemma find_None_all: "find p xs = None \<longleftrightarrow> (\<forall>x \<in> set xs. \<not> p x)"
  by (induction xs) auto

lemma distinct_map_filter: "distinct (map f xs) \<Longrightarrow> distinct (map f (filter p xs))"
  by (induction xs) auto

lemma find_distinct_key:
  assumes "distinct (map f xs)" "x \<in> set xs"
  shows "find (\<lambda>y. f y = f x) xs = Some x"
  using assms by (induction xs) (auto simp: rev_image_eqI)

end
