(* ===== verification/JsValue.thy ===== *)
theory JsValue
  imports Prelude
begin

text \<open>
  Run-time JavaScript values with object identity. Objects and arrays live in a heap and
  are referred to by address, so shared and cyclic inputs are values of the model. The
  validators of the marketplace domain receive \<open>unknown\<close> values and are modelled over
  this type; a field read of a plain object is \<open>jget\<close>.
\<close>

type_synonym addr = nat

datatype jsval =
    JUndefined
  | JNull
  | JBool bool
  | JNum jsnum
  | JBigInt int
  | JStr string
  | JFunction
  | JSymbol
  | JRef addr

text \<open>
  An object keeps its own enumerable properties in order; the flag says whether its
  prototype is \<open>Object.prototype\<close> or \<open>null\<close>.
\<close>

datatype jsobj = JArray "jsval list" | JObject bool "(string \<times> jsval) list"

type_synonym heap = "addr \<Rightarrow> jsobj"

text \<open>\<open>Object.entries\<close>: the keys of an array are its indices in decimal.\<close>

fun entries :: "jsobj \<Rightarrow> (string \<times> jsval) list" where
  "entries (JArray xs) = zip (map dec_of_nat [0..<length xs]) xs"
| "entries (JObject plain fs) = fs"

fun isArrayObj :: "jsobj \<Rightarrow> bool" where
  "isArrayObj (JArray xs) = True"
| "isArrayObj (JObject plain fs) = False"

fun isPlainObj :: "jsobj \<Rightarrow> bool" where
  "isPlainObj (JArray xs) = True"
| "isPlainObj (JObject plain fs) = plain"

text \<open>Property read; a missing property is \<open>undefined\<close>.\<close>

fun jget :: "heap \<Rightarrow> jsval \<Rightarrow> string \<Rightarrow> jsval" where
  "jget h (JRef a) k = (case map_of (entries (h a)) k of Some v \<Rightarrow> v | None \<Rightarrow> JUndefined)"
| "jget h _ k = JUndefined"

fun arrayElems :: "heap \<Rightarrow> jsval \<Rightarrow> jsval list option" where
  "arrayElems h (JRef a) = (case h a of JArray xs \<Rightarrow> Some xs | JObject _ _ \<Rightarrow> None)"
| "arrayElems h _ = None"

text \<open>JavaScript truthiness.\<close>

fun truthy :: "jsval \<Rightarrow> bool" where
  "truthy JUndefined = False"
| "truthy JNull = False"
| "truthy (JBool b) = b"
| "truthy (JNum n) = (n \<noteq> NInt 0 \<and> n \<noteq> NNaN)"
| "truthy (JBigInt i) = (i \<noteq> 0)"
| "truthy (JStr s) = (s \<noteq> [])"
| "truthy JFunction = True"
| "truthy JSymbol = True"
| "truthy (JRef a) = True"

text \<open>The string of a value that a check has already narrowed to a string.\<close>

fun strOf :: "jsval \<Rightarrow> string" where
  "strOf (JStr s) = s"
| "strOf _ = []"

text \<open>
  The value found by following entry positions from a value: the specification of what
  an input graph contains.
\<close>

fun valueAt :: "heap \<Rightarrow> jsval \<Rightarrow> nat list \<Rightarrow> jsval option" where
  "valueAt h v [] = Some v"
| "valueAt h (JRef a) (j # p) =
     (if j < length (entries (h a)) then valueAt h (snd (entries (h a) ! j)) p else None)"
| "valueAt h _ (j # p) = None"

fun_cases valueAt_ConsE: "valueAt h v (j # p) = Some x"

lemma valueAt_Cons_iff:
  "valueAt h v (j # p) = Some x \<longleftrightarrow>
     (\<exists>a. v = JRef a \<and> j < length (entries (h a)) \<and>
       valueAt h (snd (entries (h a) ! j)) p = Some x)"
  by (cases v) auto

lemma arrayElems_Some: "arrayElems h v = Some xs \<longleftrightarrow> (\<exists>a. v = JRef a \<and> h a = JArray xs)"
  by (cases v) (auto split: jsobj.splits)

lemma length_entries_array [simp]: "length (entries (JArray xs)) = length xs"
  by simp

text \<open>
  A heap described by a finite list of objects; every other address holds an empty array.
\<close>

definition heapOf :: "jsobj list \<Rightarrow> heap" where
  "heapOf os = (\<lambda>a. if a < length os then os ! a else JArray [])"

end
