(* ===== verification/Validation.thy ===== *)
theory Validation
  imports JsValue
begin

text \<open>
  The input validators of the marketplace domain
  (\<^verbatim>\<open>packages/marketplace-domain/src/validation.ts\<close> and \<^verbatim>\<open>errors.ts\<close>). An assertion
  function that narrows its argument (\<open>asserts value is T\<close>) returns the narrowed value.
  \<open>Date.parse\<close> is engine-defined outside the ISO format and is a parameter \<open>dp\<close>;
  \<open>None\<close> stands for \<open>NaN\<close>. An error is represented by its code; message texts and
  details objects carry no behaviour.
\<close>

datatype MarketplaceDomainErrorCode =
    INVALID_ARGUMENT
  | CREDENTIAL_MATERIAL_REJECTED
  | TENANT_MISMATCH
  | INVALID_EVENT_HISTORY
  | INVALID_SUPPLIER_STATE
  | VERIFICATION_INCOMPLETE
  | AUTHORIZATION_REQUIRED
  | AUTHORIZATION_SCOPE_MISMATCH
  | GATEWAY_ATTESTATION_MISMATCH
  | SERVICE_EVIDENCE_MISMATCH
  | PRIVACY_ACKNOWLEDGEMENT_REQUIRED
  | INVALID_ARTIFACT_TASK_STATE
  | DUPLICATE_RECORD
  | UNSUPPORTED_DATA_CLASS

type_synonym 'a result = "MarketplaceDomainErrorCode + 'a"
type_synonym dateParse = "string \<Rightarrow> int option"

record CapacityLimits =
  requestsPerMinute :: int
  tokensPerMinute :: int
  concurrency :: int
  maxOutputTokens :: int

record MarketplaceCommandContext =
  ctx_tenantId :: string
  ctx_actorId :: string
  ctx_commandId :: string
  ctx_eventId :: string
  ctx_occurredAt :: string

section \<open>Patterns\<close>

definition is_identifier_char :: "char \<Rightarrow> bool" where
  "is_identifier_char c = (is_alnum c \<or> c \<in> {CHR ''.'', CHR ''_'', CHR '':'', CHR ''-''})"

fun IDENTIFIER_PATTERN :: "string \<Rightarrow> bool" where
  "IDENTIFIER_PATTERN [] = False"
| "IDENTIFIER_PATTERN (c # cs) =
     (is_alnum c \<and> list_all is_identifier_char cs \<and> 2 \<le> length cs \<and> length cs \<le> 127)"

definition COUNTRY_PATTERN :: "string \<Rightarrow> bool" where
  "COUNTRY_PATTERN s = (length s = 2 \<and> list_all is_upper s)"

definition CURRENCY_PATTERN :: "string \<Rightarrow> bool" where
  "CURRENCY_PATTERN s = (length s = 3 \<and> list_all is_upper s)"

definition FORBIDDEN_FIELD_FRAGMENTS :: "string list" where
  "FORBIDDEN_FIELD_FRAGMENTS = [
     ''apikey'', ''password'', ''cookie'', ''cookies'', ''sessioncookie'', ''accesstoken'',
     ''refreshtoken'', ''bearertoken'', ''clientsecret'', ''authorizationheader'',
     ''rawcredential'', ''credential'', ''privatekey'', ''sessiontoken'', ''idtoken'', ''secret'']"

definition normalizeKey :: "string \<Rightarrow> string" where
  "normalizeKey k = toLowerCase (filter (\<lambda>c. c \<noteq> CHR ''-'' \<and> c \<noteq> CHR ''_'') k)"

definition forbiddenField :: "string \<Rightarrow> bool" where
  "forbiddenField k = list_ex (\<lambda>f. includesStr (normalizeKey k) f) FORBIDDEN_FIELD_FRAGMENTS"

section \<open>Structural screening of inputs\<close>

text \<open>
  The work list is a stack with its top at the head; children are pushed in entry order,
  so the last child is on top. \<open>visited\<close> counts the objects entered so far.
\<close>

function safeLoop ::
  "heap \<Rightarrow> addr list \<Rightarrow> nat \<Rightarrow> (jsval \<times> nat) list \<Rightarrow> unit result" where
  "safeLoop h seen visited [] = Inr ()"
| "safeLoop h seen visited ((v, depth) # pending) =
     (case v of
        JUndefined \<Rightarrow> safeLoop h seen visited pending
      | JNull \<Rightarrow> safeLoop h seen visited pending
      | JNum n \<Rightarrow> if \<not> isFiniteNum n then Inl INVALID_ARGUMENT
                  else safeLoop h seen visited pending
      | JBigInt i \<Rightarrow> Inl INVALID_ARGUMENT
      | JFunction \<Rightarrow> Inl INVALID_ARGUMENT
      | JSymbol \<Rightarrow> Inl INVALID_ARGUMENT
      | JBool b \<Rightarrow> safeLoop h seen visited pending
      | JStr s \<Rightarrow> safeLoop h seen visited pending
      | JRef a \<Rightarrow>
          if a \<in> set seen then Inl INVALID_ARGUMENT
          else if Suc visited > 1000 \<or> depth > 12 then Inl INVALID_ARGUMENT
          else if \<not> isPlainObj (h a) then Inl INVALID_ARGUMENT
          else if list_ex (\<lambda>(k, c). forbiddenField k) (entries (h a))
            then Inl CREDENTIAL_MATERIAL_REJECTED
          else safeLoop h (a # seen) (Suc visited)
                 (rev (map (\<lambda>(k, c). (c, Suc depth)) (entries (h a))) @ pending))"
  by pat_completeness auto
termination
  by (relation "measures [\<lambda>(h, seen, visited, pending). 1001 - visited,
        \<lambda>(h, seen, visited, pending). length pending]") auto

declare safeLoop.simps(2) [simp del]

definition assertSafeInput :: "heap \<Rightarrow> jsval \<Rightarrow> unit result" where
  "assertSafeInput h v = safeLoop h [] 0 [(v, 0)]"

section \<open>Field validators\<close>

definition assertPlainRecord :: "heap \<Rightarrow> jsval \<Rightarrow> (string \<times> jsval) list result" where
  "assertPlainRecord h v = (case v of
     JRef a \<Rightarrow> (case h a of
        JArray xs \<Rightarrow> Inl INVALID_ARGUMENT
      | JObject plain fs \<Rightarrow> if plain then Inr fs else Inl INVALID_ARGUMENT)
   | _ \<Rightarrow> Inl INVALID_ARGUMENT)"

definition assertExactKeys :: "heap \<Rightarrow> jsval \<Rightarrow> string list \<Rightarrow> unit result" where
  "assertExactKeys h v allowed =
     andThen (assertPlainRecord h v) (\<lambda>fs.
     throwIf (\<not> list_all (\<lambda>(k, c). k \<in> set allowed) fs) INVALID_ARGUMENT)"

definition assertIdentifier :: "jsval \<Rightarrow> string result" where
  "assertIdentifier v = (case v of
     JStr s \<Rightarrow> if IDENTIFIER_PATTERN s then Inr s else Inl INVALID_ARGUMENT
   | _ \<Rightarrow> Inl INVALID_ARGUMENT)"

definition assertText :: "jsval \<Rightarrow> nat \<Rightarrow> string result" where
  "assertText v maximumLength = (case v of
     JStr s \<Rightarrow> if js_trim s = [] \<or> length s > maximumLength then Inl INVALID_ARGUMENT else Inr s
   | _ \<Rightarrow> Inl INVALID_ARGUMENT)"

text \<open>The allowed literals are given with the constructor each of them denotes.\<close>

definition assertAllowedValue :: "jsval \<Rightarrow> (string \<times> 'a) list \<Rightarrow> 'a result" where
  "assertAllowedValue v allowed = (case v of
     JStr s \<Rightarrow> (case map_of allowed s of Some x \<Rightarrow> Inr x | None \<Rightarrow> Inl INVALID_ARGUMENT)
   | _ \<Rightarrow> Inl INVALID_ARGUMENT)"

definition assertCountryCode :: "jsval \<Rightarrow> bool \<Rightarrow> string result" where
  "assertCountryCode v allowWildcard = (case v of
     JStr s \<Rightarrow> if (allowWildcard \<and> s = ''*'') \<or> COUNTRY_PATTERN s then Inr s
               else Inl INVALID_ARGUMENT
   | _ \<Rightarrow> Inl INVALID_ARGUMENT)"

definition assertCurrency :: "jsval \<Rightarrow> string result" where
  "assertCurrency v = (case v of
     JStr s \<Rightarrow> if CURRENCY_PATTERN s then Inr s else Inl INVALID_ARGUMENT
   | _ \<Rightarrow> Inl INVALID_ARGUMENT)"

definition assertTimestamp :: "dateParse \<Rightarrow> jsval \<Rightarrow> int result" where
  "assertTimestamp dp v = (case v of
     JStr s \<Rightarrow> if \<not> endsWith s ''Z'' then Inl INVALID_ARGUMENT
               else (case dp s of None \<Rightarrow> Inl INVALID_ARGUMENT | Some t \<Rightarrow> Inr t)
   | _ \<Rightarrow> Inl INVALID_ARGUMENT)"

definition assertPositiveSafeInteger :: "jsval \<Rightarrow> int \<Rightarrow> int result" where
  "assertPositiveSafeInteger v maximum = (case v of
     JNum n \<Rightarrow> if \<not> isSafeInteger n \<or> numLe n 0 \<or> numGt n maximum then Inl INVALID_ARGUMENT
               else Inr (numInt n)
   | _ \<Rightarrow> Inl INVALID_ARGUMENT)"

definition assertPositiveDecimalInteger :: "jsval \<Rightarrow> string result" where
  "assertPositiveDecimalInteger v = (case v of
     JStr s \<Rightarrow> if is_pos_decimal s \<and> length s \<le> 30 then Inr s else Inl INVALID_ARGUMENT
   | _ \<Rightarrow> Inl INVALID_ARGUMENT)"

fun uniqueLoop ::
  "jsval list \<Rightarrow> (string \<Rightarrow> 'a result) \<Rightarrow> string list \<Rightarrow> 'a list result" where
  "uniqueLoop [] validate unique = Inr []"
| "uniqueLoop (JStr s # vs) validate unique =
     andThen (validate s) (\<lambda>x.
     if s \<in> set unique then Inl DUPLICATE_RECORD
     else andThen (uniqueLoop vs validate (s # unique)) (\<lambda>xs. Inr (x # xs)))"
| "uniqueLoop (v # vs) validate unique = Inl INVALID_ARGUMENT"

definition assertUniqueStrings ::
  "heap \<Rightarrow> jsval \<Rightarrow> (string \<Rightarrow> 'a result) \<Rightarrow> 'a list result" where
  "assertUniqueStrings h v validate = (case arrayElems h v of
     None \<Rightarrow> Inl INVALID_ARGUMENT
   | Some vs \<Rightarrow> if length vs = 0 \<or> length vs > 100 then Inl INVALID_ARGUMENT
                else uniqueLoop vs validate [])"

text \<open>The four bounds, on values already read from their object.\<close>

definition capacityLimitFields :: "jsval \<Rightarrow> jsval \<Rightarrow> jsval \<Rightarrow> jsval \<Rightarrow> CapacityLimits result" where
  "capacityLimitFields rpmV tpmV conV motV =
     andThen (assertPositiveSafeInteger rpmV 1000000) (\<lambda>rpm.
     andThen (assertPositiveSafeInteger tpmV 10000000000) (\<lambda>tpm.
     andThen (assertPositiveSafeInteger conV 100000) (\<lambda>con.
     andThen (assertPositiveSafeInteger motV 10000000) (\<lambda>mot.
     Inr \<lparr>requestsPerMinute = rpm, tokensPerMinute = tpm, concurrency = con,
          maxOutputTokens = mot\<rparr>))))"

definition assertCapacityLimits :: "heap \<Rightarrow> jsval \<Rightarrow> CapacityLimits result" where
  "assertCapacityLimits h v =
     andThen (assertExactKeys h v
       [''requestsPerMinute'', ''tokensPerMinute'', ''concurrency'', ''maxOutputTokens'']) (\<lambda>_.
     capacityLimitFields (jget h v ''requestsPerMinute'') (jget h v ''tokensPerMinute'')
       (jget h v ''concurrency'') (jget h v ''maxOutputTokens''))"

definition assertContext ::
  "heap \<Rightarrow> dateParse \<Rightarrow> jsval \<Rightarrow> MarketplaceCommandContext result" where
  "assertContext h dp c =
     andThen (assertSafeInput h c) (\<lambda>_.
     andThen (assertExactKeys h c
       [''tenantId'', ''actorId'', ''commandId'', ''eventId'', ''occurredAt'']) (\<lambda>_.
     andThen (assertIdentifier (jget h c ''tenantId'')) (\<lambda>tenantId.
     andThen (assertIdentifier (jget h c ''actorId'')) (\<lambda>actorId.
     andThen (assertIdentifier (jget h c ''commandId'')) (\<lambda>commandId.
     andThen (assertIdentifier (jget h c ''eventId'')) (\<lambda>eventId.
     andThen (assertTimestamp dp (jget h c ''occurredAt'')) (\<lambda>_.
     Inr \<lparr>ctx_tenantId = tenantId, ctx_actorId = actorId, ctx_commandId = commandId,
          ctx_eventId = eventId, ctx_occurredAt = strOf (jget h c ''occurredAt'')\<rparr>)))))))"

definition assertTenant :: "string \<Rightarrow> MarketplaceCommandContext \<Rightarrow> unit result" where
  "assertTenant tenantId context = throwIf (tenantId \<noteq> ctx_tenantId context) TENANT_MISMATCH"

definition assertCommandNotBefore ::
  "dateParse \<Rightarrow> string \<Rightarrow> MarketplaceCommandContext \<Rightarrow> unit result" where
  "assertCommandNotBefore dp aggregateUpdatedAt context =
     andThen (assertTimestamp dp (JStr (ctx_occurredAt context))) (\<lambda>occurredAt.
     andThen (assertTimestamp dp (JStr aggregateUpdatedAt)) (\<lambda>updatedAt.
     throwIf (occurredAt < updatedAt) INVALID_ARGUMENT))"

definition isActiveAt :: "dateParse \<Rightarrow> string \<Rightarrow> string \<Rightarrow> string \<Rightarrow> bool result" where
  "isActiveAt dp validFrom validUntil instant =
     andThen (assertTimestamp dp (JStr instant)) (\<lambda>at.
     andThen (assertTimestamp dp (JStr validFrom)) (\<lambda>from.
     if from \<le> at then andThen (assertTimestamp dp (JStr validUntil)) (\<lambda>until. Inr (at < until))
     else Inr False))"

section \<open>What a successful check establishes\<close>

lemma assertIdentifier_Inr [simp, domain_simps]:
  "assertIdentifier v = Inr s \<longleftrightarrow> v = JStr s \<and> IDENTIFIER_PATTERN s"
  by (auto simp: assertIdentifier_def split: jsval.splits)

lemma assertText_Inr [simp, domain_simps]:
  "assertText v m = Inr s \<longleftrightarrow> v = JStr s \<and> js_trim s \<noteq> [] \<and> length s \<le> m"
  by (auto simp: assertText_def split: jsval.splits)

lemma assertAllowedValue_Inr [simp, domain_simps]:
  "assertAllowedValue v al = Inr x \<longleftrightarrow> (\<exists>s. v = JStr s \<and> map_of al s = Some x)"
  by (auto simp: assertAllowedValue_def split: jsval.splits option.splits)

lemma assertCountryCode_Inr [simp, domain_simps]:
  "assertCountryCode v w = Inr s \<longleftrightarrow> v = JStr s \<and> ((w \<and> s = ''*'') \<or> COUNTRY_PATTERN s)"
  by (auto simp: assertCountryCode_def split: jsval.splits)

lemma assertCurrency_Inr [simp, domain_simps]:
  "assertCurrency v = Inr s \<longleftrightarrow> v = JStr s \<and> CURRENCY_PATTERN s"
  by (auto simp: assertCurrency_def split: jsval.splits)

lemma assertTimestamp_Inr [domain_simps]:
  "assertTimestamp dp v = Inr t \<longleftrightarrow> (\<exists>s. v = JStr s \<and> endsWith s ''Z'' \<and> dp s = Some t)"
  by (auto simp: assertTimestamp_def split: jsval.splits option.splits)

lemma assertPositiveSafeInteger_Inr [domain_simps]:
  "assertPositiveSafeInteger v m = Inr i \<longleftrightarrow>
     v = JNum (NInt i) \<and> 0 < i \<and> i \<le> m \<and> i \<le> MAX_SAFE_INTEGER"
  by (auto simp: assertPositiveSafeInteger_def isSafeInteger_iff split: jsval.splits)

lemma assertPositiveDecimalInteger_Inr [simp, domain_simps]:
  "assertPositiveDecimalInteger v = Inr s \<longleftrightarrow>
     v = JStr s \<and> is_pos_decimal s \<and> length s \<le> 30"
  by (auto simp: assertPositiveDecimalInteger_def split: jsval.splits)

lemma uniqueLoop_Inr:
  "uniqueLoop vs f u = Inr xs \<longleftrightarrow>
     (\<exists>ss. vs = map JStr ss \<and> distinct ss \<and> set ss \<inter> set u = {} \<and>
        list_all2 (\<lambda>s x. f s = Inr x) ss xs)"
proof (induction vs f u arbitrary: xs rule: uniqueLoop.induct)
  case (1 f u)
  then show ?case by auto
next
  case (2 s vs f u)
  show ?case
  proof
    assume "uniqueLoop (JStr s # vs) f u = Inr xs"
    then obtain x ys where x: "f s = Inr x" "s \<notin> set u" "uniqueLoop vs f (s # u) = Inr ys"
      "xs = x # ys" by (auto split: if_splits)
    with "2" obtain ss where "vs = map JStr ss" "distinct ss" "set ss \<inter> set (s # u) = {}"
      "list_all2 (\<lambda>s x. f s = Inr x) ss ys" by blast
    with x show "\<exists>ss. JStr s # vs = map JStr ss \<and> distinct ss \<and> set ss \<inter> set u = {} \<and>
        list_all2 (\<lambda>s x. f s = Inr x) ss xs"
      by (intro exI [of _ "s # ss"]) auto
  next
    assume "\<exists>ss. JStr s # vs = map JStr ss \<and> distinct ss \<and> set ss \<inter> set u = {} \<and>
        list_all2 (\<lambda>s x. f s = Inr x) ss xs"
    then obtain ss x ys where ss: "vs = map JStr ss" "distinct (s # ss)" "set (s # ss) \<inter> set u = {}"
      "xs = x # ys" "f s = Inr x" "list_all2 (\<lambda>s x. f s = Inr x) ss ys"
      by (auto simp: Cons_eq_map_conv list_all2_Cons1)
    then have "uniqueLoop vs f (s # u) = Inr ys"
      by (subst "2") (auto intro!: exI [of _ ss])
    with ss show "uniqueLoop (JStr s # vs) f u = Inr xs" by auto
  qed
qed auto

lemma assertUniqueStrings_Inr [domain_simps]:
  "assertUniqueStrings h v f = Inr xs \<longleftrightarrow>
     (\<exists>ss. arrayElems h v = Some (map JStr ss) \<and> distinct ss \<and> ss \<noteq> [] \<and> length ss \<le> 100 \<and>
        list_all2 (\<lambda>s x. f s = Inr x) ss xs)"
  by (auto simp: assertUniqueStrings_def uniqueLoop_Inr split: option.splits)

text \<open>Validators that return the string they were given keep the list unchanged.\<close>

lemma list_all2_same_string:
  assumes "list_all2 (\<lambda>s x. f s = Inr x) ss xs" and "\<And>s x. f s = Inr x \<Longrightarrow> x = s"
  shows "xs = ss"
  using assms by (induction rule: list_all2_induct) auto

lemma assertTenant_Inr [simp, domain_simps]:
  "assertTenant t c = Inr u \<longleftrightarrow> t = ctx_tenantId c"
  by (simp add: assertTenant_def)

definition limitsInRange :: "CapacityLimits \<Rightarrow> bool" where
  "limitsInRange l \<longleftrightarrow> 0 < requestsPerMinute l \<and> requestsPerMinute l \<le> 1000000 \<and>
     0 < tokensPerMinute l \<and> tokensPerMinute l \<le> 10000000000 \<and>
     0 < concurrency l \<and> concurrency l \<le> 100000 \<and>
     0 < maxOutputTokens l \<and> maxOutputTokens l \<le> 10000000"

lemma capacityLimitFields_range:
  "capacityLimitFields a b c d = Inr l \<Longrightarrow> limitsInRange l"
  by (auto simp: capacityLimitFields_def assertPositiveSafeInteger_Inr limitsInRange_def)

lemma assertCapacityLimits_range:
  "assertCapacityLimits h v = Inr l \<Longrightarrow> limitsInRange l"
  by (auto simp: assertCapacityLimits_def intro: capacityLimitFields_range)

lemma assertCommandNotBefore_Inr [domain_simps]:
  "assertCommandNotBefore dp u c = Inr x \<longleftrightarrow>
     (\<exists>t s. assertTimestamp dp (JStr (ctx_occurredAt c)) = Inr t \<and>
        assertTimestamp dp (JStr u) = Inr s \<and> s \<le> t)"
  by (auto simp: assertCommandNotBefore_def)

section \<open>Soundness of the structural screening\<close>

text \<open>
  A value is acceptable at a depth: no non-finite number and no non-serializable
  primitive, and an object is plain, at depth at most 12, with no forbidden field.
\<close>

fun acceptable :: "heap \<Rightarrow> nat \<Rightarrow> jsval \<Rightarrow> bool" where
  "acceptable h d (JNum n) = isFiniteNum n"
| "acceptable h d (JBigInt i) = False"
| "acceptable h d JFunction = False"
| "acceptable h d JSymbol = False"
| "acceptable h d (JRef a) = (d \<le> 12 \<and> isPlainObj (h a) \<and>
     (\<forall>(k, c) \<in> set (entries (h a)). \<not> forbiddenField k))"
| "acceptable h d _ = True"

text \<open>The children pushed for an object.\<close>

definition childItems :: "heap \<Rightarrow> addr \<Rightarrow> nat \<Rightarrow> (jsval \<times> nat) list" where
  "childItems h a d = rev (map (\<lambda>(k, c). (c, Suc d)) (entries (h a)))"

lemma length_childItems [simp]: "length (childItems h a d) = length (entries (h a))"
  by (simp add: childItems_def)

lemma childItems_nth:
  "j < length (entries (h a)) \<Longrightarrow>
     childItems h a d ! (length (entries (h a)) - Suc j) = (snd (entries (h a) ! j), Suc d)"
  by (simp add: childItems_def rev_nth case_prod_beta)

lemma safeLoop_Ref:
  assumes "safeLoop h seen n ((JRef a, d) # pending) = Inr ()"
  shows "a \<notin> set seen" "n < 1000" "acceptable h d (JRef a)"
    "safeLoop h (a # seen) (Suc n) (childItems h a d @ pending) = Inr ()"
  using assms
  by (auto simp: safeLoop.simps(2) childItems_def list_ex_iff split: if_splits)

lemma safeLoop_leaf:
  assumes "safeLoop h seen n ((v, d) # pending) = Inr ()" and "\<And>a. v \<noteq> JRef a"
  shows "acceptable h d v \<and> safeLoop h seen n pending = Inr ()"
  using assms by (cases v) (auto simp: safeLoop.simps(2) split: if_splits)

text \<open>Induction over a successful run: one case per shape of the top of the stack.\<close>

lemma safeLoop_induct [consumes 1, case_names empty leaf ref]:
  assumes "safeLoop h seen n pending = Inr ()"
    and "\<And>seen n. P seen n []"
    and "\<And>seen n v d pending. (\<And>a. v \<noteq> JRef a) \<Longrightarrow> acceptable h d v \<Longrightarrow>
       P seen n pending \<Longrightarrow> P seen n ((v, d) # pending)"
    and "\<And>seen n a d pending. a \<notin> set seen \<Longrightarrow> n < 1000 \<Longrightarrow> acceptable h d (JRef a) \<Longrightarrow>
       P (a # seen) (Suc n) (childItems h a d @ pending) \<Longrightarrow> P seen n ((JRef a, d) # pending)"
  shows "P seen n pending"
  using assms(1)
proof (induction "(1001 - n, length pending)" arbitrary: seen n pending
    rule: wf_induct_rule [OF wf_lex_prod [OF wf_less wf_less]])
  case (1 n pending)
  show ?case
  proof (cases pending)
    case Nil
    with assms(2) show ?thesis by simp
  next
    case (Cons x rest)
    obtain v d where x: "x = (v, d)" by force
    show ?thesis
    proof (cases "\<exists>a. v = JRef a")
      case True
      then obtain a where v: "v = JRef a" by blast
      note r = safeLoop_Ref [of h seen n a d rest]
      from "1.prems" Cons x v
      have "safeLoop h seen n ((JRef a, d) # rest) = Inr ()" by simp
      note r = r [OF this]
      have "P (a # seen) (Suc n) (childItems h a d @ rest)"
        by (rule "1.hyps") (use r in auto)
      with assms(4) r Cons x v show ?thesis by blast
    next
      case False
      with "1.prems" Cons x have l: "acceptable h d v" "safeLoop h seen n rest = Inr ()"
        using safeLoop_leaf by blast+
      have "P seen n rest" by (rule "1.hyps") (use l Cons in auto)
      with assms(3) l False Cons x show ?thesis by blast
    qed
  qed
qed

lemma valueAt_leaf:
  "(\<And>a. v \<noteq> JRef a) \<Longrightarrow> valueAt h v p = Some x \<longleftrightarrow> p = [] \<and> x = v"
  by (cases p; cases v) auto

text \<open>Everything reachable from a pending item is acceptable at its depth.\<close>

lemma safeLoop_acceptable:
  assumes "safeLoop h seen n pending = Inr ()" "(v, d) \<in> set pending" "valueAt h v p = Some x"
  shows "acceptable h (d + length p) x"
  using assms
proof (induction arbitrary: v d p rule: safeLoop_induct)
  case (empty seen n)
  then show ?case by simp
next
  case (leaf seen n w e pending)
  then show ?case by (auto simp: valueAt_leaf)
next
  case (ref seen n a e pending)
  show ?case
  proof (cases "(v, d) = (JRef a, e)")
    case True
    show ?thesis
    proof (cases p)
      case Nil
      with True ref.prems have "x = JRef a" "d = e" by auto
      with Nil ref.hyps show ?thesis by simp
    next
      case (Cons j q)
      with True ref.prems have j: "j < length (entries (h a))"
        and q: "valueAt h (snd (entries (h a) ! j)) q = Some x" by (auto split: if_splits)
      from j have "(snd (entries (h a) ! j), Suc e) \<in> set (childItems h a e)"
        by (metis childItems_nth diff_Suc_less length_childItems length_pos_if_in_set nth_mem)
      with ref.IH [OF _ q, of "Suc e"] have "acceptable h (Suc e + length q) x" by simp
      with True Cons show ?thesis by simp
    qed
  next
    case False
    with ref show ?thesis by auto
  qed
qed

text \<open>
  A position in the work list: an index and a path below it. In a successful run no
  object is found at two positions, and none was entered before.
\<close>

definition objectAt :: "heap \<Rightarrow> (jsval \<times> nat) list \<Rightarrow> nat \<Rightarrow> nat list \<Rightarrow> addr \<Rightarrow> bool" where
  "objectAt h xs i p b \<longleftrightarrow> i < length xs \<and> valueAt h (fst (xs ! i)) p = Some (JRef b)"

lemma objectAt_Cons:
  "objectAt h (x # xs) i p b \<longleftrightarrow>
     (if i = 0 then valueAt h (fst x) p = Some (JRef b) else objectAt h xs (i - 1) p b)"
  by (cases i) (auto simp: objectAt_def)

lemma objectAt_append:
  "objectAt h (xs @ ys) i p b \<longleftrightarrow>
     (if i < length xs then objectAt h xs i p b else objectAt h ys (i - length xs) p b)"
  by (auto simp: objectAt_def nth_append)

lemma objectAt_child:
  "j < length (entries (h a)) \<Longrightarrow> valueAt h (snd (entries (h a) ! j)) p = Some (JRef b) \<Longrightarrow>
     objectAt h (childItems h a d) (length (entries (h a)) - Suc j) p b"
  by (auto simp: objectAt_def childItems_nth)

text \<open>Where a position of the popped list moves to after its head object is expanded.\<close>

fun movedTo :: "nat \<Rightarrow> nat \<Rightarrow> nat list \<Rightarrow> nat \<times> nat list" where
  "movedTo m 0 [] = (0, [])"
| "movedTo m 0 (j # p) = (m - Suc j, p)"
| "movedTo m (Suc i) p = (m + i, p)"

lemma objectAt_step:
  assumes "objectAt h ((JRef a, d) # pending) i p b" and "\<not> (i = 0 \<and> p = [])"
  shows "objectAt h (childItems h a d @ pending)
     (fst (movedTo (length (entries (h a))) i p)) (snd (movedTo (length (entries (h a))) i p)) b"
proof (cases i)
  case 0
  with assms obtain j q where p: "p = j # q" by (cases p) auto
  with 0 assms have j: "j < length (entries (h a))"
    "valueAt h (snd (entries (h a) ! j)) q = Some (JRef b)"
    by (auto simp: objectAt_def split: if_splits)
  with 0 p show ?thesis by (auto simp: objectAt_append intro: objectAt_child)
next
  case (Suc k)
  with assms show ?thesis by (simp add: objectAt_append objectAt_Cons)
qed

lemma movedTo_inject:
  assumes "movedTo m i p = movedTo m j q" "\<not> (i = 0 \<and> p = [])" "\<not> (j = 0 \<and> q = [])"
    and "\<And>x r. i = 0 \<Longrightarrow> p = x # r \<Longrightarrow> x < m" "\<And>x r. j = 0 \<Longrightarrow> q = x # r \<Longrightarrow> x < m"
  shows "i = j \<and> p = q"
  using assms
proof (cases i; cases j)
  fix k l
  assume "i = 0" "j = Suc l"
  with assms show ?thesis by (cases p) fastforce+
next
  fix k l
  assume "i = Suc k" "j = 0"
  with assms show ?thesis by (cases q) fastforce+
next
  assume z: "i = 0" "j = 0"
  with assms obtain x r y t where "p = x # r" "q = y # t" by (cases p; cases q) auto
  with z assms(1,4,5) show ?thesis by fastforce
qed auto

lemma objectAt_first_bound:
  "objectAt h ((JRef a, d) # pending) 0 (x # r) b \<Longrightarrow> x < length (entries (h a))"
  by (auto simp: objectAt_def split: if_splits)

text \<open>
  The invariant of a successful run: entered objects are not met again, every object of the
  work list sits at one position, and at most the remaining budget of objects is there.
\<close>

definition treeLike :: "heap \<Rightarrow> addr list \<Rightarrow> (jsval \<times> nat) list \<Rightarrow> bool" where
  "treeLike h seen xs \<longleftrightarrow>
     (\<forall>i p b. objectAt h xs i p b \<longrightarrow> b \<notin> set seen) \<and>
     (\<forall>i p j q b. objectAt h xs i p b \<longrightarrow> objectAt h xs j q b \<longrightarrow> i = j \<and> p = q)"

lemma treeLike_leaf:
  assumes "\<And>a. v \<noteq> JRef a" "treeLike h seen xs"
  shows "treeLike h seen ((v, d) # xs)"
proof -
  have "\<not> valueAt h v r = Some (JRef b)" for r b
    using assms(1) by (auto simp: valueAt_leaf)
  then have shift: "\<exists>k. i = Suc k \<and> objectAt h xs k p b" if "objectAt h ((v, d) # xs) i p b" for i p b
    using that by (cases i) (auto simp: objectAt_Cons)
  have fresh: "b \<notin> set seen" if "objectAt h xs i p b" for i p b
    using assms(2) that unfolding treeLike_def by blast
  have uniq: "i = j \<and> p = q" if "objectAt h xs i p b" "objectAt h xs j q b" for i p j q b
    using assms(2) that unfolding treeLike_def by blast
  show ?thesis unfolding treeLike_def using shift fresh uniq by metis
qed

lemma treeLike_ref:
  assumes "a \<notin> set seen" and t: "treeLike h (a # seen) (childItems h a d @ xs)"
  shows "treeLike h seen ((JRef a, d) # xs)"
proof -
  let ?m = "length (entries (h a))" and ?xs = "(JRef a, d) # xs"
  have step: "b \<notin> set (a # seen) \<and> objectAt h (childItems h a d @ xs)
       (fst (movedTo ?m i p)) (snd (movedTo ?m i p)) b"
    if "objectAt h ?xs i p b" "\<not> (i = 0 \<and> p = [])" for i p b
    using objectAt_step [OF that] t unfolding treeLike_def by blast
  have root: "b = a" if "objectAt h ?xs 0 [] b" for b
    using that by (simp add: objectAt_def)
  have fresh: "b \<notin> set seen" if "objectAt h ?xs i p b" for i p b
    using step [OF that] root [of b] that assms(1) by (cases "i = 0 \<and> p = []") auto
  have "i = j \<and> p = q" if o: "objectAt h ?xs i p b" "objectAt h ?xs j q b" for i p j q b
  proof (cases "(i = 0 \<and> p = []) \<or> (j = 0 \<and> q = [])")
    case True
    with o root have "b = a" by blast
    with step [OF o(1)] step [OF o(2)] have "i = 0 \<and> p = []" "j = 0 \<and> q = []"
      by (metis list.set_intros(1))+
    then show ?thesis by simp
  next
    case False
    from step [OF o(1)] step [OF o(2)] False t
    have "movedTo ?m i p = movedTo ?m j q"
      unfolding treeLike_def by (metis prod.expand)
    then show ?thesis
      by (rule movedTo_inject) (use False o objectAt_first_bound in blast)+
  qed
  with fresh show ?thesis unfolding treeLike_def by blast
qed

lemma safeLoop_treeLike:
  "safeLoop h seen n pending = Inr () \<Longrightarrow> treeLike h seen pending"
proof (induction rule: safeLoop_induct)
  case (empty seen n)
  then show ?case by (simp add: treeLike_def objectAt_def)
next
  case (leaf seen n v d pending)
  then show ?case by (intro treeLike_leaf)
next
  case (ref seen n a d pending)
  then show ?case by (intro treeLike_ref)
qed

definition objectsOf :: "heap \<Rightarrow> (jsval \<times> nat) list \<Rightarrow> addr set" where
  "objectsOf h xs = {b. \<exists>i p. objectAt h xs i p b}"

lemma safeLoop_count:
  "safeLoop h seen n pending = Inr () \<Longrightarrow>
     finite (objectsOf h pending) \<and> card (objectsOf h pending) \<le> 1000 - n"
proof (induction rule: safeLoop_induct)
  case (empty seen n)
  then show ?case by (simp add: objectsOf_def objectAt_def)
next
  case (leaf seen n v d pending)
  have "objectsOf h ((v, d) # pending) \<subseteq> objectsOf h pending"
    using leaf(1) by (auto simp: objectsOf_def objectAt_Cons valueAt_leaf split: if_splits)
  with leaf show ?case by (meson card_mono finite_subset order_trans)
next
  case (ref seen n a d pending)
  let ?N = "objectsOf h (childItems h a d @ pending)"
  have sub: "objectsOf h ((JRef a, d) # pending) \<subseteq> insert a ?N"
  proof
    fix b
    assume "b \<in> objectsOf h ((JRef a, d) # pending)"
    then obtain i p where o: "objectAt h ((JRef a, d) # pending) i p b"
      by (auto simp: objectsOf_def)
    show "b \<in> insert a ?N"
    proof (cases "i = 0 \<and> p = []")
      case True
      with o show ?thesis by (simp add: objectAt_def)
    next
      case False
      from objectAt_step [OF o this] show ?thesis by (auto simp: objectsOf_def)
    qed
  qed
  from ref have "finite ?N" "card ?N \<le> 1000 - Suc n" by auto
  then have "card (insert a ?N) \<le> Suc (1000 - Suc n)" by (simp add: card_insert_if)
  with sub \<open>finite ?N\<close> \<open>n < 1000\<close> show ?case
    by (metis Suc_diff_Suc card_mono finite.insertI finite_subset order_trans)
qed

lemma objectAt_single: "objectAt h [(v, d)] i p b \<longleftrightarrow> i = 0 \<and> valueAt h v p = Some (JRef b)"
  by (cases i) (auto simp: objectAt_def)

lemma assertSafeInput_acceptable:
  "assertSafeInput h v = Inr u \<Longrightarrow> valueAt h v p = Some x \<Longrightarrow> acceptable h (length p) x"
  using safeLoop_acceptable [of h "[]" 0 "[(v, 0)]" v 0 p x] by (simp add: assertSafeInput_def)

lemma assertSafeInput_tree:
  assumes "assertSafeInput h v = Inr u" "valueAt h v p = Some (JRef a)"
    "valueAt h v q = Some (JRef a)"
  shows "p = q"
  using safeLoop_treeLike [of h "[]" 0 "[(v, 0)]"] assms
  by (simp add: assertSafeInput_def treeLike_def objectAt_single)

lemma assertSafeInput_count:
  assumes "assertSafeInput h v = Inr u"
  shows "finite {a. \<exists>p. valueAt h v p = Some (JRef a)} \<and>
    card {a. \<exists>p. valueAt h v p = Some (JRef a)} \<le> 1000"
  using safeLoop_count [of h "[]" 0 "[(v, 0)]"] assms
  by (simp add: assertSafeInput_def objectsOf_def objectAt_single)

lemma assertSafeInput_field:
  assumes "assertSafeInput h (JRef a) = Inr u" "(k, c) \<in> set (entries (h a))"
  shows "\<not> forbiddenField k"
  using assertSafeInput_acceptable [OF assms(1), of "[]"] assms(2) by auto

text \<open>
  C31: Screening is sound on arbitrary object graphs, shared and cyclic ones included. If an input
  is accepted, no path in it leads to a non-finite number or a non-serializable value, every object
  is plain, at depth at most 12 and without a field whose normalised name contains credential
  material, no object is reached by two paths (so the input is a tree), and it has at most 1000
  objects.
\<close>

theorem safe_input_sound:
  assumes "assertSafeInput h v = Inr u"
  shows "(\<forall>p x. valueAt h v p = Some x \<longrightarrow> acceptable h (length p) x) \<and>
    (\<forall>p q a. valueAt h v p = Some (JRef a) \<longrightarrow> valueAt h v q = Some (JRef a) \<longrightarrow> p = q) \<and>
    card {a. \<exists>p. valueAt h v p = Some (JRef a)} \<le> 1000"
  using assertSafeInput_acceptable [OF assms] assertSafeInput_tree [OF assms]
    assertSafeInput_count [OF assms] by blast

definition exNested :: heap where
  "exNested = heapOf [JObject True [(''limits'', JRef 1), (''name'', JStr ''a'')],
     JObject True [(''rpm'', JNum (NInt 5))],
     JObject True [(''self'', JRef 2)], JObject True [(''api_Key'', JStr ''k'')]]"

lemma exNested_safe: "assertSafeInput exNested (JRef 0) = Inr ()"
  by code_simp

text \<open>A cyclic object and a disguised credential field are refused.\<close>

lemma exNested_refused:
  "assertSafeInput exNested (JRef 2) = Inl INVALID_ARGUMENT"
  "assertSafeInput exNested (JRef 3) = Inl CREDENTIAL_MATERIAL_REJECTED"
  by code_simp+

theorem safe_input_sound_witness:
  "acceptable exNested 1 (JRef 1) \<and> card {a. \<exists>p. valueAt exNested (JRef 0) p = Some (JRef a)} \<le> 1000"
proof -
  have "valueAt exNested (JRef 0) [0] = Some (JRef 1)" by code_simp
  with safe_input_sound [OF exNested_safe] have "acceptable exNested (length [0::nat]) (JRef 1)" by blast
  with safe_input_sound [OF exNested_safe] show ?thesis by simp
qed

end
