(* ===== verification/Supplier.thy ===== *)
theory Supplier
  imports Validation
begin

text \<open>
  The event-sourced supplier aggregate: the marketplace protocol types
  (\<^verbatim>\<open>packages/protocol/src/marketplace.ts\<close>) and the command handlers, the replay and the
  activation rules of \<^verbatim>\<open>packages/marketplace-domain/src/supplier.ts\<close>. A command handler
  receives its input and its context as run-time values (a reference into the heap \<open>h\<close>) and
  returns an event or an error; \<open>rehydrateSupplier\<close> folds a history of events into a state.
\<close>

section \<open>Protocol types\<close>

definition MARKETPLACE_SCHEMA_VERSION :: int where
  "MARKETPLACE_SCHEMA_VERSION = 1"

datatype SupplierKind = Individual | Organization

datatype SupplierStatus = SPending | SActive | SSuspended | SRejected

datatype SupplierVerificationKind =
  VIdentity | VBusiness | VBeneficialOwnership | VTax | VPayout

datatype SupplierVerificationStatus = VVerified | VRejected

datatype CapacitySourceType =
  ApiProject | CommercialAccount | SubscriptionPlan | SelfHostedLicense

datatype CapacityAuthorizedUse = ManagedInference | InferenceResale

datatype CapacityMeteringMode = ProviderReport | SignedReceipt | DedicatedCounter

datatype ProviderAuthorizationStatus = APending | AActive | ASuspended | ARevoked

datatype MarketplaceDataClass = P0 | P1 | P2 | P3

record SupplierRegistrationInput =
  reg_supplierId :: string
  reg_kind :: SupplierKind
  reg_legalName :: string
  reg_displayName :: string
  reg_countryCode :: string
  reg_taxResidenceCountryCode :: string

text \<open>\<open>expiresAt\<close> is only ever tested for truthiness before use; an absent or falsy value is
  \<open>None\<close>.\<close>

record SupplierVerification =
  ver_verificationId :: string
  ver_kind :: SupplierVerificationKind
  ver_status :: SupplierVerificationStatus
  ver_evidenceRef :: string
  ver_completedAt :: string
  ver_expiresAt :: "string option"

record ProviderAuthorization =
  auth_authorizationId :: string
  auth_providerId :: string
  auth_sourceType :: CapacitySourceType
  auth_authorizedUse :: CapacityAuthorizedUse
  auth_meteringMode :: CapacityMeteringMode
  auth_evidenceRef :: string
  auth_modelPatterns :: "string list"
  auth_regionCodes :: "string list"
  auth_allowedDataClasses :: "MarketplaceDataClass list"
  auth_capacityCeiling :: CapacityLimits
  auth_validFrom :: string
  auth_validUntil :: string
  auth_status :: ProviderAuthorizationStatus

text \<open>The event type tag is the constructor; a tag the code does not know is kept as a string.\<close>

datatype SupplierPayload =
    SupplierRegistered SupplierRegistrationInput
  | SupplierVerificationRecorded SupplierVerification
  | ProviderAuthorizationRecorded ProviderAuthorization
  | ProviderAuthorizationRevoked string string
  | SupplierActivated string
  | SupplierSuspended string
  | UnsupportedSupplierEvent string

record SupplierEvent =
  ev_schemaVersion :: int
  ev_eventId :: string
  ev_tenantId :: string
  ev_actorId :: string
  ev_causationId :: string
  ev_aggregateType :: string
  ev_aggregateId :: string
  ev_aggregateVersion :: jsnum
  ev_occurredAt :: string
  ev_payload :: SupplierPayload

record SupplierState =
  sup_supplierId :: string
  sup_tenantId :: string
  sup_kind :: SupplierKind
  sup_legalName :: string
  sup_displayName :: string
  sup_countryCode :: string
  sup_taxResidenceCountryCode :: string
  sup_status :: SupplierStatus
  sup_verifications :: "SupplierVerification list"
  sup_authorizations :: "ProviderAuthorization list"
  sup_version :: int
  sup_createdAt :: string
  sup_updatedAt :: string

section \<open>Shared rules\<close>

fun requiredVerificationKinds :: "SupplierKind \<Rightarrow> SupplierVerificationKind list" where
  "requiredVerificationKinds Individual = [VIdentity, VTax, VPayout]"
| "requiredVerificationKinds Organization = [VBusiness, VBeneficialOwnership, VTax, VPayout]"

definition isAuthorizationActive :: "dateParse \<Rightarrow> ProviderAuthorization \<Rightarrow> string \<Rightarrow> bool result" where
  "isAuthorizationActive dp a instant =
     (if auth_status a = AActive then isActiveAt dp (auth_validFrom a) (auth_validUntil a) instant
      else Inr False)"

definition hasCurrentVerification ::
  "dateParse \<Rightarrow> SupplierState \<Rightarrow> SupplierVerificationKind \<Rightarrow> string \<Rightarrow> bool result" where
  "hasCurrentVerification dp state kind instant =
     (case find (\<lambda>c. ver_kind c = kind \<and> ver_status c = VVerified) (sup_verifications state) of
        None \<Rightarrow> Inr False
      | Some v \<Rightarrow> (case ver_expiresAt v of
          None \<Rightarrow> Inr True
        | Some e \<Rightarrow> andThen (assertTimestamp dp (JStr e)) (\<lambda>expires.
            andThen (assertTimestamp dp (JStr instant)) (\<lambda>at. Inr (expires > at)))))"

definition missingRequiredVerificationKinds ::
  "dateParse \<Rightarrow> SupplierState \<Rightarrow> string \<Rightarrow> SupplierVerificationKind list result" where
  "missingRequiredVerificationKinds dp state instant =
     filterM (\<lambda>kind. andThen (hasCurrentVerification dp state kind instant) (\<lambda>b. Inr (\<not> b)))
       (requiredVerificationKinds (sup_kind state))"

definition assertSupplierWritable :: "SupplierState \<Rightarrow> unit result" where
  "assertSupplierWritable state =
     throwIf (sup_status state = SSuspended \<or> sup_status state = SRejected) INVALID_SUPPLIER_STATE"

definition assertStateContext ::
  "heap \<Rightarrow> dateParse \<Rightarrow> SupplierState \<Rightarrow> jsval \<Rightarrow> MarketplaceCommandContext result" where
  "assertStateContext h dp state context =
     andThen (assertContext h dp context) (\<lambda>ctx.
     andThen (assertTenant (sup_tenantId state) ctx) (\<lambda>_.
     andThen (assertCommandNotBefore dp (sup_updatedAt state) ctx) (\<lambda>_. Inr ctx)))"

definition validateModelPattern :: "string \<Rightarrow> string result" where
  "validateModelPattern s =
     andThen (assertText (JStr s) 120) (\<lambda>_.
     andThen (throwIf (CHR ''*'' \<in> set (butlast s)) INVALID_ARGUMENT) (\<lambda>_. Inr s))"

definition supplierEvent ::
  "SupplierState \<Rightarrow> MarketplaceCommandContext \<Rightarrow> SupplierPayload \<Rightarrow> SupplierEvent" where
  "supplierEvent state ctx payload =
     \<lparr>ev_schemaVersion = MARKETPLACE_SCHEMA_VERSION, ev_eventId = ctx_eventId ctx,
      ev_tenantId = ctx_tenantId ctx, ev_actorId = ctx_actorId ctx,
      ev_causationId = ctx_commandId ctx, ev_aggregateType = ''supplier'',
      ev_aggregateId = sup_supplierId state,
      ev_aggregateVersion = NInt (dbl (sup_version state + 1)),
      ev_occurredAt = ctx_occurredAt ctx, ev_payload = payload\<rparr>"

section \<open>Command handlers\<close>

definition registerSupplier :: "heap \<Rightarrow> dateParse \<Rightarrow> jsval \<Rightarrow> jsval \<Rightarrow> SupplierEvent result" where
  "registerSupplier h dp input context =
     andThen (assertSafeInput h input) (\<lambda>_.
     andThen (assertExactKeys h input [''supplierId'', ''kind'', ''legalName'', ''displayName'',
       ''countryCode'', ''taxResidenceCountryCode'']) (\<lambda>_.
     andThen (assertContext h dp context) (\<lambda>ctx.
     andThen (assertIdentifier (jget h input ''supplierId'')) (\<lambda>supplierId.
     andThen (assertText (jget h input ''legalName'') 200) (\<lambda>legalName.
     andThen (assertText (jget h input ''displayName'') 120) (\<lambda>displayName.
     andThen (assertCountryCode (jget h input ''countryCode'') False) (\<lambda>countryCode.
     andThen (assertCountryCode (jget h input ''taxResidenceCountryCode'') False) (\<lambda>taxCountry.
     andThen (assertAllowedValue (jget h input ''kind'')
       [(''individual'', Individual), (''organization'', Organization)]) (\<lambda>kind.
     Inr \<lparr>ev_schemaVersion = MARKETPLACE_SCHEMA_VERSION, ev_eventId = ctx_eventId ctx,
      ev_tenantId = ctx_tenantId ctx, ev_actorId = ctx_actorId ctx,
      ev_causationId = ctx_commandId ctx, ev_aggregateType = ''supplier'',
      ev_aggregateId = supplierId, ev_aggregateVersion = NInt 1,
      ev_occurredAt = ctx_occurredAt ctx,
      ev_payload = SupplierRegistered \<lparr>reg_supplierId = supplierId, reg_kind = kind,
        reg_legalName = legalName, reg_displayName = displayName, reg_countryCode = countryCode,
        reg_taxResidenceCountryCode = taxCountry\<rparr>\<rparr>)))))))))"

definition verificationKinds :: "(string \<times> SupplierVerificationKind) list" where
  "verificationKinds = [(''identity'', VIdentity), (''business'', VBusiness),
     (''beneficial-ownership'', VBeneficialOwnership), (''tax'', VTax), (''payout'', VPayout)]"

definition recordSupplierVerification ::
  "heap \<Rightarrow> dateParse \<Rightarrow> SupplierState \<Rightarrow> jsval \<Rightarrow> jsval \<Rightarrow> SupplierEvent result" where
  "recordSupplierVerification h dp state input context =
     andThen (assertSafeInput h input) (\<lambda>_.
     andThen (assertExactKeys h input [''verificationId'', ''kind'', ''status'', ''evidenceRef'',
       ''completedAt'', ''expiresAt'']) (\<lambda>_.
     andThen (assertStateContext h dp state context) (\<lambda>ctx.
     andThen (assertSupplierWritable state) (\<lambda>_.
     andThen (assertIdentifier (jget h input ''verificationId'')) (\<lambda>verificationId.
     andThen (assertIdentifier (jget h input ''evidenceRef'')) (\<lambda>evidenceRef.
     andThen (assertAllowedValue (jget h input ''kind'') verificationKinds) (\<lambda>kind.
     andThen (assertAllowedValue (jget h input ''status'')
       [(''verified'', VVerified), (''rejected'', VRejected)]) (\<lambda>status.
     andThen (assertTimestamp dp (jget h input ''completedAt'')) (\<lambda>completedAt.
     andThen (assertTimestamp dp (JStr (ctx_occurredAt ctx))) (\<lambda>occurredAt.
     andThen (throwIf (completedAt > occurredAt) INVALID_ARGUMENT) (\<lambda>_.
     andThen (if truthy (jget h input ''expiresAt'')
       then andThen (assertTimestamp dp (jget h input ''expiresAt'')) (\<lambda>expiresAt.
         andThen (throwIf (expiresAt \<le> completedAt) INVALID_ARGUMENT) (\<lambda>_.
         Inr (Some (strOf (jget h input ''expiresAt'')))))
       else Inr None) (\<lambda>expires.
     andThen (throwIf (find (\<lambda>v. ver_verificationId v = verificationId \<and> ver_kind v \<noteq> kind)
       (sup_verifications state) \<noteq> None) DUPLICATE_RECORD) (\<lambda>_.
     Inr (supplierEvent state ctx (SupplierVerificationRecorded
       \<lparr>ver_verificationId = verificationId, ver_kind = kind, ver_status = status,
        ver_evidenceRef = evidenceRef, ver_completedAt = strOf (jget h input ''completedAt''),
        ver_expiresAt = expires\<rparr>)))))))))))))))"

definition dataClassLiterals :: "(string \<times> MarketplaceDataClass) list" where
  "dataClassLiterals = [(''P0'', P0), (''P1'', P1), (''P2'', P2), (''P3'', P3)]"

definition recordProviderAuthorization ::
  "heap \<Rightarrow> dateParse \<Rightarrow> SupplierState \<Rightarrow> jsval \<Rightarrow> jsval \<Rightarrow> SupplierEvent result" where
  "recordProviderAuthorization h dp state input context =
     andThen (assertSafeInput h input) (\<lambda>_.
     andThen (assertExactKeys h input [''authorizationId'', ''providerId'', ''sourceType'',
       ''authorizedUse'', ''meteringMode'', ''evidenceRef'', ''modelPatterns'', ''regionCodes'',
       ''allowedDataClasses'', ''capacityCeiling'', ''validFrom'', ''validUntil'', ''status'']) (\<lambda>_.
     andThen (assertStateContext h dp state context) (\<lambda>ctx.
     andThen (assertSupplierWritable state) (\<lambda>_.
     andThen (assertIdentifier (jget h input ''authorizationId'')) (\<lambda>authorizationId.
     andThen (assertIdentifier (jget h input ''providerId'')) (\<lambda>providerId.
     andThen (assertIdentifier (jget h input ''evidenceRef'')) (\<lambda>evidenceRef.
     andThen (assertAllowedValue (jget h input ''sourceType'')
       [(''api-project'', ApiProject), (''commercial-account'', CommercialAccount),
        (''subscription-plan'', SubscriptionPlan), (''self-hosted-license'', SelfHostedLicense)]) (\<lambda>sourceType.
     andThen (assertAllowedValue (jget h input ''authorizedUse'')
       [(''managed-inference'', ManagedInference), (''inference-resale'', InferenceResale)]) (\<lambda>authorizedUse.
     andThen (assertAllowedValue (jget h input ''meteringMode'')
       [(''provider-report'', ProviderReport), (''signed-receipt'', SignedReceipt),
        (''dedicated-counter'', DedicatedCounter)]) (\<lambda>meteringMode.
     andThen (assertAllowedValue (jget h input ''status'')
       [(''pending'', APending), (''active'', AActive), (''suspended'', ASuspended)]) (\<lambda>status.
     andThen (assertTimestamp dp (jget h input ''validFrom'')) (\<lambda>validFrom.
     andThen (assertTimestamp dp (jget h input ''validUntil'')) (\<lambda>validUntil.
     andThen (throwIf (validUntil \<le> validFrom) INVALID_ARGUMENT) (\<lambda>_.
     andThen (assertUniqueStrings h (jget h input ''modelPatterns'') validateModelPattern) (\<lambda>modelPatterns.
     andThen (assertUniqueStrings h (jget h input ''regionCodes'')
       (\<lambda>value. assertCountryCode (JStr value) True)) (\<lambda>regionCodes.
     andThen (assertUniqueStrings h (jget h input ''allowedDataClasses'')
       (\<lambda>value. assertAllowedValue (JStr value) dataClassLiterals)) (\<lambda>allowedDataClasses.
     andThen (throwIf (P2 \<in> set allowedDataClasses \<or> P3 \<in> set allowedDataClasses)
       UNSUPPORTED_DATA_CLASS) (\<lambda>_.
     andThen (assertCapacityLimits h (jget h input ''capacityCeiling'')) (\<lambda>capacityCeiling.
     andThen (throwIf (list_ex (\<lambda>a. auth_authorizationId a = authorizationId)
       (sup_authorizations state)) DUPLICATE_RECORD) (\<lambda>_.
     Inr (supplierEvent state ctx (ProviderAuthorizationRecorded
       \<lparr>auth_authorizationId = authorizationId, auth_providerId = providerId,
        auth_sourceType = sourceType, auth_authorizedUse = authorizedUse,
        auth_meteringMode = meteringMode, auth_evidenceRef = evidenceRef,
        auth_modelPatterns = modelPatterns, auth_regionCodes = regionCodes,
        auth_allowedDataClasses = allowedDataClasses, auth_capacityCeiling = capacityCeiling,
        auth_validFrom = strOf (jget h input ''validFrom''),
        auth_validUntil = strOf (jget h input ''validUntil''),
        auth_status = status\<rparr>))))))))))))))))))))))"

definition revokeProviderAuthorization ::
  "heap \<Rightarrow> dateParse \<Rightarrow> SupplierState \<Rightarrow> jsval \<Rightarrow> jsval \<Rightarrow> SupplierEvent result" where
  "revokeProviderAuthorization h dp state input context =
     andThen (assertSafeInput h input) (\<lambda>_.
     andThen (assertExactKeys h input [''authorizationId'', ''reasonCode'']) (\<lambda>_.
     andThen (assertStateContext h dp state context) (\<lambda>ctx.
     andThen (assertIdentifier (jget h input ''authorizationId'')) (\<lambda>authorizationId.
     andThen (assertIdentifier (jget h input ''reasonCode'')) (\<lambda>reasonCode.
     case find (\<lambda>c. auth_authorizationId c = authorizationId) (sup_authorizations state) of
       None \<Rightarrow> Inl AUTHORIZATION_REQUIRED
     | Some a \<Rightarrow> if auth_status a = ARevoked then Inl AUTHORIZATION_REQUIRED
         else Inr (supplierEvent state ctx
           (ProviderAuthorizationRevoked authorizationId reasonCode)))))))"

definition activateSupplier ::
  "heap \<Rightarrow> dateParse \<Rightarrow> SupplierState \<Rightarrow> jsval \<Rightarrow> SupplierEvent result" where
  "activateSupplier h dp state context =
     andThen (assertStateContext h dp state context) (\<lambda>ctx.
     andThen (throwIf (sup_status state \<noteq> SPending) INVALID_SUPPLIER_STATE) (\<lambda>_.
     andThen (missingRequiredVerificationKinds dp state (ctx_occurredAt ctx)) (\<lambda>missing.
     andThen (throwIf (missing \<noteq> []) VERIFICATION_INCOMPLETE) (\<lambda>_.
     andThen (someM (\<lambda>a. isAuthorizationActive dp a (ctx_occurredAt ctx))
       (sup_authorizations state)) (\<lambda>anyActive.
     andThen (throwIf (\<not> anyActive) AUTHORIZATION_REQUIRED) (\<lambda>_.
     Inr (supplierEvent state ctx (SupplierActivated (ctx_occurredAt ctx)))))))))"

definition suspendSupplier ::
  "heap \<Rightarrow> dateParse \<Rightarrow> SupplierState \<Rightarrow> jsval \<Rightarrow> jsval \<Rightarrow> SupplierEvent result" where
  "suspendSupplier h dp state input context =
     andThen (assertSafeInput h input) (\<lambda>_.
     andThen (assertExactKeys h input [''reasonCode'']) (\<lambda>_.
     andThen (assertStateContext h dp state context) (\<lambda>ctx.
     andThen (assertIdentifier (jget h input ''reasonCode'')) (\<lambda>reasonCode.
     andThen (throwIf (sup_status state = SSuspended \<or> sup_status state = SRejected)
       INVALID_SUPPLIER_STATE) (\<lambda>_.
     Inr (supplierEvent state ctx (SupplierSuspended reasonCode)))))))"

section \<open>Replay\<close>

definition advance :: "SupplierState \<Rightarrow> SupplierEvent \<Rightarrow> SupplierState" where
  "advance state event = state\<lparr>sup_version := numInt (ev_aggregateVersion event),
     sup_updatedAt := ev_occurredAt event\<rparr>"

definition applySupplierEvent ::
  "dateParse \<Rightarrow> SupplierState option \<Rightarrow> SupplierEvent \<Rightarrow> SupplierState result" where
  "applySupplierEvent dp st event = (case ev_payload event of
     SupplierRegistered p \<Rightarrow> (case st of
        Some _ \<Rightarrow> Inl INVALID_EVENT_HISTORY
      | None \<Rightarrow> Inr \<lparr>sup_supplierId = reg_supplierId p, sup_tenantId = ev_tenantId event,
          sup_kind = reg_kind p, sup_legalName = reg_legalName p,
          sup_displayName = reg_displayName p, sup_countryCode = reg_countryCode p,
          sup_taxResidenceCountryCode = reg_taxResidenceCountryCode p, sup_status = SPending,
          sup_verifications = [], sup_authorizations = [],
          sup_version = numInt (ev_aggregateVersion event), sup_createdAt = ev_occurredAt event,
          sup_updatedAt = ev_occurredAt event\<rparr>)
   | payload \<Rightarrow> (case st of
        None \<Rightarrow> Inl INVALID_EVENT_HISTORY
      | Some state \<Rightarrow> (case payload of
          SupplierVerificationRecorded v \<Rightarrow>
            if sup_status state = SSuspended \<or> sup_status state = SRejected
            then Inl INVALID_EVENT_HISTORY
            else if find (\<lambda>w. ver_verificationId w = ver_verificationId v \<and> ver_kind w \<noteq> ver_kind v)
              (sup_verifications state) \<noteq> None then Inl INVALID_EVENT_HISTORY
            else Inr (advance (state\<lparr>sup_verifications :=
              filter (\<lambda>w. ver_kind w \<noteq> ver_kind v) (sup_verifications state) @ [v]\<rparr>) event)
        | ProviderAuthorizationRecorded a \<Rightarrow>
            if sup_status state = SSuspended \<or> sup_status state = SRejected
            then Inl INVALID_EVENT_HISTORY
            else if list_ex (\<lambda>b. auth_authorizationId b = auth_authorizationId a)
              (sup_authorizations state) then Inl INVALID_EVENT_HISTORY
            else Inr (advance (state\<lparr>sup_authorizations := sup_authorizations state @ [a]\<rparr>) event)
        | ProviderAuthorizationRevoked authorizationId reasonCode \<Rightarrow>
            (case find (\<lambda>c. auth_authorizationId c = authorizationId) (sup_authorizations state) of
               None \<Rightarrow> Inl INVALID_EVENT_HISTORY
             | Some a \<Rightarrow> if auth_status a = ARevoked then Inl INVALID_EVENT_HISTORY
                 else Inr (advance (state\<lparr>sup_authorizations := map (\<lambda>b.
                   if auth_authorizationId b = authorizationId then b\<lparr>auth_status := ARevoked\<rparr> else b)
                   (sup_authorizations state)\<rparr>) event))
        | SupplierActivated activatedAt \<Rightarrow>
            if sup_status state \<noteq> SPending then Inl INVALID_EVENT_HISTORY
            else if activatedAt \<noteq> ev_occurredAt event then Inl INVALID_EVENT_HISTORY
            else andThen (missingRequiredVerificationKinds dp state (ev_occurredAt event)) (\<lambda>missing.
              if missing \<noteq> [] then Inl INVALID_EVENT_HISTORY
              else andThen (someM (\<lambda>a. isAuthorizationActive dp a (ev_occurredAt event))
                (sup_authorizations state)) (\<lambda>anyActive.
              if \<not> anyActive then Inl INVALID_EVENT_HISTORY
              else Inr (advance (state\<lparr>sup_status := SActive\<rparr>) event)))
        | SupplierSuspended reasonCode \<Rightarrow>
            if sup_status state = SSuspended \<or> sup_status state = SRejected
            then Inl INVALID_EVENT_HISTORY
            else Inr (advance (state\<lparr>sup_status := SSuspended\<rparr>) event)
        | _ \<Rightarrow> Inl INVALID_EVENT_HISTORY)))"

definition assertHistoryIdentifier :: "string \<Rightarrow> string result" where
  "assertHistoryIdentifier s = catchAs INVALID_EVENT_HISTORY (assertIdentifier (JStr s))"

definition historyTimestamp :: "dateParse \<Rightarrow> string \<Rightarrow> int result" where
  "historyTimestamp dp s =
     (if \<not> endsWith s ''Z'' then Inl INVALID_EVENT_HISTORY
      else (case dp s of None \<Rightarrow> Inl INVALID_EVENT_HISTORY | Some t \<Rightarrow> Inr t))"

text \<open>The variables of the replay loop.\<close>

record ReplayState =
  rp_state :: "SupplierState option"
  rp_eventIds :: "string list"
  rp_causationIds :: "string list"
  rp_previousOccurredAt :: "int option"

definition initialReplay :: ReplayState where
  "initialReplay = \<lparr>rp_state = None, rp_eventIds = [], rp_causationIds = [],
     rp_previousOccurredAt = None\<rparr>"

fun isRegistered :: "SupplierPayload \<Rightarrow> bool" where
  "isRegistered (SupplierRegistered p) = True"
| "isRegistered _ = False"

fun registeredIdMismatch :: "SupplierEvent \<Rightarrow> bool" where
  "registeredIdMismatch event = (case ev_payload event of
     SupplierRegistered p \<Rightarrow> ev_aggregateId event \<noteq> reg_supplierId p | _ \<Rightarrow> False)"

definition replayStep :: "dateParse \<Rightarrow> ReplayState \<Rightarrow> SupplierEvent \<Rightarrow> ReplayState result" where
  "replayStep dp r event =
     andThen (throwIf (ev_schemaVersion event \<noteq> MARKETPLACE_SCHEMA_VERSION \<or>
       ev_aggregateType event \<noteq> ''supplier'') INVALID_EVENT_HISTORY) (\<lambda>_.
     andThen (assertHistoryIdentifier (ev_eventId event)) (\<lambda>_.
     andThen (assertHistoryIdentifier (ev_tenantId event)) (\<lambda>_.
     andThen (assertHistoryIdentifier (ev_actorId event)) (\<lambda>_.
     andThen (assertHistoryIdentifier (ev_causationId event)) (\<lambda>_.
     andThen (assertHistoryIdentifier (ev_aggregateId event)) (\<lambda>_.
     andThen (throwIf (\<not> isSafeInteger (ev_aggregateVersion event) \<or>
       numLe (ev_aggregateVersion event) 0) INVALID_EVENT_HISTORY) (\<lambda>_.
     andThen (historyTimestamp dp (ev_occurredAt event)) (\<lambda>occurredAt.
     andThen (throwIf (case rp_previousOccurredAt r of None \<Rightarrow> False
       | Some previous \<Rightarrow> occurredAt < previous) INVALID_EVENT_HISTORY) (\<lambda>_.
     andThen (throwIf (ev_eventId event \<in> set (rp_eventIds r)) INVALID_EVENT_HISTORY) (\<lambda>_.
     andThen (throwIf (ev_causationId event \<in> set (rp_causationIds r)) INVALID_EVENT_HISTORY) (\<lambda>_.
     andThen (throwIf (ev_aggregateVersion event \<noteq> NInt (dbl
       ((case rp_state r of None \<Rightarrow> 0 | Some s \<Rightarrow> sup_version s) + 1))) INVALID_EVENT_HISTORY) (\<lambda>_.
     andThen (throwIf (rp_state r = None \<and> \<not> isRegistered (ev_payload event))
       INVALID_EVENT_HISTORY) (\<lambda>_.
     andThen (throwIf (registeredIdMismatch event) INVALID_EVENT_HISTORY) (\<lambda>_.
     andThen (throwIf (case rp_state r of None \<Rightarrow> False
       | Some s \<Rightarrow> ev_aggregateId event \<noteq> sup_supplierId s \<or> ev_tenantId event \<noteq> sup_tenantId s)
       INVALID_EVENT_HISTORY) (\<lambda>_.
     andThen (applySupplierEvent dp (rp_state r) event) (\<lambda>state.
     Inr \<lparr>rp_state = Some state, rp_eventIds = ev_eventId event # rp_eventIds r,
          rp_causationIds = ev_causationId event # rp_causationIds r,
          rp_previousOccurredAt = Some occurredAt\<rparr>))))))))))))))))"

definition rehydrateSupplier :: "dateParse \<Rightarrow> SupplierEvent list \<Rightarrow> SupplierState option result" where
  "rehydrateSupplier dp events =
     andThen (foldE (replayStep dp) initialReplay events) (\<lambda>r. Inr (rp_state r))"

section \<open>Well-formed suppliers\<close>

definition supplierWf :: "SupplierState \<Rightarrow> bool" where
  "supplierWf s \<longleftrightarrow> distinct (map auth_authorizationId (sup_authorizations s)) \<and>
     distinct (map ver_kind (sup_verifications s)) \<and> sup_status s \<noteq> SRejected \<and>
     IDENTIFIER_PATTERN (sup_supplierId s) \<and> IDENTIFIER_PATTERN (sup_tenantId s)"

definition replayInv :: "dateParse \<Rightarrow> ReplayState \<Rightarrow> bool" where
  "replayInv dp r \<longleftrightarrow> (case rp_state r of
     None \<Rightarrow> rp_eventIds r = [] \<and> rp_causationIds r = [] \<and> rp_previousOccurredAt r = None
   | Some s \<Rightarrow> supplierWf s \<and> sup_version s = int (length (rp_eventIds r)) \<and>
       sup_version s \<le> MAX_SAFE_INTEGER \<and>
       distinct (rp_eventIds r) \<and> distinct (rp_causationIds r) \<and>
       rp_previousOccurredAt r \<noteq> None \<and>
       historyTimestamp dp (sup_updatedAt s) = Inr (the (rp_previousOccurredAt r)))"

lemma replayInv_initial [simp]: "replayInv dp initialReplay"
  by (simp add: replayInv_def initialReplay_def)

lemma advance_simps [simp]:
  "sup_supplierId (advance s e) = sup_supplierId s"
  "sup_tenantId (advance s e) = sup_tenantId s"
  "sup_kind (advance s e) = sup_kind s"
  "sup_status (advance s e) = sup_status s"
  "sup_verifications (advance s e) = sup_verifications s"
  "sup_authorizations (advance s e) = sup_authorizations s"
  "sup_version (advance s e) = numInt (ev_aggregateVersion e)"
  "sup_createdAt (advance s e) = sup_createdAt s"
  "sup_updatedAt (advance s e) = ev_occurredAt e"
  by (simp_all add: advance_def)

lemma historyTimestamp_Inr:
  "historyTimestamp dp s = Inr t \<longleftrightarrow> endsWith s ''Z'' \<and> dp s = Some t"
  by (auto simp: historyTimestamp_def split: option.splits)

lemma assertTimestamp_history:
  "assertTimestamp dp (JStr s) = Inr t \<longleftrightarrow> historyTimestamp dp s = Inr t"
  by (simp add: assertTimestamp_Inr historyTimestamp_Inr)

lemma assertHistoryIdentifier_Inr [simp]:
  "assertHistoryIdentifier s = Inr t \<longleftrightarrow> t = s \<and> IDENTIFIER_PATTERN s"
  by (auto simp: assertHistoryIdentifier_def)

text \<open>The cases of one applied event, with what each of them changes.\<close>

lemma applySupplierEvent_cases [consumes 1, case_names registered verified authorized revoked
    activated suspended]:
  assumes "applySupplierEvent dp st e = Inr s'"
  obtains
    p where "ev_payload e = SupplierRegistered p" "st = None"
      "s' = \<lparr>sup_supplierId = reg_supplierId p, sup_tenantId = ev_tenantId e,
          sup_kind = reg_kind p, sup_legalName = reg_legalName p,
          sup_displayName = reg_displayName p, sup_countryCode = reg_countryCode p,
          sup_taxResidenceCountryCode = reg_taxResidenceCountryCode p, sup_status = SPending,
          sup_verifications = [], sup_authorizations = [],
          sup_version = numInt (ev_aggregateVersion e), sup_createdAt = ev_occurredAt e,
          sup_updatedAt = ev_occurredAt e\<rparr>"
  | s v where "ev_payload e = SupplierVerificationRecorded v" "st = Some s"
      "sup_status s \<noteq> SSuspended" "sup_status s \<noteq> SRejected"
      "find (\<lambda>w. ver_verificationId w = ver_verificationId v \<and> ver_kind w \<noteq> ver_kind v)
         (sup_verifications s) = None"
      "s' = advance (s\<lparr>sup_verifications :=
         filter (\<lambda>w. ver_kind w \<noteq> ver_kind v) (sup_verifications s) @ [v]\<rparr>) e"
  | s a where "ev_payload e = ProviderAuthorizationRecorded a" "st = Some s"
      "sup_status s \<noteq> SSuspended" "sup_status s \<noteq> SRejected"
      "\<forall>b \<in> set (sup_authorizations s). auth_authorizationId b \<noteq> auth_authorizationId a"
      "s' = advance (s\<lparr>sup_authorizations := sup_authorizations s @ [a]\<rparr>) e"
  | s i rc a where "ev_payload e = ProviderAuthorizationRevoked i rc" "st = Some s"
      "find (\<lambda>c. auth_authorizationId c = i) (sup_authorizations s) = Some a"
      "auth_status a \<noteq> ARevoked"
      "s' = advance (s\<lparr>sup_authorizations := map (\<lambda>b.
         if auth_authorizationId b = i then b\<lparr>auth_status := ARevoked\<rparr> else b)
         (sup_authorizations s)\<rparr>) e"
  | s where "ev_payload e = SupplierActivated (ev_occurredAt e)" "st = Some s"
      "sup_status s = SPending"
      "missingRequiredVerificationKinds dp s (ev_occurredAt e) = Inr []"
      "someM (\<lambda>a. isAuthorizationActive dp a (ev_occurredAt e)) (sup_authorizations s) = Inr True"
      "s' = advance (s\<lparr>sup_status := SActive\<rparr>) e"
  | s rc where "ev_payload e = SupplierSuspended rc" "st = Some s"
      "sup_status s \<noteq> SSuspended" "sup_status s \<noteq> SRejected"
      "s' = advance (s\<lparr>sup_status := SSuspended\<rparr>) e"
proof (cases "ev_payload e")
  case (SupplierRegistered p)
  with assms that(1) show ?thesis
    by (simp add: applySupplierEvent_def split: option.splits)
next
  case (SupplierVerificationRecorded v)
  with assms that(2) show ?thesis
    by (auto simp: applySupplierEvent_def split: option.splits if_splits)
next
  case (ProviderAuthorizationRecorded a)
  with assms that(3) show ?thesis
    by (auto simp: applySupplierEvent_def list_ex_iff split: option.splits if_splits)
next
  case (ProviderAuthorizationRevoked i rc)
  with assms that(4) show ?thesis
    by (auto simp: applySupplierEvent_def split: option.splits if_splits)
next
  case (SupplierActivated t)
  with assms that(5) show ?thesis
    by (auto simp: applySupplierEvent_def split: option.splits if_splits)
next
  case (SupplierSuspended rc)
  with assms that(6) show ?thesis
    by (auto simp: applySupplierEvent_def split: option.splits if_splits)
next
  case (UnsupportedSupplierEvent t)
  with assms show ?thesis by (simp add: applySupplierEvent_def split: option.splits)
qed

lemma revoke_keeps_ids [simp]:
  "auth_authorizationId \<circ> (\<lambda>b. if P b then b\<lparr>auth_status := x\<rparr> else b) = auth_authorizationId"
  by (rule ext) simp

lemma applySupplierEvent_version:
  "applySupplierEvent dp st e = Inr s' \<Longrightarrow>
     sup_version s' = numInt (ev_aggregateVersion e) \<and> sup_updatedAt s' = ev_occurredAt e"
  by (cases rule: applySupplierEvent_cases) auto

lemma applySupplierEvent_wf:
  assumes "applySupplierEvent dp st e = Inr s'"
    and "\<And>s. st = Some s \<Longrightarrow> supplierWf s"
    and "st = None \<Longrightarrow> IDENTIFIER_PATTERN (ev_tenantId e)"
    and "\<And>p. ev_payload e = SupplierRegistered p \<Longrightarrow> IDENTIFIER_PATTERN (reg_supplierId p)"
  shows "supplierWf s'"
  using assms
proof (cases rule: applySupplierEvent_cases)
  case (verified s v)
  with assms(2) have "supplierWf s" by blast
  with verified show ?thesis
    by (auto simp: supplierWf_def intro: distinct_map_filter)
next
  case (revoked s i rc a)
  with assms(2) have "supplierWf s" by blast
  with revoked show ?thesis by (simp add: supplierWf_def)
qed (auto simp: supplierWf_def)

text \<open>What a successful replay step checks and does.\<close>

lemma replayStep_Inr:
  "replayStep dp r e = Inr r' \<longleftrightarrow>
     ev_schemaVersion e = MARKETPLACE_SCHEMA_VERSION \<and> ev_aggregateType e = ''supplier'' \<and>
     IDENTIFIER_PATTERN (ev_eventId e) \<and> IDENTIFIER_PATTERN (ev_tenantId e) \<and>
     IDENTIFIER_PATTERN (ev_actorId e) \<and> IDENTIFIER_PATTERN (ev_causationId e) \<and>
     IDENTIFIER_PATTERN (ev_aggregateId e) \<and>
     isSafeInteger (ev_aggregateVersion e) \<and> \<not> numLe (ev_aggregateVersion e) 0 \<and>
     ev_aggregateVersion e = NInt (dbl ((case rp_state r of None \<Rightarrow> 0 | Some s \<Rightarrow> sup_version s) + 1)) \<and>
     (\<forall>prev. rp_previousOccurredAt r = Some prev \<longrightarrow>
        (\<forall>t. historyTimestamp dp (ev_occurredAt e) = Inr t \<longrightarrow> prev \<le> t)) \<and>
     ev_eventId e \<notin> set (rp_eventIds r) \<and> ev_causationId e \<notin> set (rp_causationIds r) \<and>
     (rp_state r = None \<longrightarrow> isRegistered (ev_payload e)) \<and> \<not> registeredIdMismatch e \<and>
     (\<forall>s. rp_state r = Some s \<longrightarrow>
        ev_aggregateId e = sup_supplierId s \<and> ev_tenantId e = sup_tenantId s) \<and>
     (\<exists>t s'. historyTimestamp dp (ev_occurredAt e) = Inr t \<and>
        applySupplierEvent dp (rp_state r) e = Inr s' \<and>
        r' = \<lparr>rp_state = Some s', rp_eventIds = ev_eventId e # rp_eventIds r,
          rp_causationIds = ev_causationId e # rp_causationIds r,
          rp_previousOccurredAt = Some t\<rparr>)"
  by (auto simp: replayStep_def split: option.splits)

lemma registered_id:
  "\<not> registeredIdMismatch e \<Longrightarrow> ev_payload e = SupplierRegistered p \<Longrightarrow>
     reg_supplierId p = ev_aggregateId e"
  by simp

lemma replayStep_inv:
  assumes "replayInv dp r" "replayStep dp r e = Inr r'"
  shows "replayInv dp r'"
proof -
  from assms(2) obtain t s' where e: "historyTimestamp dp (ev_occurredAt e) = Inr t"
      "applySupplierEvent dp (rp_state r) e = Inr s'"
    and r': "r' = \<lparr>rp_state = Some s', rp_eventIds = ev_eventId e # rp_eventIds r,
        rp_causationIds = ev_causationId e # rp_causationIds r, rp_previousOccurredAt = Some t\<rparr>"
    and c: "IDENTIFIER_PATTERN (ev_tenantId e)" "IDENTIFIER_PATTERN (ev_aggregateId e)"
      "\<not> registeredIdMismatch e" "isSafeInteger (ev_aggregateVersion e)"
      "ev_eventId e \<notin> set (rp_eventIds r)" "ev_causationId e \<notin> set (rp_causationIds r)"
      "ev_aggregateVersion e = NInt (dbl ((case rp_state r of None \<Rightarrow> 0 | Some s \<Rightarrow> sup_version s) + 1))"
    unfolding replayStep_Inr by blast
  have wf: "supplierWf s'"
    using e(2) by (rule applySupplierEvent_wf)
      (use assms(1) c registered_id [OF c(3)] in \<open>auto simp: replayInv_def\<close>)
  let ?v = "case rp_state r of None \<Rightarrow> 0 | Some s \<Rightarrow> sup_version s"
  have v: "?v = int (length (rp_eventIds r))"
    using assms(1) by (auto simp: replayInv_def split: option.splits)
  have "dbl (?v + 1) = ?v + 1 \<and> ?v + 1 \<le> MAX_SAFE_INTEGER"
    using c(4,7) v dbl_unsafe [of "?v + 1"] dbl_exact [of "?v + 1"] by fastforce
  with v c(7) have "sup_version s' = int (length (rp_eventIds r')) \<and> sup_version s' \<le> MAX_SAFE_INTEGER"
    using applySupplierEvent_version [OF e(2)] by (simp add: r')
  moreover have "distinct (rp_eventIds r')" "distinct (rp_causationIds r')"
    using assms(1) c by (auto simp: r' replayInv_def split: option.splits)
  ultimately show ?thesis
    using wf e applySupplierEvent_version [OF e(2)] by (simp add: replayInv_def r')
qed

interpretation replay: monotone_steps "replayStep dp" "replayInv dp" "\<lambda>r. length (rp_eventIds r)"
  for dp
proof unfold_locales
  show "replayInv dp s \<Longrightarrow> replayStep dp s x = Inr s' \<Longrightarrow> replayInv dp s'" for s x s'
    by (rule replayStep_inv)
  show "replayInv dp s \<Longrightarrow> replayStep dp s x = Inr s' \<Longrightarrow>
      length (rp_eventIds s) \<le> length (rp_eventIds s')" for s x s'
    by (auto simp: replayStep_Inr)
qed

text \<open>The loop variables after a successful replay of a whole history.\<close>

lemma replay_ids:
  assumes "foldE (replayStep dp) initialReplay evs = Inr r"
  shows "set (rp_eventIds r) = ev_eventId ` set evs"
    and "set (rp_causationIds r) = ev_causationId ` set evs"
    and "length (rp_eventIds r) = length evs"
  using assms
proof (induction evs arbitrary: r rule: rev_induct)
  case Nil
  { case 1 then show ?case by (auto simp: initialReplay_def) }
  { case 2 then show ?case by (auto simp: initialReplay_def) }
  { case 3 then show ?case by (auto simp: initialReplay_def) }
next
  case (snoc e evs)
  { case 1 with snoc show ?case by (auto simp: replayStep_Inr) }
  { case 2 with snoc show ?case by (auto simp: replayStep_Inr) }
  { case 3 with snoc show ?case by (auto simp: replayStep_Inr) }
qed

lemma rehydrate_Inr:
  "rehydrateSupplier dp evs = Inr x \<longleftrightarrow>
     (\<exists>r. foldE (replayStep dp) initialReplay evs = Inr r \<and> rp_state r = x)"
  by (auto simp: rehydrateSupplier_def)

lemma rehydrate_state:
  assumes "rehydrateSupplier dp evs = Inr (Some s)"
  obtains r where "foldE (replayStep dp) initialReplay evs = Inr r" "rp_state r = Some s"
    "replayInv dp r" "supplierWf s" "sup_version s = int (length evs)"
    "historyTimestamp dp (sup_updatedAt s) = Inr (the (rp_previousOccurredAt r))"
    "rp_previousOccurredAt r \<noteq> None"
proof -
  from assms obtain r where r: "foldE (replayStep dp) initialReplay evs = Inr r" "rp_state r = Some s"
    by (auto simp: rehydrate_Inr)
  then have "replayInv dp r" using replay.run_inv replayInv_initial by blast
  with r that replay_ids(3) [OF r(1)] show ?thesis by (auto simp: replayInv_def)
qed

lemma rehydrate_snoc:
  assumes "rehydrateSupplier dp evs = Inr (Some s)"
  shows "rehydrateSupplier dp (evs @ [e]) = Inr x \<Longrightarrow>
    \<exists>s'. x = Some s' \<and> applySupplierEvent dp (Some s) e = Inr s'"
  using assms by (auto simp: rehydrate_Inr replayStep_Inr)

text \<open>The context checks shared by every command on an existing supplier.\<close>

lemma assertContext_Inr:
  "assertContext h dp c = Inr ctx \<Longrightarrow>
     IDENTIFIER_PATTERN (ctx_tenantId ctx) \<and> IDENTIFIER_PATTERN (ctx_actorId ctx) \<and>
     IDENTIFIER_PATTERN (ctx_commandId ctx) \<and> IDENTIFIER_PATTERN (ctx_eventId ctx) \<and>
     (\<exists>t. historyTimestamp dp (ctx_occurredAt ctx) = Inr t)"
  by (auto simp: assertContext_def assertTimestamp_Inr historyTimestamp_Inr)

lemma assertStateContext_Inr:
  assumes "assertStateContext h dp s c = Inr ctx"
  shows "IDENTIFIER_PATTERN (ctx_tenantId ctx) \<and> IDENTIFIER_PATTERN (ctx_actorId ctx) \<and>
     IDENTIFIER_PATTERN (ctx_commandId ctx) \<and> IDENTIFIER_PATTERN (ctx_eventId ctx) \<and>
     ctx_tenantId ctx = sup_tenantId s \<and>
     (\<exists>t u. historyTimestamp dp (ctx_occurredAt ctx) = Inr t \<and>
        historyTimestamp dp (sup_updatedAt s) = Inr u \<and> u \<le> t)"
proof -
  from assms have "assertContext h dp c = Inr ctx" "sup_tenantId s = ctx_tenantId ctx"
    "assertCommandNotBefore dp (sup_updatedAt s) ctx = Inr ()"
    by (auto simp: assertStateContext_def)
  then show ?thesis
    using assertContext_Inr by (fastforce simp: assertCommandNotBefore_Inr assertTimestamp_history)
qed

text \<open>
  An event stamped from a replayed state by a valid context is accepted by the replay as soon
  as its payload applies to that state.
\<close>

lemma stamped_event_replays:
  assumes re: "rehydrateSupplier dp evs = Inr (Some s)"
    and ctx: "assertStateContext h dp s c = Inr ctx"
    and e: "e = supplierEvent s ctx p" "\<not> isRegistered p"
    and ap: "applySupplierEvent dp (Some s) e = Inr s'"
    and fresh: "ev_eventId e \<notin> ev_eventId ` set evs" "ev_causationId e \<notin> ev_causationId ` set evs"
    and room: "int (length evs) < MAX_SAFE_INTEGER"
  shows "rehydrateSupplier dp (evs @ [e]) = Inr (Some s')"
proof -
  from re obtain r where r: "foldE (replayStep dp) initialReplay evs = Inr r" "rp_state r = Some s"
    "supplierWf s" "sup_version s = int (length evs)"
    "historyTimestamp dp (sup_updatedAt s) = Inr (the (rp_previousOccurredAt r))"
    "rp_previousOccurredAt r \<noteq> None" by (rule rehydrate_state)
  note c = assertStateContext_Inr [OF ctx]
  have d: "dbl (sup_version s + 1) = sup_version s + 1"
    using room r by (intro dbl_exact) auto
  have mis: "\<not> registeredIdMismatch e" using e by (cases p) (auto simp: supplierEvent_def)
  from c obtain t where t: "historyTimestamp dp (ctx_occurredAt ctx) = Inr t"
    "the (rp_previousOccurredAt r) \<le> t" using r by auto
  have "replayStep dp r e = Inr \<lparr>rp_state = Some s', rp_eventIds = ev_eventId e # rp_eventIds r,
      rp_causationIds = ev_causationId e # rp_causationIds r, rp_previousOccurredAt = Some t\<rparr>"
    unfolding replayStep_Inr
    using r c d t mis ap room fresh replay_ids(1,2) [OF r(1)] e
    by (auto simp: supplierEvent_def supplierWf_def)
  with r show ?thesis by (auto simp: rehydrate_Inr)
qed

section \<open>Commands against replay\<close>

datatype SupplierCommand =
    RecordVerification jsval
  | RecordAuthorization jsval
  | RevokeAuthorization jsval
  | Activate
  | Suspend jsval

fun handleSupplierCommand ::
  "heap \<Rightarrow> dateParse \<Rightarrow> SupplierState \<Rightarrow> SupplierCommand \<Rightarrow> jsval \<Rightarrow> SupplierEvent result" where
  "handleSupplierCommand h dp s (RecordVerification i) c = recordSupplierVerification h dp s i c"
| "handleSupplierCommand h dp s (RecordAuthorization i) c = recordProviderAuthorization h dp s i c"
| "handleSupplierCommand h dp s (RevokeAuthorization i) c = revokeProviderAuthorization h dp s i c"
| "handleSupplierCommand h dp s Activate c = activateSupplier h dp s c"
| "handleSupplierCommand h dp s (Suspend i) c = suspendSupplier h dp s i c"

text \<open>
  Whatever a handler emits is stamped from the state by its checked context, and applies to
  that state: the handler's guards imply those of the replay.
\<close>

lemma handleSupplierCommand_applies:
  assumes "handleSupplierCommand h dp s cmd c = Inr e"
  shows "\<exists>ctx p s'. assertStateContext h dp s c = Inr ctx \<and> e = supplierEvent s ctx p \<and>
    \<not> isRegistered p \<and> applySupplierEvent dp (Some s) e = Inr s'"
proof (cases cmd)
  case (RecordVerification i)
  with assms show ?thesis
    by (auto simp: recordSupplierVerification_def assertSupplierWritable_def applySupplierEvent_def
        supplierEvent_def)
next
  case (RecordAuthorization i)
  with assms show ?thesis
    by (auto simp: recordProviderAuthorization_def assertSupplierWritable_def
        applySupplierEvent_def supplierEvent_def)
next
  case (RevokeAuthorization i)
  with assms show ?thesis
    by (auto simp: revokeProviderAuthorization_def applySupplierEvent_def supplierEvent_def
        split: option.splits if_splits)
next
  case Activate
  with assms show ?thesis
    by (auto simp: activateSupplier_def applySupplierEvent_def supplierEvent_def)
next
  case (Suspend i)
  with assms show ?thesis
    by (auto simp: suspendSupplier_def applySupplierEvent_def supplierEvent_def)
qed

text \<open>
  C25: Every event a command handler emits for a replayed supplier is accepted when the stored
  history is replayed with it appended, and advances the version by one, provided its event id and
  command id were not used before in that history (and the version stays a safe integer).
\<close>

theorem command_event_replays:
  assumes "rehydrateSupplier dp evs = Inr (Some s)"
    and "handleSupplierCommand h dp s cmd c = Inr e"
    and "ev_eventId e \<notin> ev_eventId ` set evs" "ev_causationId e \<notin> ev_causationId ` set evs"
    and "int (length evs) < MAX_SAFE_INTEGER"
  shows "\<exists>s'. rehydrateSupplier dp (evs @ [e]) = Inr (Some s') \<and>
    applySupplierEvent dp (Some s) e = Inr s' \<and> sup_version s' = sup_version s + 1 \<and>
    sup_tenantId s' = sup_tenantId s \<and> sup_supplierId s' = sup_supplierId s"
proof -
  from handleSupplierCommand_applies [OF assms(2)] obtain ctx p s' where
    e: "assertStateContext h dp s c = Inr ctx" "e = supplierEvent s ctx p" "\<not> isRegistered p"
      "applySupplierEvent dp (Some s) e = Inr s'" by blast
  have r: "rehydrateSupplier dp (evs @ [e]) = Inr (Some s')"
    using assms e by (intro stamped_event_replays)
  from assms(1) have "sup_version s = int (length evs)" by (rule rehydrate_state)
  moreover from r have "sup_version s' = int (length (evs @ [e]))" by (rule rehydrate_state)
  moreover have "sup_tenantId s' = sup_tenantId s \<and> sup_supplierId s' = sup_supplierId s"
    using e(4) by (cases rule: applySupplierEvent_cases) auto
  ultimately show ?thesis using r e by auto
qed

text \<open>Registration starts a history that replays.\<close>

lemma register_replays:
  assumes "registerSupplier h dp i c = Inr e"
  shows "\<exists>s. rehydrateSupplier dp [e] = Inr (Some s) \<and> sup_status s = SPending \<and> sup_version s = 1 \<and>
    sup_verifications s = [] \<and> sup_authorizations s = []"
proof -
  from assms obtain ctx where ctx: "assertContext h dp c = Inr ctx"
    by (auto simp: registerSupplier_def)
  have d: "dbl 1 = 1" by (rule dbl_exact) (simp add: MAX_SAFE_INTEGER_def)
  from assms ctx assertContext_Inr [OF ctx] obtain t where
    e: "ev_payload e = SupplierRegistered p \<Longrightarrow> ev_aggregateId e = reg_supplierId p"
      "isRegistered (ev_payload e)" "ev_schemaVersion e = MARKETPLACE_SCHEMA_VERSION"
      "ev_aggregateType e = ''supplier''" "ev_aggregateVersion e = NInt 1"
      "IDENTIFIER_PATTERN (ev_eventId e)" "IDENTIFIER_PATTERN (ev_tenantId e)"
      "IDENTIFIER_PATTERN (ev_actorId e)" "IDENTIFIER_PATTERN (ev_causationId e)"
      "IDENTIFIER_PATTERN (ev_aggregateId e)" "historyTimestamp dp (ev_occurredAt e) = Inr t"
      "\<not> registeredIdMismatch e" for p
    by (auto simp: registerSupplier_def)
  then obtain p where p: "ev_payload e = SupplierRegistered p" by (cases "ev_payload e") auto
  with e d have "\<exists>r. replayStep dp initialReplay e = Inr r"
    by (auto simp: replayStep_Inr initialReplay_def applySupplierEvent_def MAX_SAFE_INTEGER_def)
  then obtain r where r: "replayStep dp initialReplay e = Inr r" by blast
  with e p show ?thesis
    by (auto simp: rehydrate_Inr replayStep_Inr initialReplay_def applySupplierEvent_def)
qed

text \<open>
  A supplier is active only if its history contains an activation at whose time every
  verification its kind requires was current and at least one provider authorization was active.
\<close>

theorem active_requires_activation:
  assumes "rehydrateSupplier dp evs = Inr (Some s)" "sup_status s = SActive"
  shows "\<exists>before e after s0 a. evs = before @ e # after \<and>
    rehydrateSupplier dp before = Inr (Some s0) \<and>
    ev_payload e = SupplierActivated (ev_occurredAt e) \<and>
    (\<forall>k \<in> set (requiredVerificationKinds (sup_kind s0)).
       hasCurrentVerification dp s0 k (ev_occurredAt e) = Inr True) \<and>
    a \<in> set (sup_authorizations s0) \<and> isAuthorizationActive dp a (ev_occurredAt e) = Inr True"
  using assms
proof (induction evs arbitrary: s rule: rev_induct)
  case Nil
  then show ?case by (simp add: rehydrate_Inr initialReplay_def)
next
  case (snoc e evs)
  from snoc.prems(1) obtain r r' where r: "foldE (replayStep dp) initialReplay evs = Inr r"
    "replayStep dp r e = Inr r'" "rp_state r' = Some s" by (auto simp: rehydrate_Inr)
  then have ap: "applySupplierEvent dp (rp_state r) e = Inr s" by (auto simp: replayStep_Inr)
  have re: "rehydrateSupplier dp evs = Inr (rp_state r)" using r by (auto simp: rehydrate_Inr)
  from ap show ?case
  proof (cases rule: applySupplierEvent_cases)
    case (activated s0)
    then have "\<forall>k \<in> set (requiredVerificationKinds (sup_kind s0)).
        hasCurrentVerification dp s0 k (ev_occurredAt e) = Inr True"
      by (auto simp: missingRequiredVerificationKinds_def filterM_Nil_iff)
    moreover from activated obtain a where "a \<in> set (sup_authorizations s0)"
      "isAuthorizationActive dp a (ev_occurredAt e) = Inr True" by (auto dest: someM_True)
    ultimately show ?thesis using re activated by fastforce
  qed (use snoc re in \<open>fastforce\<close>)+
qed

text \<open>
  Suspension is final. In every continuation of a history that ended suspended the supplier
  stays suspended, gains no verification and no authorization, and every further event is a
  revocation.
\<close>

theorem suspension_final:
  assumes "rehydrateSupplier dp evs = Inr (Some s)" "sup_status s = SSuspended"
    and "rehydrateSupplier dp (evs @ later) = Inr (Some s')"
  shows "sup_status s' = SSuspended \<and> sup_verifications s' = sup_verifications s \<and>
    map auth_authorizationId (sup_authorizations s') = map auth_authorizationId (sup_authorizations s) \<and>
    (\<forall>e \<in> set later. \<exists>i rc. ev_payload e = ProviderAuthorizationRevoked i rc)"
  using assms
proof (induction later arbitrary: s' rule: rev_induct)
  case Nil
  then show ?case by simp
next
  case (snoc e later)
  from snoc.prems(1,3) obtain r r' where r: "foldE (replayStep dp) initialReplay (evs @ later) = Inr r"
    "replayStep dp r e = Inr r'" "rp_state r' = Some s'" by (auto simp: rehydrate_Inr foldE_append)
  have "rp_state r \<noteq> None"
  proof
    assume "rp_state r = None"
    moreover have "replayInv dp r" using r(1) replay.run_inv replayInv_initial by blast
    ultimately have "evs @ later = []" using replay_ids(3) [OF r(1)] by (simp add: replayInv_def)
    with snoc.prems(1) show False by (simp add: rehydrate_Inr initialReplay_def)
  qed
  then obtain m where m: "rp_state r = Some m" by blast
  then have "rehydrateSupplier dp (evs @ later) = Inr (Some m)" using r by (auto simp: rehydrate_Inr)
  note IH = snoc.IH [OF snoc.prems(1,2) this]
  have "applySupplierEvent dp (Some m) e = Inr s'" using r m by (auto simp: replayStep_Inr)
  then show ?case using IH by (cases rule: applySupplierEvent_cases) auto
qed

section \<open>A concrete run\<close>

definition exCtx :: "string \<Rightarrow> string \<Rightarrow> string \<Rightarrow> jsobj" where
  "exCtx cmd ev t = JObject True [(''tenantId'', JStr ''tenant-1''), (''actorId'', JStr ''actor-1''),
     (''commandId'', JStr cmd), (''eventId'', JStr ev), (''occurredAt'', JStr t)]"

definition exHeap :: heap where
  "exHeap = heapOf [
     JObject True [(''supplierId'', JStr ''sup-1''), (''kind'', JStr ''individual''),
       (''legalName'', JStr ''Ada''), (''displayName'', JStr ''Ada''),
       (''countryCode'', JStr ''GB''), (''taxResidenceCountryCode'', JStr ''GB'')],
     exCtx ''cmd-1'' ''evt-1'' ''2026-01-01T00:00:00.000Z'',
     JObject True [(''reasonCode'', JStr ''fraud'')],
     exCtx ''cmd-2'' ''evt-2'' ''2026-01-02T00:00:00.000Z'']"


definition exRegistered :: SupplierEvent where
  "exRegistered = \<lparr>ev_schemaVersion = 1, ev_eventId = ''evt-1'', ev_tenantId = ''tenant-1'',
     ev_actorId = ''actor-1'', ev_causationId = ''cmd-1'', ev_aggregateType = ''supplier'',
     ev_aggregateId = ''sup-1'', ev_aggregateVersion = NInt 1,
     ev_occurredAt = ''2026-01-01T00:00:00.000Z'',
     ev_payload = SupplierRegistered \<lparr>reg_supplierId = ''sup-1'', reg_kind = Individual,
       reg_legalName = ''Ada'', reg_displayName = ''Ada'', reg_countryCode = ''GB'',
       reg_taxResidenceCountryCode = ''GB''\<rparr>\<rparr>"

definition exSupplier :: SupplierState where
  "exSupplier = \<lparr>sup_supplierId = ''sup-1'', sup_tenantId = ''tenant-1'', sup_kind = Individual,
     sup_legalName = ''Ada'', sup_displayName = ''Ada'', sup_countryCode = ''GB'',
     sup_taxResidenceCountryCode = ''GB'', sup_status = SPending, sup_verifications = [],
     sup_authorizations = [], sup_version = 1, sup_createdAt = ''2026-01-01T00:00:00.000Z'',
     sup_updatedAt = ''2026-01-01T00:00:00.000Z''\<rparr>"

definition exSuspended :: SupplierEvent where
  "exSuspended = \<lparr>ev_schemaVersion = 1, ev_eventId = ''evt-2'', ev_tenantId = ''tenant-1'',
     ev_actorId = ''actor-1'', ev_causationId = ''cmd-2'', ev_aggregateType = ''supplier'',
     ev_aggregateId = ''sup-1'', ev_aggregateVersion = NInt 2,
     ev_occurredAt = ''2026-01-02T00:00:00.000Z'', ev_payload = SupplierSuspended ''fraud''\<rparr>"

definition exEvent :: "string \<Rightarrow> string \<Rightarrow> int \<Rightarrow> string \<Rightarrow> SupplierPayload \<Rightarrow> SupplierEvent" where
  "exEvent ev cmd n t p = exRegistered\<lparr>ev_eventId := ev, ev_causationId := cmd,
     ev_aggregateVersion := NInt n, ev_occurredAt := t, ev_payload := p\<rparr>"

definition exVerification :: "string \<Rightarrow> SupplierVerificationKind \<Rightarrow> SupplierVerification" where
  "exVerification i k = \<lparr>ver_verificationId = i, ver_kind = k, ver_status = VVerified,
     ver_evidenceRef = ''doc-1'', ver_completedAt = ''2026-01-01T00:00:00.000Z'',
     ver_expiresAt = Some ''2027-01-01T00:00:00.000Z''\<rparr>"

definition exAuthorization :: ProviderAuthorization where
  "exAuthorization = \<lparr>auth_authorizationId = ''auth-1'', auth_providerId = ''provider-1'',
     auth_sourceType = ApiProject, auth_authorizedUse = InferenceResale,
     auth_meteringMode = ProviderReport, auth_evidenceRef = ''contract-1'',
     auth_modelPatterns = [''gpt-*''], auth_regionCodes = [''GB''],
     auth_allowedDataClasses = [P0, P1],
     auth_capacityCeiling = \<lparr>requestsPerMinute = 60, tokensPerMinute = 100000, concurrency = 4,
       maxOutputTokens = 4096\<rparr>,
     auth_validFrom = ''2026-01-01T00:00:00.000Z'', auth_validUntil = ''2026-12-31T00:00:00.000Z'',
     auth_status = AActive\<rparr>"

definition exHistory :: "SupplierEvent list" where
  "exHistory = [exRegistered,
     exEvent ''evt-2'' ''cmd-2'' 2 ''2026-01-02T00:00:00.000Z''
       (SupplierVerificationRecorded (exVerification ''ver-1'' VIdentity)),
     exEvent ''evt-3'' ''cmd-3'' 3 ''2026-01-02T00:00:00.000Z''
       (SupplierVerificationRecorded (exVerification ''ver-2'' VTax)),
     exEvent ''evt-4'' ''cmd-4'' 4 ''2026-01-02T00:00:00.000Z''
       (SupplierVerificationRecorded (exVerification ''ver-3'' VPayout)),
     exEvent ''evt-5'' ''cmd-5'' 5 ''2026-01-03T00:00:00.000Z''
       (ProviderAuthorizationRecorded exAuthorization),
     exEvent ''evt-6'' ''cmd-6'' 6 ''2026-01-04T00:00:00.000Z''
       (SupplierActivated ''2026-01-04T00:00:00.000Z'')]"

definition exActive :: SupplierState where
  "exActive = exSupplier\<lparr>sup_status := SActive, sup_verifications :=
     [exVerification ''ver-1'' VIdentity, exVerification ''ver-2'' VTax,
      exVerification ''ver-3'' VPayout], sup_authorizations := [exAuthorization],
     sup_version := 6, sup_updatedAt := ''2026-01-04T00:00:00.000Z''\<rparr>"

definition exSuspension :: SupplierEvent where
  "exSuspension = exEvent ''evt-7'' ''cmd-7'' 7 ''2026-01-05T00:00:00.000Z'' (SupplierSuspended ''fraud'')"

definition exRevocation :: SupplierEvent where
  "exRevocation = exEvent ''evt-8'' ''cmd-8'' 8 ''2026-01-06T00:00:00.000Z''
     (ProviderAuthorizationRevoked ''auth-1'' ''fraud'')"

lemma exRegister: "registerSupplier exHeap isoParse (JRef 0) (JRef 1) = Inr exRegistered"
  by code_simp

lemma exReplay: "rehydrateSupplier isoParse [exRegistered] = Inr (Some exSupplier)"
  by code_simp

lemma exSuspend:
  "handleSupplierCommand exHeap isoParse exSupplier (Suspend (JRef 2)) (JRef 3) = Inr exSuspended"
  by code_simp

lemmas replay_eval = rehydrateSupplier_def replayStep_def applySupplierEvent_def advance_def
  historyTimestamp_def assertHistoryIdentifier_def assertIdentifier_def initialReplay_def
  missingRequiredVerificationKinds_def hasCurrentVerification_def isAuthorizationActive_def
  isActiveAt_def assertTimestamp_def catchAs_def MARKETPLACE_SCHEMA_VERSION_def dbl_def
  is_identifier_char_def

lemmas exHistory_eval = exHistory_def exEvent_def exRegistered_def exVerification_def
  exAuthorization_def exActive_def exSupplier_def exSuspension_def exRevocation_def

lemma exHistory_replay: "rehydrateSupplier isoParse exHistory = Inr (Some exActive)"
  by (simp add: replay_eval exHistory_eval eval_simps cong: andThen_weak_cong)

lemma exHistory_suspended:
  "rehydrateSupplier isoParse (exHistory @ [exSuspension]) =
     Inr (Some (exActive\<lparr>sup_status := SSuspended, sup_version := 7,
       sup_updatedAt := ''2026-01-05T00:00:00.000Z''\<rparr>))"
  by (simp add: replay_eval exHistory_eval eval_simps cong: andThen_weak_cong)

lemma exHistory_revoked:
  "rehydrateSupplier isoParse ((exHistory @ [exSuspension]) @ [exRevocation]) =
     Inr (Some (exActive\<lparr>sup_status := SSuspended, sup_version := 8,
       sup_updatedAt := ''2026-01-06T00:00:00.000Z'',
       sup_authorizations := [exAuthorization\<lparr>auth_status := ARevoked\<rparr>]\<rparr>))"
  by (simp add: replay_eval exHistory_eval eval_simps cong: andThen_weak_cong)

theorem command_event_replays_witness:
  "\<exists>s'. rehydrateSupplier isoParse ([exRegistered] @ [exSuspended]) = Inr (Some s') \<and>
     applySupplierEvent isoParse (Some exSupplier) exSuspended = Inr s' \<and>
     sup_version s' = sup_version exSupplier + 1 \<and>
     sup_tenantId s' = sup_tenantId exSupplier \<and> sup_supplierId s' = sup_supplierId exSupplier"
  by (rule command_event_replays [OF exReplay exSuspend])
    (simp_all add: exRegistered_def exSuspended_def MAX_SAFE_INTEGER_def)

theorem active_requires_activation_witness:
  "\<exists>before e after s0 a. exHistory = before @ e # after \<and>
    rehydrateSupplier isoParse before = Inr (Some s0) \<and>
    ev_payload e = SupplierActivated (ev_occurredAt e) \<and>
    (\<forall>k \<in> set (requiredVerificationKinds (sup_kind s0)).
       hasCurrentVerification isoParse s0 k (ev_occurredAt e) = Inr True) \<and>
    a \<in> set (sup_authorizations s0) \<and> isAuthorizationActive isoParse a (ev_occurredAt e) = Inr True"
  by (rule active_requires_activation [OF exHistory_replay]) (simp add: exActive_def)

theorem suspension_final_witness:
  "map auth_authorizationId [exAuthorization\<lparr>auth_status := ARevoked\<rparr>] =
     map auth_authorizationId [exAuthorization] \<and>
   (\<exists>i rc. ev_payload exRevocation = ProviderAuthorizationRevoked i rc)"
  using suspension_final [OF exHistory_suspended _ exHistory_revoked] by (simp add: exActive_def)

end
