(* ===== verification/CapacityOffer.thy ===== *)
theory CapacityOffer
  imports Supplier
begin

text \<open>
  Publication of capacity offers
  (\<^verbatim>\<open>packages/marketplace-domain/src/capacity-offer.ts\<close>): an offer is bounded by the current
  verification of its supplier and by the provider, models, regions, data classes, capacity and
  time window of one active provider authorization.
\<close>

section \<open>Types\<close>

record CapacityRateComponent =
  rate_unit :: string
  rate_amountMicros :: string

record CapacityOfferPublishedPayload =
  off_offerId :: string
  off_authorizationId :: string
  off_providerId :: string
  off_model :: string
  off_serviceTier :: "string option"
  off_regionCode :: string
  off_dataClasses :: "MarketplaceDataClass list"
  off_limits :: CapacityLimits
  off_currency :: string
  off_rates :: "CapacityRateComponent list"
  off_validFrom :: string
  off_validUntil :: string
  off_supplierId :: string
  off_sourceType :: CapacitySourceType

record CapacityOfferPublishedEvent =
  oe_schemaVersion :: int
  oe_eventId :: string
  oe_tenantId :: string
  oe_actorId :: string
  oe_causationId :: string
  oe_aggregateType :: string
  oe_aggregateId :: string
  oe_aggregateVersion :: jsnum
  oe_occurredAt :: string
  oe_type :: string
  oe_payload :: CapacityOfferPublishedPayload

record CapacityOfferState = CapacityOfferPublishedPayload +
  off_tenantId :: string
  off_status :: string
  off_version :: int
  off_publishedAt :: string

section \<open>Rules\<close>

definition matchesPattern :: "string \<Rightarrow> string \<Rightarrow> bool" where
  "matchesPattern value pattern =
     (if pattern = ''*'' then True
      else if endsWith pattern ''*'' then startsWith value (butlast pattern)
      else value = pattern)"

definition isWithinCapacityCeiling :: "CapacityLimits \<Rightarrow> CapacityLimits \<Rightarrow> bool" where
  "isWithinCapacityCeiling requested ceiling =
     (requestsPerMinute requested \<le> requestsPerMinute ceiling \<and>
      tokensPerMinute requested \<le> tokensPerMinute ceiling \<and>
      concurrency requested \<le> concurrency ceiling \<and>
      maxOutputTokens requested \<le> maxOutputTokens ceiling)"

fun ratesLoop :: "heap \<Rightarrow> jsval list \<Rightarrow> string list \<Rightarrow> CapacityRateComponent list result" where
  "ratesLoop h [] units = Inr []"
| "ratesLoop h (rate # rates) units =
     andThen (assertExactKeys h rate [''unit'', ''amountMicros'']) (\<lambda>_.
     andThen (assertText (jget h rate ''unit'') 80) (\<lambda>unit.
     andThen (assertPositiveDecimalInteger (jget h rate ''amountMicros'')) (\<lambda>amount.
     if unit \<in> set units then Inl DUPLICATE_RECORD
     else andThen (ratesLoop h rates (unit # units)) (\<lambda>rs.
       Inr (\<lparr>rate_unit = unit, rate_amountMicros = amount\<rparr> # rs)))))"

definition assertRates :: "heap \<Rightarrow> jsval \<Rightarrow> CapacityRateComponent list result" where
  "assertRates h v = (case arrayElems h v of
     None \<Rightarrow> Inl INVALID_ARGUMENT
   | Some rates \<Rightarrow> if length rates = 0 \<or> length rates > 100 then Inl INVALID_ARGUMENT
       else ratesLoop h rates [])"

definition assertAuthorizationScope ::
  "dateParse \<Rightarrow> ProviderAuthorization option \<Rightarrow> string \<Rightarrow> string \<Rightarrow> string \<Rightarrow>
     MarketplaceDataClass list \<Rightarrow> CapacityLimits \<Rightarrow> string \<Rightarrow> ProviderAuthorization result" where
  "assertAuthorizationScope dp authorization providerId model regionCode dataClasses limits instant =
     (case authorization of
        None \<Rightarrow> Inl AUTHORIZATION_REQUIRED
      | Some a \<Rightarrow>
          andThen (isAuthorizationActive dp a instant) (\<lambda>active.
          if \<not> active then Inl AUTHORIZATION_REQUIRED
          else if auth_providerId a \<noteq> providerId \<or>
              \<not> list_ex (\<lambda>pattern. matchesPattern model pattern) (auth_modelPatterns a) \<or>
              \<not> (''*'' \<in> set (auth_regionCodes a) \<or> regionCode \<in> set (auth_regionCodes a)) \<or>
              \<not> list_all (\<lambda>c. c \<in> set (auth_allowedDataClasses a)) dataClasses \<or>
              \<not> isWithinCapacityCeiling limits (auth_capacityCeiling a)
          then Inl AUTHORIZATION_SCOPE_MISMATCH
          else Inr a))"

definition publishCapacityOffer ::
  "heap \<Rightarrow> dateParse \<Rightarrow> SupplierState \<Rightarrow> jsval \<Rightarrow> jsval \<Rightarrow> CapacityOfferPublishedEvent result" where
  "publishCapacityOffer h dp supplier input context =
     andThen (assertSafeInput h input) (\<lambda>_.
     andThen (assertExactKeys h input [''offerId'', ''authorizationId'', ''providerId'', ''model'',
       ''serviceTier'', ''regionCode'', ''dataClasses'', ''limits'', ''currency'', ''rates'',
       ''validFrom'', ''validUntil'']) (\<lambda>_.
     andThen (assertContext h dp context) (\<lambda>ctx.
     andThen (assertTenant (sup_tenantId supplier) ctx) (\<lambda>_.
     andThen (assertCommandNotBefore dp (sup_updatedAt supplier) ctx) (\<lambda>_.
     andThen (throwIf (sup_status supplier \<noteq> SActive) INVALID_SUPPLIER_STATE) (\<lambda>_.
     andThen (missingRequiredVerificationKinds dp supplier (ctx_occurredAt ctx)) (\<lambda>missing.
     andThen (throwIf (missing \<noteq> []) VERIFICATION_INCOMPLETE) (\<lambda>_.
     andThen (assertIdentifier (jget h input ''offerId'')) (\<lambda>offerId.
     andThen (assertIdentifier (jget h input ''authorizationId'')) (\<lambda>authorizationId.
     andThen (assertIdentifier (jget h input ''providerId'')) (\<lambda>providerId.
     andThen (assertText (jget h input ''model'') 120) (\<lambda>model.
     andThen (if jget h input ''serviceTier'' = JUndefined then Inr None
       else andThen (assertText (jget h input ''serviceTier'') 80) (\<lambda>t. Inr (Some t))) (\<lambda>serviceTier.
     andThen (assertCountryCode (jget h input ''regionCode'') False) (\<lambda>regionCode.
     andThen (assertCurrency (jget h input ''currency'')) (\<lambda>currency.
     andThen (assertUniqueStrings h (jget h input ''dataClasses'')
       (\<lambda>value. assertAllowedValue (JStr value) dataClassLiterals)) (\<lambda>dataClasses.
     andThen (throwIf (P2 \<in> set dataClasses \<or> P3 \<in> set dataClasses) UNSUPPORTED_DATA_CLASS) (\<lambda>_.
     andThen (assertCapacityLimits h (jget h input ''limits'')) (\<lambda>limits.
     andThen (assertRates h (jget h input ''rates'')) (\<lambda>rates.
     andThen (assertTimestamp dp (jget h input ''validFrom'')) (\<lambda>validFrom.
     andThen (assertTimestamp dp (jget h input ''validUntil'')) (\<lambda>validUntil.
     andThen (assertTimestamp dp (JStr (ctx_occurredAt ctx))) (\<lambda>occurredAt.
     andThen (throwIf (validUntil \<le> validFrom \<or> validUntil \<le> occurredAt) INVALID_ARGUMENT) (\<lambda>_.
     andThen (assertAuthorizationScope dp
       (find (\<lambda>c. auth_authorizationId c = authorizationId) (sup_authorizations supplier))
       providerId model regionCode dataClasses limits (ctx_occurredAt ctx)) (\<lambda>authorization.
     andThen (assertTimestamp dp (JStr (auth_validFrom authorization))) (\<lambda>authFrom.
     andThen (if validFrom < authFrom then Inr True
       else andThen (assertTimestamp dp (JStr (auth_validUntil authorization))) (\<lambda>authUntil.
         Inr (validUntil > authUntil))) (\<lambda>outside.
     andThen (throwIf outside AUTHORIZATION_SCOPE_MISMATCH) (\<lambda>_.
     Inr \<lparr>oe_schemaVersion = MARKETPLACE_SCHEMA_VERSION, oe_eventId = ctx_eventId ctx,
      oe_tenantId = ctx_tenantId ctx, oe_actorId = ctx_actorId ctx,
      oe_causationId = ctx_commandId ctx, oe_aggregateType = ''capacity-offer'',
      oe_aggregateId = offerId, oe_aggregateVersion = NInt 1, oe_occurredAt = ctx_occurredAt ctx,
      oe_type = ''capacity-offer.published'',
      oe_payload = \<lparr>off_offerId = offerId, off_authorizationId = authorizationId,
        off_providerId = providerId, off_model = model, off_serviceTier = serviceTier,
        off_regionCode = regionCode, off_dataClasses = dataClasses, off_limits = limits,
        off_currency = currency, off_rates = rates,
        off_validFrom = strOf (jget h input ''validFrom''),
        off_validUntil = strOf (jget h input ''validUntil''),
        off_supplierId = sup_supplierId supplier,
        off_sourceType = auth_sourceType authorization\<rparr>\<rparr>)))))))))))))))))))))))))))"

definition rehydrateCapacityOffer ::
  "CapacityOfferPublishedEvent list \<Rightarrow> CapacityOfferState option result" where
  "rehydrateCapacityOffer events = (case events of
     [] \<Rightarrow> Inr None
   | [event] \<Rightarrow>
       if oe_schemaVersion event \<noteq> MARKETPLACE_SCHEMA_VERSION \<or>
          oe_aggregateType event \<noteq> ''capacity-offer'' \<or> oe_aggregateVersion event \<noteq> NInt 1 \<or>
          oe_aggregateId event \<noteq> off_offerId (oe_payload event)
       then Inl INVALID_EVENT_HISTORY
       else Inr (Some (CapacityOfferPublishedPayload.extend (oe_payload event)
         \<lparr>off_tenantId = oe_tenantId event, off_status = ''active'',
          off_version = numInt (oe_aggregateVersion event),
          off_publishedAt = oe_occurredAt event\<rparr>))
   | _ \<Rightarrow> Inl INVALID_EVENT_HISTORY)"

section \<open>Properties\<close>

lemma ratesLoop_Inr:
  "ratesLoop h vs units = Inr rs \<Longrightarrow> length rs = length vs \<and> distinct (map rate_unit rs) \<and>
     set (map rate_unit rs) \<inter> set units = {} \<and>
     (\<forall>r \<in> set rs. is_pos_decimal (rate_amountMicros r) \<and> js_trim (rate_unit r) \<noteq> [])"
proof (induction vs arbitrary: units rs)
  case Nil
  then show ?case by simp
next
  case (Cons v vs)
  then obtain r rs' where "rs = r # rs'" "ratesLoop h vs (rate_unit r # units) = Inr rs'"
    "rate_unit r \<notin> set units" "is_pos_decimal (rate_amountMicros r)" "js_trim (rate_unit r) \<noteq> []"
    by (auto split: if_splits)
  with Cons.IH [of "rate_unit r # units" rs'] show ?case by auto
qed

lemma isAuthorizationActive_True:
  "isAuthorizationActive dp a i = Inr True \<Longrightarrow> auth_status a = AActive \<and>
     (\<exists>f t u. historyTimestamp dp (auth_validFrom a) = Inr f \<and> historyTimestamp dp i = Inr t \<and>
        historyTimestamp dp (auth_validUntil a) = Inr u \<and> f \<le> t \<and> t < u)"
  by (auto simp: isAuthorizationActive_def isActiveAt_def assertTimestamp_history split: if_splits)

text \<open>Every pattern accepted by \<open>validateModelPattern\<close> denotes a name or a prefix.\<close>

lemma matchesPattern_validated:
  assumes "validateModelPattern p = Inr p'"
  shows "matchesPattern v p \<longleftrightarrow>
    (if CHR ''*'' \<in> set p then \<exists>t. v = butlast p @ t else v = p)"
proof -
  from assms have star: "CHR ''*'' \<notin> set (butlast p)" and ne: "p \<noteq> []"
    by (auto simp: validateModelPattern_def js_trim_def)
  have "endsWith p ''*'' \<longleftrightarrow> CHR ''*'' \<in> set p"
    using ne star by (cases p rule: rev_cases) (auto simp: endsWith_iff)
  then show ?thesis by (auto simp: matchesPattern_def startsWith_iff)
qed

definition offerWithin :: "dateParse \<Rightarrow> ProviderAuthorization \<Rightarrow> CapacityOfferPublishedPayload \<Rightarrow> bool" where
  "offerWithin dp a p \<longleftrightarrow> auth_authorizationId a = off_authorizationId p \<and>
     auth_providerId a = off_providerId p \<and> auth_sourceType a = off_sourceType p \<and>
     (\<exists>pat \<in> set (auth_modelPatterns a). matchesPattern (off_model p) pat) \<and>
     (''*'' \<in> set (auth_regionCodes a) \<or> off_regionCode p \<in> set (auth_regionCodes a)) \<and>
     set (off_dataClasses p) \<subseteq> set (auth_allowedDataClasses a) \<inter> {P0, P1} \<and>
     isWithinCapacityCeiling (off_limits p) (auth_capacityCeiling a) \<and>
     (\<exists>f u af au. historyTimestamp dp (off_validFrom p) = Inr f \<and>
        historyTimestamp dp (off_validUntil p) = Inr u \<and>
        historyTimestamp dp (auth_validFrom a) = Inr af \<and>
        historyTimestamp dp (auth_validUntil a) = Inr au \<and> af \<le> f \<and> f < u \<and> u \<le> au)"

lemma set_P01: "P2 \<notin> set xs \<Longrightarrow> P3 \<notin> set xs \<Longrightarrow> set xs \<subseteq> {P0, P1}"
  using MarketplaceDataClass.exhaust by auto

lemma assertAuthorizationScope_Inr:
  "assertAuthorizationScope dp ao pr m rc dcs l i = Inr a \<Longrightarrow>
     ao = Some a \<and> isAuthorizationActive dp a i = Inr True \<and> auth_providerId a = pr \<and>
     (\<exists>pat \<in> set (auth_modelPatterns a). matchesPattern m pat) \<and>
     (''*'' \<in> set (auth_regionCodes a) \<or> rc \<in> set (auth_regionCodes a)) \<and>
     set dcs \<subseteq> set (auth_allowedDataClasses a) \<and>
     isWithinCapacityCeiling l (auth_capacityCeiling a)"
  by (auto simp: assertAuthorizationScope_def list_ex_iff list_all_iff
      split: option.splits if_splits)

text \<open>
  C27: An offer is published only by an active supplier whose required verifications are current,
  for its own tenant, and only inside one authorization of that supplier that is active at
  publication: provider, a matching model pattern, region, data classes (P0 and P1 only), capacity
  ceiling and validity window.
\<close>

theorem offer_within_authorization:
  assumes "publishCapacityOffer h dp s i c = Inr e"
  shows "sup_status s = SActive \<and> oe_tenantId e = sup_tenantId s \<and>
    off_supplierId (oe_payload e) = sup_supplierId s \<and>
    (\<forall>k \<in> set (requiredVerificationKinds (sup_kind s)).
       hasCurrentVerification dp s k (oe_occurredAt e) = Inr True) \<and>
    limitsInRange (off_limits (oe_payload e)) \<and>
    (\<exists>a \<in> set (sup_authorizations s). isAuthorizationActive dp a (oe_occurredAt e) = Inr True \<and>
       offerWithin dp a (oe_payload e))"
proof -
  from assms obtain ctx offerId authorizationId providerId model tier region currency dataClasses
    limits rates f u a af out where
    ctx: "assertContext h dp c = Inr ctx" "sup_tenantId s = ctx_tenantId ctx"
    and st: "sup_status s = SActive" "missingRequiredVerificationKinds dp s (ctx_occurredAt ctx) = Inr []"
    and dc: "P2 \<notin> set dataClasses" "P3 \<notin> set dataClasses"
    and lim: "assertCapacityLimits h (jget h i ''limits'') = Inr limits"
    and t: "assertTimestamp dp (jget h i ''validFrom'') = Inr f"
      "assertTimestamp dp (jget h i ''validUntil'') = Inr u" "f < u"
    and sc: "assertAuthorizationScope dp
        (find (\<lambda>c. auth_authorizationId c = authorizationId) (sup_authorizations s))
        providerId model region dataClasses limits (ctx_occurredAt ctx) = Inr a"
    and win: "assertTimestamp dp (JStr (auth_validFrom a)) = Inr af"
      "(if f < af then Inr True else andThen (assertTimestamp dp (JStr (auth_validUntil a)))
         (\<lambda>authUntil. Inr (u > authUntil))) = Inr out" "\<not> out"
    and e: "oe_tenantId e = ctx_tenantId ctx" "oe_occurredAt e = ctx_occurredAt ctx"
      "oe_payload e = \<lparr>off_offerId = offerId, off_authorizationId = authorizationId,
        off_providerId = providerId, off_model = model, off_serviceTier = tier,
        off_regionCode = region, off_dataClasses = dataClasses, off_limits = limits,
        off_currency = currency, off_rates = rates,
        off_validFrom = strOf (jget h i ''validFrom''),
        off_validUntil = strOf (jget h i ''validUntil''),
        off_supplierId = sup_supplierId s, off_sourceType = auth_sourceType a\<rparr>"
    unfolding publishCapacityOffer_def by (auto simp del: assertIdentifier_Inr)
  note scope = assertAuthorizationScope_Inr [OF sc]
  then have mem: "a \<in> set (sup_authorizations s)" "auth_authorizationId a = authorizationId"
    using find_Some_mem by fastforce+
  from t(1,2) have "historyTimestamp dp (strOf (jget h i ''validFrom'')) = Inr f"
    "historyTimestamp dp (strOf (jget h i ''validUntil'')) = Inr u"
    by (auto simp: assertTimestamp_Inr historyTimestamp_Inr)
  moreover from win obtain au where "historyTimestamp dp (auth_validUntil a) = Inr au" "u \<le> au"
    "historyTimestamp dp (auth_validFrom a) = Inr af" "af \<le> f"
    by (auto simp: assertTimestamp_history split: if_splits)
  ultimately have "offerWithin dp a (oe_payload e)"
    using scope mem t(3) set_P01 [OF dc] by (auto simp: offerWithin_def e(3))
  then show ?thesis
    using ctx st scope mem e assertCapacityLimits_range [OF lim]
    by (auto simp: missingRequiredVerificationKinds_def filterM_Nil_iff)
qed

text \<open>
  A published offer event rehydrates to an active offer at version 1 that carries exactly the
  published payload, and no other history than a single well-formed publication is accepted.
\<close>

theorem offer_rehydrates:
  assumes "publishCapacityOffer h dp s i c = Inr e"
  shows "\<exists>st. rehydrateCapacityOffer [e] = Inr (Some st) \<and>
    CapacityOfferPublishedPayload.truncate st = oe_payload e \<and> off_status st = ''active'' \<and>
    off_version st = 1 \<and> off_tenantId st = sup_tenantId s \<and> off_publishedAt st = oe_occurredAt e \<and>
    (\<forall>e' es. rehydrateCapacityOffer (e # e' # es) = Inl INVALID_EVENT_HISTORY)"
proof -
  have "oe_schemaVersion e = MARKETPLACE_SCHEMA_VERSION \<and> oe_aggregateType e = ''capacity-offer'' \<and>
      oe_aggregateVersion e = NInt 1 \<and> oe_aggregateId e = off_offerId (oe_payload e) \<and>
      oe_tenantId e = sup_tenantId s"
    using assms unfolding publishCapacityOffer_def by (auto simp del: assertIdentifier_Inr)
  then show ?thesis
    by (simp add: rehydrateCapacityOffer_def CapacityOfferPublishedPayload.defs)
qed

section \<open>A concrete publication\<close>

definition exOfferHeap :: heap where
  "exOfferHeap = heapOf [
     JObject True [(''offerId'', JStr ''offer-1''), (''authorizationId'', JStr ''auth-1''),
       (''providerId'', JStr ''provider-1''), (''model'', JStr ''gpt-5''),
       (''regionCode'', JStr ''GB''), (''dataClasses'', JRef 1), (''limits'', JRef 2),
       (''currency'', JStr ''CNY''), (''rates'', JRef 3),
       (''validFrom'', JStr ''2026-02-01T00:00:00.000Z''),
       (''validUntil'', JStr ''2026-03-01T00:00:00.000Z'')],
     JArray [JStr ''P0''],
     JObject True [(''requestsPerMinute'', JNum (NInt 30)), (''tokensPerMinute'', JNum (NInt 50000)),
       (''concurrency'', JNum (NInt 2)), (''maxOutputTokens'', JNum (NInt 1024))],
     JArray [JRef 4],
     JObject True [(''unit'', JStr ''token''), (''amountMicros'', JStr ''250'')],
     exCtx ''cmd-9'' ''evt-9'' ''2026-01-10T00:00:00.000Z'']"

definition exOffer :: CapacityOfferPublishedEvent where
  "exOffer = \<lparr>oe_schemaVersion = 1, oe_eventId = ''evt-9'', oe_tenantId = ''tenant-1'',
     oe_actorId = ''actor-1'', oe_causationId = ''cmd-9'', oe_aggregateType = ''capacity-offer'',
     oe_aggregateId = ''offer-1'', oe_aggregateVersion = NInt 1,
     oe_occurredAt = ''2026-01-10T00:00:00.000Z'', oe_type = ''capacity-offer.published'',
     oe_payload = \<lparr>off_offerId = ''offer-1'', off_authorizationId = ''auth-1'',
       off_providerId = ''provider-1'', off_model = ''gpt-5'', off_serviceTier = None,
       off_regionCode = ''GB'', off_dataClasses = [P0],
       off_limits = \<lparr>requestsPerMinute = 30, tokensPerMinute = 50000, concurrency = 2,
         maxOutputTokens = 1024\<rparr>,
       off_currency = ''CNY'', off_rates = [\<lparr>rate_unit = ''token'', rate_amountMicros = ''250''\<rparr>],
       off_validFrom = ''2026-02-01T00:00:00.000Z'', off_validUntil = ''2026-03-01T00:00:00.000Z'',
       off_supplierId = ''sup-1'', off_sourceType = ApiProject\<rparr>\<rparr>"

lemma exOfferHeap_at:
  "exOfferHeap 0 = JObject True [(''offerId'', JStr ''offer-1''), (''authorizationId'', JStr ''auth-1''),
       (''providerId'', JStr ''provider-1''), (''model'', JStr ''gpt-5''),
       (''regionCode'', JStr ''GB''), (''dataClasses'', JRef 1), (''limits'', JRef 2),
       (''currency'', JStr ''CNY''), (''rates'', JRef 3),
       (''validFrom'', JStr ''2026-02-01T00:00:00.000Z''),
       (''validUntil'', JStr ''2026-03-01T00:00:00.000Z'')]"
  "exOfferHeap (Suc 0) = JArray [JStr ''P0'']"
  "exOfferHeap 2 = JObject True [(''requestsPerMinute'', JNum (NInt 30)),
       (''tokensPerMinute'', JNum (NInt 50000)), (''concurrency'', JNum (NInt 2)),
       (''maxOutputTokens'', JNum (NInt 1024))]"
  "exOfferHeap 3 = JArray [JRef 4]"
  "exOfferHeap 4 = JObject True [(''unit'', JStr ''token''), (''amountMicros'', JStr ''250'')]"
  "exOfferHeap 5 = exCtx ''cmd-9'' ''evt-9'' ''2026-01-10T00:00:00.000Z''"
  by (simp_all add: exOfferHeap_def heapOf_def)

lemma exOffer_safe:
  "assertSafeInput exOfferHeap (JRef 0) = Inr ()" "assertSafeInput exOfferHeap (JRef 5) = Inr ()"
  by code_simp+

lemmas publish_eval = publishCapacityOffer_def assertExactKeys_def assertPlainRecord_def
  assertContext_def assertTenant_def assertCommandNotBefore_def assertText_def
  assertCountryCode_def assertCurrency_def assertUniqueStrings_def assertAllowedValue_def
  dataClassLiterals_def assertCapacityLimits_def capacityLimitFields_def assertPositiveSafeInteger_def assertRates_def
  assertPositiveDecimalInteger_def assertAuthorizationScope_def isWithinCapacityCeiling_def
  matchesPattern_def COUNTRY_PATTERN_def CURRENCY_PATTERN_def

lemma exPublish: "publishCapacityOffer exOfferHeap isoParse exActive (JRef 0) (JRef 5) = Inr exOffer"
  by (simp add: publish_eval exOffer_safe exOfferHeap_at exCtx_def exOffer_def replay_eval
      exHistory_eval eval_simps cong: andThen_weak_cong)

theorem offer_within_authorization_witness:
  "sup_status exActive = SActive \<and>
   (\<exists>a \<in> set (sup_authorizations exActive). offerWithin isoParse a (oe_payload exOffer))"
  using offer_within_authorization [OF exPublish] by blast

theorem offer_rehydrates_witness:
  "\<exists>st. rehydrateCapacityOffer [exOffer] = Inr (Some st) \<and> off_version st = 1"
  using offer_rehydrates [OF exPublish] by blast

end
