(* ===== verification/Settlement.thy ===== *)
theory Settlement
  imports Validation
begin

text \<open>
  Pricing of a completed service
  (\<^verbatim>\<open>packages/marketplace-domain/src/settlement.ts\<close>), the privacy retention rules
  (\<^verbatim>\<open>privacy.ts\<close>) and the two-phase cancellation contract of artifact tasks
  (\<^verbatim>\<open>artifact-cancellation.ts\<close>). Amounts are decimal strings of micros, as in the
  source; the arithmetic between parsing and printing is on unbounded integers (BigInt).
\<close>

section \<open>Settlement\<close>

record SettlementQuote =
  totalTokens :: jsnum
  priceMicrosPerMillionTokens :: string
  platformFeeBps :: jsnum

record SettlementAmounts =
  buyerChargeMicros :: string
  supplierCreditMicros :: string
  platformFeeMicros :: string

definition divideRoundingUp :: "int \<Rightarrow> int \<Rightarrow> int" where
  "divideRoundingUp numerator denominator = (numerator + denominator - 1) div denominator"

text \<open>\<open>BigInt(s)\<close> of a decimal string and \<open>toString\<close> of a non-negative BigInt.\<close>

definition BigInt_str :: "string \<Rightarrow> int" where
  "BigInt_str s = int (nat_of_dec s)"

definition BigInt_toString :: "int \<Rightarrow> string" where
  "BigInt_toString i = (if i < 0 then CHR ''-'' # dec_of_nat (nat (- i)) else dec_of_nat (nat i))"

definition calculateSettlement :: "SettlementQuote \<Rightarrow> SettlementAmounts result" where
  "calculateSettlement quote =
     andThen (throwIf (\<not> isSafeInteger (totalTokens quote) \<or> numLe (totalTokens quote) 0)
       INVALID_ARGUMENT) (\<lambda>_.
     andThen (throwIf (\<not> is_pos_decimal (priceMicrosPerMillionTokens quote)) INVALID_ARGUMENT) (\<lambda>_.
     andThen (throwIf (\<not> isSafeInteger (platformFeeBps quote) \<or> numLt (platformFeeBps quote) 0 \<or>
       numGt (platformFeeBps quote) 5000) INVALID_ARGUMENT) (\<lambda>_.
     let tokens = numInt (totalTokens quote);
         unitPrice = BigInt_str (priceMicrosPerMillionTokens quote);
         buyerCharge = divideRoundingUp (tokens * unitPrice) 1000000;
         platformFee = (buyerCharge * numInt (platformFeeBps quote)) div 10000;
         supplierCredit = buyerCharge - platformFee
     in Inr \<lparr>buyerChargeMicros = BigInt_toString buyerCharge,
             supplierCreditMicros = BigInt_toString supplierCredit,
             platformFeeMicros = BigInt_toString platformFee\<rparr>)))"

definition estimateMaximumChargeMicros :: "jsnum \<Rightarrow> jsnum \<Rightarrow> string \<Rightarrow> string result" where
  "estimateMaximumChargeMicros estimatedInputTokens maxOutTokens price =
     andThen (throwIf (\<not> isSafeInteger estimatedInputTokens \<or> numLt estimatedInputTokens 0)
       INVALID_ARGUMENT) (\<lambda>_.
     andThen (throwIf (\<not> isSafeInteger maxOutTokens \<or> numLe maxOutTokens 0) INVALID_ARGUMENT) (\<lambda>_.
     andThen (calculateSettlement
       \<lparr>totalTokens = NInt (max 1 (dbl (numInt estimatedInputTokens + numInt maxOutTokens))),
        priceMicrosPerMillionTokens = price, platformFeeBps = NInt 0\<rparr>) (\<lambda>r.
     Inr (buyerChargeMicros r))))"

definition estimateArtifactMaximumChargeMicros :: "jsnum \<Rightarrow> string \<Rightarrow> string result" where
  "estimateArtifactMaximumChargeMicros maxTotalTokens price =
     andThen (throwIf (\<not> isSafeInteger maxTotalTokens \<or> numLe maxTotalTokens 0 \<or>
       numGt maxTotalTokens 100000000) INVALID_ARGUMENT) (\<lambda>_.
     andThen (calculateSettlement
       \<lparr>totalTokens = maxTotalTokens, priceMicrosPerMillionTokens = price,
        platformFeeBps = NInt 0\<rparr>) (\<lambda>r.
     Inr (buyerChargeMicros r)))"

subsection \<open>Lemmas\<close>

lemma BigInt_roundtrip [simp]: "0 \<le> i \<Longrightarrow> BigInt_str (BigInt_toString i) = i"
  by (simp add: BigInt_str_def BigInt_toString_def)

lemma BigInt_str_nonneg [simp]: "0 \<le> BigInt_str s"
  by (simp add: BigInt_str_def)

lemma BigInt_str_pos: "is_pos_decimal s \<Longrightarrow> 0 < BigInt_str s"
  by (simp add: BigInt_str_def nat_of_dec_pos)

lemma divideRoundingUp_bounds:
  assumes "0 < d"
  shows "n \<le> divideRoundingUp n d * d" "divideRoundingUp n d * d < n + d"
proof -
  have "(n + d - 1) div d * d + (n + d - 1) mod d = n + d - 1" by simp
  moreover have "0 \<le> (n + d - 1) mod d" "(n + d - 1) mod d < d" using assms by simp_all
  ultimately show "n \<le> divideRoundingUp n d * d" "divideRoundingUp n d * d < n + d"
    unfolding divideRoundingUp_def by linarith+
qed

lemma divideRoundingUp_mono: "0 < d \<Longrightarrow> m \<le> n \<Longrightarrow> divideRoundingUp m d \<le> divideRoundingUp n d"
  by (simp add: divideRoundingUp_def zdiv_mono1)

lemma divideRoundingUp_pos: "0 < d \<Longrightarrow> 0 < n \<Longrightarrow> 0 < divideRoundingUp n d"
  using divideRoundingUp_bounds(1) [of d n] by (metis linorder_not_le mult_nonpos_nonneg
    order_less_imp_le order_less_le_trans)

text \<open>The numbers behind the three strings of a settlement.\<close>

definition chargeOf :: "int \<Rightarrow> int \<Rightarrow> int" where
  "chargeOf tokens price = divideRoundingUp (tokens * price) 1000000"

definition feeOf :: "int \<Rightarrow> int \<Rightarrow> int" where
  "feeOf charge bps = (charge * bps) div 10000"

lemma feeOf_bounds:
  assumes "0 \<le> c" "0 \<le> b" "b \<le> 5000"
  shows "0 \<le> feeOf c b" "2 * feeOf c b \<le> c"
proof -
  show "0 \<le> feeOf c b" using assms by (simp add: feeOf_def pos_imp_zdiv_nonneg_iff)
  have "c * b \<le> c * 5000" using assms by (intro mult_left_mono) auto
  then have "c * b div 10000 \<le> c * 5000 div 10000" by (intro zdiv_mono1) auto
  then show "2 * feeOf c b \<le> c" unfolding feeOf_def by linarith
qed

lemma calculateSettlement_Inr:
  "calculateSettlement q = Inr r \<longleftrightarrow>
     (\<exists>t b. totalTokens q = NInt t \<and> 0 < t \<and> t \<le> MAX_SAFE_INTEGER \<and>
        is_pos_decimal (priceMicrosPerMillionTokens q) \<and>
        platformFeeBps q = NInt b \<and> 0 \<le> b \<and> b \<le> 5000 \<and>
        (let c = chargeOf t (BigInt_str (priceMicrosPerMillionTokens q)) in
         r = \<lparr>buyerChargeMicros = BigInt_toString c,
              supplierCreditMicros = BigInt_toString (c - feeOf c b),
              platformFeeMicros = BigInt_toString (feeOf c b)\<rparr>))"
  by (auto simp: calculateSettlement_def isSafeInteger_iff chargeOf_def feeOf_def Let_def
      MAX_SAFE_INTEGER_def not_less not_le)

lemma chargeOf_pos: "0 < t \<Longrightarrow> is_pos_decimal p \<Longrightarrow> 0 < chargeOf t (BigInt_str p)"
  by (simp add: chargeOf_def divideRoundingUp_pos BigInt_str_pos)

lemma chargeOf_mono: "t \<le> t' \<Longrightarrow> 0 \<le> p \<Longrightarrow> chargeOf t p \<le> chargeOf t' p"
  by (simp add: chargeOf_def divideRoundingUp_mono mult_right_mono)

text \<open>
  C24: A settlement is conserved. The buyer is charged a positive amount, the least number of
  whole micros that covers tokens times price per million; the platform fee is the rounded-down
  share and never more than half; what the supplier is credited and the fee add up to the charge
  exactly. Read back from the printed strings.
\<close>

theorem settlement_conserved:
  assumes "calculateSettlement q = Inr r"
  shows "BigInt_str (buyerChargeMicros r) =
      BigInt_str (supplierCreditMicros r) + BigInt_str (platformFeeMicros r) \<and>
    0 < BigInt_str (buyerChargeMicros r) \<and>
    2 * BigInt_str (platformFeeMicros r) \<le> BigInt_str (buyerChargeMicros r) \<and>
    10000 * BigInt_str (platformFeeMicros r) \<le>
      BigInt_str (buyerChargeMicros r) * numInt (platformFeeBps q) \<and>
    numInt (totalTokens q) * BigInt_str (priceMicrosPerMillionTokens q) \<le>
      1000000 * BigInt_str (buyerChargeMicros r) \<and>
    1000000 * (BigInt_str (buyerChargeMicros r) - 1) <
      numInt (totalTokens q) * BigInt_str (priceMicrosPerMillionTokens q)"
proof -
  let ?p = "BigInt_str (priceMicrosPerMillionTokens q)"
  from assms obtain t b where q: "totalTokens q = NInt t" "0 < t" "platformFeeBps q = NInt b"
      "0 \<le> b" "b \<le> 5000" "is_pos_decimal (priceMicrosPerMillionTokens q)"
    and r: "r = \<lparr>buyerChargeMicros = BigInt_toString (chargeOf t ?p),
      supplierCreditMicros = BigInt_toString (chargeOf t ?p - feeOf (chargeOf t ?p) b),
      platformFeeMicros = BigInt_toString (feeOf (chargeOf t ?p) b)\<rparr>"
    unfolding calculateSettlement_Inr Let_def by blast
  let ?c = "chargeOf t ?p"
  have c: "0 < ?c" using q by (simp add: chargeOf_pos)
  note f = feeOf_bounds [of ?c b]
  have vals: "BigInt_str (buyerChargeMicros r) = ?c"
    "BigInt_str (platformFeeMicros r) = feeOf ?c b"
    "BigInt_str (supplierCreditMicros r) = ?c - feeOf ?c b"
    using c q f by (simp_all add: r)
  have "10000 * feeOf ?c b \<le> ?c * b" by (simp add: feeOf_def)
  moreover have "t * ?p \<le> 1000000 * ?c" "1000000 * (?c - 1) < t * ?p"
    using divideRoundingUp_bounds [of 1000000 "t * ?p"] by (simp_all add: chargeOf_def)
  ultimately show ?thesis using f c q by (simp add: vals)
qed

lemma quote_example:
  "calculateSettlement \<lparr>totalTokens = NInt 1500, priceMicrosPerMillionTokens = ''2500000'',
     platformFeeBps = NInt 1200\<rparr> =
   Inr \<lparr>buyerChargeMicros = ''3750'', supplierCreditMicros = ''3300'', platformFeeMicros = ''450''\<rparr>"
  by (simp add: calculateSettlement_def BigInt_str_def divideRoundingUp_def BigInt_toString_def
      eval_simps)

theorem settlement_conserved_witness:
  "BigInt_str ''3750'' = BigInt_str ''3300'' + BigInt_str ''450'' \<and> (0::int) < BigInt_str ''3750''"
  using settlement_conserved [OF quote_example] by simp

text \<open>
  C26: The reservation made before a request covers what the request can cost. The maximum
  estimated for a number of input tokens and an output limit is at least the settlement of any
  actual usage with no more tokens at the same price, whatever the platform fee.
\<close>

theorem estimate_covers_settlement:
  assumes "estimateMaximumChargeMicros i m p = Inr e"
    and "calculateSettlement q = Inr r" "priceMicrosPerMillionTokens q = p"
    and "numInt (totalTokens q) \<le> numInt i + numInt m"
  shows "BigInt_str (buyerChargeMicros r) \<le> BigInt_str e"
proof -
  from assms(1) obtain est where est: "calculateSettlement \<lparr>totalTokens =
      NInt (max 1 (dbl (numInt i + numInt m))), priceMicrosPerMillionTokens = p,
      platformFeeBps = NInt 0\<rparr> = Inr est" "e = buyerChargeMicros est"
    and safe: "isSafeInteger i" "\<not> numLt i 0" "isSafeInteger m" "\<not> numLe m 0"
    by (auto simp: estimateMaximumChargeMicros_def)
  let ?n = "max 1 (dbl (numInt i + numInt m))"
  from est have n: "?n \<le> MAX_SAFE_INTEGER" "is_pos_decimal p"
    and e: "e = BigInt_toString (chargeOf ?n (BigInt_str p))"
    by (auto simp: calculateSettlement_Inr Let_def)
  have sum: "numInt i + numInt m \<le> ?n"
  proof (cases "numInt i + numInt m \<le> MAX_SAFE_INTEGER")
    case True
    with safe show ?thesis by (auto simp: isSafeInteger_iff dbl_exact)
  next
    case False
    with n dbl_unsafe [of "numInt i + numInt m"] show ?thesis by simp
  qed
  from assms(2,3) obtain t where t: "totalTokens q = NInt t" "0 < t"
    "buyerChargeMicros r = BigInt_toString (chargeOf t (BigInt_str p))"
    by (auto simp: calculateSettlement_Inr Let_def)
  have "chargeOf t (BigInt_str p) \<le> chargeOf ?n (BigInt_str p)"
    using t sum assms(4) by (intro chargeOf_mono) auto
  moreover have "0 < chargeOf t (BigInt_str p)" using t n by (simp add: chargeOf_pos)
  ultimately show ?thesis by (simp add: t e)
qed

lemma estimate_example:
  "estimateMaximumChargeMicros (NInt 1000) (NInt 500) ''2500000'' = Inr ''3750''"
proof -
  have "dbl 1500 = 1500" by (rule dbl_exact) (simp add: MAX_SAFE_INTEGER_def)
  then show ?thesis
    by (simp add: estimateMaximumChargeMicros_def calculateSettlement_def BigInt_str_def
        divideRoundingUp_def BigInt_toString_def eval_simps)
qed

theorem estimate_covers_settlement_witness:
  "BigInt_str ''3750'' \<le> BigInt_str ''3750''"
  using estimate_covers_settlement [OF estimate_example quote_example] by simp

section \<open>Privacy retention\<close>

datatype MarketplacePrivacyMode = PStandard | PStrict

definition MARKETPLACE_PRIVACY_MODES :: "(string \<times> MarketplacePrivacyMode) list" where
  "MARKETPLACE_PRIVACY_MODES = [(''standard'', PStandard), (''strict'', PStrict)]"

record MarketplacePrivacyRetentionPolicy =
  standardOutputRetentionHours :: jsnum
  standardArtifactRetentionHours :: jsnum
  strictOutputRetentionMinutes :: jsnum
  strictArtifactRetentionMinutes :: jsnum

record MarketplacePrivacyRetentionMilliseconds =
  ret_output :: int
  ret_artifact :: int

definition parseMarketplacePrivacyMode :: "jsval \<Rightarrow> MarketplacePrivacyMode result" where
  "parseMarketplacePrivacyMode v = (case v of
     JStr s \<Rightarrow> (case map_of MARKETPLACE_PRIVACY_MODES s of
        Some m \<Rightarrow> Inr m | None \<Rightarrow> Inl INVALID_ARGUMENT)
   | _ \<Rightarrow> Inl INVALID_ARGUMENT)"

definition assertSupplierProcessingAcknowledged :: "jsval \<Rightarrow> unit result" where
  "assertSupplierProcessingAcknowledged v =
     throwIf (v \<noteq> JBool True) PRIVACY_ACKNOWLEDGEMENT_REQUIRED"

definition policyEntries :: "MarketplacePrivacyRetentionPolicy \<Rightarrow> jsnum list" where
  "policyEntries p = [standardOutputRetentionHours p, standardArtifactRetentionHours p,
     strictOutputRetentionMinutes p, strictArtifactRetentionMinutes p]"

text \<open>Products are JavaScript number products: each is rounded to a double.\<close>

definition calculateMarketplacePrivacyRetentionMilliseconds ::
  "jsval \<Rightarrow> MarketplacePrivacyRetentionPolicy \<Rightarrow> MarketplacePrivacyRetentionMilliseconds result" where
  "calculateMarketplacePrivacyRetentionMilliseconds modeInput policy =
     andThen (parseMarketplacePrivacyMode modeInput) (\<lambda>mode.
     andThen (forEach (policyEntries policy) (\<lambda>value.
       throwIf (\<not> isSafeInteger value \<or> numLt value 1) INVALID_ARGUMENT)) (\<lambda>_.
     Inr (if mode = PStrict
       then \<lparr>ret_output = dbl (numInt (strictOutputRetentionMinutes policy) * 60000),
             ret_artifact = dbl (numInt (strictArtifactRetentionMinutes policy) * 60000)\<rparr>
       else \<lparr>ret_output = dbl (dbl (numInt (standardOutputRetentionHours policy) * 60) * 60000),
             ret_artifact = dbl (dbl (numInt (standardArtifactRetentionHours policy) * 60) * 60000)\<rparr>)))"

section \<open>Cancellation of artifact tasks\<close>

datatype ArtifactTaskStatus =
  TQueued | TClaimed | TRunning | TCancelling | TCompleted | TFailed | TCancelled

datatype PersistedArtifactTaskStatus =
  Queued | Claimed | Running | Completed | Failed | Cancelled

datatype ArtifactRetention = Retained | PurgeScheduled

record ArtifactTaskCancellationDecision =
  publicStatus :: ArtifactTaskStatus
  persistedStatus :: PersistedArtifactTaskStatus
  releaseReservation :: bool
  artifactRetention :: ArtifactRetention

fun publicView :: "PersistedArtifactTaskStatus \<Rightarrow> ArtifactTaskStatus" where
  "publicView Queued = TQueued"
| "publicView Claimed = TClaimed"
| "publicView Running = TRunning"
| "publicView Completed = TCompleted"
| "publicView Failed = TFailed"
| "publicView Cancelled = TCancelled"

definition projectArtifactTaskStatus ::
  "PersistedArtifactTaskStatus \<Rightarrow> bool \<Rightarrow> ArtifactTaskStatus" where
  "projectArtifactTaskStatus status cancellationRequested =
     (if cancellationRequested \<and> (status = Claimed \<or> status = Running) then TCancelling
      else publicView status)"

definition decideArtifactTaskCancellation ::
  "PersistedArtifactTaskStatus \<Rightarrow> MarketplacePrivacyMode \<Rightarrow>
     ArtifactTaskCancellationDecision result" where
  "decideArtifactTaskCancellation status privacyMode =
     (let retention = (if privacyMode = PStrict then PurgeScheduled else Retained) in
      case status of
        Queued \<Rightarrow> Inr \<lparr>publicStatus = TCancelled, persistedStatus = Cancelled,
          releaseReservation = True, artifactRetention = retention\<rparr>
      | Claimed \<Rightarrow> Inr \<lparr>publicStatus = TCancelling, persistedStatus = status,
          releaseReservation = False, artifactRetention = retention\<rparr>
      | Running \<Rightarrow> Inr \<lparr>publicStatus = TCancelling, persistedStatus = status,
          releaseReservation = False, artifactRetention = retention\<rparr>
      | Cancelled \<Rightarrow> Inr \<lparr>publicStatus = TCancelled, persistedStatus = Cancelled,
          releaseReservation = True, artifactRetention = retention\<rparr>
      | Completed \<Rightarrow> Inl INVALID_ARTIFACT_TASK_STATE
      | Failed \<Rightarrow> Inl INVALID_ARTIFACT_TASK_STATE)"

text \<open>
  Two-phase cancellation. A decision releases the reservation exactly when the task ends up
  cancelled, a leased task keeps its stored status and its reservation, the reported status is
  the projection of the stored status with the cancellation flag set, and asking again after
  storing the decision gives the same decision; only terminal tasks refuse.
\<close>

theorem cancellation_two_phase:
  "(case decideArtifactTaskCancellation s m of
      Inl e \<Rightarrow> e = INVALID_ARTIFACT_TASK_STATE \<and> (s = Completed \<or> s = Failed)
    | Inr d \<Rightarrow>
        (releaseReservation d \<longleftrightarrow> persistedStatus d = Cancelled) \<and>
        (releaseReservation d \<longleftrightarrow> s = Queued \<or> s = Cancelled) \<and>
        (\<not> releaseReservation d \<longleftrightarrow> persistedStatus d = s \<and> (s = Claimed \<or> s = Running)) \<and>
        publicStatus d = projectArtifactTaskStatus (persistedStatus d) True \<and>
        (artifactRetention d = PurgeScheduled \<longleftrightarrow> m = PStrict) \<and>
        decideArtifactTaskCancellation (persistedStatus d) m = Inr d)"
  by (cases s; cases m)
    (simp_all add: decideArtifactTaskCancellation_def projectArtifactTaskStatus_def)

lemma retention_Inr:
  "calculateMarketplacePrivacyRetentionMilliseconds v p = Inr r \<Longrightarrow>
     (\<exists>m. (v = JStr ''standard'' \<and> m = PStandard \<or> v = JStr ''strict'' \<and> m = PStrict) \<and>
       (\<forall>n \<in> set (policyEntries p). isSafeInteger n \<and> 1 \<le> numInt n))"
  by (auto simp: calculateMarketplacePrivacyRetentionMilliseconds_def forEach_Inr
      parseMarketplacePrivacyMode_def MARKETPLACE_PRIVACY_MODES_def isSafeInteger_iff not_less
      split: jsval.splits if_splits)

text \<open>
  Retention is exact whenever the exact number of milliseconds is a safe integer, and is
  refused unless every entry of the policy is a positive safe integer and the mode is one of the
  two literals.
\<close>

theorem retention_exact:
  assumes "calculateMarketplacePrivacyRetentionMilliseconds v p = Inr r"
    and "\<forall>n \<in> set (policyEntries p). numInt n * 3600000 \<le> MAX_SAFE_INTEGER"
  shows "(\<forall>n \<in> set (policyEntries p). isSafeInteger n \<and> 1 \<le> numInt n) \<and>
    (v = JStr ''strict'' \<and>
       ret_output r = numInt (strictOutputRetentionMinutes p) * 60000 \<and>
       ret_artifact r = numInt (strictArtifactRetentionMinutes p) * 60000 \<or>
     v = JStr ''standard'' \<and>
       ret_output r = numInt (standardOutputRetentionHours p) * 3600000 \<and>
       ret_artifact r = numInt (standardArtifactRetentionHours p) * 3600000)"
proof -
  from retention_Inr [OF assms(1)]
  have pos: "\<forall>n \<in> set (policyEntries p). isSafeInteger n \<and> 1 \<le> numInt n" by blast
  have small: "dbl (numInt n * 60000) = numInt n * 60000"
    "dbl (numInt n * 60) = numInt n * 60"
    "dbl (numInt n * 60 * 60000) = numInt n * 3600000" if "n \<in> set (policyEntries p)" for n
  proof -
    from assms(2) pos that have n: "1 \<le> numInt n" "numInt n * 3600000 \<le> MAX_SAFE_INTEGER" by auto
    from n show "dbl (numInt n * 60000) = numInt n * 60000" "dbl (numInt n * 60) = numInt n * 60"
      by (auto intro: dbl_exact)
    have "dbl (numInt n * 60 * 60000) = numInt n * 60 * 60000"
      by (rule dbl_exact) (use n in auto)
    then show "dbl (numInt n * 60 * 60000) = numInt n * 3600000" by simp
  qed
  have mem: "standardOutputRetentionHours p \<in> set (policyEntries p)"
    "standardArtifactRetentionHours p \<in> set (policyEntries p)"
    "strictOutputRetentionMinutes p \<in> set (policyEntries p)"
    "strictArtifactRetentionMinutes p \<in> set (policyEntries p)"
    by (simp_all add: policyEntries_def)
  from retention_Inr [OF assms(1)] consider "v = JStr ''standard''" | "v = JStr ''strict''" by blast
  then have "v = JStr ''strict'' \<and>
       ret_output r = numInt (strictOutputRetentionMinutes p) * 60000 \<and>
       ret_artifact r = numInt (strictArtifactRetentionMinutes p) * 60000 \<or>
     v = JStr ''standard'' \<and>
       ret_output r = numInt (standardOutputRetentionHours p) * 3600000 \<and>
       ret_artifact r = numInt (standardArtifactRetentionHours p) * 3600000"
    using assms(1) small [OF mem(1)] small [OF mem(2)] small [OF mem(3)] small [OF mem(4)]
    by cases (auto simp: calculateMarketplacePrivacyRetentionMilliseconds_def
        parseMarketplacePrivacyMode_def MARKETPLACE_PRIVACY_MODES_def)
  with pos show ?thesis by blast
qed

definition examplePolicy :: MarketplacePrivacyRetentionPolicy where
  "examplePolicy = \<lparr>standardOutputRetentionHours = NInt 24, standardArtifactRetentionHours = NInt 48,
     strictOutputRetentionMinutes = NInt 60, strictArtifactRetentionMinutes = NInt 60\<rparr>"

theorem retention_exact_witness:
  "calculateMarketplacePrivacyRetentionMilliseconds (JStr ''standard'') examplePolicy =
     Inr \<lparr>ret_output = 86400000, ret_artifact = 172800000\<rparr>"
proof -
  obtain r where r: "calculateMarketplacePrivacyRetentionMilliseconds (JStr ''standard'')
      examplePolicy = Inr r"
    by (simp add: calculateMarketplacePrivacyRetentionMilliseconds_def examplePolicy_def
        policyEntries_def parseMarketplacePrivacyMode_def MARKETPLACE_PRIVACY_MODES_def eval_simps)
  have "ret_output r = 86400000 \<and> ret_artifact r = 172800000"
    using retention_exact [OF r] by (simp add: examplePolicy_def policyEntries_def eval_simps)
  with r show ?thesis by (cases r) simp
qed

end
