(* ===== verification/Database.thy ===== *)
theory Database
  imports Settlement "HOL-Library.List_Lexorder" "HOL-Library.Char_ord"
begin

text \<open>
  The relational state of the web control plane (\<^verbatim>\<open>apps/web/db/schema.ts\<close>) and the parts
  of SQLite that its write gates use. A table is the list of its rows, a row is a record with one
  field per column, a nullable column is an option. Text columns compare byte by byte, which is
  the order of strings in \<open>List_Lexorder\<close>; an ISO time in UTC compares as its time. A comparison
  with NULL is not true. \<open>SUM\<close> over integers fails when a partial sum leaves 64 bits, and
  \<open>CAST(x AS INTEGER)\<close> reads the longest numeric prefix and saturates.
\<close>

section \<open>SQL scalar functions\<close>

definition INT64_MAX :: int where
  "INT64_MAX = 9223372036854775807"

definition INT64_MIN :: int where
  "INT64_MIN = - 9223372036854775808"

definition inInt64 :: "int \<Rightarrow> bool" where
  "inInt64 i \<longleftrightarrow> INT64_MIN \<le> i \<and> i \<le> INT64_MAX"

definition clampInt64 :: "int \<Rightarrow> int" where
  "clampInt64 i = (if i > INT64_MAX then INT64_MAX else if i < INT64_MIN then INT64_MIN else i)"

fun castDigits :: "string \<Rightarrow> int" where
  "castDigits (c # cs) =
     (if c = CHR ''-'' then - int (nat_of_dec (takeWhile is_digit cs))
      else if c = CHR ''+'' then int (nat_of_dec (takeWhile is_digit cs))
      else int (nat_of_dec (takeWhile is_digit (c # cs))))"
| "castDigits [] = 0"

definition castInteger :: "string \<Rightarrow> int" where
  "castInteger s = clampInt64 (castDigits (dropWhile is_js_space s))"

text \<open>\<open>SUM\<close> with its overflow error as \<open>None\<close>; \<open>COALESCE(SUM(...), 0)\<close> makes the empty sum 0.\<close>

fun sumFrom :: "int \<Rightarrow> int list \<Rightarrow> int option" where
  "sumFrom acc [] = Some acc"
| "sumFrom acc (x # xs) = (if inInt64 (acc + x) then sumFrom (acc + x) xs else None)"

definition sqlSum :: "int list \<Rightarrow> int option" where
  "sqlSum xs = sumFrom 0 xs"

text \<open>Comparisons with a nullable column on the left.\<close>

definition gtNull :: "string option \<Rightarrow> string \<Rightarrow> bool" where
  "gtNull a b = (case a of None \<Rightarrow> False | Some x \<Rightarrow> b < x)"

definition leNull :: "string option \<Rightarrow> string \<Rightarrow> bool" where
  "leNull a b = (case a of None \<Rightarrow> False | Some x \<Rightarrow> x \<le> b)"

definition ltNull :: "string option \<Rightarrow> string \<Rightarrow> bool" where
  "ltNull a b = (case a of None \<Rightarrow> False | Some x \<Rightarrow> x < b)"

text \<open>\<open>LIKE\<close>: per cent is any run, underscore any character, letters match in either case.\<close>

function sqlLike :: "string \<Rightarrow> string \<Rightarrow> bool" where
  "sqlLike [] s = (s = [])"
| "sqlLike (p # ps) s =
     (if p = CHR ''%'' then sqlLike ps s \<or> (case s of [] \<Rightarrow> False | c # cs \<Rightarrow> sqlLike (p # ps) cs)
      else case s of [] \<Rightarrow> False
        | c # cs \<Rightarrow> (p = CHR ''_'' \<or> toLowerCase [p] = toLowerCase [c]) \<and> sqlLike ps cs)"
  by pat_completeness auto
termination
  by (relation "measure (\<lambda>(p, s). length p + length s)") auto

section \<open>Tables\<close>

record SupplierRow =
  s_supplier_id :: string
  s_tenant_id :: string
  s_user_id :: string
  s_kind :: string
  s_legal_name :: string
  s_display_name :: string
  s_country_code :: string
  s_tax_residence_country_code :: string
  s_status :: string
  s_supply_enabled :: int
  s_version :: int
  s_created_at :: string
  s_updated_at :: string

record AuthorizationRow =
  ar_request_id :: string
  ar_tenant_id :: string
  ar_supplier_id :: string
  ar_provider_id :: string
  ar_source_type :: string
  ar_metering_mode :: string
  ar_evidence_ref :: string
  ar_model_pattern :: string
  ar_region_code :: string
  ar_data_classes_json :: string
  ar_requests_per_minute :: int
  ar_tokens_per_minute :: int
  ar_concurrency :: int
  ar_max_output_tokens :: int
  ar_valid_until :: string
  ar_gateway_endpoint :: string
  ar_encrypted_gateway_token :: string
  ar_gateway_token_iv :: string
  ar_credential_key_id :: string
  ar_gateway_token_digest :: "string option"
  ar_gateway_token_digest_version :: int
  ar_gateway_token_lookup_key_id :: string
  ar_encryption_key_version :: int
  ar_authorization_revision :: int
  ar_status :: string
  ar_review_note :: "string option"
  ar_reviewed_by :: "string option"
  ar_review_command_id :: "string option"
  ar_reviewed_at :: "string option"
  ar_credential_rotated_at :: "string option"
  ar_revoked_at :: "string option"
  ar_revocation_reason_code :: "string option"
  ar_created_at :: string
  ar_updated_at :: string

record OfferRow =
  o_offer_id :: string
  o_tenant_id :: string
  o_supplier_id :: string
  o_authorization_request_id :: string
  o_provider_id :: string
  o_source_type :: string
  o_model :: string
  o_region_code :: string
  o_data_classes_json :: string
  o_requests_per_minute :: int
  o_tokens_per_minute :: int
  o_concurrency :: int
  o_max_output_tokens :: int
  o_currency :: string
  o_price_micros_per_million_tokens :: string
  o_status :: string
  o_valid_from :: string
  o_valid_until :: string
  o_version :: int
  o_created_at :: string
  o_updated_at :: string

record EventRow =
  me_event_id :: string
  me_tenant_id :: string
  me_actor_id :: string
  me_causation_id :: string
  me_aggregate_type :: string
  me_aggregate_id :: string
  me_aggregate_version :: int
  me_event_type :: string
  me_schema_version :: int
  me_payload_json :: string
  me_occurred_at :: string

record JobRow =
  j_job_id :: string
  j_buyer_tenant_id :: string
  j_supplier_tenant_id :: string
  j_offer_id :: string
  j_authorization_request_id :: "string option"
  j_authorization_revision :: "int option"
  j_idempotency_key :: string
  j_model :: string
  j_data_class :: string
  j_privacy_mode :: string
  j_prompt_digest :: string
  j_digest_version :: int
  j_max_output_tokens :: int
  j_reserved_charge_micros :: string
  j_reservation_expires_at :: "string option"
  j_status :: string
  j_provider_request_id :: "string option"
  j_input_tokens :: "int option"
  j_output_tokens :: "int option"
  j_total_tokens :: "int option"
  j_charge_micros :: "string option"
  j_output_ciphertext :: "string option"
  j_output_iv :: "string option"
  j_content_key_version :: int
  j_output_expires_at :: "string option"
  j_content_purged_at :: "string option"
  j_error_code :: "string option"
  j_created_at :: string
  j_completed_at :: "string option"

record UsageRow =
  u_usage_id :: string
  u_job_id :: string
  u_buyer_tenant_id :: string
  u_supplier_tenant_id :: string
  u_offer_id :: string
  u_provider_request_id :: string
  u_input_tokens :: int
  u_output_tokens :: int
  u_total_tokens :: int
  u_receipt_ref :: "string option"
  u_occurred_at :: string

record ServiceEvidenceRow =
  se_evidence_id :: string
  se_job_id :: string
  se_offer_id :: string
  se_provider_id :: string
  se_requested_model :: string
  se_served_model :: string
  se_provider_request_id :: string
  se_assurance :: string
  se_evidence_digest :: string
  se_input_digest :: string
  se_output_digest :: string
  se_digest_version :: int
  se_input_tokens :: int
  se_output_tokens :: int
  se_total_tokens :: int
  se_unit_price_micros_per_million_tokens :: string
  se_buyer_charge_micros :: string
  se_supplier_credit_micros :: string
  se_platform_fee_micros :: string
  se_receipt_ref :: "string option"
  se_provider_completed_at :: string
  se_recorded_at :: string

record LedgerRow =
  l_entry_id :: string
  l_tenant_id :: string
  l_account_id :: string
  l_job_id :: "string option"
  l_entry_type :: string
  l_direction :: string
  l_amount_micros :: string
  l_currency :: string
  l_created_at :: string

record AuditRow =
  ad_audit_id :: string
  ad_tenant_id :: string
  ad_actor_id :: string
  ad_action :: string
  ad_resource_type :: string
  ad_resource_id :: string
  ad_details_json :: string
  ad_occurred_at :: string

record IdempotencyRow =
  k_tenant_id :: string
  k_operation :: string
  k_idempotency_key :: string
  k_resource_id :: string
  k_created_at :: string

record ArtifactRow =
  a_artifact_id :: string
  a_tenant_id :: string
  a_file_name :: string
  a_privacy_mode :: string
  a_media_type :: string
  a_size_bytes :: int
  a_chunk_size_bytes :: int
  a_chunk_count :: int
  a_uploaded_chunks :: int
  a_manifest_sha256 :: "string option"
  a_status :: string
  a_content_purged_at :: "string option"
  a_expires_at :: string
  a_created_at :: string
  a_updated_at :: string

record WorkerRow =
  w_supplier_tenant_id :: string
  w_worker_id :: string
  w_provider_id :: string
  w_authorization_request_ids_json :: string
  w_allowed_models_json :: string
  w_supported_media_types_json :: string
  w_max_artifact_bytes :: int
  w_last_seen_at :: string
  w_expires_at :: string

record ArtifactTaskRow =
  t_task_id :: string
  t_buyer_tenant_id :: string
  t_supplier_tenant_id :: string
  t_offer_id :: string
  t_authorization_request_id :: string
  t_authorization_revision :: int
  t_artifact_id :: string
  t_idempotency_key :: string
  t_model :: string
  t_data_class :: string
  t_privacy_mode :: string
  t_instruction_digest :: string
  t_digest_version :: int
  t_instruction_ciphertext :: string
  t_instruction_iv :: string
  t_content_key_version :: int
  t_max_output_tokens :: int
  t_max_total_tokens :: int
  t_reserved_charge_micros :: string
  t_status :: string
  t_completed_segments :: int
  t_total_segments :: "int option"
  t_processed_bytes :: int
  t_attempt :: int
  t_worker_id :: "string option"
  t_lease_digest :: "string option"
  t_lease_expires_at :: "string option"
  t_execution_deadline_at :: "string option"
  t_input_tokens :: "int option"
  t_output_tokens :: "int option"
  t_total_tokens :: "int option"
  t_charge_micros :: "string option"
  t_output_ciphertext :: "string option"
  t_output_iv :: "string option"
  t_output_expires_at :: "string option"
  t_content_purged_at :: "string option"
  t_cancellation_requested_at :: "string option"
  t_error_code :: "string option"
  t_created_at :: string
  t_started_at :: "string option"
  t_updated_at :: string
  t_completed_at :: "string option"

record CheckpointRow =
  c_checkpoint_id :: string
  c_task_id :: string
  c_attempt :: int
  c_completed_segments :: int
  c_total_segments :: int
  c_processed_bytes :: int
  c_input_tokens :: int
  c_output_tokens :: int
  c_total_tokens :: int
  c_occurred_at :: string

record TaskEvidenceRow =
  te_evidence_id :: string
  te_task_id :: string
  te_provider_id :: string
  te_requested_model :: string
  te_served_model :: string
  te_artifact_id :: string
  te_artifact_manifest_sha256 :: string
  te_artifact_content_sha256 :: string
  te_output_sha256 :: string
  te_digest_version :: int
  te_provider_request_ids_sha256 :: string
  te_segments_completed :: int
  te_input_tokens :: int
  te_output_tokens :: int
  te_total_tokens :: int
  te_evidence_digest :: string
  te_buyer_charge_micros :: string
  te_supplier_credit_micros :: string
  te_platform_fee_micros :: string
  te_completed_at :: string
  te_recorded_at :: string

record database =
  suppliers :: "SupplierRow list"
  authorization_requests :: "AuthorizationRow list"
  capacity_offers :: "OfferRow list"
  marketplace_events :: "EventRow list"
  inference_jobs :: "JobRow list"
  usage_records :: "UsageRow list"
  service_evidence :: "ServiceEvidenceRow list"
  ledger_entries :: "LedgerRow list"
  audit_events :: "AuditRow list"
  idempotency_keys :: "IdempotencyRow list"
  artifacts :: "ArtifactRow list"
  supplier_artifact_workers :: "WorkerRow list"
  artifact_tasks :: "ArtifactTaskRow list"
  artifact_task_checkpoints :: "CheckpointRow list"
  artifact_task_evidence :: "TaskEvidenceRow list"

section \<open>Statements\<close>

text \<open>
  A statement reads and writes the whole database in one step (D1 serializes writes) and reports
  the number of changed rows. It fails on an integer overflow or a violated unique index; a failed
  statement changes nothing, and a failed statement of a batch undoes the batch.
\<close>

datatype dbError = IntegerOverflow | UniqueViolation

type_synonym stmt = "database \<Rightarrow> dbError + (database \<times> nat)"

definition updateRows :: "('r \<Rightarrow> bool) \<Rightarrow> ('r \<Rightarrow> 'r) \<Rightarrow> 'r list \<Rightarrow> 'r list" where
  "updateRows p f rows = map (\<lambda>r. if p r then f r else r) rows"

definition countRows :: "('r \<Rightarrow> bool) \<Rightarrow> 'r list \<Rightarrow> nat" where
  "countRows p rows = length (filter p rows)"

fun batch :: "('d \<Rightarrow> dbError + ('d \<times> nat)) list \<Rightarrow> 'd \<Rightarrow> dbError + ('d \<times> nat list)" where
  "batch [] db = Inr (db, [])"
| "batch (s # ss) db = andThen (s db) (\<lambda>(db', n).
     andThen (batch ss db') (\<lambda>(db'', ns). Inr (db'', n # ns)))"

definition insertAudit :: "AuditRow \<Rightarrow> stmt" where
  "insertAudit row db =
     (if list_ex (\<lambda>r. ad_audit_id r = ad_audit_id row) (audit_events db) then Inl UniqueViolation
      else Inr (db\<lparr>audit_events := audit_events db @ [row]\<rparr>, 1))"

text \<open>The unique index on the scope of an idempotency key.\<close>

definition keyConflict :: "database \<Rightarrow> IdempotencyRow \<Rightarrow> bool" where
  "keyConflict db row = list_ex (\<lambda>k. k_tenant_id k = k_tenant_id row \<and>
     k_operation k = k_operation row \<and> k_idempotency_key k = k_idempotency_key row) (idempotency_keys db)"

definition insertKeyOrIgnore :: "IdempotencyRow \<Rightarrow> stmt" where
  "insertKeyOrIgnore row db =
     (if keyConflict db row then Inr (db, 0)
      else Inr (db\<lparr>idempotency_keys := idempotency_keys db @ [row]\<rparr>, 1))"

definition hasKey :: "database \<Rightarrow> string \<Rightarrow> string \<Rightarrow> string \<Rightarrow> string \<Rightarrow> bool" where
  "hasKey db tenant operation key resource = list_ex (\<lambda>k. k_tenant_id k = tenant \<and>
     k_operation k = operation \<and> k_idempotency_key k = key \<and> k_resource_id k = resource)
     (idempotency_keys db)"

text \<open>
  The ledger: the primary key, and one effect of each settlement type per job (the partial
  unique index \<^verbatim>\<open>idx_ledger_entries_job_effect\<close>).
\<close>

definition settlementTypes :: "string list" where
  "settlementTypes = [''inference-debit'', ''supplier-credit'', ''platform-fee'']"

definition ledgerConflict :: "database \<Rightarrow> LedgerRow \<Rightarrow> bool" where
  "ledgerConflict db row = list_ex (\<lambda>l. l_entry_id l = l_entry_id row \<or>
     (l_job_id row \<noteq> None \<and> l_entry_type row \<in> set settlementTypes \<and>
      l_job_id l = l_job_id row \<and> l_entry_type l = l_entry_type row)) (ledger_entries db)"

definition insertLedgerOrIgnore :: "LedgerRow \<Rightarrow> stmt" where
  "insertLedgerOrIgnore row db =
     (if ledgerConflict db row then Inr (db, 0)
      else Inr (db\<lparr>ledger_entries := ledger_entries db @ [row]\<rparr>, 1))"

section \<open>Lemmas\<close>

lemma sumFrom_Some: "sumFrom a xs = Some s \<Longrightarrow> s = a + sum_list xs"
  by (induction xs arbitrary: a) (force split: if_splits simp: add.assoc)+

lemma sqlSum_Some: "sqlSum xs = Some s \<Longrightarrow> s = sum_list xs"
  by (auto simp: sqlSum_def dest: sumFrom_Some)

text \<open>A sum of non-negative amounts that fits 64 bits is computed without error.\<close>

lemma sumFrom_total:
  assumes "\<forall>x \<in> set xs. 0 \<le> x" "0 \<le> a" "a + sum_list xs \<le> INT64_MAX"
  shows "sumFrom a xs = Some (a + sum_list xs)"
  using assms
proof (induction xs arbitrary: a)
  case (Cons x xs)
  have "0 \<le> sum_list xs" using Cons.prems(1) by (intro sum_list_nonneg) auto
  with Cons.prems have "inInt64 (a + x)" by (auto simp: inInt64_def INT64_MIN_def)
  with Cons show ?case by (simp add: add.assoc)
qed simp

lemma sqlSum_total:
  "\<forall>x \<in> set xs. 0 \<le> x \<Longrightarrow> sum_list xs \<le> INT64_MAX \<Longrightarrow> sqlSum xs = Some (sum_list xs)"
  by (simp add: sqlSum_def sumFrom_total)

lemma takeWhile_all: "list_all p xs \<Longrightarrow> takeWhile p xs = xs"
  by (induction xs) auto

lemma digit_not_special:
  "is_digit c \<Longrightarrow> \<not> is_js_space c" "is_digit c \<Longrightarrow> c \<noteq> CHR ''-''" "is_digit c \<Longrightarrow> c \<noteq> CHR ''+''"
  by (auto simp: is_digit_def is_js_space_def Let_def)

lemma castInteger_dec: "castInteger (dec_of_nat n) = clampInt64 (int n)"
proof -
  obtain c cs where s: "dec_of_nat n = c # cs" by (cases "dec_of_nat n") auto
  then have d: "is_digit c" "list_all is_digit cs" using dec_of_nat_digits [of n] by auto
  have "castDigits (c # cs) = int (nat_of_dec (c # cs))"
    using d digit_not_special by (simp add: takeWhile_all)
  moreover have "dropWhile is_js_space (c # cs) = c # cs" using d digit_not_special by simp
  ultimately show ?thesis by (simp add: castInteger_def s [symmetric])
qed

text \<open>Printed amounts cast back to themselves below \<open>2 ^ 63\<close>.\<close>

lemma castInteger_BigInt: "0 \<le> i \<Longrightarrow> castInteger (BigInt_toString i) = min i INT64_MAX"
  by (simp add: BigInt_toString_def castInteger_dec clampInt64_def INT64_MAX_def INT64_MIN_def min_def)

lemma updateRows_keys: "(\<And>r. k (f r) = k r) \<Longrightarrow> map k (updateRows p f rows) = map k rows"
  by (simp add: updateRows_def)

lemma updateRows_none: "\<not> (\<exists>r \<in> set rows. p r) \<Longrightarrow> updateRows p f rows = rows"
  unfolding updateRows_def by (rule map_idI) auto

lemma updateRows_False [simp]: "updateRows (\<lambda>r. False) f rows = rows"
  by (simp add: updateRows_def)

text \<open>What every statement of a batch does to the database, the batch does.\<close>

lemma batch_rel:
  assumes "\<And>d. R d d" "\<And>a b c. R a b \<Longrightarrow> R b c \<Longrightarrow> R a c"
    and "\<And>s d d' n. s \<in> set ss \<Longrightarrow> s d = Inr (d', n) \<Longrightarrow> R d d'"
    and "batch ss db = Inr (db', ns)"
  shows "R db db'"
  using assms(3,4)
proof (induction ss arbitrary: db ns)
  case Nil
  then show ?case using assms(1) by simp
next
  case (Cons s ss)
  from Cons.prems(2) obtain m n ns' where m: "s db = Inr (m, n)" "batch ss m = Inr (db', ns')" by auto
  have "R db m" using Cons.prems(1) [of s] m(1) by simp
  moreover have "R m db'" using Cons.prems(1) m(2) by (intro Cons.IH) auto
  ultimately show ?case by (rule assms(2))
qed

text \<open>
  An update that adds no row to a selection and keeps the amount of the rows that stay in it
  cannot raise the selected total when amounts are non-negative.
\<close>

lemma selected_sum_le:
  fixes v :: "'r \<Rightarrow> int"
  assumes "\<And>r. r \<in> set rows \<Longrightarrow> q (g r) \<Longrightarrow> q r \<and> v (g r) = v r"
    and "\<And>r. r \<in> set rows \<Longrightarrow> 0 \<le> v r"
  shows "sum_list (map v (filter q (map g rows))) \<le> sum_list (map v (filter q rows))"
  using assms
proof (induction rows)
  case (Cons r rows)
  then have IH: "sum_list (map v (filter q (map g rows))) \<le> sum_list (map v (filter q rows))" by auto
  have "q (g r) \<Longrightarrow> q r \<and> v (g r) = v r" "0 \<le> v r" using Cons.prems by auto
  with IH show ?case by auto
qed simp

end
