(* ===== verification/Ledger.thy ===== *)
theory Ledger
  imports Database
begin

text \<open>
  The financial write gates (\<^verbatim>\<open>apps/web/server/financial-invariants.ts\<close>) and the life of an
  inference job in \<open>runInference\<close> (\<^verbatim>\<open>marketplace-service.ts\<close>): reserve, start, settle or fail,
  and the cleanup of stale reservations. Each definition is one statement or one batch, the unit
  that D1 executes without interleaving. Ciphertexts, digests and generated identifiers are
  arguments.
\<close>

section \<open>Balances\<close>

definition jobHeld :: "JobRow \<Rightarrow> bool" where
  "jobHeld j \<longleftrightarrow> j_status j \<in> {''reserved'', ''running''}"

definition taskHeld :: "ArtifactTaskRow \<Rightarrow> bool" where
  "taskHeld t \<longleftrightarrow> t_status t \<in> {''queued'', ''claimed'', ''running''}"

definition taskLeased :: "ArtifactTaskRow \<Rightarrow> bool" where
  "taskLeased t \<longleftrightarrow> t_status t \<in> {''claimed'', ''running''}"

definition signedAmount :: "LedgerRow \<Rightarrow> int" where
  "signedAmount l = (if l_direction l = ''credit'' then castInteger (l_amount_micros l)
     else - castInteger (l_amount_micros l))"

definition jobCharge :: "JobRow \<Rightarrow> int" where
  "jobCharge j = castInteger (j_reserved_charge_micros j)"

definition taskCharge :: "ArtifactTaskRow \<Rightarrow> int" where
  "taskCharge t = castInteger (t_reserved_charge_micros t)"

text \<open>
  The balance expression of every gate: ledger minus the holds of inference jobs and artifact
  tasks, with the row that is being completed left out of its own hold.
\<close>

definition gateBalance ::
  "(JobRow \<Rightarrow> bool) \<Rightarrow> (ArtifactTaskRow \<Rightarrow> bool) \<Rightarrow> database \<Rightarrow> string \<Rightarrow> dbError + int" where
  "gateBalance pj pt db tenant =
     (case (sqlSum (map signedAmount (filter (\<lambda>l. l_tenant_id l = tenant) (ledger_entries db))),
            sqlSum (map jobCharge (filter (\<lambda>j. j_buyer_tenant_id j = tenant \<and> pj j \<and> jobHeld j)
              (inference_jobs db))),
            sqlSum (map taskCharge (filter (\<lambda>t. t_buyer_tenant_id t = tenant \<and> pt t \<and> taskHeld t)
              (artifact_tasks db)))) of
        (Some a, Some b, Some c) \<Rightarrow> Inr (a - b - c)
      | _ \<Rightarrow> Inl IntegerOverflow)"

definition AVAILABLE_BALANCE_SQL :: "database \<Rightarrow> string \<Rightarrow> dbError + int" where
  "AVAILABLE_BALANCE_SQL = gateBalance (\<lambda>_. True) (\<lambda>_. True)"

section \<open>Capacity\<close>

text \<open>The offer, its supplier and its authorization, as joined by both reservation gates.\<close>

definition offerReservable ::
  "database \<Rightarrow> string \<Rightarrow> string \<Rightarrow> int \<Rightarrow> string \<Rightarrow> string \<Rightarrow> string \<Rightarrow> bool" where
  "offerReservable db offerId authorizationRequestId revision supplierTenant buyerTenant now =
     list_ex (\<lambda>off. list_ex (\<lambda>s. list_ex (\<lambda>ar.
       s_supplier_id s = o_supplier_id off \<and> s_tenant_id s = o_tenant_id off \<and>
       ar_request_id ar = o_authorization_request_id off \<and> ar_status ar = ''approved'' \<and>
       o_offer_id off = offerId \<and> o_authorization_request_id off = authorizationRequestId \<and>
       ar_tenant_id ar = o_tenant_id off \<and> ar_supplier_id ar = o_supplier_id off \<and>
       ar_provider_id ar = o_provider_id off \<and> ar_authorization_revision ar = revision \<and>
       ar_encrypted_gateway_token ar \<noteq> [] \<and> ar_gateway_token_iv ar \<noteq> [] \<and>
       ar_gateway_token_digest ar \<noteq> None \<and>
       o_tenant_id off = supplierTenant \<and> o_tenant_id off \<noteq> buyerTenant \<and>
       o_status off = ''active'' \<and> o_valid_from off \<le> now \<and> now < o_valid_until off \<and>
       now < ar_valid_until ar \<and> s_status s = ''active'' \<and> s_supply_enabled s = 1)
       (authorization_requests db)) (suppliers db)) (capacity_offers db)"

definition activeOnOffer :: "database \<Rightarrow> string \<Rightarrow> nat" where
  "activeOnOffer db offerId =
     countRows (\<lambda>j. j_offer_id j = offerId \<and> jobHeld j) (inference_jobs db) +
     countRows (\<lambda>t. t_offer_id t = offerId \<and> taskLeased t) (artifact_tasks db)"

section \<open>Inference jobs\<close>

text \<open>The row a reservation inserts; columns it does not list take their defaults.\<close>

definition reservedJob ::
  "string \<Rightarrow> string \<Rightarrow> string \<Rightarrow> string \<Rightarrow> string \<Rightarrow> int \<Rightarrow> string \<Rightarrow> string \<Rightarrow> string \<Rightarrow> string \<Rightarrow>
   string \<Rightarrow> int \<Rightarrow> int \<Rightarrow> string \<Rightarrow> string \<Rightarrow> string \<Rightarrow> JobRow" where
  "reservedJob jobId buyer supplierTenant offerId authorizationRequestId revision idempotencyKey model
     dataClass privacyMode promptDigest digestVersion maxOut charge reservationExpiresAt now =
     \<lparr>j_job_id = jobId, j_buyer_tenant_id = buyer, j_supplier_tenant_id = supplierTenant,
      j_offer_id = offerId, j_authorization_request_id = Some authorizationRequestId,
      j_authorization_revision = Some revision, j_idempotency_key = idempotencyKey, j_model = model,
      j_data_class = dataClass, j_privacy_mode = privacyMode, j_prompt_digest = promptDigest,
      j_digest_version = digestVersion, j_max_output_tokens = maxOut,
      j_reserved_charge_micros = charge, j_reservation_expires_at = Some reservationExpiresAt,
      j_status = ''reserved'', j_provider_request_id = None, j_input_tokens = None,
      j_output_tokens = None, j_total_tokens = None, j_charge_micros = None,
      j_output_ciphertext = None, j_output_iv = None, j_content_key_version = 1,
      j_output_expires_at = None, j_content_purged_at = None, j_error_code = None,
      j_created_at = now, j_completed_at = None\<rparr>"

text \<open>
  The gate is bound to the values of the row it inserts: buyer, charge, offer, authorization,
  revision, supplier and creation time.
\<close>

definition RESERVE_INFERENCE_JOB_SQL ::
  "JobRow \<Rightarrow> string \<Rightarrow> int \<Rightarrow> int \<Rightarrow> stmt" where
  "RESERVE_INFERENCE_JOB_SQL row authorizationRequestId revision concurrencyLimit db =
     andThen (AVAILABLE_BALANCE_SQL db (j_buyer_tenant_id row)) (\<lambda>balance.
     if balance \<ge> castInteger (j_reserved_charge_micros row) \<and>
        offerReservable db (j_offer_id row) authorizationRequestId revision
          (j_supplier_tenant_id row) (j_buyer_tenant_id row) (j_created_at row) \<and>
        int (activeOnOffer db (j_offer_id row)) < concurrencyLimit \<and>
        \<not> list_ex (\<lambda>j. j_job_id j = j_job_id row \<or>
            (j_buyer_tenant_id j = j_buyer_tenant_id row \<and>
             j_idempotency_key j = j_idempotency_key row)) (inference_jobs db)
     then Inr (db\<lparr>inference_jobs := inference_jobs db @ [row]\<rparr>, 1)
     else Inr (db, 0))"

definition updateJobs :: "(JobRow \<Rightarrow> bool) \<Rightarrow> (JobRow \<Rightarrow> JobRow) \<Rightarrow> stmt" where
  "updateJobs p f db = Inr (db\<lparr>inference_jobs := updateRows p f (inference_jobs db)\<rparr>,
     countRows p (inference_jobs db))"

definition startInferenceJob :: "string \<Rightarrow> string \<Rightarrow> stmt" where
  "startInferenceJob jobId now =
     updateJobs (\<lambda>j. j_job_id j = jobId \<and> j_status j = ''reserved'' \<and>
         gtNull (j_reservation_expires_at j) now)
       (\<lambda>j. j\<lparr>j_status := ''running''\<rparr>)"

definition failInferenceJob :: "string \<Rightarrow> string \<Rightarrow> string \<Rightarrow> stmt" where
  "failInferenceJob code now jobId =
     updateJobs (\<lambda>j. j_job_id j = jobId \<and> jobHeld j)
       (\<lambda>j. j\<lparr>j_status := ''failed'', j_reservation_expires_at := None,
            j_error_code := Some code, j_completed_at := Some now\<rparr>)"

definition cleanupStaleInferenceReservations :: "string \<Rightarrow> string \<Rightarrow> stmt" where
  "cleanupStaleInferenceReservations now legacyReservationCutoff =
     updateJobs (\<lambda>j. jobHeld j \<and> (leNull (j_reservation_expires_at j) now \<or>
         (j_reservation_expires_at j = None \<and> j_created_at j \<le> legacyReservationCutoff)))
       (\<lambda>j. j\<lparr>j_status := ''failed'', j_reservation_expires_at := None,
            j_error_code := Some ''EXECUTION_TIMEOUT'', j_completed_at := Some now\<rparr>)"

definition cleanupExpiredInferenceContent :: "string \<Rightarrow> stmt" where
  "cleanupExpiredInferenceContent now =
     updateJobs (\<lambda>j. leNull (j_output_expires_at j) now)
       (\<lambda>j. j\<lparr>j_output_ciphertext := None, j_output_iv := None, j_output_expires_at := None,
            j_content_purged_at := (case j_content_purged_at j of None \<Rightarrow> Some now | Some x \<Rightarrow> Some x)\<rparr>)"

text \<open>
  What a completed call writes. The amounts are the settlement strings; \<open>is_clock\<close> is the
  database clock that \<open>strftime\<close> reads.
\<close>

record InferenceSettlement =
  is_jobId :: string
  is_tenantId :: string
  is_actorId :: string
  is_supplierTenantId :: string
  is_offerId :: string
  is_providerId :: string
  is_requestedModel :: string
  is_servedModel :: string
  is_providerRequestId :: string
  is_usage :: "int \<times> int \<times> int"
  is_receiptRef :: "string option"
  is_assurance :: string
  is_evidenceDigest :: string
  is_inputDigest :: string
  is_outputDigest :: string
  is_digestVersion :: int
  is_unitPrice :: string
  is_amounts :: SettlementAmounts
  is_ciphertext :: string
  is_iv :: string
  is_keyVersion :: int
  is_outputExpiresAt :: string
  is_providerCompletedAt :: string
  is_completedAt :: string
  is_clock :: string
  is_usageId :: string
  is_evidenceId :: string
  is_debitId :: string
  is_creditId :: string
  is_feeId :: string
  is_auditId :: string
  is_details :: string

definition completedJob :: "InferenceSettlement \<Rightarrow> JobRow \<Rightarrow> JobRow" where
  "completedJob x j = (case is_usage x of (i, out, tot) \<Rightarrow>
     j\<lparr>j_status := ''completed'', j_provider_request_id := Some (is_providerRequestId x),
       j_input_tokens := Some i, j_output_tokens := Some out, j_total_tokens := Some tot,
       j_charge_micros := Some (buyerChargeMicros (is_amounts x)),
       j_output_ciphertext := Some (is_ciphertext x), j_output_iv := Some (is_iv x),
       j_content_key_version := is_keyVersion x, j_output_expires_at := Some (is_outputExpiresAt x),
       j_reservation_expires_at := None, j_completed_at := Some (is_completedAt x)\<rparr>)"

definition COMPLETE_INFERENCE_JOB_SQL :: "InferenceSettlement \<Rightarrow> stmt" where
  "COMPLETE_INFERENCE_JOB_SQL x db =
     andThen (gateBalance (\<lambda>j. j_job_id j \<noteq> is_jobId x) (\<lambda>_. True) db (is_tenantId x)) (\<lambda>balance.
     let charge = castInteger (buyerChargeMicros (is_amounts x)) in
     updateJobs (\<lambda>j. j_job_id j = is_jobId x \<and> j_status j = ''running'' \<and>
         gtNull (j_reservation_expires_at j) (is_clock x) \<and>
         jobCharge j \<ge> charge \<and> balance \<ge> charge)
       (completedJob x) db)"

definition jobCompletedAt :: "database \<Rightarrow> string \<Rightarrow> string \<Rightarrow> bool" where
  "jobCompletedAt db jobId at = list_ex (\<lambda>j. j_job_id j = jobId \<and> j_status j = ''completed'' \<and>
     j_completed_at j = Some at) (inference_jobs db)"

definition insertUsage :: "UsageRow \<Rightarrow> stmt" where
  "insertUsage row db =
     (if list_ex (\<lambda>u. u_usage_id u = u_usage_id row \<or> u_job_id u = u_job_id row) (usage_records db)
      then Inl UniqueViolation
      else Inr (db\<lparr>usage_records := usage_records db @ [row]\<rparr>, 1))"

definition insertInferenceUsage :: "InferenceSettlement \<Rightarrow> stmt" where
  "insertInferenceUsage x db = (case is_usage x of (i, out, tot) \<Rightarrow>
     if jobCompletedAt db (is_jobId x) (is_completedAt x)
     then insertUsage \<lparr>u_usage_id = is_usageId x, u_job_id = is_jobId x,
       u_buyer_tenant_id = is_tenantId x, u_supplier_tenant_id = is_supplierTenantId x,
       u_offer_id = is_offerId x, u_provider_request_id = is_providerRequestId x,
       u_input_tokens = i, u_output_tokens = out, u_total_tokens = tot,
       u_receipt_ref = is_receiptRef x, u_occurred_at = is_completedAt x\<rparr> db
     else Inr (db, 0))"

definition evidenceRow :: "InferenceSettlement \<Rightarrow> ServiceEvidenceRow" where
  "evidenceRow x = (case is_usage x of (i, out, tot) \<Rightarrow>
     \<lparr>se_evidence_id = is_evidenceId x, se_job_id = is_jobId x, se_offer_id = is_offerId x,
      se_provider_id = is_providerId x, se_requested_model = is_requestedModel x,
      se_served_model = is_servedModel x, se_provider_request_id = is_providerRequestId x,
      se_assurance = is_assurance x, se_evidence_digest = is_evidenceDigest x,
      se_input_digest = is_inputDigest x, se_output_digest = is_outputDigest x,
      se_digest_version = is_digestVersion x, se_input_tokens = i, se_output_tokens = out,
      se_total_tokens = tot, se_unit_price_micros_per_million_tokens = is_unitPrice x,
      se_buyer_charge_micros = buyerChargeMicros (is_amounts x),
      se_supplier_credit_micros = supplierCreditMicros (is_amounts x),
      se_platform_fee_micros = platformFeeMicros (is_amounts x),
      se_receipt_ref = is_receiptRef x, se_provider_completed_at = is_providerCompletedAt x,
      se_recorded_at = is_completedAt x\<rparr>)"

definition jobSettled :: "InferenceSettlement \<Rightarrow> JobRow \<Rightarrow> bool" where
  "jobSettled x j \<longleftrightarrow> j_job_id j = is_jobId x \<and> j_status j = ''completed'' \<and>
     j_completed_at j = Some (is_completedAt x) \<and>
     j_charge_micros j = Some (buyerChargeMicros (is_amounts x))"

definition insertServiceEvidence :: "InferenceSettlement \<Rightarrow> stmt" where
  "insertServiceEvidence x db =
     (if list_ex (jobSettled x) (inference_jobs db)
      then if list_ex (\<lambda>e. se_evidence_id e = is_evidenceId x \<or> se_job_id e = is_jobId x)
             (service_evidence db)
        then Inl UniqueViolation
        else Inr (db\<lparr>service_evidence := service_evidence db @ [evidenceRow x]\<rparr>, 1)
      else Inr (db, 0))"

definition evidenceRecorded :: "database \<Rightarrow> string \<Rightarrow> string \<Rightarrow> bool" where
  "evidenceRecorded db jobId digest =
     list_ex (\<lambda>e. se_job_id e = jobId \<and> se_evidence_digest e = digest) (service_evidence db)"

definition guardedInferenceLedgerInsert ::
  "string \<Rightarrow> string \<Rightarrow> string \<Rightarrow> string \<Rightarrow> string \<Rightarrow> string \<Rightarrow> string \<Rightarrow> string \<Rightarrow> string \<Rightarrow> stmt" where
  "guardedInferenceLedgerInsert entryId tenantId accountId jobId entryType direction amountMicros
     createdAt evidenceDigest db =
     (if evidenceRecorded db jobId evidenceDigest
      then insertLedgerOrIgnore \<lparr>l_entry_id = entryId, l_tenant_id = tenantId, l_account_id = accountId,
        l_job_id = Some jobId, l_entry_type = entryType, l_direction = direction,
        l_amount_micros = amountMicros, l_currency = ''CNY'', l_created_at = createdAt\<rparr> db
      else Inr (db, 0))"

definition guardedInferenceAuditInsert :: "InferenceSettlement \<Rightarrow> stmt" where
  "guardedInferenceAuditInsert x db =
     (if evidenceRecorded db (is_jobId x) (is_evidenceDigest x)
      then insertAudit \<lparr>ad_audit_id = is_auditId x, ad_tenant_id = is_tenantId x,
        ad_actor_id = is_actorId x, ad_action = ''inference.completed'',
        ad_resource_type = ''inference-job'', ad_resource_id = is_jobId x,
        ad_details_json = is_details x, ad_occurred_at = is_completedAt x\<rparr> db
      else Inr (db, 0))"

definition settlementStatements :: "InferenceSettlement \<Rightarrow> stmt list" where
  "settlementStatements x =
     [COMPLETE_INFERENCE_JOB_SQL x, insertInferenceUsage x, insertServiceEvidence x,
      guardedInferenceLedgerInsert (is_debitId x) (is_tenantId x) (''buyer-'' @ is_tenantId x) (is_jobId x)
        ''inference-debit'' ''debit'' (buyerChargeMicros (is_amounts x)) (is_completedAt x) (is_evidenceDigest x),
      guardedInferenceLedgerInsert (is_creditId x) (is_supplierTenantId x)
        (''supplier-'' @ is_supplierTenantId x) (is_jobId x) ''supplier-credit'' ''credit''
        (supplierCreditMicros (is_amounts x)) (is_completedAt x) (is_evidenceDigest x),
      guardedInferenceAuditInsert x] @
     (if platformFeeMicros (is_amounts x) \<noteq> ''0''
      then [guardedInferenceLedgerInsert (is_feeId x) ''platform'' ''platform-fees'' (is_jobId x)
        ''platform-fee'' ''credit'' (platformFeeMicros (is_amounts x)) (is_completedAt x)
        (is_evidenceDigest x)]
      else [])"

section \<open>Running an inference\<close>

datatype ApiError = INSUFFICIENT_BALANCE | CAPACITY_UNAVAILABLE | GATEWAY_FAILED
  | DomainFailure MarketplaceDomainErrorCode | DatabaseFailure dbError

text \<open>
  The reservation phase: the charge is estimated from the input size, and one row is inserted or
  the request is refused. A request that lost a race for its idempotency key is answered from the
  stored row (\<open>replayInference\<close>), here \<open>Inr (db, None)\<close>.
\<close>

definition reserveInference ::
  "int \<Rightarrow> string \<Rightarrow> int \<Rightarrow> string \<Rightarrow> int \<Rightarrow> JobRow \<Rightarrow> database \<Rightarrow> ApiError + (database \<times> string option)" where
  "reserveInference inputBytes price concurrencyLimit authorizationRequestId revision row db =
     (case estimateMaximumChargeMicros (NInt (max 1 inputBytes + 256)) (NInt (j_max_output_tokens row)) price of
        Inl e \<Rightarrow> Inl (DomainFailure e)
      | Inr charge \<Rightarrow>
         (case RESERVE_INFERENCE_JOB_SQL (row\<lparr>j_reserved_charge_micros := charge\<rparr>)
                 authorizationRequestId revision concurrencyLimit db of
            Inl e \<Rightarrow> Inl (DatabaseFailure e)
          | Inr (db', changes) \<Rightarrow>
              if changes = 1 then Inr (db', Some charge)
              else if list_ex (\<lambda>j. j_buyer_tenant_id j = j_buyer_tenant_id row \<and>
                  j_idempotency_key j = j_idempotency_key row) (inference_jobs db')
              then Inr (db', None)
              else (case AVAILABLE_BALANCE_SQL db' (j_buyer_tenant_id row) of
                  Inl e \<Rightarrow> Inl (DatabaseFailure e)
                | Inr balance \<Rightarrow> if balance < BigInt_str charge then Inl INSUFFICIENT_BALANCE
                    else Inl CAPACITY_UNAVAILABLE)))"

text \<open>
  The settlement phase, from the gateway's usage to the committed check. The result is the
  database and either the error that is thrown or the settled amounts.
\<close>

definition settleInference ::
  "int \<Rightarrow> int \<Rightarrow> string \<Rightarrow> string \<Rightarrow> jsnum \<Rightarrow> InferenceSettlement \<Rightarrow> database \<Rightarrow>
     database \<times> (ApiError + SettlementAmounts)" where
  "settleInference estimatedInputTokens maxOut estimatedCharge price feeBps x db =
     (case is_usage x of (i, out, tot) \<Rightarrow>
      if i > estimatedInputTokens + 256 then (db, Inl GATEWAY_FAILED)
      else if out > maxOut then (db, Inl GATEWAY_FAILED)
      else case calculateSettlement \<lparr>totalTokens = NInt tot, priceMicrosPerMillionTokens = price,
             platformFeeBps = feeBps\<rparr> of
          Inl e \<Rightarrow> (db, Inl (DomainFailure e))
        | Inr amounts \<Rightarrow>
            if BigInt_str (buyerChargeMicros amounts) > BigInt_str estimatedCharge
            then (db, Inl GATEWAY_FAILED)
            else case batch (settlementStatements (x\<lparr>is_amounts := amounts\<rparr>)) db of
                Inl e \<Rightarrow> (db, Inl (DatabaseFailure e))
              | Inr (db', _) \<Rightarrow>
                  if list_ex (\<lambda>j. j_job_id j = is_jobId x \<and> j_status j = ''completed'') (inference_jobs db') \<and>
                     evidenceRecorded db' (is_jobId x) (is_evidenceDigest x)
                  then (db', Inr amounts) else (db', Inl INSUFFICIENT_BALANCE))"

text \<open>The whole of the \<open>try\<close> block with its handler: an error releases the reservation.\<close>

definition finishInference ::
  "int \<Rightarrow> int \<Rightarrow> string \<Rightarrow> string \<Rightarrow> jsnum \<Rightarrow> string \<Rightarrow> string \<Rightarrow> InferenceSettlement \<Rightarrow> database \<Rightarrow>
     database \<times> (ApiError + SettlementAmounts)" where
  "finishInference estimatedInputTokens maxOut estimatedCharge price feeBps code failedAt x db =
     (case settleInference estimatedInputTokens maxOut estimatedCharge price feeBps x db of
        (db', Inr amounts) \<Rightarrow> (db', Inr amounts)
      | (db', Inl e) \<Rightarrow>
          (case failInferenceJob code failedAt (is_jobId x) db' of
             Inl e' \<Rightarrow> (db', Inl (DatabaseFailure e'))
           | Inr (db'', _) \<Rightarrow> (db'', Inl e)))"

text \<open>The welcome credit of \<open>ensureUser\<close>.\<close>

definition ensureUserCredit :: "string \<Rightarrow> string \<Rightarrow> string \<Rightarrow> stmt" where
  "ensureUserCredit tenantId welcomeCreditMicros now =
     insertLedgerOrIgnore \<lparr>l_entry_id = ''welcome-'' @ tenantId, l_tenant_id = tenantId,
       l_account_id = ''buyer-'' @ tenantId, l_job_id = None, l_entry_type = ''promotional-credit'',
       l_direction = ''credit'', l_amount_micros = welcomeCreditMicros, l_currency = ''CNY'',
       l_created_at = now\<rparr>"

end
