(* ===== verification/Evidence.thy ===== *)
theory Evidence
  imports CapacityOffer Settlement
begin

text \<open>
  What the control plane requires of a supplier node: the readiness attestation
  (\<^verbatim>\<open>packages/marketplace-domain/src/gateway-attestation.ts\<close>), the evidence of a short
  inference (\<^verbatim>\<open>execution-evidence.ts\<close>) and of an artifact task
  (\<^verbatim>\<open>artifact-evidence.ts\<close>), and the canonical texts that are signed
  (\<^verbatim>\<open>packages/protocol/src/supplier-gateway.ts\<close>, \<^verbatim>\<open>artifact-task.ts\<close>).
\<close>

section \<open>Usage and digests\<close>

record SupplierGatewayUsage =
  input_tokens :: int
  output_tokens :: int
  total_tokens :: int

definition isHexChar :: "char \<Rightarrow> bool" where
  "isHexChar c = (is_digit c \<or> (97 \<le> (of_char c :: nat) \<and> (of_char c :: nat) \<le> 102))"

definition assertSha256 :: "jsval \<Rightarrow> string result" where
  "assertSha256 v = (case v of
     JStr s \<Rightarrow> if length s = 64 \<and> list_all isHexChar s then Inr s else Inl SERVICE_EVIDENCE_MISMATCH
   | _ \<Rightarrow> Inl SERVICE_EVIDENCE_MISMATCH)"

text \<open>A property read that is not a number fails \<open>Number.isSafeInteger\<close>, as \<open>NaN\<close> does.\<close>

fun numOf :: "jsval \<Rightarrow> jsnum" where
  "numOf (JNum n) = n"
| "numOf _ = NNaN"

definition validateUsage :: "heap \<Rightarrow> jsval \<Rightarrow> SupplierGatewayUsage result" where
  "validateUsage h v =
     andThen (assertExactKeys h v [''input_tokens'', ''output_tokens'', ''total_tokens'']) (\<lambda>_.
     let i = numOf (jget h v ''input_tokens''); out = numOf (jget h v ''output_tokens'');
         t = numOf (jget h v ''total_tokens'') in
     andThen (throwIf (\<not> isSafeInteger i \<or> numLt i 1 \<or> \<not> isSafeInteger out \<or> numLt out 0 \<or>
       \<not> isSafeInteger t \<or> t \<noteq> NInt (dbl (numInt i + numInt out))) SERVICE_EVIDENCE_MISMATCH) (\<lambda>_.
     Inr \<lparr>input_tokens = numInt i, output_tokens = numInt out, total_tokens = numInt t\<rparr>))"

definition sameUsage :: "SupplierGatewayUsage \<Rightarrow> SupplierGatewayUsage \<Rightarrow> bool" where
  "sameUsage left right = (input_tokens left = input_tokens right \<and>
     output_tokens left = output_tokens right \<and> total_tokens left = total_tokens right)"

section \<open>Evidence of a short inference\<close>

definition SUPPLIER_GATEWAY_EXECUTION_EVIDENCE_VERSION :: string where
  "SUPPLIER_GATEWAY_EXECUTION_EVIDENCE_VERSION = ''gongsuanyun.execution-evidence.v1''"

record ExecutionExpectation =
  xx_requestId :: string
  xx_providerId :: string
  xx_requestedModel :: string
  xx_inputSha256 :: string
  xx_outputSha256 :: string
  xx_usage :: SupplierGatewayUsage

record ExecutionEvidenceShape =
  xe_request_id :: string
  xe_provider_id :: string
  xe_requested_model :: string
  xe_served_model :: string
  xe_provider_request_id :: string
  xe_input_sha256 :: string
  xe_output_sha256 :: string
  xe_usage :: SupplierGatewayUsage
  xe_receipt_ref :: "string option"

record VerifiedSupplierExecutionEvidence =
  ve_providerId :: string
  ve_requestedModel :: string
  ve_servedModel :: string
  ve_providerRequestId :: string
  ve_inputSha256 :: string
  ve_outputSha256 :: string
  ve_usage :: SupplierGatewayUsage
  ve_completedAt :: string
  ve_receiptRef :: "string option"

definition validateExpectation :: "heap \<Rightarrow> jsval \<Rightarrow> ExecutionExpectation result" where
  "validateExpectation h x =
     andThen (assertSafeInput h x) (\<lambda>_.
     andThen (assertExactKeys h x [''requestId'', ''providerId'', ''requestedModel'',
       ''inputSha256'', ''outputSha256'', ''usage'', ''requestStartedAt'', ''verifiedAt'']) (\<lambda>_.
     andThen (assertIdentifier (jget h x ''requestId'')) (\<lambda>requestId.
     andThen (assertIdentifier (jget h x ''providerId'')) (\<lambda>providerId.
     andThen (assertText (jget h x ''requestedModel'') 200) (\<lambda>requestedModel.
     andThen (assertSha256 (jget h x ''inputSha256'')) (\<lambda>inputSha.
     andThen (assertSha256 (jget h x ''outputSha256'')) (\<lambda>outputSha.
     andThen (validateUsage h (jget h x ''usage'')) (\<lambda>usage.
     Inr \<lparr>xx_requestId = requestId, xx_providerId = providerId, xx_requestedModel = requestedModel,
          xx_inputSha256 = inputSha, xx_outputSha256 = outputSha, xx_usage = usage\<rparr>))))))))"

definition validateEvidenceShape :: "heap \<Rightarrow> jsval \<Rightarrow> ExecutionEvidenceShape result" where
  "validateEvidenceShape h e = catchAs SERVICE_EVIDENCE_MISMATCH (
     andThen (assertSafeInput h e) (\<lambda>_.
     andThen (assertExactKeys h e [''evidence_version'', ''request_id'', ''provider_id'',
       ''requested_model'', ''served_model'', ''provider_request_id'', ''input_sha256'',
       ''output_sha256'', ''usage'', ''completed_at'', ''receipt_ref'']) (\<lambda>_.
     andThen (assertIdentifier (jget h e ''request_id'')) (\<lambda>requestId.
     andThen (assertIdentifier (jget h e ''provider_id'')) (\<lambda>providerId.
     andThen (assertText (jget h e ''requested_model'') 200) (\<lambda>requestedModel.
     andThen (assertText (jget h e ''served_model'') 200) (\<lambda>servedModel.
     andThen (assertText (jget h e ''provider_request_id'') 256) (\<lambda>providerRequestId.
     andThen (assertSha256 (jget h e ''input_sha256'')) (\<lambda>inputSha.
     andThen (assertSha256 (jget h e ''output_sha256'')) (\<lambda>outputSha.
     andThen (validateUsage h (jget h e ''usage'')) (\<lambda>usage.
     andThen (if jget h e ''receipt_ref'' = JUndefined then Inr None
       else andThen (assertText (jget h e ''receipt_ref'') 256) (\<lambda>r. Inr (Some r))) (\<lambda>receipt.
     Inr \<lparr>xe_request_id = requestId, xe_provider_id = providerId,
          xe_requested_model = requestedModel, xe_served_model = servedModel,
          xe_provider_request_id = providerRequestId, xe_input_sha256 = inputSha,
          xe_output_sha256 = outputSha, xe_usage = usage, xe_receipt_ref = receipt\<rparr>))))))))))))"

definition withinClockWindow :: "int \<Rightarrow> int \<Rightarrow> int \<Rightarrow> bool" where
  "withinClockWindow completedAt startedAt verifiedAt =
     (completedAt \<ge> startedAt - 5 * 60000 \<and> completedAt \<le> verifiedAt + 5 * 60000)"

definition verifySupplierExecutionEvidence ::
  "heap \<Rightarrow> dateParse \<Rightarrow> jsval \<Rightarrow> jsval \<Rightarrow> VerifiedSupplierExecutionEvidence result" where
  "verifySupplierExecutionEvidence h dp expectation evidence =
     andThen (validateExpectation h expectation) (\<lambda>x.
     andThen (validateEvidenceShape h evidence) (\<lambda>e.
     andThen (assertTimestamp dp (jget h evidence ''completed_at'')) (\<lambda>completedAt.
     andThen (assertTimestamp dp (jget h expectation ''requestStartedAt'')) (\<lambda>startedAt.
     andThen (assertTimestamp dp (jget h expectation ''verifiedAt'')) (\<lambda>verifiedAt.
     andThen (throwIf (
         jget h evidence ''evidence_version'' \<noteq> JStr SUPPLIER_GATEWAY_EXECUTION_EVIDENCE_VERSION \<or>
         xe_request_id e \<noteq> xx_requestId x \<or> xe_provider_id e \<noteq> xx_providerId x \<or>
         xe_requested_model e \<noteq> xx_requestedModel x \<or> xe_served_model e \<noteq> xx_requestedModel x \<or>
         xe_input_sha256 e \<noteq> xx_inputSha256 x \<or> xe_output_sha256 e \<noteq> xx_outputSha256 x \<or>
         \<not> sameUsage (xe_usage e) (xx_usage x) \<or>
         \<not> withinClockWindow completedAt startedAt verifiedAt) SERVICE_EVIDENCE_MISMATCH) (\<lambda>_.
     Inr \<lparr>ve_providerId = xe_provider_id e, ve_requestedModel = xe_requested_model e,
          ve_servedModel = xe_served_model e, ve_providerRequestId = xe_provider_request_id e,
          ve_inputSha256 = xe_input_sha256 e, ve_outputSha256 = xe_output_sha256 e,
          ve_usage = xe_usage e, ve_completedAt = strOf (jget h evidence ''completed_at''),
          ve_receiptRef = xe_receipt_ref e\<rparr>))))))"

section \<open>Evidence of an artifact task\<close>

definition SUPPLIER_ARTIFACT_EXECUTION_EVIDENCE_VERSION :: string where
  "SUPPLIER_ARTIFACT_EXECUTION_EVIDENCE_VERSION = ''gongsuanyun.artifact-evidence.v1''"

record ArtifactExpectation =
  ax_taskId :: string
  ax_providerId :: string
  ax_artifactId :: string
  ax_requestedModel :: string
  ax_artifactManifestSha256 :: string
  ax_outputSha256 :: string
  ax_usage :: SupplierGatewayUsage

record ArtifactEvidenceShape =
  ae_task_id :: string
  ae_provider_id :: string
  ae_artifact_id :: string
  ae_requested_model :: string
  ae_served_model :: string
  ae_artifact_manifest_sha256 :: string
  ae_artifact_content_sha256 :: string
  ae_output_sha256 :: string
  ae_provider_request_ids_sha256 :: string
  ae_segments_completed :: int
  ae_usage :: SupplierGatewayUsage

record VerifiedSupplierArtifactEvidence =
  va_providerId :: string
  va_requestedModel :: string
  va_servedModel :: string
  va_artifactId :: string
  va_artifactManifestSha256 :: string
  va_artifactContentSha256 :: string
  va_outputSha256 :: string
  va_providerRequestIdsSha256 :: string
  va_segmentsCompleted :: int
  va_usage :: SupplierGatewayUsage
  va_completedAt :: string

definition validateArtifactExpectation :: "heap \<Rightarrow> jsval \<Rightarrow> ArtifactExpectation result" where
  "validateArtifactExpectation h x =
     andThen (assertSafeInput h x) (\<lambda>_.
     andThen (assertExactKeys h x [''taskId'', ''providerId'', ''requestedModel'', ''artifactId'',
       ''artifactManifestSha256'', ''outputSha256'', ''usage'', ''requestStartedAt'', ''verifiedAt'']) (\<lambda>_.
     andThen (assertIdentifier (jget h x ''taskId'')) (\<lambda>taskId.
     andThen (assertIdentifier (jget h x ''providerId'')) (\<lambda>providerId.
     andThen (assertIdentifier (jget h x ''artifactId'')) (\<lambda>artifactId.
     andThen (assertText (jget h x ''requestedModel'') 200) (\<lambda>requestedModel.
     andThen (assertSha256 (jget h x ''artifactManifestSha256'')) (\<lambda>manifestSha.
     andThen (assertSha256 (jget h x ''outputSha256'')) (\<lambda>outputSha.
     andThen (validateUsage h (jget h x ''usage'')) (\<lambda>usage.
     Inr \<lparr>ax_taskId = taskId, ax_providerId = providerId, ax_artifactId = artifactId,
          ax_requestedModel = requestedModel, ax_artifactManifestSha256 = manifestSha,
          ax_outputSha256 = outputSha, ax_usage = usage\<rparr>)))))))))"

definition validateArtifactEvidence :: "heap \<Rightarrow> jsval \<Rightarrow> ArtifactEvidenceShape result" where
  "validateArtifactEvidence h e = catchAs SERVICE_EVIDENCE_MISMATCH (
     andThen (assertSafeInput h e) (\<lambda>_.
     andThen (assertExactKeys h e [''evidence_version'', ''task_id'', ''provider_id'',
       ''requested_model'', ''served_model'', ''artifact_id'', ''artifact_manifest_sha256'',
       ''artifact_content_sha256'', ''output_sha256'', ''provider_request_ids_sha256'',
       ''segments_completed'', ''usage'', ''completed_at'']) (\<lambda>_.
     andThen (assertIdentifier (jget h e ''task_id'')) (\<lambda>taskId.
     andThen (assertIdentifier (jget h e ''provider_id'')) (\<lambda>providerId.
     andThen (assertIdentifier (jget h e ''artifact_id'')) (\<lambda>artifactId.
     andThen (assertText (jget h e ''requested_model'') 200) (\<lambda>requestedModel.
     andThen (assertText (jget h e ''served_model'') 200) (\<lambda>servedModel.
     andThen (assertSha256 (jget h e ''artifact_manifest_sha256'')) (\<lambda>manifestSha.
     andThen (assertSha256 (jget h e ''artifact_content_sha256'')) (\<lambda>contentSha.
     andThen (assertSha256 (jget h e ''output_sha256'')) (\<lambda>outputSha.
     andThen (assertSha256 (jget h e ''provider_request_ids_sha256'')) (\<lambda>requestIdsSha.
     let segments = numOf (jget h e ''segments_completed'') in
     andThen (throwIf (\<not> isSafeInteger segments \<or> numLt segments 1 \<or> numGt segments 100000)
       SERVICE_EVIDENCE_MISMATCH) (\<lambda>_.
     andThen (validateUsage h (jget h e ''usage'')) (\<lambda>usage.
     Inr \<lparr>ae_task_id = taskId, ae_provider_id = providerId, ae_artifact_id = artifactId,
          ae_requested_model = requestedModel, ae_served_model = servedModel,
          ae_artifact_manifest_sha256 = manifestSha, ae_artifact_content_sha256 = contentSha,
          ae_output_sha256 = outputSha, ae_provider_request_ids_sha256 = requestIdsSha,
          ae_segments_completed = numInt segments, ae_usage = usage\<rparr>))))))))))))))"

definition verifySupplierArtifactEvidence ::
  "heap \<Rightarrow> dateParse \<Rightarrow> jsval \<Rightarrow> jsval \<Rightarrow> VerifiedSupplierArtifactEvidence result" where
  "verifySupplierArtifactEvidence h dp expectation evidence =
     andThen (validateArtifactExpectation h expectation) (\<lambda>x.
     andThen (validateArtifactEvidence h evidence) (\<lambda>e.
     andThen (assertTimestamp dp (jget h evidence ''completed_at'')) (\<lambda>completedAt.
     andThen (assertTimestamp dp (jget h expectation ''requestStartedAt'')) (\<lambda>startedAt.
     andThen (assertTimestamp dp (jget h expectation ''verifiedAt'')) (\<lambda>verifiedAt.
     andThen (throwIf (
         jget h evidence ''evidence_version'' \<noteq> JStr SUPPLIER_ARTIFACT_EXECUTION_EVIDENCE_VERSION \<or>
         ae_task_id e \<noteq> ax_taskId x \<or> ae_provider_id e \<noteq> ax_providerId x \<or>
         ae_requested_model e \<noteq> ax_requestedModel x \<or> ae_served_model e \<noteq> ax_requestedModel x \<or>
         ae_artifact_id e \<noteq> ax_artifactId x \<or>
         ae_artifact_manifest_sha256 e \<noteq> ax_artifactManifestSha256 x \<or>
         ae_output_sha256 e \<noteq> ax_outputSha256 x \<or>
         \<not> sameUsage (ae_usage e) (ax_usage x) \<or>
         \<not> withinClockWindow completedAt startedAt verifiedAt) SERVICE_EVIDENCE_MISMATCH) (\<lambda>_.
     Inr \<lparr>va_providerId = ae_provider_id e, va_requestedModel = ae_requested_model e,
          va_servedModel = ae_served_model e, va_artifactId = ae_artifact_id e,
          va_artifactManifestSha256 = ae_artifact_manifest_sha256 e,
          va_artifactContentSha256 = ae_artifact_content_sha256 e,
          va_outputSha256 = ae_output_sha256 e,
          va_providerRequestIdsSha256 = ae_provider_request_ids_sha256 e,
          va_segmentsCompleted = ae_segments_completed e, va_usage = ae_usage e,
          va_completedAt = strOf (jget h evidence ''completed_at'')\<rparr>))))))"

section \<open>Gateway attestation\<close>

definition SUPPLIER_GATEWAY_PROTOCOL_VERSION :: string where
  "SUPPLIER_GATEWAY_PROTOCOL_VERSION = ''gongsuanyun.gateway.v3''"

record RemoteAttestation =
  ra_request_id :: string
  ra_challenge :: string
  ra_provider_id :: string
  ra_allowed_models :: "string list"
  ra_allowed_data_classes :: "MarketplaceDataClass list"
  ra_limits :: CapacityLimits

record VerifiedSupplierGatewayAttestation =
  vg_providerId :: string
  vg_matchedModels :: "string list"
  vg_dataClasses :: "MarketplaceDataClass list"
  vg_limits :: CapacityLimits

definition withinLimits :: "CapacityLimits \<Rightarrow> CapacityLimits \<Rightarrow> bool" where
  "withinLimits requested available =
     (requestsPerMinute requested \<le> requestsPerMinute available \<and>
      tokensPerMinute requested \<le> tokensPerMinute available \<and>
      concurrency requested \<le> concurrency available \<and>
      maxOutputTokens requested \<le> maxOutputTokens available)"

definition attestedMatchesPattern :: "string \<Rightarrow> string \<Rightarrow> bool" where
  "attestedMatchesPattern value pattern =
     (if pattern = ''*'' then True
      else if endsWith pattern ''*'' then startsWith value (butlast pattern)
      else value = pattern)"

text \<open>A data class other than P0 and P1 is refused with the given code.\<close>

definition attestedDataClass :: "MarketplaceDomainErrorCode \<Rightarrow> string \<Rightarrow> MarketplaceDataClass result" where
  "attestedDataClass code s = (if s = ''P0'' then Inr P0 else if s = ''P1'' then Inr P1 else Inl code)"

definition assertRemoteShape :: "heap \<Rightarrow> jsval \<Rightarrow> RemoteAttestation result" where
  "assertRemoteShape h v = catchAs GATEWAY_ATTESTATION_MISMATCH (
     andThen (assertExactKeys h v [''status'', ''protocol_version'', ''provider_id'',
       ''allowed_models'', ''allowed_data_classes'', ''limits'', ''request_id'', ''challenge'']) (\<lambda>_.
     andThen (assertIdentifier (jget h v ''request_id'')) (\<lambda>requestId.
     andThen (assertText (jget h v ''challenge'') 128) (\<lambda>challenge.
     andThen (assertIdentifier (jget h v ''provider_id'')) (\<lambda>providerId.
     andThen (assertUniqueStrings h (jget h v ''allowed_models'') (\<lambda>model.
       andThen (assertText (JStr model) 120) (\<lambda>_.
       andThen (throwIf (CHR ''*'' \<in> set model) GATEWAY_ATTESTATION_MISMATCH) (\<lambda>_.
       Inr model)))) (\<lambda>models.
     andThen (assertUniqueStrings h (jget h v ''allowed_data_classes'')
       (attestedDataClass GATEWAY_ATTESTATION_MISMATCH)) (\<lambda>dataClasses.
     let lim = jget h v ''limits'' in
     andThen (assertExactKeys h lim [''requests_per_minute'', ''tokens_per_minute'',
       ''concurrency'', ''max_output_tokens'']) (\<lambda>_.
     andThen (capacityLimitFields (jget h lim ''requests_per_minute'')
       (jget h lim ''tokens_per_minute'') (jget h lim ''concurrency'')
       (jget h lim ''max_output_tokens'')) (\<lambda>limits.
     Inr \<lparr>ra_request_id = requestId, ra_challenge = challenge, ra_provider_id = providerId,
          ra_allowed_models = models, ra_allowed_data_classes = dataClasses,
          ra_limits = limits\<rparr>)))))))))"

definition verifySupplierGatewayAttestation ::
  "heap \<Rightarrow> jsval \<Rightarrow> jsval \<Rightarrow> VerifiedSupplierGatewayAttestation result" where
  "verifySupplierGatewayAttestation h expectation attestation =
     andThen (assertSafeInput h expectation) (\<lambda>_.
     andThen (assertExactKeys h expectation [''requestId'', ''challenge'', ''providerId'',
       ''modelPattern'', ''dataClasses'', ''limits'']) (\<lambda>_.
     andThen (assertIdentifier (jget h expectation ''requestId'')) (\<lambda>requestId.
     andThen (assertText (jget h expectation ''challenge'') 128) (\<lambda>challenge.
     andThen (assertIdentifier (jget h expectation ''providerId'')) (\<lambda>providerId.
     andThen (assertText (jget h expectation ''modelPattern'') 120) (\<lambda>modelPattern.
     andThen (throwIf (CHR ''*'' \<in> set modelPattern \<and> \<not> endsWith modelPattern ''*'')
       INVALID_ARGUMENT) (\<lambda>_.
     andThen (assertUniqueStrings h (jget h expectation ''dataClasses'')
       (attestedDataClass UNSUPPORTED_DATA_CLASS)) (\<lambda>dataClasses.
     andThen (assertCapacityLimits h (jget h expectation ''limits'')) (\<lambda>limits.
     andThen (assertSafeInput h attestation) (\<lambda>_.
     andThen (assertRemoteShape h attestation) (\<lambda>remote.
     let matchedModels = filter (\<lambda>m. attestedMatchesPattern m modelPattern) (ra_allowed_models remote) in
     andThen (throwIf (
         jget h attestation ''status'' \<noteq> JStr ''ready'' \<or>
         jget h attestation ''protocol_version'' \<noteq> JStr SUPPLIER_GATEWAY_PROTOCOL_VERSION \<or>
         ra_request_id remote \<noteq> requestId \<or> ra_challenge remote \<noteq> challenge \<or>
         ra_provider_id remote \<noteq> providerId \<or> matchedModels = [] \<or>
         \<not> list_all (\<lambda>d. d \<in> set (ra_allowed_data_classes remote)) dataClasses \<or>
         \<not> withinLimits limits (ra_limits remote)) GATEWAY_ATTESTATION_MISMATCH) (\<lambda>_.
     Inr \<lparr>vg_providerId = ra_provider_id remote, vg_matchedModels = matchedModels,
          vg_dataClasses = dataClasses, vg_limits = limits\<rparr>))))))))))))"

section \<open>Signed texts\<close>

definition NL :: string where
  "NL = [CHR 0x0A]"

text \<open>\<open>String(n)\<close> of an integer number below the exponent notation.\<close>

definition numString :: "int \<Rightarrow> string" where
  "numString i = (if i < 0 then CHR ''-'' # dec_of_nat (nat (- i)) else dec_of_nat (nat i))"

definition createSupplierGatewaySignaturePayload ::
  "string \<Rightarrow> string \<Rightarrow> string \<Rightarrow> string \<Rightarrow> string" where
  "createSupplierGatewaySignaturePayload timestamp nonce jobId bodySha256 =
     joinStr NL [timestamp, nonce, jobId, bodySha256]"

definition createSupplierGatewayExecutionEvidencePayload ::
  "string \<Rightarrow> ExecutionEvidenceShape \<Rightarrow> string \<Rightarrow> string" where
  "createSupplierGatewayExecutionEvidencePayload version e completedAt = joinStr NL [
     version, xe_request_id e, xe_provider_id e, xe_requested_model e, xe_served_model e,
     xe_provider_request_id e, xe_input_sha256 e, xe_output_sha256 e,
     numString (input_tokens (xe_usage e)), numString (output_tokens (xe_usage e)),
     numString (total_tokens (xe_usage e)), completedAt,
     (case xe_receipt_ref e of None \<Rightarrow> [] | Some r \<Rightarrow> r)]"

record ArtifactChunkDescriptor =
  chunk_partNumber :: int
  chunk_sizeBytes :: int
  chunk_sha256 :: string

definition ARTIFACT_PROTOCOL_VERSION :: string where
  "ARTIFACT_PROTOCOL_VERSION = ''gongsuanyun.artifact.v1''"

definition createArtifactManifestPayload ::
  "string \<Rightarrow> string \<Rightarrow> string \<Rightarrow> int \<Rightarrow> ArtifactChunkDescriptor list \<Rightarrow> string" where
  "createArtifactManifestPayload artifactId fileName mediaType sizeBytes chunks =
     joinStr NL ([ARTIFACT_PROTOCOL_VERSION, artifactId, fileName, mediaType, numString sizeBytes] @
       map (\<lambda>p. numString (chunk_partNumber p) @ '':'' @ numString (chunk_sizeBytes p) @ '':'' @
         chunk_sha256 p) chunks)"

definition createSupplierArtifactExecutionEvidencePayload ::
  "string \<Rightarrow> ArtifactEvidenceShape \<Rightarrow> string \<Rightarrow> string" where
  "createSupplierArtifactExecutionEvidencePayload version e completedAt = joinStr NL [
     version, ae_task_id e, ae_provider_id e, ae_requested_model e, ae_served_model e,
     ae_artifact_id e, ae_artifact_manifest_sha256 e, ae_artifact_content_sha256 e,
     ae_output_sha256 e, ae_provider_request_ids_sha256 e, numString (ae_segments_completed e),
     numString (input_tokens (ae_usage e)), numString (output_tokens (ae_usage e)),
     numString (total_tokens (ae_usage e)), completedAt]"

section \<open>What a verification establishes\<close>

definition wfUsage :: "SupplierGatewayUsage \<Rightarrow> bool" where
  "wfUsage u \<longleftrightarrow> 1 \<le> input_tokens u \<and> 0 \<le> output_tokens u \<and>
     total_tokens u = input_tokens u + output_tokens u \<and> total_tokens u \<le> MAX_SAFE_INTEGER"

definition isSha256 :: "string \<Rightarrow> bool" where
  "isSha256 s \<longleftrightarrow> length s = 64 \<and> list_all isHexChar s"

lemma assertSha256_Inr [simp, domain_simps]:
  "assertSha256 v = Inr s \<longleftrightarrow> v = JStr s \<and> isSha256 s"
  by (auto simp: assertSha256_def isSha256_def split: jsval.splits)

text \<open>
  The sum is computed on doubles: it can only equal a safe integer when it was exact.
\<close>

lemma dbl_safe_exact:
  assumes "0 \<le> x" "dbl x \<le> MAX_SAFE_INTEGER"
  shows "dbl x = x"
proof (cases "x \<le> MAX_SAFE_INTEGER")
  case True
  with assms show ?thesis by (simp add: dbl_exact)
next
  case False
  with assms dbl_unsafe [of x] show ?thesis by simp
qed

lemma validateUsage_wf: "validateUsage h v = Inr u \<Longrightarrow> wfUsage u"
proof -
  assume "validateUsage h v = Inr u"
  then obtain i out t where f: "numOf (jget h v ''input_tokens'') = NInt i"
    "numOf (jget h v ''output_tokens'') = NInt out" "numOf (jget h v ''total_tokens'') = NInt t"
    "1 \<le> i" "0 \<le> out" "t = dbl (i + out)" "t \<le> MAX_SAFE_INTEGER"
    "u = \<lparr>input_tokens = i, output_tokens = out, total_tokens = t\<rparr>"
    by (auto simp: validateUsage_def Let_def isSafeInteger_iff not_less)
  with dbl_safe_exact [of "i + out"] show ?thesis by (auto simp: wfUsage_def)
qed

lemma sameUsage_iff [simp]: "sameUsage u v \<longleftrightarrow> u = v"
  by (cases u; cases v) (auto simp: sameUsage_def)

text \<open>
  The contract between evidence verification and pricing: whatever a verifier accepts carries
  a usage that a settlement at any published price accepts, and that an estimate bounds.
\<close>

locale evidence_contract =
  fixes verify :: "jsval \<Rightarrow> jsval \<Rightarrow> 'v result"
    and usageOf :: "'v \<Rightarrow> SupplierGatewayUsage"
  assumes usage_wf: "verify x e = Inr v \<Longrightarrow> wfUsage (usageOf v)"
begin

lemma evidence_settles:
  assumes "verify x e = Inr v" "is_pos_decimal p" "0 \<le> b" "b \<le> 5000"
  shows "\<exists>r. calculateSettlement \<lparr>totalTokens = NInt (total_tokens (usageOf v)),
    priceMicrosPerMillionTokens = p, platformFeeBps = NInt b\<rparr> = Inr r"
  using usage_wf [OF assms(1)] assms(2-4) by (auto simp: calculateSettlement_Inr wfUsage_def Let_def)

end

lemma verifySupplierExecutionEvidence_Inr:
  assumes "verifySupplierExecutionEvidence h dp x e = Inr v"
  obtains xx xe c s t where "validateExpectation h x = Inr xx" "validateEvidenceShape h e = Inr xe"
    "assertTimestamp dp (jget h e ''completed_at'') = Inr c"
    "assertTimestamp dp (jget h x ''requestStartedAt'') = Inr s"
    "assertTimestamp dp (jget h x ''verifiedAt'') = Inr t"
    "jget h e ''evidence_version'' = JStr SUPPLIER_GATEWAY_EXECUTION_EVIDENCE_VERSION"
    "xe_request_id xe = xx_requestId xx" "xe_provider_id xe = xx_providerId xx"
    "xe_requested_model xe = xx_requestedModel xx" "xe_served_model xe = xx_requestedModel xx"
    "xe_input_sha256 xe = xx_inputSha256 xx" "xe_output_sha256 xe = xx_outputSha256 xx"
    "xe_usage xe = xx_usage xx" "withinClockWindow c s t"
    "v = \<lparr>ve_providerId = xe_provider_id xe, ve_requestedModel = xe_requested_model xe,
          ve_servedModel = xe_served_model xe, ve_providerRequestId = xe_provider_request_id xe,
          ve_inputSha256 = xe_input_sha256 xe, ve_outputSha256 = xe_output_sha256 xe,
          ve_usage = xe_usage xe, ve_completedAt = strOf (jget h e ''completed_at''),
          ve_receiptRef = xe_receipt_ref xe\<rparr>"
  using assms unfolding verifySupplierExecutionEvidence_def by auto

lemma verifySupplierArtifactEvidence_Inr:
  assumes "verifySupplierArtifactEvidence h dp x e = Inr v"
  obtains ax ae c s t where "validateArtifactExpectation h x = Inr ax"
    "validateArtifactEvidence h e = Inr ae"
    "assertTimestamp dp (jget h e ''completed_at'') = Inr c"
    "assertTimestamp dp (jget h x ''requestStartedAt'') = Inr s"
    "assertTimestamp dp (jget h x ''verifiedAt'') = Inr t"
    "jget h e ''evidence_version'' = JStr SUPPLIER_ARTIFACT_EXECUTION_EVIDENCE_VERSION"
    "ae_task_id ae = ax_taskId ax" "ae_provider_id ae = ax_providerId ax"
    "ae_requested_model ae = ax_requestedModel ax" "ae_served_model ae = ax_requestedModel ax"
    "ae_artifact_id ae = ax_artifactId ax"
    "ae_artifact_manifest_sha256 ae = ax_artifactManifestSha256 ax"
    "ae_output_sha256 ae = ax_outputSha256 ax"
    "ae_usage ae = ax_usage ax" "withinClockWindow c s t"
    "v = \<lparr>va_providerId = ae_provider_id ae, va_requestedModel = ae_requested_model ae,
          va_servedModel = ae_served_model ae, va_artifactId = ae_artifact_id ae,
          va_artifactManifestSha256 = ae_artifact_manifest_sha256 ae,
          va_artifactContentSha256 = ae_artifact_content_sha256 ae,
          va_outputSha256 = ae_output_sha256 ae,
          va_providerRequestIdsSha256 = ae_provider_request_ids_sha256 ae,
          va_segmentsCompleted = ae_segments_completed ae, va_usage = ae_usage ae,
          va_completedAt = strOf (jget h e ''completed_at'')\<rparr>"
  using assms unfolding verifySupplierArtifactEvidence_def by auto

lemma validateExpectation_fields:
  assumes "validateExpectation h x = Inr xx"
  shows "jget h x ''requestId'' = JStr (xx_requestId xx)" "jget h x ''providerId'' = JStr (xx_providerId xx)"
    "jget h x ''requestedModel'' = JStr (xx_requestedModel xx)"
    "jget h x ''inputSha256'' = JStr (xx_inputSha256 xx)" "jget h x ''outputSha256'' = JStr (xx_outputSha256 xx)"
    "validateUsage h (jget h x ''usage'') = Inr (xx_usage xx)" "isSha256 (xx_inputSha256 xx)"
    "isSha256 (xx_outputSha256 xx)"
  using assms unfolding validateExpectation_def by auto

lemma validateEvidenceShape_fields:
  assumes "validateEvidenceShape h e = Inr xe"
  shows "jget h e ''request_id'' = JStr (xe_request_id xe)" "jget h e ''provider_id'' = JStr (xe_provider_id xe)"
    "jget h e ''requested_model'' = JStr (xe_requested_model xe)"
    "jget h e ''served_model'' = JStr (xe_served_model xe)"
    "jget h e ''input_sha256'' = JStr (xe_input_sha256 xe)" "jget h e ''output_sha256'' = JStr (xe_output_sha256 xe)"
    "validateUsage h (jget h e ''usage'') = Inr (xe_usage xe)"
  using assms unfolding validateEvidenceShape_def by auto

lemma validateArtifactExpectation_fields:
  assumes "validateArtifactExpectation h x = Inr ax"
  shows "jget h x ''taskId'' = JStr (ax_taskId ax)" "jget h x ''providerId'' = JStr (ax_providerId ax)"
    "jget h x ''artifactId'' = JStr (ax_artifactId ax)"
    "jget h x ''requestedModel'' = JStr (ax_requestedModel ax)"
    "jget h x ''artifactManifestSha256'' = JStr (ax_artifactManifestSha256 ax)"
    "jget h x ''outputSha256'' = JStr (ax_outputSha256 ax)"
    "validateUsage h (jget h x ''usage'') = Inr (ax_usage ax)"
  using assms unfolding validateArtifactExpectation_def by auto

lemma validateArtifactEvidence_fields:
  assumes "validateArtifactEvidence h e = Inr ae"
  shows "jget h e ''task_id'' = JStr (ae_task_id ae)" "jget h e ''artifact_id'' = JStr (ae_artifact_id ae)"
    "jget h e ''served_model'' = JStr (ae_served_model ae)"
    "validateUsage h (jget h e ''usage'') = Inr (ae_usage ae)"
    "1 \<le> ae_segments_completed ae" "ae_segments_completed ae \<le> 100000"
    "isSha256 (ae_artifact_content_sha256 ae)" "isSha256 (ae_provider_request_ids_sha256 ae)"
  using assms unfolding validateArtifactEvidence_def by (auto simp: Let_def isSafeInteger_iff)

interpretation execution: evidence_contract "verifySupplierExecutionEvidence h dp" ve_usage for h dp
  by unfold_locales
    (auto elim!: verifySupplierExecutionEvidence_Inr intro: validateUsage_wf [OF validateExpectation_fields(6)])

interpretation artifact: evidence_contract "verifySupplierArtifactEvidence h dp" va_usage for h dp
  by unfold_locales
    (auto elim!: verifySupplierArtifactEvidence_Inr intro: validateUsage_wf [OF validateArtifactExpectation_fields(7)])

text \<open>
  C28: Accepted inference evidence is bound to the purchased service. Request, provider, both
  digests and the usage are those of the expectation, the served model is the requested one, the
  completion time is within five minutes of the request window, and the usage adds up exactly, so
  that it settles at every published price and permitted fee.
\<close>

theorem execution_evidence_bound:
  assumes "verifySupplierExecutionEvidence h dp x e = Inr v"
  shows "jget h e ''request_id'' = jget h x ''requestId'' \<and>
    jget h x ''providerId'' = JStr (ve_providerId v) \<and> jget h e ''provider_id'' = JStr (ve_providerId v) \<and>
    jget h x ''requestedModel'' = JStr (ve_servedModel v) \<and> ve_requestedModel v = ve_servedModel v \<and>
    jget h x ''inputSha256'' = JStr (ve_inputSha256 v) \<and> jget h x ''outputSha256'' = JStr (ve_outputSha256 v) \<and>
    isSha256 (ve_inputSha256 v) \<and> isSha256 (ve_outputSha256 v) \<and>
    validateUsage h (jget h x ''usage'') = Inr (ve_usage v) \<and> wfUsage (ve_usage v) \<and>
    (\<exists>c s t. dp (ve_completedAt v) = Some c \<and> assertTimestamp dp (jget h x ''requestStartedAt'') = Inr s \<and>
       assertTimestamp dp (jget h x ''verifiedAt'') = Inr t \<and> s - 300000 \<le> c \<and> c \<le> t + 300000) \<and>
    (\<forall>p b. is_pos_decimal p \<and> 0 \<le> b \<and> b \<le> 5000 \<longrightarrow>
       (\<exists>r. calculateSettlement \<lparr>totalTokens = NInt (total_tokens (ve_usage v)),
          priceMicrosPerMillionTokens = p, platformFeeBps = NInt b\<rparr> = Inr r))"
  using assms
proof (rule verifySupplierExecutionEvidence_Inr, goal_cases)
  case (1 xx xe c s t)
  note x = validateExpectation_fields [OF "1"(1)] and e = validateEvidenceShape_fields [OF "1"(2)]
  from "1"(3) obtain z where z: "jget h e ''completed_at'' = JStr z" "dp z = Some c"
    by (auto simp: assertTimestamp_Inr)
  have "\<exists>c s t. dp (ve_completedAt v) = Some c \<and> assertTimestamp dp (jget h x ''requestStartedAt'') = Inr s \<and>
       assertTimestamp dp (jget h x ''verifiedAt'') = Inr t \<and> s - 300000 \<le> c \<and> c \<le> t + 300000"
    using "1"(4,5,14,15) z by (auto simp: withinClockWindow_def)
  with execution.usage_wf [OF assms] execution.evidence_settles [OF assms] x e "1"(6-13,15)
  show ?case by auto
qed

text \<open>
  C29: Accepted artifact evidence is bound to the accepted task: task, provider, artifact, manifest
  digest, output digest and usage are the expected ones, the served model is the requested one, the
  segment count is between 1 and 100000, and the usage settles at every published price.
\<close>

theorem artifact_evidence_bound:
  assumes "verifySupplierArtifactEvidence h dp x e = Inr v"
  shows "jget h e ''task_id'' = jget h x ''taskId'' \<and>
    jget h x ''providerId'' = JStr (va_providerId v) \<and>
    jget h x ''artifactId'' = JStr (va_artifactId v) \<and> jget h e ''artifact_id'' = JStr (va_artifactId v) \<and>
    jget h x ''requestedModel'' = JStr (va_servedModel v) \<and> va_requestedModel v = va_servedModel v \<and>
    jget h x ''artifactManifestSha256'' = JStr (va_artifactManifestSha256 v) \<and>
    jget h x ''outputSha256'' = JStr (va_outputSha256 v) \<and>
    isSha256 (va_artifactContentSha256 v) \<and> isSha256 (va_providerRequestIdsSha256 v) \<and>
    1 \<le> va_segmentsCompleted v \<and> va_segmentsCompleted v \<le> 100000 \<and>
    validateUsage h (jget h x ''usage'') = Inr (va_usage v) \<and> wfUsage (va_usage v) \<and>
    (\<forall>p b. is_pos_decimal p \<and> 0 \<le> b \<and> b \<le> 5000 \<longrightarrow>
       (\<exists>r. calculateSettlement \<lparr>totalTokens = NInt (total_tokens (va_usage v)),
          priceMicrosPerMillionTokens = p, platformFeeBps = NInt b\<rparr> = Inr r))"
  using assms
proof (rule verifySupplierArtifactEvidence_Inr, goal_cases)
  case (1 ax ae c s t)
  note x = validateArtifactExpectation_fields [OF "1"(1)] and e = validateArtifactEvidence_fields [OF "1"(2)]
  from artifact.usage_wf [OF assms] artifact.evidence_settles [OF assms] x e "1"(6-14,16)
  show ?case by auto
qed

section \<open>Readiness attestations\<close>

text \<open>The domain has two copies of the pattern match and of the limit comparison; they agree.\<close>

lemma attestedMatchesPattern_eq: "attestedMatchesPattern = matchesPattern"
  by (intro ext) (simp add: attestedMatchesPattern_def matchesPattern_def)

lemma withinLimits_eq: "withinLimits = isWithinCapacityCeiling"
  by (intro ext) (simp add: withinLimits_def isWithinCapacityCeiling_def)

text \<open>The literal of a data class, as it stands in a request.\<close>

fun classText :: "MarketplaceDataClass \<Rightarrow> string" where
  "classText P0 = ''P0''"
| "classText P1 = ''P1''"
| "classText P2 = ''P2''"
| "classText P3 = ''P3''"

lemma attested_classes:
  assumes "assertUniqueStrings h v (attestedDataClass code) = Inr ds"
  shows "arrayElems h v = Some (map (JStr \<circ> classText) ds)" "ds \<noteq> []" "distinct ds" "set ds \<subseteq> {P0, P1}"
proof -
  from assms obtain ss where ss: "arrayElems h v = Some (map JStr ss)" "distinct ss" "ss \<noteq> []"
    and all: "list_all2 (\<lambda>s x. attestedDataClass code s = Inr x) ss ds"
    unfolding assertUniqueStrings_Inr by blast
  have one: "attestedDataClass code s = Inr x \<Longrightarrow> s = classText x \<and> x \<in> {P0, P1}" for s x
    by (auto simp: attestedDataClass_def split: if_splits)
  from all have "ss = map classText ds \<and> set ds \<subseteq> {P0, P1}" by (induction rule: list_all2_induct) (use one in fastforce)+
  with ss show "arrayElems h v = Some (map (JStr \<circ> classText) ds)" "ds \<noteq> []" "distinct ds" "set ds \<subseteq> {P0, P1}"
    by (auto simp: distinct_map)
qed

lemma assertRemoteShape_fields:
  assumes "assertRemoteShape h v = Inr r"
  shows "jget h v ''request_id'' = JStr (ra_request_id r)" "jget h v ''challenge'' = JStr (ra_challenge r)"
    "jget h v ''provider_id'' = JStr (ra_provider_id r)" "limitsInRange (ra_limits r)"
    "arrayElems h (jget h v ''allowed_models'') = Some (map JStr (ra_allowed_models r))"
    "distinct (ra_allowed_models r)" "\<forall>m \<in> set (ra_allowed_models r). CHR ''*'' \<notin> set m"
    "arrayElems h (jget h v ''allowed_data_classes'') = Some (map (JStr \<circ> classText) (ra_allowed_data_classes r))"
proof -
  let ?f = "\<lambda>model. andThen (assertText (JStr model) 120) (\<lambda>_.
       andThen (throwIf (CHR ''*'' \<in> set model) GATEWAY_ATTESTATION_MISMATCH) (\<lambda>_. Inr model))"
  from assms have m: "assertUniqueStrings h (jget h v ''allowed_models'') ?f = Inr (ra_allowed_models r)"
    unfolding assertRemoteShape_def by (auto simp: Let_def)
  then obtain ss where ss: "arrayElems h (jget h v ''allowed_models'') = Some (map JStr ss)" "distinct ss"
    and all: "list_all2 (\<lambda>s x. ?f s = Inr x) ss (ra_allowed_models r)"
    unfolding assertUniqueStrings_Inr by blast
  have eq: "ra_allowed_models r = ss" by (rule list_all2_same_string [OF all]) auto
  with ss show "arrayElems h (jget h v ''allowed_models'') = Some (map JStr (ra_allowed_models r))"
    "distinct (ra_allowed_models r)" by simp_all
  from all eq show "\<forall>m \<in> set (ra_allowed_models r). CHR ''*'' \<notin> set m"
    by (auto simp: list_all2_same)
  from assms show "jget h v ''request_id'' = JStr (ra_request_id r)" "jget h v ''challenge'' = JStr (ra_challenge r)"
    "jget h v ''provider_id'' = JStr (ra_provider_id r)" "limitsInRange (ra_limits r)"
    unfolding assertRemoteShape_def by (auto simp: Let_def intro: capacityLimitFields_range)
  from assms have "assertUniqueStrings h (jget h v ''allowed_data_classes'') (attestedDataClass GATEWAY_ATTESTATION_MISMATCH) =
      Inr (ra_allowed_data_classes r)" unfolding assertRemoteShape_def by (auto simp: Let_def)
  then show "arrayElems h (jget h v ''allowed_data_classes'') = Some (map (JStr \<circ> classText) (ra_allowed_data_classes r))"
    by (rule attested_classes(1))
qed

text \<open>
  C30: A verified readiness attestation answers the challenge that was sent: request, challenge and
  provider are echoed, at least one distinct concrete model is attested and every attested match
  fits the pattern, the result lists exactly the requested data classes in their order, at least one,
  each of them among the attested classes, and the requested limits are valid and within the attested
  ones, in the same order the offer check uses.
\<close>

theorem attestation_sound:
  assumes "verifySupplierGatewayAttestation h x a = Inr v"
  shows "jget h a ''request_id'' = jget h x ''requestId'' \<and> jget h a ''challenge'' = jget h x ''challenge'' \<and>
    jget h x ''providerId'' = JStr (vg_providerId v) \<and> jget h a ''provider_id'' = JStr (vg_providerId v) \<and>
    jget h a ''status'' = JStr ''ready'' \<and>
    vg_matchedModels v \<noteq> [] \<and> distinct (vg_matchedModels v) \<and>
    (\<exists>ms pat. arrayElems h (jget h a ''allowed_models'') = Some (map JStr ms) \<and>
       jget h x ''modelPattern'' = JStr pat \<and>
       set (vg_matchedModels v) = {m \<in> set ms. matchesPattern m pat \<and> CHR ''*'' \<notin> set m}) \<and>
    arrayElems h (jget h x ''dataClasses'') = Some (map (JStr \<circ> classText) (vg_dataClasses v)) \<and>
    vg_dataClasses v \<noteq> [] \<and>
    (\<exists>cs. arrayElems h (jget h a ''allowed_data_classes'') = Some (map (JStr \<circ> classText) cs) \<and>
       set (vg_dataClasses v) \<subseteq> set cs) \<and>
    (\<exists>r. assertRemoteShape h a = Inr r \<and> set (vg_dataClasses v) \<subseteq> set (ra_allowed_data_classes r) \<and>
       isWithinCapacityCeiling (vg_limits v) (ra_limits r)) \<and>
    assertCapacityLimits h (jget h x ''limits'') = Inr (vg_limits v) \<and> limitsInRange (vg_limits v)"
proof -
  from assms obtain r pat where r: "assertRemoteShape h a = Inr r"
    and x: "jget h x ''requestId'' = JStr (ra_request_id r)" "jget h x ''challenge'' = JStr (ra_challenge r)"
      "jget h x ''providerId'' = JStr (ra_provider_id r)" "jget h x ''modelPattern'' = JStr pat"
      "assertCapacityLimits h (jget h x ''limits'') = Inr (vg_limits v)"
      "assertUniqueStrings h (jget h x ''dataClasses'') (attestedDataClass UNSUPPORTED_DATA_CLASS) = Inr (vg_dataClasses v)"
    and a: "jget h a ''status'' = JStr ''ready''" "vg_providerId v = ra_provider_id r"
      "vg_matchedModels v = filter (\<lambda>m. matchesPattern m pat) (ra_allowed_models r)"
      "vg_matchedModels v \<noteq> []" "set (vg_dataClasses v) \<subseteq> set (ra_allowed_data_classes r)"
      "isWithinCapacityCeiling (vg_limits v) (ra_limits r)"
    unfolding verifySupplierGatewayAttestation_def attestedMatchesPattern_eq withinLimits_eq
    by (auto simp: Let_def list_all_iff subset_eq)
  note f = assertRemoteShape_fields [OF r] and d = attested_classes(1,2) [OF x(6)]
  have models: "\<exists>ms pat. arrayElems h (jget h a ''allowed_models'') = Some (map JStr ms) \<and>
       jget h x ''modelPattern'' = JStr pat \<and>
       set (vg_matchedModels v) = {m \<in> set ms. matchesPattern m pat \<and> CHR ''*'' \<notin> set m}"
    using f(5,7) x(4) a(3) by (intro exI [of _ "ra_allowed_models r"] exI [of _ pat]) auto
  have classes: "\<exists>cs. arrayElems h (jget h a ''allowed_data_classes'') = Some (map (JStr \<circ> classText) cs) \<and>
       set (vg_dataClasses v) \<subseteq> set cs" using f(8) a(5) by blast
  have "distinct (vg_matchedModels v)" using f(6) a(3) by simp
  with models classes d r f(1-4) x a assertCapacityLimits_range [OF x(5)] show ?thesis by auto
qed

section \<open>Signed texts are unambiguous\<close>

lemma is_digit_neq: "is_digit c \<Longrightarrow> \<not> is_digit d \<Longrightarrow> c \<noteq> d"
  by auto

lemma dec_of_nat_no: "\<not> is_digit c \<Longrightarrow> c \<notin> set (dec_of_nat n)"
  using dec_of_nat_digits [of n] by (auto simp: list_all_iff)

lemma numString_no: "\<not> is_digit c \<Longrightarrow> c \<noteq> CHR ''-'' \<Longrightarrow> c \<notin> set (numString i)"
  by (simp add: numString_def dec_of_nat_no)

lemma digit_separators [simp]:
  "\<not> is_digit (CHR 0x0A)" "\<not> is_digit (CHR '':'')" "\<not> is_digit (CHR ''-'')"
  by (simp_all add: is_digit_def)

lemma numString_inject [simp]: "numString i = numString j \<longleftrightarrow> i = j"
proof -
  have "dec_of_nat n \<noteq> CHR ''-'' # s" for n s
    using dec_of_nat_no [of "CHR ''-''" n] by (metis digit_separators(3) list.set_intros(1))
  then show ?thesis by (auto simp: numString_def) (metis)+
qed

lemma joinStr_inject_any:
  assumes "xs \<noteq> []" "ys \<noteq> []" "\<forall>x \<in> set xs. c \<notin> set x" "\<forall>y \<in> set ys. c \<notin> set y"
    and "joinStr [c] xs = joinStr [c] ys"
  shows "xs = ys"
proof -
  have len: "length (filter ((=) c) (joinStr [c] zs)) = length zs - 1"
    if "\<forall>z \<in> set zs. c \<notin> set z" for zs
    using that by (induction "[c]" zs rule: joinStr.induct) (auto simp: filter_empty_conv)
  from len [OF assms(3)] len [OF assms(4)] assms(5) have "length xs - 1 = length ys - 1" by simp
  with assms(1,2) have "length xs = length ys" by (cases xs; cases ys) auto
  with assms(3-5) show ?thesis by (intro joinStr_inject)
qed

definition lineFree :: "string \<Rightarrow> bool" where
  "lineFree s \<longleftrightarrow> CHR 0x0A \<notin> set s"

lemma lineFree_numString [simp]: "lineFree (numString i)"
  by (simp add: lineFree_def numString_no)

lemma isSha256_lineFree: "isSha256 s \<Longrightarrow> lineFree s"
  by (auto simp: isSha256_def lineFree_def list_all_iff isHexChar_def is_digit_def)

lemma IDENTIFIER_PATTERN_lineFree: "IDENTIFIER_PATTERN s \<Longrightarrow> lineFree s"
  by (cases s) (auto simp: lineFree_def list_all_iff is_identifier_char_def is_alnum_def
      is_lower_def is_upper_def is_digit_def)

text \<open>
  The text a supplier signs determines what it signs. Two pieces of inference evidence with the
  same signed text are the same evidence, given that the free-text fields (models, provider request
  id, receipt, times) hold no line feed; the fields validated as identifiers, digests or numbers
  need no such assumption. An empty receipt reference and an absent one sign alike.
\<close>

theorem execution_payload_injective:
  assumes "createSupplierGatewayExecutionEvidencePayload ver e t =
      createSupplierGatewayExecutionEvidencePayload ver' e' t'"
    and "list_all (\<lambda>s. IDENTIFIER_PATTERN s) [xe_request_id e, xe_provider_id e, xe_request_id e', xe_provider_id e']"
    and "list_all isSha256 [xe_input_sha256 e, xe_output_sha256 e, xe_input_sha256 e', xe_output_sha256 e']"
    and "list_all lineFree [ver, t, xe_requested_model e, xe_served_model e, xe_provider_request_id e,
      ver', t', xe_requested_model e', xe_served_model e', xe_provider_request_id e']"
    and "pred_option (\<lambda>s. lineFree s \<and> s \<noteq> []) (xe_receipt_ref e)"
    and "pred_option (\<lambda>s. lineFree s \<and> s \<noteq> []) (xe_receipt_ref e')"
  shows "ver = ver' \<and> e = e' \<and> t = t'"
proof -
  let ?fields = "\<lambda>ver e t. [ver, xe_request_id e, xe_provider_id e, xe_requested_model e, xe_served_model e,
     xe_provider_request_id e, xe_input_sha256 e, xe_output_sha256 e,
     numString (input_tokens (xe_usage e)), numString (output_tokens (xe_usage e)),
     numString (total_tokens (xe_usage e)), t, (case xe_receipt_ref e of None \<Rightarrow> [] | Some r \<Rightarrow> r)]"
  have free: "\<forall>x \<in> set (?fields ver e t). lineFree x" "\<forall>x \<in> set (?fields ver' e' t'). lineFree x"
    using assms(2-) by (auto dest: isSha256_lineFree IDENTIFIER_PATTERN_lineFree split: option.splits)
      (simp_all add: lineFree_def)
  from assms(1) have "?fields ver e t = ?fields ver' e' t'"
    unfolding createSupplierGatewayExecutionEvidencePayload_def NL_def
    by (intro joinStr_inject [of _ _ "CHR 0x0A"]) (use free in \<open>auto simp: lineFree_def\<close>)
  moreover from this have "xe_receipt_ref e = xe_receipt_ref e'"
    using assms(5,6) by (auto split: option.splits)
  ultimately show ?thesis by (cases e; cases e'; cases "xe_usage e"; cases "xe_usage e'") auto
qed

text \<open>
  A manifest text determines the artifact: its id, name, media type, size and the exact list of
  chunks in order, given that the name and media type hold no line feed.
\<close>

theorem manifest_payload_injective:
  assumes "createArtifactManifestPayload a f m n cs = createArtifactManifestPayload a' f' m' n' cs'"
    and "list_all lineFree [a, f, m, a', f', m']"
    and "list_all (\<lambda>c. isSha256 (chunk_sha256 c)) (cs @ cs')"
  shows "a = a' \<and> f = f' \<and> m = m' \<and> n = n' \<and> cs = cs'"
proof -
  let ?chunk = "\<lambda>p :: ArtifactChunkDescriptor. numString (chunk_partNumber p) @ '':'' @ numString (chunk_sizeBytes p) @ '':'' @
         chunk_sha256 p"
  let ?fields = "\<lambda>a f m n cs. [ARTIFACT_PROTOCOL_VERSION, a, f, m, numString n] @ map ?chunk cs"
  have version: "lineFree ARTIFACT_PROTOCOL_VERSION" by (simp add: lineFree_def ARTIFACT_PROTOCOL_VERSION_def)
  have chunk: "isSha256 (chunk_sha256 p) \<Longrightarrow> lineFree (?chunk p)" for p
    using isSha256_lineFree [of "chunk_sha256 p"] by (simp add: lineFree_def numString_no)
  have free: "\<forall>x \<in> set (?fields a f m n cs). CHR 0x0A \<notin> set x" "\<forall>x \<in> set (?fields a' f' m' n' cs'). CHR 0x0A \<notin> set x"
    using assms(2,3) version chunk lineFree_numString unfolding list_all_iff lineFree_def by auto
  from assms(1) have "?fields a f m n cs = ?fields a' f' m' n' cs'"
    unfolding createArtifactManifestPayload_def NL_def
    by (rule joinStr_inject_any [rotated -1]) (use free in simp_all)
  moreover have "inj ?chunk"
  proof (rule injI)
    fix p q :: ArtifactChunkDescriptor
    assume "?chunk p = ?chunk q"
    then have eq: "numString (chunk_partNumber p) @ CHR '':'' # (numString (chunk_sizeBytes p) @ CHR '':'' # chunk_sha256 p) =
      numString (chunk_partNumber q) @ CHR '':'' # (numString (chunk_sizeBytes q) @ CHR '':'' # chunk_sha256 q)" by simp
    note no = numString_no [of "CHR '':''", simplified]
    from append_sep_inject [OF no no eq] have part: "chunk_partNumber p = chunk_partNumber q"
      and rest: "numString (chunk_sizeBytes p) @ CHR '':'' # chunk_sha256 p =
        numString (chunk_sizeBytes q) @ CHR '':'' # chunk_sha256 q" by auto
    from append_sep_inject [OF no no rest] part show "p = q" by simp
  qed
  ultimately show ?thesis by (auto dest: map_injective)
qed

section \<open>Concrete verifications\<close>

definition exSha :: string where
  "exSha = replicate 64 (CHR ''a'')"

lemma exSha_isSha [simp]: "isSha256 exSha"
  by (simp add: exSha_def isSha256_def list_all_iff isHexChar_def)

lemma exSha_ok [simp]: "assertSha256 (JStr exSha) = Inr exSha"
  by simp

definition exEvidenceHeap :: heap where
  "exEvidenceHeap = heapOf [
     JObject True [(''requestId'', JStr ''req-1''), (''providerId'', JStr ''provider-1''),
       (''requestedModel'', JStr ''gpt-5''), (''inputSha256'', JStr exSha), (''outputSha256'', JStr exSha),
       (''usage'', JRef 2), (''requestStartedAt'', JStr ''2026-02-01T00:00:00.000Z''),
       (''verifiedAt'', JStr ''2026-02-01T00:01:00.000Z'')],
     JObject True [(''evidence_version'', JStr ''gongsuanyun.execution-evidence.v1''),
       (''request_id'', JStr ''req-1''), (''provider_id'', JStr ''provider-1''),
       (''requested_model'', JStr ''gpt-5''), (''served_model'', JStr ''gpt-5''),
       (''provider_request_id'', JStr ''up-1''), (''input_sha256'', JStr exSha), (''output_sha256'', JStr exSha),
       (''usage'', JRef 2), (''completed_at'', JStr ''2026-02-01T00:00:30.000Z'')],
     JObject True [(''input_tokens'', JNum (NInt 1000)), (''output_tokens'', JNum (NInt 500)),
       (''total_tokens'', JNum (NInt 1500))],
     JObject True [(''taskId'', JStr ''task-1''), (''providerId'', JStr ''provider-1''),
       (''requestedModel'', JStr ''gpt-5''), (''artifactId'', JStr ''art-1''),
       (''artifactManifestSha256'', JStr exSha), (''outputSha256'', JStr exSha), (''usage'', JRef 2),
       (''requestStartedAt'', JStr ''2026-02-01T00:00:00.000Z''),
       (''verifiedAt'', JStr ''2026-02-01T00:01:00.000Z'')],
     JObject True [(''evidence_version'', JStr ''gongsuanyun.artifact-evidence.v1''),
       (''task_id'', JStr ''task-1''), (''provider_id'', JStr ''provider-1''),
       (''requested_model'', JStr ''gpt-5''), (''served_model'', JStr ''gpt-5''),
       (''artifact_id'', JStr ''art-1''), (''artifact_manifest_sha256'', JStr exSha),
       (''artifact_content_sha256'', JStr exSha), (''output_sha256'', JStr exSha),
       (''provider_request_ids_sha256'', JStr exSha), (''segments_completed'', JNum (NInt 3)),
       (''usage'', JRef 2), (''completed_at'', JStr ''2026-02-01T00:00:30.000Z'')],
     JObject True [(''requestId'', JStr ''req-1''), (''challenge'', JStr ''abc''),
       (''providerId'', JStr ''provider-1''), (''modelPattern'', JStr ''gpt-*''),
       (''dataClasses'', JRef 6), (''limits'', JRef 7)],
     JArray [JStr ''P0''],
     JObject True [(''requestsPerMinute'', JNum (NInt 30)), (''tokensPerMinute'', JNum (NInt 50000)),
       (''concurrency'', JNum (NInt 2)), (''maxOutputTokens'', JNum (NInt 1024))],
     JObject True [(''status'', JStr ''ready''), (''protocol_version'', JStr ''gongsuanyun.gateway.v3''),
       (''provider_id'', JStr ''provider-1''), (''allowed_models'', JRef 9),
       (''allowed_data_classes'', JRef 6), (''limits'', JRef 10), (''request_id'', JStr ''req-1''),
       (''challenge'', JStr ''abc'')],
     JArray [JStr ''gpt-5'', JStr ''other''],
     JObject True [(''requests_per_minute'', JNum (NInt 60)), (''tokens_per_minute'', JNum (NInt 50000)),
       (''concurrency'', JNum (NInt 4)), (''max_output_tokens'', JNum (NInt 2048))]]"

lemma exEvidenceHeap_at:
  "exEvidenceHeap 0 = JObject True [(''requestId'', JStr ''req-1''), (''providerId'', JStr ''provider-1''),
       (''requestedModel'', JStr ''gpt-5''), (''inputSha256'', JStr exSha), (''outputSha256'', JStr exSha),
       (''usage'', JRef 2), (''requestStartedAt'', JStr ''2026-02-01T00:00:00.000Z''),
       (''verifiedAt'', JStr ''2026-02-01T00:01:00.000Z'')]"
  "exEvidenceHeap (Suc 0) = JObject True [(''evidence_version'', JStr ''gongsuanyun.execution-evidence.v1''),
       (''request_id'', JStr ''req-1''), (''provider_id'', JStr ''provider-1''),
       (''requested_model'', JStr ''gpt-5''), (''served_model'', JStr ''gpt-5''),
       (''provider_request_id'', JStr ''up-1''), (''input_sha256'', JStr exSha), (''output_sha256'', JStr exSha),
       (''usage'', JRef 2), (''completed_at'', JStr ''2026-02-01T00:00:30.000Z'')]"
  "exEvidenceHeap 2 = JObject True [(''input_tokens'', JNum (NInt 1000)), (''output_tokens'', JNum (NInt 500)),
       (''total_tokens'', JNum (NInt 1500))]"
  "exEvidenceHeap 3 = JObject True [(''taskId'', JStr ''task-1''), (''providerId'', JStr ''provider-1''),
       (''requestedModel'', JStr ''gpt-5''), (''artifactId'', JStr ''art-1''),
       (''artifactManifestSha256'', JStr exSha), (''outputSha256'', JStr exSha), (''usage'', JRef 2),
       (''requestStartedAt'', JStr ''2026-02-01T00:00:00.000Z''),
       (''verifiedAt'', JStr ''2026-02-01T00:01:00.000Z'')]"
  "exEvidenceHeap 4 = JObject True [(''evidence_version'', JStr ''gongsuanyun.artifact-evidence.v1''),
       (''task_id'', JStr ''task-1''), (''provider_id'', JStr ''provider-1''),
       (''requested_model'', JStr ''gpt-5''), (''served_model'', JStr ''gpt-5''),
       (''artifact_id'', JStr ''art-1''), (''artifact_manifest_sha256'', JStr exSha),
       (''artifact_content_sha256'', JStr exSha), (''output_sha256'', JStr exSha),
       (''provider_request_ids_sha256'', JStr exSha), (''segments_completed'', JNum (NInt 3)),
       (''usage'', JRef 2), (''completed_at'', JStr ''2026-02-01T00:00:30.000Z'')]"
  "exEvidenceHeap 5 = JObject True [(''requestId'', JStr ''req-1''), (''challenge'', JStr ''abc''),
       (''providerId'', JStr ''provider-1''), (''modelPattern'', JStr ''gpt-*''),
       (''dataClasses'', JRef 6), (''limits'', JRef 7)]"
  "exEvidenceHeap 6 = JArray [JStr ''P0'']"
  "exEvidenceHeap 7 = JObject True [(''requestsPerMinute'', JNum (NInt 30)), (''tokensPerMinute'', JNum (NInt 50000)),
       (''concurrency'', JNum (NInt 2)), (''maxOutputTokens'', JNum (NInt 1024))]"
  "exEvidenceHeap 8 = JObject True [(''status'', JStr ''ready''), (''protocol_version'', JStr ''gongsuanyun.gateway.v3''),
       (''provider_id'', JStr ''provider-1''), (''allowed_models'', JRef 9),
       (''allowed_data_classes'', JRef 6), (''limits'', JRef 10), (''request_id'', JStr ''req-1''),
       (''challenge'', JStr ''abc'')]"
  "exEvidenceHeap 9 = JArray [JStr ''gpt-5'', JStr ''other'']"
  "exEvidenceHeap 10 = JObject True [(''requests_per_minute'', JNum (NInt 60)), (''tokens_per_minute'', JNum (NInt 50000)),
       (''concurrency'', JNum (NInt 4)), (''max_output_tokens'', JNum (NInt 2048))]"
  by (simp_all add: exEvidenceHeap_def heapOf_def)

lemma exEvidence_safe:
  "assertSafeInput exEvidenceHeap (JRef 0) = Inr ()" "assertSafeInput exEvidenceHeap (JRef (Suc 0)) = Inr ()"
  "assertSafeInput exEvidenceHeap (JRef 3) = Inr ()" "assertSafeInput exEvidenceHeap (JRef 4) = Inr ()"
  "assertSafeInput exEvidenceHeap (JRef 5) = Inr ()" "assertSafeInput exEvidenceHeap (JRef 8) = Inr ()"
  by code_simp+

lemmas evidence_eval = verifySupplierExecutionEvidence_def validateExpectation_def
  validateEvidenceShape_def verifySupplierArtifactEvidence_def validateArtifactExpectation_def
  validateArtifactEvidence_def verifySupplierGatewayAttestation_def assertRemoteShape_def
  attestedDataClass_def withinLimits_def attestedMatchesPattern_def
  withinClockWindow_def catchAs_def assertTimestamp_def
  SUPPLIER_GATEWAY_EXECUTION_EVIDENCE_VERSION_def SUPPLIER_ARTIFACT_EXECUTION_EVIDENCE_VERSION_def
  SUPPLIER_GATEWAY_PROTOCOL_VERSION_def assertIdentifier_def is_identifier_char_def

lemma exUsage: "validateUsage exEvidenceHeap (JRef 2) =
  Inr \<lparr>input_tokens = 1000, output_tokens = 500, total_tokens = 1500\<rparr>"
proof -
  have "dbl 1500 = 1500" by (rule dbl_exact) (simp add: MAX_SAFE_INTEGER_def)
  then show ?thesis
    by (simp add: validateUsage_def assertExactKeys_def assertPlainRecord_def exEvidenceHeap_def
        heapOf_def MAX_SAFE_INTEGER_def)
qed

lemma exExecution: "verifySupplierExecutionEvidence exEvidenceHeap isoParse (JRef 0) (JRef 1) =
  Inr \<lparr>ve_providerId = ''provider-1'', ve_requestedModel = ''gpt-5'', ve_servedModel = ''gpt-5'',
    ve_providerRequestId = ''up-1'', ve_inputSha256 = exSha, ve_outputSha256 = exSha,
    ve_usage = \<lparr>input_tokens = 1000, output_tokens = 500, total_tokens = 1500\<rparr>,
    ve_completedAt = ''2026-02-01T00:00:30.000Z'', ve_receiptRef = None\<rparr>"
  by (simp add: evidence_eval publish_eval exUsage exEvidence_safe exEvidenceHeap_at eval_simps
      cong: andThen_weak_cong)

lemma exArtifact: "verifySupplierArtifactEvidence exEvidenceHeap isoParse (JRef 3) (JRef 4) =
  Inr \<lparr>va_providerId = ''provider-1'', va_requestedModel = ''gpt-5'', va_servedModel = ''gpt-5'',
    va_artifactId = ''art-1'', va_artifactManifestSha256 = exSha, va_artifactContentSha256 = exSha,
    va_outputSha256 = exSha, va_providerRequestIdsSha256 = exSha, va_segmentsCompleted = 3,
    va_usage = \<lparr>input_tokens = 1000, output_tokens = 500, total_tokens = 1500\<rparr>,
    va_completedAt = ''2026-02-01T00:00:30.000Z''\<rparr>"
  by (simp add: evidence_eval publish_eval exUsage exEvidence_safe exEvidenceHeap_at eval_simps
      cong: andThen_weak_cong)

lemma exAttestation: "verifySupplierGatewayAttestation exEvidenceHeap (JRef 5) (JRef 8) =
  Inr \<lparr>vg_providerId = ''provider-1'', vg_matchedModels = [''gpt-5''], vg_dataClasses = [P0],
    vg_limits = \<lparr>requestsPerMinute = 30, tokensPerMinute = 50000, concurrency = 2,
      maxOutputTokens = 1024\<rparr>\<rparr>"
  by (simp add: evidence_eval publish_eval exEvidence_safe exEvidenceHeap_at eval_simps
      cong: andThen_weak_cong)

theorem execution_evidence_bound_witness:
  "isSha256 exSha \<and> (\<exists>r. calculateSettlement \<lparr>totalTokens = NInt 1500,
     priceMicrosPerMillionTokens = ''2500000'', platformFeeBps = NInt 1200\<rparr> = Inr r)"
  using execution_evidence_bound [OF exExecution] by (auto simp: eval_simps)

theorem artifact_evidence_bound_witness:
  "jget exEvidenceHeap (JRef 4) ''task_id'' = jget exEvidenceHeap (JRef 3) ''taskId'' \<and> isSha256 exSha"
  using artifact_evidence_bound [OF exArtifact] by simp

theorem attestation_sound_witness:
  "jget exEvidenceHeap (JRef 8) ''challenge'' = jget exEvidenceHeap (JRef 5) ''challenge'' \<and>
   arrayElems exEvidenceHeap (jget exEvidenceHeap (JRef 5) ''dataClasses'') = Some [JStr ''P0''] \<and>
   limitsInRange \<lparr>requestsPerMinute = 30, tokensPerMinute = 50000, concurrency = 2,
      maxOutputTokens = 1024\<rparr>"
  using attestation_sound [OF exAttestation] by simp

theorem execution_payload_injective_witness:
  "let e = \<lparr>xe_request_id = ''req-1'', xe_provider_id = ''provider-1'', xe_requested_model = ''gpt-5'',
    xe_served_model = ''gpt-5'', xe_provider_request_id = ''up-1'', xe_input_sha256 = exSha,
    xe_output_sha256 = exSha, xe_usage = \<lparr>input_tokens = 1, output_tokens = 23, total_tokens = 24\<rparr>,
    xe_receipt_ref = Some ''r''\<rparr> in
   createSupplierGatewayExecutionEvidencePayload ''v'' e ''t'' \<noteq>
   createSupplierGatewayExecutionEvidencePayload ''v''
     (e\<lparr>xe_usage := \<lparr>input_tokens = 12, output_tokens = 3, total_tokens = 24\<rparr>\<rparr>) ''t''"
  unfolding Let_def
  by (rule notI, drule execution_payload_injective)
    (simp_all add: lineFree_def is_identifier_char_def eval_simps)

theorem manifest_payload_injective_witness:
  "createArtifactManifestPayload ''art-1'' ''a.txt'' ''text/plain'' 10
       [\<lparr>chunk_partNumber = 1, chunk_sizeBytes = 10, chunk_sha256 = exSha\<rparr>] \<noteq>
     createArtifactManifestPayload ''art-1'' ''a.txt'' ''text/plain'' 10
       [\<lparr>chunk_partNumber = 1, chunk_sizeBytes = 10, chunk_sha256 = exSha\<rparr>,
        \<lparr>chunk_partNumber = 2, chunk_sizeBytes = 10, chunk_sha256 = exSha\<rparr>]"
  by (rule notI, drule manifest_payload_injective) (simp_all add: lineFree_def)

end
