(* ===== verification/ArtifactTasks.thy ===== *)
theory ArtifactTasks
  imports Ledger Evidence
begin

text \<open>
  The life of an artifact task in the control plane: reservation and cancellation
  (\<^verbatim>\<open>apps/web/server/artifact-service.ts\<close>), lease, checkpoint, completion and failure
  (\<^verbatim>\<open>artifact-worker-service.ts\<close>), the completion gate (\<^verbatim>\<open>financial-invariants.ts\<close>), expiry
  of leases and queue entries, and the purge of queued work (\<^verbatim>\<open>privacy-invariants.ts\<close>).
\<close>

section \<open>Reservation\<close>

definition queuedTask ::
  "string \<Rightarrow> string \<Rightarrow> string \<Rightarrow> string \<Rightarrow> string \<Rightarrow> int \<Rightarrow> string \<Rightarrow> string \<Rightarrow> string \<Rightarrow> string \<Rightarrow> string \<Rightarrow>
   string \<Rightarrow> int \<Rightarrow> string \<Rightarrow> string \<Rightarrow> int \<Rightarrow> int \<Rightarrow> int \<Rightarrow> string \<Rightarrow> string \<Rightarrow> ArtifactTaskRow" where
  "queuedTask taskId buyer supplierTenant offerId authorizationRequestId revision artifactId
     idempotencyKey model dataClass privacyMode instructionDigest digestVersion ciphertext iv
     keyVersion maxOut maxTotal charge now =
     \<lparr>t_task_id = taskId, t_buyer_tenant_id = buyer, t_supplier_tenant_id = supplierTenant,
      t_offer_id = offerId, t_authorization_request_id = authorizationRequestId,
      t_authorization_revision = revision, t_artifact_id = artifactId,
      t_idempotency_key = idempotencyKey, t_model = model, t_data_class = dataClass,
      t_privacy_mode = privacyMode, t_instruction_digest = instructionDigest,
      t_digest_version = digestVersion, t_instruction_ciphertext = ciphertext,
      t_instruction_iv = iv, t_content_key_version = keyVersion, t_max_output_tokens = maxOut,
      t_max_total_tokens = maxTotal, t_reserved_charge_micros = charge, t_status = ''queued'',
      t_completed_segments = 0, t_total_segments = None, t_processed_bytes = 0, t_attempt = 0,
      t_worker_id = None, t_lease_digest = None, t_lease_expires_at = None,
      t_execution_deadline_at = None, t_input_tokens = None, t_output_tokens = None,
      t_total_tokens = None, t_charge_micros = None, t_output_ciphertext = None,
      t_output_iv = None, t_output_expires_at = None, t_content_purged_at = None,
      t_cancellation_requested_at = None, t_error_code = None, t_created_at = now,
      t_started_at = None, t_updated_at = now, t_completed_at = None\<rparr>"

definition artifactReady :: "database \<Rightarrow> string \<Rightarrow> string \<Rightarrow> string \<Rightarrow> bool" where
  "artifactReady db artifactId tenantId now = list_ex (\<lambda>a. a_artifact_id a = artifactId \<and>
     a_tenant_id a = tenantId \<and> a_status a = ''ready'' \<and> a_content_purged_at a = None \<and>
     now < a_expires_at a) (artifacts db)"

definition RESERVE_ARTIFACT_TASK_SQL :: "ArtifactTaskRow \<Rightarrow> int \<Rightarrow> stmt" where
  "RESERVE_ARTIFACT_TASK_SQL row maximumActive db =
     (if artifactReady db (t_artifact_id row) (t_buyer_tenant_id row) (t_created_at row) \<and>
         offerReservable db (t_offer_id row) (t_authorization_request_id row)
           (t_authorization_revision row) (t_supplier_tenant_id row) (t_buyer_tenant_id row)
           (t_created_at row) \<and>
         int (countRows (\<lambda>t. t_buyer_tenant_id t = t_buyer_tenant_id row \<and> taskHeld t)
           (artifact_tasks db)) < maximumActive
      then andThen (AVAILABLE_BALANCE_SQL db (t_buyer_tenant_id row)) (\<lambda>balance.
        if balance \<ge> castInteger (t_reserved_charge_micros row) \<and>
           \<not> list_ex (\<lambda>t. t_task_id t = t_task_id row \<or>
               (t_buyer_tenant_id t = t_buyer_tenant_id row \<and>
                t_idempotency_key t = t_idempotency_key row)) (artifact_tasks db)
        then Inr (db\<lparr>artifact_tasks := artifact_tasks db @ [row]\<rparr>, 1)
        else Inr (db, 0))
      else Inr (db, 0))"

definition guardedArtifactTaskAuditInsert ::
  "string \<Rightarrow> string \<Rightarrow> string \<Rightarrow> string \<Rightarrow> string \<Rightarrow> string \<Rightarrow> string \<Rightarrow> stmt" where
  "guardedArtifactTaskAuditInsert auditId tenantId actorId action taskId details occurredAt db =
     (if list_ex (\<lambda>t. t_task_id t = taskId \<and> t_buyer_tenant_id t = tenantId) (artifact_tasks db)
      then insertAudit \<lparr>ad_audit_id = auditId, ad_tenant_id = tenantId, ad_actor_id = actorId,
        ad_action = action, ad_resource_type = ''artifact-task'', ad_resource_id = taskId,
        ad_details_json = details, ad_occurred_at = occurredAt\<rparr> db
      else Inr (db, 0))"

text \<open>
  The write of \<open>createArtifactTask\<close>: the maximum charge is estimated from the token limit and the
  price of the offer, and the row and its audit entry go into one batch.
\<close>

definition reserveArtifactTask ::
  "string \<Rightarrow> int \<Rightarrow> string \<Rightarrow> string \<Rightarrow> string \<Rightarrow> ArtifactTaskRow \<Rightarrow> database \<Rightarrow>
     ApiError + (database \<times> nat)" where
  "reserveArtifactTask price maximumActive auditId actorId details row db =
     (case estimateArtifactMaximumChargeMicros (NInt (t_max_total_tokens row)) price of
        Inl e \<Rightarrow> Inl (DomainFailure e)
      | Inr charge \<Rightarrow>
         (case batch [RESERVE_ARTIFACT_TASK_SQL (row\<lparr>t_reserved_charge_micros := charge\<rparr>) maximumActive,
             guardedArtifactTaskAuditInsert auditId (t_buyer_tenant_id row) actorId
               ''artifact-task.queued'' (t_task_id row) details (t_created_at row)] db of
            Inl e \<Rightarrow> Inl (DatabaseFailure e)
          | Inr (db', ns) \<Rightarrow> Inr (db', hd ns)))"

section \<open>Updates\<close>

definition updateTasks ::
  "(ArtifactTaskRow \<Rightarrow> bool) \<Rightarrow> (ArtifactTaskRow \<Rightarrow> ArtifactTaskRow) \<Rightarrow> stmt" where
  "updateTasks p f db = Inr (db\<lparr>artifact_tasks := updateRows p f (artifact_tasks db)\<rparr>,
     countRows p (artifact_tasks db))"

definition updateArtifacts :: "(ArtifactRow \<Rightarrow> bool) \<Rightarrow> (ArtifactRow \<Rightarrow> ArtifactRow) \<Rightarrow> stmt" where
  "updateArtifacts p f db = Inr (db\<lparr>artifacts := updateRows p f (artifacts db)\<rparr>,
     countRows p (artifacts db))"

definition deadlinePassed :: "string \<Rightarrow> ArtifactTaskRow \<Rightarrow> bool" where
  "deadlinePassed now t \<longleftrightarrow> t_execution_deadline_at t = None \<or> leNull (t_execution_deadline_at t) now"

definition clearLease :: "ArtifactTaskRow \<Rightarrow> ArtifactTaskRow" where
  "clearLease t = t\<lparr>t_lease_digest := None, t_lease_expires_at := None,
     t_execution_deadline_at := None\<rparr>"

definition clearInstruction :: "ArtifactTaskRow \<Rightarrow> ArtifactTaskRow" where
  "clearInstruction t = t\<lparr>t_instruction_ciphertext := [], t_instruction_iv := []\<rparr>"

definition cancelledCode :: "ArtifactTaskRow \<Rightarrow> string" where
  "cancelledCode t = (if t_error_code t = Some ''AUTHORIZATION_REVOKED_PENDING''
     then ''AUTHORIZATION_REVOKED'' else ''USER_CANCELLED'')"

definition cancelTask :: "string \<Rightarrow> ArtifactTaskRow \<Rightarrow> ArtifactTaskRow" where
  "cancelTask now t = (clearLease t)\<lparr>t_status := ''cancelled'', t_error_code := Some (cancelledCode t),
     t_completed_at := Some now, t_updated_at := now\<rparr>"

definition requeueTask :: "string \<Rightarrow> ArtifactTaskRow \<Rightarrow> ArtifactTaskRow" where
  "requeueTask now t = (clearLease t)\<lparr>t_status := ''queued'',
     t_worker_id := (if deadlinePassed now t then None else t_worker_id t),
     t_error_code := Some (if deadlinePassed now t then ''EXECUTION_DEADLINE_EXCEEDED'' else ''LEASE_EXPIRED''),
     t_updated_at := now\<rparr>"

section \<open>Claiming a lease\<close>

text \<open>The three recovery statements a worker's claim starts with.\<close>

definition claimRecovery :: "string \<Rightarrow> string \<Rightarrow> int \<Rightarrow> stmt list" where
  "claimRecovery supplierTenant now maximumAttempts =
     [updateTasks (\<lambda>t. t_supplier_tenant_id t = supplierTenant \<and>
          t_cancellation_requested_at t \<noteq> None \<and> taskLeased t \<and>
          (ltNull (t_lease_expires_at t) now \<or> deadlinePassed now t))
        (\<lambda>t. clearInstruction (cancelTask now t)),
      updateTasks (\<lambda>t. t_supplier_tenant_id t = supplierTenant \<and> taskLeased t \<and>
          t_cancellation_requested_at t = None \<and>
          (ltNull (t_lease_expires_at t) now \<or> deadlinePassed now t) \<and> t_attempt t < maximumAttempts)
        (requeueTask now),
      updateTasks (\<lambda>t. t_supplier_tenant_id t = supplierTenant \<and> taskLeased t \<and>
          t_cancellation_requested_at t = None \<and>
          (ltNull (t_lease_expires_at t) now \<or> deadlinePassed now t) \<and> t_attempt t \<ge> maximumAttempts)
        (\<lambda>t. clearInstruction (clearLease t)\<lparr>t_status := ''failed'',
           t_error_code := Some ''LEASE_EXPIRED'', t_completed_at := Some now, t_updated_at := now\<rparr>)]"

text \<open>The row of a claimed task; \<open>resume\<close> is the segment the worker resumes from.\<close>

definition claimedTask ::
  "string \<Rightarrow> string \<Rightarrow> string \<Rightarrow> string \<Rightarrow> int \<Rightarrow> string \<Rightarrow> ArtifactTaskRow \<Rightarrow> ArtifactTaskRow" where
  "claimedTask workerId leaseDigest leaseExpiresAt executionDeadlineAt resume now t =
     t\<lparr>t_status := ''claimed'', t_worker_id := Some workerId, t_lease_digest := Some leaseDigest,
       t_lease_expires_at := Some leaseExpiresAt, t_execution_deadline_at := Some executionDeadlineAt,
       t_attempt := t_attempt t + 1, t_completed_segments := resume,
       t_total_segments := (if resume = 0 then None else t_total_segments t),
       t_processed_bytes := (if resume = 0 then 0 else t_processed_bytes t),
       t_input_tokens := (if resume = 0 then None else t_input_tokens t),
       t_output_tokens := (if resume = 0 then None else t_output_tokens t),
       t_total_tokens := (if resume = 0 then None else t_total_tokens t),
       t_started_at := (case t_started_at t of None \<Rightarrow> Some now | Some s \<Rightarrow> Some s),
       t_updated_at := now, t_error_code := None\<rparr>"

definition claimable ::
  "database \<Rightarrow> string \<Rightarrow> string \<Rightarrow> string \<Rightarrow> int \<Rightarrow> string \<Rightarrow> string \<Rightarrow> string \<Rightarrow> ArtifactTaskRow \<Rightarrow> bool" where
  "claimable db taskId supplierTenant authorizationRequestId revision now workerId providerId t \<longleftrightarrow>
     t_task_id t = taskId \<and> t_supplier_tenant_id t = supplierTenant \<and>
     t_authorization_request_id t = authorizationRequestId \<and> t_status t = ''queued'' \<and>
     t_cancellation_requested_at t = None \<and>
     list_ex (\<lambda>off. list_ex (\<lambda>s. list_ex (\<lambda>ar.
       s_supplier_id s = o_supplier_id off \<and> s_tenant_id s = o_tenant_id off \<and>
       ar_request_id ar = o_authorization_request_id off \<and> ar_authorization_revision ar = revision \<and>
       o_offer_id off = t_offer_id t \<and>
       o_authorization_request_id off = t_authorization_request_id t \<and>
       o_tenant_id off = t_supplier_tenant_id t \<and> o_status off = ''active'' \<and>
       o_valid_from off \<le> now \<and> now < o_valid_until off \<and> ar_status ar = ''approved'' \<and>
       now < ar_valid_until ar \<and> ar_tenant_id ar = o_tenant_id off \<and>
       ar_supplier_id ar = o_supplier_id off \<and> ar_provider_id ar = o_provider_id off \<and>
       s_status s = ''active'' \<and> s_supply_enabled s = 1 \<and>
       int (activeOnOffer db (t_offer_id t)) < o_concurrency off)
       (authorization_requests db)) (suppliers db)) (capacity_offers db) \<and>
     list_ex (\<lambda>w. w_supplier_tenant_id w = supplierTenant \<and> w_worker_id w = workerId \<and>
       w_provider_id w = providerId \<and> now < w_expires_at w \<and>
       sqlLike (''%'' @ [CHR 34] @ t_authorization_request_id t @ [CHR 34] @ ''%'')
         (w_authorization_request_ids_json w)) (supplier_artifact_workers db)"

definition claimArtifactTask ::
  "string \<Rightarrow> string \<Rightarrow> string \<Rightarrow> int \<Rightarrow> string \<Rightarrow> string \<Rightarrow> string \<Rightarrow> string \<Rightarrow> string \<Rightarrow> string \<Rightarrow> int \<Rightarrow> stmt" where
  "claimArtifactTask taskId supplierTenant authorizationRequestId revision now workerId providerId
     leaseDigest leaseExpiresAt executionDeadlineAt resume db =
     updateTasks (claimable db taskId supplierTenant authorizationRequestId revision now workerId providerId)
       (claimedTask workerId leaseDigest leaseExpiresAt executionDeadlineAt resume now) db"

section \<open>Checkpoint, failure, cancellation\<close>

text \<open>A live lease at the database clock: every worker write repeats this condition.\<close>

definition leaseHeld :: "string \<Rightarrow> string \<Rightarrow> string \<Rightarrow> string \<Rightarrow> ArtifactTaskRow \<Rightarrow> bool" where
  "leaseHeld taskId supplierTenant leaseDigest clock t \<longleftrightarrow>
     t_task_id t = taskId \<and> t_supplier_tenant_id t = supplierTenant \<and>
     t_lease_digest t = Some leaseDigest \<and> taskLeased t \<and> t_cancellation_requested_at t = None \<and>
     gtNull (t_lease_expires_at t) clock \<and> gtNull (t_execution_deadline_at t) clock"

definition intOr0 :: "int option \<Rightarrow> int" where
  "intOr0 x = (case x of None \<Rightarrow> 0 | Some i \<Rightarrow> i)"

definition checkpointTask ::
  "string \<Rightarrow> string \<Rightarrow> string \<Rightarrow> string \<Rightarrow> int \<Rightarrow> int \<Rightarrow> int \<Rightarrow> int \<times> int \<times> int \<Rightarrow> string \<Rightarrow> string \<Rightarrow> stmt" where
  "checkpointTask taskId supplierTenant leaseDigest clock completedSegments totalSegments
     processedBytes usage leaseExpiresAt now = (case usage of (i, out, tot) \<Rightarrow>
     updateTasks (\<lambda>t. leaseHeld taskId supplierTenant leaseDigest clock t \<and>
         t_completed_segments t \<le> completedSegments \<and> t_processed_bytes t \<le> processedBytes \<and>
         intOr0 (t_input_tokens t) \<le> i \<and> intOr0 (t_output_tokens t) \<le> out \<and>
         intOr0 (t_total_tokens t) \<le> tot \<and>
         (t_total_segments t = None \<or> t_total_segments t = Some totalSegments))
       (\<lambda>t. t\<lparr>t_status := ''running'', t_completed_segments := completedSegments,
          t_total_segments := Some totalSegments, t_processed_bytes := processedBytes,
          t_input_tokens := Some i, t_output_tokens := Some out, t_total_tokens := Some tot,
          t_lease_expires_at := Some leaseExpiresAt, t_updated_at := now\<rparr>))"

definition insertCheckpoint ::
  "string \<Rightarrow> string \<Rightarrow> int \<Rightarrow> string \<Rightarrow> string \<Rightarrow> int \<Rightarrow> int \<Rightarrow> int \<Rightarrow> int \<times> int \<times> int \<Rightarrow> string \<Rightarrow> stmt" where
  "insertCheckpoint checkpointId taskId attempt supplierTenant leaseDigest completedSegments
     totalSegments processedBytes usage now db = (case usage of (i, out, tot) \<Rightarrow>
     if list_ex (\<lambda>t. t_task_id t = taskId \<and> t_supplier_tenant_id t = supplierTenant \<and>
          t_lease_digest t = Some leaseDigest \<and> t_status t = ''running'' \<and> t_updated_at t = now \<and>
          t_completed_segments t = completedSegments \<and> t_total_segments t = Some totalSegments \<and>
          t_processed_bytes t = processedBytes \<and> t_input_tokens t = Some i \<and>
          t_output_tokens t = Some out \<and> t_total_tokens t = Some tot) (artifact_tasks db)
     then if list_ex (\<lambda>c. c_checkpoint_id c = checkpointId) (artifact_task_checkpoints db)
       then Inl UniqueViolation
       else Inr (db\<lparr>artifact_task_checkpoints := artifact_task_checkpoints db @
         [\<lparr>c_checkpoint_id = checkpointId, c_task_id = taskId, c_attempt = attempt,
           c_completed_segments = completedSegments, c_total_segments = totalSegments,
           c_processed_bytes = processedBytes, c_input_tokens = i, c_output_tokens = out,
           c_total_tokens = tot, c_occurred_at = now\<rparr>]\<rparr>, 1)
     else Inr (db, 0))"

definition failArtifactTask ::
  "bool \<Rightarrow> string \<Rightarrow> string \<Rightarrow> string \<Rightarrow> string \<Rightarrow> string \<Rightarrow> string \<Rightarrow> stmt" where
  "failArtifactTask retry code taskId supplierTenant leaseDigest clock now =
     updateTasks (leaseHeld taskId supplierTenant leaseDigest clock)
       (\<lambda>t. (if retry then clearLease t else clearInstruction (clearLease t))
          \<lparr>t_status := (if retry then ''queued'' else ''failed''), t_error_code := Some code,
           t_updated_at := now, t_completed_at := (if retry then None else Some now)\<rparr>)"

text \<open>The batch of \<open>requireLeasedTask\<close> when the lease holder learns of a cancellation.\<close>

definition acknowledgeCancellation ::
  "string \<Rightarrow> string \<Rightarrow> string \<Rightarrow> string \<Rightarrow> string \<Rightarrow> stmt list" where
  "acknowledgeCancellation taskId supplierTenant leaseDigest artifactId now =
     [updateTasks (\<lambda>t. t_task_id t = taskId \<and> t_supplier_tenant_id t = supplierTenant \<and>
          t_lease_digest t = Some leaseDigest \<and> t_cancellation_requested_at t \<noteq> None \<and> taskLeased t)
        (\<lambda>t. (cancelTask now t)\<lparr>t_completed_at :=
           (case t_completed_at t of None \<Rightarrow> Some now | Some c \<Rightarrow> Some c)\<rparr>),
      (\<lambda>db. updateArtifacts (\<lambda>a. a_artifact_id a = artifactId \<and> a_privacy_mode a = ''strict'' \<and>
          list_ex (\<lambda>t. t_task_id t = taskId \<and> t_status t = ''cancelled'') (artifact_tasks db))
        (\<lambda>a. a\<lparr>a_expires_at := now, a_updated_at := now\<rparr>) db)]"

definition cancellable :: "string \<Rightarrow> string \<Rightarrow> ArtifactTaskRow \<Rightarrow> bool" where
  "cancellable taskId tenantId t \<longleftrightarrow> t_task_id t = taskId \<and> t_buyer_tenant_id t = tenantId \<and>
     taskHeld t \<and> t_cancellation_requested_at t = None"

text \<open>
  The batch of \<open>cancelArtifactTask\<close>: the target claim with a fresh operation token, the state
  change guarded by that claim, the retention change and the audit entry.
\<close>

definition cancelArtifactTaskBatch ::
  "string \<Rightarrow> string \<Rightarrow> string \<Rightarrow> string \<Rightarrow> string \<Rightarrow> string \<Rightarrow> string \<Rightarrow> string \<Rightarrow> string \<Rightarrow> stmt list" where
  "cancelArtifactTaskBatch tenantId actorId taskId artifactId commandId operationToken now auditId details =
     [(\<lambda>db. if list_ex (cancellable taskId tenantId) (artifact_tasks db) \<and>
            hasKey db tenantId ''artifact-task.cancel'' commandId taskId
          then insertKeyOrIgnore \<lparr>k_tenant_id = tenantId, k_operation = ''artifact-task.cancel-target'',
            k_idempotency_key = taskId, k_resource_id = operationToken, k_created_at = now\<rparr> db
          else Inr (db, 0)),
      (\<lambda>db. updateTasks (\<lambda>t. cancellable taskId tenantId t \<and>
            hasKey db tenantId ''artifact-task.cancel-target'' taskId operationToken)
          (\<lambda>t. if t_status t = ''queued''
             then (clearInstruction (clearLease t))\<lparr>t_status := ''cancelled'',
               t_cancellation_requested_at := Some now, t_error_code := Some ''USER_CANCELLED'',
               t_completed_at := Some now, t_updated_at := now\<rparr>
             else (clearInstruction t)\<lparr>t_cancellation_requested_at := Some now,
               t_error_code := Some ''USER_CANCELLATION_PENDING'', t_updated_at := now\<rparr>) db),
      (\<lambda>db. updateArtifacts (\<lambda>a. a_artifact_id a = artifactId \<and> a_tenant_id a = tenantId \<and>
            a_privacy_mode a = ''strict'' \<and>
            hasKey db tenantId ''artifact-task.cancel-target'' taskId operationToken)
          (\<lambda>a. a\<lparr>a_expires_at := now, a_updated_at := now\<rparr>) db),
      (\<lambda>db. if hasKey db tenantId ''artifact-task.cancel-target'' taskId operationToken
          then insertAudit \<lparr>ad_audit_id = auditId, ad_tenant_id = tenantId, ad_actor_id = actorId,
            ad_action = ''artifact-task.cancellation-requested'', ad_resource_type = ''artifact-task'',
            ad_resource_id = taskId, ad_details_json = details, ad_occurred_at = now\<rparr> db
          else Inr (db, 0))]"

definition CANCEL_QUEUED_ARTIFACT_TASK_FOR_PURGE_SQL :: "string \<Rightarrow> string \<Rightarrow> string \<Rightarrow> stmt" where
  "CANCEL_QUEUED_ARTIFACT_TASK_FOR_PURGE_SQL now taskId tenantId =
     updateTasks (\<lambda>t. t_task_id t = taskId \<and> t_buyer_tenant_id t = tenantId \<and>
         t_status t = ''queued'' \<and> t_cancellation_requested_at t = None)
       (\<lambda>t. (clearInstruction (clearLease t))\<lparr>t_status := ''cancelled'',
          t_cancellation_requested_at := Some now, t_output_ciphertext := None, t_output_iv := None,
          t_output_expires_at := None, t_error_code := Some ''USER_CONTENT_PURGED'',
          t_completed_at := Some now, t_updated_at := now\<rparr>)"

section \<open>Expiry\<close>

text \<open>The task statements of \<open>cleanupExpiredArtifactData\<close>.\<close>

definition leaseExpired :: "string \<Rightarrow> ArtifactTaskRow \<Rightarrow> bool" where
  "leaseExpired now t \<longleftrightarrow> leNull (t_lease_expires_at t) now \<or> deadlinePassed now t"

definition cleanupExpiredTasks :: "string \<Rightarrow> string \<Rightarrow> int \<Rightarrow> stmt list" where
  "cleanupExpiredTasks now queueCutoff maximumAttempts =
     [updateTasks (\<lambda>t. t_cancellation_requested_at t \<noteq> None \<and> taskLeased t \<and> leaseExpired now t)
        (cancelTask now),
      updateTasks (\<lambda>t. taskLeased t \<and> t_cancellation_requested_at t = None \<and> leaseExpired now t \<and>
          t_attempt t < maximumAttempts \<and> queueCutoff < t_created_at t)
        (requeueTask now),
      updateTasks (\<lambda>t. (t_status t = ''queued'' \<and> t_created_at t \<le> queueCutoff) \<or>
          (taskLeased t \<and> t_cancellation_requested_at t = None \<and> leaseExpired now t \<and>
           (t_attempt t \<ge> maximumAttempts \<or> t_created_at t \<le> queueCutoff)))
        (\<lambda>t. (clearInstruction (clearLease t))\<lparr>t_status := ''failed'',
           t_error_code := Some (if t_attempt t \<ge> maximumAttempts then ''MAX_ATTEMPTS_EXCEEDED''
             else ''QUEUE_TIMEOUT''),
           t_completed_at := Some now, t_updated_at := now\<rparr>)]"

definition cleanupExpiredTaskOutput :: "string \<Rightarrow> stmt" where
  "cleanupExpiredTaskOutput now =
     updateTasks (\<lambda>t. leNull (t_output_expires_at t) now)
       (\<lambda>t. t\<lparr>t_output_ciphertext := None, t_output_iv := None, t_output_expires_at := None,
          t_content_purged_at := (case t_content_purged_at t of None \<Rightarrow> Some now | Some x \<Rightarrow> Some x),
          t_updated_at := now\<rparr>)"

section \<open>Completion\<close>

text \<open>
  What \<open>completeArtifactTask\<close> binds: the task row it read under its lease, the verified usage and
  amounts, and the generated values.
\<close>

record TaskSettlement =
  ts_task :: ArtifactTaskRow
  ts_supplierTenantId :: string
  ts_leaseDigest :: string
  ts_actorId :: string
  ts_evidence :: VerifiedSupplierArtifactEvidence
  ts_usage :: SupplierGatewayUsage
  ts_amounts :: SettlementAmounts
  ts_ciphertext :: string
  ts_iv :: string
  ts_keyVersion :: int
  ts_outputExpiresAt :: string
  ts_artifactExpiresAt :: string
  ts_manifestDigest :: string
  ts_contentDigest :: string
  ts_outputDigest :: string
  ts_digestVersion :: int
  ts_evidenceDigest :: string
  ts_now :: string
  ts_clock :: string
  ts_evidenceId :: string
  ts_usageId :: string
  ts_debitId :: string
  ts_creditId :: string
  ts_feeId :: string
  ts_auditId :: string
  ts_details :: string

definition completedTask :: "TaskSettlement \<Rightarrow> ArtifactTaskRow \<Rightarrow> ArtifactTaskRow" where
  "completedTask x t = (clearInstruction (clearLease t))\<lparr>t_status := ''completed'',
     t_input_tokens := Some (input_tokens (ts_usage x)), t_output_tokens := Some (output_tokens (ts_usage x)),
     t_total_tokens := Some (total_tokens (ts_usage x)),
     t_charge_micros := Some (buyerChargeMicros (ts_amounts x)),
     t_output_ciphertext := Some (ts_ciphertext x), t_output_iv := Some (ts_iv x),
     t_content_key_version := ts_keyVersion x, t_output_expires_at := Some (ts_outputExpiresAt x),
     t_completed_at := Some (ts_now x), t_updated_at := ts_now x\<rparr>"

text \<open>Equality with a bound value that may be NULL.\<close>

definition eqNull :: "'a option \<Rightarrow> 'a option \<Rightarrow> bool" where
  "eqNull a b \<longleftrightarrow> a \<noteq> None \<and> a = b"

definition COMPLETE_ARTIFACT_TASK_SQL :: "TaskSettlement \<Rightarrow> stmt" where
  "COMPLETE_ARTIFACT_TASK_SQL x db =
     (let task = ts_task x; charge = castInteger (buyerChargeMicros (ts_amounts x)) in
     andThen (gateBalance (\<lambda>_. True) (\<lambda>t. t_task_id t \<noteq> t_task_id task) db (t_buyer_tenant_id task)) (\<lambda>balance.
     updateTasks (\<lambda>t. leaseHeld (t_task_id task) (ts_supplierTenantId x) (ts_leaseDigest x) (ts_clock x) t \<and>
         t_attempt t = t_attempt task \<and> t_completed_segments t = t_completed_segments task \<and>
         eqNull (t_total_segments t) (t_total_segments task) \<and>
         t_processed_bytes t = t_processed_bytes task \<and>
         eqNull (t_input_tokens t) (t_input_tokens task) \<and>
         eqNull (t_output_tokens t) (t_output_tokens task) \<and>
         eqNull (t_total_tokens t) (t_total_tokens task) \<and>
         taskCharge t \<ge> charge \<and> balance \<ge> charge)
       (completedTask x) db))"

definition taskEvidenceRow :: "TaskSettlement \<Rightarrow> TaskEvidenceRow" where
  "taskEvidenceRow x = (let e = ts_evidence x; u = ts_usage x in
     \<lparr>te_evidence_id = ts_evidenceId x, te_task_id = t_task_id (ts_task x),
      te_provider_id = va_providerId e, te_requested_model = va_requestedModel e,
      te_served_model = va_servedModel e, te_artifact_id = va_artifactId e,
      te_artifact_manifest_sha256 = ts_manifestDigest x,
      te_artifact_content_sha256 = ts_contentDigest x, te_output_sha256 = ts_outputDigest x,
      te_digest_version = ts_digestVersion x,
      te_provider_request_ids_sha256 = va_providerRequestIdsSha256 e,
      te_segments_completed = va_segmentsCompleted e, te_input_tokens = input_tokens u,
      te_output_tokens = output_tokens u, te_total_tokens = total_tokens u,
      te_evidence_digest = ts_evidenceDigest x,
      te_buyer_charge_micros = buyerChargeMicros (ts_amounts x),
      te_supplier_credit_micros = supplierCreditMicros (ts_amounts x),
      te_platform_fee_micros = platformFeeMicros (ts_amounts x),
      te_completed_at = va_completedAt e, te_recorded_at = ts_now x\<rparr>)"

definition taskSettled :: "TaskSettlement \<Rightarrow> ArtifactTaskRow \<Rightarrow> bool" where
  "taskSettled x t \<longleftrightarrow> t_task_id t = t_task_id (ts_task x) \<and>
     t_supplier_tenant_id t = ts_supplierTenantId x \<and> t_status t = ''completed'' \<and>
     t_completed_at t = Some (ts_now x) \<and> t_charge_micros t = Some (buyerChargeMicros (ts_amounts x))"

definition insertTaskEvidence :: "TaskSettlement \<Rightarrow> stmt" where
  "insertTaskEvidence x db =
     (if list_ex (taskSettled x) (artifact_tasks db)
      then if list_ex (\<lambda>r. te_evidence_id r = ts_evidenceId x \<or> te_task_id r = t_task_id (ts_task x))
             (artifact_task_evidence db)
        then Inl UniqueViolation
        else Inr (db\<lparr>artifact_task_evidence := artifact_task_evidence db @ [taskEvidenceRow x]\<rparr>, 1)
      else Inr (db, 0))"

definition taskEvidenceRecorded :: "database \<Rightarrow> string \<Rightarrow> string \<Rightarrow> bool" where
  "taskEvidenceRecorded db taskId digest =
     list_ex (\<lambda>r. te_task_id r = taskId \<and> te_evidence_digest r = digest) (artifact_task_evidence db)"

definition guardedLedgerInsert ::
  "string \<Rightarrow> string \<Rightarrow> string \<Rightarrow> string \<Rightarrow> string \<Rightarrow> string \<Rightarrow> string \<Rightarrow> string \<Rightarrow> string \<Rightarrow> stmt" where
  "guardedLedgerInsert entryId tenantId accountId taskId entryType direction amountMicros createdAt
     evidenceDigest db =
     (if taskEvidenceRecorded db taskId evidenceDigest
      then insertLedgerOrIgnore \<lparr>l_entry_id = entryId, l_tenant_id = tenantId, l_account_id = accountId,
        l_job_id = Some taskId, l_entry_type = entryType, l_direction = direction,
        l_amount_micros = amountMicros, l_currency = ''CNY'', l_created_at = createdAt\<rparr> db
      else Inr (db, 0))"

definition insertTaskUsage :: "TaskSettlement \<Rightarrow> stmt" where
  "insertTaskUsage x db = (let task = ts_task x; u = ts_usage x in
     if taskEvidenceRecorded db (t_task_id task) (ts_evidenceDigest x)
     then insertUsage \<lparr>u_usage_id = ts_usageId x, u_job_id = t_task_id task,
       u_buyer_tenant_id = t_buyer_tenant_id task, u_supplier_tenant_id = t_supplier_tenant_id task,
       u_offer_id = t_offer_id task, u_provider_request_id = va_providerRequestIdsSha256 (ts_evidence x),
       u_input_tokens = input_tokens u, u_output_tokens = output_tokens u,
       u_total_tokens = total_tokens u, u_receipt_ref = Some (ts_evidenceDigest x),
       u_occurred_at = ts_now x\<rparr> db
     else Inr (db, 0))"

definition insertTaskAudit :: "TaskSettlement \<Rightarrow> stmt" where
  "insertTaskAudit x db = (let task = ts_task x in
     if taskEvidenceRecorded db (t_task_id task) (ts_evidenceDigest x)
     then insertAudit \<lparr>ad_audit_id = ts_auditId x, ad_tenant_id = t_buyer_tenant_id task,
       ad_actor_id = ts_actorId x, ad_action = ''artifact-task.completed'',
       ad_resource_type = ''artifact-task'', ad_resource_id = t_task_id task,
       ad_details_json = ts_details x, ad_occurred_at = ts_now x\<rparr> db
     else Inr (db, 0))"

definition extendArtifact :: "TaskSettlement \<Rightarrow> stmt" where
  "extendArtifact x db = (let task = ts_task x in
     updateArtifacts (\<lambda>a. a_artifact_id a = t_artifact_id task \<and>
         taskEvidenceRecorded db (t_task_id task) (ts_evidenceDigest x))
       (\<lambda>a. a\<lparr>a_expires_at := (if t_privacy_mode task = ''strict'' then ts_now x
            else if a_expires_at a < ts_artifactExpiresAt x then ts_artifactExpiresAt x
            else a_expires_at a), a_updated_at := ts_now x\<rparr>) db)"

definition taskSettlementStatements :: "TaskSettlement \<Rightarrow> stmt list" where
  "taskSettlementStatements x = (let task = ts_task x in
     [COMPLETE_ARTIFACT_TASK_SQL x, insertTaskEvidence x,
      guardedLedgerInsert (ts_debitId x) (t_buyer_tenant_id task) (''buyer-'' @ t_buyer_tenant_id task)
        (t_task_id task) ''inference-debit'' ''debit'' (buyerChargeMicros (ts_amounts x)) (ts_now x)
        (ts_evidenceDigest x),
      guardedLedgerInsert (ts_creditId x) (t_supplier_tenant_id task)
        (''supplier-'' @ t_supplier_tenant_id task) (t_task_id task) ''supplier-credit'' ''credit''
        (supplierCreditMicros (ts_amounts x)) (ts_now x) (ts_evidenceDigest x),
      insertTaskUsage x, insertTaskAudit x, extendArtifact x] @
     (if platformFeeMicros (ts_amounts x) \<noteq> ''0''
      then [guardedLedgerInsert (ts_feeId x) ''platform'' ''platform-fees'' (t_task_id task)
        ''platform-fee'' ''credit'' (platformFeeMicros (ts_amounts x)) (ts_now x) (ts_evidenceDigest x)]
      else []))"

datatype TaskError = ARTIFACT_INTEGRITY_FAILED | ARTIFACT_TASK_CANCELLED | TASK_INSUFFICIENT_BALANCE
  | TaskEvidenceFailure | TaskDomainFailure MarketplaceDomainErrorCode | TaskDatabaseFailure dbError

text \<open>
  The handler from the lease check on. The evidence signature has been verified, and \<open>verified\<close> is
  the result of \<open>verifySupplierArtifactEvidence\<close> on the expectation the handler builds.
\<close>

definition completeArtifactTask ::
  "string \<Rightarrow> jsnum \<Rightarrow> int \<Rightarrow> VerifiedSupplierArtifactEvidence result \<Rightarrow> TaskSettlement \<Rightarrow> database \<Rightarrow>
     database \<times> (TaskError + SettlementAmounts)" where
  "completeArtifactTask price feeBps artifactSize verified x db = (let task = ts_task x in
     if t_processed_bytes task \<noteq> artifactSize \<or> t_completed_segments task < 1
     then (db, Inl ARTIFACT_INTEGRITY_FAILED)
     else if t_total_segments task \<noteq> Some (t_completed_segments task)
     then (db, Inl ARTIFACT_INTEGRITY_FAILED)
     else if t_total_tokens task \<noteq> Some (total_tokens (ts_usage x))
     then (db, Inl ARTIFACT_INTEGRITY_FAILED)
     else case verified of Inl _ \<Rightarrow> (db, Inl TaskEvidenceFailure)
     | Inr e \<Rightarrow>
       (case calculateSettlement \<lparr>totalTokens = NInt (total_tokens (ts_usage x)),
          priceMicrosPerMillionTokens = price, platformFeeBps = feeBps\<rparr> of
          Inl c \<Rightarrow> (db, Inl (TaskDomainFailure c))
        | Inr amounts \<Rightarrow>
          if BigInt_str (buyerChargeMicros amounts) > BigInt_str (t_reserved_charge_micros task)
          then (db, Inl ARTIFACT_INTEGRITY_FAILED)
          else (case batch (taskSettlementStatements (x\<lparr>ts_evidence := e, ts_amounts := amounts\<rparr>)) db of
              Inl c \<Rightarrow> (db, Inl (TaskDatabaseFailure c))
            | Inr (db', _) \<Rightarrow>
               (case find (\<lambda>t. t_task_id t = t_task_id task) (artifact_tasks db') of
                  None \<Rightarrow> (db', Inl TASK_INSUFFICIENT_BALANCE)
                | Some t \<Rightarrow>
                   if t_cancellation_requested_at t \<noteq> None \<or> t_status t = ''cancelled''
                   then (db', Inl ARTIFACT_TASK_CANCELLED)
                   else if t_status t \<noteq> ''completed'' \<or>
                       \<not> taskEvidenceRecorded db' (t_task_id task) (ts_evidenceDigest x)
                   then (db', Inl TASK_INSUFFICIENT_BALANCE)
                   else (db', Inr amounts)))))"

end
