(* ===== verification/Solvency.thy ===== *)
theory Solvency
  imports ArtifactTasks
begin

text \<open>
  The financial invariant of the control plane: no tenant's available balance is ever negative,
  every completed job or task has its evidence, and every piece of evidence has its debit. Each
  statement of \<open>Ledger\<close> and \<open>ArtifactTasks\<close> is shown to keep it, whatever the order in which
  requests, workers and cleanups execute.
\<close>

section \<open>Exact balances\<close>

definition ledgerTotal :: "database \<Rightarrow> string \<Rightarrow> int" where
  "ledgerTotal db tenant =
     sum_list (map signedAmount (filter (\<lambda>l. l_tenant_id l = tenant) (ledger_entries db)))"

definition jobHolds :: "database \<Rightarrow> string \<Rightarrow> int" where
  "jobHolds db tenant = sum_list (map jobCharge
     (filter (\<lambda>j. j_buyer_tenant_id j = tenant \<and> jobHeld j) (inference_jobs db)))"

definition taskHolds :: "database \<Rightarrow> string \<Rightarrow> int" where
  "taskHolds db tenant = sum_list (map taskCharge
     (filter (\<lambda>t. t_buyer_tenant_id t = tenant \<and> taskHeld t) (artifact_tasks db)))"

definition available :: "database \<Rightarrow> string \<Rightarrow> int" where
  "available db tenant = ledgerTotal db tenant - jobHolds db tenant - taskHolds db tenant"

lemma AVAILABLE_BALANCE_exact:
  "AVAILABLE_BALANCE_SQL db tenant = Inr b \<Longrightarrow> b = available db tenant"
  by (auto simp: AVAILABLE_BALANCE_SQL_def gateBalance_def available_def ledgerTotal_def jobHolds_def
      taskHolds_def split: option.splits dest: sqlSum_Some)

lemma gateBalance_exact:
  "gateBalance pj pt db tenant = Inr b \<Longrightarrow> b = ledgerTotal db tenant
     - sum_list (map jobCharge (filter (\<lambda>j. j_buyer_tenant_id j = tenant \<and> pj j \<and> jobHeld j) (inference_jobs db)))
     - sum_list (map taskCharge (filter (\<lambda>t. t_buyer_tenant_id t = tenant \<and> pt t \<and> taskHeld t) (artifact_tasks db)))"
  by (auto simp: gateBalance_def ledgerTotal_def split: option.splits dest: sqlSum_Some)

section \<open>The invariant\<close>

definition hasDebit :: "database \<Rightarrow> string \<Rightarrow> bool" where
  "hasDebit db i \<longleftrightarrow> (\<exists>l \<in> set (ledger_entries db). l_job_id l = Some i \<and> l_entry_type l = ''inference-debit'')"

text \<open>
  \<open>E\<close> holds the ids whose evidence and \<open>D\<close> those whose debit is still to be written by the
  batch under way; between batches both are empty.
\<close>

definition books :: "string set \<Rightarrow> string set \<Rightarrow> database \<Rightarrow> bool" where
  "books E D db \<longleftrightarrow>
     distinct (map j_job_id (inference_jobs db)) \<and> distinct (map t_task_id (artifact_tasks db)) \<and>
     (\<forall>j \<in> set (inference_jobs db). 0 \<le> jobCharge j) \<and>
     (\<forall>t \<in> set (artifact_tasks db). 0 \<le> taskCharge t) \<and>
     (\<forall>j \<in> set (inference_jobs db). j_status j = ''completed'' \<longrightarrow> j_job_id j \<notin> E \<longrightarrow>
        (\<exists>e \<in> set (service_evidence db). se_job_id e = j_job_id j)) \<and>
     (\<forall>t \<in> set (artifact_tasks db). t_status t = ''completed'' \<longrightarrow> t_task_id t \<notin> E \<longrightarrow>
        (\<exists>e \<in> set (artifact_task_evidence db). te_task_id e = t_task_id t)) \<and>
     (\<forall>e \<in> set (service_evidence db). se_job_id e \<notin> D \<longrightarrow> hasDebit db (se_job_id e)) \<and>
     (\<forall>e \<in> set (artifact_task_evidence db). te_task_id e \<notin> D \<longrightarrow> hasDebit db (te_task_id e)) \<and>
     (\<forall>tenant. 0 \<le> available db tenant)"

definition solvent :: "database \<Rightarrow> bool" where
  "solvent = books {} {}"

lemma booksD:
  assumes "books E D db"
  shows "distinct (map j_job_id (inference_jobs db))" "distinct (map t_task_id (artifact_tasks db))"
    "\<forall>j \<in> set (inference_jobs db). 0 \<le> jobCharge j" "\<forall>t \<in> set (artifact_tasks db). 0 \<le> taskCharge t"
    "\<forall>j \<in> set (inference_jobs db). j_status j = ''completed'' \<longrightarrow> j_job_id j \<notin> E \<longrightarrow>
        (\<exists>e \<in> set (service_evidence db). se_job_id e = j_job_id j)"
    "\<forall>t \<in> set (artifact_tasks db). t_status t = ''completed'' \<longrightarrow> t_task_id t \<notin> E \<longrightarrow>
        (\<exists>e \<in> set (artifact_task_evidence db). te_task_id e = t_task_id t)"
    "\<forall>e \<in> set (service_evidence db). se_job_id e \<notin> D \<longrightarrow> hasDebit db (se_job_id e)"
    "\<forall>e \<in> set (artifact_task_evidence db). te_task_id e \<notin> D \<longrightarrow> hasDebit db (te_task_id e)"
    "\<And>tenant. 0 \<le> available db tenant"
  using assms by (simp_all add: books_def)

text \<open>Only five tables matter.\<close>

definition sameBooks :: "database \<Rightarrow> database \<Rightarrow> bool" where
  "sameBooks db db' \<longleftrightarrow> inference_jobs db' = inference_jobs db \<and> artifact_tasks db' = artifact_tasks db \<and>
     ledger_entries db' = ledger_entries db \<and> service_evidence db' = service_evidence db \<and>
     artifact_task_evidence db' = artifact_task_evidence db"

lemma available_cong: "sameBooks db db' \<Longrightarrow> available db' = available db"
  by (auto simp: sameBooks_def available_def ledgerTotal_def jobHolds_def taskHolds_def)

lemma books_cong: "sameBooks db db' \<Longrightarrow> books E D db' = books E D db"
  using available_cong [of db db'] by (simp add: sameBooks_def books_def hasDebit_def)

section \<open>Updates that release or keep reservations\<close>

definition jobCalm :: "JobRow \<Rightarrow> JobRow \<Rightarrow> bool" where
  "jobCalm j j' \<longleftrightarrow> j_job_id j' = j_job_id j \<and> j_buyer_tenant_id j' = j_buyer_tenant_id j \<and>
     j_offer_id j' = j_offer_id j \<and> j_reserved_charge_micros j' = j_reserved_charge_micros j \<and>
     (jobHeld j' \<longrightarrow> jobHeld j) \<and> (j_status j' = ''completed'' \<longrightarrow> j_status j = ''completed'') \<and>
     (\<not> jobHeld j \<longrightarrow> j_status j' = j_status j)"

text \<open>With \<open>lo\<close> the update takes no lease either.\<close>

definition taskCalm :: "bool \<Rightarrow> ArtifactTaskRow \<Rightarrow> ArtifactTaskRow \<Rightarrow> bool" where
  "taskCalm lo t t' \<longleftrightarrow> t_task_id t' = t_task_id t \<and> t_buyer_tenant_id t' = t_buyer_tenant_id t \<and>
     t_offer_id t' = t_offer_id t \<and> t_reserved_charge_micros t' = t_reserved_charge_micros t \<and>
     (taskHeld t' \<longrightarrow> taskHeld t) \<and> (t_status t' = ''completed'' \<longrightarrow> t_status t = ''completed'') \<and>
     (\<not> taskHeld t \<longrightarrow> t_status t' = t_status t) \<and> (lo \<longrightarrow> taskLeased t' \<longrightarrow> taskLeased t)"

definition jobQuiet :: "(JobRow \<Rightarrow> JobRow) \<Rightarrow> bool" where
  "jobQuiet g \<longleftrightarrow> (\<forall>j. jobCalm j (g j))"

definition taskQuiet :: "bool \<Rightarrow> (ArtifactTaskRow \<Rightarrow> ArtifactTaskRow) \<Rightarrow> bool" where
  "taskQuiet lo h \<longleftrightarrow> (\<forall>t. taskCalm lo t (h t))"

definition quiet :: "bool \<Rightarrow> database \<Rightarrow> database \<Rightarrow> bool" where
  "quiet lo db db' \<longleftrightarrow> (\<exists>g h. jobQuiet g \<and> taskQuiet lo h \<and> inference_jobs db' = map g (inference_jobs db) \<and>
     artifact_tasks db' = map h (artifact_tasks db)) \<and>
     set (usage_records db) \<subseteq> set (usage_records db') \<and>
     capacity_offers db' = capacity_offers db \<and> ledger_entries db' = ledger_entries db \<and>
     service_evidence db' = service_evidence db \<and> artifact_task_evidence db' = artifact_task_evidence db"

lemma jobQuiet_id [simp]: "jobQuiet (\<lambda>j. j)" and taskQuiet_id [simp]: "taskQuiet lo (\<lambda>t. t)"
  by (simp_all add: jobQuiet_def taskQuiet_def jobCalm_def taskCalm_def)

lemma jobCalm_trans: "jobCalm a b \<Longrightarrow> jobCalm b c \<Longrightarrow> jobCalm a c"
  by (auto simp: jobCalm_def)

lemma taskCalm_trans: "taskCalm lo a b \<Longrightarrow> taskCalm lo b c \<Longrightarrow> taskCalm lo a c"
  by (auto simp: taskCalm_def)

lemma jobQuiet_comp: "jobQuiet g \<Longrightarrow> jobQuiet g' \<Longrightarrow> jobQuiet (\<lambda>j. g' (g j))"
  unfolding jobQuiet_def by (blast intro: jobCalm_trans)

lemma taskQuiet_comp: "taskQuiet lo h \<Longrightarrow> taskQuiet lo h' \<Longrightarrow> taskQuiet lo (\<lambda>t. h' (h t))"
  unfolding taskQuiet_def by (blast intro: taskCalm_trans)

lemma quietI:
  "jobQuiet g \<Longrightarrow> taskQuiet lo h \<Longrightarrow> inference_jobs db' = map g (inference_jobs db) \<Longrightarrow>
   artifact_tasks db' = map h (artifact_tasks db) \<Longrightarrow>
   set (usage_records db) \<subseteq> set (usage_records db') \<Longrightarrow>
   capacity_offers db' = capacity_offers db \<Longrightarrow> ledger_entries db' = ledger_entries db \<Longrightarrow>
   service_evidence db' = service_evidence db \<Longrightarrow>
   artifact_task_evidence db' = artifact_task_evidence db \<Longrightarrow> quiet lo db db'"
  unfolding quiet_def by blast

lemma quiet_refl [simp]: "quiet lo db db"
  by (rule quietI [OF jobQuiet_id taskQuiet_id]) simp_all

lemma quiet_trans: "quiet lo db db' \<Longrightarrow> quiet lo db' db'' \<Longrightarrow> quiet lo db db''"
proof -
  assume "quiet lo db db'" "quiet lo db' db''"
  then obtain g h g' h' where g: "jobQuiet g" "jobQuiet g'" and h: "taskQuiet lo h" "taskQuiet lo h'"
    and rows: "inference_jobs db' = map g (inference_jobs db)" "artifact_tasks db' = map h (artifact_tasks db)"
    "inference_jobs db'' = map g' (inference_jobs db')" "artifact_tasks db'' = map h' (artifact_tasks db')"
    "set (usage_records db) \<subseteq> set (usage_records db'')" "capacity_offers db'' = capacity_offers db"
    "ledger_entries db'' = ledger_entries db" "service_evidence db'' = service_evidence db"
    "artifact_task_evidence db'' = artifact_task_evidence db" by (auto simp: quiet_def)
  show ?thesis by (rule quietI [OF jobQuiet_comp [OF g] taskQuiet_comp [OF h]]) (simp_all add: rows)
qed

lemma sameBooks_quiet:
  "sameBooks db db' \<Longrightarrow> capacity_offers db' = capacity_offers db \<Longrightarrow>
     set (usage_records db) \<subseteq> set (usage_records db') \<Longrightarrow> quiet lo db db'"
  by (rule quietI [OF jobQuiet_id taskQuiet_id]) (simp_all add: sameBooks_def)

lemma quiet_available:
  assumes "quiet lo db db'" "\<forall>j \<in> set (inference_jobs db). 0 \<le> jobCharge j"
    "\<forall>t \<in> set (artifact_tasks db). 0 \<le> taskCharge t"
  shows "available db tenant \<le> available db' tenant"
proof -
  obtain g h where g: "jobQuiet g" "inference_jobs db' = map g (inference_jobs db)"
    and h: "taskQuiet lo h" "artifact_tasks db' = map h (artifact_tasks db)"
    and l: "ledgerTotal db' tenant = ledgerTotal db tenant"
    using assms(1) by (auto simp: quiet_def ledgerTotal_def)
  have "jobHolds db' tenant \<le> jobHolds db tenant"
    unfolding jobHolds_def g(2)
    by (rule selected_sum_le) (use g(1) assms(2) in \<open>auto simp: jobQuiet_def jobCalm_def jobCharge_def\<close>)
  moreover have "taskHolds db' tenant \<le> taskHolds db tenant"
    unfolding taskHolds_def h(2)
    by (rule selected_sum_le) (use h(1) assms(3) in \<open>auto simp: taskQuiet_def taskCalm_def taskCharge_def\<close>)
  ultimately show ?thesis using l by (simp add: available_def)
qed

lemma quiet_books:
  assumes "books E D db" "quiet lo db db'"
  shows "books E D db'"
proof -
  obtain g h where g: "jobQuiet g" "inference_jobs db' = map g (inference_jobs db)"
    and h: "taskQuiet lo h" "artifact_tasks db' = map h (artifact_tasks db)"
    and rest: "ledger_entries db' = ledger_entries db" "service_evidence db' = service_evidence db"
      "artifact_task_evidence db' = artifact_task_evidence db"
    using assms(2) by (auto simp: quiet_def)
  note b = booksD [OF assms(1)]
  have ids: "map j_job_id (inference_jobs db') = map j_job_id (inference_jobs db)"
    "map t_task_id (artifact_tasks db') = map t_task_id (artifact_tasks db)"
    using g h by (auto simp: jobQuiet_def taskQuiet_def jobCalm_def taskCalm_def)
  have "0 \<le> available db' tenant" for tenant
    using quiet_available [OF assms(2) b(3,4), of tenant] b(9) [of tenant] by simp
  moreover have "hasDebit db' = hasDebit db" by (simp add: hasDebit_def rest fun_eq_iff)
  ultimately show ?thesis
    unfolding books_def ids rest using b g h
    by (auto simp: jobQuiet_def taskQuiet_def jobCalm_def taskCalm_def jobCharge_def taskCharge_def)
qed

text \<open>A statement is quiet when whatever it produces is.\<close>

definition quietStmt :: "bool \<Rightarrow> stmt \<Rightarrow> bool" where
  "quietStmt lo s \<longleftrightarrow> (\<forall>db db' n. s db = Inr (db', n) \<longrightarrow> quiet lo db db')"

lemma quiet_batch: "list_all (quietStmt lo) ss \<Longrightarrow> batch ss db = Inr (db', ns) \<Longrightarrow> quiet lo db db'"
  by (erule batch_rel [of "quiet lo", OF quiet_refl quiet_trans, rotated -1])
    (auto simp: list_all_iff quietStmt_def)

lemma quiet_updateJobs:
  assumes "jobQuiet (\<lambda>j. if p j then f j else j)"
  shows "quietStmt lo (updateJobs p f)"
  unfolding quietStmt_def updateJobs_def updateRows_def
  by (auto intro: quietI [OF assms taskQuiet_id])

lemma quiet_updateTasks:
  assumes "taskQuiet lo (\<lambda>t. if p t then f t else t)"
  shows "quietStmt lo (updateTasks p f)"
  unfolding quietStmt_def updateTasks_def updateRows_def
  by (auto intro: quietI [OF jobQuiet_id assms])

lemma quiet_tables:
  "quietStmt lo (updateArtifacts p f)" "quietStmt lo (insertAudit a)" "quietStmt lo (insertKeyOrIgnore k)"
  "quietStmt lo (insertUsage u)"
  by (auto simp: quietStmt_def updateArtifacts_def insertAudit_def insertKeyOrIgnore_def insertUsage_def
      sameBooks_def split: if_splits intro!: sameBooks_quiet)

lemma quiet_if:
  "quietStmt lo (\<lambda>db. s db) \<Longrightarrow> quietStmt lo (\<lambda>db. if c db then s db else Inr (db, 0))"
  by (auto simp: quietStmt_def split: if_splits)

text \<open>Updates whose condition reads the database they run on.\<close>

lemma quiet_updateTasks_in:
  assumes "\<And>d. taskQuiet lo (\<lambda>t. if p d t then f t else t)"
  shows "quietStmt lo (\<lambda>db. updateTasks (p db) f db)"
  using quiet_updateTasks [OF assms] by (simp add: quietStmt_def)

lemma quiet_updateArtifacts_in: "quietStmt lo (\<lambda>db. updateArtifacts (p db) f db)"
  using quiet_tables(1) by (simp add: quietStmt_def)

section \<open>The statements that are quiet\<close>

lemmas job_defs = jobQuiet_def jobCalm_def jobHeld_def
lemmas task_defs = taskQuiet_def taskCalm_def taskHeld_def taskLeased_def clearLease_def clearInstruction_def
  cancelTask_def requeueTask_def leaseHeld_def cancellable_def

lemma quiet_jobs [simp, intro]:
  "quietStmt lo (startInferenceJob i n)" "quietStmt lo (failInferenceJob c n i)"
  "quietStmt lo (cleanupStaleInferenceReservations n l)" "quietStmt lo (cleanupExpiredInferenceContent n)"
  unfolding startInferenceJob_def failInferenceJob_def cleanupStaleInferenceReservations_def
    cleanupExpiredInferenceContent_def
  by (intro quiet_updateJobs; simp add: job_defs)+

lemma quiet_claimRecovery: "list_all (quietStmt lo) (claimRecovery s n m)"
  unfolding claimRecovery_def list.pred_inject
  by (intro conjI TrueI quiet_updateTasks; simp add: task_defs)

lemma quiet_claim: "quietStmt False (claimArtifactTask i s a r n w p l x e res)"
  unfolding claimArtifactTask_def
  by (rule quiet_updateTasks_in) (simp add: task_defs claimable_def claimedTask_def)

lemma quiet_checkpoint: "quietStmt lo (checkpointTask i s l c cs ts pb u x n)"
  by (cases u) (auto simp: checkpointTask_def intro!: quiet_updateTasks, simp add: task_defs)

lemma quiet_insertCheckpoint: "quietStmt lo (insertCheckpoint ci i a s l cs ts pb u n)"
  by (cases u) (auto simp: quietStmt_def insertCheckpoint_def sameBooks_def split: if_splits
      intro!: sameBooks_quiet)

lemma quiet_failTask: "quietStmt lo (failArtifactTask r c i s l k n)"
  unfolding failArtifactTask_def by (intro quiet_updateTasks) (simp add: task_defs)

lemma quiet_acknowledge: "list_all (quietStmt lo) (acknowledgeCancellation i s l a n)"
  unfolding acknowledgeCancellation_def list.pred_inject
  by (intro conjI TrueI quiet_updateTasks quiet_updateArtifacts_in) (simp_all add: task_defs)

lemma quiet_cancel: "list_all (quietStmt lo) (cancelArtifactTaskBatch te ac i ar c ot n au de)"
  unfolding cancelArtifactTaskBatch_def list.pred_inject
  by (intro conjI TrueI quiet_if quiet_tables quiet_updateTasks_in quiet_updateArtifacts_in)
    (simp_all add: task_defs)

lemma quiet_purge: "quietStmt lo (CANCEL_QUEUED_ARTIFACT_TASK_FOR_PURGE_SQL n i t)"
  unfolding CANCEL_QUEUED_ARTIFACT_TASK_FOR_PURGE_SQL_def
  by (intro quiet_updateTasks) (simp add: task_defs)

lemma quiet_cleanup: "list_all (quietStmt lo) (cleanupExpiredTasks n q m)"
  unfolding cleanupExpiredTasks_def list.pred_inject
  by (intro conjI TrueI quiet_updateTasks; simp add: task_defs)

lemma quiet_output: "quietStmt lo (cleanupExpiredTaskOutput n)"
  unfolding cleanupExpiredTaskOutput_def by (intro quiet_updateTasks) (simp add: task_defs)

section \<open>Reservations\<close>

lemma available_append_job:
  "jobHeld j \<Longrightarrow> available (db\<lparr>inference_jobs := inference_jobs db @ [j]\<rparr>) tenant =
     available db tenant - (if j_buyer_tenant_id j = tenant then jobCharge j else 0)"
  by (simp add: available_def ledgerTotal_def jobHolds_def taskHolds_def)

lemma available_append_task:
  "taskHeld t \<Longrightarrow> available (db\<lparr>artifact_tasks := artifact_tasks db @ [t]\<rparr>) tenant =
     available db tenant - (if t_buyer_tenant_id t = tenant then taskCharge t else 0)"
  by (simp add: available_def ledgerTotal_def jobHolds_def taskHolds_def)

lemma RESERVE_INFERENCE_cases:
  assumes "RESERVE_INFERENCE_JOB_SQL row a r c db = Inr (db', n)"
  obtains "n = 0" "db' = db"
  | "n = 1" "db' = db\<lparr>inference_jobs := inference_jobs db @ [row]\<rparr>"
    "jobCharge row \<le> available db (j_buyer_tenant_id row)"
    "offerReservable db (j_offer_id row) a r (j_supplier_tenant_id row) (j_buyer_tenant_id row) (j_created_at row)"
    "int (activeOnOffer db (j_offer_id row)) < c"
    "j_job_id row \<notin> j_job_id ` set (inference_jobs db)"
proof (cases "AVAILABLE_BALANCE_SQL db (j_buyer_tenant_id row)")
  case (Inl e)
  with assms show ?thesis by (simp add: RESERVE_INFERENCE_JOB_SQL_def)
next
  case (Inr b)
  let ?ok = "castInteger (j_reserved_charge_micros row) \<le> b \<and>
    offerReservable db (j_offer_id row) a r (j_supplier_tenant_id row) (j_buyer_tenant_id row) (j_created_at row) \<and>
    int (activeOnOffer db (j_offer_id row)) < c \<and>
    \<not> list_ex (\<lambda>j. j_job_id j = j_job_id row \<or> (j_buyer_tenant_id j = j_buyer_tenant_id row \<and>
       j_idempotency_key j = j_idempotency_key row)) (inference_jobs db)"
  have run: "RESERVE_INFERENCE_JOB_SQL row a r c db =
    (if ?ok then Inr (db\<lparr>inference_jobs := inference_jobs db @ [row]\<rparr>, 1) else Inr (db, 0))"
    by (simp only: RESERVE_INFERENCE_JOB_SQL_def Inr andThen_simps)
  show ?thesis
  proof (cases ?ok)
    case True
    with run assms have "n = 1" "db' = db\<lparr>inference_jobs := inference_jobs db @ [row]\<rparr>" by simp_all
    moreover from True have "j_job_id row \<notin> j_job_id ` set (inference_jobs db)"
      by (auto simp: list_ex_iff)
    ultimately show ?thesis using that(2) True AVAILABLE_BALANCE_exact [OF Inr]
      by (simp add: jobCharge_def)
  next
    case False
    with run assms that(1) show ?thesis by simp
  qed
qed

lemma RESERVE_ARTIFACT_cases:
  assumes "RESERVE_ARTIFACT_TASK_SQL row m db = Inr (db', n)"
  obtains "n = 0" "db' = db"
  | "n = 1" "db' = db\<lparr>artifact_tasks := artifact_tasks db @ [row]\<rparr>"
    "taskCharge row \<le> available db (t_buyer_tenant_id row)"
    "t_task_id row \<notin> t_task_id ` set (artifact_tasks db)"
proof (cases "AVAILABLE_BALANCE_SQL db (t_buyer_tenant_id row)")
  case (Inl e)
  with assms that(1) show ?thesis by (simp add: RESERVE_ARTIFACT_TASK_SQL_def split: if_splits)
next
  case (Inr b)
  let ?open = "artifactReady db (t_artifact_id row) (t_buyer_tenant_id row) (t_created_at row) \<and>
    offerReservable db (t_offer_id row) (t_authorization_request_id row) (t_authorization_revision row)
      (t_supplier_tenant_id row) (t_buyer_tenant_id row) (t_created_at row) \<and>
    int (countRows (\<lambda>t. t_buyer_tenant_id t = t_buyer_tenant_id row \<and> taskHeld t) (artifact_tasks db)) < m"
  let ?ok = "castInteger (t_reserved_charge_micros row) \<le> b \<and>
    \<not> list_ex (\<lambda>t. t_task_id t = t_task_id row \<or> (t_buyer_tenant_id t = t_buyer_tenant_id row \<and>
       t_idempotency_key t = t_idempotency_key row)) (artifact_tasks db)"
  have run: "RESERVE_ARTIFACT_TASK_SQL row m db = (if ?open then
    (if ?ok then Inr (db\<lparr>artifact_tasks := artifact_tasks db @ [row]\<rparr>, 1) else Inr (db, 0)) else Inr (db, 0))"
    by (simp only: RESERVE_ARTIFACT_TASK_SQL_def Inr andThen_simps)
  show ?thesis
  proof (cases "?open \<and> ?ok")
    case True
    with run assms have "n = 1" "db' = db\<lparr>artifact_tasks := artifact_tasks db @ [row]\<rparr>" by simp_all
    moreover from True have "t_task_id row \<notin> t_task_id ` set (artifact_tasks db)"
      by (auto simp: list_ex_iff)
    ultimately show ?thesis using that(2) True AVAILABLE_BALANCE_exact [OF Inr]
      by (simp add: taskCharge_def)
  next
    case False
    then have "RESERVE_ARTIFACT_TASK_SQL row m db = Inr (db, 0)" using run by presburger
    with assms that(1) show ?thesis by simp
  qed
qed

lemma RESERVE_INFERENCE_solvent:
  assumes "solvent db" "RESERVE_INFERENCE_JOB_SQL row a r c db = Inr (db', n)"
    "j_status row = ''reserved''" "0 \<le> jobCharge row"
  shows "solvent db'"
  using assms(2)
proof (cases rule: RESERVE_INFERENCE_cases)
  case 2
  have held: "jobHeld row" using assms(3) by (simp add: jobHeld_def)
  note s = booksD [OF assms(1) [unfolded solvent_def]]
  have "0 \<le> available db' tenant" for tenant
    using "2"(3) s(9) [of tenant] by (auto simp: "2"(2) available_append_job [OF held])
  with s "2"(6) assms(3,4) show ?thesis by (auto simp: solvent_def books_def "2"(2) hasDebit_def)
qed (use assms(1) in simp)

lemma RESERVE_ARTIFACT_solvent:
  assumes "solvent db" "RESERVE_ARTIFACT_TASK_SQL row m db = Inr (db', n)"
    "t_status row = ''queued''" "0 \<le> taskCharge row"
  shows "solvent db'"
  using assms(2)
proof (cases rule: RESERVE_ARTIFACT_cases)
  case 2
  have held: "taskHeld row" using assms(3) by (simp add: taskHeld_def)
  note s = booksD [OF assms(1) [unfolded solvent_def]]
  have "0 \<le> available db' tenant" for tenant
    using "2"(3) s(9) [of tenant] by (auto simp: "2"(2) available_append_task [OF held])
  with s "2"(4) assms(3,4) show ?thesis by (auto simp: solvent_def books_def "2"(2) hasDebit_def)
qed (use assms(1) in simp)

section \<open>Ledger entries\<close>

lemma available_append_ledger:
  "available (db\<lparr>ledger_entries := ledger_entries db @ [l]\<rparr>) tenant =
     available db tenant + (if l_tenant_id l = tenant then signedAmount l else 0)"
  by (simp add: available_def ledgerTotal_def jobHolds_def taskHolds_def)

lemma books_credit:
  assumes "books E D db" "insertLedgerOrIgnore row db = Inr (db', n)" "l_direction row = ''credit''"
    "0 \<le> castInteger (l_amount_micros row)"
  shows "books E D db'"
proof (cases "ledgerConflict db row")
  case False
  with assms(2) have db': "db' = db\<lparr>ledger_entries := ledger_entries db @ [row]\<rparr>"
    by (simp add: insertLedgerOrIgnore_def)
  note s = booksD [OF assms(1)]
  have "0 \<le> available db' tenant" for tenant
    using s(9) [of tenant] assms(3,4) by (auto simp: db' available_append_ledger signedAmount_def)
  moreover have "hasDebit db i \<Longrightarrow> hasDebit db' i" for i by (auto simp: db' hasDebit_def)
  ultimately show ?thesis using s unfolding books_def by (simp add: db')
qed (use assms in \<open>simp add: insertLedgerOrIgnore_def\<close>)

text \<open>
  The debit of a settled id: with a fresh entry id the row exists afterwards, either the new one
  or the one the unique index already holds.
\<close>

lemma books_debit:
  assumes "books {} {i} db" "insertLedgerOrIgnore row db = Inr (db', n)"
    "l_job_id row = Some i" "l_entry_type row = ''inference-debit''" "l_direction row = ''debit''"
    "l_entry_id row \<notin> l_entry_id ` set (ledger_entries db)"
    "castInteger (l_amount_micros row) \<le> available db (l_tenant_id row)"
  shows "books {} {} db'"
proof (cases "ledgerConflict db row")
  case True
  with assms(2-6) have "db' = db" "hasDebit db i"
    by (auto simp: insertLedgerOrIgnore_def ledgerConflict_def list_ex_iff hasDebit_def image_iff)
  then show ?thesis using assms(1) by (auto simp: books_def)
next
  case False
  with assms(2) have db': "db' = db\<lparr>ledger_entries := ledger_entries db @ [row]\<rparr>"
    by (simp add: insertLedgerOrIgnore_def)
  note s = booksD [OF assms(1)]
  have "0 \<le> available db' tenant" for tenant
    using s(9) [of tenant] assms(5,7) by (auto simp: db' available_append_ledger signedAmount_def)
  moreover have "hasDebit db k \<Longrightarrow> hasDebit db' k" "hasDebit db' i" for k
    using assms(3,4) by (auto simp: db' hasDebit_def)
  ultimately show ?thesis using s unfolding books_def by (auto simp: db')
qed

section \<open>Settlement of an inference job\<close>

text \<open>Updating one row, found by its key, to a state that holds nothing.\<close>

lemma sum_without_key:
  fixes v :: "'r \<Rightarrow> int"
  assumes "distinct (map key rows)" "\<And>r. key (f r) = key r" "\<And>r. p r \<Longrightarrow> key r = k \<and> \<not> q (f r)"
    and "r0 \<in> set rows" "p r0"
  shows "sum_list (map v (filter q (updateRows p f rows))) =
    sum_list (map v (filter (\<lambda>r. key r \<noteq> k \<and> q r) rows))"
  using assms(1,4)
proof (induction rows)
  case (Cons r rows)
  have k: "key r0 = k" using assms(3,5) by simp
  show ?case
  proof (cases "r = r0")
    case True
    with Cons.prems k have none: "\<forall>x \<in> set rows. key x \<noteq> k" by (auto simp: image_iff)
    have "updateRows p f rows = rows" by (rule updateRows_none) (use none assms(3) in blast)
    moreover have "filter (\<lambda>r. key r \<noteq> k \<and> q r) rows = filter q rows"
      using none by (auto intro: filter_cong)
    ultimately show ?thesis using True k assms(3,5) by (simp add: updateRows_def)
  next
    case False
    with Cons.prems have "r0 \<in> set rows" by simp
    with Cons.prems k have "key r \<noteq> k" by (auto simp: rev_image_eqI)
    moreover from this have "\<not> p r" using assms(3) by blast
    ultimately show ?thesis using Cons.IH [OF _ \<open>r0 \<in> set rows\<close>] Cons.prems(1)
      by (simp add: updateRows_def)
  qed
qed simp

lemma sum_filter_le:
  fixes v :: "'r \<Rightarrow> int"
  assumes "\<forall>r \<in> set rows. 0 \<le> v r" "\<And>r. q r \<Longrightarrow> q' r"
  shows "sum_list (map v (filter q rows)) \<le> sum_list (map v (filter q' rows))"
  using assms(1) by (induction rows) (use assms(2) in \<open>auto intro: add_increasing\<close>)

lemma books_job_complete:
  assumes "books {} {} db" "\<And>j. j_job_id (g j) = j_job_id j \<and> jobCharge (g j) = jobCharge j"
    "\<And>j. j_status (g j) = ''completed'' \<Longrightarrow> j_status j = ''completed'' \<or> j_job_id j = i"
    "\<And>tenant. 0 \<le> available (db\<lparr>inference_jobs := map g (inference_jobs db)\<rparr>) tenant"
  shows "books {i} {} (db\<lparr>inference_jobs := map g (inference_jobs db)\<rparr>)"
proof -
  have g: "j_job_id \<circ> g = j_job_id" "jobCharge (g j) = jobCharge j" "j_job_id (g j) = j_job_id j" for j
    using assms(2) by (auto simp: fun_eq_iff)
  have st: "\<forall>j. j_status (g j) = ''completed'' \<longrightarrow> j_job_id j \<noteq> i \<longrightarrow> j_status j = ''completed''"
    using assms(3) by blast
  show ?thesis using booksD [OF assms(1)] assms(4) st unfolding books_def
    by (simp add: g hasDebit_def)
qed

lemma books_task_complete:
  assumes "books {} {} db" "\<And>t. t_task_id (h t) = t_task_id t \<and> taskCharge (h t) = taskCharge t"
    "\<And>t. t_status (h t) = ''completed'' \<Longrightarrow> t_status t = ''completed'' \<or> t_task_id t = i"
    "\<And>tenant. 0 \<le> available (db\<lparr>artifact_tasks := map h (artifact_tasks db)\<rparr>) tenant"
  shows "books {i} {} (db\<lparr>artifact_tasks := map h (artifact_tasks db)\<rparr>)"
proof -
  have h: "t_task_id \<circ> h = t_task_id" "taskCharge (h t) = taskCharge t" "t_task_id (h t) = t_task_id t" for t
    using assms(2) by (auto simp: fun_eq_iff)
  have st: "\<forall>t. t_status (h t) = ''completed'' \<longrightarrow> t_task_id t \<noteq> i \<longrightarrow> t_status t = ''completed''"
    using assms(3) by blast
  show ?thesis using booksD [OF assms(1)] assms(4) st unfolding books_def
    by (simp add: h hasDebit_def)
qed

lemma COMPLETE_INFERENCE_cases:
  assumes "books {} {} db" "COMPLETE_INFERENCE_JOB_SQL x db = Inr (db', n)"
  obtains "db' = db"
  | "books {is_jobId x} {} db'" "ledger_entries db' = ledger_entries db"
    "castInteger (buyerChargeMicros (is_amounts x)) \<le> available db' (is_tenantId x)"
    "\<exists>j \<in> set (inference_jobs db'). jobSettled x j" "artifact_tasks db' = artifact_tasks db"
    "artifact_task_evidence db' = artifact_task_evidence db"
proof -
  let ?i = "is_jobId x" and ?t = "is_tenantId x" and ?c = "castInteger (buyerChargeMicros (is_amounts x))"
  from assms(2) obtain b where b: "gateBalance (\<lambda>j. j_job_id j \<noteq> ?i) (\<lambda>_. True) db ?t = Inr b"
    unfolding COMPLETE_INFERENCE_JOB_SQL_def by auto
  let ?p = "\<lambda>j. j_job_id j = ?i \<and> j_status j = ''running'' \<and>
    gtNull (j_reservation_expires_at j) (is_clock x) \<and> jobCharge j \<ge> ?c \<and> b \<ge> ?c"
  have db': "db' = db\<lparr>inference_jobs := updateRows ?p (completedJob x) (inference_jobs db)\<rparr>"
    "n = countRows ?p (inference_jobs db)"
    using assms(2) b unfolding COMPLETE_INFERENCE_JOB_SQL_def updateJobs_def Let_def by simp_all
  have keeps: "j_job_id (completedJob x j) = j_job_id j" "j_buyer_tenant_id (completedJob x j) = j_buyer_tenant_id j"
    "jobCharge (completedJob x j) = jobCharge j" "\<not> jobHeld (completedJob x j)"
    "j_status (completedJob x j) = ''completed''" for j
    by (simp_all add: completedJob_def jobCharge_def jobHeld_def split: prod.split)
  note s = booksD [OF assms(1)]
  show ?thesis
  proof (cases "\<exists>j \<in> set (inference_jobs db). ?p j")
    case False
    then have "updateRows ?p (completedJob x) (inference_jobs db) = inference_jobs db"
      by (rule updateRows_none)
    with db' that(1) show ?thesis by simp
  next
    case True
    then obtain j where j: "j \<in> set (inference_jobs db)" "?p j" by blast
    have holds: "jobHolds db' tenant = sum_list (map jobCharge (filter (\<lambda>r. j_job_id r \<noteq> ?i \<and>
        j_buyer_tenant_id r = tenant \<and> jobHeld r) (inference_jobs db)))" for tenant
      unfolding jobHolds_def db'(1) using j
      by (simp, intro sum_without_key [OF s(1)]) (auto simp: keeps)
    have "jobHolds db' tenant \<le> jobHolds db tenant" for tenant
      unfolding holds by (subst jobHolds_def) (rule sum_filter_le [OF s(3)], blast)
    then have nonneg: "0 \<le> available db' tenant" for tenant
      using s(9) [of tenant] by (simp add: available_def ledgerTotal_def taskHolds_def db') (smt (verit))
    have "b = available db' ?t"
      using gateBalance_exact [OF b] holds [of ?t]
      by (simp add: available_def ledgerTotal_def taskHolds_def db' conj_commute conj_left_commute)
    with j have c: "?c \<le> available db' ?t" by simp
    have "completedJob x j \<in> set (inference_jobs db')" using j by (auto simp: db' updateRows_def)
    then have written: "\<exists>j \<in> set (inference_jobs db'). jobSettled x j"
      using j(2) by (intro bexI) (auto simp: completedJob_def jobSettled_def split: prod.split)
    have "books {?i} {} db'"
      unfolding db'(1) updateRows_def using nonneg
      by (intro books_job_complete [OF assms(1)]) (auto simp: keeps db'(1) updateRows_def)
    with that(2) c written show ?thesis by (simp add: db')
  qed
qed

lemma usage_sameBooks: "insertInferenceUsage x db = Inr (db', n) \<Longrightarrow> sameBooks db db'"
  by (auto simp: insertInferenceUsage_def insertUsage_def sameBooks_def split: prod.splits if_splits)

lemma audit_sameBooks: "guardedInferenceAuditInsert x db = Inr (db', n) \<Longrightarrow> sameBooks db db'"
  by (auto simp: guardedInferenceAuditInsert_def insertAudit_def sameBooks_def split: if_splits)

lemma evidenceRow_keys [simp]:
  "se_job_id (evidenceRow x) = is_jobId x" "se_evidence_digest (evidenceRow x) = is_evidenceDigest x"
  by (simp_all add: evidenceRow_def split: prod.split)

lemma insertServiceEvidence_cases:
  assumes "insertServiceEvidence x db = Inr (db', n)"
  obtains "db' = db" "\<not> (\<exists>j \<in> set (inference_jobs db). jobSettled x j)"
  | "db' = db\<lparr>service_evidence := service_evidence db @ [evidenceRow x]\<rparr>"
    "\<exists>j \<in> set (inference_jobs db). jobSettled x j"
    "\<forall>r \<in> set (service_evidence db). se_job_id r \<noteq> is_jobId x"
  using assms unfolding insertServiceEvidence_def by (auto simp: list_ex_iff split: if_splits)

lemma available_evidence [simp]:
  "available (db\<lparr>service_evidence := es\<rparr>) = available db"
  "available (db\<lparr>artifact_task_evidence := ts\<rparr>) = available db"
  by (simp_all add: available_def ledgerTotal_def jobHolds_def taskHolds_def fun_eq_iff)

lemma books_evidence:
  assumes "books {i} {} db" "se_job_id e = i"
    "\<forall>t \<in> set (artifact_tasks db). t_status t = ''completed'' \<longrightarrow>
      (\<exists>r \<in> set (artifact_task_evidence db). te_task_id r = t_task_id t)"
  shows "books {} {i} (db\<lparr>service_evidence := service_evidence db @ [e]\<rparr>)"
  using booksD [OF assms(1)] assms(2,3) unfolding books_def by (auto simp: hasDebit_def)

lemma ledger_conflict_debit:
  assumes "hasDebit db i" "guardedInferenceLedgerInsert e t a i ''inference-debit'' d m c g db = Inr (db', n)"
  shows "db' = db"
  using assms by (auto simp: guardedInferenceLedgerInsert_def insertLedgerOrIgnore_def ledgerConflict_def
      settlementTypes_def hasDebit_def list_ex_iff split: if_splits)

lemma inference_credit:
  assumes "books E D db" "guardedInferenceLedgerInsert e t a i ty ''credit'' m c g db = Inr (db', n)"
    "0 \<le> castInteger m"
  shows "books E D db'"
  using assms by (auto simp: guardedInferenceLedgerInsert_def split: if_splits intro: books_credit)

lemma settlement_batch_unfold:
  assumes "batch (settlementStatements x) db = Inr (db', ns)"
  obtains db1 db2 db3 db4 db5 db6 n1 n2 n3 n4 n5 n6 ns' where
    "COMPLETE_INFERENCE_JOB_SQL x db = Inr (db1, n1)" "insertInferenceUsage x db1 = Inr (db2, n2)"
    "insertServiceEvidence x db2 = Inr (db3, n3)"
    "guardedInferenceLedgerInsert (is_debitId x) (is_tenantId x) (''buyer-'' @ is_tenantId x) (is_jobId x)
        ''inference-debit'' ''debit'' (buyerChargeMicros (is_amounts x)) (is_completedAt x)
        (is_evidenceDigest x) db3 = Inr (db4, n4)"
    "guardedInferenceLedgerInsert (is_creditId x) (is_supplierTenantId x)
        (''supplier-'' @ is_supplierTenantId x) (is_jobId x) ''supplier-credit'' ''credit''
        (supplierCreditMicros (is_amounts x)) (is_completedAt x) (is_evidenceDigest x) db4 = Inr (db5, n5)"
    "guardedInferenceAuditInsert x db5 = Inr (db6, n6)"
    "(if platformFeeMicros (is_amounts x) \<noteq> ''0'' then
        guardedInferenceLedgerInsert (is_feeId x) ''platform'' ''platform-fees'' (is_jobId x)
        ''platform-fee'' ''credit'' (platformFeeMicros (is_amounts x)) (is_completedAt x)
        (is_evidenceDigest x) db6 else Inr (db6, 0)) = Inr (db', ns')"
  using assms unfolding settlementStatements_def
  by (cases "platformFeeMicros (is_amounts x) = ''0''") (auto simp: case_prod_beta)

lemma settlement_debit_written:
  assumes "solvent db" "COMPLETE_INFERENCE_JOB_SQL x db = Inr (db1, n1)"
    "insertInferenceUsage x db1 = Inr (db2, n2)" "insertServiceEvidence x db2 = Inr (db3, n3)"
    "guardedInferenceLedgerInsert (is_debitId x) (is_tenantId x) (''buyer-'' @ is_tenantId x) (is_jobId x)
        ''inference-debit'' ''debit'' (buyerChargeMicros (is_amounts x)) (is_completedAt x)
        (is_evidenceDigest x) db3 = Inr (db4, n4)"
    "is_debitId x \<notin> l_entry_id ` set (ledger_entries db)"
  shows "solvent db4"
  using assms(1) [unfolded solvent_def] assms(2)
proof (cases rule: COMPLETE_INFERENCE_cases)
  case 1
  note same = usage_sameBooks [OF assms(3)]
  have b2: "books {} {} db2" using assms(1) books_cong [OF same] by (simp add: solvent_def "1")
  show ?thesis using assms(4)
  proof (cases rule: insertServiceEvidence_cases)
    case 1
    show ?thesis
    proof (cases "evidenceRecorded db3 (is_jobId x) (is_evidenceDigest x)")
      case True
      then have "hasDebit db3 (is_jobId x)"
        using booksD(7) [OF b2] "1" by (auto simp: evidenceRecorded_def list_ex_iff)
      with ledger_conflict_debit [OF _ assms(5)] b2 "1" show ?thesis by (simp add: solvent_def)
    next
      case False
      with assms(5) b2 "1" show ?thesis by (simp add: solvent_def guardedInferenceLedgerInsert_def)
    qed
  next
    case 2
    with booksD(5) [OF b2] have False by (auto simp: jobSettled_def)
    then show ?thesis ..
  qed
next
  case 2
  note same = usage_sameBooks [OF assms(3)]
  have b2: "books {is_jobId x} {} db2" using "2"(1) books_cong [OF same] by simp
  have tables: "inference_jobs db2 = inference_jobs db1" "ledger_entries db2 = ledger_entries db"
    "available db2 = available db1" "artifact_tasks db2 = artifact_tasks db"
    "artifact_task_evidence db2 = artifact_task_evidence db"
    using same available_cong [OF same] "2"(2,5,6) by (simp_all add: sameBooks_def)
  from assms(4) have e: "db3 = db2\<lparr>service_evidence := service_evidence db2 @ [evidenceRow x]\<rparr>"
  proof (cases rule: insertServiceEvidence_cases)
    case 1
    with "2"(4) tables(1) have False by simp
    then show ?thesis ..
  qed
  have "books {} {is_jobId x} db3"
    unfolding e using b2 booksD(6) [OF assms(1) [unfolded solvent_def]] tables
    by (intro books_evidence) auto
  moreover have "evidenceRecorded db3 (is_jobId x) (is_evidenceDigest x)"
    by (simp add: e evidenceRecorded_def)
  ultimately show ?thesis
    unfolding solvent_def using assms(5,6) "2"(3) tables e
    by (intro books_debit) (auto simp: guardedInferenceLedgerInsert_def)
qed

lemma settlement_solvent:
  assumes "solvent db" "batch (settlementStatements x) db = Inr (db', ns)"
    "is_debitId x \<notin> l_entry_id ` set (ledger_entries db)"
    "0 \<le> castInteger (supplierCreditMicros (is_amounts x))" "0 \<le> castInteger (platformFeeMicros (is_amounts x))"
  shows "solvent db'"
  using assms(2)
proof (rule settlement_batch_unfold, goal_cases)
  case (1 db1 db2 db3 db4 db5 db6 n1 n2 n3 n4 n5 n6 ns')
  have "solvent db4" using settlement_debit_written [OF assms(1) "1"(1-4) assms(3)] .
  then have "books {} {} db5" using "1"(5) assms(4) unfolding solvent_def by (rule inference_credit)
  then have "books {} {} db6" using books_cong [OF audit_sameBooks [OF "1"(6)]] by simp
  with "1"(7) assms(5) show ?case
    unfolding solvent_def by (auto split: if_splits intro: inference_credit)
qed

section \<open>Settlement of an artifact task\<close>

lemma COMPLETE_ARTIFACT_cases:
  assumes "books {} {} db" "COMPLETE_ARTIFACT_TASK_SQL x db = Inr (db', n)"
  obtains "db' = db"
  | "books {t_task_id (ts_task x)} {} db'" "ledger_entries db' = ledger_entries db"
    "castInteger (buyerChargeMicros (ts_amounts x)) \<le> available db' (t_buyer_tenant_id (ts_task x))"
    "\<exists>t \<in> set (artifact_tasks db'). taskSettled x t" "inference_jobs db' = inference_jobs db"
    "service_evidence db' = service_evidence db"
proof -
  let ?i = "t_task_id (ts_task x)" and ?b = "t_buyer_tenant_id (ts_task x)"
    and ?c = "castInteger (buyerChargeMicros (ts_amounts x))"
  from assms(2) obtain b where b: "gateBalance (\<lambda>_. True) (\<lambda>t. t_task_id t \<noteq> ?i) db ?b = Inr b"
    unfolding COMPLETE_ARTIFACT_TASK_SQL_def Let_def by auto
  let ?p = "\<lambda>t. leaseHeld ?i (ts_supplierTenantId x) (ts_leaseDigest x) (ts_clock x) t \<and>
         t_attempt t = t_attempt (ts_task x) \<and> t_completed_segments t = t_completed_segments (ts_task x) \<and>
         eqNull (t_total_segments t) (t_total_segments (ts_task x)) \<and>
         t_processed_bytes t = t_processed_bytes (ts_task x) \<and>
         eqNull (t_input_tokens t) (t_input_tokens (ts_task x)) \<and>
         eqNull (t_output_tokens t) (t_output_tokens (ts_task x)) \<and>
         eqNull (t_total_tokens t) (t_total_tokens (ts_task x)) \<and> taskCharge t \<ge> ?c \<and> b \<ge> ?c"
  have db': "db' = db\<lparr>artifact_tasks := updateRows ?p (completedTask x) (artifact_tasks db)\<rparr>"
    using assms(2) b unfolding COMPLETE_ARTIFACT_TASK_SQL_def updateTasks_def Let_def by simp
  have keeps: "t_task_id (completedTask x t) = t_task_id t" "t_buyer_tenant_id (completedTask x t) = t_buyer_tenant_id t"
    "taskCharge (completedTask x t) = taskCharge t" "\<not> taskHeld (completedTask x t)"
    "t_supplier_tenant_id (completedTask x t) = t_supplier_tenant_id t" for t
    by (simp_all add: completedTask_def taskCharge_def taskHeld_def clearInstruction_def clearLease_def)
  have pid: "?p t \<Longrightarrow> t_task_id t = ?i \<and> t_supplier_tenant_id t = ts_supplierTenantId x" for t
    by (simp add: leaseHeld_def)
  note s = booksD [OF assms(1)]
  show ?thesis
  proof (cases "\<exists>t \<in> set (artifact_tasks db). ?p t")
    case False
    then have "updateRows ?p (completedTask x) (artifact_tasks db) = artifact_tasks db"
      by (rule updateRows_none)
    with db' that(1) show ?thesis by simp
  next
    case True
    then obtain t where t: "t \<in> set (artifact_tasks db)" "?p t" by blast
    have holds: "taskHolds db' tenant = sum_list (map taskCharge (filter (\<lambda>r. t_task_id r \<noteq> ?i \<and>
        t_buyer_tenant_id r = tenant \<and> taskHeld r) (artifact_tasks db)))" for tenant
      unfolding taskHolds_def db' using t
      by (simp, intro sum_without_key [OF s(2)]) (auto simp: keeps leaseHeld_def)
    have "taskHolds db' tenant \<le> taskHolds db tenant" for tenant
      unfolding holds by (subst taskHolds_def) (rule sum_filter_le [OF s(4)], blast)
    moreover have same: "ledgerTotal db' tenant = ledgerTotal db tenant" "jobHolds db' tenant = jobHolds db tenant" for tenant
      by (simp_all add: ledgerTotal_def jobHolds_def db')
    ultimately have nonneg: "0 \<le> available db' tenant" for tenant
      using s(9) [of tenant] by (simp add: available_def) (smt (verit))
    have "b = available db' ?b"
      using gateBalance_exact [OF b] holds [of ?b] same
      by (simp add: available_def jobHolds_def conj_commute conj_left_commute)
    with t have c: "?c \<le> available db' ?b" by simp
    have "completedTask x t \<in> set (artifact_tasks db')" using t by (auto simp: db' updateRows_def)
    then have written: "\<exists>t \<in> set (artifact_tasks db'). taskSettled x t"
      using pid [OF t(2)] by (intro bexI) (auto simp: completedTask_def taskSettled_def clearInstruction_def
        clearLease_def)
    have "books {?i} {} db'"
      unfolding db' updateRows_def using nonneg
      by (intro books_task_complete [OF assms(1)]) (auto simp: keeps db' updateRows_def leaseHeld_def)
    with that(2) c written show ?thesis by (simp add: db')
  qed
qed

lemma taskEvidenceRow_keys [simp]:
  "te_task_id (taskEvidenceRow x) = t_task_id (ts_task x)"
  "te_evidence_digest (taskEvidenceRow x) = ts_evidenceDigest x"
  by (simp_all add: taskEvidenceRow_def Let_def)

lemma insertTaskEvidence_cases:
  assumes "insertTaskEvidence x db = Inr (db', n)"
  obtains "db' = db" "\<not> (\<exists>t \<in> set (artifact_tasks db). taskSettled x t)"
  | "db' = db\<lparr>artifact_task_evidence := artifact_task_evidence db @ [taskEvidenceRow x]\<rparr>"
    "\<exists>t \<in> set (artifact_tasks db). taskSettled x t"
    "\<forall>r \<in> set (artifact_task_evidence db). te_task_id r \<noteq> t_task_id (ts_task x)"
  using assms unfolding insertTaskEvidence_def by (auto simp: list_ex_iff split: if_splits)

lemma books_task_evidence:
  assumes "books {i} {} db" "te_task_id e = i"
    "\<forall>j \<in> set (inference_jobs db). j_status j = ''completed'' \<longrightarrow>
      (\<exists>r \<in> set (service_evidence db). se_job_id r = j_job_id j)"
  shows "books {} {i} (db\<lparr>artifact_task_evidence := artifact_task_evidence db @ [e]\<rparr>)"
  using booksD [OF assms(1)] assms(2,3) unfolding books_def by (auto simp: hasDebit_def)

lemma task_ledger_conflict_debit:
  assumes "hasDebit db i" "guardedLedgerInsert e t a i ''inference-debit'' d m c g db = Inr (db', n)"
  shows "db' = db"
  using assms by (auto simp: guardedLedgerInsert_def insertLedgerOrIgnore_def ledgerConflict_def
      settlementTypes_def hasDebit_def list_ex_iff split: if_splits)

lemma task_credit:
  assumes "books E D db" "guardedLedgerInsert e t a i ty ''credit'' m c g db = Inr (db', n)"
    "0 \<le> castInteger m"
  shows "books E D db'"
  using assms by (auto simp: guardedLedgerInsert_def split: if_splits intro: books_credit)

lemma task_tail_sameBooks:
  "insertTaskUsage x db = Inr (db', n) \<Longrightarrow> sameBooks db db'"
  "insertTaskAudit x db = Inr (db', n) \<Longrightarrow> sameBooks db db'"
  "extendArtifact x db = Inr (db', n) \<Longrightarrow> sameBooks db db'"
  by (auto simp: insertTaskUsage_def insertUsage_def insertTaskAudit_def insertAudit_def extendArtifact_def
      updateArtifacts_def sameBooks_def Let_def split: if_splits)

lemma task_batch_unfold:
  assumes "batch (taskSettlementStatements x) db = Inr (db', ns)"
  obtains db1 db2 db3 db4 db5 db6 db7 n1 n2 n3 n4 n5 n6 n7 ns' where
    "COMPLETE_ARTIFACT_TASK_SQL x db = Inr (db1, n1)" "insertTaskEvidence x db1 = Inr (db2, n2)"
    "guardedLedgerInsert (ts_debitId x) (t_buyer_tenant_id (ts_task x))
        (''buyer-'' @ t_buyer_tenant_id (ts_task x)) (t_task_id (ts_task x))
        ''inference-debit'' ''debit'' (buyerChargeMicros (ts_amounts x)) (ts_now x)
        (ts_evidenceDigest x) db2 = Inr (db3, n3)"
    "guardedLedgerInsert (ts_creditId x) (t_supplier_tenant_id (ts_task x))
        (''supplier-'' @ t_supplier_tenant_id (ts_task x)) (t_task_id (ts_task x)) ''supplier-credit'' ''credit''
        (supplierCreditMicros (ts_amounts x)) (ts_now x) (ts_evidenceDigest x) db3 = Inr (db4, n4)"
    "insertTaskUsage x db4 = Inr (db5, n5)" "insertTaskAudit x db5 = Inr (db6, n6)"
    "extendArtifact x db6 = Inr (db7, n7)"
    "(if platformFeeMicros (ts_amounts x) \<noteq> ''0'' then
        guardedLedgerInsert (ts_feeId x) ''platform'' ''platform-fees'' (t_task_id (ts_task x))
        ''platform-fee'' ''credit'' (platformFeeMicros (ts_amounts x)) (ts_now x)
        (ts_evidenceDigest x) db7 else Inr (db7, 0)) = Inr (db', ns')"
  using assms unfolding taskSettlementStatements_def Let_def
  by (cases "platformFeeMicros (ts_amounts x) = ''0''") (auto simp: case_prod_beta)

lemma task_debit_written:
  assumes "solvent db" "COMPLETE_ARTIFACT_TASK_SQL x db = Inr (db1, n1)"
    "insertTaskEvidence x db1 = Inr (db2, n2)"
    "guardedLedgerInsert (ts_debitId x) (t_buyer_tenant_id (ts_task x))
        (''buyer-'' @ t_buyer_tenant_id (ts_task x)) (t_task_id (ts_task x))
        ''inference-debit'' ''debit'' (buyerChargeMicros (ts_amounts x)) (ts_now x)
        (ts_evidenceDigest x) db2 = Inr (db3, n3)"
    "ts_debitId x \<notin> l_entry_id ` set (ledger_entries db)"
  shows "solvent db3"
  using assms(1) [unfolded solvent_def] assms(2)
proof (cases rule: COMPLETE_ARTIFACT_cases)
  case 1
  then have b1: "books {} {} db1" using assms(1) by (simp add: solvent_def)
  show ?thesis using assms(3)
  proof (cases rule: insertTaskEvidence_cases)
    case 1
    show ?thesis
    proof (cases "taskEvidenceRecorded db2 (t_task_id (ts_task x)) (ts_evidenceDigest x)")
      case True
      then have "hasDebit db2 (t_task_id (ts_task x))"
        using booksD(8) [OF b1] "1" by (auto simp: taskEvidenceRecorded_def list_ex_iff)
      with task_ledger_conflict_debit [OF _ assms(4)] b1 "1" show ?thesis by (simp add: solvent_def)
    next
      case False
      with assms(4) b1 "1" show ?thesis by (simp add: solvent_def guardedLedgerInsert_def)
    qed
  next
    case 2
    with booksD(6) [OF b1] have False by (auto simp: taskSettled_def)
    then show ?thesis ..
  qed
next
  case 2
  from assms(3) have e: "db2 = db1\<lparr>artifact_task_evidence := artifact_task_evidence db1 @ [taskEvidenceRow x]\<rparr>"
  proof (cases rule: insertTaskEvidence_cases)
    case 1
    with "2"(4) have False by simp
    then show ?thesis ..
  qed
  have "books {} {t_task_id (ts_task x)} db2"
    unfolding e using "2"(1,5,6) booksD(5) [OF assms(1) [unfolded solvent_def]]
    by (intro books_task_evidence) auto
  moreover have "taskEvidenceRecorded db2 (t_task_id (ts_task x)) (ts_evidenceDigest x)"
    by (simp add: e taskEvidenceRecorded_def)
  ultimately show ?thesis
    unfolding solvent_def using assms(4,5) "2"(2,3) e
    by (intro books_debit) (auto simp: guardedLedgerInsert_def)
qed

lemma task_settlement_solvent:
  assumes "solvent db" "batch (taskSettlementStatements x) db = Inr (db', ns)"
    "ts_debitId x \<notin> l_entry_id ` set (ledger_entries db)"
    "0 \<le> castInteger (supplierCreditMicros (ts_amounts x))" "0 \<le> castInteger (platformFeeMicros (ts_amounts x))"
  shows "solvent db'"
  using assms(2)
proof (rule task_batch_unfold, goal_cases)
  case (1 db1 db2 db3 db4 db5 db6 db7 n1 n2 n3 n4 n5 n6 n7 ns')
  have "solvent db3" using task_debit_written [OF assms(1) "1"(1-3) assms(3)] .
  then have "books {} {} db4" using "1"(4) assms(4) unfolding solvent_def by (rule task_credit)
  then have "books {} {} db7"
    using books_cong [OF task_tail_sameBooks(1) [OF "1"(5)]] books_cong [OF task_tail_sameBooks(2) [OF "1"(6)]]
      books_cong [OF task_tail_sameBooks(3) [OF "1"(7)]] by simp
  with "1"(8) assms(5) show ?case
    unfolding solvent_def by (auto split: if_splits intro: task_credit)
qed

end
