(* ===== verification/Lifecycle.thy ===== *)
theory Lifecycle
  imports ArtifactTasks
begin

text \<open>
  Write gates of the authorization life cycle: administrator review
  (\<^verbatim>\<open>apps/web/server/review-invariants.ts\<close>), withdrawal, revocation and credential rotation
  (\<^verbatim>\<open>authorization-lifecycle-invariants.ts\<close>), expiry of pending requests
  (\<^verbatim>\<open>authorization-invariants.ts\<close>) and the batches in which \<^verbatim>\<open>marketplace-service.ts\<close> runs them.
  A claim row in \<open>idempotency_keys\<close> with a fresh operation token serializes each transition.
\<close>

section \<open>Updates and guarded inserts\<close>

definition updateAuthorizations ::
  "(AuthorizationRow \<Rightarrow> bool) \<Rightarrow> (AuthorizationRow \<Rightarrow> AuthorizationRow) \<Rightarrow> stmt" where
  "updateAuthorizations p f db =
     Inr (db\<lparr>authorization_requests := updateRows p f (authorization_requests db)\<rparr>,
          countRows p (authorization_requests db))"

definition updateSuppliers :: "(SupplierRow \<Rightarrow> bool) \<Rightarrow> (SupplierRow \<Rightarrow> SupplierRow) \<Rightarrow> stmt" where
  "updateSuppliers p f db = Inr (db\<lparr>suppliers := updateRows p f (suppliers db)\<rparr>, countRows p (suppliers db))"

text \<open>The primary key and the two unique indexes of the event store.\<close>

definition insertEvent :: "EventRow \<Rightarrow> stmt" where
  "insertEvent row db =
     (if list_ex (\<lambda>e. me_event_id e = me_event_id row \<or>
          (me_tenant_id e = me_tenant_id row \<and> me_aggregate_type e = me_aggregate_type row \<and>
           me_aggregate_id e = me_aggregate_id row \<and> me_aggregate_version e = me_aggregate_version row) \<or>
          (me_tenant_id e = me_tenant_id row \<and> me_causation_id e = me_causation_id row))
        (marketplace_events db)
      then Inl UniqueViolation
      else Inr (db\<lparr>marketplace_events := marketplace_events db @ [row]\<rparr>, 1))"

definition insertAuditOrIgnore :: "AuditRow \<Rightarrow> stmt" where
  "insertAuditOrIgnore row db =
     (if list_ex (\<lambda>r. ad_audit_id r = ad_audit_id row) (audit_events db) then Inr (db, 0)
      else Inr (db\<lparr>audit_events := audit_events db @ [row]\<rparr>, 1))"

definition eraseCredential :: "AuthorizationRow \<Rightarrow> AuthorizationRow" where
  "eraseCredential ar = ar\<lparr>ar_encrypted_gateway_token := [], ar_gateway_token_iv := [],
     ar_gateway_token_digest := None\<rparr>"

definition commandBoundElsewhere :: "database \<Rightarrow> string \<Rightarrow> string \<Rightarrow> string \<Rightarrow> string \<Rightarrow> bool" where
  "commandBoundElsewhere db tenant operation key resource = list_ex (\<lambda>k. k_tenant_id k = tenant \<and>
     k_operation k = operation \<and> k_idempotency_key k = key \<and> k_resource_id k \<noteq> resource)
     (idempotency_keys db)"

text \<open>The lookup digests of a token: the legacy digest and one (version, key, digest) per key.\<close>

definition authorizationLookupPredicate ::
  "string \<Rightarrow> (int \<times> string \<times> string) list \<Rightarrow> AuthorizationRow \<Rightarrow> bool" where
  "authorizationLookupPredicate legacy lookups ar =
     ((ar_gateway_token_digest_version ar = 1 \<and> ar_gateway_token_digest ar = Some legacy) \<or>
      list_ex (\<lambda>(v, k, d). ar_gateway_token_digest_version ar = v \<and>
        ar_gateway_token_lookup_key_id ar = k \<and> ar_gateway_token_digest ar = Some d) lookups)"

section \<open>Review\<close>

definition pendingReview :: "string \<Rightarrow> AuthorizationRow \<Rightarrow> bool" where
  "pendingReview requestId ar \<longleftrightarrow> ar_request_id ar = requestId \<and> ar_status ar = ''pending'' \<and>
     ar_review_command_id ar = None"

definition reviewClaimRow :: "string \<Rightarrow> string \<Rightarrow> string \<Rightarrow> IdempotencyRow" where
  "reviewClaimRow requestId operationToken now =
     \<lparr>k_tenant_id = ''platform'', k_operation = ''authorization.review-target'',
      k_idempotency_key = requestId, k_resource_id = operationToken, k_created_at = now\<rparr>"

definition CLAIM_AUTHORIZATION_REVIEW_TARGET_SQL ::
  "string \<Rightarrow> string \<Rightarrow> string \<Rightarrow> string \<Rightarrow> string \<Rightarrow> string \<Rightarrow> stmt" where
  "CLAIM_AUTHORIZATION_REVIEW_TARGET_SQL requestId operationToken now reviewerTenant commandId binding db =
     (if list_ex (\<lambda>ar. pendingReview requestId ar \<and> ar_tenant_id ar \<noteq> reviewerTenant)
           (authorization_requests db) \<and>
         \<not> commandBoundElsewhere db reviewerTenant ''authorization.review'' commandId binding
      then insertKeyOrIgnore (reviewClaimRow requestId operationToken now) db
      else Inr (db, 0))"

definition claimAuthorizationReviewTargetWithLookupLimitSql ::
  "string \<Rightarrow> string \<Rightarrow> string \<Rightarrow> string \<Rightarrow> string \<Rightarrow> string \<Rightarrow> string \<Rightarrow>
     (int \<times> string \<times> string) list \<Rightarrow> int \<Rightarrow> stmt" where
  "claimAuthorizationReviewTargetWithLookupLimitSql requestId operationToken now reviewerTenant
     commandId binding legacy lookups maximum db =
     (if list_ex (\<lambda>ar. pendingReview requestId ar \<and> ar_tenant_id ar \<noteq> reviewerTenant)
           (authorization_requests db) \<and>
         int (countRows (\<lambda>e. ar_status e = ''approved'' \<and> now < ar_valid_until e \<and>
           authorizationLookupPredicate legacy lookups e) (authorization_requests db)) < maximum \<and>
         \<not> commandBoundElsewhere db reviewerTenant ''authorization.review'' commandId binding
      then insertKeyOrIgnore (reviewClaimRow requestId operationToken now) db
      else Inr (db, 0))"

definition reviewClaimed :: "database \<Rightarrow> string \<Rightarrow> string \<Rightarrow> bool" where
  "reviewClaimed db requestId operationToken =
     hasKey db ''platform'' ''authorization.review-target'' requestId operationToken"

definition BIND_AUTHORIZATION_REVIEW_COMMAND_SQL ::
  "string \<Rightarrow> string \<Rightarrow> string \<Rightarrow> string \<Rightarrow> string \<Rightarrow> string \<Rightarrow> stmt" where
  "BIND_AUTHORIZATION_REVIEW_COMMAND_SQL tenant commandId binding now requestId operationToken db =
     (if reviewClaimed db requestId operationToken
      then insertKeyOrIgnore \<lparr>k_tenant_id = tenant, k_operation = ''authorization.review'',
        k_idempotency_key = commandId, k_resource_id = binding, k_created_at = now\<rparr> db
      else Inr (db, 0))"

definition reviewedRow ::
  "string \<Rightarrow> string \<Rightarrow> string \<Rightarrow> string \<Rightarrow> string \<Rightarrow> AuthorizationRow \<Rightarrow> AuthorizationRow" where
  "reviewedRow status note actorId commandId now ar =
     ar\<lparr>ar_status := status, ar_review_note := Some note, ar_reviewed_by := Some actorId,
        ar_review_command_id := Some commandId, ar_reviewed_at := Some now, ar_updated_at := now\<rparr>"

definition REJECT_AUTHORIZATION_REQUEST_SQL ::
  "string \<Rightarrow> string \<Rightarrow> string \<Rightarrow> string \<Rightarrow> string \<Rightarrow> string \<Rightarrow> string \<Rightarrow> string \<Rightarrow> stmt" where
  "REJECT_AUTHORIZATION_REQUEST_SQL note actorId commandId now requestId operationToken tenant binding db =
     updateAuthorizations (\<lambda>ar. pendingReview requestId ar \<and>
         reviewClaimed db requestId operationToken \<and>
         hasKey db tenant ''authorization.review'' commandId binding)
       (\<lambda>ar. eraseCredential (reviewedRow ''rejected'' note actorId commandId now ar)) db"

definition supplierAt :: "database \<Rightarrow> string \<Rightarrow> string \<Rightarrow> int \<Rightarrow> bool" where
  "supplierAt db supplierId tenant version = list_ex (\<lambda>s. s_supplier_id s = supplierId \<and>
     s_tenant_id s = tenant \<and> s_version s = version) (suppliers db)"

definition APPROVE_AUTHORIZATION_REQUEST_SQL ::
  "string \<Rightarrow> string \<Rightarrow> string \<Rightarrow> string \<Rightarrow> string \<Rightarrow> string \<Rightarrow> string \<Rightarrow> int \<Rightarrow> string \<Rightarrow> string \<Rightarrow> string \<Rightarrow> stmt" where
  "APPROVE_AUTHORIZATION_REQUEST_SQL note actorId commandId now requestId supplierId supplierTenant
     version operationToken tenant binding db =
     updateAuthorizations (\<lambda>ar. pendingReview requestId ar \<and>
         supplierAt db supplierId supplierTenant version \<and>
         reviewClaimed db requestId operationToken \<and>
         hasKey db tenant ''authorization.review'' commandId binding)
       (reviewedRow ''approved'' note actorId commandId now) db"

definition reviewRecorded :: "database \<Rightarrow> string \<Rightarrow> string \<Rightarrow> string \<Rightarrow> bool" where
  "reviewRecorded db requestId status commandId = list_ex (\<lambda>ar. ar_request_id ar = requestId \<and>
     ar_status ar = status \<and> ar_review_command_id ar = Some commandId) (authorization_requests db)"

definition ACTIVATE_REVIEWED_SUPPLIER_SQL ::
  "int \<Rightarrow> string \<Rightarrow> string \<Rightarrow> string \<Rightarrow> int \<Rightarrow> string \<Rightarrow> string \<Rightarrow> string \<Rightarrow> stmt" where
  "ACTIVATE_REVIEWED_SUPPLIER_SQL newVersion now supplierId supplierTenant version requestId
     commandId operationToken db =
     updateSuppliers (\<lambda>s. s_supplier_id s = supplierId \<and> s_tenant_id s = supplierTenant \<and>
         s_version s = version \<and> reviewRecorded db requestId ''approved'' commandId \<and>
         reviewClaimed db requestId operationToken)
       (\<lambda>s. s\<lparr>s_status := ''active'', s_version := newVersion, s_updated_at := now\<rparr>) db"

definition guardedReviewEventInsert ::
  "EventRow \<Rightarrow> string \<Rightarrow> string \<Rightarrow> string \<Rightarrow> int \<Rightarrow> stmt" where
  "guardedReviewEventInsert event requestId commandId operationToken supplierVersion db =
     (if reviewRecorded db requestId ''approved'' commandId \<and>
         list_ex (\<lambda>s. s_supplier_id s = me_aggregate_id event \<and> s_tenant_id s = me_tenant_id event \<and>
           s_version s = supplierVersion \<and> s_status s = ''active'') (suppliers db) \<and>
         reviewClaimed db requestId operationToken
      then insertEvent event db else Inr (db, 0))"

definition guardedReviewAuditInsert ::
  "string \<Rightarrow> string \<Rightarrow> string \<Rightarrow> string \<Rightarrow> string \<Rightarrow> string \<Rightarrow> string \<Rightarrow> string \<Rightarrow> string \<Rightarrow> stmt" where
  "guardedReviewAuditInsert auditId tenant actorId status requestId commandId operationToken details now db =
     (if reviewRecorded db requestId status commandId \<and> reviewClaimed db requestId operationToken
      then insertAudit \<lparr>ad_audit_id = auditId, ad_tenant_id = tenant, ad_actor_id = actorId,
        ad_action = ''authorization.'' @ status, ad_resource_type = ''authorization-request'',
        ad_resource_id = requestId, ad_details_json = details, ad_occurred_at = now\<rparr> db
      else Inr (db, 0))"

text \<open>A review command: the reviewer, the request, and the values generated for it.\<close>

record ReviewCommand =
  rv_tenant :: string
  rv_actor :: string
  rv_requestId :: string
  rv_commandId :: string
  rv_token :: string
  rv_note :: string
  rv_now :: string
  rv_auditId :: string
  rv_details :: string

definition reviewBinding :: "ReviewCommand \<Rightarrow> string \<Rightarrow> string" where
  "reviewBinding r decision = rv_requestId r @ '':'' @ decision"

definition rejectBatch :: "ReviewCommand \<Rightarrow> stmt list" where
  "rejectBatch r = (let b = reviewBinding r ''reject'' in
     [CLAIM_AUTHORIZATION_REVIEW_TARGET_SQL (rv_requestId r) (rv_token r) (rv_now r) (rv_tenant r)
        (rv_commandId r) b,
      BIND_AUTHORIZATION_REVIEW_COMMAND_SQL (rv_tenant r) (rv_commandId r) b (rv_now r)
        (rv_requestId r) (rv_token r),
      REJECT_AUTHORIZATION_REQUEST_SQL (rv_note r) (rv_actor r) (rv_commandId r) (rv_now r)
        (rv_requestId r) (rv_token r) (rv_tenant r) b,
      guardedReviewAuditInsert (rv_auditId r) (rv_tenant r) (rv_actor r) ''rejected'' (rv_requestId r)
        (rv_commandId r) (rv_token r) (rv_details r) (rv_now r)])"

text \<open>The events carry the supplier from \<open>version\<close> to \<open>newVersion\<close>.\<close>

definition approveBatch ::
  "ReviewCommand \<Rightarrow> string \<Rightarrow> (int \<times> string \<times> string) list \<Rightarrow> int \<Rightarrow> string \<Rightarrow> string \<Rightarrow> int \<Rightarrow> int \<Rightarrow>
     EventRow list \<Rightarrow> stmt list" where
  "approveBatch r legacy lookups maximum supplierId supplierTenant version newVersion events =
     (let b = reviewBinding r ''approve'' in
     [claimAuthorizationReviewTargetWithLookupLimitSql (rv_requestId r) (rv_token r) (rv_now r)
        (rv_tenant r) (rv_commandId r) b legacy lookups maximum,
      BIND_AUTHORIZATION_REVIEW_COMMAND_SQL (rv_tenant r) (rv_commandId r) b (rv_now r)
        (rv_requestId r) (rv_token r),
      APPROVE_AUTHORIZATION_REQUEST_SQL (rv_note r) (rv_actor r) (rv_commandId r) (rv_now r)
        (rv_requestId r) supplierId supplierTenant version (rv_token r) (rv_tenant r) b,
      ACTIVATE_REVIEWED_SUPPLIER_SQL newVersion (rv_now r) supplierId supplierTenant version
        (rv_requestId r) (rv_commandId r) (rv_token r)] @
     map (\<lambda>e. guardedReviewEventInsert e (rv_requestId r) (rv_commandId r) (rv_token r) newVersion) events @
     [guardedReviewAuditInsert (rv_auditId r) (rv_tenant r) (rv_actor r) ''approved'' (rv_requestId r)
        (rv_commandId r) (rv_token r) (rv_details r) (rv_now r)])"

section \<open>Withdrawal, revocation, rotation\<close>

text \<open>
  A life-cycle command: the owner, the request and supplier rows it read, the operation and its
  bindings, and generated values. The target key is the request id and the revision read.
\<close>

record LifecycleCommand =
  lc_tenant :: string
  lc_actor :: string
  lc_supplierId :: string
  lc_supplierVersion :: int
  lc_requestId :: string
  lc_revision :: int
  lc_reason :: string
  lc_commandId :: string
  lc_binding :: string
  lc_token :: string
  lc_now :: string
  lc_details :: string

definition targetKey :: "LifecycleCommand \<Rightarrow> string" where
  "targetKey c = lc_requestId c @ '':'' @ numString (lc_revision c)"

definition lifecycleClaimRow :: "LifecycleCommand \<Rightarrow> IdempotencyRow" where
  "lifecycleClaimRow c = \<lparr>k_tenant_id = ''platform'', k_operation = ''authorization.lifecycle-target'',
     k_idempotency_key = targetKey c, k_resource_id = lc_token c, k_created_at = lc_now c\<rparr>"

definition lifecycleClaimed :: "database \<Rightarrow> LifecycleCommand \<Rightarrow> bool" where
  "lifecycleClaimed db c =
     hasKey db ''platform'' ''authorization.lifecycle-target'' (targetKey c) (lc_token c)"

definition CLAIM_AUTHORIZATION_LIFECYCLE_TARGET_SQL ::
  "string \<Rightarrow> string \<Rightarrow> LifecycleCommand \<Rightarrow> stmt" where
  "CLAIM_AUTHORIZATION_LIFECYCLE_TARGET_SQL status operation c db =
     (if list_ex (\<lambda>ar. list_ex (\<lambda>s. s_supplier_id s = ar_supplier_id ar \<and> s_tenant_id s = ar_tenant_id ar \<and>
            ar_request_id ar = lc_requestId c \<and> ar_tenant_id ar = lc_tenant c \<and>
            ar_supplier_id ar = lc_supplierId c \<and> ar_status ar = status \<and>
            ar_authorization_revision ar = lc_revision c \<and> s_version s = lc_supplierVersion c)
          (suppliers db)) (authorization_requests db) \<and>
        \<not> commandBoundElsewhere db (lc_tenant c) operation (lc_commandId c) (lc_binding c)
      then insertKeyOrIgnore (lifecycleClaimRow c) db
      else Inr (db, 0))"

definition BIND_AUTHORIZATION_LIFECYCLE_COMMAND_SQL :: "string \<Rightarrow> LifecycleCommand \<Rightarrow> stmt" where
  "BIND_AUTHORIZATION_LIFECYCLE_COMMAND_SQL operation c db =
     (if lifecycleClaimed db c
      then insertKeyOrIgnore \<lparr>k_tenant_id = lc_tenant c, k_operation = operation,
        k_idempotency_key = lc_commandId c, k_resource_id = lc_binding c, k_created_at = lc_now c\<rparr> db
      else Inr (db, 0))"

definition ownedAt :: "LifecycleCommand \<Rightarrow> string \<Rightarrow> AuthorizationRow \<Rightarrow> bool" where
  "ownedAt c status ar \<longleftrightarrow> ar_request_id ar = lc_requestId c \<and> ar_tenant_id ar = lc_tenant c \<and>
     ar_supplier_id ar = lc_supplierId c \<and> ar_status ar = status \<and>
     ar_authorization_revision ar = lc_revision c"

definition closedRow :: "string \<Rightarrow> LifecycleCommand \<Rightarrow> AuthorizationRow \<Rightarrow> AuthorizationRow" where
  "closedRow status c ar = (eraseCredential ar)\<lparr>ar_status := status,
     ar_authorization_revision := ar_authorization_revision ar + 1,
     ar_revoked_at := Some (lc_now c), ar_revocation_reason_code := Some (lc_reason c),
     ar_updated_at := lc_now c\<rparr>"

definition WITHDRAW_PENDING_AUTHORIZATION_SQL :: "LifecycleCommand \<Rightarrow> stmt" where
  "WITHDRAW_PENDING_AUTHORIZATION_SQL c db =
     updateAuthorizations (\<lambda>ar. ownedAt c ''pending'' ar \<and> lifecycleClaimed db c \<and>
         hasKey db (lc_tenant c) ''authorization.withdraw'' (lc_commandId c) (lc_binding c))
       (closedRow ''withdrawn'' c) db"

definition REVOKE_ACTIVE_AUTHORIZATION_SQL :: "LifecycleCommand \<Rightarrow> stmt" where
  "REVOKE_ACTIVE_AUTHORIZATION_SQL c db =
     updateAuthorizations (\<lambda>ar. ownedAt c ''approved'' ar \<and> lc_now c < ar_valid_until ar \<and>
         supplierAt db (lc_supplierId c) (lc_tenant c) (lc_supplierVersion c) \<and>
         lifecycleClaimed db c \<and>
         hasKey db (lc_tenant c) ''authorization.revoke'' (lc_commandId c) (lc_binding c))
       (closedRow ''revoked'' c) db"

definition revokedAt :: "database \<Rightarrow> string \<Rightarrow> int \<Rightarrow> bool" where
  "revokedAt db requestId revision = list_ex (\<lambda>ar. ar_request_id ar = requestId \<and>
     ar_status ar = ''revoked'' \<and> ar_authorization_revision ar = revision) (authorization_requests db)"

definition jobUnderAuthorization :: "database \<Rightarrow> string \<Rightarrow> JobRow \<Rightarrow> bool" where
  "jobUnderAuthorization db requestId j = (j_authorization_request_id j = Some requestId \<or>
     (j_authorization_request_id j = None \<and>
      list_ex (\<lambda>off. o_offer_id off = j_offer_id j \<and> o_authorization_request_id off = requestId)
        (capacity_offers db)))"

definition orElse :: "'a option \<Rightarrow> 'a \<Rightarrow> 'a option" where
  "orElse x d = (case x of None \<Rightarrow> Some d | Some v \<Rightarrow> Some v)"

definition FAIL_RESERVED_INFERENCE_FOR_REVOKED_AUTHORIZATION_SQL :: "string \<Rightarrow> string \<Rightarrow> int \<Rightarrow> stmt" where
  "FAIL_RESERVED_INFERENCE_FOR_REVOKED_AUTHORIZATION_SQL now requestId revision db =
     updateJobs (\<lambda>j. j_status j = ''reserved'' \<and> jobUnderAuthorization db requestId j \<and>
         revokedAt db requestId revision)
       (\<lambda>j. j\<lparr>j_status := ''failed'', j_reservation_expires_at := None,
          j_error_code := Some ''AUTHORIZATION_REVOKED'', j_completed_at := Some now,
          j_authorization_request_id := orElse (j_authorization_request_id j) requestId\<rparr>) db"

definition FAIL_QUEUED_ARTIFACTS_FOR_REVOKED_AUTHORIZATION_SQL :: "string \<Rightarrow> string \<Rightarrow> int \<Rightarrow> stmt" where
  "FAIL_QUEUED_ARTIFACTS_FOR_REVOKED_AUTHORIZATION_SQL now requestId revision db =
     updateTasks (\<lambda>t. t_authorization_request_id t = requestId \<and> t_status t = ''queued'' \<and>
         t_cancellation_requested_at t = None \<and> revokedAt db requestId revision)
       (\<lambda>t. (clearInstruction (clearLease t))\<lparr>t_status := ''failed'',
          t_error_code := Some ''AUTHORIZATION_REVOKED'', t_completed_at := Some now,
          t_updated_at := now\<rparr>) db"

definition CANCEL_LEASED_ARTIFACTS_FOR_REVOKED_AUTHORIZATION_SQL :: "string \<Rightarrow> string \<Rightarrow> int \<Rightarrow> stmt" where
  "CANCEL_LEASED_ARTIFACTS_FOR_REVOKED_AUTHORIZATION_SQL now requestId revision db =
     updateTasks (\<lambda>t. t_authorization_request_id t = requestId \<and> taskLeased t \<and>
         t_cancellation_requested_at t = None \<and> revokedAt db requestId revision)
       (\<lambda>t. (clearInstruction t)\<lparr>t_cancellation_requested_at := Some now,
          t_error_code := Some ''AUTHORIZATION_REVOKED_PENDING'', t_updated_at := now\<rparr>) db"

definition UPDATE_SUPPLIER_AFTER_AUTHORIZATION_REVOCATION_SQL :: "int \<Rightarrow> LifecycleCommand \<Rightarrow> stmt" where
  "UPDATE_SUPPLIER_AFTER_AUTHORIZATION_REVOCATION_SQL newVersion c db =
     updateSuppliers (\<lambda>s. s_supplier_id s = lc_supplierId c \<and> s_tenant_id s = lc_tenant c \<and>
         s_version s = lc_supplierVersion c \<and>
         list_ex (\<lambda>ar. ar_request_id ar = lc_requestId c \<and> ar_tenant_id ar = lc_tenant c \<and>
           ar_supplier_id ar = lc_supplierId c \<and> ar_status ar = ''revoked'' \<and>
           ar_authorization_revision ar = lc_revision c + 1) (authorization_requests db))
       (\<lambda>s. s\<lparr>s_version := newVersion, s_updated_at := lc_now c, s_supply_enabled :=
          (if list_ex (\<lambda>ar. ar_tenant_id ar = s_tenant_id s \<and> ar_supplier_id ar = s_supplier_id s \<and>
               ar_status ar = ''approved'' \<and> lc_now c < ar_valid_until ar \<and>
               ar_encrypted_gateway_token ar \<noteq> [] \<and> ar_gateway_token_iv ar \<noteq> [] \<and>
               ar_gateway_token_digest ar \<noteq> None) (authorization_requests db)
           then s_supply_enabled s else 0)\<rparr>) db"

definition deleteWorkers :: "(WorkerRow \<Rightarrow> bool) \<Rightarrow> stmt" where
  "deleteWorkers p db = Inr (db\<lparr>supplier_artifact_workers := filter (\<lambda>w. \<not> p w) (supplier_artifact_workers db)\<rparr>,
     countRows p (supplier_artifact_workers db))"

definition DELETE_AGENT_HEARTBEAT_AFTER_AUTHORIZATION_REVOCATION_SQL :: "LifecycleCommand \<Rightarrow> stmt" where
  "DELETE_AGENT_HEARTBEAT_AFTER_AUTHORIZATION_REVOCATION_SQL c db =
     deleteWorkers (\<lambda>w. w_supplier_tenant_id w = lc_tenant c \<and>
       list_ex (\<lambda>ar. ar_request_id ar = lc_requestId c \<and> ar_tenant_id ar = lc_tenant c \<and>
         ar_supplier_id ar = lc_supplierId c \<and> ar_status ar = ''revoked'' \<and>
         ar_authorization_revision ar = lc_revision c + 1) (authorization_requests db)) db"

definition guardedAuthorizationLifecycleEventInsert :: "EventRow \<Rightarrow> LifecycleCommand \<Rightarrow> stmt" where
  "guardedAuthorizationLifecycleEventInsert event c db =
     (if revokedAt db (lc_requestId c) (lc_revision c + 1) \<and>
         supplierAt db (me_aggregate_id event) (me_tenant_id event) (me_aggregate_version event) \<and>
         lifecycleClaimed db c
      then insertEvent event db else Inr (db, 0))"

definition guardedAuthorizationLifecycleAuditInsert ::
  "string \<Rightarrow> string \<Rightarrow> string \<Rightarrow> string option \<Rightarrow> LifecycleCommand \<Rightarrow> stmt" where
  "guardedAuthorizationLifecycleAuditInsert action status operation requiredEventId c db =
     (if list_ex (\<lambda>ar. ar_request_id ar = lc_requestId c \<and> ar_tenant_id ar = lc_tenant c \<and>
           ar_status ar = status \<and> ar_authorization_revision ar = lc_revision c + 1)
           (authorization_requests db) \<and>
         hasKey db (lc_tenant c) operation (lc_commandId c) (lc_binding c) \<and>
         (case requiredEventId of None \<Rightarrow> True | Some e \<Rightarrow>
            list_ex (\<lambda>m. me_event_id m = e \<and> me_tenant_id m = lc_tenant c) (marketplace_events db))
      then insertAuditOrIgnore \<lparr>ad_audit_id =
          ''audit-authorization-lifecycle-'' @ lc_tenant c @ ''-'' @ operation @ ''-'' @ lc_commandId c,
        ad_tenant_id = lc_tenant c, ad_actor_id = lc_actor c, ad_action = action,
        ad_resource_type = ''authorization-request'', ad_resource_id = lc_requestId c,
        ad_details_json = lc_details c, ad_occurred_at = lc_now c\<rparr> db
      else Inr (db, 0))"

definition withdrawBatch :: "LifecycleCommand \<Rightarrow> stmt list" where
  "withdrawBatch c =
     [CLAIM_AUTHORIZATION_LIFECYCLE_TARGET_SQL ''pending'' ''authorization.withdraw'' c,
      BIND_AUTHORIZATION_LIFECYCLE_COMMAND_SQL ''authorization.withdraw'' c,
      WITHDRAW_PENDING_AUTHORIZATION_SQL c,
      guardedAuthorizationLifecycleAuditInsert ''authorization.withdrawn'' ''withdrawn''
        ''authorization.withdraw'' None c]"

definition revokeBatch :: "EventRow \<Rightarrow> LifecycleCommand \<Rightarrow> stmt list" where
  "revokeBatch event c =
     [CLAIM_AUTHORIZATION_LIFECYCLE_TARGET_SQL ''approved'' ''authorization.revoke'' c,
      BIND_AUTHORIZATION_LIFECYCLE_COMMAND_SQL ''authorization.revoke'' c,
      REVOKE_ACTIVE_AUTHORIZATION_SQL c,
      UPDATE_SUPPLIER_AFTER_AUTHORIZATION_REVOCATION_SQL (me_aggregate_version event) c,
      guardedAuthorizationLifecycleEventInsert event c,
      FAIL_RESERVED_INFERENCE_FOR_REVOKED_AUTHORIZATION_SQL (lc_now c) (lc_requestId c) (lc_revision c + 1),
      FAIL_QUEUED_ARTIFACTS_FOR_REVOKED_AUTHORIZATION_SQL (lc_now c) (lc_requestId c) (lc_revision c + 1),
      CANCEL_LEASED_ARTIFACTS_FOR_REVOKED_AUTHORIZATION_SQL (lc_now c) (lc_requestId c) (lc_revision c + 1),
      DELETE_AGENT_HEARTBEAT_AFTER_AUTHORIZATION_REVOCATION_SQL c,
      guardedAuthorizationLifecycleAuditInsert ''authorization.revoked'' ''revoked''
        ''authorization.revoke'' (Some (me_event_id event)) c]"

subsection \<open>Credential rotation\<close>

text \<open>The new credential, its lookup digests and the generation it replaces.\<close>

record RotationInput =
  ro_ciphertext :: string
  ro_iv :: string
  ro_keyId :: string
  ro_keyVersion :: int
  ro_legacyDigest :: string
  ro_lookups :: "(int \<times> string \<times> string) list"
  ro_oldToken :: string
  ro_oldIv :: string
  ro_oldKeyId :: string
  ro_oldKeyVersion :: int
  ro_maximum :: int

definition generationAt :: "RotationInput \<Rightarrow> LifecycleCommand \<Rightarrow> AuthorizationRow \<Rightarrow> bool" where
  "generationAt r c ar \<longleftrightarrow> ownedAt c ''approved'' ar \<and> lc_now c < ar_valid_until ar \<and>
     ar_encrypted_gateway_token ar = ro_oldToken r \<and> ar_gateway_token_iv ar = ro_oldIv r \<and>
     ar_credential_key_id ar = ro_oldKeyId r \<and> ar_encryption_key_version ar = ro_oldKeyVersion r"

definition sharesToken :: "RotationInput \<Rightarrow> LifecycleCommand \<Rightarrow> AuthorizationRow \<Rightarrow> bool" where
  "sharesToken r c ar \<longleftrightarrow> ar_request_id ar \<noteq> lc_requestId c \<and> ar_status ar = ''approved'' \<and>
     lc_now c < ar_valid_until ar \<and> authorizationLookupPredicate (ro_legacyDigest r) (ro_lookups r) ar"

definition tokenAllowed :: "database \<Rightarrow> RotationInput \<Rightarrow> LifecycleCommand \<Rightarrow> bool" where
  "tokenAllowed db r c =
     (\<not> list_ex (\<lambda>ar. sharesToken r c ar \<and>
          (ar_tenant_id ar \<noteq> lc_tenant c \<or> ar_supplier_id ar \<noteq> lc_supplierId c)) (authorization_requests db) \<and>
      int (countRows (sharesToken r c) (authorization_requests db)) < ro_maximum r)"

definition claimAuthorizationCredentialRotationTargetSql :: "RotationInput \<Rightarrow> LifecycleCommand \<Rightarrow> stmt" where
  "claimAuthorizationCredentialRotationTargetSql r c db =
     (if list_ex (\<lambda>ar. list_ex (\<lambda>s. s_supplier_id s = ar_supplier_id ar \<and> s_tenant_id s = ar_tenant_id ar \<and>
            generationAt r c ar \<and> s_version s = lc_supplierVersion c) (suppliers db))
          (authorization_requests db) \<and> tokenAllowed db r c \<and>
        \<not> commandBoundElsewhere db (lc_tenant c) ''authorization.rotate-credential'' (lc_commandId c) (lc_binding c)
      then insertKeyOrIgnore (lifecycleClaimRow c) db
      else Inr (db, 0))"

text \<open>The first lookup is the active one; the caller always supplies at least one.\<close>

definition rotateAuthorizationCredentialSql :: "RotationInput \<Rightarrow> LifecycleCommand \<Rightarrow> stmt" where
  "rotateAuthorizationCredentialSql r c db = (case hd (ro_lookups r) of (version, keyId, digest) \<Rightarrow>
     updateAuthorizations (\<lambda>ar. generationAt r c ar \<and> tokenAllowed db r c \<and> lifecycleClaimed db c \<and>
         hasKey db (lc_tenant c) ''authorization.rotate-credential'' (lc_commandId c) (lc_binding c))
       (\<lambda>ar. ar\<lparr>ar_encrypted_gateway_token := ro_ciphertext r, ar_gateway_token_iv := ro_iv r,
          ar_credential_key_id := ro_keyId r, ar_gateway_token_digest := Some digest,
          ar_gateway_token_digest_version := version, ar_gateway_token_lookup_key_id := keyId,
          ar_encryption_key_version := ro_keyVersion r,
          ar_authorization_revision := ar_authorization_revision ar + 1,
          ar_credential_rotated_at := Some (lc_now c), ar_updated_at := lc_now c\<rparr>) db)"

definition rotatedAt :: "database \<Rightarrow> RotationInput \<Rightarrow> LifecycleCommand \<Rightarrow> bool" where
  "rotatedAt db r c = list_ex (\<lambda>ar. ar_request_id ar = lc_requestId c \<and> ar_tenant_id ar = lc_tenant c \<and>
     ar_supplier_id ar = lc_supplierId c \<and> ar_status ar = ''approved'' \<and>
     ar_authorization_revision ar = lc_revision c + 1 \<and>
     ar_gateway_token_digest ar = Some (snd (snd (hd (ro_lookups r))))) (authorization_requests db)"

definition FAIL_RESERVED_INFERENCE_AFTER_CREDENTIAL_ROTATION_SQL :: "RotationInput \<Rightarrow> LifecycleCommand \<Rightarrow> stmt" where
  "FAIL_RESERVED_INFERENCE_AFTER_CREDENTIAL_ROTATION_SQL r c db =
     updateJobs (\<lambda>j. j_status j = ''reserved'' \<and> jobUnderAuthorization db (lc_requestId c) j \<and>
         (j_authorization_revision j = Some (lc_revision c) \<or> j_authorization_revision j = None) \<and>
         rotatedAt db r c)
       (\<lambda>j. j\<lparr>j_status := ''failed'', j_reservation_expires_at := None,
          j_error_code := Some ''GATEWAY_CREDENTIAL_ROTATED'', j_completed_at := Some (lc_now c),
          j_authorization_request_id := orElse (j_authorization_request_id j) (lc_requestId c),
          j_authorization_revision := orElse (j_authorization_revision j) (lc_revision c)\<rparr>) db"

definition DELETE_AGENT_HEARTBEAT_AFTER_CREDENTIAL_ROTATION_SQL :: "RotationInput \<Rightarrow> LifecycleCommand \<Rightarrow> stmt" where
  "DELETE_AGENT_HEARTBEAT_AFTER_CREDENTIAL_ROTATION_SQL r c db =
     deleteWorkers (\<lambda>w. w_supplier_tenant_id w = lc_tenant c \<and> rotatedAt db r c) db"

definition rotateBatch :: "RotationInput \<Rightarrow> LifecycleCommand \<Rightarrow> stmt list" where
  "rotateBatch r c =
     [claimAuthorizationCredentialRotationTargetSql r c,
      BIND_AUTHORIZATION_LIFECYCLE_COMMAND_SQL ''authorization.rotate-credential'' c,
      rotateAuthorizationCredentialSql r c,
      FAIL_RESERVED_INFERENCE_AFTER_CREDENTIAL_ROTATION_SQL r c,
      DELETE_AGENT_HEARTBEAT_AFTER_CREDENTIAL_ROTATION_SQL r c,
      guardedAuthorizationLifecycleAuditInsert ''authorization.credential-rotated'' ''approved''
        ''authorization.rotate-credential'' None c]"

section \<open>Expiry and offers\<close>

definition EXPIRE_PENDING_AUTHORIZATIONS_SQL :: "string \<Rightarrow> string \<Rightarrow> stmt" where
  "EXPIRE_PENDING_AUTHORIZATIONS_SQL now cutoff =
     updateAuthorizations (\<lambda>ar. ar_status ar = ''pending'' \<and>
         (ar_created_at ar \<le> cutoff \<or> ar_valid_until ar \<le> now))
       (\<lambda>ar. (eraseCredential ar)\<lparr>ar_status := ''rejected'',
          ar_review_note := orElse (ar_review_note ar) ''PENDING_REVIEW_EXPIRED'',
          ar_updated_at := now\<rparr>)"

definition AUTHORIZATION_MAX_VALIDITY_MILLISECONDS :: int where
  "AUTHORIZATION_MAX_VALIDITY_MILLISECONDS = 90 * 24 * 60 * 60000"

definition PENDING_AUTHORIZATION_MAX_AGE_MILLISECONDS :: int where
  "PENDING_AUTHORIZATION_MAX_AGE_MILLISECONDS = 7 * 24 * 60 * 60000"

definition isAuthorizationValidityAllowed :: "dateParse \<Rightarrow> string \<Rightarrow> int \<Rightarrow> bool" where
  "isAuthorizationValidityAllowed dp value nowMs = (endsWith value ''Z'' \<and>
     (case dp value of None \<Rightarrow> False
      | Some t \<Rightarrow> t > nowMs + 60000 \<and> t \<le> nowMs + AUTHORIZATION_MAX_VALIDITY_MILLISECONDS))"

definition CREATE_CAPACITY_OFFER_WITH_AUTHORIZATION_CAS_SQL ::
  "OfferRow \<Rightarrow> int \<Rightarrow> int \<Rightarrow> string \<Rightarrow> stmt" where
  "CREATE_CAPACITY_OFFER_WITH_AUTHORIZATION_CAS_SQL row revision supplierVersion commandId db =
     (if list_ex (\<lambda>ar. list_ex (\<lambda>s. s_supplier_id s = ar_supplier_id ar \<and> s_tenant_id s = ar_tenant_id ar \<and>
            ar_request_id ar = o_authorization_request_id row \<and> ar_tenant_id ar = o_tenant_id row \<and>
            ar_supplier_id ar = o_supplier_id row \<and> ar_authorization_revision ar = revision \<and>
            ar_status ar = ''approved'' \<and> o_created_at row < ar_valid_until ar \<and>
            o_valid_until row \<le> ar_valid_until ar \<and> ar_encrypted_gateway_token ar \<noteq> [] \<and>
            ar_gateway_token_iv ar \<noteq> [] \<and> ar_gateway_token_digest ar \<noteq> None \<and>
            s_version s = supplierVersion \<and> s_status s = ''active'') (suppliers db))
          (authorization_requests db) \<and>
        \<not> list_ex (\<lambda>k. k_tenant_id k = o_tenant_id row \<and> k_operation k = ''offer.create'' \<and>
            k_idempotency_key k = commandId) (idempotency_keys db)
      then if list_ex (\<lambda>off. o_offer_id off = o_offer_id row) (capacity_offers db)
        then Inl UniqueViolation
        else Inr (db\<lparr>capacity_offers := capacity_offers db @
               [row\<lparr>o_currency := ''CNY'', o_status := ''active'', o_version := 1\<rparr>]\<rparr>, 1)
      else Inr (db, 0))"

definition BIND_CAPACITY_OFFER_COMMAND_SQL :: "string \<Rightarrow> string \<Rightarrow> string \<Rightarrow> string \<Rightarrow> string \<Rightarrow> string \<Rightarrow> stmt" where
  "BIND_CAPACITY_OFFER_COMMAND_SQL tenant commandId binding now offerId supplierId db =
     (if list_ex (\<lambda>off. o_offer_id off = offerId \<and> o_tenant_id off = tenant \<and> o_supplier_id off = supplierId)
          (capacity_offers db)
      then insertKeyOrIgnore \<lparr>k_tenant_id = tenant, k_operation = ''offer.create'',
        k_idempotency_key = commandId, k_resource_id = binding, k_created_at = now\<rparr> db
      else Inr (db, 0))"

section \<open>Claims\<close>

definition keysDistinct :: "database \<Rightarrow> bool" where
  "keysDistinct db \<longleftrightarrow> distinct (map (\<lambda>k. (k_tenant_id k, k_operation k, k_idempotency_key k)) (idempotency_keys db))"

text \<open>A scope is bound to one resource, so a claim excludes every other token.\<close>

lemma hasKey_unique:
  assumes "keysDistinct db" "hasKey db t p k r" "hasKey db t p k r'"
  shows "r = r'"
proof -
  from assms(2,3) obtain x y where x: "x \<in> set (idempotency_keys db)" "k_tenant_id x = t" "k_operation x = p"
      "k_idempotency_key x = k" "k_resource_id x = r"
    and y: "y \<in> set (idempotency_keys db)" "k_tenant_id y = t" "k_operation y = p"
      "k_idempotency_key y = k" "k_resource_id y = r'"
    by (auto simp: hasKey_def list_ex_iff)
  with assms(1) have "x = y" unfolding keysDistinct_def by (auto simp: distinct_map dest!: inj_onD)
  with x y show ?thesis by simp
qed

lemma insertKeyOrIgnore_keeps:
  assumes "insertKeyOrIgnore row db = Inr (db', n)"
  shows "keysDistinct db \<Longrightarrow> keysDistinct db'" "hasKey db t p k r \<Longrightarrow> hasKey db' t p k r"
    "authorization_requests db' = authorization_requests db" "suppliers db' = suppliers db"
    "marketplace_events db' = marketplace_events db"
  using assms by (auto simp: insertKeyOrIgnore_def keysDistinct_def keyConflict_def hasKey_def list_ex_iff
      split: if_splits) blast

lemma insertKeyOrIgnore_has:
  assumes "insertKeyOrIgnore row db = Inr (db', n)"
    "\<not> (\<exists>r. hasKey db (k_tenant_id row) (k_operation row) (k_idempotency_key row) r)"
  shows "hasKey db' (k_tenant_id row) (k_operation row) (k_idempotency_key row) (k_resource_id row)"
  using assms by (auto simp: insertKeyOrIgnore_def keyConflict_def hasKey_def list_ex_iff split: if_splits)

text \<open>
  What a review statement run by the holder of another token can do: bind keys, write nothing to
  requests, suppliers and events.
\<close>

definition bystander :: "string \<Rightarrow> string \<Rightarrow> database \<Rightarrow> database \<Rightarrow> bool" where
  "bystander rid tok db db' \<longleftrightarrow> keysDistinct db' \<and> reviewClaimed db' rid tok \<and>
     authorization_requests db' = authorization_requests db \<and> suppliers db' = suppliers db \<and>
     marketplace_events db' = marketplace_events db"

lemma bystander_batch:
  assumes "\<And>s db db' n. s \<in> set ss \<Longrightarrow> keysDistinct db \<Longrightarrow> reviewClaimed db rid tok \<Longrightarrow> s db = Inr (db', n) \<Longrightarrow>
      bystander rid tok db db'"
    and "keysDistinct db" "reviewClaimed db rid tok" "batch ss db = Inr (db', ns)"
  shows "bystander rid tok db db'"
proof -
  let ?R = "\<lambda>d d'. keysDistinct d \<and> reviewClaimed d rid tok \<longrightarrow> bystander rid tok d d'"
  have "?R db db'" using assms(4)
    by (rule batch_rel [of ?R, rotated -1]) (use assms(1) in \<open>auto simp: bystander_def\<close>)
  with assms(2,3) show ?thesis by blast
qed

lemma bystander_insertKey:
  "keysDistinct db \<Longrightarrow> reviewClaimed db rid tok \<Longrightarrow> insertKeyOrIgnore row db = Inr (db', n) \<Longrightarrow>
     bystander rid tok db db'"
  using insertKeyOrIgnore_keeps [of row db db' n]
  by (auto simp: bystander_def reviewClaimed_def)

lemma bystander_refl: "keysDistinct db \<Longrightarrow> reviewClaimed db rid tok \<Longrightarrow> bystander rid tok db db"
  by (simp add: bystander_def)

lemma reviewClaimed_other:
  "keysDistinct db \<Longrightarrow> reviewClaimed db rid tok \<Longrightarrow> tok' \<noteq> tok \<Longrightarrow> \<not> reviewClaimed db rid tok'"
  unfolding reviewClaimed_def using hasKey_unique by blast

lemma bystander_statements:
  assumes "keysDistinct db" "reviewClaimed db rid tok" "tok' \<noteq> tok"
  shows "CLAIM_AUTHORIZATION_REVIEW_TARGET_SQL rid tok' now rt cid b db = Inr (db', n) \<Longrightarrow> bystander rid tok db db'"
    "claimAuthorizationReviewTargetWithLookupLimitSql rid tok' now rt cid b lg lk mx db = Inr (db', n) \<Longrightarrow>
       bystander rid tok db db'"
    "BIND_AUTHORIZATION_REVIEW_COMMAND_SQL tn cid b now rid tok' db = Inr (db', n) \<Longrightarrow> bystander rid tok db db'"
    "REJECT_AUTHORIZATION_REQUEST_SQL nt ac cid now rid tok' tn b db = Inr (db', n) \<Longrightarrow> bystander rid tok db db'"
    "APPROVE_AUTHORIZATION_REQUEST_SQL nt ac cid now rid sid st v tok' tn b db = Inr (db', n) \<Longrightarrow> bystander rid tok db db'"
    "ACTIVATE_REVIEWED_SUPPLIER_SQL nv now sid st v rid cid tok' db = Inr (db', n) \<Longrightarrow> bystander rid tok db db'"
    "guardedReviewEventInsert e rid cid tok' nv db = Inr (db', n) \<Longrightarrow> bystander rid tok db db'"
    "guardedReviewAuditInsert au tn ac sts rid cid tok' dt now db = Inr (db', n) \<Longrightarrow> bystander rid tok db db'"
proof -
  note other = reviewClaimed_other [OF assms]
  note keep = bystander_insertKey [OF assms(1,2)] bystander_refl [OF assms(1,2)]
  show "CLAIM_AUTHORIZATION_REVIEW_TARGET_SQL rid tok' now rt cid b db = Inr (db', n) \<Longrightarrow> bystander rid tok db db'"
    using keep by (auto simp: CLAIM_AUTHORIZATION_REVIEW_TARGET_SQL_def split: if_splits)
  show "claimAuthorizationReviewTargetWithLookupLimitSql rid tok' now rt cid b lg lk mx db = Inr (db', n) \<Longrightarrow>
       bystander rid tok db db'"
    using keep by (auto simp: claimAuthorizationReviewTargetWithLookupLimitSql_def split: if_splits)
  show "BIND_AUTHORIZATION_REVIEW_COMMAND_SQL tn cid b now rid tok' db = Inr (db', n) \<Longrightarrow> bystander rid tok db db'"
    using keep by (auto simp: BIND_AUTHORIZATION_REVIEW_COMMAND_SQL_def split: if_splits)
  show "REJECT_AUTHORIZATION_REQUEST_SQL nt ac cid now rid tok' tn b db = Inr (db', n) \<Longrightarrow> bystander rid tok db db'"
    using keep(2) other by (auto simp: REJECT_AUTHORIZATION_REQUEST_SQL_def updateAuthorizations_def)
  show "APPROVE_AUTHORIZATION_REQUEST_SQL nt ac cid now rid sid st v tok' tn b db = Inr (db', n) \<Longrightarrow> bystander rid tok db db'"
    using keep(2) other by (auto simp: APPROVE_AUTHORIZATION_REQUEST_SQL_def updateAuthorizations_def)
  show "ACTIVATE_REVIEWED_SUPPLIER_SQL nv now sid st v rid cid tok' db = Inr (db', n) \<Longrightarrow> bystander rid tok db db'"
    using keep(2) other by (auto simp: ACTIVATE_REVIEWED_SUPPLIER_SQL_def updateSuppliers_def)
  show "guardedReviewEventInsert e rid cid tok' nv db = Inr (db', n) \<Longrightarrow> bystander rid tok db db'"
    using keep(2) other by (auto simp: guardedReviewEventInsert_def)
  show "guardedReviewAuditInsert au tn ac sts rid cid tok' dt now db = Inr (db', n) \<Longrightarrow> bystander rid tok db db'"
    using keep(2) other by (auto simp: guardedReviewAuditInsert_def)
qed

lemma review_bystander:
  assumes "keysDistinct db" "reviewClaimed db (rv_requestId r) tok" "rv_token r \<noteq> tok"
    and "batch (rejectBatch r) db = Inr (db', ns) \<or>
      batch (approveBatch r legacy lookups maximum sid st v nv events) db = Inr (db', ns)"
  shows "bystander (rv_requestId r) tok db db'"
proof -
  note st = bystander_statements [OF _ _ assms(3)]
  from assms(4) show ?thesis
  proof
    assume "batch (rejectBatch r) db = Inr (db', ns)"
    then show ?thesis
      by (rule bystander_batch [OF _ assms(1,2), rotated])
        (auto simp: rejectBatch_def Let_def dest: st)
  next
    assume "batch (approveBatch r legacy lookups maximum sid st v nv events) db = Inr (db', ns)"
    then show ?thesis
      by (rule bystander_batch [OF _ assms(1,2), rotated])
        (auto simp: approveBatch_def Let_def dest: st)
  qed
qed

text \<open>
  C17: A request has one reviewer. Once a review operation has claimed a request, a rejection or an
  approval run under any other operation token commits without touching requests, suppliers or
  events, and leaves the claim in place.
\<close>

theorem review_single_writer:
  assumes "keysDistinct db" "reviewClaimed db (rv_requestId r) tok" "rv_token r \<noteq> tok"
    and "batch (rejectBatch r) db = Inr (db', ns) \<or>
      batch (approveBatch r legacy lookups maximum sid st v nv events) db = Inr (db', ns)"
  shows "authorization_requests db' = authorization_requests db \<and> suppliers db' = suppliers db \<and>
    marketplace_events db' = marketplace_events db \<and> reviewClaimed db' (rv_requestId r) tok"
  using review_bystander [OF assms] by (simp add: bystander_def)

text \<open>Any number of later reviews of a request, rejections and approvals, none under the token of its claim.\<close>

inductive other_reviews :: "string \<Rightarrow> string \<Rightarrow> database \<Rightarrow> database \<Rightarrow> bool" for rid tok where
  none: "other_reviews rid tok db db"
| reject: "other_reviews rid tok db db1 \<Longrightarrow> rv_requestId r = rid \<Longrightarrow> rv_token r \<noteq> tok \<Longrightarrow>
    batch (rejectBatch r) db1 = Inr (db2, ns) \<Longrightarrow> other_reviews rid tok db db2"
| approve: "other_reviews rid tok db db1 \<Longrightarrow> rv_requestId r = rid \<Longrightarrow> rv_token r \<noteq> tok \<Longrightarrow>
    batch (approveBatch r legacy lookups maximum sid st v nv events) db1 = Inr (db2, ns) \<Longrightarrow> other_reviews rid tok db db2"

lemma bystander_trans: "bystander rid tok a b \<Longrightarrow> bystander rid tok b c \<Longrightarrow> bystander rid tok a c"
  by (simp add: bystander_def)

lemma other_reviews_bystander:
  "other_reviews rid tok db db' \<Longrightarrow> keysDistinct db \<Longrightarrow> reviewClaimed db rid tok \<Longrightarrow> bystander rid tok db db'"
proof (induction rule: other_reviews.induct)
  case (none db)
  then show ?case by (rule bystander_refl)
next
  case (reject db db1 r db2 ns)
  then have b: "bystander rid tok db db1" by blast
  then have "keysDistinct db1" "reviewClaimed db1 (rv_requestId r) tok" using reject.hyps(2) by (auto simp: bystander_def)
  from review_bystander [OF this reject.hyps(3) disjI1 [OF reject.hyps(4)]] reject.hyps(2) b
  show ?case by (auto intro: bystander_trans)
next
  case (approve db db1 r legacy lookups maximum sid st v nv events db2 ns)
  then have b: "bystander rid tok db db1" by blast
  then have "keysDistinct db1" "reviewClaimed db1 (rv_requestId r) tok" using approve.hyps(2) by (auto simp: bystander_def)
  from review_bystander [OF this approve.hyps(3) disjI2 [OF approve.hyps(4)]] approve.hyps(2) b
  show ?case by (auto intro: bystander_trans)
qed

text \<open>Inserts into the event store and the audit log leave everything else alone.\<close>

definition recordsOnly :: "database \<Rightarrow> database \<Rightarrow> bool" where
  "recordsOnly db db' \<longleftrightarrow> authorization_requests db' = authorization_requests db \<and>
     suppliers db' = suppliers db \<and> idempotency_keys db' = idempotency_keys db \<and>
     inference_jobs db' = inference_jobs db \<and> artifact_tasks db' = artifact_tasks db"

lemma recordsOnly_batch:
  assumes "\<And>s db db' n. s \<in> set ss \<Longrightarrow> s db = Inr (db', n) \<Longrightarrow> recordsOnly db db'"
    and "batch ss db = Inr (db', ns)"
  shows "recordsOnly db db'"
  using assms(2) by (rule batch_rel [of recordsOnly, rotated -1]) (use assms(1) in \<open>auto simp: recordsOnly_def\<close>)

lemma review_records:
  "guardedReviewEventInsert e rid cid tk nv db = Inr (db', n) \<Longrightarrow> recordsOnly db db'"
  "guardedReviewAuditInsert au tn ac sts rid cid tk dt now db = Inr (db', n) \<Longrightarrow> recordsOnly db db'"
  by (auto simp: guardedReviewEventInsert_def insertEvent_def guardedReviewAuditInsert_def insertAudit_def
      recordsOnly_def split: if_splits)

text \<open>
  C20: An approval that loses the race for the supplier version strands the request. The claim of
  the review target does not test the supplier version, the approval does: when the supplier moved
  after the reviewer read it, the batch still commits, every request stays as it was, so the request is
  still pending, and the claim stays. From then on any number of rejections and approvals of that request
  under other tokens, whatever their parameters, leave requests, suppliers and events as they are, and
  the claim in place.
\<close>

theorem approval_race_strands_request:
  assumes "keysDistinct db" "\<not> supplierAt db sid st v"
    and "\<exists>ar \<in> set (authorization_requests db). pendingReview (rv_requestId r) ar \<and> ar_tenant_id ar \<noteq> rv_tenant r"
    and "int (countRows (\<lambda>e. ar_status e = ''approved'' \<and> rv_now r < ar_valid_until e \<and>
      authorizationLookupPredicate legacy lookups e) (authorization_requests db)) < maximum"
    and "\<not> commandBoundElsewhere db (rv_tenant r) ''authorization.review'' (rv_commandId r) (reviewBinding r ''approve'')"
    and "\<forall>tok. \<not> reviewClaimed db (rv_requestId r) tok"
    and run: "batch (approveBatch r legacy lookups maximum sid st v nv events) db = Inr (db', ns)"
  shows "authorization_requests db' = authorization_requests db \<and> suppliers db' = suppliers db \<and>
    reviewClaimed db' (rv_requestId r) (rv_token r) \<and>
    (\<forall>db''. other_reviews (rv_requestId r) (rv_token r) db' db'' \<longrightarrow>
       authorization_requests db'' = authorization_requests db \<and> suppliers db'' = suppliers db \<and>
       marketplace_events db'' = marketplace_events db' \<and> reviewClaimed db'' (rv_requestId r) (rv_token r))"
proof -
  let ?rid = "rv_requestId r" and ?tok = "rv_token r"
  let ?events = "map (\<lambda>e. guardedReviewEventInsert e ?rid (rv_commandId r) ?tok nv) events @
     [guardedReviewAuditInsert (rv_auditId r) (rv_tenant r) (rv_actor r) ''approved'' ?rid
        (rv_commandId r) ?tok (rv_details r) (rv_now r)]"
  from run obtain db1 db2 db3 db4 n1 n2 n3 n4 ms where
    s1: "insertKeyOrIgnore (reviewClaimRow ?rid ?tok (rv_now r)) db = Inr (db1, n1)"
    and s2: "BIND_AUTHORIZATION_REVIEW_COMMAND_SQL (rv_tenant r) (rv_commandId r) (reviewBinding r ''approve'')
      (rv_now r) ?rid ?tok db1 = Inr (db2, n2)"
    and s3: "APPROVE_AUTHORIZATION_REQUEST_SQL (rv_note r) (rv_actor r) (rv_commandId r) (rv_now r) ?rid sid st v
      ?tok (rv_tenant r) (reviewBinding r ''approve'') db2 = Inr (db3, n3)"
    and s4: "ACTIVATE_REVIEWED_SUPPLIER_SQL nv (rv_now r) sid st v ?rid (rv_commandId r) ?tok db3 = Inr (db4, n4)"
    and s5: "batch ?events db4 = Inr (db', ms)"
    using assms(3-5) unfolding approveBatch_def Let_def
    by (auto simp: claimAuthorizationReviewTargetWithLookupLimitSql_def list_ex_iff)
  note k1 = insertKeyOrIgnore_keeps [OF s1]
  have c1: "reviewClaimed db1 ?rid ?tok"
    using insertKeyOrIgnore_has [OF s1] assms(6) by (simp add: reviewClaimed_def reviewClaimRow_def)
  with s2 have s2': "insertKeyOrIgnore \<lparr>k_tenant_id = rv_tenant r, k_operation = ''authorization.review'',
      k_idempotency_key = rv_commandId r, k_resource_id = reviewBinding r ''approve'', k_created_at = rv_now r\<rparr> db1 =
      Inr (db2, n2)" by (simp add: BIND_AUTHORIZATION_REVIEW_COMMAND_SQL_def)
  note k2 = insertKeyOrIgnore_keeps [OF s2']
  have gone: "\<not> supplierAt db2 sid st v" using assms(2) k1(4) k2(4) by (simp add: supplierAt_def)
  with s3 have db3: "db3 = db2" by (simp add: APPROVE_AUTHORIZATION_REQUEST_SQL_def updateAuthorizations_def)
  have "updateRows (\<lambda>s. s_supplier_id s = sid \<and> s_tenant_id s = st \<and> s_version s = v \<and>
      reviewRecorded db2 ?rid ''approved'' (rv_commandId r) \<and> reviewClaimed db2 ?rid ?tok)
      (\<lambda>s. s\<lparr>s_status := ''active'', s_version := nv, s_updated_at := rv_now r\<rparr>) (suppliers db2) = suppliers db2"
    using gone by (intro updateRows_none) (auto simp: supplierAt_def list_ex_iff)
  with s4 db3 have db4: "db4 = db2" by (simp add: ACTIVATE_REVIEWED_SUPPLIER_SQL_def updateSuppliers_def)
  have "recordsOnly db2 db'" using s5 unfolding db4
    by (rule recordsOnly_batch [rotated]) (auto dest: review_records)
  then have same: "authorization_requests db' = authorization_requests db" "suppliers db' = suppliers db"
    and keys: "idempotency_keys db' = idempotency_keys db2"
    using k1(3,4) k2(3,4) by (simp_all add: recordsOnly_def)
  have kd: "keysDistinct db'" using k1(1) k2(1) assms(1) keys by (simp add: keysDistinct_def)
  have cl: "reviewClaimed db' ?rid ?tok" using k2(2) c1 keys by (simp add: reviewClaimed_def hasKey_def)
  have "authorization_requests db'' = authorization_requests db \<and> suppliers db'' = suppliers db \<and>
      marketplace_events db'' = marketplace_events db' \<and> reviewClaimed db'' ?rid ?tok"
    if "other_reviews ?rid ?tok db' db''" for db''
    using other_reviews_bystander [OF that kd cl] same by (simp add: bystander_def)
  with same cl show ?thesis by blast
qed

end
