(* ===== verification/Capacity.thy ===== *)
theory Capacity
  imports Solvency Lifecycle
begin

text \<open>
  The capacity invariant of the control plane: the work an offer carries (reserved or running
  inferences and leased artifact tasks) never exceeds the concurrency it was published with.
\<close>

definition withinCapacity :: "database \<Rightarrow> bool" where
  "withinCapacity db \<longleftrightarrow> distinct (map o_offer_id (capacity_offers db)) \<and>
     (\<forall>i. 0 < activeOnOffer db i \<longrightarrow> (\<exists>off \<in> set (capacity_offers db). o_offer_id off = i)) \<and>
     (\<forall>off \<in> set (capacity_offers db). int (activeOnOffer db (o_offer_id off)) \<le> o_concurrency off)"

lemma offer_unique:
  "withinCapacity db \<Longrightarrow> off \<in> set (capacity_offers db) \<Longrightarrow> off' \<in> set (capacity_offers db) \<Longrightarrow>
     o_offer_id off = o_offer_id off' \<Longrightarrow> off = off'"
  unfolding withinCapacity_def distinct_map by (blast dest: inj_onD)

text \<open>A change that adds no work and no offer.\<close>

definition lighter :: "database \<Rightarrow> database \<Rightarrow> bool" where
  "lighter db db' \<longleftrightarrow> capacity_offers db' = capacity_offers db \<and>
     (\<forall>i. activeOnOffer db' i \<le> activeOnOffer db i)"

lemma lighter_refl [simp]: "lighter db db"
  by (simp add: lighter_def)

lemma lighter_trans: "lighter a b \<Longrightarrow> lighter b c \<Longrightarrow> lighter a c"
  by (auto simp: lighter_def intro: order_trans)

lemma lighter_within: "withinCapacity db \<Longrightarrow> lighter db db' \<Longrightarrow> withinCapacity db'"
  unfolding withinCapacity_def lighter_def
  by (auto intro: order_trans [OF of_nat_mono] elim!: less_le_trans) (meson less_le_trans)

lemma countRows_map_le: "(\<And>r. p (g r) \<Longrightarrow> p r) \<Longrightarrow> countRows p (map g rows) \<le> countRows p rows"
  by (induction rows) (auto simp: countRows_def le_SucI)

lemma countRows_append: "countRows p (xs @ ys) = countRows p xs + countRows p ys"
  by (simp add: countRows_def)

lemma quiet_lighter:
  assumes "quiet True db db'"
  shows "lighter db db'"
proof -
  obtain g h where g: "jobQuiet g" "inference_jobs db' = map g (inference_jobs db)"
    and h: "taskQuiet True h" "artifact_tasks db' = map h (artifact_tasks db)"
    and offers: "capacity_offers db' = capacity_offers db"
    using assms by (auto simp: quiet_def)
  have "activeOnOffer db' i \<le> activeOnOffer db i" for i
    unfolding activeOnOffer_def g(2) h(2)
    by (intro add_mono countRows_map_le)
      (use g(1) h(1) in \<open>auto simp: jobQuiet_def jobCalm_def taskQuiet_def taskCalm_def\<close>)
  with offers show ?thesis by (simp add: lighter_def)
qed

lemma sameTables_lighter:
  "capacity_offers db' = capacity_offers db \<Longrightarrow> inference_jobs db' = inference_jobs db \<Longrightarrow>
   artifact_tasks db' = artifact_tasks db \<Longrightarrow> lighter db db'"
  by (simp add: lighter_def activeOnOffer_def)

section \<open>Reservations\<close>

lemma activeOnOffer_append_job:
  "jobHeld j \<Longrightarrow> activeOnOffer (db\<lparr>inference_jobs := inference_jobs db @ [j]\<rparr>) i =
     activeOnOffer db i + (if j_offer_id j = i then 1 else 0)"
  by (simp add: activeOnOffer_def countRows_def)

lemma RESERVE_INFERENCE_within:
  assumes "withinCapacity db" "RESERVE_INFERENCE_JOB_SQL row a r limit db = Inr (db', n)"
    and "jobHeld row" "offer \<in> set (capacity_offers db)" "o_offer_id offer = j_offer_id row"
      "o_concurrency offer = limit"
  shows "withinCapacity db'"
  using assms(2)
proof (cases rule: RESERVE_INFERENCE_cases)
  case 2
  have "int (activeOnOffer db' (o_offer_id off)) \<le> o_concurrency off"
    if "off \<in> set (capacity_offers db)" for off
  proof (cases "o_offer_id off = j_offer_id row")
    case True
    then have "off = offer" using offer_unique [OF assms(1) that assms(4)] assms(5) by simp
    then show ?thesis using "2" assms(3,5,6) by (simp add: activeOnOffer_append_job)
  next
    case False
    then show ?thesis using that "2" assms(1,3) by (simp add: activeOnOffer_append_job withinCapacity_def)
  qed
  then show ?thesis using assms(1,3-5) "2"
    unfolding withinCapacity_def by (auto simp: activeOnOffer_append_job split: if_splits)
qed (use assms(1) in simp)

lemma RESERVE_ARTIFACT_lighter:
  assumes "RESERVE_ARTIFACT_TASK_SQL row m db = Inr (db', n)" "t_status row = ''queued''"
  shows "lighter db db'"
  using assms(1)
proof (cases rule: RESERVE_ARTIFACT_cases)
  case 2
  then show ?thesis using assms(2) by (simp add: lighter_def activeOnOffer_def countRows_def taskLeased_def)
qed simp

section \<open>Leases\<close>

text \<open>An update of the row with one key adds at most one row to a selection.\<close>

lemma countRows_update_one:
  assumes "distinct (map key rows)" "\<And>r. p r \<Longrightarrow> key r = k" "\<And>r. q r \<Longrightarrow> p r \<Longrightarrow> q (f r)"
  shows "countRows q (updateRows p f rows) \<le>
    countRows q rows + (if \<exists>r \<in> set rows. p r \<and> q (f r) then 1 else 0)"
  using assms(1)
proof (induction rows)
  case Nil
  then show ?case by (simp add: countRows_def updateRows_def)
next
  case (Cons r rows)
  show ?case
  proof (cases "p r")
    case True
    with Cons.prems assms(2) have "\<not> (\<exists>x \<in> set rows. p x)" by force
    then have "updateRows p f rows = rows" by (rule updateRows_none)
    with True assms(3) [of r] show ?thesis by (auto simp: countRows_def updateRows_def)
  next
    case False
    with Cons show ?thesis by (auto simp: countRows_def updateRows_def split: if_splits)
  qed
qed

lemma claim_within:
  assumes "withinCapacity db" "distinct (map t_task_id (artifact_tasks db))"
    and "claimArtifactTask i s a r now w pr ld le ed res db = Inr (db', n)"
  shows "withinCapacity db'"
proof -
  let ?p = "claimable db i s a r now w pr" and ?f = "claimedTask w ld le ed res now"
  have db': "db' = db\<lparr>artifact_tasks := updateRows ?p ?f (artifact_tasks db)\<rparr>"
    using assms(3) by (simp add: claimArtifactTask_def updateTasks_def)
  let ?new = "\<lambda>o'. \<exists>t \<in> set (artifact_tasks db). ?p t \<and> t_offer_id t = o'"
  have le: "activeOnOffer db' o' \<le> activeOnOffer db o' + (if ?new o' then 1 else 0)" for o'
  proof -
    have "countRows (\<lambda>t. t_offer_id t = o' \<and> taskLeased t) (updateRows ?p ?f (artifact_tasks db)) \<le>
      countRows (\<lambda>t. t_offer_id t = o' \<and> taskLeased t) (artifact_tasks db) +
      (if \<exists>t \<in> set (artifact_tasks db). ?p t \<and> t_offer_id (?f t) = o' \<and> taskLeased (?f t) then 1 else 0)"
      by (rule countRows_update_one [OF assms(2), where k = i])
        (auto simp: claimable_def claimedTask_def taskLeased_def)
    moreover have "t_offer_id (?f t) = t_offer_id t" for t by (simp add: claimedTask_def)
    ultimately show ?thesis unfolding activeOnOffer_def db' by (auto split: if_splits)
  qed
  have room: "\<exists>off \<in> set (capacity_offers db). o_offer_id off = o' \<and> int (activeOnOffer db o') < o_concurrency off"
    if "?new o'" for o'
    using that by (force simp: claimable_def list_ex_iff)
  have "int (activeOnOffer db' (o_offer_id off)) \<le> o_concurrency off" if "off \<in> set (capacity_offers db)" for off
  proof (cases "?new (o_offer_id off)")
    case True
    with room offer_unique [OF assms(1)] that have "int (activeOnOffer db (o_offer_id off)) < o_concurrency off" by metis
    with le [of "o_offer_id off"] show ?thesis by (auto split: if_splits)
  next
    case False
    with le [of "o_offer_id off"] have "activeOnOffer db' (o_offer_id off) \<le> activeOnOffer db (o_offer_id off)" by simp
    moreover have "int (activeOnOffer db (o_offer_id off)) \<le> o_concurrency off"
      using that assms(1) by (simp add: withinCapacity_def)
    ultimately show ?thesis by linarith
  qed
  moreover have "\<exists>off \<in> set (capacity_offers db). o_offer_id off = o'" if "0 < activeOnOffer db' o'" for o'
  proof (cases "?new o'")
    case True
    with room show ?thesis by blast
  next
    case False
    with le [of o'] that have "0 < activeOnOffer db o'" by simp
    with assms(1) show ?thesis by (simp add: withinCapacity_def)
  qed
  ultimately show ?thesis using assms(1) by (simp add: withinCapacity_def db')
qed

section \<open>Offers and settlements\<close>

lemma CREATE_OFFER_within:
  assumes "withinCapacity db" "CREATE_CAPACITY_OFFER_WITH_AUTHORIZATION_CAS_SQL row r v k db = Inr (db', n)"
    "0 \<le> o_concurrency row"
  shows "withinCapacity db'"
proof (cases "db' = db")
  case False
  let ?row = "row\<lparr>o_currency := ''CNY'', o_status := ''active'', o_version := 1\<rparr>"
  from False assms(2) have db': "db' = db\<lparr>capacity_offers := capacity_offers db @ [?row]\<rparr>"
    and fresh: "o_offer_id row \<notin> o_offer_id ` set (capacity_offers db)"
    unfolding CREATE_CAPACITY_OFFER_WITH_AUTHORIZATION_CAS_SQL_def
    by (auto simp: list_ex_iff split: if_splits)
  have "activeOnOffer db (o_offer_id row) = 0"
    using assms(1) fresh unfolding withinCapacity_def by (metis bot_nat_0.not_eq_extremum imageI)
  with assms(1,3) fresh show ?thesis
    by (auto simp: withinCapacity_def db' activeOnOffer_def)
qed (use assms(1) in simp)

lemma lighter_updateJobs:
  assumes "\<And>j. p j \<Longrightarrow> j_offer_id (f j) = j_offer_id j \<and> \<not> jobHeld (f j)" "updateJobs p f db = Inr (db', n)"
  shows "lighter db db'"
proof -
  have "countRows (\<lambda>j. j_offer_id j = i \<and> jobHeld j) (inference_jobs db') \<le>
    countRows (\<lambda>j. j_offer_id j = i \<and> jobHeld j) (inference_jobs db)" for i
    using assms by (auto simp: updateJobs_def updateRows_def intro!: countRows_map_le split: if_splits)
  with assms(2) show ?thesis by (auto simp: lighter_def activeOnOffer_def updateJobs_def)
qed

lemma lighter_updateTasks:
  assumes "\<And>t. p t \<Longrightarrow> t_offer_id (f t) = t_offer_id t \<and> \<not> taskLeased (f t)" "updateTasks p f db = Inr (db', n)"
  shows "lighter db db'"
proof -
  have "countRows (\<lambda>t. t_offer_id t = i \<and> taskLeased t) (artifact_tasks db') \<le>
    countRows (\<lambda>t. t_offer_id t = i \<and> taskLeased t) (artifact_tasks db)" for i
    using assms by (auto simp: updateTasks_def updateRows_def intro!: countRows_map_le split: if_splits)
  with assms(2) show ?thesis by (auto simp: lighter_def activeOnOffer_def updateTasks_def)
qed

lemma lighter_batch:
  assumes "\<And>s d d' n. s \<in> set ss \<Longrightarrow> s d = Inr (d', n) \<Longrightarrow> lighter d d'" "batch ss db = Inr (db', ns)"
  shows "lighter db db'"
  by (rule batch_rel [of lighter, OF lighter_refl lighter_trans assms])

lemma COMPLETE_lighter:
  "COMPLETE_INFERENCE_JOB_SQL x db = Inr (db', n) \<Longrightarrow> lighter db db'"
  "COMPLETE_ARTIFACT_TASK_SQL y db = Inr (db', n) \<Longrightarrow> lighter db db'"
   apply (unfold COMPLETE_INFERENCE_JOB_SQL_def Let_def andThen_Inr_iff)
   apply (elim exE conjE, erule lighter_updateJobs [rotated])
   apply (simp add: completedJob_def jobHeld_def split: prod.split)
  apply (unfold COMPLETE_ARTIFACT_TASK_SQL_def Let_def andThen_Inr_iff)
  apply (elim exE conjE, erule lighter_updateTasks [rotated])
  apply (simp add: completedTask_def clearInstruction_def clearLease_def taskLeased_def)
  done

lemma settlement_rest_lighter:
  "insertInferenceUsage x db = Inr (db', n) \<Longrightarrow> lighter db db'"
  "insertServiceEvidence x db = Inr (db', n) \<Longrightarrow> lighter db db'"
  "guardedInferenceLedgerInsert e t a i ty d m c g db = Inr (db', n) \<Longrightarrow> lighter db db'"
  "guardedInferenceAuditInsert x db = Inr (db', n) \<Longrightarrow> lighter db db'"
  "insertTaskEvidence y db = Inr (db', n) \<Longrightarrow> lighter db db'"
  "guardedLedgerInsert e t a i ty d m c g db = Inr (db', n) \<Longrightarrow> lighter db db'"
  "insertTaskUsage y db = Inr (db', n) \<Longrightarrow> lighter db db'"
  "insertTaskAudit y db = Inr (db', n) \<Longrightarrow> lighter db db'"
  "extendArtifact y db = Inr (db', n) \<Longrightarrow> lighter db db'"
  by (auto simp: insertInferenceUsage_def insertUsage_def insertServiceEvidence_def
      guardedInferenceLedgerInsert_def insertLedgerOrIgnore_def guardedInferenceAuditInsert_def insertAudit_def
      insertTaskEvidence_def guardedLedgerInsert_def insertTaskUsage_def insertTaskAudit_def extendArtifact_def
      updateArtifacts_def Let_def split: if_splits prod.splits intro!: sameTables_lighter)

lemma settlement_lighter:
  "batch (settlementStatements x) db = Inr (db', ns) \<Longrightarrow> lighter db db'"
  "batch (taskSettlementStatements y) db = Inr (db', ns) \<Longrightarrow> lighter db db'"
  by (erule lighter_batch [rotated]; auto simp: settlementStatements_def taskSettlementStatements_def Let_def
      dest: COMPLETE_lighter settlement_rest_lighter split: if_splits)+

end
