(* ===== verification/Conservation.thy ===== *)
theory Conservation
  imports Solvency
begin

text \<open>
  Conservation of money: the settlement entries of the ledger (debit of the buyer, credit of the
  supplier, fee of the platform) sum to zero, exactly and in every reachable state, because each
  settlement writes all of its entries or none.
\<close>

section \<open>The invariant\<close>

definition evidenced :: "database \<Rightarrow> string set" where
  "evidenced db = se_job_id ` set (service_evidence db) \<union> te_task_id ` set (artifact_task_evidence db)"

definition settlementAmount :: "LedgerRow \<Rightarrow> int" where
  "settlementAmount l = (if l_entry_type l \<in> set settlementTypes
     then if l_direction l = ''credit'' then BigInt_str (l_amount_micros l) else - BigInt_str (l_amount_micros l)
     else 0)"

definition settlementBalance :: "database \<Rightarrow> int" where
  "settlementBalance db = sum_list (map settlementAmount (ledger_entries db))"

definition jobBalance :: "database \<Rightarrow> string \<Rightarrow> int" where
  "jobBalance db i = sum_list (map settlementAmount (filter (\<lambda>l. l_job_id l = Some i) (ledger_entries db)))"

definition debitsOf :: "string \<Rightarrow> LedgerRow list \<Rightarrow> nat" where
  "debitsOf i ls = countRows (\<lambda>l. l_job_id l = Some i \<and> l_entry_type l = ''inference-debit'') ls"

text \<open>The settlement entries balance as a whole and job by job, and no job is debited twice.\<close>

definition balanced :: "database \<Rightarrow> bool" where
  "balanced db \<longleftrightarrow> settlementBalance db = 0 \<and>
     (\<forall>i. jobBalance db i = 0 \<and> debitsOf i (ledger_entries db) \<le> 1)"

definition isJobId :: "string \<Rightarrow> bool" where
  "isJobId i \<longleftrightarrow> (\<exists>u. i = ''job-'' @ u)"

definition isTaskId :: "string \<Rightarrow> bool" where
  "isTaskId i \<longleftrightarrow> (\<exists>u. i = ''artifact-task-'' @ u)"

text \<open>\<open>C\<close> holds the inference calls in flight: none of them has been settled.\<close>

definition conserved :: "string set \<Rightarrow> database \<Rightarrow> bool" where
  "conserved C db \<longleftrightarrow> balanced db \<and>
     (\<forall>l \<in> set (ledger_entries db). l_entry_type l \<in> set settlementTypes \<longrightarrow>
        (\<exists>i \<in> evidenced db. l_job_id l = Some i)) \<and>
     (\<forall>e \<in> set (service_evidence db). se_job_id e \<in> set (map j_job_id (inference_jobs db))) \<and>
     (\<forall>e \<in> set (artifact_task_evidence db). te_task_id e \<in> set (map t_task_id (artifact_tasks db)) \<and>
        (\<exists>u \<in> set (usage_records db). u_job_id u = te_task_id e)) \<and>
     (\<forall>i \<in> set (map j_job_id (inference_jobs db)). isJobId i) \<and>
     (\<forall>i \<in> set (map t_task_id (artifact_tasks db)). isTaskId i) \<and> C \<inter> evidenced db = {}"

lemma conservedD:
  assumes "conserved C db"
  shows "balanced db"
    "\<And>l. l \<in> set (ledger_entries db) \<Longrightarrow> l_entry_type l \<in> set settlementTypes \<Longrightarrow> \<exists>i \<in> evidenced db. l_job_id l = Some i"
    "\<And>e. e \<in> set (service_evidence db) \<Longrightarrow> se_job_id e \<in> set (map j_job_id (inference_jobs db))"
    "\<And>e. e \<in> set (artifact_task_evidence db) \<Longrightarrow> te_task_id e \<in> set (map t_task_id (artifact_tasks db))"
    "\<And>e. e \<in> set (artifact_task_evidence db) \<Longrightarrow> \<exists>u \<in> set (usage_records db). u_job_id u = te_task_id e"
    "\<And>i. i \<in> set (map j_job_id (inference_jobs db)) \<Longrightarrow> isJobId i"
    "\<And>i. i \<in> set (map t_task_id (artifact_tasks db)) \<Longrightarrow> isTaskId i" "C \<inter> evidenced db = {}"
  using assms unfolding conserved_def by blast+

lemma conservedI:
  assumes "balanced db"
    "\<And>l. l \<in> set (ledger_entries db) \<Longrightarrow> l_entry_type l \<in> set settlementTypes \<Longrightarrow> \<exists>i \<in> evidenced db. l_job_id l = Some i"
    "\<And>e. e \<in> set (service_evidence db) \<Longrightarrow> se_job_id e \<in> set (map j_job_id (inference_jobs db))"
    "\<And>e. e \<in> set (artifact_task_evidence db) \<Longrightarrow> te_task_id e \<in> set (map t_task_id (artifact_tasks db))"
    "\<And>e. e \<in> set (artifact_task_evidence db) \<Longrightarrow> \<exists>u \<in> set (usage_records db). u_job_id u = te_task_id e"
    "\<And>i. i \<in> set (map j_job_id (inference_jobs db)) \<Longrightarrow> isJobId i"
    "\<And>i. i \<in> set (map t_task_id (artifact_tasks db)) \<Longrightarrow> isTaskId i" "C \<inter> evidenced db = {}"
  shows "conserved C db"
  using assms unfolding conserved_def by blast

lemma ids_disjoint: "isJobId i \<Longrightarrow> \<not> isTaskId i"
  by (auto simp: isJobId_def isTaskId_def)

lemma conserved_frame:
  assumes "conserved C db" "ledger_entries db' = ledger_entries db" "service_evidence db' = service_evidence db"
    "artifact_task_evidence db' = artifact_task_evidence db"
    "map j_job_id (inference_jobs db') = map j_job_id (inference_jobs db)"
    "map t_task_id (artifact_tasks db') = map t_task_id (artifact_tasks db)"
    "set (usage_records db) \<subseteq> set (usage_records db')" "C' \<subseteq> C"
  shows "conserved C' db'"
proof -
  have "balanced db' = balanced db" "evidenced db' = evidenced db"
    using assms(2-4) by (simp_all add: balanced_def settlementBalance_def jobBalance_def evidenced_def)
  note same = this assms(2-6)
  show ?thesis using assms(1) unfolding conserved_def same
    by (elim conjE, intro conjI) (assumption | use assms(7,8) in blast)+
qed

lemma quiet_conserved:
  assumes "conserved C db" "quiet lo db db'" "C' \<subseteq> C"
  shows "conserved C' db'"
proof -
  obtain g h where "jobQuiet g" "inference_jobs db' = map g (inference_jobs db)"
    "taskQuiet lo h" "artifact_tasks db' = map h (artifact_tasks db)" using assms(2) by (auto simp: quiet_def)
  then have "map j_job_id (inference_jobs db') = map j_job_id (inference_jobs db)"
    "map t_task_id (artifact_tasks db') = map t_task_id (artifact_tasks db)"
    by (auto simp: jobQuiet_def jobCalm_def taskQuiet_def taskCalm_def)
  with assms show ?thesis by (intro conserved_frame [OF assms(1)]) (auto simp: quiet_def)
qed

section \<open>Writing the entries\<close>

definition entry ::
  "string \<Rightarrow> string \<Rightarrow> string \<Rightarrow> string \<Rightarrow> string \<Rightarrow> string \<Rightarrow> string \<Rightarrow> string \<Rightarrow> LedgerRow" where
  "entry e t a i ty d m c = \<lparr>l_entry_id = e, l_tenant_id = t, l_account_id = a, l_job_id = Some i,
     l_entry_type = ty, l_direction = d, l_amount_micros = m, l_currency = ''CNY'', l_created_at = c\<rparr>"

lemma entry_simps [simp]:
  "l_entry_id (entry e t a i ty d m c) = e" "l_job_id (entry e t a i ty d m c) = Some i"
  "l_entry_type (entry e t a i ty d m c) = ty" "l_direction (entry e t a i ty d m c) = d"
  "l_amount_micros (entry e t a i ty d m c) = m"
  by (simp_all add: entry_def)

lemma ledger_write:
  assumes "insertLedgerOrIgnore row db = Inr (db', n)" "l_entry_id row \<notin> l_entry_id ` set (ledger_entries db)"
    "\<forall>l \<in> set (ledger_entries db). l_job_id l = l_job_id row \<longrightarrow> l_entry_type l \<noteq> l_entry_type row"
  shows "db' = db\<lparr>ledger_entries := ledger_entries db @ [row]\<rparr>"
proof -
  have "\<not> ledgerConflict db row" using assms(2,3) unfolding ledgerConflict_def list_ex_iff by (metis imageI)
  with assms(1) show ?thesis by (simp add: insertLedgerOrIgnore_def)
qed

lemma guarded_write:
  assumes "guardedInferenceLedgerInsert e t a i ty d m c g db = Inr (db', n) \<and> evidenceRecorded db i g \<or>
      guardedLedgerInsert e t a i ty d m c g db = Inr (db', n) \<and> taskEvidenceRecorded db i g"
    and "e \<notin> l_entry_id ` set (ledger_entries db)"
      "\<forall>l \<in> set (ledger_entries db). l_job_id l = Some i \<longrightarrow> l_entry_type l \<noteq> ty"
  shows "db' = db\<lparr>ledger_entries := ledger_entries db @ [entry e t a i ty d m c]\<rparr>"
proof -
  from assms(1) have "insertLedgerOrIgnore (entry e t a i ty d m c) db = Inr (db', n)"
    by (auto simp: guardedInferenceLedgerInsert_def guardedLedgerInsert_def entry_def)
  with assms(2,3) show ?thesis by (intro ledger_write) auto
qed

text \<open>The rows one settlement writes, and their sum.\<close>

definition settlementRows ::
  "string \<Rightarrow> string \<times> string \<times> string \<Rightarrow> string \<Rightarrow> string \<Rightarrow> SettlementAmounts \<Rightarrow> string \<Rightarrow> LedgerRow list" where
  "settlementRows i ids buyer supplier m at = (case ids of (d, c, f) \<Rightarrow>
     [entry d buyer (''buyer-'' @ buyer) i ''inference-debit'' ''debit'' (buyerChargeMicros m) at,
      entry c supplier (''supplier-'' @ supplier) i ''supplier-credit'' ''credit'' (supplierCreditMicros m) at] @
     (if platformFeeMicros m \<noteq> ''0''
      then [entry f ''platform'' ''platform-fees'' i ''platform-fee'' ''credit'' (platformFeeMicros m) at] else []))"

lemma settlement_split:
  "calculateSettlement q = Inr m \<Longrightarrow>
     BigInt_str (buyerChargeMicros m) = BigInt_str (supplierCreditMicros m) + BigInt_str (platformFeeMicros m)"
proof -
  assume "calculateSettlement q = Inr m"
  then obtain t b where q: "totalTokens q = NInt t" "0 < t" "platformFeeBps q = NInt b" "0 \<le> b" "b \<le> 5000"
    "is_pos_decimal (priceMicrosPerMillionTokens q)"
    and m: "buyerChargeMicros m = BigInt_toString (chargeOf t (BigInt_str (priceMicrosPerMillionTokens q)))"
      "platformFeeMicros m = BigInt_toString (feeOf (chargeOf t (BigInt_str (priceMicrosPerMillionTokens q))) b)"
      "supplierCreditMicros m = BigInt_toString (chargeOf t (BigInt_str (priceMicrosPerMillionTokens q)) -
         feeOf (chargeOf t (BigInt_str (priceMicrosPerMillionTokens q))) b)"
    by (auto simp: calculateSettlement_Inr Let_def)
  let ?c = "chargeOf t (BigInt_str (priceMicrosPerMillionTokens q))"
  have "0 < ?c" using q(2,6) by (rule chargeOf_pos)
  with feeOf_bounds [of ?c b] q(4,5) show ?thesis by (simp add: m)
qed

lemma settlementRows_sum:
  assumes "BigInt_str (buyerChargeMicros m) = BigInt_str (supplierCreditMicros m) + BigInt_str (platformFeeMicros m)"
  shows "sum_list (map settlementAmount (settlementRows i ids buyer supplier m at)) = 0"
proof -
  have "BigInt_str ''0'' = 0" by (simp add: BigInt_str_def nat_of_dec_def digit_val_def)
  with assms show ?thesis
    by (cases ids) (auto simp: settlementRows_def settlementAmount_def settlementTypes_def)
qed

lemma settlementRows_job: "l \<in> set (settlementRows i ids buyer supplier m at) \<Longrightarrow> l_job_id l = Some i"
  by (cases ids) (auto simp: settlementRows_def split: if_splits)

section \<open>Frames\<close>

text \<open>What no settlement statement changes, besides growing the usage records.\<close>

definition sameIds :: "database \<Rightarrow> database \<Rightarrow> bool" where
  "sameIds db db' \<longleftrightarrow> map j_job_id (inference_jobs db') = map j_job_id (inference_jobs db) \<and>
     map t_task_id (artifact_tasks db') = map t_task_id (artifact_tasks db) \<and>
     set (usage_records db) \<subseteq> set (usage_records db')"

lemma sameIds_refl [simp]: "sameIds db db"
  by (simp add: sameIds_def)

lemma sameIds_trans: "sameIds a b \<Longrightarrow> sameIds b c \<Longrightarrow> sameIds a c"
  by (auto simp: sameIds_def)

lemma COMPLETE_INFERENCE_frame:
  assumes "COMPLETE_INFERENCE_JOB_SQL x db = Inr (db', n)"
  shows "sameIds db db'" "ledger_entries db' = ledger_entries db" "service_evidence db' = service_evidence db"
    "artifact_task_evidence db' = artifact_task_evidence db"
proof -
  have "j_job_id (completedJob x j) = j_job_id j" for j by (simp add: completedJob_def split: prod.split)
  then have "map j_job_id (updateRows p (completedJob x) js) = map j_job_id js" for p js
    by (intro updateRows_keys)
  with assms show "sameIds db db'" "ledger_entries db' = ledger_entries db" "service_evidence db' = service_evidence db"
    "artifact_task_evidence db' = artifact_task_evidence db"
    by (auto simp: COMPLETE_INFERENCE_JOB_SQL_def updateJobs_def Let_def sameIds_def)
qed

lemma COMPLETE_ARTIFACT_frame:
  assumes "COMPLETE_ARTIFACT_TASK_SQL x db = Inr (db', n)"
  shows "sameIds db db'" "ledger_entries db' = ledger_entries db" "service_evidence db' = service_evidence db"
    "artifact_task_evidence db' = artifact_task_evidence db" "usage_records db' = usage_records db"
proof -
  have "t_task_id (completedTask x t) = t_task_id t" for t
    by (simp add: completedTask_def clearInstruction_def clearLease_def)
  then have "map t_task_id (updateRows p (completedTask x) ts) = map t_task_id ts" for p ts
    by (intro updateRows_keys)
  with assms show "sameIds db db'" "ledger_entries db' = ledger_entries db" "service_evidence db' = service_evidence db"
    "artifact_task_evidence db' = artifact_task_evidence db" "usage_records db' = usage_records db"
    by (auto simp: COMPLETE_ARTIFACT_TASK_SQL_def updateTasks_def Let_def sameIds_def)
qed

text \<open>Everything after the completion leaves jobs and tasks alone.\<close>

lemma settlement_frame:
  "insertInferenceUsage x db = Inr (db', n) \<Longrightarrow> sameIds db db' \<and> ledger_entries db' = ledger_entries db \<and>
     service_evidence db' = service_evidence db \<and> artifact_task_evidence db' = artifact_task_evidence db"
  "guardedInferenceAuditInsert x db = Inr (db', n) \<Longrightarrow> sameIds db db' \<and> ledger_entries db' = ledger_entries db \<and>
     service_evidence db' = service_evidence db \<and> artifact_task_evidence db' = artifact_task_evidence db"
  "insertTaskUsage y db = Inr (db', n) \<Longrightarrow> sameIds db db' \<and> ledger_entries db' = ledger_entries db \<and>
     service_evidence db' = service_evidence db \<and> artifact_task_evidence db' = artifact_task_evidence db"
  "insertTaskAudit y db = Inr (db', n) \<Longrightarrow> sameIds db db' \<and> ledger_entries db' = ledger_entries db \<and>
     service_evidence db' = service_evidence db \<and> artifact_task_evidence db' = artifact_task_evidence db"
  "extendArtifact y db = Inr (db', n) \<Longrightarrow> sameIds db db' \<and> ledger_entries db' = ledger_entries db \<and>
     service_evidence db' = service_evidence db \<and> artifact_task_evidence db' = artifact_task_evidence db"
  by (auto simp: insertInferenceUsage_def insertUsage_def guardedInferenceAuditInsert_def insertAudit_def
      insertTaskUsage_def insertTaskAudit_def extendArtifact_def updateArtifacts_def sameIds_def Let_def
      split: if_splits prod.splits)

lemma guarded_frame:
  "guardedInferenceLedgerInsert e t a i ty d m c g db = Inr (db', n) \<Longrightarrow> sameIds db db' \<and>
     service_evidence db' = service_evidence db \<and> artifact_task_evidence db' = artifact_task_evidence db"
  "guardedLedgerInsert e t a i ty d m c g db = Inr (db', n) \<Longrightarrow> sameIds db db' \<and>
     service_evidence db' = service_evidence db \<and> artifact_task_evidence db' = artifact_task_evidence db"
  by (auto simp: guardedInferenceLedgerInsert_def guardedLedgerInsert_def insertLedgerOrIgnore_def sameIds_def
      split: if_splits)

lemma guarded_skip:
  "\<not> evidenceRecorded db i g \<Longrightarrow> guardedInferenceLedgerInsert e t a i ty d m c g db = Inr (db', n) \<Longrightarrow> db' = db"
  "\<not> taskEvidenceRecorded db i g \<Longrightarrow> guardedLedgerInsert e t a i ty d m c g db = Inr (db', n) \<Longrightarrow> db' = db"
  by (simp_all add: guardedInferenceLedgerInsert_def guardedLedgerInsert_def)

lemma no_settlement_entry:
  assumes "conserved C db" "i \<notin> evidenced db" "ty \<in> set settlementTypes"
  shows "\<forall>l \<in> set (ledger_entries db). l_job_id l = Some i \<longrightarrow> l_entry_type l \<noteq> ty"
  using assms unfolding conserved_def by (metis option.inject)

definition freshEntries :: "string \<times> string \<times> string \<Rightarrow> database \<Rightarrow> bool" where
  "freshEntries ids db = (case ids of (d, c, f) \<Rightarrow> distinct [d, c, f] \<and>
     {d, c, f} \<inter> l_entry_id ` set (ledger_entries db) = {})"

section \<open>Inference\<close>

lemma inference_settlement_effect:
  assumes "conserved C db" "is_jobId x \<notin> evidenced db" "batch (settlementStatements x) db = Inr (db', ns)"
    "freshEntries (is_debitId x, is_creditId x, is_feeId x) db"
  shows "sameIds db db' \<and> artifact_task_evidence db' = artifact_task_evidence db \<and>
    (ledger_entries db' = ledger_entries db \<and> service_evidence db' = service_evidence db \<or>
     ledger_entries db' = ledger_entries db @ settlementRows (is_jobId x) (is_debitId x, is_creditId x, is_feeId x)
       (is_tenantId x) (is_supplierTenantId x) (is_amounts x) (is_completedAt x) \<and>
     service_evidence db' = service_evidence db @ [evidenceRow x] \<and>
     is_jobId x \<in> set (map j_job_id (inference_jobs db)))"
  using assms(3)
proof (rule settlement_batch_unfold, goal_cases)
  case (1 db1 db2 db3 db4 db5 db6 n1 n2 n3 n4 n5 n6 ns')
  note step = "1"
  let ?i = "is_jobId x"
  note f1 = COMPLETE_INFERENCE_frame [OF step(1)] and f2 = settlement_frame(1) [OF step(2)]
    and f4 = guarded_frame(1) [OF step(4)] and f5 = guarded_frame(1) [OF step(5)] and f6 = settlement_frame(2) [OF step(6)]
  have f7: "sameIds db6 db' \<and> service_evidence db' = service_evidence db6 \<and>
      artifact_task_evidence db' = artifact_task_evidence db6"
    using step(7) guarded_frame(1) by (auto split: if_splits)
  have f3: "sameIds db2 db3 \<and> ledger_entries db3 = ledger_entries db2 \<and>
      artifact_task_evidence db3 = artifact_task_evidence db2"
    using step(3) by (cases rule: insertServiceEvidence_cases) (auto simp: sameIds_def)
  have ids: "sameIds db db'"
    using f1(1) f2 f3 f4 f5 f6 f7 by (meson sameIds_trans)
  have te: "artifact_task_evidence db' = artifact_task_evidence db" using f1 f2 f3 f4 f5 f6 f7 by simp
  have l3: "ledger_entries db3 = ledger_entries db" using f1 f2 f3 by simp
  show ?case using step(3)
  proof (cases rule: insertServiceEvidence_cases)
    case 1
    have se: "service_evidence db3 = service_evidence db" using f1 f2 "1"(1) by simp
    have no: "\<not> evidenceRecorded d ?i (is_evidenceDigest x)" if "service_evidence d = service_evidence db" for d
      using that assms(2) unfolding evidenceRecorded_def list_ex_iff evidenced_def by (metis UnI1 imageI)
    have "db4 = db3" using guarded_skip(1) [OF no step(4)] se by simp
    moreover have "db5 = db4" using guarded_skip(1) [OF no step(5)] se f4 by simp
    moreover have "ledger_entries db' = ledger_entries db6"
    proof -
      have "service_evidence db6 = service_evidence db" using se f4 f5 f6 by simp
      then show ?thesis using step(7) by (auto split: if_splits dest: guarded_skip(1) [OF no])
    qed
    ultimately have "ledger_entries db' = ledger_entries db" using f6 l3 by simp
    with f4 f5 f6 f7 se ids te show ?thesis by simp
  next
    case 2
    have se: "service_evidence db3 = service_evidence db @ [evidenceRow x]" using f1 f2 "2"(1) by simp
    have rec: "evidenceRecorded d ?i (is_evidenceDigest x)" if "service_evidence d = service_evidence db3" for d
      using that by (simp add: se evidenceRecorded_def)
    have job: "?i \<in> set (map j_job_id (inference_jobs db))"
    proof -
      from "2"(2) have "?i \<in> set (map j_job_id (inference_jobs db2))" by (force simp: jobSettled_def)
      moreover have "map j_job_id (inference_jobs db2) = map j_job_id (inference_jobs db)"
        using f1(1) f2 by (simp add: sameIds_def)
      ultimately show ?thesis by simp
    qed
    note none = no_settlement_entry [OF assms(1,2)]
    have fresh: "distinct [is_debitId x, is_creditId x, is_feeId x]"
      "{is_debitId x, is_creditId x, is_feeId x} \<inter> l_entry_id ` set (ledger_entries db) = {}"
      using assms(4) by (simp_all add: freshEntries_def)
    have w4: "db4 = db3\<lparr>ledger_entries := ledger_entries db @ [entry (is_debitId x) (is_tenantId x) (''buyer-'' @ is_tenantId x) ?i
        ''inference-debit'' ''debit'' (buyerChargeMicros (is_amounts x)) (is_completedAt x)]\<rparr>"
      unfolding l3 [symmetric] using step(4) rec [of db3] fresh none [of "''inference-debit''"]
      by (intro guarded_write) (auto simp: l3 settlementTypes_def)
    have w5: "db5 = db4\<lparr>ledger_entries := ledger_entries db4 @ [entry (is_creditId x) (is_supplierTenantId x)
        (''supplier-'' @ is_supplierTenantId x) ?i ''supplier-credit'' ''credit'' (supplierCreditMicros (is_amounts x))
        (is_completedAt x)]\<rparr>"
      using step(5) rec [of db4] f4 fresh none [of "''supplier-credit''"]
      by (intro guarded_write) (auto simp: w4 settlementTypes_def)
    have w7: "db' = db6\<lparr>ledger_entries := ledger_entries db6 @ [entry (is_feeId x) ''platform'' ''platform-fees'' ?i
        ''platform-fee'' ''credit'' (platformFeeMicros (is_amounts x)) (is_completedAt x)]\<rparr>"
      if "platformFeeMicros (is_amounts x) \<noteq> ''0''"
      using that step(7) rec [of db6] f4 f5 f6 fresh none [of "''platform-fee''"]
      by (intro guarded_write) (auto simp: w4 w5 settlementTypes_def)
    have "ledger_entries db' = ledger_entries db @ settlementRows ?i (is_debitId x, is_creditId x, is_feeId x)
       (is_tenantId x) (is_supplierTenantId x) (is_amounts x) (is_completedAt x)"
    proof (cases "platformFeeMicros (is_amounts x) = ''0''")
      case True
      then have "db' = db6" using step(7) by simp
      with True f6 w4 w5 show ?thesis by (simp add: settlementRows_def)
    next
      case False
      with w7 f6 w4 w5 show ?thesis by (simp add: settlementRows_def)
    qed
    with se f4 f5 f6 f7 ids te job show ?thesis by simp
  qed
qed

text \<open>What a settlement does to the invariant.\<close>

lemma balanced_append:
  assumes "balanced db" "ledger_entries db' = ledger_entries db @ rows" "sum_list (map settlementAmount rows) = 0"
    and "\<And>l. l \<in> set rows \<Longrightarrow> l_job_id l = Some k"
    and "debitsOf k (ledger_entries db) = 0" "debitsOf k rows \<le> 1"
  shows "balanced db'"
proof -
  have own: "filter (\<lambda>l. l_job_id l = Some i) rows = (if i = k then rows else [])" for i
    using assms(4) by (induction rows) (auto split: if_splits)
  have "debitsOf i rows \<le> (if i = k then 1 else 0)" for i
    using assms(4,6) by (auto simp: debitsOf_def countRows_def filter_empty_conv)
  moreover have "debitsOf i (ledger_entries db) \<le> (if i = k then 0 else 1)" for i
    using assms(1,5) by (auto simp: balanced_def)
  ultimately have "debitsOf i (ledger_entries db') \<le> 1" for i
    using add_mono [of "debitsOf i (ledger_entries db)" "if i = k then 0 else 1" "debitsOf i rows" "if i = k then 1 else 0"]
    by (simp add: assms(2) debitsOf_def countRows_def split: if_splits)
  with assms(1,3) own show ?thesis
    by (simp add: balanced_def settlementBalance_def jobBalance_def assms(2))
qed

lemma settlementRows_debits: "debitsOf i (settlementRows i ids b s m a) \<le> 1"
  by (cases ids) (auto simp: settlementRows_def debitsOf_def countRows_def)

lemma no_debit:
  "conserved C db \<Longrightarrow> i \<notin> evidenced db \<Longrightarrow> debitsOf i (ledger_entries db) = 0"
  using no_settlement_entry [of C db i "''inference-debit''"]
  by (auto simp: debitsOf_def countRows_def filter_empty_conv settlementTypes_def)

lemma conserved_inference:
  assumes "conserved C db" "sameIds db db'" "artifact_task_evidence db' = artifact_task_evidence db"
    and "ledger_entries db' = ledger_entries db @ rows" "service_evidence db' = service_evidence db @ [e]"
    and "se_job_id e \<in> set (map j_job_id (inference_jobs db))" "sum_list (map settlementAmount rows) = 0"
    and "\<And>l. l \<in> set rows \<Longrightarrow> l_job_id l = Some (se_job_id e)"
    and "debitsOf (se_job_id e) (ledger_entries db) = 0" "debitsOf (se_job_id e) rows \<le> 1"
  shows "conserved (C - {se_job_id e}) db'"
proof -
  have ev: "evidenced db' = insert (se_job_id e) (evidenced db)" by (simp add: evidenced_def assms(3,5))
  have bal: "balanced db'"
    by (rule balanced_append [OF conservedD(1) [OF assms(1)] assms(4,7,8,9,10)])
  have ids: "map j_job_id (inference_jobs db') = map j_job_id (inference_jobs db)"
    "map t_task_id (artifact_tasks db') = map t_task_id (artifact_tasks db)"
    and us: "set (usage_records db) \<subseteq> set (usage_records db')" using assms(2) by (simp_all add: sameIds_def)
  note d = conservedD [OF assms(1)]
  show ?thesis
  proof (rule conservedI, unfold ev ids assms(3,4,5))
    show "(C - {se_job_id e}) \<inter> insert (se_job_id e) (evidenced db) = {}" using d(8) by blast
    show "\<exists>i \<in> insert (se_job_id e) (evidenced db). l_job_id l = Some i"
      if "l \<in> set (ledger_entries db @ rows)" "l_entry_type l \<in> set settlementTypes" for l
      using that d(2) assms(8) by (metis UnE insertI1 insertI2 set_append)
    show "se_job_id f \<in> set (map j_job_id (inference_jobs db))" if "f \<in> set (service_evidence db @ [e])" for f
      using that d(3) assms(6) by auto
    show "\<exists>u \<in> set (usage_records db'). u_job_id u = te_task_id f" if "f \<in> set (artifact_task_evidence db)" for f
      using d(5) [OF that] us by blast
  qed (fact bal d)+
qed

lemma conserved_task:
  assumes "conserved C db" "sameIds db db'" "service_evidence db' = service_evidence db"
    and "ledger_entries db' = ledger_entries db @ rows" "artifact_task_evidence db' = artifact_task_evidence db @ [e]"
    and "te_task_id e \<in> set (map t_task_id (artifact_tasks db))" "sum_list (map settlementAmount rows) = 0"
    and "\<And>l. l \<in> set rows \<Longrightarrow> l_job_id l = Some (te_task_id e)"
    and "\<exists>u \<in> set (usage_records db'). u_job_id u = te_task_id e" "\<forall>i \<in> C. isJobId i"
    and "debitsOf (te_task_id e) (ledger_entries db) = 0" "debitsOf (te_task_id e) rows \<le> 1"
  shows "conserved C db'"
proof -
  have ev: "evidenced db' = insert (te_task_id e) (evidenced db)" by (simp add: evidenced_def assms(3,5))
  have bal: "balanced db'"
    by (rule balanced_append [OF conservedD(1) [OF assms(1)] assms(4,7,8,11,12)])
  have ids: "map j_job_id (inference_jobs db') = map j_job_id (inference_jobs db)"
    "map t_task_id (artifact_tasks db') = map t_task_id (artifact_tasks db)"
    and us: "set (usage_records db) \<subseteq> set (usage_records db')" using assms(2) by (simp_all add: sameIds_def)
  have "te_task_id e \<notin> C"
    using assms(1,6,10) ids_disjoint unfolding conserved_def by blast
  note new = this and d = conservedD [OF assms(1)]
  show ?thesis
  proof (rule conservedI, unfold ev ids assms(3,4,5))
    show "C \<inter> insert (te_task_id e) (evidenced db) = {}" using d(8) new by blast
    show "\<exists>i \<in> insert (te_task_id e) (evidenced db). l_job_id l = Some i"
      if "l \<in> set (ledger_entries db @ rows)" "l_entry_type l \<in> set settlementTypes" for l
      using that d(2) assms(8) by (metis UnE insertI1 insertI2 set_append)
    show "te_task_id f \<in> set (map t_task_id (artifact_tasks db))" if "f \<in> set (artifact_task_evidence db @ [e])" for f
      using that d(4) assms(6) by auto
    show "\<exists>u \<in> set (usage_records db'). u_job_id u = te_task_id f" if "f \<in> set (artifact_task_evidence db @ [e])" for f
      using that d(5) [of f] us assms(9) by auto
  qed (fact bal d)+
qed

section \<open>Artifact tasks\<close>

lemma task_settlement_effect:
  assumes "conserved C db" "solvent db" "batch (taskSettlementStatements x) db = Inr (db', ns)"
    "freshEntries (ts_debitId x, ts_creditId x, ts_feeId x) db"
  defines "i \<equiv> t_task_id (ts_task x)"
  shows "sameIds db db' \<and> service_evidence db' = service_evidence db \<and>
    (ledger_entries db' = ledger_entries db \<and> artifact_task_evidence db' = artifact_task_evidence db \<or>
     ledger_entries db' = ledger_entries db @ settlementRows i (ts_debitId x, ts_creditId x, ts_feeId x)
       (t_buyer_tenant_id (ts_task x)) (t_supplier_tenant_id (ts_task x)) (ts_amounts x) (ts_now x) \<and>
     artifact_task_evidence db' = artifact_task_evidence db @ [taskEvidenceRow x] \<and>
     i \<in> set (map t_task_id (artifact_tasks db)) \<and> i \<notin> evidenced db \<and>
     (\<exists>u \<in> set (usage_records db'). u_job_id u = i))"
  using assms(3)
proof (rule task_batch_unfold, goal_cases)
  case (1 db1 db2 db3 db4 db5 db6 db7 n1 n2 n3 n4 n5 n6 n7 ns')
  note step = "1" [folded i_def]
  note f1 = COMPLETE_ARTIFACT_frame [OF step(1)] and f3 = guarded_frame(2) [OF step(3)]
    and f4 = guarded_frame(2) [OF step(4)] and f5 = settlement_frame(3) [OF step(5)]
    and f6 = settlement_frame(4) [OF step(6)] and f7 = settlement_frame(5) [OF step(7)]
  have f8: "sameIds db7 db' \<and> service_evidence db' = service_evidence db7 \<and>
      artifact_task_evidence db' = artifact_task_evidence db7"
    using step(8) guarded_frame(2) by (auto split: if_splits)
  have f2: "sameIds db1 db2 \<and> ledger_entries db2 = ledger_entries db1 \<and>
      service_evidence db2 = service_evidence db1 \<and> usage_records db2 = usage_records db1"
    using step(2) by (cases rule: insertTaskEvidence_cases) (auto simp: sameIds_def)
  have ids: "sameIds db db'"
    using f1(1) f2 f3 f4 f5 f6 f7 f8 by (meson sameIds_trans)
  have se: "service_evidence db' = service_evidence db" using f1 f2 f3 f4 f5 f6 f7 f8 by simp
  have l2: "ledger_entries db2 = ledger_entries db" using f1 f2 by simp
  show ?case using step(2)
  proof (cases rule: insertTaskEvidence_cases)
    case 1
    have te: "artifact_task_evidence db2 = artifact_task_evidence db" using f1 "1"(1) by simp
    have no: "\<not> taskEvidenceRecorded d i (ts_evidenceDigest x)"
      if same: "artifact_task_evidence d = artifact_task_evidence db" for d
    proof
      assume r: "taskEvidenceRecorded d i (ts_evidenceDigest x)"
      then obtain e where "e \<in> set (artifact_task_evidence db)" "te_task_id e = i"
        unfolding taskEvidenceRecorded_def list_ex_iff same by blast
      then obtain u where "u \<in> set (usage_records db)" "u_job_id u = i"
        using assms(1) unfolding conserved_def by metis
      moreover have "set (usage_records db) \<subseteq> set (usage_records db4)"
        using f1(1) f2 f3 f4 by (auto simp: sameIds_def)
      ultimately have "insertTaskUsage x db4 = Inl UniqueViolation"
        using r same te f3 f4 unfolding insertTaskUsage_def insertUsage_def Let_def i_def [symmetric]
        by (auto simp: taskEvidenceRecorded_def list_ex_iff)
      with step(5) show False by simp
    qed
    have "db3 = db2" using guarded_skip(2) [OF no step(3)] te by simp
    moreover have "db4 = db3" using guarded_skip(2) [OF no step(4)] te f3 by simp
    moreover have "ledger_entries db' = ledger_entries db7"
    proof -
      have "artifact_task_evidence db7 = artifact_task_evidence db" using te f3 f4 f5 f6 f7 by simp
      then show ?thesis using step(8) by (auto split: if_splits dest: guarded_skip(2) [OF no])
    qed
    ultimately have "ledger_entries db' = ledger_entries db" using f5 f6 f7 l2 by simp
    with f3 f4 f5 f6 f7 f8 te ids se show ?thesis by simp
  next
    case 2
    have te: "artifact_task_evidence db2 = artifact_task_evidence db @ [taskEvidenceRow x]" using f1 "2"(1) by simp
    have rec: "taskEvidenceRecorded d i (ts_evidenceDigest x)"
      if "artifact_task_evidence d = artifact_task_evidence db2" for d
      using that by (simp add: te taskEvidenceRecorded_def i_def)
    have task: "i \<in> set (map t_task_id (artifact_tasks db))"
    proof -
      from "2"(2) have "i \<in> set (map t_task_id (artifact_tasks db1))"
        unfolding taskSettled_def i_def set_map by (metis imageI)
      then show ?thesis using f1(1) unfolding sameIds_def by argo
    qed
    have new: "i \<notin> evidenced db"
    proof -
      have "i \<notin> te_task_id ` set (artifact_task_evidence db)" using "2"(3) f1(4) by (auto simp: i_def)
      moreover have "i \<notin> se_job_id ` set (service_evidence db)"
        using task assms(1) ids_disjoint unfolding conserved_def by blast
      ultimately show ?thesis by (simp add: evidenced_def)
    qed
    note none = no_settlement_entry [OF assms(1) new]
    have fresh: "distinct [ts_debitId x, ts_creditId x, ts_feeId x]"
      "{ts_debitId x, ts_creditId x, ts_feeId x} \<inter> l_entry_id ` set (ledger_entries db) = {}"
      using assms(4) by (simp_all add: freshEntries_def)
    let ?b = "t_buyer_tenant_id (ts_task x)" and ?s = "t_supplier_tenant_id (ts_task x)"
    have w3: "db3 = db2\<lparr>ledger_entries := ledger_entries db @ [entry (ts_debitId x) ?b (''buyer-'' @ ?b) i
        ''inference-debit'' ''debit'' (buyerChargeMicros (ts_amounts x)) (ts_now x)]\<rparr>"
      unfolding l2 [symmetric] using step(3) rec [of db2] fresh none [of "''inference-debit''"]
      by (intro guarded_write) (auto simp: l2 settlementTypes_def)
    have w4: "db4 = db3\<lparr>ledger_entries := ledger_entries db3 @ [entry (ts_creditId x) ?s
        (''supplier-'' @ ?s) i ''supplier-credit'' ''credit'' (supplierCreditMicros (ts_amounts x)) (ts_now x)]\<rparr>"
      using step(4) rec [of db3] f3 fresh none [of "''supplier-credit''"]
      by (intro guarded_write) (auto simp: w3 settlementTypes_def)
    have l7: "ledger_entries db7 = ledger_entries db4" using f5 f6 f7 by simp
    have w8: "db' = db7\<lparr>ledger_entries := ledger_entries db7 @ [entry (ts_feeId x) ''platform'' ''platform-fees'' i
        ''platform-fee'' ''credit'' (platformFeeMicros (ts_amounts x)) (ts_now x)]\<rparr>"
      if "platformFeeMicros (ts_amounts x) \<noteq> ''0''"
      using that step(8) rec [of db7] f3 f4 f5 f6 f7 fresh none [of "''platform-fee''"]
      by (intro guarded_write) (auto simp: l7 w3 w4 settlementTypes_def)
    have led: "ledger_entries db' = ledger_entries db @ settlementRows i (ts_debitId x, ts_creditId x, ts_feeId x)
       ?b ?s (ts_amounts x) (ts_now x)"
    proof (cases "platformFeeMicros (ts_amounts x) = ''0''")
      case True
      then have "db' = db7" using step(8) by simp
      with True l7 w3 w4 show ?thesis by (simp add: settlementRows_def)
    next
      case False
      with w8 l7 w3 w4 show ?thesis by (simp add: settlementRows_def)
    qed
    have "\<exists>u \<in> set (usage_records db5). u_job_id u = i"
      using step(5) rec [of db4] f3 f4 unfolding insertTaskUsage_def insertUsage_def Let_def i_def [symmetric]
      by (auto split: if_splits)
    then have "\<exists>u \<in> set (usage_records db'). u_job_id u = i"
      using f6 f7 f8 by (auto simp: sameIds_def)
    with led te f3 f4 f5 f6 f7 f8 ids se task new show ?thesis by simp
  qed
qed

end
