(* ===== verification/SupplyDesk.thy ===== *)
theory SupplyDesk
  imports Lifecycle
begin

text \<open>
  The write batches of the supplier's side of \<^verbatim>\<open>apps/web/server/marketplace-service.ts\<close>:
  registration, submission of an authorization request, publication of a capacity offer and the
  supply switch. Events, ciphertexts, digests and generated identifiers are arguments.
\<close>

section \<open>Registration and submission\<close>

text \<open>The primary key and the unique indexes on tenant and user.\<close>

definition insertSupplier :: "SupplierRow \<Rightarrow> stmt" where
  "insertSupplier row db =
     (if list_ex (\<lambda>s. s_supplier_id s = s_supplier_id row \<or> s_tenant_id s = s_tenant_id row \<or>
          s_user_id s = s_user_id row) (suppliers db)
      then Inl UniqueViolation
      else Inr (db\<lparr>suppliers := suppliers db @ [row]\<rparr>, 1))"

definition insertAuthorization :: "AuthorizationRow \<Rightarrow> stmt" where
  "insertAuthorization row db =
     (if list_ex (\<lambda>ar. ar_request_id ar = ar_request_id row) (authorization_requests db)
      then Inl UniqueViolation
      else Inr (db\<lparr>authorization_requests := authorization_requests db @ [row]\<rparr>, 1))"

definition idempotencyInsert :: "IdempotencyRow \<Rightarrow> stmt" where
  "idempotencyInsert row db =
     (if keyConflict db row then Inl UniqueViolation
      else Inr (db\<lparr>idempotency_keys := idempotency_keys db @ [row]\<rparr>, 1))"

definition registeredSupplier ::
  "string \<Rightarrow> string \<Rightarrow> string \<Rightarrow> string \<Rightarrow> string \<Rightarrow> string \<Rightarrow> string \<Rightarrow> string \<Rightarrow> string \<Rightarrow> SupplierRow" where
  "registeredSupplier supplierId tenantId userId kind legalName displayName countryCode taxCountry now =
     \<lparr>s_supplier_id = supplierId, s_tenant_id = tenantId, s_user_id = userId, s_kind = kind,
      s_legal_name = legalName, s_display_name = displayName, s_country_code = countryCode,
      s_tax_residence_country_code = taxCountry, s_status = ''pending-verification'',
      s_supply_enabled = 0, s_version = 1, s_created_at = now, s_updated_at = now\<rparr>"

definition registerBatch :: "EventRow \<Rightarrow> SupplierRow \<Rightarrow> AuditRow \<Rightarrow> string \<Rightarrow> stmt list" where
  "registerBatch event row audit commandId =
     [insertEvent event, insertSupplier row, insertAudit audit,
      idempotencyInsert \<lparr>k_tenant_id = s_tenant_id row, k_operation = ''supplier.register'',
        k_idempotency_key = commandId, k_resource_id = s_supplier_id row, k_created_at = s_created_at row\<rparr>]"

text \<open>A submitted request: columns the insert does not list take their defaults.\<close>

definition submitted :: "AuthorizationRow \<Rightarrow> bool" where
  "submitted ar \<longleftrightarrow> ar_status ar = ''pending'' \<and> ar_authorization_revision ar = 1 \<and>
     ar_review_note ar = None \<and> ar_reviewed_by ar = None \<and> ar_review_command_id ar = None \<and>
     ar_reviewed_at ar = None \<and> ar_credential_rotated_at ar = None \<and> ar_revoked_at ar = None \<and>
     ar_revocation_reason_code ar = None"

definition submitBatch :: "AuthorizationRow \<Rightarrow> AuditRow \<Rightarrow> string \<Rightarrow> stmt list" where
  "submitBatch row audit commandId =
     [insertAuthorization row, insertAudit audit,
      idempotencyInsert \<lparr>k_tenant_id = ar_tenant_id row, k_operation = ''authorization.submit'',
        k_idempotency_key = commandId, k_resource_id = ar_request_id row, k_created_at = ar_created_at row\<rparr>]"

section \<open>Offers\<close>

definition offerStored :: "database \<Rightarrow> string \<Rightarrow> string \<Rightarrow> bool" where
  "offerStored db offerId tenantId = list_ex (\<lambda>off. o_offer_id off = offerId \<and> o_tenant_id off = tenantId)
     (capacity_offers db)"

definition guardedCapacityOfferEventInsert :: "EventRow \<Rightarrow> string \<Rightarrow> string \<Rightarrow> stmt" where
  "guardedCapacityOfferEventInsert event offerId tenantId db =
     (if offerStored db offerId tenantId then insertEvent event db else Inr (db, 0))"

definition guardedCapacityOfferAuditInsert ::
  "string \<Rightarrow> string \<Rightarrow> string \<Rightarrow> string \<Rightarrow> string \<Rightarrow> string \<Rightarrow> stmt" where
  "guardedCapacityOfferAuditInsert auditId tenantId actorId offerId details occurredAt db =
     (if offerStored db offerId tenantId
      then insertAudit \<lparr>ad_audit_id = auditId, ad_tenant_id = tenantId, ad_actor_id = actorId,
        ad_action = ''offer.published'', ad_resource_type = ''capacity-offer'', ad_resource_id = offerId,
        ad_details_json = details, ad_occurred_at = occurredAt\<rparr> db
      else Inr (db, 0))"

definition createOfferBatch ::
  "OfferRow \<Rightarrow> int \<Rightarrow> int \<Rightarrow> string \<Rightarrow> string \<Rightarrow> EventRow \<Rightarrow> string \<Rightarrow> string \<Rightarrow> string \<Rightarrow> stmt list" where
  "createOfferBatch row revision supplierVersion commandId binding event auditId actorId details =
     [CREATE_CAPACITY_OFFER_WITH_AUTHORIZATION_CAS_SQL row revision supplierVersion commandId,
      guardedCapacityOfferEventInsert event (o_offer_id row) (o_tenant_id row),
      guardedCapacityOfferAuditInsert auditId (o_tenant_id row) actorId (o_offer_id row) details
        (o_created_at row),
      BIND_CAPACITY_OFFER_COMMAND_SQL (o_tenant_id row) commandId binding (o_created_at row)
        (o_offer_id row) (o_supplier_id row)]"

section \<open>The supply switch\<close>

definition usableAuthorization :: "database \<Rightarrow> string \<Rightarrow> string \<Rightarrow> string \<Rightarrow> bool" where
  "usableAuthorization db tenantId supplierId now = list_ex (\<lambda>ar. ar_tenant_id ar = tenantId \<and>
     ar_supplier_id ar = supplierId \<and> ar_status ar = ''approved'' \<and> now < ar_valid_until ar \<and>
     ar_encrypted_gateway_token ar \<noteq> [] \<and> ar_gateway_token_iv ar \<noteq> [] \<and>
     ar_gateway_token_digest ar \<noteq> None) (authorization_requests db)"

definition supplySetTo :: "database \<Rightarrow> string \<Rightarrow> string \<Rightarrow> int \<Rightarrow> bool" where
  "supplySetTo db supplierId tenantId flag = list_ex (\<lambda>s. s_supplier_id s = supplierId \<and>
     s_tenant_id s = tenantId \<and> s_supply_enabled s = flag) (suppliers db)"

definition setSupplyBatch ::
  "string \<Rightarrow> string \<Rightarrow> string \<Rightarrow> bool \<Rightarrow> string \<Rightarrow> string \<Rightarrow> string \<Rightarrow> stmt list" where
  "setSupplyBatch supplierId tenantId actorId enabled commandId auditId now = (let flag = (if enabled then 1 else 0) in
     [(\<lambda>db. updateSuppliers (\<lambda>s. s_supplier_id s = supplierId \<and> s_tenant_id s = tenantId \<and>
            (flag = 0 \<or> usableAuthorization db tenantId supplierId now))
          (\<lambda>s. s\<lparr>s_supply_enabled := flag, s_updated_at := now\<rparr>) db),
      (\<lambda>db. if supplySetTo db supplierId tenantId flag
         then insertAudit \<lparr>ad_audit_id = auditId, ad_tenant_id = tenantId, ad_actor_id = actorId,
           ad_action = (if enabled then ''supply.enabled'' else ''supply.disabled''),
           ad_resource_type = ''supplier'', ad_resource_id = supplierId, ad_details_json = ''{}'',
           ad_occurred_at = now\<rparr> db
         else Inr (db, 0)),
      (\<lambda>db. if supplySetTo db supplierId tenantId flag
         then idempotencyInsert \<lparr>k_tenant_id = tenantId, k_operation = ''supply.set'',
           k_idempotency_key = commandId, k_resource_id = supplierId, k_created_at = now\<rparr> db
         else Inr (db, 0))])"

end
