(* ===== verification/RuntimePolicy.thy ===== *)
theory RuntimePolicy
  imports Database
begin

text \<open>
  The run-time policy of the control plane (\<^verbatim>\<open>apps/web/server/runtime-policy.ts\<close>): constants and
  the two settings read from the environment. \<open>Number\<close> applied to a string is a parameter of the
  model; the settings that are absent are \<open>None\<close>.
\<close>

type_synonym toNumber = "string \<Rightarrow> jsnum"

datatype PolicyError = BadIntegerSetting | BadDecimalSetting

record RuntimeEnv =
  env_platformFeeBps :: "string option"
  env_welcomeCreditMicros :: "string option"

record MarketplaceRuntimePolicy =
  mp_platformFeeBps :: jsnum
  mp_welcomeCreditMicros :: string
  mp_maximumInputCharacters :: int
  mp_maximumGatewayResponseBytes :: int
  mp_inferenceRequestsPerMinute :: int
  mp_inferenceReservationTimeoutSeconds :: int
  mp_retention :: MarketplacePrivacyRetentionPolicy
  mp_maximumTenantArtifactBytes :: int
  mp_maximumActiveArtifactTasksPerTenant :: int
  mp_artifactLeaseMinutes :: int
  mp_artifactMaximumExecutionMinutes :: int
  mp_artifactQueueTimeoutMinutes :: int
  mp_artifactMaximumAttempts :: int

definition integerSetting :: "toNumber \<Rightarrow> string option \<Rightarrow> int \<Rightarrow> int \<Rightarrow> int \<Rightarrow> PolicyError + jsnum" where
  "integerSetting num raw fallback minimum maximum =
     (if raw = None \<or> raw = Some [] then Inr (NInt fallback)
      else let value = num (the raw) in
        andThen (throwIf (\<not> isSafeInteger value \<or> numLt value minimum \<or> numGt value maximum)
          BadIntegerSetting) (\<lambda>_. Inr value))"

text \<open>The pattern of \<open>decimalSetting\<close>: zero, or at most sixteen digits without a leading zero.\<close>

definition decimalPattern :: "string \<Rightarrow> bool" where
  "decimalPattern s \<longleftrightarrow> s = ''0'' \<or> (is_pos_decimal s \<and> length s \<le> 16)"

definition decimalSetting :: "string option \<Rightarrow> string \<Rightarrow> PolicyError + string" where
  "decimalSetting raw fallback =
     (let value = (case raw of None \<Rightarrow> fallback | Some v \<Rightarrow> v) in
      andThen (throwIf (\<not> decimalPattern value) BadDecimalSetting) (\<lambda>_. Inr value))"

definition getMarketplaceRuntimePolicy :: "toNumber \<Rightarrow> RuntimeEnv \<Rightarrow> PolicyError + MarketplaceRuntimePolicy" where
  "getMarketplaceRuntimePolicy num env =
     andThen (integerSetting num (env_platformFeeBps env) 1200 0 5000) (\<lambda>fee.
     andThen (decimalSetting (env_welcomeCreditMicros env) ''100000000'') (\<lambda>credit.
     Inr \<lparr>mp_platformFeeBps = fee, mp_welcomeCreditMicros = credit,
       mp_maximumInputCharacters = 40000, mp_maximumGatewayResponseBytes = 2000000,
       mp_inferenceRequestsPerMinute = 5, mp_inferenceReservationTimeoutSeconds = 120,
       mp_retention = \<lparr>standardOutputRetentionHours = NInt 24, standardArtifactRetentionHours = NInt 48,
         strictOutputRetentionMinutes = NInt 60, strictArtifactRetentionMinutes = NInt 60\<rparr>,
       mp_maximumTenantArtifactBytes = 512 * 1024 * 1024, mp_maximumActiveArtifactTasksPerTenant = 3,
       mp_artifactLeaseMinutes = 5, mp_artifactMaximumExecutionMinutes = 360,
       mp_artifactQueueTimeoutMinutes = 30, mp_artifactMaximumAttempts = 3\<rparr>))"

section \<open>Bounds\<close>

lemma digit_val_le: "is_digit c \<Longrightarrow> digit_val c \<le> 9"
  by (auto simp: is_digit_def digit_val_def)

lemma nat_of_dec_bound: "list_all is_digit s \<Longrightarrow> nat_of_dec s < 10 ^ length s"
proof (induction s rule: rev_induct)
  case Nil
  then show ?case by (simp add: nat_of_dec_def)
next
  case (snoc c s)
  then have "nat_of_dec s < 10 ^ length s" "digit_val c \<le> 9" using digit_val_le by auto
  then show ?case by (simp add: nat_of_dec_snoc)
qed

lemma decimalPattern_digits: "decimalPattern s \<Longrightarrow> list_all is_digit s \<and> s \<noteq> [] \<and> length s \<le> 16"
  by (cases s) (auto simp: decimalPattern_def is_digit_def)

lemma castInteger_decimalPattern:
  assumes "decimalPattern s"
  shows "castInteger s = BigInt_str s" "0 \<le> castInteger s" "castInteger s < 10 ^ 16"
proof -
  from decimalPattern_digits [OF assms] obtain c cs where s: "s = c # cs" "is_digit c" "list_all is_digit cs"
    and len: "length s \<le> 16" by (cases s) auto
  have "castDigits s = int (nat_of_dec s)"
    using s digit_not_special by (simp add: takeWhile_all)
  moreover have "dropWhile is_js_space s = s" using s digit_not_special by simp
  moreover have small: "int (nat_of_dec s) < 10 ^ 16"
  proof -
    have "nat_of_dec s < 10 ^ length s" using s by (intro nat_of_dec_bound) simp
    also have "(10 :: nat) ^ length s \<le> 10 ^ 16" using len by (intro power_increasing) simp_all
    finally have "nat_of_dec s < 10 ^ 16" .
    then have "int (nat_of_dec s) < int (10 ^ 16)" by (simp only: of_nat_less_iff)
    then show ?thesis by simp
  qed
  ultimately have "castInteger s = int (nat_of_dec s)"
    by (simp add: castInteger_def clampInt64_def INT64_MAX_def INT64_MIN_def)
  with small show "castInteger s = BigInt_str s" "0 \<le> castInteger s" "castInteger s < 10 ^ 16"
    by (simp_all add: BigInt_str_def)
qed

text \<open>
  C23: Whatever the environment says, a policy that is returned is in range: the fee is a safe
  integer from 0 to 5000 basis points, so no settlement of a positive usage at a well-formed price
  is refused because of it, and the welcome credit is read by the database as exactly the amount
  written, below \<open>10 ^ 16\<close>.
\<close>

theorem policy_in_range:
  assumes "getMarketplaceRuntimePolicy num env = Inr p"
  shows "(\<exists>fee. mp_platformFeeBps p = NInt fee \<and> 0 \<le> fee \<and> fee \<le> 5000) \<and>
    (\<forall>t price. 0 < t \<and> t \<le> MAX_SAFE_INTEGER \<and> is_pos_decimal price \<longrightarrow>
       (\<exists>r. calculateSettlement \<lparr>totalTokens = NInt t, priceMicrosPerMillionTokens = price,
          platformFeeBps = mp_platformFeeBps p\<rparr> = Inr r)) \<and>
    castInteger (mp_welcomeCreditMicros p) = BigInt_str (mp_welcomeCreditMicros p) \<and>
    0 \<le> castInteger (mp_welcomeCreditMicros p) \<and> castInteger (mp_welcomeCreditMicros p) < 10 ^ 16"
proof -
  from assms have "decimalPattern (mp_welcomeCreditMicros p)"
    and f: "integerSetting num (env_platformFeeBps env) 1200 0 5000 = Inr (mp_platformFeeBps p)"
    by (auto simp: getMarketplaceRuntimePolicy_def decimalSetting_def Let_def)
  moreover from f obtain fee where fee: "mp_platformFeeBps p = NInt fee" "0 \<le> fee" "fee \<le> 5000"
    by (cases "mp_platformFeeBps p") (auto simp: integerSetting_def Let_def split: if_splits)
  moreover have "\<exists>r. calculateSettlement \<lparr>totalTokens = NInt t, priceMicrosPerMillionTokens = price,
      platformFeeBps = NInt fee\<rparr> = Inr r" if "0 < t" "t \<le> MAX_SAFE_INTEGER" "is_pos_decimal price" for t price
    using that fee(2,3) by (auto simp: calculateSettlement_def MAX_SAFE_INTEGER_def Let_def)
  ultimately show ?thesis using castInteger_decimalPattern by simp
qed

theorem policy_in_range_witness:
  "\<exists>p. getMarketplaceRuntimePolicy (\<lambda>_. NInt 900)
       \<lparr>env_platformFeeBps = Some ''900'', env_welcomeCreditMicros = None\<rparr> = Inr p \<and>
     mp_platformFeeBps p = NInt 900 \<and> castInteger (mp_welcomeCreditMicros p) < 10 ^ 16"
proof -
  let ?e = "\<lparr>env_platformFeeBps = Some ''900'', env_welcomeCreditMicros = None\<rparr>"
  have "decimalPattern ''100000000''" by (simp add: decimalPattern_def is_digit_def)
  then obtain p where p: "getMarketplaceRuntimePolicy (\<lambda>_. NInt 900) ?e = Inr p" "mp_platformFeeBps p = NInt 900"
    by (simp add: getMarketplaceRuntimePolicy_def integerSetting_def decimalSetting_def MAX_SAFE_INTEGER_def)
  with policy_in_range [OF p(1)] show ?thesis by blast
qed

end
