(* ===== verification/Utf8.thy ===== *)
theory Utf8
  imports Prelude "HOL-Library.Word"
begin

text \<open>
  Text beyond Latin-1: strings as the UTF-16 code units JavaScript has, the byte length of their UTF-8
  form, and \<open>TextDecoder("utf-8", { fatal: true })\<close> as the state machine of the Encoding standard,
  fed piece by piece.
\<close>

unbundle bit_operations_syntax

type_synonym byte = "8 word"
type_synonym jsText = "16 word list"

text \<open>The text of a Latin-1 string.\<close>

definition textOf :: "string \<Rightarrow> jsText" where
  "textOf s = map (\<lambda>c. of_nat (of_char c)) s"

fun joinText :: "jsText \<Rightarrow> jsText list \<Rightarrow> jsText" where
  "joinText sep [] = []"
| "joinText sep [t] = t"
| "joinText sep (t # u # ts) = t @ sep @ joinText sep (u # ts)"

definition isHighSurrogate :: "16 word \<Rightarrow> bool" where
  "isHighSurrogate u \<longleftrightarrow> 0xD800 \<le> unat u \<and> unat u \<le> 0xDBFF"

definition isLowSurrogate :: "16 word \<Rightarrow> bool" where
  "isLowSurrogate u \<longleftrightarrow> 0xDC00 \<le> unat u \<and> unat u \<le> 0xDFFF"

text \<open>\<open>Buffer.byteLength(text, "utf8")\<close>: a pair of surrogates takes four bytes, a lone one three.\<close>

fun utf8Length :: "jsText \<Rightarrow> nat" where
  "utf8Length [] = 0"
| "utf8Length [u] = (if unat u < 0x80 then 1 else if unat u < 0x800 then 2 else 3)"
| "utf8Length (u # v # us) =
     (if isHighSurrogate u \<and> isLowSurrogate v then 4 + utf8Length us
      else (if unat u < 0x80 then 1 else if unat u < 0x800 then 2 else 3) + utf8Length (v # us))"

section \<open>The decoder\<close>

record Utf8Decoder =
  ud_codePoint :: nat
  ud_needed :: nat
  ud_seen :: nat
  ud_lower :: nat
  ud_upper :: nat
  ud_bomSeen :: bool

definition newDecoder :: Utf8Decoder where
  "newDecoder = \<lparr>ud_codePoint = 0, ud_needed = 0, ud_seen = 0, ud_lower = 0x80, ud_upper = 0xBF, ud_bomSeen = False\<rparr>"

definition utf16 :: "nat \<Rightarrow> jsText" where
  "utf16 cp = (if cp < 0x10000 then [of_nat cp]
     else [of_nat (0xD800 + (cp - 0x10000) div 0x400), of_nat (0xDC00 + (cp - 0x10000) mod 0x400)])"

text \<open>A code point is finished; a byte order mark at the start is dropped.\<close>

definition finishCodePoint :: "nat \<Rightarrow> Utf8Decoder \<Rightarrow> Utf8Decoder \<times> jsText" where
  "finishCodePoint cp d =
     (d\<lparr>ud_codePoint := 0, ud_needed := 0, ud_seen := 0, ud_lower := 0x80, ud_upper := 0xBF, ud_bomSeen := True\<rparr>,
      if \<not> ud_bomSeen d \<and> cp = 0xFEFF then [] else utf16 cp)"

definition decodeByte :: "Utf8Decoder \<Rightarrow> byte \<Rightarrow> (Utf8Decoder \<times> jsText) option" where
  "decodeByte d byte =
     (let b = unat byte in
      if ud_needed d = 0 then
        (if b \<le> 0x7F then Some (finishCodePoint b d)
         else if 0xC2 \<le> b \<and> b \<le> 0xDF then Some (d\<lparr>ud_needed := 1, ud_codePoint := unat (byte AND 0x1F)\<rparr>, [])
         else if 0xE0 \<le> b \<and> b \<le> 0xEF then
           Some (d\<lparr>ud_lower := if b = 0xE0 then 0xA0 else ud_lower d, ud_upper := if b = 0xED then 0x9F else ud_upper d,
             ud_needed := 2, ud_codePoint := unat (byte AND 0xF)\<rparr>, [])
         else if 0xF0 \<le> b \<and> b \<le> 0xF4 then
           Some (d\<lparr>ud_lower := if b = 0xF0 then 0x90 else ud_lower d, ud_upper := if b = 0xF4 then 0x8F else ud_upper d,
             ud_needed := 3, ud_codePoint := unat (byte AND 7)\<rparr>, [])
         else None)
      else if b < ud_lower d \<or> ud_upper d < b then None
      else let cp = ud_codePoint d * 64 + unat (byte AND 0x3F); seen = ud_seen d + 1 in
        if seen = ud_needed d then Some (finishCodePoint cp d)
        else Some (d\<lparr>ud_lower := 0x80, ud_upper := 0xBF, ud_codePoint := cp, ud_seen := seen\<rparr>, []))"

fun decodeBytes :: "Utf8Decoder \<Rightarrow> byte list \<Rightarrow> (Utf8Decoder \<times> jsText) option" where
  "decodeBytes d [] = Some (d, [])"
| "decodeBytes d (b # bs) = (case decodeByte d b of None \<Rightarrow> None
     | Some (d1, t) \<Rightarrow> (case decodeBytes d1 bs of None \<Rightarrow> None | Some (d2, u) \<Rightarrow> Some (d2, t @ u)))"

text \<open>\<open>decoder.decode(bytes, { stream })\<close>; \<open>None\<close> is the \<open>TypeError\<close> of a fatal decoder.\<close>

definition decodeText :: "Utf8Decoder \<Rightarrow> byte list \<Rightarrow> bool \<Rightarrow> (Utf8Decoder \<times> jsText) option" where
  "decodeText d bytes stream = (case decodeBytes d bytes of None \<Rightarrow> None
     | Some (d1, t) \<Rightarrow> if stream then Some (d1, t) else if ud_needed d1 = 0 then Some (newDecoder, t) else None)"

lemma decodeBytes_append:
  "decodeBytes d (as @ bs) = (case decodeBytes d as of None \<Rightarrow> None
     | Some (d1, t) \<Rightarrow> (case decodeBytes d1 bs of None \<Rightarrow> None | Some (d2, u) \<Rightarrow> Some (d2, t @ u)))"
  by (induction as arbitrary: d) (auto split: option.splits prod.splits)

end
