(* ===== verification/ArtifactStore.thy ===== *)
theory ArtifactStore
  imports Lifecycle Utf8
begin

text \<open>
  The encrypted files of buyers: the tables \<open>artifacts\<close>, \<open>artifact_chunks\<close> and
  \<open>artifact_object_deletions\<close>, the object store that holds the ciphertexts, and the statements on them
  (\<^verbatim>\<open>apps/web/server/artifact-storage-invariants.ts\<close>, \<^verbatim>\<open>artifact-service.ts\<close>). The columns of the two chunk
  tables that hold \<open>toISOString\<close> texts are kept as the milliseconds they denote, in the order of which
  those texts compare.
\<close>

section \<open>Tables and objects\<close>

record ArtifactChunkRow =
  ch_artifact_id :: string
  ch_tenant_id :: string
  ch_part_number :: int
  ch_size_bytes :: int
  ch_plaintext_sha256 :: string
  ch_ciphertext_sha256 :: string
  ch_storage_key :: string
  ch_iv :: string
  ch_upload_status :: string
  ch_uploaded_at :: int

record ObjectDeletionRow =
  od_storage_key :: string
  od_artifact_id :: string
  od_tenant_id :: string
  od_next_attempt_at :: int
  od_retain_until :: int
  od_attempts :: int
  od_created_at :: int
  od_updated_at :: int

text \<open>The object store is the map from keys to contents; only the keys the chunk rows name are used.\<close>

record fileStore =
  fs_database :: database
  artifact_chunks :: "ArtifactChunkRow list"
  artifact_object_deletions :: "ObjectDeletionRow list"
  bucket :: "string \<rightharpoonup> byte list"

type_synonym fileStmt = "fileStore \<Rightarrow> dbError + (fileStore \<times> nat)"

text \<open>Statements on the tables of \<open>database\<close>, and updates and deletions on the chunk tables.\<close>

definition onDatabase :: "stmt \<Rightarrow> fileStmt" where
  "onDatabase s st = andThen (s (fs_database st)) (\<lambda>(db, n). Inr (st\<lparr>fs_database := db\<rparr>, n))"

definition updateChunks :: "(ArtifactChunkRow \<Rightarrow> bool) \<Rightarrow> (ArtifactChunkRow \<Rightarrow> ArtifactChunkRow) \<Rightarrow> fileStmt" where
  "updateChunks p f st =
     Inr (st\<lparr>artifact_chunks := updateRows p f (artifact_chunks st)\<rparr>, countRows p (artifact_chunks st))"

definition deleteChunks :: "(ArtifactChunkRow \<Rightarrow> bool) \<Rightarrow> fileStmt" where
  "deleteChunks p st =
     Inr (st\<lparr>artifact_chunks := filter (\<lambda>c. \<not> p c) (artifact_chunks st)\<rparr>, countRows p (artifact_chunks st))"

definition updateDeletions :: "(ObjectDeletionRow \<Rightarrow> bool) \<Rightarrow> (ObjectDeletionRow \<Rightarrow> ObjectDeletionRow) \<Rightarrow> fileStmt" where
  "updateDeletions p f st =
     Inr (st\<lparr>artifact_object_deletions := updateRows p f (artifact_object_deletions st)\<rparr>,
          countRows p (artifact_object_deletions st))"

definition deleteDeletions :: "(ObjectDeletionRow \<Rightarrow> bool) \<Rightarrow> fileStmt" where
  "deleteDeletions p st =
     Inr (st\<lparr>artifact_object_deletions := filter (\<lambda>q. \<not> p q) (artifact_object_deletions st)\<rparr>,
          countRows p (artifact_object_deletions st))"

text \<open>The row a statement addresses by file, tenant, part number and key.\<close>

definition chunkAt :: "ArtifactChunkRow \<Rightarrow> ArtifactChunkRow \<Rightarrow> bool" where
  "chunkAt row c \<longleftrightarrow> ch_artifact_id c = ch_artifact_id row \<and> ch_tenant_id c = ch_tenant_id row \<and>
     ch_part_number c = ch_part_number row \<and> ch_storage_key c = ch_storage_key row"

definition chunkOf :: "string \<Rightarrow> string \<Rightarrow> ArtifactChunkRow \<Rightarrow> bool" where
  "chunkOf artifactId tenantId c \<longleftrightarrow> ch_artifact_id c = artifactId \<and> ch_tenant_id c = tenantId"

definition ownedBy :: "string \<Rightarrow> string \<Rightarrow> ArtifactRow \<Rightarrow> bool" where
  "ownedBy artifactId tenantId a \<longleftrightarrow> a_artifact_id a = artifactId \<and> a_tenant_id a = tenantId"

section \<open>Upload\<close>

text \<open>
  The insertion of \<open>createArtifactUpload\<close> under the tenant's quota. A quota sum beyond 64 bits becomes a
  real number in SQLite and exceeds every quota, as the integer does.
\<close>

definition insertArtifact :: "ArtifactRow \<Rightarrow> string \<Rightarrow> int \<Rightarrow> stmt" where
  "insertArtifact row now maximumTenantBytes db =
     (case sqlSum (map a_size_bytes (filter (\<lambda>a. a_tenant_id a = a_tenant_id row \<and>
          a_status a \<noteq> ''deleted'' \<and> now < a_expires_at a) (artifacts db))) of
        None \<Rightarrow> Inl IntegerOverflow
      | Some used \<Rightarrow>
        if used + a_size_bytes row \<le> maximumTenantBytes
        then if list_ex (\<lambda>a. a_artifact_id a = a_artifact_id row) (artifacts db) then Inl UniqueViolation
             else Inr (db\<lparr>artifacts := artifacts db @ [row]\<rparr>, 1)
        else Inr (db, 0))"

definition guardedArtifactAuditInsert :: "AuditRow \<Rightarrow> string option \<Rightarrow> stmt" where
  "guardedArtifactAuditInsert audit requiredStatus db =
     (if list_ex (\<lambda>a. ownedBy (ad_resource_id audit) (ad_tenant_id audit) a \<and>
          (requiredStatus = None \<or> requiredStatus = Some (a_status a))) (artifacts db)
      then insertAudit audit db else Inr (db, 0))"

definition openForUpload :: "database \<Rightarrow> string \<Rightarrow> string \<Rightarrow> string \<Rightarrow> bool" where
  "openForUpload db artifactId tenantId now = list_ex (\<lambda>a. ownedBy artifactId tenantId a \<and>
     a_status a = ''uploading'' \<and> a_content_purged_at a = None \<and> now < a_expires_at a) (artifacts db)"

text \<open>\<open>INSERT OR IGNORE\<close> under the unique index on file and part number.\<close>

definition insertChunkOrIgnore :: "ArtifactChunkRow \<Rightarrow> fileStmt" where
  "insertChunkOrIgnore row st =
     (if list_ex (\<lambda>c. ch_artifact_id c = ch_artifact_id row \<and> ch_part_number c = ch_part_number row)
         (artifact_chunks st)
      then Inr (st, 0)
      else Inr (st\<lparr>artifact_chunks := artifact_chunks st @ [row]\<rparr>, 1))"

definition claimChunk :: "ArtifactChunkRow \<Rightarrow> string \<Rightarrow> fileStmt" where
  "claimChunk row now st =
     (if openForUpload (fs_database st) (ch_artifact_id row) (ch_tenant_id row) now
      then insertChunkOrIgnore row st else Inr (st, 0))"

definition ENQUEUE_ARTIFACT_OBJECT_DELETION_SQL :: "ObjectDeletionRow \<Rightarrow> fileStmt" where
  "ENQUEUE_ARTIFACT_OBJECT_DELETION_SQL row st =
     (if list_ex (\<lambda>q. od_storage_key q = od_storage_key row) (artifact_object_deletions st)
      then updateDeletions (\<lambda>q. od_storage_key q = od_storage_key row)
        (\<lambda>q. q\<lparr>od_next_attempt_at := min (od_next_attempt_at q) (od_next_attempt_at row),
           od_retain_until := min (od_retain_until q) (od_retain_until row),
           od_updated_at := od_updated_at row\<rparr>) st
      else Inr (st\<lparr>artifact_object_deletions := artifact_object_deletions st @ [row]\<rparr>, 1))"

definition enqueueArtifactObjectDeletion :: "string \<Rightarrow> string \<Rightarrow> string \<Rightarrow> int \<Rightarrow> int \<Rightarrow> int \<Rightarrow> fileStmt" where
  "enqueueArtifactObjectDeletion storageKey artifactId tenantId now nextAttemptAt retainUntil =
     ENQUEUE_ARTIFACT_OBJECT_DELETION_SQL
       \<lparr>od_storage_key = storageKey, od_artifact_id = artifactId, od_tenant_id = tenantId,
        od_next_attempt_at = nextAttemptAt, od_retain_until = retainUntil, od_attempts = 0,
        od_created_at = now, od_updated_at = now\<rparr>"

definition abortChunk :: "ArtifactChunkRow \<Rightarrow> fileStmt" where
  "abortChunk row = deleteChunks (\<lambda>c. chunkAt row c \<and> ch_upload_status c = ''pending'')"

text \<open>The batch that makes an uploaded chunk ready; its time is the one the upload claimed the row at.\<close>

definition readyCount :: "fileStore \<Rightarrow> string \<Rightarrow> string \<Rightarrow> nat" where
  "readyCount st artifactId tenantId =
     countRows (\<lambda>c. chunkOf artifactId tenantId c \<and> ch_upload_status c = ''ready'') (artifact_chunks st)"

definition finalizeChunk :: "(int \<Rightarrow> string) \<Rightarrow> ArtifactChunkRow \<Rightarrow> fileStmt list" where
  "finalizeChunk isoText row =
     [\<lambda>st. updateChunks (\<lambda>c. chunkAt row c \<and> ch_upload_status c = ''pending'' \<and>
           openForUpload (fs_database st) (ch_artifact_id row) (ch_tenant_id row) (isoText (ch_uploaded_at row)))
         (\<lambda>c. c\<lparr>ch_upload_status := ''ready''\<rparr>) st,
      \<lambda>st. onDatabase (updateArtifacts (\<lambda>a. ownedBy (ch_artifact_id row) (ch_tenant_id row) a \<and>
           a_status a = ''uploading'' \<and> a_content_purged_at a = None)
         (\<lambda>a. a\<lparr>a_uploaded_chunks := int (readyCount st (ch_artifact_id row) (ch_tenant_id row)),
            a_updated_at := isoText (ch_uploaded_at row)\<rparr>)) st,
      \<lambda>st. if list_ex (\<lambda>c. chunkAt row c \<and> ch_upload_status c = ''ready'') (artifact_chunks st)
         then deleteDeletions (\<lambda>q. od_storage_key q = ch_storage_key row) st else Inr (st, 0)]"

section \<open>Removal of a chunk that never became ready\<close>

definition markDeleting :: "string list \<Rightarrow> int \<Rightarrow> ArtifactChunkRow \<Rightarrow> fileStmt" where
  "markDeleting statuses now row =
     updateChunks (\<lambda>c. chunkAt row c \<and> ch_upload_status c \<in> set statuses)
       (\<lambda>c. c\<lparr>ch_upload_status := ''deleting'', ch_uploaded_at := now\<rparr>)"

definition removeChunk :: "string list \<Rightarrow> ArtifactChunkRow \<Rightarrow> fileStmt" where
  "removeChunk statuses row = deleteChunks (\<lambda>c. chunkAt row c \<and> ch_upload_status c \<in> set statuses)"

definition SELECT_STALE_CHUNKS :: "int \<Rightarrow> fileStore \<Rightarrow> ArtifactChunkRow list" where
  "SELECT_STALE_CHUNKS cutoff st = take 4 (sort_key ch_uploaded_at (filter (\<lambda>c.
     ch_upload_status c \<in> {''pending'', ''deleting''} \<and> ch_uploaded_at c \<le> cutoff) (artifact_chunks st)))"

section \<open>Completion\<close>

definition completeArtifact :: "string \<Rightarrow> string \<Rightarrow> string \<Rightarrow> string \<Rightarrow> fileStmt" where
  "completeArtifact artifactId tenantId manifestSha256 now st =
     onDatabase (updateArtifacts (\<lambda>a. ownedBy artifactId tenantId a \<and> a_status a = ''uploading'' \<and>
         a_content_purged_at a = None \<and> now < a_expires_at a \<and>
         a_chunk_count a = int (readyCount st artifactId tenantId) \<and>
         \<not> list_ex (\<lambda>c. chunkOf artifactId tenantId c \<and> ch_upload_status c = ''pending'') (artifact_chunks st))
       (\<lambda>a. a\<lparr>a_status := ''ready'', a_uploaded_chunks := a_chunk_count a,
          a_manifest_sha256 := Some manifestSha256, a_updated_at := now\<rparr>)) st"

definition SELECT_READY_CHUNKS :: "string \<Rightarrow> string \<Rightarrow> fileStore \<Rightarrow> ArtifactChunkRow list" where
  "SELECT_READY_CHUNKS artifactId tenantId st = sort_key ch_part_number (filter (\<lambda>c.
     chunkOf artifactId tenantId c \<and> ch_upload_status c = ''ready'') (artifact_chunks st))"

section \<open>Purge\<close>

definition taskActive :: "ArtifactTaskRow \<Rightarrow> bool" where
  "taskActive t \<longleftrightarrow> t_status t \<in> {''queued'', ''claimed'', ''running''}"

definition CLAIM_ARTIFACT_PURGE_SQL :: "string \<Rightarrow> string \<Rightarrow> string \<Rightarrow> stmt" where
  "CLAIM_ARTIFACT_PURGE_SQL now artifactId tenantId db =
     updateArtifacts (\<lambda>a. ownedBy artifactId tenantId a \<and>
         \<not> list_ex (\<lambda>t. t_artifact_id t = a_artifact_id a \<and> taskActive t) (artifact_tasks db))
       (\<lambda>a. a\<lparr>a_content_purged_at := orElse (a_content_purged_at a) now, a_expires_at := now,
          a_updated_at := now\<rparr>) db"

definition ARTIFACT_PURGE_GENERATION_BATCH_SIZE :: nat where
  "ARTIFACT_PURGE_GENERATION_BATCH_SIZE = 4"

definition SELECT_ARTIFACT_PURGE_GENERATIONS_SQL :: "string \<Rightarrow> string \<Rightarrow> fileStore \<Rightarrow> ArtifactChunkRow list" where
  "SELECT_ARTIFACT_PURGE_GENERATIONS_SQL artifactId tenantId st =
     take ARTIFACT_PURGE_GENERATION_BATCH_SIZE (sort_key ch_part_number
       (filter (chunkOf artifactId tenantId) (artifact_chunks st)))"

text \<open>A generation is the row with its key and the time of its last status change.\<close>

definition generationOf :: "ArtifactChunkRow \<Rightarrow> ArtifactChunkRow \<Rightarrow> bool" where
  "generationOf row c \<longleftrightarrow> chunkAt row c \<and> ch_uploaded_at c = ch_uploaded_at row"

definition TOMBSTONE_ARTIFACT_CHUNK_GENERATION_SQL :: "ArtifactChunkRow \<Rightarrow> fileStmt" where
  "TOMBSTONE_ARTIFACT_CHUNK_GENERATION_SQL row =
     updateChunks (\<lambda>c. generationOf row c \<and> ch_upload_status c \<in> {''pending'', ''ready'', ''deleting''})
       (\<lambda>c. c\<lparr>ch_upload_status := ''deleting''\<rparr>)"

definition DELETE_ARTIFACT_CHUNK_GENERATION_SQL :: "ArtifactChunkRow \<Rightarrow> fileStmt" where
  "DELETE_ARTIFACT_CHUNK_GENERATION_SQL row = deleteChunks (generationOf row)"

definition DELETED_ARTIFACT_FILE_NAME :: string where
  "DELETED_ARTIFACT_FILE_NAME = ''deleted-artifact''"

definition FINALIZE_ARTIFACT_PURGE_SQL :: "string \<Rightarrow> string \<Rightarrow> string \<Rightarrow> fileStmt" where
  "FINALIZE_ARTIFACT_PURGE_SQL now artifactId tenantId st =
     onDatabase (updateArtifacts (\<lambda>a. ownedBy artifactId tenantId a \<and> a_status a \<noteq> ''deleted'' \<and>
         \<not> list_ex (chunkOf (a_artifact_id a) (a_tenant_id a)) (artifact_chunks st))
       (\<lambda>a. a\<lparr>a_status := ''deleted'', a_file_name := DELETED_ARTIFACT_FILE_NAME, a_manifest_sha256 := None,
          a_content_purged_at := orElse (a_content_purged_at a) now, a_updated_at := now\<rparr>)) st"

definition tombstoneBatch :: "int \<Rightarrow> string \<Rightarrow> string \<Rightarrow> ArtifactChunkRow list \<Rightarrow> fileStmt list" where
  "tombstoneBatch now artifactId tenantId chunks = concat (map (\<lambda>chunk.
     [enqueueArtifactObjectDeletion (ch_storage_key chunk) artifactId tenantId now now (now + 24 * 60 * 60000),
      TOMBSTONE_ARTIFACT_CHUNK_GENERATION_SQL chunk]) chunks)"

definition finishPurgeBatch :: "string \<Rightarrow> string \<Rightarrow> string \<Rightarrow> ArtifactChunkRow list \<Rightarrow> fileStmt list" where
  "finishPurgeBatch now artifactId tenantId chunks =
     map DELETE_ARTIFACT_CHUNK_GENERATION_SQL chunks @ [FINALIZE_ARTIFACT_PURGE_SQL now artifactId tenantId]"

text \<open>The file that the cleanup takes next: expired, not deleted and without active work.\<close>

definition SELECT_EXPIRED_ARTIFACT :: "string \<Rightarrow> fileStore \<Rightarrow> ArtifactRow option" where
  "SELECT_EXPIRED_ARTIFACT now st =
     (case sort_key a_expires_at (filter (\<lambda>a. a_status a \<noteq> ''deleted'' \<and> a_expires_at a \<le> now \<and>
          \<not> list_ex (\<lambda>t. t_artifact_id t = a_artifact_id a \<and> taskActive t) (artifact_tasks (fs_database st)))
        (artifacts (fs_database st))) of [] \<Rightarrow> None | a # _ \<Rightarrow> Some a)"

section \<open>The privacy purge\<close>

text \<open>
  The state of a task's content (\<^verbatim>\<open>privacy-invariants.ts\<close>): its file, its status, and the time the file was
  purged when nothing of the task is left.
\<close>

definition SELECT_ARTIFACT_TASK_PURGE_STATE_SQL :: "string \<Rightarrow> string \<Rightarrow> fileStore \<Rightarrow> (string \<times> string \<times> string option) option" where
  "SELECT_ARTIFACT_TASK_PURGE_STATE_SQL taskId tenantId st =
     (case find (\<lambda>t. t_task_id t = taskId \<and> t_buyer_tenant_id t = tenantId) (artifact_tasks (fs_database st)) of
        None \<Rightarrow> None
      | Some t \<Rightarrow> (case find (ownedBy (t_artifact_id t) (t_buyer_tenant_id t)) (artifacts (fs_database st)) of
          None \<Rightarrow> None
        | Some a \<Rightarrow> Some (t_artifact_id t, t_status t,
            if t_content_purged_at t \<noteq> None \<and> t_instruction_ciphertext t = [] \<and> t_instruction_iv t = [] \<and>
               t_output_ciphertext t = None \<and> t_output_iv t = None \<and> t_output_expires_at t = None \<and>
               a_status a = ''deleted'' \<and> a_content_purged_at a \<noteq> None \<and>
               \<not> list_ex (chunkOf (a_artifact_id a) (a_tenant_id a)) (artifact_chunks st)
            then a_content_purged_at a else None)))"

definition IDEMPOTENT_CONTENT_PURGE_AUDIT_SQL :: "AuditRow \<Rightarrow> stmt" where
  "IDEMPOTENT_CONTENT_PURGE_AUDIT_SQL row db =
     (if list_ex (\<lambda>e. ad_tenant_id e = ad_tenant_id row \<and> ad_action e = ad_action row \<and>
          ad_resource_type e = ad_resource_type row \<and> ad_resource_id e = ad_resource_id row) (audit_events db)
      then Inr (db, 0) else insertAuditOrIgnore row db)"

definition expireArtifact :: "string \<Rightarrow> string \<Rightarrow> string \<Rightarrow> stmt" where
  "expireArtifact now artifactId tenantId =
     updateArtifacts (ownedBy artifactId tenantId) (\<lambda>a. a\<lparr>a_expires_at := now, a_updated_at := now\<rparr>)"

text \<open>The two batches that take the content of a task away before its file is purged.\<close>

definition cancelForPurgeBatch :: "string \<Rightarrow> string \<Rightarrow> string \<Rightarrow> string \<Rightarrow> stmt list" where
  "cancelForPurgeBatch now taskId artifactId tenantId =
     [CANCEL_QUEUED_ARTIFACT_TASK_FOR_PURGE_SQL now taskId tenantId,
      \<lambda>db. if list_ex (\<lambda>t. t_task_id t = taskId \<and> t_buyer_tenant_id t = tenantId \<and> t_status t = ''cancelled'' \<and>
             t_error_code t = Some ''USER_CONTENT_PURGED'') (artifact_tasks db)
          then expireArtifact now artifactId tenantId db else Inr (db, 0)]"

definition clearForPurgeBatch :: "string \<Rightarrow> string \<Rightarrow> string \<Rightarrow> string \<Rightarrow> stmt list" where
  "clearForPurgeBatch now taskId artifactId tenantId =
     [updateTasks (\<lambda>t. t_task_id t = taskId \<and> t_buyer_tenant_id t = tenantId \<and>
          t_status t \<in> {''completed'', ''failed'', ''cancelled''})
        (\<lambda>t. (clearInstruction t)\<lparr>t_output_ciphertext := None, t_output_iv := None, t_output_expires_at := None,
           t_updated_at := now\<rparr>),
      expireArtifact now artifactId tenantId]"

definition markTaskPurged :: "string \<Rightarrow> string \<Rightarrow> string \<Rightarrow> stmt" where
  "markTaskPurged now taskId tenantId =
     updateTasks (\<lambda>t. t_task_id t = taskId \<and> t_buyer_tenant_id t = tenantId)
       (\<lambda>t. t\<lparr>t_content_purged_at := orElse (t_content_purged_at t) now, t_updated_at := now\<rparr>)"

text \<open>The batch that takes the output of an inference away.\<close>

definition purgeInferenceBatch :: "string \<Rightarrow> string \<Rightarrow> AuditRow \<Rightarrow> stmt list" where
  "purgeInferenceBatch now jobId audit =
     [updateJobs (\<lambda>j. j_job_id j = jobId \<and> j_buyer_tenant_id j = ad_tenant_id audit \<and> j_content_purged_at j = None)
        (\<lambda>j. j\<lparr>j_output_ciphertext := None, j_output_iv := None, j_output_expires_at := None, j_content_purged_at := Some now\<rparr>),
      insertAudit audit]"

section \<open>The queue of object deletions\<close>

definition SELECT_DUE_DELETIONS :: "int \<Rightarrow> fileStore \<Rightarrow> string list" where
  "SELECT_DUE_DELETIONS now st = map od_storage_key (take ARTIFACT_PURGE_GENERATION_BATCH_SIZE
     (sort_key od_next_attempt_at (filter (\<lambda>q. od_next_attempt_at q \<le> now \<and>
        \<not> list_ex (\<lambda>c. ch_storage_key c = od_storage_key q \<and> ch_upload_status c \<in> {''pending'', ''ready''})
          (artifact_chunks st)) (artifact_object_deletions st))))"

definition retryDeletion :: "int \<Rightarrow> int \<Rightarrow> ObjectDeletionRow \<Rightarrow> ObjectDeletionRow" where
  "retryDeletion now retryAt q = q\<lparr>od_attempts := od_attempts q + 1, od_next_attempt_at := retryAt, od_updated_at := now\<rparr>"

definition deletionDoneBatch :: "int \<Rightarrow> string list \<Rightarrow> fileStmt list" where
  "deletionDoneBatch now keys = concat (map (\<lambda>key.
     [deleteDeletions (\<lambda>q. od_storage_key q = key \<and> od_retain_until q \<le> now),
      updateDeletions (\<lambda>q. od_storage_key q = key \<and> now < od_retain_until q)
        (retryDeletion now (now + 10 * 60000))]) keys)"

definition deletionRetryBatch :: "int \<Rightarrow> string list \<Rightarrow> fileStmt list" where
  "deletionRetryBatch now keys = map (\<lambda>key.
     updateDeletions (\<lambda>q. od_storage_key q = key) (retryDeletion now (now + 10 * 60000))) keys"

section \<open>Objects\<close>

definition putObject :: "string \<Rightarrow> byte list \<Rightarrow> fileStore \<Rightarrow> fileStore" where
  "putObject key content st = st\<lparr>bucket := (bucket st)(key \<mapsto> content)\<rparr>"

definition deleteObjects :: "string list \<Rightarrow> fileStore \<Rightarrow> fileStore" where
  "deleteObjects keys st = st\<lparr>bucket := (bucket st) |` (- set keys)\<rparr>"

end
