(* ===== verification/AgentStore.thy ===== *)
theory AgentStore
  imports Lifecycle
begin

text \<open>
  The tables that authenticate the calls of supplier agents, \<open>agent_request_nonces\<close> and
  \<open>api_rate_limits\<close>, with the statements of \<^verbatim>\<open>apps/web/server/agent-auth.ts\<close>,
  \<^verbatim>\<open>agent-auth-invariants.ts\<close> and \<^verbatim>\<open>rate-limit.ts\<close>. Their time columns are milliseconds, in the order of
  which the texts of \<open>toISOString\<close> compare.
\<close>

section \<open>Tables\<close>

record NonceRow =
  nr_credential_digest :: string
  nr_nonce :: string
  nr_expires_at :: int

record RateLimitRow =
  rl_scope_key :: string
  rl_action :: string
  rl_window_started_at :: int
  rl_request_count :: int
  rl_expires_at :: int

record agentStore =
  ag_database :: database
  agent_request_nonces :: "NonceRow list"
  api_rate_limits :: "RateLimitRow list"

type_synonym agentStmt = "agentStore \<Rightarrow> dbError + (agentStore \<times> nat)"

definition onAgentDatabase :: "stmt \<Rightarrow> agentStmt" where
  "onAgentDatabase s st = andThen (s (ag_database st)) (\<lambda>(db, n). Inr (st\<lparr>ag_database := db\<rparr>, n))"

section \<open>Rate limits\<close>

definition rateRowAt :: "string \<Rightarrow> string \<Rightarrow> int \<Rightarrow> RateLimitRow \<Rightarrow> bool" where
  "rateRowAt scopeKey action windowStartedAt r \<longleftrightarrow>
     rl_scope_key r = scopeKey \<and> rl_action r = action \<and> rl_window_started_at r = windowStartedAt"

definition countRequest :: "string \<Rightarrow> string \<Rightarrow> int \<Rightarrow> int \<Rightarrow> agentStmt" where
  "countRequest scopeKey action windowStartedAt expiresAt st =
     (let p = rateRowAt scopeKey action windowStartedAt in
      if list_ex p (api_rate_limits st)
      then Inr (st\<lparr>api_rate_limits := updateRows p
             (\<lambda>r. r\<lparr>rl_request_count := rl_request_count r + 1, rl_expires_at := expiresAt\<rparr>) (api_rate_limits st)\<rparr>,
           countRows p (api_rate_limits st))
      else Inr (st\<lparr>api_rate_limits := api_rate_limits st @
             [\<lparr>rl_scope_key = scopeKey, rl_action = action, rl_window_started_at = windowStartedAt,
               rl_request_count = 1, rl_expires_at = expiresAt\<rparr>]\<rparr>, 1))"

text \<open>The oldest hundred of the rows that are over.\<close>

definition deleteOldest :: "nat \<Rightarrow> ('r \<Rightarrow> int) \<Rightarrow> ('r \<Rightarrow> bool) \<Rightarrow> 'r list \<Rightarrow> 'r list" where
  "deleteOldest n key p rows = filter (\<lambda>r. r \<notin> set (take n (sort_key key (filter p rows)))) rows"

definition dropExpiredRates :: "int \<Rightarrow> agentStmt" where
  "dropExpiredRates now st =
     (let rows = deleteOldest 100 rl_expires_at (\<lambda>r. rl_expires_at r \<le> now) (api_rate_limits st) in
      Inr (st\<lparr>api_rate_limits := rows\<rparr>, length (api_rate_limits st) - length rows))"

definition bucketStart :: "int \<Rightarrow> int \<Rightarrow> int" where
  "bucketStart nowMilliseconds windowMilliseconds = nowMilliseconds div windowMilliseconds * windowMilliseconds"

definition rateLimitBatch :: "string \<Rightarrow> string \<Rightarrow> int \<Rightarrow> int \<Rightarrow> agentStmt list" where
  "rateLimitBatch scopeKey action windowMilliseconds nowMilliseconds =
     [countRequest scopeKey action (bucketStart nowMilliseconds windowMilliseconds)
        (bucketStart nowMilliseconds windowMilliseconds + windowMilliseconds * 2),
      dropExpiredRates nowMilliseconds]"

text \<open>Without its row a request is refused.\<close>

definition rateExceeded :: "string \<Rightarrow> string \<Rightarrow> int \<Rightarrow> int \<Rightarrow> agentStore \<Rightarrow> bool" where
  "rateExceeded scopeKey action windowStartedAt maximumRequests st =
     (case find (rateRowAt scopeKey action windowStartedAt) (api_rate_limits st) of
        None \<Rightarrow> True | Some r \<Rightarrow> rl_request_count r > maximumRequests)"

section \<open>Nonces\<close>

definition dropExpiredNonces :: "int \<Rightarrow> agentStmt" where
  "dropExpiredNonces now st =
     (let rows = deleteOldest 100 nr_expires_at (\<lambda>r. nr_expires_at r < now) (agent_request_nonces st) in
      Inr (st\<lparr>agent_request_nonces := rows\<rparr>, length (agent_request_nonces st) - length rows))"

text \<open>The statement of the maintenance runner.\<close>

definition maintainNonces :: "int \<Rightarrow> agentStmt" where
  "maintainNonces now st =
     Inr (st\<lparr>agent_request_nonces := filter (\<lambda>r. \<not> nr_expires_at r \<le> now) (agent_request_nonces st)\<rparr>,
          countRows (\<lambda>r. nr_expires_at r \<le> now) (agent_request_nonces st))"

definition MAX_AGENT_NONCE_NAMESPACES :: nat where
  "MAX_AGENT_NONCE_NAMESPACES = 9"

definition MAX_AGENT_AUTHORIZATIONS_PER_TOKEN :: nat where
  "MAX_AGENT_AUTHORIZATIONS_PER_TOKEN = 100"

text \<open>The condition of the claim is evaluated before any of its rows is inserted.\<close>

definition claimAgentNonceNamespacesSql :: "string list \<Rightarrow> string \<Rightarrow> int \<Rightarrow> agentStmt" where
  "claimAgentNonceNamespacesSql namespaces nonce expiresAt st =
     (if list_ex (\<lambda>r. nr_nonce r = nonce \<and> nr_credential_digest r \<in> set namespaces) (agent_request_nonces st)
      then Inr (st, 0)
      else let rows = map (\<lambda>d. \<lparr>nr_credential_digest = d, nr_nonce = nonce, nr_expires_at = expiresAt\<rparr>) (remdups namespaces) in
        Inr (st\<lparr>agent_request_nonces := agent_request_nonces st @ rows\<rparr>, length rows))"

section \<open>Authorizations\<close>

text \<open>A keyed digest of a credential with the version and the name of its key.\<close>

record CredentialLookup =
  cl_digest :: string
  cl_version :: int
  cl_keyId :: string

definition boundTo :: "CredentialLookup \<Rightarrow> AuthorizationRow \<Rightarrow> bool" where
  "boundTo l ar \<longleftrightarrow> ar_gateway_token_digest_version ar = cl_version l \<and>
     ar_gateway_token_lookup_key_id ar = cl_keyId l \<and> ar_gateway_token_digest ar = Some (cl_digest l)"

definition bindLookup :: "CredentialLookup \<Rightarrow> string \<Rightarrow> AuthorizationRow \<Rightarrow> AuthorizationRow" where
  "bindLookup l now ar = ar\<lparr>ar_gateway_token_digest := Some (cl_digest l), ar_gateway_token_digest_version := cl_version l,
     ar_gateway_token_lookup_key_id := cl_keyId l, ar_updated_at := now\<rparr>"

definition readableLookup :: "string \<Rightarrow> CredentialLookup list \<Rightarrow> AuthorizationRow \<Rightarrow> bool" where
  "readableLookup legacyDigest lookups ar \<longleftrightarrow>
     (ar_gateway_token_digest_version ar = 1 \<and> ar_gateway_token_digest ar = Some legacyDigest) \<or>
     list_ex (\<lambda>l. boundTo l ar) lookups"

definition supplyingAuthorization :: "string \<Rightarrow> database \<Rightarrow> AuthorizationRow \<Rightarrow> bool" where
  "supplyingAuthorization now db ar \<longleftrightarrow> ar_status ar = ''approved'' \<and> ar_valid_until ar > now \<and>
     list_ex (\<lambda>s. s_supplier_id s = ar_supplier_id ar \<and> s_tenant_id s = ar_tenant_id ar \<and>
       s_status s = ''active'' \<and> s_supply_enabled s = 1) (suppliers db)"

definition SELECT_AGENT_AUTHORIZATIONS :: "string \<Rightarrow> CredentialLookup list \<Rightarrow> string \<Rightarrow> agentStore \<Rightarrow> AuthorizationRow list" where
  "SELECT_AGENT_AUTHORIZATIONS legacyDigest lookups now st =
     take (MAX_AGENT_AUTHORIZATIONS_PER_TOKEN + 1) (sort_key ar_created_at
       (filter (\<lambda>ar. readableLookup legacyDigest lookups ar \<and> supplyingAuthorization now (ag_database st) ar)
          (authorization_requests (ag_database st))))"

definition migrateAgentLookupNamespacesSql :: "CredentialLookup \<Rightarrow> CredentialLookup list \<Rightarrow> string \<Rightarrow> string \<Rightarrow> stmt" where
  "migrateAgentLookupNamespacesSql active readable legacyDigest now =
     updateAuthorizations (\<lambda>ar. \<not> boundTo active ar \<and> readableLookup legacyDigest readable ar) (bindLookup active now)"

text \<open>The row as it was read must still have its digest.\<close>

definition migrateStaleLookup :: "CredentialLookup \<Rightarrow> string \<Rightarrow> AuthorizationRow \<Rightarrow> stmt" where
  "migrateStaleLookup active now row =
     updateAuthorizations (\<lambda>ar. ar_request_id ar = ar_request_id row \<and>
         ar_gateway_token_digest_version ar = ar_gateway_token_digest_version row \<and>
         ar_gateway_token_lookup_key_id ar = ar_gateway_token_lookup_key_id row \<and>
         ar_gateway_token_digest ar = ar_gateway_token_digest row) (bindLookup active now)"

definition COUNT_CURRENT_AUTHORIZATIONS :: "AuthorizationRow list \<Rightarrow> CredentialLookup \<Rightarrow> string \<Rightarrow> agentStore \<Rightarrow> nat" where
  "COUNT_CURRENT_AUTHORIZATIONS rows active now st =
     countRows (\<lambda>ar. list_ex (\<lambda>r. ar_request_id ar = ar_request_id r \<and>
          ar_authorization_revision ar = ar_authorization_revision r) rows \<and>
        supplyingAuthorization now (ag_database st) ar \<and> boundTo active ar) (authorization_requests (ag_database st))"

end
