(* ===== verification/Market.thy ===== *)
theory Market
  imports Capacity Conservation SupplyDesk RuntimePolicy ArtifactStore AgentStore
begin

text \<open>
  The control plane as a transition system. A state is the database and the set of inference calls
  in flight; every transition is one statement or one batch of one of the handlers, so the
  interleavings of concurrent requests, worker calls and cleanups are the runs of the system. The
  invariants that hold in every reachable state: nobody's available balance is negative, no offer
  carries more work than it published, settlements conserve money.
\<close>

section \<open>Statements that keep the books\<close>

lemma quiet_updateJobs_in:
  assumes "\<And>d. jobQuiet (\<lambda>j. if p d j then f j else j)"
  shows "quietStmt lo (\<lambda>db. updateJobs (p db) f db)"
  using quiet_updateJobs [OF assms] by (simp add: quietStmt_def)

lemma quiet_supply_tables:
  "quietStmt lo (\<lambda>db. updateAuthorizations (q db) g db)" "quietStmt lo (\<lambda>db. updateSuppliers (q' db) (g' db) db)"
  "quietStmt lo (\<lambda>db. deleteWorkers (q'' db) db)" "quietStmt lo (insertEvent e)"
  "quietStmt lo (insertAuditOrIgnore a)" "quietStmt lo (insertSupplier s)"
  "quietStmt lo (insertAuthorization ar)" "quietStmt lo (idempotencyInsert k)"
  by (auto simp: quietStmt_def updateAuthorizations_def updateSuppliers_def deleteWorkers_def insertEvent_def
      insertAuditOrIgnore_def insertSupplier_def insertAuthorization_def idempotencyInsert_def
      sameBooks_def split: if_splits intro!: sameBooks_quiet)

lemmas quiet_supply = quiet_tables quiet_if quiet_supply_tables
lemmas review_defs = CLAIM_AUTHORIZATION_REVIEW_TARGET_SQL_def
  claimAuthorizationReviewTargetWithLookupLimitSql_def BIND_AUTHORIZATION_REVIEW_COMMAND_SQL_def
  REJECT_AUTHORIZATION_REQUEST_SQL_def APPROVE_AUTHORIZATION_REQUEST_SQL_def
  ACTIVATE_REVIEWED_SUPPLIER_SQL_def guardedReviewEventInsert_def guardedReviewAuditInsert_def
lemmas lifecycle_defs = CLAIM_AUTHORIZATION_LIFECYCLE_TARGET_SQL_def
  BIND_AUTHORIZATION_LIFECYCLE_COMMAND_SQL_def WITHDRAW_PENDING_AUTHORIZATION_SQL_def
  REVOKE_ACTIVE_AUTHORIZATION_SQL_def UPDATE_SUPPLIER_AFTER_AUTHORIZATION_REVOCATION_SQL_def
  DELETE_AGENT_HEARTBEAT_AFTER_AUTHORIZATION_REVOCATION_SQL_def
  guardedAuthorizationLifecycleEventInsert_def guardedAuthorizationLifecycleAuditInsert_def
  claimAuthorizationCredentialRotationTargetSql_def
  DELETE_AGENT_HEARTBEAT_AFTER_CREDENTIAL_ROTATION_SQL_def

lemma quiet_review_stmts:
  "quietStmt lo (CLAIM_AUTHORIZATION_REVIEW_TARGET_SQL i k n rt c b)"
  "quietStmt lo (claimAuthorizationReviewTargetWithLookupLimitSql i k n rt c b lg lk mx)"
  "quietStmt lo (BIND_AUTHORIZATION_REVIEW_COMMAND_SQL tn c b n i k)"
  "quietStmt lo (REJECT_AUTHORIZATION_REQUEST_SQL nt ac c n i k tn b)"
  "quietStmt lo (APPROVE_AUTHORIZATION_REQUEST_SQL nt ac c n i sid st v k tn b)"
  "quietStmt lo (ACTIVATE_REVIEWED_SUPPLIER_SQL nv n sid st v i c k)"
  "quietStmt lo (guardedReviewEventInsert e i c k nv)"
  "quietStmt lo (guardedReviewAuditInsert au tn ac sts i c k dt n)"
  unfolding review_defs by (intro quiet_supply)+

lemma quiet_review: "list_all (quietStmt lo) (rejectBatch r)"
  "list_all (quietStmt lo) (approveBatch r lg lk mx sid st v nv es)"
  by (simp_all add: rejectBatch_def approveBatch_def Let_def quiet_review_stmts list_all_iff)

lemma quiet_lifecycle_stmts:
  "quietStmt lo (CLAIM_AUTHORIZATION_LIFECYCLE_TARGET_SQL s opn c)"
  "quietStmt lo (BIND_AUTHORIZATION_LIFECYCLE_COMMAND_SQL opn c)"
  "quietStmt lo (WITHDRAW_PENDING_AUTHORIZATION_SQL c)" "quietStmt lo (REVOKE_ACTIVE_AUTHORIZATION_SQL c)"
  "quietStmt lo (UPDATE_SUPPLIER_AFTER_AUTHORIZATION_REVOCATION_SQL v c)"
  "quietStmt lo (DELETE_AGENT_HEARTBEAT_AFTER_AUTHORIZATION_REVOCATION_SQL c)"
  "quietStmt lo (guardedAuthorizationLifecycleEventInsert e c)"
  "quietStmt lo (guardedAuthorizationLifecycleAuditInsert a s opn ev c)"
  "quietStmt lo (claimAuthorizationCredentialRotationTargetSql ro c)"
  "quietStmt lo (DELETE_AGENT_HEARTBEAT_AFTER_CREDENTIAL_ROTATION_SQL ro c)"
  unfolding lifecycle_defs by (intro quiet_supply)+

lemma quiet_rotateCredential: "quietStmt lo (rotateAuthorizationCredentialSql ro c)"
proof (cases "hd (ro_lookups ro)")
  case (fields version keyId digest)
  show ?thesis unfolding rotateAuthorizationCredentialSql_def fields prod.case by (intro quiet_supply)
qed

lemma quiet_release:
  "quietStmt lo (FAIL_RESERVED_INFERENCE_FOR_REVOKED_AUTHORIZATION_SQL n i r)"
  "quietStmt lo (FAIL_RESERVED_INFERENCE_AFTER_CREDENTIAL_ROTATION_SQL ro c)"
  "quietStmt lo (FAIL_QUEUED_ARTIFACTS_FOR_REVOKED_AUTHORIZATION_SQL n i r)"
  "quietStmt lo (CANCEL_LEASED_ARTIFACTS_FOR_REVOKED_AUTHORIZATION_SQL n i r)"
  unfolding FAIL_RESERVED_INFERENCE_FOR_REVOKED_AUTHORIZATION_SQL_def
    FAIL_RESERVED_INFERENCE_AFTER_CREDENTIAL_ROTATION_SQL_def
    FAIL_QUEUED_ARTIFACTS_FOR_REVOKED_AUTHORIZATION_SQL_def
    CANCEL_LEASED_ARTIFACTS_FOR_REVOKED_AUTHORIZATION_SQL_def
  by (intro quiet_updateJobs_in quiet_updateTasks_in; simp add: job_defs task_defs)+

lemma quiet_lifecycle:
  "list_all (quietStmt lo) (withdrawBatch c)" "list_all (quietStmt lo) (revokeBatch e c)"
  "list_all (quietStmt lo) (rotateBatch ro c)" "quietStmt lo (EXPIRE_PENDING_AUTHORIZATIONS_SQL n k)"
  by (simp_all add: withdrawBatch_def revokeBatch_def rotateBatch_def quiet_lifecycle_stmts quiet_release
      quiet_rotateCredential EXPIRE_PENDING_AUTHORIZATIONS_SQL_def quiet_supply_tables(1))

lemma quiet_supplier:
  "list_all (quietStmt lo) (registerBatch e s a k)" "list_all (quietStmt lo) (submitBatch ar a k)"
  "list_all (quietStmt lo) (setSupplyBatch sid tn ac en k au n)"
  unfolding registerBatch_def submitBatch_def setSupplyBatch_def Let_def list.pred_inject
  by (intro conjI list.pred_inject(1) quiet_supply)+

lemma quiet_privacy:
  "list_all (quietStmt lo) (cancelForPurgeBatch n i a t)" "list_all (quietStmt lo) (clearForPurgeBatch n i a t)"
  "list_all (quietStmt lo) (purgeInferenceBatch n i au)" "quietStmt lo (markTaskPurged n i t)"
  "quietStmt lo (IDEMPOTENT_CONTENT_PURGE_AUDIT_SQL au)"
proof -
  have audit: "quietStmt lo (\<lambda>db. if c db then Inr (db, 0) else insertAuditOrIgnore au db)" for c au
    using quiet_supply_tables(5) [of lo au] by (auto simp: quietStmt_def)
  show "quietStmt lo (IDEMPOTENT_CONTENT_PURGE_AUDIT_SQL au)"
    using audit by (simp add: IDEMPOTENT_CONTENT_PURGE_AUDIT_SQL_def [abs_def])
  have tasks: "quietStmt lo (updateTasks p (\<lambda>t. (clearInstruction t)\<lparr>t_output_ciphertext := None, t_output_iv := None,
      t_output_expires_at := None, t_updated_at := n\<rparr>))" for p
    by (intro quiet_updateTasks) (simp add: task_defs)
  show "quietStmt lo (markTaskPurged n i t)"
    unfolding markTaskPurged_def by (intro quiet_updateTasks) (simp add: task_defs)
  have expire: "quietStmt lo (expireArtifact n a t)" unfolding expireArtifact_def by (rule quiet_tables(1))
  then have guarded: "quietStmt lo (\<lambda>db. if c db then expireArtifact n a t db else Inr (db, 0))" for c by (intro quiet_if)
  show "list_all (quietStmt lo) (cancelForPurgeBatch n i a t)" "list_all (quietStmt lo) (clearForPurgeBatch n i a t)"
    by (simp_all add: cancelForPurgeBatch_def clearForPurgeBatch_def quiet_purge expire guarded tasks)
  have "quietStmt lo (updateJobs p (\<lambda>j. j\<lparr>j_output_ciphertext := None, j_output_iv := None, j_output_expires_at := None,
      j_content_purged_at := Some n\<rparr>))" for p
    by (intro quiet_updateJobs) (simp add: job_defs)
  then show "list_all (quietStmt lo) (purgeInferenceBatch n i au)"
    using quiet_tables(2) by (simp add: purgeInferenceBatch_def)
qed

lemma quiet_migrate:
  "quietStmt lo (migrateAgentLookupNamespacesSql active readable legacy n)"
  "list_all (quietStmt lo) (map (migrateStaleLookup active n) rows)"
  using quiet_supply_tables(1) [where q = "\<lambda>db. p" for p]
  by (simp_all add: migrateAgentLookupNamespacesSql_def migrateStaleLookup_def [abs_def] list_all_iff)

section \<open>The transition system\<close>

record market =
  store :: database
  calls :: "string set"

text \<open>
  The batches that neither reserve nor settle: start and expiry of inferences, worker and buyer
  operations on tasks, review and life cycle of authorizations, registration and supply.
\<close>

inductive handler_batch :: "MarketplaceRuntimePolicy \<Rightarrow> stmt list \<Rightarrow> bool" for p where
  "handler_batch p [startInferenceJob i now]"
| "handler_batch p [cleanupStaleInferenceReservations now cutoff]"
| "handler_batch p [cleanupExpiredInferenceContent now]"
| "handler_batch p (claimRecovery supplierTenant now (mp_artifactMaximumAttempts p))"
| "handler_batch p [checkpointTask i st ld clk cs ts pb u le now, insertCheckpoint ci i att st ld cs ts pb u now]"
| "handler_batch p [failArtifactTask retry code i st ld clk now]"
| "handler_batch p (acknowledgeCancellation i st ld art now)"
| "handler_batch p [insertKeyOrIgnore k]"
| "handler_batch p (cancelArtifactTaskBatch tn ac i art c tok now au dt)"
| "handler_batch p (cancelForPurgeBatch now i art tn)"
| "handler_batch p (clearForPurgeBatch now i art tn)"
| "handler_batch p [IDEMPOTENT_CONTENT_PURGE_AUDIT_SQL au, markTaskPurged now i tn, IDEMPOTENT_CONTENT_PURGE_AUDIT_SQL au']"
| "handler_batch p (purgeInferenceBatch now i au)"
| "handler_batch p [migrateAgentLookupNamespacesSql active readable legacy now]"
| "handler_batch p (map (migrateStaleLookup active now) rows)"
| "handler_batch p (cleanupExpiredTasks now cutoff (mp_artifactMaximumAttempts p))"
| "handler_batch p [cleanupExpiredTaskOutput now]"
| "handler_batch p (rejectBatch r)"
| "handler_batch p (approveBatch r legacy lookups maximum sid stn v nv es)"
| "handler_batch p (withdrawBatch lc)"
| "handler_batch p (revokeBatch e lc)"
| "handler_batch p (rotateBatch ro lc)"
| "handler_batch p [EXPIRE_PENDING_AUTHORIZATIONS_SQL now cutoff]"
| "handler_batch p (registerBatch e srow au c)"
| "handler_batch p (submitBatch arow au c)"
| "handler_batch p (setSupplyBatch sid tn ac en c aid now)"

text \<open>
  A call of \<open>runInference\<close> is in flight from its reservation until it settles or fails, or is lost
  with its process. Identifiers of jobs, tasks and ledger entries are generated: the prefixes keep
  the two kinds apart and the entry ids are new. The statements of uploads and of the purge of a file on
  \<open>artifacts\<close> and \<open>audit_events\<close> change no other table of these; here they change the two in any way.
\<close>

inductive market_step :: "MarketplaceRuntimePolicy \<Rightarrow> market \<Rightarrow> market \<Rightarrow> bool" for p where
  sign_in: "ensureUserCredit tenant (mp_welcomeCreditMicros p) now (store m) = Inr (db', n) \<Longrightarrow>
    market_step p m (m\<lparr>store := db'\<rparr>)"
| reserve: "reserveInference bytes price (o_concurrency offer) areq rvn row (store m) = Inr (db', Some charge) \<Longrightarrow>
    j_status row = ''reserved'' \<Longrightarrow> isJobId (j_job_id row) \<Longrightarrow>
    offer \<in> set (capacity_offers (store m)) \<Longrightarrow> o_offer_id offer = j_offer_id row \<Longrightarrow>
    market_step p m (m\<lparr>store := db', calls := insert (j_job_id row) (calls m)\<rparr>)"
| finish: "finishInference est maxOut charge price (mp_platformFeeBps p) code failedAt x (store m) = (db', r) \<Longrightarrow>
    is_jobId x \<in> calls m \<Longrightarrow> freshEntries (is_debitId x, is_creditId x, is_feeId x) (store m) \<Longrightarrow>
    market_step p m (m\<lparr>store := db', calls := calls m - {is_jobId x}\<rparr>)"
| lost: "market_step p m (m\<lparr>calls := calls m - {i}\<rparr>)"
| reserve_task: "reserveArtifactTask price (mp_maximumActiveArtifactTasksPerTenant p) au ac dt row (store m) = Inr (db', n) \<Longrightarrow>
    t_status row = ''queued'' \<Longrightarrow> isTaskId (t_task_id row) \<Longrightarrow> market_step p m (m\<lparr>store := db'\<rparr>)"
| claim: "claimArtifactTask i stn areq rvn now w pr ld le ed res (store m) = Inr (db', n) \<Longrightarrow>
    market_step p m (m\<lparr>store := db'\<rparr>)"
| complete_task: "completeArtifactTask price (mp_platformFeeBps p) artifactSize verified y (store m) = (db', r') \<Longrightarrow>
    freshEntries (ts_debitId y, ts_creditId y, ts_feeId y) (store m) \<Longrightarrow> market_step p m (m\<lparr>store := db'\<rparr>)"
| publish: "batch (createOfferBatch orow rvn v c b e au ac dt) (store m) = Inr (db', ns) \<Longrightarrow> 0 \<le> o_concurrency orow \<Longrightarrow>
    market_step p m (m\<lparr>store := db'\<rparr>)"
| files: "market_step p m (m\<lparr>store := (store m)\<lparr>artifacts := as, audit_events := aus\<rparr>\<rparr>)"
| handle: "handler_batch p ss \<Longrightarrow> batch ss (store m) = Inr (db', ns) \<Longrightarrow> market_step p m (m\<lparr>store := db'\<rparr>)"

definition emptyDatabase :: database where
  "emptyDatabase = \<lparr>suppliers = [], authorization_requests = [], capacity_offers = [], marketplace_events = [],
     inference_jobs = [], usage_records = [], service_evidence = [], ledger_entries = [], audit_events = [],
     idempotency_keys = [], artifacts = [], supplier_artifact_workers = [], artifact_tasks = [],
     artifact_task_checkpoints = [], artifact_task_evidence = []\<rparr>"

inductive reachable :: "MarketplaceRuntimePolicy \<Rightarrow> market \<Rightarrow> bool" for p where
  start: "reachable p \<lparr>store = emptyDatabase, calls = {}\<rparr>"
| step: "reachable p m \<Longrightarrow> market_step p m m' \<Longrightarrow> reachable p m'"

lemma handler_quiet: "handler_batch p ss \<Longrightarrow> list_all (quietStmt lo) ss"
  by (induction rule: handler_batch.induct)
    (simp_all add: quiet_claimRecovery quiet_checkpoint quiet_insertCheckpoint quiet_failTask quiet_acknowledge
      quiet_cancel quiet_privacy quiet_migrate quiet_cleanup quiet_output quiet_tables quiet_review quiet_lifecycle quiet_supplier)

section \<open>Invariants\<close>

definition sound :: "market \<Rightarrow> bool" where
  "sound m \<longleftrightarrow> solvent (store m) \<and> withinCapacity (store m) \<and> conserved (calls m) (store m) \<and>
     (\<forall>i \<in> calls m. isJobId i)"

lemma sound_start: "sound \<lparr>store = emptyDatabase, calls = {}\<rparr>"
  by (simp add: sound_def emptyDatabase_def solvent_def books_def available_def ledgerTotal_def jobHolds_def
      taskHolds_def withinCapacity_def activeOnOffer_def countRows_def conserved_def balanced_def
      settlementBalance_def jobBalance_def debitsOf_def evidenced_def)

lemma sound_quiet:
  assumes "sound m" "quiet True (store m) db'" "C' \<subseteq> calls m"
  shows "sound (m\<lparr>store := db', calls := C'\<rparr>)"
  using assms quiet_books [of "{}" "{}" "store m" True db'] lighter_within [OF _ quiet_lighter [OF assms(2)]]
    quiet_conserved [OF _ assms(2,3)]
  by (auto simp: sound_def solvent_def)

subsection \<open>Amounts\<close>

lemma settlement_casts:
  assumes "calculateSettlement q = Inr m"
  shows "0 \<le> castInteger (buyerChargeMicros m)" "0 \<le> castInteger (supplierCreditMicros m)"
    "0 \<le> castInteger (platformFeeMicros m)"
proof -
  from assms obtain t b where q: "0 < t" "0 \<le> b" "b \<le> 5000" "is_pos_decimal (priceMicrosPerMillionTokens q)"
    and m: "buyerChargeMicros m = BigInt_toString (chargeOf t (BigInt_str (priceMicrosPerMillionTokens q)))"
      "platformFeeMicros m = BigInt_toString (feeOf (chargeOf t (BigInt_str (priceMicrosPerMillionTokens q))) b)"
      "supplierCreditMicros m = BigInt_toString (chargeOf t (BigInt_str (priceMicrosPerMillionTokens q)) -
         feeOf (chargeOf t (BigInt_str (priceMicrosPerMillionTokens q))) b)"
    by (auto simp: calculateSettlement_Inr Let_def)
  let ?c = "chargeOf t (BigInt_str (priceMicrosPerMillionTokens q))"
  have "0 < ?c" using q(1,4) by (rule chargeOf_pos)
  with feeOf_bounds [of ?c b] q(2,3) show "0 \<le> castInteger (buyerChargeMicros m)"
    "0 \<le> castInteger (supplierCreditMicros m)" "0 \<le> castInteger (platformFeeMicros m)"
    by (simp_all add: m castInteger_BigInt INT64_MAX_def)
qed

lemma estimate_casts:
  "estimateMaximumChargeMicros i o' pr = Inr c \<Longrightarrow> 0 \<le> castInteger c"
  "estimateArtifactMaximumChargeMicros t pr = Inr c \<Longrightarrow> 0 \<le> castInteger c"
  by (auto simp: estimateMaximumChargeMicros_def estimateArtifactMaximumChargeMicros_def dest: settlement_casts(1))

subsection \<open>Each transition\<close>

lemma sound_sign_in:
  assumes "sound m" "ensureUserCredit tenant credit now (store m) = Inr (db', n)" "0 \<le> castInteger credit"
  shows "sound (m\<lparr>store := db'\<rparr>)"
proof -
  define row where "row = \<lparr>l_entry_id = ''welcome-'' @ tenant, l_tenant_id = tenant, l_account_id = ''buyer-'' @ tenant,
    l_job_id = None, l_entry_type = ''promotional-credit'', l_direction = ''credit'', l_amount_micros = credit,
    l_currency = ''CNY'', l_created_at = now\<rparr>"
  have ins: "insertLedgerOrIgnore row (store m) = Inr (db', n)"
    using assms(2) by (simp add: ensureUserCredit_def row_def)
  have "solvent db'" using assms(1,3) books_credit [OF _ ins] by (simp add: sound_def solvent_def row_def)
  moreover have "lighter (store m) db'"
    using ins by (intro sameTables_lighter) (auto simp: insertLedgerOrIgnore_def split: if_splits)
  moreover have "conserved (calls m) db'"
  proof (cases "ledgerConflict (store m) row")
    case True
    with ins assms(1) show ?thesis by (simp add: insertLedgerOrIgnore_def sound_def)
  next
    case False
    with ins have db': "db' = (store m)\<lparr>ledger_entries := ledger_entries (store m) @ [row]\<rparr>"
      by (simp add: insertLedgerOrIgnore_def)
    have row: "l_entry_type row \<notin> set settlementTypes" "l_job_id row = None"
      by (simp_all add: row_def settlementTypes_def)
    have d: "conserved (calls m) (store m)" using assms(1) by (simp add: sound_def)
    note d = conservedD [OF d]
    show ?thesis
    proof (rule conservedI)
      show "balanced db'" using d(1) row
        by (simp add: db' balanced_def settlementBalance_def jobBalance_def debitsOf_def countRows_def settlementAmount_def)
      show "\<exists>i \<in> evidenced db'. l_job_id l = Some i"
        if "l \<in> set (ledger_entries db')" "l_entry_type l \<in> set settlementTypes" for l
      proof -
        have "evidenced db' = evidenced (store m)" by (simp add: db' evidenced_def)
        moreover have "l \<noteq> row" using that(2) row(1) by blast
        then have "l \<in> set (ledger_entries (store m))" using that(1) by (simp add: db')
        ultimately show ?thesis using d(2) that(2) by simp
      qed
      show "calls m \<inter> evidenced db' = {}" using d(8) by (simp add: db' evidenced_def)
    qed (use d(3-7) in \<open>simp_all add: db'\<close>)
  qed
  ultimately show ?thesis using assms(1) lighter_within by (auto simp: sound_def)
qed

lemma reserveInference_Some:
  assumes "reserveInference bytes price limit a r row db = Inr (db', Some charge)"
  shows "0 \<le> castInteger charge"
    "RESERVE_INFERENCE_JOB_SQL (row\<lparr>j_reserved_charge_micros := charge\<rparr>) a r limit db = Inr (db', 1)"
  using assms by (auto simp: reserveInference_def Let_def split: sum.splits if_splits dest: estimate_casts(1))

lemma sound_reserve:
  assumes "sound m" "reserveInference bytes price (o_concurrency offer) a r row (store m) = Inr (db', Some charge)"
    and "j_status row = ''reserved''" "isJobId (j_job_id row)" "offer \<in> set (capacity_offers (store m))"
      "o_offer_id offer = j_offer_id row"
  shows "sound (m\<lparr>store := db', calls := insert (j_job_id row) (calls m)\<rparr>)"
proof -
  let ?row = "row\<lparr>j_reserved_charge_micros := charge\<rparr>"
  note res = reserveInference_Some [OF assms(2)]
  have "solvent db'"
    using assms(1,3) res by (intro RESERVE_INFERENCE_solvent [OF _ res(2)]) (auto simp: sound_def jobCharge_def)
  moreover have "withinCapacity db'"
    using assms(1,3,5,6) by (intro RESERVE_INFERENCE_within [OF _ res(2)]) (auto simp: sound_def jobHeld_def)
  moreover have "conserved (insert (j_job_id row) (calls m)) db'"
    using res(2)
  proof (cases rule: RESERVE_INFERENCE_cases)
    case 2
    note d = conservedD [of "calls m" "store m"]
    have c: "conserved (calls m) (store m)" using assms(1) by (simp add: sound_def)
    have new: "j_job_id row \<notin> evidenced (store m)"
    proof -
      have "j_job_id row \<notin> se_job_id ` set (service_evidence (store m))" using d(3) [OF c] "2"(6) by force
      moreover have "j_job_id row \<notin> te_task_id ` set (artifact_task_evidence (store m))"
      proof
        assume "j_job_id row \<in> te_task_id ` set (artifact_task_evidence (store m))"
        then obtain e where e: "e \<in> set (artifact_task_evidence (store m))" "j_job_id row = te_task_id e" by blast
        then have "isTaskId (j_job_id row)" using d(7) [OF c d(4) [OF c e(1)]] by simp
        with assms(4) ids_disjoint show False by blast
      qed
      ultimately show ?thesis by (simp add: evidenced_def)
    qed
    show ?thesis
    proof (rule conservedI)
      show "balanced db'"
        using d(1) [OF c] by (simp add: "2"(2) balanced_def settlementBalance_def jobBalance_def)
      show "insert (j_job_id row) (calls m) \<inter> evidenced db' = {}"
        using d(8) [OF c] new by (simp add: "2"(2) evidenced_def)
    qed (use d(2-7) [OF c] assms(4) in \<open>auto simp: "2"(2) evidenced_def\<close>)
  qed simp
  ultimately show ?thesis using assms(1,4) by (auto simp: sound_def)
qed

text \<open>What the settlement phase leaves behind, whatever it returns.\<close>

lemma settleInference_cases:
  assumes "settleInference est maxOut charge price fee x db = (db', r)"
  obtains "db' = db" | q amounts ns where "calculateSettlement q = Inr amounts"
    "batch (settlementStatements (x\<lparr>is_amounts := amounts\<rparr>)) db = Inr (db', ns)"
  using assms unfolding settleInference_def by (auto split: prod.splits if_splits sum.splits)

lemma sound_settle:
  assumes "sound m" "settleInference est maxOut charge price fee x (store m) = (db', r)"
    and "is_jobId x \<in> calls m" "freshEntries (is_debitId x, is_creditId x, is_feeId x) (store m)"
  shows "sound (m\<lparr>store := db', calls := calls m - {is_jobId x}\<rparr>)"
  using assms(2)
proof (cases rule: settleInference_cases)
  case 1
  then show ?thesis using sound_quiet [OF assms(1) quiet_refl, of "calls m - {is_jobId x}"] by simp
next
  case (2 q amounts ns)
  let ?x = "x\<lparr>is_amounts := amounts\<rparr>"
  have inv: "solvent (store m)" "withinCapacity (store m)" "conserved (calls m) (store m)"
    using assms(1) by (simp_all add: sound_def)
  have "solvent db'"
    using settlement_casts [OF "2"(1)] assms(4)
    by (intro settlement_solvent [OF inv(1) "2"(2)]) (auto simp: freshEntries_def)
  moreover have "withinCapacity db'" using inv(2) settlement_lighter(1) [OF "2"(2)] by (rule lighter_within)
  moreover have "conserved (calls m - {is_jobId x}) db'"
  proof -
    have new: "is_jobId ?x \<notin> evidenced (store m)" using conservedD(8) [OF inv(3)] assms(3) by auto
    from inference_settlement_effect [OF inv(3) new "2"(2)] assms(4)
    consider "sameIds (store m) db'" "artifact_task_evidence db' = artifact_task_evidence (store m)"
        "ledger_entries db' = ledger_entries (store m)" "service_evidence db' = service_evidence (store m)"
      | "sameIds (store m) db'" "artifact_task_evidence db' = artifact_task_evidence (store m)"
        "ledger_entries db' = ledger_entries (store m) @ settlementRows (is_jobId x)
           (is_debitId x, is_creditId x, is_feeId x) (is_tenantId x) (is_supplierTenantId x) amounts (is_completedAt x)"
        "service_evidence db' = service_evidence (store m) @ [evidenceRow ?x]"
        "is_jobId x \<in> set (map j_job_id (inference_jobs (store m)))"
      by fastforce
    then show ?thesis
    proof cases
      case 1
      then show ?thesis by (intro conserved_frame [OF inv(3)]) (auto simp: sameIds_def)
    next
      case 2
      have "conserved (calls m - {se_job_id (evidenceRow ?x)}) db'"
        using "2"(5) new
        by (intro conserved_inference [OF inv(3) "2"(1,2,3,4)])
          (auto simp: settlementRows_debits [simplified] no_debit [OF inv(3)] dest: settlementRows_job
            intro!: settlementRows_sum settlement_split [OF \<open>calculateSettlement q = Inr amounts\<close>])
      then show ?thesis by simp
    qed
  qed
  ultimately show ?thesis using assms(1) by (auto simp: sound_def)
qed

lemma sound_finish:
  assumes "sound m" "finishInference est maxOut charge price fee code failedAt x (store m) = (db', r)"
    and "is_jobId x \<in> calls m" "freshEntries (is_debitId x, is_creditId x, is_feeId x) (store m)"
  shows "sound (m\<lparr>store := db', calls := calls m - {is_jobId x}\<rparr>)"
proof -
  obtain db1 r1 where s: "settleInference est maxOut charge price fee x (store m) = (db1, r1)" by force
  note s1 = sound_settle [OF assms(1) s assms(3,4)]
  have "quiet True db1 db'"
    using assms(2) s quiet_jobs(2) [of True code failedAt "is_jobId x", unfolded quietStmt_def]
    by (auto simp: finishInference_def split: sum.splits prod.splits)
  then have "quiet True (store (m\<lparr>store := db1, calls := calls m - {is_jobId x}\<rparr>)) db'" by simp
  from sound_quiet [OF s1 this] show ?thesis by simp
qed

lemma reserveArtifactTask_cases:
  assumes "reserveArtifactTask price limit au ac dt row db = Inr (db', n)"
  obtains charge db1 k k' where "0 \<le> castInteger charge"
    "RESERVE_ARTIFACT_TASK_SQL (row\<lparr>t_reserved_charge_micros := charge\<rparr>) limit db = Inr (db1, k)"
    "guardedArtifactTaskAuditInsert au (t_buyer_tenant_id row) ac ''artifact-task.queued'' (t_task_id row) dt
       (t_created_at row) db1 = Inr (db', k')"
  using assms unfolding reserveArtifactTask_def
  by (auto split: sum.splits prod.splits dest: estimate_casts(2))

lemma quiet_taskAudit: "quietStmt lo (guardedArtifactTaskAuditInsert au tn ac an i dt now)"
  unfolding guardedArtifactTaskAuditInsert_def by (intro quiet_if quiet_tables)

lemma sound_reserve_task:
  assumes "sound m" "reserveArtifactTask price limit au ac dt row (store m) = Inr (db', n)"
    and "t_status row = ''queued''" "isTaskId (t_task_id row)"
  shows "sound (m\<lparr>store := db'\<rparr>)"
  using assms(2)
proof (rule reserveArtifactTask_cases)
  fix charge db1 k k'
  let ?row = "row\<lparr>t_reserved_charge_micros := charge\<rparr>"
  assume c: "0 \<le> castInteger charge" and r: "RESERVE_ARTIFACT_TASK_SQL ?row limit (store m) = Inr (db1, k)"
    and a: "guardedArtifactTaskAuditInsert au (t_buyer_tenant_id row) ac ''artifact-task.queued'' (t_task_id row) dt
       (t_created_at row) db1 = Inr (db', k')"
  have inv: "solvent (store m)" "withinCapacity (store m)" "conserved (calls m) (store m)" "\<forall>i \<in> calls m. isJobId i"
    using assms(1) by (simp_all add: sound_def)
  have "solvent db1" using inv(1) c assms(3) by (intro RESERVE_ARTIFACT_solvent [OF _ r]) (auto simp: taskCharge_def)
  moreover have "withinCapacity db1"
    using inv(2) RESERVE_ARTIFACT_lighter [OF r] assms(3) by (auto intro: lighter_within)
  moreover have "conserved (calls m) db1" using r
  proof (cases rule: RESERVE_ARTIFACT_cases)
    case 2
    note d = conservedD [OF inv(3)]
    show ?thesis
    proof (rule conservedI)
      show "balanced db1" using d(1) by (simp add: "2"(2) balanced_def settlementBalance_def jobBalance_def)
      show "calls m \<inter> evidenced db1 = {}" using d(8) by (simp add: "2"(2) evidenced_def)
    qed (use d(2-7) assms(4) in \<open>auto simp: "2"(2) evidenced_def\<close>)
  qed (use inv(3) in simp)
  ultimately have "sound (m\<lparr>store := db1\<rparr>)" using inv(4) by (simp add: sound_def)
  moreover have "quiet True db1 db'" using a quiet_taskAudit [of True, unfolded quietStmt_def] by blast
  ultimately show ?thesis using sound_quiet [of "m\<lparr>store := db1\<rparr>" db' "calls m"] by simp
qed

lemma sound_claim:
  assumes "sound m" "claimArtifactTask i stn a r now w pr ld le ed res (store m) = Inr (db', n)"
  shows "sound (m\<lparr>store := db'\<rparr>)"
proof -
  have inv: "solvent (store m)" "withinCapacity (store m)" "conserved (calls m) (store m)"
    using assms(1) by (simp_all add: sound_def)
  have q: "quiet False (store m) db'" using quiet_claim assms(2) unfolding quietStmt_def by blast
  have "solvent db'" using quiet_books [OF _ q] inv(1) by (simp add: solvent_def)
  moreover have "withinCapacity db'"
    using booksD(2) [of "{}" "{}" "store m"] inv(1) by (intro claim_within [OF inv(2) _ assms(2)]) (simp add: solvent_def)
  moreover have "conserved (calls m) db'" using quiet_conserved [OF inv(3) q order_refl] .
  ultimately show ?thesis using assms(1) by (simp add: sound_def)
qed

lemma completeArtifactTask_cases:
  assumes "completeArtifactTask price fee artifactSize verified y db = (db', r)"
  obtains "db' = db" | q e amounts ns where "calculateSettlement q = Inr amounts"
    "batch (taskSettlementStatements (y\<lparr>ts_evidence := e, ts_amounts := amounts\<rparr>)) db = Inr (db', ns)"
  using assms unfolding completeArtifactTask_def Let_def
  by (auto split: prod.splits if_splits sum.splits option.splits)

lemma sound_complete_task:
  assumes "sound m" "completeArtifactTask price fee artifactSize verified y (store m) = (db', r)"
    and "freshEntries (ts_debitId y, ts_creditId y, ts_feeId y) (store m)"
  shows "sound (m\<lparr>store := db'\<rparr>)"
  using assms(2)
proof (cases rule: completeArtifactTask_cases)
  case 1
  then show ?thesis using assms(1) by simp
next
  case (2 q e amounts ns)
  let ?y = "y\<lparr>ts_evidence := e, ts_amounts := amounts\<rparr>" and ?i = "t_task_id (ts_task y)"
  have inv: "solvent (store m)" "withinCapacity (store m)" "conserved (calls m) (store m)" "\<forall>i \<in> calls m. isJobId i"
    using assms(1) by (simp_all add: sound_def)
  have "solvent db'"
    using settlement_casts [OF "2"(1)] assms(3)
    by (intro task_settlement_solvent [OF inv(1) "2"(2)]) (auto simp: freshEntries_def)
  moreover have "withinCapacity db'" using inv(2) settlement_lighter(2) [OF "2"(2)] by (rule lighter_within)
  moreover have "conserved (calls m) db'"
  proof -
    from task_settlement_effect [OF inv(3,1) "2"(2)] assms(3)
    consider "sameIds (store m) db'" "service_evidence db' = service_evidence (store m)"
        "ledger_entries db' = ledger_entries (store m)"
        "artifact_task_evidence db' = artifact_task_evidence (store m)"
      | "sameIds (store m) db'" "service_evidence db' = service_evidence (store m)"
        "ledger_entries db' = ledger_entries (store m) @ settlementRows ?i (ts_debitId y, ts_creditId y, ts_feeId y)
           (t_buyer_tenant_id (ts_task y)) (t_supplier_tenant_id (ts_task y)) amounts (ts_now y)"
        "artifact_task_evidence db' = artifact_task_evidence (store m) @ [taskEvidenceRow ?y]"
        "?i \<in> set (map t_task_id (artifact_tasks (store m)))" "?i \<notin> evidenced (store m)"
        "\<exists>u \<in> set (usage_records db'). u_job_id u = ?i"
      by fastforce
    then show ?thesis
    proof cases
      case 1
      then show ?thesis by (intro conserved_frame [OF inv(3)]) (auto simp: sameIds_def)
    next
      case 2
      have id: "te_task_id (taskEvidenceRow ?y) = ?i" by (simp add: taskEvidenceRow_def Let_def)
      show ?thesis
        by (rule conserved_task [OF inv(3) "2"(1,2,3,4)])
          (use "2"(5,6,7) inv(4) in \<open>simp_all only: id settlementRows_debits no_debit [OF inv(3) "2"(6)]
            settlementRows_sum [OF settlement_split [OF \<open>calculateSettlement q = Inr amounts\<close>]] settlementRows_job\<close>)
    qed
  qed
  ultimately show ?thesis using assms(1) by (simp add: sound_def)
qed

lemma sound_publish:
  assumes "sound m" "batch (createOfferBatch orow r v c b e au ac dt) (store m) = Inr (db', ns)"
    "0 \<le> o_concurrency orow"
  shows "sound (m\<lparr>store := db'\<rparr>)"
proof -
  have inv: "solvent (store m)" "withinCapacity (store m)" "conserved (calls m) (store m)"
    using assms(1) by (simp_all add: sound_def)
  let ?rest = "[guardedCapacityOfferEventInsert e (o_offer_id orow) (o_tenant_id orow),
      guardedCapacityOfferAuditInsert au (o_tenant_id orow) ac (o_offer_id orow) dt (o_created_at orow),
      BIND_CAPACITY_OFFER_COMMAND_SQL (o_tenant_id orow) c b (o_created_at orow) (o_offer_id orow) (o_supplier_id orow)]"
  from assms(2) obtain db1 k ms where
    s: "CREATE_CAPACITY_OFFER_WITH_AUTHORIZATION_CAS_SQL orow r v c (store m) = Inr (db1, k)"
    and rest: "batch ?rest db1 = Inr (db', ms)"
    unfolding createOfferBatch_def by (auto simp: case_prod_beta)
  have books: "sameBooks (store m) db1" "usage_records db1 = usage_records (store m)"
    using s by (auto simp: CREATE_CAPACITY_OFFER_WITH_AUTHORIZATION_CAS_SQL_def sameBooks_def split: if_splits)
  have "solvent db1" using inv(1) books_cong [OF books(1)] by (simp add: solvent_def)
  moreover have "withinCapacity db1" using CREATE_OFFER_within [OF inv(2) s assms(3)] .
  moreover have "conserved (calls m) db1"
    using books by (intro conserved_frame [OF inv(3)]) (auto simp: sameBooks_def)
  ultimately have "sound (m\<lparr>store := db1\<rparr>)" using assms(1) by (simp add: sound_def)
  moreover have "list_all (quietStmt True) ?rest"
    unfolding guardedCapacityOfferEventInsert_def guardedCapacityOfferAuditInsert_def
      BIND_CAPACITY_OFFER_COMMAND_SQL_def list.pred_inject
    by (intro conjI list.pred_inject(1) quiet_supply)
  then have "quiet True db1 db'" using rest by (rule quiet_batch)
  ultimately show ?thesis using sound_quiet [of "m\<lparr>store := db1\<rparr>" db' "calls m"] by simp
qed

lemma sound_step:
  assumes "0 \<le> castInteger (mp_welcomeCreditMicros p)" "market_step p m m'" "sound m"
  shows "sound m'"
  using assms(2,3)
proof (induction rule: market_step.induct)
  case (lost m i)
  then show ?case using sound_quiet [of m "store m" "calls m - {i}"] by auto
next
  case (handle ss m db' ns)
  then have "quiet True (store m) db'" using handler_quiet quiet_batch by blast
  then show ?case using sound_quiet [of m db' "calls m"] handle.prems by simp
next
  case (files m aus as)
  have "sameBooks (store m) ((store m)\<lparr>artifacts := as, audit_events := aus\<rparr>)" by (simp add: sameBooks_def)
  then have "quiet True (store m) ((store m)\<lparr>artifacts := as, audit_events := aus\<rparr>)" by (rule sameBooks_quiet) simp_all
  then show ?case using sound_quiet [of m _ "calls m"] files.prems by fastforce
qed (auto intro: sound_sign_in sound_reserve sound_finish sound_reserve_task sound_claim sound_complete_task
    sound_publish assms(1))

lemma reachable_sound:
  assumes "getMarketplaceRuntimePolicy num env = Inr p" "reachable p m"
  shows "sound m"
proof -
  have "decimalPattern (mp_welcomeCreditMicros p)"
    using assms(1) by (auto simp: getMarketplaceRuntimePolicy_def decimalSetting_def Let_def)
  then have "0 \<le> castInteger (mp_welcomeCreditMicros p)" by (rule castInteger_decimalPattern(2))
  with assms(2) show ?thesis by (induction rule: reachable.induct) (auto intro: sound_start sound_step)
qed

section \<open>Reachable states\<close>

text \<open>
  C1: No tenant can spend money it does not have. In every reachable state of the marketplace, under
  every interleaving of requests, worker calls, cleanups and life-cycle operations, the available
  balance of every tenant (ledger minus the reservations of its inferences and artifact tasks) is
  non-negative, and the balance query, when it returns, returns exactly that amount.
\<close>

theorem market_solvent:
  assumes "getMarketplaceRuntimePolicy num env = Inr p" "reachable p m"
  shows "0 \<le> available (store m) tenant \<and>
    (\<forall>b. AVAILABLE_BALANCE_SQL (store m) tenant = Inr b \<longrightarrow> b = available (store m) tenant)"
  using reachable_sound [OF assms] booksD(9) AVAILABLE_BALANCE_exact by (auto simp: sound_def solvent_def)

text \<open>
  C3: No offer is oversold. In every reachable state the inferences reserved or running on an offer
  and the artifact tasks leased on it are together at most the concurrency the offer was published
  with, and work is only ever carried by a published offer.
\<close>

theorem market_within_capacity:
  assumes "getMarketplaceRuntimePolicy num env = Inr p" "reachable p m"
  shows "(\<forall>off \<in> set (capacity_offers (store m)). int (activeOnOffer (store m) (o_offer_id off)) \<le> o_concurrency off) \<and>
    (\<forall>i. 0 < activeOnOffer (store m) i \<longrightarrow> i \<in> o_offer_id ` set (capacity_offers (store m)))"
proof -
  have "withinCapacity (store m)" using reachable_sound [OF assms] by (simp add: sound_def)
  then show ?thesis unfolding withinCapacity_def by (simp add: image_iff) (metis)
qed

lemma debit_once:
  assumes "sound m" "i \<in> evidenced (store m)"
  shows "debitsOf i (ledger_entries (store m)) = 1"
proof -
  have "hasDebit (store m) i"
    using assms booksD(7,8) [of "{}" "{}" "store m"] by (auto simp: sound_def solvent_def evidenced_def)
  then have "debitsOf i (ledger_entries (store m)) \<noteq> 0"
    by (auto simp: hasDebit_def debitsOf_def countRows_def filter_empty_conv)
  moreover have "debitsOf i (ledger_entries (store m)) \<le> 1"
    using assms(1) conservedD(1) by (auto simp: sound_def balanced_def)
  ultimately show ?thesis by linarith
qed

text \<open>
  C2: Settlement happens once and conserves money. In every reachable state each completed inference
  or artifact task has its evidence, each piece of evidence has exactly one debit, the credits of the
  supplier and of the platform for a job equal its debit to the last micro, and the settlement
  entries of the whole ledger sum to zero.
\<close>

theorem market_settles_once:
  assumes "getMarketplaceRuntimePolicy num env = Inr p" "reachable p m"
  shows "(\<forall>j \<in> set (inference_jobs (store m)). j_status j = ''completed'' \<longrightarrow> j_job_id j \<in> evidenced (store m)) \<and>
    (\<forall>t \<in> set (artifact_tasks (store m)). t_status t = ''completed'' \<longrightarrow> t_task_id t \<in> evidenced (store m)) \<and>
    (\<forall>i \<in> evidenced (store m). debitsOf i (ledger_entries (store m)) = 1) \<and>
    (\<forall>i. jobBalance (store m) i = 0) \<and> settlementBalance (store m) = 0"
proof -
  have s: "sound m" using reachable_sound [OF assms] .
  then have b: "books {} {} (store m)" "balanced (store m)"
    using conservedD(1) by (auto simp: sound_def solvent_def)
  have "j_job_id j \<in> evidenced (store m)" if "j \<in> set (inference_jobs (store m))" "j_status j = ''completed''" for j
    using booksD(5) [OF b(1)] that unfolding evidenced_def by (metis UnI1 empty_iff imageI)
  moreover have "t_task_id t \<in> evidenced (store m)" if "t \<in> set (artifact_tasks (store m))" "t_status t = ''completed''" for t
    using booksD(6) [OF b(1)] that unfolding evidenced_def by (metis UnI2 empty_iff imageI)
  ultimately show ?thesis using debit_once [OF s] b(2) by (simp add: balanced_def)
qed

end
