(* ===== verification/Progress.thy ===== *)
theory Progress
  imports Market
begin

text \<open>
  Final states and progress: completed, failed and cancelled work never changes status again, stale
  inference reservations are released, and expired leases and queue entries do not survive the
  cleanup.
\<close>

section \<open>Final states\<close>

definition finalStay :: "database \<Rightarrow> database \<Rightarrow> bool" where
  "finalStay db db' \<longleftrightarrow>
     (\<forall>j \<in> set (inference_jobs db). \<not> jobHeld j \<longrightarrow>
        (\<exists>j' \<in> set (inference_jobs db'). j_job_id j' = j_job_id j \<and> j_status j' = j_status j)) \<and>
     (\<forall>t \<in> set (artifact_tasks db). \<not> taskHeld t \<longrightarrow>
        (\<exists>t' \<in> set (artifact_tasks db'). t_task_id t' = t_task_id t \<and> t_status t' = t_status t))"

lemma finalStay_same:
  "inference_jobs db' = inference_jobs db \<Longrightarrow> artifact_tasks db' = artifact_tasks db \<Longrightarrow> finalStay db db'"
  by (auto simp: finalStay_def)

lemma finalStay_refl [simp]: "finalStay db db"
  by (simp add: finalStay_same)

lemma finalStay_trans:
  assumes "finalStay a b" "finalStay b c"
  shows "finalStay a c"
  unfolding finalStay_def
proof (intro conjI ballI impI)
  fix j assume "j \<in> set (inference_jobs a)" "\<not> jobHeld j"
  then obtain j' where j': "j' \<in> set (inference_jobs b)" "j_job_id j' = j_job_id j" "j_status j' = j_status j"
    using assms(1) by (auto simp: finalStay_def)
  moreover from this(3) \<open>\<not> jobHeld j\<close> have "\<not> jobHeld j'" by (simp add: jobHeld_def)
  ultimately obtain j'' where "j'' \<in> set (inference_jobs c)" "j_job_id j'' = j_job_id j'" "j_status j'' = j_status j'"
    using assms(2) unfolding finalStay_def by blast
  with j' show "\<exists>j'' \<in> set (inference_jobs c). j_job_id j'' = j_job_id j \<and> j_status j'' = j_status j" by auto
next
  fix t assume "t \<in> set (artifact_tasks a)" "\<not> taskHeld t"
  then obtain t' where t': "t' \<in> set (artifact_tasks b)" "t_task_id t' = t_task_id t" "t_status t' = t_status t"
    using assms(1) by (auto simp: finalStay_def)
  moreover from this(3) \<open>\<not> taskHeld t\<close> have "\<not> taskHeld t'" by (simp add: taskHeld_def)
  ultimately obtain t'' where "t'' \<in> set (artifact_tasks c)" "t_task_id t'' = t_task_id t'" "t_status t'' = t_status t'"
    using assms(2) unfolding finalStay_def by blast
  with t' show "\<exists>t'' \<in> set (artifact_tasks c). t_task_id t'' = t_task_id t \<and> t_status t'' = t_status t" by auto
qed

lemma quiet_finalStay:
  assumes "quiet lo db db'"
  shows "finalStay db db'"
proof -
  obtain g h where "jobQuiet g" "inference_jobs db' = map g (inference_jobs db)"
    "taskQuiet lo h" "artifact_tasks db' = map h (artifact_tasks db)" using assms by (auto simp: quiet_def)
  then show ?thesis
    by (auto simp: finalStay_def jobQuiet_def jobCalm_def taskQuiet_def taskCalm_def)
qed

text \<open>Updates that select only held rows.\<close>

lemma updateRows_stay: "r \<in> set rows \<Longrightarrow> \<not> p r \<Longrightarrow> r \<in> set (updateRows p f rows)"
  by (force simp: updateRows_def)

lemma finalStay_updateJobs:
  "(\<And>j. p j \<Longrightarrow> jobHeld j) \<Longrightarrow> updateJobs p f db = Inr (db', n) \<Longrightarrow> finalStay db db'"
  unfolding updateJobs_def finalStay_def by auto (metis updateRows_stay)

lemma finalStay_updateTasks:
  "(\<And>t. p t \<Longrightarrow> taskHeld t) \<Longrightarrow> updateTasks p f db = Inr (db', n) \<Longrightarrow> finalStay db db'"
  unfolding updateTasks_def finalStay_def by auto (metis updateRows_stay)

lemma COMPLETE_finalStay:
  "COMPLETE_INFERENCE_JOB_SQL x db = Inr (db', n) \<Longrightarrow> finalStay db db'"
  "COMPLETE_ARTIFACT_TASK_SQL y db = Inr (db', n) \<Longrightarrow> finalStay db db'"
   apply (unfold COMPLETE_INFERENCE_JOB_SQL_def Let_def andThen_Inr_iff)
   apply (elim exE conjE, erule finalStay_updateJobs [rotated])
   apply (simp add: jobHeld_def)
  apply (unfold COMPLETE_ARTIFACT_TASK_SQL_def Let_def andThen_Inr_iff)
  apply (elim exE conjE, erule finalStay_updateTasks [rotated])
  apply (auto simp: leaseHeld_def taskLeased_def taskHeld_def)
  done

lemma settlement_rest_finalStay:
  "insertInferenceUsage x db = Inr (db', n) \<Longrightarrow> finalStay db db'"
  "insertServiceEvidence x db = Inr (db', n) \<Longrightarrow> finalStay db db'"
  "guardedInferenceLedgerInsert e t a i ty d m c g db = Inr (db', n) \<Longrightarrow> finalStay db db'"
  "guardedInferenceAuditInsert x db = Inr (db', n) \<Longrightarrow> finalStay db db'"
  "insertTaskEvidence y db = Inr (db', n) \<Longrightarrow> finalStay db db'"
  "guardedLedgerInsert e t a i ty d m c g db = Inr (db', n) \<Longrightarrow> finalStay db db'"
  "insertTaskUsage y db = Inr (db', n) \<Longrightarrow> finalStay db db'"
  "insertTaskAudit y db = Inr (db', n) \<Longrightarrow> finalStay db db'"
  "extendArtifact y db = Inr (db', n) \<Longrightarrow> finalStay db db'"
  by (auto simp: insertInferenceUsage_def insertUsage_def insertServiceEvidence_def
      guardedInferenceLedgerInsert_def insertLedgerOrIgnore_def guardedInferenceAuditInsert_def insertAudit_def
      insertTaskEvidence_def guardedLedgerInsert_def insertTaskUsage_def insertTaskAudit_def extendArtifact_def
      updateArtifacts_def Let_def split: if_splits prod.splits intro!: finalStay_same)

lemma finalStay_batch:
  assumes "\<And>s d d' n. s \<in> set ss \<Longrightarrow> s d = Inr (d', n) \<Longrightarrow> finalStay d d'" "batch ss db = Inr (db', ns)"
  shows "finalStay db db'"
  by (rule batch_rel [of finalStay, OF finalStay_refl finalStay_trans assms])

lemma settlement_finalStay:
  "batch (settlementStatements x) db = Inr (db', ns) \<Longrightarrow> finalStay db db'"
  "batch (taskSettlementStatements y) db = Inr (db', ns) \<Longrightarrow> finalStay db db'"
  by (erule finalStay_batch [rotated]; auto simp: settlementStatements_def taskSettlementStatements_def Let_def
      dest: COMPLETE_finalStay settlement_rest_finalStay split: if_splits)+

lemma reserve_finalStay:
  "RESERVE_INFERENCE_JOB_SQL row a r c db = Inr (db', n) \<Longrightarrow> finalStay db db'"
  "RESERVE_ARTIFACT_TASK_SQL trow k db = Inr (db', n) \<Longrightarrow> finalStay db db'"
  by (erule RESERVE_INFERENCE_cases RESERVE_ARTIFACT_cases; auto simp: finalStay_def)+

lemma finish_finalStay:
  assumes "finishInference est maxOut charge price fee code failedAt x db = (db', r)"
  shows "finalStay db db'"
proof -
  obtain db1 r1 where s: "settleInference est maxOut charge price fee x db = (db1, r1)" by force
  then have "finalStay db db1"
    by (rule settleInference_cases) (auto dest: settlement_finalStay(1))
  moreover have "finalStay db1 db'"
    using assms s quiet_jobs(2) [of True code failedAt "is_jobId x", unfolded quietStmt_def]
    by (auto simp: finishInference_def split: sum.splits prod.splits intro: quiet_finalStay)
  ultimately show ?thesis by (rule finalStay_trans)
qed

lemma step_finalStay: "market_step p m m' \<Longrightarrow> finalStay (store m) (store m')"
proof (induction rule: market_step.induct)
  case (sign_in tenant now m db' n)
  then show ?case
    by (auto simp: ensureUserCredit_def insertLedgerOrIgnore_def split: if_splits intro: finalStay_same)
next
  case (reserve bytes price offer areq rvn row m db' charge)
  then show ?case using reserve_finalStay(1) [OF reserveInference_Some(2)] by simp
next
  case (finish est maxOut charge price code failedAt x m db' r)
  then show ?case using finish_finalStay by simp
next
  case (reserve_task price au ac dt row m db' n)
  from reserve_task(1) show ?case
  proof (rule reserveArtifactTask_cases)
    fix c db1 k k'
    assume "RESERVE_ARTIFACT_TASK_SQL (row\<lparr>t_reserved_charge_micros := c\<rparr>)
        (mp_maximumActiveArtifactTasksPerTenant p) (store m) = Inr (db1, k)"
      "guardedArtifactTaskAuditInsert au (t_buyer_tenant_id row) ac ''artifact-task.queued'' (t_task_id row) dt
         (t_created_at row) db1 = Inr (db', k')"
    then have "finalStay (store m) db1" "quiet True db1 db'"
      using reserve_finalStay(2) quiet_taskAudit [of True] unfolding quietStmt_def by blast+
    then have "finalStay (store m) db'" using finalStay_trans quiet_finalStay by blast
    then show ?thesis by simp
  qed
next
  case (claim i stn areq rvn now w pr ld le ed res m db' n)
  then have "quiet False (store m) db'" using quiet_claim unfolding quietStmt_def by blast
  then show ?case using quiet_finalStay by simp
next
  case (complete_task price artifactSize verified y m db' r')
  from complete_task(1) show ?case
    by (rule completeArtifactTask_cases) (auto dest: settlement_finalStay(2))
next
  case (publish orow rvn v c b e au ac dt m db' ns)
  then have "finalStay (store m) db'"
    by (elim finalStay_batch [rotated])
      (auto simp: createOfferBatch_def CREATE_CAPACITY_OFFER_WITH_AUTHORIZATION_CAS_SQL_def
        guardedCapacityOfferEventInsert_def guardedCapacityOfferAuditInsert_def BIND_CAPACITY_OFFER_COMMAND_SQL_def
        insertEvent_def insertAudit_def insertKeyOrIgnore_def split: if_splits intro!: finalStay_same)
  then show ?case by simp
next
  case (handle ss m db' ns)
  then show ?case using quiet_finalStay [OF quiet_batch [OF handler_quiet]] by simp
next
  case (files m aus as)
  show ?case by (simp add: finalStay_same)
qed simp

text \<open>
  C4: Final states are final. Along every run of the marketplace, a completed or failed inference job
  and a completed, failed or cancelled artifact task keep their status: a late completion cannot
  revive failed or cancelled work, and a late cancellation, expiry or revocation cannot undo a
  settlement.
\<close>

theorem final_states_final:
  assumes "(market_step p)\<^sup>*\<^sup>* m m'"
  shows "(\<forall>j \<in> set (inference_jobs (store m)). j_status j \<in> {''completed'', ''failed''} \<longrightarrow>
      (\<exists>j' \<in> set (inference_jobs (store m')). j_job_id j' = j_job_id j \<and> j_status j' = j_status j)) \<and>
    (\<forall>t \<in> set (artifact_tasks (store m)). t_status t \<in> {''completed'', ''failed'', ''cancelled''} \<longrightarrow>
      (\<exists>t' \<in> set (artifact_tasks (store m')). t_task_id t' = t_task_id t \<and> t_status t' = t_status t))"
proof -
  from assms have "finalStay (store m) (store m')"
    by (induction rule: rtranclp_induct) (auto intro: finalStay_trans step_finalStay)
  then show ?thesis by (force simp: finalStay_def jobHeld_def taskHeld_def)
qed

section \<open>Release of stale work\<close>

definition stale :: "string \<Rightarrow> string \<Rightarrow> JobRow \<Rightarrow> bool" where
  "stale now cutoff j \<longleftrightarrow> jobHeld j \<and> (leNull (j_reservation_expires_at j) now \<or>
     (j_reservation_expires_at j = None \<and> j_created_at j \<le> cutoff))"

lemma released_sum:
  fixes v :: "JobRow \<Rightarrow> int"
  assumes "\<And>j. v (f j) = v j" "\<And>j. \<not> jobHeld (f j)" "\<And>j. p j \<Longrightarrow> jobHeld j"
  shows "sum_list (map v (filter (\<lambda>j. q j \<and> jobHeld j) rows)) =
    sum_list (map v (filter (\<lambda>j. q j \<and> jobHeld j) (updateRows p f rows))) +
    sum_list (map v (filter (\<lambda>j. q j \<and> p j) rows))"
  using assms by (induction rows) (auto simp: updateRows_def)

text \<open>
  C21: An abandoned reservation cannot lock a buyer's money. The cleanup always succeeds; its result is
  the database in which exactly the stale jobs are failed with \<open>EXECUTION_TIMEOUT\<close> and their reservation
  cleared, in place, and every other job, every other column of a stale one and every other table is as it
  was; afterwards no job holds an expired reservation, and every tenant has got back exactly the charges of
  its stale jobs.
\<close>

theorem stale_reservations_released:
  "\<exists>db' n. cleanupStaleInferenceReservations now cutoff db = Inr (db', n) \<and>
    db' = db\<lparr>inference_jobs := map (\<lambda>j. if stale now cutoff j then j\<lparr>j_status := ''failed'',
      j_reservation_expires_at := None, j_error_code := Some ''EXECUTION_TIMEOUT'', j_completed_at := Some now\<rparr> else j)
      (inference_jobs db)\<rparr> \<and>
    (\<forall>j \<in> set (inference_jobs db'). \<not> stale now cutoff j) \<and>
    (\<forall>tenant. available db' tenant = available db tenant +
      sum_list (map jobCharge (filter (\<lambda>j. j_buyer_tenant_id j = tenant \<and> stale now cutoff j) (inference_jobs db)))) \<and>
    (\<forall>j \<in> set (inference_jobs db). \<not> stale now cutoff j \<longrightarrow> j \<in> set (inference_jobs db'))"
proof -
  let ?f = "\<lambda>j. j\<lparr>j_status := ''failed'', j_reservation_expires_at := None,
            j_error_code := Some ''EXECUTION_TIMEOUT'', j_completed_at := Some now\<rparr>"
  let ?db' = "db\<lparr>inference_jobs := updateRows (stale now cutoff) ?f (inference_jobs db)\<rparr>"
  have run: "cleanupStaleInferenceReservations now cutoff db =
      Inr (?db', countRows (stale now cutoff) (inference_jobs db))"
    by (simp add: cleanupStaleInferenceReservations_def updateJobs_def stale_def [abs_def])
  have f: "\<not> jobHeld (?f j)" "jobCharge (?f j) = jobCharge j" "stale now cutoff j \<Longrightarrow> jobHeld j" for j
    by (simp_all add: jobHeld_def jobCharge_def stale_def)
  have "\<not> stale now cutoff j" if "j \<in> set (inference_jobs ?db')" for j
    using that f(1) by (auto simp: updateRows_def stale_def)
  moreover have "available ?db' tenant = available db tenant +
      sum_list (map jobCharge (filter (\<lambda>j. j_buyer_tenant_id j = tenant \<and> stale now cutoff j) (inference_jobs db)))" for tenant
  proof -
    have "sum_list (map jobCharge (filter (\<lambda>j. j_buyer_tenant_id j = tenant \<and> jobHeld j) (inference_jobs db))) =
      sum_list (map jobCharge (filter (\<lambda>j. j_buyer_tenant_id j = tenant \<and> jobHeld j)
        (updateRows (stale now cutoff) ?f (inference_jobs db)))) +
      sum_list (map jobCharge (filter (\<lambda>j. j_buyer_tenant_id j = tenant \<and> stale now cutoff j) (inference_jobs db)))"
      by (rule released_sum) (use f in \<open>auto simp: jobCharge_def\<close>)
    then show ?thesis by (simp add: available_def ledgerTotal_def taskHolds_def jobHolds_def)
  qed
  moreover have "j \<in> set (inference_jobs ?db')" if "j \<in> set (inference_jobs db)" "\<not> stale now cutoff j" for j
    using that by (simp add: updateRows_stay)
  moreover have "?db' = db\<lparr>inference_jobs := map (\<lambda>j. if stale now cutoff j then ?f j else j) (inference_jobs db)\<rparr>"
    by (simp add: updateRows_def)
  ultimately show ?thesis using run by blast
qed

text \<open>
  C22: No artifact task is stuck behind a dead worker. The expiry batch always succeeds; afterwards no
  task is leased under an expired lease or a passed deadline, no queued task is older than the queue
  timeout, and the tasks left without a result by it are queued again, failed or cancelled.
\<close>

theorem expired_leases_released:
  "\<exists>db' ns. batch (cleanupExpiredTasks now cutoff maxAttempts) db = Inr (db', ns) \<and>
    (\<forall>t \<in> set (artifact_tasks db').
       \<not> (taskLeased t \<and> leaseExpired now t) \<and> \<not> (t_status t = ''queued'' \<and> t_created_at t \<le> cutoff)) \<and>
    map t_task_id (artifact_tasks db') = map t_task_id (artifact_tasks db)"
proof -
  let ?p1 = "\<lambda>t. t_cancellation_requested_at t \<noteq> None \<and> taskLeased t \<and> leaseExpired now t"
  let ?p2 = "\<lambda>t. taskLeased t \<and> t_cancellation_requested_at t = None \<and> leaseExpired now t \<and>
          t_attempt t < maxAttempts \<and> cutoff < t_created_at t"
  let ?p3 = "\<lambda>t. (t_status t = ''queued'' \<and> t_created_at t \<le> cutoff) \<or>
          (taskLeased t \<and> t_cancellation_requested_at t = None \<and> leaseExpired now t \<and>
           (t_attempt t \<ge> maxAttempts \<or> t_created_at t \<le> cutoff))"
  let ?f3 = "\<lambda>t. (clearInstruction (clearLease t))\<lparr>t_status := ''failed'',
           t_error_code := Some (if t_attempt t \<ge> maxAttempts then ''MAX_ATTEMPTS_EXCEEDED'' else ''QUEUE_TIMEOUT''),
           t_completed_at := Some now, t_updated_at := now\<rparr>"
  define g1 where "g1 = (\<lambda>t. if ?p1 t then cancelTask now t else t)"
  define g2 where "g2 = (\<lambda>t. if ?p2 t then requeueTask now t else t)"
  define g3 where "g3 = (\<lambda>t. if ?p3 t then ?f3 t else t)"
  have upd: "updateRows ?p1 (cancelTask now) ts = map g1 ts" "updateRows ?p2 (requeueTask now) ts = map g2 ts"
    "updateRows ?p3 ?f3 ts = map g3 ts" for ts by (simp_all add: updateRows_def g1_def g2_def g3_def)
  let ?db' = "db\<lparr>artifact_tasks := map g3 (map g2 (map g1 (artifact_tasks db)))\<rparr>"
  have run: "\<exists>ns. batch (cleanupExpiredTasks now cutoff maxAttempts) db = Inr (?db', ns)"
    unfolding cleanupExpiredTasks_def batch.simps updateTasks_def upd by simp
  have "\<not> (taskLeased u \<and> leaseExpired now u) \<and> \<not> (t_status u = ''queued'' \<and> t_created_at u \<le> cutoff)"
    if u: "u = g3 (g2 (g1 t))" for u t
  proof -
    define t1 where "t1 = g1 t"
    define t2 where "t2 = g2 t1"
    have no: "\<not> taskLeased (cancelTask now t)" "\<not> taskLeased (requeueTask now t)"
      "\<not> taskLeased (?f3 t)" "t_status (?f3 t) \<noteq> ''queued''" for t
      by (simp_all add: taskLeased_def cancelTask_def requeueTask_def)
    have a: "taskLeased t1 \<and> leaseExpired now t1 \<longrightarrow> t_cancellation_requested_at t1 = None"
      using no(1) [of t] unfolding t1_def g1_def by (cases "?p1 t") auto
    have b: "taskLeased t2 \<and> leaseExpired now t2 \<longrightarrow>
        t_cancellation_requested_at t2 = None \<and> (t_attempt t2 \<ge> maxAttempts \<or> t_created_at t2 \<le> cutoff)"
      using a no(2) [of t1] unfolding t2_def g2_def by (cases "?p2 t1") (auto simp: not_le)
    have "u = g3 t2" using u by (simp only: t1_def t2_def)
    then show ?thesis using b no(3,4) [of t2] unfolding g3_def by (cases "?p3 t2") auto
  qed
  moreover have "t_task_id (g3 (g2 (g1 t))) = t_task_id t" for t
    by (simp add: g1_def g2_def g3_def cancelTask_def requeueTask_def clearLease_def clearInstruction_def)
  moreover obtain ns where "batch (cleanupExpiredTasks now cutoff maxAttempts) db = Inr (?db', ns)" using run by blast
  ultimately show ?thesis by (intro exI [of _ ?db'] exI [of _ ns]) (auto simp: comp_def)
qed

end
