(* ===== verification/Scenario.thy ===== *)
theory Scenario
  imports Progress
begin

text \<open>
  One run of the marketplace, evaluated step by step: a supplier registers, submits an authorization,
  is approved, opens supply and publishes an offer; a buyer signs in, reserves an inference, runs it
  and is charged. The states of the run are the concrete instances of the theorems about reachable
  states.
\<close>

section \<open>The rows\<close>

definition demoEvent :: "string \<Rightarrow> int \<Rightarrow> EventRow" where
  "demoEvent i v = \<lparr>me_event_id = i, me_tenant_id = ''S'', me_actor_id = ''a'', me_causation_id = i,
     me_aggregate_type = ''supplier'', me_aggregate_id = ''s'', me_aggregate_version = v, me_event_type = ''e'',
     me_schema_version = 1, me_payload_json = ''{}'', me_occurred_at = ''1''\<rparr>"

definition demoAudit :: "string \<Rightarrow> AuditRow" where
  "demoAudit i = \<lparr>ad_audit_id = i, ad_tenant_id = ''S'', ad_actor_id = ''a'', ad_action = ''x'',
     ad_resource_type = ''y'', ad_resource_id = ''z'', ad_details_json = ''{}'', ad_occurred_at = ''1''\<rparr>"

definition demoRequest :: AuthorizationRow where
  "demoRequest = \<lparr>ar_request_id = ''r'', ar_tenant_id = ''S'', ar_supplier_id = ''s'', ar_provider_id = ''p'',
     ar_source_type = ''api-project'', ar_metering_mode = ''provider-report'', ar_evidence_ref = ''ref'',
     ar_model_pattern = ''m'', ar_region_code = ''CN'', ar_data_classes_json = ''[]'', ar_requests_per_minute = 1,
     ar_tokens_per_minute = 1000, ar_concurrency = 1, ar_max_output_tokens = 100, ar_valid_until = ''9'',
     ar_gateway_endpoint = ''g'', ar_encrypted_gateway_token = ''c'', ar_gateway_token_iv = ''i'',
     ar_credential_key_id = ''k'', ar_gateway_token_digest = Some ''d'', ar_gateway_token_digest_version = 2,
     ar_gateway_token_lookup_key_id = ''l'', ar_encryption_key_version = 1, ar_authorization_revision = 1,
     ar_status = ''pending'', ar_review_note = None, ar_reviewed_by = None, ar_review_command_id = None,
     ar_reviewed_at = None, ar_credential_rotated_at = None, ar_revoked_at = None,
     ar_revocation_reason_code = None, ar_created_at = ''1'', ar_updated_at = ''1''\<rparr>"

definition demoReview :: ReviewCommand where
  "demoReview = \<lparr>rv_tenant = ''A'', rv_actor = ''admin'', rv_requestId = ''r'', rv_commandId = ''rc'',
     rv_token = ''op'', rv_note = ''ok'', rv_now = ''2'', rv_auditId = ''au3'', rv_details = ''{}''\<rparr>"

definition demoOffer :: OfferRow where
  "demoOffer = \<lparr>o_offer_id = ''o'', o_tenant_id = ''S'', o_supplier_id = ''s'', o_authorization_request_id = ''r'',
     o_provider_id = ''p'', o_source_type = ''api-project'', o_model = ''m'', o_region_code = ''CN'',
     o_data_classes_json = ''[]'', o_requests_per_minute = 1, o_tokens_per_minute = 1000, o_concurrency = 1,
     o_max_output_tokens = 100, o_currency = ''CNY'', o_price_micros_per_million_tokens = ''2500000'',
     o_status = ''active'', o_valid_from = ''2'', o_valid_until = ''8'', o_version = 1, o_created_at = ''2'',
     o_updated_at = ''2''\<rparr>"

definition demoJob :: JobRow where
  "demoJob = reservedJob ''job-1'' ''B'' ''S'' ''o'' ''r'' 1 ''key'' ''m'' ''P0'' ''standard'' ''pd'' 2 100 ''0'' ''5'' ''3''"

definition demoSettlement :: InferenceSettlement where
  "demoSettlement = \<lparr>is_jobId = ''job-1'', is_tenantId = ''B'', is_actorId = ''b'', is_supplierTenantId = ''S'',
     is_offerId = ''o'', is_providerId = ''p'', is_requestedModel = ''m'', is_servedModel = ''m'',
     is_providerRequestId = ''q'', is_usage = (10, 20, 30), is_receiptRef = None, is_assurance = ''as'',
     is_evidenceDigest = ''ed'', is_inputDigest = ''pd'', is_outputDigest = ''od'', is_digestVersion = 2,
     is_unitPrice = ''2500000'', is_amounts = \<lparr>buyerChargeMicros = [], supplierCreditMicros = [], platformFeeMicros = []\<rparr>,
     is_ciphertext = ''ct'', is_iv = ''iv'', is_keyVersion = 1, is_outputExpiresAt = ''7'',
     is_providerCompletedAt = ''4'', is_completedAt = ''4'', is_clock = ''4'', is_usageId = ''us'',
     is_evidenceId = ''ev'', is_debitId = ''l1'', is_creditId = ''l2'', is_feeId = ''l3'', is_auditId = ''au6'',
     is_details = ''{}''\<rparr>"

section \<open>The steps\<close>

definition demoSupplier :: SupplierRow where
  "demoSupplier = registeredSupplier ''s'' ''S'' ''u'' ''company'' ''L'' ''D'' ''CN'' ''CN'' ''1''"

definition demoKey :: "string \<Rightarrow> string \<Rightarrow> string \<Rightarrow> string \<Rightarrow> string \<Rightarrow> IdempotencyRow" where
  "demoKey t p k r n = \<lparr>k_tenant_id = t, k_operation = p, k_idempotency_key = k, k_resource_id = r, k_created_at = n\<rparr>"

definition demo1 :: database where
  "demo1 = emptyDatabase\<lparr>suppliers := [demoSupplier], marketplace_events := [demoEvent ''e1'' 1],
     audit_events := [demoAudit ''au1''], idempotency_keys := [demoKey ''S'' ''supplier.register'' ''c1'' ''s'' ''1'']\<rparr>"

lemma demo_register:
  "batch (registerBatch (demoEvent ''e1'' 1) demoSupplier (demoAudit ''au1'') ''c1'') emptyDatabase = Inr (demo1, [1, 1, 1, 1])"
  by (simp add: registerBatch_def insertEvent_def insertSupplier_def insertAudit_def idempotencyInsert_def
      keyConflict_def emptyDatabase_def demo1_def demoKey_def demoSupplier_def registeredSupplier_def)

definition demo2 :: database where
  "demo2 = demo1\<lparr>authorization_requests := [demoRequest], audit_events := [demoAudit ''au1'', demoAudit ''au2''],
     idempotency_keys := idempotency_keys demo1 @ [demoKey ''S'' ''authorization.submit'' ''c2'' ''r'' ''1'']\<rparr>"

lemma demo_submit:
  "batch (submitBatch demoRequest (demoAudit ''au2'') ''c2'') demo1 = Inr (demo2, [1, 1, 1])"
  by (simp add: submitBatch_def insertAuthorization_def insertAudit_def idempotencyInsert_def
      keyConflict_def emptyDatabase_def demo1_def demo2_def demoKey_def demoAudit_def demoRequest_def)

definition demo3 :: database where
  "demo3 = demo2\<lparr>authorization_requests := [reviewedRow ''approved'' ''ok'' ''admin'' ''rc'' ''2'' demoRequest],
     suppliers := [demoSupplier\<lparr>s_status := ''active'', s_version := 2, s_updated_at := ''2''\<rparr>],
     marketplace_events := [demoEvent ''e1'' 1, demoEvent ''e2'' 2],
     audit_events := audit_events demo2 @ [\<lparr>ad_audit_id = ''au3'', ad_tenant_id = ''A'', ad_actor_id = ''admin'',
        ad_action = ''authorization.approved'', ad_resource_type = ''authorization-request'',
        ad_resource_id = ''r'', ad_details_json = ''{}'', ad_occurred_at = ''2''\<rparr>],
     idempotency_keys := idempotency_keys demo2 @ [demoKey ''platform'' ''authorization.review-target'' ''r'' ''op'' ''2'',
       demoKey ''A'' ''authorization.review'' ''rc'' ''r:approve'' ''2'']\<rparr>"

lemma demo_approve:
  "batch (approveBatch demoReview ''lg'' [] 10 ''s'' ''S'' 1 2 [demoEvent ''e2'' 2]) demo2 = Inr (demo3, [1, 1, 1, 1, 1, 1])"
  by (simp add: approveBatch_def Let_def review_defs pendingReview_def reviewClaimed_def hasKey_def reviewRecorded_def
     commandBoundElsewhere_def supplierAt_def insertKeyOrIgnore_def updateAuthorizations_def updateSuppliers_def updateRows_def countRows_def
     insertEvent_def insertAudit_def reviewClaimRow_def authorizationLookupPredicate_def reviewBinding_def
     reviewedRow_def
      keyConflict_def emptyDatabase_def demo1_def demo2_def demo3_def demoKey_def demoAudit_def demoRequest_def demoReview_def demoEvent_def
      demoSupplier_def registeredSupplier_def)

definition demo4 :: database where
  "demo4 = demo3\<lparr>suppliers := [demoSupplier\<lparr>s_status := ''active'', s_version := 2, s_updated_at := ''2'', s_supply_enabled := 1\<rparr>],
     audit_events := audit_events demo3 @ [\<lparr>ad_audit_id = ''au4'', ad_tenant_id = ''S'', ad_actor_id = ''a'',
        ad_action = ''supply.enabled'', ad_resource_type = ''supplier'', ad_resource_id = ''s'',
        ad_details_json = ''{}'', ad_occurred_at = ''2''\<rparr>],
     idempotency_keys := idempotency_keys demo3 @ [demoKey ''S'' ''supply.set'' ''c3'' ''s'' ''2'']\<rparr>"

lemmas demo_defs = demo1_def demo2_def demo3_def demoKey_def demoAudit_def demoRequest_def demoReview_def
  demoEvent_def demoSupplier_def registeredSupplier_def reviewedRow_def emptyDatabase_def
lemmas stmt_defs = hasKey_def supplierAt_def insertKeyOrIgnore_def updateAuthorizations_def updateSuppliers_def
  updateRows_def countRows_def insertEvent_def insertAudit_def keyConflict_def idempotencyInsert_def

lemma demo_supply:
  "batch (setSupplyBatch ''s'' ''S'' ''a'' True ''c3'' ''au4'' ''2'') demo3 = Inr (demo4, [1, 1, 1])"
  by (simp add: setSupplyBatch_def Let_def usableAuthorization_def supplySetTo_def stmt_defs demo4_def demo_defs)

definition demo5 :: database where
  "demo5 = demo4\<lparr>capacity_offers := [demoOffer], marketplace_events := marketplace_events demo4 @ [demoEvent ''e3'' 3],
     audit_events := audit_events demo4 @ [\<lparr>ad_audit_id = ''au5'', ad_tenant_id = ''S'', ad_actor_id = ''a'',
        ad_action = ''offer.published'', ad_resource_type = ''capacity-offer'', ad_resource_id = ''o'',
        ad_details_json = ''{}'', ad_occurred_at = ''2''\<rparr>],
     idempotency_keys := idempotency_keys demo4 @ [demoKey ''S'' ''offer.create'' ''c4'' ''b4'' ''2'']\<rparr>"

lemma demo_publish:
  "batch (createOfferBatch demoOffer 1 2 ''c4'' ''b4'' (demoEvent ''e3'' 3) ''au5'' ''a'' ''{}'') demo4 = Inr (demo5, [1, 1, 1, 1])"
  by (simp add: createOfferBatch_def CREATE_CAPACITY_OFFER_WITH_AUTHORIZATION_CAS_SQL_def
      guardedCapacityOfferEventInsert_def guardedCapacityOfferAuditInsert_def BIND_CAPACITY_OFFER_COMMAND_SQL_def
      offerStored_def stmt_defs demoOffer_def demo5_def demo4_def demo_defs)

definition demoCredit :: LedgerRow where
  "demoCredit = \<lparr>l_entry_id = ''welcome-B'', l_tenant_id = ''B'', l_account_id = ''buyer-B'', l_job_id = None,
     l_entry_type = ''promotional-credit'', l_direction = ''credit'', l_amount_micros = ''100000000'',
     l_currency = ''CNY'', l_created_at = ''3''\<rparr>"

definition demo6 :: database where
  "demo6 = demo5\<lparr>ledger_entries := [demoCredit]\<rparr>"

lemma demo_sign_in: "ensureUserCredit ''B'' ''100000000'' ''3'' demo5 = Inr (demo6, 1)"
  by (simp add: ensureUserCredit_def insertLedgerOrIgnore_def ledgerConflict_def demo6_def demo5_def demo4_def demo_defs
      demoCredit_def)

definition demo7 :: database where
  "demo7 = demo6\<lparr>inference_jobs := [demoJob\<lparr>j_reserved_charge_micros := ''915''\<rparr>]\<rparr>"

lemma demo_tables:
  "ledger_entries demo5 = []" "inference_jobs demo5 = []" "artifact_tasks demo5 = []"
  "service_evidence demo5 = []" "usage_records demo5 = []" "artifact_task_evidence demo5 = []"
  "capacity_offers demo5 = [demoOffer]"
  "suppliers demo5 = [demoSupplier\<lparr>s_status := ''active'', s_version := 2, s_updated_at := ''2'', s_supply_enabled := 1\<rparr>]"
  "authorization_requests demo5 = [reviewedRow ''approved'' ''ok'' ''admin'' ''rc'' ''2'' demoRequest]"
  by (simp_all add: demo5_def demo4_def demo3_def demo2_def demo1_def emptyDatabase_def)

lemma demo_charge: "estimateMaximumChargeMicros (NInt 266) (NInt 100) ''2500000'' = Inr ''915''"
proof -
  have "dbl 366 = 366" by (rule dbl_exact) (simp add: MAX_SAFE_INTEGER_def)
  then show ?thesis
    by (simp add: estimateMaximumChargeMicros_def calculateSettlement_def BigInt_str_def
        divideRoundingUp_def BigInt_toString_def eval_simps)
qed

lemma demo_casts: "castInteger ''100000000'' = 100000000" "castInteger ''915'' = 915" "castInteger ''75'' = 75"
  using castInteger_dec [of 100000000] castInteger_dec [of 915] castInteger_dec [of 75]
  by (simp_all add: eval_simps clampInt64_def INT64_MAX_def INT64_MIN_def)

lemma demo_reserve: "reserveInference 10 ''2500000'' 1 ''r'' 1 demoJob demo6 = Inr (demo7, Some ''915'')"
proof -
  have "j_max_output_tokens demoJob = 100" by (simp add: demoJob_def reservedJob_def)
  then show ?thesis using demo_charge
  by (simp add: reserveInference_def RESERVE_INFERENCE_JOB_SQL_def demo7_def demo6_def demo_tables demoJob_def reservedJob_def
      AVAILABLE_BALANCE_SQL_def gateBalance_def sqlSum_def inInt64_def INT64_MAX_def INT64_MIN_def demoCredit_def signedAmount_def demo_casts
      offerReservable_def activeOnOffer_def countRows_def demoOffer_def demoSupplier_def registeredSupplier_def
      reviewedRow_def demoRequest_def)
qed

definition demo8 :: database where
  "demo8 = demo7\<lparr>inference_jobs := [demoJob\<lparr>j_reserved_charge_micros := ''915'', j_status := ''running''\<rparr>]\<rparr>"

lemma demo_start: "batch [startInferenceJob ''job-1'' ''3''] demo7 = Inr (demo8, [1])"
  by (simp add: startInferenceJob_def updateJobs_def updateRows_def countRows_def demo7_def demo8_def demo6_def demoJob_def
      reservedJob_def gtNull_def)

definition demoAmounts :: SettlementAmounts where
  "demoAmounts = \<lparr>buyerChargeMicros = ''75'', supplierCreditMicros = ''66'', platformFeeMicros = ''9''\<rparr>"

lemma demo_settlement: "calculateSettlement \<lparr>totalTokens = NInt 30, priceMicrosPerMillionTokens = ''2500000'',
   platformFeeBps = NInt 1200\<rparr> = Inr demoAmounts"
  by (simp add: demoAmounts_def calculateSettlement_def BigInt_str_def divideRoundingUp_def BigInt_toString_def eval_simps)

lemma demo_audit: "\<not> list_ex (\<lambda>r. ad_audit_id r = ''au6'') (audit_events demo5)"
  by (simp add: demo5_def demo4_def demo3_def demo2_def demo1_def emptyDatabase_def demoAudit_def)

definition demoFinal :: database where
  "demoFinal = fst (finishInference 10 100 ''915'' ''2500000'' (NInt 1200) ''x'' ''4'' demoSettlement demo8)"

lemma demo_finish:
  "ledger_entries demoFinal = demoCredit # settlementRows ''job-1'' (''l1'', ''l2'', ''l3'') ''B'' ''S'' demoAmounts ''4'' \<and>
   map (\<lambda>j. (j_job_id j, j_status j)) (inference_jobs demoFinal) = [(''job-1'', ''completed'')]"
  by (simp add: demoFinal_def finishInference_def settleInference_def demoSettlement_def demo_settlement
     demoAmounts_def BigInt_str_def settlementStatements_def eval_simps
     COMPLETE_INFERENCE_JOB_SQL_def demo8_def demo7_def demo6_def demo_tables demoJob_def reservedJob_def
      gateBalance_def sqlSum_def inInt64_def INT64_MAX_def INT64_MIN_def demoCredit_def signedAmount_def demo_casts
      jobHeld_def updateJobs_def updateRows_def countRows_def gtNull_def jobCharge_def completedJob_def
      insertInferenceUsage_def jobCompletedAt_def insertUsage_def insertServiceEvidence_def jobSettled_def
      evidenceRow_def evidenceRecorded_def guardedInferenceLedgerInsert_def insertLedgerOrIgnore_def ledgerConflict_def
      settlementTypes_def guardedInferenceAuditInsert_def insertAudit_def demo_audit settlementRows_def entry_def)

section \<open>The run\<close>

definition demoPolicy :: MarketplaceRuntimePolicy where
  "demoPolicy = \<lparr>mp_platformFeeBps = NInt 1200, mp_welcomeCreditMicros = ''100000000'',
     mp_maximumInputCharacters = 40000, mp_maximumGatewayResponseBytes = 2000000,
     mp_inferenceRequestsPerMinute = 5, mp_inferenceReservationTimeoutSeconds = 120,
     mp_retention = \<lparr>standardOutputRetentionHours = NInt 24, standardArtifactRetentionHours = NInt 48,
       strictOutputRetentionMinutes = NInt 60, strictArtifactRetentionMinutes = NInt 60\<rparr>,
     mp_maximumTenantArtifactBytes = 512 * 1024 * 1024, mp_maximumActiveArtifactTasksPerTenant = 3,
     mp_artifactLeaseMinutes = 5, mp_artifactMaximumExecutionMinutes = 360,
     mp_artifactQueueTimeoutMinutes = 30, mp_artifactMaximumAttempts = 3\<rparr>"

lemma demo_policy:
  "getMarketplaceRuntimePolicy (\<lambda>_. NNaN) \<lparr>env_platformFeeBps = None, env_welcomeCreditMicros = None\<rparr> = Inr demoPolicy"
  by (simp add: getMarketplaceRuntimePolicy_def integerSetting_def decimalSetting_def decimalPattern_def demoPolicy_def
      is_digit_def)

lemma reach_handle:
  assumes "reachable p \<lparr>store = db, calls = C\<rparr>" "batch ss db = Inr (db', ns)" "handler_batch p ss"
  shows "reachable p \<lparr>store = db', calls = C\<rparr>"
  using reachable.step [OF assms(1)] market_step.handle [OF assms(3), of "\<lparr>store = db, calls = C\<rparr>" db' ns] assms(2)
  by simp

lemma demo_reachable6: "reachable demoPolicy \<lparr>store = demo6, calls = {}\<rparr>"
proof -
  have "reachable demoPolicy \<lparr>store = demo1, calls = {}\<rparr>"
    by (rule reach_handle [OF reachable.start demo_register]) (rule handler_batch.intros)
  then have "reachable demoPolicy \<lparr>store = demo2, calls = {}\<rparr>"
    by (rule reach_handle [OF _ demo_submit]) (rule handler_batch.intros)
  then have "reachable demoPolicy \<lparr>store = demo3, calls = {}\<rparr>"
    by (rule reach_handle [OF _ demo_approve]) (rule handler_batch.intros)
  then have "reachable demoPolicy \<lparr>store = demo4, calls = {}\<rparr>"
    by (rule reach_handle [OF _ demo_supply]) (rule handler_batch.intros)
  moreover have "0 \<le> o_concurrency demoOffer" by (simp add: demoOffer_def)
  ultimately have "reachable demoPolicy \<lparr>store = demo5, calls = {}\<rparr>"
    using reachable.step market_step.publish [where m = "\<lparr>store = demo4, calls = {}\<rparr>" and db' = demo5] demo_publish
    by fastforce
  then show ?thesis
    using reachable.step demo_sign_in
      market_step.sign_in [of "''B''" demoPolicy "''3''" "\<lparr>store = demo5, calls = {}\<rparr>" demo6]
    by (fastforce simp: demoPolicy_def)
qed

lemma demo_reachable8: "reachable demoPolicy \<lparr>store = demo8, calls = {''job-1''}\<rparr>"
proof -
  have row: "j_job_id demoJob = ''job-1''" "j_status demoJob = ''reserved''" "j_offer_id demoJob = ''o''"
    by (simp_all add: demoJob_def reservedJob_def)
  have "market_step demoPolicy \<lparr>store = demo6, calls = {}\<rparr>
      (\<lparr>store = demo6, calls = {}\<rparr>\<lparr>store := demo7, calls := insert (j_job_id demoJob) {}\<rparr>)"
    using market_step.reserve [where m = "\<lparr>store = demo6, calls = {}\<rparr>" and offer = demoOffer and row = demoJob] demo_reserve row
    by (fastforce simp: demoOffer_def isJobId_def demo6_def demo_tables)
  with demo_reachable6 have "reachable demoPolicy \<lparr>store = demo7, calls = {''job-1''}\<rparr>"
    using reachable.step row by fastforce
  then show ?thesis by (rule reach_handle [OF _ demo_start]) (rule handler_batch.intros)
qed

lemma demo_reachable: "reachable demoPolicy \<lparr>store = demoFinal, calls = {}\<rparr>"
proof -
  let ?m = "\<lparr>store = demo8, calls = {''job-1''}\<rparr>"
  have "freshEntries (''l1'', ''l2'', ''l3'') demo8"
    by (simp add: freshEntries_def demo8_def demo7_def demo6_def demoCredit_def)
  moreover obtain r where "finishInference 10 100 ''915'' ''2500000'' (mp_platformFeeBps demoPolicy) ''x'' ''4''
      demoSettlement demo8 = (demoFinal, r)"
    unfolding demoFinal_def demoPolicy_def by (metis MarketplaceRuntimePolicy.select_convs(1) prod.collapse)
  moreover have "is_jobId demoSettlement = ''job-1''" "is_debitId demoSettlement = ''l1''"
    "is_creditId demoSettlement = ''l2''" "is_feeId demoSettlement = ''l3''" by (simp_all add: demoSettlement_def)
  ultimately have "market_step demoPolicy ?m (?m\<lparr>store := demoFinal, calls := calls ?m - {''job-1''}\<rparr>)"
    using market_step.finish [where m = ?m and x = demoSettlement] by fastforce
  with demo_reachable8 show ?thesis using reachable.step by fastforce
qed

section \<open>Instances\<close>

theorem market_solvent_witness:
  "reachable demoPolicy \<lparr>store = demoFinal, calls = {}\<rparr> \<and> length (ledger_entries demoFinal) = 4 \<and>
   0 \<le> available demoFinal ''B''"
  using market_solvent [OF demo_policy demo_reachable, of "''B''"] demo_reachable demo_finish
  by (simp add: settlementRows_def demoAmounts_def)

lemma demo8_active: "activeOnOffer demo8 ''o'' = 1"
  by (simp add: activeOnOffer_def countRows_def demo8_def demo7_def demo6_def demo_tables demoJob_def reservedJob_def
      jobHeld_def)

theorem market_within_capacity_witness:
  "activeOnOffer demo8 ''o'' = 1 \<and> int (activeOnOffer demo8 ''o'') \<le> o_concurrency demoOffer"
proof -
  have "demoOffer \<in> set (capacity_offers demo8)" by (simp add: demo8_def demo7_def demo6_def demo_tables)
  moreover have "o_offer_id demoOffer = ''o''" by (simp add: demoOffer_def)
  ultimately show ?thesis using market_within_capacity [OF demo_policy demo_reachable8] demo8_active by force
qed

lemma demo_completed: "\<exists>j \<in> set (inference_jobs demoFinal). j_job_id j = ''job-1'' \<and> j_status j = ''completed''"
proof -
  have "(''job-1'', ''completed'') \<in> set (map (\<lambda>j. (j_job_id j, j_status j)) (inference_jobs demoFinal))"
    using demo_finish by simp
  then show ?thesis by auto
qed

theorem market_settles_once_witness:
  "debitsOf ''job-1'' (ledger_entries demoFinal) = 1 \<and> jobBalance demoFinal ''job-1'' = 0 \<and>
   settlementBalance demoFinal = 0"
  using market_settles_once [OF demo_policy demo_reachable] demo_completed by auto

theorem final_states_final_witness:
  "\<exists>m'. (market_step demoPolicy)\<^sup>*\<^sup>* \<lparr>store = demoFinal, calls = {}\<rparr> m' \<and>
     (\<exists>j' \<in> set (inference_jobs (store m')). j_job_id j' = ''job-1'' \<and> j_status j' = ''completed'')"
proof -
  let ?m = "\<lparr>store = demoFinal, calls = {}\<rparr>"
  obtain db' n where "cleanupStaleInferenceReservations ''9'' ''9'' demoFinal = Inr (db', n)"
    by (simp add: cleanupStaleInferenceReservations_def updateJobs_def)
  then have b: "batch [cleanupStaleInferenceReservations ''9'' ''9''] (store ?m) = Inr (db', [n])" by simp
  have "market_step demoPolicy ?m (?m\<lparr>store := db'\<rparr>)"
    by (rule market_step.handle [OF handler_batch.intros(2) b])
  then have run: "(market_step demoPolicy)\<^sup>*\<^sup>* ?m (?m\<lparr>store := db'\<rparr>)" by blast
  with final_states_final [OF run] demo_completed show ?thesis by fastforce
qed

text \<open>The buyer's client disappears while the job runs: the cleanup at time 6 returns the hold.\<close>

theorem stale_reservations_released_witness:
  "available demo8 ''B'' = 99999085 \<and>
   (\<exists>db' n. cleanupStaleInferenceReservations ''6'' ''6'' demo8 = Inr (db', n) \<and> available db' ''B'' = 100000000)"
proof -
  let ?j = "demoJob\<lparr>j_reserved_charge_micros := ''915'', j_status := ''running''\<rparr>"
  have t: "inference_jobs demo8 = [?j]" "ledger_entries demo8 = [demoCredit]" "artifact_tasks demo8 = []"
    by (simp_all add: demo8_def demo7_def demo6_def demo_tables)
  have s: "j_buyer_tenant_id ?j = ''B''" "stale ''6'' ''6'' ?j" "jobHeld ?j" "jobCharge ?j = 915"
    by (simp_all add: stale_def jobHeld_def jobCharge_def demo_casts demoJob_def reservedJob_def leNull_def)
  have a: "available demo8 ''B'' = 99999085"
    unfolding available_def ledgerTotal_def jobHolds_def taskHolds_def t
    using s by (simp add: demoCredit_def signedAmount_def demo_casts)
  then show ?thesis
    using stale_reservations_released [of "''6''" "''6''" demo8] s unfolding t by auto
qed

text \<open>A worker that went silent: its lease ran out at time 4, its deadline is time 5.\<close>

definition demoLeased :: ArtifactTaskRow where
  "demoLeased = (queuedTask ''task-1'' ''B'' ''S'' ''o'' ''r'' 1 ''art'' ''key'' ''m'' ''P0'' ''standard'' ''id'' 2
     ''ct'' ''iv'' 1 100 1000 ''915'' ''3'')\<lparr>t_status := ''running'', t_attempt := 1,
     t_lease_expires_at := Some ''4'', t_execution_deadline_at := Some ''5''\<rparr>"

theorem expired_leases_released_witness:
  "taskLeased demoLeased \<and> leaseExpired ''4'' demoLeased \<and>
   (\<exists>t db' ns. batch (cleanupExpiredTasks ''4'' ''1'' 3) (emptyDatabase\<lparr>artifact_tasks := [demoLeased]\<rparr>) = Inr (db', ns) \<and>
      artifact_tasks db' = [t] \<and> t_task_id t = ''task-1'' \<and> \<not> (taskLeased t \<and> leaseExpired ''4'' t))"
proof -
  have d: "taskLeased demoLeased" "leaseExpired ''4'' demoLeased" "t_task_id demoLeased = ''task-1''"
    by (simp_all add: demoLeased_def queuedTask_def taskLeased_def leaseExpired_def leNull_def)
  from expired_leases_released [of "''4''" "''1''" 3 "emptyDatabase\<lparr>artifact_tasks := [demoLeased]\<rparr>"]
  obtain db' ns where b: "batch (cleanupExpiredTasks ''4'' ''1'' 3) (emptyDatabase\<lparr>artifact_tasks := [demoLeased]\<rparr>) = Inr (db', ns)"
    and q: "\<And>t. t \<in> set (artifact_tasks db') \<Longrightarrow> \<not> (taskLeased t \<and> leaseExpired ''4'' t)"
    and i: "map t_task_id (artifact_tasks db') = [''task-1'']"
    using d(3) by auto
  from i obtain t where "artifact_tasks db' = [t]" "t_task_id t = ''task-1''" by auto
  with b q d show ?thesis by auto
qed

text \<open>A second reviewer, after the first one has claimed and decided the request.\<close>

definition lateReview :: ReviewCommand where
  "lateReview = demoReview\<lparr>rv_tenant := ''A2'', rv_commandId := ''rc2'', rv_token := ''op2'', rv_auditId := ''au9''\<rparr>"

lemma late_reject: "batch (rejectBatch lateReview) demo3 = Inr (demo3, [0, 0, 0, 0])"
  by (simp add: rejectBatch_def Let_def lateReview_def review_defs pendingReview_def reviewClaimed_def
      reviewRecorded_def commandBoundElsewhere_def stmt_defs demo_defs)

theorem review_single_writer_witness:
  "authorization_requests demo3 = [reviewedRow ''approved'' ''ok'' ''admin'' ''rc'' ''2'' demoRequest] \<and>
   (\<exists>db' ns. batch (rejectBatch lateReview) demo3 = Inr (db', ns) \<and>
     authorization_requests db' = authorization_requests demo3 \<and> reviewClaimed db' ''r'' ''op'')"
proof -
  have k: "keysDistinct demo3" "reviewClaimed demo3 (rv_requestId lateReview) ''op''" "rv_token lateReview \<noteq> ''op''"
    by (simp_all add: keysDistinct_def reviewClaimed_def lateReview_def stmt_defs demo_defs)
  from review_single_writer [OF k] late_reject
  have "authorization_requests demo3 = authorization_requests demo3 \<and> reviewClaimed demo3 (rv_requestId lateReview) ''op''"
    by blast
  moreover have "rv_requestId lateReview = ''r''" by (simp add: lateReview_def demoReview_def)
  ultimately show ?thesis using late_reject by (auto simp: demo3_def)
qed

text \<open>A reviewer who read the supplier at version 5, while the stored version is 1.\<close>

definition demoRaced :: database where
  "demoRaced = demo2\<lparr>idempotency_keys := idempotency_keys demo2 @
     [demoKey ''platform'' ''authorization.review-target'' ''r'' ''op'' ''2'',
      demoKey ''A'' ''authorization.review'' ''rc'' ''r:approve'' ''2'']\<rparr>"

lemma raced_approve:
  "batch (approveBatch demoReview ''lg'' [] 10 ''s'' ''S'' 5 6 [demoEvent ''e2'' 6]) demo2 = Inr (demoRaced, [1, 1, 0, 0, 0, 0])"
  by (simp add: approveBatch_def Let_def review_defs pendingReview_def reviewClaimed_def reviewRecorded_def
      commandBoundElsewhere_def authorizationLookupPredicate_def reviewBinding_def reviewClaimRow_def
      demoRaced_def stmt_defs demo_defs)

lemma raced_reject: "batch (rejectBatch lateReview) demoRaced = Inr (demoRaced, [0, 0, 0, 0])"
  by (simp add: rejectBatch_def Let_def lateReview_def review_defs pendingReview_def reviewClaimed_def
      reviewRecorded_def commandBoundElsewhere_def reviewClaimRow_def demoRaced_def stmt_defs demo_defs)

theorem approval_race_strands_request_witness:
  "batch (approveBatch demoReview ''lg'' [] 10 ''s'' ''S'' 5 6 [demoEvent ''e2'' 6]) demo2 = Inr (demoRaced, [1, 1, 0, 0, 0, 0]) \<and>
   authorization_requests demoRaced = [demoRequest] \<and> reviewClaimed demoRaced ''r'' ''op'' \<and>
   (\<exists>db''. batch (rejectBatch lateReview) demoRaced = Inr (db'', [0, 0, 0, 0]) \<and> authorization_requests db'' = [demoRequest])"
proof -
  have a: "keysDistinct demo2" "\<not> supplierAt demo2 ''s'' ''S'' 5"
    "\<exists>ar \<in> set (authorization_requests demo2). pendingReview (rv_requestId demoReview) ar \<and> ar_tenant_id ar \<noteq> rv_tenant demoReview"
    by (simp_all add: keysDistinct_def pendingReview_def stmt_defs demo_defs)
  have b: "int (countRows (\<lambda>e. ar_status e = ''approved'' \<and> rv_now demoReview < ar_valid_until e \<and>
      authorizationLookupPredicate ''lg'' [] e) (authorization_requests demo2)) < 10"
    "\<not> commandBoundElsewhere demo2 (rv_tenant demoReview) ''authorization.review'' (rv_commandId demoReview)
      (reviewBinding demoReview ''approve'')"
    "\<forall>tok. \<not> reviewClaimed demo2 (rv_requestId demoReview) tok"
    by (simp_all add: commandBoundElsewhere_def reviewClaimed_def stmt_defs demo_defs)
  have "authorization_requests demo2 = [demoRequest]" by (simp add: demo2_def)
  moreover have "rv_requestId demoReview = ''r''" "rv_token demoReview = ''op''" by (simp_all add: demoReview_def)
  moreover have "other_reviews ''r'' ''op'' demoRaced demoRaced"
    by (rule other_reviews.reject [OF other_reviews.none _ _ raced_reject]) (simp_all add: lateReview_def demoReview_def)
  moreover note raced_reject
  ultimately show ?thesis using approval_race_strands_request [OF a b raced_approve] raced_approve by simp
qed

end
