(* ===== verification/Json.thy ===== *)
theory Json
  imports Evidence "HOL-Library.Log_Nat" "HOL-Library.Sublist"
begin

text \<open>
  \<open>JSON.parse\<close> and \<open>JSON.stringify\<close>, as far as the supplier node uses them: request bodies, replies
  and the lines of the replay journal are JSON texts. The parser follows the ECMAScript grammar
  (white space, escapes, fractions, exponents, repeated keys); strings are sequences of code units
  below 256, as everywhere in the development, so an escape of a larger code unit is outside the
  model and is not accepted. The recursion is bounded by fuel; one more unit than the text has
  characters is always enough (\<open>jvalue_adequate\<close>).
\<close>

datatype json =
    JsNull
  | JsBool bool
  | JsNum jsnum
  | JsStr string
  | JsArr "json list"
  | JsObj "(string \<times> json) list"

section \<open>Numbers\<close>

text \<open>
  The double nearest to \<open>p / q\<close>: a significand of 53 bits (fewer for subnormal numbers), ties to
  even, infinity from \<open>2 ^ 1024\<close> on.
\<close>

definition scaledRatio :: "nat \<Rightarrow> nat \<Rightarrow> int \<Rightarrow> nat \<times> nat" where
  "scaledRatio p q k = (if 0 \<le> k then (p, q * 2 ^ nat k) else (p * 2 ^ nat (- k), q))"

definition ratioExponent :: "nat \<Rightarrow> nat \<Rightarrow> int" where
  "ratioExponent p q =
     (let k = int (floorlog 2 p) - int (floorlog 2 q) - 53; (a, b) = scaledRatio p q k in
      max (- 1074) (if 2 ^ 53 \<le> a div b then k + 1 else k))"

definition roundRatio :: "nat \<Rightarrow> nat \<Rightarrow> nat \<times> int" where
  "roundRatio p q =
     (let k = ratioExponent p q; (a, b) = scaledRatio p q k; m = a div b; r = a mod b in
      (if 2 * r < b \<or> (2 * r = b \<and> even m) then m else m + 1, k))"

definition signedNum :: "bool \<Rightarrow> nat \<Rightarrow> int \<Rightarrow> jsnum" where
  "signedNum neg m k =
     (if 0 \<le> k then
        (let v = int m * 2 ^ nat k in
         if 2 ^ 1024 \<le> v then (if neg then NNegInf else NPosInf) else NInt (if neg then - v else v))
      else if 2 ^ nat (- k) dvd m then
        (let v = int (m div 2 ^ nat (- k)) in NInt (if neg then - v else v))
      else (let v = int (m div 2 ^ nat (- k)) in NFrac (if neg then - v - 1 else v)))"

definition literalNum :: "bool \<Rightarrow> string \<Rightarrow> string \<Rightarrow> int \<Rightarrow> jsnum" where
  "literalNum neg ip fp ex =
     (if fp = [] \<and> ex = 0 then
        (let v = dbl (int (nat_of_dec ip)) in
         if 2 ^ 1024 \<le> v then (if neg then NNegInf else NPosInf) else NInt (if neg then - v else v))
      else
        (let m = nat_of_dec (ip @ fp); e = ex - int (length fp);
             (p, q) = (if 0 \<le> e then (m * 10 ^ nat e, 1) else (m, 10 ^ nat (- e))) in
         if m = 0 then NInt 0 else (case roundRatio p q of (a, k) \<Rightarrow> signedNum neg a k)))"

definition digitsOf :: "string \<Rightarrow> string \<times> string" where
  "digitsOf s = (takeWhile is_digit s, dropWhile is_digit s)"

definition jint :: "string \<Rightarrow> (string \<times> string) option" where
  "jint s = (case digitsOf s of (ds, r) \<Rightarrow>
     if ds = [] \<or> (hd ds = CHR ''0'' \<and> 1 < length ds) then None else Some (ds, r))"

definition jfrac :: "string \<Rightarrow> (string \<times> string) option" where
  "jfrac s = (case s of
     c # cs \<Rightarrow> if c = CHR ''.'' then (case digitsOf cs of (ds, r) \<Rightarrow> if ds = [] then None else Some (ds, r))
       else Some ([], s)
   | [] \<Rightarrow> Some ([], s))"

definition jexp :: "string \<Rightarrow> (int \<times> string) option" where
  "jexp s = (case s of
     c # cs \<Rightarrow> if c = CHR ''e'' \<or> c = CHR ''E'' then
         (let neg = startsWith cs ''-''; t = (if startsWith cs ''-'' \<or> startsWith cs ''+'' then drop 1 cs else cs) in
          case digitsOf t of (ds, r) \<Rightarrow> if ds = [] then None
            else Some (if neg then - int (nat_of_dec ds) else int (nat_of_dec ds), r))
       else Some (0, s)
   | [] \<Rightarrow> Some (0, s))"

definition jnum :: "string \<Rightarrow> (jsnum \<times> string) option" where
  "jnum s = (let neg = startsWith s ''-''; s0 = (if neg then drop 1 s else s) in
     case jint s0 of None \<Rightarrow> None | Some (ip, s1) \<Rightarrow>
     (case jfrac s1 of None \<Rightarrow> None | Some (fp, s2) \<Rightarrow>
     (case jexp s2 of None \<Rightarrow> None | Some (ex, s3) \<Rightarrow> Some (literalNum neg ip fp ex, s3))))"

section \<open>Strings\<close>

definition QUOTE :: char where
  "QUOTE = CHR 0x22"

definition BACKSLASH :: char where
  "BACKSLASH = CHR 0x5C"

definition hexVal :: "char \<Rightarrow> nat option" where
  "hexVal c = (let n = of_char c :: nat in
     if 48 \<le> n \<and> n \<le> 57 then Some (n - 48) else if 97 \<le> n \<and> n \<le> 102 then Some (n - 87)
     else if 65 \<le> n \<and> n \<le> 70 then Some (n - 55) else None)"

definition hexUnit :: "char \<Rightarrow> char \<Rightarrow> char \<Rightarrow> char \<Rightarrow> nat option" where
  "hexUnit a b c d = (case (hexVal a, hexVal b, hexVal c, hexVal d) of
     (Some i, Some j, Some k, Some l) \<Rightarrow> Some (((i * 16 + j) * 16 + k) * 16 + l) | _ \<Rightarrow> None)"

definition escapes :: "(char \<times> char) list" where
  "escapes = [(QUOTE, QUOTE), (BACKSLASH, BACKSLASH), (CHR ''/'', CHR ''/''), (CHR ''b'', CHR 0x08),
     (CHR ''f'', CHR 0x0C), (CHR ''n'', CHR 0x0A), (CHR ''r'', CHR 0x0D), (CHR ''t'', CHR 0x09)]"

text \<open>The characters of a string literal after its opening quote, and the text after its closing one.\<close>

fun jstr :: "string \<Rightarrow> (string \<times> string) option" where
  "jstr [] = None"
| "jstr (c # cs) =
    (if c = QUOTE then Some ([], cs)
     else if c = BACKSLASH then
       (case cs of [] \<Rightarrow> None
        | e # r \<Rightarrow>
          if e = CHR ''u'' then
            (case r of h1 # h2 # h3 # h4 # r' \<Rightarrow>
               (case hexUnit h1 h2 h3 h4 of
                  Some n \<Rightarrow> if n < 256 then map_option (\<lambda>(t, r''). (char_of n # t, r'')) (jstr r') else None
                | None \<Rightarrow> None)
             | _ \<Rightarrow> None)
          else (case map_of escapes e of
              Some x \<Rightarrow> map_option (\<lambda>(t, r'). (x # t, r')) (jstr r) | None \<Rightarrow> None))
     else if (of_char c :: nat) < 32 then None
     else map_option (\<lambda>(t, r). (c # t, r)) (jstr cs))"

section \<open>Values\<close>

definition is_json_space :: "char \<Rightarrow> bool" where
  "is_json_space c \<longleftrightarrow> (of_char c :: nat) \<in> {9, 10, 13, 32}"

definition skipWs :: "string \<Rightarrow> string" where
  "skipWs s = dropWhile is_json_space s"

text \<open>Definition of a property of an object literal: a repeated key keeps its place and takes the new value.\<close>

definition setProperty :: "(string \<times> json) list \<Rightarrow> string \<times> json \<Rightarrow> (string \<times> json) list" where
  "setProperty fs kv = (if list_ex (\<lambda>f. fst f = fst kv) fs
     then map (\<lambda>f. if fst f = fst kv then kv else f) fs else fs @ [kv])"

definition objectOf :: "(string \<times> json) list \<Rightarrow> json" where
  "objectOf kvs = JsObj (foldl setProperty [] kvs)"

fun jvalue :: "nat \<Rightarrow> string \<Rightarrow> (json \<times> string) option"
and jmembers :: "nat \<Rightarrow> string \<Rightarrow> ((string \<times> json) list \<times> string) option"
and jelements :: "nat \<Rightarrow> string \<Rightarrow> (json list \<times> string) option" where
  "jvalue 0 s = None"
| "jvalue (Suc n) s =
    (case skipWs s of [] \<Rightarrow> None
     | c # cs \<Rightarrow>
       if c = CHR ''{'' then
         (if startsWith (skipWs cs) ''}'' then Some (JsObj [], drop 1 (skipWs cs))
          else map_option (\<lambda>(kvs, r). (objectOf kvs, r)) (jmembers n cs))
       else if c = CHR ''['' then
         (if startsWith (skipWs cs) '']'' then Some (JsArr [], drop 1 (skipWs cs))
          else map_option (\<lambda>(vs, r). (JsArr vs, r)) (jelements n cs))
       else if c = QUOTE then map_option (\<lambda>(t, r). (JsStr t, r)) (jstr cs)
       else if startsWith (c # cs) ''true'' then Some (JsBool True, drop 3 cs)
       else if startsWith (c # cs) ''false'' then Some (JsBool False, drop 4 cs)
       else if startsWith (c # cs) ''null'' then Some (JsNull, drop 3 cs)
       else map_option (\<lambda>(x, r). (JsNum x, r)) (jnum (c # cs)))"
| "jmembers 0 s = None"
| "jmembers (Suc n) s =
    (case skipWs s of [] \<Rightarrow> None
     | c # cs \<Rightarrow> if c \<noteq> QUOTE then None else
       (case jstr cs of None \<Rightarrow> None | Some (k, r) \<Rightarrow>
       (case skipWs r of [] \<Rightarrow> None
        | d # r1 \<Rightarrow> if d \<noteq> CHR '':'' then None else
          (case jvalue n r1 of None \<Rightarrow> None | Some (v, r2) \<Rightarrow>
          (case skipWs r2 of [] \<Rightarrow> None
           | e # r3 \<Rightarrow>
             if e = CHR ''}'' then Some ([(k, v)], r3)
             else if e = CHR '','' then map_option (\<lambda>(kvs, r4). ((k, v) # kvs, r4)) (jmembers n r3)
             else None)))))"
| "jelements 0 s = None"
| "jelements (Suc n) s =
    (case jvalue n s of None \<Rightarrow> None | Some (v, r) \<Rightarrow>
     (case skipWs r of [] \<Rightarrow> None
      | e # r1 \<Rightarrow>
        if e = CHR '']'' then Some ([v], r1)
        else if e = CHR '','' then map_option (\<lambda>(vs, r2). (v # vs, r2)) (jelements n r1)
        else None))"

definition jsonParse :: "string \<Rightarrow> json option" where
  "jsonParse s = (case jvalue (2 * length s + 2) s of
     Some (v, r) \<Rightarrow> if skipWs r = [] then Some v else None | None \<Rightarrow> None)"

section \<open>Stringify\<close>

definition hexDigit :: "nat \<Rightarrow> char" where
  "hexDigit d = char_of (if d < 10 then 48 + d else 87 + d)"

definition escapeChar :: "char \<Rightarrow> string" where
  "escapeChar c = (let n = of_char c :: nat in
     if c = QUOTE then [BACKSLASH, QUOTE] else if c = BACKSLASH then [BACKSLASH, BACKSLASH]
     else if n = 8 then [BACKSLASH, CHR ''b''] else if n = 9 then [BACKSLASH, CHR ''t'']
     else if n = 10 then [BACKSLASH, CHR ''n''] else if n = 12 then [BACKSLASH, CHR ''f'']
     else if n = 13 then [BACKSLASH, CHR ''r'']
     else if n < 32 then [BACKSLASH, CHR ''u'', CHR ''0'', CHR ''0'', hexDigit (n div 16), hexDigit (n mod 16)]
     else [c])"

definition jsonQuote :: "string \<Rightarrow> string" where
  "jsonQuote s = [QUOTE] @ concat (map escapeChar s) @ [QUOTE]"

text \<open>Objects and arrays from the texts of their components.\<close>

definition jsonObject :: "(string \<times> string) list \<Rightarrow> string" where
  "jsonObject fs = ''{'' @ joinStr '','' (map (\<lambda>(k, t). jsonQuote k @ '':'' @ t) fs) @ ''}''"

definition jsonArray :: "string list \<Rightarrow> string" where
  "jsonArray ts = ''['' @ joinStr '','' ts @ '']''"

section \<open>What the parser consumes\<close>

lemma strict_suffix_trans1: "suffix r s \<Longrightarrow> strict_suffix s t \<Longrightarrow> strict_suffix r t"
  by (rule suffix_order.le_less_trans)

lemma strict_suffix_trans2: "strict_suffix r s \<Longrightarrow> suffix s t \<Longrightarrow> strict_suffix r t"
  by (rule suffix_order.less_le_trans)

lemmas suffix_rules = suffix_order.trans strict_suffix_trans1 strict_suffix_trans2 suffix_order.less_trans

lemma strict_suffix_Cons [simp]: "strict_suffix r (c # cs) \<longleftrightarrow> suffix r cs"
  by (auto simp: strict_suffix_def suffix_Cons) (metis suffix_length_le length_Cons not_less_eq_eq order_refl)

lemma strict_suffix_length: "strict_suffix r s \<Longrightarrow> length r < length s"
  by (rule suffix_length_less)

lemma skipWs_suffix: "suffix (skipWs s) s"
  by (simp add: skipWs_def suffix_dropWhile)

lemma skipWs_Cons_suffix: "skipWs s = c # cs \<Longrightarrow> strict_suffix cs s"
  using skipWs_suffix [of s] by (metis strict_suffix_Cons strict_suffix_trans2 suffix_order.order_refl)

lemma digitsOf_suffix: "digitsOf s = (ds, r) \<Longrightarrow> suffix r s"
  by (auto simp: digitsOf_def suffix_dropWhile)

lemma jint_suffix: "jint s = Some (ds, r) \<Longrightarrow> strict_suffix r s"
proof -
  assume "jint s = Some (ds, r)"
  then have "s = ds @ r" "ds \<noteq> []" by (auto simp: jint_def digitsOf_def split: if_splits)
  then show ?thesis by (auto simp: strict_suffix_def suffix_def)
qed

lemma jfrac_suffix: "jfrac s = Some (ds, r) \<Longrightarrow> suffix r s"
  by (cases s) (auto simp: jfrac_def suffix_Cons dest!: digitsOf_suffix split: prod.splits if_splits)

lemma jexp_suffix: "jexp s = Some (e, r) \<Longrightarrow> suffix r s"
proof (cases s)
  case (Cons c cs)
  assume a: "jexp s = Some (e, r)"
  let ?t = "if startsWith cs ''-'' \<or> startsWith cs ''+'' then drop 1 cs else cs"
  have t: "suffix ?t cs" by (simp add: suffix_drop)
  from a Cons consider "r = s" | ds where "digitsOf ?t = (ds, r)"
    by (auto simp: jexp_def Let_def split: prod.splits if_splits)
  then show ?thesis
  proof cases
    case 2
    then have "suffix r ?t" by (rule digitsOf_suffix)
    with t have "suffix r cs" by (rule suffix_order.trans [rotated])
    then show ?thesis by (simp add: Cons suffix_Cons)
  qed simp
qed (simp add: jexp_def)

lemma jnum_suffix: "jnum s = Some (x, r) \<Longrightarrow> strict_suffix r s"
proof -
  assume a: "jnum s = Some (x, r)"
  let ?s0 = "if startsWith s ''-'' then drop 1 s else s"
  from a obtain ip s1 fp s2 ex where n: "jint ?s0 = Some (ip, s1)" "jfrac s1 = Some (fp, s2)" "jexp s2 = Some (ex, r)"
    by (auto simp: jnum_def Let_def split: option.splits)
  from n(2,3) have "suffix r s1" by (meson jexp_suffix jfrac_suffix suffix_order.trans)
  with jint_suffix [OF n(1)] have "strict_suffix r ?s0" by (rule strict_suffix_trans1 [rotated])
  moreover have "suffix ?s0 s" by (simp add: suffix_drop)
  ultimately show ?thesis by (rule strict_suffix_trans2)
qed

lemma jstr_suffix: "jstr s = Some (t, r) \<Longrightarrow> strict_suffix r s"
proof (induction s arbitrary: t rule: jstr.induct)
  case (2 c cs)
  consider "c = QUOTE" | "c = BACKSLASH" "c \<noteq> QUOTE" | "c \<noteq> QUOTE" "c \<noteq> BACKSLASH" by blast
  then show ?case
  proof cases
    case 1
    with "2.prems" show ?thesis by auto
  next
    case 2
    with "2.prems" obtain e w where cs: "cs = e # w" by (cases cs) auto
    show ?thesis
    proof (cases "e = CHR ''u''")
      case True
      with "2.prems" 2 cs obtain h1 h2 h3 h4 w' n t' where
        w: "w = h1 # h2 # h3 # h4 # w'" "hexUnit h1 h2 h3 h4 = Some n" "n < 256" "jstr w' = Some (t', r)"
        by (auto split: list.splits option.splits if_splits)
      from "2.IH"(1) [OF 2(2,1) cs True w(1) refl refl refl w(2,3,4)] have "suffix r w'"
        by (rule suffix_order.less_imp_le)
      with cs w(1) show ?thesis by (simp add: suffix_Cons)
    next
      case False
      with "2.prems" 2 cs obtain z t' where w: "map_of escapes e = Some z" "jstr w = Some (t', r)"
        by (auto split: option.splits)
      from "2.IH"(2) [OF 2(2,1) cs False w] have "suffix r w" by (rule suffix_order.less_imp_le)
      with cs show ?thesis by (simp add: suffix_Cons)
    qed
  next
    case 3
    with "2.prems" obtain t' where w: "\<not> (of_char c :: nat) < 32" "jstr cs = Some (t', r)"
      by (auto split: if_splits)
    from "2.IH"(3) [OF 3 w] have "suffix r cs" by (rule suffix_order.less_imp_le)
    then show ?thesis by simp
  qed
qed simp

lemma parser_suffix:
  "jvalue n s = Some (v, r) \<Longrightarrow> strict_suffix r s"
  "jmembers n s = Some (kvs, r) \<Longrightarrow> strict_suffix r s"
  "jelements n s = Some (vs, r) \<Longrightarrow> strict_suffix r s"
proof (induction n arbitrary: s v kvs vs r)
  case 0
  { case 1 then show ?case by simp }
  { case 2 then show ?case by simp }
  { case 3 then show ?case by simp }
next
  case (Suc n)
  { case 1
    note a = 1
    then obtain c cs where c: "skipWs s = c # cs" by (cases "skipWs s") auto
    have one: "suffix (drop k u) u" for k and u :: string by (rule suffix_drop)
    have "suffix r cs"
    proof -
      consider "c = CHR ''{''" "startsWith (skipWs cs) ''}''" | "c = CHR ''{''" "\<not> startsWith (skipWs cs) ''}''"
        | "c = CHR ''[''" "startsWith (skipWs cs) '']''" | "c = CHR ''[''" "\<not> startsWith (skipWs cs) '']''"
        | "c \<noteq> CHR ''{''" "c \<noteq> CHR ''[''" by blast
      then show ?thesis
      proof cases
        case 1
        with a c show ?thesis by (auto intro: suffix_order.trans [OF one skipWs_suffix])
      next
        case 2
        with a c show ?thesis by (auto dest!: Suc.IH(2) intro: suffix_order.less_imp_le)
      next
        case 3
        with a c show ?thesis by (auto intro: suffix_order.trans [OF one skipWs_suffix])
      next
        case 4
        with a c show ?thesis by (auto dest!: Suc.IH(3) intro: suffix_order.less_imp_le)
      next
        case 5
        then show ?thesis
          using a c jstr_suffix [of cs] jnum_suffix [of "c # cs"]
          by (auto intro: suffix_order.less_imp_le suffix_drop split: if_splits)
      qed
    qed
    with skipWs_Cons_suffix [OF c] show ?case by (metis strict_suffix_trans1)
  }
  { case 2
    then obtain cs k w d w1 v w2 e w3 where
      p: "skipWs s = QUOTE # cs" "jstr cs = Some (k, w)" "skipWs w = d # w1" "jvalue n w1 = Some (v, w2)"
        "skipWs w2 = e # w3" "r = w3 \<or> (\<exists>kvs'. jmembers n w3 = Some (kvs', r))"
      by (auto split: list.splits option.splits if_splits)
    from p(6) have "suffix r w3" by (auto dest: Suc.IH(2) intro: suffix_order.less_imp_le)
    with skipWs_Cons_suffix [OF p(5)] have "strict_suffix r w2" by (metis strict_suffix_trans1)
    with Suc.IH(1) [OF p(4)] have "strict_suffix r w1" by (metis suffix_order.less_trans)
    with skipWs_Cons_suffix [OF p(3)] have "strict_suffix r w" by (metis suffix_order.less_trans)
    with jstr_suffix [OF p(2)] have "strict_suffix r cs" by (metis suffix_order.less_trans)
    with skipWs_Cons_suffix [OF p(1)] show ?case by (metis suffix_order.less_trans)
  }
  { case 3
    then obtain v w e w1 where
      p: "jvalue n s = Some (v, w)" "skipWs w = e # w1" "r = w1 \<or> (\<exists>vs'. jelements n w1 = Some (vs', r))"
      by (auto split: list.splits option.splits if_splits)
    from p(3) have "suffix r w1" by (auto dest: Suc.IH(3) intro: suffix_order.less_imp_le)
    with skipWs_Cons_suffix [OF p(2)] have "strict_suffix r w" by (metis strict_suffix_trans1)
    with Suc.IH(1) [OF p(1)] show ?case by (metis suffix_order.less_trans)
  }
qed

lemma parser_shorter:
  "jvalue n s = Some (v, r) \<Longrightarrow> length r < length s"
  "jmembers n s = Some (kvs, r) \<Longrightarrow> length r < length s"
  by (simp_all add: parser_suffix strict_suffix_length)

text \<open>Fuel beyond twice the length of the text does not change the result.\<close>

lemma parser_adequate:
  "2 * length s < n \<Longrightarrow> 2 * length s < m \<Longrightarrow> jvalue n s = jvalue m s"
  "2 * length s < n \<Longrightarrow> 2 * length s < m \<Longrightarrow> jmembers n s = jmembers m s"
  "2 * length s + 1 < n \<Longrightarrow> 2 * length s + 1 < m \<Longrightarrow> jelements n s = jelements m s"
proof (induction n arbitrary: s m)
  case 0
  { case 1 then show ?case by simp }
  { case 2 then show ?case by simp }
  { case 3 then show ?case by simp }
next
  case (Suc n)
  { case 1
    then obtain m' where m: "m = Suc m'" by (cases m) auto
    show ?case
    proof (cases "skipWs s")
      case (Cons c cs)
      then have "length cs < length s" by (rule strict_suffix_length [OF skipWs_Cons_suffix])
      then have "jmembers n cs = jmembers m' cs" "jelements n cs = jelements m' cs"
        using 1 m Suc.IH(2) [of cs m'] Suc.IH(3) [of cs m'] by simp_all
      then show ?thesis by (simp add: m Cons)
    qed (simp add: m)
  }
  { case 2
    then obtain m' where m: "m = Suc m'" by (cases m) auto
    have v: "jvalue n w = jvalue m' w" "jmembers n w = jmembers m' w" if "length w < length s" for w
      using 2 m that Suc.IH(1) [of w m'] Suc.IH(2) [of w m'] by simp_all
    have "length w1 < length s" if "skipWs s = c # cs" "jstr cs = Some (k, w)" "skipWs w = d # w1" for c cs k w d w1
      using strict_suffix_length [OF skipWs_Cons_suffix] strict_suffix_length [OF jstr_suffix] that
      by (metis less_trans)
    moreover have "length w3 < length w1" if "jvalue m' w1 = Some (x, w2)" "skipWs w2 = e # w3" for w1 x w2 e w3
      using strict_suffix_length [OF skipWs_Cons_suffix] parser_shorter(1) that by (metis less_trans)
    ultimately show ?case
      using v unfolding m jmembers.simps
      by (auto split: list.splits option.splits intro!: arg_cong [where f = "map_option _"]) (metis less_trans)+
  }
  { case 3
    then obtain m' where m: "m = Suc m'" by (cases m) auto
    have v: "jvalue n s = jvalue m' s" using 3 m Suc.IH(1) [of s m'] by simp
    have "jelements n w1 = jelements m' w1" if "jvalue m' s = Some (x, w)" "skipWs w = e # w1" for x w e w1
    proof -
      have "length w1 < length s"
        using strict_suffix_length [OF skipWs_Cons_suffix] parser_shorter(1) that by (metis less_trans)
      with 3 m Suc.IH(3) [of w1 m'] show ?thesis by simp
    qed
    then show ?case by (auto simp: m v split: list.splits option.splits)
  }
qed

section \<open>Round trip\<close>

lemma hexVal_digit: "d < 16 \<Longrightarrow> hexVal (hexDigit d) = Some d"
  by (auto simp: hexVal_def hexDigit_def Let_def)

lemma hexUnit_byte: "n < 256 \<Longrightarrow> hexUnit (CHR ''0'') (CHR ''0'') (hexDigit (n div 16)) (hexDigit (n mod 16)) = Some n"
proof -
  assume "n < 256"
  then have "n div 16 < 16" "n mod 16 < 16" by simp_all
  moreover have "hexVal (CHR ''0'') = Some 0" by (simp add: hexVal_def)
  ultimately show ?thesis by (simp add: hexUnit_def hexVal_digit)
qed

lemma quote_chars [simp]: "QUOTE \<noteq> BACKSLASH" "BACKSLASH \<noteq> QUOTE" "CHR ''u'' \<noteq> QUOTE" "QUOTE \<noteq> CHR ''u''"
  "BACKSLASH \<noteq> CHR ''u''"
  by (simp_all add: QUOTE_def BACKSLASH_def)

lemma jstr_short:
  "map_of escapes e = Some c \<Longrightarrow> e \<noteq> CHR ''u'' \<Longrightarrow>
   jstr (BACKSLASH # e # s) = map_option (\<lambda>(t, r). (c # t, r)) (jstr s)"
  by simp

lemma jstr_unit:
  "(of_char c :: nat) = n \<Longrightarrow> jstr (BACKSLASH # CHR ''u'' # CHR ''0'' # CHR ''0'' # hexDigit (n div 16) # hexDigit (n mod 16) # s) =
     map_option (\<lambda>(t, r). (c # t, r)) (jstr s)"
proof -
  assume n: "(of_char c :: nat) = n"
  have "(of_char c :: nat) < 256" by (rule nat_of_char_less_256)
  with n show ?thesis by (auto simp: hexUnit_byte)
qed

lemma escapes_map:
  "map_of escapes QUOTE = Some QUOTE" "map_of escapes BACKSLASH = Some BACKSLASH"
  "map_of escapes (CHR ''b'') = Some (CHR 0x08)" "map_of escapes (CHR ''t'') = Some (CHR 0x09)"
  "map_of escapes (CHR ''n'') = Some (CHR 0x0A)" "map_of escapes (CHR ''f'') = Some (CHR 0x0C)"
  "map_of escapes (CHR ''r'') = Some (CHR 0x0D)"
  by (simp_all add: escapes_def QUOTE_def BACKSLASH_def)

lemma escape_control:
  "escapeChar QUOTE = [BACKSLASH, QUOTE]" "escapeChar BACKSLASH = [BACKSLASH, BACKSLASH]"
  "escapeChar (CHR 0x08) = [BACKSLASH, CHR ''b'']" "escapeChar (CHR 0x09) = [BACKSLASH, CHR ''t'']"
  "escapeChar (CHR 0x0A) = [BACKSLASH, CHR ''n'']" "escapeChar (CHR 0x0C) = [BACKSLASH, CHR ''f'']"
  "escapeChar (CHR 0x0D) = [BACKSLASH, CHR ''r'']"
  by (simp_all add: escapeChar_def QUOTE_def BACKSLASH_def)

lemma jstr_escape: "jstr (escapeChar c @ s) = map_option (\<lambda>(t, r). (c # t, r)) (jstr s)"
proof -
  let ?n = "of_char c :: nat"
  have d: "c = d" if "?n = of_char d" for d using that by simp
  consider "c = QUOTE \<or> c = BACKSLASH \<or> ?n \<in> {8, 9, 10, 12, 13}"
    | "?n < 32" "?n \<notin> {8, 9, 10, 12, 13}" "c \<noteq> QUOTE" "c \<noteq> BACKSLASH"
    | "\<not> ?n < 32" "c \<noteq> QUOTE" "c \<noteq> BACKSLASH" by blast
  then show ?thesis
  proof cases
    case 1
    with d [of "CHR 0x08"] d [of "CHR 0x09"] d [of "CHR 0x0A"] d [of "CHR 0x0C"] d [of "CHR 0x0D"]
    have "c \<in> {QUOTE, BACKSLASH, CHR 0x08, CHR 0x09, CHR 0x0A, CHR 0x0C, CHR 0x0D}" by auto
    then show ?thesis by (auto simp: escape_control escapes_map jstr_short simp del: jstr.simps)
  next
    case 2
    then have "escapeChar c = [BACKSLASH, CHR ''u'', CHR ''0'', CHR ''0'', hexDigit (?n div 16), hexDigit (?n mod 16)]"
      by (simp add: escapeChar_def Let_def)
    then show ?thesis using jstr_unit [OF refl, of c s] by (simp del: jstr.simps)
  next
    case 3
    then have "escapeChar c = [c]" by (auto simp: escapeChar_def Let_def)
    with 3 show ?thesis by simp
  qed
qed

lemma jstr_quote: "jstr (concat (map escapeChar t) @ QUOTE # r) = Some (t, r)"
  by (induction t) (simp_all add: jstr_escape)

definition ends :: "string \<Rightarrow> bool" where
  "ends r \<longleftrightarrow> r = [] \<or> \<not> is_digit (hd r) \<and> hd r \<notin> {CHR ''.'', CHR ''e'', CHR ''E''}"

text \<open>A text that parses to a value wherever it stands, up to the next delimiter.\<close>

definition encodes :: "string \<Rightarrow> json \<Rightarrow> bool" where
  "encodes t v \<longleftrightarrow> t \<noteq> [] \<and> \<not> is_json_space (hd t) \<and> hd t \<noteq> CHR '']'' \<and>
     (\<forall>n r. ends r \<longrightarrow> 2 * length t < n \<longrightarrow> jvalue n (t @ r) = Some (v, r))"

lemma skipWs_stop [simp]: "\<not> is_json_space c \<Longrightarrow> skipWs (c # cs) = c # cs"
  by (simp add: skipWs_def)

lemma not_space [simp]:
  "\<not> is_json_space QUOTE" "\<not> is_json_space (CHR '':'')" "\<not> is_json_space (CHR '','')" "\<not> is_json_space (CHR ''{'')"
  "\<not> is_json_space (CHR ''}'')" "\<not> is_json_space (CHR ''['')" "\<not> is_json_space (CHR '']'')"
  by (simp_all add: is_json_space_def QUOTE_def)

lemma ends_delimiter [simp]: "ends []" "ends (CHR '','' # r)" "ends (CHR ''}'' # r)" "ends (CHR '']'' # r)"
  by (simp_all add: ends_def is_digit_def)

lemma QUOTE_neq [simp]: "QUOTE \<noteq> CHR ''{''" "QUOTE \<noteq> CHR ''[''" "QUOTE \<noteq> CHR '']''" "QUOTE \<noteq> CHR ''}''"
  by (simp_all add: QUOTE_def)

lemma encodes_quote: "encodes (jsonQuote t) (JsStr t)"
proof -
  have "jvalue n (jsonQuote t @ r) = Some (JsStr t, r)" if "0 < n" for n r
    using that by (cases n) (simp_all add: jsonQuote_def jstr_quote)
  then show ?thesis by (auto simp: encodes_def jsonQuote_def)
qed

lemma digits_ends: "list_all is_digit ds \<Longrightarrow> ends r \<Longrightarrow> digitsOf (ds @ r) = (ds, r)"
  by (cases r) (auto simp: digitsOf_def ends_def list_all_iff)

lemma digit_class: "is_digit c \<Longrightarrow> c \<notin> {CHR ''{'', CHR ''['', QUOTE, CHR '']'', CHR ''t'', CHR ''f'', CHR ''n'', CHR ''-''} \<and> \<not> is_json_space c"
  by (auto simp: is_digit_def QUOTE_def is_json_space_def)

lemma jint_dec: "ends r \<Longrightarrow> jint (dec_of_nat n @ r) = Some (dec_of_nat n, r)"
proof -
  assume r: "ends r"
  have "\<not> (hd (dec_of_nat n) = CHR ''0'' \<and> 1 < length (dec_of_nat n))"
  proof (cases "n = 0")
    case False
    then have "is_pos_decimal (dec_of_nat n)" by (simp add: dec_of_nat_pos)
    then show ?thesis by (cases "dec_of_nat n") auto
  qed (simp add: dec_of_nat.simps)
  then show ?thesis using digits_ends [OF dec_of_nat_digits r] by (simp add: jint_def)
qed

lemma ends_frac: "ends r \<Longrightarrow> jfrac r = Some ([], r)" and ends_exp: "ends r \<Longrightarrow> jexp r = Some (0, r)"
  by (cases r; simp add: ends_def jfrac_def jexp_def)+

lemma literal_int: "int n \<le> MAX_SAFE_INTEGER \<Longrightarrow> literalNum neg (dec_of_nat n) [] 0 = NInt (if neg then - int n else int n)"
  by (simp add: literalNum_def dbl_exact Let_def) (simp add: MAX_SAFE_INTEGER_def)

lemma encodes_num: "\<bar>i\<bar> \<le> MAX_SAFE_INTEGER \<Longrightarrow> encodes (numString i) (JsNum (NInt i))"
proof -
  assume i: "\<bar>i\<bar> \<le> MAX_SAFE_INTEGER"
  let ?d = "dec_of_nat (nat \<bar>i\<bar>)"
  obtain c cs where d: "?d = c # cs" by (cases ?d) auto
  then have c: "is_digit c" using dec_of_nat_digits [of "nat \<bar>i\<bar>"] by simp
  note cc = digit_class [OF c]
  have num: "jnum (numString i @ r) = Some (NInt i, r)" if "ends r" for r
  proof (cases "i < 0")
    case True
    then have "numString i = CHR ''-'' # ?d" by (simp add: numString_def)
    then show ?thesis
      using True i literal_int [of "nat \<bar>i\<bar>" True] by (simp add: jnum_def jint_dec that ends_frac ends_exp)
  next
    case False
    then have n: "numString i = ?d" by (simp add: numString_def)
    have "\<not> startsWith (?d @ r) ''-''" using cc d by simp
    then show ?thesis
      using False i literal_int [of "nat \<bar>i\<bar>" False] by (simp add: n jnum_def jint_dec that ends_frac ends_exp)
  qed
  obtain h t where ht: "numString i = h # t" "h = CHR ''-'' \<or> h = c"
    using d by (cases "i < 0") (auto simp: numString_def)
  have h: "h \<notin> {CHR ''{'', CHR ''['', QUOTE, CHR '']'', CHR ''t'', CHR ''f'', CHR ''n''}" "\<not> is_json_space h"
    using ht(2) cc by (auto simp: QUOTE_def is_json_space_def)
  have "jvalue n (numString i @ r) = Some (JsNum (NInt i), r)" if "ends r" "0 < n" for n r
    using num [OF that(1)] that(2) ht(1) h by (cases n) (simp_all add: skipWs_def)
  then show ?thesis using ht h by (auto simp: encodes_def)
qed

lemma encodes_bool: "encodes ''false'' (JsBool False)" "encodes ''true'' (JsBool True)"
proof -
  have "jvalue n (''false'' @ r) = Some (JsBool False, r)" "jvalue n (''true'' @ r) = Some (JsBool True, r)" if "0 < n" for n r
    using that by (cases n; simp add: skipWs_def is_json_space_def QUOTE_def)+
  then show "encodes ''false'' (JsBool False)" "encodes ''true'' (JsBool True)"
    by (auto simp: encodes_def is_json_space_def)
qed

lemma encodes_value: "encodes t v \<Longrightarrow> ends r \<Longrightarrow> 2 * length t < n \<Longrightarrow> jvalue n (t @ r) = Some (v, r)"
  by (simp add: encodes_def)

lemma jmembers_field:
  assumes "encodes t v" "ends r" "2 * length t < n"
  shows "jmembers (Suc n) (jsonQuote k @ '':'' @ t @ r) =
    (case skipWs r of [] \<Rightarrow> None
     | e # r3 \<Rightarrow> if e = CHR ''}'' then Some ([(k, v)], r3)
       else if e = CHR '','' then map_option (\<lambda>(kvs, r4). ((k, v) # kvs, r4)) (jmembers n r3) else None)"
  using encodes_value [OF assms] by (simp add: jsonQuote_def jstr_quote)

definition encodesAll :: "(string \<times> string) list \<Rightarrow> (string \<times> json) list \<Rightarrow> bool" where
  "encodesAll = list_all2 (\<lambda>(k, t) (k', v). k = k' \<and> encodes t v)"

lemma encodesAll_simps [simp]:
  "encodesAll [] kvs \<longleftrightarrow> kvs = []"
  "encodesAll ((k, t) # fs) kvs \<longleftrightarrow> (\<exists>v kvs'. kvs = (k, v) # kvs' \<and> encodes t v \<and> encodesAll fs kvs')"
  by (auto simp: encodesAll_def list_all2_Cons1)

abbreviation fieldText :: "string \<times> string \<Rightarrow> string" where
  "fieldText \<equiv> \<lambda>(k, t). jsonQuote k @ '':'' @ t"

lemma jmembers_fields:
  assumes "encodesAll fs kvs" "fs \<noteq> []" "2 * length (joinStr '','' (map fieldText fs)) < n"
  shows "jmembers n (joinStr '','' (map fieldText fs) @ CHR ''}'' # r) = Some (kvs, r)"
  using assms
proof (induction fs arbitrary: kvs n)
  case (Cons f fs)
  note IH = Cons.IH and prems = Cons.prems
  obtain k t where f: "f = (k, t)" by fastforce
  with Cons.prems(1) obtain v kvs' where kv: "kvs = (k, v) # kvs'" "encodes t v" "encodesAll fs kvs'" by auto
  have len: "2 * length t < n - 1" using Cons.prems(3) f by (cases fs) (simp_all add: jsonQuote_def)
  then obtain m where n: "n = Suc m" "2 * length t < m" by (cases n) auto
  show ?case
  proof (cases fs)
    case Nil
    then show ?thesis using jmembers_field [OF kv(2) _ n(2), of "CHR ''}'' # r" k] kv f n by simp
  next
    case (Cons g gs)
    let ?rest = "joinStr '','' (map fieldText fs)"
    from Cons have tx: "joinStr '','' (map fieldText (f # fs)) = jsonQuote k @ '':'' @ t @ '','' @ ?rest" by (simp add: f)
    then have "2 * length ?rest < m" using prems(3) n by simp
    then have "jmembers m (?rest @ CHR ''}'' # r) = Some (kvs', r)" using IH [OF kv(3)] Cons by blast
    then show ?thesis
      using jmembers_field [OF kv(2) _ n(2), of "CHR '','' # ?rest @ CHR ''}'' # r" k] kv n
      unfolding tx by simp
  qed
qed simp

lemma objectOf_distinct: "distinct (map fst kvs) \<Longrightarrow> objectOf kvs = JsObj kvs"
proof -
  have "distinct (map fst (acc @ kvs)) \<Longrightarrow> foldl setProperty acc kvs = acc @ kvs" for acc
  proof (induction kvs arbitrary: acc)
    case (Cons kv kvs)
    then have "setProperty acc kv = acc @ [kv]" by (auto simp: setProperty_def list_ex_iff rev_image_eqI)
    with Cons show ?case by simp
  qed simp
  from this [of "[]"] show "distinct (map fst kvs) \<Longrightarrow> objectOf kvs = JsObj kvs" by (simp add: objectOf_def)
qed

lemma encodes_object:
  assumes "encodesAll fs kvs" "distinct (map fst kvs)"
  shows "encodes (jsonObject fs) (JsObj kvs)"
proof -
  have "jvalue n (jsonObject fs @ r) = Some (JsObj kvs, r)" if n: "2 * length (jsonObject fs) < n" for n r
  proof (cases fs)
    case Nil
    with assms n show ?thesis by (cases n) (simp_all add: jsonObject_def)
  next
    case (Cons f gs)
    obtain m where m: "n = Suc m" using n by (cases n) auto
    obtain k t where f: "f = (k, t)" by fastforce
    have "\<exists>w. joinStr '','' (map fieldText fs) = QUOTE # w" by (cases gs) (simp_all add: Cons f jsonQuote_def)
    then obtain w where w: "joinStr '','' (map fieldText fs) = QUOTE # w" by blast
    have "jmembers m (joinStr '','' (map fieldText fs) @ CHR ''}'' # r) = Some (kvs, r)"
      using n m Cons by (intro jmembers_fields [OF assms(1)]) (simp_all add: jsonObject_def)
    then show ?thesis using m w objectOf_distinct [OF assms(2)] by (simp add: jsonObject_def)
  qed
  then show ?thesis by (auto simp: encodes_def jsonObject_def)
qed

lemma jelements_texts:
  assumes "list_all2 encodes ts vs" "ts \<noteq> []" "2 * length (joinStr '','' ts) + 1 < n"
  shows "jelements n (joinStr '','' ts @ CHR '']'' # r) = Some (vs, r)"
  using assms
proof (induction ts arbitrary: vs n)
  case (Cons t ts)
  note IH = Cons.IH and prems = Cons.prems
  from Cons.prems(1) obtain v vs' where v: "vs = v # vs'" "encodes t v" "list_all2 encodes ts vs'"
    by (auto simp: list_all2_Cons1)
  obtain m where n: "n = Suc m" "2 * length t < m" using Cons.prems(3) by (cases n; cases ts) auto
  show ?case
  proof (cases ts)
    case Nil
    then show ?thesis using encodes_value [OF v(2) _ n(2), of "CHR '']'' # r"] v n by simp
  next
    case (Cons u us)
    let ?rest = "joinStr '','' ts"
    from Cons have tx: "joinStr '','' (t # ts) = t @ '','' @ ?rest" by simp
    then have "2 * length ?rest + 1 < m" using prems(3) n by simp
    then have "jelements m (?rest @ CHR '']'' # r) = Some (vs', r)" using IH [OF v(3)] Cons by blast
    then show ?thesis
      using encodes_value [OF v(2) _ n(2), of "CHR '','' # ?rest @ CHR '']'' # r"] v n unfolding tx by simp
  qed
qed simp

lemma encodes_array: "list_all2 encodes ts vs \<Longrightarrow> encodes (jsonArray ts) (JsArr vs)"
proof -
  assume a: "list_all2 encodes ts vs"
  have "jvalue n (jsonArray ts @ r) = Some (JsArr vs, r)" if n: "2 * length (jsonArray ts) < n" for n r
  proof (cases ts)
    case Nil
    with a n show ?thesis by (cases n) (simp_all add: jsonArray_def)
  next
    case (Cons t us)
    obtain m where m: "n = Suc m" using n by (cases n) auto
    from a Cons obtain v where t: "encodes t v" by (auto simp: list_all2_Cons1)
    then obtain c w where c: "t = c # w" "\<not> is_json_space c" "c \<noteq> CHR '']''" by (cases t) (auto simp: encodes_def)
    then have "\<exists>w'. joinStr '','' ts = c # w'" by (cases us) (simp_all add: Cons)
    then obtain w' where w: "joinStr '','' ts = c # w'" by blast
    have "jelements m (joinStr '','' ts @ CHR '']'' # r) = Some (vs, r)"
      using n m Cons by (intro jelements_texts [OF a]) (simp_all add: jsonArray_def)
    then show ?thesis using m w c by (simp add: jsonArray_def)
  qed
  then show ?thesis by (auto simp: encodes_def jsonArray_def)
qed

theorem encodes_parse: "encodes t v \<Longrightarrow> jsonParse t = Some v"
  using encodes_value [of t v "[]" "2 * length t + 2"] by (simp add: jsonParse_def skipWs_def)

section \<open>Torn texts\<close>

text \<open>The text of an object that parses contains a closing brace.\<close>

lemma jmembers_brace: "jmembers n s = Some (kvs, r) \<Longrightarrow> CHR ''}'' \<in> set s"
proof (induction n arbitrary: s kvs)
  case (Suc n)
  then obtain cs k w d w1 v w2 e w3 where
    p: "skipWs s = QUOTE # cs" "jstr cs = Some (k, w)" "skipWs w = d # w1" "jvalue n w1 = Some (v, w2)"
      "skipWs w2 = e # w3" "e = CHR ''}'' \<or> (\<exists>kvs'. jmembers n w3 = Some (kvs', r))"
    by (auto split: list.splits option.splits if_splits)
  from p(6) Suc.IH have "CHR ''}'' \<in> set (e # w3)" by auto
  then have "CHR ''}'' \<in> set w2" using skipWs_suffix [of w2] p(5) by (metis set_mono_suffix subsetD)
  then have "CHR ''}'' \<in> set w1" using parser_suffix(1) [OF p(4)] by (metis set_mono_suffix subsetD suffix_order.less_imp_le)
  then have "CHR ''}'' \<in> set w" using skipWs_Cons_suffix [OF p(3)] by (metis set_mono_suffix subsetD suffix_order.less_imp_le)
  then have "CHR ''}'' \<in> set cs" using jstr_suffix [OF p(2)] by (metis set_mono_suffix subsetD suffix_order.less_imp_le)
  then show ?case using skipWs_Cons_suffix [OF p(1)] by (metis set_mono_suffix subsetD suffix_order.less_imp_le)
qed simp

lemma torn_object: "CHR ''}'' \<notin> set s \<Longrightarrow> jsonParse (CHR ''{'' # s) = None"
proof (rule ccontr)
  assume b: "CHR ''}'' \<notin> set s" and "jsonParse (CHR ''{'' # s) \<noteq> None"
  then obtain v r where "jvalue (2 * length (CHR ''{'' # s) + 2) (CHR ''{'' # s) = Some (v, r)"
    by (auto simp: jsonParse_def split: option.splits)
  then have "startsWith (skipWs s) ''}'' \<or> (\<exists>kvs r n. jmembers n s = Some (kvs, r))"
    by (auto simp del: jmembers.simps split: if_splits)
  moreover have "CHR ''}'' \<notin> set (skipWs s)" using b skipWs_suffix [of s] by (metis set_mono_suffix subsetD)
  ultimately show False using b jmembers_brace by (auto simp: startsWith_iff)
qed

end
