(* ===== verification/ReplayJournal.thy ===== *)
theory ReplayJournal
  imports Json
begin

text \<open>
  The crash-safe replay journal of the supplier node
  (\<^verbatim>\<open>apps/supplier-node/src/replay-journal.ts\<close>). The journal is a file of JSON lines and two maps
  in memory; a claim is appended and synced before the work starts. Every file-system call may fail
  and the process may stop at any moment: the outcomes of the calls are the arguments
  \<open>JournalIo\<close> and \<open>OpenIo\<close>, and a stopped process leaves only the text of the file. The hash functions of
  \<^verbatim>\<open>node:crypto\<close> are parameters.
\<close>

section \<open>Errors of the node\<close>

datatype SupplierGatewayErrorCode =
    INVALID_REQUEST | AUTHENTICATION_FAILED | SIGNATURE_INVALID | REQUEST_EXPIRED | REPLAY_DETECTED
  | MODEL_NOT_ALLOWED | DATA_CLASS_NOT_ALLOWED | CAPACITY_EXCEEDED | IDEMPOTENCY_CONFLICT
  | UPSTREAM_AUTH_FAILED | UPSTREAM_RATE_LIMITED | UPSTREAM_TIMEOUT | UPSTREAM_UNAVAILABLE
  | UPSTREAM_RESPONSE_INVALID | UPSTREAM_MODEL_MISMATCH | INTERNAL_ERROR

text \<open>
  Thrown values: an error of the node (code, status, retryable), an error of the agent that runs it (code,
  retryable), a \<open>TypeError\<close> of the platform, or any other exception.
\<close>

datatype nodeError = SupplierNodeError SupplierGatewayErrorCode int bool | AgentError string bool | TypeError | OtherError

definition normalizeSupplierNodeError :: "nodeError \<Rightarrow> SupplierGatewayErrorCode \<times> int \<times> bool" where
  "normalizeSupplierNodeError e = (case e of
     SupplierNodeError code status retryable \<Rightarrow> (code, status, retryable)
   | _ \<Rightarrow> (INTERNAL_ERROR, 500, True))"

section \<open>Records and their text\<close>

text \<open>\<open>Buffer.byteLength(s, "utf8")\<close>\<close>

definition byteLength :: "string \<Rightarrow> nat" where
  "byteLength s = sum_list (map (\<lambda>c. if (of_char c :: nat) < 128 then 1 else 2) s)"

lemma byteLength_append: "byteLength (s @ t) = byteLength s + byteLength t"
  by (simp add: byteLength_def)

definition MAXIMUM_JOURNAL_BYTES :: nat where
  "MAXIMUM_JOURNAL_BYTES = 16 * 1024 * 1024"

definition SIZE_COMPACTION_THRESHOLD_BYTES :: nat where
  "SIZE_COMPACTION_THRESHOLD_BYTES = 8 * 1024 * 1024"

definition DEFAULT_COMPACTION_INTERVAL_MILLISECONDS :: int where
  "DEFAULT_COMPACTION_INTERVAL_MILLISECONDS = 5 * 60000"

definition APPEND_COMPACTION_THRESHOLD :: nat where
  "APPEND_COMPACTION_THRESHOLD = 1000"

definition BODY_COMMITMENT_DOMAIN :: string where
  "BODY_COMMITMENT_DOMAIN = ''gongsuanyun.supplier-node.replay-body-commitment.v2'' @ NL"

datatype ReplayRecordV2 = NonceRecordV2 string int | RequestRecordV2 string string int

datatype ParsedReplayRecord =
    ParsedNonce string int
  | ParsedRequest string string int
  | ParsedLegacyRequest string string int

text \<open>\<open>JSON.stringify(record)\<close>\<close>

fun recordText :: "ReplayRecordV2 \<Rightarrow> string" where
  "recordText (NonceRecordV2 key expiresAt) = jsonObject [(''version'', numString 2), (''kind'', jsonQuote ''nonce''),
     (''key'', jsonQuote key), (''expiresAt'', numString expiresAt)]"
| "recordText (RequestRecordV2 key bodyCommitment expiresAt) = jsonObject [(''version'', numString 2),
     (''kind'', jsonQuote ''request''), (''key'', jsonQuote key), (''bodyCommitment'', jsonQuote bodyCommitment),
     (''expiresAt'', numString expiresAt)]"

definition recordLine :: "ReplayRecordV2 \<Rightarrow> string" where
  "recordLine r = recordText r @ NL"

fun hexField :: "json option \<Rightarrow> string option" where
  "hexField (Some (JsStr s)) = (if isSha256 s then Some s else None)"
| "hexField _ = None"

fun timeField :: "json option \<Rightarrow> int option" where
  "timeField (Some (JsNum n)) = (if isSafeInteger n \<and> \<not> numLt n 0 then Some (numInt n) else None)"
| "timeField _ = None"

definition parseRecord :: "json \<Rightarrow> ParsedReplayRecord option" where
  "parseRecord value = (case value of
     JsObj fs \<Rightarrow>
       (let version = map_of fs ''version''; kind = map_of fs ''kind'' in
        if version \<notin> {Some (JsNum (NInt 1)), Some (JsNum (NInt 2))} \<or>
           kind \<notin> {Some (JsStr ''nonce''), Some (JsStr ''request'')} then None
        else (case (hexField (map_of fs ''key''), timeField (map_of fs ''expiresAt'')) of
          (Some key, Some expiresAt) \<Rightarrow>
            if kind = Some (JsStr ''nonce'') then
              (if length fs \<noteq> 4 then None else Some (ParsedNonce key expiresAt))
            else if length fs \<noteq> 5 then None
            else if version = Some (JsNum (NInt 1)) then
              map_option (\<lambda>sha. ParsedLegacyRequest key sha expiresAt) (hexField (map_of fs ''bodySha256''))
            else map_option (\<lambda>c. ParsedRequest key c expiresAt) (hexField (map_of fs ''bodyCommitment''))
        | _ \<Rightarrow> None))
   | _ \<Rightarrow> None)"

section \<open>The journal\<close>

record PersistentReplayJournal =
  rj_file :: string
  rj_nonces :: "(string \<times> int) list"
  rj_requests :: "(string \<times> string \<times> int) list"
  rj_appendedSinceCompaction :: nat
  rj_lastCompactedAt :: int
  rj_compactionInterval :: int
  rj_terminalFailure :: bool

text \<open>Outcomes of the file-system calls of one operation.\<close>

datatype CompactIo = CompactOk | FailsBeforeRename | FailsAfterRename

record JournalIo =
  io_stat :: bool
  io_compact :: CompactIo
  io_restat :: bool
  io_open :: bool
  io_write :: "nat \<Rightarrow> nat option"
  io_fsync :: bool
  io_size :: bool
  io_later :: CompactIo

record OpenIo =
  oi_prepare :: bool
  oi_compact :: CompactIo

definition replayProtectionUnavailable :: nodeError where
  "replayProtectionUnavailable = SupplierNodeError INTERNAL_ERROR 503 True"

definition createBodyCommitment :: "(string \<Rightarrow> string \<Rightarrow> string) \<Rightarrow> string \<Rightarrow> string \<Rightarrow> nodeError + string" where
  "createBodyCommitment hmac gatewayToken bodySha256 =
     (if isSha256 bodySha256 then Inr (hmac gatewayToken (BODY_COMMITMENT_DOMAIN @ bodySha256)) else Inl OtherError)"

text \<open>\<open>Map.prototype.set\<close> on the insertion-ordered entries of a map.\<close>

definition mapSet :: "'k \<Rightarrow> 'v \<Rightarrow> ('k \<times> 'v) list \<Rightarrow> ('k \<times> 'v) list" where
  "mapSet k v xs = (if list_ex (\<lambda>e. fst e = k) xs then map (\<lambda>e. if fst e = k then (k, v) else e) xs else xs @ [(k, v)])"

definition prune :: "int \<Rightarrow> PersistentReplayJournal \<Rightarrow> PersistentReplayJournal" where
  "prune nowMs j = j\<lparr>rj_nonces := filter (\<lambda>(k, e). \<not> e < nowMs) (rj_nonces j),
     rj_requests := filter (\<lambda>(k, c, e). \<not> e < nowMs) (rj_requests j)\<rparr>"

definition activeRecords :: "PersistentReplayJournal \<Rightarrow> ReplayRecordV2 list" where
  "activeRecords j = map (\<lambda>(k, e). NonceRecordV2 k e) (rj_nonces j) @
     map (\<lambda>(k, c, e). RequestRecordV2 k c e) (rj_requests j)"

definition journalText :: "ReplayRecordV2 list \<Rightarrow> string" where
  "journalText rs = (if rs = [] then [] else joinStr NL (map recordText rs) @ NL)"

definition compact :: "CompactIo \<Rightarrow> int \<Rightarrow> PersistentReplayJournal \<Rightarrow> PersistentReplayJournal \<times> (nodeError + unit)" where
  "compact io nowMs j =
     (let j1 = prune nowMs j; serialized = journalText (activeRecords j1) in
      if byteLength serialized > MAXIMUM_JOURNAL_BYTES then (j1, Inl OtherError)
      else (case io of
         FailsBeforeRename \<Rightarrow> (j1, Inl OtherError)
       | FailsAfterRename \<Rightarrow> (j1\<lparr>rj_file := serialized\<rparr>, Inl OtherError)
       | CompactOk \<Rightarrow> (j1\<lparr>rj_file := serialized, rj_appendedSinceCompaction := 0, rj_lastCompactedAt := nowMs\<rparr>, Inr ())))"

text \<open>
  The write loop: the pieces of the line that its \<open>writeSync\<close> calls put on disk, and whether it ended without
  an exception. A call at an offset is given the rest of the line and tells how many characters it wrote, or throws.
\<close>

function writeAll :: "(nat \<Rightarrow> nat option) \<Rightarrow> nat \<Rightarrow> string \<Rightarrow> string list \<times> bool" where
  "writeAll wr offset buffer =
     (if offset < length buffer then
        (case wr offset of
           None \<Rightarrow> ([], False)
         | Some written \<Rightarrow>
             if written < 1 then ([], False)
             else (case writeAll wr (offset + written) buffer of
                 (pieces, finished) \<Rightarrow> (take written (drop offset buffer) # pieces, finished)))
      else ([], True))"
  by pat_completeness auto
termination
  by (relation "measure (\<lambda>(wr, offset, buffer). length buffer - offset)") auto

declare writeAll.simps [simp del]

definition poison :: "PersistentReplayJournal \<Rightarrow> PersistentReplayJournal \<times> (nodeError + unit)" where
  "poison j = (j\<lparr>rj_terminalFailure := True\<rparr>, Inl replayProtectionUnavailable)"

definition writeLine :: "JournalIo \<Rightarrow> string \<Rightarrow> PersistentReplayJournal \<Rightarrow> PersistentReplayJournal \<times> (nodeError + unit)" where
  "writeLine io serialized j =
     (if \<not> io_open io then poison j
      else (case writeAll (io_write io) 0 serialized of (pieces, finished) \<Rightarrow>
        (let j1 = j\<lparr>rj_file := rj_file j @ concat pieces\<rparr> in
         if \<not> finished \<or> \<not> io_fsync io then poison j1
         else (j1\<lparr>rj_appendedSinceCompaction := rj_appendedSinceCompaction j1 + 1\<rparr>, Inr ()))))"

definition appendRecord :: "JournalIo \<Rightarrow> ReplayRecordV2 \<Rightarrow> int \<Rightarrow> PersistentReplayJournal \<Rightarrow>
    PersistentReplayJournal \<times> (nodeError + unit)" where
  "appendRecord io record nowMs j =
     (let serialized = recordLine record; addition = byteLength serialized in
      if \<not> io_stat io then poison j
      else if byteLength (rj_file j) + addition > MAXIMUM_JOURNAL_BYTES then
        (case compact (io_compact io) nowMs j of
           (j1, Inl e) \<Rightarrow> poison j1
         | (j1, Inr u) \<Rightarrow>
             if \<not> io_restat io then poison j1
             else if byteLength (rj_file j1) + addition > MAXIMUM_JOURNAL_BYTES then poison j1
             else writeLine io serialized j1)
      else writeLine io serialized j)"

definition maybeCompactAfterAppend :: "JournalIo \<Rightarrow> int \<Rightarrow> PersistentReplayJournal \<Rightarrow>
    PersistentReplayJournal \<times> (nodeError + unit)" where
  "maybeCompactAfterAppend io nowMs j =
     (let due = rj_appendedSinceCompaction j \<ge> APPEND_COMPACTION_THRESHOLD \<or>
        nowMs - rj_lastCompactedAt j \<ge> rj_compactionInterval j in
      if \<not> due \<and> \<not> io_size io then poison j
      else if due \<or> byteLength (rj_file j) \<ge> SIZE_COMPACTION_THRESHOLD_BYTES then
        (case compact (io_later io) nowMs j of (j1, Inl e) \<Rightarrow> poison j1 | (j1, Inr u) \<Rightarrow> (j1, Inr ()))
      else (j, Inr ()))"

definition isHealthy :: "PersistentReplayJournal \<Rightarrow> bool" where
  "isHealthy j = (\<not> rj_terminalFailure j)"

definition claimNonce :: "(string \<Rightarrow> string) \<Rightarrow> JournalIo \<Rightarrow> string \<Rightarrow> int \<Rightarrow> int \<Rightarrow> PersistentReplayJournal \<Rightarrow>
    PersistentReplayJournal \<times> (nodeError + unit)" where
  "claimNonce sha256 io nonce expiresAt nowMs j =
     (if rj_terminalFailure j then (j, Inl replayProtectionUnavailable)
      else let j1 = prune nowMs j; key = sha256 nonce in
        if (case map_of (rj_nonces j1) key of Some e \<Rightarrow> e | None \<Rightarrow> - 1) \<ge> nowMs
        then (j1, Inl (SupplierNodeError REPLAY_DETECTED 409 False))
        else (case appendRecord io (NonceRecordV2 key expiresAt) nowMs j1 of
           (j2, Inl e) \<Rightarrow> (j2, Inl e)
         | (j2, Inr u) \<Rightarrow> maybeCompactAfterAppend io nowMs (j2\<lparr>rj_nonces := mapSet key expiresAt (rj_nonces j2)\<rparr>)))"

fun priorClaim :: "int \<Rightarrow> string \<Rightarrow> (string \<times> int) option \<Rightarrow> SupplierGatewayErrorCode option" where
  "priorClaim nowMs bodyCommitment None = None"
| "priorClaim nowMs bodyCommitment (Some (c, e)) =
     (if e \<ge> nowMs then Some (if c \<noteq> bodyCommitment then IDEMPOTENCY_CONFLICT else REPLAY_DETECTED) else None)"

definition claimRequest :: "(string \<Rightarrow> string) \<Rightarrow> (string \<Rightarrow> string \<Rightarrow> string) \<Rightarrow> string \<Rightarrow> JournalIo \<Rightarrow> string \<Rightarrow> string \<Rightarrow>
    int \<Rightarrow> int \<Rightarrow> PersistentReplayJournal \<Rightarrow> PersistentReplayJournal \<times> (nodeError + unit)" where
  "claimRequest sha256 hmac gatewayToken io requestId bodySha256 expiresAt nowMs j =
     (if rj_terminalFailure j then (j, Inl replayProtectionUnavailable)
      else let j1 = prune nowMs j; key = sha256 requestId in
        (case createBodyCommitment hmac gatewayToken bodySha256 of
           Inl e \<Rightarrow> (j1, Inl e)
         | Inr bodyCommitment \<Rightarrow>
           (case priorClaim nowMs bodyCommitment (map_of (rj_requests j1) key) of
              Some code \<Rightarrow> (j1, Inl (SupplierNodeError code 409 False))
            | None \<Rightarrow>
              (case appendRecord io (RequestRecordV2 key bodyCommitment expiresAt) nowMs j1 of
                 (j2, Inl e) \<Rightarrow> (j2, Inl e)
               | (j2, Inr u) \<Rightarrow> maybeCompactAfterAppend io nowMs
                   (j2\<lparr>rj_requests := mapSet key (bodyCommitment, expiresAt) (rj_requests j2)\<rparr>)))))"

definition compactNow :: "CompactIo \<Rightarrow> int \<Rightarrow> PersistentReplayJournal \<Rightarrow> PersistentReplayJournal \<times> (nodeError + unit)" where
  "compactNow io nowMs j =
     (if rj_terminalFailure j then (j, Inl replayProtectionUnavailable)
      else (case compact io nowMs j of (j1, Inl e) \<Rightarrow> poison j1 | (j1, Inr u) \<Rightarrow> (j1, Inr ())))"

section \<open>Start\<close>

fun splitLines :: "string \<Rightarrow> string list" where
  "splitLines [] = [[]]"
| "splitLines (c # cs) = (if [c] = NL then [] # splitLines cs
     else (case splitLines cs of l # ls \<Rightarrow> (c # l) # ls | [] \<Rightarrow> [[c]]))"

type_synonym replayMaps = "(string \<times> int) list \<times> (string \<times> string \<times> int) list"

definition loadNonce :: "int \<Rightarrow> string \<Rightarrow> int \<Rightarrow> replayMaps \<Rightarrow> nodeError + replayMaps" where
  "loadNonce nowMs key expiresAt m = (case m of (ns, rs) \<Rightarrow>
     if expiresAt < nowMs then Inr m else if list_ex (\<lambda>e. fst e = key) ns then Inl OtherError
     else Inr (ns @ [(key, expiresAt)], rs))"

definition loadRequest :: "int \<Rightarrow> string \<Rightarrow> string \<Rightarrow> int \<Rightarrow> replayMaps \<Rightarrow> nodeError + replayMaps" where
  "loadRequest nowMs key bodyCommitment expiresAt m = (case m of (ns, rs) \<Rightarrow>
     if expiresAt < nowMs then Inr m else if list_ex (\<lambda>e. fst e = key) rs then Inl OtherError
     else Inr (ns, rs @ [(key, bodyCommitment, expiresAt)]))"

definition loadLine :: "(string \<Rightarrow> string \<Rightarrow> string) \<Rightarrow> string \<Rightarrow> int \<Rightarrow> replayMaps \<Rightarrow> string \<Rightarrow> nodeError + replayMaps" where
  "loadLine hmac gatewayToken nowMs m line =
     (if line = [] then Inr m
      else (case jsonParse line of None \<Rightarrow> Inl OtherError
        | Some value \<Rightarrow> (case parseRecord value of
            None \<Rightarrow> Inl OtherError
          | Some (ParsedNonce key expiresAt) \<Rightarrow> loadNonce nowMs key expiresAt m
          | Some (ParsedRequest key c expiresAt) \<Rightarrow> loadRequest nowMs key c expiresAt m
          | Some (ParsedLegacyRequest key sha expiresAt) \<Rightarrow>
              if expiresAt < nowMs then Inr m
              else andThen (createBodyCommitment hmac gatewayToken sha) (\<lambda>c. loadRequest nowMs key c expiresAt m))))"

definition load :: "(string \<Rightarrow> string \<Rightarrow> string) \<Rightarrow> string \<Rightarrow> int \<Rightarrow> string \<Rightarrow> nodeError + replayMaps" where
  "load hmac gatewayToken nowMs serialized =
     foldE (loadLine hmac gatewayToken nowMs) ([], []) (splitLines serialized)"

definition boundedInteger :: "jsnum \<Rightarrow> int \<Rightarrow> int \<Rightarrow> nodeError + int" where
  "boundedInteger value minimum maximum =
     (if \<not> isSafeInteger value \<or> numLt value minimum \<or> numGt value maximum then Inl OtherError else Inr (numInt value))"

text \<open>The constructor on the file found at the journal path: the file it leaves and the new journal.\<close>

definition openJournal :: "(string \<Rightarrow> string \<Rightarrow> string) \<Rightarrow> string \<Rightarrow> jsnum \<Rightarrow> OpenIo \<Rightarrow> int \<Rightarrow> string \<Rightarrow>
    string \<times> (nodeError + PersistentReplayJournal)" where
  "openJournal hmac gatewayToken interval io nowMs file =
     (case boundedInteger interval 1000 (60 * 60000) of
        Inl e \<Rightarrow> (file, Inl e)
      | Inr ms \<Rightarrow>
        if \<not> oi_prepare io \<or> byteLength file > MAXIMUM_JOURNAL_BYTES then (file, Inl OtherError)
        else (case load hmac gatewayToken nowMs file of
           Inl e \<Rightarrow> (file, Inl e)
         | Inr (ns, rs) \<Rightarrow>
           (case compact (oi_compact io) nowMs
               \<lparr>rj_file = file, rj_nonces = ns, rj_requests = rs, rj_appendedSinceCompaction = 0,
                rj_lastCompactedAt = nowMs, rj_compactionInterval = ms, rj_terminalFailure = False\<rparr> of
              (j, Inl e) \<Rightarrow> (rj_file j, Inl e)
            | (j, Inr u) \<Rightarrow> (rj_file j, Inr j))))"

section \<open>The write loop\<close>

lemma writeAll_result:
  "writeAll wr offset buffer = (pieces, finished) \<Longrightarrow>
   \<exists>rest. drop offset buffer = concat pieces @ rest \<and> (finished \<longleftrightarrow> rest = []) \<and> [] \<notin> set pieces \<and>
     length pieces + (if finished then 0 else 1) \<le> length buffer - offset"
proof (induction wr offset buffer arbitrary: pieces finished rule: writeAll.induct)
  case (1 wr offset buffer)
  show ?case
  proof (cases "offset < length buffer \<and> (\<exists>w. wr offset = Some w \<and> \<not> w < 1)")
    case True
    then obtain w where w: "offset < length buffer" "wr offset = Some w" "\<not> w < 1" by blast
    obtain ps where ps: "writeAll wr (offset + w) buffer = (ps, finished)" "pieces = take w (drop offset buffer) # ps"
      using "1.prems" w by (auto simp: writeAll.simps [of wr offset] split: prod.splits)
    from "1.IH" [OF w ps(1)] obtain rest where r: "drop (offset + w) buffer = concat ps @ rest" "finished \<longleftrightarrow> rest = []" "[] \<notin> set ps"
      "length ps + (if finished then 0 else 1) \<le> length buffer - (offset + w)" by blast
    have n: "length pieces + (if finished then 0 else 1) \<le> length buffer - offset" using r(4) w by (cases finished) (simp_all add: ps(2))
    have "drop offset buffer = take w (drop offset buffer) @ drop (offset + w) buffer"
      by (metis append_take_drop_id drop_drop add.commute)
    then have "drop offset buffer = concat pieces @ rest" unfolding r(1) ps(2) by simp
    moreover have "[] \<notin> set pieces" using r(3) w by (simp add: ps(2))
    ultimately show ?thesis using n r(2) by blast
  next
    case False
    with "1.prems" show ?thesis by (auto simp: writeAll.simps [of wr offset] split: option.splits if_splits)
  qed
qed

lemma writeAll_finished:
  assumes "\<And>k. k < length buffer \<Longrightarrow> \<exists>w. wr k = Some w \<and> 1 \<le> w"
  shows "snd (writeAll wr offset buffer)"
  using assms
proof (induction wr offset buffer rule: writeAll.induct)
  case (1 wr offset buffer)
  show ?case
  proof (cases "offset < length buffer")
    case True
    with "1.prems" obtain w where w: "wr offset = Some w" "\<not> w < 1" by fastforce
    with "1.IH" [OF True w] "1.prems" True show ?thesis by (simp add: writeAll.simps [of wr offset] case_prod_beta)
  next
    case False
    then show ?thesis by (simp add: writeAll.simps [of wr offset])
  qed
qed

section \<open>Text and records\<close>

fun wfRecord :: "ReplayRecordV2 \<Rightarrow> bool" where
  "wfRecord (NonceRecordV2 k e) \<longleftrightarrow> isSha256 k \<and> 0 \<le> e \<and> e \<le> MAX_SAFE_INTEGER"
| "wfRecord (RequestRecordV2 k c e) \<longleftrightarrow> isSha256 k \<and> isSha256 c \<and> 0 \<le> e \<and> e \<le> MAX_SAFE_INTEGER"

fun recordJson :: "ReplayRecordV2 \<Rightarrow> json" where
  "recordJson (NonceRecordV2 k e) = JsObj [(''version'', JsNum (NInt 2)), (''kind'', JsStr ''nonce''), (''key'', JsStr k),
     (''expiresAt'', JsNum (NInt e))]"
| "recordJson (RequestRecordV2 k c e) = JsObj [(''version'', JsNum (NInt 2)), (''kind'', JsStr ''request''), (''key'', JsStr k),
     (''bodyCommitment'', JsStr c), (''expiresAt'', JsNum (NInt e))]"

lemma recordText_encodes: "wfRecord r \<Longrightarrow> encodes (recordText r) (recordJson r)"
  by (cases r) (auto intro!: encodes_object encodes_quote encodes_num simp: MAX_SAFE_INTEGER_def)

fun loadRecord :: "int \<Rightarrow> replayMaps \<Rightarrow> ReplayRecordV2 \<Rightarrow> nodeError + replayMaps" where
  "loadRecord t m (NonceRecordV2 k e) = loadNonce t k e m"
| "loadRecord t m (RequestRecordV2 k c e) = loadRequest t k c e m"

lemma loadLine_record: "wfRecord r \<Longrightarrow> loadLine hmac token t m (recordText r) = loadRecord t m r"
proof -
  assume r: "wfRecord r"
  have "recordText r \<noteq> []" by (cases r) (simp_all add: jsonObject_def)
  moreover have "jsonParse (recordText r) = Some (recordJson r)" by (rule encodes_parse [OF recordText_encodes [OF r]])
  moreover have "parseRecord (recordJson r) =
      Some (case r of NonceRecordV2 k e \<Rightarrow> ParsedNonce k e | RequestRecordV2 k c e \<Rightarrow> ParsedRequest k c e)"
    using r by (cases r) (simp_all add: parseRecord_def)
  ultimately show ?thesis by (cases r) (simp_all add: loadLine_def)
qed

definition plainChar :: "char \<Rightarrow> bool" where
  "plainChar c \<longleftrightarrow> c \<noteq> CHR ''}'' \<and> c \<noteq> CHR 0x0A \<and> (of_char c :: nat) < 128"

lemma hex_plain: "isHexChar c \<Longrightarrow> escapeChar c = [c] \<and> plainChar c"
  by (auto simp: isHexChar_def is_digit_def escapeChar_def QUOTE_def BACKSLASH_def plainChar_def Let_def)

lemma plain_hex: "isSha256 k \<Longrightarrow> list_all plainChar (jsonQuote k)"
proof -
  have "list_all isHexChar k \<Longrightarrow> list_all plainChar (concat (map escapeChar k))" by (induction k) (simp_all add: hex_plain)
  moreover have "plainChar QUOTE" by (simp add: plainChar_def QUOTE_def)
  ultimately show "isSha256 k \<Longrightarrow> list_all plainChar (jsonQuote k)" by (simp add: isSha256_def jsonQuote_def)
qed

lemma plain_num: "0 \<le> e \<Longrightarrow> list_all plainChar (numString e)"
proof -
  have "list_all isHexChar (dec_of_nat n)" for n
    using dec_of_nat_digits [of n] by (auto simp: list_all_iff isHexChar_def)
  then show "0 \<le> e \<Longrightarrow> list_all plainChar (numString e)" by (auto simp: numString_def list_all_iff dest: hex_plain)
qed

lemma plain_names:
  "list_all plainChar (jsonQuote ''version'')" "list_all plainChar (jsonQuote ''kind'')" "list_all plainChar (jsonQuote ''nonce'')"
  "list_all plainChar (jsonQuote ''request'')" "list_all plainChar (jsonQuote ''key'')"
  "list_all plainChar (jsonQuote ''bodyCommitment'')" "list_all plainChar (jsonQuote ''expiresAt'')"
  "plainChar (CHR '','')" "plainChar (CHR '':'')" "plainChar (CHR ''{'')"
  by code_simp+

fun recordBody :: "ReplayRecordV2 \<Rightarrow> string" where
  "recordBody (NonceRecordV2 k e) = jsonQuote ''version'' @ '':'' @ numString 2 @ '','' @ jsonQuote ''kind'' @ '':'' @
     jsonQuote ''nonce'' @ '','' @ jsonQuote ''key'' @ '':'' @ jsonQuote k @ '','' @ jsonQuote ''expiresAt'' @ '':'' @ numString e"
| "recordBody (RequestRecordV2 k c e) = jsonQuote ''version'' @ '':'' @ numString 2 @ '','' @ jsonQuote ''kind'' @ '':'' @
     jsonQuote ''request'' @ '','' @ jsonQuote ''key'' @ '':'' @ jsonQuote k @ '','' @ jsonQuote ''bodyCommitment'' @ '':'' @
     jsonQuote c @ '','' @ jsonQuote ''expiresAt'' @ '':'' @ numString e"

text \<open>The text of a record ends with its only closing brace and has no line break.\<close>

lemma recordText_body: "wfRecord r \<Longrightarrow> \<exists>b. recordText r = CHR ''{'' # b @ ''}'' \<and> list_all plainChar b"
proof -
  assume r: "wfRecord r"
  have "recordText r = CHR ''{'' # recordBody r @ ''}''" by (cases r) (simp_all add: jsonObject_def)
  moreover have "list_all plainChar (recordBody r)" using r by (cases r) (simp_all add: plain_hex plain_num plain_names)
  ultimately show ?thesis by blast
qed

lemma recordText_chars: "wfRecord r \<Longrightarrow> c \<in> set (recordText r) \<Longrightarrow> c \<noteq> CHR 0x0A \<and> (of_char c :: nat) < 128"
proof -
  assume "wfRecord r" and c: "c \<in> set (recordText r)"
  then obtain b where b: "recordText r = CHR ''{'' # b @ ''}''" "list_all plainChar b" using recordText_body by blast
  from b(2) have "c \<in> set b \<Longrightarrow> ?thesis" by (simp add: list_all_iff plainChar_def)
  with c show ?thesis unfolding b(1) by auto
qed

lemma recordText_lines: "wfRecord r \<Longrightarrow> CHR 0x0A \<notin> set (recordText r)"
  using recordText_chars by blast

lemma plain_bytes: "\<forall>c \<in> set s. (of_char c :: nat) < 128 \<Longrightarrow> byteLength s = length s"
  by (induction s) (simp_all add: byteLength_def)

lemma recordLine_bytes: "wfRecord r \<Longrightarrow> byteLength (recordLine r) = length (recordLine r)"
  by (rule plain_bytes) (auto simp: recordLine_def NL_def dest: recordText_chars)

lemma torn_record:
  assumes "wfRecord r" "0 < k" "k < length (recordText r)"
  shows "jsonParse (take k (recordText r)) = None"
proof -
  obtain b where b: "recordText r = CHR ''{'' # b @ ''}''" "list_all plainChar b" using recordText_body [OF assms(1)] by blast
  obtain m where m: "k = Suc m" using assms(2) by (cases k) auto
  with assms(3) b(1) have "take k (recordText r) = CHR ''{'' # take m b" by simp
  moreover have "CHR ''}'' \<notin> set (take m b)" using b(2) in_set_takeD [of _ m b] by (auto simp: list_all_iff plainChar_def)
  ultimately show ?thesis by (simp add: torn_object)
qed

text \<open>A journal is the sequence of its lines.\<close>

lemma splitLines_line: "CHR 0x0A \<notin> set l \<Longrightarrow> splitLines (l @ NL @ s) = l # splitLines s"
  by (induction l) (auto simp: NL_def split: list.splits)

lemma splitLines_last: "CHR 0x0A \<notin> set l \<Longrightarrow> splitLines l = [l]"
  by (induction l) (auto simp: NL_def)

lemma journalText_lines: "journalText rs = concat (map recordLine rs)"
proof -
  have "xs \<noteq> [] \<Longrightarrow> joinStr NL xs @ NL = concat (map (\<lambda>l. l @ NL) xs)" for xs
    by (induction xs rule: induct_list012) simp_all
  from this [of "map recordText rs"] show ?thesis by (simp add: journalText_def recordLine_def [abs_def] comp_def)
qed

lemma splitLines_journal:
  "list_all wfRecord rs \<Longrightarrow> splitLines (journalText rs @ s) = map recordText rs @ splitLines s"
  by (induction rs) (simp_all add: journalText_lines recordLine_def splitLines_line recordText_lines)

lemma foldE_map_cong: "(\<And>x m. x \<in> set xs \<Longrightarrow> f m (g x) = h m x) \<Longrightarrow> foldE f m (map g xs) = foldE h m xs"
proof (induction xs arbitrary: m)
  case (Cons x xs)
  have "f m (g x) = h m x" by (simp add: Cons.prems)
  moreover have "foldE f m' (map g xs) = foldE h m' xs" for m' by (rule Cons.IH) (simp add: Cons.prems)
  ultimately show ?case by simp
qed simp

lemma load_journal:
  assumes "list_all wfRecord rs"
  shows "load hmac token t (journalText rs) = foldE (loadRecord t) ([], []) rs"
proof -
  have "foldE (loadLine hmac token t) m (map recordText rs) = foldE (loadRecord t) m rs" for m
    using assms by (intro foldE_map_cong) (simp add: loadLine_record list_all_iff)
  moreover have "andThen x (\<lambda>s. Inr s) = x" for x :: "nodeError + replayMaps" by (cases x) simp_all
  ultimately show ?thesis
    using splitLines_journal [OF assms, of "[]"] by (simp add: load_def foldE_append loadLine_def)
qed

text \<open>A torn last line either stops the start or is the record that was being written, or nothing of it is there.\<close>

lemma load_torn:
  assumes "list_all wfRecord rs" "wfRecord r" "load hmac token t (journalText rs @ take k (recordLine r)) = Inr m"
  shows "load hmac token t (journalText rs) = Inr m \<or> load hmac token t (journalText (rs @ [r])) = Inr m"
proof -
  let ?x = "recordText r"
  consider "k = 0" | "0 < k" "k < length ?x" | "k = length ?x" | "length ?x < k" by linarith
  then show ?thesis
  proof cases
    case 1
    with assms(3) show ?thesis by simp
  next
    case 2
    then have "take k (recordLine r) = take k ?x" by (simp add: recordLine_def)
    moreover have "splitLines (take k ?x) = [take k ?x]"
      using recordText_lines [OF assms(2)] in_set_takeD by (metis splitLines_last)
    moreover have "loadLine hmac token t m' (take k ?x) = Inl OtherError" for m'
      using torn_record [OF assms(2) 2] 2 by (auto simp: loadLine_def)
    ultimately show ?thesis
      using assms(3) splitLines_journal [OF assms(1), of "take k ?x"] by (simp add: load_def foldE_append)
  next
    case 3
    then have "take k (recordLine r) = ?x" by (simp add: recordLine_def)
    moreover have "splitLines ?x = [?x]" by (simp add: splitLines_last recordText_lines assms(2))
    ultimately have "foldE (loadLine hmac token t) ([], []) (map recordText rs @ [?x]) = Inr m"
      using assms(3) splitLines_journal [OF assms(1), of ?x] by (simp add: load_def)
    moreover have "list_all wfRecord (rs @ [r])" using assms by simp
    ultimately show ?thesis
      using splitLines_journal [of "rs @ [r]" "[]"] by (auto simp: load_def foldE_append loadLine_def)
  next
    case 4
    then have "take k (recordLine r) = recordLine r" by (simp add: recordLine_def NL_def)
    then show ?thesis using assms(3) by (simp add: journalText_lines)
  qed
qed

end
