(* ===== verification/ReplaySafety.thy ===== *)
theory ReplaySafety
  imports ReplayJournal
begin

text \<open>
  The replay journal under faults, crashes and restarts. A process is either stopped, and then only the
  file is left, or running with its maps in memory. The theorems say that a claim that was granted once
  is refused until it expires, whatever the file system does and however often the process is restarted,
  and that a restart finds exactly the claims that are still alive.
\<close>

section \<open>Claims that expire\<close>

text \<open>
  The interface of a store of claims: operations with a time, some of which grant a claim on a key until
  an expiry. The store promises that a granted claim is held, and that a held claim survives every
  operation and refuses its key up to its expiry.
\<close>

inductive timed_run :: "('s \<Rightarrow> 'e \<Rightarrow> 's \<Rightarrow> bool) \<Rightarrow> ('e \<Rightarrow> int) \<Rightarrow> int \<Rightarrow> 's \<Rightarrow> 'e list \<Rightarrow> 's \<Rightarrow> bool"
  for step time where
  nil: "timed_run step time t s [] s"
| cons: "step s e s' \<Longrightarrow> t \<le> time e \<Longrightarrow> timed_run step time (time e) s' es s'' \<Longrightarrow> timed_run step time t s (e # es) s''"

inductive_cases timed_run_ConsE: "timed_run step time t s (e # es) s'"
inductive_cases timed_run_NilE: "timed_run step time t s [] s'"

lemma timed_run_append:
  "timed_run step time t s (es @ fs) s'' \<Longrightarrow>
   \<exists>t' s'. timed_run step time t s es s' \<and> t \<le> t' \<and> timed_run step time t' s' fs s''"
proof (induction es arbitrary: t s)
  case Nil
  then show ?case by (auto intro: timed_run.nil)
next
  case (Cons e es)
  from Cons.prems obtain s1 where "step s e s1" "t \<le> time e" "timed_run step time (time e) s1 (es @ fs) s''"
    by (auto elim: timed_run_ConsE)
  with Cons.IH show ?case by (meson order_trans timed_run.cons)
qed

lemma timed_run_times: "timed_run step time t s es s' \<Longrightarrow> e \<in> set es \<Longrightarrow> t \<le> time e"
  by (induction rule: timed_run.induct) auto

locale expiring_claims =
  fixes step :: "'s \<Rightarrow> 'e \<Rightarrow> 's \<Rightarrow> bool" and time :: "'e \<Rightarrow> int" and grant :: "'e \<Rightarrow> ('k \<times> int) option"
    and inv :: "int \<Rightarrow> 's \<Rightarrow> bool" and held :: "int \<Rightarrow> 's \<Rightarrow> 'k \<Rightarrow> int \<Rightarrow> bool"
  assumes inv_step: "step s e s' \<Longrightarrow> inv t s \<Longrightarrow> t \<le> time e \<Longrightarrow> inv (time e) s'"
    and grant_held: "step s e s' \<Longrightarrow> inv t s \<Longrightarrow> t \<le> time e \<Longrightarrow> grant e = Some (k, x) \<Longrightarrow> time e \<le> x \<Longrightarrow>
      held (time e) s' k x"
    and held_step: "step s e s' \<Longrightarrow> inv t s \<Longrightarrow> t \<le> time e \<Longrightarrow> held t s k x \<Longrightarrow> time e \<le> x \<Longrightarrow> held (time e) s' k x"
    and held_refuses: "step s e s' \<Longrightarrow> inv t s \<Longrightarrow> t \<le> time e \<Longrightarrow> held t s k x \<Longrightarrow> time e \<le> x \<Longrightarrow> grant e \<noteq> Some (k, y)"
    and inv_idle: "inv t s \<Longrightarrow> t \<le> t' \<Longrightarrow> inv t' s"
    and held_idle: "held t s k x \<Longrightarrow> t \<le> t' \<Longrightarrow> held t' s k x"
begin

lemma run_inv: "timed_run step time t s es s' \<Longrightarrow> inv t s \<Longrightarrow> \<exists>t'. inv t' s'"
  by (induction rule: timed_run.induct) (auto dest: inv_step)

lemma held_until_expiry:
  "timed_run step time t s es s' \<Longrightarrow> inv t s \<Longrightarrow> held t s k x \<Longrightarrow> e \<in> set es \<Longrightarrow> grant e = Some (k, y) \<Longrightarrow> x < time e"
proof (induction rule: timed_run.induct)
  case (cons s f s' t es s'')
  show ?case
  proof (cases "time f \<le> x")
    case True
    then have "e \<noteq> f" using held_refuses [OF cons.hyps(1) cons.prems(1) cons.hyps(2) cons.prems(2)] cons.prems(4) by auto
    with cons.prems True cons.IH inv_step [OF cons.hyps(1) cons.prems(1) cons.hyps(2)]
      held_step [OF cons.hyps(1) cons.prems(1) cons.hyps(2) cons.prems(2)]
    show ?thesis by auto
  next
    case False
    then show ?thesis using timed_run_times [OF cons.hyps(3), of e] cons.prems(3) by force
  qed
qed simp

text \<open>Several operations at one moment act as one.\<close>

lemma moment_inv:
  "timed_run step time t s es s' \<Longrightarrow> inv t s \<Longrightarrow> \<forall>e \<in> set es. time e = t' \<Longrightarrow> t \<le> t' \<Longrightarrow> inv t' s'"
  by (induction rule: timed_run.induct) (auto intro: inv_idle inv_step)

lemma moment_held:
  "timed_run step time t s es s' \<Longrightarrow> inv t s \<Longrightarrow> held t s k x \<Longrightarrow> \<forall>e \<in> set es. time e = t' \<Longrightarrow> t \<le> t' \<Longrightarrow> t' \<le> x \<Longrightarrow> held t' s' k x"
  by (induction rule: timed_run.induct) (auto intro: held_idle inv_step held_step)

lemma moment_grant:
  "timed_run step time t s es s' \<Longrightarrow> inv t s \<Longrightarrow> \<forall>e \<in> set es. time e = t' \<Longrightarrow> t' \<le> x \<Longrightarrow> e \<in> set es \<Longrightarrow>
   grant e = Some (k, x) \<Longrightarrow> held t' s' k x"
proof (induction rule: timed_run.induct)
  case (cons s f s' t es s'')
  have f: "time f = t'" "inv t' s'" using cons.prems(2) inv_step [OF cons.hyps(1) cons.prems(1) cons.hyps(2)] by auto
  show ?case
  proof (cases "e \<in> set es")
    case True
    with cons.IH cons.prems f show ?thesis by simp
  next
    case False
    with cons.prems have "grant f = Some (k, x)" by auto
    then have "held t' s' k x" using grant_held [OF cons.hyps(1) cons.prems(1) cons.hyps(2)] cons.prems(3) f by simp
    with cons.hyps(3) cons.prems f show ?thesis by (auto intro: moment_held)
  qed
qed simp

lemma grants_separated:
  assumes run: "timed_run step time t s (es @ e # fs) s'" and i: "inv t s"
    and g: "grant e = Some (k, x)" and f: "f \<in> set fs" "grant f = Some (k, y)"
  shows "x < time f"
  using run i
proof (induction es arbitrary: t s)
  case Nil
  then obtain s1 where s1: "step s e s1" "t \<le> time e" "timed_run step time (time e) s1 fs s'" by (auto elim: timed_run_ConsE)
  show ?case
  proof (cases "time e \<le> x")
    case True
    with s1 Nil.prems g have "held (time e) s1 k x" by (blast intro: grant_held)
    with s1 Nil.prems f show ?thesis by (blast intro: held_until_expiry inv_step)
  next
    case False
    then show ?thesis using timed_run_times [OF s1(3) f(1)] by simp
  qed
next
  case (Cons d es)
  then obtain s1 where s1: "step s d s1" "t \<le> time d" "timed_run step time (time d) s1 (es @ e # fs) s'"
    by (auto elim: timed_run_ConsE)
  with Cons.prems(2) show ?case by (blast intro: Cons.IH inv_step)
qed

end

section \<open>Live entries\<close>

abbreviation requestExpiry :: "string \<times> string \<times> int \<Rightarrow> int" where
  "requestExpiry \<equiv> \<lambda>x. snd (snd x)"

definition live :: "('a \<Rightarrow> int) \<Rightarrow> int \<Rightarrow> 'a list \<Rightarrow> 'a list" where
  "live f t xs = filter (\<lambda>x. t \<le> f x) xs"

lemma live_later: "t \<le> t' \<Longrightarrow> live f t' (live f t xs) = live f t' xs"
  by (auto simp: live_def intro: filter_cong)

lemma live_same: "live f t (live f t xs) = live f t xs"
  by (simp add: live_later)

lemma live_append [simp]: "live f t (xs @ ys) = live f t xs @ live f t ys"
  by (simp add: live_def)

lemma set_live [simp]: "x \<in> set (live f t xs) \<longleftrightarrow> x \<in> set xs \<and> t \<le> f x"
  by (auto simp: live_def)

lemma live_eq_later: "t \<le> t' \<Longrightarrow> live f t xs = live f t ys \<Longrightarrow> live f t' xs = live f t' ys"
  by (metis live_later)

lemma distinct_live: "distinct (map fst xs) \<Longrightarrow> distinct (map fst (live f t xs))"
  by (simp add: live_def distinct_map_filter)

fun nonceEntries :: "ReplayRecordV2 list \<Rightarrow> (string \<times> int) list" where
  "nonceEntries [] = []"
| "nonceEntries (NonceRecordV2 k e # rs) = (k, e) # nonceEntries rs"
| "nonceEntries (RequestRecordV2 k c e # rs) = nonceEntries rs"

fun requestEntries :: "ReplayRecordV2 list \<Rightarrow> (string \<times> string \<times> int) list" where
  "requestEntries [] = []"
| "requestEntries (NonceRecordV2 k e # rs) = requestEntries rs"
| "requestEntries (RequestRecordV2 k c e # rs) = (k, c, e) # requestEntries rs"

lemma entries_append [simp]:
  "nonceEntries (xs @ ys) = nonceEntries xs @ nonceEntries ys"
  "requestEntries (xs @ ys) = requestEntries xs @ requestEntries ys"
  by (induction xs rule: nonceEntries.induct) simp_all

lemma entries_active [simp]:
  "nonceEntries (activeRecords j) = rj_nonces j" "requestEntries (activeRecords j) = rj_requests j"
proof -
  have "nonceEntries (map (\<lambda>(k, e). NonceRecordV2 k e) ns) = ns" "requestEntries (map (\<lambda>(k, e). NonceRecordV2 k e) ns) = []" for ns
    by (induction ns) auto
  moreover have "nonceEntries (map (\<lambda>(k, c, e). RequestRecordV2 k c e) rs) = []"
    "requestEntries (map (\<lambda>(k, c, e). RequestRecordV2 k c e) rs) = rs" for rs by (induction rs) auto
  ultimately show "nonceEntries (activeRecords j) = rj_nonces j" "requestEntries (activeRecords j) = rj_requests j"
    by (simp_all add: activeRecords_def)
qed

lemma load_records:
  assumes "distinct (map fst ns)" "distinct (map fst rs)"
  shows "foldE (loadRecord t) (ns, rs) recs = Inr (ns', rs') \<longleftrightarrow>
    ns' = ns @ live snd t (nonceEntries recs) \<and> rs' = rs @ live requestExpiry t (requestEntries recs) \<and>
    distinct (map fst ns') \<and> distinct (map fst rs')"
  using assms
proof (induction recs arbitrary: ns rs)
  case Nil
  then show ?case by (auto simp: live_def)
next
  case (Cons r recs)
  show ?case
  proof (cases r)
    case (NonceRecordV2 k e)
    show ?thesis
    proof (cases "e < t \<or> k \<in> fst ` set ns")
      case True
      then show ?thesis using Cons by (auto simp: NonceRecordV2 loadNonce_def list_ex_iff live_def rev_image_eqI)
    next
      case False
      then have "foldE (loadRecord t) (ns, rs) (r # recs) = foldE (loadRecord t) (ns @ [(k, e)], rs) recs"
        by (auto simp: NonceRecordV2 loadNonce_def list_ex_iff)
      with False Cons.IH [of "ns @ [(k, e)]" rs] Cons.prems show ?thesis by (auto simp: NonceRecordV2 live_def)
    qed
  next
    case (RequestRecordV2 k c e)
    show ?thesis
    proof (cases "e < t \<or> k \<in> fst ` set rs")
      case True
      then show ?thesis using Cons by (auto simp: RequestRecordV2 loadRequest_def list_ex_iff live_def rev_image_eqI)
    next
      case False
      then have "foldE (loadRecord t) (ns, rs) (r # recs) = foldE (loadRecord t) (ns, rs @ [(k, c, e)]) recs"
        by (auto simp: RequestRecordV2 loadRequest_def list_ex_iff)
      with False Cons.IH [of ns "rs @ [(k, c, e)]"] Cons.prems show ?thesis by (auto simp: RequestRecordV2 live_def)
    qed
  qed
qed

lemma load_text:
  "list_all wfRecord recs \<Longrightarrow> load hmac token t (journalText recs) = Inr (ns, rs) \<longleftrightarrow>
    ns = live snd t (nonceEntries recs) \<and> rs = live requestExpiry t (requestEntries recs) \<and>
    distinct (map fst ns) \<and> distinct (map fst rs)"
  by (simp add: load_journal load_records)

section \<open>What a file holds\<close>

text \<open>Whatever time up to its expiry the node is started at, it finds the claim, or does not start.\<close>

definition nonceOnFile :: "(string \<Rightarrow> string \<Rightarrow> string) \<Rightarrow> string \<Rightarrow> int \<Rightarrow> string \<Rightarrow> string \<Rightarrow> int \<Rightarrow> bool" where
  "nonceOnFile hmac token t file k x \<longleftrightarrow>
     (\<forall>t' ns rs. t \<le> t' \<and> t' \<le> x \<and> load hmac token t' file = Inr (ns, rs) \<longrightarrow> (k, x) \<in> set ns)"

definition requestOnFile :: "(string \<Rightarrow> string \<Rightarrow> string) \<Rightarrow> string \<Rightarrow> int \<Rightarrow> string \<Rightarrow> string \<Rightarrow> int \<Rightarrow> bool" where
  "requestOnFile hmac token t file k x \<longleftrightarrow>
     (\<forall>t' ns rs. t \<le> t' \<and> t' \<le> x \<and> load hmac token t' file = Inr (ns, rs) \<longrightarrow> (\<exists>c. (k, c, x) \<in> set rs))"

text \<open>The files a run can leave: whole lines, then possibly a part of one line.\<close>

definition tornText :: "ReplayRecordV2 list \<Rightarrow> string \<Rightarrow> bool" where
  "tornText recs file \<longleftrightarrow> list_all wfRecord recs \<and> (\<exists>r n. wfRecord r \<and> file = journalText recs @ take n (recordLine r))"

lemma tornText_load:
  assumes "tornText recs file" "load hmac token t file = Inr (ns, rs)"
  shows "set (live snd t (nonceEntries recs)) \<subseteq> set ns \<and> set (live requestExpiry t (requestEntries recs)) \<subseteq> set rs"
proof -
  from assms(1) obtain r n where r: "list_all wfRecord recs" "wfRecord r" "file = journalText recs @ take n (recordLine r)"
    by (auto simp: tornText_def)
  then have "list_all wfRecord (recs @ [r])" by simp
  with load_torn [OF r(1,2)] assms(2) r(1,3) load_text [of recs] load_text [of "recs @ [r]"] show ?thesis by fastforce
qed

lemma tornText_nonce: "tornText recs file \<Longrightarrow> (k, x) \<in> set (nonceEntries recs) \<Longrightarrow> nonceOnFile hmac token t file k x"
  using tornText_load by (force simp: nonceOnFile_def)

lemma tornText_request: "tornText recs file \<Longrightarrow> (k, c, x) \<in> set (requestEntries recs) \<Longrightarrow> requestOnFile hmac token t file k x"
  using tornText_load by (force simp: requestOnFile_def)

lemma journalText_torn: "list_all wfRecord recs \<Longrightarrow> tornText recs (journalText recs)"
proof -
  have "wfRecord (NonceRecordV2 (replicate 64 (CHR ''0'')) 0)"
    by (simp add: isSha256_def MAX_SAFE_INTEGER_def list_all_iff) (simp add: isHexChar_def is_digit_def)
  then show "list_all wfRecord recs \<Longrightarrow> tornText recs (journalText recs)"
    unfolding tornText_def by (metis append_Nil2 take0)
qed

section \<open>Healthy journals\<close>

definition matches :: "int \<Rightarrow> PersistentReplayJournal \<Rightarrow> ReplayRecordV2 list \<Rightarrow> bool" where
  "matches t j recs \<longleftrightarrow> list_all wfRecord recs \<and>
     live snd t (rj_nonces j) = live snd t (nonceEntries recs) \<and>
     live requestExpiry t (rj_requests j) = live requestExpiry t (requestEntries recs) \<and>
     distinct (map fst (rj_nonces j)) \<and> distinct (map fst (rj_requests j))"

definition clean :: "int \<Rightarrow> PersistentReplayJournal \<Rightarrow> bool" where
  "clean t j \<longleftrightarrow> (\<exists>recs. rj_file j = journalText recs \<and> matches t j recs)"

lemma matches_later: "matches t j recs \<Longrightarrow> t \<le> t' \<Longrightarrow> matches t' j recs"
  by (auto simp: matches_def intro: live_eq_later)

lemma clean_later: "clean t j \<Longrightarrow> t \<le> t' \<Longrightarrow> clean t' j"
  by (auto simp: clean_def intro: matches_later)

lemma prune_live:
  "rj_nonces (prune t j) = live snd t (rj_nonces j)" "rj_requests (prune t j) = live requestExpiry t (rj_requests j)"
  "rj_file (prune t j) = rj_file j" "rj_terminalFailure (prune t j) = rj_terminalFailure j"
  by (auto simp: prune_def live_def intro!: filter_cong)

lemma matches_prune: "matches t j recs \<Longrightarrow> t \<le> t' \<Longrightarrow> matches t' (prune t' j) recs"
  using matches_later [of t j recs t'] distinct_live [of "rj_nonces j" snd t'] distinct_live [of "rj_requests j" requestExpiry t']
  by (auto simp: matches_def prune_live live_same)

lemma matches_cong:
  "matches t j recs \<Longrightarrow> rj_nonces j' = rj_nonces j \<Longrightarrow> rj_requests j' = rj_requests j \<Longrightarrow> matches t j' recs"
  by (simp add: matches_def)

lemma wf_entries:
  assumes "list_all wfRecord recs"
  shows "(k, e) \<in> set (nonceEntries recs) \<Longrightarrow> wfRecord (NonceRecordV2 k e)"
    and "(k, c, e) \<in> set (requestEntries recs) \<Longrightarrow> wfRecord (RequestRecordV2 k c e)"
  using assms by (induction recs rule: nonceEntries.induct) auto

lemma wf_active:
  assumes "matches t j recs"
  shows "list_all wfRecord (activeRecords (prune t j))"
proof -
  have "(k, e) \<in> set (rj_nonces (prune t j)) \<Longrightarrow> (k, e) \<in> set (nonceEntries recs)"
    "(k, c, e) \<in> set (rj_requests (prune t j)) \<Longrightarrow> (k, c, e) \<in> set (requestEntries recs)" for k c e
    using assms by (metis matches_def prune_live(1) set_live) (metis assms matches_def prune_live(2) set_live)
  with wf_entries [of recs] assms show ?thesis
    by (fastforce simp: activeRecords_def list_all_iff matches_def simp del: wfRecord.simps)
qed

lemma matches_active: "matches t j recs \<Longrightarrow> matches t (prune t j) (activeRecords (prune t j))"
  using wf_active [of t j recs] matches_prune [of t j recs t] by (simp add: matches_def)

lemma compact_cases:
  assumes "compact io t j = (j', r)"
  shows "rj_nonces j' = rj_nonces (prune t j) \<and> rj_requests j' = rj_requests (prune t j) \<and>
    rj_terminalFailure j' = rj_terminalFailure j \<and> rj_file j' \<in> {rj_file j, journalText (activeRecords (prune t j))} \<and>
    (r = Inr () \<longrightarrow> rj_file j' = journalText (activeRecords (prune t j)))"
  using assms by (auto simp: compact_def Let_def prune_live split: if_splits CompactIo.splits)

lemma compact_clean:
  assumes "compact io t j = (j', r)" "clean t0 j" "t0 \<le> t"
  shows "clean t j' \<and> rj_terminalFailure j' = rj_terminalFailure j \<and>
    rj_nonces j' = live snd t (rj_nonces j) \<and> rj_requests j' = live requestExpiry t (rj_requests j)"
proof -
  note c = compact_cases [OF assms(1)]
  from assms(2) obtain recs where recs: "rj_file j = journalText recs" "matches t0 j recs" by (auto simp: clean_def)
  have "matches t (prune t j) recs" "matches t (prune t j) (activeRecords (prune t j))"
    using matches_prune [OF recs(2) assms(3)] matches_active [OF matches_later [OF recs(2) assms(3)]] by blast+
  with c recs(1) have "clean t j'" unfolding clean_def by (metis insertE matches_cong singletonD)
  with c show ?thesis by (simp add: prune_live)
qed

text \<open>
  A line is written whole, or the journal is poisoned with a part of the line on disk.
\<close>

lemma writeLine_cases:
  assumes "writeLine io (recordLine r) j = (j', res)" "wfRecord r"
  shows "rj_nonces j' = rj_nonces j \<and> rj_requests j' = rj_requests j \<and>
    (if res = Inr () then rj_file j' = rj_file j @ recordLine r \<and> rj_terminalFailure j' = rj_terminalFailure j
     else rj_terminalFailure j' \<and> (\<exists>n. rj_file j' = rj_file j @ take n (recordLine r)))"
proof (cases "io_open io")
  case True
  obtain ps ok where w: "writeAll (io_write io) 0 (recordLine r) = (ps, ok)" by fastforce
  from writeAll_result [OF w] obtain rest where r: "recordLine r = concat ps @ rest" "ok \<longleftrightarrow> rest = []" by auto
  have "concat ps = take (length (concat ps)) (recordLine r)" by (simp add: r(1))
  moreover have "ok \<Longrightarrow> concat ps = recordLine r" using r by simp
  ultimately show ?thesis using assms(1) True w by (auto simp: writeLine_def poison_def Let_def split: if_splits)
next
  case False
  with assms(1) have "rj_file j' = rj_file j @ take 0 (recordLine r)" by (auto simp: writeLine_def poison_def)
  with False assms(1) show ?thesis unfolding writeLine_def poison_def by (auto intro: exI [of _ "0 :: nat"])
qed

lemma append_cases:
  assumes "appendRecord io r t j = (j', res)" "clean t0 j" "t0 \<le> t" "wfRecord r"
  shows "\<exists>j1 recs. rj_nonces j1 = rj_nonces j' \<and> rj_requests j1 = rj_requests j' \<and> matches t j1 recs \<and>
    set (live snd t (rj_nonces j)) \<subseteq> set (rj_nonces j') \<and> set (live requestExpiry t (rj_requests j)) \<subseteq> set (rj_requests j') \<and>
    set (rj_nonces j') \<subseteq> set (rj_nonces j) \<and> set (rj_requests j') \<subseteq> set (rj_requests j) \<and>
    (if res = Inr () then rj_file j' = journalText (recs @ [r]) \<and> rj_terminalFailure j' = rj_terminalFailure j
     else rj_terminalFailure j' \<and> tornText recs (rj_file j'))"
proof -
  have whole: ?thesis if "poison j1 = (j', res)" "clean t j1" "set (live snd t (rj_nonces j)) \<subseteq> set (rj_nonces j1)"
    "set (live requestExpiry t (rj_requests j)) \<subseteq> set (rj_requests j1)"
    "set (rj_nonces j1) \<subseteq> set (rj_nonces j)" "set (rj_requests j1) \<subseteq> set (rj_requests j)" for j1
  proof -
    from that(2) obtain recs where "rj_file j1 = journalText recs" "matches t j1 recs" by (auto simp: clean_def)
    with that show ?thesis by (auto simp: poison_def matches_def intro!: journalText_torn exI [of _ j1] exI [of _ recs])
  qed
  have line: ?thesis if "writeLine io (recordLine r) j1 = (j', res)" "clean t j1" "rj_terminalFailure j1 = rj_terminalFailure j"
    "set (live snd t (rj_nonces j)) \<subseteq> set (rj_nonces j1)" "set (live requestExpiry t (rj_requests j)) \<subseteq> set (rj_requests j1)"
    "set (rj_nonces j1) \<subseteq> set (rj_nonces j)" "set (rj_requests j1) \<subseteq> set (rj_requests j)" for j1
  proof -
    from that(2) obtain recs where "rj_file j1 = journalText recs" "matches t j1 recs" by (auto simp: clean_def)
    with writeLine_cases [OF that(1) assms(4)] that(3-7) assms(4) show ?thesis
      by (intro exI [of _ j1] exI [of _ recs]) (auto simp: matches_def tornText_def journalText_lines)
  qed
  have now: "clean t j" using assms(2,3) by (rule clean_later)
  have sub: "set (live snd t (rj_nonces j)) \<subseteq> set (rj_nonces j)"
    "set (live requestExpiry t (rj_requests j)) \<subseteq> set (rj_requests j)" by auto
  consider "poison j = (j', res)" | "writeLine io (recordLine r) j = (j', res)"
    | j1 x where "compact (io_compact io) t j = (j1, x)" "poison j1 = (j', res) \<or> writeLine io (recordLine r) j1 = (j', res)"
    using assms(1) by (auto simp: appendRecord_def Let_def split: if_splits prod.splits sum.splits)
  then show ?thesis
  proof cases
    case 1
    then show ?thesis using whole now sub by blast
  next
    case 2
    then show ?thesis using line now sub by blast
  next
    case 3
    note c = compact_clean [OF 3(1) assms(2,3)]
    then have "set (live snd t (rj_nonces j)) \<subseteq> set (rj_nonces j1)"
      "set (live requestExpiry t (rj_requests j)) \<subseteq> set (rj_requests j1)"
      "set (rj_nonces j1) \<subseteq> set (rj_nonces j)" "set (rj_requests j1) \<subseteq> set (rj_requests j)" by auto
    with c 3(2) whole [of j1] line [of j1] show ?thesis by blast
  qed
qed

section \<open>Operations keep the live claims\<close>

definition keepsClaims :: "int \<Rightarrow> PersistentReplayJournal \<Rightarrow> PersistentReplayJournal \<Rightarrow> bool" where
  "keepsClaims t j j' \<longleftrightarrow>
     (if rj_terminalFailure j' then
        (\<exists>recs. tornText recs (rj_file j') \<and> set (live snd t (rj_nonces j)) \<subseteq> set (nonceEntries recs) \<and>
           set (live requestExpiry t (rj_requests j)) \<subseteq> set (requestEntries recs))
      else clean t j' \<and> set (live snd t (rj_nonces j)) \<subseteq> set (rj_nonces j') \<and>
        set (live requestExpiry t (rj_requests j)) \<subseteq> set (rj_requests j'))"

lemma matches_entries:
  "matches t j recs \<Longrightarrow> set (live snd t (rj_nonces j)) \<subseteq> set (nonceEntries recs) \<and>
    set (live requestExpiry t (rj_requests j)) \<subseteq> set (requestEntries recs)"
  by (auto simp: matches_def)

lemma keeps_poisoned:
  assumes "clean t j1" "set (live snd t (rj_nonces j)) \<subseteq> set (rj_nonces j1)"
    "set (live requestExpiry t (rj_requests j)) \<subseteq> set (rj_requests j1)"
  shows "keepsClaims t j (j1\<lparr>rj_terminalFailure := True\<rparr>)"
proof -
  from assms(1) obtain recs where r: "rj_file j1 = journalText recs" "matches t j1 recs" by (auto simp: clean_def)
  have "set (live snd t (rj_nonces j)) \<subseteq> set (live snd t (rj_nonces j1))"
    "set (live requestExpiry t (rj_requests j)) \<subseteq> set (live requestExpiry t (rj_requests j1))" using assms(2,3) by auto
  with matches_entries [OF r(2)] have "set (live snd t (rj_nonces j)) \<subseteq> set (nonceEntries recs)"
    "set (live requestExpiry t (rj_requests j)) \<subseteq> set (requestEntries recs)" by blast+
  with r show ?thesis by (auto simp: keepsClaims_def matches_def intro!: journalText_torn exI [of _ recs])
qed

lemma compactStep_keeps:
  assumes "(case compact io t j of (j1, Inl e) \<Rightarrow> poison j1 | (j1, Inr u) \<Rightarrow> (j1, Inr ())) = (j', res)"
    "clean t0 j" "t0 \<le> t" "\<not> rj_terminalFailure j"
  shows "keepsClaims t j j' \<and> (res = Inr () \<longrightarrow> \<not> rj_terminalFailure j' \<and> clean t j' \<and>
    rj_nonces j' = live snd t (rj_nonces j) \<and> rj_requests j' = live requestExpiry t (rj_requests j))"
proof -
  obtain j1 x where c: "compact io t j = (j1, x)" by fastforce
  note cc = compact_clean [OF c assms(2,3)]
  show ?thesis
  proof (cases x)
    case (Inl e)
    then have "j' = j1\<lparr>rj_terminalFailure := True\<rparr>" "res \<noteq> Inr ()" using assms(1) c by (auto simp: poison_def)
    with cc keeps_poisoned [of t j1 j] show ?thesis by simp
  next
    case (Inr u)
    then have "j' = j1" using assms(1) c by simp
    with cc assms(4) show ?thesis by (auto simp: keepsClaims_def)
  qed
qed

lemma maybeCompact_keeps:
  assumes "maybeCompactAfterAppend io t j = (j', res)" "clean t j" "\<not> rj_terminalFailure j"
  shows "keepsClaims t j j' \<and> (res = Inr () \<longrightarrow> \<not> rj_terminalFailure j' \<and>
    set (live snd t (rj_nonces j)) \<subseteq> set (rj_nonces j') \<and> set (live requestExpiry t (rj_requests j)) \<subseteq> set (rj_requests j'))"
proof -
  have self: "set (live snd t (rj_nonces j)) \<subseteq> set (rj_nonces j)"
    "set (live requestExpiry t (rj_requests j)) \<subseteq> set (rj_requests j)" by auto
  define c where "c = (case compact (io_later io) t j of (j1, Inl e) \<Rightarrow> poison j1 | (j1, Inr u) \<Rightarrow> (j1, Inr ()))"
  have "maybeCompactAfterAppend io t j \<in> {poison j, (j, Inr ()), c}"
    unfolding maybeCompactAfterAppend_def Let_def c_def [symmetric] by simp
  with assms(1) consider "(j', res) = poison j" | "(j', res) = (j, Inr ())" | "c = (j', res)" by auto
  then show ?thesis
  proof cases
    case 1
    with keeps_poisoned [OF assms(2) self] show ?thesis by (simp add: poison_def)
  next
    case 2
    with assms self show ?thesis by (simp add: keepsClaims_def)
  next
    case 3
    from compactStep_keeps [OF 3 [unfolded c_def] assms(2) order_refl assms(3)] show ?thesis by auto
  qed
qed

lemma keeps_trans:
  assumes "set (live snd t (rj_nonces j)) \<subseteq> set (rj_nonces j1)" "set (live requestExpiry t (rj_requests j)) \<subseteq> set (rj_requests j1)"
    "keepsClaims t j1 j'"
  shows "keepsClaims t j j'"
proof -
  have "set (live snd t (rj_nonces j)) \<subseteq> set (live snd t (rj_nonces j1))"
    "set (live requestExpiry t (rj_requests j)) \<subseteq> set (live requestExpiry t (rj_requests j1))" using assms(1,2) by auto
  with assms(3) show ?thesis unfolding keepsClaims_def by (meson subset_trans)
qed

lemma keeps_torn:
  assumes "rj_terminalFailure j'" "tornText recs (rj_file j')" "matches t j1 recs"
    "set (live snd t (rj_nonces j)) \<subseteq> set (rj_nonces j1)" "set (live requestExpiry t (rj_requests j)) \<subseteq> set (rj_requests j1)"
  shows "keepsClaims t j j'"
proof -
  have "set (live snd t (rj_nonces j)) \<subseteq> set (live snd t (rj_nonces j1))"
    "set (live requestExpiry t (rj_requests j)) \<subseteq> set (live requestExpiry t (rj_requests j1))" using assms(4,5) by auto
  with matches_entries [OF assms(3)] assms(1,2) show ?thesis unfolding keepsClaims_def by (meson subset_trans)
qed

lemma mapSet_fresh: "k \<notin> fst ` set xs \<Longrightarrow> mapSet k v xs = xs @ [(k, v)]"
  by (auto simp: mapSet_def list_ex_iff rev_image_eqI)

lemma map_of_overwrite:
  "map_of (map (\<lambda>e. if fst e = k then (k, v) else e) xs) j = (if j = k then (if list_ex (\<lambda>e. fst e = k) xs then Some v else None) else map_of xs j)"
  by (induction xs) auto

lemma map_of_mapSet: "map_of (mapSet k v xs) j = (if j = k then Some v else map_of xs j)"
proof -
  have "\<not> list_ex (\<lambda>e. fst e = k) xs \<Longrightarrow> map_of xs k = None" by (auto simp: map_of_eq_None_iff list_ex_iff)
  then show ?thesis by (auto simp: mapSet_def map_of_overwrite map_add_def split: option.splits)
qed

lemma clean_prune: "clean t0 j \<Longrightarrow> t0 \<le> t \<Longrightarrow> clean t (prune t j)"
  by (auto simp: clean_def prune_live intro: matches_prune)

lemma keeps_prune: "clean t0 j \<Longrightarrow> t0 \<le> t \<Longrightarrow> \<not> rj_terminalFailure j \<Longrightarrow> keepsClaims t j (prune t j)"
  by (auto simp: keepsClaims_def clean_prune prune_live)

lemma claimed_nonce:
  assumes "rj_file j = journalText (recs @ [NonceRecordV2 k x])" "matches t j recs" "k \<notin> fst ` set (rj_nonces j)"
    "wfRecord (NonceRecordV2 k x)"
  shows "clean t (j\<lparr>rj_nonces := mapSet k x (rj_nonces j)\<rparr>)"
proof -
  have "matches t (j\<lparr>rj_nonces := mapSet k x (rj_nonces j)\<rparr>) (recs @ [NonceRecordV2 k x])"
    using assms by (simp add: matches_def mapSet_fresh)
  with assms(1) show ?thesis unfolding clean_def by (metis PersistentReplayJournal.ext_inject PersistentReplayJournal.surjective PersistentReplayJournal.update_convs(2))
qed

lemma claimed_request:
  assumes "rj_file j = journalText (recs @ [RequestRecordV2 k c x])" "matches t j recs" "k \<notin> fst ` set (rj_requests j)"
    "wfRecord (RequestRecordV2 k c x)"
  shows "clean t (j\<lparr>rj_requests := mapSet k (c, x) (rj_requests j)\<rparr>)"
proof -
  have "matches t (j\<lparr>rj_requests := mapSet k (c, x) (rj_requests j)\<rparr>) (recs @ [RequestRecordV2 k c x])"
    using assms by (simp add: matches_def mapSet_fresh)
  with assms(1) show ?thesis unfolding clean_def by (metis PersistentReplayJournal.ext_inject PersistentReplayJournal.surjective PersistentReplayJournal.update_convs(3))
qed

text \<open>Append, record in memory, compact when due: the common part of the two claims.\<close>

lemma append_shrinks:
  assumes "appendRecord io r t j1 = (j2, x2)" "clean t j1" "wfRecord r"
  shows "set (rj_nonces j2) \<subseteq> set (rj_nonces j1)" "set (rj_requests j2) \<subseteq> set (rj_requests j1)"
  using append_cases [OF assms(1,2) order_refl assms(3)] by auto

lemma append_claim_keeps:
  assumes ap: "appendRecord io r t j1 = (j2, x2)" and j1: "clean t j1" "\<not> rj_terminalFailure j1" and wf: "wfRecord r"
    and run: "(j', res) = (case (j2, x2) of (j2, Inl e) \<Rightarrow> (j2, Inl e) | (j2, Inr u) \<Rightarrow> maybeCompactAfterAppend io t (set_map j2))"
    and set_map: "\<And>recs. matches t j2 recs \<Longrightarrow> rj_file j2 = journalText (recs @ [r]) \<Longrightarrow> clean t (set_map j2)"
      "rj_terminalFailure (set_map j2) = rj_terminalFailure j2"
      "set (rj_nonces j2) \<subseteq> set (rj_nonces (set_map j2))" "set (rj_requests j2) \<subseteq> set (rj_requests (set_map j2))"
  shows "keepsClaims t j1 j' \<and> (res = Inr () \<longrightarrow> \<not> rj_terminalFailure j' \<and>
    set (live snd t (rj_nonces (set_map j2))) \<subseteq> set (rj_nonces j') \<and>
    set (live requestExpiry t (rj_requests (set_map j2))) \<subseteq> set (rj_requests j'))"
proof -
  from append_cases [OF ap j1(1) order_refl wf] obtain m recs where
    m: "rj_nonces m = rj_nonces j2" "rj_requests m = rj_requests j2" "matches t m recs"
      "set (live snd t (rj_nonces j1)) \<subseteq> set (rj_nonces j2)" "set (live requestExpiry t (rj_requests j1)) \<subseteq> set (rj_requests j2)"
      "if x2 = Inr () then rj_file j2 = journalText (recs @ [r]) \<and> rj_terminalFailure j2 = rj_terminalFailure j1
       else rj_terminalFailure j2 \<and> tornText recs (rj_file j2)" by auto
  have m2: "matches t j2 recs" using m(1-3) by (simp add: matches_def)
  show ?thesis
  proof (cases x2)
    case (Inl e)
    then have "j' = j2" "res \<noteq> Inr ()" using run by auto
    with Inl m(6) keeps_torn [OF _ _ m2 m(4,5)] show ?thesis by simp
  next
    case (Inr u)
    then have "clean t (set_map j2)" "\<not> rj_terminalFailure (set_map j2)" using m(6) j1(2) set_map(1) [OF m2] set_map(2) by simp_all
    moreover have "maybeCompactAfterAppend io t (set_map j2) = (j', res)" using run Inr by simp
    ultimately have k: "keepsClaims t (set_map j2) j' \<and> (res = Inr () \<longrightarrow> \<not> rj_terminalFailure j' \<and>
        set (live snd t (rj_nonces (set_map j2))) \<subseteq> set (rj_nonces j') \<and>
        set (live requestExpiry t (rj_requests (set_map j2))) \<subseteq> set (rj_requests j'))" by (blast dest: maybeCompact_keeps)
    have "set (live snd t (rj_nonces j1)) \<subseteq> set (rj_nonces (set_map j2))"
      "set (live requestExpiry t (rj_requests j1)) \<subseteq> set (rj_requests (set_map j2))" using m(4,5) set_map(3,4) by blast+
    with k show ?thesis by (blast intro: keeps_trans)
  qed
qed

lemma keeps_from_prune: "keepsClaims t (prune t j) j' \<Longrightarrow> keepsClaims t j j'"
  by (simp only: keepsClaims_def prune_live live_same)

lemma claimNonce_keeps:
  assumes run: "claimNonce sha256 io nonce x t j = (j', res)"
    and c: "clean t0 j" "t0 \<le> t" "\<not> rj_terminalFailure j" and wf: "isSha256 (sha256 nonce)" "0 \<le> x" "x \<le> MAX_SAFE_INTEGER"
  shows "keepsClaims t j j' \<and> (res = Inr () \<longrightarrow> \<not> rj_terminalFailure j' \<and>
    (t \<le> x \<longrightarrow> (sha256 nonce, x) \<in> set (rj_nonces j')) \<and> (\<forall>e. (sha256 nonce, e) \<in> set (rj_nonces j) \<longrightarrow> e < t))"
proof -
  let ?k = "sha256 nonce" and ?j1 = "prune t j"
  have j1: "clean t ?j1" "\<not> rj_terminalFailure ?j1" using c by (simp_all add: clean_prune prune_live)
  define blocked where "blocked \<longleftrightarrow> (case map_of (rj_nonces ?j1) ?k of Some e \<Rightarrow> e | None \<Rightarrow> - 1) \<ge> t"
  obtain j2 x2 where ap: "appendRecord io (NonceRecordV2 ?k x) t ?j1 = (j2, x2)" by fastforce
  let ?set = "\<lambda>j. j\<lparr>rj_nonces := mapSet ?k x (rj_nonces j)\<rparr>"
  have go: "claimNonce sha256 io nonce x t j = (if blocked then (?j1, Inl (SupplierNodeError REPLAY_DETECTED 409 False))
      else (case (j2, x2) of (j2, Inl e) \<Rightarrow> (j2, Inl e) | (j2, Inr u) \<Rightarrow> maybeCompactAfterAppend io t (?set j2)))"
    using c(3) ap by (simp add: claimNonce_def blocked_def)
  show ?thesis
  proof (cases blocked)
    case True
    then show ?thesis using run go keeps_prune [OF c] by auto
  next
    case False
    have old: "e < t" if "(?k, e) \<in> set (rj_nonces j)" for e
    proof (rule ccontr)
      assume "\<not> e < t"
      with that obtain e' where "map_of (rj_nonces ?j1) ?k = Some e'" using weak_map_of_SomeI [of ?k e "rj_nonces ?j1"] by (auto simp: prune_live)
      moreover have "t \<le> e'" using map_of_SomeD [OF calculation] by (simp add: prune_live)
      ultimately show False using False by (simp add: blocked_def)
    qed
    have r: "wfRecord (NonceRecordV2 ?k x)" using wf by simp
    have "?k \<notin> fst ` set (rj_nonces ?j1)" using old by (force simp: prune_live)
    then have f2: "?k \<notin> fst ` set (rj_nonces j2)" using append_shrinks(1) [OF ap j1(1) r] by blast
    from run go False have "(j', res) = (case (j2, x2) of (j2, Inl e) \<Rightarrow> (j2, Inl e) | (j2, Inr u) \<Rightarrow> maybeCompactAfterAppend io t (?set j2))"
      by simp
    moreover have "clean t (?set j2)" if "matches t j2 recs" "rj_file j2 = journalText (recs @ [NonceRecordV2 ?k x])" for recs
      using that f2 r by (blast intro: claimed_nonce)
    ultimately have "keepsClaims t ?j1 j' \<and> (res = Inr () \<longrightarrow> \<not> rj_terminalFailure j' \<and>
        set (live snd t (rj_nonces (?set j2))) \<subseteq> set (rj_nonces j') \<and>
        set (live requestExpiry t (rj_requests (?set j2))) \<subseteq> set (rj_requests j'))"
      using f2 by (intro append_claim_keeps [OF ap j1 r]) (auto simp: mapSet_fresh)
    then show ?thesis using f2 old keeps_from_prune by (auto simp: mapSet_fresh)
  qed
qed

lemma claimRequest_keeps:
  assumes run: "claimRequest sha256 hmac token io requestId body x t j = (j', res)"
    and c: "clean t0 j" "t0 \<le> t" "\<not> rj_terminalFailure j"
    and wf: "isSha256 (sha256 requestId)" "\<And>a b. isSha256 (hmac a b)" "0 \<le> x" "x \<le> MAX_SAFE_INTEGER"
  shows "keepsClaims t j j' \<and> (res = Inr () \<longrightarrow> \<not> rj_terminalFailure j' \<and>
    (t \<le> x \<longrightarrow> (\<exists>c. (sha256 requestId, c, x) \<in> set (rj_requests j'))) \<and>
    (\<forall>c e. (sha256 requestId, c, e) \<in> set (rj_requests j) \<longrightarrow> e < t))"
proof (cases "isSha256 body")
  case False
  with run c(3) have "j' = prune t j" "res \<noteq> Inr ()" by (auto simp: claimRequest_def createBodyCommitment_def Let_def)
  then show ?thesis using keeps_prune [OF c] by simp
next
  case body: True
  let ?k = "sha256 requestId" and ?j1 = "prune t j" and ?c = "hmac token (BODY_COMMITMENT_DOMAIN @ body)"
  have j1: "clean t ?j1" "\<not> rj_terminalFailure ?j1" using c by (simp_all add: clean_prune prune_live)
  obtain j2 x2 where ap: "appendRecord io (RequestRecordV2 ?k ?c x) t ?j1 = (j2, x2)" by fastforce
  let ?set = "\<lambda>j. j\<lparr>rj_requests := mapSet ?k (?c, x) (rj_requests j)\<rparr>"
  have go: "claimRequest sha256 hmac token io requestId body x t j = (case priorClaim t ?c (map_of (rj_requests ?j1) ?k) of
      Some code \<Rightarrow> (?j1, Inl (SupplierNodeError code 409 False))
    | None \<Rightarrow> (case (j2, x2) of (j2, Inl e) \<Rightarrow> (j2, Inl e) | (j2, Inr u) \<Rightarrow> maybeCompactAfterAppend io t (?set j2)))"
    using c(3) ap body by (simp add: claimRequest_def createBodyCommitment_def split: option.split)
  show ?thesis
  proof (cases "priorClaim t ?c (map_of (rj_requests ?j1) ?k)")
    case (Some code)
    then show ?thesis using run go keeps_prune [OF c] by auto
  next
    case None
    have old: "e < t" if "(?k, d, e) \<in> set (rj_requests j)" for d e
    proof (rule ccontr)
      assume "\<not> e < t"
      with that obtain d' e' where "map_of (rj_requests ?j1) ?k = Some (d', e')"
        using weak_map_of_SomeI [of ?k "(d, e)" "rj_requests ?j1"] by (auto simp: prune_live)
      moreover have "t \<le> e'" using map_of_SomeD [OF calculation] by (simp add: prune_live)
      ultimately show False using None by simp
    qed
    have r: "wfRecord (RequestRecordV2 ?k ?c x)" using wf by simp
    have "?k \<notin> fst ` set (rj_requests ?j1)" using old by (force simp: prune_live)
    then have f2: "?k \<notin> fst ` set (rj_requests j2)" using append_shrinks(2) [OF ap j1(1) r] by blast
    from run go None have "(j', res) = (case (j2, x2) of (j2, Inl e) \<Rightarrow> (j2, Inl e) | (j2, Inr u) \<Rightarrow> maybeCompactAfterAppend io t (?set j2))"
      by simp
    moreover have "clean t (?set j2)" if "matches t j2 recs" "rj_file j2 = journalText (recs @ [RequestRecordV2 ?k ?c x])" for recs
      using that f2 r by (blast intro: claimed_request)
    ultimately have "keepsClaims t ?j1 j' \<and> (res = Inr () \<longrightarrow> \<not> rj_terminalFailure j' \<and>
        set (live snd t (rj_nonces (?set j2))) \<subseteq> set (rj_nonces j') \<and>
        set (live requestExpiry t (rj_requests (?set j2))) \<subseteq> set (rj_requests j'))"
      using f2 by (intro append_claim_keeps [OF ap j1 r]) (auto simp: mapSet_fresh)
    moreover have "t \<le> x \<Longrightarrow> (?k, ?c, x) \<in> set (live requestExpiry t (rj_requests (?set j2)))" using f2 by (simp add: mapSet_fresh)
    ultimately show ?thesis using old keeps_from_prune by blast
  qed
qed

lemma compactNow_keeps:
  assumes "compactNow io t j = (j', res)" "clean t0 j" "t0 \<le> t" "\<not> rj_terminalFailure j"
  shows "keepsClaims t j j'"
proof -
  have "(case compact io t j of (j1, Inl e) \<Rightarrow> poison j1 | (j1, Inr u) \<Rightarrow> (j1, Inr ())) = (j', res)"
    using assms(1,4) by (simp add: compactNow_def)
  from compactStep_keeps [OF this assms(2-4)] show ?thesis by blast
qed

section \<open>Starting\<close>

text \<open>Whatever text is found at the journal path, what is loaded from it is well formed.\<close>

definition wfMaps :: "replayMaps \<Rightarrow> bool" where
  "wfMaps m \<longleftrightarrow> distinct (map fst (fst m)) \<and> distinct (map fst (snd m)) \<and>
     (\<forall>(k, e) \<in> set (fst m). wfRecord (NonceRecordV2 k e)) \<and> (\<forall>(k, c, e) \<in> set (snd m). wfRecord (RequestRecordV2 k c e))"

lemma hexField_Some: "hexField v = Some s \<Longrightarrow> isSha256 s"
  by (cases v rule: hexField.cases) (auto split: if_splits)

lemma timeField_Some: "timeField v = Some e \<Longrightarrow> 0 \<le> e \<and> e \<le> MAX_SAFE_INTEGER"
  by (cases v rule: timeField.cases) (auto simp: isSafeInteger_iff split: if_splits)

fun parsedWf :: "ParsedReplayRecord \<Rightarrow> bool" where
  "parsedWf (ParsedNonce k e) \<longleftrightarrow> wfRecord (NonceRecordV2 k e)"
| "parsedWf (ParsedRequest k c e) \<longleftrightarrow> wfRecord (RequestRecordV2 k c e)"
| "parsedWf (ParsedLegacyRequest k s e) \<longleftrightarrow> wfRecord (RequestRecordV2 k s e)"

lemma parseRecord_wf: "parseRecord v = Some r \<Longrightarrow> parsedWf r"
  by (cases v) (auto simp: parseRecord_def Let_def dest!: hexField_Some timeField_Some split: if_splits option.splits)

lemma loadNonce_wf: "loadNonce t k e m = Inr m' \<Longrightarrow> wfMaps m \<Longrightarrow> wfRecord (NonceRecordV2 k e) \<Longrightarrow> wfMaps m'"
  by (cases m) (auto simp: loadNonce_def wfMaps_def list_ex_iff split: if_splits)

lemma loadRequest_wf: "loadRequest t k c e m = Inr m' \<Longrightarrow> wfMaps m \<Longrightarrow> wfRecord (RequestRecordV2 k c e) \<Longrightarrow> wfMaps m'"
  by (cases m) (auto simp: loadRequest_def wfMaps_def list_ex_iff split: if_splits)

lemma loadLine_wf:
  assumes "loadLine hmac token t m line = Inr m'" "wfMaps m" "\<And>a b. isSha256 (hmac a b)"
  shows "wfMaps m'"
proof (cases "line = []")
  case False
  with assms(1) obtain v r where r: "jsonParse line = Some v" "parseRecord v = Some r"
    by (auto simp: loadLine_def split: option.splits)
  from parseRecord_wf [OF r(2)] assms False r show ?thesis
    by (cases r) (auto simp: loadLine_def createBodyCommitment_def dest: loadNonce_wf loadRequest_wf split: if_splits)
qed (use assms in \<open>simp add: loadLine_def\<close>)

lemma load_wf: "load hmac token t file = Inr m \<Longrightarrow> (\<And>a b. isSha256 (hmac a b)) \<Longrightarrow> wfMaps m"
proof -
  assume h: "\<And>a b. isSha256 (hmac a b)"
  have "foldE (loadLine hmac token t) m0 ls = Inr m \<Longrightarrow> wfMaps m0 \<Longrightarrow> wfMaps m" for m0 ls
  proof (induction ls arbitrary: m0)
    case (Cons l ls)
    then obtain m1 where "loadLine hmac token t m0 l = Inr m1" "foldE (loadLine hmac token t) m1 ls = Inr m" by auto
    with Cons h show ?case by (blast intro: loadLine_wf)
  qed simp
  moreover have "wfMaps ([], [])" by (simp add: wfMaps_def)
  ultimately show "load hmac token t file = Inr m \<Longrightarrow> wfMaps m" unfolding load_def by blast
qed

lemma open_cases:
  assumes "openJournal hmac token interval io t file = (file', res)" "\<And>a b. isSha256 (hmac a b)"
  shows "(file' = file \<or> (\<exists>ns rs recs. load hmac token t file = Inr (ns, rs) \<and> list_all wfRecord recs \<and> file' = journalText recs \<and>
        set (live snd t ns) \<subseteq> set (nonceEntries recs) \<and> set (live requestExpiry t rs) \<subseteq> set (requestEntries recs))) \<and>
    (\<forall>j. res = Inr j \<longrightarrow> rj_file j = file' \<and> \<not> rj_terminalFailure j \<and> clean t j \<and>
      (\<exists>ns rs. load hmac token t file = Inr (ns, rs) \<and> rj_nonces j = live snd t ns \<and> rj_requests j = live requestExpiry t rs))"
proof (cases "\<exists>ms m. boundedInteger interval 1000 (60 * 60000) = Inr ms \<and>
    \<not> (\<not> oi_prepare io \<or> byteLength file > MAXIMUM_JOURNAL_BYTES) \<and> load hmac token t file = Inr m")
  case False
  with assms(1) have "file' = file" "\<forall>j. res \<noteq> Inr j" by (auto simp: openJournal_def split: sum.splits if_splits)
  then show ?thesis by simp
next
  case True
  then obtain ms ns rs where o: "boundedInteger interval 1000 (60 * 60000) = Inr ms"
    "\<not> (\<not> oi_prepare io \<or> byteLength file > MAXIMUM_JOURNAL_BYTES)" "load hmac token t file = Inr (ns, rs)" by auto
  define j0 where "j0 = \<lparr>rj_file = file, rj_nonces = ns, rj_requests = rs, rj_appendedSinceCompaction = 0,
      rj_lastCompactedAt = t, rj_compactionInterval = ms, rj_terminalFailure = False\<rparr>"
  obtain j1 x where c: "compact (oi_compact io) t j0 = (j1, x)" by fastforce
  have out: "file' = rj_file j1" "res = (case x of Inl e \<Rightarrow> Inl e | Inr u \<Rightarrow> Inr j1)"
    using assms(1) o c by (auto simp: openJournal_def j0_def split: sum.splits)
  note wf = load_wf [OF o(3) assms(2)]
  then have "list_all wfRecord (activeRecords j0)"
    by (auto simp: j0_def wfMaps_def activeRecords_def list_all_iff simp del: wfRecord.simps)
  with wf have "matches t j0 (activeRecords j0)" by (simp add: matches_def) (simp add: wfMaps_def j0_def)
  then have act: "list_all wfRecord (activeRecords (prune t j0))" "matches t (prune t j0) (activeRecords (prune t j0))"
    using wf_active matches_active by blast+
  note cc = compact_cases [OF c]
  have "rj_file j1 = file \<or> rj_file j1 = journalText (activeRecords (prune t j0))" using cc by (auto simp: j0_def)
  moreover have "set (live snd t ns) \<subseteq> set (nonceEntries (activeRecords (prune t j0)))"
    "set (live requestExpiry t rs) \<subseteq> set (requestEntries (activeRecords (prune t j0)))" by (simp_all add: prune_live j0_def)
  moreover have "clean t j1" if "x = Inr ()" unfolding clean_def using cc that act(2) matches_cong by blast
  ultimately show ?thesis using out o(3) act(1) cc by (auto simp: prune_live j0_def split: sum.splits)
qed

section \<open>Processes\<close>

datatype process = Stopped string | Running PersistentReplayJournal

datatype journalEvent =
    NonceGranted string int int
  | RequestGranted string string int int
  | Elapsed int

fun eventTime :: "journalEvent \<Rightarrow> int" where
  "eventTime (NonceGranted nonce x t) = t"
| "eventTime (RequestGranted requestId body x t) = t"
| "eventTime (Elapsed t) = t"

text \<open>
  One operation of the node on its journal, or the end or start of its process. A crash in the middle of
  an operation is the operation with a failing file-system call, followed by the end of the process.
\<close>

inductive journal_step :: "(string \<Rightarrow> string) \<Rightarrow> (string \<Rightarrow> string \<Rightarrow> string) \<Rightarrow> string \<Rightarrow> process \<Rightarrow> journalEvent \<Rightarrow> process \<Rightarrow> bool"
  for sha256 hmac token where
  nonce: "claimNonce sha256 io nonce x t j = (j', res) \<Longrightarrow> 0 \<le> x \<Longrightarrow> x \<le> MAX_SAFE_INTEGER \<Longrightarrow>
    journal_step sha256 hmac token (Running j) (if res = Inr () then NonceGranted nonce x t else Elapsed t) (Running j')"
| request: "claimRequest sha256 hmac token io requestId body x t j = (j', res) \<Longrightarrow> 0 \<le> x \<Longrightarrow> x \<le> MAX_SAFE_INTEGER \<Longrightarrow>
    journal_step sha256 hmac token (Running j) (if res = Inr () then RequestGranted requestId body x t else Elapsed t) (Running j')"
| compaction: "compactNow cio t j = (j', res) \<Longrightarrow> journal_step sha256 hmac token (Running j) (Elapsed t) (Running j')"
| stop: "journal_step sha256 hmac token (Running j) (Elapsed t) (Stopped (rj_file j))"
| start: "openJournal hmac token interval oio t file = (file', Inr j) \<Longrightarrow>
    journal_step sha256 hmac token (Stopped file) (Elapsed t) (Running j)"
| start_fails: "openJournal hmac token interval oio t file = (file', Inl e) \<Longrightarrow>
    journal_step sha256 hmac token (Stopped file) (Elapsed t) (Stopped file')"

fun nonceGrant :: "journalEvent \<Rightarrow> (string \<times> int) option" where
  "nonceGrant (NonceGranted nonce x t) = Some (nonce, x)"
| "nonceGrant _ = None"

fun requestGrant :: "journalEvent \<Rightarrow> (string \<times> int) option" where
  "requestGrant (RequestGranted requestId body x t) = Some (requestId, x)"
| "requestGrant _ = None"

fun journalOk :: "int \<Rightarrow> process \<Rightarrow> bool" where
  "journalOk t (Stopped file) \<longleftrightarrow> True"
| "journalOk t (Running j) \<longleftrightarrow> rj_terminalFailure j \<or> clean t j"

fun nonceHeld :: "(string \<Rightarrow> string) \<Rightarrow> (string \<Rightarrow> string \<Rightarrow> string) \<Rightarrow> string \<Rightarrow> int \<Rightarrow> process \<Rightarrow> string \<Rightarrow> int \<Rightarrow> bool" where
  "nonceHeld sha256 hmac token t (Stopped file) nonce x \<longleftrightarrow> nonceOnFile hmac token t file (sha256 nonce) x"
| "nonceHeld sha256 hmac token t (Running j) nonce x \<longleftrightarrow>
     (if rj_terminalFailure j then nonceOnFile hmac token t (rj_file j) (sha256 nonce) x else (sha256 nonce, x) \<in> set (rj_nonces j))"

fun requestHeld :: "(string \<Rightarrow> string) \<Rightarrow> (string \<Rightarrow> string \<Rightarrow> string) \<Rightarrow> string \<Rightarrow> int \<Rightarrow> process \<Rightarrow> string \<Rightarrow> int \<Rightarrow> bool" where
  "requestHeld sha256 hmac token t (Stopped file) requestId x \<longleftrightarrow> requestOnFile hmac token t file (sha256 requestId) x"
| "requestHeld sha256 hmac token t (Running j) requestId x \<longleftrightarrow>
     (if rj_terminalFailure j then requestOnFile hmac token t (rj_file j) (sha256 requestId) x
      else (\<exists>c. (sha256 requestId, c, x) \<in> set (rj_requests j)))"

lemma onFile_later:
  "nonceOnFile hmac token t file k x \<Longrightarrow> t \<le> t' \<Longrightarrow> nonceOnFile hmac token t' file k x"
  "requestOnFile hmac token t file k x \<Longrightarrow> t \<le> t' \<Longrightarrow> requestOnFile hmac token t' file k x"
  unfolding nonceOnFile_def requestOnFile_def by (meson order_trans)+

lemma clean_on_file:
  assumes "clean t j"
  shows "(k, x) \<in> set (rj_nonces j) \<Longrightarrow> t \<le> x \<Longrightarrow> nonceOnFile hmac token t (rj_file j) k x"
    "(k, c, x) \<in> set (rj_requests j) \<Longrightarrow> t \<le> x \<Longrightarrow> requestOnFile hmac token t (rj_file j) k x"
proof -
  from assms obtain recs where r: "rj_file j = journalText recs" "matches t j recs" by (auto simp: clean_def)
  then have t: "tornText recs (rj_file j)" by (simp add: matches_def journalText_torn)
  note m = matches_entries [OF r(2)]
  show "(k, x) \<in> set (rj_nonces j) \<Longrightarrow> t \<le> x \<Longrightarrow> nonceOnFile hmac token t (rj_file j) k x"
    by (rule tornText_nonce [OF t]) (use m in force)
  show "(k, c, x) \<in> set (rj_requests j) \<Longrightarrow> t \<le> x \<Longrightarrow> requestOnFile hmac token t (rj_file j) k x"
    by (rule tornText_request [OF t]) (use m in force)
qed

text \<open>A step on a healthy journal that keeps the claims keeps what is held.\<close>

lemma keeps_held:
  assumes "keepsClaims t j j'" "\<not> rj_terminalFailure j" "t \<le> x"
  shows "nonceHeld sha256 hmac token t0 (Running j) k x \<Longrightarrow> nonceHeld sha256 hmac token t (Running j') k x"
    "requestHeld sha256 hmac token t0 (Running j) k x \<Longrightarrow> requestHeld sha256 hmac token t (Running j') k x"
    "journalOk t (Running j')"
proof -
  have n: "(sha256 k, x) \<in> set (rj_nonces j) \<Longrightarrow> (sha256 k, x) \<in> set (live snd t (rj_nonces j))" using assms(3) by simp
  have r: "(sha256 k, c, x) \<in> set (rj_requests j) \<Longrightarrow> (sha256 k, c, x) \<in> set (live requestExpiry t (rj_requests j))" for c
    using assms(3) by simp
  show "nonceHeld sha256 hmac token t0 (Running j) k x \<Longrightarrow> nonceHeld sha256 hmac token t (Running j') k x"
    using assms n by (cases "rj_terminalFailure j'") (auto simp: keepsClaims_def intro: tornText_nonce simp del: set_live)
  show "requestHeld sha256 hmac token t (Running j') k x" if "requestHeld sha256 hmac token t0 (Running j) k x"
  proof -
    from that assms(2) r obtain c where c: "(sha256 k, c, x) \<in> set (live requestExpiry t (rj_requests j))" by auto
    show ?thesis
    proof (cases "rj_terminalFailure j'")
      case True
      with assms(1) obtain recs where "tornText recs (rj_file j')"
        "set (live requestExpiry t (rj_requests j)) \<subseteq> set (requestEntries recs)" unfolding keepsClaims_def by auto
      with c have "requestOnFile hmac token t (rj_file j') (sha256 k) x" by (intro tornText_request) auto
      with True show ?thesis by simp
    next
      case False
      with assms(1) have "set (live requestExpiry t (rj_requests j)) \<subseteq> set (rj_requests j')" by (simp add: keepsClaims_def)
      with c have "(sha256 k, c, x) \<in> set (rj_requests j')" by blast
      with False show ?thesis by auto
    qed
  qed
  show "journalOk t (Running j')" using assms(1) by (cases "rj_terminalFailure j'") (simp_all add: keepsClaims_def)
qed

lemma claims_failed:
  assumes "rj_terminalFailure j"
  shows "claimNonce sha256 io nonce x t j = (j, Inl replayProtectionUnavailable)"
    "claimRequest sha256 hmac token io requestId body x t j = (j, Inl replayProtectionUnavailable)"
    "compactNow cio t j = (j, Inl replayProtectionUnavailable)"
  using assms by (simp_all add: claimNonce_def claimRequest_def compactNow_def)

text \<open>Everything a running step does to the claims, in one place.\<close>

definition stepKeeps :: "(string \<Rightarrow> string) \<Rightarrow> (string \<Rightarrow> string \<Rightarrow> string) \<Rightarrow> string \<Rightarrow> int \<Rightarrow> process \<Rightarrow> int \<Rightarrow> process \<Rightarrow> bool" where
  "stepKeeps sha256 hmac token t0 s t s' \<longleftrightarrow> journalOk t s' \<and>
     (\<forall>k x. t \<le> x \<and> nonceHeld sha256 hmac token t0 s k x \<longrightarrow> nonceHeld sha256 hmac token t s' k x) \<and>
     (\<forall>k x. t \<le> x \<and> requestHeld sha256 hmac token t0 s k x \<longrightarrow> requestHeld sha256 hmac token t s' k x)"

lemma stepKeeps_failed:
  "rj_terminalFailure j \<Longrightarrow> t0 \<le> t \<Longrightarrow> stepKeeps sha256 hmac token t0 (Running j) t (Running j)"
  by (auto simp: stepKeeps_def intro: onFile_later)

lemma stepKeeps_healthy:
  "keepsClaims t j j' \<Longrightarrow> \<not> rj_terminalFailure j \<Longrightarrow> stepKeeps sha256 hmac token t0 (Running j) t (Running j')"
  unfolding stepKeeps_def using keeps_held(1,2) keepsClaims_def by (metis journalOk.simps(2))

lemma stepKeeps_stop:
  assumes "journalOk t0 (Running j)" "t0 \<le> t"
  shows "stepKeeps sha256 hmac token t0 (Running j) t (Stopped (rj_file j))"
proof (cases "rj_terminalFailure j")
  case True
  with assms show ?thesis by (auto simp: stepKeeps_def intro: onFile_later)
next
  case False
  with assms have "clean t j" by (auto intro: clean_later)
  with False clean_on_file show ?thesis by (auto simp: stepKeeps_def)
qed

lemma stepKeeps_open:
  assumes "openJournal hmac token interval io t file = (file', res)" "\<And>a b. isSha256 (hmac a b)" "t0 \<le> t"
  shows "stepKeeps sha256 hmac token t0 (Stopped file) t (case res of Inl e \<Rightarrow> Stopped file' | Inr j \<Rightarrow> Running j)"
proof (cases res)
  case (Inr j)
  with open_cases [OF assms(1,2)] assms(3) show ?thesis
    by (fastforce simp: stepKeeps_def nonceOnFile_def requestOnFile_def)
next
  case (Inl e)
  from open_cases [OF assms(1,2)] consider "file' = file"
    | ns rs recs where "load hmac token t file = Inr (ns, rs)" "list_all wfRecord recs" "file' = journalText recs"
        "set (live snd t ns) \<subseteq> set (nonceEntries recs)" "set (live requestExpiry t rs) \<subseteq> set (requestEntries recs)" by blast
  then show ?thesis
  proof cases
    case 1
    then show ?thesis using assms(3) Inl by (auto simp: stepKeeps_def intro: onFile_later)
  next
    case 2
    have "nonceOnFile hmac token t file' k x" if "t \<le> x" "nonceOnFile hmac token t0 file k x" for k x
    proof -
      have "(k, x) \<in> set ns" using that assms(3) 2(1) unfolding nonceOnFile_def by blast
      with that(1) 2(4) have "(k, x) \<in> set (nonceEntries recs)" by force
      with 2(2,3) show ?thesis by (metis journalText_torn tornText_nonce)
    qed
    moreover have "requestOnFile hmac token t file' k x" if x: "t \<le> x" "requestOnFile hmac token t0 file k x" for k x
    proof -
      obtain c where "(k, c, x) \<in> set rs" using x assms(3) 2(1) unfolding requestOnFile_def by blast
      with x(1) 2(5) have "(k, c, x) \<in> set (requestEntries recs)" by force
      with 2(2,3) show ?thesis by (metis journalText_torn tornText_request)
    qed
    ultimately show ?thesis using Inl by (simp add: stepKeeps_def)
  qed
qed

lemma journal_step_keeps:
  assumes "journal_step sha256 hmac token s e s'" "journalOk t0 s" "t0 \<le> eventTime e"
    and hash: "\<And>a. isSha256 (sha256 a)" "\<And>a b. isSha256 (hmac a b)"
  shows "stepKeeps sha256 hmac token t0 s (eventTime e) s'"
  using assms(1-3)
proof cases
  case (nonce io nonce x t j j' res)
  then have t: "eventTime e = t" by simp
  show ?thesis
  proof (cases "rj_terminalFailure j")
    case True
    then have "j' = j" using nonce(4) by (simp add: claims_failed)
    then show ?thesis unfolding t using nonce(1,3) assms(3) t stepKeeps_failed [OF True] by simp
  next
    case False
    then have "clean t0 j" using nonce(1) assms(2) by simp
    then have "keepsClaims t j j'" using claimNonce_keeps [OF nonce(4) _ _ False hash(1) nonce(5,6)] assms(3) t by blast
    then show ?thesis unfolding t using nonce(1,3) stepKeeps_healthy [OF _ False] by simp
  qed
next
  case (request io requestId body x t j j' res)
  then have t: "eventTime e = t" by simp
  show ?thesis
  proof (cases "rj_terminalFailure j")
    case True
    then have "j' = j" using request(4) by (simp add: claims_failed)
    then show ?thesis unfolding t using request(1,3) assms(3) t stepKeeps_failed [OF True] by simp
  next
    case False
    then have "clean t0 j" using request(1) assms(2) by simp
    then have "keepsClaims t j j'" using claimRequest_keeps [OF request(4) _ _ False hash request(5,6)] assms(3) t by blast
    then show ?thesis unfolding t using request(1,3) stepKeeps_healthy [OF _ False] by simp
  qed
next
  case (compaction cio t j j' res)
  then have t: "eventTime e = t" by simp
  show ?thesis
  proof (cases "rj_terminalFailure j")
    case True
    then have "j' = j" using compaction(4) by (simp add: claims_failed)
    then show ?thesis unfolding t using compaction(1,3) assms(3) t stepKeeps_failed [OF True] by simp
  next
    case False
    then have "clean t0 j" using compaction(1) assms(2) by simp
    then have "keepsClaims t j j'" using compactNow_keeps [OF compaction(4) _ _ False] assms(3) t by blast
    then show ?thesis unfolding t using compaction(1,3) stepKeeps_healthy [OF _ False] by simp
  qed
next
  case (stop j t)
  with assms(2,3) stepKeeps_stop show ?thesis by simp
next
  case (start interval oio t f f' j)
  with stepKeeps_open [OF start(4) hash(2)] assms(3) show ?thesis by simp
next
  case (start_fails interval oio t f f' x)
  with stepKeeps_open [OF start_fails(4) hash(2)] assms(3) show ?thesis by simp
qed

lemma journal_step_grants:
  assumes "journal_step sha256 hmac token s e s'" "journalOk t0 s" "t0 \<le> eventTime e"
    and hash: "\<And>a. isSha256 (sha256 a)" "\<And>a b. isSha256 (hmac a b)"
  shows "nonceGrant e = Some (k, x) \<Longrightarrow> (eventTime e \<le> x \<longrightarrow> nonceHeld sha256 hmac token (eventTime e) s' k x) \<and>
      (\<forall>y. nonceHeld sha256 hmac token t0 s k y \<longrightarrow> y < eventTime e)"
    "requestGrant e = Some (k, x) \<Longrightarrow> (eventTime e \<le> x \<longrightarrow> requestHeld sha256 hmac token (eventTime e) s' k x) \<and>
      (\<forall>y. requestHeld sha256 hmac token t0 s k y \<longrightarrow> y < eventTime e)"
proof -
  show "(eventTime e \<le> x \<longrightarrow> nonceHeld sha256 hmac token (eventTime e) s' k x) \<and>
      (\<forall>y. nonceHeld sha256 hmac token t0 s k y \<longrightarrow> y < eventTime e)" if g: "nonceGrant e = Some (k, x)"
    using assms(1)
  proof cases
    case (nonce io nonce z t j j' res)
    with g have r: "res = Inr ()" "e = NonceGranted k x t" "nonce = k" "z = x" by (auto split: if_splits)
    with nonce claims_failed(1) have f: "\<not> rj_terminalFailure j" by (metis Inl_Inr_False prod.inject)
    with claimNonce_keeps [OF nonce(4)] nonce r assms(2,3) hash show ?thesis by auto
  qed (use g in \<open>auto split: if_splits\<close>)
  show "(eventTime e \<le> x \<longrightarrow> requestHeld sha256 hmac token (eventTime e) s' k x) \<and>
      (\<forall>y. requestHeld sha256 hmac token t0 s k y \<longrightarrow> y < eventTime e)" if g: "requestGrant e = Some (k, x)"
    using assms(1)
  proof cases
    case (request io requestId body z t j j' res)
    with g have r: "res = Inr ()" "e = RequestGranted k body x t" "requestId = k" "z = x" by (auto split: if_splits)
    with request claims_failed(2) have f: "\<not> rj_terminalFailure j" by (metis Inl_Inr_False prod.inject)
    with claimRequest_keeps [OF request(4)] request r assms(2,3) hash show ?thesis by auto
  qed (use g in \<open>auto split: if_splits\<close>)
qed

lemma journalOk_later: "journalOk t s \<Longrightarrow> t \<le> t' \<Longrightarrow> journalOk t' s"
  by (cases s) (auto intro: clean_later)

lemma held_later:
  "nonceHeld sha256 hmac token t s k x \<Longrightarrow> t \<le> t' \<Longrightarrow> nonceHeld sha256 hmac token t' s k x"
  "requestHeld sha256 hmac token t s k x \<Longrightarrow> t \<le> t' \<Longrightarrow> requestHeld sha256 hmac token t' s k x"
  by (cases s; auto intro: onFile_later split: if_splits)+

text \<open>The hash functions return 64 lower-case hexadecimal digits.\<close>

definition hexDigests :: "(string \<Rightarrow> string) \<Rightarrow> (string \<Rightarrow> string \<Rightarrow> string) \<Rightarrow> bool" where
  "hexDigests sha256 hmac \<longleftrightarrow> (\<forall>a. isSha256 (sha256 a)) \<and> (\<forall>a b. isSha256 (hmac a b))"

definition hashedStep :: "(string \<Rightarrow> string) \<Rightarrow> (string \<Rightarrow> string \<Rightarrow> string) \<Rightarrow> string \<Rightarrow> process \<Rightarrow> journalEvent \<Rightarrow> process \<Rightarrow> bool" where
  "hashedStep sha256 hmac token s e s' \<longleftrightarrow> hexDigests sha256 hmac \<and> journal_step sha256 hmac token s e s'"

lemma hashed_run:
  "timed_run (journal_step sha256 hmac token) eventTime t s es s' \<Longrightarrow> hexDigests sha256 hmac \<Longrightarrow>
   timed_run (hashedStep sha256 hmac token) eventTime t s es s'"
  by (induction rule: timed_run.induct) (auto simp: hashedStep_def intro: timed_run.intros)

interpretation nonces: expiring_claims "hashedStep sha256 hmac token" eventTime nonceGrant journalOk "nonceHeld sha256 hmac token"
  for sha256 hmac token
proof (unfold_locales, goal_cases)
  case (1 s e s' t)
  then show ?case using journal_step_keeps by (auto simp: hashedStep_def hexDigests_def stepKeeps_def)
next
  case (2 s e s' t k x)
  then show ?case using journal_step_grants(1) [of sha256 hmac token s e s' t k x] by (auto simp: hashedStep_def hexDigests_def)
next
  case (3 s e s' t k x)
  then have "stepKeeps sha256 hmac token t s (eventTime e) s'"
    by (intro journal_step_keeps) (auto simp: hashedStep_def hexDigests_def)
  with 3(4,5) show ?case by (simp add: stepKeeps_def)
next
  case (4 s e s' t k x y)
  then show ?case using journal_step_grants(1) [of sha256 hmac token s e s' t k y] by (force simp: hashedStep_def hexDigests_def)
next
  case (5 t s t')
  then show ?case by (rule journalOk_later)
next
  case (6 t s k x t')
  then show ?case by (rule held_later(1))
qed

interpretation requests: expiring_claims "hashedStep sha256 hmac token" eventTime requestGrant journalOk "requestHeld sha256 hmac token"
  for sha256 hmac token
proof (unfold_locales, goal_cases)
  case (1 s e s' t)
  then show ?case by (rule nonces.inv_step)
next
  case (2 s e s' t k x)
  then show ?case using journal_step_grants(2) [of sha256 hmac token s e s' t k x] by (auto simp: hashedStep_def hexDigests_def)
next
  case (3 s e s' t k x)
  then have "stepKeeps sha256 hmac token t s (eventTime e) s'"
    by (intro journal_step_keeps) (auto simp: hashedStep_def hexDigests_def)
  with 3(4,5) show ?case by (simp add: stepKeeps_def)
next
  case (4 s e s' t k x y)
  then show ?case using journal_step_grants(2) [of sha256 hmac token s e s' t k y] by (force simp: hashedStep_def hexDigests_def)
next
  case (5 t s t')
  then show ?case by (rule journalOk_later)
next
  case (6 t s k x t')
  then show ?case by (rule held_later(2))
qed

section \<open>At most once\<close>

text \<open>
  C14: A supplier node never accepts the same request, or the same nonce, twice within its protection
  window. Starting from any file at the journal path, along every sequence of claims, compactions, file
  system failures, crashes and restarts with a clock that does not run backwards, two grants of one
  request identifier (or one nonce) are separated by the expiry of the first.
\<close>

theorem journal_at_most_once:
  assumes "hexDigests sha256 hmac"
    and "timed_run (journal_step sha256 hmac token) eventTime t0 (Stopped file) (es @ e # fs) s"
    and "f \<in> set fs"
    and "(e = RequestGranted requestId body x t \<and> f = RequestGranted requestId body' x' t') \<or>
         (e = NonceGranted nonce x t \<and> f = NonceGranted nonce x' t')"
  shows "x < t'"
proof -
  note run = hashed_run [OF assms(2,1)]
  show ?thesis
    using assms(4) requests.grants_separated [OF run _ _ assms(3), of requestId x x'] nonces.grants_separated [OF run _ _ assms(3), of nonce x x']
    by auto
qed

section \<open>Restart\<close>

lemma run_journalOk:
  "timed_run (hashedStep sha256 hmac token) eventTime t0 s es s' \<Longrightarrow> journalOk t0 s \<Longrightarrow> t0 \<le> t \<Longrightarrow>
   \<forall>e \<in> set es. eventTime e \<le> t \<Longrightarrow> journalOk t s'"
  by (induction rule: timed_run.induct) (auto intro: journalOk_later nonces.inv_step)

fun fits :: "process \<Rightarrow> bool" where
  "fits (Stopped file) \<longleftrightarrow> True"
| "fits (Running j) \<longleftrightarrow> rj_terminalFailure j \<or> byteLength (rj_file j) \<le> MAXIMUM_JOURNAL_BYTES"

declare byteLength_append [simp]

lemma compact_fits:
  "compact io t j = (j', res) \<Longrightarrow> byteLength (rj_file j) \<le> MAXIMUM_JOURNAL_BYTES \<Longrightarrow>
    byteLength (rj_file j') \<le> MAXIMUM_JOURNAL_BYTES"
  by (auto simp: compact_def Let_def prune_live split: if_splits CompactIo.splits)

lemma writeLine_fits:
  assumes "writeLine io line j = (j', res)" "byteLength (rj_file j) + byteLength line \<le> MAXIMUM_JOURNAL_BYTES"
  shows "rj_terminalFailure j' \<or> byteLength (rj_file j') \<le> MAXIMUM_JOURNAL_BYTES"
proof -
  obtain ps ok where w: "writeAll (io_write io) 0 line = (ps, ok)" by fastforce
  from writeAll_result [OF w] have "ok \<Longrightarrow> concat ps = line" by auto
  with assms w show ?thesis by (auto simp: writeLine_def poison_def Let_def split: if_splits)
qed

lemma append_fits:
  "appendRecord io r t j = (j', res) \<Longrightarrow> byteLength (rj_file j) \<le> MAXIMUM_JOURNAL_BYTES \<Longrightarrow>
    rj_terminalFailure j' \<or> byteLength (rj_file j') \<le> MAXIMUM_JOURNAL_BYTES"
  by (auto simp: appendRecord_def Let_def poison_def split: if_splits prod.splits sum.splits dest: writeLine_fits)

lemma maybeCompact_fits:
  assumes "maybeCompactAfterAppend io t j = (j', res)" "rj_terminalFailure j \<or> byteLength (rj_file j) \<le> MAXIMUM_JOURNAL_BYTES"
    "\<not> rj_terminalFailure j"
  shows "rj_terminalFailure j' \<or> byteLength (rj_file j') \<le> MAXIMUM_JOURNAL_BYTES"
  using assms by (auto simp: maybeCompactAfterAppend_def Let_def poison_def split: if_splits prod.splits sum.splits dest: compact_fits)

lemma append_health: "appendRecord io r t j = (j', Inr u) \<Longrightarrow> rj_terminalFailure j' = rj_terminalFailure j"
  by (auto simp: appendRecord_def writeLine_def Let_def poison_def prune_live compact_def
      split: if_splits prod.splits sum.splits CompactIo.splits)

lemma claim_fits:
  assumes "(case appendRecord io r t j of (j2, Inl e) \<Rightarrow> (j2, Inl e) | (j2, Inr u) \<Rightarrow> maybeCompactAfterAppend io t (set_map j2)) = (j', res)"
    "byteLength (rj_file j) \<le> MAXIMUM_JOURNAL_BYTES" "\<not> rj_terminalFailure j"
    "\<And>j. rj_file (set_map j) = rj_file j" "\<And>j. rj_terminalFailure (set_map j) = rj_terminalFailure j"
  shows "rj_terminalFailure j' \<or> byteLength (rj_file j') \<le> MAXIMUM_JOURNAL_BYTES"
proof -
  obtain j2 x2 where a: "appendRecord io r t j = (j2, x2)" by fastforce
  note f = append_fits [OF a assms(2)]
  show ?thesis
  proof (cases x2)
    case (Inl e)
    with assms(1) a f show ?thesis by simp
  next
    case (Inr u)
    with append_health a assms(3) have "\<not> rj_terminalFailure j2" by simp
    with assms(1,4,5) a Inr f maybeCompact_fits [of io t "set_map j2" j' res] show ?thesis by simp
  qed
qed

lemma step_fits: "journal_step sha256 hmac token s e s' \<Longrightarrow> fits s \<Longrightarrow> fits s'"
proof (induction rule: journal_step.induct)
  case (nonce io nonce x t j j' res)
  let ?set = "\<lambda>j. j\<lparr>rj_nonces := mapSet (sha256 nonce) x (rj_nonces j)\<rparr>"
  from nonce(1) consider "j' = j" | "j' = prune t j" | "\<not> rj_terminalFailure j"
      "(case appendRecord io (NonceRecordV2 (sha256 nonce) x) t (prune t j) of (j2, Inl e) \<Rightarrow> (j2, Inl e)
        | (j2, Inr u) \<Rightarrow> maybeCompactAfterAppend io t (?set j2)) = (j', res)"
    unfolding claimNonce_def Let_def by (auto split: if_splits)
  then show ?case
  proof cases
    case 3
    from claim_fits [where set_map = ?set, OF 3(2)] 3(1) nonce(4) show ?thesis by (simp add: prune_live)
  qed (use nonce(4) in \<open>simp_all add: prune_live\<close>)
next
  case (request io requestId body x t j j' res)
  let ?c = "hmac token (BODY_COMMITMENT_DOMAIN @ body)"
  let ?set = "\<lambda>j. j\<lparr>rj_requests := mapSet (sha256 requestId) (?c, x) (rj_requests j)\<rparr>"
  from request(1) consider "j' = j" | "j' = prune t j" | "\<not> rj_terminalFailure j"
      "(case appendRecord io (RequestRecordV2 (sha256 requestId) ?c x) t (prune t j) of (j2, Inl e) \<Rightarrow> (j2, Inl e)
        | (j2, Inr u) \<Rightarrow> maybeCompactAfterAppend io t (?set j2)) = (j', res)"
    unfolding claimRequest_def Let_def createBodyCommitment_def by (auto split: if_splits option.splits)
  then show ?case
  proof cases
    case 3
    from claim_fits [where set_map = ?set, OF 3(2)] 3(1) request(4) show ?thesis by (simp add: prune_live)
  qed (use request(4) in \<open>simp_all add: prune_live\<close>)
next
  case (compaction cio t j j' res)
  then show ?case by (auto simp: compactNow_def poison_def split: if_splits prod.splits sum.splits dest: compact_fits)
next
  case (start interval oio t f f' j)
  then show ?case by (auto simp: openJournal_def split: if_splits prod.splits sum.splits dest!: compact_fits)
qed simp_all

lemma run_fits: "timed_run (journal_step sha256 hmac token) eventTime t0 s es s' \<Longrightarrow> fits s \<Longrightarrow> fits s'"
  by (induction rule: timed_run.induct) (auto dest: step_fits)

text \<open>The live lines of a journal are not longer than the journal.\<close>

lemma live_lines:
  "byteLength (journalText (map (\<lambda>(k, e). NonceRecordV2 k e) (live snd t (nonceEntries recs)) @
     map (\<lambda>(k, c, e). RequestRecordV2 k c e) (live requestExpiry t (requestEntries recs)))) \<le> byteLength (journalText recs)"
proof -
  have "byteLength (concat xs) = sum_list (map byteLength xs)" for xs by (induction xs) (simp_all add: byteLength_def)
  then have "byteLength (journalText rs) = (\<Sum>r\<leftarrow>rs. byteLength (recordLine r))" for rs by (simp add: journalText_lines comp_def)
  then show ?thesis by (induction recs rule: nonceEntries.induct) (simp_all add: live_def)
qed

lemma restart_clean:
  assumes "clean t0 j" "t0 \<le> t" "byteLength (rj_file j) \<le> MAXIMUM_JOURNAL_BYTES" "boundedInteger interval 1000 (60 * 60000) = Inr ms"
  shows "\<exists>j'. openJournal hmac token interval \<lparr>oi_prepare = True, oi_compact = CompactOk\<rparr> t (rj_file j) = (rj_file j', Inr j') \<and>
    \<not> rj_terminalFailure j' \<and> rj_nonces j' = live snd t (rj_nonces j) \<and> rj_requests j' = live requestExpiry t (rj_requests j)"
proof -
  from assms(1,2) obtain recs where r: "rj_file j = journalText recs" "matches t j recs" by (auto simp: clean_def intro: matches_later)
  let ?ns = "live snd t (rj_nonces j)" and ?rs = "live requestExpiry t (rj_requests j)"
  have load: "load hmac token t (rj_file j) = Inr (?ns, ?rs)"
    using r distinct_live [of "rj_nonces j" snd t] distinct_live [of "rj_requests j" requestExpiry t]
    by (simp add: matches_def load_text)
  define j0 where "j0 = \<lparr>rj_file = rj_file j, rj_nonces = ?ns, rj_requests = ?rs, rj_appendedSinceCompaction = 0,
      rj_lastCompactedAt = t, rj_compactionInterval = ms, rj_terminalFailure = False\<rparr>"
  have "activeRecords (prune t j0) = map (\<lambda>(k, e). NonceRecordV2 k e) (live snd t (nonceEntries recs)) @
      map (\<lambda>(k, c, e). RequestRecordV2 k c e) (live requestExpiry t (requestEntries recs))"
    using r(2) by (simp add: activeRecords_def prune_live j0_def live_same matches_def)
  with live_lines [of t recs] r(1) assms(3) have "\<not> byteLength (journalText (activeRecords (prune t j0))) > MAXIMUM_JOURNAL_BYTES"
    by simp
  then obtain j1 where c: "compact CompactOk t j0 = (j1, Inr ())" by (simp add: compact_def Let_def)
  then have "openJournal hmac token interval \<lparr>oi_prepare = True, oi_compact = CompactOk\<rparr> t (rj_file j) = (rj_file j1, Inr j1)"
    using load assms(3,4) by (simp add: openJournal_def j0_def)
  with compact_cases [OF c] show ?thesis by (auto simp: prune_live j0_def live_same)
qed

text \<open>
  C33: A restart loses nothing and invents nothing. After any run that left the node healthy, starting it
  again on the file it left behind succeeds, and the new process holds exactly the nonces and requests of
  the old one that have not expired, with their body commitments.
\<close>

theorem journal_restart_exact:
  assumes "hexDigests sha256 hmac"
    and "timed_run (journal_step sha256 hmac token) eventTime t0 (Stopped file) es (Running j)" "isHealthy j"
    and "t0 \<le> t" "\<forall>e \<in> set es. eventTime e \<le> t" "boundedInteger interval 1000 (60 * 60000) = Inr ms"
  shows "\<exists>j'. openJournal hmac token interval \<lparr>oi_prepare = True, oi_compact = CompactOk\<rparr> t (rj_file j) = (rj_file j', Inr j') \<and>
    isHealthy j' \<and> rj_nonces j' = filter (\<lambda>(k, e). \<not> e < t) (rj_nonces j) \<and>
    rj_requests j' = filter (\<lambda>(k, c, e). \<not> e < t) (rj_requests j)"
proof -
  have "journalOk t (Running j)" using run_journalOk [OF hashed_run [OF assms(2,1)] _ assms(4,5)] by simp
  moreover have "fits (Running j)" using run_fits [OF assms(2)] by simp
  ultimately have "clean t j" "byteLength (rj_file j) \<le> MAXIMUM_JOURNAL_BYTES" using assms(3) by (auto simp: isHealthy_def)
  from restart_clean [OF this(1) order_refl this(2) assms(6)] show ?thesis
    using prune_live(1,2) [of t j] by (simp add: isHealthy_def prune_def)
qed

end
