(* ===== verification/SupplierNode.thy ===== *)
theory SupplierNode
  imports ReplaySafety
begin

text \<open>
  The supplier node: its capacity gate (\<^verbatim>\<open>apps/supplier-node/src/capacity.ts\<close>), the verification of
  signed calls (\<^verbatim>\<open>signature.ts\<close>) and the runtime that admits, executes and answers them
  (\<^verbatim>\<open>runtime.ts\<close>). A call runs without interruption up to its first \<open>await\<close>; what happens after it,
  the reply of the upstream provider, is a separate operation on the state.
\<close>

section \<open>Capacity\<close>

text \<open>
  The closure that \<open>acquire\<close> returns has a flag of its own, \<open>released\<close>. The flags of all closures handed
  out so far are kept with the gate, and a closure is its position in that list.
\<close>

record CapacityGate =
  cg_entries :: "(int \<times> int) list"
  cg_active :: int
  cg_released :: "bool list"

definition newGate :: CapacityGate where
  "newGate = \<lparr>cg_entries = [], cg_active = 0, cg_released = []\<rparr>"

fun pruneEntries :: "int \<Rightarrow> (int \<times> int) list \<Rightarrow> (int \<times> int) list" where
  "pruneEntries nowMs [] = []"
| "pruneEntries nowMs ((occurredAt, tokens) # es) =
     (if occurredAt \<le> nowMs - 60000 then pruneEntries nowMs es else (occurredAt, tokens) # es)"

definition acquire :: "int \<Rightarrow> int \<Rightarrow> int \<Rightarrow> int \<Rightarrow> int \<Rightarrow> CapacityGate \<Rightarrow> CapacityGate \<times> (nodeError + nat)" where
  "acquire rpm tpm conc estimatedTokens nowMs g =
     (let g1 = g\<lparr>cg_entries := pruneEntries nowMs (cg_entries g)\<rparr>;
          usedTokens = sum_list (map snd (cg_entries g1)) in
      if cg_active g1 \<ge> conc then (g1, Inl (SupplierNodeError CAPACITY_EXCEEDED 429 True))
      else if int (length (cg_entries g1)) \<ge> rpm \<or> usedTokens + estimatedTokens > tpm
      then (g1, Inl (SupplierNodeError CAPACITY_EXCEEDED 429 True))
      else (g1\<lparr>cg_entries := cg_entries g1 @ [(nowMs, estimatedTokens)], cg_active := cg_active g1 + 1,
               cg_released := cg_released g1 @ [False]\<rparr>, Inr (length (cg_released g1))))"

definition release :: "nat \<Rightarrow> CapacityGate \<Rightarrow> CapacityGate" where
  "release k g = (if k < length (cg_released g) \<and> \<not> cg_released g ! k
     then g\<lparr>cg_released := (cg_released g)[k := True], cg_active := cg_active g - 1\<rparr> else g)"

section \<open>Signed calls\<close>

record SignedGatewayCall =
  sc_authorization :: "string option"
  sc_timestamp :: "string option"
  sc_nonce :: "string option"
  sc_jobId :: "string option"
  sc_signature :: "string option"
  sc_rawBody :: string

definition parseBearer :: "string option \<Rightarrow> nodeError + string" where
  "parseBearer value = (case value of
     None \<Rightarrow> Inl (SupplierNodeError AUTHENTICATION_FAILED 401 False)
   | Some v \<Rightarrow>
     if \<not> startsWith v ''Bearer '' then Inl (SupplierNodeError AUTHENTICATION_FAILED 401 False)
     else let token = drop 7 v in
       if token = [] \<or> length token > 4096 then Inl (SupplierNodeError AUTHENTICATION_FAILED 401 False) else Inr token)"

definition requiredPattern :: "string option \<Rightarrow> (string \<Rightarrow> bool) \<Rightarrow> nodeError + string" where
  "requiredPattern value pattern = (case value of
     None \<Rightarrow> Inl (SupplierNodeError INVALID_REQUEST 400 False)
   | Some v \<Rightarrow> if v = [] \<or> \<not> pattern v then Inl (SupplierNodeError INVALID_REQUEST 400 False) else Inr v)"

definition safeTextEqual :: "(string \<Rightarrow> string) \<Rightarrow> string \<Rightarrow> string \<Rightarrow> bool" where
  "safeTextEqual sha256 left right = (sha256 left = sha256 right)"

text \<open>The patterns of the headers.\<close>

definition timestampPattern :: "string \<Rightarrow> bool" where
  "timestampPattern s \<longleftrightarrow> length s = 13 \<and> list_all is_digit s"

definition is_token_char :: "char \<Rightarrow> bool" where
  "is_token_char c \<longleftrightarrow> is_alnum c \<or> c = CHR ''_'' \<or> c = CHR ''-''"

definition noncePattern :: "string \<Rightarrow> bool" where
  "noncePattern s \<longleftrightarrow> 16 \<le> length s \<and> length s \<le> 128 \<and> list_all is_token_char s"

fun jobIdPattern :: "string \<Rightarrow> bool" where
  "jobIdPattern [] = False"
| "jobIdPattern (c # cs) \<longleftrightarrow> is_alnum c \<and> 7 \<le> length cs \<and> length cs \<le> 255 \<and>
     list_all (\<lambda>d. is_alnum d \<or> d \<in> {CHR ''.'', CHR ''_'', CHR '':'', CHR ''-''}) cs"

definition createGatewaySignature :: "(string \<Rightarrow> string \<Rightarrow> string) \<Rightarrow> string \<Rightarrow> string \<Rightarrow> string \<Rightarrow> string \<Rightarrow> string \<Rightarrow> string" where
  "createGatewaySignature hmac gatewayToken timestamp nonce jobId bodySha256 =
     hmac gatewayToken (createSupplierGatewaySignaturePayload timestamp nonce jobId bodySha256)"

type_synonym seenNonces = "(string \<times> int) list"

text \<open>The guard of the running process: the nonces it has seen, then the claim in the journal.\<close>

definition verifyAndRecord :: "(string \<Rightarrow> string) \<Rightarrow> JournalIo \<Rightarrow> int \<Rightarrow> nat \<Rightarrow> string \<Rightarrow> int \<Rightarrow> int \<Rightarrow>
    seenNonces \<times> PersistentReplayJournal \<Rightarrow> (seenNonces \<times> PersistentReplayJournal) \<times> (nodeError + unit)" where
  "verifyAndRecord sha256 io replayWindowMs maximumEntries nonce timestampMs nowMs s =
     (case s of (seen, j) \<Rightarrow>
      (let seen1 = filter (\<lambda>(n, e). \<not> e < nowMs) seen in
       if \<bar>nowMs - timestampMs\<bar> > replayWindowMs then ((seen1, j), Inl (SupplierNodeError REQUEST_EXPIRED 401 False))
       else if list_ex (\<lambda>e. fst e = nonce) seen1 then ((seen1, j), Inl (SupplierNodeError REPLAY_DETECTED 409 False))
       else if length seen1 \<ge> maximumEntries then ((seen1, j), Inl (SupplierNodeError CAPACITY_EXCEEDED 503 True))
       else (case claimNonce sha256 io nonce (timestampMs + replayWindowMs) nowMs j of
          (j1, Inl e) \<Rightarrow> ((seen1, j1), Inl e)
        | (j1, Inr u) \<Rightarrow> ((mapSet nonce (timestampMs + replayWindowMs) seen1, j1), Inr ()))))"

definition verifyHeaders :: "(string \<Rightarrow> string) \<Rightarrow> (string \<Rightarrow> string \<Rightarrow> string) \<Rightarrow> string \<Rightarrow> SignedGatewayCall \<Rightarrow>
    nodeError + (string \<times> int \<times> string \<times> string)" where
  "verifyHeaders sha256 hmac gatewayToken call =
     andThen (parseBearer (sc_authorization call)) (\<lambda>bearer.
     andThen (throwIf (\<not> safeTextEqual sha256 bearer gatewayToken) (SupplierNodeError AUTHENTICATION_FAILED 401 False)) (\<lambda>_.
     andThen (requiredPattern (sc_timestamp call) timestampPattern) (\<lambda>timestamp.
     andThen (requiredPattern (sc_nonce call) noncePattern) (\<lambda>nonce.
     andThen (requiredPattern (sc_jobId call) jobIdPattern) (\<lambda>jobId.
     andThen (requiredPattern (sc_signature call) isSha256) (\<lambda>signature.
     let timestampMs = int (nat_of_dec timestamp) in
     andThen (throwIf (\<not> isSafeInteger (NInt timestampMs)) (SupplierNodeError REQUEST_EXPIRED 401 False)) (\<lambda>_.
     let bodySha256 = sha256 (sc_rawBody call);
         expected = createGatewaySignature hmac gatewayToken timestamp nonce jobId bodySha256 in
     andThen (throwIf (\<not> safeTextEqual sha256 signature expected) (SupplierNodeError SIGNATURE_INVALID 401 False)) (\<lambda>_.
     Inr (nonce, timestampMs, jobId, bodySha256)))))))))"

definition REPLAY_WINDOW_MS :: int where
  "REPLAY_WINDOW_MS = 5 * 60000"

definition MAXIMUM_NONCES :: nat where
  "MAXIMUM_NONCES = 10000"

definition verifySignedGatewayCall :: "(string \<Rightarrow> string) \<Rightarrow> (string \<Rightarrow> string \<Rightarrow> string) \<Rightarrow> JournalIo \<Rightarrow> string \<Rightarrow> SignedGatewayCall \<Rightarrow> int \<Rightarrow>
    seenNonces \<times> PersistentReplayJournal \<Rightarrow> (seenNonces \<times> PersistentReplayJournal) \<times> (nodeError + (string \<times> string))" where
  "verifySignedGatewayCall sha256 hmac io gatewayToken call nowMs s =
     (case verifyHeaders sha256 hmac gatewayToken call of
        Inl e \<Rightarrow> (s, Inl e)
      | Inr (nonce, timestampMs, jobId, bodySha256) \<Rightarrow>
        (case verifyAndRecord sha256 io REPLAY_WINDOW_MS MAXIMUM_NONCES nonce timestampMs nowMs s of
           (s1, Inl e) \<Rightarrow> (s1, Inl e)
         | (s1, Inr u) \<Rightarrow> (s1, Inr (jobId, bodySha256))))"

section \<open>Requests\<close>

record SupplierNodeConfig =
  nc_gatewayToken :: string
  nc_providerId :: string
  nc_allowedModels :: "string list"
  nc_allowedDataClasses :: "string list"
  nc_requestsPerMinute :: int
  nc_tokensPerMinute :: int
  nc_concurrency :: int
  nc_maxOutputTokens :: int
  nc_maxInputBytes :: int
  nc_maxArtifactBytes :: int
  nc_artifactSegmentBytes :: int

record SupplierGatewayInferenceRequest =
  ir_request_id :: string
  ir_model :: string
  ir_input :: string
  ir_data_class :: string
  ir_max_output_tokens :: int

definition invalidRequest :: nodeError where
  "invalidRequest = SupplierNodeError INVALID_REQUEST 400 False"

text \<open>A JSON object with exactly the expected keys; its fields.\<close>

definition exactObject :: "string \<Rightarrow> string list \<Rightarrow> nodeError + (string \<times> json) list" where
  "exactObject rawBody expected = (case jsonParse rawBody of
     Some (JsObj fs) \<Rightarrow>
       if length fs \<noteq> length expected \<or> list_ex (\<lambda>f. fst f \<notin> set expected) fs then Inl invalidRequest else Inr fs
   | _ \<Rightarrow> Inl invalidRequest)"

fun stringField :: "json option \<Rightarrow> (string \<Rightarrow> bool) \<Rightarrow> nodeError + string" where
  "stringField (Some (JsStr s)) p = (if p s then Inr s else Inl invalidRequest)"
| "stringField _ p = Inl invalidRequest"

fun positiveField :: "json option \<Rightarrow> nodeError + int" where
  "positiveField (Some (JsNum n)) = (if \<not> isSafeInteger n \<or> numLt n 1 then Inl invalidRequest else Inr (numInt n))"
| "positiveField _ = Inl invalidRequest"

definition parseInferenceRequest :: "string \<Rightarrow> nodeError + SupplierGatewayInferenceRequest" where
  "parseInferenceRequest rawBody =
     andThen (exactObject rawBody [''protocol_version'', ''request_id'', ''model'', ''input'', ''data_class'',
       ''max_output_tokens'', ''stream'']) (\<lambda>fs.
     andThen (throwIf (map_of fs ''protocol_version'' \<noteq> Some (JsStr SUPPLIER_GATEWAY_PROTOCOL_VERSION)) invalidRequest) (\<lambda>_.
     andThen (stringField (map_of fs ''request_id'') jobIdPattern) (\<lambda>requestId.
     andThen (stringField (map_of fs ''model'') (\<lambda>s. 1 \<le> length s \<and> length s \<le> 200)) (\<lambda>model.
     andThen (stringField (map_of fs ''input'') (\<lambda>s. 1 \<le> length s)) (\<lambda>input.
     andThen (stringField (map_of fs ''data_class'') (\<lambda>s. s = ''P0'' \<or> s = ''P1'')) (\<lambda>dataClass.
     andThen (positiveField (map_of fs ''max_output_tokens'')) (\<lambda>maxOut.
     andThen (throwIf (map_of fs ''stream'' \<noteq> Some (JsBool False)) invalidRequest) (\<lambda>_.
     Inr \<lparr>ir_request_id = requestId, ir_model = model, ir_input = input, ir_data_class = dataClass,
          ir_max_output_tokens = maxOut\<rparr>))))))))"

definition parseAttestationRequest :: "string \<Rightarrow> nodeError + (string \<times> string)" where
  "parseAttestationRequest rawBody =
     andThen (exactObject rawBody [''protocol_version'', ''request_id'', ''challenge'']) (\<lambda>fs.
     andThen (throwIf (map_of fs ''protocol_version'' \<noteq> Some (JsStr SUPPLIER_GATEWAY_PROTOCOL_VERSION)) invalidRequest) (\<lambda>_.
     andThen (stringField (map_of fs ''request_id'') jobIdPattern) (\<lambda>requestId.
     andThen (stringField (map_of fs ''challenge'') (\<lambda>s. 32 \<le> length s \<and> length s \<le> 128 \<and> list_all is_token_char s)) (\<lambda>challenge.
     Inr (requestId, challenge)))))"

definition validateRequestAgainstConfig :: "SupplierGatewayInferenceRequest \<Rightarrow> SupplierNodeConfig \<Rightarrow> nodeError + unit" where
  "validateRequestAgainstConfig request config =
     (if ir_model request \<notin> set (nc_allowedModels config) then Inl (SupplierNodeError MODEL_NOT_ALLOWED 403 False)
      else if ir_data_class request \<notin> set (nc_allowedDataClasses config) then Inl (SupplierNodeError DATA_CLASS_NOT_ALLOWED 403 False)
      else if int (byteLength (ir_input request)) > nc_maxInputBytes config then Inl (SupplierNodeError INVALID_REQUEST 413 False)
      else if ir_max_output_tokens request > nc_maxOutputTokens config then Inl (SupplierNodeError CAPACITY_EXCEEDED 409 False)
      else Inr ())"

section \<open>Replies\<close>

record SupplierProviderResult =
  pr_output :: jsval
  pr_providerRequestId :: jsval
  pr_servedModel :: jsval
  pr_inputTokens :: jsnum
  pr_outputTokens :: jsnum
  pr_totalTokens :: jsnum
  pr_receiptRef :: "string option"

record SupplierGatewayInferenceResponse =
  gr_output :: string
  gr_usage :: SupplierGatewayUsage
  gr_evidence :: ExecutionEvidenceShape
  gr_completed_at :: string
  gr_signature :: string

record SupplierGatewayHealth =
  gh_status :: string
  gh_provider_id :: string
  gh_allowed_models :: "string list"
  gh_allowed_data_classes :: "string list"
  gh_requests_per_minute :: int
  gh_tokens_per_minute :: int
  gh_concurrency :: int
  gh_max_output_tokens :: int

datatype nodeBody =
    InferenceBody SupplierGatewayInferenceResponse
  | AttestationBody SupplierGatewayHealth string string
  | ErrorBody SupplierGatewayErrorCode bool "string option"

type_synonym nodeResult = "int \<times> nodeBody"

definition errorResult :: "nodeError \<Rightarrow> string option \<Rightarrow> nodeResult" where
  "errorResult e requestId = (case normalizeSupplierNodeError e of (code, status, retryable) \<Rightarrow>
     (status, ErrorBody code retryable requestId))"

fun textWithin :: "jsval \<Rightarrow> nat \<Rightarrow> bool" where
  "textWithin (JStr s) maximum \<longleftrightarrow> 1 \<le> length s \<and> length s \<le> maximum"
| "textWithin _ maximum \<longleftrightarrow> False"

definition validateProviderResult :: "SupplierProviderResult \<Rightarrow> string \<Rightarrow> int \<Rightarrow> nodeError + unit" where
  "validateProviderResult result requestedModel maximumOutputTokens =
     (if \<not> textWithin (pr_output result) 200000 \<or> \<not> textWithin (pr_providerRequestId result) 256 \<or>
         \<not> textWithin (pr_servedModel result) 200 then Inl (SupplierNodeError UPSTREAM_RESPONSE_INVALID 502 False)
      else if pr_servedModel result \<noteq> JStr requestedModel then Inl (SupplierNodeError UPSTREAM_MODEL_MISMATCH 502 False)
      else let i = pr_inputTokens result; out = pr_outputTokens result; t = pr_totalTokens result in
        if \<not> isSafeInteger i \<or> numLt i 1 \<or> \<not> isSafeInteger out \<or> numLt out 0 \<or> numGt out maximumOutputTokens \<or>
           \<not> isSafeInteger t \<or> t \<noteq> NInt (dbl (numInt i + numInt out))
        then Inl (SupplierNodeError UPSTREAM_RESPONSE_INVALID 502 False) else Inr ())"

definition createExecutionEvidenceSignature :: "(string \<Rightarrow> string \<Rightarrow> string) \<Rightarrow> string \<Rightarrow> ExecutionEvidenceShape \<Rightarrow> string \<Rightarrow> string" where
  "createExecutionEvidenceSignature hmac gatewayToken evidence completedAt =
     hmac gatewayToken (createSupplierGatewayExecutionEvidencePayload SUPPLIER_GATEWAY_EXECUTION_EVIDENCE_VERSION evidence completedAt)"

definition executionReply :: "(string \<Rightarrow> string) \<Rightarrow> (string \<Rightarrow> string \<Rightarrow> string) \<Rightarrow> SupplierNodeConfig \<Rightarrow>
    SupplierGatewayInferenceRequest \<Rightarrow> string \<Rightarrow> SupplierProviderResult \<Rightarrow> SupplierGatewayInferenceResponse" where
  "executionReply sha256 hmac config request completedAt result =
     (let output = strOf (pr_output result);
          usage = \<lparr>input_tokens = numInt (pr_inputTokens result), output_tokens = numInt (pr_outputTokens result),
            total_tokens = numInt (pr_totalTokens result)\<rparr>;
          evidence = \<lparr>xe_request_id = ir_request_id request, xe_provider_id = nc_providerId config,
            xe_requested_model = ir_model request, xe_served_model = strOf (pr_servedModel result),
            xe_provider_request_id = strOf (pr_providerRequestId result), xe_input_sha256 = sha256 (ir_input request),
            xe_output_sha256 = sha256 output, xe_usage = usage,
            xe_receipt_ref = (if pr_receiptRef result = Some [] then None else pr_receiptRef result)\<rparr> in
      \<lparr>gr_output = output, gr_usage = usage, gr_evidence = evidence, gr_completed_at = completedAt,
       gr_signature = createExecutionEvidenceSignature hmac (nc_gatewayToken config) evidence completedAt\<rparr>)"

text \<open>The reply to an execution whose upstream call ended, with a result or by throwing.\<close>

definition executionResult :: "(string \<Rightarrow> string) \<Rightarrow> (string \<Rightarrow> string \<Rightarrow> string) \<Rightarrow> SupplierNodeConfig \<Rightarrow>
    SupplierGatewayInferenceRequest \<Rightarrow> string \<Rightarrow> nodeError + SupplierProviderResult \<Rightarrow> nodeResult" where
  "executionResult sha256 hmac config request completedAt outcome =
     (case andThen outcome (\<lambda>r. andThen (validateProviderResult r (ir_model request) (ir_max_output_tokens request)) (\<lambda>_. Inr r)) of
        Inl e \<Rightarrow> errorResult e (Some (ir_request_id request))
      | Inr r \<Rightarrow> (200, InferenceBody (executionReply sha256 hmac config request completedAt r)))"

section \<open>Runtime\<close>

text \<open>A pending promise holds what its execution still has to call, the \<open>release\<close> of its capacity.\<close>

datatype promise = PendingResult nat | FulfilledResult nodeResult | RejectedResult nodeError

record IdempotencyEntry =
  ie_bodySha256 :: string
  ie_expiresAt :: int
  ie_result :: nat

record SupplierNodeRuntime =
  sn_capacity :: CapacityGate
  sn_journal :: PersistentReplayJournal
  sn_seen :: seenNonces
  sn_idempotency :: "(string \<times> IdempotencyEntry) list"
  sn_promises :: "promise list"
  sn_draining :: bool

datatype admission =
    Answered nodeResult
  | Joined nat string
  | Invoked nat SupplierGatewayInferenceRequest

definition IDEMPOTENCY_TTL_MS :: int where
  "IDEMPOTENCY_TTL_MS = 15 * 60000"

definition MAXIMUM_IDEMPOTENCY_ENTRIES :: nat where
  "MAXIMUM_IDEMPOTENCY_ENTRIES = 1000"

definition health :: "SupplierNodeConfig \<Rightarrow> SupplierNodeRuntime \<Rightarrow> SupplierGatewayHealth" where
  "health config n =
     \<lparr>gh_status = (if sn_draining n \<or> \<not> isHealthy (sn_journal n) then ''draining'' else ''ready''),
      gh_provider_id = nc_providerId config, gh_allowed_models = nc_allowedModels config,
      gh_allowed_data_classes = nc_allowedDataClasses config, gh_requests_per_minute = nc_requestsPerMinute config,
      gh_tokens_per_minute = nc_tokensPerMinute config, gh_concurrency = nc_concurrency config,
      gh_max_output_tokens = nc_maxOutputTokens config\<rparr>"

definition readiness :: "SupplierNodeConfig \<Rightarrow> SupplierNodeRuntime \<Rightarrow> string \<times> string" where
  "readiness config n = (gh_status (health config n), SUPPLIER_GATEWAY_PROTOCOL_VERSION)"

definition setDraining :: "SupplierNodeRuntime \<Rightarrow> SupplierNodeRuntime" where
  "setDraining n = n\<lparr>sn_draining := True\<rparr>"

definition pruneIdempotency :: "int \<Rightarrow> SupplierNodeRuntime \<Rightarrow> SupplierNodeRuntime" where
  "pruneIdempotency nowMs n = n\<lparr>sn_idempotency := filter (\<lambda>(k, e). \<not> ie_expiresAt e < nowMs) (sn_idempotency n)\<rparr>"

text \<open>The part of \<open>execute\<close> before its first \<open>await\<close>: the capacity gate and the call of the adapter.\<close>

definition startExecution :: "SupplierNodeConfig \<Rightarrow> SupplierGatewayInferenceRequest \<Rightarrow> int \<Rightarrow> SupplierNodeRuntime \<Rightarrow>
    SupplierNodeRuntime \<times> admission" where
  "startExecution config request clockMs n =
     (let pid = length (sn_promises n);
          estimatedTokens = int (byteLength (ir_input request)) + ir_max_output_tokens request in
      case acquire (nc_requestsPerMinute config) (nc_tokensPerMinute config) (nc_concurrency config) estimatedTokens clockMs (sn_capacity n) of
        (g, Inl e) \<Rightarrow> (n\<lparr>sn_capacity := g, sn_promises := sn_promises n @ [RejectedResult e]\<rparr>, Joined pid (ir_request_id request))
      | (g, Inr k) \<Rightarrow> (n\<lparr>sn_capacity := g, sn_promises := sn_promises n @ [PendingResult k]\<rparr>, Invoked pid request))"

text \<open>From a verified call to an answer, to a shared result or to a new execution.\<close>

definition admitRequest :: "(string \<Rightarrow> string) \<Rightarrow> (string \<Rightarrow> string \<Rightarrow> string) \<Rightarrow> SupplierNodeConfig \<Rightarrow> JournalIo \<Rightarrow>
    SupplierGatewayInferenceRequest \<Rightarrow> string \<Rightarrow> int \<Rightarrow> int \<Rightarrow> SupplierNodeRuntime \<Rightarrow> SupplierNodeRuntime \<times> admission" where
  "admitRequest sha256 hmac config io request bodySha256 nowMs clockMs n0 =
     (let n = pruneIdempotency nowMs n0; requestId = ir_request_id request in
      case map_of (sn_idempotency n) requestId of
        Some entry \<Rightarrow>
          if ie_bodySha256 entry \<noteq> bodySha256
          then (n, Answered (errorResult (SupplierNodeError IDEMPOTENCY_CONFLICT 409 False) (Some requestId)))
          else (n, Joined (ie_result entry) requestId)
      | None \<Rightarrow>
          if length (sn_idempotency n) \<ge> MAXIMUM_IDEMPOTENCY_ENTRIES
          then (n, Answered (errorResult (SupplierNodeError CAPACITY_EXCEEDED 503 True) (Some requestId)))
          else (case claimRequest sha256 hmac (nc_gatewayToken config) io requestId bodySha256 (nowMs + IDEMPOTENCY_TTL_MS) nowMs (sn_journal n) of
             (j, Inl e) \<Rightarrow> (n\<lparr>sn_journal := j\<rparr>, Answered (errorResult e (Some requestId)))
           | (j, Inr u) \<Rightarrow>
             (case startExecution config request clockMs (n\<lparr>sn_journal := j\<rparr>) of
                (n1, a) \<Rightarrow> (n1\<lparr>sn_idempotency := mapSet requestId
                    \<lparr>ie_bodySha256 = bodySha256, ie_expiresAt = nowMs + IDEMPOTENCY_TTL_MS, ie_result = length (sn_promises n)\<rparr>
                    (sn_idempotency n1)\<rparr>, a))))"

definition handleInference :: "(string \<Rightarrow> string) \<Rightarrow> (string \<Rightarrow> string \<Rightarrow> string) \<Rightarrow> SupplierNodeConfig \<Rightarrow> JournalIo \<Rightarrow> JournalIo \<Rightarrow>
    SignedGatewayCall \<Rightarrow> int \<Rightarrow> int \<Rightarrow> SupplierNodeRuntime \<Rightarrow> SupplierNodeRuntime \<times> admission" where
  "handleInference sha256 hmac config io io' call nowMs clockMs n =
     (if sn_draining n then (n, Answered (errorResult (SupplierNodeError CAPACITY_EXCEEDED 503 True) None))
      else (case verifySignedGatewayCall sha256 hmac io (nc_gatewayToken config) call nowMs (sn_seen n, sn_journal n) of
         ((seen, j), Inl e) \<Rightarrow> (n\<lparr>sn_seen := seen, sn_journal := j\<rparr>, Answered (errorResult e None))
       | ((seen, j), Inr (jobId, bodySha256)) \<Rightarrow>
         (let n1 = n\<lparr>sn_seen := seen, sn_journal := j\<rparr> in
          case andThen (parseInferenceRequest (sc_rawBody call)) (\<lambda>request.
               andThen (throwIf (ir_request_id request \<noteq> jobId) (SupplierNodeError SIGNATURE_INVALID 401 False)) (\<lambda>_.
               andThen (validateRequestAgainstConfig request config) (\<lambda>_. Inr request))) of
            Inl e \<Rightarrow> (n1, Answered (errorResult e (Some jobId)))
          | Inr request \<Rightarrow> admitRequest sha256 hmac config io' request bodySha256 nowMs clockMs n1)))"

definition handleAttestation :: "(string \<Rightarrow> string) \<Rightarrow> (string \<Rightarrow> string \<Rightarrow> string) \<Rightarrow> SupplierNodeConfig \<Rightarrow> JournalIo \<Rightarrow>
    SignedGatewayCall \<Rightarrow> int \<Rightarrow> SupplierNodeRuntime \<Rightarrow> SupplierNodeRuntime \<times> nodeResult" where
  "handleAttestation sha256 hmac config io call nowMs n =
     (case verifySignedGatewayCall sha256 hmac io (nc_gatewayToken config) call nowMs (sn_seen n, sn_journal n) of
        ((seen, j), Inl e) \<Rightarrow> (n\<lparr>sn_seen := seen, sn_journal := j\<rparr>, errorResult e None)
      | ((seen, j), Inr (jobId, bodySha256)) \<Rightarrow>
        (let n1 = n\<lparr>sn_seen := seen, sn_journal := j\<rparr> in
         case parseAttestationRequest (sc_rawBody call) of
           Inl e \<Rightarrow> (n1, errorResult e (Some jobId))
         | Inr (requestId, challenge) \<Rightarrow>
           if requestId \<noteq> jobId then (n1, errorResult (SupplierNodeError SIGNATURE_INVALID 401 False) (Some jobId))
           else (n1, (200, AttestationBody (health config n1) requestId challenge))))"

text \<open>
  The end of an execution that waits for its provider: the capacity is given back and the promise settled.
  An execution ends once.
\<close>

definition finishExecution :: "(string \<Rightarrow> string) \<Rightarrow> (string \<Rightarrow> string \<Rightarrow> string) \<Rightarrow> SupplierNodeConfig \<Rightarrow> nat \<Rightarrow>
    SupplierGatewayInferenceRequest \<Rightarrow> string \<Rightarrow> nodeError + SupplierProviderResult \<Rightarrow> SupplierNodeRuntime \<Rightarrow> SupplierNodeRuntime" where
  "finishExecution sha256 hmac config pid request completedAt outcome n =
     (if pid < length (sn_promises n) then
        (case sn_promises n ! pid of
           PendingResult k \<Rightarrow> n\<lparr>sn_capacity := release k (sn_capacity n),
             sn_promises := (sn_promises n)[pid := FulfilledResult (executionResult sha256 hmac config request completedAt outcome)]\<rparr>
         | _ \<Rightarrow> n)
      else n)"

text \<open>What a call that awaits a promise answers once it is settled.\<close>

definition awaitResult :: "SupplierNodeRuntime \<Rightarrow> nat \<Rightarrow> string \<Rightarrow> nodeResult option" where
  "awaitResult n pid requestId = (if pid < length (sn_promises n) then (case sn_promises n ! pid of
     PendingResult k \<Rightarrow> None | FulfilledResult r \<Rightarrow> Some r | RejectedResult e \<Rightarrow> Some (errorResult e (Some requestId))) else None)"

definition newRuntime :: "(string \<Rightarrow> string \<Rightarrow> string) \<Rightarrow> SupplierNodeConfig \<Rightarrow> string \<Rightarrow> string \<Rightarrow> OpenIo \<Rightarrow> int \<Rightarrow> string \<Rightarrow>
    string \<times> (nodeError + SupplierNodeRuntime)" where
  "newRuntime hmac config adapterProviderId journalPath io nowMs file =
     (if adapterProviderId \<noteq> nc_providerId config \<or> js_trim journalPath = [] then (file, Inl OtherError)
      else (case openJournal hmac (nc_gatewayToken config) (NInt DEFAULT_COMPACTION_INTERVAL_MILLISECONDS) io nowMs file of
         (file', Inl e) \<Rightarrow> (file', Inl e)
       | (file', Inr j) \<Rightarrow> (file', Inr \<lparr>sn_capacity = newGate, sn_journal = j, sn_seen = [],
            sn_idempotency = [], sn_promises = [], sn_draining = False\<rparr>)))"

end
