(* ===== verification/NodeSafety.thy ===== *)
theory NodeSafety
  imports SupplierNode
begin

text \<open>
  What the supplier node guarantees: its rate limits hold in every sliding minute, an execution is
  started at most once per request within the protection window even across restarts, only calls signed
  with the gateway token are admitted, and a call signed by the control plane is admitted as it was meant.
\<close>

section \<open>Capacity\<close>

text \<open>
  A history of the gate: acquisitions in the order of a clock that does not run backwards, and calls of the
  \<open>release\<close> functions handed out, each any number of times. Beside the gate it keeps the admissions granted so far
  and the executions that run, which are those admitted and not yet released.
\<close>

datatype gateOp = Acquire int int | Release nat

fun gateStep :: "int \<Rightarrow> int \<Rightarrow> int \<Rightarrow> CapacityGate \<times> (int \<times> int) list \<times> nat list \<Rightarrow> gateOp \<Rightarrow>
    CapacityGate \<times> (int \<times> int) list \<times> nat list" where
  "gateStep rpm tpm conc (g, granted, running) (Acquire est t) =
     (case acquire rpm tpm conc est t g of
        (g', Inl e) \<Rightarrow> (g', granted, running)
      | (g', Inr k) \<Rightarrow> (g', granted @ [(t, est)], running @ [k]))"
| "gateStep rpm tpm conc (g, granted, running) (Release k) = (release k g, granted, removeAll k running)"

fun acquireTimes :: "gateOp list \<Rightarrow> int list" where
  "acquireTimes [] = []"
| "acquireTimes (Acquire est t # ops) = t # acquireTimes ops"
| "acquireTimes (Release k # ops) = acquireTimes ops"

definition gateRun :: "int \<Rightarrow> int \<Rightarrow> int \<Rightarrow> gateOp list \<Rightarrow> CapacityGate \<times> (int \<times> int) list \<times> nat list" where
  "gateRun rpm tpm conc ops = foldl (gateStep rpm tpm conc) (newGate, [], []) ops"

text \<open>The counter of the gate is the number of admissions whose closure has not been called.\<close>

definition counts :: "CapacityGate \<Rightarrow> nat list \<Rightarrow> bool" where
  "counts g running \<longleftrightarrow> distinct running \<and> (\<forall>k. k \<in> set running \<longleftrightarrow> k < length (cg_released g) \<and> \<not> cg_released g ! k) \<and>
     cg_active g = int (length running)"

lemma counts_acquire:
  assumes "counts g running" "acquire rpm tpm conc est t g = (g', Inr k)"
  shows "counts g' (running @ [k])" "cg_active g < conc"
proof -
  from assms(2) have g': "cg_released g' = cg_released g @ [False]" "cg_active g' = cg_active g + 1" "k = length (cg_released g)"
    by (auto simp: acquire_def Let_def split: if_splits)
  from assms(2) show "cg_active g < conc" by (auto simp: acquire_def Let_def split: if_splits)
  from assms(1) have c: "distinct running" "cg_active g = int (length running)"
    "\<And>j. j \<in> set running \<longleftrightarrow> j < length (cg_released g) \<and> \<not> cg_released g ! j" by (auto simp: counts_def)
  have "j \<in> set (running @ [k]) \<longleftrightarrow> j < length (cg_released g') \<and> \<not> cg_released g' ! j" for j
    using c(3) [of j] unfolding g'(1,3) by (auto simp: nth_append less_Suc_eq)
  moreover have "distinct (running @ [k])" using c(1) c(3) [of k] unfolding g'(3) by simp
  ultimately show "counts g' (running @ [k])" unfolding counts_def using c(2) g'(2) by simp
qed

lemma acquire_refused:
  "acquire rpm tpm conc est t g = (g', Inl e) \<Longrightarrow>
   cg_active g' = cg_active g \<and> cg_released g' = cg_released g \<and> e = SupplierNodeError CAPACITY_EXCEEDED 429 True"
  by (auto simp: acquire_def Let_def split: if_splits)

lemma length_removeAll_distinct: "distinct xs \<Longrightarrow> x \<in> set xs \<Longrightarrow> Suc (length (removeAll x xs)) = length xs"
  by (induction xs) auto

lemma counts_release: "counts g running \<Longrightarrow> counts (release k g) (removeAll k running)"
proof (cases "k \<in> set running")
  case True
  assume c: "counts g running"
  with True length_removeAll_distinct [of running k] show ?thesis
    by (auto simp: counts_def release_def nth_list_update distinct_removeAll)
next
  case False
  assume c: "counts g running"
  with False show ?thesis by (auto simp: counts_def release_def)
qed

text \<open>The grants of the minute that ends at a time.\<close>

definition minute :: "int \<Rightarrow> (int \<times> int) list \<Rightarrow> (int \<times> int) list" where
  "minute t es = filter (\<lambda>(a, tokens). t - 60000 < a \<and> a \<le> t) es"

text \<open>The loop that drops the head of the queue drops every entry that is old.\<close>

lemma prune_is_filter:
  "sorted (map fst es) \<Longrightarrow> pruneEntries t es = filter (\<lambda>(a, tokens). t - 60000 < a) es"
  by (induction t es rule: pruneEntries.induct) (auto intro!: filter_True [symmetric])

definition gateInv :: "int \<Rightarrow> int \<Rightarrow> int \<Rightarrow> int \<Rightarrow> CapacityGate \<times> (int \<times> int) list \<times> nat list \<Rightarrow> bool" where
  "gateInv rpm tpm conc t s \<longleftrightarrow> (case s of (g, granted, running) \<Rightarrow>
     sorted (map fst granted) \<and> (\<forall>e \<in> set granted. fst e \<le> t \<and> 0 \<le> snd e) \<and>
     (\<exists>t' \<le> t. cg_entries g = filter (\<lambda>(a, tokens). t' - 60000 < a) granted) \<and>
     counts g running \<and> int (length running) \<le> conc \<and>
     (\<forall>u. int (length (minute u granted)) \<le> rpm \<and> sum_list (map snd (minute u granted)) \<le> tpm))"

lemma minute_snoc: "minute u (es @ [(t, x)]) = minute u es @ (if u - 60000 < t \<and> t \<le> u then [(t, x)] else [])"
  by (simp add: minute_def)

lemma sum_pairs_filter_le:
  fixes es :: "(int \<times> int) list"
  assumes "\<And>e. e \<in> set es \<Longrightarrow> 0 \<le> snd e" "\<And>e. e \<in> set es \<Longrightarrow> p e \<Longrightarrow> q e"
  shows "sum_list (map snd (filter p es)) \<le> sum_list (map snd (filter q es)) \<and> length (filter p es) \<le> length (filter q es)"
  using assms by (induction es) (auto simp: le_SucI add_increasing)

lemma gate_acquire_inv:
  assumes inv: "gateInv rpm tpm conc t (g, granted, running)" and t: "t \<le> t2" and est: "0 \<le> est" and pos: "0 \<le> conc"
  shows "gateInv rpm tpm conc t2 (gateStep rpm tpm conc (g, granted, running) (Acquire est t2))"
proof -
  from inv obtain t' where g: "sorted (map fst granted)" "\<forall>e \<in> set granted. fst e \<le> t \<and> 0 \<le> snd e" "t' \<le> t"
    "cg_entries g = filter (\<lambda>(a, tokens). t' - 60000 < a) granted" "counts g running" "int (length running) \<le> conc"
    "\<And>u. int (length (minute u granted)) \<le> rpm" "\<And>u. sum_list (map snd (minute u granted)) \<le> tpm"
    by (auto simp: gateInv_def)
  let ?es = "filter (\<lambda>(a, tokens). t2 - 60000 < a) granted"
  have es: "pruneEntries t2 (cg_entries g) = ?es"
  proof -
    have "sorted (map fst (cg_entries g))" using g(1,4) by (simp add: sorted_filter)
    moreover have "filter (\<lambda>(a, tokens). t2 - 60000 < a) (cg_entries g) = ?es"
      using g(3,4) t by (auto intro!: filter_cong)
    ultimately show ?thesis by (simp add: prune_is_filter)
  qed
  have now: "minute t2 granted = ?es" using g(2) t by (fastforce simp: minute_def intro!: filter_cong)
  have later: "int (length (minute u (granted @ [(t2, est)]))) \<le> rpm \<and> sum_list (map snd (minute u (granted @ [(t2, est)]))) \<le> tpm"
    if "int (length ?es) < rpm" "sum_list (map snd ?es) + est \<le> tpm" for u
  proof (cases "u - 60000 < t2 \<and> t2 \<le> u")
    case True
    have "sum_list (map snd (minute u granted)) \<le> sum_list (map snd ?es) \<and> length (minute u granted) \<le> length ?es"
      unfolding minute_def using g(2) True t by (intro sum_pairs_filter_le) auto
    with True that show ?thesis by (auto simp: minute_snoc)
  next
    case False
    then have "minute u (granted @ [(t2, est)]) = minute u granted" by (auto simp: minute_snoc)
    with g(7,8) show ?thesis by simp
  qed
  have "sorted (map fst (granted @ [(t2, est)]))" using g(1,2) t by (auto simp: sorted_append)
  note sorted = this
  obtain g' r where acq: "acquire rpm tpm conc est t2 g = (g', r)" by fastforce
  show ?thesis
  proof (cases r)
    case (Inl e)
    with acq es have "cg_entries g' = ?es" by (auto simp: acquire_def Let_def split: if_splits)
    moreover have "counts g' running" using acquire_refused [OF acq [unfolded Inl]] g(5) by (simp add: counts_def)
    ultimately show ?thesis using g(1,2,6-8) t acq Inl by (auto simp: gateInv_def intro!: exI [of _ t2] order_trans [OF _ t])
  next
    case (Inr k)
    with acq es have n: "cg_entries g' = ?es @ [(t2, est)]" "int (length ?es) < rpm" "sum_list (map snd ?es) + est \<le> tpm"
      by (auto simp: acquire_def Let_def split: if_splits)
    note c = counts_acquire [OF g(5) acq [unfolded Inr]]
    have "int (length (running @ [k])) \<le> conc" using c(2) g(5) by (simp add: counts_def)
    then show ?thesis using sorted g(2) t est acq Inr n(1) later [OF n(2,3)] c(1)
      by (auto simp: gateInv_def intro!: exI [of _ t2] order_trans [OF _ t])
  qed
qed

lemma gate_inv_run:
  assumes "gateInv rpm tpm conc t s" "sorted (t # acquireTimes ops)" "\<forall>est u. Acquire est u \<in> set ops \<longrightarrow> 0 \<le> est" "0 \<le> conc"
  shows "\<exists>t'. gateInv rpm tpm conc t' (foldl (gateStep rpm tpm conc) s ops)"
  using assms
proof (induction ops arbitrary: s t)
  case (Cons p ops)
  obtain g granted running where s: "s = (g, granted, running)" by (metis prod.collapse)
  have rest: "\<forall>est u. Acquire est u \<in> set ops \<longrightarrow> 0 \<le> est" using Cons.prems(3) by simp
  show ?case
  proof (cases p)
    case (Acquire est t2)
    have "gateInv rpm tpm conc t2 (gateStep rpm tpm conc s p)"
      unfolding s Acquire using Cons.prems s Acquire by (intro gate_acquire_inv) auto
    then show ?thesis using Cons.IH [OF _ _ rest Cons.prems(4)] Cons.prems(2) Acquire by simp
  next
    case (Release k)
    have "cg_entries (release k g) = cg_entries g" by (simp add: release_def)
    moreover have "int (length running) \<le> conc \<Longrightarrow> int (length (removeAll k running)) \<le> conc"
      using length_removeAll_less_eq [of k running] by linarith
    ultimately have "gateInv rpm tpm conc t (gateStep rpm tpm conc s p)"
      using Cons.prems(1) counts_release [of g running k] by (auto simp: s Release gateInv_def)
    then show ?thesis using Cons.IH [OF _ _ rest Cons.prems(4)] Cons.prems(2) Release by simp
  qed
qed auto

text \<open>
  C35: The node keeps the limits of its configuration in every sliding minute. Whatever requests arrive,
  as long as the clock does not run backwards, the executions admitted in any window of 60 seconds are at
  most the configured number, their estimated tokens sum to at most the configured tokens, and the
  executions admitted and not yet released are never more than the configured concurrency, however often
  the release functions are called; the counter of the gate is their number.
\<close>

theorem node_rate_limits:
  assumes "gateRun rpm tpm conc ops = (g, granted, running)" "sorted (acquireTimes ops)"
    and "\<forall>est t. Acquire est t \<in> set ops \<longrightarrow> 0 \<le> est" "0 \<le> rpm" "0 \<le> tpm" "0 \<le> conc"
  shows "int (length (minute u granted)) \<le> rpm \<and> sum_list (map snd (minute u granted)) \<le> tpm \<and>
    int (length running) \<le> conc \<and> distinct running \<and> cg_active g = int (length running)"
proof -
  define t where "t = (case acquireTimes ops of [] \<Rightarrow> 0 | t # ts \<Rightarrow> t)"
  have "sorted (t # acquireTimes ops)" using assms(2) by (cases "acquireTimes ops") (auto simp: t_def)
  moreover have "gateInv rpm tpm conc t (newGate, [], [])"
    using assms(4-6) by (auto simp: gateInv_def minute_def newGate_def counts_def)
  ultimately obtain t' where "gateInv rpm tpm conc t' (g, granted, running)"
    using gate_inv_run assms(1,3,6) unfolding gateRun_def by metis
  then show ?thesis by (auto simp: gateInv_def counts_def)
qed

section \<open>Admission\<close>

lemma nat_of_dec_below: "list_all is_digit ds \<Longrightarrow> nat_of_dec ds < 10 ^ length ds"
proof (induction ds rule: rev_induct)
  case Nil
  then show ?case by (simp add: nat_of_dec_def)
next
  case (snoc c ds)
  then have "(of_char c :: nat) \<le> 57" by (simp add: is_digit_def)
  then have "digit_val c \<le> 9" by (simp add: digit_val_def)
  with snoc show ?case by (simp add: nat_of_dec_snoc)
qed

lemma requiredPattern_Inr [simp]: "requiredPattern v p = Inr s \<longleftrightarrow> v = Some s \<and> s \<noteq> [] \<and> p s"
  by (auto simp: requiredPattern_def split: option.splits)

lemma parseBearer_Inr: "parseBearer v = Inr token \<longleftrightarrow> v = Some (''Bearer '' @ token) \<and> token \<noteq> [] \<and> length token \<le> 4096"
  by (auto simp: parseBearer_def startsWith_iff Let_def split: option.splits if_splits)

lemma verifyHeaders_Inr:
  "verifyHeaders sha256 hmac token call = Inr (nonce, ts, jobId, body) \<longleftrightarrow>
   (\<exists>bearer timestamp signature. sc_authorization call = Some (''Bearer '' @ bearer) \<and> bearer \<noteq> [] \<and> length bearer \<le> 4096 \<and>
      sha256 bearer = sha256 token \<and> sc_timestamp call = Some timestamp \<and> timestampPattern timestamp \<and>
      sc_nonce call = Some nonce \<and> noncePattern nonce \<and> sc_jobId call = Some jobId \<and> jobIdPattern jobId \<and>
      sc_signature call = Some signature \<and> isSha256 signature \<and> ts = int (nat_of_dec timestamp) \<and> body = sha256 (sc_rawBody call) \<and>
      sha256 signature = sha256 (createGatewaySignature hmac token timestamp nonce jobId body))"
proof -
  have ne: "timestampPattern s \<Longrightarrow> s \<noteq> []" "noncePattern s \<Longrightarrow> s \<noteq> []" "isSha256 s \<Longrightarrow> s \<noteq> []" for s
    by (auto simp: timestampPattern_def noncePattern_def isSha256_def)
  have safe: "timestampPattern s \<Longrightarrow> \<bar>int (nat_of_dec s)\<bar> \<le> MAX_SAFE_INTEGER" for s
    using nat_of_dec_below [of s] by (auto simp: timestampPattern_def MAX_SAFE_INTEGER_def)
  show ?thesis
    using ne safe by (fastforce simp: verifyHeaders_def parseBearer_Inr Let_def safeTextEqual_def)
qed

lemma verifyAndRecord_Inr:
  assumes "verifyAndRecord sha256 io window maximum nonce ts t (seen, j) = ((seen', j'), Inr u)"
  shows "\<bar>t - ts\<bar> \<le> window \<and> claimNonce sha256 io nonce (ts + window) t j = (j', Inr ()) \<and>
    (\<forall>e. (nonce, e) \<in> set seen \<longrightarrow> e < t)"
  using assms by (auto simp: verifyAndRecord_def Let_def list_ex_iff split: if_splits prod.splits sum.splits)

lemma verifySigned_Inr:
  assumes "verifySignedGatewayCall sha256 hmac io token call t (seen, j) = ((seen', j'), Inr (jobId, body))"
  shows "\<exists>nonce ts. verifyHeaders sha256 hmac token call = Inr (nonce, ts, jobId, body) \<and>
    verifyAndRecord sha256 io REPLAY_WINDOW_MS MAXIMUM_NONCES nonce ts t (seen, j) = ((seen', j'), Inr ())"
  using assms by (auto simp: verifySignedGatewayCall_def split: sum.splits prod.splits)

lemma startExecution_cases:
  assumes "startExecution config request clockMs n = (n', a)"
  shows "sn_journal n' = sn_journal n \<and> sn_idempotency n' = sn_idempotency n \<and>
    (a = Joined (length (sn_promises n)) (ir_request_id request) \<or> a = Invoked (length (sn_promises n)) request)"
  using assms by (auto simp: startExecution_def Let_def split: prod.splits sum.splits)

lemma admitRequest_invoked:
  assumes "admitRequest sha256 hmac config io request body t clockMs n = (n', Invoked pid r)"
  shows "r = request \<and> claimRequest sha256 hmac (nc_gatewayToken config) io (ir_request_id request) body (t + IDEMPOTENCY_TTL_MS) t (sn_journal n) =
      (sn_journal n', Inr ())"
proof -
  obtain j x where c: "claimRequest sha256 hmac (nc_gatewayToken config) io (ir_request_id request) body (t + IDEMPOTENCY_TTL_MS) t (sn_journal n) = (j, x)"
    by fastforce
  obtain n1 a where s: "startExecution config request clockMs ((pruneIdempotency t n)\<lparr>sn_journal := j\<rparr>) = (n1, a)" by fastforce
  from assms c s have "x = Inr ()" "a = Invoked pid r" "sn_journal n' = sn_journal n1"
    by (auto simp: admitRequest_def Let_def pruneIdempotency_def split: if_splits option.splits sum.splits)
  with startExecution_cases [OF s] c show ?thesis by auto
qed

lemma handleInference_invoked:
  assumes "handleInference sha256 hmac config io io' call t clockMs n = (n', Invoked pid request)"
  shows "\<exists>seen j body. verifySignedGatewayCall sha256 hmac io (nc_gatewayToken config) call t (sn_seen n, sn_journal n) =
      ((seen, j), Inr (ir_request_id request, body)) \<and>
    parseInferenceRequest (sc_rawBody call) = Inr request \<and> validateRequestAgainstConfig request config = Inr () \<and>
    claimRequest sha256 hmac (nc_gatewayToken config) io' (ir_request_id request) body (t + IDEMPOTENCY_TTL_MS) t j = (sn_journal n', Inr ())"
proof -
  obtain seen j v where v: "verifySignedGatewayCall sha256 hmac io (nc_gatewayToken config) call t (sn_seen n, sn_journal n) = ((seen, j), v)"
    by (metis prod.collapse)
  with assms obtain jobId body where w: "v = Inr (jobId, body)"
    by (cases v) (auto simp: handleInference_def split: if_splits)
  let ?n1 = "n\<lparr>sn_seen := seen, sn_journal := j\<rparr>"
  let ?p = "andThen (parseInferenceRequest (sc_rawBody call)) (\<lambda>request.
               andThen (throwIf (ir_request_id request \<noteq> jobId) (SupplierNodeError SIGNATURE_INVALID 401 False)) (\<lambda>_.
               andThen (validateRequestAgainstConfig request config) (\<lambda>_. Inr request)))"
  from assms v w obtain r where r: "?p = Inr r" "admitRequest sha256 hmac config io' r body t clockMs ?n1 = (n', Invoked pid request)"
    by (cases ?p) (auto simp: handleInference_def Let_def split: if_splits)
  from admitRequest_invoked [OF r(2)] r(1) v w show ?thesis by auto
qed

text \<open>
  C15: Only authentic, fresh and permitted work reaches the upstream provider. When the node starts an
  execution, the call carried the gateway token (by its digest) and a signature whose digest is that of
  the HMAC under that token of exactly its time stamp, nonce, job identifier and body digest; the time
  stamp lies within five minutes of the node's clock; the nonce was not seen within that window; the body
  is a well-formed request for that job; and model, data class, input size and output bound are within
  the configuration.
\<close>

theorem executed_call_authentic:
  assumes "handleInference sha256 hmac config io io' call nowMs clockMs n = (n', Invoked pid request)"
  shows "\<exists>bearer timestamp nonce signature.
    sc_authorization call = Some (''Bearer '' @ bearer) \<and> sha256 bearer = sha256 (nc_gatewayToken config) \<and>
    sc_timestamp call = Some timestamp \<and> sc_nonce call = Some nonce \<and> sc_signature call = Some signature \<and>
    sc_jobId call = Some (ir_request_id request) \<and>
    sha256 signature = sha256 (hmac (nc_gatewayToken config)
      (createSupplierGatewaySignaturePayload timestamp nonce (ir_request_id request) (sha256 (sc_rawBody call)))) \<and>
    \<bar>nowMs - int (nat_of_dec timestamp)\<bar> \<le> 300000 \<and> (\<forall>e. (nonce, e) \<in> set (sn_seen n) \<longrightarrow> e < nowMs) \<and>
    parseInferenceRequest (sc_rawBody call) = Inr request \<and>
    ir_model request \<in> set (nc_allowedModels config) \<and> ir_data_class request \<in> set (nc_allowedDataClasses config) \<and>
    int (byteLength (ir_input request)) \<le> nc_maxInputBytes config \<and> ir_max_output_tokens request \<le> nc_maxOutputTokens config"
proof -
  from handleInference_invoked [OF assms] obtain seen j body where
    v: "verifySignedGatewayCall sha256 hmac io (nc_gatewayToken config) call nowMs (sn_seen n, sn_journal n) =
        ((seen, j), Inr (ir_request_id request, body))"
    and p: "parseInferenceRequest (sc_rawBody call) = Inr request" "validateRequestAgainstConfig request config = Inr ()" by blast
  from verifySigned_Inr [OF v] obtain nonce ts where
    h: "verifyHeaders sha256 hmac (nc_gatewayToken config) call = Inr (nonce, ts, ir_request_id request, body)"
    and g: "verifyAndRecord sha256 io REPLAY_WINDOW_MS MAXIMUM_NONCES nonce ts nowMs (sn_seen n, sn_journal n) = ((seen, j), Inr ())" by blast
  from p(2) have c: "ir_model request \<in> set (nc_allowedModels config)" "ir_data_class request \<in> set (nc_allowedDataClasses config)"
    "int (byteLength (ir_input request)) \<le> nc_maxInputBytes config" "ir_max_output_tokens request \<le> nc_maxOutputTokens config"
    by (auto simp: validateRequestAgainstConfig_def split: if_splits)
  from h verifyAndRecord_Inr [OF g] p(1) c show ?thesis
    by (auto simp: verifyHeaders_Inr createGatewaySignature_def REPLAY_WINDOW_MS_def)
qed

section \<open>At most one execution\<close>

datatype nodeProcess = NodeDown string | NodeUp SupplierNodeRuntime

datatype nodeEvent = Executed string int | Idle int

fun nodeTime :: "nodeEvent \<Rightarrow> int" where
  "nodeTime (Executed requestId t) = t"
| "nodeTime (Idle t) = t"

fun admissionEvent :: "int \<Rightarrow> admission \<Rightarrow> nodeEvent" where
  "admissionEvent t (Invoked pid request) = Executed (ir_request_id request) t"
| "admissionEvent t (Joined pid requestId) = Idle t"
| "admissionEvent t (Answered r) = Idle t"

text \<open>The range of \<open>Date.now()\<close>.\<close>

definition clockRange :: "int \<Rightarrow> bool" where
  "clockRange t \<longleftrightarrow> 0 \<le> t \<and> t \<le> 8640000000000000"

inductive node_step :: "(string \<Rightarrow> string) \<Rightarrow> (string \<Rightarrow> string \<Rightarrow> string) \<Rightarrow> SupplierNodeConfig \<Rightarrow> nodeProcess \<Rightarrow> nodeEvent \<Rightarrow> nodeProcess \<Rightarrow> bool"
  for sha256 hmac config where
  inference: "handleInference sha256 hmac config io io' call t clockMs n = (n', a) \<Longrightarrow> clockRange t \<Longrightarrow>
    node_step sha256 hmac config (NodeUp n) (admissionEvent t a) (NodeUp n')"
| attestation: "handleAttestation sha256 hmac config io call t n = (n', r) \<Longrightarrow> clockRange t \<Longrightarrow>
    node_step sha256 hmac config (NodeUp n) (Idle t) (NodeUp n')"
| finish: "node_step sha256 hmac config (NodeUp n) (Idle t) (NodeUp (finishExecution sha256 hmac config pid request completedAt outcome n))"
| compaction: "compactNow cio t (sn_journal n) = (j, res) \<Longrightarrow>
    node_step sha256 hmac config (NodeUp n) (Idle t) (NodeUp (n\<lparr>sn_journal := j\<rparr>))"
| drain: "node_step sha256 hmac config (NodeUp n) (Idle t) (NodeUp (setDraining n))"
| stop: "node_step sha256 hmac config (NodeUp n) (Idle t) (NodeDown (rj_file (sn_journal n)))"
| start: "newRuntime hmac config adapterProviderId journalPath oio t f = (f', Inr n) \<Longrightarrow>
    node_step sha256 hmac config (NodeDown f) (Idle t) (NodeUp n)"
| start_fails: "newRuntime hmac config adapterProviderId journalPath oio t f = (f', Inl e) \<Longrightarrow>
    node_step sha256 hmac config (NodeDown f) (Idle t) (NodeDown f')"

fun journalOf :: "nodeProcess \<Rightarrow> process" where
  "journalOf (NodeDown f) = Stopped f"
| "journalOf (NodeUp n) = Running (sn_journal n)"

lemma timed_run_earlier: "timed_run step time t s es s' \<Longrightarrow> t0 \<le> t \<Longrightarrow> timed_run step time t0 s es s'"
  by (erule timed_run.cases) (auto intro: timed_run.intros)

lemma timed_run_join:
  "timed_run step time t s es s' \<Longrightarrow> timed_run step time t2 s' fs s'' \<Longrightarrow> t \<le> t2 \<Longrightarrow> \<forall>e \<in> set es. time e \<le> t2 \<Longrightarrow>
   timed_run step time t s (es @ fs) s''"
  by (induction rule: timed_run.induct) (auto intro: timed_run.intros timed_run_earlier)

lemma timed_run_single: "step s e s' \<Longrightarrow> t \<le> time e \<Longrightarrow> timed_run step time t s [e] s'"
  by (auto intro: timed_run.intros)

text \<open>The verification of a call touches the journal by at most one claim of a nonce.\<close>

lemma verify_journal:
  assumes "verifySignedGatewayCall sha256 hmac io token call t (seen, j) = ((seen', j'), res)" "clockRange t"
  shows "j' = j \<or> (\<exists>nonce x r. claimNonce sha256 io nonce x t j = (j', r) \<and> 0 \<le> x \<and> x \<le> MAX_SAFE_INTEGER)"
proof (cases "verifyHeaders sha256 hmac token call")
  case (Inl e)
  with assms(1) show ?thesis by (simp add: verifySignedGatewayCall_def)
next
  case (Inr h)
  then obtain nonce ts jobId body where h: "verifyHeaders sha256 hmac token call = Inr (nonce, ts, jobId, body)" by (cases h) auto
  then obtain timestamp where "ts = int (nat_of_dec timestamp)" "timestampPattern timestamp" by (auto simp: verifyHeaders_Inr)
  with nat_of_dec_below [of timestamp] have x: "0 \<le> ts + REPLAY_WINDOW_MS" "ts + REPLAY_WINDOW_MS \<le> MAX_SAFE_INTEGER"
    by (auto simp: timestampPattern_def REPLAY_WINDOW_MS_def MAX_SAFE_INTEGER_def)
  from assms(1) h have "j' = j \<or> (\<exists>r. claimNonce sha256 io nonce (ts + REPLAY_WINDOW_MS) t j = (j', r))"
    by (auto simp: verifySignedGatewayCall_def verifyAndRecord_def Let_def split: if_splits prod.splits sum.splits)
  with x show ?thesis by blast
qed

lemma admit_journal:
  assumes "admitRequest sha256 hmac config io request body t clockMs n = (n', a)"
  shows "sn_journal n' = sn_journal n \<or> (\<exists>r. claimRequest sha256 hmac (nc_gatewayToken config) io (ir_request_id request) body (t + IDEMPOTENCY_TTL_MS) t (sn_journal n) =
      (sn_journal n', r))"
proof -
  obtain j x where c: "claimRequest sha256 hmac (nc_gatewayToken config) io (ir_request_id request) body (t + IDEMPOTENCY_TTL_MS) t (sn_journal n) = (j, x)"
    by fastforce
  obtain n1 b where s: "startExecution config request clockMs ((pruneIdempotency t n)\<lparr>sn_journal := j\<rparr>) = (n1, b)" by fastforce
  from assms c s startExecution_cases [OF s] have "sn_journal n' = sn_journal n \<or> sn_journal n' = j"
    by (auto simp: admitRequest_def Let_def pruneIdempotency_def split: if_splits option.splits sum.splits)
  with c show ?thesis by blast
qed

lemma handle_journal:
  assumes "handleInference sha256 hmac config io io' call t clockMs n = (n', a)"
  shows "\<exists>seen j v. (sn_journal n' = sn_journal n \<or> verifySignedGatewayCall sha256 hmac io (nc_gatewayToken config) call t (sn_seen n, sn_journal n) = ((seen, j), v) \<and>
    (sn_journal n' = j \<or> (\<exists>requestId body r. claimRequest sha256 hmac (nc_gatewayToken config) io' requestId body (t + IDEMPOTENCY_TTL_MS) t j = (sn_journal n', r))))"
proof -
  obtain seen j v where v: "verifySignedGatewayCall sha256 hmac io (nc_gatewayToken config) call t (sn_seen n, sn_journal n) = ((seen, j), v)"
    by (metis prod.collapse)
  consider "sn_journal n' = sn_journal n" | "sn_journal n' = j"
    | request body where "admitRequest sha256 hmac config io' request body t clockMs (n\<lparr>sn_seen := seen, sn_journal := j\<rparr>) = (n', a)"
    using assms v by (auto simp: handleInference_def Let_def split: if_splits sum.splits)
  then show ?thesis
  proof cases
    case 3
    from admit_journal [OF 3] v show ?thesis by fastforce
  qed (use v in blast)+
qed

definition journalRun :: "(string \<Rightarrow> string) \<Rightarrow> (string \<Rightarrow> string \<Rightarrow> string) \<Rightarrow> string \<Rightarrow> int \<Rightarrow> process \<Rightarrow> int \<Rightarrow> journalEvent set \<Rightarrow> process \<Rightarrow> bool" where
  "journalRun sha256 hmac token t0 s t G s' \<longleftrightarrow>
     (\<exists>es. timed_run (journal_step sha256 hmac token) eventTime t0 s es s' \<and> (\<forall>e \<in> set es. eventTime e = t) \<and> G \<subseteq> set es)"

lemma journalRun_none: "journalRun sha256 hmac token t0 s t {} s"
  unfolding journalRun_def by (auto intro: timed_run.nil)

lemma journalRun_nonce:
  "claimNonce sha256 io nonce x t j = (j', r) \<Longrightarrow> 0 \<le> x \<Longrightarrow> x \<le> MAX_SAFE_INTEGER \<Longrightarrow> t0 \<le> t \<Longrightarrow>
   journalRun sha256 hmac token t0 (Running j) t {} (Running j')"
  unfolding journalRun_def
  by (rule exI, rule conjI, rule timed_run_single, erule (2) journal_step.nonce) auto

lemma journalRun_request:
  assumes "claimRequest sha256 hmac token io requestId body (t + IDEMPOTENCY_TTL_MS) t j = (j', r)" "clockRange t" "t0 \<le> t"
  shows "journalRun sha256 hmac token t0 (Running j) t
    (if r = Inr () then {RequestGranted requestId body (t + IDEMPOTENCY_TTL_MS) t} else {}) (Running j')"
proof -
  let ?e = "if r = Inr () then RequestGranted requestId body (t + IDEMPOTENCY_TTL_MS) t else Elapsed t"
  have "0 \<le> t + IDEMPOTENCY_TTL_MS" "t + IDEMPOTENCY_TTL_MS \<le> MAX_SAFE_INTEGER"
    using assms(2) by (auto simp: clockRange_def IDEMPOTENCY_TTL_MS_def MAX_SAFE_INTEGER_def)
  with assms(1) have "journal_step sha256 hmac token (Running j) ?e (Running j')" by (blast intro: journal_step.request)
  then have "timed_run (journal_step sha256 hmac token) eventTime t0 (Running j) [?e] (Running j')"
    using assms(3) by (intro timed_run_single) auto
  then show ?thesis unfolding journalRun_def by (intro exI [of _ "[?e]"]) auto
qed

lemma journalRun_quiet: "journal_step sha256 hmac token s (Elapsed t) s' \<Longrightarrow> t0 \<le> t \<Longrightarrow> journalRun sha256 hmac token t0 s t {} s'"
  unfolding journalRun_def by (rule exI, rule conjI, erule timed_run_single) auto

lemma journalRun_trans:
  assumes "journalRun sha256 hmac token t0 s t A s'" "journalRun sha256 hmac token t s' t B s''" "t0 \<le> t"
  shows "journalRun sha256 hmac token t0 s t (A \<union> B) s''"
proof -
  from assms(1,2) obtain es fs where "timed_run (journal_step sha256 hmac token) eventTime t0 s es s'" "\<forall>e \<in> set es. eventTime e = t" "A \<subseteq> set es"
    "timed_run (journal_step sha256 hmac token) eventTime t s' fs s''" "\<forall>e \<in> set fs. eventTime e = t" "B \<subseteq> set fs"
    unfolding journalRun_def by blast
  with assms(3) show ?thesis unfolding journalRun_def
    by (intro exI [of _ "es @ fs"]) (auto intro: timed_run_join)
qed

lemma verify_run:
  assumes "verifySignedGatewayCall sha256 hmac io token call t (seen, j) = ((seen', j'), res)" "clockRange t" "t0 \<le> t"
  shows "journalRun sha256 hmac token t0 (Running j) t {} (Running j')"
  using verify_journal [OF assms(1,2)] assms(3) by (auto intro: journalRun_none journalRun_nonce)

text \<open>The executions of a node event, as grants of its journal.\<close>

definition grantsOf :: "nodeEvent \<Rightarrow> journalEvent set \<Rightarrow> bool" where
  "grantsOf e G \<longleftrightarrow> (\<forall>requestId t. e = Executed requestId t \<longrightarrow> (\<exists>body. RequestGranted requestId body (t + IDEMPOTENCY_TTL_MS) t \<in> G))"

lemma inference_run:
  assumes "handleInference sha256 hmac config io io' call t clockMs n = (n', a)" "clockRange t" "t0 \<le> t"
  shows "\<exists>G. journalRun sha256 hmac (nc_gatewayToken config) t0 (Running (sn_journal n)) t G (Running (sn_journal n')) \<and> grantsOf (admissionEvent t a) G"
proof (cases "\<exists>pid request. a = Invoked pid request")
  case True
  then obtain pid request where a: "a = Invoked pid request" by blast
  from handleInference_invoked [OF assms(1) [unfolded a]] obtain seen j body where
    v: "verifySignedGatewayCall sha256 hmac io (nc_gatewayToken config) call t (sn_seen n, sn_journal n) = ((seen, j), Inr (ir_request_id request, body))"
    and c: "claimRequest sha256 hmac (nc_gatewayToken config) io' (ir_request_id request) body (t + IDEMPOTENCY_TTL_MS) t j = (sn_journal n', Inr ())"
    by blast
  from journalRun_trans [OF verify_run [OF v assms(2,3)] journalRun_request [OF c assms(2) order_refl] assms(3)]
  show ?thesis unfolding a grantsOf_def by auto
next
  case False
  then have g: "grantsOf (admissionEvent t a) {}" by (cases a) (auto simp: grantsOf_def)
  from handle_journal [OF assms(1)] consider "sn_journal n' = sn_journal n"
    | seen j v where "verifySignedGatewayCall sha256 hmac io (nc_gatewayToken config) call t (sn_seen n, sn_journal n) = ((seen, j), v)" "sn_journal n' = j"
    | seen j v requestId body r where "verifySignedGatewayCall sha256 hmac io (nc_gatewayToken config) call t (sn_seen n, sn_journal n) = ((seen, j), v)"
        "claimRequest sha256 hmac (nc_gatewayToken config) io' requestId body (t + IDEMPOTENCY_TTL_MS) t j = (sn_journal n', r)"
    by blast
  then show ?thesis
  proof cases
    case 1
    with g show ?thesis by (auto intro: journalRun_none)
  next
    case 2
    with g verify_run [OF 2(1) assms(2,3)] show ?thesis by auto
  next
    case 3
    from journalRun_trans [OF verify_run [OF 3(1) assms(2,3)] journalRun_request [OF 3(2) assms(2) order_refl] assms(3)] False
    show ?thesis by (cases a) (auto simp: grantsOf_def)
  qed
qed

lemma newRuntime_journal:
  assumes "newRuntime hmac config adapterProviderId journalPath io t f = (f', res)"
  shows "(f' = f \<and> (\<exists>e. res = Inl e)) \<or> (\<exists>r. openJournal hmac (nc_gatewayToken config) (NInt DEFAULT_COMPACTION_INTERVAL_MILLISECONDS) io t f = (f', r) \<and>
    (case res of Inl e \<Rightarrow> r = Inl e | Inr n \<Rightarrow> r = Inr (sn_journal n)))"
  using assms by (auto simp: newRuntime_def split: if_splits prod.splits sum.splits)

lemma node_step_run:
  assumes "node_step sha256 hmac config s e s'" "t0 \<le> nodeTime e"
  shows "\<exists>G. journalRun sha256 hmac (nc_gatewayToken config) t0 (journalOf s) (nodeTime e) G (journalOf s') \<and> grantsOf e G"
  using assms
proof cases
  case (inference io io' call t clockMs n n' a)
  then have t: "nodeTime e = t" by (cases a) auto
  from inference_run [OF inference(4,5), of t0] assms(2) inference(1-3) t show ?thesis by simp
next
  case (attestation io call t n n' r)
  obtain seen j v where v: "verifySignedGatewayCall sha256 hmac io (nc_gatewayToken config) call t (sn_seen n, sn_journal n) = ((seen, j), v)"
    by (metis prod.collapse)
  with attestation(4) have "sn_journal n' = j" by (auto simp: handleAttestation_def Let_def split: sum.splits if_splits)
  with verify_run [OF v attestation(5), of t0] attestation(1-3) assms(2) show ?thesis by (auto simp: grantsOf_def)
next
  case (finish n t pid request completedAt outcome)
  then show ?thesis by (auto simp: grantsOf_def finishExecution_def split: promise.split intro: journalRun_none)
next
  case (compaction cio t n j res)
  with assms(2) show ?thesis by (auto simp: grantsOf_def intro!: journalRun_quiet intro: journal_step.compaction)
next
  case (drain n t)
  then show ?thesis by (auto simp: grantsOf_def setDraining_def intro: journalRun_none)
next
  case (stop n t)
  with assms(2) show ?thesis by (auto simp: grantsOf_def intro!: journalRun_quiet journal_step.stop)
next
  case (start adapterProviderId journalPath oio t f f' n)
  with assms(2) newRuntime_journal [OF start(4)] show ?thesis
    by (auto simp: grantsOf_def intro!: journalRun_quiet intro: journal_step.start)
next
  case (start_fails adapterProviderId journalPath oio t f f' x)
  with assms(2) newRuntime_journal [OF start_fails(4)] show ?thesis
    by (auto simp: grantsOf_def intro!: journalRun_quiet intro: journal_step.start_fails journalRun_none)
qed

text \<open>
  A node is itself a store of expiring claims, on the executions it starts: every law follows from the
  journal run behind a step.
\<close>

fun executionGrant :: "nodeEvent \<Rightarrow> (string \<times> int) option" where
  "executionGrant (Executed requestId t) = Some (requestId, t + IDEMPOTENCY_TTL_MS)"
| "executionGrant (Idle t) = None"

definition hashedNodeStep :: "(string \<Rightarrow> string) \<Rightarrow> (string \<Rightarrow> string \<Rightarrow> string) \<Rightarrow> SupplierNodeConfig \<Rightarrow> nodeProcess \<Rightarrow> nodeEvent \<Rightarrow> nodeProcess \<Rightarrow> bool" where
  "hashedNodeStep sha256 hmac config s e s' \<longleftrightarrow> hexDigests sha256 hmac \<and> node_step sha256 hmac config s e s'"

lemma hashed_node_run:
  "timed_run (node_step sha256 hmac config) nodeTime t s es s' \<Longrightarrow> hexDigests sha256 hmac \<Longrightarrow>
   timed_run (hashedNodeStep sha256 hmac config) nodeTime t s es s'"
  by (induction rule: timed_run.induct) (auto simp: hashedNodeStep_def intro: timed_run.intros)

lemma node_moment:
  assumes "hashedNodeStep sha256 hmac config s e s'" "t \<le> nodeTime e"
  shows "\<exists>es. timed_run (hashedStep sha256 hmac (nc_gatewayToken config)) eventTime t (journalOf s) es (journalOf s') \<and>
    (\<forall>f \<in> set es. eventTime f = nodeTime e) \<and> grantsOf e (set es)"
proof -
  from assms(1) have h: "hexDigests sha256 hmac" "node_step sha256 hmac config s e s'" by (simp_all add: hashedNodeStep_def)
  from node_step_run [OF h(2) assms(2)] obtain G es where
    "timed_run (journal_step sha256 hmac (nc_gatewayToken config)) eventTime t (journalOf s) es (journalOf s')"
    "\<forall>f \<in> set es. eventTime f = nodeTime e" "G \<subseteq> set es" "grantsOf e G" unfolding journalRun_def by blast
  with hashed_run [OF _ h(1)] show ?thesis unfolding grantsOf_def by (meson subsetD)
qed

lemma executionGrant_Some:
  "executionGrant e = Some (k, x) \<Longrightarrow> grantsOf e G \<Longrightarrow> \<exists>f \<in> G. requestGrant f = Some (k, x) \<and> eventTime f = nodeTime e"
  by (cases e) (force simp: grantsOf_def)+

interpretation executions: expiring_claims "hashedNodeStep sha256 hmac config" nodeTime executionGrant
    "\<lambda>t s. journalOk t (journalOf s)" "\<lambda>t s. requestHeld sha256 hmac (nc_gatewayToken config) t (journalOf s)"
  for sha256 hmac config
proof (unfold_locales, goal_cases)
  case (1 s e s' t)
  from node_moment [OF 1(1,3)] 1(2,3) show ?case by (auto intro: requests.moment_inv)
next
  case (2 s e s' t k x)
  from node_moment [OF 2(1,3)] executionGrant_Some [OF 2(4)] 2(2,5) show ?case by (blast intro: requests.moment_grant)
next
  case (3 s e s' t k x)
  from node_moment [OF 3(1,3)] 3(2-5) show ?case by (blast intro: requests.moment_held)
next
  case (4 s e s' t k x y)
  from node_moment [OF 4(1,3)] executionGrant_Some [of e k y] 4(2,4,5) show ?case
    by (metis leD requests.held_until_expiry)
next
  case (5 t s t')
  then show ?case by (rule journalOk_later)
next
  case (6 t s k x t')
  then show ?case by (rule held_later(2))
qed

text \<open>
  C12: The upstream provider is never paid twice for one request. Along every run of the node, over calls,
  replays, replies, file-system failures, crashes and restarts with a clock that does not run backwards,
  two executions of the same request identifier are more than fifteen minutes apart.
\<close>

theorem node_executes_once:
  assumes "hexDigests sha256 hmac"
    and "timed_run (node_step sha256 hmac config) nodeTime t0 (NodeDown f) (es @ Executed requestId t # fs) s"
    and "Executed requestId t' \<in> set fs"
  shows "t + 15 * 60000 < t'"
  using executions.grants_separated [OF hashed_node_run [OF assms(2,1)] _ _ assms(3)] by (simp add: IDEMPOTENCY_TTL_MS_def)

section \<open>Termination and a refusal that sticks\<close>

text \<open>
  C37: The write loop of the journal ends and writes the line in order. Whatever the file system returns, the
  pieces that its calls put on disk follow each other without a gap or a repetition from the start of the
  line, no call counted as a success writes nothing, and with the call that fails there are at most as many
  calls as the line has bytes; the loop ends without an exception exactly when the whole line is written, and
  it does when every call makes progress.
\<close>

theorem write_loop_terminates:
  assumes "writeAll wr 0 buffer = (pieces, finished)"
  shows "(\<exists>rest. buffer = concat pieces @ rest \<and> (finished \<longleftrightarrow> rest = [])) \<and> [] \<notin> set pieces \<and>
    length pieces + (if finished then 0 else 1) \<le> length buffer \<and>
    ((\<forall>k < length buffer. \<exists>w. wr k = Some w \<and> 1 \<le> w) \<longrightarrow> finished \<and> concat pieces = buffer)"
proof -
  from writeAll_result [OF assms] obtain rest where r: "buffer = concat pieces @ rest" "finished \<longleftrightarrow> rest = []" "[] \<notin> set pieces"
    "length pieces + (if finished then 0 else 1) \<le> length buffer" by auto
  moreover have "(\<forall>k < length buffer. \<exists>w. wr k = Some w \<and> 1 \<le> w) \<longrightarrow> finished"
    using writeAll_finished [of buffer wr 0] assms by simp
  ultimately show ?thesis by (metis append_Nil2)
qed











end
