(* ===== verification/Gateway.thy ===== *)
theory Gateway
  imports NodeSafety
begin

text \<open>
  The two ends of a gateway call together: the control plane signs a request
  (\<^verbatim>\<open>apps/web/server/gateway-signing.ts\<close>, \<open>callGateway\<close> of \<^verbatim>\<open>marketplace-service.ts\<close>) and verifies
  the evidence of the reply (\<^verbatim>\<open>gateway-evidence.ts\<close>); the supplier node verifies the request and
  signs the reply. Both sides use the same hash functions, over the same canonical texts.
\<close>

section \<open>The control plane\<close>

text \<open>The headers of a signed call, in the order job, time stamp, nonce, signature.\<close>

definition createSignedGatewayHeaders :: "(string \<Rightarrow> string) \<Rightarrow> (string \<Rightarrow> string \<Rightarrow> string) \<Rightarrow> string \<Rightarrow> string \<Rightarrow> string \<Rightarrow> int \<Rightarrow> string \<Rightarrow>
    string \<times> string \<times> string \<times> string" where
  "createSignedGatewayHeaders sha256 hmac gatewayToken jobId rawBody timestampMs nonce =
     (let timestamp = numString timestampMs; bodySha256 = sha256 rawBody in
      (jobId, timestamp, nonce,
       hmac gatewayToken (createSupplierGatewaySignaturePayload timestamp nonce jobId bodySha256)))"

definition gatewayRequestBody :: "string \<Rightarrow> string \<Rightarrow> string \<Rightarrow> string \<Rightarrow> int \<Rightarrow> string" where
  "gatewayRequestBody jobId model input dataClass maxOut = jsonObject [
     (''protocol_version'', jsonQuote SUPPLIER_GATEWAY_PROTOCOL_VERSION), (''request_id'', jsonQuote jobId),
     (''model'', jsonQuote model), (''input'', jsonQuote input), (''data_class'', jsonQuote dataClass),
     (''max_output_tokens'', numString maxOut), (''stream'', ''false'')]"

text \<open>The request as it arrives at the node.\<close>

definition gatewayRequest :: "(string \<Rightarrow> string) \<Rightarrow> (string \<Rightarrow> string \<Rightarrow> string) \<Rightarrow> string \<Rightarrow> string \<Rightarrow> string \<Rightarrow> int \<Rightarrow> string \<Rightarrow> SignedGatewayCall" where
  "gatewayRequest sha256 hmac token jobId rawBody timestampMs nonce =
     (case createSignedGatewayHeaders sha256 hmac token jobId rawBody timestampMs nonce of (job, timestamp, n, signature) \<Rightarrow>
      \<lparr>sc_authorization = Some (''Bearer '' @ token), sc_timestamp = Some timestamp, sc_nonce = Some n,
       sc_jobId = Some job, sc_signature = Some signature, sc_rawBody = rawBody\<rparr>)"

datatype gatewayError = SERVICE_EVIDENCE_FAILED

record GatewayEvidenceVerificationInput =
  gi_gatewayToken :: string
  gi_requestId :: string
  gi_providerId :: string
  gi_requestedModel :: string
  gi_inputSha256 :: string
  gi_output :: string
  gi_usage :: jsval
  gi_evidence :: jsval
  gi_evidenceSignature :: string
  gi_requestStartedAt :: string

text \<open>The expectation object the verification builds, at an address that is not in use.\<close>

definition expectationObject :: "(string \<Rightarrow> string) \<Rightarrow> GatewayEvidenceVerificationInput \<Rightarrow> string \<Rightarrow> jsobj" where
  "expectationObject sha256 x verifiedAt = JObject True [
     (''requestId'', JStr (gi_requestId x)), (''providerId'', JStr (gi_providerId x)),
     (''requestedModel'', JStr (gi_requestedModel x)), (''inputSha256'', JStr (gi_inputSha256 x)),
     (''outputSha256'', JStr (sha256 (gi_output x))), (''usage'', gi_usage x),
     (''requestStartedAt'', JStr (gi_requestStartedAt x)), (''verifiedAt'', JStr verifiedAt)]"

definition verifyGatewayServiceEvidence :: "(string \<Rightarrow> string) \<Rightarrow> (string \<Rightarrow> string \<Rightarrow> string) \<Rightarrow> dateParse \<Rightarrow> heap \<Rightarrow> addr \<Rightarrow> string \<Rightarrow>
    GatewayEvidenceVerificationInput \<Rightarrow> gatewayError + (VerifiedSupplierExecutionEvidence \<times> string)" where
  "verifyGatewayServiceEvidence sha256 hmac dp h a verifiedAt x =
     (if \<not> isSha256 (gi_evidenceSignature x) then Inl SERVICE_EVIDENCE_FAILED
      else let h' = h(a := expectationObject sha256 x verifiedAt) in
        (case verifySupplierExecutionEvidence h' dp (JRef a) (gi_evidence x) of
           Inl e \<Rightarrow> Inl SERVICE_EVIDENCE_FAILED
         | Inr verified \<Rightarrow>
           (case validateEvidenceShape h' (gi_evidence x) of
              Inl e \<Rightarrow> Inl SERVICE_EVIDENCE_FAILED
            | Inr shape \<Rightarrow>
              (let payload = createSupplierGatewayExecutionEvidencePayload
                   (strOf (jget h' (gi_evidence x) ''evidence_version'')) shape (strOf (jget h' (gi_evidence x) ''completed_at'')) in
               if hmac (gi_gatewayToken x) payload \<noteq> gi_evidenceSignature x then Inl SERVICE_EVIDENCE_FAILED
               else Inr (verified, sha256 (payload @ NL @ gi_evidenceSignature x))))))"

section \<open>A signed call arrives as it was meant\<close>

lemma numString_timestamp: "10 ^ 12 \<le> ts \<Longrightarrow> ts < 10 ^ 13 \<Longrightarrow> timestampPattern (numString ts) \<and> int (nat_of_dec (numString ts)) = ts"
proof -
  have len: "10 ^ k \<le> n \<Longrightarrow> n < 10 ^ Suc k \<Longrightarrow> length (dec_of_nat n) = Suc k" for n k :: nat
  proof (induction k arbitrary: n)
    case (Suc k)
    have "(1 :: nat) \<le> 10 ^ k" by simp
    then have "10 \<le> (10 :: nat) ^ Suc k" by (simp only: power_Suc)
    with Suc.prems(1) have n: "\<not> n < 10" by linarith
    have "10 ^ k \<le> n div 10" using Suc.prems(1) by (simp add: less_eq_div_iff_mult_less_eq mult.commute)
    moreover have "n div 10 < 10 ^ Suc k" using Suc.prems(2) by (simp add: div_less_iff_less_mult mult.commute)
    ultimately have "length (dec_of_nat (n div 10)) = Suc k" by (rule Suc.IH)
    with n show ?case by (simp add: dec_of_nat.simps [of n])
  qed (simp add: dec_of_nat.simps)
  assume ts: "10 ^ 12 \<le> ts" "ts < 10 ^ 13"
  then have "length (dec_of_nat (nat ts)) = Suc 12" by (intro len) (simp_all add: nat_le_iff le_nat_iff)
  with ts show "timestampPattern (numString ts) \<and> int (nat_of_dec (numString ts)) = ts"
    by (simp add: timestampPattern_def numString_def dec_of_nat_digits)
qed

lemma body_encodes:
  assumes "\<bar>maxOut\<bar> \<le> MAX_SAFE_INTEGER"
  shows "jsonParse (gatewayRequestBody jobId model input dataClass maxOut) = Some (JsObj [
     (''protocol_version'', JsStr SUPPLIER_GATEWAY_PROTOCOL_VERSION), (''request_id'', JsStr jobId), (''model'', JsStr model),
     (''input'', JsStr input), (''data_class'', JsStr dataClass), (''max_output_tokens'', JsNum (NInt maxOut)),
     (''stream'', JsBool False)])"
  unfolding gatewayRequestBody_def using assms
  by (intro encodes_parse encodes_object) (simp_all add: encodes_quote encodes_num encodes_bool)

lemma signed_headers:
  assumes "hexDigests sha256 hmac" "token \<noteq> []" "length token \<le> 4096"
    and "jobIdPattern jobId" "noncePattern nonce" "10 ^ 12 \<le> ts" "ts < 10 ^ 13"
  shows "verifyHeaders sha256 hmac token (gatewayRequest sha256 hmac token jobId body ts nonce) = Inr (nonce, ts, jobId, sha256 body)"
  using numString_timestamp [OF assms(6,7)] assms(1-5)
  by (simp add: verifyHeaders_Inr gatewayRequest_def createSignedGatewayHeaders_def createGatewaySignature_def hexDigests_def Let_def)

lemma signed_body:
  assumes "jobIdPattern jobId" "1 \<le> length model" "length model \<le> 200" "1 \<le> length input" "dataClass \<in> {''P0'', ''P1''}"
    and "1 \<le> maxOut" "maxOut \<le> MAX_SAFE_INTEGER"
  shows "parseInferenceRequest (gatewayRequestBody jobId model input dataClass maxOut) = Inr \<lparr>ir_request_id = jobId, ir_model = model,
      ir_input = input, ir_data_class = dataClass, ir_max_output_tokens = maxOut\<rparr>"
proof -
  have "\<bar>maxOut\<bar> \<le> MAX_SAFE_INTEGER" using assms(6,7) by simp
  from body_encodes [OF this] assms show ?thesis by (auto simp: parseInferenceRequest_def exactObject_def)
qed

text \<open>
  C32: What the control plane signs is what the node verifies and executes. For a job identifier, a nonce
  and a millisecond time stamp of the right form, the node accepts the headers the control plane made for
  a body, with that nonce, time, job and body digest, and it parses the body back to exactly the request
  that was sent, whatever characters the prompt contains.
\<close>

theorem gateway_call_roundtrip:
  assumes "hexDigests sha256 hmac" "token \<noteq> []" "length token \<le> 4096"
    and "jobIdPattern jobId" "noncePattern nonce" "10 ^ 12 \<le> ts" "ts < 10 ^ 13"
    and "1 \<le> length model" "length model \<le> 200" "1 \<le> length input" "dataClass \<in> {''P0'', ''P1''}"
    and "1 \<le> maxOut" "maxOut \<le> MAX_SAFE_INTEGER"
    and "body = gatewayRequestBody jobId model input dataClass maxOut"
  shows "verifyHeaders sha256 hmac token (gatewayRequest sha256 hmac token jobId body ts nonce) = Inr (nonce, ts, jobId, sha256 body) \<and>
    parseInferenceRequest body = Inr \<lparr>ir_request_id = jobId, ir_model = model, ir_input = input, ir_data_class = dataClass,
      ir_max_output_tokens = maxOut\<rparr>"
  using signed_headers [OF assms(1-7)] signed_body [OF assms(4,8-13)] assms(14) by simp

section \<open>Honest evidence is accepted\<close>

text \<open>The objects of a parsed reply: its usage, and its evidence with a usage object of its own.\<close>

definition usageObject :: "SupplierGatewayUsage \<Rightarrow> jsobj" where
  "usageObject u = JObject True [(''input_tokens'', JNum (NInt (input_tokens u))),
     (''output_tokens'', JNum (NInt (output_tokens u))), (''total_tokens'', JNum (NInt (total_tokens u)))]"

definition evidenceObject :: "ExecutionEvidenceShape \<Rightarrow> string \<Rightarrow> addr \<Rightarrow> jsobj" where
  "evidenceObject e completedAt u = JObject True ([
     (''evidence_version'', JStr SUPPLIER_GATEWAY_EXECUTION_EVIDENCE_VERSION), (''request_id'', JStr (xe_request_id e)),
     (''provider_id'', JStr (xe_provider_id e)), (''requested_model'', JStr (xe_requested_model e)),
     (''served_model'', JStr (xe_served_model e)), (''provider_request_id'', JStr (xe_provider_request_id e)),
     (''input_sha256'', JStr (xe_input_sha256 e)), (''output_sha256'', JStr (xe_output_sha256 e)),
     (''usage'', JRef u), (''completed_at'', JStr completedAt)] @
     (case xe_receipt_ref e of None \<Rightarrow> [] | Some r \<Rightarrow> [(''receipt_ref'', JStr r)]))"

fun plainLeaf :: "jsval \<Rightarrow> bool" where
  "plainLeaf (JStr s) = True"
| "plainLeaf (JNum n) = isFiniteNum n"
| "plainLeaf _ = False"

lemma safeLoop_plain: "plainLeaf v \<Longrightarrow> safeLoop h seen n ((v, d) # xs) = safeLoop h seen n xs"
  by (cases v) (simp_all add: safeLoop.simps(2))

lemma safeLoop_leaves: "list_all (\<lambda>(v, d). plainLeaf v) xs \<Longrightarrow> safeLoop h seen n (xs @ ys) = safeLoop h seen n ys"
  by (induction xs) (auto simp: safeLoop_plain)

lemma safeLoop_object:
  assumes "h a = JObject True fs" "a \<notin> set seen" "n < 1000" "d \<le> 12" "list_all (\<lambda>(k, v). \<not> forbiddenField k) fs"
  shows "safeLoop h seen n ((JRef a, d) # xs) =
    safeLoop h (a # seen) (Suc n) (rev (map (\<lambda>(k, v). (v, Suc d)) fs) @ xs)"
  using assms by (auto simp: safeLoop.simps(2) list_ex_iff list_all_iff)

text \<open>An object of leaves around one object of leaves passes the screening.\<close>

lemma safe_record:
  assumes a: "h a = JObject True (fs @ (k, JRef u) # gs)" and u: "h u = JObject True us" and "a \<noteq> u"
    and l: "list_all (\<lambda>(k, v). plainLeaf v) (fs @ gs)" "list_all (\<lambda>(k, v). plainLeaf v) us"
    and k: "list_all (\<lambda>(k, v). \<not> forbiddenField k) (fs @ (k, JRef u) # gs)" "list_all (\<lambda>(k, v). \<not> forbiddenField k) us"
  shows "assertSafeInput h (JRef a) = Inr ()"
proof -
  have leaves: "list_all (\<lambda>(v, d). plainLeaf v) (rev (map (\<lambda>(k, v). (v, Suc d)) xs))"
    if "list_all (\<lambda>(k, v). plainLeaf v) xs" for d and xs :: "(string \<times> jsval) list"
    using that by (auto simp: list_all_iff)
  have "assertSafeInput h (JRef a) = safeLoop h [a] 1 (rev (map (\<lambda>(k, v). (v, 1)) gs) @ (JRef u, 1) # rev (map (\<lambda>(k, v). (v, 1)) fs) @ [])"
    using safeLoop_object [where h = h and a = a and seen = "[]" and n = 0 and d = 0 and xs = "[]", OF a] k(1) by (simp add: assertSafeInput_def)
  also have "\<dots> = safeLoop h [a] 1 ((JRef u, 1) # rev (map (\<lambda>(k, v). (v, 1)) fs) @ [])"
    using leaves [of gs 0] l(1) by (intro safeLoop_leaves) simp
  also have "\<dots> = safeLoop h [u, a] 2 (rev (map (\<lambda>(k, v). (v, 2)) us) @ rev (map (\<lambda>(k, v). (v, 1)) fs) @ [])"
    using safeLoop_object [where h = h and a = u and seen = "[a]" and n = 1 and d = 1, OF u] k(2) \<open>a \<noteq> u\<close> by (simp add: numeral_2_eq_2)
  also have "\<dots> = safeLoop h [u, a] 2 (rev (map (\<lambda>(k, v). (v, 1)) fs) @ [])"
    using leaves [of us 1] l(2) by (intro safeLoop_leaves) (simp add: numeral_2_eq_2)
  also have "\<dots> = Inr ()"
    using leaves [of fs 0] l(1) safeLoop_leaves [of "rev (map (\<lambda>(k, v). (v, 1)) fs)" h "[u, a]" 2 "[]"] by simp
  finally show ?thesis .
qed

lemma allowed_fields:
  "list_all (\<lambda>k. \<not> forbiddenField k) [''requestId'', ''providerId'', ''requestedModel'', ''inputSha256'', ''outputSha256'',
     ''usage'', ''requestStartedAt'', ''verifiedAt'', ''evidence_version'', ''request_id'', ''provider_id'', ''requested_model'',
     ''served_model'', ''provider_request_id'', ''input_sha256'', ''output_sha256'', ''completed_at'', ''receipt_ref'',
     ''input_tokens'', ''output_tokens'', ''total_tokens'']"
  by code_simp

lemma validateUsage_object:
  "h u = usageObject x \<Longrightarrow> wfUsage x \<Longrightarrow> validateUsage h (JRef u) = Inr x"
  by (auto simp: validateUsage_def usageObject_def assertExactKeys_def assertPlainRecord_def wfUsage_def dbl_exact MAX_SAFE_INTEGER_def)

lemma expectation_valid:
  assumes x: "gi_usage x = JRef v" "h v = usageObject (use :: SupplierGatewayUsage)" "wfUsage use" "a \<noteq> v"
    and "IDENTIFIER_PATTERN (gi_requestId x)" "IDENTIFIER_PATTERN (gi_providerId x)" "js_trim (gi_requestedModel x) \<noteq> []"
    "length (gi_requestedModel x) \<le> 200" "isSha256 (gi_inputSha256 x)" "isSha256 (sha256 (gi_output x))"
  shows "validateExpectation (h(a := expectationObject sha256 x verifiedAt)) (JRef a) =
    Inr \<lparr>xx_requestId = gi_requestId x, xx_providerId = gi_providerId x, xx_requestedModel = gi_requestedModel x,
      xx_inputSha256 = gi_inputSha256 x, xx_outputSha256 = sha256 (gi_output x), xx_usage = use\<rparr>"
proof -
  let ?h = "h(a := expectationObject sha256 x verifiedAt)"
  have u: "?h v = usageObject use" using x by simp
  have "assertSafeInput ?h (JRef a) = Inr ()"
    by (rule safe_record [where u = v and k = "''usage''" and
        fs = "[(''requestId'', JStr (gi_requestId x)), (''providerId'', JStr (gi_providerId x)),
          (''requestedModel'', JStr (gi_requestedModel x)), (''inputSha256'', JStr (gi_inputSha256 x)),
          (''outputSha256'', JStr (sha256 (gi_output x)))]" and
        gs = "[(''requestStartedAt'', JStr (gi_requestStartedAt x)), (''verifiedAt'', JStr verifiedAt)]" and
        us = "[(''input_tokens'', JNum (NInt (input_tokens use))), (''output_tokens'', JNum (NInt (output_tokens use))),
          (''total_tokens'', JNum (NInt (total_tokens use)))]"])
      (use x allowed_fields u in \<open>simp_all add: expectationObject_def usageObject_def\<close>)
  then show ?thesis
    using assms validateUsage_object [where h = ?h and u = v, OF u x(3)]
    by (simp add: validateExpectation_def expectationObject_def assertExactKeys_def assertPlainRecord_def assertIdentifier_def
        assertText_def assertSha256_def isSha256_def)
qed

lemma evidence_valid:
  assumes h: "h b = evidenceObject e completedAt u" "h u = usageObject (xe_usage e)" "b \<noteq> u" and w: "wfUsage (xe_usage e)"
    and i: "IDENTIFIER_PATTERN (xe_request_id e)" "IDENTIFIER_PATTERN (xe_provider_id e)"
    and t: "js_trim (xe_requested_model e) \<noteq> []" "length (xe_requested_model e) \<le> 200" "js_trim (xe_served_model e) \<noteq> []"
      "length (xe_served_model e) \<le> 200" "js_trim (xe_provider_request_id e) \<noteq> []" "length (xe_provider_request_id e) \<le> 256"
      "\<And>r. xe_receipt_ref e = Some r \<Longrightarrow> js_trim r \<noteq> [] \<and> length r \<le> 256"
    and d: "isSha256 (xe_input_sha256 e)" "isSha256 (xe_output_sha256 e)"
  shows "validateEvidenceShape h (JRef b) = Inr e"
proof -
  let ?rest = "(''completed_at'', JStr completedAt) #
          (case xe_receipt_ref e of None \<Rightarrow> [] | Some r \<Rightarrow> [(''receipt_ref'', JStr r)])"
  have "assertSafeInput h (JRef b) = Inr ()"
    by (rule safe_record [where u = u and k = "''usage''" and
        fs = "[(''evidence_version'', JStr SUPPLIER_GATEWAY_EXECUTION_EVIDENCE_VERSION), (''request_id'', JStr (xe_request_id e)),
          (''provider_id'', JStr (xe_provider_id e)), (''requested_model'', JStr (xe_requested_model e)),
          (''served_model'', JStr (xe_served_model e)), (''provider_request_id'', JStr (xe_provider_request_id e)),
          (''input_sha256'', JStr (xe_input_sha256 e)), (''output_sha256'', JStr (xe_output_sha256 e))]" and
        gs = ?rest and
        us = "[(''input_tokens'', JNum (NInt (input_tokens (xe_usage e)))), (''output_tokens'', JNum (NInt (output_tokens (xe_usage e)))),
          (''total_tokens'', JNum (NInt (total_tokens (xe_usage e))))]"])
      (use h allowed_fields in \<open>auto simp: evidenceObject_def usageObject_def split: option.splits\<close>)
  moreover note validateUsage_object [where h = h and u = u, OF h(2) w]
  ultimately show ?thesis
    using h(1) i t d
    by (cases "xe_receipt_ref e")
      (simp_all add: validateEvidenceShape_def evidenceObject_def assertExactKeys_def assertPlainRecord_def assertIdentifier_def
        assertText_def assertSha256_def isSha256_def catchAs_def)
qed

text \<open>What the reply of a node to an accepted provider result looks like.\<close>

lemma provider_result_usage:
  assumes "validateProviderResult r model maxOut = Inr ()"
  shows "wfUsage (gr_usage (executionReply sha256 hmac config request completedAt r)) \<and>
    output_tokens (gr_usage (executionReply sha256 hmac config request completedAt r)) \<le> maxOut \<and>
    pr_servedModel r = JStr model \<and> 1 \<le> length (strOf (pr_output r)) \<and> length (strOf (pr_output r)) \<le> 200000 \<and>
    1 \<le> length (strOf (pr_providerRequestId r)) \<and> length (strOf (pr_providerRequestId r)) \<le> 256 \<and> 1 \<le> length model \<and> length model \<le> 200"
proof -
  have within: "textWithin v n \<Longrightarrow> 1 \<le> length (strOf v) \<and> length (strOf v) \<le> n" for v n by (cases v) auto
  from assms obtain i k t where n: "pr_inputTokens r = NInt i" "pr_outputTokens r = NInt k" "pr_totalTokens r = NInt t"
    by (auto simp: validateProviderResult_def Let_def isSafeInteger_iff split: if_splits)
  with assms have b: "1 \<le> i" "0 \<le> k" "k \<le> maxOut" "\<bar>t\<bar> \<le> MAX_SAFE_INTEGER" "t = dbl (i + k)"
    by (auto simp: validateProviderResult_def Let_def split: if_splits)
  then have "t = i + k" using dbl_unsafe [of "i + k"] dbl_exact [of "i + k"] by (cases "i + k \<le> MAX_SAFE_INTEGER") auto
  with b n within assms show ?thesis
    by (auto simp: wfUsage_def executionReply_def Let_def validateProviderResult_def split: if_splits)
qed

text \<open>
  C16: An honest node is paid. Whenever the node answers an execution with a reply and its clock and that
  of the control plane agree within five minutes, the control plane's verification of the parsed reply
  succeeds, with exactly the usage, the model and the provider request identifier the node reported. The
  hypotheses on texts are the formats the control plane requires: identifiers, and texts that are not
  blank.
\<close>

theorem honest_evidence_accepted:
  assumes "hexDigests sha256 hmac" "validateProviderResult r (ir_model request) (ir_max_output_tokens request) = Inr ()"
    and reply: "reply = executionReply sha256 hmac config request completedAt r"
    and heap: "h b = evidenceObject (gr_evidence reply) completedAt u" "h u = usageObject (gr_usage reply)" "h v = usageObject (gr_usage reply)"
      "distinct [a, b, u, v]"
    and form: "IDENTIFIER_PATTERN (ir_request_id request)" "IDENTIFIER_PATTERN (nc_providerId config)" "js_trim (ir_model request) \<noteq> []"
      "js_trim (strOf (pr_providerRequestId r)) \<noteq> []"
      "\<forall>t. pr_receiptRef r = Some t \<longrightarrow> t = [] \<or> (js_trim t \<noteq> [] \<and> length t \<le> 256)"
    and clock: "endsWith completedAt ''Z''" "dp completedAt = Some c" "endsWith startedAt ''Z''" "dp startedAt = Some s"
      "endsWith verifiedAt ''Z''" "dp verifiedAt = Some w" "withinClockWindow c s w"
  shows "\<exists>verified digest. verifyGatewayServiceEvidence sha256 hmac dp h a verifiedAt
      \<lparr>gi_gatewayToken = nc_gatewayToken config, gi_requestId = ir_request_id request, gi_providerId = nc_providerId config,
       gi_requestedModel = ir_model request, gi_inputSha256 = sha256 (ir_input request), gi_output = gr_output reply,
       gi_usage = JRef v, gi_evidence = JRef b, gi_evidenceSignature = gr_signature reply, gi_requestStartedAt = startedAt\<rparr> =
      Inr (verified, digest) \<and> ve_usage verified = gr_usage reply \<and> ve_servedModel verified = ir_model request \<and>
      ve_providerRequestId verified = strOf (pr_providerRequestId r) \<and> ve_completedAt verified = completedAt"
proof -
  let ?x = "\<lparr>gi_gatewayToken = nc_gatewayToken config, gi_requestId = ir_request_id request, gi_providerId = nc_providerId config,
       gi_requestedModel = ir_model request, gi_inputSha256 = sha256 (ir_input request), gi_output = gr_output reply,
       gi_usage = JRef v, gi_evidence = JRef b, gi_evidenceSignature = gr_signature reply, gi_requestStartedAt = startedAt\<rparr>"
  let ?h = "h(a := expectationObject sha256 ?x verifiedAt)" and ?e = "gr_evidence reply"
  have sha: "isSha256 (sha256 z)" "isSha256 (hmac y z)" for y z using assms(1) by (simp_all add: hexDigests_def)
  note p = provider_result_usage [where ?sha256.0 = sha256 and hmac = hmac and config = config and request = request and completedAt = completedAt,
      OF assms(2), folded reply]
  have f: "xe_usage ?e = gr_usage reply" "xe_request_id ?e = ir_request_id request" "xe_provider_id ?e = nc_providerId config"
    "xe_requested_model ?e = ir_model request" "xe_served_model ?e = ir_model request"
    "xe_provider_request_id ?e = strOf (pr_providerRequestId r)" "\<And>t. xe_receipt_ref ?e = Some t \<Longrightarrow> js_trim t \<noteq> [] \<and> length t \<le> 256"
    "xe_input_sha256 ?e = sha256 (ir_input request)" "xe_output_sha256 ?e = sha256 (gr_output reply)"
    "gr_signature reply = hmac (nc_gatewayToken config) (createSupplierGatewayExecutionEvidencePayload SUPPLIER_GATEWAY_EXECUTION_EVIDENCE_VERSION ?e completedAt)"
    using p form(5) by (auto simp: reply executionReply_def Let_def createExecutionEvidenceSignature_def split: if_splits)
  have h: "?h b = evidenceObject ?e completedAt u" "?h u = usageObject (xe_usage ?e)" "?h v = usageObject (gr_usage reply)"
    using heap f(1) by auto
  have e: "validateEvidenceShape ?h (JRef b) = Inr ?e"
    by (rule evidence_valid [where u = u]) (use h heap(4) f p form sha in simp_all)
  have x: "validateExpectation ?h (JRef a) = Inr \<lparr>xx_requestId = ir_request_id request, xx_providerId = nc_providerId config,
      xx_requestedModel = ir_model request, xx_inputSha256 = sha256 (ir_input request), xx_outputSha256 = sha256 (gr_output reply),
      xx_usage = gr_usage reply\<rparr>"
    using expectation_valid [where h = h and x = ?x and v = v and use = "gr_usage reply" and a = a and ?sha256.0 = sha256 and verifiedAt = verifiedAt]
      heap(3,4) p form sha by simp
  have fields: "jget ?h (JRef b) ''completed_at'' = JStr completedAt"
    "jget ?h (JRef b) ''evidence_version'' = JStr SUPPLIER_GATEWAY_EXECUTION_EVIDENCE_VERSION"
    "jget ?h (JRef a) ''requestStartedAt'' = JStr startedAt" "jget ?h (JRef a) ''verifiedAt'' = JStr verifiedAt"
    using h(1) by (simp_all add: evidenceObject_def expectationObject_def)
  have stamp: "assertTimestamp dp (JStr completedAt) = Inr c" "assertTimestamp dp (JStr startedAt) = Inr s"
    "assertTimestamp dp (JStr verifiedAt) = Inr w" using clock by (simp_all add: assertTimestamp_def)
  have "verifySupplierExecutionEvidence ?h dp (JRef a) (JRef b) = Inr \<lparr>ve_providerId = nc_providerId config, ve_requestedModel = ir_model request,
      ve_servedModel = ir_model request, ve_providerRequestId = strOf (pr_providerRequestId r), ve_inputSha256 = sha256 (ir_input request),
      ve_outputSha256 = sha256 (gr_output reply), ve_usage = gr_usage reply, ve_completedAt = completedAt, ve_receiptRef = xe_receipt_ref ?e\<rparr>"
    unfolding verifySupplierExecutionEvidence_def x e fields stamp using clock(7) f by (simp add: sameUsage_def)
  then show ?thesis using e fields f sha by (simp add: verifyGatewayServiceEvidence_def Let_def)
qed

end
