(* ===== verification/ReplayProgress.thy ===== *)
theory ReplayProgress
  imports ReplaySafety
begin

text \<open>
  The other half of replay protection: a healthy journal on a working disk grants every claim that is
  fresh, as long as the file has room for one line.
\<close>

section \<open>A working disk\<close>

definition workingDisk :: "JournalIo \<Rightarrow> nat \<Rightarrow> bool" where
  "workingDisk io len \<longleftrightarrow> io_stat io \<and> io_compact io = CompactOk \<and> io_restat io \<and> io_open io \<and> io_fsync io \<and> io_size io \<and>
     io_later io = CompactOk \<and> (\<forall>buffer. length buffer = len \<longrightarrow> snd (writeAll (io_write io) 0 buffer))"

text \<open>The longest line has fewer than 300 bytes.\<close>

lemma byteLength_Cons [simp]: "byteLength (c # cs) = (if (of_char c :: nat) < 128 then 1 else 2) + byteLength cs"
  by (simp add: byteLength_def)

lemma byteLength_Nil [simp]: "byteLength [] = 0"
  by (simp add: byteLength_def)

lemma dec_length: "n < 10 ^ Suc k \<Longrightarrow> length (dec_of_nat n) \<le> Suc k"
proof (induction k arbitrary: n)
  case (Suc k)
  show ?case
  proof (cases "n < 10")
    case False
    have "n div 10 < 10 ^ Suc k" using Suc.prems by (simp add: div_less_iff_less_mult mult.commute)
    with Suc.IH False show ?thesis by (simp add: dec_of_nat.simps [of n])
  qed (simp add: dec_of_nat.simps)
qed (simp add: dec_of_nat.simps)

lemma plain_char_bytes: "list_all plainChar s \<Longrightarrow> byteLength s = length s"
  by (induction s) (simp_all add: plainChar_def)

lemma quote_hex_length: "isSha256 k \<Longrightarrow> byteLength (jsonQuote k) = 66"
proof -
  assume k: "isSha256 k"
  then have "list_all isHexChar k \<and> length k = 64" by (simp add: isSha256_def)
  moreover have "list_all isHexChar s \<Longrightarrow> length (concat (map escapeChar s)) = length s" for s
    by (induction s) (simp_all add: hex_plain)
  ultimately have "length (jsonQuote k) = 66" by (simp add: jsonQuote_def)
  with plain_char_bytes [OF plain_hex [OF k]] show ?thesis by simp
qed

lemma num_bytes: "0 \<le> e \<Longrightarrow> e \<le> MAX_SAFE_INTEGER \<Longrightarrow> byteLength (numString e) \<le> 16"
proof -
  assume e: "0 \<le> e" "e \<le> MAX_SAFE_INTEGER"
  then have "nat e < 10 ^ Suc 15" by (simp add: MAX_SAFE_INTEGER_def nat_less_iff)
  then have "length (dec_of_nat (nat e)) \<le> Suc 15" by (rule dec_length)
  with e plain_char_bytes [OF plain_num [OF e(1)]] show ?thesis by (simp add: numString_def)
qed

lemma record_bytes: "wfRecord r \<Longrightarrow> byteLength (recordLine r) \<le> 300"
proof -
  assume r: "wfRecord r"
  have names: "byteLength (jsonQuote ''version'') = 9" "byteLength (jsonQuote ''kind'') = 6" "byteLength (jsonQuote ''nonce'') = 7"
    "byteLength (jsonQuote ''request'') = 9" "byteLength (jsonQuote ''key'') = 5" "byteLength (jsonQuote ''bodyCommitment'') = 16"
    "byteLength (jsonQuote ''expiresAt'') = 11" "byteLength (numString 2) = 1" "byteLength NL = 1"
    by code_simp+
  show ?thesis
    using r names quote_hex_length
    by (cases r) (auto simp: recordLine_def jsonObject_def intro: order_trans [OF num_bytes])
qed

section \<open>Fresh claims are granted\<close>

text \<open>What housekeeping leaves of a journal.\<close>

definition settled :: "PersistentReplayJournal \<Rightarrow> PersistentReplayJournal \<Rightarrow> bool" where
  "settled j j' \<longleftrightarrow> rj_terminalFailure j' = rj_terminalFailure j \<and> byteLength (rj_file j') \<le> byteLength (rj_file j) \<and>
     set (rj_nonces j') \<subseteq> set (rj_nonces j) \<and> set (rj_requests j') \<subseteq> set (rj_requests j)"

lemma compact_succeeds:
  assumes "clean t j" "byteLength (rj_file j) \<le> MAXIMUM_JOURNAL_BYTES"
  shows "\<exists>j'. compact CompactOk t j = (j', Inr ()) \<and> settled j j'"
proof -
  from assms(1) obtain recs where r: "rj_file j = journalText recs" "matches t j recs" by (auto simp: clean_def)
  have "activeRecords (prune t j) = map (\<lambda>(k, e). NonceRecordV2 k e) (live snd t (nonceEntries recs)) @
      map (\<lambda>(k, c, e). RequestRecordV2 k c e) (live requestExpiry t (requestEntries recs))"
    using r(2) by (simp add: activeRecords_def prune_live live_same matches_def)
  with live_lines [of t recs] r(1) assms(2) show ?thesis by (auto simp: compact_def Let_def prune_live settled_def)
qed

lemma append_succeeds:
  assumes "workingDisk io (byteLength (recordLine r))" "byteLength (rj_file j) + 300 \<le> MAXIMUM_JOURNAL_BYTES" "wfRecord r"
  shows "appendRecord io r t j = (j\<lparr>rj_file := rj_file j @ recordLine r,
    rj_appendedSinceCompaction := rj_appendedSinceCompaction j + 1\<rparr>, Inr ())"
proof -
  obtain ps ok where w: "writeAll (io_write io) 0 (recordLine r) = (ps, ok)" by fastforce
  with assms(1) recordLine_bytes [OF assms(3)] have "ok" by (auto simp: workingDisk_def dest!: spec [of _ "recordLine r"])
  with writeAll_result [OF w] have "concat ps = recordLine r" by auto
  with w \<open>ok\<close> assms record_bytes [OF assms(3)] show ?thesis by (simp add: appendRecord_def writeLine_def workingDisk_def Let_def)
qed

lemma maybeCompact_succeeds:
  assumes "workingDisk io len" "clean t j" "byteLength (rj_file j) \<le> MAXIMUM_JOURNAL_BYTES"
  shows "\<exists>j'. maybeCompactAfterAppend io t j = (j', Inr ()) \<and> settled j j'"
proof -
  from compact_succeeds [OF assms(2,3)] obtain j' where "compact CompactOk t j = (j', Inr ())" "settled j j'" by blast
  moreover have "settled j j" by (simp add: settled_def)
  ultimately show ?thesis using assms(1) by (simp add: maybeCompactAfterAppend_def workingDisk_def Let_def)
qed

lemma claimed_file:
  assumes "clean t j" "wfRecord r"
  shows "\<exists>recs. matches t j recs \<and> rj_file j @ recordLine r = journalText (recs @ [r])"
proof -
  from assms(1) obtain recs where "rj_file j = journalText recs" "matches t j recs" by (auto simp: clean_def)
  then show ?thesis by (auto simp: journalText_lines)
qed

lemma claimNonce_succeeds:
  assumes "clean t0 j" "t0 \<le> t" "\<not> rj_terminalFailure j" "byteLength (rj_file j) + 300 \<le> MAXIMUM_JOURNAL_BYTES"
    and wf: "wfRecord (NonceRecordV2 (sha256 nonce) x)" and io: "workingDisk io (byteLength (recordLine (NonceRecordV2 (sha256 nonce) x)))"
    and fresh: "\<forall>e. (sha256 nonce, e) \<in> set (rj_nonces j) \<longrightarrow> e < t" and t: "0 \<le> t"
  shows "\<exists>j'. claimNonce sha256 io nonce x t j = (j', Inr ()) \<and> \<not> rj_terminalFailure j' \<and>
    clean t j' \<and> byteLength (rj_file j') \<le> byteLength (rj_file j) + 300 \<and>
    set (rj_nonces j') \<subseteq> insert (sha256 nonce, x) (set (rj_nonces j)) \<and> set (rj_requests j') \<subseteq> set (rj_requests j)"
proof -
  let ?r = "NonceRecordV2 (sha256 nonce) x" and ?j1 = "prune t j"
  let ?j2 = "?j1\<lparr>rj_file := rj_file ?j1 @ recordLine ?r, rj_appendedSinceCompaction := rj_appendedSinceCompaction ?j1 + 1\<rparr>"
  let ?j3 = "?j2\<lparr>rj_nonces := mapSet (sha256 nonce) x (rj_nonces ?j2)\<rparr>"
  have new: "sha256 nonce \<notin> fst ` set (rj_nonces ?j1)" using fresh by (force simp: prune_live)
  then have none: "map_of (rj_nonces ?j1) (sha256 nonce) = None" by (simp add: map_of_eq_None_iff)
  have ap: "appendRecord io ?r t ?j1 = (?j2, Inr ())" using append_succeeds [OF io _ wf, of ?j1 t] assms(4) by (simp add: prune_live)
  from claimed_file [OF clean_prune [OF assms(1,2)] wf] obtain recs where
    r: "matches t ?j1 recs" "rj_file ?j1 @ recordLine ?r = journalText (recs @ [?r])" by blast
  have "matches t ?j2 recs" using r(1) by (simp add: matches_def)
  then have c: "clean t ?j3" using r(2) new wf by (intro claimed_nonce) simp_all
  have "byteLength (rj_file ?j3) \<le> MAXIMUM_JOURNAL_BYTES" using record_bytes [OF wf] assms(4) by (simp add: prune_live)
  from maybeCompact_succeeds [OF io c this] obtain j' where
    m: "maybeCompactAfterAppend io t ?j3 = (j', Inr ())" "settled ?j3 j'" by blast
  have run: "claimNonce sha256 io nonce x t j = (j', Inr ())" using m(1) ap none assms(3) t by (simp add: claimNonce_def prune_live)
  have "\<not> rj_terminalFailure j' \<and> clean t j'"
    using claimNonce_keeps [OF run assms(1-3)] wf by (auto simp: keepsClaims_def)
  moreover have "byteLength (rj_file j') \<le> byteLength (rj_file j) + 300" "set (rj_requests j') \<subseteq> set (rj_requests j)"
    "set (rj_nonces j') \<subseteq> insert (sha256 nonce, x) (set (rj_nonces j))"
    using m(2) record_bytes [OF wf] by (auto simp: settled_def prune_live mapSet_fresh [OF new [unfolded prune_live]])
  ultimately show ?thesis using run by blast
qed

lemma claimRequest_succeeds:
  assumes "clean t0 j" "t0 \<le> t" "\<not> rj_terminalFailure j" "byteLength (rj_file j) + 300 \<le> MAXIMUM_JOURNAL_BYTES"
    and c: "c = hmac token (BODY_COMMITMENT_DOMAIN @ body)" "isSha256 body" and hash: "\<And>a b. isSha256 (hmac a b)"
    and wf: "wfRecord (RequestRecordV2 (sha256 requestId) c x)"
    and io: "workingDisk io (byteLength (recordLine (RequestRecordV2 (sha256 requestId) c x)))"
    and fresh: "\<forall>c e. (sha256 requestId, c, e) \<in> set (rj_requests j) \<longrightarrow> e < t"
  shows "\<exists>j'. claimRequest sha256 hmac token io requestId body x t j = (j', Inr ()) \<and> \<not> rj_terminalFailure j' \<and>
    clean t j' \<and> byteLength (rj_file j') \<le> byteLength (rj_file j) + 300 \<and>
    set (rj_nonces j') \<subseteq> set (rj_nonces j) \<and> set (rj_requests j') \<subseteq> insert (sha256 requestId, c, x) (set (rj_requests j))"
proof -
  let ?r = "RequestRecordV2 (sha256 requestId) c x" and ?j1 = "prune t j"
  let ?j2 = "?j1\<lparr>rj_file := rj_file ?j1 @ recordLine ?r, rj_appendedSinceCompaction := rj_appendedSinceCompaction ?j1 + 1\<rparr>"
  let ?j3 = "?j2\<lparr>rj_requests := mapSet (sha256 requestId) (c, x) (rj_requests ?j2)\<rparr>"
  have new: "sha256 requestId \<notin> fst ` set (rj_requests ?j1)" using fresh by (force simp: prune_live)
  then have none: "map_of (rj_requests ?j1) (sha256 requestId) = None" by (simp add: map_of_eq_None_iff)
  have ap: "appendRecord io ?r t ?j1 = (?j2, Inr ())" using append_succeeds [OF io _ wf, of ?j1 t] assms(4) by (simp add: prune_live)
  from claimed_file [OF clean_prune [OF assms(1,2)] wf] obtain recs where
    r: "matches t ?j1 recs" "rj_file ?j1 @ recordLine ?r = journalText (recs @ [?r])" by blast
  have "matches t ?j2 recs" using r(1) by (simp add: matches_def)
  then have cl: "clean t ?j3" using r(2) new wf by (intro claimed_request) simp_all
  have "byteLength (rj_file ?j3) \<le> MAXIMUM_JOURNAL_BYTES" using record_bytes [OF wf] assms(4) by (simp add: prune_live)
  from maybeCompact_succeeds [OF io cl this] obtain j' where
    m: "maybeCompactAfterAppend io t ?j3 = (j', Inr ())" "settled ?j3 j'" by blast
  have run: "claimRequest sha256 hmac token io requestId body x t j = (j', Inr ())"
    using m(1) ap none assms(3) c by (simp add: claimRequest_def createBodyCommitment_def prune_live)
  have "\<not> rj_terminalFailure j' \<and> clean t j'"
    using claimRequest_keeps [OF run assms(1-3)] wf hash by (auto simp: keepsClaims_def)
  moreover have "byteLength (rj_file j') \<le> byteLength (rj_file j) + 300" "set (rj_nonces j') \<subseteq> set (rj_nonces j)"
    "set (rj_requests j') \<subseteq> insert (sha256 requestId, c, x) (set (rj_requests j))"
    using m(2) record_bytes [OF wf] by (auto simp: settled_def prune_live mapSet_fresh [OF new [unfolded prune_live]])
  ultimately show ?thesis using run by blast
qed

text \<open>
  C34: A healthy node never refuses honest work. After any run that left the journal healthy and with room
  for a line, on a working disk, a nonce and a request whose earlier claims have expired, or that were
  never seen, are granted, and the journal stays healthy.
\<close>

theorem fresh_claims_granted:
  assumes "hexDigests sha256 hmac"
    and "timed_run (journal_step sha256 hmac token) eventTime t0 (Stopped f) es (Running j)" "isHealthy j"
    and "t0 \<le> t" "\<forall>e \<in> set es. eventTime e \<le> t" "0 \<le> t" "byteLength (rj_file j) + 300 \<le> MAXIMUM_JOURNAL_BYTES"
    and "0 \<le> x" "x \<le> MAX_SAFE_INTEGER" "\<forall>len. workingDisk (io len) len"
  shows "((\<forall>e. (sha256 nonce, e) \<in> set (rj_nonces j) \<longrightarrow> e < t) \<longrightarrow>
      (\<exists>j'. claimNonce sha256 (io (byteLength (recordLine (NonceRecordV2 (sha256 nonce) x)))) nonce x t j = (j', Inr ()) \<and> isHealthy j')) \<and>
    ((\<forall>c e. (sha256 requestId, c, e) \<in> set (rj_requests j) \<longrightarrow> e < t) \<and> isSha256 body \<longrightarrow>
      (\<exists>j'. claimRequest sha256 hmac token (io (byteLength (recordLine (RequestRecordV2 (sha256 requestId)
        (hmac token (BODY_COMMITMENT_DOMAIN @ body)) x)))) requestId body x t j = (j', Inr ()) \<and> isHealthy j'))"
proof -
  have "journalOk t (Running j)" using run_journalOk [OF hashed_run [OF assms(2,1)] _ assms(4,5)] by simp
  then have j: "clean t j" "\<not> rj_terminalFailure j" using assms(3) by (simp_all add: isHealthy_def)
  have wf: "wfRecord (NonceRecordV2 (sha256 nonce) x)" "wfRecord (RequestRecordV2 (sha256 requestId) (hmac token (BODY_COMMITMENT_DOMAIN @ body)) x)"
    using assms(1,8,9) by (simp_all add: hexDigests_def)
  show ?thesis
    using claimNonce_succeeds [where ?sha256.0 = sha256 and t = t and j = j and nonce = nonce, OF j(1) order_refl j(2) assms(7) wf(1) _ _ assms(6)]
      claimRequest_succeeds [where ?sha256.0 = sha256 and hmac = hmac and token = token and body = body and t = t and j = j and requestId = requestId, OF j(1) order_refl j(2) assms(7) refl _ _ wf(2)] assms(10)
    assms(1) unfolding isHealthy_def hexDigests_def by blast
qed

end
