(* ===== verification/NodeScenario.thy ===== *)
theory NodeScenario
  imports Gateway ReplayProgress
begin

text \<open>
  Runs of the supplier node on concrete inputs: instances of its theorems with their hypotheses
  discharged. The hash functions are constant, which is allowed by what the theorems assume of them.
\<close>

section \<open>A node\<close>

definition oneHash :: "string \<Rightarrow> string" where
  "oneHash s = replicate 64 CHR ''a''"

definition oneHmac :: "string \<Rightarrow> string \<Rightarrow> string" where
  "oneHmac k s = replicate 64 CHR ''a''"

definition demoDisk :: JournalIo where
  "demoDisk = \<lparr>io_stat = True, io_compact = CompactOk, io_restat = True, io_open = True, io_write = \<lambda>k. Some 1,
     io_fsync = True, io_size = True, io_later = CompactOk\<rparr>"

definition demoJournal :: PersistentReplayJournal where
  "demoJournal = \<lparr>rj_file = [], rj_nonces = [], rj_requests = [], rj_appendedSinceCompaction = 0, rj_lastCompactedAt = 0,
     rj_compactionInterval = 300000, rj_terminalFailure = False\<rparr>"

lemma one_hex: "isSha256 (replicate 64 CHR ''a'')"
  by (simp add: isSha256_def list_all_iff) (simp add: isHexChar_def)

lemma one_digests: "hexDigests oneHash oneHmac" "isSha256 (oneHash a)" "isSha256 (oneHmac k a)"
  by (simp_all add: hexDigests_def oneHash_def oneHmac_def one_hex)

lemma demo_disk: "workingDisk demoDisk len"
  by (simp add: workingDisk_def demoDisk_def writeAll_finished)

lemma demo_open:
  "openJournal oneHmac token (NInt 300000) \<lparr>oi_prepare = True, oi_compact = CompactOk\<rparr> 0 [] = ([], Inr demoJournal)"
  by (simp add: openJournal_def boundedInteger_def load_def loadLine_def compact_def Let_def prune_def activeRecords_def journalText_def
      MAXIMUM_JOURNAL_BYTES_def demoJournal_def MAX_SAFE_INTEGER_def)

text \<open>A journal with room whose claims have all expired before a time.\<close>

definition calm :: "int \<Rightarrow> nat \<Rightarrow> int \<Rightarrow> PersistentReplayJournal \<Rightarrow> bool" where
  "calm t room x j \<longleftrightarrow> clean t j \<and> \<not> rj_terminalFailure j \<and> byteLength (rj_file j) + room \<le> MAXIMUM_JOURNAL_BYTES \<and>
     (\<forall>e \<in> set (rj_nonces j). snd e < x) \<and> (\<forall>e \<in> set (rj_requests j). requestExpiry e < x)"

lemma calm_start: "calm 0 10000 0 demoJournal"
proof -
  have "clean 0 demoJournal"
    unfolding clean_def by (rule exI [of _ "[]"]) (simp add: demoJournal_def journalText_def matches_def)
  then show ?thesis by (simp add: calm_def demoJournal_def MAXIMUM_JOURNAL_BYTES_def)
qed

lemma calm_nonce:
  assumes "calm t0 (room + 300) x0 j" "t0 \<le> t" "x0 \<le> t" "x0 \<le> x" "0 \<le> t" "0 \<le> x" "x \<le> MAX_SAFE_INTEGER"
  shows "\<exists>j'. claimNonce oneHash demoDisk nonce x t j = (j', Inr ()) \<and> calm t room (x + 1) j' \<and>
    set (rj_requests j') \<subseteq> set (rj_requests j)"
proof -
  from assms have j: "clean t0 j" "\<not> rj_terminalFailure j" "byteLength (rj_file j) + 300 \<le> MAXIMUM_JOURNAL_BYTES"
    "\<forall>e. (oneHash nonce, e) \<in> set (rj_nonces j) \<longrightarrow> e < t" by (fastforce simp: calm_def)+
  have "wfRecord (NonceRecordV2 (oneHash nonce) x)" using assms(6,7) one_digests by simp
  from claimNonce_succeeds [where ?sha256.0 = oneHash and nonce = nonce and j = j and t = t, OF j(1) assms(2) j(2,3) this demo_disk j(4) assms(5)] assms(1,4) show ?thesis
    by (fastforce simp: calm_def)
qed

lemma calm_request:
  assumes "calm t0 (room + 300) x0 j" "t0 \<le> t" "\<forall>e \<in> set (rj_requests j). requestExpiry e < t" "x0 \<le> x" "0 \<le> x"
    "x \<le> MAX_SAFE_INTEGER" "isSha256 body"
  shows "\<exists>j'. claimRequest oneHash oneHmac token demoDisk requestId body x t j = (j', Inr ()) \<and> calm t room (x + 1) j' \<and>
    set (rj_nonces j') \<subseteq> set (rj_nonces j)"
proof -
  from assms have j: "clean t0 j" "\<not> rj_terminalFailure j" "byteLength (rj_file j) + 300 \<le> MAXIMUM_JOURNAL_BYTES"
    "\<forall>c e. (oneHash requestId, c, e) \<in> set (rj_requests j) \<longrightarrow> e < t" by (fastforce simp: calm_def)+
  have "wfRecord (RequestRecordV2 (oneHash requestId) (oneHmac token (BODY_COMMITMENT_DOMAIN @ body)) x)"
    using assms(5,6) one_digests by simp
  from claimRequest_succeeds [where ?sha256.0 = oneHash and hmac = oneHmac and token = token and body = body and requestId = requestId and j = j and t = t, OF j(1) assms(2) j(2,3) refl assms(7) one_digests(3) this demo_disk j(4)] assms(1,4) show ?thesis
    by (fastforce simp: calm_def)
qed

section \<open>The journal\<close>

lemma demo_start_step: "journal_step oneHash oneHmac token (Stopped []) (Elapsed 0) (Running demoJournal)"
  by (rule journal_step.start [OF demo_open])

lemma demo_request_step:
  assumes "calm t0 (room + 300) x0 j" "t0 \<le> t" "\<forall>e \<in> set (rj_requests j). requestExpiry e < t" "x0 \<le> x" "0 \<le> x" "x \<le> MAX_SAFE_INTEGER"
  shows "\<exists>j'. journal_step oneHash oneHmac token (Running j) (RequestGranted requestId (oneHash body) x t) (Running j') \<and> calm t room (x + 1) j'"
proof -
  from calm_request [OF assms one_digests(2), where token = token and requestId = requestId] obtain j' where
    r: "claimRequest oneHash oneHmac token demoDisk requestId (oneHash body) x t j = (j', Inr ())" "calm t room (x + 1) j'" by blast
  from journal_step.request [OF r(1) assms(5,6)] r(2) show ?thesis by auto
qed

lemma demo_journal_run:
  "\<exists>j. timed_run (journal_step oneHash oneHmac token) eventTime 0 (Stopped []) [Elapsed 0, RequestGranted ''request-1'' (oneHash []) 10 1,
     RequestGranted ''request-1'' (oneHash []) 21 11] (Running j) \<and> calm 11 1000 22 j"
proof -
  from demo_request_step [where token = token and requestId = "''request-1''" and body = "[]" and t = 1 and x = 10 and room = 9700] calm_start obtain j1 where
    j1: "journal_step oneHash oneHmac token (Running demoJournal) (RequestGranted ''request-1'' (oneHash []) 10 1) (Running j1)" "calm 1 9700 11 j1"
    by (fastforce simp: demoJournal_def MAX_SAFE_INTEGER_def)
  then have "calm 1 (1000 + 300) 11 j1" "\<forall>e \<in> set (rj_requests j1). requestExpiry e < 11" by (auto simp: calm_def)
  from demo_request_step [OF this(1) _ this(2), where token = token and requestId = "''request-1''" and body = "[]" and x = 21] obtain j2 where
    "journal_step oneHash oneHmac token (Running j1) (RequestGranted ''request-1'' (oneHash []) 21 11) (Running j2)" "calm 11 1000 22 j2"
    by (auto simp: MAX_SAFE_INTEGER_def)
  with j1 demo_start_step [of token] show ?thesis by (auto intro!: timed_run.intros)
qed

text \<open>The same request is granted at time 1 until 10, and again at time 11.\<close>

theorem journal_at_most_once_witness:
  "\<exists>j. timed_run (journal_step oneHash oneHmac ''key'') eventTime 0 (Stopped []) [Elapsed 0, RequestGranted ''request-1'' (oneHash []) 10 1,
     RequestGranted ''request-1'' (oneHash []) 21 11] (Running j) \<and> (10 :: int) < 11"
proof -
  from demo_journal_run [of "''key''"] obtain j where
    r: "timed_run (journal_step oneHash oneHmac ''key'') eventTime 0 (Stopped [])
      ([Elapsed 0] @ RequestGranted ''request-1'' (oneHash []) 10 1 # [RequestGranted ''request-1'' (oneHash []) 21 11]) (Running j)" by auto
  from journal_at_most_once [OF one_digests(1) r, where requestId = "''request-1''"] r show ?thesis by auto
qed

lemma demo_healthy: "calm t room x j \<Longrightarrow> isHealthy j"
  by (simp add: calm_def isHealthy_def)

theorem journal_restart_exact_witness:
  "\<exists>j j'. timed_run (journal_step oneHash oneHmac ''key'') eventTime 0 (Stopped []) [Elapsed 0, RequestGranted ''request-1'' (oneHash []) 10 1,
     RequestGranted ''request-1'' (oneHash []) 21 11] (Running j) \<and>
   openJournal oneHmac ''key'' (NInt 300000) \<lparr>oi_prepare = True, oi_compact = CompactOk\<rparr> 22 (rj_file j) = (rj_file j', Inr j') \<and>
   isHealthy j' \<and> rj_requests j' = []"
proof -
  from demo_journal_run [of "''key''"] obtain j where r: "timed_run (journal_step oneHash oneHmac ''key'') eventTime 0 (Stopped [])
      [Elapsed 0, RequestGranted ''request-1'' (oneHash []) 10 1, RequestGranted ''request-1'' (oneHash []) 21 11] (Running j)" "calm 11 1000 22 j" by blast
  have "boundedInteger (NInt 300000) 1000 (60 * 60000) = Inr 300000" by (simp add: boundedInteger_def MAX_SAFE_INTEGER_def)
  from journal_restart_exact [OF one_digests(1) r(1) demo_healthy [OF r(2)] _ _ this, of 22] obtain j' where
    "openJournal oneHmac ''key'' (NInt 300000) \<lparr>oi_prepare = True, oi_compact = CompactOk\<rparr> 22 (rj_file j) = (rj_file j', Inr j')" "isHealthy j'"
    "rj_requests j' = filter (\<lambda>(k, c, e). \<not> e < 22) (rj_requests j)" by auto
  moreover have "filter (\<lambda>(k, c, e). \<not> e < 22) (rj_requests j) = []" using r(2) by (auto simp: calm_def filter_empty_conv)
  ultimately show ?thesis using r(1) by metis
qed

theorem fresh_claims_granted_witness:
  "\<exists>j j'. timed_run (journal_step oneHash oneHmac ''key'') eventTime 0 (Stopped []) [Elapsed 0, RequestGranted ''request-1'' (oneHash []) 10 1,
     RequestGranted ''request-1'' (oneHash []) 21 11] (Running j) \<and>
   claimRequest oneHash oneHmac ''key'' demoDisk ''request-1'' (oneHash []) 40 22 j = (j', Inr ()) \<and> isHealthy j'"
proof -
  from demo_journal_run [of "''key''"] obtain j where r: "timed_run (journal_step oneHash oneHmac ''key'') eventTime 0 (Stopped [])
      [Elapsed 0, RequestGranted ''request-1'' (oneHash []) 10 1, RequestGranted ''request-1'' (oneHash []) 21 11] (Running j)" "calm 11 1000 22 j" by blast
  have "byteLength (rj_file j) + 300 \<le> MAXIMUM_JOURNAL_BYTES" "\<forall>c e. (oneHash ''request-1'', c, e) \<in> set (rj_requests j) \<longrightarrow> e < 22"
    using r(2) by (fastforce simp: calm_def)+
  with fresh_claims_granted [OF one_digests(1) r(1) demo_healthy [OF r(2)], of 22 40 "\<lambda>_. demoDisk" "[]" "''request-1''" "oneHash []"]
    r(1) one_digests(2) demo_disk show ?thesis by (force simp: MAX_SAFE_INTEGER_def)
qed

text \<open>A line of 5 bytes in pieces of 3 and 2 bytes.\<close>

theorem write_loop_terminates_witness:
  "writeAll (\<lambda>k. Some (if k < 3 then 3 - k else 5 - k)) 0 ''line.'' = ([''lin'', ''e.''], True) \<and> concat [''lin'', ''e.''] = ''line.''"
proof -
  have w: "writeAll (\<lambda>k. Some (if k < 3 then 3 - k else 5 - k)) 0 ''line.'' = ([''lin'', ''e.''], True)"
    by (simp add: writeAll.simps)
  moreover have "\<forall>k < length ''line.''. \<exists>w. Some (if k < 3 then 3 - k else 5 - k) = Some w \<and> 1 \<le> w" by auto
  ultimately show ?thesis using write_loop_terminates [OF w] by blast
qed

section \<open>The gate\<close>

text \<open>
  Two requests per minute: the third is refused, the fourth comes after the minute. The release of the first
  admission is called twice.
\<close>

theorem node_rate_limits_witness:
  "gateRun 2 100 5 [Acquire 40 0, Acquire 40 1, Release 0, Acquire 10 2, Release 0, Acquire 50 60001] =
     (\<lparr>cg_entries = [(60001, 50)], cg_active = 2, cg_released = [True, False, False]\<rparr>, [(0, 40), (1, 40), (60001, 50)], [1, 2]) \<and>
   length (minute 59999 [(0, 40), (1, 40), (60001, 50)]) = 2 \<and> (2 :: int) \<le> 2 \<and> int (length [1, 2 :: nat]) \<le> 5"
proof -
  let ?ops = "[Acquire 40 0, Acquire 40 1, Release 0, Acquire 10 2, Release 0, Acquire 50 60001]"
  have r: "gateRun 2 100 5 ?ops =
      (\<lparr>cg_entries = [(60001, 50)], cg_active = 2, cg_released = [True, False, False]\<rparr>, [(0, 40), (1, 40), (60001, 50)], [1, 2])"
    by (simp add: gateRun_def newGate_def acquire_def release_def Let_def)
  have "length (minute 59999 [(0, 40), (1, 40), (60001, 50)]) = 2" by (simp add: minute_def)
  with node_rate_limits [OF r, of 59999] r show ?thesis by auto
qed

section \<open>Calls\<close>

definition demoConfig :: SupplierNodeConfig where
  "demoConfig = \<lparr>nc_gatewayToken = ''secret-token'', nc_providerId = ''provider-1'', nc_allowedModels = [''m''],
     nc_allowedDataClasses = [''P0''], nc_requestsPerMinute = 10, nc_tokensPerMinute = 1000, nc_concurrency = 4,
     nc_maxOutputTokens = 100, nc_maxInputBytes = 1000, nc_maxArtifactBytes = 0, nc_artifactSegmentBytes = 1\<rparr>"

definition demoBody :: string where
  "demoBody = gatewayRequestBody ''request-1'' ''m'' ''hello'' ''P0'' 10"

definition demoRequest :: SupplierGatewayInferenceRequest where
  "demoRequest = \<lparr>ir_request_id = ''request-1'', ir_model = ''m'', ir_input = ''hello'', ir_data_class = ''P0'', ir_max_output_tokens = 10\<rparr>"

definition demoNonce :: string where
  "demoNonce = ''nonce-0123456789''"

definition demoCall :: "int \<Rightarrow> SignedGatewayCall" where
  "demoCall ts = gatewayRequest oneHash oneHmac ''secret-token'' ''request-1'' demoBody ts demoNonce"

lemma demo_patterns: "jobIdPattern ''request-1''" "noncePattern demoNonce"
  by code_simp+

lemma demo_headers:
  "10 ^ 12 \<le> ts \<Longrightarrow> ts < 10 ^ 13 \<Longrightarrow>
   verifyHeaders oneHash oneHmac ''secret-token'' (demoCall ts) = Inr (demoNonce, ts, ''request-1'', oneHash demoBody)"
  unfolding demoCall_def using demo_patterns by (intro signed_headers [OF one_digests(1)]) simp_all

lemma demo_parse: "parseInferenceRequest demoBody = Inr demoRequest"
  unfolding demoBody_def demoRequest_def using demo_patterns by (intro signed_body) (simp_all add: MAX_SAFE_INTEGER_def)

theorem gateway_call_roundtrip_witness:
  "verifyHeaders oneHash oneHmac ''secret-token'' (demoCall 1700000000000) = Inr (demoNonce, 1700000000000, ''request-1'', oneHash demoBody) \<and>
   parseInferenceRequest demoBody = Inr demoRequest"
  unfolding demoCall_def demoRequest_def
  by (rule gateway_call_roundtrip [OF one_digests(1)]) (use demo_patterns in \<open>simp_all add: MAX_SAFE_INTEGER_def demoBody_def\<close>)

text \<open>A running node in which everything expires before a time, with free slots.\<close>

definition calmNode :: "int \<Rightarrow> nat \<Rightarrow> int \<Rightarrow> int \<Rightarrow> SupplierNodeRuntime \<Rightarrow> bool" where
  "calmNode t room x active n \<longleftrightarrow> calm t room x (sn_journal n) \<and> (\<forall>e \<in> set (sn_seen n). snd e < x) \<and>
     (\<forall>e \<in> set (sn_idempotency n). ie_expiresAt (snd e) < x) \<and> (\<forall>e \<in> set (cg_entries (sn_capacity n)). fst e + 60000 < x) \<and>
     cg_active (sn_capacity n) = active \<and> \<not> sn_draining n"

lemma pruned_all: "\<forall>e \<in> set es. fst e \<le> t - 60000 \<Longrightarrow> pruneEntries t es = []"
  by (induction t es rule: pruneEntries.induct) auto

lemma demo_execute:
  assumes n: "calmNode t0 (room + 600) x active n" and t: "t0 \<le> t" "x \<le> t" "10 ^ 12 \<le> t" "t < 10 ^ 13 - 900000" and a: "active < 4"
  shows "\<exists>n' pid. handleInference oneHash oneHmac demoConfig demoDisk demoDisk (demoCall t) t t n = (n', Invoked pid demoRequest) \<and>
    calmNode t room (t + 900001) (active + 1) n'"
proof -
  have "room + 300 + 300 = room + 600" by simp
  with n have "calm t0 (room + 300 + 300) x (sn_journal n)" unfolding calmNode_def by metis
  from calm_nonce [OF this t(1,2), of "t + 300000" demoNonce] t obtain j1 where
    j1: "claimNonce oneHash demoDisk demoNonce (t + 300000) t (sn_journal n) = (j1, Inr ())" "calm t (room + 300) (t + 300000 + 1) j1"
      "set (rj_requests j1) \<subseteq> set (rj_requests (sn_journal n))" by (auto simp: MAX_SAFE_INTEGER_def)
  have "\<forall>e \<in> set (rj_requests j1). requestExpiry e < t" using n t(2) j1(3) by (force simp: calmNode_def calm_def)
  from calm_request [OF j1(2) order_refl this, where x = "t + IDEMPOTENCY_TTL_MS" and token = "''secret-token''" and requestId = "''request-1''" and body = "oneHash demoBody"] t obtain j2 where
    j2: "claimRequest oneHash oneHmac ''secret-token'' demoDisk ''request-1'' (oneHash demoBody) (t + IDEMPOTENCY_TTL_MS) t j1 = (j2, Inr ())"
      "calm t room (t + 900001) j2" using one_digests(2) by (auto simp: MAX_SAFE_INTEGER_def IDEMPOTENCY_TTL_MS_def add.commute)
  have old: "filter (\<lambda>(k, e). \<not> e < t) (sn_seen n) = []" "filter (\<lambda>(k, e). \<not> ie_expiresAt e < t) (sn_idempotency n) = []"
    "pruneEntries t (cg_entries (sn_capacity n)) = []"
    using n t(2) by (fastforce simp: calmNode_def filter_empty_conv intro!: pruned_all)+
  have c: "nc_gatewayToken demoConfig = ''secret-token''" "nc_concurrency demoConfig = 4" "nc_requestsPerMinute demoConfig = 10"
    "nc_tokensPerMinute demoConfig = 1000" "sc_rawBody (demoCall t) = demoBody" "ir_request_id demoRequest = ''request-1''"
    "int (byteLength (ir_input demoRequest)) + ir_max_output_tokens demoRequest = 15" "validateRequestAgainstConfig demoRequest demoConfig = Inr ()"
    by (simp_all add: demoConfig_def demoCall_def gatewayRequest_def createSignedGatewayHeaders_def Let_def demoRequest_def validateRequestAgainstConfig_def)
  have v: "verifySignedGatewayCall oneHash oneHmac demoDisk ''secret-token'' (demoCall t) t (sn_seen n, sn_journal n) =
      (([(demoNonce, t + 300000)], j1), Inr (''request-1'', oneHash demoBody))"
    using demo_headers [of t] t old(1) j1(1)
    by (simp add: verifySignedGatewayCall_def verifyAndRecord_def REPLAY_WINDOW_MS_def MAXIMUM_NONCES_def mapSet_def)
  let ?k = "length (cg_released (sn_capacity n))" and ?pid = "length (sn_promises n)"
  let ?g = "\<lparr>cg_entries = [(t, 15)], cg_active = active + 1, cg_released = cg_released (sn_capacity n) @ [False]\<rparr>"
  have g: "acquire 10 1000 4 15 t (sn_capacity n) = (?g, Inr ?k)" using n a old(3) by (simp add: acquire_def Let_def calmNode_def)
  let ?n = "n\<lparr>sn_seen := [(demoNonce, t + 300000)], sn_journal := j2, sn_capacity := ?g, sn_promises := sn_promises n @ [PendingResult ?k],
    sn_idempotency := [(''request-1'', \<lparr>ie_bodySha256 = oneHash demoBody, ie_expiresAt = t + IDEMPOTENCY_TTL_MS, ie_result = ?pid\<rparr>)]\<rparr>"
  have "handleInference oneHash oneHmac demoConfig demoDisk demoDisk (demoCall t) t t n = (?n, Invoked ?pid demoRequest)"
    using n v g j2(1) old(2) demo_parse c
    by (simp add: handleInference_def admitRequest_def startExecution_def pruneIdempotency_def Let_def calmNode_def mapSet_def
        MAXIMUM_IDEMPOTENCY_ENTRIES_def)
  moreover have "calmNode t room (t + 900001) (active + 1) ?n"
    using n j2(2) by (simp add: calmNode_def IDEMPOTENCY_TTL_MS_def)
  ultimately show ?thesis by blast
qed

definition demoNode :: SupplierNodeRuntime where
  "demoNode = \<lparr>sn_capacity = newGate, sn_journal = demoJournal, sn_seen = [], sn_idempotency = [],
     sn_promises = [], sn_draining = False\<rparr>"

lemma demo_node: "calmNode 0 (8800 + 600 + 600) 0 0 demoNode"
  using calm_start by (simp add: calmNode_def demoNode_def newGate_def)

lemma demo_new:
  "newRuntime oneHmac demoConfig ''provider-1'' ''journal'' \<lparr>oi_prepare = True, oi_compact = CompactOk\<rparr> 0 [] = ([], Inr demoNode)"
proof -
  have "js_trim ''journal'' \<noteq> []" by code_simp
  then show ?thesis using demo_open [of "''secret-token''"]
    by (simp add: newRuntime_def demoConfig_def demoNode_def DEFAULT_COMPACTION_INTERVAL_MILLISECONDS_def)
qed

theorem executed_call_authentic_witness:
  "\<exists>n' pid. handleInference oneHash oneHmac demoConfig demoDisk demoDisk (demoCall 1700000000000) 1700000000000 1700000000000 demoNode =
     (n', Invoked pid demoRequest) \<and> ir_model demoRequest \<in> set (nc_allowedModels demoConfig) \<and> parseInferenceRequest demoBody = Inr demoRequest"
proof -
  from demo_execute [OF demo_node, of 1700000000000] obtain n' pid where
    h: "handleInference oneHash oneHmac demoConfig demoDisk demoDisk (demoCall 1700000000000) 1700000000000 1700000000000 demoNode =
     (n', Invoked pid demoRequest)" by auto
  from executed_call_authentic [OF h] h show ?thesis
    by (auto simp: demoCall_def gatewayRequest_def createSignedGatewayHeaders_def Let_def)
qed

text \<open>The request is executed, and executed again one millisecond after its protection has ended.\<close>

theorem node_executes_once_witness:
  "\<exists>n. timed_run (node_step oneHash oneHmac demoConfig) nodeTime 0 (NodeDown []) [Idle 0, Executed ''request-1'' 1700000000000,
     Executed ''request-1'' 1700000900001] (NodeUp n) \<and> (1700000000000 :: int) + 15 * 60000 < 1700000900001"
proof -
  from demo_execute [OF demo_node, of 1700000000000] obtain n1 p1 where
    h1: "handleInference oneHash oneHmac demoConfig demoDisk demoDisk (demoCall 1700000000000) 1700000000000 1700000000000 demoNode =
     (n1, Invoked p1 demoRequest)" "calmNode 1700000000000 (8800 + 600) 1700000900001 1 n1" by auto
  from demo_execute [OF h1(2), of 1700000900001] obtain n2 p2 where
    h2: "handleInference oneHash oneHmac demoConfig demoDisk demoDisk (demoCall 1700000900001) 1700000900001 1700000900001 n1 =
     (n2, Invoked p2 demoRequest)" by auto
  have d: "ir_request_id demoRequest = ''request-1''" by (simp add: demoRequest_def)
  have s: "node_step oneHash oneHmac demoConfig (NodeDown []) (Idle 0) (NodeUp demoNode)" by (rule node_step.start [OF demo_new])
  have s1: "node_step oneHash oneHmac demoConfig (NodeUp demoNode) (Executed ''request-1'' 1700000000000) (NodeUp n1)"
    using node_step.inference [OF h1(1)] d by (simp add: clockRange_def)
  have s2: "node_step oneHash oneHmac demoConfig (NodeUp n1) (Executed ''request-1'' 1700000900001) (NodeUp n2)"
    using node_step.inference [OF h2] d by (simp add: clockRange_def)
  have r: "timed_run (node_step oneHash oneHmac demoConfig) nodeTime 0 (NodeDown [])
      ([Idle 0] @ Executed ''request-1'' 1700000000000 # [Executed ''request-1'' 1700000900001]) (NodeUp n2)"
    using s s1 s2 by (auto intro!: timed_run.intros)
  from node_executes_once [OF one_digests(1) r, of 1700000900001] r show ?thesis by auto
qed




section \<open>Evidence\<close>

definition demoResult :: SupplierProviderResult where
  "demoResult = \<lparr>pr_output = JStr ''hi'', pr_providerRequestId = JStr ''up-1'', pr_servedModel = JStr ''m'', pr_inputTokens = NInt 3,
     pr_outputTokens = NInt 2, pr_totalTokens = NInt 5, pr_receiptRef = None\<rparr>"

definition demoReply :: SupplierGatewayInferenceResponse where
  "demoReply = executionReply oneHash oneHmac demoConfig demoRequest ''c1Z'' demoResult"

definition demoInput :: GatewayEvidenceVerificationInput where
  "demoInput = \<lparr>gi_gatewayToken = nc_gatewayToken demoConfig, gi_requestId = ir_request_id demoRequest, gi_providerId = nc_providerId demoConfig,
     gi_requestedModel = ir_model demoRequest, gi_inputSha256 = oneHash (ir_input demoRequest), gi_output = gr_output demoReply,
     gi_usage = JRef 3, gi_evidence = JRef 1, gi_evidenceSignature = gr_signature demoReply, gi_requestStartedAt = ''s1Z''\<rparr>"

definition demoHeap :: heap where
  "demoHeap = (\<lambda>_. JObject True [])(1 := evidenceObject (gr_evidence demoReply) ''c1Z'' 2, 2 := usageObject (gr_usage demoReply),
     3 := usageObject (gr_usage demoReply))"

theorem honest_evidence_accepted_witness:
  "\<exists>verified digest. verifyGatewayServiceEvidence oneHash oneHmac (\<lambda>s. Some 1000) demoHeap 0 ''v1Z'' demoInput = Inr (verified, digest) \<and>
     ve_usage verified = \<lparr>input_tokens = 3, output_tokens = 2, total_tokens = 5\<rparr> \<and> ve_providerRequestId verified = ''up-1''"
proof -
  have v: "validateProviderResult demoResult (ir_model demoRequest) (ir_max_output_tokens demoRequest) = Inr ()"
    by (simp add: validateProviderResult_def demoResult_def demoRequest_def dbl_exact MAX_SAFE_INTEGER_def)
  have h: "demoHeap 1 = evidenceObject (gr_evidence demoReply) ''c1Z'' 2" "demoHeap 2 = usageObject (gr_usage demoReply)"
    "demoHeap 3 = usageObject (gr_usage demoReply)" "distinct [0, 1, 2, 3 :: addr]" by (simp_all add: demoHeap_def)
  have p: "IDENTIFIER_PATTERN (ir_request_id demoRequest)" "IDENTIFIER_PATTERN (nc_providerId demoConfig)" "js_trim (ir_model demoRequest) \<noteq> []"
    "js_trim (strOf (pr_providerRequestId demoResult)) \<noteq> []" by code_simp+
  have u: "gr_usage demoReply = \<lparr>input_tokens = 3, output_tokens = 2, total_tokens = 5\<rparr>" "pr_providerRequestId demoResult = JStr ''up-1''"
    by (simp_all add: demoReply_def executionReply_def Let_def demoResult_def)
  have "\<exists>verified digest. verifyGatewayServiceEvidence oneHash oneHmac (\<lambda>s. Some 1000) demoHeap 0 ''v1Z'' demoInput = Inr (verified, digest) \<and>
      ve_usage verified = gr_usage demoReply \<and> ve_servedModel verified = ir_model demoRequest \<and>
      ve_providerRequestId verified = strOf (pr_providerRequestId demoResult) \<and> ve_completedAt verified = ''c1Z''"
    unfolding demoInput_def
    by (rule honest_evidence_accepted [where c = 1000 and s = 1000 and w = 1000, OF one_digests(1) v demoReply_def h p(1-4)])
      (simp_all add: demoResult_def endsWith_def withinClockWindow_def)
  with u show ?thesis by auto
qed

end
