(* ===== verification/CheckpointStore.thy ===== *)
theory CheckpointStore
  imports ArtifactExecutor "HOL-Library.List_Lexorder" "HOL-Library.Char_ord"
begin

text \<open>
  The encrypted checkpoints of a supplier's worker
  (\<^verbatim>\<open>apps/supplier-agent/src/artifact-checkpoint-store.ts\<close>): a directory of JSON envelopes, one per task, each
  with a life time that is authenticated with its content and that a rewrite keeps. The cipher, \<open>Date.parse\<close>
  and \<open>toISOString\<close> are arguments; so are the random bytes and the outcomes of the file-system calls.
\<close>

section \<open>Envelopes\<close>

text \<open>
  AES-256-GCM with its texts in base64. The plaintext is the checkpoint itself: \<open>JSON.parse\<close> is the inverse
  of \<open>JSON.stringify\<close> on it. \<open>cc_bytes\<close> is the length of that text in UTF-8.
\<close>

record CheckpointCipher =
  cc_seal :: "string \<Rightarrow> string \<Rightarrow> string \<Rightarrow> SupplierArtifactCheckpointState \<Rightarrow> string \<times> string"
  cc_unseal :: "string \<Rightarrow> string \<Rightarrow> string \<Rightarrow> string \<times> string \<Rightarrow> SupplierArtifactCheckpointState option"
  cc_bytes :: "SupplierArtifactCheckpointState \<Rightarrow> nat"
  cc_parse :: "string \<Rightarrow> int option"
  cc_iso :: "int \<Rightarrow> string"
  cc_sha256 :: "string \<Rightarrow> string"

record EncryptedCheckpoint =
  ec_createdAt :: string
  ec_expiresAt :: string
  ec_iv :: string
  ec_authTag :: string
  ec_ciphertext :: string

definition CHECKPOINT_ENVELOPE_VERSION :: string where
  "CHECKPOINT_ENVELOPE_VERSION = ''gongsuanyun.agent-checkpoint.v2''"

definition MAX_CHECKPOINT_TTL_MILLISECONDS :: int where
  "MAX_CHECKPOINT_TTL_MILLISECONDS = 6 * 60 * 60000"

definition MAX_CHECKPOINT_FILE_BYTES :: nat where
  "MAX_CHECKPOINT_FILE_BYTES = 32 * 1024 * 1024"

definition MAX_CLOCK_SKEW_MILLISECONDS :: int where
  "MAX_CLOCK_SKEW_MILLISECONDS = 5 * 60000"

definition CHECKPOINT_SUFFIX :: string where
  "CHECKPOINT_SUFFIX = ''.checkpoint.json''"

definition is_base64_char :: "char \<Rightarrow> bool" where
  "is_base64_char c \<longleftrightarrow> is_alnum c \<or> c = CHR ''+'' \<or> c = CHR ''/''"

definition isBase64 :: "string \<Rightarrow> bool" where
  "isBase64 s \<longleftrightarrow> 0 < length s \<and> length s \<le> MAX_CHECKPOINT_FILE_BYTES * 2 \<and> takeWhile is_base64_char s \<noteq> [] \<and>
     dropWhile is_base64_char s \<in> {'''', ''='', ''==''}"

text \<open>\<open>Buffer.from(s, "base64").byteLength\<close> of such a text.\<close>

definition base64Bytes :: "string \<Rightarrow> nat" where
  "base64Bytes s = length (takeWhile is_base64_char s) * 3 div 4"

definition parseCanonicalTimestamp :: "CheckpointCipher \<Rightarrow> string \<Rightarrow> int option" where
  "parseCanonicalTimestamp cc v = (case cc_parse cc v of None \<Rightarrow> None | Some t \<Rightarrow> if cc_iso cc t \<noteq> v then None else Some t)"

definition checkpointAdditionalData :: "string \<Rightarrow> EncryptedCheckpoint \<Rightarrow> string" where
  "checkpointAdditionalData taskId e = joinStr NL [CHECKPOINT_ENVELOPE_VERSION, taskId, ec_createdAt e, ec_expiresAt e]"

definition checkpointKey :: "CheckpointCipher \<Rightarrow> string \<Rightarrow> string" where
  "checkpointKey cc gatewayToken = cc_sha256 cc (''gongsuanyun.agent-checkpoint-key.v1'' @ NL @ gatewayToken)"

text \<open>The text of the file that \<open>write\<close> leaves.\<close>

definition envelopeText :: "EncryptedCheckpoint \<Rightarrow> string" where
  "envelopeText e = jsonObject [(''version'', jsonQuote CHECKPOINT_ENVELOPE_VERSION), (''cipher'', jsonQuote ''aes-256-gcm''),
     (''createdAt'', jsonQuote (ec_createdAt e)), (''expiresAt'', jsonQuote (ec_expiresAt e)), (''iv'', jsonQuote (ec_iv e)),
     (''authTag'', jsonQuote (ec_authTag e)), (''ciphertext'', jsonQuote (ec_ciphertext e))] @ NL"

definition strField :: "(string \<times> json) list \<Rightarrow> string \<Rightarrow> string option" where
  "strField fs k = (case map_of fs k of Some (JsStr s) \<Rightarrow> Some s | _ \<Rightarrow> None)"

text \<open>The shape of an envelope, and the times it is valid at.\<close>

definition parseEnvelope :: "json \<Rightarrow> EncryptedCheckpoint option" where
  "parseEnvelope value = (case value of
     JsObj fs \<Rightarrow>
       if length fs \<noteq> 7 \<or> strField fs ''version'' \<noteq> Some CHECKPOINT_ENVELOPE_VERSION \<or> strField fs ''cipher'' \<noteq> Some ''aes-256-gcm'' then None
       else (case (strField fs ''createdAt'', strField fs ''expiresAt'', strField fs ''iv'', strField fs ''authTag'', strField fs ''ciphertext'') of
         (Some c, Some x, Some iv, Some tag, Some text) \<Rightarrow>
           if isBase64 iv \<and> isBase64 tag \<and> isBase64 text \<and> base64Bytes iv = 12 \<and> base64Bytes tag = 16
           then Some \<lparr>ec_createdAt = c, ec_expiresAt = x, ec_iv = iv, ec_authTag = tag, ec_ciphertext = text\<rparr> else None
       | _ \<Rightarrow> None)
   | _ \<Rightarrow> None)"

definition currentEnvelope :: "CheckpointCipher \<Rightarrow> int \<Rightarrow> EncryptedCheckpoint \<Rightarrow> bool" where
  "currentEnvelope cc nowMs e = (case (parseCanonicalTimestamp cc (ec_createdAt e), parseCanonicalTimestamp cc (ec_expiresAt e)) of
     (Some createdAt, Some expiresAt) \<Rightarrow> createdAt < expiresAt \<and> expiresAt - createdAt \<le> MAX_CHECKPOINT_TTL_MILLISECONDS \<and>
       createdAt \<le> nowMs + MAX_CLOCK_SKEW_MILLISECONDS \<and> nowMs < expiresAt
   | _ \<Rightarrow> False)"

section \<open>The store\<close>

record CheckpointStore =
  cs_ttlMilliseconds :: int
  cs_cleanupBatchSize :: nat
  cs_files :: "(string \<times> string) list"
  cs_cleanupCursor :: "string option"

definition newCheckpointStore :: "jsnum \<Rightarrow> jsnum \<Rightarrow> (string \<times> string) list \<Rightarrow> nodeError + CheckpointStore" where
  "newCheckpointStore ttlMilliseconds cleanupBatchSize files =
     andThen (boundedInteger ttlMilliseconds 1 MAX_CHECKPOINT_TTL_MILLISECONDS) (\<lambda>ttl.
     andThen (boundedInteger cleanupBatchSize 1 1000) (\<lambda>batch.
     Inr \<lparr>cs_ttlMilliseconds = ttl, cs_cleanupBatchSize = nat batch, cs_files = files, cs_cleanupCursor = None\<rparr>))"

text \<open>
  Outcomes of the file-system calls of one operation: whether files can be inspected and read, whether they
  can be unlinked, and how a write ends; a write that fails may leave its temporary file.
\<close>

datatype WriteIo = WriteOk | MkdirFails string | WriteFails string "string option"

record StoreIo =
  st_readable :: "string \<Rightarrow> bool"
  st_unlink :: "string \<Rightarrow> bool"
  st_write :: WriteIo
  st_listing :: bool

datatype storeError = Missing | Unsafe

definition removeFile :: "string \<Rightarrow> CheckpointStore \<Rightarrow> CheckpointStore" where
  "removeFile f s = s\<lparr>cs_files := filter (\<lambda>e. fst e \<noteq> f) (cs_files s)\<rparr>"

definition putFile :: "string \<Rightarrow> string \<Rightarrow> CheckpointStore \<Rightarrow> CheckpointStore" where
  "putFile f content s = s\<lparr>cs_files := mapSet f content (cs_files s)\<rparr>"

definition readEnvelope :: "CheckpointCipher \<Rightarrow> StoreIo \<Rightarrow> string \<Rightarrow> int \<Rightarrow> CheckpointStore \<Rightarrow> storeError + EncryptedCheckpoint" where
  "readEnvelope cc io f nowMs s = (case map_of (cs_files s) f of
     None \<Rightarrow> Inl Missing
   | Some raw \<Rightarrow>
     if \<not> st_readable io f \<or> byteLength raw < 1 \<or> byteLength raw > MAX_CHECKPOINT_FILE_BYTES then Inl Unsafe
     else (case jsonParse raw of None \<Rightarrow> Inl Unsafe
      | Some value \<Rightarrow> (case parseEnvelope value of None \<Rightarrow> Inl Unsafe
         | Some e \<Rightarrow> if currentEnvelope cc nowMs e then Inr e else Inl Unsafe)))"

definition openEnvelope :: "CheckpointCipher \<Rightarrow> string \<Rightarrow> string \<Rightarrow> EncryptedCheckpoint \<Rightarrow> SupplierArtifactCheckpointState option" where
  "openEnvelope cc gatewayToken taskId e =
     cc_unseal cc (checkpointKey cc gatewayToken) (ec_iv e) (checkpointAdditionalData taskId e) (ec_ciphertext e, ec_authTag e)"

definition CHECKPOINT_CLEANUP_FAILED :: nodeError where
  "CHECKPOINT_CLEANUP_FAILED = AgentError ''CHECKPOINT_CLEANUP_FAILED'' False"

definition checkpointFile :: "string \<Rightarrow> nodeError + string" where
  "checkpointFile taskId = (if jobIdPattern taskId then Inr (taskId @ CHECKPOINT_SUFFIX) else Inl OtherError)"

definition discardUnsafeCheckpoint :: "StoreIo \<Rightarrow> string \<Rightarrow> CheckpointStore \<Rightarrow> CheckpointStore \<times> (nodeError + unit)" where
  "discardUnsafeCheckpoint io f s =
     (if map_of (cs_files s) f = None then (s, Inr ())
      else if st_unlink io f then (removeFile f s, Inr ()) else (s, Inl CHECKPOINT_CLEANUP_FAILED))"

text \<open>The envelope of a task and its content, or nothing after an envelope that is not safe was discarded.\<close>

definition authenticEnvelope :: "CheckpointCipher \<Rightarrow> StoreIo \<Rightarrow> string \<Rightarrow> string \<Rightarrow> string \<Rightarrow> int \<Rightarrow> CheckpointStore \<Rightarrow>
    CheckpointStore \<times> (nodeError + (EncryptedCheckpoint \<times> SupplierArtifactCheckpointState) option)" where
  "authenticEnvelope cc io f taskId gatewayToken nowMs s =
     (case readEnvelope cc io f nowMs s of
        Inl Missing \<Rightarrow> (s, Inr None)
      | r \<Rightarrow> (case (case r of Inl x \<Rightarrow> None | Inr e \<Rightarrow> map_option (Pair e) (openEnvelope cc gatewayToken taskId e)) of
           Some found \<Rightarrow> (s, Inr (Some found))
         | None \<Rightarrow> (case discardUnsafeCheckpoint io f s of (s1, Inl e) \<Rightarrow> (s1, Inl e) | (s1, Inr u) \<Rightarrow> (s1, Inr None))))"

text \<open>\<open>read\<close>\<close>

definition readCheckpoint :: "CheckpointCipher \<Rightarrow> StoreIo \<Rightarrow> string \<Rightarrow> string \<Rightarrow> int \<Rightarrow> CheckpointStore \<Rightarrow>
    CheckpointStore \<times> (nodeError + SupplierArtifactCheckpointState option)" where
  "readCheckpoint cc io taskId gatewayToken nowMs s =
     (case checkpointFile taskId of Inl e \<Rightarrow> (s, Inl e)
      | Inr f \<Rightarrow> (case authenticEnvelope cc io f taskId gatewayToken nowMs s of
          (s1, Inl e) \<Rightarrow> (s1, Inl e) | (s1, Inr r) \<Rightarrow> (s1, Inr (map_option snd r))))"

text \<open>\<open>write\<close>: the life time of an authentic envelope is kept.\<close>

definition sealEnvelope :: "CheckpointCipher \<Rightarrow> string \<Rightarrow> string \<Rightarrow> string \<Rightarrow> SupplierArtifactCheckpointState \<Rightarrow> string \<Rightarrow> string \<Rightarrow>
    EncryptedCheckpoint" where
  "sealEnvelope cc gatewayToken taskId iv checkpoint createdAt expiresAt =
     (let e = \<lparr>ec_createdAt = createdAt, ec_expiresAt = expiresAt, ec_iv = iv, ec_authTag = '''', ec_ciphertext = ''''\<rparr>;
          sealed = cc_seal cc (checkpointKey cc gatewayToken) iv (checkpointAdditionalData taskId e) checkpoint in
      e\<lparr>ec_ciphertext := fst sealed, ec_authTag := snd sealed\<rparr>)"

definition MAX_CHECKPOINT_TEXT_BYTES :: nat where
  "MAX_CHECKPOINT_TEXT_BYTES = 24 * 1024 * 1024"

definition writeCheckpoint :: "CheckpointCipher \<Rightarrow> StoreIo \<Rightarrow> string \<Rightarrow> string \<Rightarrow> SupplierArtifactCheckpointState \<Rightarrow> int \<Rightarrow> string \<Rightarrow> string \<Rightarrow>
    CheckpointStore \<Rightarrow> CheckpointStore \<times> (nodeError + unit)" where
  "writeCheckpoint cc io taskId gatewayToken checkpoint nowMs iv unique s =
     (if cc_bytes cc checkpoint > MAX_CHECKPOINT_TEXT_BYTES then (s, Inl OtherError)
      else (case checkpointFile taskId of Inl e \<Rightarrow> (s, Inl e)
       | Inr f \<Rightarrow> (case st_write io of MkdirFails code \<Rightarrow> (s, Inl (AgentError code False))
         | w \<Rightarrow> (case authenticEnvelope cc io f taskId gatewayToken nowMs s of (s1, Inl e) \<Rightarrow> (s1, Inl e)
           | (s1, Inr lifetime) \<Rightarrow>
             (let e = (case lifetime of
                  None \<Rightarrow> sealEnvelope cc gatewayToken taskId iv checkpoint (cc_iso cc nowMs) (cc_iso cc (nowMs + cs_ttlMilliseconds s1))
                | Some (old, c) \<Rightarrow> sealEnvelope cc gatewayToken taskId iv checkpoint (ec_createdAt old) (ec_expiresAt old)) in
              (case w of WriteFails code (Some partial) \<Rightarrow> (putFile (f @ ''.'' @ unique @ ''.tmp'') partial s1, Inl (AgentError code False))
               | WriteFails code None \<Rightarrow> (s1, Inl (AgentError code False))
               | _ \<Rightarrow> (putFile f (envelopeText e) s1, Inr ())))))))"

definition deleteCheckpoint :: "StoreIo \<Rightarrow> string \<Rightarrow> CheckpointStore \<Rightarrow> CheckpointStore \<times> (nodeError + unit)" where
  "deleteCheckpoint io taskId s =
     (case checkpointFile taskId of Inl e \<Rightarrow> (s, Inl e)
      | Inr f \<Rightarrow>
        if map_of (cs_files s) f = None then (s, Inr ())
        else if st_unlink io f then (removeFile f s, Inr ()) else (s, Inl CHECKPOINT_CLEANUP_FAILED))"

section \<open>Cleanup\<close>

definition endsWith :: "string \<Rightarrow> string \<Rightarrow> bool" where
  "endsWith s t \<longleftrightarrow> suffix t s"

definition includesText :: "string \<Rightarrow> string \<Rightarrow> bool" where
  "includesText s t \<longleftrightarrow> sublist t s"

definition isCheckpointTemporary :: "string \<Rightarrow> bool" where
  "isCheckpointTemporary name \<longleftrightarrow> includesText name (CHECKPOINT_SUFFIX @ ''.'') \<and> endsWith name ''.tmp''"

definition isCheckpointCandidate :: "string \<Rightarrow> bool" where
  "isCheckpointCandidate name \<longleftrightarrow> endsWith name CHECKPOINT_SUFFIX \<or> isCheckpointTemporary name"

text \<open>The names of one run: they follow the last name of the run before, around the end.\<close>

definition cleanupSelection :: "string option \<Rightarrow> nat \<Rightarrow> string list \<Rightarrow> string list" where
  "cleanupSelection cursor batch names =
     (let start = (case cursor of None \<Rightarrow> 0
          | Some c \<Rightarrow> (let i = length (takeWhile (\<lambda>name. \<not> c < name) names) in if i = length names then 0 else i)) in
      take batch (drop start names @ take start names))"

definition cleanupStep :: "CheckpointCipher \<Rightarrow> StoreIo \<Rightarrow> int \<Rightarrow> string \<Rightarrow> CheckpointStore \<times> nat \<times> nat \<Rightarrow> CheckpointStore \<times> nat \<times> nat" where
  "cleanupStep cc io nowMs name x = (case x of (s, deleted, failed) \<Rightarrow>
     (case (if isCheckpointTemporary name then Inl Unsafe else readEnvelope cc io name nowMs s) of
        Inr e \<Rightarrow> (s, deleted, failed)
      | Inl Missing \<Rightarrow> (s, deleted, failed)
      | Inl Unsafe \<Rightarrow>
        if map_of (cs_files s) name = None then (s, deleted, failed)
        else if st_unlink io name then (removeFile name s, deleted + 1, failed) else (s, deleted, failed + 1)))"

definition cleanupExpired :: "CheckpointCipher \<Rightarrow> StoreIo \<Rightarrow> int \<Rightarrow> CheckpointStore \<Rightarrow> CheckpointStore \<times> (nodeError + nat \<times> nat \<times> nat)" where
  "cleanupExpired cc io nowMs s =
     (if \<not> st_listing io then (s, Inl (AgentError ''CHECKPOINT_DIRECTORY_UNAVAILABLE'' False))
      else let names = sort (filter isCheckpointCandidate (map fst (cs_files s))) in
        if names = [] then (s\<lparr>cs_cleanupCursor := None\<rparr>, Inr (0, 0, 0))
        else let selected = cleanupSelection (cs_cleanupCursor s) (cs_cleanupBatchSize s) names in
          (case fold (cleanupStep cc io nowMs) selected (s, 0, 0) of (s1, deleted, failed) \<Rightarrow>
            (s1\<lparr>cs_cleanupCursor := Some (last selected)\<rparr>, Inr (length selected, deleted, failed))))"

end
