(* ===== verification/SupplierWorker.thy ===== *)
theory SupplierWorker
  imports CheckpointStore
begin

text \<open>
  The worker of a supplier's agent (\<^verbatim>\<open>apps/supplier-agent/src/artifact-worker.ts\<close>) and the entry point of the
  node it uses (\<open>executeArtifactTask\<close> of \<^verbatim>\<open>apps/supplier-node/src/runtime.ts\<close>): it claims a task, executes it with
  a local checkpoint store, reports progress, and completes or fails the task. The replies of the control plane,
  the provider, the clock and the file system are arguments. The calls to the control plane are recorded.
\<close>

section \<open>Errors\<close>

fun codeText :: "SupplierGatewayErrorCode \<Rightarrow> string" where
  "codeText INVALID_REQUEST = ''INVALID_REQUEST''"
| "codeText AUTHENTICATION_FAILED = ''AUTHENTICATION_FAILED''"
| "codeText SIGNATURE_INVALID = ''SIGNATURE_INVALID''"
| "codeText REQUEST_EXPIRED = ''REQUEST_EXPIRED''"
| "codeText REPLAY_DETECTED = ''REPLAY_DETECTED''"
| "codeText MODEL_NOT_ALLOWED = ''MODEL_NOT_ALLOWED''"
| "codeText DATA_CLASS_NOT_ALLOWED = ''DATA_CLASS_NOT_ALLOWED''"
| "codeText CAPACITY_EXCEEDED = ''CAPACITY_EXCEEDED''"
| "codeText IDEMPOTENCY_CONFLICT = ''IDEMPOTENCY_CONFLICT''"
| "codeText UPSTREAM_AUTH_FAILED = ''UPSTREAM_AUTH_FAILED''"
| "codeText UPSTREAM_RATE_LIMITED = ''UPSTREAM_RATE_LIMITED''"
| "codeText UPSTREAM_TIMEOUT = ''UPSTREAM_TIMEOUT''"
| "codeText UPSTREAM_UNAVAILABLE = ''UPSTREAM_UNAVAILABLE''"
| "codeText UPSTREAM_RESPONSE_INVALID = ''UPSTREAM_RESPONSE_INVALID''"
| "codeText UPSTREAM_MODEL_MISMATCH = ''UPSTREAM_MODEL_MISMATCH''"
| "codeText INTERNAL_ERROR = ''INTERNAL_ERROR''"

definition ARTIFACT_WORKER_FAILED :: string where
  "ARTIFACT_WORKER_FAILED = ''ARTIFACT_WORKER_FAILED''"

fun errorCode :: "nodeError \<Rightarrow> string" where
  "errorCode (SupplierNodeError code status retryable) = codeText code"
| "errorCode (AgentError code retryable) = code"
| "errorCode _ = ARTIFACT_WORKER_FAILED"

fun isRetryable :: "nodeError \<Rightarrow> bool" where
  "isRetryable (SupplierNodeError code status retryable) = retryable"
| "isRetryable (AgentError code retryable) = retryable"
| "isRetryable _ = False"

text \<open>\<open>/^[A-Z][A-Z0-9_]{2,63}$/\<close>\<close>

definition is_upper_char :: "char \<Rightarrow> bool" where
  "is_upper_char c \<longleftrightarrow> (let n = of_char c :: nat in 65 \<le> n \<and> n \<le> 90)"

fun failureCodePattern :: "string \<Rightarrow> bool" where
  "failureCodePattern [] = False"
| "failureCodePattern (c # cs) \<longleftrightarrow> is_upper_char c \<and> 2 \<le> length cs \<and> length cs \<le> 63 \<and>
     list_all (\<lambda>d. is_upper_char d \<or> is_digit d \<or> d = CHR ''_'') cs"

section \<open>Calls to the control plane\<close>

record SupplierArtifactProgress =
  pg_completedSegments :: int
  pg_totalSegments :: int
  pg_processedBytes :: int
  pg_usage :: SupplierGatewayUsage

definition progress :: "SupplierArtifactCheckpointState \<Rightarrow> SupplierArtifactProgress" where
  "progress v = \<lparr>pg_completedSegments = ck_completedSegments v, pg_totalSegments = ck_totalSegments v,
     pg_processedBytes = ck_processedBytes v, pg_usage = ck_usage v\<rparr>"

text \<open>The bodies of the calls; their random request identifiers are left out.\<close>

datatype AgentCall =
    ClaimCall string string "string list" "string list" int
  | ChunkCall string int string
  | CheckpointCall string string SupplierArtifactProgress
  | CompleteCall string string jsText SupplierGatewayUsage ArtifactEvidenceShape string string
  | FailCall string string string bool

text \<open>
  What a call ends in: no response (and whether the worker was being stopped), a body that breaks off with an
  error, a body beyond the limit, a status that is not 2xx with its body, a body that is not JSON, or its value.
\<close>

datatype 'a ControlReply = NoResponse bool | BodyBroken nodeError | TooLong | StatusReply int string | NotJson | Value 'a

fun controlUnavailable :: "bool \<Rightarrow> nodeError" where
  "controlUnavailable aborted = (if aborted then AgentError ''WORKER_STOPPED'' True else AgentError ''CONTROL_PLANE_UNAVAILABLE'' True)"

definition CONTROL_RESPONSE_INVALID :: nodeError where
  "CONTROL_RESPONSE_INVALID = AgentError ''CONTROL_RESPONSE_INVALID'' False"

definition parseResponseError :: "int \<Rightarrow> string \<Rightarrow> nodeError" where
  "parseResponseError status raw =
     (let default = ''CONTROL_HTTP_'' @ numString status in
      case jsonParse raw of
        Some (JsObj fs) \<Rightarrow>
          (case map_of fs ''error'' of
             Some (JsObj e) \<Rightarrow> AgentError (case map_of e ''code'' of Some (JsStr c) \<Rightarrow> c | _ \<Rightarrow> default)
               (map_of e ''retryable'' = Some (JsBool True) \<or> 500 \<le> status)
           | _ \<Rightarrow> AgentError default (500 \<le> status))
      | _ \<Rightarrow> AgentError default (500 \<le> status))"

fun signedJson :: "'a ControlReply \<Rightarrow> nodeError + 'a" where
  "signedJson (NoResponse aborted) = Inl (controlUnavailable aborted)"
| "signedJson (BodyBroken e) = Inl e"
| "signedJson TooLong = Inl CONTROL_RESPONSE_INVALID"
| "signedJson (StatusReply status raw) = Inl (parseResponseError status raw)"
| "signedJson NotJson = Inl CONTROL_RESPONSE_INVALID"
| "signedJson (Value v) = Inr v"

section \<open>Downloads\<close>

text \<open>
  The reply to the request of a chunk: no response, an error status with its body or the error of reading it
  (a body that is too long is an error), or the digest header, the declared length (\<open>Number(header ?? -1)\<close>), whether there is a body, its
  pieces and the error that ends it.
\<close>

datatype ChunkReply = ChunkNoResponse bool | ChunkStatus int "nodeError + string"
  | ChunkBody "string option" jsnum bool "byte list list" "nodeError option"

definition ARTIFACT_INTEGRITY_FAILED :: nodeError where
  "ARTIFACT_INTEGRITY_FAILED = AgentError ''ARTIFACT_INTEGRITY_FAILED'' False"

fun readPieces :: "int \<Rightarrow> byte list \<Rightarrow> byte list list \<Rightarrow> nodeError option \<Rightarrow> nodeError + byte list" where
  "readPieces expectedBytes acc [] ending =
     (case ending of Some e \<Rightarrow> Inl e
      | None \<Rightarrow> if int (length acc) \<noteq> expectedBytes then Inl ARTIFACT_INTEGRITY_FAILED else Inr acc)"
| "readPieces expectedBytes acc (p # ps) ending =
     (if int (length acc + length p) > expectedBytes then Inl ARTIFACT_INTEGRITY_FAILED
      else readPieces expectedBytes (acc @ p) ps ending)"

definition readBoundedBytes :: "int \<Rightarrow> jsnum \<Rightarrow> bool \<Rightarrow> byte list list \<Rightarrow> nodeError option \<Rightarrow> nodeError + byte list" where
  "readBoundedBytes expectedBytes declared hasBody pieces ending =
     (if declared \<noteq> NNaN \<and> \<not> numLt declared 0 \<and> declared \<noteq> NInt expectedBytes then Inl ARTIFACT_INTEGRITY_FAILED
      else if \<not> hasBody then Inl ARTIFACT_INTEGRITY_FAILED
      else readPieces expectedBytes [] pieces ending)"

fun downloadChunk :: "ArtifactChunkDescriptor \<Rightarrow> ChunkReply \<Rightarrow> nodeError + byte list" where
  "downloadChunk d (ChunkNoResponse aborted) = Inl (controlUnavailable aborted)"
| "downloadChunk d (ChunkStatus status raw) = Inl (case raw of Inl e \<Rightarrow> e | Inr r \<Rightarrow> parseResponseError status r)"
| "downloadChunk d (ChunkBody digest declared hasBody pieces ending) =
     (if digest \<noteq> Some (chunk_sha256 d) then Inl ARTIFACT_INTEGRITY_FAILED
      else readBoundedBytes (chunk_sizeBytes d) declared hasBody pieces ending)"

fun downloadChunks :: "(nat \<Rightarrow> ChunkReply) \<Rightarrow> nat \<Rightarrow> ArtifactChunkDescriptor list \<Rightarrow> SupplierArtifactChunk list \<times> nodeError option" where
  "downloadChunks replies n [] = ([], None)"
| "downloadChunks replies n (d # ds) =
     (case downloadChunk d (replies n) of Inl e \<Rightarrow> ([], Some e)
      | Inr bytes \<Rightarrow> (case downloadChunks replies (n + 1) ds of (cs, e) \<Rightarrow> ((chunk_partNumber d, bytes) # cs, e)))"

section \<open>The node\<close>

definition validateArtifactRequest :: "ArtifactRequest \<Rightarrow> SupplierNodeConfig \<Rightarrow> nodeError + unit" where
  "validateArtifactRequest request config =
     (if ar_model request \<notin> set (nc_allowedModels config) then Inl (SupplierNodeError MODEL_NOT_ALLOWED 403 False)
      else if ar_data_class request \<notin> set (nc_allowedDataClasses config) then Inl (SupplierNodeError DATA_CLASS_NOT_ALLOWED 403 False)
      else if int (utf8Length (ar_input request)) > nc_maxInputBytes config then Inl (SupplierNodeError INVALID_REQUEST 413 False)
      else if ar_max_output_tokens request > nc_maxOutputTokens config then Inl (SupplierNodeError CAPACITY_EXCEEDED 409 False)
      else Inr ())"

definition validateNodeResult :: "ArtifactProviderResult \<Rightarrow> string \<Rightarrow> int \<Rightarrow> nodeError + unit" where
  "validateNodeResult r requestedModel maximumOutputTokens =
     (if \<not> textIn (ap_output r) 200000 \<or> \<not> textIn (ap_providerRequestId r) 256 \<or> \<not> textIn (ap_servedModel r) 200
      then Inl (SupplierNodeError UPSTREAM_RESPONSE_INVALID 502 False)
      else if ap_servedModel r \<noteq> Some requestedModel then Inl (SupplierNodeError UPSTREAM_MODEL_MISMATCH 502 False)
      else let i = ap_inputTokens r; out = ap_outputTokens r; t = ap_totalTokens r in
        if \<not> isSafeInteger i \<or> numLt i 1 \<or> \<not> isSafeInteger out \<or> numLt out 0 \<or> numGt out maximumOutputTokens \<or>
           \<not> isSafeInteger t \<or> t \<noteq> NInt (dbl (numInt i + numInt out))
        then Inl (SupplierNodeError UPSTREAM_RESPONSE_INVALID 502 False) else Inr ())"

text \<open>The provider as the node calls it: at call \<open>n\<close> the clock and the capacity gate are \<open>gate n\<close>.\<close>

definition nodeProvider :: "SupplierNodeConfig \<Rightarrow> (nat \<Rightarrow> int \<times> CapacityGate) \<Rightarrow> (nat \<Rightarrow> ArtifactRequest \<Rightarrow> nodeError + ArtifactProviderResult) \<Rightarrow>
    nat \<Rightarrow> ArtifactRequest \<Rightarrow> nodeError + ArtifactProviderResult" where
  "nodeProvider config gate adapter n request =
     andThen (validateArtifactRequest request config) (\<lambda>_.
     andThen (snd (acquire (nc_requestsPerMinute config) (nc_tokensPerMinute config) (nc_concurrency config)
       (int (utf8Length (ar_input request)) + ar_max_output_tokens request) (fst (gate n)) (snd (gate n)))) (\<lambda>_.
     andThen (adapter n request) (\<lambda>result.
     andThen (validateNodeResult result (ar_model request) (ar_max_output_tokens request)) (\<lambda>_. Inr result))))"

definition executeArtifactTask :: "(byte list \<Rightarrow> string) \<Rightarrow> (jsText \<Rightarrow> string) \<Rightarrow> (string \<Rightarrow> string) \<Rightarrow> (string \<Rightarrow> string \<Rightarrow> string) \<Rightarrow>
    SupplierNodeConfig \<Rightarrow> bool \<Rightarrow> ArtifactIo \<Rightarrow> string \<Rightarrow> SupplierArtifactAssignment \<Rightarrow> SupplierArtifactChunk list \<Rightarrow>
    SupplierArtifactCheckpointState option \<Rightarrow>
    (SupplierArtifactCheckpointState list \<times> ArtifactRequest list) \<times> (nodeError + SupplierArtifactExecutionResult)" where
  "executeArtifactTask hash sha256Text sha256 hmac config draining io completedAt a chunks checkpoint =
     (if draining then (([], []), Inl (SupplierNodeError CAPACITY_EXCEEDED 503 True))
      else executeArtifact hash sha256Text sha256 hmac config io completedAt a chunks checkpoint)"

section \<open>The worker\<close>

datatype WorkerState = StateStopped | StatePolling | StateProcessing | StateError

record SupplierArtifactWorkerStatus =
  ws_state :: WorkerState
  ws_taskId :: "string option"
  ws_completedSegments :: int
  ws_totalSegments :: "int option"
  ws_processedBytes :: int
  ws_lastCompletedAt :: "string option"
  ws_lastErrorCode :: "string option"

definition emptyStatus :: SupplierArtifactWorkerStatus where
  "emptyStatus = \<lparr>ws_state = StateStopped, ws_taskId = None, ws_completedSegments = 0, ws_totalSegments = None,
     ws_processedBytes = 0, ws_lastCompletedAt = None, ws_lastErrorCode = None\<rparr>"

record SupplierArtifactWorkerOptions =
  wo_workerId :: string
  wo_gatewayToken :: string
  wo_providerId :: string
  wo_allowedModels :: "string list"
  wo_maxArtifactBytes :: int
  wo_config :: SupplierNodeConfig

text \<open>The worker, with the calls it has made and the requests it has sent to the provider.\<close>

record SupplierArtifactWorker =
  sw_store :: CheckpointStore
  sw_pendingTerminalCheckpointDeletes :: "string list"
  sw_status :: SupplierArtifactWorkerStatus
  sw_calls :: "AgentCall list"
  sw_requests :: "ArtifactRequest list"

text \<open>The environment of one task.\<close>

record TaskIo =
  ti_read :: "StoreIo \<times> int"
  ti_discard :: StoreIo
  ti_download :: "nat \<Rightarrow> ChunkReply"
  ti_draining :: bool
  ti_gate :: "nat \<Rightarrow> int \<times> CapacityGate"
  ti_provider :: "nat \<Rightarrow> ArtifactRequest \<Rightarrow> nodeError + ArtifactProviderResult"
  ti_aborted :: "nat \<Rightarrow> bool"
  ti_write :: "nat \<Rightarrow> StoreIo \<times> int \<times> string \<times> string"
  ti_report :: "nat \<Rightarrow> unit ControlReply"
  ti_completedAt :: string
  ti_complete :: "unit ControlReply"
  ti_finishedAt :: string
  ti_delete :: StoreIo

definition deleteTerminalCheckpointOrQueue :: "StoreIo \<Rightarrow> string \<Rightarrow> SupplierArtifactWorker \<Rightarrow> SupplierArtifactWorker \<times> (nodeError + unit)" where
  "deleteTerminalCheckpointOrQueue io taskId w =
     (case deleteCheckpoint io taskId (sw_store w) of
        (s, Inr u) \<Rightarrow> (w\<lparr>sw_store := s, sw_pendingTerminalCheckpointDeletes := filter (\<lambda>t. t \<noteq> taskId) (sw_pendingTerminalCheckpointDeletes w)\<rparr>, Inr ())
      | (s, Inl e) \<Rightarrow> (w\<lparr>sw_store := s, sw_pendingTerminalCheckpointDeletes :=
          (if taskId \<in> set (sw_pendingTerminalCheckpointDeletes w) then sw_pendingTerminalCheckpointDeletes w
           else sw_pendingTerminalCheckpointDeletes w @ [taskId])\<rparr>, Inl e))"

definition flushTerminalCheckpointDeletes :: "(string \<Rightarrow> StoreIo) \<Rightarrow> SupplierArtifactWorker \<Rightarrow> SupplierArtifactWorker \<times> (nodeError + unit)" where
  "flushTerminalCheckpointDeletes io w =
     foldS (\<lambda>w taskId. deleteTerminalCheckpointOrQueue (io taskId) taskId w) w (sw_pendingTerminalCheckpointDeletes w)"

text \<open>The checkpoint handler: the checkpoint is stored, then reported.\<close>

definition checkpointHandler :: "CheckpointCipher \<Rightarrow> string \<Rightarrow> string \<Rightarrow> TaskIo \<Rightarrow> CheckpointStore \<Rightarrow> nat \<times> SupplierArtifactCheckpointState \<Rightarrow>
    CheckpointStore \<times> (nodeError + unit)" where
  "checkpointHandler cc gatewayToken taskId io s x = (case x of (n, next) \<Rightarrow> (case ti_write io n of (wio, now, iv, unique) \<Rightarrow>
     (case writeCheckpoint cc wio taskId gatewayToken next now iv unique s of
        (s1, Inl e) \<Rightarrow> (s1, Inl e)
      | (s1, Inr u) \<Rightarrow> (s1, signedJson (ti_report io n)))))"

definition handleCheckpoints :: "CheckpointCipher \<Rightarrow> string \<Rightarrow> string \<Rightarrow> TaskIo \<Rightarrow> CheckpointStore \<Rightarrow> SupplierArtifactCheckpointState list \<Rightarrow>
    CheckpointStore \<times> (nodeError + unit)" where
  "handleCheckpoints cc gatewayToken taskId io s checkpoints = foldS (checkpointHandler cc gatewayToken taskId io) s (enumerate 0 checkpoints)"

text \<open>The calls and the status after the checkpoints of an execution; a checkpoint that was not stored is not reported.\<close>

fun reportCalls :: "CheckpointCipher \<Rightarrow> string \<Rightarrow> string \<Rightarrow> string \<Rightarrow> TaskIo \<Rightarrow> CheckpointStore \<Rightarrow> nat \<Rightarrow> SupplierArtifactCheckpointState list \<Rightarrow>
    AgentCall list \<times> SupplierArtifactProgress option" where
  "reportCalls cc gatewayToken taskId lease io s n [] = ([], None)"
| "reportCalls cc gatewayToken taskId lease io s n (c # cs) = (case ti_write io n of (wio, now, iv, unique) \<Rightarrow>
     (case writeCheckpoint cc wio taskId gatewayToken c now iv unique s of
        (s1, Inl e) \<Rightarrow> ([], None)
      | (s1, Inr u) \<Rightarrow> (case signedJson (ti_report io n) of
          Inl e \<Rightarrow> ([CheckpointCall taskId lease (progress c)], None)
        | Inr v \<Rightarrow> (case reportCalls cc gatewayToken taskId lease io s1 (n + 1) cs of (calls, last_progress) \<Rightarrow>
            (CheckpointCall taskId lease (progress c) # calls, case last_progress of None \<Rightarrow> Some (progress c) | p \<Rightarrow> p)))))"

definition showProgress :: "string \<Rightarrow> SupplierArtifactProgress option \<Rightarrow> SupplierArtifactWorkerStatus \<Rightarrow> SupplierArtifactWorkerStatus" where
  "showProgress taskId p st = (case p of None \<Rightarrow> st
     | Some g \<Rightarrow> st\<lparr>ws_state := StateProcessing, ws_taskId := Some taskId, ws_completedSegments := pg_completedSegments g,
         ws_totalSegments := Some (pg_totalSegments g), ws_processedBytes := pg_processedBytes g, ws_lastErrorCode := None\<rparr>)"

text \<open>The local checkpoint that a task starts from.\<close>

definition startingCheckpoint :: "CheckpointCipher \<Rightarrow> string \<Rightarrow> TaskIo \<Rightarrow> SupplierArtifactAssignment \<Rightarrow> CheckpointStore \<Rightarrow>
    CheckpointStore \<times> (nodeError + SupplierArtifactCheckpointState option)" where
  "startingCheckpoint cc gatewayToken io a s =
     (case readCheckpoint cc (fst (ti_read io)) (as_task_id a) gatewayToken (snd (ti_read io)) s of
        (s1, Inl e) \<Rightarrow> (s1, Inl e)
      | (s1, Inr stored) \<Rightarrow>
        (case (if as_resume_from_segment a = 0 \<and> stored \<noteq> None then
             (case deleteCheckpoint (ti_discard io) (as_task_id a) s1 of (s2, Inl e) \<Rightarrow> (s2, Inl e) | (s2, Inr u) \<Rightarrow> (s2, Inr None))
           else (s1, Inr stored)) of
           (s2, Inl e) \<Rightarrow> (s2, Inl e)
         | (s2, Inr found) \<Rightarrow>
           (let checkpoint = (if map_option ck_completedSegments found = Some (as_resume_from_segment a) then found else None) in
            if as_resume_from_segment a > 0 \<and> checkpoint = None then (s2, Inl (AgentError ''ARTIFACT_CHECKPOINT_REQUIRED'' False))
            else (s2, Inr checkpoint))))"

definition taskExecution :: "(byte list \<Rightarrow> string) \<Rightarrow> (jsText \<Rightarrow> string) \<Rightarrow> (string \<Rightarrow> string \<Rightarrow> string) \<Rightarrow> CheckpointCipher \<Rightarrow>
    SupplierArtifactWorkerOptions \<Rightarrow> TaskIo \<Rightarrow> SupplierArtifactAssignment \<Rightarrow> CheckpointStore \<Rightarrow> SupplierArtifactCheckpointState option \<Rightarrow>
    (SupplierArtifactCheckpointState list \<times> ArtifactRequest list) \<times> (nodeError + SupplierArtifactExecutionResult)" where
  "taskExecution hash sha256Text hmac cc options io a s checkpoint =
     (case downloadChunks (ti_download io) 0 (as_chunks a) of (chunks, ending) \<Rightarrow>
      executeArtifactTask hash sha256Text (cc_sha256 cc) hmac (wo_config options) (ti_draining io)
        \<lparr>io_provider = nodeProvider (wo_config options) (ti_gate io) (ti_provider io),
         io_checkpoint = (\<lambda>cs. case snd (handleCheckpoints cc (wo_gatewayToken options) (as_task_id a) io s cs) of Inl e \<Rightarrow> Some e | Inr u \<Rightarrow> None),
         io_aborted = ti_aborted io, io_ending = ending\<rparr>
        (ti_completedAt io) a chunks checkpoint)"

text \<open>The \<open>try\<close> block of \<open>processTask\<close>; the flag is \<open>completionAccepted\<close>.\<close>

definition attemptTask :: "(byte list \<Rightarrow> string) \<Rightarrow> (jsText \<Rightarrow> string) \<Rightarrow> (string \<Rightarrow> string \<Rightarrow> string) \<Rightarrow> CheckpointCipher \<Rightarrow>
    SupplierArtifactWorkerOptions \<Rightarrow> TaskIo \<Rightarrow> SupplierArtifactAssignment \<Rightarrow> SupplierArtifactWorker \<Rightarrow>
    SupplierArtifactWorker \<times> bool \<times> (nodeError + unit)" where
  "attemptTask hash sha256Text hmac cc options io a w =
     (case startingCheckpoint cc (wo_gatewayToken options) io a (sw_store w) of
        (s, Inl e) \<Rightarrow> (w\<lparr>sw_store := s\<rparr>, False, Inl e)
      | (s, Inr checkpoint) \<Rightarrow>
        (case taskExecution hash sha256Text hmac cc options io a s checkpoint of ((emitted, requests), outcome) \<Rightarrow>
         (case reportCalls cc (wo_gatewayToken options) (as_task_id a) (as_lease_token a) io s 0 emitted of (calls, last_progress) \<Rightarrow>
          (let w1 = w\<lparr>sw_store := fst (handleCheckpoints cc (wo_gatewayToken options) (as_task_id a) io s emitted),
                 sw_calls := sw_calls w @ calls, sw_requests := sw_requests w @ requests,
                 sw_status := showProgress (as_task_id a) last_progress (sw_status w)\<rparr> in
           case outcome of Inl e \<Rightarrow> (w1, False, Inl e)
           | Inr result \<Rightarrow>
             (let w2 = w1\<lparr>sw_calls := sw_calls w1 @ [CompleteCall (as_task_id a) (as_lease_token a) (xr_output result) (xr_usage result)
                    (xr_evidence result) (xr_completed_at result) (xr_signature result)]\<rparr> in
              case signedJson (ti_complete io) of Inl e \<Rightarrow> (w2, False, Inl e)
              | Inr v \<Rightarrow> (case deleteTerminalCheckpointOrQueue (ti_delete io) (as_task_id a) w2 of
                  (w3, Inl e) \<Rightarrow> (w3, True, Inl e)
                | (w3, Inr u) \<Rightarrow> (w3\<lparr>sw_status := (sw_status w3)\<lparr>ws_state := StatePolling, ws_taskId := None,
                    ws_lastCompletedAt := Some (ti_finishedAt io), ws_lastErrorCode := None\<rparr>\<rparr>, True, Inr ())))))))"

definition failureCall :: "SupplierArtifactAssignment \<Rightarrow> nodeError \<Rightarrow> AgentCall" where
  "failureCall a e = FailCall (as_task_id a) (as_lease_token a)
     (if failureCodePattern (errorCode e) then errorCode e else ARTIFACT_WORKER_FAILED) (isRetryable e)"

definition processTask :: "(byte list \<Rightarrow> string) \<Rightarrow> (jsText \<Rightarrow> string) \<Rightarrow> (string \<Rightarrow> string \<Rightarrow> string) \<Rightarrow> CheckpointCipher \<Rightarrow>
    SupplierArtifactWorkerOptions \<Rightarrow> TaskIo \<Rightarrow> SupplierArtifactAssignment \<Rightarrow> SupplierArtifactWorker \<Rightarrow>
    SupplierArtifactWorker \<times> (nodeError + unit)" where
  "processTask hash sha256Text hmac cc options io a w0 =
     (let w = w0\<lparr>sw_status := (sw_status w0)\<lparr>ws_state := StateProcessing, ws_taskId := Some (as_task_id a),
          ws_completedSegments := as_resume_from_segment a, ws_totalSegments := None, ws_processedBytes := 0, ws_lastErrorCode := None\<rparr>\<rparr> in
      case attemptTask hash sha256Text hmac cc options io a w of
        (w1, completionAccepted, Inr u) \<Rightarrow> (w1, Inr ())
      | (w1, completionAccepted, Inl e) \<Rightarrow>
        (let fail = (\<lambda>w. w\<lparr>sw_status := (sw_status w)\<lparr>ws_state := StateError, ws_taskId := None, ws_lastErrorCode := Some (errorCode e)\<rparr>\<rparr>) in
         if completionAccepted then (fail w1, Inl e)
         else let w2 = w1\<lparr>sw_calls := sw_calls w1 @ [failureCall a e]\<rparr> in
           if isRetryable e then (fail w2, Inl e)
           else (case deleteTerminalCheckpointOrQueue (ti_delete io) (as_task_id a) w2 of
               (w3, Inl e3) \<Rightarrow> (w3, Inl e3) | (w3, Inr v) \<Rightarrow> (fail w3, Inl e))))"

section \<open>Polling\<close>

record ClaimResponse =
  cr_protocol_version :: string
  cr_request_id :: string
  cr_task :: "SupplierArtifactAssignment option"
  cr_retry_after_ms :: jsnum

record PollIo =
  pi_flush :: "string \<Rightarrow> StoreIo"
  pi_cleanup :: "StoreIo \<times> int"
  pi_requestId :: string
  pi_claim :: "ClaimResponse ControlReply"
  pi_task :: TaskIo

definition pollOnce :: "(byte list \<Rightarrow> string) \<Rightarrow> (jsText \<Rightarrow> string) \<Rightarrow> (string \<Rightarrow> string \<Rightarrow> string) \<Rightarrow> CheckpointCipher \<Rightarrow>
    SupplierArtifactWorkerOptions \<Rightarrow> PollIo \<Rightarrow> SupplierArtifactWorker \<Rightarrow> SupplierArtifactWorker \<times> (nodeError + int)" where
  "pollOnce hash sha256Text hmac cc options io w =
     (case flushTerminalCheckpointDeletes (pi_flush io) w of (w1, Inl e) \<Rightarrow> (w1, Inl e)
      | (w1, Inr u) \<Rightarrow>
        (case cleanupExpired cc (fst (pi_cleanup io)) (snd (pi_cleanup io)) (sw_store w1) of
           (s, Inl e) \<Rightarrow> (w1\<lparr>sw_store := s\<rparr>, Inl e)
         | (s, Inr (inspected, deleted, failed)) \<Rightarrow>
           if failed > 0 then (w1\<lparr>sw_store := s\<rparr>, Inl CHECKPOINT_CLEANUP_FAILED)
           else let w2 = w1\<lparr>sw_store := s, sw_calls := sw_calls w1 @ [ClaimCall (wo_workerId options) (wo_providerId options)
                  (wo_allowedModels options) ARTIFACT_SUPPORTED_MEDIA_TYPES (wo_maxArtifactBytes options)]\<rparr> in
             (case signedJson (pi_claim io) of Inl e \<Rightarrow> (w2, Inl e)
              | Inr result \<Rightarrow>
                if cr_protocol_version result \<noteq> SUPPLIER_ARTIFACT_WORKER_PROTOCOL_VERSION \<or> cr_request_id result \<noteq> pi_requestId io \<or>
                   \<not> isSafeInteger (cr_retry_after_ms result) \<or> numLt (cr_retry_after_ms result) 0 \<or> numGt (cr_retry_after_ms result) 60000
                then (w2, Inl CONTROL_RESPONSE_INVALID)
                else (case cr_task result of None \<Rightarrow> (w2, Inr (numInt (cr_retry_after_ms result)))
                  | Some a \<Rightarrow> (case processTask hash sha256Text hmac cc options (pi_task io) a w2 of
                      (w3, Inl e) \<Rightarrow> (w3, Inl e) | (w3, Inr v) \<Rightarrow> (w3, Inr 250))))))"

text \<open>One turn of \<open>loop\<close>: the wait before the next one, or \<open>None\<close> when the worker was stopped in it.\<close>

definition loopTurn :: "(byte list \<Rightarrow> string) \<Rightarrow> (jsText \<Rightarrow> string) \<Rightarrow> (string \<Rightarrow> string \<Rightarrow> string) \<Rightarrow> CheckpointCipher \<Rightarrow>
    SupplierArtifactWorkerOptions \<Rightarrow> PollIo \<Rightarrow> bool \<Rightarrow> SupplierArtifactWorker \<Rightarrow> SupplierArtifactWorker \<times> int option" where
  "loopTurn hash sha256Text hmac cc options io stopped w =
     (case pollOnce hash sha256Text hmac cc options io
         (w\<lparr>sw_status := (sw_status w)\<lparr>ws_state := StatePolling, ws_taskId := None, ws_lastErrorCode := None\<rparr>\<rparr>) of
        (w1, Inr wait) \<Rightarrow> (w1, Some wait)
      | (w1, Inl e) \<Rightarrow>
        if stopped then (w1, None)
        else (w1\<lparr>sw_status := (sw_status w1)\<lparr>ws_state := StateError, ws_taskId := None, ws_lastErrorCode := Some (errorCode e)\<rparr>\<rparr>, Some 5000))"

text \<open>\<open>start\<close> and \<open>stop\<close>; the flag says whether the loop is running.\<close>

definition startWorker :: "bool \<Rightarrow> SupplierArtifactWorker \<Rightarrow> bool \<times> SupplierArtifactWorker" where
  "startWorker running w = (if running then (running, w) else (True, w\<lparr>sw_status := (sw_status w)\<lparr>ws_state := StatePolling\<rparr>\<rparr>))"

definition stopWorker :: "SupplierArtifactWorker \<Rightarrow> bool \<times> SupplierArtifactWorker" where
  "stopWorker w = (False, w\<lparr>sw_status := (sw_status w)\<lparr>ws_state := StateStopped, ws_taskId := None\<rparr>\<rparr>)"

end
