(* ===== verification/ArtifactRun.thy ===== *)
theory ArtifactRun
  imports ArtifactExecutor "HOL-Library.Sublist"
begin

text \<open>
  Lemmas on the executor of artifact tasks: the segments are the pieces of the verified file, two runs with
  one provider stay together, a step moves on by one segment, a round makes fewer summaries, and every
  checkpoint of the segment loop is a state that an uninterrupted run reaches.
\<close>

section \<open>Loops that may throw\<close>

lemma foldS_append:
  "foldS f s (xs @ ys) = (case foldS f s xs of (s1, Inl e) \<Rightarrow> (s1, Inl e) | (s1, Inr u) \<Rightarrow> foldS f s1 ys)"
  by (induction xs arbitrary: s) (auto split: prod.splits sum.splits)

lemma foldS_invariant:
  "foldS f s xs = (s', r) \<Longrightarrow> P s \<Longrightarrow> (\<And>s x s' r. x \<in> set xs \<Longrightarrow> P s \<Longrightarrow> f s x = (s', r) \<Longrightarrow> P s') \<Longrightarrow> P s'"
proof (induction xs arbitrary: s)
  case (Cons x xs)
  obtain s1 r1 where f: "f s x = (s1, r1)" by fastforce
  have "P s1" using Cons.prems(3) [OF _ Cons.prems(2) f] by simp
  show ?case
  proof (cases r1)
    case (Inr u)
    then have "foldS f s1 xs = (s', r)" using Cons.prems(1) f by simp
    then show ?thesis using \<open>P s1\<close> by (rule Cons.IH) (rule Cons.prems(3) [OF list.set_intros(2)])
  qed (use Cons.prems(1) f \<open>P s1\<close> in simp)
qed simp

section \<open>Segments\<close>

text \<open>The reference: a text cut into pieces of one length, the last one possibly shorter.\<close>

function chop :: "nat \<Rightarrow> 'a list \<Rightarrow> 'a list list" where
  "chop n xs = (if n = 0 \<or> xs = [] then [] else take n xs # chop n (drop n xs))"
  by pat_completeness auto
termination by (relation "measure (\<lambda>(n, xs). length xs)") auto

declare chop.simps [simp del]

lemma chop_Nil [simp]: "chop n [] = []"
  by (simp add: chop.simps)

lemma concat_chop: "0 < n \<Longrightarrow> concat (chop n xs) = xs"
  by (induction n xs rule: chop.induct) (simp add: chop.simps [of n xs for n xs])

lemma length_chop: "0 < n \<Longrightarrow> length (chop n xs) = (length xs + n - 1) div n"
proof (induction n xs rule: chop.induct)
  case (1 n xs)
  show ?case
  proof (cases "xs = []")
    case False
    then have "length (chop n xs) = 1 + (length xs - n + n - 1) div n"
      using 1 by (simp add: chop.simps [of n xs])
    also have "\<dots> = (length xs + n - 1) div n"
    proof (cases "n \<le> length xs")
      case True
      then have "length xs + n - 1 = (length xs - n + n - 1) + n" using "1.prems" by simp
      then show ?thesis using "1.prems" by (metis add.commute div_add_self2 less_not_refl plus_1_eq_Suc add_Suc_right One_nat_def Suc_eq_plus1_left)
    next
      case f: False
      have "1 \<le> length xs" using False by (simp add: Suc_leI)
      then have "(length xs + n - 1) div n = 1" using f by (intro div_nat_eqI) auto
      moreover have "(length xs - n + n - 1) div n = 0" using f "1.prems" by simp
      ultimately show ?thesis by simp
    qed
    finally show ?thesis .
  qed (use 1 in simp)
qed

lemma chop_append: "0 < n \<Longrightarrow> n dvd length xs \<Longrightarrow> chop n (xs @ ys) = chop n xs @ chop n ys"
proof (induction n xs rule: chop.induct)
  case (1 n xs)
  show ?case
  proof (cases "xs = []")
    case False
    with 1 have n: "n \<le> length xs" by (simp add: dvd_imp_le)
    then have "n dvd length (drop n xs)" using "1.prems"(2) by (simp add: dvd_diff_nat)
    then have "chop n (drop n xs @ ys) = chop n (drop n xs) @ chop n ys" using 1 False by simp
    then show ?thesis using False n "1.prems"(1) by (simp add: chop.simps [of n "xs @ ys"] chop.simps [of n xs])
  qed simp
qed

text \<open>The loop cuts off whole segments and keeps the rest.\<close>

lemma cutSegments_spec:
  assumes "0 < n" "cutSegments n bs = (segs, rest)"
  shows "segs = chop n (concat segs) \<and> bs = concat segs @ rest \<and> n dvd length (concat segs) \<and> length rest < n"
  using assms
proof (induction n bs arbitrary: segs rest rule: cutSegments.induct)
  case (1 n bs)
  show ?case
  proof (cases "n \<le> length bs")
    case True
    then obtain segs' where s: "cutSegments n (drop n bs) = (segs', rest)" "segs = take n bs # segs'"
      using "1.prems" by (auto simp: cutSegments.simps [of n bs] split: prod.splits)
    with 1 True have ih: "segs' = chop n (concat segs')" "drop n bs = concat segs' @ rest" "n dvd length (concat segs')" "length rest < n"
      by auto
    have "chop n (concat segs) = take n bs # chop n (concat segs')"
      using True "1.prems"(1) s(2) by (subst chop.simps) auto
    with ih s True show ?thesis by (metis append_assoc append_take_drop_id concat.simps(2) dvd_add length_append length_take min_absorb2 dvd_refl)
  next
    case False
    with "1.prems" show ?thesis by (simp add: cutSegments.simps [of n bs])
  qed
qed

text \<open>The chunks of a stream that match the descriptors.\<close>

definition matching :: "(byte list \<Rightarrow> string) \<Rightarrow> ArtifactChunkDescriptor list \<Rightarrow> SupplierArtifactChunk list \<Rightarrow> bool" where
  "matching hash ds cs \<longleftrightarrow> list_all2 (\<lambda>d (part, bytes). part = chunk_partNumber d \<and> int (length bytes) = chunk_sizeBytes d \<and>
     hash bytes = chunk_sha256 d) ds cs"

lemma byteSegments_complete:
  assumes "0 < n" "matching hash ds cs" "int (length (content @ concat (map snd cs))) = size_bytes" "length pending < n"
  shows "byteSegments hash n size_bytes None ds pending content cs =
    (chop n (pending @ concat (map snd cs)), Inr (content @ concat (map snd cs)))"
  using assms
proof (induction ds arbitrary: cs pending content)
  case Nil
  then have "cs = []" by (simp add: matching_def)
  moreover have "pending \<noteq> [] \<Longrightarrow> chop n pending = [pending]" using Nil by (simp add: chop.simps)
  ultimately show ?case using Nil by auto
next
  case (Cons d ds)
  then obtain part bytes cs' where cs: "cs = (part, bytes) # cs'" "matching hash ds cs'"
    "part = chunk_partNumber d" "int (length bytes) = chunk_sizeBytes d" "hash bytes = chunk_sha256 d"
    by (auto simp: matching_def list_all2_Cons1)
  obtain segs rest where c: "cutSegments n (pending @ bytes) = (segs, rest)" by fastforce
  note cut = cutSegments_spec [OF Cons.prems(1) c]
  have "byteSegments hash n size_bytes None ds rest (content @ bytes) cs' =
      (chop n (rest @ concat (map snd cs')), Inr ((content @ bytes) @ concat (map snd cs')))"
    using cut cs Cons.prems by (intro Cons.IH) auto
  moreover have "chop n (concat segs @ (rest @ concat (map snd cs'))) = segs @ chop n (rest @ concat (map snd cs'))"
    using cut Cons.prems(1) by (metis chop_append)
  moreover have "pending @ bytes @ concat (map snd cs') = concat segs @ rest @ concat (map snd cs')" using cut by (metis append_assoc)
  ultimately show ?case using cs c by (simp del: append_assoc add: append_assoc [symmetric])
qed

lemma byteSegments_Inr:
  "byteSegments hash n size_bytes ending ds pending content cs = (segs, Inr all_bytes) \<Longrightarrow>
   matching hash ds cs \<and> all_bytes = content @ concat (map snd cs) \<and> int (length all_bytes) = size_bytes \<and> ending = None"
  by (induction hash n size_bytes ending ds pending content cs arbitrary: segs rule: byteSegments.induct)
    (auto simp: matching_def split: option.splits if_splits prod.splits)

text \<open>A stream that breaks off yields a prefix of the segments.\<close>

lemma byteSegments_prefix:
  "byteSegments hash n size_bytes None ds pending content cs = (segs, Inr all_bytes) \<Longrightarrow>
   prefix (fst (byteSegments hash n size_bytes ending ds pending content (take m cs))) segs"
proof (induction cs arbitrary: ds pending content segs m)
  case Nil
  then show ?case by (auto split: option.splits if_splits)
next
  case (Cons c cs)
  obtain part bytes where c: "c = (part, bytes)" by fastforce
  show ?case
  proof (cases "m = 0 \<or> ds = []")
    case True
    then show ?thesis using Cons.prems by (auto split: option.splits)
  next
    case False
    then obtain k d ds' where k: "m = Suc k" "ds = d # ds'" by (meson list.exhaust not0_implies_Suc)
    obtain s rest where cut: "cutSegments n (pending @ bytes) = (s, rest)" by fastforce
    obtain ss r where b: "byteSegments hash n size_bytes None ds' rest (content @ bytes) cs = (ss, r)" by fastforce
    have "segs = s @ ss" "r = Inr all_bytes" "part = chunk_partNumber d" "int (length bytes) = chunk_sizeBytes d" "hash bytes = chunk_sha256 d"
      using Cons.prems cut b c k by (auto split: if_splits)
    moreover from this have "prefix (fst (byteSegments hash n size_bytes ending ds' rest (content @ bytes) (take k cs))) ss"
      using Cons.IH b by simp
    ultimately show ?thesis using cut c k by (auto split: prod.splits)
  qed
qed

section \<open>Deterministic providers\<close>

text \<open>Two executions at the same point of the work, apart from what they have issued before.\<close>

definition sameWork :: "ArtifactExecution \<Rightarrow> ArtifactExecution \<Rightarrow> bool" where
  "sameWork ex ex' \<longleftrightarrow> ex_state ex' = ex_state ex \<and> ex_segmentIndex ex' = ex_segmentIndex ex \<and>
     ex_processedBytes ex' = ex_processedBytes ex \<and> ex_decoder ex' = ex_decoder ex"

lemma sameWork_refl [simp]: "sameWork ex ex"
  by (simp add: sameWork_def)

lemma sameWork_sym: "sameWork ex ex' \<Longrightarrow> sameWork ex' ex"
  by (simp add: sameWork_def)

lemma sameWork_trans: "sameWork a b \<Longrightarrow> sameWork b c \<Longrightarrow> sameWork a c"
  by (simp add: sameWork_def)

definition answers :: "ArtifactIo \<Rightarrow> (ArtifactRequest \<Rightarrow> nodeError + ArtifactProviderResult) \<Rightarrow> bool" where
  "answers io p \<longleftrightarrow> (\<forall>n r. io_provider io n r = p r)"

definition keepsCheckpoints :: "ArtifactIo \<Rightarrow> bool" where
  "keepsCheckpoints io \<longleftrightarrow> (\<forall>cs. io_checkpoint io cs = None)"

definition idealIo :: "(ArtifactRequest \<Rightarrow> nodeError + ArtifactProviderResult) \<Rightarrow> ArtifactIo" where
  "idealIo p = \<lparr>io_provider = \<lambda>n. p, io_checkpoint = \<lambda>cs. None, io_aborted = \<lambda>n. False, io_ending = None\<rparr>"

lemma ideal_io [simp]: "answers (idealIo p) p" "keepsCheckpoints (idealIo p)" "\<not> io_aborted (idealIo p) n"
  by (simp_all add: answers_def keepsCheckpoints_def idealIo_def)

lemma invoke_same:
  assumes "sameWork ex ex'" "answers io p" "answers io' p"
    "invokeBounded config a io rid input out_max ex = (e1, r)" "invokeBounded config a io' rid input out_max ex' = (e2, r')"
  shows "sameWork e1 e2 \<and> r = r' \<and> sameWork ex e1"
  using assms by (auto simp: invokeBounded_def sameWork_def answers_def Let_def split: if_splits)

text \<open>Two runs with one provider stay together, unless a signal or a checkpoint fails.\<close>

definition together :: "ArtifactIo \<Rightarrow> ArtifactExecution \<Rightarrow> ArtifactExecution \<times> (nodeError + unit) \<Rightarrow>
    ArtifactExecution \<times> (nodeError + unit) \<Rightarrow> bool" where
  "together io ex x y \<longleftrightarrow> sameWork (fst x) (fst y) \<and> (snd x = Inr () \<longrightarrow> snd y = Inr ()) \<and> (keepsCheckpoints io \<longrightarrow> snd x = snd y) \<and>
     (ex_emitted (fst x) = ex_emitted ex \<or> ex_emitted (fst x) = ex_emitted ex @ [ex_state (fst x)] \<and> snd y = Inr () \<and>
        ck_completedSegments (ex_state (fst x)) = int (ex_segmentIndex (fst x)))"

lemma emit_together:
  assumes "sameWork ex ex'" "keepsCheckpoints io'" "ck_completedSegments (ex_state ex) = int (ex_segmentIndex ex)"
  shows "together io ex (emitCheckpoint io ex) (emitCheckpoint io' ex')"
  using assms by (auto simp: together_def emitCheckpoint_def sameWork_def keepsCheckpoints_def split: option.splits)

lemma together_emitted: "together io ex x y \<Longrightarrow> ex_emitted ex2 = ex_emitted ex \<Longrightarrow> together io ex2 x y"
  by (simp add: together_def)

lemma together_Inr: "together io ex (e1, Inr ()) (e2, q) \<Longrightarrow> sameWork e1 e2 \<and> q = Inr ()"
  by (auto simp: together_def)

lemma summarise_together:
  assumes "sameWork ex ex'" "answers io p" "answers io' p" "keepsCheckpoints io'"
  shows "together io ex (summarise config a io n t ex) (summarise config a io' n t ex')"
proof -
  let ?id = "as_task_id a @ '':map:'' @ dec_of_nat (ex_segmentIndex ex)"
  let ?in = "mapPrompt a t (int (ex_segmentIndex ex)) n" and ?out = "min 512 (as_max_output_tokens a)"
  obtain i1 q1 where i1: "invokeBounded config a io ?id ?in ?out ex = (i1, q1)" by fastforce
  obtain i2 q2 where i2: "invokeBounded config a io' ?id ?in ?out ex' = (i2, q2)" by fastforce
  from invoke_same [OF assms(1-3) i1 i2] have q: "sameWork i1 i2" "q1 = q2" "sameWork ex i1" by auto
  have em: "ex_emitted i1 = ex_emitted ex" using i1 by (auto simp: invokeBounded_def Let_def split: if_splits)
  have i: "ex_segmentIndex ex' = ex_segmentIndex ex" "ex_processedBytes ex' = ex_processedBytes ex" using assms(1) by (simp_all add: sameWork_def)
  show ?thesis
  proof (cases q1)
    case (Inl e)
    then have "q2 = Inl e" using q(2) by simp
    with Inl i1 i2 q(1) em i show ?thesis by (simp add: summarise_def together_def)
  next
    case (Inr r)
    then have q2: "q2 = Inr r" using q(2) by simp
    obtain st res where rec: "recordResult a r ((ex_state i1)\<lparr>ck_summaries := ck_summaries (ex_state i1) @ [the (ap_output r)]\<rparr>) = (st, res)"
      by fastforce
    moreover have "ex_state i2 = ex_state i1" using q(1) by (simp add: sameWork_def)
    ultimately have r: "summarise config a io n t ex = (case res of Inl e \<Rightarrow> (i1\<lparr>ex_state := st\<rparr>, Inl e) | Inr u \<Rightarrow> emitCheckpoint io
          (i1\<lparr>ex_state := st\<lparr>ck_completedSegments := int (ex_segmentIndex ex), ck_processedBytes := ex_processedBytes ex\<rparr>\<rparr>))"
      "summarise config a io' n t ex' = (case res of Inl e \<Rightarrow> (i2\<lparr>ex_state := st\<rparr>, Inl e) | Inr u \<Rightarrow> emitCheckpoint io'
          (i2\<lparr>ex_state := st\<lparr>ck_completedSegments := int (ex_segmentIndex ex), ck_processedBytes := ex_processedBytes ex\<rparr>\<rparr>))"
      using i1 i2 q2 Inr i by (simp_all add: summarise_def)
    show ?thesis
    proof (cases res)
      case (Inl e)
      with r q em show ?thesis by (simp add: together_def sameWork_def)
    next
      case res: (Inr u)
      have "ex_segmentIndex i1 = ex_segmentIndex ex" using q(3) by (simp add: sameWork_def)
      with q(1) assms(4) have "together io (i1\<lparr>ex_state := st\<lparr>ck_completedSegments := int (ex_segmentIndex ex), ck_processedBytes := ex_processedBytes ex\<rparr>\<rparr>)
          (summarise config a io n t ex) (summarise config a io' n t ex')"
        unfolding r res sum.case by (intro emit_together) (simp_all add: sameWork_def)
      then show ?thesis by (rule together_emitted) (simp add: em)
    qed
  qed
qed

lemma segmentStep_together:
  assumes "sameWork ex ex'" "answers io p" "answers io' p" "keepsCheckpoints io'"
    "io_aborted io (ex_segmentIndex ex) = io_aborted io' (ex_segmentIndex ex)"
  shows "together io ex (segmentStep config a io n ex x) (segmentStep config a io' n ex' x)"
proof -
  have s: "ex_state ex' = ex_state ex" "ex_segmentIndex ex' = ex_segmentIndex ex" "ex_processedBytes ex' = ex_processedBytes ex"
    "ex_decoder ex' = ex_decoder ex" using assms(1) by (simp_all add: sameWork_def)
  show ?thesis
  proof (cases "io_aborted io (ex_segmentIndex ex) \<or> decodeText (ex_decoder ex) x (int (ex_segmentIndex ex + 1) < n) = None")
    case True
    with assms s show ?thesis by (auto simp: segmentStep_def Let_def together_def)
  next
    case False
    then obtain d t where dt: "decodeText (ex_decoder ex) x (int (ex_segmentIndex ex + 1) < n) = Some (d, t)" by auto
    let ?f = "\<lambda>e. e\<lparr>ex_segmentIndex := ex_segmentIndex ex + 1, ex_processedBytes := ex_processedBytes ex + int (length x), ex_decoder := d\<rparr>"
    have f: "sameWork (?f ex) (?f ex')" using s by (simp add: sameWork_def)
    have "together io ex (summarise config a io n t (?f ex)) (summarise config a io' n t (?f ex'))"
      by (rule together_emitted [OF summarise_together [OF f assms(2-4)]]) simp
    with False dt s assms(5) f show ?thesis by (auto simp: segmentStep_def Let_def together_def)
  qed
qed

text \<open>A step that succeeds moves on by one segment.\<close>

lemma invoke_fields:
  "invokeBounded config a io rid input out_max ex = (e1, r) \<Longrightarrow> sameWork ex e1 \<and> ex_emitted e1 = ex_emitted ex"
  by (auto simp: invokeBounded_def Let_def sameWork_def split: if_splits)

lemma summarise_fields:
  "summarise config a io n t ex = (e1, r) \<Longrightarrow> ex_segmentIndex e1 = ex_segmentIndex ex \<and> ex_processedBytes e1 = ex_processedBytes ex \<and>
     ex_decoder e1 = ex_decoder ex"
  by (auto simp: summarise_def emitCheckpoint_def sameWork_def split: prod.splits sum.splits dest!: invoke_fields)

lemma step_fields:
  assumes "segmentStep config a io n ex x = (e1, Inr ())"
  shows "\<exists>t. decodeText (ex_decoder ex) x (int (ex_segmentIndex ex + 1) < n) = Some (ex_decoder e1, t) \<and>
    ex_segmentIndex e1 = ex_segmentIndex ex + 1 \<and> ex_processedBytes e1 = ex_processedBytes ex + int (length x)"
  using assms by (auto simp: segmentStep_def Let_def split: if_splits option.splits prod.splits dest!: summarise_fields)

lemma fold_index:
  "foldS (segmentStep config a io n) ex xs = (e1, Inr ()) \<Longrightarrow> ex_segmentIndex e1 = ex_segmentIndex ex + length xs"
proof (induction xs arbitrary: ex)
  case (Cons x xs)
  then obtain e where "segmentStep config a io n ex x = (e, Inr ())" "foldS (segmentStep config a io n) e xs = (e1, Inr ())"
    by (auto split: prod.splits sum.splits)
  with Cons.IH step_fields show ?case by fastforce
qed simp

lemma success_not_aborted: "segmentStep config a io n ex x = (e1, Inr ()) \<Longrightarrow> \<not> io_aborted io (ex_segmentIndex ex)"
  by (auto simp: segmentStep_def)

lemma segmentStep_aborted:
  "io_aborted io (ex_segmentIndex ex) \<Longrightarrow> segmentStep config a io n ex x = (ex, Inl (SupplierNodeError UPSTREAM_TIMEOUT 499 True))"
  by (simp add: segmentStep_def)

text \<open>What a run achieves, the ideal run achieves too.\<close>

lemma step_ideal:
  assumes "segmentStep config a io n ex x = (e1, Inr ())" "answers io p" "sameWork ex ex'"
  shows "\<exists>e2. segmentStep config a (idealIo p) n ex' x = (e2, Inr ()) \<and> sameWork e1 e2"
proof -
  obtain e2 q where e2: "segmentStep config a (idealIo p) n ex' x = (e2, q)" by fastforce
  have "together io ex (segmentStep config a io n ex x) (segmentStep config a (idealIo p) n ex' x)"
    by (rule segmentStep_together [OF assms(3,2) ideal_io(1,2)]) (use success_not_aborted [OF assms(1)] in simp)
  with e2 assms(1) show ?thesis by (simp add: together_def)
qed

lemma fold_ideal:
  "foldS (segmentStep config a io n) ex xs = (e1, Inr ()) \<Longrightarrow> answers io p \<Longrightarrow> sameWork ex ex' \<Longrightarrow>
   \<exists>e2. foldS (segmentStep config a (idealIo p) n) ex' xs = (e2, Inr ()) \<and> sameWork e1 e2"
proof (induction xs arbitrary: ex ex')
  case (Cons x xs)
  then obtain e where e: "segmentStep config a io n ex x = (e, Inr ())" "foldS (segmentStep config a io n) e xs = (e1, Inr ())"
    by (auto split: prod.splits sum.splits)
  from step_ideal [OF e(1) Cons.prems(2,3)] obtain e' where
    "segmentStep config a (idealIo p) n ex' x = (e', Inr ())" "sameWork e e'" by blast
  with Cons.IH [OF e(2) Cons.prems(2)] show ?case by simp
qed simp

text \<open>Every checkpoint of a run is the state of the ideal run after as many segments.\<close>

lemma fold_emitted:
  "foldS (segmentStep config a io n) ex xs = (e1, r) \<Longrightarrow> answers io p \<Longrightarrow> sameWork ex ex' \<Longrightarrow>
   c \<in> set (ex_emitted e1) \<Longrightarrow> c \<notin> set (ex_emitted ex) \<Longrightarrow>
   \<exists>k e2. 0 < k \<and> k \<le> length xs \<and> foldS (segmentStep config a (idealIo p) n) ex' (take k xs) = (e2, Inr ()) \<and> ex_state e2 = c \<and>
     ck_completedSegments c = int (ex_segmentIndex e2)"
proof (induction xs arbitrary: ex ex')
  case (Cons x xs)
  obtain e q where e: "segmentStep config a io n ex x = (e, q)" by fastforce
  show ?case
  proof (cases "io_aborted io (ex_segmentIndex ex)")
    case True
    with Cons.prems show ?thesis by (simp add: segmentStep_def)
  next
    case False
    obtain e' q' where e': "segmentStep config a (idealIo p) n ex' x = (e', q')" by fastforce
    from segmentStep_together [where config = config and a = a and n = n and x = x, OF Cons.prems(3,2) ideal_io(1,2)] False e e'
    have t: "together io ex (e, q) (e', q')" by simp
    show ?thesis
    proof (cases "c \<in> set (ex_emitted e)")
      case True
      with t Cons.prems(5) have "c = ex_state e'" "q' = Inr ()" "ck_completedSegments c = int (ex_segmentIndex e')"
        by (auto simp: together_def sameWork_def)
      with e' show ?thesis by (intro exI [of _ "1 :: nat"] exI [of _ e']) simp
    next
      case new: False
      with Cons.prems(1,4) e obtain u where "q = Inr u" by (cases q) auto
      then have q: "q = Inr ()" "q' = Inr ()" using t by (auto simp: together_def)
      then have "foldS (segmentStep config a io n) e xs = (e1, r)" "sameWork e e'" using Cons.prems(1) e t by (auto simp: together_def)
      from Cons.IH [OF this(1) Cons.prems(2) this(2) Cons.prems(4) new] obtain k e2 where
        "0 < k" "k \<le> length xs" "foldS (segmentStep config a (idealIo p) n) e' (take k xs) = (e2, Inr ())" "ex_state e2 = c"
        "ck_completedSegments c = int (ex_segmentIndex e2)" by blast
      with e' q show ?thesis by (intro exI [of _ "Suc k"] exI [of _ e2]) simp
    qed
  qed
qed simp

text \<open>Two runs with the same signals that start at the same point give the same outcome.\<close>

lemma fold_same:
  "sameWork ex ex' \<Longrightarrow> answers io p \<Longrightarrow> keepsCheckpoints io \<Longrightarrow> foldS (segmentStep config a io n) ex xs = (e1, r) \<Longrightarrow>
   foldS (segmentStep config a io n) ex' xs = (e2, r') \<Longrightarrow> sameWork e1 e2 \<and> r = r'"
proof (induction xs arbitrary: ex ex')
  case (Cons x xs)
  obtain f q f' q' where f: "segmentStep config a io n ex x = (f, q)" "segmentStep config a io n ex' x = (f', q')" by fastforce
  with segmentStep_together [where config = config and a = a and n = n and x = x, OF Cons.prems(1,2,2,3)] Cons.prems(3)
  have t: "sameWork f f'" "q' = q" by (auto simp: together_def)
  show ?case
  proof (cases q)
    case (Inl e)
    with Cons.prems(4,5) f t show ?thesis by auto
  next
    case (Inr u)
    with Cons.prems(4,5) f t Cons.IH [OF t(1) Cons.prems(2,3)] show ?thesis by simp
  qed
qed simp

text \<open>A resumed run skips the segments that were completed, with the decoder of the first run.\<close>

lemma fold_resume:
  assumes "foldS (segmentStep config a (idealIo p) n) g xs = (gk, Inr ())" "sameWork g ex" "answers io p" "keepsCheckpoints io"
    and "ex_segmentIndex rx = ex_segmentIndex ex" "ex_processedBytes rx = ex_processedBytes ex" "ex_decoder rx = ex_decoder ex"
    and "ex_state rx = c" "c = ex_state gk" "int (ex_segmentIndex gk) \<le> ck_completedSegments c"
    and "foldS (segmentStep config a io n) ex xs = (e1, r)" "foldS (segmentStep config a io n) rx xs = (e2, r')"
  shows "r = r' \<and> (r = Inr () \<longrightarrow> ex_segmentIndex e2 = ex_segmentIndex e1 \<and> ex_processedBytes e2 = ex_processedBytes e1 \<and>
    ex_decoder e2 = ex_decoder e1 \<and> ex_state e2 = c \<and> sameWork gk e1)"
  using assms
proof (induction xs arbitrary: g ex rx)
  case Nil
  then show ?case by (auto simp: sameWork_def)
next
  case (Cons x xs)
  show ?case
  proof (cases "io_aborted io (ex_segmentIndex ex)")
    case True
    with Cons.prems(5,11,12) show ?thesis by (auto simp: segmentStep_aborted)
  next
    case False
    from Cons.prems(1) obtain g1 where g1: "segmentStep config a (idealIo p) n g x = (g1, Inr ())"
      "foldS (segmentStep config a (idealIo p) n) g1 xs = (gk, Inr ())" by (auto split: prod.splits sum.splits)
    obtain f q where f: "segmentStep config a io n ex x = (f, q)" by fastforce
    have i: "ex_segmentIndex ex = ex_segmentIndex g" using Cons.prems(2) by (simp add: sameWork_def)
    have "together (idealIo p) g (segmentStep config a (idealIo p) n g x) (segmentStep config a io n ex x)"
      by (rule segmentStep_together [OF Cons.prems(2) ideal_io(1) Cons.prems(3,4)]) (use False i in simp)
    from together_Inr [OF this [unfolded g1(1) f]] have t: "sameWork g1 f" "q = Inr ()" by blast+
    from step_fields [OF f [unfolded t(2)]] obtain segText where
      d: "decodeText (ex_decoder ex) x (int (ex_segmentIndex ex + 1) < n) = Some (ex_decoder f, segText)"
      "ex_segmentIndex f = ex_segmentIndex ex + 1" "ex_processedBytes f = ex_processedBytes ex + int (length x)" by blast
    have "ex_segmentIndex gk = ex_segmentIndex g1 + length xs" using fold_index [OF g1(2)] .
    moreover have "ex_segmentIndex g1 = ex_segmentIndex ex + 1" using t(1) d(2) by (simp add: sameWork_def)
    ultimately have "int (ex_segmentIndex ex + 1) \<le> ck_completedSegments (ex_state rx)" using Cons.prems(8,9,10) by simp
    then have rx: "segmentStep config a io n rx x = (rx\<lparr>ex_segmentIndex := ex_segmentIndex f, ex_processedBytes := ex_processedBytes f,
        ex_decoder := ex_decoder f\<rparr>, Inr ())"
      using False d Cons.prems(5-7) by (simp add: segmentStep_def)
    show ?thesis
    proof (rule Cons.IH [OF g1(2) t(1) Cons.prems(3,4)])
      show "foldS (segmentStep config a io n) f xs = (e1, r)" using Cons.prems(11) f t(2) by simp
      show "foldS (segmentStep config a io n) (rx\<lparr>ex_segmentIndex := ex_segmentIndex f, ex_processedBytes := ex_processedBytes f,
        ex_decoder := ex_decoder f\<rparr>) xs = (e2, r')" using Cons.prems(12) rx by simp
    qed (use Cons.prems(8-10) in simp_all)
  qed
qed

text \<open>A resumed run leaves its state alone while it skips.\<close>

lemma fold_skip:
  "foldS (segmentStep config a io n) ex xs = (e, Inr ()) \<Longrightarrow> int (ex_segmentIndex ex + length xs) \<le> ck_completedSegments (ex_state ex) \<Longrightarrow>
   ex_state e = ex_state ex"
proof (induction xs arbitrary: ex)
  case (Cons x xs)
  then obtain f where f: "segmentStep config a io n ex x = (f, Inr ())" "foldS (segmentStep config a io n) f xs = (e, Inr ())"
    by (auto split: prod.splits sum.splits)
  have "ex_segmentIndex f = ex_segmentIndex ex + 1" using step_fields [OF f(1)] by blast
  moreover have "ex_state f = ex_state ex"
    using f(1) Cons.prems(2) by (auto simp: segmentStep_def Let_def split: if_splits option.splits prod.splits)
  ultimately show ?case using Cons.IH [OF f(2)] Cons.prems(2) by simp
qed simp

section \<open>Reduction\<close>

lemma reduceStep_same:
  assumes "sameWork ex ex'" "answers io p" "reduceStep config a io rnd n (ex, red) g = ((e1, red1), r)"
    "reduceStep config a io rnd n (ex', red) g = ((e2, red2), r')"
  shows "sameWork e1 e2 \<and> red1 = red2 \<and> r = r'"
proof -
  obtain index grp where g: "g = (index, grp)" by fastforce
  let ?id = "as_task_id a @ '':reduce:'' @ dec_of_nat rnd @ '':'' @ dec_of_nat (index + 1)"
  obtain i1 q1 where i1: "invokeBounded config a io ?id (reducePrompt a grp rnd (index + 1) n) (as_max_output_tokens a) ex = (i1, q1)" by fastforce
  obtain i2 q2 where i2: "invokeBounded config a io ?id (reducePrompt a grp rnd (index + 1) n) (as_max_output_tokens a) ex' = (i2, q2)" by fastforce
  from invoke_same [OF assms(1,2,2) i1 i2] have q: "sameWork i1 i2" "q2 = q1" by auto
  then have st: "ex_state i2 = ex_state i1" by (simp add: sameWork_def)
  show ?thesis
  proof (cases q1)
    case (Inl e)
    with assms(3,4) g i1 i2 q show ?thesis by (auto simp: reduceStep_def)
  next
    case (Inr x)
    obtain s res where "recordResult a x (ex_state i1) = (s, res)" by fastforce
    with assms(3,4) g i1 i2 q st Inr show ?thesis by (auto simp: reduceStep_def sameWork_def)
  qed
qed

lemma reduceFold_same:
  "sameWork ex ex' \<Longrightarrow> answers io p \<Longrightarrow> foldS (reduceStep config a io rnd n) (ex, red) gs = ((e1, red1), r) \<Longrightarrow>
   foldS (reduceStep config a io rnd n) (ex', red) gs = ((e2, red2), r') \<Longrightarrow> sameWork e1 e2 \<and> red1 = red2 \<and> r = r'"
proof (induction gs arbitrary: ex ex' red)
  case (Cons g gs)
  obtain f x q f' x' q' where f: "reduceStep config a io rnd n (ex, red) g = ((f, x), q)" "reduceStep config a io rnd n (ex', red) g = ((f', x'), q')"
    by (metis prod.collapse)
  from reduceStep_same [OF Cons.prems(1,2) f] have t: "sameWork f f'" "x' = x" "q' = q" by auto
  show ?case
  proof (cases q)
    case (Inl e)
    with Cons.prems(3,4) f t show ?thesis by auto
  next
    case (Inr u)
    with Cons.prems(3,4) f t Cons.IH [OF t(1) Cons.prems(2), of x] show ?thesis by simp
  qed
qed simp

lemma reduceRound_same:
  assumes "sameWork ex ex'" "answers io p" "keepsCheckpoints io" "reduceRound config a io seg rnd ex = (e1, r)"
    "reduceRound config a io seg rnd ex' = (e2, r')"
  shows "sameWork e1 e2 \<and> r = r'"
proof -
  have st: "ex_state ex' = ex_state ex" using assms(1) by (simp add: sameWork_def)
  show ?thesis
  proof (cases "groupSummaries (ck_summaries (ex_state ex)) (int seg)")
    case (Inl e)
    with assms st show ?thesis by (auto simp: reduceRound_def)
  next
    case (Inr gs)
    let ?F = "\<lambda>e. foldS (reduceStep config a io rnd (length gs)) (e, []) (enumerate 0 gs)"
    obtain f x q f' x' q' where f: "?F ex = ((f, x), q)" "?F ex' = ((f', x'), q')" by (metis prod.collapse)
    from reduceFold_same [OF assms(1,2) f] have t: "sameWork f f'" "x' = x" "q' = q" by auto
    then have "ex_state f' = ex_state f" by (simp add: sameWork_def)
    with assms(3-5) st Inr f t show ?thesis
      by (cases q) (auto simp: reduceRound_def emitCheckpoint_def keepsCheckpoints_def sameWork_def)
  qed
qed

lemma reduceLoop_same:
  "sameWork ex ex' \<Longrightarrow> answers io p \<Longrightarrow> keepsCheckpoints io \<Longrightarrow> reduceLoop config a io seg rnd ex = (e1, r) \<Longrightarrow>
   reduceLoop config a io seg rnd ex' = (e2, r') \<Longrightarrow> sameWork e1 e2 \<and> r = r'"
proof (induction "32 - rnd" arbitrary: rnd ex ex')
  case 0
  then show ?case by (auto simp: sameWork_def reduceLoop.simps [of config a io seg rnd] split: if_splits)
next
  case (Suc k)
  have st: "ex_state ex' = ex_state ex" using Suc.prems(1) by (simp add: sameWork_def)
  show ?case
  proof (cases "length (ck_summaries (ex_state ex)) > 1")
    case True
    obtain f q f' q' where f: "reduceRound config a io seg (rnd + 1) ex = (f, q)" "reduceRound config a io seg (rnd + 1) ex' = (f', q')" by fastforce
    from reduceRound_same [OF Suc.prems(1-3) f] have t: "sameWork f f'" "q' = q" by auto
    have "\<not> 32 < rnd + 1" "k = 32 - (rnd + 1)" using Suc.hyps(2) by simp_all
    with Suc.prems(4,5) st True f t Suc.hyps(1) [of "rnd + 1", OF _ t(1) Suc.prems(2,3)] show ?thesis
      by (cases q) (auto simp: reduceLoop.simps [of config a io seg rnd])
  next
    case False
    with Suc.prems st show ?thesis by (auto simp: reduceLoop.simps [of config a io seg rnd])
  qed
qed

text \<open>A round makes fewer summaries.\<close>

lemma groupLoop_length:
  "groupLoop maxBytes groups current b xs = Inr gs \<Longrightarrow> length gs \<le> length groups + (if current = [] then 0 else 1) + length xs"
  by (induction maxBytes groups current b xs rule: groupLoop.induct) (fastforce simp: Let_def split: if_splits)+

lemma groupSummaries_length:
  "groupSummaries xs m = Inr gs \<Longrightarrow> 1 < length xs \<Longrightarrow> length gs < length xs"
  using groupLoop_length [of m "[]" "[]" 0 xs gs] by (auto simp: groupSummaries_def split: if_splits)

lemma recordResult_fields:
  "recordResult a r s = (s', res) \<Longrightarrow> ck_summaries s' = ck_summaries s \<and> ck_completedSegments s' = ck_completedSegments s \<and>
    ck_version s' = ck_version s \<and> ck_taskId s' = ck_taskId s \<and> ck_artifactManifestSha256 s' = ck_artifactManifestSha256 s \<and>
    ck_totalSegments s' = ck_totalSegments s \<and> length (ck_providerRequestIds s') = Suc (length (ck_providerRequestIds s))"
  by (auto simp: recordResult_def split: prod.splits)

lemma reduceStep_fields:
  "reduceStep config a io rnd n (ex, red) g = ((e1, red1), r) \<Longrightarrow> ex_emitted e1 = ex_emitted ex \<and>
    ck_completedSegments (ex_state e1) = ck_completedSegments (ex_state ex) \<and> (r = Inr () \<longrightarrow> length red1 = Suc (length red))"
  by (auto simp: reduceStep_def sameWork_def split: prod.splits sum.splits dest!: invoke_fields recordResult_fields)

lemma reduceFold_fields:
  "foldS (reduceStep config a io rnd n) (ex, red) gs = ((e1, red1), r) \<Longrightarrow> ex_emitted e1 = ex_emitted ex \<and>
    ck_completedSegments (ex_state e1) = ck_completedSegments (ex_state ex) \<and> (r = Inr () \<longrightarrow> length red1 = length red + length gs)"
proof (induction gs arbitrary: ex red)
  case (Cons g gs)
  obtain f x q where f: "reduceStep config a io rnd n (ex, red) g = ((f, x), q)" by (metis prod.collapse)
  note t = reduceStep_fields [OF f]
  show ?case
  proof (cases q)
    case (Inl e)
    with Cons.prems f t show ?thesis by auto
  next
    case (Inr u)
    with Cons.prems f t Cons.IH [of f x] show ?thesis by auto
  qed
qed simp

lemma reduceRound_fields:
  assumes "reduceRound config a io seg rnd ex = (e1, r)" "1 < length (ck_summaries (ex_state ex))"
  shows "(ex_emitted e1 = ex_emitted ex \<or> ex_emitted e1 = ex_emitted ex @ [ex_state e1] \<and> length (ck_summaries (ex_state e1)) < length (ck_summaries (ex_state ex))) \<and>
    ck_completedSegments (ex_state e1) = ck_completedSegments (ex_state ex) \<and>
    (r = Inr () \<longrightarrow> length (ck_summaries (ex_state e1)) < length (ck_summaries (ex_state ex)))"
proof (cases "groupSummaries (ck_summaries (ex_state ex)) (int seg)")
  case (Inl e)
  with assms show ?thesis by (auto simp: reduceRound_def)
next
  case (Inr gs)
  obtain f x q where f: "foldS (reduceStep config a io rnd (length gs)) (ex, []) (enumerate 0 gs) = ((f, x), q)" by (metis prod.collapse)
  from reduceFold_fields [OF f] groupSummaries_length [OF Inr assms(2)] assms(1) Inr f show ?thesis
    by (cases q) (auto simp: reduceRound_def emitCheckpoint_def)
qed

lemma reduceLoop_emitted:
  "reduceLoop config a io seg rnd ex = (e1, r) \<Longrightarrow> c \<in> set (ex_emitted e1) \<Longrightarrow> c \<in> set (ex_emitted ex) \<or>
    length (ck_summaries c) < length (ck_summaries (ex_state ex)) \<and> ck_completedSegments c = ck_completedSegments (ex_state ex)"
proof (induction "32 - rnd" arbitrary: rnd ex)
  case 0
  then show ?case by (auto simp: reduceLoop.simps [of config a io seg rnd] split: if_splits)
next
  case (Suc k)
  show ?case
  proof (cases "length (ck_summaries (ex_state ex)) > 1")
    case True
    obtain f q where f: "reduceRound config a io seg (rnd + 1) ex = (f, q)" by fastforce
    have k: "\<not> 32 < rnd + 1" "k = 32 - (rnd + 1)" using Suc.hyps(2) by simp_all
    note t = reduceRound_fields [OF f True]
    show ?thesis
    proof (cases q)
      case (Inl e)
      with Suc.prems True f k t show ?thesis by (auto simp: reduceLoop.simps [of config a io seg rnd])
    next
      case (Inr u)
      with Suc.prems(1) True f k have "reduceLoop config a io seg (rnd + 1) f = (e1, r)" by (simp add: reduceLoop.simps [of config a io seg rnd])
      from Suc.hyps(1) [OF k(2) this Suc.prems(2)] t Inr show ?thesis by auto
    qed
  next
    case False
    with Suc.prems show ?thesis by (simp add: reduceLoop.simps [of config a io seg rnd])
  qed
qed

section \<open>Resuming\<close>

definition freshState :: "SupplierArtifactAssignment \<Rightarrow> int \<Rightarrow> SupplierArtifactCheckpointState" where
  "freshState a n = \<lparr>ck_version = CHECKPOINT_VERSION, ck_taskId = as_task_id a, ck_artifactManifestSha256 = as_manifest_sha256 a,
     ck_completedSegments = 0, ck_totalSegments = n, ck_processedBytes = 0, ck_summaries = [], ck_providerRequestIds = [],
     ck_usage = emptyUsage\<rparr>"

abbreviation startOf :: "SupplierArtifactCheckpointState \<Rightarrow> ArtifactExecution" where
  "startOf s \<equiv> \<lparr>ex_state = s, ex_segmentIndex = 0, ex_processedBytes = 0, ex_decoder = newDecoder, ex_emitted = [], ex_requests = []\<rparr>"

text \<open>The states of an uninterrupted run after its first segments.\<close>

definition reached :: "SupplierNodeConfig \<Rightarrow> SupplierArtifactAssignment \<Rightarrow> (ArtifactRequest \<Rightarrow> nodeError + ArtifactProviderResult) \<Rightarrow> int \<Rightarrow>
    byte list list \<Rightarrow> nat \<Rightarrow> SupplierArtifactCheckpointState \<Rightarrow> bool" where
  "reached config a p n segs k c \<longleftrightarrow> 0 < k \<and> k \<le> length segs \<and>
     (\<exists>e. foldS (segmentStep config a (idealIo p) n) (startOf (freshState a n)) (take k segs) = (e, Inr ()) \<and> ex_state e = c)"

definition orderly :: "SupplierArtifactAssignment \<Rightarrow> int \<Rightarrow> ArtifactExecution \<Rightarrow> bool" where
  "orderly a n ex \<longleftrightarrow> (case ex_state ex of s \<Rightarrow> ck_version s = CHECKPOINT_VERSION \<and> ck_taskId s = as_task_id a \<and>
     ck_artifactManifestSha256 s = as_manifest_sha256 a \<and> ck_totalSegments s = n \<and> ck_completedSegments s = int (ex_segmentIndex ex) \<and>
     length (ck_summaries s) = ex_segmentIndex ex \<and> length (ck_providerRequestIds s) = ex_segmentIndex ex)"

lemma orderly_start: "orderly a n (startOf (freshState a n))"
  by (simp add: orderly_def freshState_def)

lemma orderly_step:
  assumes "segmentStep config a io n ex x = (e1, Inr ())" "orderly a n ex"
  shows "orderly a n e1"
proof -
  from step_fields [OF assms(1)] obtain t where
    t: "decodeText (ex_decoder ex) x (int (ex_segmentIndex ex + 1) < n) = Some (ex_decoder e1, t)" by blast
  let ?f = "ex\<lparr>ex_segmentIndex := ex_segmentIndex ex + 1, ex_processedBytes := ex_processedBytes ex + int (length x), ex_decoder := ex_decoder e1\<rparr>"
  have "summarise config a io n t ?f = (e1, Inr ())"
    using assms t by (auto simp: segmentStep_def orderly_def split: if_splits)
  with assms(2) show ?thesis
    by (auto simp: summarise_def emitCheckpoint_def orderly_def sameWork_def split: prod.splits sum.splits option.splits
        dest!: invoke_fields recordResult_fields)
qed

lemma orderly_fold:
  "foldS (segmentStep config a io n) ex xs = (e1, Inr ()) \<Longrightarrow> orderly a n ex \<Longrightarrow> orderly a n e1"
proof (induction xs arbitrary: ex)
  case (Cons x xs)
  then obtain f where "segmentStep config a io n ex x = (f, Inr ())" "foldS (segmentStep config a io n) f xs = (e1, Inr ())"
    by (auto split: prod.splits sum.splits)
  with Cons orderly_step show ?case by blast
qed simp

lemma reached_state:
  assumes "reached config a p n segs k c"
  shows "ck_version c = CHECKPOINT_VERSION \<and> ck_taskId c = as_task_id a \<and> ck_artifactManifestSha256 c = as_manifest_sha256 a \<and>
    ck_totalSegments c = n \<and> ck_completedSegments c = int k \<and> length (ck_summaries c) = k \<and> length (ck_providerRequestIds c) = k"
proof -
  from assms obtain e where e: "foldS (segmentStep config a (idealIo p) n) (startOf (freshState a n)) (take k segs) = (e, Inr ())"
    "ex_state e = c" "k \<le> length segs" by (auto simp: reached_def)
  have "ex_segmentIndex e = k" using fold_index [OF e(1)] e(3) by simp
  with orderly_fold [OF e(1) orderly_start] e(2) show ?thesis by (auto simp: orderly_def)
qed

text \<open>The runs that start from such a state, up to where it was reached.\<close>

lemma resumed_together:
  assumes "reached config a p n segs k c" "answers io p" "keepsCheckpoints io"
    and "foldS (segmentStep config a io n) (startOf (freshState a n)) (take k segs) = (e1, r)"
    and "foldS (segmentStep config a io n) (startOf c) (take k segs) = (e2, r')"
  shows "r = r' \<and> (r = Inr () \<longrightarrow> sameWork e1 e2)"
proof -
  from assms(1) obtain g where g: "foldS (segmentStep config a (idealIo p) n) (startOf (freshState a n)) (take k segs) = (g, Inr ())"
    "ex_state g = c" "k \<le> length segs" by (auto simp: reached_def)
  have "int (ex_segmentIndex g) \<le> ck_completedSegments c" using fold_index [OF g(1)] g(3) reached_state [OF assms(1)] by simp
  from fold_resume [OF g(1) sameWork_refl assms(2,3) _ _ _ _ g(2) [symmetric] this assms(4,5)] g(2) show ?thesis
    by (auto simp: sameWork_def)
qed

lemma emitted_fresh:
  assumes "foldS (segmentStep config a io n) (startOf (freshState a n)) xs = (e1, r)" "answers io p" "prefix xs segs" "c \<in> set (ex_emitted e1)"
  shows "\<exists>k. reached config a p n segs k c"
proof -
  from fold_emitted [OF assms(1,2) sameWork_refl assms(4)] obtain k e2 where
    k: "0 < k" "k \<le> length xs" "foldS (segmentStep config a (idealIo p) n) (startOf (freshState a n)) (take k xs) = (e2, Inr ())" "ex_state e2 = c"
    by auto
  moreover have "take k segs = take k xs" "k \<le> length segs" using k(2) assms(3) by (auto simp: prefix_def)
  ultimately show ?thesis unfolding reached_def by metis
qed

lemma emitted_resumed:
  assumes "reached config a p n segs k c"
    and "foldS (segmentStep config a io n) (startOf c) xs = (e1, r)" "answers io p" "prefix xs segs" "c' \<in> set (ex_emitted e1)"
  shows "\<exists>k'. reached config a p n segs k' c'"
proof -
  let ?F = "foldS (segmentStep config a (idealIo p) n)"
  from fold_emitted [OF assms(2,3) sameWork_refl assms(5)] obtain j e2 where
    j: "0 < j" "j \<le> length xs" "?F (startOf c) (take j xs) = (e2, Inr ())" "ex_state e2 = c'" by auto
  have x: "take j segs = take j xs" "j \<le> length segs" using j(2) assms(4) by (auto simp: prefix_def)
  show ?thesis
  proof (cases "j \<le> k")
    case True
    then have "ex_state e2 = c" using fold_skip [OF j(3)] reached_state [OF assms(1)] j(2) by simp
    with j(4) assms(1) show ?thesis by blast
  next
    case False
    define zs where "zs = drop k (take j segs)"
    have "take k (take j segs) = take k segs" using False by simp
    then have split: "take j segs = take k segs @ zs" unfolding zs_def by (metis append_take_drop_id)
    obtain m q where m: "?F (startOf c) (take k segs) = (m, q)" by fastforce
    from j(3) x(1) split have "?F (startOf c) (take k segs @ zs) = (e2, Inr ())" by metis
    with m have q: "q = Inr ()" "?F m zs = (e2, Inr ())" by (auto simp: foldS_append split: sum.splits)
    from assms(1) obtain g where g: "?F (startOf (freshState a n)) (take k segs) = (g, Inr ())" by (auto simp: reached_def)
    from resumed_together [OF assms(1) ideal_io(1,2) g m] q have "sameWork m g" by (auto intro: sameWork_sym)
    moreover obtain e3 q3 where e3: "?F g zs = (e3, q3)" by fastforce
    ultimately have "sameWork e2 e3" "q3 = Inr ()" using fold_same [OF _ ideal_io(1,2) q(2) e3] by auto
    with g e3 split j(1,4) x(2) show ?thesis
      by (intro exI [of _ j]) (auto simp: reached_def foldS_append sameWork_def)
  qed
qed

text \<open>The checkpoints a worker can hold: the last one of a segment, after any number of attempts that broke off somewhere.\<close>

definition completedOf :: "SupplierArtifactCheckpointState option \<Rightarrow> int" where
  "completedOf c = (case c of None \<Rightarrow> 0 | Some s \<Rightarrow> ck_completedSegments s)"

inductive saved :: "(byte list \<Rightarrow> string) \<Rightarrow> (jsText \<Rightarrow> string) \<Rightarrow> (string \<Rightarrow> string) \<Rightarrow> (string \<Rightarrow> string \<Rightarrow> string) \<Rightarrow> SupplierNodeConfig \<Rightarrow>
    (ArtifactRequest \<Rightarrow> nodeError + ArtifactProviderResult) \<Rightarrow> SupplierArtifactAssignment \<Rightarrow> SupplierArtifactChunk list \<Rightarrow>
    SupplierArtifactCheckpointState option \<Rightarrow> bool"
  for hash sha256Text sha256 hmac config p a chunks where
  none: "saved hash sha256Text sha256 hmac config p a chunks None"
| attempt: "saved hash sha256Text sha256 hmac config p a chunks c \<Longrightarrow> answers io p \<Longrightarrow>
    executeArtifact hash sha256Text sha256 hmac config io t (a\<lparr>as_resume_from_segment := completedOf c\<rparr>) (take m chunks) c =
      ((emitted, requests), outcome) \<Longrightarrow>
    c' \<in> set emitted \<Longrightarrow> int (length (ck_summaries c')) = ck_completedSegments c' \<Longrightarrow>
    saved hash sha256Text sha256 hmac config p a chunks (Some c')"

lemma resume_field [simp]:
  "segmentStep config (a\<lparr>as_resume_from_segment := k\<rparr>) = segmentStep config a"
  "reduceLoop config (a\<lparr>as_resume_from_segment := k\<rparr>) = reduceLoop config a"
  "validateAssignment (a\<lparr>as_resume_from_segment := k\<rparr>) = validateAssignment a"
  "segmentBytesOf config (a\<lparr>as_resume_from_segment := k\<rparr>) = segmentBytesOf config a"
  "totalSegmentsOf seg (a\<lparr>as_resume_from_segment := k\<rparr>) = totalSegmentsOf seg a"
  "artifactResult hash sha256Text sha256 hmac config (a\<lparr>as_resume_from_segment := k\<rparr>) = artifactResult hash sha256Text sha256 hmac config a"
proof -
  let ?a = "a\<lparr>as_resume_from_segment := k\<rparr>"
  have i: "invokeBounded config ?a = invokeBounded config a" "recordResult ?a = recordResult a" "mapPrompt ?a = mapPrompt a"
    "reducePrompt ?a = reducePrompt a"
    by (simp_all add: fun_eq_iff invokeBounded_def recordResult_def mapPrompt_def reducePrompt_def Let_def)
  then have "summarise config ?a = summarise config a"
    by (simp add: fun_eq_iff summarise_def split: prod.splits sum.splits)
  then show "segmentStep config ?a = segmentStep config a"
    by (simp add: fun_eq_iff segmentStep_def Let_def split: option.splits)
  have s: "reduceStep config ?a = reduceStep config a" using i
    by (simp add: fun_eq_iff reduceStep_def split: prod.splits sum.splits)
  have r: "reduceRound config ?a = reduceRound config a" unfolding fun_eq_iff reduceRound_def s by simp
  show "reduceLoop config ?a = reduceLoop config a"
  proof (intro ext)
    fix io seg rnd ex
    show "reduceLoop config ?a io seg rnd ex = reduceLoop config a io seg rnd ex"
    proof (induction "32 - rnd" arbitrary: rnd ex)
      case 0
      then show ?case by (simp add: reduceLoop.simps [of config _ io seg rnd])
    next
      case (Suc n)
      then have "\<not> 32 < rnd + 1" "n = 32 - (rnd + 1)" by simp_all
      with Suc.hyps(1) show ?case
        by (simp add: reduceLoop.simps [of config _ io seg rnd] r split: prod.splits sum.splits)
    qed
  qed
qed (simp_all add: fun_eq_iff validateAssignment_def segmentBytesOf_def totalSegmentsOf_def artifactResult_def Let_def)

lemma mapPhase_resume [simp]: "mapPhase hash config (a\<lparr>as_resume_from_segment := k\<rparr>) = mapPhase hash config a"
proof -
  have f: "as_size_bytes (a\<lparr>as_resume_from_segment := k\<rparr>) = as_size_bytes a" "as_chunks (a\<lparr>as_resume_from_segment := k\<rparr>) = as_chunks a"
    by simp_all
  show ?thesis unfolding fun_eq_iff mapPhase_def resume_field f by simp
qed

lemma mapPhase_cases:
  assumes "mapPhase hash config a io chunks seg ex = (e1, r)"
    "byteSegments hash (nat seg) (as_size_bytes a) (io_ending io) (as_chunks a) [] [] chunks = (segs, ending)"
  shows "\<exists>q. foldS (segmentStep config a io (totalSegmentsOf seg a)) ex segs = (e1, q) \<and> (\<forall>content. r = Inr content \<longrightarrow> q = Inr ())"
  using assms by (auto simp: mapPhase_def split: prod.splits sum.splits if_splits)

end
