(* ===== verification/ArtifactBounds.thy ===== *)
theory ArtifactBounds
  imports ArtifactRun Evidence
begin

text \<open>
  The work of one execution: the provider sees the text of the file once, piece by piece, and the requests,
  the tokens and the checkpoints of any run stay within the limits of the assignment and of the node.
\<close>

section \<open>The text of the file\<close>

lemma decode_split:
  assumes "decodeText d x True = Some (d1, t)"
  shows "decodeText d (x @ y) s = (case decodeText d1 y s of None \<Rightarrow> None | Some (d2, u) \<Rightarrow> Some (d2, t @ u))"
  using assms by (auto simp: decodeText_def decodeBytes_append split: option.splits)

lemma invoke_requests:
  assumes "invokeBounded config a io rid input out_max ex = (e1, Inr r)"
  shows "\<exists>m. ex_requests e1 = ex_requests ex @ [\<lparr>ar_request_id = rid, ar_model = as_model a, ar_input = input,
    ar_data_class = as_data_class a, ar_max_output_tokens = m\<rparr>]"
  using assms by (auto simp: invokeBounded_def Let_def split: if_splits)

lemma emit_fields: "emitCheckpoint io ex = (e1, r) \<Longrightarrow> ex_requests e1 = ex_requests ex \<and> ex_state e1 = ex_state ex \<and>
    ex_segmentIndex e1 = ex_segmentIndex ex \<and> ex_emitted e1 = ex_emitted ex @ [ex_state ex]"
  by (auto simp: emitCheckpoint_def)

text \<open>A request of the segment loop, for the segment with this number and text.\<close>

definition asksFor :: "SupplierArtifactAssignment \<Rightarrow> int \<Rightarrow> nat \<times> jsText \<Rightarrow> ArtifactRequest \<Rightarrow> bool" where
  "asksFor a n x r \<longleftrightarrow> (case x of (i, t) \<Rightarrow> ar_request_id r = as_task_id a @ '':map:'' @ dec_of_nat i \<and>
     ar_input r = mapPrompt a t (int i) n)"

lemma segment_request:
  assumes "segmentStep config a io n ex x = (e1, Inr ())" "ck_completedSegments (ex_state ex) = int (ex_segmentIndex ex)"
  shows "\<exists>t r. decodeText (ex_decoder ex) x (int (ex_segmentIndex ex + 1) < n) = Some (ex_decoder e1, t) \<and>
    ex_segmentIndex e1 = ex_segmentIndex ex + 1 \<and> ck_completedSegments (ex_state e1) = int (ex_segmentIndex e1) \<and>
    ex_requests e1 = ex_requests ex @ [r] \<and> asksFor a n (ex_segmentIndex ex + 1, t) r"
proof -
  from step_fields [OF assms(1)] obtain t where
    t: "decodeText (ex_decoder ex) x (int (ex_segmentIndex ex + 1) < n) = Some (ex_decoder e1, t)"
    "ex_segmentIndex e1 = ex_segmentIndex ex + 1" by blast
  let ?f = "ex\<lparr>ex_segmentIndex := ex_segmentIndex ex + 1, ex_processedBytes := ex_processedBytes ex + int (length x), ex_decoder := ex_decoder e1\<rparr>"
  have "summarise config a io n t ?f = (e1, Inr ())"
    using assms t by (auto simp: segmentStep_def Let_def split: if_splits)
  then obtain g r where g: "invokeBounded config a io (as_task_id a @ '':map:'' @ dec_of_nat (ex_segmentIndex ex + 1))
      (mapPrompt a t (int (ex_segmentIndex ex + 1)) n) (min 512 (as_max_output_tokens a)) ?f = (g, Inr r)"
    "ex_requests e1 = ex_requests g" "ck_completedSegments (ex_state e1) = int (ex_segmentIndex ex + 1)"
    by (auto simp: summarise_def split: prod.splits sum.splits dest!: emit_fields)
  with t show ?thesis using invoke_requests [OF g(1)] by (auto simp: asksFor_def)
qed

lemma fold_requests:
  "foldS (segmentStep config a io n) ex xs = (e1, Inr ()) \<Longrightarrow> ck_completedSegments (ex_state ex) = int (ex_segmentIndex ex) \<Longrightarrow>
   int (ex_segmentIndex ex + length xs) = n \<Longrightarrow> xs \<noteq> [] \<Longrightarrow>
   \<exists>ts rs. ex_requests e1 = ex_requests ex @ rs \<and> length ts = length xs \<and>
     list_all2 (asksFor a n) (enumerate (ex_segmentIndex ex + 1) ts) rs \<and>
     decodeText (ex_decoder ex) (concat xs) False = Some (newDecoder, concat ts)"
proof (induction xs arbitrary: ex)
  case (Cons x xs)
  then obtain f where f: "segmentStep config a io n ex x = (f, Inr ())" "foldS (segmentStep config a io n) f xs = (e1, Inr ())"
    by (auto split: prod.splits sum.splits)
  from segment_request [OF f(1) Cons.prems(2)] obtain t r where
    t: "decodeText (ex_decoder ex) x (int (ex_segmentIndex ex + 1) < n) = Some (ex_decoder f, t)"
    "ex_segmentIndex f = ex_segmentIndex ex + 1" "ck_completedSegments (ex_state f) = int (ex_segmentIndex f)"
    "ex_requests f = ex_requests ex @ [r]" "asksFor a n (ex_segmentIndex ex + 1, t) r" by blast
  show ?case
  proof (cases "xs = []")
    case True
    then have "decodeText (ex_decoder ex) x False = Some (ex_decoder f, t)" using t(1) Cons.prems(3) by simp
    moreover then have "ex_decoder f = newDecoder" by (auto simp: decodeText_def split: option.splits if_splits)
    ultimately show ?thesis using True t f by (intro exI [of _ "[t]"] exI [of _ "[r]"]) simp
  next
    case False
    then have "decodeText (ex_decoder ex) x True = Some (ex_decoder f, t)" using t(1) Cons.prems(3) by (cases xs) auto
    note d = decode_split [OF this]
    from Cons.IH [OF f(2) t(3) _ False] t(2) Cons.prems(3) obtain ts rs where
      "ex_requests e1 = ex_requests f @ rs" "length ts = length xs" "list_all2 (asksFor a n) (enumerate (ex_segmentIndex f + 1) ts) rs"
      "decodeText (ex_decoder f) (concat xs) False = Some (newDecoder, concat ts)" by auto
    with t d show ?thesis by (intro exI [of _ "t # ts"] exI [of _ "r # rs"]) simp
  qed
qed simp

text \<open>
  C18: A file task that starts afresh and passes its segment loop has shown the whole file to the provider,
  once and in order: its requests are one per segment, with the identifiers \<open>map:1\<close> to \<open>map:n\<close>, the
  segments are the pieces of the chunks that match the descriptors, and the texts in the prompts put
  together are the UTF-8 decoding of the content, whatever the boundaries between the pieces cut.
\<close>

theorem provider_sees_file_once:
  assumes "mapPhase hash config a io chunks seg (startOf (freshState a (totalSegmentsOf seg a))) = (e1, Inr content)" "0 < seg"
    "0 < as_size_bytes a"
  shows "matching hash (as_chunks a) chunks \<and> content = concat (map snd chunks) \<and> int (length content) = as_size_bytes a \<and>
    (\<exists>texts. int (length texts) = totalSegmentsOf seg a \<and>
       list_all2 (asksFor a (totalSegmentsOf seg a)) (enumerate 1 texts) (ex_requests e1) \<and>
       decodeText newDecoder content False = Some (newDecoder, concat texts))"
proof -
  let ?n = "totalSegmentsOf seg a"
  obtain segs ending where b: "byteSegments hash (nat seg) (as_size_bytes a) (io_ending io) (as_chunks a) [] [] chunks = (segs, ending)"
    by fastforce
  from assms(1) b have m: "ending = Inr content" "foldS (segmentStep config a io ?n) (startOf (freshState a ?n)) segs = (e1, Inr ())"
    "int (ex_segmentIndex e1) = ?n"
    by (auto simp: mapPhase_def split: prod.splits sum.splits if_splits)
  from byteSegments_Inr [OF b [unfolded m(1)]] have c: "matching hash (as_chunks a) chunks" "content = concat (map snd chunks)"
    "int (length content) = as_size_bytes a" "io_ending io = None" by auto
  have n: "0 < nat seg" using assms(2) by simp
  have "int (length ([] @ concat (map snd chunks))) = as_size_bytes a" using c(2,3) by (metis append_Nil)
  from byteSegments_complete [OF n c(1) this, of "[]"] b c(2,4) n have "segs = chop (nat seg) content" by simp
  then have segs: "concat segs = content" using concat_chop [OF n] by simp
  moreover have "content \<noteq> []" using c(3) assms(3) by auto
  ultimately have "segs \<noteq> []" by auto
  moreover have "int (length segs) = ?n" using fold_index [OF m(2)] m(3) by simp
  ultimately obtain ts where "length ts = length segs" "list_all2 (asksFor a ?n) (enumerate 1 ts) (ex_requests e1)"
    "decodeText newDecoder content False = Some (newDecoder, concat ts)"
    using fold_requests [OF m(2)] segs by (auto simp: freshState_def)
  with c \<open>int (length segs) = ?n\<close> show ?thesis by (intro conjI exI [of _ ts]) auto
qed

section \<open>Limits\<close>

definition withinLimits :: "SupplierNodeConfig \<Rightarrow> SupplierArtifactAssignment \<Rightarrow> ArtifactRequest \<Rightarrow> bool" where
  "withinLimits config a r \<longleftrightarrow> ar_model r = as_model a \<and> ar_data_class r = as_data_class a \<and> 1 \<le> ar_max_output_tokens r \<and>
     ar_max_output_tokens r \<le> as_max_output_tokens a \<and> ar_max_output_tokens r \<le> nc_maxOutputTokens config \<and>
     int (utf8Length (ar_input r)) \<le> nc_maxInputBytes config"

text \<open>
  The requests and the checkpoints of a run so far, and the tokens it has used. The bound on the tokens is the
  budget of the task, or what the run started with when that was more.
\<close>

definition decent :: "int \<Rightarrow> SupplierNodeConfig \<Rightarrow> SupplierArtifactAssignment \<Rightarrow> ArtifactExecution \<Rightarrow> bool" where
  "decent used config a ex \<longleftrightarrow> (\<forall>r \<in> set (ex_requests ex). withinLimits config a r) \<and>
     (\<forall>c \<in> set (ex_emitted ex). total_tokens (ck_usage c) \<le> max used (as_max_total_tokens a))"

definition inBudget :: "int \<Rightarrow> SupplierArtifactAssignment \<Rightarrow> ArtifactExecution \<Rightarrow> bool" where
  "inBudget used a ex \<longleftrightarrow> total_tokens (ck_usage (ex_state ex)) \<le> max used (as_max_total_tokens a)"

lemma invoke_decent:
  assumes "invokeBounded config a io rid input out_max ex = (e1, r)" "decent used config a ex" "1 \<le> out_max" "out_max \<le> as_max_output_tokens a"
    "1 \<le> nc_maxOutputTokens config"
  shows "decent used config a e1 \<and> ex_state e1 = ex_state ex \<and> ex_segmentIndex e1 = ex_segmentIndex ex \<and> length (ex_requests e1) \<le> Suc (length (ex_requests ex))"
  using assms by (auto simp: invokeBounded_def Let_def decent_def withinLimits_def split: if_splits)

lemma recordResult_budget:
  "recordResult a r s = (s', Inr ()) \<Longrightarrow> total_tokens (ck_usage s') \<le> as_max_total_tokens a"
  by (auto simp: recordResult_def addUsage_def Let_def throwIf_def split: prod.splits if_splits)

lemma emit_decent:
  assumes "emitCheckpoint io ex = (e1, r)" "decent used config a ex" "inBudget used a ex"
  shows "decent used config a e1 \<and> inBudget used a e1"
  using assms by (auto simp: emitCheckpoint_def decent_def inBudget_def)

lemma segment_decent:
  assumes "segmentStep config a io n ex x = (e1, r)" "decent used config a ex" "inBudget used a ex" "1 \<le> as_max_output_tokens a"
    "1 \<le> nc_maxOutputTokens config"
  shows "decent used config a e1 \<and> (r = Inr () \<longrightarrow> inBudget used a e1) \<and> length (ex_requests e1) \<le> Suc (length (ex_requests ex)) \<and>
    length (ck_summaries (ex_state e1)) \<le> Suc (length (ck_summaries (ex_state ex)))"
proof -
  have k: "decent used config a (ex\<lparr>ex_segmentIndex := i, ex_processedBytes := b, ex_decoder := d\<rparr>) \<and>
      inBudget used a (ex\<lparr>ex_segmentIndex := i, ex_processedBytes := b, ex_decoder := d\<rparr>)" for i b d
    using assms(2,3) by (simp add: decent_def inBudget_def)
  have "decent used config a e1 \<and> (r = Inr () \<longrightarrow> inBudget used a e1) \<and> length (ex_requests e1) \<le> Suc (length (ex_requests f)) \<and>
      length (ck_summaries (ex_state e1)) \<le> Suc (length (ck_summaries (ex_state f)))"
    if s: "summarise config a io n t f = (e1, r)" and f: "decent used config a f" "inBudget used a f" for t f
  proof -
    obtain g q where g: "invokeBounded config a io (as_task_id a @ '':map:'' @ dec_of_nat (ex_segmentIndex f))
      (mapPrompt a t (int (ex_segmentIndex f)) n) (min 512 (as_max_output_tokens a)) f = (g, q)" by fastforce
    have d: "decent used config a g \<and> ex_state g = ex_state f \<and> ex_segmentIndex g = ex_segmentIndex f \<and>
        length (ex_requests g) \<le> Suc (length (ex_requests f))"
      using invoke_decent [OF g f(1) _ _ assms(5)] assms(4) by simp
    show ?thesis
    proof (cases q)
      case (Inl e)
      with s g d f show ?thesis by (auto simp: summarise_def inBudget_def)
    next
      case (Inr x)
      obtain st res where rec: "recordResult a x ((ex_state g)\<lparr>ck_summaries := ck_summaries (ex_state g) @ [the (ap_output x)]\<rparr>) = (st, res)" by fastforce
      note fields = recordResult_fields [OF rec]
      show ?thesis
      proof (cases res)
        case (Inl e)
        with s g d f Inr rec fields show ?thesis by (auto simp: summarise_def decent_def)
      next
        case res: (Inr u)
        let ?e = "g\<lparr>ex_state := st\<lparr>ck_completedSegments := int (ex_segmentIndex f), ck_processedBytes := ex_processedBytes f\<rparr>\<rparr>"
        have e: "emitCheckpoint io ?e = (e1, r)" using s g Inr rec res by (simp add: summarise_def)
        have "inBudget used a ?e" "decent used config a ?e" using recordResult_budget [of a x _ st] rec res d by (simp_all add: inBudget_def decent_def le_max_iff_disj)
        with emit_decent [OF e] emit_fields [OF e] d fields show ?thesis by simp
      qed
    qed
  qed
  note sum_ok = this
  show ?thesis
  proof (cases "decodeText (ex_decoder ex) x (int (ex_segmentIndex ex + 1) < n)")
    case None
    with assms show ?thesis by (auto simp: segmentStep_def Let_def split: if_splits)
  next
    case (Some dt)
    obtain d t where "dt = (d, t)" by fastforce
    with Some assms(1-3) k sum_ok [of t "ex\<lparr>ex_segmentIndex := ex_segmentIndex ex + 1,
        ex_processedBytes := ex_processedBytes ex + int (length x), ex_decoder := d\<rparr>"] show ?thesis
      by (auto simp: segmentStep_def Let_def split: if_splits)
  qed
qed

lemma segments_decent:
  "foldS (segmentStep config a io n) ex xs = (e1, r) \<Longrightarrow> decent used config a ex \<Longrightarrow> inBudget used a ex \<Longrightarrow> 1 \<le> as_max_output_tokens a \<Longrightarrow>
   1 \<le> nc_maxOutputTokens config \<Longrightarrow> decent used config a e1 \<and> (r = Inr () \<longrightarrow> inBudget used a e1) \<and>
   length (ex_requests e1) \<le> length (ex_requests ex) + length xs \<and>
   length (ck_summaries (ex_state e1)) \<le> length (ck_summaries (ex_state ex)) + length xs"
proof (induction xs arbitrary: ex)
  case (Cons x xs)
  obtain f q where f: "segmentStep config a io n ex x = (f, q)" by fastforce
  note d = segment_decent [OF f Cons.prems(2-5)]
  show ?case
  proof (cases q)
    case (Inl e)
    with Cons.prems(1) f d show ?thesis by auto
  next
    case (Inr u)
    with Cons.prems f d Cons.IH [of f] show ?thesis by auto
  qed
qed simp

lemma reduceStep_decent:
  assumes "reduceStep config a io rnd n (ex, red) g = ((e1, red1), r)" "decent used config a ex" "inBudget used a ex" "1 \<le> as_max_output_tokens a"
    "1 \<le> nc_maxOutputTokens config"
  shows "decent used config a e1 \<and> (r = Inr () \<longrightarrow> inBudget used a e1) \<and> length (ex_requests e1) \<le> Suc (length (ex_requests ex))"
proof -
  obtain index grp where ig: "g = (index, grp)" by fastforce
  obtain f q where f: "invokeBounded config a io (as_task_id a @ '':reduce:'' @ dec_of_nat rnd @ '':'' @ dec_of_nat (index + 1))
      (reducePrompt a grp rnd (index + 1) n) (as_max_output_tokens a) ex = (f, q)" by fastforce
  note d = invoke_decent [OF f assms(2,4) order_refl assms(5)]
  show ?thesis
  proof (cases q)
    case (Inl e)
    with assms f d ig show ?thesis by (auto simp: reduceStep_def inBudget_def)
  next
    case (Inr x)
    obtain st res where rec: "recordResult a x (ex_state f) = (st, res)" by fastforce
    with assms(1) f d ig Inr recordResult_budget [of a x "ex_state f" st] show ?thesis
      by (auto simp: reduceStep_def inBudget_def decent_def)
  qed
qed

lemma reduceFold_decent:
  "foldS (reduceStep config a io rnd n) (ex, red) gs = ((e1, red1), r) \<Longrightarrow> decent used config a ex \<Longrightarrow> inBudget used a ex \<Longrightarrow>
   1 \<le> as_max_output_tokens a \<Longrightarrow> 1 \<le> nc_maxOutputTokens config \<Longrightarrow>
   decent used config a e1 \<and> (r = Inr () \<longrightarrow> inBudget used a e1) \<and> length (ex_requests e1) \<le> length (ex_requests ex) + length gs"
proof (induction gs arbitrary: ex red)
  case (Cons g gs)
  obtain f x q where f: "reduceStep config a io rnd n (ex, red) g = ((f, x), q)" by (metis prod.collapse)
  note d = reduceStep_decent [OF f Cons.prems(2-5)]
  show ?case
  proof (cases q)
    case (Inl e)
    with Cons.prems(1) f d show ?thesis by auto
  next
    case (Inr u)
    with Cons.prems f d Cons.IH [of f x] show ?thesis by auto
  qed
qed simp

lemma reduceRound_decent:
  assumes "reduceRound config a io seg rnd ex = (e1, r)" "decent used config a ex" "inBudget used a ex" "1 \<le> as_max_output_tokens a"
    "1 \<le> nc_maxOutputTokens config" "1 < length (ck_summaries (ex_state ex))"
  shows "decent used config a e1 \<and> (r = Inr () \<longrightarrow> inBudget used a e1) \<and>
    length (ex_requests e1) \<le> length (ex_requests ex) + length (ck_summaries (ex_state ex))"
proof (cases "groupSummaries (ck_summaries (ex_state ex)) (int seg)")
  case (Inl e)
  with assms show ?thesis by (auto simp: reduceRound_def)
next
  case (Inr gs)
  obtain f x q where f: "foldS (reduceStep config a io rnd (length gs)) (ex, []) (enumerate 0 gs) = ((f, x), q)" by (metis prod.collapse)
  note d = reduceFold_decent [OF f assms(2-5)] and l = groupSummaries_length [OF Inr assms(6)]
  show ?thesis
  proof (cases q)
    case (Inl e)
    with assms(1) Inr f d l show ?thesis by (auto simp: reduceRound_def)
  next
    case q: (Inr u)
    have e: "emitCheckpoint io (f\<lparr>ex_state := (ex_state f)\<lparr>ck_summaries := x\<rparr>\<rparr>) = (e1, r)"
      using assms(1) Inr f q by (simp add: reduceRound_def)
    from emit_decent [OF e, of used config a] emit_fields [OF e] d l q show ?thesis by (auto simp: decent_def inBudget_def)
  qed
qed

lemma reduceLoop_decent:
  "reduceLoop config a io seg rnd ex = (e1, r) \<Longrightarrow> decent used config a ex \<Longrightarrow> inBudget used a ex \<Longrightarrow> 1 \<le> as_max_output_tokens a \<Longrightarrow>
   1 \<le> nc_maxOutputTokens config \<Longrightarrow> decent used config a e1 \<and> (r = Inr () \<longrightarrow> inBudget used a e1) \<and>
   length (ex_requests e1) \<le> length (ex_requests ex) + (32 - rnd) * length (ck_summaries (ex_state ex))"
proof (induction "32 - rnd" arbitrary: rnd ex)
  case 0
  then show ?case by (auto simp: reduceLoop.simps [of config a io seg rnd] split: if_splits)
next
  case (Suc k)
  show ?case
  proof (cases "length (ck_summaries (ex_state ex)) > 1")
    case True
    obtain f q where f: "reduceRound config a io seg (rnd + 1) ex = (f, q)" by fastforce
    have k: "\<not> 32 < rnd + 1" "k = 32 - (rnd + 1)" "32 - rnd = Suc k" using Suc.hyps(2) by simp_all
    note d = reduceRound_decent [OF f Suc.prems(2-5) True] and t = reduceRound_fields [OF f True]
    show ?thesis
    proof (cases q)
      case (Inl e)
      with Suc.prems(1) True f k d show ?thesis by (auto simp: reduceLoop.simps [of config a io seg rnd])
    next
      case (Inr u)
      with Suc.prems(1) True f k have "reduceLoop config a io seg (rnd + 1) f = (e1, r)" by (simp add: reduceLoop.simps [of config a io seg rnd])
      from Suc.hyps(1) [OF k(2) this _ _ Suc.prems(4,5)] d Inr
      have i: "decent used config a e1 \<and> (r = Inr () \<longrightarrow> inBudget used a e1)"
        "length (ex_requests e1) \<le> length (ex_requests f) + k * length (ck_summaries (ex_state f))" using k(2) by simp_all
      have "k * length (ck_summaries (ex_state f)) \<le> k * length (ck_summaries (ex_state ex))" using t Inr by simp
      then have "length (ex_requests e1) \<le> length (ex_requests ex) + (length (ck_summaries (ex_state ex)) + k * length (ck_summaries (ex_state ex)))"
        using i(2) d by linarith
      with i(1) k(3) show ?thesis by simp
    qed
  next
    case False
    with Suc.prems show ?thesis by (simp add: reduceLoop.simps [of config a io seg rnd])
  qed
qed

text \<open>The number of segments, for chunks that follow descriptors whose sizes add up to the declared one.\<close>

lemma cutSegments_count: "0 < n \<Longrightarrow> cutSegments n bs = (segs, rest) \<Longrightarrow> length segs * n + length rest = length bs"
proof (induction n bs arbitrary: segs rest rule: cutSegments.induct)
  case (1 n bs)
  show ?case
  proof (cases "n \<le> length bs")
    case True
    then obtain segs' where "cutSegments n (drop n bs) = (segs', rest)" "segs = take n bs # segs'"
      using "1.prems" by (auto simp: cutSegments.simps [of n bs] split: prod.splits)
    with 1 True show ?thesis by fastforce
  next
    case False
    with "1.prems" show ?thesis by (simp add: cutSegments.simps [of n bs])
  qed
qed

lemma byteSegments_count:
  "0 < n \<Longrightarrow> byteSegments hash n size_bytes ending ds pending content cs = (segs, r) \<Longrightarrow> \<forall>d \<in> set ds. 0 \<le> chunk_sizeBytes d \<Longrightarrow>
   int (length segs * n) \<le> int (length pending) + (\<Sum>d \<leftarrow> ds. chunk_sizeBytes d) + int n - 1"
proof (induction cs arbitrary: ds pending content segs r)
  case Nil
  have "0 \<le> (\<Sum>d \<leftarrow> ds. chunk_sizeBytes d)" using Nil.prems(3) by (intro sum_list_nonneg) auto
  then show ?case using Nil.prems by (cases pending) (auto split: option.splits if_splits)
next
  case (Cons c cs)
  obtain part bytes where c: "c = (part, bytes)" by fastforce
  have nn: "0 \<le> (\<Sum>d \<leftarrow> ds. chunk_sizeBytes d)" using Cons.prems(3) by (intro sum_list_nonneg) auto
  show ?case
  proof (cases ds)
    case Nil
    with Cons.prems show ?thesis by simp
  next
    case (Cons d ds')
    show ?thesis
    proof (cases "part = chunk_partNumber d \<and> int (length bytes) = chunk_sizeBytes d \<and> hash bytes = chunk_sha256 d")
      case False
      with Cons.prems nn c Cons show ?thesis by (auto split: if_splits)
    next
      case True
      obtain s rest where cut: "cutSegments n (pending @ bytes) = (s, rest)" by fastforce
      obtain ss q where b: "byteSegments hash n size_bytes ending ds' rest (content @ bytes) cs = (ss, q)" by fastforce
      have "segs = s @ ss" using Cons.prems(2) True c Cons cut b by simp
      moreover have "int (length ss * n) \<le> int (length rest) + (\<Sum>d \<leftarrow> ds'. chunk_sizeBytes d) + int n - 1"
        using Cons.IH [OF Cons.prems(1) b] Cons.prems(3) Cons by simp
      moreover have "int (length s * n) + int (length rest) = int (length pending) + int (length bytes)"
        using arg_cong [OF cutSegments_count [OF Cons.prems(1) cut], of int] by simp
      ultimately show ?thesis using Cons True by (simp add: distrib_right)
    qed
  qed
qed

lemma declaredBytes_sum:
  "declaredBytes acc i ds = Inr x \<Longrightarrow> 0 \<le> acc \<Longrightarrow> x \<le> MAX_SAFE_INTEGER \<Longrightarrow>
   x = acc + (\<Sum>d \<leftarrow> ds. chunk_sizeBytes d) \<and> (\<forall>d \<in> set ds. 0 \<le> chunk_sizeBytes d)"
proof (induction acc i ds rule: declaredBytes.induct)
  case (2 acc index c cs)
  then have c: "1 \<le> chunk_sizeBytes c" "declaredBytes (dbl (acc + chunk_sizeBytes c)) (index + 1) cs = Inr x" by (auto split: if_splits)
  show ?case
  proof (cases "acc + chunk_sizeBytes c \<le> MAX_SAFE_INTEGER")
    case True
    then have "dbl (acc + chunk_sizeBytes c) = acc + chunk_sizeBytes c" using c(1) "2.prems"(2) by (intro dbl_exact) simp
    with 2 c show ?thesis by (auto split: if_splits)
  next
    case False
    then have big: "MAX_SAFE_INTEGER < dbl (acc + chunk_sizeBytes c)" by (intro dbl_unsafe) simp
    then have "0 \<le> dbl (acc + chunk_sizeBytes c)" by (simp add: MAX_SAFE_INTEGER_def)
    with 2 c have "x = dbl (acc + chunk_sizeBytes c) + (\<Sum>d \<leftarrow> cs. chunk_sizeBytes d) \<and> (\<forall>d \<in> set cs. 0 \<le> chunk_sizeBytes d)" 
      by (auto split: if_splits)
    moreover then have "0 \<le> (\<Sum>d \<leftarrow> cs. chunk_sizeBytes d)" by (intro sum_list_nonneg) auto
    ultimately show ?thesis using big "2.prems"(3) by simp
  qed
qed simp

text \<open>The tokens of the checkpoint that a run resumes with; a run from the first segment has none.\<close>

definition resumedTokens :: "SupplierArtifactAssignment \<Rightarrow> SupplierArtifactCheckpointState option \<Rightarrow> int" where
  "resumedTokens a checkpoint = (case checkpoint of
     None \<Rightarrow> 0 | Some c \<Rightarrow> if as_resume_from_segment a = 0 then 0 else total_tokens (ck_usage c))"

text \<open>
  C19: The work of a file task is bounded, whatever the provider answers, the chunks contain and the checkpoint
  it resumes from holds: a run issues at most 33 requests for every segment of the file and every summary it
  resumes with; every request names the model and data class of the assignment and keeps its output limit,
  the output limit of the node and the input limit of the node; and no checkpoint and no result reports more
  tokens than the budget of the task, or than the checkpoint the run resumes from when that one already
  reports more than the budget, which the node does not check.
\<close>

theorem artifact_work_bounded:
  assumes "executeArtifact hash sha256Text sha256 hmac config io t a chunks checkpoint = ((emitted, requests), outcome)"
    and "nc_maxArtifactBytes config \<le> MAX_SAFE_INTEGER"
  shows "(\<forall>r \<in> set requests. withinLimits config a r) \<and>
    (\<forall>c \<in> set emitted. total_tokens (ck_usage c) \<le> max (resumedTokens a checkpoint) (as_max_total_tokens a)) \<and>
    (case outcome of Inl e \<Rightarrow> True | Inr x \<Rightarrow> total_tokens (xr_usage x) \<le> max (resumedTokens a checkpoint) (as_max_total_tokens a)) \<and>
    int (length requests) \<le> 33 * (max 0 (totalSegmentsOf (segmentBytesOf config a) a) +
      (case checkpoint of None \<Rightarrow> 0 | Some c \<Rightarrow> int (length (ck_summaries c))))"
proof -
  let ?seg = "segmentBytesOf config a"
  let ?n = "totalSegmentsOf ?seg a"
  show ?thesis
  proof (cases "\<exists>s. validateAssignment a config = Inr () \<and> 16384 \<le> ?seg \<and> initialState a checkpoint ?n = Inr s")
    case False
    then have "requests = [] \<and> emitted = [] \<and> (\<exists>e. outcome = Inl e)"
      using assms(1) by (auto simp: executeArtifact_def Let_def split: sum.splits if_splits)
    then show ?thesis by (auto split: option.splits)
  next
    case True
    then obtain s where v: "validateAssignment a config = Inr ()" "16384 \<le> ?seg" "initialState a checkpoint ?n = Inr s" by blast
    then have lim: "1 \<le> as_max_output_tokens a" "1 \<le> nc_maxOutputTokens config" "as_max_output_tokens a \<le> as_max_total_tokens a"
      "as_size_bytes a \<le> MAX_SAFE_INTEGER" "declaredBytes 0 0 (as_chunks a) = Inr (as_size_bytes a)" "1 \<le> as_size_bytes a"
      using assms(2) by (auto simp: validateAssignment_def throwIf_def andThen_def split: if_splits sum.splits)
    let ?used = "resumedTokens a checkpoint"
    have start: "decent ?used config a (startOf s)" "inBudget ?used a (startOf s)"
      "int (length (ck_summaries s)) \<le> (case checkpoint of None \<Rightarrow> 0 | Some c \<Rightarrow> int (length (ck_summaries c)))"
      using v(3) lim by (auto simp: decent_def inBudget_def resumedTokens_def initialState_def Let_def emptyUsage_def split: option.splits if_splits)
    obtain segs ending where b: "byteSegments hash (nat ?seg) (as_size_bytes a) (io_ending io) (as_chunks a) [] [] chunks = (segs, ending)"
      by fastforce
    obtain e1 r where m: "mapPhase hash config a io chunks ?seg (startOf s) = (e1, r)" by fastforce
    from mapPhase_cases [OF m b] obtain q where
      f: "foldS (segmentStep config a io ?n) (startOf s) segs = (e1, q)" "\<And>content. r = Inr content \<Longrightarrow> q = Inr ()" by blast
    note d = segments_decent [OF f(1) start(1,2) lim(1,2)]
    have "int (length segs) \<le> ?n"
    proof -
      from byteSegments_count [OF _ b] declaredBytes_sum [OF lim(5) _ lim(4)] v(2)
      have "int (length segs) * ?seg \<le> as_size_bytes a + ?seg - 1" by simp
      then have "int (length segs) * ?seg div ?seg \<le> (as_size_bytes a + ?seg - 1) div ?seg" using v(2) by (intro zdiv_mono1) simp_all
      then show ?thesis using v(2) by (simp add: totalSegmentsOf_def)
    qed
    with d start(3) have c1: "int (length (ex_requests e1)) \<le> ?n" "int (length (ck_summaries (ex_state e1))) \<le> ?n +
        (case checkpoint of None \<Rightarrow> 0 | Some c \<Rightarrow> int (length (ck_summaries c)))" "0 \<le> ?n" by simp_all
    show ?thesis
    proof (cases r)
      case (Inl e)
      with assms(1) v m have "emitted = ex_emitted e1" "requests = ex_requests e1" "outcome = Inl e"
        by (simp_all add: executeArtifact_def Let_def)
      with d c1 show ?thesis by (auto simp: decent_def split: option.splits)
    next
      case (Inr content)
      obtain e2 p where l: "reduceLoop config a io (nat ?seg) 0 e1 = (e2, p)" by fastforce
      note z = reduceLoop_decent [OF l _ _ lim(1,2)]
      have o: "emitted = ex_emitted e2" "requests = ex_requests e2"
        "outcome = (case p of Inl e \<Rightarrow> Inl e | Inr v \<Rightarrow> artifactResult hash sha256Text sha256 hmac config a ?n content t (ex_state e2))"
        using assms(1) v m Inr l by (cases p; simp add: executeArtifact_def Let_def)+
      have u: "case outcome of Inl e \<Rightarrow> True | Inr x \<Rightarrow> p = Inr () \<and> xr_usage x = ck_usage (ex_state e2)"
        unfolding o(3) by (cases p) (auto simp: artifactResult_def Let_def)
      have z': "decent ?used config a e2" "p = Inr () \<Longrightarrow> inBudget ?used a e2"
        "length (ex_requests e2) \<le> length (ex_requests e1) + 32 * length (ck_summaries (ex_state e1))"
        using z [of ?used] d f(2) [OF Inr] by simp_all
      show ?thesis
      proof (intro conjI)
        show "case outcome of Inl e \<Rightarrow> True | Inr x \<Rightarrow> total_tokens (xr_usage x) \<le> max ?used (as_max_total_tokens a)"
          using u z'(2) by (auto simp: inBudget_def split: sum.splits)
        have "int (length (ex_requests e2)) \<le> int (length (ex_requests e1)) + 32 * int (length (ck_summaries (ex_state e1)))"
          using z'(3) by linarith
        then show "int (length requests) \<le> 33 * (max 0 ?n + (case checkpoint of None \<Rightarrow> 0 | Some c \<Rightarrow> int (length (ck_summaries c))))"
          using c1 o(2) by (cases checkpoint) simp_all
      qed (use z'(1) o(1,2) in \<open>simp_all add: decent_def\<close>)
    qed
  qed
qed

end
