(* ===== verification/CheckpointSafety.thy ===== *)
theory CheckpointSafety
  imports CheckpointStore
begin

text \<open>
  What the checkpoint store guarantees: a checkpoint that was written is read back with the token and the task
  it was written for, until the end of a life time that rewriting does not extend; the cleanup never removes
  a current checkpoint.
\<close>

section \<open>The texts of envelopes\<close>

text \<open>
  What the store relies on, for the checkpoints of a set: what was sealed can be opened, the cipher texts are
  base64 with a tag of 16 bytes, and \<open>Date.parse\<close> reads what \<open>toISOString\<close> prints.
\<close>

definition goodCipher :: "CheckpointCipher \<Rightarrow> SupplierArtifactCheckpointState set \<Rightarrow> bool" where
  "goodCipher cc C \<longleftrightarrow> (\<forall>k iv aad. \<forall>c \<in> C. cc_unseal cc k iv aad (cc_seal cc k iv aad c) = Some c) \<and>
     (\<forall>k iv aad c. isBase64 (fst (cc_seal cc k iv aad c)) \<and> isBase64 (snd (cc_seal cc k iv aad c)) \<and>
        base64Bytes (snd (cc_seal cc k iv aad c)) = 16) \<and>
     (\<forall>t. 0 \<le> t \<longrightarrow> cc_parse cc (cc_iso cc t) = Some t)"

definition goodIv :: "string \<Rightarrow> bool" where
  "goodIv iv \<longleftrightarrow> isBase64 iv \<and> base64Bytes iv = 12"

definition wfEnvelope :: "EncryptedCheckpoint \<Rightarrow> bool" where
  "wfEnvelope e \<longleftrightarrow> isBase64 (ec_iv e) \<and> isBase64 (ec_authTag e) \<and> isBase64 (ec_ciphertext e) \<and> base64Bytes (ec_iv e) = 12 \<and>
     base64Bytes (ec_authTag e) = 16"

lemma envelope_parse: "wfEnvelope e \<Longrightarrow> jsonParse (envelopeText e) = Some v \<Longrightarrow> parseEnvelope v = Some e"
  and envelope_json: "\<exists>v. jsonParse (envelopeText e) = Some v"
proof -
  let ?kvs = "[(''version'', JsStr CHECKPOINT_ENVELOPE_VERSION), (''cipher'', JsStr ''aes-256-gcm''),
     (''createdAt'', JsStr (ec_createdAt e)), (''expiresAt'', JsStr (ec_expiresAt e)), (''iv'', JsStr (ec_iv e)),
     (''authTag'', JsStr (ec_authTag e)), (''ciphertext'', JsStr (ec_ciphertext e))]"
  let ?t = "jsonObject [(''version'', jsonQuote CHECKPOINT_ENVELOPE_VERSION), (''cipher'', jsonQuote ''aes-256-gcm''),
     (''createdAt'', jsonQuote (ec_createdAt e)), (''expiresAt'', jsonQuote (ec_expiresAt e)), (''iv'', jsonQuote (ec_iv e)),
     (''authTag'', jsonQuote (ec_authTag e)), (''ciphertext'', jsonQuote (ec_ciphertext e))]"
  have "encodes ?t (JsObj ?kvs)" by (rule encodes_object) (simp_all add: encodes_quote)
  moreover have "ends NL" by (simp add: ends_def NL_def is_digit_def)
  ultimately have "jvalue (2 * length (?t @ NL) + 2) (?t @ NL) = Some (JsObj ?kvs, NL)" by (rule encodes_value) simp
  then have p: "jsonParse (envelopeText e) = Some (JsObj ?kvs)"
    by (simp add: jsonParse_def envelopeText_def NL_def skipWs_def is_json_space_def)
  then show "\<exists>v. jsonParse (envelopeText e) = Some v" by blast
  show "wfEnvelope e \<Longrightarrow> jsonParse (envelopeText e) = Some v \<Longrightarrow> parseEnvelope v = Some e"
    unfolding p by (auto simp: parseEnvelope_def strField_def wfEnvelope_def)
qed

lemma seal_wf: "goodCipher cc C \<Longrightarrow> goodIv iv \<Longrightarrow> wfEnvelope (sealEnvelope cc k t iv c a b)"
  by (simp add: sealEnvelope_def wfEnvelope_def goodCipher_def goodIv_def Let_def)

lemma seal_fields [simp]: "ec_createdAt (sealEnvelope cc k t iv c a b) = a" "ec_expiresAt (sealEnvelope cc k t iv c a b) = b"
  by (simp_all add: sealEnvelope_def Let_def)

lemma open_seal: "goodCipher cc C \<Longrightarrow> c \<in> C \<Longrightarrow> openEnvelope cc k t (sealEnvelope cc k t iv c a b) = Some c"
  by (simp add: openEnvelope_def sealEnvelope_def goodCipher_def checkpointAdditionalData_def Let_def)

section \<open>Files\<close>

declare map_of_mapSet [simp]

lemma map_of_putFile [simp]: "map_of (cs_files (putFile f c s)) g = (if g = f then Some c else map_of (cs_files s) g)"
  by (simp add: putFile_def)

lemma map_of_removeFile [simp]: "map_of (cs_files (removeFile f s)) g = (if g = f then None else map_of (cs_files s) g)"
proof -
  have "map_of (filter (\<lambda>e. fst e \<noteq> f) xs) g = (if g = f then None else map_of xs g)" for xs :: "(string \<times> string) list"
    by (induction xs) auto
  then show ?thesis by (simp add: removeFile_def)
qed

lemma checkpointFile_Inr: "checkpointFile taskId = Inr f \<longleftrightarrow> jobIdPattern taskId \<and> f = taskId @ CHECKPOINT_SUFFIX"
  by (auto simp: checkpointFile_def)

text \<open>An envelope on disk that the store wrote.\<close>

lemma readEnvelope_text:
  assumes "map_of (cs_files s) f = Some (envelopeText e)" "wfEnvelope e" "currentEnvelope cc now e" "st_readable io f"
    "byteLength (envelopeText e) \<le> MAX_CHECKPOINT_FILE_BYTES"
  shows "readEnvelope cc io f now s = Inr e"
proof -
  obtain v where v: "jsonParse (envelopeText e) = Some v" using envelope_json by blast
  have "byteLength (envelopeText e) \<noteq> 0" by (simp add: envelopeText_def jsonObject_def byteLength_def)
  with assms v envelope_parse [OF assms(2) v] show ?thesis by (simp add: readEnvelope_def)
qed

section \<open>Writes\<close>

text \<open>The file of a task holds this checkpoint, under a life time that began at a time.\<close>

definition holds :: "CheckpointCipher \<Rightarrow> string \<Rightarrow> string \<Rightarrow> int \<Rightarrow> SupplierArtifactCheckpointState \<Rightarrow> CheckpointStore \<Rightarrow> bool" where
  "holds cc token taskId start c s \<longleftrightarrow> (\<exists>iv. goodIv iv \<and>
     (let e = sealEnvelope cc token taskId iv c (cc_iso cc start) (cc_iso cc (start + cs_ttlMilliseconds s)) in
       map_of (cs_files s) (taskId @ CHECKPOINT_SUFFIX) = Some (envelopeText e) \<and> byteLength (envelopeText e) \<le> MAX_CHECKPOINT_FILE_BYTES))"

text \<open>A store with a valid life time, and a checkpoint whose envelope stays within the limit of a file.\<close>

definition validTtl :: "CheckpointStore \<Rightarrow> bool" where
  "validTtl s \<longleftrightarrow> 1 \<le> cs_ttlMilliseconds s \<and> cs_ttlMilliseconds s \<le> MAX_CHECKPOINT_TTL_MILLISECONDS"

definition fits :: "CheckpointCipher \<Rightarrow> string \<Rightarrow> string \<Rightarrow> SupplierArtifactCheckpointState \<Rightarrow> string \<Rightarrow> int \<Rightarrow> int \<Rightarrow> bool" where
  "fits cc token taskId c iv start ttl \<longleftrightarrow>
     byteLength (envelopeText (sealEnvelope cc token taskId iv c (cc_iso cc start) (cc_iso cc (start + ttl)))) \<le> MAX_CHECKPOINT_FILE_BYTES"

lemma canonical: "goodCipher cc C \<Longrightarrow> 0 \<le> t \<Longrightarrow> parseCanonicalTimestamp cc (cc_iso cc t) = Some t"
  by (simp add: parseCanonicalTimestamp_def goodCipher_def)

lemma holds_read:
  assumes "holds cc token taskId start c s" "goodCipher cc C" "c \<in> C" "validTtl s" "0 \<le> start" "start \<le> now" "st_readable io (taskId @ CHECKPOINT_SUFFIX)"
  shows "if now < start + cs_ttlMilliseconds s
    then \<exists>e. authenticEnvelope cc io (taskId @ CHECKPOINT_SUFFIX) taskId token now s = (s, Inr (Some (e, c))) \<and>
      ec_createdAt e = cc_iso cc start \<and> ec_expiresAt e = cc_iso cc (start + cs_ttlMilliseconds s)
    else authenticEnvelope cc io (taskId @ CHECKPOINT_SUFFIX) taskId token now s =
      (case discardUnsafeCheckpoint io (taskId @ CHECKPOINT_SUFFIX) s of (s1, Inl e) \<Rightarrow> (s1, Inl e) | (s1, Inr u) \<Rightarrow> (s1, Inr None))"
proof -
  let ?f = "taskId @ CHECKPOINT_SUFFIX" and ?x = "start + cs_ttlMilliseconds s"
  from assms(1) obtain iv where iv: "goodIv iv"
    "map_of (cs_files s) ?f = Some (envelopeText (sealEnvelope cc token taskId iv c (cc_iso cc start) (cc_iso cc ?x)))"
    "byteLength (envelopeText (sealEnvelope cc token taskId iv c (cc_iso cc start) (cc_iso cc ?x))) \<le> MAX_CHECKPOINT_FILE_BYTES"
    by (auto simp: holds_def Let_def)
  let ?e = "sealEnvelope cc token taskId iv c (cc_iso cc start) (cc_iso cc ?x)"
  note wf = seal_wf [OF assms(2) iv(1), of token taskId c "cc_iso cc start" "cc_iso cc ?x"]
  have x: "0 \<le> ?x" using assms(4,5) by (simp add: validTtl_def)
  have cur: "currentEnvelope cc now ?e \<longleftrightarrow> now < ?x"
    using assms(4-6) by (simp add: currentEnvelope_def canonical [OF assms(2)] x validTtl_def MAX_CLOCK_SKEW_MILLISECONDS_def)
  show ?thesis
  proof (cases "now < ?x")
    case True
    then have "readEnvelope cc io ?f now s = Inr ?e" using readEnvelope_text [OF iv(2) wf _ assms(7) iv(3)] cur by simp
    then show ?thesis using True open_seal [OF assms(2,3)] by (auto simp: authenticEnvelope_def)
  next
    case False
    then have "readEnvelope cc io ?f now s = Inl Unsafe"
      using cur iv(2) envelope_json [of ?e] envelope_parse [OF wf] by (auto simp: readEnvelope_def)
    then show ?thesis using False by (auto simp: authenticEnvelope_def)
  qed
qed

text \<open>One write of a run: its I/O, checkpoint, time and random bytes.\<close>

type_synonym checkpointWrite = "StoreIo \<times> SupplierArtifactCheckpointState \<times> int \<times> string \<times> string"

definition writeStep :: "CheckpointCipher \<Rightarrow> string \<Rightarrow> string \<Rightarrow> checkpointWrite \<Rightarrow> CheckpointStore \<Rightarrow> CheckpointStore \<times> (nodeError + unit)" where
  "writeStep cc token taskId w s = (case w of (io, c, now, iv, unique) \<Rightarrow> writeCheckpoint cc io taskId token c now iv unique s)"

text \<open>The checkpoint of the last write that succeeded.\<close>

fun writeRun :: "CheckpointCipher \<Rightarrow> string \<Rightarrow> string \<Rightarrow> checkpointWrite list \<Rightarrow> CheckpointStore \<times> SupplierArtifactCheckpointState \<Rightarrow>
    CheckpointStore \<times> SupplierArtifactCheckpointState" where
  "writeRun cc token taskId [] (s, c) = (s, c)"
| "writeRun cc token taskId (w # ws) (s, c) = (case writeStep cc token taskId w s of
     (s1, Inr u) \<Rightarrow> writeRun cc token taskId ws (s1, fst (snd w)) | (s1, Inl e) \<Rightarrow> writeRun cc token taskId ws (s1, c))"

lemma write_keeps:
  assumes "holds cc token taskId start c s" "goodCipher cc C" "c \<in> C" "validTtl s" "0 \<le> start" "start \<le> now" "now < start + cs_ttlMilliseconds s"
    "st_readable io (taskId @ CHECKPOINT_SUFFIX)" "goodIv iv" "fits cc token taskId d iv start (cs_ttlMilliseconds s)"
    "writeCheckpoint cc io taskId token d now iv u s = (s1, r)"
  shows "cs_ttlMilliseconds s1 = cs_ttlMilliseconds s \<and> holds cc token taskId start (if r = Inr () then d else c) s1"
proof -
  let ?f = "taskId @ CHECKPOINT_SUFFIX"
  from holds_read [OF assms(1-6,8)] assms(7) obtain e where e: "authenticEnvelope cc io ?f taskId token now s = (s, Inr (Some (e, c)))"
    "ec_createdAt e = cc_iso cc start" "ec_expiresAt e = cc_iso cc (start + cs_ttlMilliseconds s)" by auto
  show ?thesis
  proof (cases "cc_bytes cc d > MAX_CHECKPOINT_TEXT_BYTES \<or> \<not> jobIdPattern taskId \<or> (\<exists>code. st_write io = MkdirFails code)")
    case True
    with assms(1,11) show ?thesis by (auto simp: writeCheckpoint_def checkpointFile_def split: if_splits)
  next
    case False
    then have f: "checkpointFile taskId = Inr ?f" "\<not> cc_bytes cc d > MAX_CHECKPOINT_TEXT_BYTES" by (simp_all add: checkpointFile_def)
    show ?thesis
    proof (cases "st_write io")
      case WriteOk
      with assms(9-11) f e show ?thesis by (auto simp: writeCheckpoint_def Let_def holds_def fits_def putFile_def [THEN arg_cong [of _ _ cs_ttlMilliseconds]])
    next
      case (MkdirFails code)
      with False show ?thesis by simp
    next
      case (WriteFails code leftover)
      with assms(1,11) f e show ?thesis
        by (cases leftover) (auto simp: writeCheckpoint_def Let_def holds_def putFile_def [THEN arg_cong [of _ _ cs_ttlMilliseconds]])
    qed
  qed
qed

lemma writeRun_holds:
  "holds cc token taskId start c s \<Longrightarrow> goodCipher cc C \<Longrightarrow> c \<in> C \<Longrightarrow> validTtl s \<Longrightarrow> 0 \<le> start \<Longrightarrow>
   fst ` snd ` set ws \<subseteq> C \<Longrightarrow> (\<forall>(io, d, now, iv, u) \<in> set ws. start \<le> now \<and> now < start + cs_ttlMilliseconds s \<and> st_readable io (taskId @ CHECKPOINT_SUFFIX) \<and>
      goodIv iv \<and> fits cc token taskId d iv start (cs_ttlMilliseconds s)) \<Longrightarrow>
   writeRun cc token taskId ws (s, c) = (s1, c1) \<Longrightarrow> cs_ttlMilliseconds s1 = cs_ttlMilliseconds s \<and> c1 \<in> C \<and> holds cc token taskId start c1 s1"
proof (induction ws arbitrary: s c)
  case (Cons w ws)
  obtain io d now iv u where w: "w = (io, d, now, iv, u)" by (metis prod.collapse)
  obtain s2 r where r: "writeCheckpoint cc io taskId token d now iv u s = (s2, r)" by fastforce
  from write_keeps [OF Cons.prems(1-5) _ _ _ _ _ r] Cons.prems(7) w
  have k: "cs_ttlMilliseconds s2 = cs_ttlMilliseconds s" "holds cc token taskId start (if r = Inr () then d else c) s2" "(if r = Inr () then d else c) \<in> C"
    using Cons.prems(3,6) w by auto
  have "writeRun cc token taskId ws (s2, if r = Inr () then d else c) = (s1, c1)"
    using Cons.prems(8) w r by (cases r) (auto simp: writeStep_def)
  from Cons.IH [OF k(2) Cons.prems(2) k(3) _ Cons.prems(5) _ _ this] Cons.prems(4,6,7) k(1) show ?case by (auto simp: validTtl_def)
qed simp

text \<open>
  C39: A checkpoint is kept for its life time and no longer. After the first checkpoint of a task and any further
  writes, the store reads back the last checkpoint whose write succeeded, as long as the life time that the
  first write began has not ended; from then on, however often the checkpoint was rewritten, it reads nothing
  and removes the file.
\<close>

theorem checkpoint_read_back:
  assumes "writeCheckpoint cc io0 taskId token c0 start iv0 u0 s0 = (s1, Inr ())" "map_of (cs_files s0) (taskId @ CHECKPOINT_SUFFIX) = None"
    and "goodCipher cc (insert c0 (fst ` snd ` set ws))" "validTtl s0" "0 \<le> start" "goodIv iv0" "fits cc token taskId c0 iv0 start (cs_ttlMilliseconds s0)"
    and "\<forall>(io, d, now, iv, u) \<in> set ws. start \<le> now \<and> now < start + cs_ttlMilliseconds s0 \<and> st_readable io (taskId @ CHECKPOINT_SUFFIX) \<and>
      goodIv iv \<and> fits cc token taskId d iv start (cs_ttlMilliseconds s0)"
    and "writeRun cc token taskId ws (s1, c0) = (s2, c)" "start \<le> now" "st_readable io (taskId @ CHECKPOINT_SUFFIX)" "st_unlink io (taskId @ CHECKPOINT_SUFFIX)"
  shows "readCheckpoint cc io taskId token now s2 =
    (if now < start + cs_ttlMilliseconds s0 then (s2, Inr (Some c)) else (removeFile (taskId @ CHECKPOINT_SUFFIX) s2, Inr None))"
proof -
  let ?f = "taskId @ CHECKPOINT_SUFFIX"
  have "authenticEnvelope cc io0 ?f taskId token start s0 = (s0, Inr None)"
    using assms(2) by (simp add: authenticEnvelope_def readEnvelope_def)
  then have p: "jobIdPattern taskId" "cs_ttlMilliseconds s1 = cs_ttlMilliseconds s0" "holds cc token taskId start c0 s1"
    using assms(1,6,7) by (auto simp: writeCheckpoint_def checkpointFile_def holds_def fits_def Let_def putFile_def [THEN arg_cong [of _ _ cs_ttlMilliseconds]]
        split: if_splits WriteIo.splits option.splits)
  let ?C = "insert c0 (fst ` snd ` set ws)"
  from writeRun_holds [OF p(3) assms(3) _ _ assms(5) _ _ assms(9)] assms(4,8) p(2)
  have h: "cs_ttlMilliseconds s2 = cs_ttlMilliseconds s0" "holds cc token taskId start c s2" "c \<in> ?C" by (auto simp: validTtl_def)
  then have f: "map_of (cs_files s2) ?f \<noteq> None" by (auto simp: holds_def Let_def)
  from holds_read [OF h(2) assms(3) h(3) _ assms(5,10,11)] h(1) assms(4) f assms(12) p(1) show ?thesis
    by (auto simp: readCheckpoint_def checkpointFile_def discardUnsafeCheckpoint_def validTtl_def split: if_splits)
qed

text \<open>
  The limit of a write is on the plaintext, that of a read on the file. Base64 makes four characters of three
  bytes, so an envelope of the largest plaintext is longer than a file may be: it is written, and the next
  read removes it.
\<close>

lemma byteLength_ge: "length s \<le> byteLength s"
  by (induction s) (simp_all add: byteLength_def)

declare byteLength_append [simp]

lemma length_quote: "length s + 2 \<le> length (jsonQuote s)"
proof -
  have "1 \<le> length (escapeChar c)" for c by (simp add: escapeChar_def Let_def)
  then have "length s \<le> length (concat (map escapeChar s))" 
    using sum_list_mono [of s "\<lambda>c. 1 :: nat" "\<lambda>c. length (escapeChar c)"] by (simp add: length_concat sum_list_triv comp_def)
  then show ?thesis by (simp add: jsonQuote_def)
qed

lemma envelope_overhead: "length (ec_ciphertext e) + 100 \<le> byteLength (envelopeText e)"
proof -
  have "length (jsonQuote ''version'' @ jsonQuote CHECKPOINT_ENVELOPE_VERSION @ jsonQuote ''cipher'' @ jsonQuote ''aes-256-gcm'' @
      jsonQuote ''createdAt'' @ jsonQuote ''expiresAt'' @ jsonQuote ''authTag'' @ jsonQuote ''ciphertext'' @ jsonQuote (ec_ciphertext e)) \<le> length (envelopeText e)"
    by (simp add: envelopeText_def jsonObject_def)
  moreover note length_quote [of "''version''"] length_quote [of CHECKPOINT_ENVELOPE_VERSION] length_quote [of "''cipher''"] length_quote [of "''aes-256-gcm''"]
    length_quote [of "''createdAt''"] length_quote [of "''expiresAt''"] length_quote [of "''authTag''"] length_quote [of "''ciphertext''"]
    length_quote [of "ec_ciphertext e"]
  moreover have "length CHECKPOINT_ENVELOPE_VERSION = 31" by (simp add: CHECKPOINT_ENVELOPE_VERSION_def)
  ultimately have "length (ec_ciphertext e) + 100 \<le> length (envelopeText e)" by simp
  then show ?thesis using byteLength_ge [of "envelopeText e"] by linarith
qed

lemma oversized_checkpoint_lost:
  assumes "writeCheckpoint cc io0 taskId token c start iv u s0 = (s1, Inr ())" "map_of (cs_files s0) (taskId @ CHECKPOINT_SUFFIX) = None"
    and "\<forall>k iv aad c. length (fst (cc_seal cc k iv aad c)) = 4 * ((cc_bytes cc c + 2) div 3)"
    and "MAX_CHECKPOINT_TEXT_BYTES - 60 \<le> cc_bytes cc c" "st_unlink io (taskId @ CHECKPOINT_SUFFIX)"
  shows "readCheckpoint cc io taskId token now s1 = (removeFile (taskId @ CHECKPOINT_SUFFIX) s1, Inr None)"
proof -
  let ?f = "taskId @ CHECKPOINT_SUFFIX"
  have a: "authenticEnvelope cc io0 ?f taskId token start s0 = (s0, Inr None)"
    using assms(2) by (simp add: authenticEnvelope_def readEnvelope_def)
  then obtain x y where e: "jobIdPattern taskId" "map_of (cs_files s1) ?f = Some (envelopeText (sealEnvelope cc token taskId iv c x y))"
    using assms(1) by (auto simp: writeCheckpoint_def checkpointFile_def Let_def split: if_splits WriteIo.splits option.splits)
  have "8388588 \<le> (cc_bytes cc c + 2) div 3" using assms(4) by (simp add: MAX_CHECKPOINT_TEXT_BYTES_def)
  then have "33554352 \<le> length (ec_ciphertext (sealEnvelope cc token taskId iv c x y))"
    using assms(3) by (simp add: sealEnvelope_def Let_def)
  then have "MAX_CHECKPOINT_FILE_BYTES < byteLength (envelopeText (sealEnvelope cc token taskId iv c x y))"
    using envelope_overhead [of "sealEnvelope cc token taskId iv c x y"] by (simp add: MAX_CHECKPOINT_FILE_BYTES_def)
  then have "readEnvelope cc io ?f now s1 = Inl Unsafe" using e(2) by (simp add: readEnvelope_def)
  then show ?thesis using e assms(5) by (simp add: readCheckpoint_def checkpointFile_def authenticEnvelope_def discardUnsafeCheckpoint_def)
qed

section \<open>Cleanup\<close>

lemma cleanupStep_keeps:
  assumes "readEnvelope cc io f nowMs s = Inr e" "\<not> isCheckpointTemporary f" "cleanupStep cc io nowMs name (s, d, n) = (s1, d1, n1)"
  shows "map_of (cs_files s1) f = map_of (cs_files s) f"
  using assms by (auto simp: cleanupStep_def split: sum.splits storeError.splits if_splits)

lemma cleanupFold_keeps:
  "readEnvelope cc io f nowMs s = Inr e \<Longrightarrow> \<not> isCheckpointTemporary f \<Longrightarrow> fold (cleanupStep cc io nowMs) names (s, d, n) = (s1, d1, n1) \<Longrightarrow>
   map_of (cs_files s1) f = map_of (cs_files s) f"
proof (induction names arbitrary: s d n)
  case (Cons name names)
  obtain s2 d2 n2 where k: "cleanupStep cc io nowMs name (s, d, n) = (s2, d2, n2)" by (metis prod.collapse)
  have m: "map_of (cs_files s2) f = map_of (cs_files s) f" by (rule cleanupStep_keeps [OF Cons.prems(1,2) k])
  then have "readEnvelope cc io f nowMs s2 = Inr e" using Cons.prems(1) by (simp add: readEnvelope_def)
  from Cons.IH [OF this Cons.prems(2)] Cons.prems(3) k m show ?case by simp
qed simp

text \<open>The cleanup of expired files leaves every current checkpoint.\<close>

lemma cleanup_keeps_current:
  assumes "cleanupExpired cc io nowMs s = (s1, r)" "readEnvelope cc io f nowMs s = Inr e" "\<not> isCheckpointTemporary f"
  shows "map_of (cs_files s1) f = map_of (cs_files s) f"
  using assms cleanupFold_keeps [OF assms(2,3)]
  by (auto simp: cleanupExpired_def Let_def split: if_splits prod.splits)

end
