(* ===== verification/WorkerSafety.thy ===== *)
theory WorkerSafety
  imports ArtifactTasks SupplierWorker ArtifactBounds CheckpointSafety
begin

text \<open>
  What the worker of a supplier's agent does when its connection to the control plane fails: a report that is
  lost after an earlier one was received, and a download that breaks off, end a file task for good, although a
  repetition could succeed.
\<close>

section \<open>Checkpoints that cannot be handed over\<close>

text \<open>A run stops at the first checkpoint the handler fails on, with its error.\<close>

definition handedOver :: "ArtifactIo \<Rightarrow> ArtifactExecution \<Rightarrow> bool" where
  "handedOver io ex \<longleftrightarrow> ex_emitted ex = [] \<or> io_checkpoint io (ex_emitted ex) = None"

definition stopsAt :: "ArtifactIo \<Rightarrow> ArtifactExecution \<Rightarrow> nodeError + unit \<Rightarrow> bool" where
  "stopsAt io ex r \<longleftrightarrow> handedOver io ex \<or> (\<exists>e. io_checkpoint io (ex_emitted ex) = Some e \<and> r = Inl e)"

lemma emit_stops: "emitCheckpoint io ex = (e1, r) \<Longrightarrow> stopsAt io e1 r \<and> (r = Inr () \<longrightarrow> handedOver io e1)"
  by (auto simp: emitCheckpoint_def stopsAt_def handedOver_def split: option.splits)

lemma handedOver_same: "ex_emitted e1 = ex_emitted ex \<Longrightarrow> handedOver io ex \<Longrightarrow> handedOver io e1"
  by (simp add: handedOver_def)

lemma handed_stops: "handedOver io ex \<Longrightarrow> stopsAt io ex r"
  by (simp add: stopsAt_def)

lemma summarise_stops:
  assumes "summarise config a io n t ex = (e1, r)" "handedOver io ex"
  shows "stopsAt io e1 r \<and> (r = Inr () \<longrightarrow> handedOver io e1)"
proof -
  obtain g q where g: "invokeBounded config a io (as_task_id a @ '':map:'' @ dec_of_nat (ex_segmentIndex ex))
      (mapPrompt a t (int (ex_segmentIndex ex)) n) (min 512 (as_max_output_tokens a)) ex = (g, q)" by fastforce
  have h: "handedOver io g" using invoke_fields [OF g] assms(2) by (simp add: handedOver_def)
  show ?thesis
  proof (cases q)
    case (Inl e)
    with assms(1) g h show ?thesis by (auto simp: summarise_def handed_stops)
  next
    case (Inr x)
    obtain st res where rec: "recordResult a x ((ex_state g)\<lparr>ck_summaries := ck_summaries (ex_state g) @ [the (ap_output x)]\<rparr>) = (st, res)" by fastforce
    show ?thesis
    proof (cases res)
      case (Inl e)
      with assms(1) g Inr rec h show ?thesis by (auto simp: summarise_def stopsAt_def handedOver_def)
    next
      case res: (Inr u)
      have "emitCheckpoint io (g\<lparr>ex_state := st\<lparr>ck_completedSegments := int (ex_segmentIndex ex), ck_processedBytes := ex_processedBytes ex\<rparr>\<rparr>) = (e1, r)"
        using assms(1) g Inr rec res by (simp add: summarise_def)
      then show ?thesis by (rule emit_stops)
    qed
  qed
qed

lemma segment_stops:
  assumes "segmentStep config a io n ex x = (e1, r)" "handedOver io ex"
  shows "stopsAt io e1 r \<and> (r = Inr () \<longrightarrow> handedOver io e1)"
proof -
  have k: "handedOver io (ex\<lparr>ex_segmentIndex := i, ex_processedBytes := b, ex_decoder := d\<rparr>)" for i b d
    using assms(2) by (simp add: handedOver_def)
  show ?thesis
  proof (cases "decodeText (ex_decoder ex) x (int (ex_segmentIndex ex + 1) < n)")
    case None
    with assms show ?thesis by (auto simp: segmentStep_def Let_def handed_stops split: if_splits)
  next
    case (Some dt)
    obtain d t where "dt = (d, t)" by fastforce
    with Some assms k summarise_stops [OF _ k] show ?thesis
      by (auto simp: segmentStep_def Let_def handed_stops split: if_splits)
  qed
qed

lemma segments_stop:
  "foldS (segmentStep config a io n) ex xs = (e1, r) \<Longrightarrow> handedOver io ex \<Longrightarrow> stopsAt io e1 r \<and> (r = Inr () \<longrightarrow> handedOver io e1)"
proof (induction xs arbitrary: ex)
  case (Cons x xs)
  obtain f q where f: "segmentStep config a io n ex x = (f, q)" by fastforce
  note d = segment_stops [OF f Cons.prems(2)]
  show ?case
  proof (cases q)
    case (Inl e)
    with Cons.prems(1) f d show ?thesis by auto
  next
    case (Inr u)
    with Cons.prems f d Cons.IH [of f] show ?thesis by auto
  qed
qed (simp add: handed_stops)

lemma reduceRound_stops:
  assumes "reduceRound config a io seg rnd ex = (e1, r)" "handedOver io ex"
  shows "stopsAt io e1 r \<and> (r = Inr () \<longrightarrow> handedOver io e1)"
proof (cases "groupSummaries (ck_summaries (ex_state ex)) (int seg)")
  case (Inl e)
  with assms show ?thesis by (auto simp: reduceRound_def handed_stops)
next
  case (Inr gs)
  obtain f x q where f: "foldS (reduceStep config a io rnd (length gs)) (ex, []) (enumerate 0 gs) = ((f, x), q)" by (metis prod.collapse)
  have h: "handedOver io f" using reduceFold_fields [OF f] assms(2) by (simp add: handedOver_def)
  show ?thesis
  proof (cases q)
    case (Inl e)
    with assms(1) Inr f h show ?thesis by (auto simp: reduceRound_def handed_stops)
  next
    case q: (Inr u)
    have "emitCheckpoint io (f\<lparr>ex_state := (ex_state f)\<lparr>ck_summaries := x\<rparr>\<rparr>) = (e1, r)"
      using assms(1) Inr f q by (simp add: reduceRound_def)
    then show ?thesis by (rule emit_stops)
  qed
qed

lemma reduceLoop_stops:
  "reduceLoop config a io seg rnd ex = (e1, r) \<Longrightarrow> handedOver io ex \<Longrightarrow> stopsAt io e1 r \<and> (r = Inr () \<longrightarrow> handedOver io e1)"
proof (induction "32 - rnd" arbitrary: rnd ex)
  case 0
  then show ?case by (auto simp: reduceLoop.simps [of config a io seg rnd] handed_stops split: if_splits)
next
  case (Suc k)
  obtain f q where f: "reduceRound config a io seg (rnd + 1) ex = (f, q)" by fastforce
  have k: "\<not> 32 < rnd + 1" "k = 32 - (rnd + 1)" using Suc.hyps(2) by simp_all
  note d = reduceRound_stops [OF f Suc.prems(2)]
  show ?case
  proof (cases "length (ck_summaries (ex_state ex)) > 1 \<and> q = Inr ()")
    case True
    with Suc.prems f k have "reduceLoop config a io seg (rnd + 1) f = (e1, r)" by (simp add: reduceLoop.simps [of config a io seg rnd])
    with Suc.hyps(1) [OF k(2)] d True show ?thesis by blast
  next
    case False
    with Suc.prems f k d show ?thesis by (cases q) (auto simp: reduceLoop.simps [of config a io seg rnd] handed_stops split: if_splits)
  qed
qed

lemma execute_stops:
  assumes "executeArtifact hash sha256Text sha256 hmac config io t a chunks checkpoint = ((emitted, requests), outcome)"
    and "emitted \<noteq> []" "io_checkpoint io emitted = Some e"
  shows "outcome = Inl e \<or> outcome = Inl (catchTypeError e)"
proof -
  let ?seg = "segmentBytesOf config a"
  let ?n = "totalSegmentsOf ?seg a"
  obtain s where v: "validateAssignment a config = Inr ()" "\<not> ?seg < 16384" "initialState a checkpoint ?n = Inr s"
    using assms(1,2) by (auto simp: executeArtifact_def Let_def split: sum.splits if_splits)
  obtain segs ending where b: "byteSegments hash (nat ?seg) (as_size_bytes a) (io_ending io) (as_chunks a) [] [] chunks = (segs, ending)"
    by fastforce
  obtain f q where f: "foldS (segmentStep config a io ?n) (startOf s) segs = (f, q)" by fastforce
  have d: "stopsAt io f q \<and> (q = Inr () \<longrightarrow> handedOver io f)" by (rule segments_stop [OF f]) (simp add: handedOver_def)
  obtain e1 r where m: "mapPhase hash config a io chunks ?seg (startOf s) = (e1, r)" by fastforce
  have ef: "e1 = f" "\<And>x. q = Inl x \<Longrightarrow> r = Inl (catchTypeError x)" "\<And>content. r = Inr content \<Longrightarrow> q = Inr ()"
    using m b f by (auto simp: mapPhase_def split: sum.splits if_splits)
  show ?thesis
  proof (cases r)
    case (Inl x)
    then have o: "emitted = ex_emitted f" "outcome = Inl x" using assms(1) v m ef(1) by (simp_all add: executeArtifact_def Let_def)
    with d assms(2,3) have "q = Inl e" by (auto simp: stopsAt_def handedOver_def)
    with ef(2) Inl o(2) show ?thesis by simp
  next
    case (Inr content)
    obtain e2 p where l: "reduceLoop config a io (nat ?seg) 0 e1 = (e2, p)" by fastforce
    have z: "stopsAt io e2 p \<and> (p = Inr () \<longrightarrow> handedOver io e2)"
      by (rule reduceLoop_stops [OF l]) (use d ef(1) ef(3) [OF Inr] in simp)
    have o: "emitted = ex_emitted e2" "p = Inl x \<Longrightarrow> outcome = Inl x" for x
      using assms(1) v m Inr l by (cases p; simp add: executeArtifact_def Let_def)+
    with z assms(2,3) show ?thesis by (auto simp: stopsAt_def handedOver_def)
  qed
qed

section \<open>Checkpoints follow each other\<close>

text \<open>Each checkpoint of the segment loop has one segment more than the one before; \<open>k\<close> are completed at the start.\<close>

definition oneByOne :: "int \<Rightarrow> SupplierArtifactCheckpointState list \<Rightarrow> bool" where
  "oneByOne k cs \<longleftrightarrow> (\<forall>i < length cs. ck_completedSegments (cs ! i) = k + 1 + int i)"

definition advancing :: "int \<Rightarrow> ArtifactExecution \<Rightarrow> bool" where
  "advancing k ex \<longleftrightarrow> oneByOne k (ex_emitted ex) \<and> ck_completedSegments (ex_state ex) = k + int (length (ex_emitted ex)) \<and>
     int (ex_segmentIndex ex) \<le> ck_completedSegments (ex_state ex)"

lemma oneByOne_snoc: "oneByOne k cs \<Longrightarrow> ck_completedSegments c = k + int (length cs) + 1 \<Longrightarrow> oneByOne k (cs @ [c])"
  by (auto simp: oneByOne_def nth_append less_Suc_eq)

lemma oneByOne_last: "oneByOne k (cs @ [c]) \<Longrightarrow> ck_completedSegments c = k + int (length cs) + 1"
  unfolding oneByOne_def by (drule spec [of _ "length cs"]) simp

lemma oneByOne_prefix: "oneByOne k (cs @ ds) \<Longrightarrow> oneByOne k cs"
  unfolding oneByOne_def by (metis length_append nth_append trans_less_add1)

lemma summarise_advancing:
  assumes "summarise config a io n t ex = (e1, r)" "oneByOne k (ex_emitted ex)"
    "ck_completedSegments (ex_state ex) = k + int (length (ex_emitted ex))" "int (ex_segmentIndex ex) = ck_completedSegments (ex_state ex) + 1"
  shows "oneByOne k (ex_emitted e1) \<and> (r = Inr () \<longrightarrow> advancing k e1)"
proof -
  obtain g q where g: "invokeBounded config a io (as_task_id a @ '':map:'' @ dec_of_nat (ex_segmentIndex ex))
      (mapPrompt a t (int (ex_segmentIndex ex)) n) (min 512 (as_max_output_tokens a)) ex = (g, q)" by fastforce
  note f = invoke_fields [OF g]
  show ?thesis
  proof (cases q)
    case (Inl e)
    with assms(1,2) g f show ?thesis by (auto simp: summarise_def)
  next
    case (Inr x)
    obtain st res where rec: "recordResult a x ((ex_state g)\<lparr>ck_summaries := ck_summaries (ex_state g) @ [the (ap_output x)]\<rparr>) = (st, res)" by fastforce
    show ?thesis
    proof (cases res)
      case (Inl e)
      with assms(1,2) g Inr rec f show ?thesis by (auto simp: summarise_def)
    next
      case res: (Inr u)
      let ?e = "g\<lparr>ex_state := st\<lparr>ck_completedSegments := int (ex_segmentIndex ex), ck_processedBytes := ex_processedBytes ex\<rparr>\<rparr>"
      have "emitCheckpoint io ?e = (e1, r)" using assms(1) g Inr rec res by (simp add: summarise_def)
      then have e: "e1 = ?e\<lparr>ex_emitted := ex_emitted ?e @ [ex_state ?e]\<rparr>" by (simp add: emitCheckpoint_def)
      have i: "ex_segmentIndex g = ex_segmentIndex ex" "ex_emitted g = ex_emitted ex" using f by (auto simp: sameWork_def)
      have "oneByOne k (ex_emitted e1)" unfolding e using assms(2-4) i by (auto intro: oneByOne_snoc)
      moreover have "ck_completedSegments (ex_state e1) = k + int (length (ex_emitted e1))" "int (ex_segmentIndex e1) \<le> ck_completedSegments (ex_state e1)"
        unfolding e using assms(3,4) i by simp_all
      ultimately show ?thesis by (simp add: advancing_def)
    qed
  qed
qed

lemma segment_advancing:
  assumes "segmentStep config a io n ex x = (e1, r)" "advancing k ex"
  shows "oneByOne k (ex_emitted e1) \<and> (r = Inr () \<longrightarrow> advancing k e1)"
proof (cases "decodeText (ex_decoder ex) x (int (ex_segmentIndex ex + 1) < n)")
  case None
  with assms show ?thesis by (auto simp: segmentStep_def Let_def advancing_def split: if_splits)
next
  case (Some dt)
  obtain d t where t: "dt = (d, t)" by fastforce
  let ?f = "ex\<lparr>ex_segmentIndex := ex_segmentIndex ex + 1, ex_processedBytes := ex_processedBytes ex + int (length x), ex_decoder := d\<rparr>"
  show ?thesis
  proof (cases "io_aborted io (ex_segmentIndex ex) \<or> int (ex_segmentIndex ex + 1) \<le> ck_completedSegments (ex_state ex)")
    case True
    with Some t assms show ?thesis by (auto simp: segmentStep_def Let_def advancing_def split: if_splits)
  next
    case later: False
    with Some t assms(1) have "summarise config a io n t ?f = (e1, r)" by (simp add: segmentStep_def Let_def)
    then show ?thesis by (rule summarise_advancing) (use assms(2) later in \<open>auto simp: advancing_def\<close>)
  qed
qed

lemma segments_advancing:
  "foldS (segmentStep config a io n) ex xs = (e1, r) \<Longrightarrow> advancing k ex \<Longrightarrow> oneByOne k (ex_emitted e1) \<and> (r = Inr () \<longrightarrow> advancing k e1)"
proof (induction xs arbitrary: ex)
  case (Cons x xs)
  obtain f q where f: "segmentStep config a io n ex x = (f, q)" by fastforce
  note d = segment_advancing [OF f Cons.prems(2)]
  with Cons f show ?case by (cases q) auto
qed (simp add: advancing_def)

text \<open>A checkpoint of the reduction has all segments of the one before it.\<close>

lemma reduceRound_completed:
  assumes "reduceRound config a io seg rnd ex = (e1, r)"
  shows "ck_completedSegments (ex_state e1) = ck_completedSegments (ex_state ex) \<and>
    (\<exists>cs. ex_emitted e1 = ex_emitted ex @ cs \<and> (\<forall>c \<in> set cs. ck_completedSegments c = ck_completedSegments (ex_state ex)))"
proof (cases "groupSummaries (ck_summaries (ex_state ex)) (int seg)")
  case (Inl e)
  with assms show ?thesis by (auto simp: reduceRound_def)
next
  case (Inr gs)
  obtain f x q where f: "foldS (reduceStep config a io rnd (length gs)) (ex, []) (enumerate 0 gs) = ((f, x), q)" by (metis prod.collapse)
  note h = reduceFold_fields [OF f]
  with assms Inr f show ?thesis by (cases q) (auto simp: reduceRound_def emitCheckpoint_def)
qed

lemma reduceLoop_completed:
  "reduceLoop config a io seg rnd ex = (e1, r) \<Longrightarrow>
    \<exists>cs. ex_emitted e1 = ex_emitted ex @ cs \<and> (\<forall>c \<in> set cs. ck_completedSegments c = ck_completedSegments (ex_state ex))"
proof (induction "32 - rnd" arbitrary: rnd ex)
  case 0
  then show ?case by (auto simp: reduceLoop.simps [of config a io seg rnd] split: if_splits)
next
  case (Suc k)
  obtain f q where f: "reduceRound config a io seg (rnd + 1) ex = (f, q)" by fastforce
  have k: "\<not> 32 < rnd + 1" "k = 32 - (rnd + 1)" using Suc.hyps(2) by simp_all
  from reduceRound_completed [OF f] obtain cs where c: "ck_completedSegments (ex_state f) = ck_completedSegments (ex_state ex)"
    "ex_emitted f = ex_emitted ex @ cs" "\<forall>c \<in> set cs. ck_completedSegments c = ck_completedSegments (ex_state ex)" by blast
  show ?case
  proof (cases "length (ck_summaries (ex_state ex)) > 1 \<and> q = Inr ()")
    case True
    with Suc.prems f k have "reduceLoop config a io seg (rnd + 1) f = (e1, r)" by (simp add: reduceLoop.simps [of config a io seg rnd])
    from Suc.hyps(1) [OF k(2) this] obtain ds where "ex_emitted e1 = ex_emitted f @ ds"
      "\<forall>d \<in> set ds. ck_completedSegments d = ck_completedSegments (ex_state f)" by blast
    with c show ?thesis by (intro exI [of _ "cs @ ds"]) auto
  next
    case False
    with Suc.prems f k c show ?thesis by (cases q) (auto simp: reduceLoop.simps [of config a io seg rnd] split: if_splits)
  qed
qed

lemma execute_next:
  assumes run: "executeArtifact hash sha256Text sha256 hmac config io t a chunks checkpoint = ((emitted @ [c], requests), outcome)"
    and s: "initialState a checkpoint (totalSegmentsOf (segmentBytesOf config a) a) = Inr s"
    and known: "known = (if emitted = [] then ck_completedSegments s else ck_completedSegments (last emitted))"
      "known < totalSegmentsOf (segmentBytesOf config a) a"
  shows "ck_completedSegments c = known + 1"
proof -
  let ?seg = "segmentBytesOf config a" and ?k = "ck_completedSegments s"
  let ?n = "totalSegmentsOf ?seg a"
  have next_: "ck_completedSegments c = known + 1" if "oneByOne ?k (emitted @ [c])"
  proof (cases emitted rule: rev_cases)
    case Nil
    with oneByOne_last [OF that] known(1) show ?thesis by simp
  next
    case (snoc ds d)
    then have "oneByOne ?k (ds @ [d])" using oneByOne_prefix [OF that] by simp
    from oneByOne_last [OF this] oneByOne_last [OF that] snoc known(1) show ?thesis by simp
  qed
  have v: "validateAssignment a config = Inr ()" "\<not> ?seg < 16384"
    using run by (auto simp: executeArtifact_def Let_def split: sum.splits if_splits)
  obtain segs ending where b: "byteSegments hash (nat ?seg) (as_size_bytes a) (io_ending io) (as_chunks a) [] [] chunks = (segs, ending)"
    by fastforce
  obtain f q where f: "foldS (segmentStep config a io ?n) (startOf s) segs = (f, q)" by fastforce
  have "advancing ?k (startOf s) \<or> ?k < 0"
    by (auto simp: advancing_def oneByOne_def)
  moreover have "0 \<le> ?k" using s by (auto simp: initialState_def Let_def split: option.splits if_splits)
  ultimately have d: "oneByOne ?k (ex_emitted f) \<and> (q = Inr () \<longrightarrow> advancing ?k f)" using segments_advancing [OF f] by simp
  obtain e1 r where m: "mapPhase hash config a io chunks ?seg (startOf s) = (e1, r)" by fastforce
  have ef: "e1 = f" "\<And>content. r = Inr content \<Longrightarrow> q = Inr () \<and> ck_completedSegments (ex_state f) = ?n"
    using m b f by (auto simp: mapPhase_def split: sum.splits if_splits)
  show ?thesis
  proof (cases r)
    case (Inl x)
    then have "emitted @ [c] = ex_emitted f" using run v m s ef(1) by (simp add: executeArtifact_def Let_def)
    with d next_ show ?thesis by simp
  next
    case (Inr content)
    obtain e2 p where l: "reduceLoop config a io (nat ?seg) 0 f = (e2, p)" by fastforce
    have o: "emitted @ [c] = ex_emitted e2" using run v m s Inr l ef(1) by (cases p) (simp_all add: executeArtifact_def Let_def)
    from ef(2) [OF Inr] d have all: "ck_completedSegments (ex_state f) = ?n" "advancing ?k f" by simp_all
    from reduceLoop_completed [OF l] all(1) obtain cs where cs: "ex_emitted e2 = ex_emitted f @ cs" "\<forall>c \<in> set cs. ck_completedSegments c = ?n" by auto
    show ?thesis
    proof (cases cs rule: rev_cases)
      case Nil
      with o cs(1) d next_ show ?thesis by simp
    next
      case (snoc ds x)
      with o cs(1) have e: "emitted = ex_emitted f @ ds" by (metis append_assoc butlast_snoc)
      have "known = ?n"
      proof (cases ds rule: rev_cases)
        case Nil
        show ?thesis
        proof (cases "ex_emitted f" rule: rev_cases)
          case Nil
          with e \<open>ds = []\<close> all known(1) show ?thesis by (simp add: advancing_def)
        next
          case (snoc gs g)
          with e \<open>ds = []\<close> all known(1) oneByOne_last [of ?k gs g] show ?thesis by (simp add: advancing_def)
        qed
      next
        case (snoc gs g)
        with e \<open>cs = ds @ [x]\<close> cs(2) known(1) show ?thesis by simp
      qed
      with known(2) show ?thesis by simp
    qed
  qed
qed

section \<open>Failures that become final\<close>

lemma retryable_not_type: "isRetryable e \<Longrightarrow> catchTypeError e = e"
  by (cases e) (simp_all add: catchTypeError_def)

lemma required_not_retryable: "failureCall a (AgentError ''ARTIFACT_CHECKPOINT_REQUIRED'' False) =
    FailCall (as_task_id a) (as_lease_token a) ''ARTIFACT_CHECKPOINT_REQUIRED'' False"
  by (simp add: failureCall_def is_upper_char_def is_digit_def)

lemma delete_fields:
  assumes "deleteTerminalCheckpointOrQueue io taskId w = (w1, r)"
  shows "sw_calls w1 = sw_calls w \<and> sw_requests w1 = sw_requests w \<and>
    (jobIdPattern taskId \<and> st_unlink io (taskId @ CHECKPOINT_SUFFIX) \<longrightarrow>
      map_of (cs_files (sw_store w1)) (taskId @ CHECKPOINT_SUFFIX) = None \<and> r = Inr ())"
proof -
  have "map_of (filter (\<lambda>e. fst e \<noteq> f) xs) f = None" for f and xs :: "(string \<times> string) list" by (auto simp: map_of_eq_None_iff)
  with assms show ?thesis
    by (auto simp: deleteTerminalCheckpointOrQueue_def deleteCheckpoint_def checkpointFile_def removeFile_def split: if_splits)
qed

text \<open>A task whose local checkpoint is not the one the control plane knows is failed without a provider call.\<close>

lemma mismatch_fails:
  assumes "readCheckpoint cc (fst (ti_read io)) (as_task_id a) (wo_gatewayToken options) (snd (ti_read io)) (sw_store w) = (s, Inr (Some c))"
    and "0 < as_resume_from_segment a" "ck_completedSegments c \<noteq> as_resume_from_segment a"
    and "processTask hash sha256Text hmac cc options io a w = (w1, r)"
  shows "sw_requests w1 = sw_requests w \<and> sw_calls w1 = sw_calls w @ [FailCall (as_task_id a) (as_lease_token a) ''ARTIFACT_CHECKPOINT_REQUIRED'' False] \<and>
    (st_unlink (ti_delete io) (as_task_id a @ CHECKPOINT_SUFFIX) \<longrightarrow>
      map_of (cs_files (sw_store w1)) (as_task_id a @ CHECKPOINT_SUFFIX) = None \<and> r = Inl (AgentError ''ARTIFACT_CHECKPOINT_REQUIRED'' False))"
proof -
  let ?e = "AgentError ''ARTIFACT_CHECKPOINT_REQUIRED'' False"
  let ?w = "w\<lparr>sw_status := (sw_status w)\<lparr>ws_state := StateProcessing, ws_taskId := Some (as_task_id a),
          ws_completedSegments := as_resume_from_segment a, ws_totalSegments := None, ws_processedBytes := 0, ws_lastErrorCode := None\<rparr>\<rparr>"
  have "startingCheckpoint cc (wo_gatewayToken options) io a (sw_store ?w) = (s, Inl ?e)"
    using assms(1-3) by (simp add: startingCheckpoint_def)
  then have att: "attemptTask hash sha256Text hmac cc options io a ?w = (?w\<lparr>sw_store := s\<rparr>, False, Inl ?e)"
    by (simp add: attemptTask_def)
  let ?v = "?w\<lparr>sw_store := s, sw_calls := sw_calls w @ [failureCall a ?e]\<rparr>"
  obtain d q where d: "deleteTerminalCheckpointOrQueue (ti_delete io) (as_task_id a) ?v = (d, q)" by fastforce
  have "jobIdPattern (as_task_id a)" using assms(1) by (auto simp: readCheckpoint_def checkpointFile_def split: if_splits)
  with delete_fields [OF d] att d assms(4) show ?thesis
    by (cases q) (auto simp: processTask_def Let_def required_not_retryable)
qed

text \<open>What a successful write leaves, and what a read of a current envelope finds.\<close>

lemma written_text:
  assumes "writeCheckpoint cc io t token c now iv u s = (s1, Inr ())"
  shows "jobIdPattern t \<and> (\<exists>x y. map_of (cs_files s1) (t @ CHECKPOINT_SUFFIX) = Some (envelopeText (sealEnvelope cc token t iv c x y)))"
  using assms by (auto simp: writeCheckpoint_def checkpointFile_def Let_def split: if_splits WriteIo.splits sum.splits prod.splits option.splits) blast+

lemma current_read:
  assumes "map_of (cs_files s) (t @ CHECKPOINT_SUFFIX) = Some (envelopeText (sealEnvelope cc token t iv c x y))" "jobIdPattern t"
    and "goodCipher cc {c}" "goodIv iv" "readEnvelope cc io (t @ CHECKPOINT_SUFFIX) now s = Inr env"
  shows "readCheckpoint cc io t token now s = (s, Inr (Some c))"
proof -
  let ?e = "sealEnvelope cc token t iv c x y"
  have "env = ?e"
    using assms(1,5) envelope_parse [OF seal_wf [OF assms(3,4), of token t c x y]]
    by (auto simp: readEnvelope_def split: if_splits option.splits)
  moreover have "openEnvelope cc token t ?e = Some c" by (rule open_seal [OF assms(3)]) simp
  ultimately show ?thesis using assms(2,5) by (simp add: readCheckpoint_def checkpointFile_def authenticEnvelope_def)
qed

lemma handle_snoc:
  assumes "handleCheckpoints cc token t io s emitted = (s0, Inr ())" "ti_write io (length emitted) = (wio, now, iv, u)"
    "writeCheckpoint cc wio t token c now iv u s0 = (s1, Inr ())"
  shows "handleCheckpoints cc token t io s (emitted @ [c]) = (s1, signedJson (ti_report io (length emitted)))"
proof -
  have f: "foldS f s xs = (s0, Inr ()) \<Longrightarrow> foldS f s (xs @ [x]) = f s0 x"
    for f :: "CheckpointStore \<Rightarrow> nat \<times> SupplierArtifactCheckpointState \<Rightarrow> CheckpointStore \<times> (nodeError + unit)" and s xs x
    by (induction xs arbitrary: s) (auto split: prod.splits sum.splits)
  have "handleCheckpoints cc token t io s (emitted @ [c]) = checkpointHandler cc token t io s0 (length emitted, c)"
    using f [OF assms(1) [unfolded handleCheckpoints_def]] by (simp add: handleCheckpoints_def enumerate_append_eq)
  with assms(2,3) show ?thesis by (simp add: checkpointHandler_def)
qed

text \<open>An execution starts with the segments its assignment names, when it names any.\<close>

lemma starting_completed:
  assumes "startingCheckpoint cc token io a s = (s1, Inr checkpoint)" "initialState a checkpoint n = Inr st" "0 < as_resume_from_segment a"
  shows "ck_completedSegments st = as_resume_from_segment a"
  using assms by (auto simp: startingCheckpoint_def initialState_def Let_def split: prod.splits sum.splits if_splits option.splits)

lemma task_execution_runs:
  assumes "taskExecution hash sha256Text hmac cc options io a s checkpoint = ((emitted, requests), outcome)" "emitted \<noteq> []"
  shows "\<exists>chunks ending. executeArtifact hash sha256Text (cc_sha256 cc) hmac (wo_config options)
      \<lparr>io_provider = nodeProvider (wo_config options) (ti_gate io) (ti_provider io),
       io_checkpoint = (\<lambda>cs. case snd (handleCheckpoints cc (wo_gatewayToken options) (as_task_id a) io s cs) of Inl e \<Rightarrow> Some e | Inr u \<Rightarrow> None),
       io_aborted = ti_aborted io, io_ending = ending\<rparr> (ti_completedAt io) a chunks checkpoint = ((emitted, requests), outcome)"
proof -
  obtain chunks ending where dl: "downloadChunks (ti_download io) 0 (as_chunks a) = (chunks, ending)" by fastforce
  have "\<not> ti_draining io" using assms dl by (auto simp: taskExecution_def executeArtifactTask_def)
  with assms dl show ?thesis by (auto simp: taskExecution_def executeArtifactTask_def)
qed

text \<open>A failure that is not to be repeated ends the task of a valid lease.\<close>

lemma failed_task:
  assumes "failArtifactTask False code taskId supplierTenant digest clock now db = Inr (db', k)"
    and "t \<in> set (artifact_tasks db)" "leaseHeld taskId supplierTenant digest clock t"
  shows "\<exists>t' \<in> set (artifact_tasks db'). t_task_id t' = taskId \<and> t_status t' = ''failed''"
proof -
  let ?f = "\<lambda>t. (clearInstruction (clearLease t))\<lparr>t_status := ''failed'', t_error_code := Some code, t_updated_at := now, t_completed_at := Some now\<rparr>"
  have "artifact_tasks db' = updateRows (leaseHeld taskId supplierTenant digest clock) ?f (artifact_tasks db)"
    using assms(1) by (auto simp: failArtifactTask_def updateTasks_def)
  with assms(2,3) have "?f t \<in> set (artifact_tasks db')" by (auto simp: updateRows_def)
  moreover have "t_task_id (?f t) = taskId" "t_status (?f t) = ''failed''" using assms(3) by (simp_all add: leaseHeld_def clearLease_def clearInstruction_def)
  ultimately show ?thesis by blast
qed

text \<open>The attempt that loses its report.\<close>

lemma lost_report_attempt:
  assumes start: "startingCheckpoint cc (wo_gatewayToken options) io a (sw_store w) = (s, Inr checkpoint)"
    and run: "taskExecution hash sha256Text hmac cc options io a s checkpoint = ((emitted @ [c], requests), outcome)"
    and handled: "handleCheckpoints cc (wo_gatewayToken options) (as_task_id a) io s (emitted @ [c]) = (s1, Inl e)" "isRetryable e"
    and attempt: "processTask hash sha256Text hmac cc options io a w = (w1, r1)"
  shows "r1 = Inl e \<and> last (sw_calls w1) = failureCall a e \<and> sw_store w1 = s1"
proof -
  from task_execution_runs [OF run] obtain chunks ending where
    x: "executeArtifact hash sha256Text (cc_sha256 cc) hmac (wo_config options)
        \<lparr>io_provider = nodeProvider (wo_config options) (ti_gate io) (ti_provider io),
         io_checkpoint = (\<lambda>cs. case snd (handleCheckpoints cc (wo_gatewayToken options) (as_task_id a) io s cs) of Inl e \<Rightarrow> Some e | Inr u \<Rightarrow> None),
         io_aborted = ti_aborted io, io_ending = ending\<rparr> (ti_completedAt io) a chunks checkpoint = ((emitted @ [c], requests), outcome)" by auto
  from execute_stops [OF x] handled have out: "outcome = Inl e" by (simp add: retryable_not_type [OF handled(2)])
  let ?w = "w\<lparr>sw_status := (sw_status w)\<lparr>ws_state := StateProcessing, ws_taskId := Some (as_task_id a),
          ws_completedSegments := as_resume_from_segment a, ws_totalSegments := None, ws_processedBytes := 0, ws_lastErrorCode := None\<rparr>\<rparr>"
  obtain calls p where rc: "reportCalls cc (wo_gatewayToken options) (as_task_id a) (as_lease_token a) io s 0 (emitted @ [c]) = (calls, p)" by fastforce
  obtain w' where "attemptTask hash sha256Text hmac cc options io a ?w = (w', False, Inl e)" "sw_store w' = s1"
    using start run handled(1) out rc by (simp add: attemptTask_def Let_def)
  then show ?thesis using handled(2) attempt by (auto simp: processTask_def Let_def)
qed

text \<open>
  C40: A lost report ends a file task for good. Let the worker have stored a checkpoint, let its report to the
  control plane fail with a retryable error, and let the control plane know of at least one segment and not of
  all of them: those of the last checkpoint reported, or those the task was resumed with. Then the stored
  checkpoint is one segment ahead of what the control plane knows, and the worker fails the attempt as
  retryable. The next attempt at the task, which resumes from what the control plane knows, finds that
  checkpoint still stored and current, and with the same token, yet makes no call to the provider: its only
  report is the failure \<open>ARTIFACT_CHECKPOINT_REQUIRED\<close>, not to be repeated, by which the control plane fails a
  task whose lease is valid, and it removes the checkpoint. A task whose first report is lost is not concerned: it
  starts anew.
\<close>

theorem lost_report_is_final:
  assumes start: "startingCheckpoint cc (wo_gatewayToken options) io a (sw_store w) = (s, Inr checkpoint)"
    and run: "taskExecution hash sha256Text hmac cc options io a s checkpoint = ((emitted @ [c], requests), outcome)"
    and reported: "handleCheckpoints cc (wo_gatewayToken options) (as_task_id a) io s emitted = (s0, Inr ())"
    and stored: "ti_write io (length emitted) = (wio, now, iv, u)"
      "writeCheckpoint cc wio (as_task_id a) (wo_gatewayToken options) c now iv u s0 = (s1, Inr ())"
    and lost: "signedJson (ti_report io (length emitted)) = Inl e" "isRetryable e"
    and attempt: "processTask hash sha256Text hmac cc options io a w = (w1, r1)"
    and known: "known = (if emitted = [] then as_resume_from_segment a else ck_completedSegments (last emitted))"
      "0 < known" "known < totalSegmentsOf (segmentBytesOf (wo_config options) a) a"
    and kept: "map_of (cs_files (sw_store v)) (as_task_id a @ CHECKPOINT_SUFFIX) = map_of (cs_files (sw_store w1)) (as_task_id a @ CHECKPOINT_SUFFIX)"
    and current: "readEnvelope cc (fst (ti_read io')) (as_task_id a @ CHECKPOINT_SUFFIX) (snd (ti_read io')) (sw_store v) = Inr env"
    and cipher: "goodCipher cc {c}" "goodIv iv"
    and retry: "as_task_id a' = as_task_id a" "as_resume_from_segment a' = known"
      "processTask hash sha256Text hmac cc options io' a' v = (v1, r2)" "st_unlink (ti_delete io') (as_task_id a @ CHECKPOINT_SUFFIX)"
  shows "ck_completedSegments c = known + 1 \<and> r1 = Inl e \<and> last (sw_calls w1) = failureCall a e \<and>
    r2 = Inl (AgentError ''ARTIFACT_CHECKPOINT_REQUIRED'' False) \<and> sw_requests v1 = sw_requests v \<and>
    sw_calls v1 = sw_calls v @ [FailCall (as_task_id a) (as_lease_token a') ''ARTIFACT_CHECKPOINT_REQUIRED'' False] \<and>
    map_of (cs_files (sw_store v1)) (as_task_id a @ CHECKPOINT_SUFFIX) = None \<and>
    (\<forall>supplierTenant digest clock moment db db' k.
       failArtifactTask False ''ARTIFACT_CHECKPOINT_REQUIRED'' (as_task_id a) supplierTenant digest clock moment db = Inr (db', k) \<longrightarrow>
       (\<exists>t \<in> set (artifact_tasks db). leaseHeld (as_task_id a) supplierTenant digest clock t) \<longrightarrow>
       (\<exists>t' \<in> set (artifact_tasks db'). t_task_id t' = as_task_id a \<and> t_status t' = ''failed''))"
proof -
  note handled = handle_snoc [OF reported stored, unfolded lost(1)]
  from task_execution_runs [OF run] obtain chunks ending where
    x: "executeArtifact hash sha256Text (cc_sha256 cc) hmac (wo_config options)
        \<lparr>io_provider = nodeProvider (wo_config options) (ti_gate io) (ti_provider io),
         io_checkpoint = (\<lambda>cs. case snd (handleCheckpoints cc (wo_gatewayToken options) (as_task_id a) io s cs) of Inl e \<Rightarrow> Some e | Inr u \<Rightarrow> None),
         io_aborted = ti_aborted io, io_ending = ending\<rparr> (ti_completedAt io) a chunks checkpoint = ((emitted @ [c], requests), outcome)" by auto
  obtain st where st: "initialState a checkpoint (totalSegmentsOf (segmentBytesOf (wo_config options) a) a) = Inr st"
    using x by (auto simp: executeArtifact_def Let_def split: sum.splits if_splits)
  have ahead: "ck_completedSegments c = known + 1"
    by (rule execute_next [OF x st _ known(3)]) (use known(1,2) starting_completed [OF start st] in auto)
  note one = lost_report_attempt [OF start run handled lost(2) attempt]
  from written_text [OF stored(2)] obtain x y where
    envelope: "map_of (cs_files (sw_store v)) (as_task_id a @ CHECKPOINT_SUFFIX) = Some (envelopeText (sealEnvelope cc (wo_gatewayToken options) (as_task_id a) iv c x y))"
    and id: "jobIdPattern (as_task_id a)" using kept one by auto
  note found = current_read [OF envelope id cipher current]
  have "0 < as_resume_from_segment a'" "ck_completedSegments c \<noteq> as_resume_from_segment a'" using known(2) retry(2) ahead by simp_all
  from mismatch_fails [OF found [folded retry(1)] this retry(3)] retry(1,4) ahead one failed_task show ?thesis by auto
qed

text \<open>
  A download that breaks off: the error of the platform is a \<open>TypeError\<close>, which the executor takes for text that
  is not UTF-8, so that the worker reports a final failure.
\<close>

lemma broken_download_is_final:
  assumes "startingCheckpoint cc (wo_gatewayToken options) io a (sw_store w) = (s, Inr None)"
    and "validateAssignment a (wo_config options) = Inr ()" "16384 \<le> segmentBytesOf (wo_config options) a" "\<not> ti_draining io"
    and "as_chunks a = d # ds" "ti_download io 0 = ChunkBody (Some (chunk_sha256 d)) (NInt (chunk_sizeBytes d)) True [part] (Some TypeError)"
    and "int (length part) \<le> chunk_sizeBytes d" "processTask hash sha256Text hmac cc options io a w = (w1, r)"
  shows "sw_requests w1 = sw_requests w \<and> sw_calls w1 = sw_calls w @ [FailCall (as_task_id a) (as_lease_token a) ''INVALID_REQUEST'' False]"
proof -
  let ?e = "SupplierNodeError INVALID_REQUEST 415 False"
  let ?w = "w\<lparr>sw_status := (sw_status w)\<lparr>ws_state := StateProcessing, ws_taskId := Some (as_task_id a),
          ws_completedSegments := as_resume_from_segment a, ws_totalSegments := None, ws_processedBytes := 0, ws_lastErrorCode := None\<rparr>\<rparr>"
  have dl: "downloadChunks (ti_download io) 0 (as_chunks a) = ([], Some TypeError)"
    using assms(5-7) by (simp add: readBoundedBytes_def)
  have "initialState a None n = Inr s0 \<Longrightarrow> mapPhase hash (wo_config options) a jo [] seg ex = (ex, Inl ?e)" if "io_ending jo = Some TypeError" for n s0 jo seg ex
    using that assms(5) by (simp add: mapPhase_def catchTypeError_def)
  then have "taskExecution hash sha256Text hmac cc options io a s None = (([], []), Inl ?e)"
    using dl assms(2-4) by (simp add: taskExecution_def executeArtifactTask_def executeArtifact_def initialState_def Let_def)
  then have att: "attemptTask hash sha256Text hmac cc options io a ?w = (?w\<lparr>sw_store := s\<rparr>, False, Inl ?e)"
    using assms(1) by (simp add: attemptTask_def handleCheckpoints_def showProgress_def Let_def)
  let ?v = "?w\<lparr>sw_store := s, sw_calls := sw_calls w @ [failureCall a ?e]\<rparr>"
  obtain x q where x: "deleteTerminalCheckpointOrQueue (ti_delete io) (as_task_id a) ?v = (x, q)" by fastforce
  have "failureCall a ?e = FailCall (as_task_id a) (as_lease_token a) ''INVALID_REQUEST'' False"
    by (simp add: failureCall_def is_upper_char_def is_digit_def)
  with delete_fields [OF x] att x assms(8) show ?thesis by (cases q) (auto simp: processTask_def Let_def)
qed

end
