(* ===== verification/ArtifactResume.thy ===== *)
theory ArtifactResume
  imports ArtifactRun
begin

text \<open>
  An interrupted task that is resumed from a checkpoint ends like one that was never interrupted.
\<close>

definition level :: "ArtifactExecution \<Rightarrow> bool" where
  "level ex \<longleftrightarrow> int (length (ck_summaries (ex_state ex))) = ck_completedSegments (ex_state ex) \<and>
     int (ex_segmentIndex ex) \<le> ck_completedSegments (ex_state ex)"

lemma level_step:
  assumes "segmentStep config a io n ex x = (e1, Inr ())" "level ex"
  shows "level e1"
proof -
  from step_fields [OF assms(1)] obtain t where
    t: "decodeText (ex_decoder ex) x (int (ex_segmentIndex ex + 1) < n) = Some (ex_decoder e1, t)" by blast
  let ?f = "ex\<lparr>ex_segmentIndex := ex_segmentIndex ex + 1, ex_processedBytes := ex_processedBytes ex + int (length x), ex_decoder := ex_decoder e1\<rparr>"
  consider "e1 = ?f" "int (ex_segmentIndex ex + 1) \<le> ck_completedSegments (ex_state ex)"
    | "summarise config a io n t ?f = (e1, Inr ())" "\<not> int (ex_segmentIndex ex + 1) \<le> ck_completedSegments (ex_state ex)"
    using assms(1) t by (auto simp: segmentStep_def Let_def split: if_splits)
  then show ?thesis
  proof cases
    case 1
    then obtain d where "e1 = ex\<lparr>ex_segmentIndex := ex_segmentIndex ex + 1,
        ex_processedBytes := ex_processedBytes ex + int (length x), ex_decoder := d\<rparr>" by blast
    with 1(2) assms(2) show ?thesis by (simp add: level_def)
  next
    case 2
    then show ?thesis using assms(2)
      by (auto simp: summarise_def emitCheckpoint_def level_def sameWork_def split: prod.splits sum.splits option.splits
          dest!: invoke_fields recordResult_fields)
  qed
qed

lemma level_fold: "foldS (segmentStep config a io n) ex xs = (e1, Inr ()) \<Longrightarrow> level ex \<Longrightarrow> level e1"
proof (induction xs arbitrary: ex)
  case (Cons x xs)
  then obtain f where "segmentStep config a io n ex x = (f, Inr ())" "foldS (segmentStep config a io n) f xs = (e1, Inr ())"
    by (auto split: prod.splits sum.splits)
  with Cons level_step show ?case by blast
qed simp

text \<open>The state an execution starts from.\<close>

lemma initial_fresh: "initialState (a\<lparr>as_resume_from_segment := 0\<rparr>) c n = Inr (freshState a n)"
  by (auto simp: initialState_def freshState_def Let_def split: option.splits)

lemma initial_resumed:
  assumes "initialState (a\<lparr>as_resume_from_segment := k\<rparr>) (Some c) n = Inr s" "k \<noteq> 0"
  shows "s = c"
  using assms by (auto simp: initialState_def Let_def split: if_splits)

lemma execute_cases:
  assumes "executeArtifact hash sha256Text sha256 hmac config io t (a\<lparr>as_resume_from_segment := k\<rparr>) chunks c = ((emitted, requests), outcome)"
    and "c' \<in> set emitted"
  shows "validateAssignment a config = Inr () \<and> 16384 \<le> segmentBytesOf config a \<and>
    (\<exists>s e1 r. initialState (a\<lparr>as_resume_from_segment := k\<rparr>) c (totalSegmentsOf (segmentBytesOf config a) a) = Inr s \<and>
      mapPhase hash config a io chunks (segmentBytesOf config a) (startOf s) = (e1, r) \<and>
      (c' \<in> set (ex_emitted e1) \<or> (\<exists>content. r = Inr content) \<and> length (ck_summaries c') < length (ck_summaries (ex_state e1)) \<and>
        ck_completedSegments c' = ck_completedSegments (ex_state e1)))"
proof -
  let ?seg = "segmentBytesOf config a"
  let ?n = "totalSegmentsOf ?seg a"
  have v: "validateAssignment a config = Inr ()" "16384 \<le> ?seg"
    using assms by (auto simp: executeArtifact_def Let_def split: sum.splits if_splits)
  from assms v obtain s where s: "initialState (a\<lparr>as_resume_from_segment := k\<rparr>) c ?n = Inr s"
    by (cases "initialState (a\<lparr>as_resume_from_segment := k\<rparr>) c ?n") (auto simp: executeArtifact_def Let_def)
  obtain e1 r where m: "mapPhase hash config a io chunks ?seg (startOf s) = (e1, r)" by fastforce
  have "c' \<in> set (ex_emitted e1) \<or> (\<exists>content. r = Inr content) \<and> length (ck_summaries c') < length (ck_summaries (ex_state e1)) \<and>
        ck_completedSegments c' = ck_completedSegments (ex_state e1)"
  proof (cases r)
    case (Inl e)
    with assms v s m show ?thesis by (simp add: executeArtifact_def Let_def)
  next
    case (Inr content)
    obtain e2 q where l: "reduceLoop config a io (nat ?seg) 0 e1 = (e2, q)" by fastforce
    with assms v s m Inr have "emitted = ex_emitted e2" by (cases q) (auto simp: executeArtifact_def Let_def)
    with reduceLoop_emitted [OF l] assms(2) Inr show ?thesis by blast
  qed
  with v s m show ?thesis by blast
qed

lemma mapPhase_fold:
  assumes "mapPhase hash config a io (take m chunks) seg ex = (e1, r)" "0 < seg" "matching hash (as_chunks a) chunks"
    "int (length (concat (map snd chunks))) = as_size_bytes a"
  shows "\<exists>segs q. prefix segs (chop (nat seg) (concat (map snd chunks))) \<and>
    foldS (segmentStep config a io (totalSegmentsOf seg a)) ex segs = (e1, q) \<and> (\<forall>content. r = Inr content \<longrightarrow> q = Inr ())"
proof -
  have n: "0 < nat seg" using assms(2) by simp
  have full: "byteSegments hash (nat seg) (as_size_bytes a) None (as_chunks a) [] [] chunks =
      (chop (nat seg) ([] @ concat (map snd chunks)), Inr ([] @ concat (map snd chunks)))"
    using assms(4) n by (intro byteSegments_complete [OF n assms(3)]) simp_all
  obtain segs ending where b: "byteSegments hash (nat seg) (as_size_bytes a) (io_ending io) (as_chunks a) [] [] (take m chunks) = (segs, ending)"
    by fastforce
  have "prefix segs (chop (nat seg) (concat (map snd chunks)))"
    using byteSegments_prefix [OF full, of "io_ending io" m] b by simp
  with mapPhase_cases [OF assms(1) b] show ?thesis by blast
qed

lemma saved_reached:
  assumes "saved hash sha256Text sha256 hmac config p a chunks c" "matching hash (as_chunks a) chunks"
    "int (length (concat (map snd chunks))) = as_size_bytes a" "c = Some s"
  shows "validateAssignment a config = Inr () \<and> 16384 \<le> segmentBytesOf config a \<and>
    (\<exists>k. reached config a p (totalSegmentsOf (segmentBytesOf config a) a) (chop (nat (segmentBytesOf config a)) (concat (map snd chunks))) k s)"
  using assms
proof (induction arbitrary: s)
  case (attempt c io t m emitted requests outcome c')
  let ?seg = "segmentBytesOf config a"
  let ?n = "totalSegmentsOf ?seg a" and ?segs = "chop (nat ?seg) (concat (map snd chunks))"
  from execute_cases [OF attempt.hyps(3,4)] obtain s0 e1 r where
    v: "validateAssignment a config = Inr ()" "16384 \<le> ?seg"
    and s0: "initialState (a\<lparr>as_resume_from_segment := completedOf c\<rparr>) c ?n = Inr s0"
    and m: "mapPhase hash config a io (take m chunks) ?seg (startOf s0) = (e1, r)"
    and em: "c' \<in> set (ex_emitted e1) \<or> (\<exists>content. r = Inr content) \<and> length (ck_summaries c') < length (ck_summaries (ex_state e1)) \<and>
        ck_completedSegments c' = ck_completedSegments (ex_state e1)" by blast
  have "0 < ?seg" using v(2) by simp
  from mapPhase_fold [OF m this attempt.prems(1,2)] obtain segs q where
    f: "prefix segs ?segs" "foldS (segmentStep config a io ?n) (startOf s0) segs = (e1, q)" "\<And>content. r = Inr content \<Longrightarrow> q = Inr ()"
    by blast
  have "(\<exists>k. reached config a p ?n ?segs k s0) \<or> s0 = freshState a ?n"
  proof (cases c)
    case None
    then have "s0 = freshState a ?n" using s0 initial_fresh [of a c ?n] by (simp add: completedOf_def)
    then show ?thesis by simp
  next
    case (Some d)
    with attempt.IH attempt.prems(1,2) obtain k where k: "reached config a p ?n ?segs k d" by blast
    then have "completedOf c \<noteq> 0" using Some reached_state [OF k] by (auto simp: completedOf_def reached_def)
    with initial_resumed s0 Some k show ?thesis by blast
  qed
  then have s: "level (startOf s0) \<and> (c' \<in> set (ex_emitted e1) \<longrightarrow> (\<exists>k. reached config a p ?n ?segs k c'))"
    using emitted_fresh [OF _ attempt.hyps(2) f(1)] emitted_resumed [OF _ f(2) attempt.hyps(2) f(1)] f(2) reached_state
    by (fastforce simp: level_def freshState_def)
  moreover have "c' \<in> set (ex_emitted e1)"
  proof (rule ccontr)
    assume "c' \<notin> set (ex_emitted e1)"
    with em f(3) have "q = Inr ()" "length (ck_summaries c') < length (ck_summaries (ex_state e1))"
      "ck_completedSegments c' = ck_completedSegments (ex_state e1)" by auto
    with level_fold [of config a io ?n "startOf s0" segs e1] f(2) s attempt.hyps(5) show False by (simp add: level_def)
  qed
  ultimately show ?case using v attempt.prems(3) by auto
qed simp

text \<open>
  C13: An interrupted file task loses nothing. For a provider that answers the same request the same way,
  resuming from any checkpoint that was written after a segment, by any sequence of attempts that broke
  off anywhere (abort, lost connection, failing checkpoint), gives exactly the outcome of a run without
  interruption: the same output, usage, evidence and signature, or the same error.
\<close>

theorem resume_equivalent:
  assumes "saved hash sha256Text sha256 hmac config p a chunks c"
    and "matching hash (as_chunks a) chunks" "int (length (concat (map snd chunks))) = as_size_bytes a"
    and "answers io p" "keepsCheckpoints io" "io_ending io = None" "nc_maxArtifactBytes config \<le> 256 * 1024 * 1024"
  shows "snd (executeArtifact hash sha256Text sha256 hmac config io t (a\<lparr>as_resume_from_segment := completedOf c\<rparr>) chunks c) =
    snd (executeArtifact hash sha256Text sha256 hmac config io t (a\<lparr>as_resume_from_segment := 0\<rparr>) chunks None)"
proof (cases c)
  case None
  then show ?thesis by (simp add: completedOf_def)
next
  case (Some s)
  let ?seg = "segmentBytesOf config a" and ?content = "concat (map snd chunks)"
  let ?n = "totalSegmentsOf ?seg a" and ?segs = "chop (nat ?seg) ?content"
  from saved_reached [OF assms(1-3) Some] obtain k where v: "validateAssignment a config = Inr ()" "16384 \<le> ?seg"
    and k: "reached config a p ?n ?segs k s" by blast
  note st = reached_state [OF k]
  have n0: "0 < nat ?seg" using v(2) by simp
  have len: "int (length ?segs) = ?n"
    using v(2) assms(3) length_chop [OF n0, of ?content] by (simp add: totalSegmentsOf_def zdiv_int nat_diff_split of_nat_diff)
  have "?n \<le> 100000"
  proof -
    have "as_size_bytes a \<le> 268435456" using v(1) assms(7) by (auto simp: validateAssignment_def split: if_splits)
    then have "?n \<le> (268435456 + ?seg - 1) div ?seg" unfolding totalSegmentsOf_def using v(2) by (intro zdiv_mono1) simp_all
    also have "\<dots> \<le> 268435456 div 16384 + 1" 
    proof -
      have z: "(268435455 :: int) div ?seg \<le> 268435455 div 16384" using v(2) by (intro zdiv_mono2) simp_all
      have "(268435456 + ?seg - 1) div ?seg = (268435455) div ?seg + 1" using v(2) by (simp add: algebra_simps div_add_self2)
      also have "\<dots> \<le> 268435455 div 16384 + 1" using z by simp
      finally show ?thesis by simp
    qed
    finally show ?thesis by simp
  qed
  moreover have kn: "0 < k" "k \<le> length ?segs" using k by (simp_all add: reached_def)
  ultimately have init: "initialState (a\<lparr>as_resume_from_segment := int k\<rparr>) (Some s) ?n = Inr s"
    using st len by (auto simp: initialState_def Let_def)
  have full: "byteSegments hash (nat ?seg) (as_size_bytes a) None (as_chunks a) [] [] chunks = (?segs, Inr ?content)"
    using byteSegments_complete [OF n0 assms(2), of "[]" "as_size_bytes a" "[]"] assms(3) n0 by simp
  let ?F = "foldS (segmentStep config a io ?n)"
  obtain e1 r1 where e1: "?F (startOf (freshState a ?n)) (take k ?segs) = (e1, r1)" by fastforce
  obtain e2 r2 where e2: "?F (startOf s) (take k ?segs) = (e2, r2)" by fastforce
  note tog = resumed_together [OF k assms(4,5) e1 e2]
  obtain f1 q1 where f1: "?F (startOf (freshState a ?n)) ?segs = (f1, q1)" by fastforce
  obtain f2 q2 where f2: "?F (startOf s) ?segs = (f2, q2)" by fastforce
  have parts: "(x', r'') = (case (y, r') of (s1, Inl e) \<Rightarrow> (s1, Inl e) | (s1, Inr u) \<Rightarrow> ?F s1 (drop k ?segs))"
    if "?F x ?segs = (x', r'')" "?F x (take k ?segs) = (y, r')" for x x' r'' y r'
    unfolding that [symmetric] foldS_append [symmetric] by simp
  have same: "q2 = q1 \<and> (q1 = Inr () \<longrightarrow> sameWork f1 f2)"
  proof (cases r1)
    case (Inl e)
    with tog have "r2 = Inl e" by simp
    with parts [OF f1 e1] parts [OF f2 e2] Inl show ?thesis by simp
  next
    case (Inr u)
    with tog have "sameWork e1 e2" "r2 = Inr ()" by auto
    with parts [OF f1 e1] parts [OF f2 e2] Inr
    have "?F e1 (drop k ?segs) = (f1, q1)" "?F e2 (drop k ?segs) = (f2, q2)" by simp_all
    from fold_same [OF \<open>sameWork e1 e2\<close> assms(4,5) this] show ?thesis by simp
  qed
  have "snd (mapPhase hash config a io chunks ?seg (startOf s)) = snd (mapPhase hash config a io chunks ?seg (startOf (freshState a ?n))) \<and>
    (\<forall>content. snd (mapPhase hash config a io chunks ?seg (startOf s)) = Inr content \<longrightarrow>
      sameWork (fst (mapPhase hash config a io chunks ?seg (startOf (freshState a ?n)))) (fst (mapPhase hash config a io chunks ?seg (startOf s))))"
    using same f1 f2 full assms(6) by (cases q1) (auto simp: mapPhase_def sameWork_def)
  then obtain g1 g2 r where g: "mapPhase hash config a io chunks ?seg (startOf (freshState a ?n)) = (g1, r)"
    "mapPhase hash config a io chunks ?seg (startOf s) = (g2, r)" "\<And>content. r = Inr content \<Longrightarrow> sameWork g1 g2"
    by (metis prod.collapse)
  show ?thesis
  proof (cases r)
    case (Inl e)
    with v g init initial_fresh [of a None ?n] Some st show ?thesis
      by (simp add: executeArtifact_def Let_def completedOf_def)
  next
    case (Inr content)
    obtain h1 p1 h2 p2 where h: "reduceLoop config a io (nat ?seg) 0 g1 = (h1, p1)" "reduceLoop config a io (nat ?seg) 0 g2 = (h2, p2)" by fastforce
    from reduceLoop_same [OF g(3) [OF Inr] assms(4,5) h] have "ex_state h2 = ex_state h1" "p2 = p1" by (simp_all add: sameWork_def)
    with v g h Inr init initial_fresh [of a None ?n] Some st show ?thesis
      by (cases p1) (simp_all add: executeArtifact_def Let_def completedOf_def)
  qed
qed

end
