(* ===== verification/ArtifactReduce.thy ===== *)
theory ArtifactReduce
  imports ArtifactResume Evidence
begin

text \<open>
  The requests of the reduction: the identifier of a request, which the adapter sends to the provider as the
  idempotency key, names the round and the group, and the rounds are counted from one again after a
  checkpoint is resumed.
\<close>

section \<open>Prompts\<close>

lemma textOf_append [simp]: "textOf (s @ t) = textOf s @ textOf t"
  by (simp add: textOf_def)

lemma textOf_Cons: "textOf (c # s) = of_nat (of_char c) # textOf s"
  by (simp add: textOf_def)

lemma char_unit_inject: "(of_nat (of_char c) :: 16 word) = of_nat (of_char d) \<longleftrightarrow> c = d"
proof
  assume "(of_nat (of_char c) :: 16 word) = of_nat (of_char d)"
  then have "(of_char c :: nat) mod 65536 = of_char d mod 65536" by (simp add: word_of_nat_eq_iff take_bit_eq_mod)
  moreover have "(of_char c :: nat) < 256" "(of_char d :: nat) < 256" using of_char_mod_256 [of c] of_char_mod_256 [of d]
    by (metis mod_less_divisor zero_less_numeral)+
  ultimately show "c = d" by simp
qed simp

lemma textOf_inject: "textOf s = textOf t \<longleftrightarrow> s = t"
  unfolding textOf_def by (rule inj_map_eq_map) (simp add: inj_def char_unit_inject)

lemma line_inject: "x \<notin> set xs \<Longrightarrow> x \<notin> set ys \<Longrightarrow> xs @ x # u = ys @ x # v \<Longrightarrow> xs = ys"
proof (induction xs arbitrary: ys)
  case Nil
  then show ?case by (cases ys) auto
next
  case (Cons c xs)
  then show ?case by (cases ys) auto
qed

lemma newline_unit: "(10 :: 16 word) = of_nat (of_char (CHR 0x0A))"
  by simp

lemma dec_line: "10 \<notin> set (textOf (dec_of_nat n))"
proof -
  have "CHR 0x0A \<notin> set (dec_of_nat n)" by (rule dec_of_nat_no) (simp add: is_digit_def)
  then show ?thesis unfolding newline_unit by (auto simp only: textOf_def set_map image_iff char_unit_inject)
qed

lemma reducePrompt_groups:
  assumes "reducePrompt a xs rnd grp n = reducePrompt a ys rnd grp m"
  shows "n = m"
proof -
  have nl: "NEWLINE = [10]" by (simp add: NEWLINE_def NL_def textOf_def)
  from assms have "\<exists>u v. textOf (dec_of_nat n) @ 10 # u = textOf (dec_of_nat m) @ 10 # v"
    by (simp add: reducePrompt_def nl textOf_Cons) blast
  with line_inject [OF dec_line dec_line] show ?thesis by (metis textOf_inject dec_of_nat_inject)
qed

section \<open>Requests\<close>

definition reduceRequestId :: "SupplierArtifactAssignment \<Rightarrow> nat \<Rightarrow> nat \<Rightarrow> string" where
  "reduceRequestId a rnd i = as_task_id a @ '':reduce:'' @ dec_of_nat rnd @ '':'' @ dec_of_nat i"

lemma reduceStep_request:
  "reduceStep config a io rnd n (ex, red) (i, g) = ((e1, red1), r) \<Longrightarrow>
   ex_requests e1 = ex_requests ex \<and> r \<noteq> Inr () \<or>
   (\<exists>q. ex_requests e1 = ex_requests ex @ [q] \<and> ar_request_id q = reduceRequestId a rnd (i + 1) \<and> ar_input q = reducePrompt a g rnd (i + 1) n)"
  by (auto simp: reduceStep_def invokeBounded_def reduceRequestId_def Let_def split: prod.splits sum.splits if_splits)

lemma reduceFold_prefix:
  "foldS (reduceStep config a io rnd n) s gs = (s1, r) \<Longrightarrow> prefix (ex_requests (fst s)) (ex_requests (fst s1))"
proof (induction gs arbitrary: s)
  case (Cons g gs)
  obtain ex red i h where s: "s = (ex, red)" "g = (i, h)" by (metis prod.collapse)
  obtain f x q where f: "reduceStep config a io rnd n (ex, red) (i, h) = ((f, x), q)" by (metis prod.collapse)
  have p: "prefix (ex_requests ex) (ex_requests f)" using reduceStep_request [OF f] by auto
  show ?case
  proof (cases q)
    case (Inl e)
    with Cons.prems f s p show ?thesis by auto
  next
    case (Inr u)
    with Cons.prems f s have "foldS (reduceStep config a io rnd n) (f, x) gs = (s1, r)" by simp
    from Cons.IH [OF this] p s show ?thesis by (auto intro: prefix_order.trans)
  qed
qed simp

text \<open>The first request of a round.\<close>

lemma reduceRound_request:
  assumes "reduceRound config a io seg rnd ex = (e1, r)"
  shows "ex_requests e1 = ex_requests ex \<and> (r = Inr () \<longrightarrow> ck_summaries (ex_state e1) = []) \<or>
    (\<exists>gs q rest. groupSummaries (ck_summaries (ex_state ex)) (int seg) = Inr gs \<and> (r = Inr () \<longrightarrow> length (ck_summaries (ex_state e1)) = length gs) \<and>
      ex_requests e1 = ex_requests ex @ q # rest \<and> ar_request_id q = reduceRequestId a rnd 1 \<and>
      ar_input q = reducePrompt a (hd gs) rnd 1 (length gs))"
proof (cases "groupSummaries (ck_summaries (ex_state ex)) (int seg)")
  case (Inl e)
  with assms show ?thesis by (auto simp: reduceRound_def)
next
  case (Inr gs)
  obtain f x q where f: "foldS (reduceStep config a io rnd (length gs)) (ex, []) (enumerate 0 gs) = ((f, x), q)" by (metis prod.collapse)
  have e: "ex_requests e1 = ex_requests f" "r = Inr () \<Longrightarrow> q = Inr () \<and> ck_summaries (ex_state e1) = x"
    using assms Inr f by (cases q; auto simp: reduceRound_def emitCheckpoint_def)+
  have len: "r = Inr () \<Longrightarrow> length x = length gs" using reduceFold_fields [OF f] e(2) by simp
  show ?thesis
  proof (cases gs)
    case Nil
    with f e show ?thesis by auto
  next
    case (Cons g gs')
    obtain h y p where h: "reduceStep config a io rnd (length gs) (ex, []) (0, g) = ((h, y), p)" by (metis prod.collapse)
    have "prefix (ex_requests h) (ex_requests f)" "p = Inr () \<or> q \<noteq> Inr () \<and> ex_requests f = ex_requests h"
      using f h Cons reduceFold_prefix [of config a io rnd "length gs" "(h, y)" "enumerate 1 gs'" "(f, x)" q] by (cases p; auto)+
    with reduceStep_request [OF h] e len Inr Cons show ?thesis by (fastforce simp: prefix_def)
  qed
qed

lemma reduceLoop_prefix:
  "reduceLoop config a io seg rnd ex = (e1, r) \<Longrightarrow> prefix (ex_requests ex) (ex_requests e1)"
proof (induction "32 - rnd" arbitrary: rnd ex)
  case 0
  then show ?case by (auto simp: reduceLoop.simps [of config a io seg rnd] split: if_splits)
next
  case (Suc k)
  obtain f q where f: "reduceRound config a io seg (rnd + 1) ex = (f, q)" by fastforce
  have p: "prefix (ex_requests ex) (ex_requests f)" using reduceRound_request [OF f] by auto
  have k: "\<not> 32 < rnd + 1" "k = 32 - (rnd + 1)" using Suc.hyps(2) by simp_all
  show ?case
  proof (cases "length (ck_summaries (ex_state ex)) > 1 \<and> q = Inr ()")
    case True
    with Suc.prems f k have "reduceLoop config a io seg (rnd + 1) f = (e1, r)" by (simp add: reduceLoop.simps [of config a io seg rnd])
    with Suc.hyps(1) [OF k(2)] p show ?thesis by (auto intro: prefix_order.trans)
  next
    case False
    with Suc.prems f k p show ?thesis by (cases q) (auto simp: reduceLoop.simps [of config a io seg rnd] split: if_splits)
  qed
qed

text \<open>
  C38: A reduction that is resumed from a checkpoint reuses the identifier of a request that was already sent,
  for another prompt. The checkpoint after a round keeps the summaries of the round but not its number, so
  the resumed task counts the rounds from one: its first request has the identifier \<open>reduce:1:1\<close> of the first
  request of the first round, although it is about the summaries that round produced.
\<close>

theorem resumed_reduction_reuses_key:
  assumes "reduceRound config a io seg 1 ex = (e1, Inr ())" "1 < length (ck_summaries (ex_state e1))"
    and "reduceLoop config a io' seg 0 rx = (e2, r)" "ex_state rx = ex_state e1" "ex_requests e2 \<noteq> ex_requests rx"
  shows "\<exists>q1 rest1 q2 rest2. ex_requests e1 = ex_requests ex @ q1 # rest1 \<and> ex_requests e2 = ex_requests rx @ q2 # rest2 \<and>
    ar_request_id q2 = ar_request_id q1 \<and> ar_input q2 \<noteq> ar_input q1"
proof -
  have n: "ck_summaries (ex_state e1) \<noteq> []" using assms(2) by auto
  with reduceRound_request [OF assms(1)] obtain gs q1 rest1 where q1: "length (ck_summaries (ex_state e1)) = length gs"
    "ex_requests e1 = ex_requests ex @ q1 # rest1" "ar_request_id q1 = reduceRequestId a 1 1" "ar_input q1 = reducePrompt a (hd gs) 1 1 (length gs)"
    by auto
  obtain f q where f: "reduceRound config a io' seg 1 rx = (f, q)" by fastforce
  have loop: "(e2, r) = (case q of Inl e \<Rightarrow> (f, Inl e) | Inr u \<Rightarrow> reduceLoop config a io' seg 1 f)"
    using assms(2-4) f by (auto simp: reduceLoop.simps [of config a io' seg 0] split: sum.splits)
  have grows: "prefix (ex_requests f) (ex_requests e2)"
  proof (cases q)
    case (Inl e)
    with loop show ?thesis by simp
  next
    case (Inr u)
    with loop show ?thesis by (metis reduceLoop_prefix sum.case(2))
  qed
  have "ex_requests f \<noteq> ex_requests rx"
  proof
    assume same: "ex_requests f = ex_requests rx"
    with reduceRound_request [OF f] have "q = Inr () \<longrightarrow> ck_summaries (ex_state f) = []" by auto
    with loop have "e2 = f" by (cases q) (simp_all add: reduceLoop.simps [of config a io' seg "Suc 0"])
    with same assms(5) show False by simp
  qed
  with reduceRound_request [OF f] obtain gs' q2 rest where q2: "groupSummaries (ck_summaries (ex_state rx)) (int seg) = Inr gs'"
    "ex_requests f = ex_requests rx @ q2 # rest" "ar_request_id q2 = reduceRequestId a 1 1" "ar_input q2 = reducePrompt a (hd gs') 1 1 (length gs')"
    by auto
  have "length gs' < length gs" using groupSummaries_length [OF q2(1)] assms(2,4) q1(1) by simp
  then have "ar_input q2 \<noteq> ar_input q1" unfolding q1(4) q2(4) by (metis reducePrompt_groups less_irrefl)
  moreover obtain rest2 where "ex_requests e2 = ex_requests rx @ q2 # rest2" using grows q2(2) by (auto simp: prefix_def)
  ultimately show ?thesis using q1(2,3) q2(3) by metis
qed

end
