(* ===== verification/ArtifactScenario.thy ===== *)
theory ArtifactScenario
  imports ArtifactReduce ArtifactBounds NodeScenario
begin

text \<open>
  Runs of the executor of artifact tasks on a small file: instances of its theorems with their hypotheses
  discharged. The hash functions are constant, which is allowed by what the theorems assume of them.
\<close>

lemma utf8Length_le: "utf8Length t \<le> 3 * length t"
  by (induction t rule: utf8Length.induct) auto

definition fileConfig :: SupplierNodeConfig where
  "fileConfig = \<lparr>nc_gatewayToken = ''secret-token'', nc_providerId = ''provider-1'', nc_allowedModels = [''m''],
     nc_allowedDataClasses = [''P0''], nc_requestsPerMinute = 10, nc_tokensPerMinute = 1000, nc_concurrency = 4,
     nc_maxOutputTokens = 100, nc_maxInputBytes = 100000, nc_maxArtifactBytes = 1000, nc_artifactSegmentBytes = 16384\<rparr>"

definition fileDigest :: string where
  "fileDigest = replicate 64 CHR ''a''"

definition fileTask :: SupplierArtifactAssignment where
  "fileTask = \<lparr>as_protocol_version = ''gongsuanyun.artifact-worker.v2'', as_task_id = ''task-1'', as_lease_token = ''lease-1'', as_resume_from_segment = 0,
     as_privacy_mode = ''standard'', as_model = ''m'', as_instruction = textOf ''sum up'', as_data_class = ''P0'',
     as_max_output_tokens = 50, as_max_total_tokens = 200, as_artifact_id = ''artifact-1'', as_file_name = textOf ''a.txt'',
     as_media_type = ''text/plain'', as_size_bytes = 2, as_manifest_sha256 = fileDigest,
     as_chunks = [\<lparr>chunk_partNumber = 1, chunk_sizeBytes = 2, chunk_sha256 = fileDigest\<rparr>]\<rparr>"

definition fileChunks :: "SupplierArtifactChunk list" where
  "fileChunks = [(1, [111, 107])]"

text \<open>A provider that always gives the same answer.\<close>

definition fileAnswer :: ArtifactProviderResult where
  "fileAnswer = \<lparr>ap_output = Some (textOf ''yes''), ap_providerRequestId = Some ''r'', ap_servedModel = Some ''m'',
     ap_inputTokens = NInt 5, ap_outputTokens = NInt 2, ap_totalTokens = NInt 7\<rparr>"

definition fileProvider :: "ArtifactRequest \<Rightarrow> nodeError + ArtifactProviderResult" where
  "fileProvider r = Inr fileAnswer"

text \<open>A run whose first checkpoint is written, but not confirmed.\<close>

definition brokenIo :: ArtifactIo where
  "brokenIo = (idealIo fileProvider)\<lparr>io_checkpoint := \<lambda>cs. Some (SupplierNodeError INTERNAL_ERROR 500 False)\<rparr>"

definition fileCheckpoint :: SupplierArtifactCheckpointState where
  "fileCheckpoint = \<lparr>ck_version = CHECKPOINT_VERSION, ck_taskId = ''task-1'', ck_artifactManifestSha256 = fileDigest,
     ck_completedSegments = 1, ck_totalSegments = 1, ck_processedBytes = 2, ck_summaries = [textOf ''yes''],
     ck_providerRequestIds = [''r''], ck_usage = \<lparr>input_tokens = 5, output_tokens = 2, total_tokens = 7\<rparr>\<rparr>"

lemma file_limits: "validateAssignment fileTask fileConfig = Inr ()" "segmentBytesOf fileConfig fileTask = 16384"
  "totalSegmentsOf 16384 fileTask = 1" "initialState fileTask None 1 = Inr (freshState fileTask 1)"
proof -
  have "isSha256 fileDigest" using one_hex by (simp add: fileDigest_def)
  then show "validateAssignment fileTask fileConfig = Inr ()"
    by (simp add: validateAssignment_def fileTask_def fileConfig_def SUPPLIER_ARTIFACT_WORKER_PROTOCOL_VERSION_def
        ARTIFACT_SUPPORTED_MEDIA_TYPES_def textOf_def dbl_def throwIf_def andThen_def MAX_SAFE_INTEGER_def)
  have "utf8Length (textOf ''sum up'') \<le> 18" using utf8Length_le [of "textOf ''sum up''"] by (simp add: textOf_def)
  then show "segmentBytesOf fileConfig fileTask = 16384" by (simp add: segmentBytesOf_def fileTask_def fileConfig_def)
  show "totalSegmentsOf 16384 fileTask = 1" by (simp add: totalSegmentsOf_def fileTask_def)
  show "initialState fileTask None 1 = Inr (freshState fileTask 1)" by (simp add: initialState_def freshState_def)
qed

lemma file_segments:
  "byteSegments (\<lambda>b. fileDigest) 16384 2 None (as_chunks fileTask) [] [] fileChunks = ([[111, 107]], Inr [111, 107])"
  by (simp add: fileChunks_def fileTask_def cutSegments.simps)

lemma file_decode: "decodeText newDecoder [111, 107] False = Some (newDecoder, textOf ''ok'')"
  by (simp add: decodeText_def decodeByte_def newDecoder_def finishCodePoint_def utf16_def textOf_def)

lemma file_prompt: "int (utf8Length (mapPrompt fileTask (textOf ''ok'') 1 1)) \<le> 100000"
proof -
  have "length (mapPrompt fileTask (textOf ''ok'') 1 1) \<le> 1000"
    by (simp add: mapPrompt_def fileTask_def textOf_def MAP_INTRODUCTION_def USER_TASK_def FILE_LABEL_def OPEN_PAREN_def CLOSE_PAREN_def
        CURRENT_SEGMENT_def MAP_REQUEST_def NEWLINE_def NL_def numString_def eval_simps)
  then show ?thesis using utf8Length_le [of "mapPrompt fileTask (textOf ''ok'') 1 1"] by linarith
qed

definition fileRequest :: ArtifactRequest where
  "fileRequest = \<lparr>ar_request_id = ''task-1:map:1'', ar_model = ''m'', ar_input = mapPrompt fileTask (textOf ''ok'') 1 1,
     ar_data_class = ''P0'', ar_max_output_tokens = 50\<rparr>"

lemma file_step:
  assumes "io_provider io = (\<lambda>n. fileProvider)" "\<not> io_aborted io 0"
  shows "segmentStep fileConfig fileTask io 1 (startOf (freshState fileTask 1)) [111, 107] =
    (\<lparr>ex_state = fileCheckpoint, ex_segmentIndex = 1, ex_processedBytes = 2, ex_decoder = newDecoder, ex_emitted = [fileCheckpoint],
       ex_requests = [fileRequest]\<rparr>, case io_checkpoint io [fileCheckpoint] of None \<Rightarrow> Inr () | Some e \<Rightarrow> Inl e)"
proof -
  have i: "invokeBounded fileConfig fileTask io ''task-1:map:1'' (mapPrompt fileTask (textOf ''ok'') 1 1) 50 ex =
      (ex\<lparr>ex_requests := ex_requests ex @ [fileRequest]\<rparr>, Inr fileAnswer)" if "ck_usage (ex_state ex) = emptyUsage" for ex
    using file_prompt that assms(1)
    by (simp add: invokeBounded_def fileTask_def fileConfig_def emptyUsage_def fileRequest_def fileProvider_def andThen_def
        validateArtifactProviderResult_def fileAnswer_def textIn_def textOf_def dbl_def MAX_SAFE_INTEGER_def)
  have r: "recordResult fileTask fileAnswer st = (st\<lparr>ck_providerRequestIds := ck_providerRequestIds st @ [''r''],
      ck_usage := \<lparr>input_tokens = 5, output_tokens = 2, total_tokens = 7\<rparr>\<rparr>, Inr ())" if "ck_usage st = emptyUsage" for st
    using that by (simp add: recordResult_def addUsage_def resultUsage_def fileAnswer_def fileTask_def emptyUsage_def throwIf_def dbl_def MAX_SAFE_INTEGER_def Let_def)
  have f: "ck_completedSegments (freshState fileTask 1) = 0"
    "ck_summaries (freshState fileTask 1) = []" "as_task_id fileTask = ''task-1''" "as_max_output_tokens fileTask = 50" "the (ap_output fileAnswer) = textOf ''yes''"
    by (simp_all add: freshState_def fileTask_def fileAnswer_def)
  have c: "(freshState fileTask 1)\<lparr>ck_completedSegments := 1, ck_processedBytes := 2, ck_summaries := [textOf ''yes''],
      ck_providerRequestIds := [''r''], ck_usage := \<lparr>input_tokens = 5, output_tokens = 2, total_tokens = 7\<rparr>\<rparr> = fileCheckpoint"
    by (simp add: freshState_def fileCheckpoint_def fileTask_def)
  have "ck_usage (freshState fileTask 1) = emptyUsage" by (simp add: freshState_def)
  with assms(2) show ?thesis
    unfolding c [symmetric] by (simp add: segmentStep_def file_decode summarise_def Let_def f i r emitCheckpoint_def eval_simps)
      (simp add: freshState_def)
qed


lemma file_map:
  assumes "io_provider io = (\<lambda>n. fileProvider)" "\<not> io_aborted io 0" "io_ending io = None"
  shows "mapPhase (\<lambda>b. fileDigest) fileConfig fileTask io fileChunks 16384 (startOf (freshState fileTask 1)) =
    (\<lparr>ex_state = fileCheckpoint, ex_segmentIndex = 1, ex_processedBytes = 2, ex_decoder = newDecoder, ex_emitted = [fileCheckpoint],
       ex_requests = [fileRequest]\<rparr>, case io_checkpoint io [fileCheckpoint] of None \<Rightarrow> Inr [111, 107] | Some e \<Rightarrow> Inl (catchTypeError e))"
proof -
  have "as_size_bytes fileTask = 2" by (simp add: fileTask_def)
  moreover have "decodeText newDecoder [] False = Some (newDecoder, [])" by (simp add: decodeText_def newDecoder_def)
  ultimately show ?thesis
    using assms(3) file_segments file_limits(3) file_step [OF assms(1,2)]
    by (cases "io_checkpoint io [fileCheckpoint]") (simp_all add: mapPhase_def fileCheckpoint_def)
qed

theorem provider_sees_file_once_witness:
  "\<exists>e1. mapPhase (\<lambda>b. fileDigest) fileConfig fileTask (idealIo fileProvider) fileChunks 16384 (startOf (freshState fileTask 1)) =
     (e1, Inr [111, 107]) \<and> length (ex_requests e1) = 1 \<and> decodeText newDecoder [111, 107] False \<noteq> None"
proof -
  have m: "mapPhase (\<lambda>b. fileDigest) fileConfig fileTask (idealIo fileProvider) fileChunks 16384
      (startOf (freshState fileTask (totalSegmentsOf 16384 fileTask))) =
    (\<lparr>ex_state = fileCheckpoint, ex_segmentIndex = 1, ex_processedBytes = 2, ex_decoder = newDecoder, ex_emitted = [fileCheckpoint],
       ex_requests = [fileRequest]\<rparr>, Inr [111, 107])"
    using file_map [of "idealIo fileProvider"] by (simp add: idealIo_def file_limits)
  have "0 < as_size_bytes fileTask" by (simp add: fileTask_def)
  from provider_sees_file_once [OF m _ this] m show ?thesis by (auto simp: file_limits)
qed

lemma file_broken_run:
  "executeArtifact (\<lambda>b. fileDigest) (\<lambda>t. fileDigest) oneHash oneHmac fileConfig brokenIo ''t'' fileTask fileChunks None =
    (([fileCheckpoint], [fileRequest]), Inl (SupplierNodeError INTERNAL_ERROR 500 False))"
  using file_map [of brokenIo] by (simp add: executeArtifact_def file_limits Let_def brokenIo_def idealIo_def catchTypeError_def)

theorem artifact_work_bounded_witness:
  "executeArtifact (\<lambda>b. fileDigest) (\<lambda>t. fileDigest) oneHash oneHmac fileConfig brokenIo ''t'' fileTask fileChunks None =
    (([fileCheckpoint], [fileRequest]), Inl (SupplierNodeError INTERNAL_ERROR 500 False)) \<and> withinLimits fileConfig fileTask fileRequest \<and>
   total_tokens (ck_usage fileCheckpoint) \<le> 200"
  using artifact_work_bounded [OF file_broken_run] file_broken_run by (simp add: resumedTokens_def fileConfig_def [THEN arg_cong [of _ _ nc_maxArtifactBytes]]
      MAX_SAFE_INTEGER_def fileTask_def [THEN arg_cong [of _ _ as_max_total_tokens]])

text \<open>The checkpoint of the run that broke off, and the run resumed from it.\<close>

theorem resume_equivalent_witness:
  "saved (\<lambda>b. fileDigest) (\<lambda>t. fileDigest) oneHash oneHmac fileConfig fileProvider fileTask fileChunks (Some fileCheckpoint) \<and>
   snd (executeArtifact (\<lambda>b. fileDigest) (\<lambda>t. fileDigest) oneHash oneHmac fileConfig (idealIo fileProvider) ''t''
      (fileTask\<lparr>as_resume_from_segment := 1\<rparr>) fileChunks (Some fileCheckpoint)) =
   snd (executeArtifact (\<lambda>b. fileDigest) (\<lambda>t. fileDigest) oneHash oneHmac fileConfig (idealIo fileProvider) ''t''
      (fileTask\<lparr>as_resume_from_segment := 0\<rparr>) fileChunks None)"
proof -
  have t: "fileTask\<lparr>as_resume_from_segment := completedOf None\<rparr> = fileTask" by (simp add: fileTask_def completedOf_def)
  have "answers brokenIo fileProvider" by (simp add: answers_def brokenIo_def idealIo_def)
  moreover have "take 1 fileChunks = fileChunks" by (simp add: fileChunks_def)
  then have "executeArtifact (\<lambda>b. fileDigest) (\<lambda>t. fileDigest) oneHash oneHmac fileConfig brokenIo ''t''
      (fileTask\<lparr>as_resume_from_segment := completedOf None\<rparr>) (take 1 fileChunks) None =
      (([fileCheckpoint], [fileRequest]), Inl (SupplierNodeError INTERNAL_ERROR 500 False))"
    using file_broken_run t by simp
  ultimately have s: "saved (\<lambda>b. fileDigest) (\<lambda>t. fileDigest) oneHash oneHmac fileConfig fileProvider fileTask fileChunks (Some fileCheckpoint)"
    by (rule saved.attempt [OF saved.none]) (simp_all add: fileCheckpoint_def)
  have m: "matching (\<lambda>b. fileDigest) (as_chunks fileTask) fileChunks" "int (length (concat (map snd fileChunks))) = as_size_bytes fileTask"
    by (simp_all add: matching_def fileTask_def fileChunks_def)
  have "nc_maxArtifactBytes fileConfig \<le> 256 * 1024 * 1024" "io_ending (idealIo fileProvider) = None" "completedOf (Some fileCheckpoint) = 1"
    by (simp_all add: fileConfig_def idealIo_def completedOf_def fileCheckpoint_def)
  with resume_equivalent [OF s m ideal_io(1,2), of "''t''"] s show ?thesis by simp
qed

section \<open>A resumed reduction\<close>

text \<open>Four summaries of which two fit into one prompt.\<close>

definition longSummary :: jsText where
  "longSummary = replicate 8000 120"

definition longState :: SupplierArtifactCheckpointState where
  "longState = fileCheckpoint\<lparr>ck_summaries := [longSummary, longSummary, longSummary, longSummary]\<rparr>"

lemma utf8Length_replicate: "utf8Length (replicate n 120) = n"
proof (induction n)
  case (Suc n)
  then show ?case by (cases n) (simp_all add: isHighSurrogate_def)
qed simp

lemma long_groups: "groupSummaries (ck_summaries longState) 16384 = Inr [[longSummary, longSummary], [longSummary, longSummary]]"
  by (simp add: groupSummaries_def longState_def longSummary_def utf8Length_replicate andThen_def Let_def del: replicate.simps)

lemma file_invoke:
  assumes "io_provider io = (\<lambda>n. fileProvider)" "length input \<le> 30000" "total_tokens (ck_usage (ex_state ex)) \<le> 150"
  shows "\<exists>q. invokeBounded fileConfig fileTask io rid input 50 ex = (ex\<lparr>ex_requests := ex_requests ex @ [q]\<rparr>, Inr fileAnswer)"
proof -
  have "int (utf8Length input) \<le> 100000" using utf8Length_le [of input] assms(2) by linarith
  with assms(1,3) show ?thesis
    by (simp add: invokeBounded_def fileTask_def fileConfig_def fileProvider_def andThen_def
        validateArtifactProviderResult_def fileAnswer_def textIn_def textOf_def dbl_def MAX_SAFE_INTEGER_def) blast
qed

lemma file_record:
  assumes "ck_usage st = \<lparr>input_tokens = 5 * k, output_tokens = 2 * k, total_tokens = 7 * k\<rparr>" "0 \<le> k" "k \<le> 10"
  shows "recordResult fileTask fileAnswer st = (st\<lparr>ck_providerRequestIds := ck_providerRequestIds st @ [''r''],
      ck_usage := \<lparr>input_tokens = 5 * (k + 1), output_tokens = 2 * (k + 1), total_tokens = 7 * (k + 1)\<rparr>\<rparr>, Inr ())"
  using assms by (simp add: recordResult_def addUsage_def resultUsage_def fileAnswer_def fileTask_def throwIf_def MAX_SAFE_INTEGER_def dbl_exact)

lemma reducePrompt_length:
  assumes "length x \<le> 8000" "length y \<le> 8000"
  shows "length (reducePrompt fileTask [x, y] 1 i n) \<le> 20000 + length (dec_of_nat i) + length (dec_of_nat n)"
  using assms by (simp add: reducePrompt_def fileTask_def textOf_def REDUCE_INTRODUCTION_def USER_TASK_def REDUCE_ROUND_def REDUCE_GROUP_def
      REDUCE_FINAL_def REDUCE_NEXT_def NEWLINE_def NL_def eval_simps)

lemma file_reduceStep:
  assumes "io_provider io = (\<lambda>n. fileProvider)" "length x \<le> 8000" "length y \<le> 8000" "i < 9" "n < 10"
    "ck_usage (ex_state ex) = \<lparr>input_tokens = 5 * k, output_tokens = 2 * k, total_tokens = 7 * k\<rparr>" "0 \<le> k" "k \<le> 10"
  shows "\<exists>ex' q. reduceStep fileConfig fileTask io 1 n (ex, red) (i, [x, y]) = ((ex', red @ [textOf ''yes'']), Inr ()) \<and>
    ck_usage (ex_state ex') = \<lparr>input_tokens = 5 * (k + 1), output_tokens = 2 * (k + 1), total_tokens = 7 * (k + 1)\<rparr> \<and>
    ex_requests ex' = ex_requests ex @ [q]"
proof -
  have o: "as_max_output_tokens fileTask = 50" "the (ap_output fileAnswer) = textOf ''yes''" by (simp_all add: fileTask_def fileAnswer_def)
  have "length (dec_of_nat (i + 1)) = 1" "length (dec_of_nat n) = 1" using assms(4,5) by (simp_all add: dec_of_nat.simps)
  with reducePrompt_length [OF assms(2,3), of "i + 1" n] have "length (reducePrompt fileTask [x, y] 1 (i + 1) n) \<le> 30000" by simp
  from file_invoke [OF assms(1) this, of ex "as_task_id fileTask @ '':reduce:'' @ dec_of_nat 1 @ '':'' @ dec_of_nat (i + 1)"] assms(6,8) obtain q where
    "invokeBounded fileConfig fileTask io (as_task_id fileTask @ '':reduce:'' @ dec_of_nat 1 @ '':'' @ dec_of_nat (i + 1))
      (reducePrompt fileTask [x, y] 1 (i + 1) n) 50 ex = (ex\<lparr>ex_requests := ex_requests ex @ [q]\<rparr>, Inr fileAnswer)" by auto
  then show ?thesis using file_record [OF assms(6-8)] by (simp add: reduceStep_def o)
qed

text \<open>The first round leaves two summaries; resumed from its checkpoint, the task sends another request \<open>reduce:1:1\<close>.\<close>

theorem resumed_reduction_reuses_key_witness:
  "\<exists>e1 e2 r q1 q2. reduceRound fileConfig fileTask (idealIo fileProvider) 16384 1 (startOf longState) = (e1, Inr ()) \<and>
     reduceLoop fileConfig fileTask (idealIo fileProvider) 16384 0 (startOf (ex_state e1)) = (e2, r) \<and>
     q1 \<in> set (ex_requests e1) \<and> q2 \<in> set (ex_requests e2) \<and> ar_request_id q1 = ar_request_id q2 \<and> ar_input q1 \<noteq> ar_input q2"
proof -
  let ?io = "idealIo fileProvider"
  have io: "io_provider ?io = (\<lambda>n. fileProvider)" by (simp add: idealIo_def)
  have c: "io_checkpoint ?io n = None" for n by (simp add: idealIo_def)
  have l: "length longSummary \<le> 8000" "length (textOf ''yes'') \<le> 8000" by (simp_all add: longSummary_def textOf_def)
  have u: "ck_usage (ex_state (startOf longState)) = \<lparr>input_tokens = 5 * 1, output_tokens = 2 * 1, total_tokens = 7 * 1\<rparr>"
    by (simp add: longState_def fileCheckpoint_def)
  from file_reduceStep [OF io l(1,1) _ _ u, of 0 "Suc (Suc 0)" "[]"] obtain f1 p1 where
    f1: "reduceStep fileConfig fileTask ?io (Suc 0) (Suc (Suc 0)) (startOf longState, []) (0, [longSummary, longSummary]) = ((f1, [textOf ''yes'']), Inr ())"
      "ck_usage (ex_state f1) = \<lparr>input_tokens = 5 * (1 + 1), output_tokens = 2 * (1 + 1), total_tokens = 7 * (1 + 1)\<rparr>" by auto
  from file_reduceStep [OF io l(1,1) _ _ f1(2), of 1 "Suc (Suc 0)" "[textOf ''yes'']"] obtain f2 where
    f2: "reduceStep fileConfig fileTask ?io (Suc 0) (Suc (Suc 0)) (f1, [textOf ''yes'']) (Suc 0, [longSummary, longSummary]) = ((f2, [textOf ''yes'', textOf ''yes'']), Inr ())"
      "ck_usage (ex_state f2) = \<lparr>input_tokens = 5 * (1 + 1 + 1), output_tokens = 2 * (1 + 1 + 1), total_tokens = 7 * (1 + 1 + 1)\<rparr>" by auto
  obtain e1 where e1: "reduceRound fileConfig fileTask ?io 16384 1 (startOf longState) = (e1, Inr ())"
    "ex_state e1 = (ex_state f2)\<lparr>ck_summaries := [textOf ''yes'', textOf ''yes'']\<rparr>"
    using long_groups f1(1) f2(1) by (simp add: reduceRound_def emitCheckpoint_def c)
  have s: "ck_summaries (ex_state e1) = [textOf ''yes'', textOf ''yes'']"
    "ck_usage (ex_state (startOf (ex_state e1))) = \<lparr>input_tokens = 5 * 3, output_tokens = 2 * 3, total_tokens = 7 * 3\<rparr>"
    using e1(2) f2(2) by simp_all
  have "utf8Length (textOf ''yes'') \<le> 9" using utf8Length_le [of "textOf ''yes''"] by (simp add: textOf_def)
  then have g: "groupSummaries (ck_summaries (ex_state e1)) 16384 = Inr [[textOf ''yes'', textOf ''yes'']]"
    by (simp add: s(1) groupSummaries_def andThen_def Let_def)
  from file_reduceStep [OF io l(2,2) _ _ s(2), of 0 "Suc 0" "[]"] obtain f3 q where
    f3: "reduceStep fileConfig fileTask ?io (Suc 0) (Suc 0) (startOf (ex_state e1), []) (0, [textOf ''yes'', textOf ''yes'']) = ((f3, [textOf ''yes'']), Inr ())"
      "ex_requests f3 = [q]" by auto
  obtain e2 r where e2: "reduceLoop fileConfig fileTask ?io 16384 0 (startOf (ex_state e1)) = (e2, r)" by fastforce
  have "ex_requests e2 = [q]"
    using e2 s(1) g f3 by (simp add: reduceLoop.simps [of fileConfig fileTask ?io 16384] reduceRound_def emitCheckpoint_def c) auto
  with resumed_reduction_reuses_key [OF e1(1) _ e2] s(1) obtain q1 rest1 q2 rest2 where
    "ex_requests e1 = q1 # rest1" "ex_requests e2 = q2 # rest2" "ar_request_id q2 = ar_request_id q1" "ar_input q2 \<noteq> ar_input q1" by auto
  with e1(1) e2 show ?thesis by (metis list.set_intros(1))
qed

end
