(* ===== verification/WorkerScenario.thy ===== *)
theory WorkerScenario
  imports WorkerSafety CheckpointSafety ArtifactScenario
begin

text \<open>
  Runs of the worker and of its checkpoint store on concrete inputs: instances of their theorems with their
  hypotheses discharged. The cipher of these runs holds one checkpoint.
\<close>

section \<open>A store\<close>

definition diskIo :: StoreIo where
  "diskIo = \<lparr>st_readable = \<lambda>f. True, st_unlink = \<lambda>f. True, st_write = WriteOk, st_listing = True\<rparr>"

definition demoIv :: string where
  "demoIv = replicate 16 CHR ''A''"

definition demoCipher :: "SupplierArtifactCheckpointState \<Rightarrow> CheckpointCipher" where
  "demoCipher c = \<lparr>cc_seal = \<lambda>k iv aad c. (''AAAA'', replicate 22 CHR ''A'' @ ''==''), cc_unseal = \<lambda>k iv aad x. Some c,
     cc_bytes = \<lambda>c. 3, cc_parse = \<lambda>s. Some (int (nat_of_dec s)), cc_iso = \<lambda>t. dec_of_nat (nat t), cc_sha256 = oneHash\<rparr>"

definition demoStore :: CheckpointStore where
  "demoStore = \<lparr>cs_ttlMilliseconds = 100, cs_cleanupBatchSize = 10, cs_files = [], cs_cleanupCursor = None\<rparr>"

lemma demo_base64: "isBase64 demoIv" "base64Bytes demoIv = 12" "isBase64 ''AAAA''" "isBase64 (replicate 22 CHR ''A'' @ ''=='')"
  "base64Bytes (replicate 22 CHR ''A'' @ ''=='') = 16"
proof -
  have c: "is_base64_char (CHR ''A'')" "\<not> is_base64_char (CHR ''='')" by (simp_all add: is_base64_char_def is_alnum_def is_digit_def is_lower_def is_upper_def)
  have t: "takeWhile is_base64_char (replicate n CHR ''A'' @ s) = replicate n CHR ''A'' @ takeWhile is_base64_char s"
    "dropWhile is_base64_char (replicate n CHR ''A'' @ s) = dropWhile is_base64_char s" for n s
    using c(1) by (induction n) simp_all
  show "isBase64 demoIv" "base64Bytes demoIv = 12" using t [of 16 "[]"]
    by (simp_all add: isBase64_def base64Bytes_def demoIv_def MAX_CHECKPOINT_FILE_BYTES_def)
  show "isBase64 ''AAAA''" using c by (simp add: isBase64_def MAX_CHECKPOINT_FILE_BYTES_def)
  show "isBase64 (replicate 22 CHR ''A'' @ ''=='')" "base64Bytes (replicate 22 CHR ''A'' @ ''=='') = 16" using t [of 22 "''==''"] c(2)
    by (simp_all add: isBase64_def base64Bytes_def MAX_CHECKPOINT_FILE_BYTES_def)
qed

lemma demo_cipher: "goodCipher (demoCipher c) {c}" "goodIv demoIv"
  using demo_base64 by (simp_all add: goodCipher_def demoCipher_def goodIv_def)

lemma demo_fits: "fits (demoCipher d) token taskId c demoIv 0 100"
proof -
  have q: "length (jsonQuote s) \<le> 6 * length s + 2" for s
  proof -
    have "length (escapeChar c) \<le> 6" for c by (simp add: escapeChar_def Let_def)
    then have "length (concat (map escapeChar s)) \<le> 6 * length s" 
      using sum_list_mono [of s "\<lambda>c. length (escapeChar c)" "\<lambda>c. 6"] by (simp add: length_concat sum_list_triv comp_def mult.commute)
    then show ?thesis by (simp add: jsonQuote_def)
  qed
  have b: "byteLength s \<le> 2 * length s" for s by (induction s) (simp_all add: byteLength_def)
  let ?e = "sealEnvelope (demoCipher d) token taskId demoIv c (cc_iso (demoCipher d) 0) (cc_iso (demoCipher d) (0 + 100))"
  have l: "length (ec_createdAt ?e) \<le> 3" "length (ec_expiresAt ?e) \<le> 3" "length (ec_iv ?e) \<le> 16" "length (ec_authTag ?e) \<le> 24" "length (ec_ciphertext ?e) \<le> 4"
    by (simp_all add: sealEnvelope_def demoCipher_def demoIv_def dec_of_nat.simps Let_def)
  have "length (envelopeText ?e) \<le> 2000"
    using l q [of "ec_createdAt ?e"] q [of "ec_expiresAt ?e"] q [of "ec_iv ?e"] q [of "ec_authTag ?e"] q [of "ec_ciphertext ?e"]
      q [of "''version''"] q [of "''cipher''"] q [of "''createdAt''"] q [of "''expiresAt''"] q [of "''iv''"] q [of "''authTag''"] q [of "''ciphertext''"]
      q [of "''aes-256-gcm''"] q [of CHECKPOINT_ENVELOPE_VERSION]
    by (simp add: envelopeText_def jsonObject_def NL_def CHECKPOINT_ENVELOPE_VERSION_def [THEN arg_cong [of _ _ length]])
  then show ?thesis unfolding fits_def using b [of "envelopeText ?e"] by (simp add: MAX_CHECKPOINT_FILE_BYTES_def)
qed

text \<open>A checkpoint that is written at time 0 and again at time 60 is read at time 99, but not at time 100.\<close>

theorem checkpoint_read_back_witness:
  "\<exists>s1 s2. writeCheckpoint (demoCipher fileCheckpoint) diskIo ''task-0001'' ''key'' fileCheckpoint 0 demoIv ''x'' demoStore = (s1, Inr ()) \<and>
     readCheckpoint (demoCipher fileCheckpoint) diskIo ''task-0001'' ''key'' 99 s2 = (s2, Inr (Some fileCheckpoint)) \<and>
     snd (readCheckpoint (demoCipher fileCheckpoint) diskIo ''task-0001'' ''key'' 100 s2) = Inr None"
proof -
  let ?cc = "demoCipher fileCheckpoint"
  have id: "jobIdPattern ''task-0001''" by (simp add: is_alnum_def is_lower_def is_upper_def is_digit_def)
  have v: "validTtl demoStore" "cs_ttlMilliseconds demoStore = 100" "map_of (cs_files demoStore) (''task-0001'' @ CHECKPOINT_SUFFIX) = None"
    by (simp_all add: validTtl_def demoStore_def MAX_CHECKPOINT_TTL_MILLISECONDS_def)
  have io: "st_readable diskIo f" "st_unlink diskIo f" "st_write diskIo = WriteOk" for f by (simp_all add: diskIo_def)
  have "cc_bytes ?cc fileCheckpoint = 3" by (simp add: demoCipher_def)
  then obtain s1 where s1: "writeCheckpoint ?cc diskIo ''task-0001'' ''key'' fileCheckpoint 0 demoIv ''x'' demoStore = (s1, Inr ())"
    using v(3) id io by (simp add: writeCheckpoint_def checkpointFile_def authenticEnvelope_def readEnvelope_def MAX_CHECKPOINT_TEXT_BYTES_def Let_def)
  let ?ws = "[(diskIo, fileCheckpoint, 60, demoIv, ''y'')]"
  obtain s2 c where r: "writeRun ?cc ''key'' ''task-0001'' ?ws (s1, fileCheckpoint) = (s2, c)" by fastforce
  then have c: "c = fileCheckpoint" by (auto simp: writeStep_def split: prod.splits sum.splits)
  have g: "goodCipher ?cc (insert fileCheckpoint (fst ` snd ` set ?ws))" using demo_cipher(1) by simp
  note rb = checkpoint_read_back [OF s1 v(3) g v(1) order_refl demo_cipher(2) _ _ r _ io(1,2), unfolded v(2)]
  from rb [of 99] rb [of 100] s1 c demo_fits demo_cipher(2) io show ?thesis by auto
qed

section \<open>A worker\<close>

text \<open>A file of two segments.\<close>

definition bigContent :: "byte list" where
  "bigContent = replicate 16385 97"

definition bigTask :: SupplierArtifactAssignment where
  "bigTask = fileTask\<lparr>as_task_id := ''task-0001'', as_size_bytes := 16385,
     as_chunks := [\<lparr>chunk_partNumber = 1, chunk_sizeBytes = 16385, chunk_sha256 = fileDigest\<rparr>]\<rparr>"

definition bigConfig :: SupplierNodeConfig where
  "bigConfig = fileConfig\<lparr>nc_maxArtifactBytes := 100000, nc_tokensPerMinute := 1000000\<rparr>"

definition bigOptions :: SupplierArtifactWorkerOptions where
  "bigOptions = \<lparr>wo_workerId = ''worker-1'', wo_gatewayToken = ''secret-token'', wo_providerId = ''provider-1'',
     wo_allowedModels = [''m''], wo_maxArtifactBytes = 100000, wo_config = bigConfig\<rparr>"

definition idleGate :: "nat \<Rightarrow> int \<times> CapacityGate" where
  "idleGate n = (0, newGate)"

text \<open>The second report does not reach the control plane.\<close>

definition lossyIo :: TaskIo where
  "lossyIo = \<lparr>ti_read = (diskIo, 0), ti_discard = diskIo,
     ti_download = \<lambda>n. ChunkBody (Some fileDigest) (NInt 16385) True [bigContent] None, ti_draining = False, ti_gate = idleGate,
     ti_provider = \<lambda>n. fileProvider, ti_aborted = \<lambda>n. False, ti_write = \<lambda>n. (diskIo, 0, demoIv, ''x''),
     ti_report = \<lambda>n. if n = 0 then Value () else NoResponse False, ti_completedAt = ''t'', ti_complete = Value (), ti_finishedAt = ''t'',
     ti_delete = diskIo\<rparr>"

definition bigCheckpoint :: "int \<Rightarrow> int \<Rightarrow> jsText list \<Rightarrow> string list \<Rightarrow> SupplierArtifactCheckpointState" where
  "bigCheckpoint k processed summaries ids = \<lparr>ck_version = CHECKPOINT_VERSION, ck_taskId = ''task-0001'', ck_artifactManifestSha256 = fileDigest,
     ck_completedSegments = k, ck_totalSegments = 2, ck_processedBytes = processed, ck_summaries = summaries,
     ck_providerRequestIds = ids, ck_usage = \<lparr>input_tokens = 5 * k, output_tokens = 2 * k, total_tokens = 7 * k\<rparr>\<rparr>"

abbreviation firstCheckpoint :: SupplierArtifactCheckpointState where
  "firstCheckpoint \<equiv> bigCheckpoint 1 16384 [textOf ''yes''] [''r'']"

abbreviation secondCheckpoint :: SupplierArtifactCheckpointState where
  "secondCheckpoint \<equiv> bigCheckpoint 2 16385 [textOf ''yes'', textOf ''yes''] [''r'', ''r'']"

lemma big_limits: "validateAssignment bigTask bigConfig = Inr ()" "segmentBytesOf bigConfig bigTask = 16384"
  "totalSegmentsOf 16384 bigTask = 2" "initialState bigTask None 2 = Inr (bigCheckpoint 0 0 [] [])"
proof -
  have "isSha256 fileDigest" using one_hex by (simp add: fileDigest_def)
  then show "validateAssignment bigTask bigConfig = Inr ()"
    by (simp add: validateAssignment_def bigTask_def bigConfig_def fileTask_def fileConfig_def SUPPLIER_ARTIFACT_WORKER_PROTOCOL_VERSION_def
        ARTIFACT_SUPPORTED_MEDIA_TYPES_def textOf_def dbl_def throwIf_def andThen_def MAX_SAFE_INTEGER_def)
  have "utf8Length (textOf ''sum up'') \<le> 18" using utf8Length_le [of "textOf ''sum up''"] by (simp add: textOf_def)
  then show "segmentBytesOf bigConfig bigTask = 16384" by (simp add: segmentBytesOf_def bigTask_def bigConfig_def fileTask_def fileConfig_def)
  show "totalSegmentsOf 16384 bigTask = 2" by (simp add: totalSegmentsOf_def bigTask_def)
  show "initialState bigTask None 2 = Inr (bigCheckpoint 0 0 [] [])"
    by (simp add: initialState_def bigCheckpoint_def bigTask_def fileTask_def emptyUsage_def)
qed

lemma big_segments:
  "byteSegments (\<lambda>b. fileDigest) 16384 16385 None (as_chunks bigTask) [] [] [(1, bigContent)] = ([replicate 16384 97, [97]], Inr bigContent)"
proof -
  have "chop 16384 bigContent = [replicate 16384 97, [97]]"
    by (simp add: bigContent_def chop.simps take_replicate drop_replicate)
  moreover have "byteSegments (\<lambda>b. fileDigest) 16384 16385 None (as_chunks bigTask) [] [] [(1, bigContent)] =
      (chop 16384 ([] @ concat (map snd [(1 :: int, bigContent)])), Inr ([] @ concat (map snd [(1 :: int, bigContent)])))"
    by (rule byteSegments_complete) (simp_all add: matching_def bigTask_def bigContent_def del: replicate.simps)
  ultimately show ?thesis by simp
qed

lemma decode_ascii:
  "ud_needed d = 0 \<Longrightarrow> \<exists>d'. decodeBytes d (replicate n 97) = Some (d', replicate n 97) \<and> ud_needed d' = 0"
proof (induction n arbitrary: d)
  case (Suc n)
  let ?d = "d\<lparr>ud_codePoint := 0, ud_needed := 0, ud_seen := 0, ud_lower := 0x80, ud_upper := 0xBF, ud_bomSeen := True\<rparr>"
  have "decodeByte d 97 = Some (?d, [97])" using Suc.prems by (simp add: decodeByte_def finishCodePoint_def utf16_def)
  with Suc.IH [of ?d] show ?case by auto
qed simp

lemma big_provider:
  assumes "ar_model r = ''m''" "ar_data_class r = ''P0''" "int (utf8Length (ar_input r)) \<le> 100000" "ar_max_output_tokens r = 50"
  shows "nodeProvider bigConfig idleGate (\<lambda>n. fileProvider) n r = Inr fileAnswer"
  using assms by (simp add: nodeProvider_def validateArtifactRequest_def bigConfig_def fileConfig_def idleGate_def newGate_def acquire_def
      fileProvider_def validateNodeResult_def fileAnswer_def textIn_def textOf_def dbl_def MAX_SAFE_INTEGER_def andThen_def Let_def)

lemma big_invoke:
  assumes "io_provider io = nodeProvider bigConfig idleGate (\<lambda>n. fileProvider)" "length input \<le> 30000"
    "total_tokens (ck_usage (ex_state ex)) \<le> 150"
  shows "\<exists>q. invokeBounded bigConfig bigTask io rid input 50 ex = (ex\<lparr>ex_requests := ex_requests ex @ [q]\<rparr>, Inr fileAnswer)"
proof -
  have u: "int (utf8Length input) \<le> 100000" using utf8Length_le [of input] assms(2) by linarith
  have t: "as_model bigTask = ''m''" "as_data_class bigTask = ''P0''" "as_max_total_tokens bigTask = 200" "nc_maxOutputTokens bigConfig = 100"
    "nc_maxInputBytes bigConfig = 100000" by (simp_all add: bigTask_def fileTask_def bigConfig_def fileConfig_def)
  have v: "validateArtifactProviderResult fileAnswer ''m'' 50 = Inr ()"
    by (simp add: validateArtifactProviderResult_def fileAnswer_def textIn_def textOf_def dbl_def MAX_SAFE_INTEGER_def)
  have m: "max 1 (min (min 50 (200 - total_tokens (ck_usage (ex_state ex)))) 100) = (50 :: int)" using assms(3) by simp
  show ?thesis using u assms(3) by (simp add: invokeBounded_def t assms(1) m big_provider v andThen_def Let_def) blast
qed

lemma big_record:
  assumes "ck_usage st = \<lparr>input_tokens = 5 * k, output_tokens = 2 * k, total_tokens = 7 * k\<rparr>" "0 \<le> k" "k \<le> 10"
  shows "recordResult bigTask fileAnswer st = (st\<lparr>ck_providerRequestIds := ck_providerRequestIds st @ [''r''],
      ck_usage := \<lparr>input_tokens = 5 * (k + 1), output_tokens = 2 * (k + 1), total_tokens = 7 * (k + 1)\<rparr>\<rparr>, Inr ())"
  using file_record [OF assms] by (simp add: recordResult_def bigTask_def)

lemma big_step:
  assumes "io_provider io = nodeProvider bigConfig idleGate (\<lambda>n. fileProvider)" "\<not> io_aborted io (ex_segmentIndex ex)"
    "decodeText (ex_decoder ex) x (int (ex_segmentIndex ex + 1) < 2) = Some (d, t)" "length t \<le> 17000"
    "ex_state ex = bigCheckpoint k p ys ids" "k = int (ex_segmentIndex ex)" "k \<le> 5"
  shows "\<exists>q. segmentStep bigConfig bigTask io 2 ex x =
    (let c = bigCheckpoint (k + 1) (ex_processedBytes ex + int (length x)) (ys @ [textOf ''yes'']) (ids @ [''r'']) in
     (ex\<lparr>ex_segmentIndex := ex_segmentIndex ex + 1, ex_processedBytes := ex_processedBytes ex + int (length x), ex_decoder := d,
        ex_state := c, ex_emitted := ex_emitted ex @ [c], ex_requests := ex_requests ex @ [q]\<rparr>,
      case io_checkpoint io (ex_emitted ex @ [c]) of None \<Rightarrow> Inr () | Some e \<Rightarrow> Inl e))"
proof -
  let ?i = "ex_segmentIndex ex + 1"
  let ?f = "ex\<lparr>ex_segmentIndex := ?i, ex_processedBytes := ex_processedBytes ex + int (length x), ex_decoder := d\<rparr>"
  have "length (dec_of_nat ?i) = 1" "length (dec_of_nat 2) = 1" using assms(6,7) by (simp_all add: dec_of_nat.simps)
  then have "length (mapPrompt bigTask t (int ?i) 2) \<le> 1000 + length t"
    by (simp add: mapPrompt_def bigTask_def fileTask_def textOf_def MAP_INTRODUCTION_def USER_TASK_def FILE_LABEL_def OPEN_PAREN_def CLOSE_PAREN_def
        CURRENT_SEGMENT_def MAP_REQUEST_def NEWLINE_def NL_def numString_def nat_add_distrib del: of_nat_Suc)
  then have "length (mapPrompt bigTask t (int ?i) 2) \<le> 30000" using assms(4) by simp
  moreover have "total_tokens (ck_usage (ex_state ?f)) \<le> 150" using assms(5,7) by (simp add: bigCheckpoint_def)
  ultimately obtain q where q: "invokeBounded bigConfig bigTask io (as_task_id bigTask @ '':map:'' @ dec_of_nat ?i) (mapPrompt bigTask t (int ?i) 2) 50 ?f =
      (?f\<lparr>ex_requests := ex_requests ex @ [q]\<rparr>, Inr fileAnswer)" using big_invoke [OF assms(1), of _ ?f] by fastforce
  have o: "min 512 (as_max_output_tokens bigTask) = 50" "the (ap_output fileAnswer) = textOf ''yes''" by (simp_all add: bigTask_def fileTask_def fileAnswer_def)
  have r: "recordResult bigTask fileAnswer (bigCheckpoint k p (ys @ [textOf ''yes'']) ids) =
      ((bigCheckpoint k p (ys @ [textOf ''yes'']) (ids @ [''r'']))\<lparr>ck_usage := \<lparr>input_tokens = 5 * (k + 1), output_tokens = 2 * (k + 1), total_tokens = 7 * (k + 1)\<rparr>\<rparr>, Inr ())"
    using big_record [of "bigCheckpoint k p (ys @ [textOf ''yes'']) ids" k] assms(6,7) by (simp add: bigCheckpoint_def)
  have s: "(bigCheckpoint k p ys ids)\<lparr>ck_summaries := zs\<rparr> = bigCheckpoint k p zs ids" "ck_summaries (bigCheckpoint k p ys ids) = ys" for zs
    by (simp_all add: bigCheckpoint_def)
  have "\<not> int ?i \<le> ck_completedSegments (ex_state ?f)" using assms(5,6) by (simp add: bigCheckpoint_def)
  then have "segmentStep bigConfig bigTask io 2 ex x = summarise bigConfig bigTask io 2 t ?f"
    using assms(2,3) by (simp add: segmentStep_def Let_def)
  also have "\<dots> = emitCheckpoint io (?f\<lparr>ex_requests := ex_requests ex @ [q], ex_state := bigCheckpoint (k + 1) (ex_processedBytes ex + int (length x)) (ys @ [textOf ''yes'']) (ids @ [''r''])\<rparr>)"
    using q r assms(5,6) by (simp add: summarise_def o s) (simp add: bigCheckpoint_def add.commute [of 1])
  finally show ?thesis by (intro exI [of _ q]) (simp add: emitCheckpoint_def Let_def)
qed

text \<open>What the handler does with the two checkpoints.\<close>

abbreviation bigFile :: string where
  "bigFile \<equiv> ''task-0001'' @ CHECKPOINT_SUFFIX"

definition bigEnvelope :: EncryptedCheckpoint where
  "bigEnvelope = sealEnvelope (demoCipher secondCheckpoint) ''secret-token'' ''task-0001'' demoIv secondCheckpoint ''0'' ''100''"

definition bigStore :: CheckpointStore where
  "bigStore = putFile bigFile (envelopeText bigEnvelope) demoStore"

lemma lost: "signedJson (NoResponse False) = Inl (AgentError ''CONTROL_PLANE_UNAVAILABLE'' True)"
  by simp

lemma big_write:
  "map_of (cs_files s) bigFile = None \<or> map_of (cs_files s) bigFile = Some (envelopeText bigEnvelope) \<Longrightarrow> cs_ttlMilliseconds s = 100 \<Longrightarrow>
   writeCheckpoint (demoCipher secondCheckpoint) diskIo ''task-0001'' ''secret-token'' c 0 demoIv ''x'' s = (putFile bigFile (envelopeText bigEnvelope) s, Inr ())"
  and big_read: "readEnvelope (demoCipher secondCheckpoint) diskIo bigFile 0 bigStore = Inr bigEnvelope"
proof -
  let ?cc = "demoCipher secondCheckpoint"
  have id: "checkpointFile ''task-0001'' = Inr bigFile" by (simp add: checkpointFile_def is_alnum_def is_lower_def is_upper_def is_digit_def)
  have io: "st_readable diskIo f" "st_unlink diskIo f" "st_write diskIo = WriteOk" for f by (simp_all add: diskIo_def)
  have "dec_of_nat 0 = ''0''" "dec_of_nat 100 = ''100''" by code_simp+
  then have cc: "cc_bytes ?cc c = 3" "cc_iso ?cc 0 = ''0''" "cc_iso ?cc 100 = ''100''" "cc_unseal ?cc k iv aad x = Some secondCheckpoint" for c k iv aad x
    by (simp_all add: demoCipher_def)
  have e: "sealEnvelope ?cc ''secret-token'' ''task-0001'' demoIv c ''0'' ''100'' = bigEnvelope" for c
    by (simp add: bigEnvelope_def sealEnvelope_def demoCipher_def Let_def)
  have wf: "wfEnvelope bigEnvelope" unfolding bigEnvelope_def by (rule seal_wf [OF demo_cipher])
  have size: "byteLength (envelopeText bigEnvelope) \<le> MAX_CHECKPOINT_FILE_BYTES"
    using demo_fits [of secondCheckpoint "''secret-token''" "''task-0001''" secondCheckpoint] cc by (simp add: fits_def bigEnvelope_def)
  have f: "ec_createdAt bigEnvelope = ''0''" "ec_expiresAt bigEnvelope = ''100''" by (simp_all add: bigEnvelope_def)
  have "parseCanonicalTimestamp ?cc ''0'' = Some 0" "parseCanonicalTimestamp ?cc ''100'' = Some 100"
    using canonical [OF demo_cipher(1) [of secondCheckpoint], of 0] canonical [OF demo_cipher(1) [of secondCheckpoint], of 100] cc by simp_all
  then have cur: "currentEnvelope ?cc 0 bigEnvelope"
    by (simp add: currentEnvelope_def f MAX_CHECKPOINT_TTL_MILLISECONDS_def MAX_CLOCK_SKEW_MILLISECONDS_def)
  have a: "map_of (cs_files s) bigFile = Some (envelopeText bigEnvelope) \<Longrightarrow>
      authenticEnvelope ?cc diskIo bigFile ''task-0001'' ''secret-token'' 0 s = (s, Inr (Some (bigEnvelope, secondCheckpoint)))" for s
    using readEnvelope_text [OF _ wf cur _ size] io cc by (simp add: authenticEnvelope_def openEnvelope_def)
  have n: "map_of (cs_files s) bigFile = None \<Longrightarrow> authenticEnvelope ?cc diskIo bigFile ''task-0001'' ''secret-token'' 0 s = (s, Inr None)" for s
    by (simp add: authenticEnvelope_def readEnvelope_def)
  show "map_of (cs_files s) bigFile = None \<or> map_of (cs_files s) bigFile = Some (envelopeText bigEnvelope) \<Longrightarrow> cs_ttlMilliseconds s = 100 \<Longrightarrow>
     writeCheckpoint ?cc diskIo ''task-0001'' ''secret-token'' c 0 demoIv ''x'' s = (putFile bigFile (envelopeText bigEnvelope) s, Inr ())"
    using a n id io cc e f by (auto simp: writeCheckpoint_def MAX_CHECKPOINT_TEXT_BYTES_def Let_def)
  have "map_of (cs_files bigStore) bigFile = Some (envelopeText bigEnvelope)" by (simp add: bigStore_def)
  then show "readEnvelope ?cc diskIo bigFile 0 bigStore = Inr bigEnvelope"
    using readEnvelope_text [OF _ wf cur _ size] io by simp
qed

lemma big_handled:
  "writeCheckpoint (demoCipher secondCheckpoint) diskIo ''task-0001'' ''secret-token'' d 0 demoIv ''x'' bigStore = (bigStore, Inr ())"
  "handleCheckpoints (demoCipher secondCheckpoint) ''secret-token'' ''task-0001'' lossyIo demoStore [c] = (bigStore, Inr ())"
  "handleCheckpoints (demoCipher secondCheckpoint) ''secret-token'' ''task-0001'' lossyIo demoStore [c, d] =
    (bigStore, Inl (AgentError ''CONTROL_PLANE_UNAVAILABLE'' True))"
proof -
  have io: "ti_write lossyIo n = (diskIo, 0, demoIv, ''x'')" "ti_report lossyIo 0 = Value ()" "ti_report lossyIo (Suc 0) = NoResponse False" for n
    by (simp_all add: lossyIo_def)
  have "cs_files demoStore = []" "cs_ttlMilliseconds demoStore = 100" by (simp_all add: demoStore_def)
  then have one: "writeCheckpoint (demoCipher secondCheckpoint) diskIo ''task-0001'' ''secret-token'' c 0 demoIv ''x'' demoStore = (bigStore, Inr ())" for c
    using big_write [of demoStore c] by (simp add: bigStore_def)
  have "cs_files bigStore = [(bigFile, envelopeText bigEnvelope)]" "cs_ttlMilliseconds bigStore = 100"
    by (simp_all add: bigStore_def demoStore_def putFile_def mapSet_def)
  moreover from this have "putFile bigFile (envelopeText bigEnvelope) bigStore = bigStore" by (simp add: putFile_def mapSet_def)
  ultimately have two: "writeCheckpoint (demoCipher secondCheckpoint) diskIo ''task-0001'' ''secret-token'' d 0 demoIv ''x'' bigStore = (bigStore, Inr ())" for d
    using big_write [of bigStore d] by simp
  show "writeCheckpoint (demoCipher secondCheckpoint) diskIo ''task-0001'' ''secret-token'' d 0 demoIv ''x'' bigStore = (bigStore, Inr ())"
    "handleCheckpoints (demoCipher secondCheckpoint) ''secret-token'' ''task-0001'' lossyIo demoStore [c] = (bigStore, Inr ())"
    "handleCheckpoints (demoCipher secondCheckpoint) ''secret-token'' ''task-0001'' lossyIo demoStore [c, d] =
    (bigStore, Inl (AgentError ''CONTROL_PLANE_UNAVAILABLE'' True))"
    by (simp_all add: handleCheckpoints_def checkpointHandler_def io one two)
qed

lemma big_execution:
  "\<exists>requests. taskExecution (\<lambda>b. fileDigest) (\<lambda>t. fileDigest) oneHmac (demoCipher secondCheckpoint) bigOptions lossyIo bigTask demoStore None =
    (([firstCheckpoint, secondCheckpoint], requests), Inl (AgentError ''CONTROL_PLANE_UNAVAILABLE'' True))"
proof -
  let ?io = "\<lparr>io_provider = nodeProvider bigConfig idleGate (\<lambda>n. fileProvider),
     io_checkpoint = (\<lambda>cs. case snd (handleCheckpoints (demoCipher secondCheckpoint) ''secret-token'' ''task-0001'' lossyIo demoStore cs) of Inl e \<Rightarrow> Some e | Inr u \<Rightarrow> None),
     io_aborted = \<lambda>n. False, io_ending = None\<rparr>"
  obtain d1 where d1: "decodeBytes newDecoder (replicate 16384 97) = Some (d1, replicate 16384 97)" "ud_needed d1 = 0"
    using decode_ascii [of newDecoder 16384] by (auto simp: newDecoder_def)
  obtain d2 where d2: "decodeBytes d1 [97] = Some (d2, [97])" "ud_needed d2 = 0" using decode_ascii [OF d1(2), of 1] by auto
  let ?ex = "startOf (bigCheckpoint 0 0 [] [])"
  from big_step [of ?io ?ex "replicate 16384 97" d1 "replicate 16384 97" 0 0 "[]" "[]"] d1 obtain q1 where
    s1: "segmentStep bigConfig bigTask ?io 2 ?ex (replicate 16384 97) =
      (?ex\<lparr>ex_segmentIndex := 1, ex_processedBytes := 16384, ex_decoder := d1, ex_state := firstCheckpoint, ex_emitted := [firstCheckpoint],
         ex_requests := [q1]\<rparr>, Inr ())" by (auto simp: decodeText_def big_handled Let_def)
  let ?ex1 = "?ex\<lparr>ex_segmentIndex := 1, ex_processedBytes := 16384, ex_decoder := d1, ex_state := firstCheckpoint, ex_emitted := [firstCheckpoint],
         ex_requests := [q1]\<rparr>"
  from big_step [of ?io ?ex1 "[97]" newDecoder "[97]" 1 16384 "[textOf ''yes'']" "[''r'']"] d2 obtain q2 where
    s2: "segmentStep bigConfig bigTask ?io 2 ?ex1 [97] =
      (?ex1\<lparr>ex_segmentIndex := 2, ex_processedBytes := 16385, ex_decoder := newDecoder, ex_state := secondCheckpoint,
         ex_emitted := [firstCheckpoint, secondCheckpoint], ex_requests := [q1, q2]\<rparr>, Inl (AgentError ''CONTROL_PLANE_UNAVAILABLE'' True))"
    by (auto simp: decodeText_def big_handled Let_def)
  have t: "as_size_bytes bigTask = 16385" "as_task_id bigTask = ''task-0001''" "wo_config bigOptions = bigConfig" "wo_gatewayToken bigOptions = ''secret-token''"
    by (simp_all add: bigTask_def bigOptions_def)
  have l: "ti_draining lossyIo = False" "ti_gate lossyIo = idleGate" "ti_provider lossyIo = (\<lambda>n. fileProvider)" "ti_aborted lossyIo = (\<lambda>n. False)"
    "downloadChunks (ti_download lossyIo) 0 (as_chunks bigTask) = ([(1, bigContent)], None)"
    by (simp_all add: lossyIo_def bigTask_def readBoundedBytes_def bigContent_def)
  have "\<exists>e1. mapPhase (\<lambda>b. fileDigest) bigConfig bigTask ?io [(1, bigContent)] 16384 ?ex =
      (e1, Inl (AgentError ''CONTROL_PLANE_UNAVAILABLE'' True)) \<and> ex_emitted e1 = [firstCheckpoint, secondCheckpoint]"
    using big_segments s1 s2 by (simp add: mapPhase_def t big_limits catchTypeError_def)
  then show ?thesis
    by (auto simp: taskExecution_def executeArtifactTask_def executeArtifact_def big_limits t l Let_def)
qed

text \<open>The report of the second segment is lost; the attempt that resumes after the first one fails for good.\<close>

theorem lost_report_is_final_witness:
  "\<exists>w1 w2 r2. processTask (\<lambda>b. fileDigest) (\<lambda>t. fileDigest) oneHmac (demoCipher secondCheckpoint) bigOptions lossyIo bigTask
       \<lparr>sw_store = demoStore, sw_pendingTerminalCheckpointDeletes = [], sw_status = emptyStatus, sw_calls = [], sw_requests = []\<rparr> =
       (w1, Inl (AgentError ''CONTROL_PLANE_UNAVAILABLE'' True)) \<and>
     last (sw_calls w1) = FailCall ''task-0001'' ''lease-1'' ''CONTROL_PLANE_UNAVAILABLE'' True \<and>
     processTask (\<lambda>b. fileDigest) (\<lambda>t. fileDigest) oneHmac (demoCipher secondCheckpoint) bigOptions lossyIo
       (bigTask\<lparr>as_resume_from_segment := 1, as_lease_token := ''lease-2''\<rparr>) w1 = (w2, r2) \<and>
     r2 = Inl (AgentError ''ARTIFACT_CHECKPOINT_REQUIRED'' False) \<and>
     sw_calls w2 = sw_calls w1 @ [FailCall ''task-0001'' ''lease-2'' ''ARTIFACT_CHECKPOINT_REQUIRED'' False] \<and> sw_requests w2 = sw_requests w1"
proof -
  let ?cc = "demoCipher secondCheckpoint" and ?a' = "bigTask\<lparr>as_resume_from_segment := 1, as_lease_token := ''lease-2''\<rparr>"
  let ?w = "\<lparr>sw_store = demoStore, sw_pendingTerminalCheckpointDeletes = [], sw_status = emptyStatus, sw_calls = [], sw_requests = []\<rparr>"
  let ?e = "AgentError ''CONTROL_PLANE_UNAVAILABLE'' True"
  have t: "as_task_id bigTask = ''task-0001''" "wo_gatewayToken bigOptions = ''secret-token''" "as_resume_from_segment bigTask = 0" "as_lease_token bigTask = ''lease-1''"
    "ti_read lossyIo = (diskIo, 0)" "ti_delete lossyIo = diskIo" "st_unlink diskIo f" "cs_files demoStore = []" for f
    by (simp_all add: bigTask_def fileTask_def bigOptions_def lossyIo_def diskIo_def demoStore_def)
  have id: "checkpointFile ''task-0001'' = Inr bigFile" by (simp add: checkpointFile_def is_alnum_def is_lower_def is_upper_def is_digit_def)
  have start: "startingCheckpoint ?cc (wo_gatewayToken bigOptions) lossyIo bigTask (sw_store ?w) = (demoStore, Inr None)"
    by (simp add: startingCheckpoint_def readCheckpoint_def authenticEnvelope_def readEnvelope_def t id)
  obtain requests where run: "taskExecution (\<lambda>b. fileDigest) (\<lambda>t. fileDigest) oneHmac ?cc bigOptions lossyIo bigTask demoStore None =
    (([firstCheckpoint] @ [secondCheckpoint], requests), Inl ?e)" using big_execution by auto
  have reported: "handleCheckpoints ?cc (wo_gatewayToken bigOptions) (as_task_id bigTask) lossyIo demoStore [firstCheckpoint] = (bigStore, Inr ())"
    and handled: "handleCheckpoints ?cc (wo_gatewayToken bigOptions) (as_task_id bigTask) lossyIo demoStore ([firstCheckpoint] @ [secondCheckpoint]) = (bigStore, Inl ?e)"
    and stored: "ti_write lossyIo (length [firstCheckpoint]) = (diskIo, 0, demoIv, ''x'')"
      "writeCheckpoint ?cc diskIo (as_task_id bigTask) (wo_gatewayToken bigOptions) secondCheckpoint 0 demoIv ''x'' bigStore = (bigStore, Inr ())"
    and lost: "signedJson (ti_report lossyIo (length [firstCheckpoint])) = Inl ?e" "isRetryable ?e"
    by (simp_all add: t big_handled) (simp_all add: lossyIo_def)
  obtain w1 r1 where w1: "processTask (\<lambda>b. fileDigest) (\<lambda>t. fileDigest) oneHmac ?cc bigOptions lossyIo bigTask ?w = (w1, r1)" by fastforce
  obtain w2 r2 where w2: "processTask (\<lambda>b. fileDigest) (\<lambda>t. fileDigest) oneHmac ?cc bigOptions lossyIo ?a' w1 = (w2, r2)" by fastforce
  from lost_report_attempt [OF start run handled lost(2) w1] have store: "sw_store w1 = bigStore" by simp
  have limits: "1 < totalSegmentsOf (segmentBytesOf (wo_config bigOptions) bigTask) bigTask"
    using big_limits by (simp add: bigOptions_def)
  have current: "readEnvelope ?cc (fst (ti_read lossyIo)) (as_task_id bigTask @ CHECKPOINT_SUFFIX) (snd (ti_read lossyIo)) (sw_store w1) = Inr bigEnvelope"
    unfolding store by (simp only: t big_read fst_conv snd_conv)
  from lost_report_is_final [OF start run reported stored lost w1 _ zero_less_one limits refl current demo_cipher _ _ w2] have
    "r1 = Inl ?e \<and> last (sw_calls w1) = failureCall bigTask ?e \<and> r2 = Inl (AgentError ''ARTIFACT_CHECKPOINT_REQUIRED'' False) \<and>
     sw_requests w2 = sw_requests w1 \<and>
     sw_calls w2 = sw_calls w1 @ [FailCall ''task-0001'' ''lease-2'' ''ARTIFACT_CHECKPOINT_REQUIRED'' False]"
    by (simp add: t bigCheckpoint_def)
  moreover have "failureCall bigTask ?e = FailCall ''task-0001'' ''lease-1'' ''CONTROL_PLANE_UNAVAILABLE'' True"
    by (simp add: failureCall_def t is_upper_char_def is_digit_def)
  ultimately show ?thesis using w1 w2 by (intro exI [of _ w1] exI [of _ w2] exI [of _ r2]) simp
qed

end
