(* ===== verification/ArtifactFiles.thy ===== *)
theory ArtifactFiles
  imports ArtifactStore ArtifactExecutor RuntimePolicy
begin

text \<open>
  The handlers on the encrypted files (\<^verbatim>\<open>apps/web/server/artifact-service.ts\<close>, \<^verbatim>\<open>privacy-service.ts\<close>) as
  programs that stop at every access to the database and the object store: a value of \<open>fileHandler\<close> is
  what a handler does next, and \<open>advanceFile\<close> does it. Every access has an outcome: it may be done, fail
  without effect, or take effect while its reply is lost. Hashing, encryption and the random bytes are
  arguments; so is \<open>toISOString\<close>.
\<close>

section \<open>Accesses\<close>

datatype ioOutcome = Done | Failed | LostReply | Partial nat

definition runStatements :: "ioOutcome \<Rightarrow> fileStmt list \<Rightarrow> fileStore \<Rightarrow> fileStore \<times> nat list option" where
  "runStatements x ss st =
     (if x = Done \<or> x = LostReply
      then (case batch ss st of Inl e \<Rightarrow> (st, None) | Inr (st', ns) \<Rightarrow> (st', if x = Done then Some ns else None))
      else (st, None))"

definition runPut :: "ioOutcome \<Rightarrow> string \<Rightarrow> byte list \<Rightarrow> fileStore \<Rightarrow> fileStore \<times> bool" where
  "runPut x key content st =
     (if x = Done then (putObject key content st, True)
      else if x = LostReply then (putObject key content st, False) else (st, False))"

text \<open>A deletion of several objects may stop half way.\<close>

definition runDelete :: "ioOutcome \<Rightarrow> string list \<Rightarrow> fileStore \<Rightarrow> fileStore \<times> bool" where
  "runDelete x keys st =
     (case x of Done \<Rightarrow> (deleteObjects keys st, True) | LostReply \<Rightarrow> (deleteObjects keys st, False)
      | Failed \<Rightarrow> (st, False) | Partial n \<Rightarrow> (deleteObjects (take n keys) st, False))"

section \<open>Requests, results, and what is computed between the accesses\<close>

record FileConfig =
  fc_isoText :: "int \<Rightarrow> string"
  fc_sha256Bytes :: "byte list \<Rightarrow> string"
  fc_sha256Hex :: "string \<Rightarrow> string"
  fc_encrypt :: "string \<Rightarrow> string \<times> string \<times> int \<times> string \<Rightarrow> byte list \<Rightarrow> byte list"

record UploadRequest =
  ur_tenant :: string
  ur_artifact :: string
  ur_part :: jsnum
  ur_contentType :: "string option"
  ur_contentLength :: "jsnum option"
  ur_sha256 :: "string option"
  ur_body :: "byte list list option"
  ur_iv :: string
  ur_uuid :: string

datatype fileError = FileError string int bool | IoException

abbreviation invalidRequest :: fileError where
  "invalidRequest \<equiv> FileError ''INVALID_REQUEST'' 400 False"

definition ARTIFACT_CHUNK_SIZE_BYTES :: int where
  "ARTIFACT_CHUNK_SIZE_BYTES = 4 * 1024 * 1024"

definition ARTIFACT_MAX_SIZE_BYTES :: int where
  "ARTIFACT_MAX_SIZE_BYTES = 256 * 1024 * 1024"

definition ARTIFACT_MAX_CHUNKS :: int where
  "ARTIFACT_MAX_CHUNKS = ARTIFACT_MAX_SIZE_BYTES div ARTIFACT_CHUNK_SIZE_BYTES"

definition STALE_UPLOAD_MILLISECONDS :: int where
  "STALE_UPLOAD_MILLISECONDS = 10 * 60000"

definition integerIn :: "jsnum \<Rightarrow> int \<Rightarrow> int \<Rightarrow> fileError + int" where
  "integerIn value minimum maximum =
     (if \<not> isSafeInteger value \<or> numLt value minimum \<or> numGt value maximum then Inl invalidRequest
      else Inr (numInt value))"

definition expectedPartSize :: "ArtifactRow \<Rightarrow> int \<Rightarrow> int" where
  "expectedPartSize a partNumber =
     (if partNumber < a_chunk_count a then a_chunk_size_bytes a
      else a_size_bytes a - a_chunk_size_bytes a * (a_chunk_count a - 1))"

fun readBoundedBody :: "int \<Rightarrow> byte list \<Rightarrow> byte list list \<Rightarrow> fileError + byte list" where
  "readBoundedBody expectedSize acc [] =
     (if int (length acc) \<noteq> expectedSize then Inl invalidRequest else Inr acc)"
| "readBoundedBody expectedSize acc (p # ps) =
     (if int (length acc + length p) > expectedSize then Inl invalidRequest
      else readBoundedBody expectedSize (acc @ p) ps)"

definition mediaTypeOf :: "string \<Rightarrow> string" where
  "mediaTypeOf header = toLowerCase (js_trim (takeWhile (\<lambda>c. c \<noteq> CHR '';'') header))"

text \<open>The headers of an upload: the type, the declared length where it is a number, and the digest.\<close>

definition uploadHeaders :: "UploadRequest \<Rightarrow> int \<Rightarrow> fileError + string" where
  "uploadHeaders r expectedSize =
     (let declared = (case ur_contentLength r of None \<Rightarrow> NInt (-1) | Some n \<Rightarrow> n);
          digest = (case ur_sha256 r of None \<Rightarrow> [] | Some s \<Rightarrow> toLowerCase s) in
      if ur_contentType r = None \<or> mediaTypeOf (the (ur_contentType r)) \<noteq> ''application/octet-stream'' then Inl invalidRequest
      else if isFiniteNum declared \<and> \<not> numLt declared 0 \<and> declared \<noteq> NInt expectedSize then Inl invalidRequest
      else if \<not> isSha256 digest then Inl invalidRequest
      else Inr digest)"

definition padPart :: "int \<Rightarrow> string" where
  "padPart n = replicate (4 - length (numString n)) (CHR ''0'') @ numString n"

definition storageKeyOf :: "UploadRequest \<Rightarrow> int \<Rightarrow> string" where
  "storageKeyOf r n = ur_tenant r @ ''/'' @ ur_artifact r @ ''/part-'' @ padPart n @ ''-'' @ ur_uuid r"

definition ownedArtifact :: "fileStore \<Rightarrow> string \<Rightarrow> string \<Rightarrow> ArtifactRow option" where
  "ownedArtifact st artifactId tenantId = find (ownedBy artifactId tenantId) (artifacts (fs_database st))"

definition chunkOfPart :: "fileStore \<Rightarrow> string \<Rightarrow> string \<Rightarrow> int \<Rightarrow> ArtifactChunkRow option" where
  "chunkOfPart st artifactId tenantId n =
     find (\<lambda>c. chunkOf artifactId tenantId c \<and> ch_part_number c = n) (artifact_chunks st)"

text \<open>The row and the ciphertext of a request, once its body has been read.\<close>

definition encryptUpload :: "FileConfig \<Rightarrow> int \<Rightarrow> UploadRequest \<Rightarrow> ArtifactRow \<Rightarrow> int \<Rightarrow>
    fileError + (ArtifactChunkRow \<times> byte list)" where
  "encryptUpload cfg clock r a n =
     andThen (uploadHeaders r (expectedPartSize a n)) (\<lambda>expectedSha256.
     andThen (case ur_body r of None \<Rightarrow> Inl invalidRequest | Some pieces \<Rightarrow> readBoundedBody (expectedPartSize a n) [] pieces) (\<lambda>plaintext.
       if fc_sha256Bytes cfg plaintext \<noteq> expectedSha256 then Inl (FileError ''ARTIFACT_INTEGRITY_FAILED'' 422 False)
       else let ciphertext = fc_encrypt cfg (ur_iv r) (ur_tenant r, ur_artifact r, n, expectedSha256) plaintext in
         Inr (\<lparr>ch_artifact_id = ur_artifact r, ch_tenant_id = ur_tenant r, ch_part_number = n,
            ch_size_bytes = expectedPartSize a n, ch_plaintext_sha256 = expectedSha256,
            ch_ciphertext_sha256 = fc_sha256Bytes cfg ciphertext, ch_storage_key = storageKeyOf r n,
            ch_iv = ur_iv r, ch_upload_status = ''pending'', ch_uploaded_at = clock\<rparr>, ciphertext)))"

section \<open>Programs\<close>

text \<open>Deletion of a pending chunk by somebody else, by its own upload, and the purge of a file.\<close>

datatype staleStage = MarkStale | DropStaleObject | RemoveStale
datatype ownStage = DropOwnObject | MarkOwn | RemoveOwn
datatype purgeStage = ClaimPurge | SelectGenerations | TombstoneGenerations "ArtifactChunkRow list"
  | DropGenerations "ArtifactChunkRow list" | FinishPurge "ArtifactChunkRow list"

record PurgeOrder =
  po_artifact :: string
  po_tenant :: string
  po_actor :: string
  po_task :: "string option"

datatype fileHandler =
    ReadArtifact UploadRequest
  | ReadChunk UploadRequest ArtifactRow int
  | ReplaceStale UploadRequest ArtifactRow int ArtifactChunkRow staleStage
  | ClaimChunk ArtifactRow ArtifactChunkRow "byte list"
  | ReadWinner ArtifactRow ArtifactChunkRow
  | EnqueueChunk ArtifactChunkRow "byte list"
  | PutChunk ArtifactChunkRow "byte list"
  | AbortChunk ArtifactChunkRow
  | FinalizeChunk ArtifactChunkRow
  | UndoChunk fileError ArtifactChunkRow ownStage
  | CountChunks ArtifactChunkRow
  | ReadUpload string string "ArtifactChunkDescriptor list"
  | ReadStored ArtifactRow "ArtifactChunkDescriptor list"
  | CommitUpload ArtifactRow string AuditRow
  | ReadCompleted ArtifactRow string
  | SelectDue
  | DropDue "string list"
  | DueDropped "string list"
  | DueFailed "string list"
  | SelectStale
  | CleanStale ArtifactChunkRow "ArtifactChunkRow list" staleStage
  | SelectExpired
  | CleanExpired string string purgeStage
  | ReadPurgeTarget PurgeOrder
  | CountActive PurgeOrder
  | ReadPurgeTask PurgeOrder string
  | CountOthers PurgeOrder string string
  | ClearTask PurgeOrder string string
  | PurgeFile PurgeOrder purgeStage
  | ReadPurged PurgeOrder
  | RecordPurge PurgeOrder bool string

datatype fileResult =
    Threw fileError
  | UploadedPart ArtifactChunkRow int
  | CompletedUpload ArtifactRow
  | PurgedFile string
  | CleanedUp

type_synonym fileStep = "fileStore \<times> (fileHandler + fileResult)"

text \<open>\<open>deletePendingChunk\<close> without ownership: the next stage, or whether the chunk is gone, or an exception.\<close>

definition startStale :: "ArtifactChunkRow \<Rightarrow> staleStage option" where
  "startStale row = (if ch_upload_status row = ''ready'' then None
     else if ch_upload_status row = ''pending'' then Some MarkStale else Some DropStaleObject)"

definition staleStep :: "int \<Rightarrow> ioOutcome \<Rightarrow> ArtifactChunkRow \<Rightarrow> staleStage \<Rightarrow> fileStore \<Rightarrow>
    fileStore \<times> (staleStage + bool option)" where
  "staleStep clock x row stage st = (case stage of
     MarkStale \<Rightarrow> (case runStatements x [markDeleting [''pending''] clock row] st of
         (st', None) \<Rightarrow> (st', Inr None)
       | (st', Some ns) \<Rightarrow> (st', if hd ns \<noteq> 1 then Inr (Some False) else Inl DropStaleObject))
   | DropStaleObject \<Rightarrow> (case runDelete x [ch_storage_key row] st of
         (st', gone) \<Rightarrow> (st', if gone then Inl RemoveStale else Inr (Some False)))
   | RemoveStale \<Rightarrow> (case runStatements x [removeChunk [''deleting''] row] st of
         (st', None) \<Rightarrow> (st', Inr None)
       | (st', Some ns) \<Rightarrow> (st', Inr (Some (hd ns = 1)))))"

text \<open>
  \<open>deletePendingChunk\<close> by the upload that owns the object: whatever happens, the upload ends with the
  error it already has or, when the last deletion throws, with that exception.
\<close>

definition ownStep :: "int \<Rightarrow> ioOutcome \<Rightarrow> fileError \<Rightarrow> ArtifactChunkRow \<Rightarrow> ownStage \<Rightarrow> fileStore \<Rightarrow> fileStep" where
  "ownStep clock x e row stage st = (case stage of
     DropOwnObject \<Rightarrow> (case runDelete x [ch_storage_key row] st of
         (st', gone) \<Rightarrow> (st', Inl (UndoChunk e row (if gone then RemoveOwn else MarkOwn))))
   | MarkOwn \<Rightarrow> (case runStatements x
           [insertChunkOrIgnore (row\<lparr>ch_upload_status := ''deleting'', ch_uploaded_at := clock\<rparr>),
            markDeleting [''pending'', ''deleting''] clock row] st of
         (st', _) \<Rightarrow> (st', Inr (Threw e)))
   | RemoveOwn \<Rightarrow> (case runStatements x [removeChunk [''pending'', ''deleting''] row] st of
         (st', None) \<Rightarrow> (st', Inr (Threw IoException))
       | (st', Some ns) \<Rightarrow> (st', Inr (Threw e))))"

text \<open>
  The purge of one file up to its last batch; \<open>now\<close> is the time it started with, \<open>finishAt\<close> that of the
  last batch. Its results are a
  refused claim, objects whose deletion is not confirmed, an exception, and the committed last batch.
\<close>

datatype purgeResult = PurgeRefused | PurgeUnconfirmed | PurgeThrew | PurgeCommitted

definition purgeStep :: "FileConfig \<Rightarrow> int \<Rightarrow> int \<Rightarrow> ioOutcome \<Rightarrow> string \<Rightarrow> string \<Rightarrow> purgeStage \<Rightarrow> fileStore \<Rightarrow>
    fileStore \<times> (purgeStage + purgeResult)" where
  "purgeStep cfg now finishAt x artifactId tenantId stage st = (case stage of
     ClaimPurge \<Rightarrow> (case runStatements x [onDatabase (CLAIM_ARTIFACT_PURGE_SQL (fc_isoText cfg now) artifactId tenantId)] st of
         (st', None) \<Rightarrow> (st', Inr PurgeThrew)
       | (st', Some ns) \<Rightarrow> (st', if hd ns \<noteq> 1 then Inr PurgeRefused else Inl SelectGenerations))
   | SelectGenerations \<Rightarrow>
       if x \<noteq> Done then (st, Inr PurgeThrew)
       else (case SELECT_ARTIFACT_PURGE_GENERATIONS_SQL artifactId tenantId st of
           [] \<Rightarrow> (st, Inl (FinishPurge []))
         | chunks \<Rightarrow> (st, Inl (TombstoneGenerations chunks)))
   | TombstoneGenerations chunks \<Rightarrow> (case runStatements x (tombstoneBatch now artifactId tenantId chunks) st of
         (st', None) \<Rightarrow> (st', Inr PurgeThrew)
       | (st', Some _) \<Rightarrow> (st', Inl (DropGenerations chunks)))
   | DropGenerations chunks \<Rightarrow> (case runDelete x (map ch_storage_key chunks) st of
         (st', gone) \<Rightarrow> (st', if gone then Inl (FinishPurge chunks) else Inr PurgeUnconfirmed))
   | FinishPurge chunks \<Rightarrow> (case runStatements x (finishPurgeBatch (fc_isoText cfg finishAt) artifactId tenantId chunks) st of
         (st', None) \<Rightarrow> (st', Inr PurgeThrew)
       | (st', Some _) \<Rightarrow> (st', Inr PurgeCommitted)))"

text \<open>The chunks of \<open>cleanupExpiredArtifactData\<close> are taken one by one; a failed deletion is passed over.\<close>

fun nextStale :: "ArtifactChunkRow list \<Rightarrow> fileHandler" where
  "nextStale [] = SelectExpired"
| "nextStale (row # rest) = (case startStale row of None \<Rightarrow> nextStale rest | Some stage \<Rightarrow> CleanStale row rest stage)"

section \<open>Uploads\<close>

definition uploadStatusError :: fileError where
  "uploadStatusError = FileError ''CONFLICT'' 409 False"

definition storageUnavailable :: fileError where
  "storageUnavailable = FileError ''ARTIFACT_STORAGE_UNAVAILABLE'' 503 True"

definition claimUpload :: "FileConfig \<Rightarrow> int \<Rightarrow> UploadRequest \<Rightarrow> ArtifactRow \<Rightarrow> int \<Rightarrow> fileHandler + fileResult" where
  "claimUpload cfg clock r a n = (case encryptUpload cfg clock r a n of
     Inl e \<Rightarrow> Inr (Threw e) | Inr (row, content) \<Rightarrow> Inl (ClaimChunk a row content))"

definition readArtifactStep :: "FileConfig \<Rightarrow> int \<Rightarrow> UploadRequest \<Rightarrow> fileStore \<Rightarrow> fileHandler + fileResult" where
  "readArtifactStep cfg clock r st =
     (if \<not> jobIdPattern (ur_artifact r) then Inr (Threw invalidRequest)
      else case integerIn (ur_part r) 1 ARTIFACT_MAX_CHUNKS of Inl e \<Rightarrow> Inr (Threw e)
      | Inr n \<Rightarrow> (case ownedArtifact st (ur_artifact r) (ur_tenant r) of
          None \<Rightarrow> Inr (Threw (FileError ''NOT_FOUND'' 404 False))
        | Some a \<Rightarrow>
          if a_status a \<noteq> ''uploading'' \<or> a_expires_at a \<le> fc_isoText cfg clock then Inr (Threw uploadStatusError)
          else if n > a_chunk_count a then Inr (Threw invalidRequest)
          else case uploadHeaders r (expectedPartSize a n) of Inl e \<Rightarrow> Inr (Threw e)
            | Inr digest \<Rightarrow> Inl (ReadChunk r a n)))"

definition readChunkStep :: "FileConfig \<Rightarrow> int \<Rightarrow> UploadRequest \<Rightarrow> ArtifactRow \<Rightarrow> int \<Rightarrow> fileStore \<Rightarrow> fileHandler + fileResult" where
  "readChunkStep cfg clock r a n st = (case chunkOfPart st (ur_artifact r) (ur_tenant r) n of
     None \<Rightarrow> claimUpload cfg clock r a n
   | Some existing \<Rightarrow>
     if ch_size_bytes existing \<noteq> expectedPartSize a n \<or> Inr (ch_plaintext_sha256 existing) \<noteq> uploadHeaders r (expectedPartSize a n)
     then Inr (Threw uploadStatusError)
     else (case startStale existing of
         None \<Rightarrow> Inr (UploadedPart existing (a_uploaded_chunks a))
       | Some stage \<Rightarrow>
         if ch_uploaded_at existing > clock - STALE_UPLOAD_MILLISECONDS then Inr (Threw (FileError ''CONFLICT'' 409 True))
         else Inl (ReplaceStale r a n existing stage)))"

definition winnerStep :: "ArtifactRow \<Rightarrow> ArtifactChunkRow \<Rightarrow> fileStore \<Rightarrow> fileResult" where
  "winnerStep a row st = (case chunkOfPart st (ch_artifact_id row) (ch_tenant_id row) (ch_part_number row) of
     Some winner \<Rightarrow>
       if ch_upload_status winner = ''ready'' \<and> ch_size_bytes winner = ch_size_bytes row \<and>
          ch_plaintext_sha256 winner = ch_plaintext_sha256 row
       then UploadedPart row (a_uploaded_chunks a) else Threw (FileError ''CONFLICT'' 409 True)
   | None \<Rightarrow> Threw (FileError ''CONFLICT'' 409 True))"

section \<open>Opening an upload\<close>

text \<open>
  \<open>createArtifactUpload\<close> after its cleanup and its rate limit: the fields of the request as the parsed body
  gives them, the row, and the batch. A Latin-1 text is its own normal form.
\<close>

record CreateUploadRequest =
  cu_fileName :: jsval
  cu_mediaType :: jsval
  cu_sizeBytes :: jsnum
  cu_privacyMode :: jsval

definition boundedText :: "jsval \<Rightarrow> nat \<Rightarrow> fileError + string" where
  "boundedText value maximum = (case value of
     JStr s \<Rightarrow> let normalized = js_trim s in
       if length normalized < 1 \<or> length normalized > maximum \<or> list_ex (\<lambda>c. (of_char c :: nat) = 0) normalized
       then Inl invalidRequest else Inr normalized
   | _ \<Rightarrow> Inl invalidRequest)"

definition validateFileName :: "jsval \<Rightarrow> fileError + string" where
  "validateFileName value = andThen (boundedText value 180) (\<lambda>name.
     if name = ''.'' \<or> name = ''..'' \<or>
        list_ex (\<lambda>c. c = CHR 0x5C \<or> c = CHR ''/'' \<or> (of_char c :: nat) < 32 \<or> (of_char c :: nat) = 127) name
     then Inl invalidRequest else Inr name)"

definition validateMediaType :: "jsval \<Rightarrow> fileError + string" where
  "validateMediaType value = (case value of
     JStr s \<Rightarrow> if s \<in> set ARTIFACT_SUPPORTED_MEDIA_TYPES then Inr s
       else Inl (FileError ''ARTIFACT_TYPE_UNSUPPORTED'' 415 False)
   | _ \<Rightarrow> Inl (FileError ''ARTIFACT_TYPE_UNSUPPORTED'' 415 False))"

definition mediaTypeExtensions :: "(string \<times> string) list" where
  "mediaTypeExtensions = [(''text/plain'', ''txt''), (''text/markdown'', ''md''), (''text/csv'', ''csv''),
     (''text/tab-separated-values'', ''tsv''), (''application/json'', ''json''), (''application/x-ndjson'', ''ndjson''),
     (''application/xml'', ''xml''), (''text/xml'', ''xml'')]"

definition privateArtifactFileName :: "string \<Rightarrow> string" where
  "privateArtifactFileName mediaType =
     ''private-artifact.'' @ (case map_of mediaTypeExtensions mediaType of Some e \<Rightarrow> e | None \<Rightarrow> ''undefined'')"

definition artifactRetentionMilliseconds :: "jsval \<Rightarrow> MarketplaceRuntimePolicy \<Rightarrow> fileError + int" where
  "artifactRetentionMilliseconds privacyMode policy =
     catchAs invalidRequest (andThen (calculateMarketplacePrivacyRetentionMilliseconds privacyMode (mp_retention policy))
       (\<lambda>r. Inr (ret_artifact r)))"

definition newArtifact :: "FileConfig \<Rightarrow> MarketplaceRuntimePolicy \<Rightarrow> int \<Rightarrow> string \<Rightarrow> string \<Rightarrow> CreateUploadRequest \<Rightarrow>
    fileError + ArtifactRow" where
  "newArtifact cfg policy clock tenantId uuid input =
     andThen (catchAs invalidRequest (parseMarketplacePrivacyMode (cu_privacyMode input))) (\<lambda>mode.
     andThen (validateMediaType (cu_mediaType input)) (\<lambda>mediaType.
     andThen (if mode = PStrict then Inr (privateArtifactFileName mediaType) else validateFileName (cu_fileName input)) (\<lambda>fileName.
     andThen (integerIn (cu_sizeBytes input) 1 ARTIFACT_MAX_SIZE_BYTES) (\<lambda>sizeBytes.
     let chunkCount = (sizeBytes + ARTIFACT_CHUNK_SIZE_BYTES - 1) div ARTIFACT_CHUNK_SIZE_BYTES in
     andThen (throwIf (chunkCount < 1 \<or> chunkCount > ARTIFACT_MAX_CHUNKS) invalidRequest) (\<lambda>_.
     andThen (artifactRetentionMilliseconds (cu_privacyMode input) policy) (\<lambda>retention.
       Inr \<lparr>a_artifact_id = ''artifact-'' @ uuid, a_tenant_id = tenantId, a_file_name = fileName,
          a_privacy_mode = (if mode = PStrict then ''strict'' else ''standard''), a_media_type = mediaType,
          a_size_bytes = sizeBytes, a_chunk_size_bytes = ARTIFACT_CHUNK_SIZE_BYTES, a_chunk_count = chunkCount,
          a_uploaded_chunks = 0, a_manifest_sha256 = None, a_status = ''uploading'', a_content_purged_at = None,
          a_expires_at = fc_isoText cfg (clock + retention), a_created_at = fc_isoText cfg clock,
          a_updated_at = fc_isoText cfg clock\<rparr>))))))"

definition creationAudit :: "ArtifactRow \<Rightarrow> string \<Rightarrow> string \<Rightarrow> string \<Rightarrow> AuditRow" where
  "creationAudit a auditId actor details =
     \<lparr>ad_audit_id = auditId, ad_tenant_id = a_tenant_id a, ad_actor_id = actor,
      ad_action = ''artifact.upload-created'', ad_resource_type = ''artifact'', ad_resource_id = a_artifact_id a,
      ad_details_json = details, ad_occurred_at = a_created_at a\<rparr>"

definition createUploadBatch :: "MarketplaceRuntimePolicy \<Rightarrow> ArtifactRow \<Rightarrow> AuditRow \<Rightarrow> stmt list" where
  "createUploadBatch policy a audit =
     [insertArtifact a (a_created_at a) (mp_maximumTenantArtifactBytes policy), guardedArtifactAuditInsert audit None]"

text \<open>The answer: without the row, the quota was exceeded.\<close>

definition createArtifactUpload :: "FileConfig \<Rightarrow> MarketplaceRuntimePolicy \<Rightarrow> int \<Rightarrow> string \<times> string \<times> string \<Rightarrow>
    string \<Rightarrow> string \<Rightarrow> CreateUploadRequest \<Rightarrow> database \<Rightarrow> database \<times> (fileError + ArtifactRow)" where
  "createArtifactUpload cfg policy clock g tenantId uuid input db = (case newArtifact cfg policy clock tenantId uuid input of
     Inl e \<Rightarrow> (db, Inl e)
   | Inr a \<Rightarrow> (case g of (auditId, actor, details) \<Rightarrow>
       (case batch (createUploadBatch policy a (creationAudit a auditId actor details)) db of
          Inl e \<Rightarrow> (db, Inl IoException)
        | Inr (db', ns) \<Rightarrow> (db', case find (ownedBy (a_artifact_id a) tenantId) (artifacts db') of
            None \<Rightarrow> Inl (FileError ''RESOURCE_QUOTA_EXCEEDED'' 429 True) | Some row \<Rightarrow> Inr row))))"

section \<open>Completion\<close>

text \<open>\<open>validatePartManifest\<close> on entries that have exactly the three fields.\<close>

definition validatePart :: "ArtifactRow \<Rightarrow> int list \<Rightarrow> ArtifactChunkDescriptor \<Rightarrow> fileError + int list" where
  "validatePart a seen p =
     (if chunk_partNumber p < 1 \<or> chunk_partNumber p > a_chunk_count a then Inl invalidRequest
      else if chunk_partNumber p \<in> set seen then Inl invalidRequest
      else if chunk_sizeBytes p < 1 \<or> chunk_sizeBytes p > ARTIFACT_CHUNK_SIZE_BYTES then Inl invalidRequest
      else if chunk_sizeBytes p \<noteq> expectedPartSize a (chunk_partNumber p) then Inl invalidRequest
      else if \<not> isSha256 (chunk_sha256 p) then Inl invalidRequest
      else Inr (chunk_partNumber p # seen))"

definition validatePartManifest :: "ArtifactRow \<Rightarrow> ArtifactChunkDescriptor list \<Rightarrow> fileError + ArtifactChunkDescriptor list" where
  "validatePartManifest a parts =
     (if int (length parts) \<noteq> a_chunk_count a then Inl invalidRequest
      else andThen (foldE (validatePart a) [] parts) (\<lambda>_. Inr (sort_key chunk_partNumber parts)))"

definition partStored :: "ArtifactChunkDescriptor \<Rightarrow> ArtifactChunkRow \<Rightarrow> bool" where
  "partStored p c \<longleftrightarrow> ch_part_number c = chunk_partNumber p \<and> ch_size_bytes c = chunk_sizeBytes p \<and>
     ch_plaintext_sha256 c = chunk_sha256 p"

definition manifestSha256 :: "FileConfig \<Rightarrow> ArtifactRow \<Rightarrow> ArtifactChunkDescriptor list \<Rightarrow> string" where
  "manifestSha256 cfg a parts = fc_sha256Hex cfg
     (createArtifactManifestPayload (a_artifact_id a) (a_file_name a) (a_media_type a) (a_size_bytes a) parts)"

definition readUploadStep :: "FileConfig \<Rightarrow> int \<Rightarrow> string \<Rightarrow> string \<Rightarrow> ArtifactChunkDescriptor list \<Rightarrow> fileStore \<Rightarrow>
    fileHandler + fileResult" where
  "readUploadStep cfg clock artifactId tenantId parts st =
     (if \<not> jobIdPattern artifactId then Inr (Threw invalidRequest)
      else case ownedArtifact st artifactId tenantId of
        None \<Rightarrow> Inr (Threw (FileError ''NOT_FOUND'' 404 False))
      | Some a \<Rightarrow>
        if a_status a = ''ready'' then Inr (CompletedUpload a)
        else if a_status a \<noteq> ''uploading'' \<or> a_expires_at a \<le> fc_isoText cfg clock then Inr (Threw uploadStatusError)
        else (case validatePartManifest a parts of Inl e \<Rightarrow> Inr (Threw e) | Inr declared \<Rightarrow> Inl (ReadStored a declared)))"

text \<open>The audit row of a completion; its identifier is random and its details hold the commitment.\<close>

definition completionAudit :: "FileConfig \<Rightarrow> int \<Rightarrow> ArtifactRow \<Rightarrow> string \<Rightarrow> string \<Rightarrow> string \<Rightarrow> AuditRow" where
  "completionAudit cfg clock a auditId actor details =
     \<lparr>ad_audit_id = auditId, ad_tenant_id = a_tenant_id a, ad_actor_id = actor,
      ad_action = ''artifact.upload-completed'', ad_resource_type = ''artifact'',
      ad_resource_id = a_artifact_id a, ad_details_json = details, ad_occurred_at = fc_isoText cfg clock\<rparr>"

definition readStoredStep :: "FileConfig \<Rightarrow> int \<Rightarrow> string \<times> string \<times> string \<Rightarrow> ArtifactRow \<Rightarrow> ArtifactChunkDescriptor list \<Rightarrow>
    fileStore \<Rightarrow> fileHandler + fileResult" where
  "readStoredStep cfg clock generated a declared st = (case generated of (auditId, actor, details) \<Rightarrow>
     let stored = SELECT_READY_CHUNKS (a_artifact_id a) (a_tenant_id a) st in
     if int (length stored) \<noteq> a_chunk_count a then Inr (Threw (FileError ''ARTIFACT_NOT_READY'' 409 True))
     else if \<not> list_all2 partStored declared stored then Inr (Threw (FileError ''ARTIFACT_INTEGRITY_FAILED'' 422 False))
     else Inl (CommitUpload a (manifestSha256 cfg a declared) (completionAudit cfg clock a auditId actor details)))"

definition commitUpload :: "ArtifactRow \<Rightarrow> string \<Rightarrow> AuditRow \<Rightarrow> fileStmt list" where
  "commitUpload a sha audit =
     [completeArtifact (a_artifact_id a) (a_tenant_id a) sha (ad_occurred_at audit),
      onDatabase (guardedArtifactAuditInsert audit (Some ''ready''))]"

definition readCompletedStep :: "ArtifactRow \<Rightarrow> string \<Rightarrow> fileStore \<Rightarrow> fileResult" where
  "readCompletedStep a sha st = (case ownedArtifact st (a_artifact_id a) (a_tenant_id a) of
     None \<Rightarrow> Threw (FileError ''NOT_FOUND'' 404 False)
   | Some completed \<Rightarrow>
     if a_status completed \<noteq> ''ready'' \<or> a_manifest_sha256 completed \<noteq> Some sha then Threw uploadStatusError
     else CompletedUpload completed)"

section \<open>Privacy purge\<close>

text \<open>
  \<open>purgeArtifact\<close> and \<open>purgeArtifactTask\<close> up to the point where the file itself is purged. An order for
  a task learns its file from the task.
\<close>

definition readPurgeTargetStep :: "PurgeOrder \<Rightarrow> fileStore \<Rightarrow> fileHandler + fileResult" where
  "readPurgeTargetStep p st = (case ownedArtifact st (po_artifact p) (po_tenant p) of
     None \<Rightarrow> Inr (Threw (FileError ''NOT_FOUND'' 404 False))
   | Some a \<Rightarrow> (case a_content_purged_at a of
       Some purgedAt \<Rightarrow> Inl (if a_status a = ''deleted'' then RecordPurge p False purgedAt else CountActive p)
     | None \<Rightarrow> Inl (CountActive p)))"

definition readPurgeTaskStep :: "PurgeOrder \<Rightarrow> string \<Rightarrow> fileStore \<Rightarrow> fileHandler + fileResult" where
  "readPurgeTaskStep p taskId st = (case SELECT_ARTIFACT_TASK_PURGE_STATE_SQL taskId (po_tenant p) st of
     None \<Rightarrow> Inr (Threw (FileError ''NOT_FOUND'' 404 False))
   | Some (artifactId, status, fullyPurgedAt) \<Rightarrow>
     let p' = p\<lparr>po_artifact := artifactId, po_task := Some taskId\<rparr> in
     (case fullyPurgedAt of
        Some purgedAt \<Rightarrow> Inl (RecordPurge p' False purgedAt)
      | None \<Rightarrow> if status = ''claimed'' \<or> status = ''running'' then Inr (Threw (FileError ''CONFLICT'' 409 True))
          else Inl (CountOthers p' taskId status)))"

definition purgeAudit :: "PurgeOrder \<Rightarrow> string \<Rightarrow> string \<Rightarrow> string \<Rightarrow> string \<Rightarrow> AuditRow" where
  "purgeAudit p action resourceType resourceId occurredAt =
     \<lparr>ad_audit_id = ''audit-'' @ action @ ''-'' @ resourceId, ad_tenant_id = po_tenant p, ad_actor_id = po_actor p,
      ad_action = action, ad_resource_type = resourceType, ad_resource_id = resourceId,
      ad_details_json = ''{}'', ad_occurred_at = occurredAt\<rparr>"

text \<open>The last batch: the audit entries, and for a purge just made the mark on its task.\<close>

definition recordPurge :: "string \<Rightarrow> PurgeOrder \<Rightarrow> bool \<Rightarrow> string \<Rightarrow> stmt list" where
  "recordPurge now p mark purgedAt =
     IDEMPOTENT_CONTENT_PURGE_AUDIT_SQL (purgeAudit p ''privacy.artifact-content-purged'' ''artifact'' (po_artifact p) purgedAt) #
     (case po_task p of None \<Rightarrow> []
      | Some taskId \<Rightarrow> (if mark then [markTaskPurged now taskId (po_tenant p)] else []) @
         [IDEMPOTENT_CONTENT_PURGE_AUDIT_SQL
            (purgeAudit p ''privacy.artifact-task-content-purged'' ''artifact-task'' taskId purgedAt)])"

section \<open>One access of a handler\<close>

text \<open>
  \<open>start\<close> is the time the handler began with and \<open>clock\<close> the time of this access. The generated values
  are those of the audit row of a completion.
\<close>

fun advanceFile :: "FileConfig \<Rightarrow> string \<times> string \<times> string \<Rightarrow> int \<Rightarrow> int \<Rightarrow> ioOutcome \<Rightarrow> fileHandler \<Rightarrow> fileStore \<Rightarrow> fileStep" where
  "advanceFile cfg g start clock x (ReadArtifact r) st =
     (st, if x \<noteq> Done then Inr (Threw IoException) else readArtifactStep cfg clock r st)"
| "advanceFile cfg g start clock x (ReadChunk r a n) st =
     (st, if x \<noteq> Done then Inr (Threw IoException) else readChunkStep cfg clock r a n st)"
| "advanceFile cfg g start clock x (ReplaceStale r a n existing stage) st =
     (case staleStep clock x existing stage st of
        (st', Inl stage') \<Rightarrow> (st', Inl (ReplaceStale r a n existing stage'))
      | (st', Inr None) \<Rightarrow> (st', Inr (Threw IoException))
      | (st', Inr (Some gone)) \<Rightarrow> (st', if gone then claimUpload cfg clock r a n else Inr (Threw storageUnavailable)))"
| "advanceFile cfg g start clock x (ClaimChunk a row content) st =
     (case runStatements x [claimChunk row (fc_isoText cfg (ch_uploaded_at row))] st of
        (st', None) \<Rightarrow> (st', Inr (Threw IoException))
      | (st', Some ns) \<Rightarrow> (st', Inl (if hd ns = 1 then EnqueueChunk row content else ReadWinner a row)))"
| "advanceFile cfg g start clock x (ReadWinner a row) st =
     (st, Inr (if x \<noteq> Done then Threw IoException else winnerStep a row st))"
| "advanceFile cfg g start clock x (EnqueueChunk row content) st =
     (case runStatements x [enqueueArtifactObjectDeletion (ch_storage_key row) (ch_artifact_id row) (ch_tenant_id row)
          (ch_uploaded_at row) (ch_uploaded_at row + 10 * 60000) (ch_uploaded_at row + 24 * 60 * 60000)] st of
        (st', None) \<Rightarrow> (st', Inr (Threw IoException))
      | (st', Some ns) \<Rightarrow> (st', Inl (PutChunk row content)))"
| "advanceFile cfg g start clock x (PutChunk row content) st =
     (case runPut x (ch_storage_key row) content st of
        (st', stored) \<Rightarrow> (st', Inl (if stored then FinalizeChunk row else AbortChunk row)))"
| "advanceFile cfg g start clock x (AbortChunk row) st =
     (case runStatements x [abortChunk row] st of
        (st', None) \<Rightarrow> (st', Inr (Threw IoException))
      | (st', Some ns) \<Rightarrow> (st', Inr (Threw storageUnavailable)))"
| "advanceFile cfg g start clock x (FinalizeChunk row) st =
     (case runStatements x (finalizeChunk (fc_isoText cfg) row) st of
        (st', None) \<Rightarrow> (st', Inl (UndoChunk IoException row DropOwnObject))
      | (st', Some ns) \<Rightarrow> (st', Inl (if hd ns = 1 then CountChunks row else UndoChunk uploadStatusError row DropOwnObject)))"
| "advanceFile cfg g start clock x (UndoChunk e row stage) st = ownStep clock x e row stage st"
| "advanceFile cfg g start clock x (CountChunks row) st =
     (st, Inr (if x \<noteq> Done then Threw IoException
        else UploadedPart row (int (readyCount st (ch_artifact_id row) (ch_tenant_id row)))))"
| "advanceFile cfg g start clock x (ReadUpload artifactId tenantId parts) st =
     (st, if x \<noteq> Done then Inr (Threw IoException) else readUploadStep cfg clock artifactId tenantId parts st)"
| "advanceFile cfg g start clock x (ReadStored a declared) st =
     (st, if x \<noteq> Done then Inr (Threw IoException) else readStoredStep cfg clock g a declared st)"
| "advanceFile cfg g start clock x (CommitUpload a sha audit) st =
     (case runStatements x (commitUpload a sha audit) st of
        (st', None) \<Rightarrow> (st', Inr (Threw IoException))
      | (st', Some ns) \<Rightarrow> (st', Inl (ReadCompleted a sha)))"
| "advanceFile cfg g start clock x (ReadCompleted a sha) st =
     (st, Inr (if x \<noteq> Done then Threw IoException else readCompletedStep a sha st))"
| "advanceFile cfg g start clock x SelectDue st =
     (st, if x \<noteq> Done then Inr (Threw IoException)
        else Inl (case SELECT_DUE_DELETIONS start st of [] \<Rightarrow> SelectStale | keys \<Rightarrow> DropDue keys))"
| "advanceFile cfg g start clock x (DropDue keys) st =
     (case runDelete x keys st of (st', gone) \<Rightarrow> (st', Inl (if gone then DueDropped keys else DueFailed keys)))"
| "advanceFile cfg g start clock x (DueDropped keys) st =
     (case runStatements x (deletionDoneBatch start keys) st of
        (st', None) \<Rightarrow> (st', Inl (DueFailed keys))
      | (st', Some ns) \<Rightarrow> (st', Inl SelectStale))"
| "advanceFile cfg g start clock x (DueFailed keys) st =
     (case runStatements x (deletionRetryBatch start keys) st of
        (st', None) \<Rightarrow> (st', Inr (Threw IoException))
      | (st', Some ns) \<Rightarrow> (st', Inl SelectStale))"
| "advanceFile cfg g start clock x SelectStale st =
     (st, if x \<noteq> Done then Inr (Threw IoException)
        else Inl (nextStale (SELECT_STALE_CHUNKS (start - STALE_UPLOAD_MILLISECONDS) st)))"
| "advanceFile cfg g start clock x (CleanStale row rest stage) st =
     (case staleStep clock x row stage st of
        (st', Inl stage') \<Rightarrow> (st', Inl (CleanStale row rest stage'))
      | (st', Inr None) \<Rightarrow> (st', Inr (Threw IoException))
      | (st', Inr (Some gone)) \<Rightarrow> (st', Inl (nextStale rest)))"
| "advanceFile cfg g start clock x SelectExpired st =
     (st, if x \<noteq> Done then Inr (Threw IoException)
        else case SELECT_EXPIRED_ARTIFACT (fc_isoText cfg start) st of
            None \<Rightarrow> Inr CleanedUp
          | Some a \<Rightarrow> Inl (CleanExpired (a_artifact_id a) (a_tenant_id a) ClaimPurge))"
| "advanceFile cfg g start clock x (CleanExpired artifactId tenantId stage) st =
     (case purgeStep cfg start start x artifactId tenantId stage st of
        (st', Inl stage') \<Rightarrow> (st', Inl (CleanExpired artifactId tenantId stage'))
      | (st', Inr r) \<Rightarrow> (st', Inr (if r = PurgeThrew then Threw IoException else CleanedUp)))"
| "advanceFile cfg g start clock x (ReadPurgeTarget p) st =
     (st, if x \<noteq> Done then Inr (Threw IoException) else readPurgeTargetStep p st)"
| "advanceFile cfg g start clock x (CountActive p) st =
     (st, if x \<noteq> Done then Inr (Threw IoException)
        else if list_ex (\<lambda>t. t_artifact_id t = po_artifact p \<and> t_buyer_tenant_id t = po_tenant p \<and> taskActive t)
          (artifact_tasks (fs_database st))
        then Inr (Threw (FileError ''CONFLICT'' 409 True)) else Inl (PurgeFile p ClaimPurge))"
| "advanceFile cfg g start clock x (ReadPurgeTask p taskId) st =
     (st, if x \<noteq> Done then Inr (Threw IoException) else readPurgeTaskStep p taskId st)"
| "advanceFile cfg g start clock x (CountOthers p taskId status) st =
     (st, if x \<noteq> Done then Inr (Threw IoException)
        else if list_ex (\<lambda>t. t_artifact_id t = po_artifact p \<and> t_buyer_tenant_id t = po_tenant p \<and> t_task_id t \<noteq> taskId \<and>
          taskActive t) (artifact_tasks (fs_database st))
        then Inr (Threw (FileError ''CONFLICT'' 409 True)) else Inl (ClearTask p taskId status))"
| "advanceFile cfg g start clock x (ClearTask p taskId status) st =
     (case runStatements x (map onDatabase ((if status = ''queued'' then cancelForPurgeBatch else clearForPurgeBatch)
          (fc_isoText cfg clock) taskId (po_artifact p) (po_tenant p))) st of
        (st', None) \<Rightarrow> (st', Inr (Threw IoException))
      | (st', Some ns) \<Rightarrow> (st', if status = ''queued'' \<and> hd ns \<noteq> 1 then Inr (Threw (FileError ''CONFLICT'' 409 True))
          else Inl (PurgeFile p ClaimPurge)))"
| "advanceFile cfg g start clock x (PurgeFile p stage) st =
     (case purgeStep cfg start clock x (po_artifact p) (po_tenant p) stage st of
        (st', Inl stage') \<Rightarrow> (st', Inl (PurgeFile p stage'))
      | (st', Inr PurgeThrew) \<Rightarrow> (st', Inr (Threw IoException))
      | (st', Inr PurgeRefused) \<Rightarrow> (st', Inr (Threw (FileError ''CONFLICT'' 409 True)))
      | (st', Inr PurgeUnconfirmed) \<Rightarrow> (st', Inr (Threw storageUnavailable))
      | (st', Inr PurgeCommitted) \<Rightarrow> (st', Inl (ReadPurged p)))"
| "advanceFile cfg g start clock x (ReadPurged p) st =
     (st, if x \<noteq> Done then Inr (Threw IoException)
        else case ownedArtifact st (po_artifact p) (po_tenant p) of
            Some a \<Rightarrow> if a_status a = ''deleted''
              then Inl (RecordPurge p True (case a_content_purged_at a of Some t \<Rightarrow> t | None \<Rightarrow> fc_isoText cfg clock))
              else Inr (Threw storageUnavailable)
          | None \<Rightarrow> Inr (Threw storageUnavailable))"
| "advanceFile cfg g start clock x (RecordPurge p mark purgedAt) st =
     (case runStatements x (map onDatabase (recordPurge (fc_isoText cfg clock) p mark purgedAt)) st of
        (st', None) \<Rightarrow> (st', Inr (Threw IoException))
      | (st', Some ns) \<Rightarrow> (st', Inr (PurgedFile purgedAt)))"

end
