(* ===== verification/ArtifactStorage.thy ===== *)
theory ArtifactStorage
  imports ArtifactFiles
begin

text \<open>
  The files of the marketplace as a transition system: any number of handlers run at once, stop between
  any two of their accesses, fail, or vanish with their process, while the rest of the control plane
  works on its tables. Every object of a ready chunk is in the store as it was uploaded, and every object
  in the store belongs to a ready chunk or is queued for deletion.
\<close>

section \<open>The transition system\<close>

record fileSystem =
  files :: fileStore
  running :: "(int \<times> fileHandler) list"
  clock :: int
  uuids :: "string set"

text \<open>The handlers that requests start: an upload with a new random identifier, a completion, a cleanup, a purge.\<close>

fun initialHandler :: "string set \<Rightarrow> fileHandler \<Rightarrow> bool" where
  "initialHandler U (ReadArtifact r) = (length (ur_uuid r) = 36 \<and> ur_uuid r \<notin> U)"
| "initialHandler U (ReadUpload artifactId tenantId parts) = True"
| "initialHandler U SelectDue = True"
| "initialHandler U (ReadPurgeTarget p) = True"
| "initialHandler U (ReadPurgeTask p taskId) = True"
| "initialHandler U h = False"

fun uploadUuid :: "fileHandler \<Rightarrow> string set" where
  "uploadUuid (ReadArtifact r) = {ur_uuid r}"
| "uploadUuid h = {}"

text \<open>What the other handlers of the control plane do to the files: they move times, and tables beside.\<close>

definition sameArtifact :: "ArtifactRow \<Rightarrow> ArtifactRow \<Rightarrow> bool" where
  "sameArtifact a a' \<longleftrightarrow> a' = a\<lparr>a_expires_at := a_expires_at a', a_updated_at := a_updated_at a'\<rparr>"

definition keepsFiles :: "database \<Rightarrow> database \<Rightarrow> bool" where
  "keepsFiles db db' \<longleftrightarrow> list_all2 sameArtifact (artifacts db) (artifacts db')"

text \<open>
  A handler has at most \<open>H\<close> milliseconds. \<open>lossy\<close> says whether the reply to the batch that makes a chunk
  ready may get lost although the batch took effect.
\<close>

inductive file_step :: "FileConfig \<Rightarrow> MarketplaceRuntimePolicy \<Rightarrow> int \<Rightarrow> bool \<Rightarrow> fileSystem \<Rightarrow> fileSystem \<Rightarrow> bool"
  for cfg policy H lossy where
  tick: "clock s \<le> t \<Longrightarrow> file_step cfg policy H lossy s (s\<lparr>clock := t\<rparr>)"
| arrive: "initialHandler (uuids s) h \<Longrightarrow>
    file_step cfg policy H lossy s (s\<lparr>running := running s @ [(clock s, h)], uuids := uuids s \<union> uploadUuid h\<rparr>)"
| access: "running s = xs @ (start, h) # ys \<Longrightarrow> clock s \<le> start + H \<Longrightarrow>
    (\<forall>row. h = FinalizeChunk row \<longrightarrow> x = LostReply \<longrightarrow> lossy) \<Longrightarrow>
    advanceFile cfg g start (clock s) x h (files s) = (st, r) \<Longrightarrow>
    file_step cfg policy H lossy s (s\<lparr>files := st, running := xs @ (case r of Inl h' \<Rightarrow> [(start, h')] | Inr _ \<Rightarrow> []) @ ys\<rparr>)"
| vanish: "running s = xs @ y # ys \<Longrightarrow> file_step cfg policy H lossy s (s\<lparr>running := xs @ ys\<rparr>)"
| create: "createArtifactUpload cfg policy (clock s) g tenantId uuid input (fs_database (files s)) = (db, r) \<Longrightarrow>
    file_step cfg policy H lossy s (s\<lparr>files := (files s)\<lparr>fs_database := db\<rparr>\<rparr>)"
| others: "keepsFiles (fs_database (files s)) db \<Longrightarrow>
    file_step cfg policy H lossy s (s\<lparr>files := (files s)\<lparr>fs_database := db\<rparr>\<rparr>)"

definition emptyFiles :: "database \<Rightarrow> fileStore" where
  "emptyFiles db = \<lparr>fs_database = db, artifact_chunks = [], artifact_object_deletions = [], bucket = Map.empty\<rparr>"

inductive file_reachable :: "FileConfig \<Rightarrow> MarketplaceRuntimePolicy \<Rightarrow> int \<Rightarrow> bool \<Rightarrow> fileSystem \<Rightarrow> bool"
  for cfg policy H lossy where
  start: "artifacts db = [] \<Longrightarrow>
    file_reachable cfg policy H lossy \<lparr>files = emptyFiles db, running = [], clock = 0, uuids = {}\<rparr>"
| step: "file_reachable cfg policy H lossy s \<Longrightarrow> file_step cfg policy H lossy s s' \<Longrightarrow> file_reachable cfg policy H lossy s'"

section \<open>The invariant\<close>

text \<open>Keys end with the random identifier of their upload.\<close>

definition uuidOf :: "string \<Rightarrow> string" where
  "uuidOf key = drop (length key - 36) key"

lemma uuidOf_append: "length u = 36 \<Longrightarrow> uuidOf (p @ u) = u"
  by (simp add: uuidOf_def)

lemma uuidOf_storageKey: "length (ur_uuid r) = 36 \<Longrightarrow> uuidOf (storageKeyOf r n) = ur_uuid r"
  using uuidOf_append [of "ur_uuid r" "ur_tenant r @ ''/'' @ ur_artifact r @ ''/part-'' @ padPart n @ ''-''"]
  by (simp add: storageKeyOf_def)

text \<open>The identifier of an upload, before and after it has claimed its row.\<close>

fun unclaimedUuid :: "fileHandler \<Rightarrow> string list" where
  "unclaimedUuid (ReadArtifact r) = [ur_uuid r]"
| "unclaimedUuid (ReadChunk r a n) = [ur_uuid r]"
| "unclaimedUuid (ReplaceStale r a n existing stage) = [ur_uuid r]"
| "unclaimedUuid (ClaimChunk a row content) = [uuidOf (ch_storage_key row)]"
| "unclaimedUuid h = []"

fun claimedUuid :: "fileHandler \<Rightarrow> string list" where
  "claimedUuid (EnqueueChunk row content) = [uuidOf (ch_storage_key row)]"
| "claimedUuid (PutChunk row content) = [uuidOf (ch_storage_key row)]"
| "claimedUuid (AbortChunk row) = [uuidOf (ch_storage_key row)]"
| "claimedUuid (FinalizeChunk row) = [uuidOf (ch_storage_key row)]"
| "claimedUuid (UndoChunk e row stage) = [uuidOf (ch_storage_key row)]"
| "claimedUuid h = []"

definition sameChunk :: "ArtifactChunkRow \<Rightarrow> ArtifactChunkRow \<Rightarrow> bool" where
  "sameChunk c c' \<longleftrightarrow> c' = c\<lparr>ch_upload_status := ch_upload_status c', ch_uploaded_at := ch_uploaded_at c'\<rparr>"

text \<open>The content of a row: the encryption of a text of its size and digest, and its own digest.\<close>

definition contentOf :: "FileConfig \<Rightarrow> ArtifactChunkRow \<Rightarrow> byte list \<Rightarrow> bool" where
  "contentOf cfg c content \<longleftrightarrow> ch_ciphertext_sha256 c = fc_sha256Bytes cfg content \<and>
     (\<exists>plaintext. int (length plaintext) = ch_size_bytes c \<and> fc_sha256Bytes cfg plaintext = ch_plaintext_sha256 c \<and>
        content = fc_encrypt cfg (ch_iv c) (ch_tenant_id c, ch_artifact_id c, ch_part_number c, ch_plaintext_sha256 c) plaintext)"

abbreviation chunks :: "fileStore \<Rightarrow> ArtifactChunkRow set" where
  "chunks st \<equiv> set (artifact_chunks st)"

abbreviation deletions :: "fileStore \<Rightarrow> ObjectDeletionRow set" where
  "deletions st \<equiv> set (artifact_object_deletions st)"

definition queued :: "fileStore \<Rightarrow> string \<Rightarrow> bool" where
  "queued st key \<longleftrightarrow> (\<exists>q \<in> deletions st. od_storage_key q = key)"

definition isReady :: "ArtifactChunkRow \<Rightarrow> bool" where
  "isReady c \<longleftrightarrow> ch_upload_status c = ''ready''"

text \<open>A dead key: no row of it is pending or ready.\<close>

definition deadKey :: "fileStore \<Rightarrow> string \<Rightarrow> bool" where
  "deadKey st key \<longleftrightarrow> (\<forall>c \<in> chunks st. ch_storage_key c = key \<longrightarrow> ch_upload_status c = ''deleting'')"

text \<open>The rows of a key an upload owns are its row, not ready.\<close>

definition ownRows :: "fileStore \<Rightarrow> ArtifactChunkRow \<Rightarrow> bool" where
  "ownRows st row \<longleftrightarrow> (\<forall>c \<in> chunks st. ch_storage_key c = ch_storage_key row \<longrightarrow> sameChunk row c \<and> \<not> isReady c)"

definition DAY :: int where
  "DAY = 24 * 60 * 60000"

definition retained :: "int \<Rightarrow> fileStore \<Rightarrow> ArtifactChunkRow \<Rightarrow> bool" where
  "retained H st row \<longleftrightarrow> (\<forall>q \<in> deletions st. od_storage_key q = ch_storage_key row \<longrightarrow>
     ch_uploaded_at row + DAY - H \<le> od_retain_until q)"

text \<open>What a stopped handler relies on. \<open>C\<close> holds the identifiers whose rows have been claimed.\<close>

definition deadClaimed :: "string set \<Rightarrow> fileStore \<Rightarrow> string \<Rightarrow> bool" where
  "deadClaimed C st key \<longleftrightarrow> uuidOf key \<in> C \<and> deadKey st key"

fun purgeNeeds :: "string set \<Rightarrow> fileStore \<Rightarrow> purgeStage \<Rightarrow> bool" where
  "purgeNeeds C st (TombstoneGenerations cs) = (\<forall>g \<in> set cs. uuidOf (ch_storage_key g) \<in> C \<and>
     (\<forall>c \<in> chunks st. ch_storage_key c = ch_storage_key g \<longrightarrow> ch_upload_status c \<noteq> ''deleting'' \<longrightarrow> generationOf g c))"
| "purgeNeeds C st (DropGenerations cs) = (\<forall>g \<in> set cs. deadClaimed C st (ch_storage_key g))"
| "purgeNeeds C st (FinishPurge cs) = (\<forall>g \<in> set cs. deadClaimed C st (ch_storage_key g))"
| "purgeNeeds C st stage = True"

definition staleNeeds :: "string set \<Rightarrow> fileStore \<Rightarrow> ArtifactChunkRow \<Rightarrow> staleStage \<Rightarrow> bool" where
  "staleNeeds C st row stage \<longleftrightarrow> uuidOf (ch_storage_key row) \<in> C \<and> (stage \<noteq> MarkStale \<longrightarrow> deadKey st (ch_storage_key row))"

fun needs :: "FileConfig \<Rightarrow> int \<Rightarrow> int \<Rightarrow> string set \<Rightarrow> fileStore \<Rightarrow> int \<Rightarrow> fileHandler \<Rightarrow> bool" where
  "needs cfg H t C st start (ReadArtifact r) = (length (ur_uuid r) = 36)"
| "needs cfg H t C st start (ReadChunk r a n) = (length (ur_uuid r) = 36)"
| "needs cfg H t C st start (ReplaceStale r a n row stage) = (length (ur_uuid r) = 36 \<and> staleNeeds C st row stage)"
| "needs cfg H t C st start (ClaimChunk a row content) = (contentOf cfg row content \<and> start \<le> ch_uploaded_at row \<and>
     ch_uploaded_at row \<le> t \<and> ch_upload_status row = ''pending'')"
| "needs cfg H t C st start (EnqueueChunk row content) = (contentOf cfg row content \<and> start \<le> ch_uploaded_at row \<and>
     ch_uploaded_at row \<le> t \<and> ownRows st row \<and> retained H st row)"
| "needs cfg H t C st start (PutChunk row content) = (contentOf cfg row content \<and> start \<le> ch_uploaded_at row \<and>
     ch_uploaded_at row \<le> t \<and> ownRows st row \<and> retained H st row \<and> (t \<le> start + H \<longrightarrow> queued st (ch_storage_key row)))"
| "needs cfg H t C st start (FinalizeChunk row) = (ownRows st row \<and>
     (\<forall>c \<in> chunks st. ch_storage_key c = ch_storage_key row \<longrightarrow> ch_upload_status c = ''pending'' \<longrightarrow>
        (\<exists>content. bucket st (ch_storage_key row) = Some content \<and> contentOf cfg row content)))"
| "needs cfg H t C st start (AbortChunk row) = ownRows st row"
| "needs cfg H t C st start (UndoChunk e row stage) = ownRows st row"
| "needs cfg H t C st start (CleanStale row rest stage) = (staleNeeds C st row stage \<and>
     (\<forall>c \<in> set rest. uuidOf (ch_storage_key c) \<in> C \<and> (ch_upload_status c \<noteq> ''pending'' \<longrightarrow> deadKey st (ch_storage_key c))))"
| "needs cfg H t C st start (CleanExpired artifactId tenantId stage) = purgeNeeds C st stage"
| "needs cfg H t C st start (PurgeFile p stage) = purgeNeeds C st stage"
| "needs cfg H t C st start (DropDue keys) = (\<forall>k \<in> set keys. deadClaimed C st k)"
| "needs cfg H t C st start (DueDropped keys) = (\<forall>k \<in> set keys. deadClaimed C st k \<and>
     (bucket st k \<noteq> None \<longrightarrow> (\<forall>q \<in> deletions st. od_storage_key q = k \<longrightarrow> start < od_retain_until q)))"
| "needs cfg H t C st start h = True"

text \<open>The state of the tables and the store.\<close>

definition tidy :: "FileConfig \<Rightarrow> string set \<Rightarrow> fileStore \<Rightarrow> bool" where
  "tidy cfg C st \<longleftrightarrow>
     (\<forall>c \<in> chunks st. ch_upload_status c \<in> {''pending'', ''ready'', ''deleting''} \<and> uuidOf (ch_storage_key c) \<in> C) \<and>
     distinct (map ch_storage_key (artifact_chunks st)) \<and>
     (\<forall>q \<in> deletions st. uuidOf (od_storage_key q) \<in> C) \<and>
     (\<forall>c \<in> chunks st. isReady c \<longrightarrow> (\<exists>content. bucket st (ch_storage_key c) = Some content \<and> contentOf cfg c content)) \<and>
     (\<forall>k. bucket st k \<noteq> None \<longrightarrow> uuidOf k \<in> C \<and>
        (queued st k \<or> (\<exists>c \<in> chunks st. ch_storage_key c = k \<and> isReady c)))"

definition claimedIn :: "fileSystem \<Rightarrow> string set" where
  "claimedIn s = uuids s - set (concat (map (unclaimedUuid \<circ> snd) (running s)))"

definition tidySystem :: "FileConfig \<Rightarrow> int \<Rightarrow> fileSystem \<Rightarrow> bool" where
  "tidySystem cfg H s \<longleftrightarrow>
     tidy cfg (claimedIn s) (files s) \<and>
     distinct (concat (map (\<lambda>y. unclaimedUuid (snd y) @ claimedUuid (snd y)) (running s))) \<and>
     set (concat (map (\<lambda>y. unclaimedUuid (snd y) @ claimedUuid (snd y)) (running s))) \<subseteq> uuids s \<and>
     (\<forall>(start, h) \<in> set (running s). start \<le> clock s \<and> needs cfg H (clock s) (claimedIn s) (files s) start h)"

section \<open>What one access may change\<close>

text \<open>
  \<open>K\<close> is the key of the upload that acts, if one does. Rows of other keys only turn to \<open>deleting\<close> or go;
  objects of other keys only go when their key is dead; queue entries go at the end of their time, and new
  or lowered times are a day ahead, up to the time a handler may take.
\<close>

definition rowsFrame :: "string set \<Rightarrow> string set \<Rightarrow> fileStore \<Rightarrow> fileStore \<Rightarrow> bool" where
  "rowsFrame C K st st' \<longleftrightarrow> (\<forall>c' \<in> chunks st'. c' \<in> chunks st \<or>
     (\<exists>c \<in> chunks st. sameChunk c c' \<and> ch_upload_status c' = ''deleting'') \<or>
     (ch_storage_key c' \<in> K \<and> (ch_upload_status c' = ''deleting'' \<or>
        (\<exists>c \<in> chunks st. ch_upload_status c = ''pending'' \<and> c' = c\<lparr>ch_upload_status := ''ready''\<rparr>))) \<or>
     uuidOf (ch_storage_key c') \<notin> C)"

definition queueFrame :: "int \<Rightarrow> int \<Rightarrow> string set \<Rightarrow> fileStore \<Rightarrow> fileStore \<Rightarrow> bool" where
  "queueFrame H t K st st' \<longleftrightarrow>
     (\<forall>q' \<in> deletions st'. (\<exists>q \<in> deletions st. od_storage_key q = od_storage_key q' \<and> od_retain_until q \<le> od_retain_until q') \<or>
        t - H + DAY \<le> od_retain_until q') \<and>
     (\<forall>q \<in> deletions st. od_storage_key q \<notin> K \<longrightarrow> queued st' (od_storage_key q) \<or>
        (\<exists>p \<in> deletions st. od_storage_key p = od_storage_key q \<and> od_retain_until p \<le> t))"

definition bucketFrame :: "int \<Rightarrow> string set \<Rightarrow> fileStore \<Rightarrow> fileStore \<Rightarrow> bool" where
  "bucketFrame t K st st' \<longleftrightarrow>
     (\<forall>k. k \<notin> K \<longrightarrow> bucket st' k = bucket st k \<or> (bucket st' k = None \<and> deadKey st k)) \<and>
     (\<forall>k. bucket st' k \<noteq> None \<longrightarrow> bucket st k \<noteq> None \<or>
        (\<forall>q \<in> deletions st'. od_storage_key q = k \<longrightarrow> t < od_retain_until q))"

definition frame :: "int \<Rightarrow> int \<Rightarrow> string set \<Rightarrow> string set \<Rightarrow> fileStore \<Rightarrow> fileStore \<Rightarrow> bool" where
  "frame H t C K st st' \<longleftrightarrow> rowsFrame C K st st' \<and> queueFrame H t K st st' \<and> bucketFrame t K st st'"

lemma frame_refl: "frame H t C K st st"
  by (auto simp: frame_def rowsFrame_def queueFrame_def bucketFrame_def queued_def)

text \<open>Statements leave the objects alone.\<close>

lemma frame_tables:
  assumes "artifact_chunks st' = artifact_chunks st" "artifact_object_deletions st' = artifact_object_deletions st"
    and "bucket st' = bucket st"
  shows "frame H t C K st st'"
  using assms by (auto simp: frame_def rowsFrame_def queueFrame_def bucketFrame_def queued_def)

lemma bucketFrame_same: "bucket st' = bucket st \<Longrightarrow> bucketFrame t K st st'"
  by (simp add: bucketFrame_def)

lemma sameChunk_refl [simp]: "sameChunk c c"
  by (simp add: sameChunk_def)

lemma sameChunk_key:
  assumes "sameChunk c c'"
  shows "ch_storage_key c' = ch_storage_key c" "ch_artifact_id c' = ch_artifact_id c" "ch_tenant_id c' = ch_tenant_id c"
    "ch_part_number c' = ch_part_number c" "ch_size_bytes c' = ch_size_bytes c"
    "ch_plaintext_sha256 c' = ch_plaintext_sha256 c" "ch_ciphertext_sha256 c' = ch_ciphertext_sha256 c" "ch_iv c' = ch_iv c"
  by (subst assms [unfolded sameChunk_def], simp)+

lemma sameChunk_trans: "sameChunk a b \<Longrightarrow> sameChunk b c \<Longrightarrow> sameChunk a c"
  using sameChunk_key [of a b] sameChunk_key [of b c]
  by (cases a; cases b; cases c) (simp add: sameChunk_def)

lemma sameChunk_sym: "sameChunk a b \<Longrightarrow> sameChunk b a"
  using sameChunk_key [of a b] by (cases a; cases b) (simp add: sameChunk_def)

lemma sameChunk_update [simp]:
  "sameChunk c (c\<lparr>ch_upload_status := s\<rparr>)" "sameChunk c (c\<lparr>ch_upload_status := s, ch_uploaded_at := u\<rparr>)"
  by (simp_all add: sameChunk_def)

lemma contentOf_same: "sameChunk c c' \<Longrightarrow> contentOf cfg c' = contentOf cfg c"
  using sameChunk_key [of c c'] by (auto simp: contentOf_def)

section \<open>What a stopped handler relies on stays true\<close>

lemma dead_frame:
  assumes "rowsFrame C K st st'" "deadClaimed C st k"
  shows "deadClaimed C st' k"
  unfolding deadClaimed_def deadKey_def
proof (intro conjI ballI impI)
  show "uuidOf k \<in> C" using assms(2) by (simp add: deadClaimed_def)
  have dead: "\<And>c. c \<in> chunks st \<Longrightarrow> ch_storage_key c = k \<Longrightarrow> ch_upload_status c = ''deleting''"
    using assms(2) by (simp add: deadClaimed_def deadKey_def)
  fix c' assume c': "c' \<in> chunks st'" "ch_storage_key c' = k"
  then consider "c' \<in> chunks st" | "ch_upload_status c' = ''deleting''"
    | c where "c \<in> chunks st" "ch_upload_status c = ''pending''" "c' = c\<lparr>ch_upload_status := ''ready''\<rparr>"
    using assms \<open>uuidOf k \<in> C\<close> by (auto simp: rowsFrame_def)
  then show "ch_upload_status c' = ''deleting''"
  proof cases
    case 1 then show ?thesis using dead c'(2) by blast
  next
    case 3
    then have "ch_storage_key c = k" using c'(2) by simp
    with 3 dead [of c] show ?thesis by simp
  qed simp
qed

lemma generation_frame:
  assumes "rowsFrame C K st st'" "uuidOf (ch_storage_key g) \<in> C"
    and old: "\<And>c. c \<in> chunks st \<Longrightarrow> ch_storage_key c = ch_storage_key g \<Longrightarrow> ch_upload_status c \<noteq> ''deleting'' \<Longrightarrow> generationOf g c"
    and c': "c' \<in> chunks st'" "ch_storage_key c' = ch_storage_key g" "ch_upload_status c' \<noteq> ''deleting''"
  shows "generationOf g c'"
proof -
  from assms(1,2) c' consider "c' \<in> chunks st"
    | c where "c \<in> chunks st" "ch_upload_status c = ''pending''" "c' = c\<lparr>ch_upload_status := ''ready''\<rparr>"
    by (auto simp: rowsFrame_def)
  then show ?thesis
  proof cases
    case 1 then show ?thesis using old c' by blast
  next
    case 2
    then have "generationOf g c" using old [of c] c'(2) by simp
    then show ?thesis using 2 by (simp add: generationOf_def chunkAt_def)
  qed
qed

lemma ownRows_frame:
  assumes "rowsFrame C K st st'" "uuidOf (ch_storage_key row) \<in> C" "ch_storage_key row \<notin> K" "ownRows st row"
  shows "ownRows st' row"
  unfolding ownRows_def
proof (intro ballI impI)
  have old: "\<And>c. c \<in> chunks st \<Longrightarrow> ch_storage_key c = ch_storage_key row \<Longrightarrow> sameChunk row c \<and> \<not> isReady c"
    using assms(4) by (simp add: ownRows_def)
  fix c' assume c': "c' \<in> chunks st'" "ch_storage_key c' = ch_storage_key row"
  with assms(1-3) consider "c' \<in> chunks st"
    | c where "c \<in> chunks st" "sameChunk c c'" "ch_upload_status c' = ''deleting''"
    by (auto simp: rowsFrame_def)
  then show "sameChunk row c' \<and> \<not> isReady c'"
  proof cases
    case 1 then show ?thesis using old c'(2) by blast
  next
    case 2
    then have "sameChunk row c" using old [of c] c'(2) sameChunk_key(1) [OF 2(2)] by simp
    then show ?thesis using 2 sameChunk_trans by (auto simp: isReady_def)
  qed
qed

lemma pending_frame:
  assumes "rowsFrame C K st st'" "uuidOf k \<in> C" "k \<notin> K" "c' \<in> chunks st'" "ch_storage_key c' = k" "ch_upload_status c' = ''pending''"
  shows "c' \<in> chunks st"
  using assms by (auto simp: rowsFrame_def)

lemma retained_frame:
  assumes "queueFrame H t K st st'" "ch_uploaded_at row \<le> t" "retained H st row"
  shows "retained H st' row"
  unfolding retained_def
proof (intro ballI impI)
  fix q' assume q': "q' \<in> deletions st'" "od_storage_key q' = ch_storage_key row"
  with assms(1) consider q where "q \<in> deletions st" "od_storage_key q = ch_storage_key row" "od_retain_until q \<le> od_retain_until q'"
    | "t - H + DAY \<le> od_retain_until q'"
    by (auto simp: queueFrame_def)
  then show "ch_uploaded_at row + DAY - H \<le> od_retain_until q'"
  proof cases
    case 1 then show ?thesis using assms(3) by (force simp: retained_def)
  next
    case 2 then show ?thesis using assms(2) by simp
  qed
qed

lemma queued_frame:
  assumes "queueFrame H t K st st'" "k \<notin> K" "queued st k" "\<And>q. q \<in> deletions st \<Longrightarrow> od_storage_key q = k \<Longrightarrow> t < od_retain_until q"
  shows "queued st' k"
  using assms by (force simp: queueFrame_def queued_def)

lemma due_frame:
  assumes "frame H t C K st st'" "start \<le> t" "2 * H < DAY" "0 \<le> H"
    and "bucket st k \<noteq> None \<longrightarrow> (\<forall>q \<in> deletions st. od_storage_key q = k \<longrightarrow> start < od_retain_until q)"
  shows "bucket st' k \<noteq> None \<longrightarrow> (\<forall>q \<in> deletions st'. od_storage_key q = k \<longrightarrow> start < od_retain_until q)"
proof (intro impI ballI)
  fix q' assume b: "bucket st' k \<noteq> None" and q': "q' \<in> deletions st'" "od_storage_key q' = k"
  from assms(1) b have "bucket st k \<noteq> None \<or> (\<forall>q \<in> deletions st'. od_storage_key q = k \<longrightarrow> t < od_retain_until q)"
    unfolding frame_def bucketFrame_def by blast
  moreover from assms(1) q' have "(\<exists>q \<in> deletions st. od_storage_key q = k \<and> od_retain_until q \<le> od_retain_until q') \<or>
      t - H + DAY \<le> od_retain_until q'"
    unfolding frame_def queueFrame_def by blast
  ultimately show "start < od_retain_until q'" using assms(2-5) q' by fastforce
qed

end
