(* ===== verification/StorageSteps.thy ===== *)
theory StorageSteps
  imports ArtifactStorage
begin

text \<open>
  Every access of a handler keeps the file store tidy, changes it only as the other handlers expect, and
  leaves the handler with what its next access relies on.
\<close>

section \<open>Stopped handlers\<close>

lemma needs_frame:
  assumes f: "frame H t C K st st'" and n: "needs cfg H t C st start h" and "start \<le> t" "2 * H < DAY" "0 \<le> H"
    and c: "set (claimedUuid h) \<subseteq> C" and own: "\<And>k. k \<in> K \<Longrightarrow> uuidOf k \<notin> set (claimedUuid h)"
  shows "needs cfg H t C st' start h"
proof -
  have r: "rowsFrame C K st st'" and q: "queueFrame H t K st st'" and b: "bucketFrame t K st st'"
    using f by (simp_all add: frame_def)
  have dead: "deadKey st k \<Longrightarrow> uuidOf k \<in> C \<Longrightarrow> deadKey st' k" for k
    using dead_frame [OF r, of k] by (simp add: deadClaimed_def)
  have stale: "staleNeeds C st row stage \<Longrightarrow> staleNeeds C st' row stage" for row stage
    using dead by (auto simp: staleNeeds_def)
  have purge: "purgeNeeds C st stage \<Longrightarrow> purgeNeeds C st' stage" for stage
    using generation_frame [OF r] dead_frame [OF r] by (cases stage) auto
  have notK: "ch_storage_key row \<notin> K" if "uuidOf (ch_storage_key row) \<in> set (claimedUuid h)" for row
    using own that by blast
  have ownr: "ownRows st row \<Longrightarrow> ownRows st' row" if "uuidOf (ch_storage_key row) \<in> set (claimedUuid h)" for row
    using ownRows_frame [OF r _ notK [OF that]] c that by blast
  show ?thesis
  proof (cases h)
    case (EnqueueChunk row content)
    then show ?thesis
      using n c notK [of row] ownRows_frame [OF r] retained_frame [OF q] by simp
  next
    case (PutChunk row content)
    have "queued st' (ch_storage_key row)" if "t \<le> start + H"
    proof (rule queued_frame [OF q notK])
      show "queued st (ch_storage_key row)" using n that PutChunk by simp
      fix p assume "p \<in> deletions st" "od_storage_key p = ch_storage_key row"
      then have "ch_uploaded_at row + DAY - H \<le> od_retain_until p" using n PutChunk by (simp add: retained_def)
      then show "t < od_retain_until p" using that n PutChunk assms(4) by simp
    qed (simp add: PutChunk)
    then show ?thesis
      using n c notK [of row] PutChunk ownRows_frame [OF r] retained_frame [OF q] by simp
  next
    case (FinalizeChunk row)
    have k: "uuidOf (ch_storage_key row) \<in> C" "ch_storage_key row \<notin> K" using c notK [of row] FinalizeChunk by simp_all
    have "\<exists>content. bucket st' (ch_storage_key row) = Some content \<and> contentOf cfg row content"
      if c': "c' \<in> chunks st'" "ch_storage_key c' = ch_storage_key row" "ch_upload_status c' = ''pending''" for c'
    proof -
      have "c' \<in> chunks st" using pending_frame [OF r k c'] .
      moreover from this have "\<not> deadKey st (ch_storage_key row)" using c' by (auto simp: deadKey_def)
      ultimately show ?thesis using n c' b k(2) FinalizeChunk by (auto simp: bucketFrame_def)
    qed
    then show ?thesis using n k FinalizeChunk ownRows_frame [OF r k] by simp
  next
    case (DueDropped keys)
    then have "\<And>k. k \<in> set keys \<Longrightarrow> deadClaimed C st k \<and>
        (bucket st k \<noteq> None \<longrightarrow> (\<forall>q \<in> deletions st. od_storage_key q = k \<longrightarrow> start < od_retain_until q))"
      using n by simp
    then show ?thesis unfolding DueDropped needs.simps using dead_frame [OF r] due_frame [OF f assms(3-5)] by blast
  qed (use n c notK stale purge dead dead_frame [OF r] ownr in auto)
qed

lemma needs_mono:
  assumes "needs cfg H t C st start h" "C \<subseteq> C'"
  shows "needs cfg H t C' st start h"
proof (cases h)
  case (CleanExpired artifactId tenantId stage)
  then show ?thesis using assms by (cases stage) (auto simp: deadClaimed_def)
next
  case (PurgeFile p stage)
  then show ?thesis using assms by (cases stage) (auto simp: deadClaimed_def)
qed (use assms in \<open>auto simp: deadClaimed_def staleNeeds_def\<close>)

lemma needs_later: "needs cfg H t C st start h \<Longrightarrow> t \<le> t' \<Longrightarrow> needs cfg H t' C st start h"
  by (cases h) auto

lemma tidy_mono: "tidy cfg C st \<Longrightarrow> C \<subseteq> C' \<Longrightarrow> tidy cfg C' st"
  unfolding tidy_def by (intro conjI; blast)

lemma tidyD:
  assumes "tidy cfg C st"
  shows "c \<in> chunks st \<Longrightarrow> ch_upload_status c \<in> {''pending'', ''ready'', ''deleting''}"
    "c \<in> chunks st \<Longrightarrow> uuidOf (ch_storage_key c) \<in> C"
    "c \<in> chunks st \<Longrightarrow> c' \<in> chunks st \<Longrightarrow> ch_storage_key c = ch_storage_key c' \<Longrightarrow> c = c'"
    "q \<in> deletions st \<Longrightarrow> uuidOf (od_storage_key q) \<in> C"
    "c \<in> chunks st \<Longrightarrow> isReady c \<Longrightarrow> \<exists>content. bucket st (ch_storage_key c) = Some content \<and> contentOf cfg c content"
    "bucket st k \<noteq> None \<Longrightarrow> uuidOf k \<in> C"
    "bucket st k \<noteq> None \<Longrightarrow> queued st k \<or> (\<exists>c \<in> chunks st. ch_storage_key c = k \<and> isReady c)"
    "distinct (map ch_storage_key (artifact_chunks st))"
proof -
  show d: "distinct (map ch_storage_key (artifact_chunks st))" using assms by (simp add: tidy_def)
  show "c \<in> chunks st \<Longrightarrow> c' \<in> chunks st \<Longrightarrow> ch_storage_key c = ch_storage_key c' \<Longrightarrow> c = c'"
    using d by (auto simp: distinct_map dest: inj_onD)
qed (use assms in \<open>unfold tidy_def, blast+\<close>)

section \<open>Accesses\<close>

lemma queued_iff: "queued st k \<longleftrightarrow> k \<in> od_storage_key ` deletions st"
  by (auto simp: queued_def)

lemma runStatements_cases:
  assumes "runStatements x ss st = (st', r)"
  obtains (same) "st' = st" "r = None"
    | (ran) ns where "batch ss st = Inr (st', ns)" "r = Some ns" "x = Done"
    | (lost) ns where "batch ss st = Inr (st', ns)" "r = None" "x = LostReply"
  using assms by (auto simp: runStatements_def split: sum.splits prod.splits if_splits)

lemma runDelete_cases:
  assumes "runDelete x keys st = (st', gone)"
  obtains (same) "st' = st" "\<not> gone" | (deleted) ks where "set ks \<subseteq> set keys" "st' = deleteObjects ks st" "gone \<Longrightarrow> ks = keys"
proof (cases x)
  case (Partial n)
  then show ?thesis using assms deleted [of "take n keys"] set_take_subset [of n keys] by (auto simp: runDelete_def)
next
  case LostReply
  then show ?thesis using assms deleted [of keys] by (auto simp: runDelete_def)
qed (use assms same deleted [of keys] in \<open>auto simp: runDelete_def\<close>)

text \<open>\<open>kept\<close>: the access keeps the store tidy within its frame.\<close>

definition kept :: "FileConfig \<Rightarrow> int \<Rightarrow> int \<Rightarrow> string set \<Rightarrow> string set \<Rightarrow> fileStore \<Rightarrow> fileStore \<Rightarrow> bool" where
  "kept cfg H t C K st st' \<longleftrightarrow> tidy cfg C st' \<and> frame H t C K st st'"

lemma kept_refl: "tidy cfg C st \<Longrightarrow> kept cfg H t C K st st"
  by (simp add: kept_def frame_refl)

lemma kept_tables:
  assumes "tidy cfg C st" "artifact_chunks st' = artifact_chunks st"
    "artifact_object_deletions st' = artifact_object_deletions st" "bucket st' = bucket st"
  shows "kept cfg H t C K st st'"
  using assms frame_tables [OF assms(2-4)] by (simp add: kept_def tidy_def queued_def)

lemma kept_deleteChunks:
  assumes "tidy cfg C st" "deleteChunks p st = Inr (st', n)" "\<And>c. c \<in> chunks st \<Longrightarrow> p c \<Longrightarrow> \<not> isReady c"
  shows "kept cfg H t C K st st'"
proof -
  from assms(2) have s: "st' = st\<lparr>artifact_chunks := filter (\<lambda>c. \<not> p c) (artifact_chunks st)\<rparr>" by (simp add: deleteChunks_def)
  have "frame H t C K st st'"
    unfolding s by (auto simp: frame_def rowsFrame_def queueFrame_def bucketFrame_def queued_def)
  moreover have "tidy cfg C st'"
    unfolding tidy_def
  proof (intro conjI allI impI)
    fix k assume b: "bucket st' k \<noteq> None"
    then have b': "bucket st k \<noteq> None" by (simp add: s)
    then show "uuidOf k \<in> C" using tidyD(6) [OF assms(1)] by blast
    show "queued st' k \<or> (\<exists>c \<in> chunks st'. ch_storage_key c = k \<and> isReady c)"
      using tidyD(7) [OF assms(1) b'] assms(3) by (auto simp: s queued_def)
  qed (use assms(1) in \<open>auto simp: s tidy_def distinct_map_filter\<close>)
  ultimately show ?thesis by (simp add: kept_def)
qed

lemma kept_updateDeleting:
  assumes "tidy cfg C st" "updateChunks p f st = Inr (st', n)"
    and f: "\<And>c. \<exists>u. f c = c\<lparr>ch_upload_status := ''deleting'', ch_uploaded_at := u\<rparr>"
    and q: "\<And>c. c \<in> chunks st \<Longrightarrow> p c \<Longrightarrow> isReady c \<Longrightarrow> queued st (ch_storage_key c)"
  shows "kept cfg H t C K st st'"
proof -
  from assms(2) have s: "st' = st\<lparr>artifact_chunks := updateRows p f (artifact_chunks st)\<rparr>" by (simp add: updateChunks_def)
  have rows: "chunks st' = (\<lambda>c. if p c then f c else c) ` chunks st" by (simp add: s updateRows_def)
  have same: "sameChunk c (f c)" "ch_upload_status (f c) = ''deleting''" "ch_storage_key (f c) = ch_storage_key c" for c
    using f [of c] by auto
  have not: "\<not> isReady (f c)" for c using same(2) by (simp add: isReady_def)
  have "frame H t C K st st'"
    using same unfolding frame_def rowsFrame_def rows by (auto simp: s queueFrame_def bucketFrame_def queued_def)
  moreover have "tidy cfg C st'"
    unfolding tidy_def
  proof (intro conjI allI impI)
    show "distinct (map ch_storage_key (artifact_chunks st'))"
      using tidyD(8) [OF assms(1)] same(3) by (simp add: s updateRows_keys)
    show "\<forall>c \<in> chunks st'. isReady c \<longrightarrow> (\<exists>content. bucket st' (ch_storage_key c) = Some content \<and> contentOf cfg c content)"
      unfolding rows using tidyD(5) [OF assms(1)] not by (auto simp: s split: if_splits)
    show "\<forall>c \<in> chunks st'. ch_upload_status c \<in> {''pending'', ''ready'', ''deleting''} \<and> uuidOf (ch_storage_key c) \<in> C"
      unfolding rows using tidyD(1,2) [OF assms(1)] same by (auto split: if_splits)
    show "\<forall>q \<in> deletions st'. uuidOf (od_storage_key q) \<in> C" using tidyD(4) [OF assms(1)] by (simp add: s)
    fix k assume "bucket st' k \<noteq> None"
    then have b: "bucket st k \<noteq> None" by (simp add: s)
    then show "uuidOf k \<in> C" using tidyD(6) [OF assms(1)] by blast
    have "queued st k \<or> (\<exists>c \<in> chunks st'. ch_storage_key c = k \<and> isReady c)"
      using tidyD(7) [OF assms(1) b] q unfolding rows by force
    then show "queued st' k \<or> (\<exists>c \<in> chunks st'. ch_storage_key c = k \<and> isReady c)" by (simp add: s queued_def)
  qed
  ultimately show ?thesis by (simp add: kept_def)
qed

lemma kept_enqueue:
  assumes "tidy cfg C st" "enqueueArtifactObjectDeletion key a b now nxt (now + DAY) st = Inr (st', n)"
    and "uuidOf key \<in> C" "t - H \<le> now"
  shows "kept cfg H t C K st st'" "queued st' key" "artifact_chunks st' = artifact_chunks st" "bucket st' = bucket st"
    "\<And>k. queued st k \<Longrightarrow> queued st' k"
proof -
  let ?row = "\<lparr>od_storage_key = key, od_artifact_id = a, od_tenant_id = b, od_next_attempt_at = nxt, od_retain_until = now + DAY,
      od_attempts = 0, od_created_at = now, od_updated_at = now\<rparr>"
  let ?g = "\<lambda>q. q\<lparr>od_next_attempt_at := min (od_next_attempt_at q) nxt, od_retain_until := min (od_retain_until q) (now + DAY),
      od_updated_at := now\<rparr>"
  have s: "st' = st\<lparr>artifact_object_deletions := artifact_object_deletions st'\<rparr>" and
    d: "(\<exists>q \<in> deletions st. od_storage_key q = key) \<and> deletions st' = (\<lambda>q. if od_storage_key q = key then ?g q else q) ` deletions st \<or>
      deletions st' = insert ?row (deletions st)"
    using assms(2) by (auto simp: enqueueArtifactObjectDeletion_def ENQUEUE_ARTIFACT_OBJECT_DELETION_SQL_def updateDeletions_def
        updateRows_def list_ex_iff split: if_splits)
  have old: "(\<exists>q \<in> deletions st. od_storage_key q = od_storage_key q' \<and> od_retain_until q \<le> od_retain_until q') \<or>
      t - H + DAY \<le> od_retain_until q'" if q': "q' \<in> deletions st'" for q'
  proof -
    have "q' = ?row \<or> (\<exists>p \<in> deletions st. od_storage_key q' = od_storage_key p \<and>
        (od_retain_until q' = od_retain_until p \<or> od_retain_until q' = min (od_retain_until p) (now + DAY)))"
      using d
    proof (elim disjE conjE)
      assume "deletions st' = (\<lambda>q. if od_storage_key q = key then ?g q else q) ` deletions st"
      then obtain p where "p \<in> deletions st" "q' = (if od_storage_key p = key then ?g p else p)" using q' by blast
      then show ?thesis by (intro disjI2 bexI [of _ p]) simp_all
    next
      assume "deletions st' = insert ?row (deletions st)"
      then show ?thesis using q' by blast
    qed
    then show ?thesis
    proof
      assume "q' = ?row"
      then show ?thesis using assms(4) by simp
    next
      assume "\<exists>p \<in> deletions st. od_storage_key q' = od_storage_key p \<and>
        (od_retain_until q' = od_retain_until p \<or> od_retain_until q' = min (od_retain_until p) (now + DAY))"
      then obtain p where p: "p \<in> deletions st" "od_storage_key p = od_storage_key q'"
        "od_retain_until q' = od_retain_until p \<or> od_retain_until q' = min (od_retain_until p) (now + DAY)" by auto
      show ?thesis
      proof (cases "od_retain_until p \<le> od_retain_until q'")
        case False
        then have "od_retain_until q' = now + DAY" using p(3) by (auto simp: min_def split: if_splits)
        then show ?thesis using assms(4) by simp
      qed (use p in blast)
    qed
  qed
  have keys: "od_storage_key ` deletions st' = insert key (od_storage_key ` deletions st)"
    using d
  proof (elim disjE conjE)
    assume e: "\<exists>q \<in> deletions st. od_storage_key q = key" and
      i: "deletions st' = (\<lambda>q. if od_storage_key q = key then ?g q else q) ` deletions st"
    have "od_storage_key ` deletions st' = od_storage_key ` deletions st"
      unfolding i image_image by (rule image_cong) simp_all
    with e show ?thesis by auto
  qed simp
  have qd: "queued st' k \<longleftrightarrow> k = key \<or> queued st k" for k
    unfolding queued_iff keys by simp
  then show q: "queued st' key" "\<And>k. queued st k \<Longrightarrow> queued st' k" by simp_all
  show c: "artifact_chunks st' = artifact_chunks st" and b: "bucket st' = bucket st" by (subst s, simp)+
  have "frame H t C K st st'"
    using old q(2) by (auto simp: frame_def rowsFrame_def queueFrame_def bucketFrame_def c b queued_def)
  moreover have "tidy cfg C st'"
  proof -
    have "\<forall>k \<in> od_storage_key ` deletions st'. uuidOf k \<in> C"
      unfolding keys using tidyD(4) [OF assms(1)] assms(3) by simp
    then have "\<forall>q \<in> deletions st'. uuidOf (od_storage_key q) \<in> C" by simp
    then show ?thesis using assms(1) q(2) by (simp add: tidy_def c b) blast
  qed
  ultimately show "kept cfg H t C K st st'" by (simp add: kept_def)
qed

lemma kept_deleteDeletions:
  assumes "tidy cfg C st" "deleteDeletions p st = Inr (st', n)"
    and "\<And>q. q \<in> deletions st \<Longrightarrow> p q \<Longrightarrow> (od_retain_until q \<le> t \<or> od_storage_key q \<in> K) \<and>
      (bucket st (od_storage_key q) = None \<or> (\<exists>c \<in> chunks st. ch_storage_key c = od_storage_key q \<and> isReady c))"
  shows "kept cfg H t C K st st'"
proof -
  from assms(2) have s: "st' = st\<lparr>artifact_object_deletions := filter (\<lambda>q. \<not> p q) (artifact_object_deletions st)\<rparr>"
    by (simp add: deleteDeletions_def)
  have "frame H t C K st st'"
    using assms(3) unfolding s by (fastforce simp: frame_def rowsFrame_def queueFrame_def bucketFrame_def queued_def)
  moreover have "tidy cfg C st'"
    unfolding tidy_def
  proof (intro conjI allI impI)
    fix k assume "bucket st' k \<noteq> None"
    then have b: "bucket st k \<noteq> None" by (simp add: s)
    then show "uuidOf k \<in> C" using tidyD(6) [OF assms(1)] by blast
    show "queued st' k \<or> (\<exists>c \<in> chunks st'. ch_storage_key c = k \<and> isReady c)"
      using tidyD(7) [OF assms(1) b]
    proof
      assume "queued st k"
      then obtain q where q: "q \<in> deletions st" "od_storage_key q = k" by (auto simp: queued_def)
      show ?thesis
      proof (cases "p q")
        case True
        then show ?thesis using assms(3) [OF q(1)] q(2) b by (auto simp: s)
      qed (use q in \<open>auto simp: s queued_def\<close>)
    qed (simp add: s)
  qed (use assms(1) in \<open>auto simp: s tidy_def\<close>)
  ultimately show ?thesis by (simp add: kept_def)
qed

lemma kept_updateDeletions:
  assumes "tidy cfg C st" "updateDeletions p f st = Inr (st', n)"
    and f: "\<And>q. od_storage_key (f q) = od_storage_key q" "\<And>q. od_retain_until (f q) = od_retain_until q"
  shows "kept cfg H t C K st st'" "\<And>k. queued st' k = queued st k" "artifact_chunks st' = artifact_chunks st" "bucket st' = bucket st"
    "\<And>q'. q' \<in> deletions st' \<Longrightarrow> \<exists>q \<in> deletions st. od_storage_key q = od_storage_key q' \<and> od_retain_until q = od_retain_until q'"
proof -
  from assms(2) have s: "st' = st\<lparr>artifact_object_deletions := updateRows p f (artifact_object_deletions st)\<rparr>"
    by (simp add: updateDeletions_def)
  have d: "deletions st' = (\<lambda>q. if p q then f q else q) ` deletions st" by (simp add: s updateRows_def)
  have k: "od_storage_key ` deletions st' = od_storage_key ` deletions st"
    unfolding d image_image by (rule image_cong) (simp_all add: f)
  show q: "queued st' k = queued st k" for k unfolding queued_iff \<open>od_storage_key ` deletions st' = od_storage_key ` deletions st\<close> ..
  show r: "\<exists>q \<in> deletions st. od_storage_key q = od_storage_key q' \<and> od_retain_until q = od_retain_until q'"
    if "q' \<in> deletions st'" for q'
    using that f unfolding d by (auto split: if_splits)
  show "artifact_chunks st' = artifact_chunks st" "bucket st' = bucket st" by (simp_all add: s)
  have "frame H t C K st st'"
    unfolding frame_def
  proof (intro conjI)
    show "queueFrame H t K st st'" using r q by (fastforce simp: queueFrame_def queued_def)
  qed (simp_all add: s rowsFrame_def bucketFrame_def)
  moreover have "tidy cfg C st'"
  proof -
    have "\<forall>k \<in> od_storage_key ` deletions st'. uuidOf k \<in> C" unfolding k using tidyD(4) [OF assms(1)] by simp
    then have "\<forall>q \<in> deletions st'. uuidOf (od_storage_key q) \<in> C" by simp
    then show ?thesis using assms(1) q by (simp add: tidy_def s)
  qed
  ultimately show "kept cfg H t C K st st'" by (simp add: kept_def)
qed

lemma kept_deleteObjects:
  assumes "tidy cfg C st" "\<And>k. k \<in> set ks \<Longrightarrow> deadKey st k \<or> (k \<in> K \<and> \<not> (\<exists>c \<in> chunks st. ch_storage_key c = k \<and> isReady c))"
  shows "kept cfg H t C K st (deleteObjects ks st)"
proof -
  let ?st = "deleteObjects ks st"
  have b: "bucket ?st k = (if k \<in> set ks then None else bucket st k)" for k by (simp add: deleteObjects_def restrict_map_def)
  have rest: "artifact_chunks ?st = artifact_chunks st" "artifact_object_deletions ?st = artifact_object_deletions st"
    by (simp_all add: deleteObjects_def)
  have ready: "ch_storage_key c \<notin> set ks" if "c \<in> chunks st" "isReady c" for c
    using assms(2) [of "ch_storage_key c"] that by (auto simp: deadKey_def isReady_def)
  have "frame H t C K st ?st"
    using assms(2) by (auto simp: frame_def rowsFrame_def queueFrame_def bucketFrame_def b rest queued_def)
  moreover have "tidy cfg C ?st"
    unfolding tidy_def rest
  proof (intro conjI allI impI)
    show "\<forall>c \<in> chunks st. isReady c \<longrightarrow> (\<exists>content. bucket ?st (ch_storage_key c) = Some content \<and> contentOf cfg c content)"
      using tidyD(5) [OF assms(1)] ready by (simp add: b)
    fix k assume "bucket ?st k \<noteq> None"
    then have "bucket st k \<noteq> None" by (simp add: b split: if_splits)
    then show "uuidOf k \<in> C" "queued ?st k \<or> (\<exists>c \<in> chunks st. ch_storage_key c = k \<and> isReady c)"
      using tidyD(6,7) [OF assms(1), of k] by (simp_all add: queued_def rest)
  qed (use assms(1) in \<open>simp_all add: tidy_def\<close>)
  ultimately show ?thesis by (simp add: kept_def)
qed

lemma kept_putObject:
  assumes "tidy cfg C st" "ownRows st row" "uuidOf (ch_storage_key row) \<in> C" "queued st (ch_storage_key row)"
    and "retained H st row" "t \<le> ch_uploaded_at row + H" "2 * H < DAY"
  shows "kept cfg H t C {ch_storage_key row} st (putObject (ch_storage_key row) content st)"
proof -
  let ?k = "ch_storage_key row" and ?st = "putObject (ch_storage_key row) content st"
  have b: "bucket ?st k = (if k = ?k then Some content else bucket st k)" for k by (simp add: putObject_def)
  have rest: "artifact_chunks ?st = artifact_chunks st" "artifact_object_deletions ?st = artifact_object_deletions st"
    by (simp_all add: putObject_def)
  have "t < od_retain_until q" if "q \<in> deletions st" "od_storage_key q = ?k" for q
    using assms(5-7) that by (fastforce simp: retained_def)
  then have "frame H t C {?k} st ?st"
    by (auto simp: frame_def rowsFrame_def queueFrame_def bucketFrame_def b rest queued_def)
  moreover have "tidy cfg C ?st"
    unfolding tidy_def rest
  proof (intro conjI allI impI)
    have "ch_storage_key c \<noteq> ?k" if "c \<in> chunks st" "isReady c" for c using assms(2) that by (auto simp: ownRows_def)
    then show "\<forall>c \<in> chunks st. isReady c \<longrightarrow> (\<exists>content. bucket ?st (ch_storage_key c) = Some content \<and> contentOf cfg c content)"
      using tidyD(5) [OF assms(1)] by (simp add: b)
    fix k assume "bucket ?st k \<noteq> None"
    then show "uuidOf k \<in> C" "queued ?st k \<or> (\<exists>c \<in> chunks st. ch_storage_key c = k \<and> isReady c)"
      using tidyD(6,7) [OF assms(1), of k] assms(3,4) by (auto simp: queued_def rest b split: if_splits)
  qed (use assms(1) in \<open>simp_all add: tidy_def\<close>)
  ultimately show ?thesis by (simp add: kept_def)
qed

section \<open>Batches\<close>

lemma rowsFrame_trans:
  assumes "rowsFrame C K a b" "rowsFrame C K b c"
  shows "rowsFrame C K a c"
  unfolding rowsFrame_def
proof
  fix z assume "z \<in> chunks c"
  with assms(2) consider "z \<in> chunks b" | y where "y \<in> chunks b" "sameChunk y z" "ch_upload_status z = ''deleting''"
    | "ch_storage_key z \<in> K" "ch_upload_status z = ''deleting''"
    | y where "ch_storage_key z \<in> K" "y \<in> chunks b" "ch_upload_status y = ''pending''" "z = y\<lparr>ch_upload_status := ''ready''\<rparr>"
    | "uuidOf (ch_storage_key z) \<notin> C"
    unfolding rowsFrame_def by blast
  then show "z \<in> chunks a \<or> (\<exists>c\<in>chunks a. sameChunk c z \<and> ch_upload_status z = ''deleting'') \<or>
     (ch_storage_key z \<in> K \<and> (ch_upload_status z = ''deleting'' \<or>
        (\<exists>c\<in>chunks a. ch_upload_status c = ''pending'' \<and> z = c\<lparr>ch_upload_status := ''ready''\<rparr>))) \<or> uuidOf (ch_storage_key z) \<notin> C"
  proof cases
    case 1
    then show ?thesis using assms(1) by (simp add: rowsFrame_def)
  next
    case 2
    from assms(1) 2(1) have "y \<in> chunks a \<or> (\<exists>x\<in>chunks a. sameChunk x y) \<or> ch_storage_key y \<in> K \<or> uuidOf (ch_storage_key y) \<notin> C"
      unfolding rowsFrame_def by blast
    then show ?thesis
    proof (elim disjE bexE)
      assume "y \<in> chunks a" with 2 show ?thesis by blast
    next
      fix x assume "x \<in> chunks a" "sameChunk x y"
      with 2 sameChunk_trans [of x y z] show ?thesis by blast
    qed (use 2 sameChunk_key(1) [OF 2(2)] in simp_all)
  next
    case 4
    from assms(1) 4(2) have "y \<in> chunks a \<or> ch_upload_status y = ''deleting'' \<or> ch_upload_status y = ''ready'' \<or>
        uuidOf (ch_storage_key y) \<notin> C"
      unfolding rowsFrame_def by force
    then show ?thesis using 4 by auto
  qed simp_all
qed

lemma queueFrame_trans:
  assumes f: "queueFrame H t K a b" "queueFrame H t K b c" and "H < DAY"
  shows "queueFrame H t K a c"
proof -
  have before: "(\<exists>x \<in> deletions a. od_storage_key x = od_storage_key y \<and> od_retain_until x \<le> od_retain_until y) \<or>
      t - H + DAY \<le> od_retain_until y" if "y \<in> deletions b" for y
    using f(1) that by (auto simp: queueFrame_def)
  have "(\<exists>x \<in> deletions a. od_storage_key x = od_storage_key z \<and> od_retain_until x \<le> od_retain_until z) \<or>
      t - H + DAY \<le> od_retain_until z" if z: "z \<in> deletions c" for z
  proof -
    from f(2) z consider y where "y \<in> deletions b" "od_storage_key y = od_storage_key z" "od_retain_until y \<le> od_retain_until z"
      | "t - H + DAY \<le> od_retain_until z" by (auto simp: queueFrame_def)
    then show ?thesis
    proof cases
      case 1
      with before [of y] show ?thesis by force
    qed simp
  qed
  moreover have "queued c (od_storage_key x) \<or> (\<exists>p \<in> deletions a. od_storage_key p = od_storage_key x \<and> od_retain_until p \<le> t)"
    if x: "x \<in> deletions a" "od_storage_key x \<notin> K" for x
  proof -
    from f(1) x consider y where "y \<in> deletions b" "od_storage_key y = od_storage_key x"
      | "\<exists>p \<in> deletions a. od_storage_key p = od_storage_key x \<and> od_retain_until p \<le> t"
      unfolding queueFrame_def queued_def by blast
    then show ?thesis
    proof cases
      case 1
      with f(2) x(2) consider "queued c (od_storage_key x)"
        | p where "p \<in> deletions b" "od_storage_key p = od_storage_key x" "od_retain_until p \<le> t"
        unfolding queueFrame_def by metis
      then show ?thesis
      proof cases
        case 2
        with before [of p] \<open>H < DAY\<close> show ?thesis by force
      qed simp
    qed simp
  qed
  ultimately show ?thesis unfolding queueFrame_def by blast
qed

lemma kept_trans:
  assumes "kept cfg H t C K a b" "kept cfg H t C K b c" "bucket b = bucket a" "bucket c = bucket b" "H < DAY"
  shows "kept cfg H t C K a c"
  using assms rowsFrame_trans [of C K a b c] queueFrame_trans [of H t K a b c] bucketFrame_same [of c a t K]
  by (simp add: kept_def frame_def)

text \<open>A batch keeps what each of its statements keeps under a condition they hand on.\<close>

lemma batch_kept:
  assumes "H < DAY" "batch ss st = Inr (st', ns)" "tidy cfg C st" "P st"
    and "\<And>s d d' n. s \<in> set ss \<Longrightarrow> tidy cfg C d \<Longrightarrow> P d \<Longrightarrow> s d = Inr (d', n) \<Longrightarrow>
      kept cfg H t C K d d' \<and> bucket d' = bucket d \<and> P d'"
  shows "kept cfg H t C K st st' \<and> bucket st' = bucket st \<and> P st'"
  using assms(2-)
proof (induction ss arbitrary: st ns)
  case Nil
  then show ?case by (simp add: kept_refl)
next
  case (Cons s ss)
  from Cons.prems(1) obtain m n ns' where m: "s st = Inr (m, n)" "batch ss m = Inr (st', ns')" by auto
  have one: "kept cfg H t C K st m \<and> bucket m = bucket st \<and> P m" using Cons.prems(4) [of s st m n] Cons.prems(2,3) m(1) by simp
  then have "kept cfg H t C K m st' \<and> bucket st' = bucket m \<and> P st'"
    using m(2) Cons.prems(4) by (intro Cons.IH) (auto simp: kept_def)
  with one show ?case using kept_trans [of cfg H t C K st m st'] assms(1) by simp
qed

lemma kept_onDatabase:
  assumes "tidy cfg C st" "onDatabase s st = Inr (st', n)"
  shows "kept cfg H t C K st st'" "artifact_chunks st' = artifact_chunks st"
    "artifact_object_deletions st' = artifact_object_deletions st" "bucket st' = bucket st"
proof -
  from assms(2) have s: "st' = st\<lparr>fs_database := fs_database st'\<rparr>" by (auto simp: onDatabase_def)
  show t: "artifact_chunks st' = artifact_chunks st" "artifact_object_deletions st' = artifact_object_deletions st"
    "bucket st' = bucket st" by (subst s, simp)+
  show "kept cfg H t C K st st'" by (rule kept_tables [OF assms(1) t])
qed

section \<open>The upload's own statements\<close>

lemma appended_row:
  assumes "tidy cfg C st" "st' = st\<lparr>artifact_chunks := artifact_chunks st @ [row]\<rparr>" "\<not> isReady row"
    and "ch_upload_status row \<in> {''pending'', ''deleting''}" "uuidOf (ch_storage_key row) \<in> C'" "C \<subseteq> C'"
    and "\<And>c. c \<in> chunks st \<Longrightarrow> ch_storage_key c \<noteq> ch_storage_key row"
  shows "tidy cfg C' st'"
  unfolding tidy_def
proof (intro conjI allI impI)
  fix k assume "bucket st' k \<noteq> None"
  then have b: "bucket st k \<noteq> None" by (simp add: assms(2))
  then show "uuidOf k \<in> C'" using tidyD(6) [OF assms(1)] assms(6) by blast
  show "queued st' k \<or> (\<exists>c \<in> chunks st'. ch_storage_key c = k \<and> isReady c)"
    using tidyD(7) [OF assms(1) b] by (auto simp: assms(2) queued_def)
next
  have "ch_storage_key row \<notin> ch_storage_key ` chunks st" using assms(7) by force
  then show "distinct (map ch_storage_key (artifact_chunks st'))" using tidyD(8) [OF assms(1)] by (simp add: assms(2))
next
  show "\<forall>c \<in> chunks st'. isReady c \<longrightarrow> (\<exists>content. bucket st' (ch_storage_key c) = Some content \<and> contentOf cfg c content)"
    using tidyD(5) [OF assms(1)] assms(3) by (simp add: assms(2))
  show "\<forall>q \<in> deletions st'. uuidOf (od_storage_key q) \<in> C'" using tidyD(4) [OF assms(1)] assms(6) by (auto simp: assms(2))
  show "\<forall>c \<in> chunks st'. ch_upload_status c \<in> {''pending'', ''ready'', ''deleting''} \<and> uuidOf (ch_storage_key c) \<in> C'"
    using tidyD(1,2) [OF assms(1)] assms(4,5,6) by (auto simp: assms(2))
qed

lemma kept_claim:
  assumes "tidy cfg C st" "claimChunk row now st = Inr (st', n)" "ch_upload_status row = ''pending''"
    and "uuidOf (ch_storage_key row) \<notin> C"
  shows "tidy cfg (insert (uuidOf (ch_storage_key row)) C) st'" "frame H t C K st st'"
    "n = 1 \<Longrightarrow> ownRows st' row" "retained H st' row" "n \<noteq> 1 \<Longrightarrow> st' = st" "bucket st' = bucket st"
proof -
  let ?k = "ch_storage_key row"
  have other: "ch_storage_key c \<noteq> ?k" if "c \<in> chunks st" for c using tidyD(2) [OF assms(1) that] assms(4) by auto
  consider (none) "st' = st" "n = 0" | (claimed) "st' = st\<lparr>artifact_chunks := artifact_chunks st @ [row]\<rparr>" "n = 1"
    using assms(2) by (auto simp: claimChunk_def insertChunkOrIgnore_def split: if_splits)
  note cases = this
  show "tidy cfg (insert (uuidOf ?k) C) st'"
    using cases
  proof cases
    case none
    then show ?thesis using tidy_mono [OF assms(1), of "insert (uuidOf ?k) C"] by auto
  next
    case claimed
    then show ?thesis using assms(3) other by (intro appended_row [OF assms(1) claimed(1)]) (auto simp: isReady_def)
  qed
  show "frame H t C K st st'"
    using cases
  proof cases
    case claimed
    then show ?thesis using assms(4) by (auto simp: frame_def rowsFrame_def queueFrame_def bucketFrame_def queued_def)
  qed (simp add: frame_refl)
  show "ownRows st' row" if "n = 1"
    using cases that
  proof cases
    case claimed
    then show ?thesis using other assms(3) by (auto simp: ownRows_def isReady_def)
  qed simp
  have "deletions st' = deletions st" using cases by cases simp_all
  then show "retained H st' row" using tidyD(4) [OF assms(1)] assms(4) unfolding retained_def by metis
  show "n \<noteq> 1 \<Longrightarrow> st' = st" "bucket st' = bucket st" using cases by (cases; simp)+
qed

lemma kept_markOwn:
  assumes "tidy cfg C st" "ownRows st row" "uuidOf (ch_storage_key row) \<in> C"
    and "insertChunkOrIgnore (row\<lparr>ch_upload_status := ''deleting'', ch_uploaded_at := u\<rparr>) st = Inr (st', n)"
  shows "kept cfg H t C {ch_storage_key row} st st'" "bucket st' = bucket st"
proof -
  let ?row = "row\<lparr>ch_upload_status := ''deleting'', ch_uploaded_at := u\<rparr>"
  consider (none) "st' = st" | (added) "st' = st\<lparr>artifact_chunks := artifact_chunks st @ [?row]\<rparr>"
      "\<And>c. c \<in> chunks st \<Longrightarrow> \<not> (ch_artifact_id c = ch_artifact_id row \<and> ch_part_number c = ch_part_number row)"
    using assms(4) unfolding insertChunkOrIgnore_def list_ex_iff by (auto split: if_splits)
  note cases = this
  show "bucket st' = bucket st" using cases by cases simp_all
  show "kept cfg H t C {ch_storage_key row} st st'"
    using cases
  proof cases
    case added
    have "ch_storage_key c \<noteq> ch_storage_key row" if "c \<in> chunks st" for c
      using assms(2) that added(2) [OF that] sameChunk_key [of row c] by (auto simp: ownRows_def)
    then have "tidy cfg C st'"
      using assms(3) by (intro appended_row [OF assms(1) added(1)]) (auto simp: isReady_def)
    moreover have "frame H t C {ch_storage_key row} st st'"
      unfolding added(1) by (auto simp: frame_def rowsFrame_def queueFrame_def bucketFrame_def queued_def)
    ultimately show ?thesis by (simp add: kept_def)
  qed (simp add: kept_refl assms(1))
qed

end
