(* ===== verification/StorageSafety.thy ===== *)
theory StorageSafety
  imports StorageSteps
begin

text \<open>
  The batches and programs of \<open>ArtifactFiles\<close> keep the file store tidy, so every reachable state of the
  system is tidy: the objects of ready chunks are there, and nothing else stays in the store unnoticed.
\<close>

section \<open>Batches on chunks\<close>

lemma count_key:
  assumes "distinct (map key xs)" "\<And>c. p c \<Longrightarrow> key c = k"
  shows "countRows p xs \<le> 1"
proof -
  have "distinct (map key (filter p xs))" using assms(1) by (rule distinct_map_filter)
  moreover have "set (map key (filter p xs)) \<subseteq> {k}" using assms(2) by auto
  ultimately have "length (map key (filter p xs)) \<le> card {k}" by (metis card_mono distinct_card finite.emptyI finite_insert)
  then show ?thesis by (simp add: countRows_def)
qed

lemma countRows_none: "countRows p xs = 0 \<longleftrightarrow> (\<forall>c \<in> set xs. \<not> p c)"
  by (simp add: countRows_def filter_empty_conv)

lemma markReady_kept:
  assumes "tidy cfg C st" "updateChunks p (\<lambda>c. c\<lparr>ch_upload_status := ''ready''\<rparr>) st = Inr (st', n)" "H < DAY"
    and p: "\<And>c. p c \<Longrightarrow> chunkAt row c \<and> ch_upload_status c = ''pending''" and n: "needs cfg H t C st start (FinalizeChunk row)"
  shows "kept cfg H t C {ch_storage_key row} st st'" "n \<noteq> 1 \<Longrightarrow> chunks st' = chunks st" "bucket st' = bucket st"
proof -
  let ?k = "ch_storage_key row" and ?f = "\<lambda>c :: ArtifactChunkRow. c\<lparr>ch_upload_status := ''ready''\<rparr>"
  from assms(2) have s: "st' = st\<lparr>artifact_chunks := updateRows p ?f (artifact_chunks st)\<rparr>"
    and c: "n = countRows p (artifact_chunks st)" by (simp_all add: updateChunks_def)
  have rows: "chunks st' = (\<lambda>c. if p c then ?f c else c) ` chunks st" by (simp add: s updateRows_def)
  show "bucket st' = bucket st" by (simp add: s)
  have key: "p c \<Longrightarrow> ch_storage_key c = ?k" for c using p [of c] by (simp add: chunkAt_def)
  show "n \<noteq> 1 \<Longrightarrow> chunks st' = chunks st"
  proof -
    assume "n \<noteq> 1"
    moreover have "n \<le> 1" unfolding c using count_key [OF tidyD(8) [OF assms(1)]] key by blast
    ultimately have "n = 0" by simp
    then have "\<forall>c \<in> chunks st. \<not> p c" by (simp add: c countRows_none)
    then show ?thesis unfolding rows by (simp cong: image_cong)
  qed
  have own: "\<And>c. c \<in> chunks st \<Longrightarrow> ch_storage_key c = ?k \<Longrightarrow> sameChunk row c" using n by (auto simp: ownRows_def)
  have "frame H t C {?k} st st'"
    using p key unfolding frame_def rowsFrame_def rows by (auto simp: s queueFrame_def bucketFrame_def queued_def)
  moreover have "tidy cfg C st'"
    unfolding tidy_def
  proof (intro conjI allI impI)
    show "distinct (map ch_storage_key (artifact_chunks st'))" using tidyD(8) [OF assms(1)] by (simp add: s updateRows_keys)
    show "\<forall>c \<in> chunks st'. ch_upload_status c \<in> {''pending'', ''ready'', ''deleting''} \<and> uuidOf (ch_storage_key c) \<in> C"
      unfolding rows using tidyD(1,2) [OF assms(1)] by (auto split: if_splits)
    show "\<forall>c \<in> chunks st'. isReady c \<longrightarrow> (\<exists>content. bucket st' (ch_storage_key c) = Some content \<and> contentOf cfg c content)"
    proof (intro ballI impI)
      fix c' assume "c' \<in> chunks st'" "isReady c'"
      then obtain c where c: "c \<in> chunks st" "c' = (if p c then ?f c else c)" unfolding rows by blast
      show "\<exists>content. bucket st' (ch_storage_key c') = Some content \<and> contentOf cfg c' content"
      proof (cases "p c")
        case True
        then obtain content where "bucket st ?k = Some content" "contentOf cfg row content"
          using n c(1) p [OF True] key [OF True] by auto
        moreover have "contentOf cfg c' = contentOf cfg row"
          using own [OF c(1) key [OF True]] c(2) True sameChunk_trans [of row c c'] contentOf_same [of row c'] by simp
        ultimately show ?thesis using c(2) True key [OF True] by (simp add: s)
      next
        case False
        then show ?thesis using tidyD(5) [OF assms(1) c(1)] c(2) \<open>isReady c'\<close> by (simp add: s)
      qed
    qed
    show "\<forall>q \<in> deletions st'. uuidOf (od_storage_key q) \<in> C" using tidyD(4) [OF assms(1)] by (simp add: s)
    fix k assume "bucket st' k \<noteq> None"
    then have b: "bucket st k \<noteq> None" by (simp add: s)
    then show "uuidOf k \<in> C" using tidyD(6) [OF assms(1)] by blast
    show "queued st' k \<or> (\<exists>c \<in> chunks st'. ch_storage_key c = k \<and> isReady c)"
      using tidyD(7) [OF assms(1) b]
    proof
      assume "\<exists>c \<in> chunks st. ch_storage_key c = k \<and> isReady c"
      then obtain c where c: "c \<in> chunks st" "ch_storage_key c = k" "isReady c" by blast
      then have "\<not> p c" using p [of c] by (auto simp: isReady_def)
      then have "c \<in> chunks st'" unfolding rows using c(1) by (force intro: rev_image_eqI)
      then show ?thesis using c by blast
    qed (simp add: s queued_def)
  qed
  ultimately show "kept cfg H t C {?k} st st'" by (simp add: kept_def)
qed

lemma finalize_kept:
  assumes "tidy cfg C st" "batch (finalizeChunk isoText row) st = Inr (st', ns)" "H < DAY"
    and n: "needs cfg H t C st start (FinalizeChunk row)"
  shows "kept cfg H t C {ch_storage_key row} st st'" "hd ns \<noteq> 1 \<Longrightarrow> ownRows st' row"
proof -
  let ?k = "ch_storage_key row"
  let ?p = "\<lambda>st c. chunkAt row c \<and> ch_upload_status c = ''pending'' \<and>
      openForUpload (fs_database st) (ch_artifact_id row) (ch_tenant_id row) (isoText (ch_uploaded_at row))"
  from assms(2) obtain s1 n1 s2 n2 n3 where
    s1: "updateChunks (?p st) (\<lambda>c. c\<lparr>ch_upload_status := ''ready''\<rparr>) st = Inr (s1, n1)"
    and s2: "onDatabase (updateArtifacts (\<lambda>a. ownedBy (ch_artifact_id row) (ch_tenant_id row) a \<and>
           a_status a = ''uploading'' \<and> a_content_purged_at a = None)
         (\<lambda>a. a\<lparr>a_uploaded_chunks := int (readyCount s1 (ch_artifact_id row) (ch_tenant_id row)),
            a_updated_at := isoText (ch_uploaded_at row)\<rparr>)) s1 = Inr (s2, n2)"
    and s3: "(if list_ex (\<lambda>c. chunkAt row c \<and> ch_upload_status c = ''ready'') (artifact_chunks s2)
         then deleteDeletions (\<lambda>q. od_storage_key q = ?k) s2 else Inr (s2, 0)) = Inr (st', n3)"
    and ns: "hd ns = n1"
    unfolding finalizeChunk_def by auto
  have k1: "kept cfg H t C {?k} st s1" "n1 \<noteq> 1 \<Longrightarrow> chunks s1 = chunks st" "bucket s1 = bucket st"
    by (rule markReady_kept [OF assms(1) s1 assms(3) _ n]; simp)+
  have t1: "tidy cfg C s1" using k1(1) by (simp add: kept_def)
  have k2: "kept cfg H t C {?k} s1 s2" "artifact_chunks s2 = artifact_chunks s1"
    "artifact_object_deletions s2 = artifact_object_deletions s1" "bucket s2 = bucket s1"
    by (rule kept_onDatabase [OF t1 s2])+
  have t2: "tidy cfg C s2" using k2(1) by (simp add: kept_def)
  have k3: "kept cfg H t C {?k} s2 st'" "artifact_chunks st' = artifact_chunks s2" "bucket st' = bucket s2"
  proof -
    show "artifact_chunks st' = artifact_chunks s2" "bucket st' = bucket s2"
      using s3 by (auto simp: deleteDeletions_def split: if_splits)
    show "kept cfg H t C {?k} s2 st'"
    proof (cases "list_ex (\<lambda>c. chunkAt row c \<and> ch_upload_status c = ''ready'') (artifact_chunks s2)")
      case True
      then have "\<exists>c \<in> chunks s2. ch_storage_key c = ?k \<and> isReady c" by (auto simp: list_ex_iff chunkAt_def isReady_def)
      then show ?thesis using s3 True by (intro kept_deleteDeletions [OF t2, of "\<lambda>q. od_storage_key q = ?k" st' n3]) auto
    qed (use s3 t2 kept_refl in simp)
  qed
  show "kept cfg H t C {?k} st st'"
    using kept_trans [OF kept_trans [OF k1(1) k2(1) k1(3) k2(4) assms(3)] k3(1) _ k3(3) assms(3)] k1(3) k2(4) by simp
  show "hd ns \<noteq> 1 \<Longrightarrow> ownRows st' row"
    using k1(2) ns k2(2) k3(2) n by (simp add: ownRows_def)
qed

lemma markStale_kept:
  assumes "tidy cfg C st" "markDeleting [''pending''] u row st = Inr (st', n)" "uuidOf (ch_storage_key row) \<in> C"
  shows "kept cfg H t C K st st'" "n = 1 \<Longrightarrow> deadKey st' (ch_storage_key row)"
proof -
  let ?p = "\<lambda>c. chunkAt row c \<and> ch_upload_status c \<in> set [''pending'']"
    and ?f = "\<lambda>c :: ArtifactChunkRow. c\<lparr>ch_upload_status := ''deleting'', ch_uploaded_at := u\<rparr>"
  have u: "updateChunks ?p ?f st = Inr (st', n)" using assms(2) by (simp add: markDeleting_def)
  then show "kept cfg H t C K st st'"
    by (rule kept_updateDeleting [OF assms(1)]) (auto simp: isReady_def)
  have rows: "chunks st' = (\<lambda>c. if ?p c then ?f c else c) ` chunks st" and n: "n = countRows ?p (artifact_chunks st)"
    using u by (auto simp: updateChunks_def updateRows_def)
  assume "n = 1"
  then have "\<not> (\<forall>c \<in> set (artifact_chunks st). \<not> ?p c)" using n countRows_none [of ?p "artifact_chunks st"] by simp
  then obtain c where c: "c \<in> chunks st" "?p c" by blast
  have "d = c" if "d \<in> chunks st" "ch_storage_key d = ch_storage_key row" for d
    using tidyD(3) [OF assms(1) that(1) c(1)] c(2) that(2) by (simp add: chunkAt_def)
  then show "deadKey st' (ch_storage_key row)" using c unfolding deadKey_def rows by auto
qed

section \<open>Batches of a purge and of the queue\<close>

lemma tombstone_kept:
  assumes "batch (tombstoneBatch now a b cs) st = Inr (st', ns)" "tidy cfg C st" "purgeNeeds C st (TombstoneGenerations cs)"
    and "t - H \<le> now" "H < DAY"
  shows "kept cfg H t C K st st' \<and> bucket st' = bucket st \<and> (\<forall>g \<in> set cs. deadClaimed C st' (ch_storage_key g))"
  using assms(1-3)
proof (induction cs arbitrary: st ns)
  case Nil
  then show ?case by (simp add: tombstoneBatch_def kept_refl)
next
  case (Cons g cs)
  let ?p = "\<lambda>c. generationOf g c \<and> ch_upload_status c \<in> {''pending'', ''ready'', ''deleting''}"
    and ?f = "\<lambda>c :: ArtifactChunkRow. c\<lparr>ch_upload_status := ''deleting''\<rparr>"
  have unfold: "tombstoneBatch now a b (g # cs) =
      enqueueArtifactObjectDeletion (ch_storage_key g) a b now now (now + DAY) #
      TOMBSTONE_ARTIFACT_CHUNK_GENERATION_SQL g # tombstoneBatch now a b cs"
    by (simp add: tombstoneBatch_def DAY_def)
  from Cons.prems(1) obtain s1 n1 s2 n2 ns' where
    s1: "enqueueArtifactObjectDeletion (ch_storage_key g) a b now now (now + DAY) st = Inr (s1, n1)"
    and s2: "updateChunks ?p ?f s1 = Inr (s2, n2)"
    and s3: "batch (tombstoneBatch now a b cs) s2 = Inr (st', ns')"
    unfolding unfold TOMBSTONE_ARTIFACT_CHUNK_GENERATION_SQL_def by auto
  have g: "uuidOf (ch_storage_key g) \<in> C" using Cons.prems(3) by simp
  note e = kept_enqueue [OF Cons.prems(2) s1 g assms(4)]
  have e1: "kept cfg H t C K st s1" by (rule e(1))
  have t1: "tidy cfg C s1" using e1 by (simp add: kept_def)
  have rows: "chunks s2 = (\<lambda>c. if ?p c then ?f c else c) ` chunks s1" and b2: "bucket s2 = bucket s1"
    using s2 by (auto simp: updateChunks_def updateRows_def)
  have k2: "kept cfg H t C K s1 s2"
  proof (rule kept_updateDeleting [OF t1 s2])
    fix c :: ArtifactChunkRow
    show "\<exists>u. ?f c = c\<lparr>ch_upload_status := ''deleting'', ch_uploaded_at := u\<rparr>" by (rule exI [of _ "ch_uploaded_at c"]) simp
  next
    fix c assume "?p c"
    then have "ch_storage_key c = ch_storage_key g" by (simp add: generationOf_def chunkAt_def)
    then show "queued s1 (ch_storage_key c)" using e(2) by simp
  qed
  have k12: "kept cfg H t C K st s2" using kept_trans [OF e1 k2 e(4) b2 assms(5)] .
  have t2: "tidy cfg C s2" using k2 by (simp add: kept_def)
  have "deadKey s2 (ch_storage_key g)"
    unfolding deadKey_def
  proof (intro ballI impI)
    fix c' assume "c' \<in> chunks s2" "ch_storage_key c' = ch_storage_key g"
    then obtain c where c: "c \<in> chunks s1" "c' = (if ?p c then ?f c else c)" unfolding rows by blast
    have "ch_storage_key c = ch_storage_key g" using c(2) \<open>ch_storage_key c' = ch_storage_key g\<close> by (simp split: if_splits)
    then have "ch_upload_status c \<noteq> ''deleting'' \<Longrightarrow> generationOf g c" using Cons.prems(3) c(1) e(3) by simp
    then show "ch_upload_status c' = ''deleting''" using c(2) tidyD(1) [OF t1 c(1)] by auto
  qed
  then have dead: "deadClaimed C s2 (ch_storage_key g)" using g by (simp add: deadClaimed_def)
  have "rowsFrame C K st s2" using k12 by (simp add: kept_def frame_def)
  then have "purgeNeeds C s2 (TombstoneGenerations cs)"
    using Cons.prems(3) generation_frame [of C K st s2] by auto
  from Cons.IH [OF s3 t2 this] have IH: "kept cfg H t C K s2 st'" "bucket st' = bucket s2"
    "\<forall>g \<in> set cs. deadClaimed C st' (ch_storage_key g)" by simp_all
  have "deadClaimed C st' (ch_storage_key g)" using dead_frame [OF _ dead, of K st'] IH(1) by (simp add: kept_def frame_def)
  then show ?case using IH kept_trans [OF k12 IH(1) _ IH(2) assms(5)] e(4) b2 by simp
qed

lemma finishPurge_kept:
  assumes "batch (finishPurgeBatch now a b cs) st = Inr (st', ns)" "tidy cfg C st" "H < DAY"
    and "\<forall>g \<in> set cs. deadClaimed C st (ch_storage_key g)"
  shows "kept cfg H t C K st st'"
proof -
  have "kept cfg H t C K st st' \<and> bucket st' = bucket st \<and> (\<forall>g \<in> set cs. deadClaimed C st' (ch_storage_key g))"
  proof (rule batch_kept [where P = "\<lambda>d. \<forall>g \<in> set cs. deadClaimed C d (ch_storage_key g)", OF assms(3,1,2,4)])
    fix s d d' n
    assume s: "s \<in> set (finishPurgeBatch now a b cs)" and d: "tidy cfg C d"
      "\<forall>g \<in> set cs. deadClaimed C d (ch_storage_key g)" "s d = Inr (d', n)"
    have one: "kept cfg H t C K d d' \<and> bucket d' = bucket d"
    proof (cases "s = FINALIZE_ARTIFACT_PURGE_SQL now a b")
      case True
      then show ?thesis using d(3) kept_onDatabase [OF d(1)] by (auto simp: FINALIZE_ARTIFACT_PURGE_SQL_def)
    next
      case False
      then obtain g where g: "g \<in> set cs" "s = deleteChunks (generationOf g)"
        using s by (auto simp: finishPurgeBatch_def DELETE_ARTIFACT_CHUNK_GENERATION_SQL_def)
      have "kept cfg H t C K d d'"
        using d(2) g by (intro kept_deleteChunks [OF d(1) d(3) [unfolded g(2)]])
          (auto simp: deadClaimed_def deadKey_def generationOf_def chunkAt_def isReady_def)
      then show ?thesis using d(3) g(2) by (auto simp: deleteChunks_def)
    qed
    then have "rowsFrame C K d d'" by (simp add: kept_def frame_def)
    with one d(2) show "kept cfg H t C K d d' \<and> bucket d' = bucket d \<and> (\<forall>g \<in> set cs. deadClaimed C d' (ch_storage_key g))"
      using dead_frame by blast
  qed
  then show ?thesis by simp
qed

lemma deletionRetry_kept:
  assumes "batch (deletionRetryBatch now keys) st = Inr (st', ns)" "tidy cfg C st" "H < DAY"
  shows "kept cfg H t C K st st'"
proof -
  have "kept cfg H t C K st st' \<and> bucket st' = bucket st \<and> True"
  proof (rule batch_kept [where P = "\<lambda>d. True", OF assms(3,1,2) TrueI])
    fix s d d' n assume "s \<in> set (deletionRetryBatch now keys)" and d: "tidy cfg C d" "s d = Inr (d', n)"
    then obtain k where "updateDeletions (\<lambda>q. od_storage_key q = k) (retryDeletion now (now + 10 * 60000)) d = Inr (d', n)"
      by (auto simp: deletionRetryBatch_def)
    from kept_updateDeletions [OF d(1) this] show "kept cfg H t C K d d' \<and> bucket d' = bucket d \<and> True"
      by (simp add: retryDeletion_def)
  qed
  then show ?thesis by simp
qed

lemma deletionDone_kept:
  assumes "batch (deletionDoneBatch now keys) st = Inr (st', ns)" "tidy cfg C st" "H < DAY" "now \<le> t"
    and "\<forall>k \<in> set keys. bucket st k \<noteq> None \<longrightarrow> (\<forall>q \<in> deletions st. od_storage_key q = k \<longrightarrow> now < od_retain_until q)"
  shows "kept cfg H t C K st st'"
proof -
  let ?P = "\<lambda>d. \<forall>k \<in> set keys. bucket d k \<noteq> None \<longrightarrow> (\<forall>q \<in> deletions d. od_storage_key q = k \<longrightarrow> now < od_retain_until q)"
  have "kept cfg H t C K st st' \<and> bucket st' = bucket st \<and> ?P st'"
  proof (rule batch_kept [where P = ?P, OF assms(3,1,2,5)])
    fix s d d' n assume s: "s \<in> set (deletionDoneBatch now keys)" and d: "tidy cfg C d" "?P d" "s d = Inr (d', n)"
    from s obtain k where k: "k \<in> set keys" and "s = deleteDeletions (\<lambda>q. od_storage_key q = k \<and> od_retain_until q \<le> now) \<or>
        s = updateDeletions (\<lambda>q. od_storage_key q = k \<and> now < od_retain_until q) (retryDeletion now (now + 10 * 60000))"
      by (auto simp: deletionDoneBatch_def)
    then consider (del) "deleteDeletions (\<lambda>q. od_storage_key q = k \<and> od_retain_until q \<le> now) d = Inr (d', n)"
      | (upd) "updateDeletions (\<lambda>q. od_storage_key q = k \<and> now < od_retain_until q) (retryDeletion now (now + 10 * 60000)) d = Inr (d', n)"
      using d(3) by auto
    then show "kept cfg H t C K d d' \<and> bucket d' = bucket d \<and> ?P d'"
    proof cases
      case del
      have "kept cfg H t C K d d'"
        using d(2) k assms(4) by (intro kept_deleteDeletions [OF d(1) del]) force
      moreover have "bucket d' = bucket d" "deletions d' \<subseteq> deletions d" using del by (auto simp: deleteDeletions_def)
      ultimately show ?thesis using d(2) by (metis subsetD)
    next
      case upd
      note u = kept_updateDeletions [OF d(1) upd]
      have "kept cfg H t C K d d'" "bucket d' = bucket d"
        and "\<And>q'. q' \<in> deletions d' \<Longrightarrow> \<exists>q \<in> deletions d. od_storage_key q = od_storage_key q' \<and> od_retain_until q = od_retain_until q'"
        by (rule u; simp add: retryDeletion_def)+
      then show ?thesis using d(2) by (metis (no_types, lifting))
    qed
  qed
  then show ?thesis by simp
qed

lemma databaseBatch_kept:
  assumes "batch (map onDatabase ss) st = Inr (st', ns)" "tidy cfg C st" "H < DAY"
  shows "kept cfg H t C K st st'"
proof -
  have "kept cfg H t C K st st' \<and> bucket st' = bucket st \<and> True"
  proof (rule batch_kept [where P = "\<lambda>d. True", OF assms(3,1,2) TrueI])
    fix s d d' n assume s: "s \<in> set (map onDatabase ss)" and d: "tidy cfg C d" "s d = Inr (d', n)"
    then obtain s0 where "onDatabase s0 d = Inr (d', n)" by auto
    from kept_onDatabase [OF d(1) this] show "kept cfg H t C K d d' \<and> bucket d' = bucket d \<and> True" by simp
  qed
  then show ?thesis by simp
qed

section \<open>Programs\<close>

lemma frame_K: "frame H t C {} st st' \<Longrightarrow> frame H t C K st st'"
  by (auto simp: frame_def rowsFrame_def queueFrame_def bucketFrame_def)

lemma dead_kept: "kept cfg H t C K st st' \<Longrightarrow> deadClaimed C st k \<Longrightarrow> deadClaimed C st' k"
  using dead_frame by (auto simp: kept_def frame_def)

lemma staleStep_kept:
  assumes "staleStep t x row stage st = (st', r)" "tidy cfg C st" "staleNeeds C st row stage" "H < DAY"
  shows "kept cfg H t C {} st st'" "r = Inl stage' \<Longrightarrow> staleNeeds C st' row stage'"
proof -
  have both: "kept cfg H t C {} st st' \<and> (\<forall>stage'. r = Inl stage' \<longrightarrow> staleNeeds C st' row stage')"
  proof (cases stage)
    case MarkStale
    show ?thesis
    proof (cases "runStatements x [markDeleting [''pending''] t row] st" rule: prod.exhaust)
      case (Pair m res)
      then show ?thesis
      proof (cases rule: runStatements_cases)
        case same
        then show ?thesis using assms Pair MarkStale by (auto simp: staleStep_def kept_refl)
      next
        case (ran ns)
        then obtain n where n: "markDeleting [''pending''] t row st = Inr (m, n)" "ns = [n]" by auto
        have k: "kept cfg H t C {} st m" "n = 1 \<Longrightarrow> deadKey m (ch_storage_key row)"
          using assms(3) by (auto intro!: markStale_kept [OF assms(2) n(1)] simp: staleNeeds_def)
        then show ?thesis using assms(1,3) Pair MarkStale ran n(2) by (auto simp: staleStep_def staleNeeds_def split: if_splits)
      next
        case (lost ns)
        then obtain n where n: "markDeleting [''pending''] t row st = Inr (m, n)" by auto
        have "kept cfg H t C {} st m" using assms(3) by (auto intro!: markStale_kept [OF assms(2) n] simp: staleNeeds_def)
        then show ?thesis using assms(1) Pair MarkStale lost by (auto simp: staleStep_def)
      qed
    qed
  next
    case DropStaleObject
    have dead: "deadClaimed C st (ch_storage_key row)" using assms(3) DropStaleObject by (simp add: staleNeeds_def deadClaimed_def)
    obtain m gone where m: "runDelete x [ch_storage_key row] st = (m, gone)" by fastforce
    then have "kept cfg H t C {} st m"
    proof (cases rule: runDelete_cases)
      case (deleted ks)
      then show ?thesis using dead by (auto intro!: kept_deleteObjects [OF assms(2)] simp: deadClaimed_def)
    qed (simp add: kept_refl assms(2))
    moreover from this have "deadClaimed C m (ch_storage_key row)" using dead by (rule dead_kept)
    ultimately show ?thesis using assms(1) m DropStaleObject by (auto simp: staleStep_def staleNeeds_def deadClaimed_def)
  next
    case RemoveStale
    obtain m res where m: "runStatements x [removeChunk [''deleting''] row] st = (m, res)" by fastforce
    then have "kept cfg H t C {} st m"
    proof (cases rule: runStatements_cases)
      case (ran ns)
      then obtain n where "removeChunk [''deleting''] row st = Inr (m, n)" by auto
      then show ?thesis unfolding removeChunk_def by (rule kept_deleteChunks [OF assms(2)]) (simp add: isReady_def)
    next
      case (lost ns)
      then obtain n where "removeChunk [''deleting''] row st = Inr (m, n)" by auto
      then show ?thesis unfolding removeChunk_def by (rule kept_deleteChunks [OF assms(2)]) (simp add: isReady_def)
    qed (simp add: kept_refl assms(2))
    then show ?thesis using assms(1) m RemoveStale by (auto simp: staleStep_def split: option.splits)
  qed
  then show "kept cfg H t C {} st st'" "r = Inl stage' \<Longrightarrow> staleNeeds C st' row stage'" by simp_all
qed

text \<open>A batch that keeps the store does so whether its reply arrives or not.\<close>

lemma runStatements_kept:
  assumes "runStatements x ss st = (st', r)" "tidy cfg C st"
    and "\<And>ns. batch ss st = Inr (st', ns) \<Longrightarrow> kept cfg H t C K st st'"
  shows "kept cfg H t C K st st'"
  using assms(1) by (cases rule: runStatements_cases) (simp_all add: kept_refl assms(2,3))

lemma runDelete_kept:
  assumes "runDelete x keys st = (st', gone)" "tidy cfg C st"
    and "\<And>k. k \<in> set keys \<Longrightarrow> deadKey st k \<or> (k \<in> K \<and> \<not> (\<exists>c \<in> chunks st. ch_storage_key c = k \<and> isReady c))"
  shows "kept cfg H t C K st st'"
  using assms(1)
proof (cases rule: runDelete_cases)
  case (deleted ks)
  then show ?thesis using assms(3) by (auto intro!: kept_deleteObjects [OF assms(2)])
qed (simp add: kept_refl assms(2))

lemma purgeStep_kept:
  assumes "purgeStep cfg start finishAt x a b stage st = (st', r)" "tidy cfg C st" "purgeNeeds C st stage"
    and "t - H \<le> start" "H < DAY"
  shows "kept cfg H t C {} st st'" "r = Inl stage' \<Longrightarrow> purgeNeeds C st' stage'"
proof -
  have both: "kept cfg H t C {} st st' \<and> (\<forall>stage'. r = Inl stage' \<longrightarrow> purgeNeeds C st' stage')"
  proof (cases stage)
    case ClaimPurge
    obtain m res where m: "runStatements x [onDatabase (CLAIM_ARTIFACT_PURGE_SQL (fc_isoText cfg start) a b)] st = (m, res)" by fastforce
    then have "kept cfg H t C {} st m"
      by (rule runStatements_kept [OF _ assms(2)]) (auto dest: kept_onDatabase(1) [OF assms(2)])
    then show ?thesis using assms(1) m ClaimPurge by (auto simp: purgeStep_def split: option.splits if_splits)
  next
    case SelectGenerations
    have sel: "set (SELECT_ARTIFACT_PURGE_GENERATIONS_SQL a b st) \<subseteq> chunks st"
      using set_take_subset by (fastforce simp: SELECT_ARTIFACT_PURGE_GENERATIONS_SQL_def)
    have "purgeNeeds C st (TombstoneGenerations (SELECT_ARTIFACT_PURGE_GENERATIONS_SQL a b st))"
      unfolding purgeNeeds.simps
    proof (intro ballI conjI impI)
      fix g assume "g \<in> set (SELECT_ARTIFACT_PURGE_GENERATIONS_SQL a b st)"
      then have g: "g \<in> chunks st" using sel by blast
      then show "uuidOf (ch_storage_key g) \<in> C" by (rule tidyD(2) [OF assms(2)])
      fix c assume "c \<in> chunks st" "ch_storage_key c = ch_storage_key g"
      then have "c = g" using tidyD(3) [OF assms(2) _ g] by simp
      then show "generationOf g c" by (simp add: generationOf_def chunkAt_def)
    qed
    then show ?thesis using assms(1) SelectGenerations kept_refl [OF assms(2)]
      by (auto simp: purgeStep_def split: list.splits if_splits)
  next
    case (TombstoneGenerations cs)
    obtain m res where m: "runStatements x (tombstoneBatch start a b cs) st = (m, res)" by fastforce
    from m show ?thesis
    proof (cases rule: runStatements_cases)
      case (ran ns)
      from tombstone_kept [OF ran(1) assms(2) assms(3) [unfolded TombstoneGenerations] assms(4,5), of "{}"]
      show ?thesis using assms(1) m TombstoneGenerations ran by (auto simp: purgeStep_def)
    next
      case (lost ns)
      from tombstone_kept [OF lost(1) assms(2) assms(3) [unfolded TombstoneGenerations] assms(4,5), of "{}"]
      show ?thesis using assms(1) m TombstoneGenerations lost by (auto simp: purgeStep_def)
    next
      case same
      then show ?thesis using assms(1) m TombstoneGenerations kept_refl [OF assms(2)] by (auto simp: purgeStep_def)
    qed
  next
    case (DropGenerations cs)
    obtain m gone where m: "runDelete x (map ch_storage_key cs) st = (m, gone)" by fastforce
    then have k: "kept cfg H t C {} st m"
      by (rule runDelete_kept [OF _ assms(2)]) (use assms(3) DropGenerations in \<open>auto simp: deadClaimed_def\<close>)
    show ?thesis using assms(1,3) m DropGenerations k dead_kept [OF k] by (auto simp: purgeStep_def split: if_splits)
  next
    case (FinishPurge cs)
    obtain m res where m: "runStatements x (finishPurgeBatch (fc_isoText cfg finishAt) a b cs) st = (m, res)" by fastforce
    then have "kept cfg H t C {} st m"
      by (rule runStatements_kept [OF _ assms(2)]) (rule finishPurge_kept [OF _ assms(2,5)], assumption, use assms(3) FinishPurge in simp)
    then show ?thesis using assms(1) m FinishPurge by (auto simp: purgeStep_def split: option.splits)
  qed
  then show "kept cfg H t C {} st st'" "r = Inl stage' \<Longrightarrow> purgeNeeds C st' stage'" by simp_all
qed

section \<open>One access\<close>

text \<open>What an access leaves to the handler: its next stage has what it needs, and keeps its identifier.\<close>

definition continues :: "FileConfig \<Rightarrow> int \<Rightarrow> int \<Rightarrow> string set \<Rightarrow> fileStore \<Rightarrow> int \<Rightarrow> fileHandler \<Rightarrow> fileHandler + fileResult \<Rightarrow> bool" where
  "continues cfg H t C st start h r \<longleftrightarrow> (\<forall>h'. r = Inl h' \<longrightarrow> needs cfg H t C st start h' \<and>
     unclaimedUuid h' = unclaimedUuid h \<and> claimedUuid h' \<in> {claimedUuid h, []})"

lemma continues_Inr [simp]: "continues cfg H t C st start h (Inr r)"
  by (simp add: continues_def)

lemma readBoundedBody_length: "readBoundedBody n acc ps = Inr p \<Longrightarrow> int (length p) = n"
  by (induction n acc ps rule: readBoundedBody.induct) (auto split: if_splits)

lemma claimUpload_continues:
  assumes "length (ur_uuid r) = 36" "start \<le> t" "unclaimedUuid h = [ur_uuid r]" "claimedUuid h = []"
  shows "continues cfg H t C st start h (claimUpload cfg t r a n)"
proof (cases "encryptUpload cfg t r a n")
  case (Inr y)
  then obtain sha plaintext where "uploadHeaders r (expectedPartSize a n) = Inr sha"
    "fc_sha256Bytes cfg plaintext = sha" "int (length plaintext) = expectedPartSize a n"
    and y: "y = (\<lparr>ch_artifact_id = ur_artifact r, ch_tenant_id = ur_tenant r, ch_part_number = n,
            ch_size_bytes = expectedPartSize a n, ch_plaintext_sha256 = sha,
            ch_ciphertext_sha256 = fc_sha256Bytes cfg (fc_encrypt cfg (ur_iv r) (ur_tenant r, ur_artifact r, n, sha) plaintext),
            ch_storage_key = storageKeyOf r n, ch_iv = ur_iv r, ch_upload_status = ''pending'', ch_uploaded_at = t\<rparr>,
         fc_encrypt cfg (ur_iv r) (ur_tenant r, ur_artifact r, n, sha) plaintext)"
    by (auto simp: encryptUpload_def Let_def split: option.splits if_splits dest: readBoundedBody_length)
  then have "contentOf cfg (fst y) (snd y)" by (auto simp: contentOf_def)
  then show ?thesis using assms uuidOf_storageKey [OF assms(1), of n] Inr
    by (simp add: continues_def claimUpload_def y)
qed (simp add: claimUpload_def)

lemma readChunkStep_continues:
  assumes "tidy cfg C st" "length (ur_uuid r) = 36" "start \<le> t"
  shows "continues cfg H t C st start (ReadChunk r a n) (readChunkStep cfg t r a n st)"
proof (cases "chunkOfPart st (ur_artifact r) (ur_tenant r) n")
  case None
  then show ?thesis using claimUpload_continues [OF assms(2,3)] by (simp add: readChunkStep_def)
next
  case (Some c)
  then have c: "c \<in> chunks st" by (auto simp: chunkOfPart_def dest: find_Some_mem)
  have "deadKey st (ch_storage_key c)" if "ch_upload_status c = ''deleting''"
    using tidyD(3) [OF assms(1) _ c] that by (auto simp: deadKey_def)
  then show ?thesis
    using Some tidyD(1,2) [OF assms(1) c] assms(2)
    by (auto simp: readChunkStep_def startStale_def staleNeeds_def continues_def split: if_splits)
qed

lemma nextStale_continues:
  assumes "\<forall>c \<in> set cs. uuidOf (ch_storage_key c) \<in> C \<and> (ch_upload_status c \<noteq> ''pending'' \<longrightarrow> deadKey st (ch_storage_key c))"
  shows "needs cfg H t C st start (nextStale cs)" "unclaimedUuid (nextStale cs) = []" "claimedUuid (nextStale cs) = []"
  using assms by (induction cs) (auto simp: startStale_def staleNeeds_def split: option.splits)

lemma selectStale_dead:
  assumes "tidy cfg C st" "c \<in> set (SELECT_STALE_CHUNKS cutoff st)"
  shows "uuidOf (ch_storage_key c) \<in> C \<and> (ch_upload_status c \<noteq> ''pending'' \<longrightarrow> deadKey st (ch_storage_key c))"
proof -
  have c: "c \<in> chunks st" "ch_upload_status c \<in> {''pending'', ''deleting''}"
    using assms(2) in_set_takeD by (fastforce simp: SELECT_STALE_CHUNKS_def)+
  then show ?thesis using tidyD(2) [OF assms(1) c(1)] tidyD(3) [OF assms(1) _ c(1)] by (auto simp: deadKey_def)
qed

lemma selectDue_dead:
  assumes "tidy cfg C st" "k \<in> set (SELECT_DUE_DELETIONS now st)"
  shows "deadClaimed C st k"
proof -
  let ?live = "\<lambda>q. list_ex (\<lambda>c. ch_storage_key c = od_storage_key q \<and> ch_upload_status c \<in> {''pending'', ''ready''}) (artifact_chunks st)"
  obtain q where k: "k = od_storage_key q" and "q \<in> set (take ARTIFACT_PURGE_GENERATION_BATCH_SIZE
      (sort_key od_next_attempt_at (filter (\<lambda>q. od_next_attempt_at q \<le> now \<and> \<not> ?live q) (artifact_object_deletions st))))"
    using assms(2) unfolding SELECT_DUE_DELETIONS_def by auto
  from in_set_takeD [OF this(2)] have q: "q \<in> deletions st" "\<not> ?live q" by simp_all
  have "ch_upload_status c = ''deleting''" if "c \<in> chunks st" "ch_storage_key c = k" for c
    using tidyD(1) [OF assms(1) that(1)] q(2) that k by (auto simp: list_ex_iff)
  then show ?thesis using tidyD(4) [OF assms(1) q(1)] k by (simp add: deadClaimed_def deadKey_def)
qed

text \<open>Every access but the claim of a row.\<close>

lemma advance_kept:
  assumes adv: "advanceFile cfg g start t x h st = (st', r)"
    and tidy: "tidy cfg C st" and n: "needs cfg H t C st start h" and time: "start \<le> t" "t \<le> start + H" "2 * H < DAY" "0 \<le> H"
    and own: "set (claimedUuid h) \<subseteq> C" and reply: "\<And>row. h = FinalizeChunk row \<Longrightarrow> x \<noteq> LostReply"
    and claim: "\<And>a row content. h \<noteq> ClaimChunk a row content"
  shows "(\<exists>K. (\<forall>k \<in> K. uuidOf k \<in> set (claimedUuid h)) \<and> kept cfg H t C K st st') \<and> continues cfg H t C st' start h r"
proof -
  have HD: "H < DAY" using time(3,4) by simp
  have th: "t - H \<le> start" using time(2) by simp
  have quiet: ?thesis if "kept cfg H t C {} st st'" "continues cfg H t C st' start h r"
    using that by blast
  have one: ?thesis if "kept cfg H t C {ch_storage_key row} st st'" "claimedUuid h = [uuidOf (ch_storage_key row)]"
      "continues cfg H t C st' start h r" for row
    using that by (intro conjI exI [of _ "{ch_storage_key row}"]) simp_all
  note same = kept_refl [OF tidy, of H t "{}"]
  note [simp] = continues_def
  show ?thesis
  proof (cases h)
    case (ReadArtifact u)
    then show ?thesis using adv n same
      by (intro quiet) (auto simp: readArtifactStep_def split: if_splits sum.splits option.splits)
  next
    case (ReadChunk u a m)
    have "continues cfg H t C st start h (readChunkStep cfg t u a m st)"
      using readChunkStep_continues [OF tidy _ time(1), of u H a m] n ReadChunk by simp
    then show ?thesis using adv ReadChunk same by (intro quiet) (auto split: if_splits)
  next
    case (ReplaceStale u a m existing stage)
    obtain s1 q where q: "staleStep t x existing stage st = (s1, q)" by fastforce
    have "staleNeeds C st existing stage" "length (ur_uuid u) = 36" using n ReplaceStale by simp_all
    note k = staleStep_kept [OF q tidy this(1) HD]
    have "continues cfg H t C s1 start h (claimUpload cfg t u a m)"
      using claimUpload_continues [OF \<open>length (ur_uuid u) = 36\<close> time(1), of h] ReplaceStale by simp
    then show ?thesis using adv ReplaceStale q k \<open>length (ur_uuid u) = 36\<close>
      by (intro quiet) (auto split: sum.splits option.splits if_splits)
  next
    case (EnqueueChunk row content)
    let ?e = "enqueueArtifactObjectDeletion (ch_storage_key row) (ch_artifact_id row) (ch_tenant_id row)
          (ch_uploaded_at row) (ch_uploaded_at row + 10 * 60000) (ch_uploaded_at row + DAY)"
    have c: "uuidOf (ch_storage_key row) \<in> C" "t - H \<le> ch_uploaded_at row" using own n th EnqueueChunk by simp_all
    obtain s1 q where q: "runStatements x [?e] st = (s1, q)" by fastforce
    have step: "kept cfg H t C {} st s1 \<and> (q \<noteq> None \<longrightarrow> needs cfg H t C s1 start (PutChunk row content))"
      using q
    proof (cases rule: runStatements_cases)
      case (ran ns)
      then obtain m where m: "?e st = Inr (s1, m)" by auto
      note e = kept_enqueue [OF tidy m c]
      have "ownRows s1 row" using n e(3) EnqueueChunk by (simp add: ownRows_def)
      moreover have "retained H s1 row"
        using retained_frame [of H t "{}" st s1 row] e(1) [of "{}"] n EnqueueChunk by (simp add: kept_def frame_def)
      ultimately show ?thesis using n e(1,2) EnqueueChunk by simp
    next
      case (lost ns)
      then obtain m where m: "?e st = Inr (s1, m)" by auto
      show ?thesis using kept_enqueue(1) [OF tidy m c] lost by simp
    qed (simp add: same)
    then show ?thesis using adv EnqueueChunk q by (intro quiet) (auto simp: DAY_def split: option.splits)
  next
    case (PutChunk row content)
    have put: "kept cfg H t C {ch_storage_key row} st (putObject (ch_storage_key row) content st)"
      using n own time PutChunk by (intro kept_putObject [OF tidy]) simp_all
    have fin: "needs cfg H t C (putObject (ch_storage_key row) content st) start (FinalizeChunk row)"
      using n PutChunk by (simp add: putObject_def ownRows_def)
    show ?thesis using adv PutChunk put fin n kept_refl [OF tidy, of H t "{ch_storage_key row}"]
      by (intro one [of row]) (auto simp: runPut_def split: if_splits)
  next
    case (AbortChunk row)
    have "kept cfg H t C {} st st'" if "abortChunk row st = Inr (st', m)" for m
      using that unfolding abortChunk_def by (rule kept_deleteChunks [OF tidy]) (simp add: isReady_def)
    then show ?thesis using adv AbortChunk same
      by (intro quiet) (auto split: prod.splits option.splits elim!: runStatements_cases)
  next
    case (FinalizeChunk row)
    obtain s1 q where q: "runStatements x (finalizeChunk (fc_isoText cfg) row) st = (s1, q)" by fastforce
    then show ?thesis
    proof (cases rule: runStatements_cases)
      case (ran ns)
      note f = finalize_kept [OF tidy ran(1) HD n [unfolded FinalizeChunk]]
      show ?thesis using adv FinalizeChunk q ran f by (intro one [of row]) (auto split: if_splits)
    next
      case same
      then show ?thesis using adv FinalizeChunk q n kept_refl [OF tidy] by (intro one [of row]) auto
    qed (use reply FinalizeChunk in simp)
  next
    case (UndoChunk e row stage)
    let ?k = "ch_storage_key row"
    have c: "uuidOf ?k \<in> C" and o: "ownRows st row" using own n UndoChunk by simp_all
    have notReady: "\<not> (\<exists>c \<in> chunks st. ch_storage_key c = ?k \<and> isReady c)" using o by (auto simp: ownRows_def)
    have cont: "continues cfg H t C st' start h r" if "r = Inl h'" "h' = UndoChunk e row stage'" "ownRows st' row" for h' stage'
      using that UndoChunk by simp
    show ?thesis
    proof (cases stage)
      case DropOwnObject
      obtain s1 gone where d: "runDelete x [?k] st = (s1, gone)" by fastforce
      have "kept cfg H t C {?k} st s1" using runDelete_kept [OF d tidy, of "{?k}"] notReady by simp
      moreover have "artifact_chunks s1 = artifact_chunks st"
        using d by (auto simp: deleteObjects_def elim!: runDelete_cases)
      ultimately show ?thesis using adv UndoChunk DropOwnObject d o
        by (intro one [of row]) (auto simp: ownStep_def ownRows_def)
    next
      case MarkOwn
      let ?ins = "insertChunkOrIgnore (row\<lparr>ch_upload_status := ''deleting'', ch_uploaded_at := t\<rparr>)"
        and ?mark = "markDeleting [''pending'', ''deleting''] t row"
      obtain s1 q where q: "runStatements x [?ins, ?mark] st = (s1, q)" by fastforce
      then have "kept cfg H t C {?k} st s1"
      proof (rule runStatements_kept [OF _ tidy])
        fix ns assume "batch [?ins, ?mark] st = Inr (s1, ns)"
        then obtain m a b where m: "?ins st = Inr (m, a)" "?mark m = Inr (s1, b)" by auto
        note i = kept_markOwn(1) [OF tidy o c m(1), of H t] kept_markOwn(2) [OF tidy o c m(1)]
        have "tidy cfg C m" using i(1) by (simp add: kept_def)
        then have "kept cfg H t C {?k} m s1"
          by (rule kept_updateDeleting [OF _ m(2) [unfolded markDeleting_def]]) (auto simp: isReady_def)
        moreover have "bucket s1 = bucket m" using m(2) by (auto simp: markDeleting_def updateChunks_def)
        ultimately show "kept cfg H t C {?k} st s1" using kept_trans [OF i(1) _ i(2) _ HD] by simp
      qed
      then show ?thesis using adv UndoChunk MarkOwn q by (intro one [of row]) (auto simp: ownStep_def)
    next
      case RemoveOwn
      obtain s1 q where q: "runStatements x [removeChunk [''pending'', ''deleting''] row] st = (s1, q)" by fastforce
      then have "kept cfg H t C {} st s1"
      proof (rule runStatements_kept [OF _ tidy])
        fix ns assume "batch [removeChunk [''pending'', ''deleting''] row] st = Inr (s1, ns)"
        then obtain m where "removeChunk [''pending'', ''deleting''] row st = Inr (s1, m)" by auto
        then show "kept cfg H t C {} st s1" unfolding removeChunk_def by (rule kept_deleteChunks [OF tidy]) (auto simp: isReady_def)
      qed
      then show ?thesis using adv UndoChunk RemoveOwn q by (intro quiet) (auto simp: ownStep_def split: option.splits)
    qed
  next
    case (ReadUpload a b parts)
    then show ?thesis using adv same
      by (intro quiet) (auto simp: readUploadStep_def split: if_splits sum.splits option.splits)
  next
    case (ReadStored a declared)
    then show ?thesis using adv same
      by (intro quiet) (auto simp: readStoredStep_def Let_def split: if_splits prod.splits)
  next
    case (CommitUpload a sha audit)
    obtain s1 q where q: "runStatements x (commitUpload a sha audit) st = (s1, q)" by fastforce
    then have "kept cfg H t C {} st s1"
    proof (rule runStatements_kept [OF _ tidy])
      fix ns assume "batch (commitUpload a sha audit) st = Inr (s1, ns)"
      then obtain m k l where "onDatabase (updateArtifacts (\<lambda>b. ownedBy (a_artifact_id a) (a_tenant_id a) b \<and> a_status b = ''uploading'' \<and>
         a_content_purged_at b = None \<and> ad_occurred_at audit < a_expires_at b \<and>
         a_chunk_count b = int (readyCount st (a_artifact_id a) (a_tenant_id a)) \<and>
         \<not> list_ex (\<lambda>c. chunkOf (a_artifact_id a) (a_tenant_id a) c \<and> ch_upload_status c = ''pending'') (artifact_chunks st))
       (\<lambda>b. b\<lparr>a_status := ''ready'', a_uploaded_chunks := a_chunk_count b,
          a_manifest_sha256 := Some sha, a_updated_at := ad_occurred_at audit\<rparr>)) st = Inr (m, k)"
        and m2: "onDatabase (guardedArtifactAuditInsert audit (Some ''ready'')) m = Inr (s1, l)"
        by (auto simp: commitUpload_def completeArtifact_def)
      note k1 = kept_onDatabase [OF tidy this(1)]
      have tm: "tidy cfg C m" using k1(1) [of H t "{}"] by (simp add: kept_def)
      show "kept cfg H t C {} st s1"
        using kept_trans [OF k1(1) kept_onDatabase(1) [OF tm m2] k1(4) kept_onDatabase(4) [OF tm m2] HD] .
    qed
    then show ?thesis using adv CommitUpload q by (intro quiet) (auto split: option.splits)
  next
    case SelectDue
    have "\<forall>k \<in> set (SELECT_DUE_DELETIONS start st). deadClaimed C st k" using selectDue_dead [OF tidy] by blast
    then show ?thesis using adv SelectDue same by (intro quiet) (auto split: if_splits list.splits)
  next
    case (DropDue keys)
    obtain s1 gone where d: "runDelete x keys st = (s1, gone)" by fastforce
    have k: "kept cfg H t C {} st s1"
      using n DropDue by (intro runDelete_kept [OF d tidy]) (auto simp: deadClaimed_def)
    have "gone \<Longrightarrow> k \<in> set keys \<Longrightarrow> bucket s1 k = None" for k
      using d by (auto simp: deleteObjects_def elim!: runDelete_cases)
    then show ?thesis using adv DropDue d k n dead_kept [OF k] by (intro quiet) (auto split: if_splits)
  next
    case (DueDropped keys)
    obtain s1 q where q: "runStatements x (deletionDoneBatch start keys) st = (s1, q)" by fastforce
    then have k: "kept cfg H t C {} st s1"
      by (rule runStatements_kept [OF _ tidy], intro deletionDone_kept [OF _ tidy HD time(1)]) (use n DueDropped in auto)
    then show ?thesis using adv DueDropped q n by (intro quiet) (auto split: option.splits)
  next
    case (DueFailed keys)
    obtain s1 q where q: "runStatements x (deletionRetryBatch start keys) st = (s1, q)" by fastforce
    then have k: "kept cfg H t C {} st s1"
      by (rule runStatements_kept [OF _ tidy]) (rule deletionRetry_kept [OF _ tidy HD])
    then show ?thesis using adv DueFailed q by (intro quiet) (auto split: option.splits)
  next
    case SelectStale
    have "\<forall>c \<in> set (SELECT_STALE_CHUNKS (start - STALE_UPLOAD_MILLISECONDS) st). uuidOf (ch_storage_key c) \<in> C \<and>
        (ch_upload_status c \<noteq> ''pending'' \<longrightarrow> deadKey st (ch_storage_key c))"
      using selectStale_dead [OF tidy] by blast
    note ns = nextStale_continues(1) [OF this, of cfg H t start] nextStale_continues(2,3) [OF this]
    show ?thesis using adv SelectStale same ns by (intro quiet) (auto split: if_splits)
  next
    case (CleanStale row rest stage)
    obtain s1 q where q: "staleStep t x row stage st = (s1, q)" by fastforce
    have "staleNeeds C st row stage" using n CleanStale by simp
    note k = staleStep_kept [OF q tidy this HD]
    have rest: "\<forall>c \<in> set rest. uuidOf (ch_storage_key c) \<in> C \<and> (ch_upload_status c \<noteq> ''pending'' \<longrightarrow> deadKey s1 (ch_storage_key c))"
      using n CleanStale dead_kept [OF k(1)] by (simp add: deadClaimed_def)
    note ns = nextStale_continues(1) [OF rest, of cfg H t start] nextStale_continues(2,3) [OF rest]
    show ?thesis using adv CleanStale q k rest ns
      by (intro quiet) (auto split: sum.splits option.splits)
  next
    case SelectExpired
    then show ?thesis using adv same by (intro quiet) (auto split: if_splits option.splits)
  next
    case (CleanExpired a b stage)
    obtain s1 q where q: "purgeStep cfg start start x a b stage st = (s1, q)" by fastforce
    have "purgeNeeds C st stage" using n CleanExpired by simp
    note k = purgeStep_kept [OF q tidy this th HD]
    show ?thesis using adv CleanExpired q k by (intro quiet) (auto split: sum.splits if_splits)
  next
    case (ClearTask p i status)
    let ?ss = "(if status = ''queued'' then cancelForPurgeBatch else clearForPurgeBatch) (fc_isoText cfg t) i (po_artifact p) (po_tenant p)"
    obtain s1 q where q: "runStatements x (map onDatabase ?ss) st = (s1, q)" by fastforce
    then have k: "kept cfg H t C {} st s1" by (rule runStatements_kept [OF _ tidy]) (rule databaseBatch_kept [OF _ tidy HD])
    then show ?thesis using adv ClearTask q by (intro quiet) (auto split: option.splits if_splits)
  next
    case (PurgeFile p stage)
    obtain s1 q where q: "purgeStep cfg start t x (po_artifact p) (po_tenant p) stage st = (s1, q)" by fastforce
    have "purgeNeeds C st stage" using n PurgeFile by simp
    note k = purgeStep_kept [OF q tidy this th HD]
    show ?thesis using adv PurgeFile q k by (intro quiet) (auto split: sum.splits purgeResult.splits)
  next
    case (RecordPurge p mark purgedAt)
    obtain s1 q where q: "runStatements x (map onDatabase (recordPurge (fc_isoText cfg t) p mark purgedAt)) st = (s1, q)" by fastforce
    then have k: "kept cfg H t C {} st s1" by (rule runStatements_kept [OF _ tidy]) (rule databaseBatch_kept [OF _ tidy HD])
    then show ?thesis using adv RecordPurge q by (intro quiet) (auto split: option.splits)
  qed (use adv same claim in \<open>intro quiet; auto simp: readPurgeTargetStep_def readPurgeTaskStep_def Let_def split: if_splits option.splits prod.splits\<close>)+
qed

lemma claim_kept:
  assumes adv: "advanceFile cfg g start t x (ClaimChunk a row content) st = (st', r)"
    and tidy: "tidy cfg C st" and n: "needs cfg H t C st start (ClaimChunk a row content)" and new: "uuidOf (ch_storage_key row) \<notin> C"
  shows "tidy cfg (insert (uuidOf (ch_storage_key row)) C) st' \<and> frame H t C {} st st' \<and>
    (\<forall>h'. r = Inl h' \<longrightarrow> needs cfg H t (insert (uuidOf (ch_storage_key row)) C) st' start h' \<and>
       unclaimedUuid h' = [] \<and> claimedUuid h' \<in> {[uuidOf (ch_storage_key row)], []})"
proof -
  let ?u = "uuidOf (ch_storage_key row)"
  have p: "ch_upload_status row = ''pending''" using n by simp
  obtain s1 q where q: "runStatements x [claimChunk row (fc_isoText cfg (ch_uploaded_at row))] st = (s1, q)" by fastforce
  then show ?thesis
  proof (cases rule: runStatements_cases)
    case same
    then show ?thesis using adv q tidy_mono [OF tidy, of "insert ?u C"] frame_refl by auto
  next
    case (ran ns)
    then obtain m where m: "claimChunk row (fc_isoText cfg (ch_uploaded_at row)) st = Inr (s1, m)" "ns = [m]" by auto
    have "retained H s1 row" by (rule kept_claim(4) [OF tidy m(1) p new])
    moreover have "m = 1 \<Longrightarrow> ownRows s1 row" by (rule kept_claim(3) [OF tidy m(1) p new])
    ultimately show ?thesis using adv q ran m n kept_claim(1,2) [OF tidy m(1) p new] by (auto split: if_splits)
  next
    case (lost ns)
    then obtain m where m: "claimChunk row (fc_isoText cfg (ch_uploaded_at row)) st = Inr (s1, m)" by auto
    show ?thesis using adv q lost kept_claim(1,2) [OF tidy m p new] by auto
  qed
qed

section \<open>The invariant\<close>

definition idsOf :: "int \<times> fileHandler \<Rightarrow> string list" where
  "idsOf y = unclaimedUuid (snd y) @ claimedUuid (snd y)"

lemma tidySystemD:
  assumes "tidySystem cfg H s"
  shows "tidy cfg (claimedIn s) (files s)" "distinct (concat (map idsOf (running s)))"
    "set (concat (map idsOf (running s))) \<subseteq> uuids s"
    "(start, h) \<in> set (running s) \<Longrightarrow> start \<le> clock s \<and> needs cfg H (clock s) (claimedIn s) (files s) start h"
  using assms unfolding tidySystem_def idsOf_def by fastforce+

lemma tidySystemI:
  assumes "tidy cfg (claimedIn s) (files s)" "distinct (concat (map idsOf (running s)))"
    "set (concat (map idsOf (running s))) \<subseteq> uuids s"
    "\<And>start h. (start, h) \<in> set (running s) \<Longrightarrow> start \<le> clock s \<and> needs cfg H (clock s) (claimedIn s) (files s) start h"
  shows "tidySystem cfg H s"
  using assms unfolding tidySystem_def idsOf_def by auto

lemma claimedIn_ids:
  assumes "running s = xs @ y # ys" "distinct (concat (map idsOf (running s)))" "set (concat (map idsOf (running s))) \<subseteq> uuids s"
  shows "set (claimedUuid (snd y)) \<subseteq> claimedIn s" "set (unclaimedUuid (snd y)) \<inter> claimedIn s = {}"
    "z \<in> set xs \<union> set ys \<Longrightarrow> set (idsOf z) \<inter> set (idsOf y) = {}"
  using assms by (auto simp: claimedIn_def idsOf_def)

text \<open>An access by one handler, seen from the system.\<close>

lemma system_access:
  assumes s: "tidySystem cfg H s" and run: "running s = xs @ (start, h) # ys"
    and s': "s' = s\<lparr>files := st, running := xs @ zs @ ys\<rparr>"
    and zs: "zs = (case r of Inl h' \<Rightarrow> [(start, h')] | Inr res \<Rightarrow> [])"
    and ids: "\<And>h'. r = Inl h' \<Longrightarrow> set (idsOf (start, h')) \<subseteq> set (idsOf (start, h)) \<and> distinct (idsOf (start, h'))"
    and sub: "claimedIn s \<subseteq> D" "D \<subseteq> claimedIn s'" and tidy: "tidy cfg D st"
    and f: "frame H (clock s) (claimedIn s) K (files s) st" "\<And>k. k \<in> K \<Longrightarrow> uuidOf k \<in> set (idsOf (start, h))"
    and next_: "\<And>h'. r = Inl h' \<Longrightarrow> needs cfg H (clock s) D st start h'" and "2 * H < DAY" "0 \<le> H"
  shows "tidySystem cfg H s'"
proof (rule tidySystemI)
  note d = tidySystemD [OF s]
  show "tidy cfg (claimedIn s') (files s')" using tidy_mono [OF tidy sub(2)] by (simp add: s')
  have dist: "distinct (concat (map idsOf (xs @ (start, h) # ys)))" using d(2) run by simp
  show "distinct (concat (map idsOf (running s')))"
  proof (cases r)
    case (Inl h')
    then show ?thesis using dist ids [OF Inl] by (auto simp: s' zs)
  qed (use dist in \<open>auto simp: s' zs\<close>)
  have less: "set (concat (map idsOf (running s'))) \<subseteq> set (concat (map idsOf (running s)))"
  proof (cases r)
    case (Inl h')
    then show ?thesis using ids [OF Inl] by (auto simp: s' zs run)
  qed (auto simp: s' zs run)
  have "uuids s' = uuids s" by (simp add: s')
  then show "set (concat (map idsOf (running s'))) \<subseteq> uuids s'" using less d(3) by blast
  fix start' h' assume "(start', h') \<in> set (running s')"
  then consider (own) "start' = start" "r = Inl h'" | (other) "(start', h') \<in> set xs \<union> set ys"
    by (auto simp: s' zs split: sum.splits)
  then show "start' \<le> clock s' \<and> needs cfg H (clock s') (claimedIn s') (files s') start' h'"
  proof cases
    case own
    have "start \<le> clock s" using d(4) [of start h] run by simp
    then show ?thesis using own needs_mono [OF next_ [OF own(2)] sub(2)] by (simp add: s')
  next
    case other
    then have o: "start' \<le> clock s" "needs cfg H (clock s) (claimedIn s) (files s) start' h'" using d(4) [of start' h'] run by auto
    obtain us vs where split: "running s = us @ (start', h') # vs" using other run by (metis Un_iff append_Cons append_assoc in_set_conv_decomp)
    have c: "set (claimedUuid h') \<subseteq> claimedIn s" using claimedIn_ids(1) [OF split d(2,3)] by simp
    have "set (idsOf (start', h')) \<inter> set (idsOf (start, h)) = {}" using claimedIn_ids(3) [OF run d(2,3) other] .
    then have "uuidOf k \<notin> set (claimedUuid h')" if "k \<in> K" for k using f(2) [OF that] by (auto simp: idsOf_def)
    then have "needs cfg H (clock s) (claimedIn s) st start' h'"
      using needs_frame [OF f(1) o(2,1) assms(12,13) c] by blast
    then show ?thesis using o(1) needs_mono sub by (fastforce simp: s')
  qed
qed

lemma claimedIn_next:
  assumes "running s = xs @ (start, h) # ys" "distinct (concat (map idsOf (running s)))" "set (concat (map idsOf (running s))) \<subseteq> uuids s"
    and "\<And>h'. r = Inl h' \<Longrightarrow> unclaimedUuid h' = u"
    and "s' = s\<lparr>files := st, running := xs @ (case r of Inl h' \<Rightarrow> [(start, h')] | Inr res \<Rightarrow> []) @ ys\<rparr>" "set u \<subseteq> set (unclaimedUuid h)"
  shows "claimedIn s \<subseteq> claimedIn s'" "u = [] \<Longrightarrow> set (unclaimedUuid h) \<subseteq> claimedIn s'"
  using assms by (auto simp: claimedIn_def idsOf_def split: sum.splits)

lemma kept_database: "tidy cfg C st \<Longrightarrow> kept cfg H t C K st (st\<lparr>fs_database := db\<rparr>)"
  by (rule kept_tables) simp_all

lemma tidy_database:
  assumes "tidySystem cfg H s" "2 * H < DAY" "0 \<le> H"
  shows "tidySystem cfg H (s\<lparr>files := (files s)\<lparr>fs_database := db\<rparr>\<rparr>)"
proof (rule tidySystemI)
  let ?s = "s\<lparr>files := (files s)\<lparr>fs_database := db\<rparr>\<rparr>"
  note d = tidySystemD [OF assms(1)]
  have k: "kept cfg H (clock s) (claimedIn s) {} (files s) ((files s)\<lparr>fs_database := db\<rparr>)" by (rule kept_database [OF d(1)])
  have c: "claimedIn ?s = claimedIn s" by (simp add: claimedIn_def)
  show "tidy cfg (claimedIn ?s) (files ?s)" using k by (simp add: c kept_def)
  show "distinct (concat (map idsOf (running ?s)))" "set (concat (map idsOf (running ?s))) \<subseteq> uuids ?s" using d(2,3) by simp_all
  fix start h assume h: "(start, h) \<in> set (running ?s)"
  then obtain us vs where split: "running s = us @ (start, h) # vs" by (auto simp: in_set_conv_decomp)
  have o: "start \<le> clock s" "needs cfg H (clock s) (claimedIn s) (files s) start h" using d(4) [of start h] h by auto
  have "needs cfg H (clock s) (claimedIn s) ((files s)\<lparr>fs_database := db\<rparr>) start h"
    using needs_frame [OF _ o(2,1) assms(2,3) claimedIn_ids(1) [OF split d(2,3), simplified]] k by (auto simp: kept_def)
  then show "start \<le> clock ?s \<and> needs cfg H (clock ?s) (claimedIn ?s) (files ?s) start h" using o(1) by (simp add: c)
qed

lemma tidy_step:
  assumes "file_step cfg policy H False s s'" "tidySystem cfg H s" "2 * H < DAY" "0 \<le> H"
  shows "tidySystem cfg H s'"
  using assms(1,2)
proof (induction rule: file_step.induct)
  case (tick s t)
  note d = tidySystemD [OF tick.prems]
  have c: "claimedIn (s\<lparr>clock := t\<rparr>) = claimedIn s" by (simp add: claimedIn_def)
  show ?case
  proof (rule tidySystemI)
    fix start h assume "(start, h) \<in> set (running (s\<lparr>clock := t\<rparr>))"
    then have "start \<le> clock s" "needs cfg H (clock s) (claimedIn s) (files s) start h" using d(4) [of start h] by simp_all
    then show "start \<le> clock (s\<lparr>clock := t\<rparr>) \<and>
        needs cfg H (clock (s\<lparr>clock := t\<rparr>)) (claimedIn (s\<lparr>clock := t\<rparr>)) (files (s\<lparr>clock := t\<rparr>)) start h"
      using tick.hyps needs_later [OF _ tick.hyps] by (simp add: c)
  qed (use d(1-3) in \<open>simp_all add: c\<close>)
next
  case (arrive s h)
  note d = tidySystemD [OF arrive.prems]
  let ?s = "s\<lparr>running := running s @ [(clock s, h)], uuids := uuids s \<union> uploadUuid h\<rparr>"
  have i: "set (unclaimedUuid h) = uploadUuid h" "claimedUuid h = []" "uploadUuid h \<inter> uuids s = {}" "distinct (unclaimedUuid h)"
    "needs cfg H (clock s) (claimedIn s) (files s) (clock s) h"
    using arrive.hyps by (cases h; simp)+
  have c: "claimedIn ?s = claimedIn s" using i(1,3) by (auto simp: claimedIn_def)
  show ?case
  proof (rule tidySystemI)
    show "distinct (concat (map idsOf (running ?s)))" "set (concat (map idsOf (running ?s))) \<subseteq> uuids ?s"
      using d(2,3) i by (auto simp: idsOf_def)
  qed (use d(1,4) i(5) in \<open>auto simp: c\<close>)
next
  case (access s xs start h ys x g st r)
  note d = tidySystemD [OF access.prems]
  have h: "start \<le> clock s" "needs cfg H (clock s) (claimedIn s) (files s) start h" using d(4) [of start h] access.hyps(1) by auto
  note ids = claimedIn_ids [OF access.hyps(1) d(2,3), simplified]
  let ?s = "s\<lparr>files := st, running := xs @ (case r of Inl h' \<Rightarrow> [(start, h')] | Inr res \<Rightarrow> []) @ ys\<rparr>"
  show ?case
  proof (cases "\<exists>a row content. h = ClaimChunk a row content")
    case True
    then obtain a row content where hc: "h = ClaimChunk a row content" by blast
    let ?u = "uuidOf (ch_storage_key row)"
    have new: "?u \<notin> claimedIn s" using ids(2) hc by simp
    note k = claim_kept [OF access.hyps(4) [unfolded hc] d(1) h(2) [unfolded hc] new]
    have c: "claimedIn s \<subseteq> claimedIn ?s" "set (unclaimedUuid h) \<subseteq> claimedIn ?s"
      by (rule claimedIn_next [where u = "[]" and r = r, OF access.hyps(1) d(2,3)]; use k in simp)+
    show ?thesis
      by (rule system_access [where K = "{}" and r = r and D = "insert ?u (claimedIn s)", OF access.prems access.hyps(1) refl refl])
        (use k c hc assms(3,4) in \<open>auto simp: idsOf_def\<close>)
  next
    case False
    have "(\<exists>K. (\<forall>k \<in> K. uuidOf k \<in> set (claimedUuid h)) \<and> kept cfg H (clock s) (claimedIn s) K (files s) st) \<and>
        continues cfg H (clock s) (claimedIn s) st start h r"
      using advance_kept [OF access.hyps(4) d(1) h(2,1) access.hyps(2) assms(3,4) ids(1)] access.hyps(3) False by blast
    then obtain K where K: "\<forall>k \<in> K. uuidOf k \<in> set (claimedUuid h)" "kept cfg H (clock s) (claimedIn s) K (files s) st"
      and cont: "continues cfg H (clock s) (claimedIn s) st start h r" by blast
    have c: "claimedIn s \<subseteq> claimedIn ?s"
      by (rule claimedIn_next(1) [where u = "unclaimedUuid h" and r = r, OF access.hyps(1) d(2,3)]; use cont in \<open>simp add: continues_def\<close>)
    have dist: "distinct (idsOf (start, h))" using d(2) access.hyps(1) by simp
    show ?thesis
      by (rule system_access [where K = K and r = r and D = "claimedIn s", OF access.prems access.hyps(1) refl refl])
        (use K cont c dist assms(3,4) in \<open>auto simp: idsOf_def continues_def kept_def\<close>)
  qed
next
  case (vanish s xs y ys)
  note d = tidySystemD [OF vanish.prems]
  have c: "claimedIn s \<subseteq> claimedIn (s\<lparr>running := xs @ ys\<rparr>)" using vanish.hyps by (auto simp: claimedIn_def)
  show ?case
  proof (rule tidySystemI)
    fix start h assume "(start, h) \<in> set (running (s\<lparr>running := xs @ ys\<rparr>))"
    then have "start \<le> clock s \<and> needs cfg H (clock s) (claimedIn s) (files s) start h" using d(4) [of start h] vanish.hyps by auto
    then show "start \<le> clock (s\<lparr>running := xs @ ys\<rparr>) \<and> needs cfg H (clock (s\<lparr>running := xs @ ys\<rparr>)) (claimedIn (s\<lparr>running := xs @ ys\<rparr>))
        (files (s\<lparr>running := xs @ ys\<rparr>)) start h"
      using needs_mono [OF _ c] by simp
  qed (use d(2,3) tidy_mono [OF d(1) c] vanish.hyps in auto)
next
  case (create s g tenantId uuid input db r)
  then show ?case using tidy_database assms(3,4) by blast
next
  case (others s db)
  then show ?case using tidy_database assms(3,4) by blast
qed

lemma tidy_reachable:
  assumes "file_reachable cfg policy H False s" "2 * H < DAY" "0 \<le> H"
  shows "tidySystem cfg H s"
  using assms(1)
proof (induction rule: file_reachable.induct)
  case (start db)
  show ?case by (rule tidySystemI) (simp_all add: tidy_def emptyFiles_def)
next
  case (step s s')
  then show ?case using tidy_step assms(2,3) by blast
qed

end
