(* ===== verification/ArtifactWhole.thy ===== *)
theory ArtifactWhole
  imports StorageSafety
begin

text \<open>
  A ready file is whole: the manifest its digest commits to describes exactly its ready chunks, one for
  each part, and with the invariant of \<open>StorageSafety\<close> the object of each of them is in the store.
\<close>

section \<open>How the files change\<close>

definition sameMeta :: "ArtifactRow \<Rightarrow> ArtifactRow \<Rightarrow> bool" where
  "sameMeta a b \<longleftrightarrow> a_artifact_id b = a_artifact_id a \<and> a_tenant_id b = a_tenant_id a \<and> a_file_name b = a_file_name a \<and>
     a_media_type b = a_media_type a \<and> a_size_bytes b = a_size_bytes a \<and> a_chunk_size_bytes b = a_chunk_size_bytes a \<and>
     a_chunk_count b = a_chunk_count a"

text \<open>A file keeps its identity, its purge mark, and until it is purged its data and its state.\<close>

definition artifactKept :: "ArtifactRow \<Rightarrow> ArtifactRow \<Rightarrow> bool" where
  "artifactKept a b \<longleftrightarrow> a_artifact_id b = a_artifact_id a \<and> a_tenant_id b = a_tenant_id a \<and>
     (a_content_purged_at b = None \<longrightarrow> a_content_purged_at a = None \<and> sameMeta a b \<and> a_status b = a_status a \<and>
        a_manifest_sha256 b = a_manifest_sha256 a)"

definition artifactsKept :: "database \<Rightarrow> database \<Rightarrow> bool" where
  "artifactsKept db db' \<longleftrightarrow> list_all2 artifactKept (artifacts db) (artifacts db')"

definition purgedIn :: "fileStore \<Rightarrow> string \<Rightarrow> string \<Rightarrow> bool" where
  "purgedIn st artifactId tenantId \<longleftrightarrow>
     (\<exists>b \<in> set (artifacts (fs_database st)). ownedBy artifactId tenantId b \<and> a_content_purged_at b \<noteq> None)"

definition uploadingIn :: "fileStore \<Rightarrow> string \<Rightarrow> string \<Rightarrow> bool" where
  "uploadingIn st artifactId tenantId \<longleftrightarrow>
     (\<exists>b \<in> set (artifacts (fs_database st)). ownedBy artifactId tenantId b \<and> a_status b = ''uploading'' \<and> a_content_purged_at b = None)"

text \<open>Ready chunks stay until their file is purged, and appear only while it is uploading.\<close>

definition readyKept :: "fileStore \<Rightarrow> fileStore \<Rightarrow> bool" where
  "readyKept st st' \<longleftrightarrow>
     (\<forall>c \<in> chunks st. isReady c \<longrightarrow> c \<in> chunks st' \<or> purgedIn st' (ch_artifact_id c) (ch_tenant_id c)) \<and>
     (\<forall>c \<in> chunks st'. isReady c \<longrightarrow> c \<in> chunks st \<or> uploadingIn st (ch_artifact_id c) (ch_tenant_id c))"

definition filesKept :: "fileStore \<Rightarrow> fileStore \<Rightarrow> bool" where
  "filesKept st st' \<longleftrightarrow> artifactsKept (fs_database st) (fs_database st') \<and> readyKept st st'"

lemma artifactKept_refl [simp]: "artifactKept a a"
  by (simp add: artifactKept_def sameMeta_def)

lemma sameMeta_trans: "sameMeta a b \<Longrightarrow> sameMeta b c \<Longrightarrow> sameMeta a c"
  by (simp add: sameMeta_def)

lemma artifactKept_trans: "artifactKept a b \<Longrightarrow> artifactKept b c \<Longrightarrow> artifactKept a c"
  by (auto simp: artifactKept_def sameMeta_def)

lemma artifactsKept_refl [simp]: "artifactsKept db db"
  by (simp add: artifactsKept_def list_all2_refl)

lemma artifactsKept_trans: "artifactsKept a b \<Longrightarrow> artifactsKept b c \<Longrightarrow> artifactsKept a c"
  unfolding artifactsKept_def by (rule list_all2_trans [OF artifactKept_trans])

lemma artifactsKept_update:
  "(\<And>a. p a \<Longrightarrow> artifactKept a (f a)) \<Longrightarrow> artifacts db' = updateRows p f (artifacts db) \<Longrightarrow> artifactsKept db db'"
  by (simp add: artifactsKept_def updateRows_def list_all2_conv_all_nth)

lemma artifactsKept_updateArtifacts:
  assumes "updateArtifacts p f db = Inr (db', n)" "\<And>a. p a \<Longrightarrow> artifactKept a (f a)"
  shows "artifactsKept db db'"
  using assms by (intro artifactsKept_update [of p f]) (auto simp: updateArtifacts_def)

text \<open>An update that sets the purge mark keeps every file.\<close>

lemma artifactKept_marked:
  "a_artifact_id (f a) = a_artifact_id a \<Longrightarrow> a_tenant_id (f a) = a_tenant_id a \<Longrightarrow> a_content_purged_at (f a) \<noteq> None \<Longrightarrow>
   artifactKept a (f a)"
  by (auto simp: artifactKept_def)

lemma orElse_some [simp]: "\<exists>y. orElse x v = Some y"
  by (simp add: orElse_def split: option.split)

lemma artifactsKeptD:
  assumes "artifactsKept db db'"
  shows "b \<in> set (artifacts db') \<Longrightarrow> \<exists>a \<in> set (artifacts db). artifactKept a b"
    "a \<in> set (artifacts db) \<Longrightarrow> \<exists>b \<in> set (artifacts db'). artifactKept a b"
  using assms unfolding artifactsKept_def by (auto simp: list_all2_conv_all_nth set_conv_nth)

lemma artifactsKept_ids:
  assumes "artifactsKept db db'"
  shows "map a_artifact_id (artifacts db') = map a_artifact_id (artifacts db)"
proof (rule nth_equalityI)
  show "length (map a_artifact_id (artifacts db')) = length (map a_artifact_id (artifacts db))"
    using assms by (simp add: artifactsKept_def list_all2_lengthD)
  fix i assume "i < length (map a_artifact_id (artifacts db'))"
  then show "map a_artifact_id (artifacts db') ! i = map a_artifact_id (artifacts db) ! i"
    using assms by (simp add: artifactsKept_def list_all2_conv_all_nth artifactKept_def)
qed

lemma keepsFiles_kept: "keepsFiles db db' \<Longrightarrow> artifactsKept db db'"
  unfolding keepsFiles_def artifactsKept_def
proof (erule list_all2_mono)
  fix a b assume "sameArtifact a b"
  then show "artifactKept a b" by (cases a; cases b) (simp add: sameArtifact_def artifactKept_def sameMeta_def)
qed

lemma keepsFiles_refl [simp]: "keepsFiles db db"
  by (simp add: keepsFiles_def list_all2_refl sameArtifact_def)

lemma keepsFiles_trans:
  assumes "keepsFiles a b" "keepsFiles b c"
  shows "keepsFiles a c"
proof -
  have "sameArtifact x z" if "sameArtifact x y" "sameArtifact y z" for x y z
    using that by (cases x; cases y; cases z) (simp add: sameArtifact_def)
  with assms show ?thesis unfolding keepsFiles_def using list_all2_trans [of sameArtifact sameArtifact sameArtifact] by blast
qed

lemma purgedIn_kept: "artifactsKept (fs_database st) (fs_database st') \<Longrightarrow> purgedIn st a b \<Longrightarrow> purgedIn st' a b"
  unfolding purgedIn_def using artifactsKeptD(2) by (fastforce simp: artifactKept_def ownedBy_def)

lemma uploadingIn_before: "artifactsKept (fs_database st) (fs_database st') \<Longrightarrow> uploadingIn st' a b \<Longrightarrow> uploadingIn st a b"
  unfolding uploadingIn_def using artifactsKeptD(1) by (fastforce simp: artifactKept_def ownedBy_def)

lemma filesKept_refl [simp]: "filesKept st st"
  by (simp add: filesKept_def readyKept_def)

lemma filesKept_trans:
  assumes "filesKept a b" "filesKept b c"
  shows "filesKept a c"
proof -
  have k: "artifactsKept (fs_database a) (fs_database b)" "artifactsKept (fs_database b) (fs_database c)"
    using assms by (simp_all add: filesKept_def)
  have "readyKept a c"
    using assms purgedIn_kept [OF k(2)] uploadingIn_before [OF k(1)] unfolding filesKept_def readyKept_def by blast
  then show ?thesis using artifactsKept_trans [OF k] by (simp add: filesKept_def)
qed

lemma filesKept_batch:
  assumes "batch ss st = Inr (st', ns)" "\<And>s d d' n. s \<in> set ss \<Longrightarrow> s d = Inr (d', n) \<Longrightarrow> filesKept d d'"
  shows "filesKept st st'"
proof (rule batch_rel [where R = filesKept])
  show "filesKept a c" if "filesKept a b" "filesKept b c" for a b c using that by (rule filesKept_trans)
  show "filesKept d d'" if "s \<in> set ss" "s d = Inr (d', n)" for s d d' n using assms(2) that .
qed (use assms(1) in simp_all)

section \<open>Statements\<close>

text \<open>Chunk statements that spare the ready rows, and database statements.\<close>

lemma filesKept_rows:
  assumes "fs_database st' = fs_database st" "\<And>c. isReady c \<Longrightarrow> c \<in> chunks st' \<longleftrightarrow> c \<in> chunks st"
  shows "filesKept st st'"
  unfolding filesKept_def readyKept_def using assms by auto

lemma filesKept_database:
  assumes "artifact_chunks st' = artifact_chunks st" "artifactsKept (fs_database st) (fs_database st')"
  shows "filesKept st st'"
  using assms by (simp add: filesKept_def readyKept_def)

lemma filesKept_onDatabase:
  assumes "onDatabase s st = Inr (st', n)" "\<And>db db' n. s db = Inr (db', n) \<Longrightarrow> artifactsKept db db'"
  shows "filesKept st st'"
  using assms by (auto simp: onDatabase_def intro!: filesKept_database)

lemma filesKept_deleteChunks:
  assumes "deleteChunks p st = Inr (st', n)" "\<And>c. c \<in> chunks st \<Longrightarrow> p c \<Longrightarrow> \<not> isReady c"
  shows "filesKept st st'"
  using assms by (intro filesKept_rows) (auto simp: deleteChunks_def)

lemma filesKept_deletions:
  "updateDeletions p f st = Inr (st', n) \<Longrightarrow> filesKept st st'"
  "deleteDeletions p st = Inr (st', n) \<Longrightarrow> filesKept st st'"
  "ENQUEUE_ARTIFACT_OBJECT_DELETION_SQL row st = Inr (st', n) \<Longrightarrow> filesKept st st'"
  by (rule filesKept_rows; auto simp: updateDeletions_def deleteDeletions_def ENQUEUE_ARTIFACT_OBJECT_DELETION_SQL_def
      split: if_splits)+

lemma filesKept_insert:
  "insertChunkOrIgnore row st = Inr (st', n) \<Longrightarrow> \<not> isReady row \<Longrightarrow> filesKept st st'"
  by (rule filesKept_rows) (auto simp: insertChunkOrIgnore_def split: if_splits)

lemma filesKept_markDeleting:
  assumes "markDeleting statuses u row st = Inr (st', n)" "''ready'' \<notin> set statuses"
  shows "filesKept st st'"
proof (rule filesKept_rows)
  show "fs_database st' = fs_database st" using assms(1) by (auto simp: markDeleting_def updateChunks_def)
  fix c assume "isReady c"
  then show "c \<in> chunks st' \<longleftrightarrow> c \<in> chunks st"
    using assms by (auto simp: markDeleting_def updateChunks_def updateRows_def isReady_def image_iff split: if_splits)
qed

lemma filesKept_tombstone:
  assumes "TOMBSTONE_ARTIFACT_CHUNK_GENERATION_SQL g st = Inr (st', n)" "purgedIn st (ch_artifact_id g) (ch_tenant_id g)"
  shows "filesKept st st'"
proof -
  let ?p = "\<lambda>c. generationOf g c \<and> ch_upload_status c \<in> {''pending'', ''ready'', ''deleting''}"
  from assms(1) have db: "fs_database st' = fs_database st"
    and rows: "chunks st' = (\<lambda>c. if ?p c then c\<lparr>ch_upload_status := ''deleting''\<rparr> else c) ` chunks st"
    by (auto simp: TOMBSTONE_ARTIFACT_CHUNK_GENERATION_SQL_def updateChunks_def updateRows_def)
  have "readyKept st st'"
    unfolding readyKept_def
  proof (intro conjI ballI impI)
    fix c assume c: "c \<in> chunks st" "isReady c"
    show "c \<in> chunks st' \<or> purgedIn st' (ch_artifact_id c) (ch_tenant_id c)"
    proof (cases "?p c")
      case True
      then show ?thesis using assms(2) db by (simp add: generationOf_def chunkAt_def purgedIn_def)
    next
      case False
      then show ?thesis unfolding rows using c(1) by (auto simp: image_iff)
    qed
  next
    fix c assume "c \<in> chunks st'" "isReady c"
    then show "c \<in> chunks st \<or> uploadingIn st (ch_artifact_id c) (ch_tenant_id c)"
      unfolding rows by (auto simp: isReady_def split: if_splits)
  qed
  then show ?thesis using db by (simp add: filesKept_def)
qed

lemma filesKept_finalize:
  assumes "batch (finalizeChunk isoText row) st = Inr (st', ns)"
  shows "filesKept st st'"
proof (rule filesKept_batch [OF assms])
  let ?open = "\<lambda>d. openForUpload (fs_database d) (ch_artifact_id row) (ch_tenant_id row) (isoText (ch_uploaded_at row))"
  let ?p = "\<lambda>d c. chunkAt row c \<and> ch_upload_status c = ''pending'' \<and> ?open d"
  fix s d d' n assume "s \<in> set (finalizeChunk isoText row)" and d': "s d = Inr (d', n)"
  then consider (ready) "updateChunks (?p d) (\<lambda>c. c\<lparr>ch_upload_status := ''ready''\<rparr>) d = Inr (d', n)"
    | (counted) "onDatabase (updateArtifacts (\<lambda>a. ownedBy (ch_artifact_id row) (ch_tenant_id row) a \<and>
           a_status a = ''uploading'' \<and> a_content_purged_at a = None)
         (\<lambda>a. a\<lparr>a_uploaded_chunks := int (readyCount d (ch_artifact_id row) (ch_tenant_id row)),
            a_updated_at := isoText (ch_uploaded_at row)\<rparr>)) d = Inr (d', n)"
    | (dequeued) "(if list_ex (\<lambda>c. chunkAt row c \<and> ch_upload_status c = ''ready'') (artifact_chunks d)
         then deleteDeletions (\<lambda>q. od_storage_key q = ch_storage_key row) d else Inr (d, 0)) = Inr (d', n)"
    unfolding finalizeChunk_def by auto
  then show "filesKept d d'"
  proof cases
    case ready
    then have db: "fs_database d' = fs_database d"
      and rows: "chunks d' = (\<lambda>c. if ?p d c then c\<lparr>ch_upload_status := ''ready''\<rparr> else c) ` chunks d"
      by (auto simp: updateChunks_def updateRows_def)
    have "readyKept d d'"
      unfolding readyKept_def
    proof (intro conjI ballI impI)
      fix c assume "c \<in> chunks d" "isReady c"
      then show "c \<in> chunks d' \<or> purgedIn d' (ch_artifact_id c) (ch_tenant_id c)"
        unfolding rows by (auto simp: isReady_def image_iff)
    next
      fix c' assume "c' \<in> chunks d'" "isReady c'"
      then obtain c where c: "c \<in> chunks d" "c' = (if ?p d c then c\<lparr>ch_upload_status := ''ready''\<rparr> else c)" unfolding rows by blast
      show "c' \<in> chunks d \<or> uploadingIn d (ch_artifact_id c') (ch_tenant_id c')"
      proof (cases "?p d c")
        case True
        then show ?thesis using c by (auto simp: openForUpload_def uploadingIn_def list_ex_iff chunkAt_def)
      next
        case False
        then have "c' = c" using c(2) by (simp only: if_False)
        then show ?thesis using c(1) by simp
      qed
    qed
    then show ?thesis using db by (simp add: filesKept_def)
  next
    case counted
    then show ?thesis
      by (rule filesKept_onDatabase) (erule artifactsKept_updateArtifacts, auto simp: artifactKept_def sameMeta_def)
  next
    case dequeued
    then show ?thesis using filesKept_deletions(2) by (auto split: if_splits)
  qed
qed

lemma filesKept_claimPurge:
  assumes "onDatabase (CLAIM_ARTIFACT_PURGE_SQL now a b) st = Inr (st', n)"
  shows "filesKept st st'" "n = 1 \<Longrightarrow> purgedIn st' a b"
proof -
  let ?p = "\<lambda>x. ownedBy a b x \<and> \<not> list_ex (\<lambda>t. t_artifact_id t = a_artifact_id x \<and> taskActive t) (artifact_tasks (fs_database st))"
    and ?f = "\<lambda>x. x\<lparr>a_content_purged_at := orElse (a_content_purged_at x) now, a_expires_at := now, a_updated_at := now\<rparr>"
  have f: "a_content_purged_at (?f x) \<noteq> None" for x by simp
  show "filesKept st st'"
    by (rule filesKept_onDatabase [OF assms], unfold CLAIM_ARTIFACT_PURGE_SQL_def)
      (erule artifactsKept_updateArtifacts, rule artifactKept_marked; simp)
  assume "n = 1"
  have "artifacts (fs_database st') = updateRows ?p ?f (artifacts (fs_database st))" "n = countRows ?p (artifacts (fs_database st))"
    using assms by (auto simp: onDatabase_def CLAIM_ARTIFACT_PURGE_SQL_def updateArtifacts_def)
  moreover from this \<open>n = 1\<close> obtain x where "x \<in> set (artifacts (fs_database st))" "?p x"
    using countRows_none [of ?p "artifacts (fs_database st)"] by fastforce
  ultimately have "?f x \<in> set (artifacts (fs_database st'))" "ownedBy a b (?f x)"
    by (auto simp: updateRows_def ownedBy_def image_iff intro!: bexI [of _ x])
  then show "purgedIn st' a b" unfolding purgedIn_def using f [of x] by blast
qed

lemma filesKept_tombstones:
  assumes "batch (tombstoneBatch now a b cs) st = Inr (st', ns)" "purgedIn st a b" "\<forall>g \<in> set cs. chunkOf a b g"
  shows "filesKept st st'"
  using assms
proof (induction cs arbitrary: st ns)
  case Nil
  then show ?case by (simp add: tombstoneBatch_def)
next
  case (Cons g cs)
  from Cons.prems(1) obtain s1 n1 s2 n2 ns' where
    s1: "enqueueArtifactObjectDeletion (ch_storage_key g) a b now now (now + 24 * 60 * 60000) st = Inr (s1, n1)"
    and s2: "TOMBSTONE_ARTIFACT_CHUNK_GENERATION_SQL g s1 = Inr (s2, n2)"
    and s3: "batch (tombstoneBatch now a b cs) s2 = Inr (st', ns')"
    by (auto simp: tombstoneBatch_def)
  have k1: "filesKept st s1" using s1 unfolding enqueueArtifactObjectDeletion_def by (rule filesKept_deletions(3))
  then have s1a: "purgedIn s1 a b" using Cons.prems(2) purgedIn_kept [of st s1 a b] by (simp add: filesKept_def)
  moreover have "chunkOf a b g" using Cons.prems(3) by simp
  ultimately have k2: "filesKept s1 s2" using filesKept_tombstone [OF s2] by (simp add: chunkOf_def)
  then have "purgedIn s2 a b" using s1a purgedIn_kept [of s1 s2 a b] by (simp add: filesKept_def)
  then have "filesKept s2 st'" using Cons.IH [OF s3] Cons.prems(3) by simp
  then show ?case using filesKept_trans k1 k2 by blast
qed

lemma filesKept_finishPurge:
  assumes "batch (finishPurgeBatch now a b cs) st = Inr (st', ns)" "\<forall>g \<in> set cs. deadKey st (ch_storage_key g)"
  shows "filesKept st st'"
  using assms
proof (induction cs arbitrary: st ns)
  case Nil
  then obtain n where "FINALIZE_ARTIFACT_PURGE_SQL now a b st = Inr (st', n)"
    by (auto simp: finishPurgeBatch_def)
  then show ?case unfolding FINALIZE_ARTIFACT_PURGE_SQL_def
    by (rule filesKept_onDatabase) (erule artifactsKept_updateArtifacts, rule artifactKept_marked; simp)
next
  case (Cons g cs)
  from Cons.prems(1) obtain s1 n1 ns' where s1: "deleteChunks (generationOf g) st = Inr (s1, n1)"
    and s2: "batch (finishPurgeBatch now a b cs) s1 = Inr (st', ns')"
    by (auto simp: finishPurgeBatch_def DELETE_ARTIFACT_CHUNK_GENERATION_SQL_def)
  have "filesKept st s1"
    using Cons.prems(2) by (intro filesKept_deleteChunks [OF s1]) (auto simp: deadKey_def generationOf_def chunkAt_def isReady_def)
  moreover have "\<forall>g \<in> set cs. deadKey s1 (ch_storage_key g)" using Cons.prems(2) s1 by (auto simp: deadKey_def deleteChunks_def)
  ultimately show ?case using Cons.IH [OF s2] filesKept_trans by blast
qed

text \<open>Statements of the control plane that leave the files alone, and move at most their times.\<close>

lemma keepsFiles_update:
  assumes "\<And>a. sameArtifact a (f a)" "artifacts db' = updateRows p f (artifacts db)"
  shows "keepsFiles db db'"
  using assms by (auto simp: keepsFiles_def updateRows_def list_all2_conv_all_nth sameArtifact_def)

lemma keepsFiles_same: "artifacts db' = artifacts db \<Longrightarrow> keepsFiles db db'"
  by (simp add: keepsFiles_def list_all2_refl sameArtifact_def)

lemma keepsFiles_times:
  "updateArtifacts p (\<lambda>a. a\<lparr>a_expires_at := u, a_updated_at := v\<rparr>) db = Inr (db', n) \<Longrightarrow> keepsFiles db db'"
  by (rule keepsFiles_update [where f = "\<lambda>a. a\<lparr>a_expires_at := u, a_updated_at := v\<rparr>" and p = p])
    (auto simp: updateArtifacts_def sameArtifact_def)

lemma keepsFiles_purge:
  "s \<in> set (cancelForPurgeBatch now i a b) \<Longrightarrow> s db = Inr (db', n) \<Longrightarrow> keepsFiles db db'"
  "s \<in> set (clearForPurgeBatch now i a b) \<Longrightarrow> s db = Inr (db', n) \<Longrightarrow> keepsFiles db db'"
  "s \<in> set (recordPurge now p mark t) \<Longrightarrow> s db = Inr (db', n) \<Longrightarrow> keepsFiles db db'"
  "guardedArtifactAuditInsert audit required db = Inr (db', n) \<Longrightarrow> keepsFiles db db'"
proof -
  note tasks = CANCEL_QUEUED_ARTIFACT_TASK_FOR_PURGE_SQL_def updateTasks_def markTaskPurged_def
  note audits = IDEMPOTENT_CONTENT_PURGE_AUDIT_SQL_def insertAuditOrIgnore_def guardedArtifactAuditInsert_def insertAudit_def
  have same: "updateTasks p f db = Inr (db', n) \<Longrightarrow> keepsFiles db db'" for p f
    by (rule keepsFiles_same) (auto simp: updateTasks_def)
  have expire: "expireArtifact now a b db = Inr (db', n) \<Longrightarrow> keepsFiles db db'" for now a b
    unfolding expireArtifact_def by (rule keepsFiles_times)
  show "s \<in> set (cancelForPurgeBatch now i a b) \<Longrightarrow> s db = Inr (db', n) \<Longrightarrow> keepsFiles db db'"
    by (auto simp: cancelForPurgeBatch_def CANCEL_QUEUED_ARTIFACT_TASK_FOR_PURGE_SQL_def intro: same expire split: if_splits)
  show "s \<in> set (clearForPurgeBatch now i a b) \<Longrightarrow> s db = Inr (db', n) \<Longrightarrow> keepsFiles db db'"
    by (auto simp: clearForPurgeBatch_def intro: same expire)
  show "s \<in> set (recordPurge now p mark t) \<Longrightarrow> s db = Inr (db', n) \<Longrightarrow> keepsFiles db db'"
    by (rule keepsFiles_same) (auto simp: recordPurge_def tasks audits split: if_splits option.splits)
  show "guardedArtifactAuditInsert audit required db = Inr (db', n) \<Longrightarrow> keepsFiles db db'"
    by (rule keepsFiles_same) (auto simp: audits split: if_splits)
qed

lemma filesKept_databaseBatch:
  assumes "batch (map onDatabase ss) st = Inr (st', ns)" "\<And>s db db' n. s \<in> set ss \<Longrightarrow> s db = Inr (db', n) \<Longrightarrow> keepsFiles db db'"
  shows "filesKept st st'"
proof (rule filesKept_batch [OF assms(1)])
  fix s d d' n assume "s \<in> set (map onDatabase ss)" and d: "s d = Inr (d', n)"
  then obtain s0 where "s0 \<in> set ss" "onDatabase s0 d = Inr (d', n)" by auto
  then show "filesKept d d'" by (intro filesKept_onDatabase) (auto intro: keepsFiles_kept assms(2))
qed

section \<open>Accesses other than a completion\<close>

lemma runStatements_filesKept:
  assumes "runStatements x ss st = (st', r)" "\<And>st' ns. batch ss st = Inr (st', ns) \<Longrightarrow> filesKept st st'"
  shows "filesKept st st'"
  by (rule runStatements_cases [OF assms(1)]) (auto intro: assms(2))

lemma runDelete_filesKept: "runDelete x keys st = (st', gone) \<Longrightarrow> filesKept st st'"
  by (erule runDelete_cases) (auto simp: deleteObjects_def intro: filesKept_rows)

lemma runPut_filesKept: "runPut x k content st = (st', stored) \<Longrightarrow> filesKept st st'"
  by (auto simp: runPut_def putObject_def intro!: filesKept_rows split: if_splits)

lemma filesKept_removeChunk:
  "removeChunk statuses row st = Inr (st', n) \<Longrightarrow> ''ready'' \<notin> set statuses \<Longrightarrow> filesKept st st'"
  unfolding removeChunk_def by (erule filesKept_deleteChunks) (auto simp: isReady_def)

lemma filesKept_claimChunk:
  "claimChunk row now st = Inr (st', n) \<Longrightarrow> ch_upload_status row = ''pending'' \<Longrightarrow> filesKept st st'"
  by (auto simp: claimChunk_def isReady_def intro: filesKept_insert split: if_splits)

lemma batch_one: "batch [s] st = Inr (st', ns) \<Longrightarrow> \<exists>n. s st = Inr (st', n) \<and> ns = [n]"
  by auto

lemma staleStep_filesKept:
  assumes "staleStep t x row stage st = (st', r)"
  shows "filesKept st st'"
proof (cases stage)
  case MarkStale
  then obtain q where "runStatements x [markDeleting [''pending''] t row] st = (st', q)"
    using assms by (auto simp: staleStep_def split: prod.splits option.splits)
  then show ?thesis by (rule runStatements_filesKept) (auto dest!: batch_one intro: filesKept_markDeleting)
next
  case DropStaleObject
  then show ?thesis using assms by (auto simp: staleStep_def intro: runDelete_filesKept split: prod.splits)
next
  case RemoveStale
  then obtain q where "runStatements x [removeChunk [''deleting''] row] st = (st', q)"
    using assms by (auto simp: staleStep_def split: prod.splits option.splits)
  then show ?thesis by (rule runStatements_filesKept) (auto dest!: batch_one intro: filesKept_removeChunk)
qed

lemma ownStep_filesKept:
  assumes "ownStep t x e row stage st = (st', r)"
  shows "filesKept st st'"
proof (cases stage)
  case DropOwnObject
  then show ?thesis using assms by (auto simp: ownStep_def intro: runDelete_filesKept split: prod.splits)
next
  case MarkOwn
  then obtain q where "runStatements x [insertChunkOrIgnore (row\<lparr>ch_upload_status := ''deleting'', ch_uploaded_at := t\<rparr>),
      markDeleting [''pending'', ''deleting''] t row] st = (st', q)"
    using assms by (auto simp: ownStep_def split: prod.splits option.splits)
  then show ?thesis
  proof (rule runStatements_filesKept)
    fix st1 ns assume b: "batch [insertChunkOrIgnore (row\<lparr>ch_upload_status := ''deleting'', ch_uploaded_at := t\<rparr>),
      markDeleting [''pending'', ''deleting''] t row] st = Inr (st1, ns)"
    show "filesKept st st1"
      by (rule filesKept_batch [OF b]) (auto simp: isReady_def intro: filesKept_insert filesKept_markDeleting)
  qed
next
  case RemoveOwn
  then obtain q where "runStatements x [removeChunk [''pending'', ''deleting''] row] st = (st', q)"
    using assms by (auto simp: ownStep_def split: prod.splits option.splits)
  then show ?thesis by (rule runStatements_filesKept) (auto dest!: batch_one intro: filesKept_removeChunk)
qed

text \<open>What a purge has established.\<close>

definition purgeWhole :: "fileStore \<Rightarrow> string \<Rightarrow> string \<Rightarrow> purgeStage \<Rightarrow> bool" where
  "purgeWhole st a b stage \<longleftrightarrow> stage \<noteq> ClaimPurge \<longrightarrow> purgedIn st a b \<and>
     (\<forall>cs. stage = TombstoneGenerations cs \<longrightarrow> (\<forall>g \<in> set cs. chunkOf a b g))"

lemma purgeStep_whole:
  assumes "purgeStep cfg start finishAt x a b stage st = (st', r)" "purgeWhole st a b stage" "purgeNeeds C st stage"
  shows "filesKept st st'" "r = Inl stage' \<Longrightarrow> purgeWhole st' a b stage'"
proof -
  have "filesKept st st' \<and> (r = Inl stage' \<longrightarrow> purgeWhole st' a b stage')"
  proof (cases stage)
    case ClaimPurge
    obtain q where q: "runStatements x [onDatabase (CLAIM_ARTIFACT_PURGE_SQL (fc_isoText cfg start) a b)] st = (st', q)"
      "r = Inl stage' \<longrightarrow> stage' = SelectGenerations \<and> (\<exists>ns. q = Some ns \<and> hd ns = 1)"
      using assms(1) ClaimPurge by (auto simp: purgeStep_def split: prod.splits option.splits if_splits)
    have "filesKept st st'" by (rule runStatements_filesKept [OF q(1)]) (auto dest!: batch_one intro: filesKept_claimPurge(1))
    moreover have "purgedIn st' a b" if "q = Some ns" "hd ns = 1" for ns
    proof -
      from q(1) that(1) have "batch [onDatabase (CLAIM_ARTIFACT_PURGE_SQL (fc_isoText cfg start) a b)] st = Inr (st', ns)"
        by (auto elim: runStatements_cases)
      from batch_one [OF this] that(2) show ?thesis using filesKept_claimPurge(2) by fastforce
    qed
    ultimately show ?thesis using q(2) by (auto simp: purgeWhole_def)
  next
    case SelectGenerations
    have sel: "\<forall>g \<in> set (SELECT_ARTIFACT_PURGE_GENERATIONS_SQL a b st). chunkOf a b g"
      using set_take_subset by (fastforce simp: SELECT_ARTIFACT_PURGE_GENERATIONS_SQL_def)
    then show ?thesis using assms(1,2) SelectGenerations by (auto simp: purgeStep_def purgeWhole_def split: if_splits list.splits)
  next
    case (TombstoneGenerations cs)
    then have p: "purgedIn st a b" "\<forall>g \<in> set cs. chunkOf a b g" using assms(2) by (auto simp: purgeWhole_def)
    obtain q where q: "runStatements x (tombstoneBatch start a b cs) st = (st', q)" "r = Inl stage' \<longrightarrow> stage' = DropGenerations cs"
      using assms(1) TombstoneGenerations by (auto simp: purgeStep_def split: prod.splits option.splits)
    have k: "filesKept st st'" by (rule runStatements_filesKept [OF q(1)]) (rule filesKept_tombstones [OF _ p])
    then show ?thesis using q(2) purgedIn_kept [OF _ p(1)] by (auto simp: purgeWhole_def filesKept_def)
  next
    case (DropGenerations cs)
    then have p: "purgedIn st a b" using assms(2) by (auto simp: purgeWhole_def)
    obtain q where q: "runDelete x (map ch_storage_key cs) st = (st', q)" "r = Inl stage' \<longrightarrow> stage' = FinishPurge cs"
      using assms(1) DropGenerations by (auto simp: purgeStep_def split: prod.splits if_splits)
    have k: "filesKept st st'" by (rule runDelete_filesKept [OF q(1)])
    then show ?thesis using q(2) purgedIn_kept [OF _ p] by (auto simp: purgeWhole_def filesKept_def)
  next
    case (FinishPurge cs)
    then have p: "\<forall>g \<in> set cs. deadKey st (ch_storage_key g)" using assms(3) by (auto simp: deadClaimed_def)
    obtain q where q: "runStatements x (finishPurgeBatch (fc_isoText cfg finishAt) a b cs) st = (st', q)" "r \<noteq> Inl stage'"
      using assms(1) FinishPurge by (auto simp: purgeStep_def split: prod.splits option.splits)
    have "filesKept st st'" by (rule runStatements_filesKept [OF q(1)]) (rule filesKept_finishPurge [OF _ p])
    then show ?thesis using q(2) by simp
  qed
  then show "filesKept st st'" "r = Inl stage' \<Longrightarrow> purgeWhole st' a b stage'" by blast+
qed

section \<open>The invariant\<close>

text \<open>
  The parts a completion declares are one for each part number, with the size it must have. A ready file
  has the digest of such a declaration, and its ready rows are those declared, one each.
\<close>

definition declaredParts :: "ArtifactRow \<Rightarrow> ArtifactChunkDescriptor list \<Rightarrow> bool" where
  "declaredParts a parts \<longleftrightarrow> map chunk_partNumber parts = [1..a_chunk_count a] \<and>
     (\<forall>p \<in> set parts. chunk_sizeBytes p = expectedPartSize a (chunk_partNumber p))"

definition readyRows :: "fileStore \<Rightarrow> ArtifactRow \<Rightarrow> ArtifactChunkRow set" where
  "readyRows st a = {c \<in> chunks st. chunkOf (a_artifact_id a) (a_tenant_id a) c \<and> isReady c}"

definition describes :: "ArtifactChunkDescriptor list \<Rightarrow> ArtifactChunkRow set \<Rightarrow> bool" where
  "describes parts rows \<longleftrightarrow> (\<forall>p \<in> set parts. \<exists>c \<in> rows. partStored p c) \<and> card rows = length parts"

definition wholeFile :: "FileConfig \<Rightarrow> fileStore \<Rightarrow> ArtifactRow \<Rightarrow> bool" where
  "wholeFile cfg st a \<longleftrightarrow> (\<exists>parts. declaredParts a parts \<and> a_manifest_sha256 a = Some (manifestSha256 cfg a parts) \<and>
     describes parts (readyRows st a))"

definition wholeStore :: "FileConfig \<Rightarrow> fileStore \<Rightarrow> bool" where
  "wholeStore cfg st \<longleftrightarrow> distinct (map a_artifact_id (artifacts (fs_database st))) \<and>
     (\<forall>a \<in> set (artifacts (fs_database st)). a_status a = ''ready'' \<longrightarrow> a_content_purged_at a = None \<longrightarrow> wholeFile cfg st a)"

text \<open>What a completion and a purge rely on.\<close>

definition metaOf :: "fileStore \<Rightarrow> ArtifactRow \<Rightarrow> bool" where
  "metaOf st a \<longleftrightarrow> (\<exists>b \<in> set (artifacts (fs_database st)). a_artifact_id b = a_artifact_id a \<and>
     (a_content_purged_at b = None \<longrightarrow> sameMeta a b))"

definition partsPresent :: "fileStore \<Rightarrow> ArtifactRow \<Rightarrow> ArtifactChunkDescriptor list \<Rightarrow> bool" where
  "partsPresent st a parts \<longleftrightarrow> purgedIn st (a_artifact_id a) (a_tenant_id a) \<or>
     (\<forall>p \<in> set parts. \<exists>c \<in> readyRows st a. partStored p c)"

fun wholeNeeds :: "FileConfig \<Rightarrow> fileStore \<Rightarrow> fileHandler \<Rightarrow> bool" where
  "wholeNeeds cfg st (ClaimChunk a row content) = (ch_upload_status row = ''pending'')"
| "wholeNeeds cfg st (ReadStored a parts) = (declaredParts a parts \<and> metaOf st a)"
| "wholeNeeds cfg st (CommitUpload a sha audit) = (\<exists>parts. declaredParts a parts \<and> metaOf st a \<and>
     sha = manifestSha256 cfg a parts \<and> partsPresent st a parts)"
| "wholeNeeds cfg st (CleanExpired a b stage) = purgeWhole st a b stage"
| "wholeNeeds cfg st (PurgeFile p stage) = purgeWhole st (po_artifact p) (po_tenant p) stage"
| "wholeNeeds cfg st h = True"

text \<open>A file whose rows and data have not changed stays whole.\<close>

lemma sameMeta_uses:
  assumes "sameMeta a b"
  shows "declaredParts b parts = declaredParts a parts" "manifestSha256 cfg b parts = manifestSha256 cfg a parts"
    "readyRows st b = readyRows st a"
  using assms by (simp_all add: sameMeta_def declaredParts_def expectedPartSize_def manifestSha256_def readyRows_def)

lemma same_id:
  assumes "distinct (map a_artifact_id (artifacts db))" "a \<in> set (artifacts db)" "b \<in> set (artifacts db)"
    and "a_artifact_id a = a_artifact_id b"
  shows "a = b"
  using assms by (auto simp: distinct_map dest: inj_onD)

lemma purgedIn_row:
  assumes "distinct (map a_artifact_id (artifacts (fs_database st)))" "a \<in> set (artifacts (fs_database st))"
    and "purgedIn st (a_artifact_id a) (a_tenant_id a)"
  shows "a_content_purged_at a \<noteq> None"
  using assms same_id [of "fs_database st" a] by (fastforce simp: purgedIn_def ownedBy_def)

lemma filesKept_whole:
  assumes k: "filesKept st st'" and w: "wholeStore cfg st"
  shows "wholeStore cfg st'"
  unfolding wholeStore_def
proof (intro conjI ballI impI)
  have ak: "artifactsKept (fs_database st) (fs_database st')" and rk: "readyKept st st'" using k by (simp_all add: filesKept_def)
  show dist: "distinct (map a_artifact_id (artifacts (fs_database st')))"
    using w artifactsKept_ids [OF ak] by (simp add: wholeStore_def)
  fix b assume b: "b \<in> set (artifacts (fs_database st'))" "a_status b = ''ready''" "a_content_purged_at b = None"
  from artifactsKeptD(1) [OF ak b(1)] obtain a where a: "a \<in> set (artifacts (fs_database st))" "artifactKept a b" by blast
  from a(2) b(3) have same: "a_content_purged_at a = None" "sameMeta a b" "a_status a = ''ready''"
    "a_manifest_sha256 b = a_manifest_sha256 a"
    using b(2) by (simp_all add: artifactKept_def)
  have ids: "a_artifact_id b = a_artifact_id a" "a_tenant_id b = a_tenant_id a" using same(2) by (simp_all add: sameMeta_def)
  have unpurged: "\<not> purgedIn st' (a_artifact_id a) (a_tenant_id a)" using purgedIn_row [OF dist b(1)] b(3) ids by auto
  have closed: "\<not> uploadingIn st (a_artifact_id a) (a_tenant_id a)"
    using same_id [of "fs_database st" a] w a(1) same(3) by (fastforce simp: wholeStore_def uploadingIn_def ownedBy_def)
  have "readyRows st' a = readyRows st a"
    using rk unpurged closed by (auto simp: readyKept_def readyRows_def chunkOf_def)
  moreover have "wholeFile cfg st a" using w a(1) same(1,3) by (simp add: wholeStore_def)
  ultimately show "wholeFile cfg st' b" using same(4) sameMeta_uses [OF same(2)] by (simp add: wholeFile_def)
qed

text \<open>What a handler relies on also survives completions and new files.\<close>

definition artifactGrown :: "ArtifactRow \<Rightarrow> ArtifactRow \<Rightarrow> bool" where
  "artifactGrown a b \<longleftrightarrow> a_artifact_id b = a_artifact_id a \<and> a_tenant_id b = a_tenant_id a \<and>
     (a_content_purged_at b = None \<longrightarrow> a_content_purged_at a = None \<and> sameMeta a b)"

definition filesGrown :: "fileStore \<Rightarrow> fileStore \<Rightarrow> bool" where
  "filesGrown st st' \<longleftrightarrow>
     (\<forall>a \<in> set (artifacts (fs_database st)). \<exists>b \<in> set (artifacts (fs_database st')). artifactGrown a b) \<and>
     (\<forall>c \<in> chunks st. isReady c \<longrightarrow> c \<in> chunks st' \<or> purgedIn st' (ch_artifact_id c) (ch_tenant_id c))"

lemma artifactGrown_trans: "artifactGrown a b \<Longrightarrow> artifactGrown b c \<Longrightarrow> artifactGrown a c"
  by (auto simp: artifactGrown_def sameMeta_def)

lemma artifactKept_grown: "artifactKept a b \<Longrightarrow> artifactGrown a b"
  by (simp add: artifactKept_def artifactGrown_def)

lemma filesKept_grown: "filesKept st st' \<Longrightarrow> filesGrown st st'"
  unfolding filesGrown_def filesKept_def readyKept_def using artifactsKeptD(2) artifactKept_grown by blast

lemma purgedIn_artifacts:
  assumes "\<forall>a \<in> set (artifacts (fs_database st)). \<exists>b \<in> set (artifacts (fs_database st')). artifactGrown a b" "purgedIn st i j"
  shows "purgedIn st' i j"
proof -
  from assms(2) obtain a where a: "a \<in> set (artifacts (fs_database st))" "ownedBy i j a" "a_content_purged_at a \<noteq> None"
    unfolding purgedIn_def by blast
  then obtain b where "b \<in> set (artifacts (fs_database st'))" "artifactGrown a b" using assms(1) by blast
  with a show ?thesis unfolding purgedIn_def by (intro bexI [of _ b]) (auto simp: artifactGrown_def ownedBy_def)
qed

lemma filesGrownD:
  assumes "filesGrown st st'"
  shows "a \<in> set (artifacts (fs_database st)) \<Longrightarrow> \<exists>b \<in> set (artifacts (fs_database st')). artifactGrown a b"
    "c \<in> chunks st \<Longrightarrow> isReady c \<Longrightarrow> c \<in> chunks st' \<or> purgedIn st' (ch_artifact_id c) (ch_tenant_id c)"
    "purgedIn st i j \<Longrightarrow> purgedIn st' i j"
  using assms purgedIn_artifacts [of st st' i j] unfolding filesGrown_def by simp_all

lemma filesGrown_trans:
  assumes "filesGrown a b" "filesGrown b c"
  shows "filesGrown a c"
  unfolding filesGrown_def
proof (intro conjI ballI impI)
  fix x assume "x \<in> set (artifacts (fs_database a))"
  from filesGrownD(1) [OF assms(1) this] obtain y where y: "y \<in> set (artifacts (fs_database b))" "artifactGrown x y" by blast
  from filesGrownD(1) [OF assms(2) y(1)] y(2) show "\<exists>z \<in> set (artifacts (fs_database c)). artifactGrown x z"
    using artifactGrown_trans by blast
next
  fix r assume "r \<in> chunks a" "isReady r"
  then show "r \<in> chunks c \<or> purgedIn c (ch_artifact_id r) (ch_tenant_id r)"
    using filesGrownD(2) [OF assms(1)] filesGrownD(2,3) [OF assms(2)] by blast
qed

lemmas purgedIn_grown = filesGrownD(3)

lemma metaOf_grown:
  assumes "filesGrown st st'" "metaOf st a"
  shows "metaOf st' a"
proof -
  from assms(2) obtain b where b: "b \<in> set (artifacts (fs_database st))" "a_artifact_id b = a_artifact_id a"
    "a_content_purged_at b = None \<longrightarrow> sameMeta a b" by (auto simp: metaOf_def)
  from filesGrownD(1) [OF assms(1) b(1)] obtain c where c: "c \<in> set (artifacts (fs_database st'))" "artifactGrown b c" by blast
  have "a_content_purged_at c = None \<longrightarrow> sameMeta a c" using b(3) c(2) sameMeta_trans [of a b c] by (simp add: artifactGrown_def)
  then show ?thesis unfolding metaOf_def using b(2) c by (intro bexI [of _ c]) (simp_all add: artifactGrown_def)
qed

lemma partsPresent_grown:
  assumes "filesGrown st st'" "partsPresent st a parts"
  shows "partsPresent st' a parts"
proof (cases "purgedIn st' (a_artifact_id a) (a_tenant_id a)")
  case False
  then have "readyRows st a \<subseteq> readyRows st' a" using assms(1) by (auto simp: filesGrown_def readyRows_def chunkOf_def)
  moreover have "\<forall>p \<in> set parts. \<exists>c \<in> readyRows st a. partStored p c"
    using False purgedIn_grown [OF assms(1)] assms(2) by (auto simp: partsPresent_def)
  ultimately show ?thesis unfolding partsPresent_def by blast
qed (simp add: partsPresent_def)

lemma wholeNeeds_grown:
  assumes "filesGrown st st'" "wholeNeeds cfg st h"
  shows "wholeNeeds cfg st' h"
  using assms(2) purgedIn_grown [OF assms(1)] metaOf_grown [OF assms(1)] partsPresent_grown [OF assms(1)]
  by (cases h) (auto simp: purgeWhole_def)

section \<open>Completion\<close>

text \<open>Distinct part numbers within the range, one for each part, are in order the numbers of the parts.\<close>

lemma sorted_range:
  fixes xs :: "int list"
  assumes "sorted xs" "distinct xs" "set xs \<subseteq> {1..n}" "int (length xs) = n"
  shows "xs = [1..n]"
proof -
  have "card (set xs) = nat n" using assms(2,4) by (simp add: distinct_card)
  then have "set xs = {1..n}" using assms(3) by (intro card_subset_eq) auto
  then show ?thesis using assms(1,2) by (intro sorted_distinct_set_unique) simp_all
qed

lemma validateParts:
  "foldE (validatePart a) seen parts = Inr r \<Longrightarrow> distinct seen \<Longrightarrow>
   distinct (map chunk_partNumber parts) \<and> set (map chunk_partNumber parts) \<subseteq> {1..a_chunk_count a} \<and>
   set (map chunk_partNumber parts) \<inter> set seen = {} \<and>
   (\<forall>p \<in> set parts. chunk_sizeBytes p = expectedPartSize a (chunk_partNumber p))"
proof (induction parts arbitrary: seen)
  case (Cons p ps)
  from Cons.prems(1) obtain s1 where v0: "validatePart a seen p = Inr s1" and f0: "foldE (validatePart a) s1 ps = Inr r"
    by (cases "validatePart a seen p") auto
  from v0 have v: "chunk_partNumber p \<in> {1..a_chunk_count a}" "chunk_partNumber p \<notin> set seen"
    "chunk_sizeBytes p = expectedPartSize a (chunk_partNumber p)"
    and s1: "s1 = chunk_partNumber p # seen"
    by (auto simp: validatePart_def split: if_splits)
  note f = f0 [unfolded s1]
  have "distinct (chunk_partNumber p # seen)" using v Cons.prems(2) by simp
  from Cons.IH [OF f this] show ?case using v by auto
qed simp

lemma validatePartManifest_declared:
  assumes "validatePartManifest a parts = Inr declared"
  shows "declaredParts a declared"
proof -
  from assms obtain r where len: "int (length parts) = a_chunk_count a" and v: "foldE (validatePart a) [] parts = Inr r"
    and d: "declared = sort_key chunk_partNumber parts"
    by (auto simp: validatePartManifest_def split: if_splits)
  note p = validateParts [OF v distinct.simps(1) [THEN iffD2, OF TrueI]]
  have "map chunk_partNumber declared = [1..a_chunk_count a]"
  proof (rule sorted_range)
    show "sorted (map chunk_partNumber declared)" by (simp add: d)
    show "distinct (map chunk_partNumber declared)" using p by (simp add: d distinct_map)
    show "set (map chunk_partNumber declared) \<subseteq> {1..a_chunk_count a}" using p by (simp add: d)
  qed (simp add: d len)
  then show ?thesis using p by (simp add: declaredParts_def d)
qed

lemma list_all2_present:
  "list_all2 P xs ys \<Longrightarrow> x \<in> set xs \<Longrightarrow> \<exists>y \<in> set ys. P x y"
  by (auto simp: list_all2_conv_all_nth set_conv_nth)

lemma readStored_present:
  assumes "readStoredStep cfg t g a declared st = Inl h" "declaredParts a declared" "metaOf st a"
  shows "wholeNeeds cfg st h"
proof -
  have rows: "set (SELECT_READY_CHUNKS (a_artifact_id a) (a_tenant_id a) st) = readyRows st a"
    by (auto simp: SELECT_READY_CHUNKS_def readyRows_def isReady_def)
  from assms(1) obtain audit where "list_all2 partStored declared (SELECT_READY_CHUNKS (a_artifact_id a) (a_tenant_id a) st)"
    "h = CommitUpload a (manifestSha256 cfg a declared) audit"
    by (auto simp: readStoredStep_def Let_def split: prod.splits if_splits)
  then show ?thesis using assms(2,3) list_all2_present rows by (fastforce simp: partsPresent_def)
qed

text \<open>The commitment counts as many ready rows as there are parts, so that the rows present are all of them.\<close>

lemma readyCount_rows: "distinct (artifact_chunks st) \<Longrightarrow> readyCount st (a_artifact_id a) (a_tenant_id a) = card (readyRows st a)"
  by (simp add: readyCount_def readyRows_def isReady_def countRows_def distinct_length_filter Int_def conj_commute)

lemma commit_grown:
  assumes "batch (commitUpload a sha audit) st = Inr (st', ns)"
  shows "filesGrown st st'"
proof -
  from assms obtain s1 n1 n2 where s1: "completeArtifact (a_artifact_id a) (a_tenant_id a) sha (ad_occurred_at audit) st = Inr (s1, n1)"
    and s2: "onDatabase (guardedArtifactAuditInsert audit (Some ''ready'')) s1 = Inr (st', n2)"
    by (auto simp: commitUpload_def)
  from s1 obtain p where art: "artifacts (fs_database s1) = updateRows p (\<lambda>x. x\<lparr>a_status := ''ready'', a_uploaded_chunks := a_chunk_count x,
          a_manifest_sha256 := Some sha, a_updated_at := ad_occurred_at audit\<rparr>) (artifacts (fs_database st))"
    and ch: "artifact_chunks s1 = artifact_chunks st"
    by (auto simp: completeArtifact_def onDatabase_def updateArtifacts_def)
  have row: "artifactGrown x (if p x then f x else x)" if "f = (\<lambda>x. x\<lparr>a_status := ''ready'', a_uploaded_chunks := a_chunk_count x,
      a_manifest_sha256 := Some sha, a_updated_at := ad_occurred_at audit\<rparr>)" for x f
    by (simp add: that artifactGrown_def sameMeta_def)
  have "filesGrown st s1"
    unfolding filesGrown_def ch art updateRows_def set_map using row [OF refl] by blast
  moreover have "filesKept s1 st'"
    by (rule filesKept_onDatabase [OF s2]) (rule keepsFiles_kept [OF keepsFiles_purge(4)])
  ultimately show ?thesis using filesGrown_trans filesKept_grown by blast
qed

lemma completion_whole:
  assumes b: "batch (commitUpload a sha audit) st = Inr (st', ns)" and w: "wholeStore cfg st"
    and parts: "declaredParts a parts" "metaOf st a" "sha = manifestSha256 cfg a parts" "partsPresent st a parts"
    and dist: "distinct (map ch_storage_key (artifact_chunks st))"
  shows "wholeStore cfg st'"
proof -
  let ?p = "\<lambda>x. ownedBy (a_artifact_id a) (a_tenant_id a) x \<and> a_status x = ''uploading'' \<and>
         a_content_purged_at x = None \<and> ad_occurred_at audit < a_expires_at x \<and>
         a_chunk_count x = int (readyCount st (a_artifact_id a) (a_tenant_id a)) \<and>
         \<not> list_ex (\<lambda>c. chunkOf (a_artifact_id a) (a_tenant_id a) c \<and> ch_upload_status c = ''pending'') (artifact_chunks st)"
    and ?f = "\<lambda>x. x\<lparr>a_status := ''ready'', a_uploaded_chunks := a_chunk_count x,
          a_manifest_sha256 := Some sha, a_updated_at := ad_occurred_at audit\<rparr>"
  from b obtain s1 n1 n2 where s1: "completeArtifact (a_artifact_id a) (a_tenant_id a) sha (ad_occurred_at audit) st = Inr (s1, n1)"
    and s2: "onDatabase (guardedArtifactAuditInsert audit (Some ''ready'')) s1 = Inr (st', n2)"
    by (auto simp: commitUpload_def)
  from s1 have art: "artifacts (fs_database s1) = updateRows ?p ?f (artifacts (fs_database st))"
    and ch: "artifact_chunks s1 = artifact_chunks st"
    by (auto simp: completeArtifact_def onDatabase_def updateArtifacts_def)
  have k2: "filesKept s1 st'"
    by (rule filesKept_onDatabase [OF s2]) (rule keepsFiles_kept [OF keepsFiles_purge(4)])
  have ids: "distinct (map a_artifact_id (artifacts (fs_database st)))" using w by (simp add: wholeStore_def)
  have rows: "readyRows s1 x = readyRows st x" for x by (simp add: readyRows_def ch)
  have "wholeStore cfg s1"
    unfolding wholeStore_def
  proof (intro conjI ballI impI)
    have "map a_artifact_id (artifacts (fs_database s1)) = map a_artifact_id (artifacts (fs_database st))"
      by (simp add: art updateRows_def)
    then show "distinct (map a_artifact_id (artifacts (fs_database s1)))" using ids by simp
    fix y assume y: "y \<in> set (artifacts (fs_database s1))" "a_status y = ''ready''" "a_content_purged_at y = None"
    from y(1) have "y \<in> (\<lambda>x. if ?p x then ?f x else x) ` set (artifacts (fs_database st))"
      by (simp only: art updateRows_def set_map)
    then obtain x where x: "x \<in> set (artifacts (fs_database st))" "y = (if ?p x then ?f x else x)" by blast
    show "wholeFile cfg s1 y"
    proof (cases "?p x")
      case False
      have "y = x" by (rule trans [OF x(2) if_not_P [OF False]])
      then show ?thesis using w x(1) y(2,3) rows by (simp add: wholeStore_def wholeFile_def)
    next
      case True
      have y': "y = ?f x" by (rule trans [OF x(2) if_P [OF True]])
      have own: "a_artifact_id x = a_artifact_id a" "a_tenant_id x = a_tenant_id a" "a_content_purged_at x = None"
        using True by (simp_all add: ownedBy_def)
      have "sameMeta a x" using parts(2) own(1,3) same_id [OF ids x(1)] by (auto simp: metaOf_def)
      then have "sameMeta a y" by (simp add: y' sameMeta_def)
      note same = sameMeta_uses [OF this]
      have present: "\<forall>p \<in> set parts. \<exists>c \<in> readyRows st a. partStored p c"
        using parts(4) purgedIn_row [OF ids x(1)] own by (auto simp: partsPresent_def)
      have "a_chunk_count x = a_chunk_count a" using \<open>sameMeta a x\<close> by (simp add: sameMeta_def)
      then have "a_chunk_count a = int (card (readyRows st a))"
        using True readyCount_rows [OF distinct_map [THEN iffD1, OF dist, THEN conjunct1], of a] by simp
      moreover have "length parts = length (map chunk_partNumber parts)" by simp
      then have "length parts = nat (a_chunk_count a)" using parts(1) by (simp only: declaredParts_def length_upto)
      ultimately have "describes parts (readyRows st a)" using present by (simp add: describes_def)
      then show ?thesis unfolding wholeFile_def using parts(1,3) same rows y' by auto
    qed
  qed
  then show "wholeStore cfg st'" by (rule filesKept_whole [OF k2])
qed

section \<open>Every access\<close>

lemma batchOne_filesKept:
  assumes "runStatements x [s] st = (st', r)" "\<And>n. s st = Inr (st', n) \<Longrightarrow> filesKept st st'"
  shows "filesKept st st'"
  by (rule runStatements_cases [OF assms(1)]) (auto dest!: batch_one intro: assms(2))

lemma updates_filesKept:
  "batch (deletionDoneBatch now keys) st = Inr (st', ns) \<Longrightarrow> filesKept st st'"
  "batch (deletionRetryBatch now keys) st = Inr (st', ns) \<Longrightarrow> filesKept st st'"
  by (erule filesKept_batch, auto simp: deletionDoneBatch_def deletionRetryBatch_def intro: filesKept_deletions)+

lemma nextStale_whole: "wholeNeeds cfg st (nextStale rest)"
  by (induction rest rule: nextStale.induct) (auto split: option.split)

lemma readUpload_whole:
  assumes "readUploadStep cfg t i b parts st = Inl h"
  shows "wholeNeeds cfg st h"
proof -
  from assms obtain a declared where a: "ownedArtifact st i b = Some a" and d: "validatePartManifest a parts = Inr declared"
    and h: "h = ReadStored a declared"
    by (auto simp: readUploadStep_def split: if_splits option.splits sum.splits)
  have "a \<in> set (artifacts (fs_database st))" using a by (auto simp: ownedArtifact_def dest: find_Some_mem)
  then have "metaOf st a" by (auto simp: metaOf_def sameMeta_def)
  then show ?thesis using h validatePartManifest_declared [OF d] by simp
qed

lemma claimUpload_whole: "claimUpload cfg t u a m = Inl h \<Longrightarrow> wholeNeeds cfg st h"
  by (auto simp: claimUpload_def encryptUpload_def Let_def split: sum.splits prod.splits if_splits)

text \<open>\<open>advances\<close>: the access keeps whole files whole and gives the next stop what it relies on.\<close>

definition advances :: "FileConfig \<Rightarrow> fileStore \<Rightarrow> fileStep \<Rightarrow> bool" where
  "advances cfg st q \<longleftrightarrow> filesGrown st (fst q) \<and> (wholeStore cfg st \<longrightarrow> wholeStore cfg (fst q)) \<and>
     (\<forall>h. snd q = Inl h \<longrightarrow> wholeNeeds cfg (fst q) h)"

lemma advances_kept:
  "filesKept st st' \<Longrightarrow> (\<And>h. r = Inl h \<Longrightarrow> wholeNeeds cfg st' h) \<Longrightarrow> advances cfg st (st', r)"
  by (simp add: advances_def filesKept_grown filesKept_whole)

lemma advances_same: "(\<And>h. r = Inl h \<Longrightarrow> wholeNeeds cfg st h) \<Longrightarrow> advances cfg st (st, r)"
  by (rule advances_kept) simp

lemma advance_whole:
  assumes "wholeNeeds cfg st h" "needs cfg H t C st start h" "distinct (map ch_storage_key (artifact_chunks st))"
  shows "advances cfg st (advanceFile cfg g start t x h st)"
proof (cases h)
  case (ReadArtifact r)
  then show ?thesis
    by (auto simp: readArtifactStep_def intro!: advances_same split: if_splits sum.splits option.splits)
next
  case (ReadChunk r a m)
  then show ?thesis
    by (auto simp: readChunkStep_def intro!: advances_same dest: claimUpload_whole split: if_splits option.splits)
next
  case (ReplaceStale r a m existing stage)
  obtain s1 q where q: "staleStep t x existing stage st = (s1, q)" by fastforce
  note k = staleStep_filesKept [OF q]
  show ?thesis
  proof (cases q)
    case (Inl stage')
    then show ?thesis using k ReplaceStale by (auto simp: q intro!: advances_kept)
  next
    case (Inr gone)
    then show ?thesis using k ReplaceStale
      by (cases gone) (auto simp: q intro!: advances_kept dest: claimUpload_whole)
  qed
next
  case (ClaimChunk a row content)
  let ?s = "claimChunk row (fc_isoText cfg (ch_uploaded_at row))"
  obtain s1 q where q: "runStatements x [?s] st = (s1, q)" by fastforce
  have p: "ch_upload_status row = ''pending''" using assms(1) ClaimChunk by simp
  have "filesKept st s1" by (rule batchOne_filesKept [OF q]) (rule filesKept_claimChunk [OF _ p])
  then show ?thesis unfolding ClaimChunk by (auto simp: q intro!: advances_kept split: option.splits if_splits)
next
  case (EnqueueChunk row content)
  let ?s = "enqueueArtifactObjectDeletion (ch_storage_key row) (ch_artifact_id row) (ch_tenant_id row)
          (ch_uploaded_at row) (ch_uploaded_at row + 10 * 60000) (ch_uploaded_at row + 24 * 60 * 60000)"
  obtain s1 q where q: "runStatements x [?s] st = (s1, q)" by fastforce
  have "filesKept st s1"
    by (rule batchOne_filesKept [OF q]) (auto simp: enqueueArtifactObjectDeletion_def intro: filesKept_deletions)
  then show ?thesis unfolding EnqueueChunk by (auto simp: q [simplified] intro!: advances_kept split: option.splits)
next
  case (PutChunk row content)
  obtain s1 q where q: "runPut x (ch_storage_key row) content st = (s1, q)" by fastforce
  then show ?thesis unfolding PutChunk using runPut_filesKept [OF q] by (auto simp: q intro!: advances_kept)
next
  case (AbortChunk row)
  obtain s1 q where q: "runStatements x [abortChunk row] st = (s1, q)" by fastforce
  have "filesKept st s1"
    by (rule batchOne_filesKept [OF q]) (auto simp: abortChunk_def isReady_def elim: filesKept_deleteChunks)
  then show ?thesis unfolding AbortChunk by (auto simp: q intro!: advances_kept split: option.splits)
next
  case (FinalizeChunk row)
  obtain s1 q where q: "runStatements x (finalizeChunk (fc_isoText cfg) row) st = (s1, q)" by fastforce
  have "filesKept st s1" by (rule runStatements_filesKept [OF q]) (rule filesKept_finalize)
  then show ?thesis unfolding FinalizeChunk by (auto simp: q intro!: advances_kept split: option.splits)
next
  case (UndoChunk e row stage)
  obtain s1 q where q: "ownStep t x e row stage st = (s1, q)" by fastforce
  have "wholeNeeds cfg s1 h'" if "q = Inl h'" for h'
    using q that by (auto simp: ownStep_def split: ownStage.splits prod.splits option.splits)
  then show ?thesis unfolding UndoChunk using ownStep_filesKept [OF q] by (simp add: q advances_kept)
next
  case (ReadUpload i b parts)
  then show ?thesis by (auto intro!: advances_same dest: readUpload_whole)
next
  case (ReadStored a declared)
  then show ?thesis using assms(1) by (auto intro!: advances_same dest: readStored_present)
next
  case (CommitUpload a sha audit)
  obtain parts where parts: "declaredParts a parts" "metaOf st a" "sha = manifestSha256 cfg a parts" "partsPresent st a parts"
    using assms(1) CommitUpload by auto
  obtain s1 q where q: "runStatements x (commitUpload a sha audit) st = (s1, q)" by fastforce
  have "filesGrown st s1 \<and> (wholeStore cfg st \<longrightarrow> wholeStore cfg s1)"
  proof (rule runStatements_cases [OF q])
    show ?thesis if "batch (commitUpload a sha audit) st = Inr (s1, ns)" for ns
      using completion_whole [OF that _ parts assms(3)] commit_grown [OF that] by blast
    then show ?thesis if "batch (commitUpload a sha audit) st = Inr (s1, ns)" for ns using that .
  qed (simp add: filesKept_grown)
  then show ?thesis unfolding CommitUpload by (auto simp: q advances_def split: option.splits)
next
  case (DropDue keys)
  obtain s1 q where q: "runDelete x keys st = (s1, q)" by fastforce
  then show ?thesis unfolding DropDue using runDelete_filesKept [OF q] by (auto simp: q intro!: advances_kept)
next
  case (DueDropped keys)
  obtain s1 q where q: "runStatements x (deletionDoneBatch start keys) st = (s1, q)" by fastforce
  have "filesKept st s1" by (rule runStatements_filesKept [OF q]) (rule updates_filesKept)
  then show ?thesis unfolding DueDropped by (auto simp: q intro!: advances_kept split: option.splits)
next
  case (DueFailed keys)
  obtain s1 q where q: "runStatements x (deletionRetryBatch start keys) st = (s1, q)" by fastforce
  have "filesKept st s1" by (rule runStatements_filesKept [OF q]) (rule updates_filesKept)
  then show ?thesis unfolding DueFailed by (auto simp: q intro!: advances_kept split: option.splits)
next
  case SelectDue
  then show ?thesis by (auto intro!: advances_same split: list.splits)
next
  case SelectStale
  then show ?thesis by (auto intro!: advances_same nextStale_whole)
next
  case (CleanStale row rest stage)
  obtain s1 q where q: "staleStep t x row stage st = (s1, q)" by fastforce
  then show ?thesis unfolding CleanStale using staleStep_filesKept [OF q] nextStale_whole
    by (auto simp: q intro!: advances_kept split: sum.splits option.splits)
next
  case SelectExpired
  then show ?thesis by (auto simp: purgeWhole_def intro!: advances_same split: option.splits)
next
  case (CleanExpired a b stage)
  obtain s1 q where q: "purgeStep cfg start start x a b stage st = (s1, q)" by fastforce
  have "purgeWhole st a b stage" "purgeNeeds C st stage" using assms CleanExpired by simp_all
  note k = purgeStep_whole [OF q this]
  show ?thesis unfolding CleanExpired using k by (auto simp: q intro!: advances_kept split: sum.splits)
next
  case (PurgeFile p stage)
  obtain s1 q where q: "purgeStep cfg start t x (po_artifact p) (po_tenant p) stage st = (s1, q)" by fastforce
  have "purgeWhole st (po_artifact p) (po_tenant p) stage" "purgeNeeds C st stage" using assms PurgeFile by simp_all
  note k = purgeStep_whole [OF q this]
  show ?thesis unfolding PurgeFile using k
    by (auto simp: q intro!: advances_kept split: sum.splits purgeResult.splits)
next
  case (ReadPurgeTarget p)
  then show ?thesis by (auto simp: readPurgeTargetStep_def intro!: advances_same split: option.splits if_splits)
next
  case (ReadPurgeTask p i)
  then show ?thesis
    by (auto simp: readPurgeTaskStep_def Let_def intro!: advances_same split: option.splits prod.splits if_splits)
next
  case (ClearTask p i status)
  let ?b = "(if status = ''queued'' then cancelForPurgeBatch else clearForPurgeBatch)
          (fc_isoText cfg t) i (po_artifact p) (po_tenant p)"
  obtain s1 q where q: "runStatements x (map onDatabase ?b) st = (s1, q)" by fastforce
  have "filesKept st s1"
    by (rule runStatements_filesKept [OF q], erule filesKept_databaseBatch) (auto intro: keepsFiles_purge split: if_splits)
  then show ?thesis unfolding ClearTask
    by (auto simp: q purgeWhole_def intro!: advances_kept split: option.splits if_splits)
next
  case (RecordPurge p mark u)
  obtain s1 q where q: "runStatements x (map onDatabase (recordPurge (fc_isoText cfg t) p mark u)) st = (s1, q)" by fastforce
  have "filesKept st s1"
    by (rule runStatements_filesKept [OF q], erule filesKept_databaseBatch) (auto intro: keepsFiles_purge)
  then show ?thesis unfolding RecordPurge by (auto simp: q intro!: advances_kept split: option.splits)
next
  case (CountActive p)
  then show ?thesis by (auto simp: purgeWhole_def intro!: advances_same split: if_splits)
qed (auto intro!: advances_same split: if_splits option.splits)

section \<open>The system\<close>

definition wholeSystem :: "FileConfig \<Rightarrow> fileSystem \<Rightarrow> bool" where
  "wholeSystem cfg s \<longleftrightarrow> wholeStore cfg (files s) \<and> (\<forall>y \<in> set (running s). wholeNeeds cfg (files s) (snd y))"

lemma insertArtifact_artifacts:
  "insertArtifact a now quota db = Inr (db', n) \<Longrightarrow> artifacts db' = artifacts db \<or>
   artifacts db' = artifacts db @ [a] \<and> a_artifact_id a \<notin> a_artifact_id ` set (artifacts db)"
  by (auto simp: insertArtifact_def list_ex_iff split: option.splits if_splits)

lemma createBatch_artifacts:
  assumes "batch (createUploadBatch policy a audit) db = Inr (db', ns)"
  shows "artifacts db' = artifacts db \<or> artifacts db' = artifacts db @ [a] \<and> a_artifact_id a \<notin> a_artifact_id ` set (artifacts db)"
proof -
  from assms obtain d n m where "insertArtifact a (a_created_at a) (mp_maximumTenantArtifactBytes policy) db = Inr (d, n)"
    "guardedArtifactAuditInsert audit None d = Inr (db', m)"
    by (auto simp: createUploadBatch_def)
  then show ?thesis using insertArtifact_artifacts [of a]
    by (fastforce simp: guardedArtifactAuditInsert_def insertAudit_def split: if_splits)
qed

lemma create_grown:
  assumes "createArtifactUpload cfg policy t g b u input (fs_database st) = (db, r)"
  shows "filesGrown st (st\<lparr>fs_database := db\<rparr>) \<and> (wholeStore cfg st \<longrightarrow> wholeStore cfg (st\<lparr>fs_database := db\<rparr>))"
proof (cases "artifacts db = artifacts (fs_database st)")
  case True
  then have "filesKept st (st\<lparr>fs_database := db\<rparr>)" by (intro filesKept_database) (simp_all add: artifactsKept_def list_all2_refl)
  then show ?thesis using filesKept_grown filesKept_whole by blast
next
  case False
  then have "db \<noteq> fs_database st" by auto
  with assms obtain a audit ns where a: "newArtifact cfg policy t b u input = Inr a"
    and batch: "batch (createUploadBatch policy a audit) (fs_database st) = Inr (db, ns)"
    by (auto simp: createArtifactUpload_def split: sum.splits prod.splits)
  from createBatch_artifacts [OF batch] False have art: "artifacts db = artifacts (fs_database st) @ [a]"
    and new: "a_artifact_id a \<notin> a_artifact_id ` set (artifacts (fs_database st))"
    by auto
  have up: "a_status a = ''uploading''" using a by (auto simp: newArtifact_def Let_def split: sum.splits if_splits)
  have "filesGrown st (st\<lparr>fs_database := db\<rparr>)"
    using artifactKept_grown [OF artifactKept_refl] by (auto simp: filesGrown_def art)
  moreover have "wholeStore cfg (st\<lparr>fs_database := db\<rparr>)" if "wholeStore cfg st"
    using that new up by (auto simp: wholeStore_def wholeFile_def readyRows_def art)
  ultimately show ?thesis by blast
qed

lemma whole_step:
  assumes "file_step cfg policy H lossy s s'" "wholeSystem cfg s" "tidySystem cfg H s"
  shows "wholeSystem cfg s'"
proof -
  have grown: "wholeSystem cfg s'" if "filesGrown (files s) (files s')" "wholeStore cfg (files s')"
      "\<And>y. y \<in> set (running s') \<Longrightarrow> y \<in> set (running s) \<or> wholeNeeds cfg (files s') (snd y)"
    using that assms(2) wholeNeeds_grown unfolding wholeSystem_def by blast
  have same: "filesGrown (files s) (files s)" "wholeStore cfg (files s)"
    using assms(2) by (simp_all add: filesKept_grown wholeSystem_def)
  from assms(1) show ?thesis
  proof cases
    case (tick t)
    then show ?thesis using same by (intro grown) auto
  next
    case (arrive h)
    have "wholeNeeds cfg (files s) h" using arrive(2) by (cases h) auto
    then show ?thesis using arrive same by (intro grown) auto
  next
    case (access xs start h ys x g st r)
    note d = tidySystemD [OF assms(3)]
    have "(start, h) \<in> set (running s)" using access by simp
    then have "wholeNeeds cfg (files s) h" "needs cfg H (clock s) (claimedIn s) (files s) start h"
      using assms(2) d(4) by (fastforce simp: wholeSystem_def)+
    then have "advances cfg (files s) (st, r)"
      using advance_whole [of cfg "files s" h] tidyD(8) [OF d(1)] access(5) by metis
    then show ?thesis using access same by (intro grown) (auto simp: advances_def split: sum.splits)
  next
    case (vanish xs y ys)
    then show ?thesis using same by (intro grown) auto
  next
    case (create g b u input db r)
    then show ?thesis using create_grown [OF create(2)] same by (intro grown) auto
  next
    case (others db)
    have "filesKept (files s) ((files s)\<lparr>fs_database := db\<rparr>)"
      using others by (intro filesKept_database) (simp_all add: keepsFiles_kept)
    then show ?thesis using others same filesKept_grown filesKept_whole by (intro grown) auto
  qed
qed

lemma whole_reachable:
  assumes "file_reachable cfg policy H False s" "2 * H < DAY" "0 \<le> H"
  shows "wholeSystem cfg s"
  using assms(1)
proof (induction rule: file_reachable.induct)
  case (start db)
  then show ?case by (simp add: wholeSystem_def wholeStore_def emptyFiles_def)
next
  case (step s s')
  then show ?case using whole_step tidy_reachable assms(2,3) by blast
qed

end
