(* ===== verification/FileScenario.thy ===== *)
theory FileScenario
  imports ArtifactWhole Market
begin

text \<open>
  The properties of the file store, and a run in which a file is opened, uploaded and completed, alone
  and with every access answered. The text of a time is here a digit, the digest of a content a constant
  and the encryption the identity: the properties hold for every such choice.
\<close>

section \<open>Ready chunks in their order\<close>

lemma described_in_order:
  assumes d: "describes parts (readyRows st a)" and m: "map chunk_partNumber parts = [1..n]"
    and keys: "distinct (map ch_storage_key (artifact_chunks st))"
  shows "list_all2 partStored parts (SELECT_READY_CHUNKS (a_artifact_id a) (a_tenant_id a) st)"
proof -
  let ?L = "SELECT_READY_CHUNKS (a_artifact_id a) (a_tenant_id a) st"
  have set: "set ?L = readyRows st a" by (auto simp: SELECT_READY_CHUNKS_def readyRows_def isReady_def)
  have distL: "distinct ?L" using keys by (simp add: SELECT_READY_CHUNKS_def distinct_map)
  then have len: "length ?L = length parts" using d set distinct_card [of ?L] by (simp add: describes_def)
  obtain f where f: "\<forall>p \<in> set parts. f p \<in> readyRows st a \<and> partStored p (f p)" using d unfolding describes_def by metis
  have dp: "distinct parts" using m distinct_upto [of 1 n] by (metis distinct_map)
  have inj: "inj_on f (set parts)"
  proof (rule inj_onI)
    fix p q assume pq: "p \<in> set parts" "q \<in> set parts" "f p = f q"
    then have "chunk_partNumber p = chunk_partNumber q" using f by (metis partStored_def)
    then show "p = q" using m pq distinct_upto [of 1 n] by (metis distinct_map inj_onD)
  qed
  have "card (f ` set parts) = card (readyRows st a)" using d dp inj by (simp add: card_image distinct_card describes_def)
  moreover have "finite (readyRows st a)" unfolding readyRows_def by simp
  ultimately have onto: "f ` set parts = readyRows st a" using f by (intro card_subset_eq) auto
  have nums: "set (map ch_part_number ?L) = {1..n}"
  proof -
    have "ch_part_number ` f ` set parts = chunk_partNumber ` set parts" using f by (auto simp: partStored_def image_iff)
    also have "\<dots> = set [1..n]" using m by (metis list.set_map)
    finally show ?thesis using set onto by simp
  qed
  have lenn: "length (map ch_part_number ?L) = card {1..n}" using len m by (metis length_map length_upto card_atLeastAtMost_int diff_add_cancel)
  have "distinct (map ch_part_number ?L)" using nums lenn by (metis card_distinct)
  moreover have "sorted (map ch_part_number ?L)" by (simp add: SELECT_READY_CHUNKS_def)
  ultimately have L: "map ch_part_number ?L = [1..n]" using nums by (intro sorted_distinct_set_unique) simp_all
  show ?thesis
  proof (rule list_all2_all_nthI [OF len [symmetric]])
    fix i assume i: "i < length parts"
    have c: "?L ! i \<in> readyRows st a" using i len set nth_mem by metis
    then obtain p where p: "p \<in> set parts" "?L ! i = f p" using onto by auto
    then have "chunk_partNumber p = chunk_partNumber (parts ! i)"
      using f L m i len by (metis nth_map partStored_def)
    then have "p = parts ! i" using m p(1) i distinct_upto [of 1 n] by (metis distinct_map inj_onD nth_mem)
    then show "partStored (parts ! i) (?L ! i)" using f p by simp
  qed
qed

section \<open>A handler that runs alone\<close>

fun soloRun :: "FileConfig \<Rightarrow> string \<times> string \<times> string \<Rightarrow> int \<Rightarrow> ioOutcome list \<Rightarrow> fileHandler \<Rightarrow> fileStore \<Rightarrow> fileStep" where
  "soloRun cfg g t [] h st = (st, Inl h)"
| "soloRun cfg g t (x # xs) h st = (case advanceFile cfg g t t x h st of
     (st', Inl h') \<Rightarrow> soloRun cfg g t xs h' st' | (st', Inr r) \<Rightarrow> (st', Inr r))"

lemma soloRun_reachable:
  assumes "file_reachable cfg policy H lossy (s\<lparr>files := st, running := [(clock s, h)]\<rparr>)" "0 \<le> H"
    and "lossy \<or> LostReply \<notin> set xs" "soloRun cfg g (clock s) xs h st = (st', r)"
  shows "file_reachable cfg policy H lossy
     (s\<lparr>files := st', running := (case r of Inl h' \<Rightarrow> [(clock s, h')] | Inr res \<Rightarrow> [])\<rparr>)"
  using assms
proof (induction xs arbitrary: h st)
  case (Cons x xs)
  obtain st1 r1 where a: "advanceFile cfg g (clock s) (clock s) x h st = (st1, r1)" by fastforce
  let ?s = "s\<lparr>files := st, running := [(clock s, h)]\<rparr>"
  have "file_step cfg policy H lossy ?s
      (?s\<lparr>files := st1, running := [] @ (case r1 of Inl h' \<Rightarrow> [(clock s, h')] | Inr res \<Rightarrow> []) @ []\<rparr>)"
    using a Cons.prems(2,3) by (intro file_step.access [where x = x and g = g and h = h]) auto
  then have next_: "file_reachable cfg policy H lossy
      (s\<lparr>files := st1, running := (case r1 of Inl h' \<Rightarrow> [(clock s, h')] | Inr res \<Rightarrow> [])\<rparr>)"
    using file_reachable.step [OF Cons.prems(1)] by (cases r1) simp_all
  show ?case
  proof (cases r1)
    case (Inl h')
    have "soloRun cfg g (clock s) xs h' st1 = (st', r)" using Cons.prems(4) by (simp add: a Inl)
    moreover have "lossy \<or> LostReply \<notin> set xs" using Cons.prems(3) by auto
    ultimately show ?thesis using Cons.IH [of h' st1] next_ Cons.prems(2) by (simp add: Inl)
  next
    case (Inr res)
    then have "st1 = st' \<and> r = Inr res" using Cons.prems(4) by (simp add: a)
    then show ?thesis using next_ Inr by simp
  qed
qed (auto split: sum.splits)

lemma soloRun_append:
  "soloRun cfg g t xs h st = (st', Inl h') \<Longrightarrow> soloRun cfg g t (xs @ ys) h st = soloRun cfg g t ys h' st'"
  by (induction xs arbitrary: h st) (auto split: prod.splits sum.splits)

text \<open>A request that comes when nothing else runs.\<close>

definition afterRequest :: "FileConfig \<Rightarrow> string \<times> string \<times> string \<Rightarrow> ioOutcome list \<Rightarrow> fileHandler \<Rightarrow> fileSystem \<Rightarrow> fileSystem" where
  "afterRequest cfg g xs h s = (case soloRun cfg g (clock s) xs h (files s) of
     (st, r) \<Rightarrow> s\<lparr>files := st, running := (case r of Inl h' \<Rightarrow> [(clock s, h')] | Inr res \<Rightarrow> []), uuids := uuids s \<union> uploadUuid h\<rparr>)"

lemma afterRequest_reachable:
  assumes "file_reachable cfg policy H lossy s" "running s = []" "initialHandler (uuids s) h" "0 \<le> H"
    and "lossy \<or> LostReply \<notin> set xs"
  shows "file_reachable cfg policy H lossy (afterRequest cfg g xs h s)"
proof -
  let ?s = "s\<lparr>uuids := uuids s \<union> uploadUuid h\<rparr>"
  obtain st r where r: "soloRun cfg g (clock s) xs h (files s) = (st, r)" by fastforce
  have clock_eq: "clock ?s = clock s" by simp
  have "file_step cfg policy H lossy s (s\<lparr>running := running s @ [(clock s, h)], uuids := uuids s \<union> uploadUuid h\<rparr>)"
    using assms(3) by (rule file_step.arrive)
  moreover have "s\<lparr>running := running s @ [(clock s, h)], uuids := uuids s \<union> uploadUuid h\<rparr> =
      ?s\<lparr>files := files ?s, running := [(clock ?s, h)]\<rparr>"
    using assms(2) by (cases s) simp
  ultimately have start: "file_reachable cfg policy H lossy (?s\<lparr>files := files ?s, running := [(clock ?s, h)]\<rparr>)"
    using file_reachable.step [OF assms(1)] by metis
  have "soloRun cfg g (clock ?s) xs h (files ?s) = (st, r)" using r by simp
  from soloRun_reachable [OF start assms(4,5) this]
  have "file_reachable cfg policy H lossy
     (?s\<lparr>files := st, running := (case r of Inl h' \<Rightarrow> [(clock s, h')] | Inr res \<Rightarrow> [])\<rparr>)" unfolding clock_eq .
  moreover have "afterRequest cfg g xs h s = ?s\<lparr>files := st, running := (case r of Inl h' \<Rightarrow> [(clock s, h')] | Inr res \<Rightarrow> [])\<rparr>"
    unfolding afterRequest_def r prod.case by simp
  ultimately show ?thesis by metis
qed

section \<open>The run\<close>

definition plainConfig :: FileConfig where
  "plainConfig = \<lparr>fc_isoText = (\<lambda>n. if n < 1000 then ''0'' else ''1''), fc_sha256Bytes = (\<lambda>bytes. replicate 64 (CHR ''a'')),
     fc_sha256Hex = (\<lambda>s. replicate 64 (CHR ''b'')), fc_encrypt = (\<lambda>iv aad plaintext. plaintext)\<rparr>"

definition plainPolicy :: MarketplaceRuntimePolicy where
  "plainPolicy = (case getMarketplaceRuntimePolicy (\<lambda>s. NInt 0) \<lparr>env_platformFeeBps = None, env_welcomeCreditMicros = None\<rparr> of Inr p \<Rightarrow> p)"

definition plainInput :: CreateUploadRequest where
  "plainInput = \<lparr>cu_fileName = JStr ''notes.txt'', cu_mediaType = JStr ''text/plain'', cu_sizeBytes = NInt 3,
     cu_privacyMode = JStr ''standard''\<rparr>"

definition plainUuid :: string where
  "plainUuid = ''00000000-0000-4000-8000-000000000001''"

definition plainOpened :: database where
  "plainOpened = fst (createArtifactUpload plainConfig plainPolicy 0 (''audit-1'', ''buyer'', ''{}'') ''tenant-1'' plainUuid plainInput emptyDatabase)"

definition plainPart :: UploadRequest where
  "plainPart = \<lparr>ur_tenant = ''tenant-1'', ur_artifact = ''artifact-'' @ plainUuid, ur_part = NInt 1,
     ur_contentType = Some ''application/octet-stream'', ur_contentLength = Some (NInt 3),
     ur_sha256 = Some (replicate 64 (CHR ''a'')), ur_body = Some [[1, 2], [3]], ur_iv = ''iv'', ur_uuid = plainUuid\<rparr>"

definition plainStart :: fileSystem where
  "plainStart = \<lparr>files = emptyFiles plainOpened, running = [], clock = 0, uuids = {}\<rparr>"

definition plainGenerated :: "string \<times> string \<times> string" where
  "plainGenerated = (''audit-2'', ''buyer'', ''{}'')"

definition plainUploaded :: fileSystem where
  "plainUploaded = afterRequest plainConfig plainGenerated (replicate 8 Done) (ReadArtifact plainPart) plainStart"

definition plainDeclared :: "ArtifactChunkDescriptor list" where
  "plainDeclared = [\<lparr>chunk_partNumber = 1, chunk_sizeBytes = 3, chunk_sha256 = replicate 64 (CHR ''a'')\<rparr>]"

definition plainCompleted :: fileSystem where
  "plainCompleted = afterRequest plainConfig plainGenerated (replicate 4 Done)
     (ReadUpload (''artifact-'' @ plainUuid) ''tenant-1'' plainDeclared) plainUploaded"

text \<open>The same upload, but the reply to the batch that makes its chunk ready is lost.\<close>

definition plainLost :: fileSystem where
  "plainLost = afterRequest plainConfig plainGenerated (replicate 5 Done @ LostReply # replicate 2 Done) (ReadArtifact plainPart) plainStart"

definition plainKey :: string where
  "plainKey = storageKeyOf plainPart 1"

lemma plainStart_reachable: "file_reachable plainConfig plainPolicy H lossy plainStart"
proof -
  let ?s = "\<lparr>files = emptyFiles emptyDatabase, running = [], clock = 0, uuids = {}\<rparr>"
  have "file_reachable plainConfig plainPolicy H lossy ?s" by (rule file_reachable.start) (simp add: emptyDatabase_def)
  moreover obtain r where "createArtifactUpload plainConfig plainPolicy 0 (''audit-1'', ''buyer'', ''{}'') ''tenant-1'' plainUuid
      plainInput emptyDatabase = (plainOpened, r)"
    by (metis plainOpened_def prod.exhaust_sel)
  then have "file_step plainConfig plainPolicy H lossy ?s (?s\<lparr>files := (files ?s)\<lparr>fs_database := plainOpened\<rparr>\<rparr>)"
    by (intro file_step.create) (simp add: emptyFiles_def)
  ultimately show ?thesis using file_reachable.step by (fastforce simp: plainStart_def emptyFiles_def)
qed

text \<open>What the runs leave.\<close>

definition uploadedWell :: "fileSystem \<Rightarrow> bool" where
  "uploadedWell s \<longleftrightarrow> running s = [] \<and> clock s = 0 \<and> list_ex isReady (artifact_chunks (files s)) \<and>
     bucket (files s) plainKey = Some [1, 2, 3]"

definition completedWell :: "fileSystem \<Rightarrow> bool" where
  "completedWell s \<longleftrightarrow> list_ex (\<lambda>a. a_status a = ''ready'' \<and> a_content_purged_at a = None) (artifacts (fs_database (files s)))"

definition lostRow :: "fileSystem \<Rightarrow> ArtifactChunkRow \<Rightarrow> bool" where
  "lostRow s c \<longleftrightarrow> ch_upload_status c = ''ready'' \<and> bucket (files s) (ch_storage_key c) = None"

definition answersAgain :: "fileSystem \<Rightarrow> bool" where
  "answersAgain s \<longleftrightarrow> running s = [] \<and>
     (case snd (soloRun plainConfig plainGenerated 0 [Done, Done] (ReadArtifact plainPart) (files s)) of
        Inr (UploadedPart c n) \<Rightarrow> n = 1 \<and> list_ex (\<lambda>c'. c' = c \<and> lostRow s c') (artifact_chunks (files s)) | _ \<Rightarrow> False) \<and>
     (case snd (soloRun plainConfig plainGenerated 0 [Done, Done, Done, Done]
        (ReadUpload (''artifact-'' @ plainUuid) ''tenant-1'' plainDeclared) (files s)) of Inr (CompletedUpload a) \<Rightarrow> True | _ \<Rightarrow> False)"

lemma plainUploaded_well: "uploadedWell plainUploaded"
  by code_simp

lemmas plainUploaded_facts = plainUploaded_well [unfolded uploadedWell_def]

lemma plainCompleted_well: "completedWell plainCompleted"
  by code_simp

lemma plainLost_answers: "answersAgain plainLost"
  by code_simp

text \<open>The upload just before that batch, and what the batch and a repeated upload find.\<close>

definition plainStored :: fileStep where
  "plainStored = soloRun plainConfig plainGenerated 0 (replicate 5 Done) (ReadArtifact plainPart) (files plainStart)"

definition readyToFinish :: "fileStep \<Rightarrow> bool" where
  "readyToFinish p \<longleftrightarrow> (case p of
       (st, Inl (FinalizeChunk row)) \<Rightarrow>
         openForUpload (fs_database st) (ch_artifact_id row) (ch_tenant_id row) (fc_isoText plainConfig (ch_uploaded_at row)) \<and>
         bucket st (ch_storage_key row) = Some [1, 2, 3] \<and>
         (case chunkOfPart st (ch_artifact_id row) (ch_tenant_id row) (ch_part_number row) of
            Some c \<Rightarrow> ch_storage_key c = ch_storage_key row \<and> ch_upload_status c = ''pending'' | None \<Rightarrow> False)
     | _ \<Rightarrow> False)"

lemma plainStored_ready: "readyToFinish plainStored"
  by code_simp

lemma plainUploaded_reachable: "file_reachable plainConfig plainPolicy 0 False plainUploaded"
  unfolding plainUploaded_def
  by (rule afterRequest_reachable [OF plainStart_reachable]) (simp_all add: plainStart_def plainPart_def plainUuid_def)

lemma plainCompleted_reachable: "file_reachable plainConfig plainPolicy 0 False plainCompleted"
  unfolding plainCompleted_def
  by (rule afterRequest_reachable [OF plainUploaded_reachable]) (simp_all add: plainUploaded_facts)

lemma plainLost_reachable: "file_reachable plainConfig plainPolicy 0 True plainLost"
  unfolding plainLost_def
  by (rule afterRequest_reachable [OF plainStart_reachable]) (simp_all add: plainStart_def plainPart_def plainUuid_def)

section \<open>Properties\<close>

text \<open>
  C5: A chunk that the database calls ready is in the object store: its object is the encryption, under
  the chunk's own key and position, of a content with the size and digest of the row. This holds at every
  point of every interleaving of uploads, completions, cleanups and purges that may fail, lose a reply or
  vanish at any access, as long as a handler takes less than half a day and the reply to the batch that
  makes a chunk ready is not the one that gets lost.
\<close>

theorem ready_chunk_stored:
  assumes "file_reachable cfg policy H False s" "2 * H < DAY" "0 \<le> H"
    and "c \<in> chunks (files s)" "ch_upload_status c = ''ready''"
  shows "\<exists>plaintext content. bucket (files s) (ch_storage_key c) = Some content \<and>
     content = fc_encrypt cfg (ch_iv c) (ch_tenant_id c, ch_artifact_id c, ch_part_number c, ch_plaintext_sha256 c) plaintext \<and>
     int (length plaintext) = ch_size_bytes c \<and> fc_sha256Bytes cfg plaintext = ch_plaintext_sha256 c \<and>
     fc_sha256Bytes cfg content = ch_ciphertext_sha256 c"
  using tidyD(5) [OF tidySystemD(1) [OF tidy_reachable [OF assms(1-3)]] assms(4)] assms(5)
  by (auto simp: isReady_def contentOf_def)

theorem ready_chunk_stored_witness:
  "\<exists>c \<in> chunks (files plainUploaded). ch_upload_status c = ''ready'' \<and> bucket (files plainUploaded) (ch_storage_key c) \<noteq> None"
proof -
  obtain c where c: "c \<in> chunks (files plainUploaded)" "ch_upload_status c = ''ready''"
    using plainUploaded_facts by (auto simp: list_ex_iff isReady_def)
  with ready_chunk_stored [OF plainUploaded_reachable _ _ c] show ?thesis by (auto simp: DAY_def intro!: bexI [of _ c])
qed

text \<open>
  C6: No object is lost from sight: at every point every object in the store belongs to a ready chunk or
  is queued for deletion, whatever uploads were abandoned, failed or raced with a purge; so what a user
  deletes does not survive unrecorded in the object store. As in C5 this is under two conditions: a handler
  takes less than half a day, and the reply to the batch that makes a chunk ready is not the one that gets
  lost.
\<close>

theorem no_lost_object:
  assumes "file_reachable cfg policy H False s" "2 * H < DAY" "0 \<le> H" "bucket (files s) key = Some content"
  shows "(\<exists>q \<in> deletions (files s). od_storage_key q = key) \<or>
     (\<exists>c \<in> chunks (files s). ch_storage_key c = key \<and> ch_upload_status c = ''ready'')"
  using tidyD(7) [OF tidySystemD(1) [OF tidy_reachable [OF assms(1-3)]], of key] assms(4)
  by (auto simp: isReady_def queued_def)

theorem no_lost_object_witness:
  "(\<exists>q \<in> deletions (files plainUploaded). od_storage_key q = plainKey) \<or>
   (\<exists>c \<in> chunks (files plainUploaded). ch_storage_key c = plainKey \<and> ch_upload_status c = ''ready'')"
  by (rule no_lost_object [OF plainUploaded_reachable]) (simp_all add: DAY_def plainUploaded_facts)

text \<open>
  C7: A ready file is whole. Unless it is purged, its manifest digest is that of a declaration with one
  part for each number from 1 to its chunk count, each of the size the file layout gives it; the file has
  exactly these ready chunks, in order and with the declared digests; and the object of each is in the
  store. The invariant covers completions that race with uploads, cleanups and purges. As in C5 this is under
  two conditions: a handler takes less than half a day, and the reply to the batch that makes a chunk ready is
  not the one that gets lost. Without the second one the file can be ready without an object (C8).
\<close>

theorem ready_artifact_whole:
  assumes "file_reachable cfg policy H False s" "2 * H < DAY" "0 \<le> H"
    and "a \<in> set (artifacts (fs_database (files s)))" "a_status a = ''ready''" "a_content_purged_at a = None"
  shows "\<exists>parts. map chunk_partNumber parts = [1..a_chunk_count a] \<and>
     (\<forall>p \<in> set parts. chunk_sizeBytes p = expectedPartSize a (chunk_partNumber p)) \<and>
     a_manifest_sha256 a = Some (manifestSha256 cfg a parts) \<and>
     list_all2 (\<lambda>p c. partStored p c \<and> bucket (files s) (ch_storage_key c) \<noteq> None) parts
       (SELECT_READY_CHUNKS (a_artifact_id a) (a_tenant_id a) (files s))"
proof -
  note t = tidySystemD(1) [OF tidy_reachable [OF assms(1-3)]]
  have "wholeFile cfg (files s) a"
    using whole_reachable [OF assms(1-3)] assms(4-6) by (simp add: wholeSystem_def wholeStore_def)
  then obtain parts where p: "declaredParts a parts" "a_manifest_sha256 a = Some (manifestSha256 cfg a parts)"
    "describes parts (readyRows (files s) a)"
    by (auto simp: wholeFile_def)
  then have m: "map chunk_partNumber parts = [1..a_chunk_count a]" by (simp add: declaredParts_def)
  have "list_all2 partStored parts (SELECT_READY_CHUNKS (a_artifact_id a) (a_tenant_id a) (files s))"
    using described_in_order [OF p(3) m tidyD(8) [OF t]] .
  moreover have "bucket (files s) (ch_storage_key c) \<noteq> None"
    if "c \<in> set (SELECT_READY_CHUNKS (a_artifact_id a) (a_tenant_id a) (files s))" for c
    using that tidyD(5) [OF t, of c] by (auto simp: SELECT_READY_CHUNKS_def isReady_def)
  ultimately have "list_all2 (\<lambda>p c. partStored p c \<and> bucket (files s) (ch_storage_key c) \<noteq> None) parts
       (SELECT_READY_CHUNKS (a_artifact_id a) (a_tenant_id a) (files s))"
    by (auto simp: list_all2_conv_all_nth)
  with p m show ?thesis by (auto simp: declaredParts_def)
qed

theorem ready_artifact_whole_witness:
  "\<exists>a parts. a \<in> set (artifacts (fs_database (files plainCompleted))) \<and> a_status a = ''ready'' \<and>
     a_manifest_sha256 a = Some (manifestSha256 plainConfig a parts)"
proof -
  obtain a where a: "a \<in> set (artifacts (fs_database (files plainCompleted)))" "a_status a = ''ready''" "a_content_purged_at a = None"
    using plainCompleted_well by (auto simp: completedWell_def list_ex_iff)
  from ready_artifact_whole [OF plainCompleted_reachable _ _ a] a show ?thesis by (auto simp: DAY_def)
qed

lemma find_updateRows:
  assumes "\<And>r. P (f r) = P r"
  shows "find P (updateRows p f rows) = map_option (\<lambda>r. if p r then f r else r) (find P rows)"
  using assms by (induction rows) (auto simp: updateRows_def)

lemma find_filter_kept: "find P rows = Some r \<Longrightarrow> Q r \<Longrightarrow> find P (filter Q rows) = Some r"
  by (induction rows) (auto split: if_splits)

text \<open>
  C8: The reply to the batch that makes a chunk ready may get lost. The upload then takes the batch for
  failed: when its next two accesses follow and are answered, it has deleted its object and ends with the
  exception, while the row stays ready, is among the chunks that a completion counts, and the key is not
  queued any more. While the file is open, every repeated upload of the part with the same digest is
  answered as stored, so the object never comes back. This holds for every configuration, store and
  chunk whose batch takes effect; the witness is a reachable state, in which the file is then completed.
\<close>

theorem lost_reply_loses_object:
  assumes c: "chunkOfPart st (ch_artifact_id row) (ch_tenant_id row) (ch_part_number row) = Some c"
      "ch_storage_key c = ch_storage_key row" "ch_upload_status c = ''pending''"
    and open_: "openForUpload (fs_database st) (ch_artifact_id row) (ch_tenant_id row) (fc_isoText cfg (ch_uploaded_at row))"
    and run: "soloRun cfg g t [LostReply, Done, Done] (FinalizeChunk row) st = (st', r)"
  shows "r = Inr (Threw IoException) \<and> bucket st' (ch_storage_key row) = None \<and> \<not> queued st' (ch_storage_key row) \<and>
    c\<lparr>ch_upload_status := ''ready''\<rparr> \<in> set (SELECT_READY_CHUNKS (ch_artifact_id row) (ch_tenant_id row) st') \<and>
    (\<forall>q t2 g2 a. ur_artifact q = ch_artifact_id row \<and> ur_tenant q = ch_tenant_id row \<and>
       readArtifactStep cfg t2 q st' = Inl (ReadChunk q a (ch_part_number row)) \<and>
       ch_size_bytes c = expectedPartSize a (ch_part_number row) \<and>
       uploadHeaders q (expectedPartSize a (ch_part_number row)) = Inr (ch_plaintext_sha256 c) \<longrightarrow>
       soloRun cfg g2 t2 [Done, Done] (ReadArtifact q) st' =
         (st', Inr (UploadedPart (c\<lparr>ch_upload_status := ''ready''\<rparr>) (a_uploaded_chunks a))))"
proof -
  let ?key = "ch_storage_key row" and ?ready = "c\<lparr>ch_upload_status := ''ready''\<rparr>"
  let ?of = "\<lambda>c. chunkOf (ch_artifact_id row) (ch_tenant_id row) c \<and> ch_part_number c = ch_part_number row"
  let ?turn = "\<lambda>c. chunkAt row c \<and> ch_upload_status c = ''pending''"
  define cs where "cs = updateRows ?turn (\<lambda>c. c\<lparr>ch_upload_status := ''ready''\<rparr>) (artifact_chunks st)"
  have fc: "find ?of (artifact_chunks st) = Some c" using c(1) by (simp add: chunkOfPart_def)
  then have of_c: "?of c" by (auto simp: find_Some_iff)
  then have "?turn c" using c(2,3) by (simp add: chunkAt_def chunkOf_def)
  moreover have "find ?of cs = map_option (\<lambda>r. if ?turn r then r\<lparr>ch_upload_status := ''ready''\<rparr> else r) (find ?of (artifact_chunks st))"
    unfolding cs_def by (rule find_updateRows) (simp add: chunkOf_def)
  ultimately have f1: "find ?of cs = Some ?ready" using fc by simp
  then have m1: "?ready \<in> set cs" by (auto simp: find_Some_iff)
  obtain db n where b: "batch (finalizeChunk (fc_isoText cfg) row) st =
      Inr (st\<lparr>artifact_chunks := cs, fs_database := db,
        artifact_object_deletions := filter (\<lambda>q. od_storage_key q \<noteq> ?key) (artifact_object_deletions st)\<rparr>, n)"
  proof -
    have "list_ex (\<lambda>c. chunkAt row c \<and> ch_upload_status c = ''ready'') cs"
      using m1 \<open>?turn c\<close> by (auto simp: list_ex_iff chunkAt_def intro!: bexI [of _ ?ready])
    then show ?thesis using that open_
      by (simp add: finalizeChunk_def updateChunks_def onDatabase_def updateArtifacts_def deleteDeletions_def cs_def)
  qed
  define kept where "kept = filter (\<lambda>d. \<not> (chunkAt row d \<and> ch_upload_status d \<in> set [''pending'', ''deleting''])) cs"
  have f2: "find ?of kept = Some ?ready" unfolding kept_def by (rule find_filter_kept [OF f1]) simp
  let ?st = "st\<lparr>artifact_chunks := kept, fs_database := db,
      artifact_object_deletions := filter (\<lambda>q. od_storage_key q \<noteq> ?key) (artifact_object_deletions st), bucket := (bucket st) |` (- {?key})\<rparr>"
  have r: "st' = ?st" "r = Inr (Threw IoException)"
    using run b by (auto simp: runStatements_def ownStep_def runDelete_def deleteObjects_def removeChunk_def deleteChunks_def kept_def)
  have again: "chunkOfPart st' (ch_artifact_id row) (ch_tenant_id row) (ch_part_number row) = Some ?ready"
    using f2 by (simp add: chunkOfPart_def r(1))
  have "?ready \<in> set kept" using f2 by (auto simp: find_Some_iff)
  then have "?ready \<in> set (SELECT_READY_CHUNKS (ch_artifact_id row) (ch_tenant_id row) st')"
    using of_c by (simp add: SELECT_READY_CHUNKS_def r(1) chunkOf_def)
  moreover have "soloRun cfg g2 t2 [Done, Done] (ReadArtifact q) st' = (st', Inr (UploadedPart ?ready (a_uploaded_chunks a)))"
    if "ur_artifact q = ch_artifact_id row" "ur_tenant q = ch_tenant_id row"
      "readArtifactStep cfg t2 q st' = Inl (ReadChunk q a (ch_part_number row))"
      "ch_size_bytes c = expectedPartSize a (ch_part_number row)"
      "uploadHeaders q (expectedPartSize a (ch_part_number row)) = Inr (ch_plaintext_sha256 c)" for q t2 g2 a
    using that again by (simp add: readChunkStep_def startStale_def)
  ultimately show ?thesis using r by (simp add: queued_def)
qed

theorem lost_reply_loses_object_witness:
  "file_reachable plainConfig plainPolicy 0 True plainLost \<and> running plainLost = [] \<and>
   (\<exists>row. snd plainStored = Inl (FinalizeChunk row) \<and> bucket (fst plainStored) (ch_storage_key row) = Some [1, 2, 3] \<and>
      bucket (files plainLost) (ch_storage_key row) = None \<and>
      SELECT_READY_CHUNKS (ch_artifact_id row) (ch_tenant_id row) (files plainLost) \<noteq> []) \<and>
   (\<exists>a. snd (soloRun plainConfig plainGenerated 0 [Done, Done, Done, Done]
      (ReadUpload (''artifact-'' @ plainUuid) ''tenant-1'' plainDeclared) (files plainLost)) = Inr (CompletedUpload a))"
proof -
  obtain st row c where p: "plainStored = (st, Inl (FinalizeChunk row))" "bucket st (ch_storage_key row) = Some [1, 2, 3]"
    and c: "chunkOfPart st (ch_artifact_id row) (ch_tenant_id row) (ch_part_number row) = Some c"
      "ch_storage_key c = ch_storage_key row" "ch_upload_status c = ''pending''"
      "openForUpload (fs_database st) (ch_artifact_id row) (ch_tenant_id row) (fc_isoText plainConfig (ch_uploaded_at row))"
    using plainStored_ready by (auto simp: readyToFinish_def split: prod.splits sum.splits fileHandler.splits option.splits)
  obtain st' r where run: "soloRun plainConfig plainGenerated 0 [LostReply, Done, Done] (FinalizeChunk row) st = (st', r)" by fastforce
  have "soloRun plainConfig plainGenerated 0 (replicate 5 Done @ [LostReply, Done, Done]) (ReadArtifact plainPart) (files plainStart) = (st', r)"
    using soloRun_append [OF p(1) [unfolded plainStored_def]] run by simp
  then have "files plainLost = st'" by (simp add: plainLost_def afterRequest_def plainStart_def numeral_2_eq_2)
  with lost_reply_loses_object [OF c run] have
    "bucket (files plainLost) (ch_storage_key row) = None"
    "SELECT_READY_CHUNKS (ch_artifact_id row) (ch_tenant_id row) (files plainLost) \<noteq> []" by auto
  moreover have "running plainLost = []" "\<exists>a. snd (soloRun plainConfig plainGenerated 0 [Done, Done, Done, Done]
      (ReadUpload (''artifact-'' @ plainUuid) ''tenant-1'' plainDeclared) (files plainLost)) = Inr (CompletedUpload a)"
    using plainLost_answers unfolding answersAgain_def by (auto split: sum.splits fileResult.splits)
  moreover have "snd plainStored = Inl (FinalizeChunk row)" "bucket (fst plainStored) (ch_storage_key row) = Some [1, 2, 3]"
    using p(2) by (simp_all add: p(1))
  ultimately show ?thesis using plainLost_reachable by blast
qed

end
