(* ===== verification/PrivacyService.thy ===== *)
theory PrivacyService
  imports ArtifactFiles
begin

text \<open>
  Requests to purge content (\<^verbatim>\<open>apps/web/server/privacy-service.ts\<close>): which purge a request starts, and
  the purge of an inference. The purge of a file is a program of \<open>ArtifactFiles\<close>.
\<close>

section \<open>Requests\<close>

datatype PurgeableMarketplaceResource = InferenceJobContent | ArtifactContent | ArtifactTaskContent

text \<open>The keys of an object are compared with the allowed ones by number and membership.\<close>

definition hasExactKeys :: "heap \<Rightarrow> jsval \<Rightarrow> string list \<Rightarrow> bool" where
  "hasExactKeys h value allowed = (case value of
     JRef a \<Rightarrow> (case h a of JArray xs \<Rightarrow> False
       | JObject plain fs \<Rightarrow> length fs = length allowed \<and> list_all (\<lambda>(k, v). k \<in> set allowed) fs)
   | _ \<Rightarrow> False)"

definition purgeableResource :: "jsval \<Rightarrow> fileError + PurgeableMarketplaceResource" where
  "purgeableResource value =
     (if value = JStr ''inference-job'' then Inr InferenceJobContent
      else if value = JStr ''artifact'' then Inr ArtifactContent
      else if value = JStr ''artifact-task'' then Inr ArtifactTaskContent
      else Inl invalidRequest)"

definition purgeIdentifier :: "jsval \<Rightarrow> fileError + string" where
  "purgeIdentifier value = (case value of
     JStr s \<Rightarrow> if jobIdPattern s then Inr s else Inl invalidRequest
   | _ \<Rightarrow> Inl invalidRequest)"

text \<open>What a request starts, once its rate limit allows it.\<close>

datatype purgeStart = PurgeInference string | PurgeProgram fileHandler

definition purgeMarketplaceContent :: "heap \<Rightarrow> string \<Rightarrow> string \<Rightarrow> jsval \<Rightarrow> fileError + purgeStart" where
  "purgeMarketplaceContent h tenantId actorId input =
     andThen (throwIf (\<not> hasExactKeys h input [''resourceType'', ''resourceId'']) invalidRequest) (\<lambda>_.
     andThen (purgeableResource (jget h input ''resourceType'')) (\<lambda>resourceType.
     andThen (purgeIdentifier (jget h input ''resourceId'')) (\<lambda>resourceId.
       Inr (case resourceType of
          InferenceJobContent \<Rightarrow> PurgeInference resourceId
        | ArtifactContent \<Rightarrow> PurgeProgram (ReadPurgeTarget
            \<lparr>po_artifact = resourceId, po_tenant = tenantId, po_actor = actorId, po_task = None\<rparr>)
        | ArtifactTaskContent \<Rightarrow> PurgeProgram (ReadPurgeTask
            \<lparr>po_artifact = [], po_tenant = tenantId, po_actor = actorId, po_task = None\<rparr> resourceId)))))"

section \<open>The output of an inference\<close>

text \<open>The first access: an earlier purge, or that there is something to do.\<close>

definition readInferencePurge :: "string \<Rightarrow> string \<Rightarrow> database \<Rightarrow> fileError + string option" where
  "readInferencePurge jobId tenantId db =
     (case find (\<lambda>j. j_job_id j = jobId \<and> j_buyer_tenant_id j = tenantId) (inference_jobs db) of
        None \<Rightarrow> Inl (FileError ''NOT_FOUND'' 404 False)
      | Some j \<Rightarrow>
        if j_content_purged_at j \<noteq> None \<and> j_content_purged_at j \<noteq> Some [] then Inr (j_content_purged_at j)
        else if j_status j \<in> {''reserved'', ''running''} then Inl (FileError ''CONFLICT'' 409 True)
        else Inr None)"

definition inferencePurgeAudit :: "string \<Rightarrow> string \<Rightarrow> string \<Rightarrow> string \<Rightarrow> string \<Rightarrow> AuditRow" where
  "inferencePurgeAudit auditId tenantId actorId jobId occurredAt =
     \<lparr>ad_audit_id = auditId, ad_tenant_id = tenantId, ad_actor_id = actorId,
      ad_action = ''privacy.inference-content-purged'', ad_resource_type = ''inference-job'', ad_resource_id = jobId,
      ad_details_json = ''{}'', ad_occurred_at = occurredAt\<rparr>"

text \<open>The whole purge, with the database as other requests have left it in between.\<close>

definition purgeInferenceOutput :: "string \<Rightarrow> string \<Rightarrow> string \<Rightarrow> string \<Rightarrow> string \<Rightarrow> database \<Rightarrow> (database \<Rightarrow> database) \<Rightarrow>
    database \<times> (fileError + string)" where
  "purgeInferenceOutput now auditId tenantId actorId jobId db between =
     (case readInferencePurge jobId tenantId db of
        Inl e \<Rightarrow> (db, Inl e)
      | Inr (Some purgedAt) \<Rightarrow> (db, Inr purgedAt)
      | Inr None \<Rightarrow> (case batch (purgeInferenceBatch now jobId (inferencePurgeAudit auditId tenantId actorId jobId now)) (between db) of
          Inl e \<Rightarrow> (between db, Inl IoException)
        | Inr (db', ns) \<Rightarrow> (db', Inr now)))"

text \<open>A purge that answers leaves no output of the job, whatever came in between.\<close>

lemma purgeInferenceOutput_leaves_nothing:
  assumes "purgeInferenceOutput now auditId tenantId actorId jobId db between = (db', Inr purgedAt)"
    and clear: "\<And>j. j \<in> set (inference_jobs db) \<union> set (inference_jobs (between db)) \<Longrightarrow> j_content_purged_at j \<noteq> None \<Longrightarrow>
      j_output_ciphertext j = None \<and> j_output_iv j = None"
    and ids: "distinct (map j_job_id (inference_jobs db))"
    and j: "j \<in> set (inference_jobs db')" "j_job_id j = jobId" "j_buyer_tenant_id j = tenantId"
  shows "j_output_ciphertext j = None \<and> j_output_iv j = None \<and> j_content_purged_at j \<noteq> None"
proof (cases "readInferencePurge jobId tenantId db")
  case (Inr r)
  show ?thesis
  proof (cases r)
    case None
    let ?p = "\<lambda>j. j_job_id j = jobId \<and> j_buyer_tenant_id j = tenantId \<and> j_content_purged_at j = None"
      and ?f = "\<lambda>j. j\<lparr>j_output_ciphertext := None, j_output_iv := None, j_output_expires_at := None, j_content_purged_at := Some now\<rparr>"
    from assms(1) Inr None obtain ns where
      "batch (purgeInferenceBatch now jobId (inferencePurgeAudit auditId tenantId actorId jobId now)) (between db) = Inr (db', ns)"
      by (auto simp: purgeInferenceOutput_def split: sum.splits)
    then have "inference_jobs db' = updateRows ?p ?f (inference_jobs (between db))"
      by (auto simp: purgeInferenceBatch_def updateJobs_def insertAudit_def inferencePurgeAudit_def split: if_splits)
    then obtain i where "i \<in> set (inference_jobs (between db))" "j = (if ?p i then ?f i else i)"
      using j(1) by (auto simp: updateRows_def)
    then show ?thesis using clear [of i] j(2,3) by (cases "?p i") auto
  next
    case (Some purged)
    then have db': "db' = db" using assms(1) Inr by (auto simp: purgeInferenceOutput_def)
    obtain i where i: "i \<in> set (inference_jobs db)" "j_job_id i = jobId" "j_content_purged_at i \<noteq> None"
      using Inr Some by (auto simp: readInferencePurge_def dest!: find_Some_mem split: option.splits if_splits)
    then have "i = j" using ids j(1,2) db' by (auto simp: distinct_map dest: inj_onD)
    then show ?thesis using clear [of i] i by simp
  qed
qed (use assms(1) in \<open>simp add: purgeInferenceOutput_def\<close>)

end
