(* ===== verification/AgentAuth.thy ===== *)
theory AgentAuth
  imports AgentStore SupplierNode
begin

text \<open>
  The authentication of a call of a supplier agent (\<open>authenticateAgentRequest\<close> of
  \<^verbatim>\<open>apps/web/server/agent-auth.ts\<close>) as a program that stops at every access to the database; \<open>advanceAuth\<close>
  makes the access. The keyed digests of the credential come from the key ring of the deployment and are
  an argument, as are SHA-256, HMAC and \<open>toISOString\<close>.
\<close>

section \<open>Requests\<close>

record AgentRequest =
  aq_authorization :: "string option"
  aq_edgeAddress :: "string option"
  aq_timestamp :: "string option"
  aq_nonce :: "string option"
  aq_jobId :: "string option"
  aq_signature :: "string option"
  aq_rawBody :: string

record AgentConfig =
  ac_isoText :: "int \<Rightarrow> string"
  ac_sha256Hex :: "string \<Rightarrow> string"
  ac_hmacHex :: "string \<Rightarrow> string \<Rightarrow> string"

datatype agentError = AgentError string int bool | AgentException

definition agentAuthenticationFailed :: agentError where
  "agentAuthenticationFailed = AgentError ''AUTHENTICATION_REQUIRED'' 401 False"

definition bearerToken :: "string option \<Rightarrow> agentError + string" where
  "bearerToken value = (case value of
     None \<Rightarrow> Inl agentAuthenticationFailed
   | Some v \<Rightarrow>
     if \<not> startsWith v ''Bearer '' then Inl agentAuthenticationFailed
     else let token = drop 7 v in
       if length token < 32 \<or> length token > 4096 \<or> js_trim token \<noteq> token then Inl agentAuthenticationFailed else Inr token)"

definition requiredHeader :: "string option \<Rightarrow> (string \<Rightarrow> bool) \<Rightarrow> agentError + string" where
  "requiredHeader value pattern = (case value of
     None \<Rightarrow> Inl agentAuthenticationFailed
   | Some v \<Rightarrow> if v = [] \<or> \<not> pattern v then Inl agentAuthenticationFailed else Inr v)"

definition edgeAddress :: "AgentRequest \<Rightarrow> string" where
  "edgeAddress q = (case aq_edgeAddress q of
     None \<Rightarrow> ''edge-address-unavailable''
   | Some a \<Rightarrow> if js_trim a = [] then ''edge-address-unavailable'' else js_trim a)"

definition AGENT_TIMESTAMP_WINDOW :: int where
  "AGENT_TIMESTAMP_WINDOW = 5 * 60000"

text \<open>The signed headers: time stamp, nonce, job and signature.\<close>

record SignedHeaders =
  sh_timestamp :: string
  sh_nonce :: string
  sh_jobId :: string
  sh_signature :: string

definition timestampMs :: "SignedHeaders \<Rightarrow> int" where
  "timestampMs h = int (nat_of_dec (sh_timestamp h))"

definition signedHeaders :: "AgentRequest \<Rightarrow> int \<Rightarrow> agentError + SignedHeaders" where
  "signedHeaders q nowMs =
     andThen (requiredHeader (aq_timestamp q) timestampPattern) (\<lambda>timestamp.
     andThen (requiredHeader (aq_nonce q) noncePattern) (\<lambda>nonce.
     andThen (requiredHeader (aq_jobId q) jobIdPattern) (\<lambda>jobId.
     andThen (requiredHeader (aq_signature q) isSha256) (\<lambda>signature.
     let h = \<lparr>sh_timestamp = timestamp, sh_nonce = nonce, sh_jobId = jobId, sh_signature = signature\<rparr> in
     andThen (throwIf (\<not> isSafeInteger (NInt (timestampMs h)) \<or> \<bar>nowMs - timestampMs h\<bar> > AGENT_TIMESTAMP_WINDOW)
       agentAuthenticationFailed) (\<lambda>_. Inr h)))))"

definition signatureMatches :: "AgentConfig \<Rightarrow> string \<Rightarrow> AgentRequest \<Rightarrow> SignedHeaders \<Rightarrow> bool" where
  "signatureMatches cfg token q h \<longleftrightarrow>
     ac_hmacHex cfg token (createSupplierGatewaySignaturePayload (sh_timestamp h) (sh_nonce h) (sh_jobId h)
       (ac_sha256Hex cfg (aq_rawBody q))) = sh_signature h"

section \<open>The program\<close>

text \<open>What a request carries along: its credential, the digests of it, and the scope of its edge address.\<close>

record AuthCall =
  as_request :: AgentRequest
  as_token :: string
  as_lookups :: "CredentialLookup list"
  as_legacyDigest :: string
  as_edgeScope :: string

record AgentAuthorizationIdentity =
  id_credentialDigest :: string
  id_gatewayToken :: string
  id_supplierTenantId :: string
  id_supplierId :: string
  id_signedJobId :: string
  id_authorizations :: "(string \<times> int \<times> string \<times> string) list"

datatype authHandler =
    CountEdge AuthCall
  | ReadEdge AuthCall int
  | SelectRows AuthCall SignedHeaders int
  | CountSigned AuthCall SignedHeaders int "AuthorizationRow list"
  | ReadSigned AuthCall SignedHeaders int "AuthorizationRow list" int
  | DropExpired AuthCall SignedHeaders int "AuthorizationRow list"
  | ClaimNonce AuthCall SignedHeaders int "AuthorizationRow list"
  | MigrateAndRefuse AuthCall int
  | MigrateStale AuthCall SignedHeaders int "AuthorizationRow list"
  | MigrateAll AuthCall SignedHeaders int "AuthorizationRow list"
  | AssertCurrent AuthCall SignedHeaders int "AuthorizationRow list"

type_synonym authResult = "agentError + AgentAuthorizationIdentity"
type_synonym authStep = "agentStore \<times> (authHandler + authResult)"

definition activeLookup :: "AuthCall \<Rightarrow> CredentialLookup" where
  "activeLookup c = hd (as_lookups c)"

definition nonceNamespaces :: "AuthCall \<Rightarrow> string list" where
  "nonceNamespaces c = remdups (as_legacyDigest c # map cl_digest (as_lookups c))"

text \<open>\<open>lookups\<close> are the digests under the readable keys, the active key first.\<close>

definition authenticateAgentRequest :: "AgentConfig \<Rightarrow> (string \<Rightarrow> CredentialLookup list) \<Rightarrow> AgentRequest \<Rightarrow> agentError + authHandler" where
  "authenticateAgentRequest cfg lookups q =
     andThen (bearerToken (aq_authorization q)) (\<lambda>token.
     let edgeScope = ''agent-auth-'' @ take 48 (cl_digest (hd (lookups (''agent-edge:'' @ edgeAddress q)))) in
     andThen (throwIf (\<not> jobIdPattern edgeScope) AgentException) (\<lambda>_.
       Inr (CountEdge \<lparr>as_request = q, as_token = token, as_lookups = lookups token,
         as_legacyDigest = ac_sha256Hex cfg token, as_edgeScope = edgeScope\<rparr>)))"

definition signedScope :: "AuthCall \<Rightarrow> string" where
  "signedScope c = ''agent-'' @ cl_digest (activeLookup c)"

text \<open>Statements take effect as a whole; their reply may be lost.\<close>

definition runAgent :: "bool \<Rightarrow> bool \<Rightarrow> agentStmt list \<Rightarrow> agentStore \<Rightarrow> agentStore \<times> nat list option" where
  "runAgent performed replied ss st =
     (if \<not> performed then (st, None)
      else case batch ss st of Inl e \<Rightarrow> (st, None) | Inr (st', ns) \<Rightarrow> (st', if replied then Some ns else None))"

definition authRejected :: "agentError \<Rightarrow> authHandler + authResult" where
  "authRejected e = Inr (Inl e)"

definition agentIdentity :: "AuthCall \<Rightarrow> SignedHeaders \<Rightarrow> AuthorizationRow list \<Rightarrow> AgentAuthorizationIdentity" where
  "agentIdentity c h rows =
     \<lparr>id_credentialDigest = cl_digest (activeLookup c), id_gatewayToken = as_token c,
      id_supplierTenantId = ar_tenant_id (hd rows), id_supplierId = ar_supplier_id (hd rows),
      id_signedJobId = sh_jobId h,
      id_authorizations = map (\<lambda>r. (ar_request_id r, ar_authorization_revision r, ar_provider_id r, ar_model_pattern r)) rows\<rparr>"

definition selectedStep :: "AgentConfig \<Rightarrow> AuthCall \<Rightarrow> SignedHeaders \<Rightarrow> int \<Rightarrow> AuthorizationRow list \<Rightarrow> authHandler + authResult" where
  "selectedStep cfg c h now rows =
     (if \<not> signatureMatches cfg (as_token c) (as_request c) h \<or> rows = [] then authRejected agentAuthenticationFailed
      else if list_ex (\<lambda>r. ar_tenant_id r \<noteq> ar_tenant_id (hd rows) \<or> ar_supplier_id r \<noteq> ar_supplier_id (hd rows)) rows
      then authRejected (AgentError ''INTERNAL_ERROR'' 500 False)
      else if \<not> jobIdPattern (signedScope c) then authRejected AgentException
      else Inl (CountSigned c h now rows))"

definition staleLookupRows :: "AuthCall \<Rightarrow> AuthorizationRow list \<Rightarrow> AuthorizationRow list" where
  "staleLookupRows c rows = filter (\<lambda>r. \<not> boundTo (activeLookup c) r) rows"

definition claimedStep :: "AuthCall \<Rightarrow> SignedHeaders \<Rightarrow> int \<Rightarrow> AuthorizationRow list \<Rightarrow> nat \<Rightarrow> authHandler + authResult" where
  "claimedStep c h now rows changes =
     (if changes \<noteq> length (nonceNamespaces c) then authRejected (AgentError ''CONFLICT'' 409 False)
      else if length rows > MAX_AGENT_AUTHORIZATIONS_PER_TOKEN then Inl (MigrateAndRefuse c now)
      else if staleLookupRows c rows \<noteq> [] then Inl (MigrateStale c h now rows)
      else Inl (MigrateAll c h now rows))"

definition migrateAllStatement :: "AgentConfig \<Rightarrow> AuthCall \<Rightarrow> int \<Rightarrow> agentStmt" where
  "migrateAllStatement cfg c now =
     onAgentDatabase (migrateAgentLookupNamespacesSql (activeLookup c) (as_lookups c) (as_legacyDigest c) (ac_isoText cfg now))"

definition lookupCountInBounds :: "AuthCall \<Rightarrow> bool" where
  "lookupCountInBounds c \<longleftrightarrow> 1 \<le> length (as_lookups c) \<and> length (as_lookups c) < MAX_AGENT_NONCE_NAMESPACES"

text \<open>\<open>performed\<close> and \<open>replied\<close> are the outcome of the access.\<close>

fun advanceAuth :: "AgentConfig \<Rightarrow> int \<Rightarrow> bool \<Rightarrow> bool \<Rightarrow> authHandler \<Rightarrow> agentStore \<Rightarrow> authStep" where
  "advanceAuth cfg clk performed replied (CountEdge c) st =
     (case runAgent performed replied (rateLimitBatch (as_edgeScope c) ''agent.authentication'' AGENT_TIMESTAMP_WINDOW clk) st of
        (st', None) \<Rightarrow> (st', authRejected AgentException)
      | (st', Some ns) \<Rightarrow> (st', Inl (ReadEdge c (bucketStart clk AGENT_TIMESTAMP_WINDOW))))"
| "advanceAuth cfg clk performed replied (ReadEdge c bucket) st =
     (st, if \<not> performed \<or> \<not> replied then authRejected AgentException
        else if rateExceeded (as_edgeScope c) ''agent.authentication'' bucket 120 st
        then authRejected (AgentError ''RATE_LIMITED'' 429 True)
        else case signedHeaders (as_request c) clk of
            Inl e \<Rightarrow> authRejected e
          | Inr h \<Rightarrow> Inl (SelectRows c h clk))"
| "advanceAuth cfg clk performed replied (SelectRows c h now) st =
     (st, if \<not> performed \<or> \<not> replied then authRejected AgentException
        else selectedStep cfg c h now (SELECT_AGENT_AUTHORIZATIONS (as_legacyDigest c) (as_lookups c) (ac_isoText cfg now) st))"
| "advanceAuth cfg clk performed replied (CountSigned c h now rows) st =
     (case runAgent performed replied (rateLimitBatch (signedScope c) ''agent.signed-request'' AGENT_TIMESTAMP_WINDOW clk) st of
        (st', None) \<Rightarrow> (st', authRejected AgentException)
      | (st', Some ns) \<Rightarrow> (st', Inl (ReadSigned c h now rows (bucketStart clk AGENT_TIMESTAMP_WINDOW))))"
| "advanceAuth cfg clk performed replied (ReadSigned c h now rows bucket) st =
     (st, if \<not> performed \<or> \<not> replied then authRejected AgentException
        else if rateExceeded (signedScope c) ''agent.signed-request'' bucket 600 st
        then authRejected (AgentError ''RATE_LIMITED'' 429 True)
        else Inl (DropExpired c h now rows))"
| "advanceAuth cfg clk performed replied (DropExpired c h now rows) st =
     (case runAgent performed replied [dropExpiredNonces now] st of
        (st', None) \<Rightarrow> (st', authRejected AgentException)
      | (st', Some ns) \<Rightarrow> (st', if length (nonceNamespaces c) < 1 \<or> length (nonceNamespaces c) > MAX_AGENT_NONCE_NAMESPACES
          then authRejected AgentException else Inl (ClaimNonce c h now rows)))"
| "advanceAuth cfg clk performed replied (ClaimNonce c h now rows) st =
     (case runAgent performed replied
         [claimAgentNonceNamespacesSql (nonceNamespaces c) (sh_nonce h) (timestampMs h + AGENT_TIMESTAMP_WINDOW)] st of
        (st', None) \<Rightarrow> (st', authRejected AgentException)
      | (st', Some ns) \<Rightarrow> (st', claimedStep c h now rows (hd ns)))"
| "advanceAuth cfg clk performed replied (MigrateAndRefuse c now) st =
     (if \<not> lookupCountInBounds c then (st, authRejected AgentException)
      else case runAgent performed replied [migrateAllStatement cfg c now] st of
        (st', None) \<Rightarrow> (st', authRejected AgentException)
      | (st', Some ns) \<Rightarrow> (st', authRejected (AgentError ''CONFLICT'' 409 False)))"
| "advanceAuth cfg clk performed replied (MigrateStale c h now rows) st =
     (case runAgent performed replied
         (map (\<lambda>r. onAgentDatabase (migrateStaleLookup (activeLookup c) (ac_isoText cfg now) r)) (staleLookupRows c rows)) st of
        (st', None) \<Rightarrow> (st', authRejected AgentException)
      | (st', Some ns) \<Rightarrow> (st', if list_ex (\<lambda>n. n \<noteq> 1) ns then authRejected (AgentError ''CONFLICT'' 409 True)
          else Inl (MigrateAll c h now rows)))"
| "advanceAuth cfg clk performed replied (MigrateAll c h now rows) st =
     (if \<not> lookupCountInBounds c then (st, authRejected AgentException)
      else case runAgent performed replied [migrateAllStatement cfg c now] st of
        (st', None) \<Rightarrow> (st', authRejected AgentException)
      | (st', Some ns) \<Rightarrow> (st', Inl (AssertCurrent c h now rows)))"
| "advanceAuth cfg clk performed replied (AssertCurrent c h now rows) st =
     (st, if \<not> performed \<or> \<not> replied then authRejected AgentException
        else if COUNT_CURRENT_AUTHORIZATIONS rows (activeLookup c) (ac_isoText cfg now) st \<noteq> length rows
        then authRejected (AgentError ''CONFLICT'' 409 True)
        else Inr (Inr (agentIdentity c h rows)))"

end
