(* ===== verification/AgentSafety.thy ===== *)
theory AgentSafety
  imports AgentAuth
begin

text \<open>
  Any number of agent calls at once, with the maintenance of the nonce table and the rest of the control
  plane, as a transition system. A log keeps the nonces that calls have claimed. A claimed nonce stays in
  the table until the time stamp of its call is out of the window, and a call that is let in is signed
  and bound to current authorizations.
\<close>

section \<open>The transition system\<close>

record claimedNonce =
  cn_digest :: string
  cn_nonce :: string
  cn_timestamp :: int
  cn_clock :: int

record agentSystem =
  agents :: agentStore
  calling :: "authHandler list"
  now_ms :: int
  granted :: "claimedNonce list"

definition requestKeysDistinct :: "database \<Rightarrow> bool" where
  "requestKeysDistinct db \<longleftrightarrow> distinct (map ar_request_id (authorization_requests db))"

text \<open>A claim is granted when the call sees that all of its rows were inserted.\<close>

fun grantOf :: "int \<Rightarrow> authHandler \<Rightarrow> authHandler + authResult \<Rightarrow> claimedNonce list" where
  "grantOf clk (ClaimNonce c h now rows) (Inl h') =
     [\<lparr>cn_digest = as_legacyDigest c, cn_nonce = sh_nonce h, cn_timestamp = timestampMs h, cn_clock = clk\<rparr>]"
| "grantOf clk h r = []"

lemma grantOf_Inr [simp]: "grantOf clk h (Inr res) = []"
  by (cases h) simp_all

inductive agent_step :: "AgentConfig \<Rightarrow> agentSystem \<Rightarrow> agentSystem \<Rightarrow> bool" for cfg where
  tick: "now_ms s \<le> t \<Longrightarrow> agent_step cfg s (s\<lparr>now_ms := t\<rparr>)"
| arrive: "authenticateAgentRequest cfg lookups q = Inr h \<Longrightarrow> agent_step cfg s (s\<lparr>calling := calling s @ [h]\<rparr>)"
| access: "calling s = xs @ h # ys \<Longrightarrow> advanceAuth cfg (now_ms s) performed replied h (agents s) = (st, r) \<Longrightarrow>
    agent_step cfg s (s\<lparr>agents := st, calling := xs @ (case r of Inl h' \<Rightarrow> [h'] | Inr res \<Rightarrow> []) @ ys,
      granted := granted s @ grantOf (now_ms s) h r\<rparr>)"
| vanish: "calling s = xs @ h # ys \<Longrightarrow> agent_step cfg s (s\<lparr>calling := xs @ ys\<rparr>)"
| maintain: "maintainNonces t (agents s) = Inr (st, n) \<Longrightarrow> t \<le> now_ms s \<Longrightarrow> agent_step cfg s (s\<lparr>agents := st\<rparr>)"
| others: "requestKeysDistinct db \<Longrightarrow> agent_step cfg s (s\<lparr>agents := (agents s)\<lparr>ag_database := db\<rparr>\<rparr>)"

inductive agent_reachable :: "AgentConfig \<Rightarrow> agentSystem \<Rightarrow> bool" for cfg where
  start: "requestKeysDistinct db \<Longrightarrow> agent_reachable cfg
    \<lparr>agents = \<lparr>ag_database = db, agent_request_nonces = [], api_rate_limits = []\<rparr>, calling = [], now_ms = t, granted = []\<rparr>"
| step: "agent_reachable cfg s \<Longrightarrow> agent_step cfg s s' \<Longrightarrow> agent_reachable cfg s'"

section \<open>What a stopped call has established\<close>

definition signedCall :: "AgentConfig \<Rightarrow> AuthCall \<Rightarrow> SignedHeaders \<Rightarrow> AuthorizationRow list \<Rightarrow> bool" where
  "signedCall cfg c h rows \<longleftrightarrow> signatureMatches cfg (as_token c) (as_request c) h \<and> rows \<noteq> [] \<and>
     distinct (map ar_request_id rows) \<and>
     (\<forall>r \<in> set rows. ar_tenant_id r = ar_tenant_id (hd rows) \<and> ar_supplier_id r = ar_supplier_id (hd rows))"

fun authNeeds :: "AgentConfig \<Rightarrow> int \<Rightarrow> authHandler \<Rightarrow> bool" where
  "authNeeds cfg clk (SelectRows c h now) = (now \<le> clk \<and> \<bar>now - timestampMs h\<bar> \<le> AGENT_TIMESTAMP_WINDOW)"
| "authNeeds cfg clk (CountSigned c h now rows) = (now \<le> clk \<and> \<bar>now - timestampMs h\<bar> \<le> AGENT_TIMESTAMP_WINDOW \<and> signedCall cfg c h rows)"
| "authNeeds cfg clk (ReadSigned c h now rows bucket) = (now \<le> clk \<and> \<bar>now - timestampMs h\<bar> \<le> AGENT_TIMESTAMP_WINDOW \<and> signedCall cfg c h rows)"
| "authNeeds cfg clk (DropExpired c h now rows) = (now \<le> clk \<and> \<bar>now - timestampMs h\<bar> \<le> AGENT_TIMESTAMP_WINDOW \<and> signedCall cfg c h rows)"
| "authNeeds cfg clk (ClaimNonce c h now rows) = (now \<le> clk \<and> \<bar>now - timestampMs h\<bar> \<le> AGENT_TIMESTAMP_WINDOW \<and> signedCall cfg c h rows)"
| "authNeeds cfg clk (MigrateStale c h now rows) = (now \<le> clk \<and> \<bar>now - timestampMs h\<bar> \<le> AGENT_TIMESTAMP_WINDOW \<and> signedCall cfg c h rows)"
| "authNeeds cfg clk (MigrateAll c h now rows) = (now \<le> clk \<and> \<bar>now - timestampMs h\<bar> \<le> AGENT_TIMESTAMP_WINDOW \<and> signedCall cfg c h rows)"
| "authNeeds cfg clk (AssertCurrent c h now rows) = (now \<le> clk \<and> \<bar>now - timestampMs h\<bar> \<le> AGENT_TIMESTAMP_WINDOW \<and> signedCall cfg c h rows)"
| "authNeeds cfg clk h = True"

lemma authNeeds_later: "authNeeds cfg t h \<Longrightarrow> t \<le> t' \<Longrightarrow> authNeeds cfg t' h"
  by (cases h) auto

lemma select_distinct:
  assumes "requestKeysDistinct (ag_database st)"
  shows "distinct (map ar_request_id (SELECT_AGENT_AUTHORIZATIONS l ls now st))"
proof -
  let ?f = "filter (\<lambda>ar. readableLookup l ls ar \<and> supplyingAuthorization now (ag_database st) ar)
      (authorization_requests (ag_database st))"
  have "distinct (map ar_request_id ?f)" using assms by (simp add: requestKeysDistinct_def distinct_map_filter)
  then have "distinct (map ar_request_id (sort_key ar_created_at ?f))" by (simp add: distinct_map)
  then show ?thesis unfolding SELECT_AGENT_AUTHORIZATIONS_def by (simp add: take_map [symmetric])
qed

lemma signedHeaders_window:
  assumes "signedHeaders q clk = Inr h"
  shows "\<bar>clk - timestampMs h\<bar> \<le> AGENT_TIMESTAMP_WINDOW"
  using assms by (auto simp: signedHeaders_def Let_def not_less simp del: jobIdPattern.simps split: if_splits)

lemma selectedStep_signed:
  assumes "selectedStep cfg c h now rows = Inl h'" "distinct (map ar_request_id rows)"
  shows "h' = CountSigned c h now rows \<and> signedCall cfg c h rows"
proof -
  from assms(1) have "signatureMatches cfg (as_token c) (as_request c) h" "rows \<noteq> []" "h' = CountSigned c h now rows"
    and "\<not> list_ex (\<lambda>r. ar_tenant_id r \<noteq> ar_tenant_id (hd rows) \<or> ar_supplier_id r \<noteq> ar_supplier_id (hd rows)) rows"
    by (simp_all add: selectedStep_def authRejected_def split: if_splits)
  then show ?thesis using assms(2) unfolding signedCall_def list_ex_iff by blast
qed

lemma claimedStep_next: "claimedStep c h now rows n = Inl h' \<Longrightarrow>
    h' = MigrateAndRefuse c now \<or> h' = MigrateStale c h now rows \<or> h' = MigrateAll c h now rows"
  by (auto simp: claimedStep_def authRejected_def split: if_splits)

lemma authNeeds_next:
  assumes "advanceAuth cfg clk performed replied h st = (st', Inl h')" "authNeeds cfg clk h" "requestKeysDistinct (ag_database st)"
  shows "authNeeds cfg clk h'"
proof (cases h)
  case (CountEdge c)
  then show ?thesis using assms(1) by (auto simp: authRejected_def split: prod.splits option.splits)
next
  case (ReadEdge c bucket)
  then obtain h1 where "signedHeaders (as_request c) clk = Inr h1" "h' = SelectRows c h1 clk"
    using assms(1) by (auto simp: authRejected_def split: if_splits sum.splits)
  then show ?thesis using signedHeaders_window by simp
next
  case (SelectRows c h1 now)
  let ?rows = "SELECT_AGENT_AUTHORIZATIONS (as_legacyDigest c) (as_lookups c) (ac_isoText cfg now) st"
  have "selectedStep cfg c h1 now ?rows = Inl h'" using assms(1) SelectRows by (auto simp: authRejected_def split: if_splits)
  from selectedStep_signed [OF this select_distinct [OF assms(3)]] show ?thesis using assms(2) SelectRows by simp
next
  case (CountSigned c h1 now rows)
  then show ?thesis using assms(1,2) by (auto simp: authRejected_def split: prod.splits option.splits)
next
  case (ReadSigned c h1 now rows bucket)
  then show ?thesis using assms(1,2) by (auto simp: authRejected_def split: if_splits)
next
  case (DropExpired c h1 now rows)
  then show ?thesis using assms(1,2) by (auto simp: authRejected_def split: prod.splits option.splits if_splits)
next
  case (ClaimNonce c h1 now rows)
  then obtain n where "claimedStep c h1 now rows n = Inl h'"
    using assms(1) by (auto simp: authRejected_def split: prod.splits option.splits)
  from claimedStep_next [OF this] show ?thesis using assms(2) ClaimNonce by auto
next
  case (MigrateAndRefuse c now)
  then show ?thesis using assms(1) by (auto simp: authRejected_def split: prod.splits option.splits if_splits)
next
  case (MigrateStale c h1 now rows)
  then show ?thesis using assms(1,2) by (auto simp: authRejected_def split: prod.splits option.splits if_splits)
next
  case (MigrateAll c h1 now rows)
  then show ?thesis using assms(1,2) by (auto simp: authRejected_def split: prod.splits option.splits if_splits)
next
  case (AssertCurrent c h1 now rows)
  then show ?thesis using assms(1) by (auto simp: authRejected_def split: if_splits)
qed

section \<open>The nonce table\<close>

text \<open>A nonce row only goes when its time is over; the keys of the authorizations stay.\<close>

definition requestKeys :: "agentStore \<Rightarrow> string list" where
  "requestKeys st = map ar_request_id (authorization_requests (ag_database st))"

definition noncesKept :: "int \<Rightarrow> agentStore \<Rightarrow> agentStore \<Rightarrow> bool" where
  "noncesKept clk st st' \<longleftrightarrow> requestKeys st' = requestKeys st \<and> (\<forall>r \<in> set (agent_request_nonces st). r \<in> set (agent_request_nonces st') \<or> nr_expires_at r \<le> clk)"

lemma noncesKept_refl [simp]: "noncesKept clk st st"
  by (simp add: noncesKept_def)

lemma noncesKept_same:
  "agent_request_nonces st' = agent_request_nonces st \<Longrightarrow> requestKeys st' = requestKeys st \<Longrightarrow> noncesKept clk st st'"
  by (simp add: noncesKept_def)

lemma noncesKept_trans: "noncesKept clk a b \<Longrightarrow> noncesKept clk b c \<Longrightarrow> noncesKept clk a c"
  unfolding noncesKept_def by auto

lemma noncesKept_drop:
  assumes "dropExpiredNonces now st = Inr (st', n)" "now \<le> clk"
  shows "noncesKept clk st st'"
  using assms set_take_subset
  by (fastforce simp: noncesKept_def requestKeys_def dropExpiredNonces_def deleteOldest_def Let_def)

lemma noncesKept_claim: "claimAgentNonceNamespacesSql ns nonce e st = Inr (st', n) \<Longrightarrow> noncesKept clk st st'"
  by (auto simp: noncesKept_def requestKeys_def claimAgentNonceNamespacesSql_def Let_def split: if_splits)

lemma noncesKept_rates: "batch (rateLimitBatch scope act w now) st = Inr (st', ns) \<Longrightarrow> noncesKept clk st st'"
  by (rule noncesKept_same) (auto simp: requestKeys_def rateLimitBatch_def countRequest_def dropExpiredRates_def Let_def split: if_splits)

text \<open>The migrations change the digests of authorizations only.\<close>

lemma noncesKept_migrate:
  assumes "onAgentDatabase s st = Inr (st', n)" "\<exists>p l now. s = updateAuthorizations p (bindLookup l now)"
  shows "noncesKept clk st st'"
  using assms by (auto simp: onAgentDatabase_def requestKeys_def updateAuthorizations_def updateRows_def bindLookup_def
      intro!: noncesKept_same)

lemma migrations:
  "\<exists>p l now. migrateStaleLookup active t row = updateAuthorizations p (bindLookup l now)"
  "\<exists>p l now. migrateAgentLookupNamespacesSql active readable legacyDigest t = updateAuthorizations p (bindLookup l now)"
  unfolding migrateStaleLookup_def migrateAgentLookupNamespacesSql_def by blast+

lemma noncesKept_migrateBatch:
  assumes "batch (map (\<lambda>r. onAgentDatabase (migrateStaleLookup active t r)) rows) st = Inr (st', ns)"
  shows "noncesKept clk st st'"
proof (rule batch_rel [OF _ _ _ assms, where R = "noncesKept clk"])
  fix s d d' n assume "s \<in> set (map (\<lambda>r. onAgentDatabase (migrateStaleLookup active t r)) rows)" "s d = Inr (d', n)"
  then show "noncesKept clk d d'" using noncesKept_migrate migrations(1) by auto
qed (auto intro: noncesKept_trans)

lemma runAgent_one: "runAgent performed replied [s] st = (st1, q) \<Longrightarrow> st1 = st \<or> (\<exists>n. s st = Inr (st1, n))"
  by (auto simp: runAgent_def split: if_splits sum.splits)

lemma runAgent_kept:
  assumes "runAgent performed replied ss st = (st', r)" "\<And>st' ns. batch ss st = Inr (st', ns) \<Longrightarrow> noncesKept clk st st'"
  shows "noncesKept clk st st'"
  using assms by (auto simp: runAgent_def split: if_splits sum.splits)

lemma advanceAuth_kept:
  assumes "advanceAuth cfg clk performed replied h st = (st', r)" "authNeeds cfg clk h"
  shows "noncesKept clk st st'"
proof -
  have one: "noncesKept clk st st1" if "runAgent performed replied [s] st = (st1, q)"
      "\<And>n. s st = Inr (st1, n) \<Longrightarrow> noncesKept clk st st1" for s st1 q
    using runAgent_one [OF that(1)] that(2) by auto
  show ?thesis
  proof (cases h)
    case (CountEdge c)
    obtain st1 q where q: "runAgent performed replied (rateLimitBatch (as_edgeScope c) ''agent.authentication'' AGENT_TIMESTAMP_WINDOW clk) st = (st1, q)" by fastforce
    then have "st' = st1" using assms(1) CountEdge by (auto split: option.splits)
    moreover have "noncesKept clk st st1" by (rule runAgent_kept [OF q]) (rule noncesKept_rates)
    ultimately show ?thesis by simp
  next
    case (CountSigned c h1 now rows)
    obtain st1 q where q: "runAgent performed replied (rateLimitBatch (signedScope c) ''agent.signed-request'' AGENT_TIMESTAMP_WINDOW clk) st = (st1, q)" by fastforce
    then have "st' = st1" using assms(1) CountSigned by (auto split: option.splits)
    moreover have "noncesKept clk st st1" by (rule runAgent_kept [OF q]) (rule noncesKept_rates)
    ultimately show ?thesis by simp
  next
    case (DropExpired c h1 now rows)
    obtain st1 q where q: "runAgent performed replied [dropExpiredNonces now] st = (st1, q)" by fastforce
    then have "st' = st1" using assms(1) DropExpired by (auto split: option.splits)
    moreover have "now \<le> clk" using assms(2) DropExpired by simp
    then have "noncesKept clk st st1" using one [OF q] noncesKept_drop by blast
    ultimately show ?thesis by simp
  next
    case (ClaimNonce c h1 now rows)
    obtain st1 q where q: "runAgent performed replied
        [claimAgentNonceNamespacesSql (nonceNamespaces c) (sh_nonce h1) (timestampMs h1 + AGENT_TIMESTAMP_WINDOW)] st = (st1, q)" by fastforce
    then have "st' = st1" using assms(1) ClaimNonce by (auto split: option.splits)
    moreover have "noncesKept clk st st1" by (rule one [OF q]) (rule noncesKept_claim)
    ultimately show ?thesis by simp
  next
    case (MigrateAndRefuse c now)
    obtain st1 q where q: "runAgent performed replied [migrateAllStatement cfg c now] st = (st1, q)" by fastforce
    then have "st' = st1 \<or> st' = st" using assms(1) MigrateAndRefuse by (auto split: option.splits if_splits)
    then show ?thesis using one [OF q] noncesKept_migrate [OF _ migrations(2)] unfolding migrateAllStatement_def by fastforce
  next
    case (MigrateAll c h1 now rows)
    obtain st1 q where q: "runAgent performed replied [migrateAllStatement cfg c now] st = (st1, q)" by fastforce
    then have "st' = st1 \<or> st' = st" using assms(1) MigrateAll by (auto split: option.splits if_splits)
    then show ?thesis using one [OF q] noncesKept_migrate [OF _ migrations(2)] unfolding migrateAllStatement_def by fastforce
  next
    case (MigrateStale c h1 now rows)
    let ?ss = "map (\<lambda>r. onAgentDatabase (migrateStaleLookup (activeLookup c) (ac_isoText cfg now) r)) (staleLookupRows c rows)"
    obtain st1 q where q: "runAgent performed replied ?ss st = (st1, q)" by fastforce
    then have "st' = st1" using assms(1) MigrateStale by (auto split: option.splits if_splits)
    moreover have "noncesKept clk st st1" by (rule runAgent_kept [OF q]) (rule noncesKept_migrateBatch)
    ultimately show ?thesis by simp
  qed (use assms(1) in auto)
qed

text \<open>A granted claim found no row of its nonce and leaves one until the end of the window.\<close>

definition nonceRecorded :: "agentStore \<Rightarrow> string \<Rightarrow> string \<Rightarrow> int \<Rightarrow> bool" where
  "nonceRecorded st d nonce e \<longleftrightarrow>
     \<lparr>nr_credential_digest = d, nr_nonce = nonce, nr_expires_at = e\<rparr> \<in> set (agent_request_nonces st)"

lemma claim_granted:
  assumes "advanceAuth cfg clk performed replied (ClaimNonce c h now rows) st = (st', Inl h')"
  shows "\<not> nonceRecorded st (as_legacyDigest c) (sh_nonce h) e"
    "nonceRecorded st' (as_legacyDigest c) (sh_nonce h) (timestampMs h + AGENT_TIMESTAMP_WINDOW)"
proof -
  from assms obtain n where b: "claimAgentNonceNamespacesSql (nonceNamespaces c) (sh_nonce h) (timestampMs h + AGENT_TIMESTAMP_WINDOW) st = Inr (st', n)"
    and c: "claimedStep c h now rows n = Inl h'"
    by (auto simp: runAgent_def authRejected_def split: if_splits sum.splits)
  have "n = length (nonceNamespaces c)" using c by (auto simp: claimedStep_def authRejected_def split: if_splits)
  moreover have mem: "as_legacyDigest c \<in> set (nonceNamespaces c)" by (simp add: nonceNamespaces_def)
  ultimately have "n \<noteq> 0" by auto
  then show "\<not> nonceRecorded st (as_legacyDigest c) (sh_nonce h) e"
    "nonceRecorded st' (as_legacyDigest c) (sh_nonce h) (timestampMs h + AGENT_TIMESTAMP_WINDOW)"
    using b mem by (auto simp: claimAgentNonceNamespacesSql_def Let_def nonceRecorded_def list_ex_iff image_iff split: if_splits)
qed

section \<open>The invariant\<close>

definition laterWindow :: "claimedNonce \<Rightarrow> claimedNonce \<Rightarrow> bool" where
  "laterWindow a b \<longleftrightarrow> cn_digest a = cn_digest b \<longrightarrow> cn_nonce a = cn_nonce b \<longrightarrow>
     cn_timestamp a + AGENT_TIMESTAMP_WINDOW \<le> cn_clock b"

definition guarded :: "AgentConfig \<Rightarrow> agentSystem \<Rightarrow> bool" where
  "guarded cfg s \<longleftrightarrow> requestKeysDistinct (ag_database (agents s)) \<and> (\<forall>h \<in> set (calling s). authNeeds cfg (now_ms s) h) \<and>
     (\<forall>g \<in> set (granted s). nonceRecorded (agents s) (cn_digest g) (cn_nonce g) (cn_timestamp g + AGENT_TIMESTAMP_WINDOW) \<or>
        cn_timestamp g + AGENT_TIMESTAMP_WINDOW \<le> now_ms s) \<and>
     sorted_wrt laterWindow (granted s)"

lemma nonceRecorded_kept:
  "noncesKept clk st st' \<Longrightarrow> nonceRecorded st d nonce e \<or> e \<le> clk \<Longrightarrow> nonceRecorded st' d nonce e \<or> e \<le> clk"
  unfolding noncesKept_def nonceRecorded_def by fastforce

lemma guardedD:
  assumes "guarded cfg s"
  shows "requestKeysDistinct (ag_database (agents s))" "h \<in> set (calling s) \<Longrightarrow> authNeeds cfg (now_ms s) h"
    "g \<in> set (granted s) \<Longrightarrow> nonceRecorded (agents s) (cn_digest g) (cn_nonce g) (cn_timestamp g + AGENT_TIMESTAMP_WINDOW) \<or>
        cn_timestamp g + AGENT_TIMESTAMP_WINDOW \<le> now_ms s"
    "sorted_wrt laterWindow (granted s)"
  using assms unfolding guarded_def by blast+

lemma requestKeysDistinct_kept: "noncesKept clk st st' \<Longrightarrow> requestKeysDistinct (ag_database st) \<Longrightarrow> requestKeysDistinct (ag_database st')"
  by (simp add: noncesKept_def requestKeys_def requestKeysDistinct_def)

lemma guarded_step:
  assumes "agent_step cfg s s'" "guarded cfg s"
  shows "guarded cfg s'"
  using assms(1)
proof cases
  case (tick t)
  then show ?thesis using assms(2) authNeeds_later unfolding guarded_def by fastforce
next
  case (arrive lookups q h)
  then have "authNeeds cfg (now_ms s) h" by (auto simp: authenticateAgentRequest_def Let_def)
  then show ?thesis using arrive assms(2) by (auto simp: guarded_def)
next
  case (access xs h ys performed replied st r)
  note d = guardedD [OF assms(2)]
  have n: "authNeeds cfg (now_ms s) h" using access(2) d(2) by simp
  note k = advanceAuth_kept [OF access(3) n]
  have old: "nonceRecorded st (cn_digest g) (cn_nonce g) (cn_timestamp g + AGENT_TIMESTAMP_WINDOW) \<or>
      cn_timestamp g + AGENT_TIMESTAMP_WINDOW \<le> now_ms s" if "g \<in> set (granted s)" for g
    using nonceRecorded_kept [OF k d(3) [OF that]] .
  have needs: "authNeeds cfg (now_ms s) h'" if "r = Inl h'" for h'
    using authNeeds_next [OF _ n d(1)] access(3) that by simp
  have calls: "\<forall>h' \<in> set (calling s'). authNeeds cfg (now_ms s') h'"
    using access d(2) needs by (auto split: sum.splits)
  have "(\<forall>g \<in> set (granted s'). nonceRecorded st (cn_digest g) (cn_nonce g) (cn_timestamp g + AGENT_TIMESTAMP_WINDOW) \<or>
        cn_timestamp g + AGENT_TIMESTAMP_WINDOW \<le> now_ms s) \<and> sorted_wrt laterWindow (granted s')"
  proof (cases "grantOf (now_ms s) h r = []")
    case True
    then show ?thesis using access(1) old d(4) by simp
  next
    case False
    then obtain c h1 now rows h' where h: "h = ClaimNonce c h1 now rows" "r = Inl h'" by (cases "(now_ms s, h, r)" rule: grantOf.cases) auto
    let ?g = "\<lparr>cn_digest = as_legacyDigest c, cn_nonce = sh_nonce h1, cn_timestamp = timestampMs h1, cn_clock = now_ms s\<rparr>"
    have gr: "granted s' = granted s @ [?g]" using access(1) h by simp
    note claim = claim_granted [OF access(3) [unfolded h]]
    have "laterWindow g ?g" if "g \<in> set (granted s)" for g
      using d(3) [OF that] claim(1) by (auto simp: laterWindow_def)
    then show ?thesis unfolding gr using old claim(2) d(4) by (auto simp: sorted_wrt_append)
  qed
  then show ?thesis using calls requestKeysDistinct_kept [OF k d(1)] access(1) unfolding guarded_def by simp
next
  case (vanish xs h ys)
  then show ?thesis using assms(2) by (auto simp: guarded_def)
next
  case (maintain t st n)
  have k: "noncesKept (now_ms s) (agents s) st"
    using maintain by (auto simp: maintainNonces_def noncesKept_def requestKeys_def)
  show ?thesis
    using assms(2) nonceRecorded_kept [OF k] requestKeysDistinct_kept [OF k] maintain(1) unfolding guarded_def by simp
next
  case (others db)
  then show ?thesis using assms(2) by (auto simp: guarded_def nonceRecorded_def)
qed

lemma guarded_reachable: "agent_reachable cfg s \<Longrightarrow> guarded cfg s"
proof (induction rule: agent_reachable.induct)
  case (start db t)
  then show ?case by (simp add: guarded_def)
next
  case (step s s')
  then show ?case using guarded_step by blast
qed

section \<open>A call that is let in\<close>

text \<open>As many rows are counted as were read, so each of those is counted.\<close>

lemma count_covers:
  assumes "countRows (\<lambda>ar. list_ex (\<lambda>r. ar_request_id ar = ar_request_id r \<and> ar_authorization_revision ar = ar_authorization_revision r) rows \<and> p ar) ars = length rows"
    and "distinct (map ar_request_id ars)" "distinct (map ar_request_id rows)" "r \<in> set rows"
  shows "\<exists>ar \<in> set ars. ar_request_id ar = ar_request_id r \<and> ar_authorization_revision ar = ar_authorization_revision r \<and> p ar"
proof -
  let ?q = "\<lambda>ar. list_ex (\<lambda>r. ar_request_id ar = ar_request_id r \<and> ar_authorization_revision ar = ar_authorization_revision r) rows \<and> p ar"
  let ?found = "filter ?q ars"
  have sub: "ar_request_id ` set ?found \<subseteq> ar_request_id ` set rows" by (auto simp: list_ex_iff)
  have "distinct (map ar_request_id ?found)" using assms(2) by (simp add: distinct_map_filter)
  then have "card (ar_request_id ` set ?found) = length ?found" using distinct_card by fastforce
  moreover have "card (ar_request_id ` set rows) = length rows" using assms(3) distinct_card by fastforce
  moreover have "length ?found = length rows" using assms(1) by (simp add: countRows_def)
  ultimately have "ar_request_id ` set ?found = ar_request_id ` set rows" using sub by (intro card_subset_eq) simp_all
  moreover have "ar_request_id r \<in> ar_request_id ` set rows" using assms(4) by (rule imageI)
  ultimately have "ar_request_id r \<in> ar_request_id ` set ?found" by simp
  then obtain ar where ar: "ar_request_id r = ar_request_id ar" "ar \<in> set ?found" by (rule imageE)
  then have in_ars: "ar \<in> set ars" "?q ar" by simp_all
  then have "\<exists>r' \<in> set rows. ar_request_id ar = ar_request_id r' \<and> ar_authorization_revision ar = ar_authorization_revision r'"
    by (simp only: list_ex_iff)
  then obtain r' where r': "r' \<in> set rows" "ar_request_id ar = ar_request_id r'" "ar_authorization_revision ar = ar_authorization_revision r'"
    by (elim bexE conjE)
  have "ar_request_id r' = ar_request_id r" by (rule trans [OF sym [OF r'(2)] sym [OF ar(1)]])
  then have "r' = r" using assms(3,4) r'(1) unfolding distinct_map inj_on_def by blast
  then show ?thesis using in_ars r'(3) ar(1) by (intro bexI [of _ ar]) simp_all
qed

end
