(* ===== verification/AgentScenario.thy ===== *)
theory AgentScenario
  imports AgentSafety Market
begin

text \<open>
  The properties of the authentication of agent calls, and a run in which a call is let in and repeated
  at the end of its window. The digests are constants here; the properties hold for every choice.
\<close>

section \<open>A call that runs alone\<close>

fun callRun :: "AgentConfig \<Rightarrow> int \<Rightarrow> nat \<Rightarrow> authHandler \<Rightarrow> agentStore \<Rightarrow> authStep \<times> claimedNonce list" where
  "callRun cfg clk 0 h st = ((st, Inl h), [])"
| "callRun cfg clk (Suc n) h st = (case advanceAuth cfg clk True True h st of
     (st', r) \<Rightarrow> (case r of
         Inl h' \<Rightarrow> (case callRun cfg clk n h' st' of (q, gs) \<Rightarrow> (q, grantOf clk h r @ gs))
       | Inr res \<Rightarrow> ((st', r), grantOf clk h r)))"

lemma callRun_reachable:
  assumes "agent_reachable cfg \<lparr>agents = st, calling = [h], now_ms = t, granted = gs\<rparr>"
    and "callRun cfg t n h st = ((st', r), gs')"
  shows "agent_reachable cfg \<lparr>agents = st', calling = (case r of Inl h' \<Rightarrow> [h'] | Inr res \<Rightarrow> []), now_ms = t, granted = gs @ gs'\<rparr>"
  using assms
proof (induction n arbitrary: st h gs gs')
  case (Suc n)
  obtain st1 r1 where a: "advanceAuth cfg t True True h st = (st1, r1)" by fastforce
  let ?s = "\<lparr>agents = st, calling = [h], now_ms = t, granted = gs\<rparr>"
  have "agent_step cfg ?s (?s\<lparr>agents := st1, calling := [] @ (case r1 of Inl h' \<Rightarrow> [h'] | Inr res \<Rightarrow> []) @ [],
      granted := granted ?s @ grantOf (now_ms ?s) h r1\<rparr>)"
    using a by (intro agent_step.access [where performed = True and replied = True]) simp_all
  then have next_: "agent_reachable cfg \<lparr>agents = st1, calling = (case r1 of Inl h' \<Rightarrow> [h'] | Inr res \<Rightarrow> []), now_ms = t,
      granted = gs @ grantOf t h r1\<rparr>"
    using agent_reachable.step [OF Suc.prems(1)] by simp
  show ?case
  proof (cases r1)
    case (Inl h')
    obtain q gs1 where q: "callRun cfg t n h' st1 = (q, gs1)" by fastforce
    then have "q = (st', r)" "gs' = grantOf t h r1 @ gs1" using Suc.prems(2) by (simp_all add: a Inl)
    then show ?thesis using Suc.IH [of st1 h' "gs @ grantOf t h r1" gs1] next_ q Inl by simp
  next
    case (Inr res)
    then have "st1 = st'" "r = Inr res" "gs' = []" using Suc.prems(2) by (simp_all add: a Inr)
    then show ?thesis using next_ Inr by simp
  qed
qed (auto split: sum.splits)

definition afterCall :: "AgentConfig \<Rightarrow> (string \<Rightarrow> CredentialLookup list) \<Rightarrow> AgentRequest \<Rightarrow> nat \<Rightarrow> agentSystem \<Rightarrow> agentSystem" where
  "afterCall cfg lookups q n s = (case authenticateAgentRequest cfg lookups q of
     Inl e \<Rightarrow> s
   | Inr h \<Rightarrow> (case callRun cfg (now_ms s) n h (agents s) of ((st, r), gs) \<Rightarrow>
       \<lparr>agents = st, calling = (case r of Inl h' \<Rightarrow> [h'] | Inr res \<Rightarrow> []), now_ms = now_ms s, granted = granted s @ gs\<rparr>))"

lemma afterCall_reachable:
  assumes "agent_reachable cfg s" "calling s = []"
  shows "agent_reachable cfg (afterCall cfg lookups q n s)"
proof (cases "authenticateAgentRequest cfg lookups q")
  case (Inr h)
  have "agent_step cfg s (s\<lparr>calling := calling s @ [h]\<rparr>)" by (rule agent_step.arrive [OF Inr])
  moreover have "s\<lparr>calling := calling s @ [h]\<rparr> = \<lparr>agents = agents s, calling = [h], now_ms = now_ms s, granted = granted s\<rparr>"
    using assms(2) by (cases s) simp
  ultimately have start: "agent_reachable cfg \<lparr>agents = agents s, calling = [h], now_ms = now_ms s, granted = granted s\<rparr>"
    using agent_reachable.step [OF assms(1)] by metis
  obtain st r gs where r: "callRun cfg (now_ms s) n h (agents s) = ((st, r), gs)" by (metis prod.exhaust)
  show ?thesis using callRun_reachable [OF start r] by (simp add: afterCall_def Inr r)
qed (use assms(1) in \<open>simp add: afterCall_def\<close>)

section \<open>The run\<close>

definition fixedConfig :: AgentConfig where
  "fixedConfig = \<lparr>ac_isoText = (\<lambda>n. ''2026''), ac_sha256Hex = (\<lambda>s. ''a''),
     ac_hmacHex = (\<lambda>k s. replicate 64 (CHR ''b''))\<rparr>"

definition fixedLookups :: "string \<Rightarrow> CredentialLookup list" where
  "fixedLookups s = [\<lparr>cl_digest = ''cc'', cl_version = 3, cl_keyId = ''lookup-1''\<rparr>]"

definition fixedTime :: int where
  "fixedTime = 1"

definition fixedCall :: AgentRequest where
  "fixedCall = \<lparr>aq_authorization = Some (''Bearer '' @ replicate 32 (CHR ''t'')), aq_edgeAddress = None,
     aq_timestamp = Some ''0000000000001'', aq_nonce = Some (replicate 16 (CHR ''n'')), aq_jobId = Some ''job-0001'',
     aq_signature = Some (replicate 64 (CHR ''b'')), aq_rawBody = []\<rparr>"

definition fixedAuthorization :: AuthorizationRow where
  "fixedAuthorization = \<lparr>ar_request_id = ''request-1'', ar_tenant_id = ''tenant-2'', ar_supplier_id = ''supplier-1'',
     ar_provider_id = ''provider'', ar_source_type = ''api'', ar_metering_mode = ''tokens'', ar_evidence_ref = ''ref'',
     ar_model_pattern = ''model'', ar_region_code = ''eu'', ar_data_classes_json = ''[]'', ar_requests_per_minute = 1,
     ar_tokens_per_minute = 1, ar_concurrency = 1, ar_max_output_tokens = 1, ar_valid_until = ''2027'',
     ar_gateway_endpoint = [], ar_encrypted_gateway_token = [], ar_gateway_token_iv = [], ar_credential_key_id = [],
     ar_gateway_token_digest = Some ''cc'', ar_gateway_token_digest_version = 3,
     ar_gateway_token_lookup_key_id = ''lookup-1'', ar_encryption_key_version = 1, ar_authorization_revision = 1,
     ar_status = ''approved'', ar_review_note = None, ar_reviewed_by = None, ar_review_command_id = None,
     ar_reviewed_at = None, ar_credential_rotated_at = None, ar_revoked_at = None, ar_revocation_reason_code = None,
     ar_created_at = ''2025'', ar_updated_at = ''2025''\<rparr>"

definition fixedSupplier :: SupplierRow where
  "fixedSupplier = \<lparr>s_supplier_id = ''supplier-1'', s_tenant_id = ''tenant-2'', s_user_id = ''user'', s_kind = ''organization'',
     s_legal_name = ''S'', s_display_name = ''S'', s_country_code = ''DE'', s_tax_residence_country_code = ''DE'',
     s_status = ''active'', s_supply_enabled = 1, s_version = 1, s_created_at = ''2025'', s_updated_at = ''2025''\<rparr>"

definition fixedStart :: agentSystem where
  "fixedStart = \<lparr>agents = \<lparr>ag_database = emptyDatabase\<lparr>authorization_requests := [fixedAuthorization], suppliers := [fixedSupplier]\<rparr>,
      agent_request_nonces = [], api_rate_limits = []\<rparr>, calling = [], now_ms = fixedTime, granted = []\<rparr>"

text \<open>The call at its own time, up to its last access and to its end.\<close>

definition fixedAlmost :: agentSystem where
  "fixedAlmost = afterCall fixedConfig fixedLookups fixedCall 8 fixedStart"

definition fixedAccepted :: agentSystem where
  "fixedAccepted = afterCall fixedConfig fixedLookups fixedCall 9 fixedStart"

text \<open>The end of its window, when the maintenance has just run, and the repeated call.\<close>

definition fixedMaintained :: agentSystem where
  "fixedMaintained = fixedAccepted\<lparr>now_ms := fixedTime + AGENT_TIMESTAMP_WINDOW,
     agents := (case maintainNonces (fixedTime + AGENT_TIMESTAMP_WINDOW) (agents fixedAccepted) of Inr (st, n) \<Rightarrow> st)\<rparr>"

definition fixedRepeated :: agentSystem where
  "fixedRepeated = afterCall fixedConfig fixedLookups fixedCall 9 fixedMaintained"

lemma fixedStart_reachable: "agent_reachable fixedConfig fixedStart"
  unfolding fixedStart_def by (rule agent_reachable.start) (simp add: requestKeysDistinct_def emptyDatabase_def)

lemma fixedAlmost_calling: "(case calling fixedAlmost of [h] \<Rightarrow>
    (case advanceAuth fixedConfig (now_ms fixedAlmost) True True h (agents fixedAlmost) of (st, Inr (Inr i)) \<Rightarrow> True | _ \<Rightarrow> False) | _ \<Rightarrow> False)"
  by code_simp

lemma fixedAccepted_granted: "calling fixedAccepted = [] \<and> map cn_timestamp (granted fixedAccepted) = [fixedTime]"
  by code_simp

lemma fixedRepeated_granted: "calling fixedRepeated = [] \<and>
    map (\<lambda>g. (cn_digest g, cn_nonce g, cn_timestamp g, cn_clock g)) (granted fixedRepeated) =
      [(''a'', replicate 16 (CHR ''n''), fixedTime, fixedTime),
       (''a'', replicate 16 (CHR ''n''), fixedTime, fixedTime + 5 * 60000)]"
  by code_simp

lemma fixedAlmost_reachable: "agent_reachable fixedConfig fixedAlmost"
  unfolding fixedAlmost_def by (rule afterCall_reachable [OF fixedStart_reachable]) (simp add: fixedStart_def)

lemma fixedRepeated_reachable: "agent_reachable fixedConfig fixedRepeated"
proof -
  have first: "agent_reachable fixedConfig fixedAccepted"
    unfolding fixedAccepted_def by (rule afterCall_reachable [OF fixedStart_reachable]) (simp add: fixedStart_def)
  let ?t = "fixedTime + AGENT_TIMESTAMP_WINDOW"
  have clk: "now_ms fixedAccepted = fixedTime"
    by (simp add: fixedAccepted_def afterCall_def fixedStart_def split: sum.split prod.split)
  have later: "agent_reachable fixedConfig (fixedAccepted\<lparr>now_ms := ?t\<rparr>)"
    by (rule agent_reachable.step [OF first], rule agent_step.tick) (simp add: clk AGENT_TIMESTAMP_WINDOW_def)
  obtain st n where m: "maintainNonces ?t (agents (fixedAccepted\<lparr>now_ms := ?t\<rparr>)) = Inr (st, n)"
    by (simp add: maintainNonces_def)
  have "agent_reachable fixedConfig (fixedAccepted\<lparr>now_ms := ?t\<rparr>\<lparr>agents := st\<rparr>)"
    by (rule agent_reachable.step [OF later], rule agent_step.maintain [OF m]) simp
  moreover have "fixedAccepted\<lparr>now_ms := ?t\<rparr>\<lparr>agents := st\<rparr> = fixedMaintained"
    using m by (simp add: fixedMaintained_def)
  ultimately have "agent_reachable fixedConfig fixedMaintained" by simp
  then show ?thesis unfolding fixedRepeated_def
    by (rule afterCall_reachable) (simp add: fixedMaintained_def fixedAccepted_granted)
qed

section \<open>What a call sees of the nonces\<close>

abbreviation withNonces :: "NonceRow list \<Rightarrow> agentStore \<Rightarrow> agentStore" where
  "withNonces N st \<equiv> st\<lparr>agent_request_nonces := N\<rparr>"

text \<open>The rows that stand in the way of a call with these headers.\<close>

definition claims :: "AuthCall \<Rightarrow> SignedHeaders \<Rightarrow> NonceRow \<Rightarrow> bool" where
  "claims c h r \<longleftrightarrow> nr_nonce r = sh_nonce h \<and> nr_credential_digest r \<in> set (nonceNamespaces c)"

text \<open>A call up to its claim, and after it.\<close>

fun early :: "int \<Rightarrow> AuthCall \<Rightarrow> authHandler \<Rightarrow> bool" where
  "early t c (CountEdge c') \<longleftrightarrow> c' = c"
| "early t c (ReadEdge c' b) \<longleftrightarrow> c' = c"
| "early t c (SelectRows c' h now) \<longleftrightarrow> c' = c \<and> now = t \<and> signedHeaders (as_request c) t = Inr h"
| "early t c (CountSigned c' h now rows) \<longleftrightarrow> c' = c \<and> now = t \<and> signedHeaders (as_request c) t = Inr h"
| "early t c (ReadSigned c' h now rows b) \<longleftrightarrow> c' = c \<and> now = t \<and> signedHeaders (as_request c) t = Inr h"
| "early t c (DropExpired c' h now rows) \<longleftrightarrow> c' = c \<and> now = t \<and> signedHeaders (as_request c) t = Inr h"
| "early t c ah \<longleftrightarrow> False"

fun claiming :: "int \<Rightarrow> AuthCall \<Rightarrow> authHandler \<Rightarrow> bool" where
  "claiming t c (ClaimNonce c' h now rows) \<longleftrightarrow> c' = c \<and> now = t \<and> signedHeaders (as_request c) t = Inr h"
| "claiming t c ah \<longleftrightarrow> False"

fun late :: "authHandler \<Rightarrow> bool" where
  "late (MigrateAndRefuse c now) \<longleftrightarrow> True"
| "late (MigrateStale c h now rows) \<longleftrightarrow> True"
| "late (MigrateAll c h now rows) \<longleftrightarrow> True"
| "late (AssertCurrent c h now rows) \<longleftrightarrow> True"
| "late ah \<longleftrightarrow> False"

definition keptAt :: "int \<Rightarrow> authHandler \<Rightarrow> NonceRow list \<Rightarrow> NonceRow list" where
  "keptAt t ah N = (case ah of DropExpired c h now rows \<Rightarrow> deleteOldest 100 nr_expires_at (\<lambda>r. nr_expires_at r < t) N | _ \<Rightarrow> N)"

lemma batch_withNonces:
  assumes "\<And>s st. s \<in> set ss \<Longrightarrow> s (withNonces M st) = (case s st of Inl e \<Rightarrow> Inl e | Inr (st', n) \<Rightarrow> Inr (withNonces M st', n))"
  shows "batch ss (withNonces M st) = (case batch ss st of Inl e \<Rightarrow> Inl e | Inr (st', ns) \<Rightarrow> Inr (withNonces M st', ns))"
  using assms
proof (induction ss arbitrary: st)
  case (Cons s ss)
  have h: "s (withNonces M st) = (case s st of Inl e \<Rightarrow> Inl e | Inr (st', n) \<Rightarrow> Inr (withNonces M st', n))" by (rule Cons.prems) simp
  have ih: "batch ss (withNonces M st) = (case batch ss st of Inl e \<Rightarrow> Inl e | Inr (st', ns) \<Rightarrow> Inr (withNonces M st', ns))" for st
    using Cons.IH Cons.prems by simp
  show ?case by (cases "s st") (auto simp: h ih andThen_def split: sum.splits prod.splits)
qed simp

lemma rates_withNonces:
  "batch (rateLimitBatch scope act w now) (withNonces M st) =
     (case batch (rateLimitBatch scope act w now) st of Inl e \<Rightarrow> Inl e | Inr (st', ns) \<Rightarrow> Inr (withNonces M st', ns))"
  by (rule batch_withNonces) (auto simp: rateLimitBatch_def countRequest_def dropExpiredRates_def Let_def)

lemma database_withNonces:
  "onAgentDatabase q (withNonces M st) = (case onAgentDatabase q st of Inl e \<Rightarrow> Inl e | Inr (st', n) \<Rightarrow> Inr (withNonces M st', n))"
  by (auto simp: onAgentDatabase_def andThen_def split: sum.splits)

lemma databases_withNonces:
  "batch (map (\<lambda>r. onAgentDatabase (f r)) rows) (withNonces M st) =
     (case batch (map (\<lambda>r. onAgentDatabase (f r)) rows) st of Inl e \<Rightarrow> Inl e | Inr (st', ns) \<Rightarrow> Inr (withNonces M st', ns))"
  by (rule batch_withNonces) (auto simp: database_withNonces)

lemma withNonces_twice: "st = withNonces N st' \<Longrightarrow> withNonces M st = withNonces M st'"
  by simp

lemma early_step:
  assumes "early t c ah" "advanceAuth cfg t True True ah (withNonces N st) = (s, r)"
  shows "advanceAuth cfg t True True ah (withNonces M st) = (withNonces (keptAt t ah M) s, r) \<and>
    agent_request_nonces s = keptAt t ah N \<and> grantOf t ah r = [] \<and>
    (\<forall>ah'. r = Inl ah' \<longrightarrow> early t c ah' \<or> claiming t c ah') \<and> (\<forall>i. r \<noteq> Inr (Inr i))"
  using assms
proof (cases ah)
  case (CountEdge d)
  with assms show ?thesis
    by (auto simp: runAgent_def rates_withNonces authRejected_def keptAt_def split: sum.splits prod.splits)
next
  case (CountSigned d h now rows)
  with assms show ?thesis
    by (auto simp: runAgent_def rates_withNonces authRejected_def keptAt_def split: sum.splits prod.splits)
next
  case (DropExpired d h now rows)
  with assms show ?thesis
    by (auto simp: runAgent_def dropExpiredNonces_def Let_def authRejected_def keptAt_def split: if_splits)
qed (auto simp: authRejected_def selectedStep_def rateExceeded_def SELECT_AGENT_AUTHORIZATIONS_def keptAt_def
      split: sum.splits if_splits)

lemma late_step:
  assumes "late ah" "advanceAuth cfg t True True ah (withNonces N st) = (s, r)"
  shows "advanceAuth cfg t True True ah (withNonces M st) = (withNonces M s, r) \<and>
    agent_request_nonces s = N \<and> grantOf t ah r = [] \<and> (\<forall>ah'. r = Inl ah' \<longrightarrow> late ah')"
  using assms
  by (cases ah) (auto simp: runAgent_def migrateAllStatement_def databases_withNonces database_withNonces authRejected_def
      COUNT_CURRENT_AUTHORIZATIONS_def andThen_def split: sum.splits prod.splits if_splits)

text \<open>The claim: free or taken.\<close>

definition claimRows :: "AuthCall \<Rightarrow> SignedHeaders \<Rightarrow> NonceRow list" where
  "claimRows c h = map (\<lambda>d. \<lparr>nr_credential_digest = d, nr_nonce = sh_nonce h, nr_expires_at = timestampMs h + AGENT_TIMESTAMP_WINDOW\<rparr>)
     (nonceNamespaces c)"

lemma claim_free:
  assumes "claiming t c ah" "signedHeaders (as_request c) t = Inr h" "\<forall>r \<in> set N. \<not> claims c h r"
    and "advanceAuth cfg t True True ah (withNonces N st) = (s, r)"
  shows "s = withNonces (N @ claimRows c h) st \<and>
    (\<forall>M. (\<forall>r \<in> set M. \<not> claims c h r) \<longrightarrow> advanceAuth cfg t True True ah (withNonces M st) = (withNonces (M @ claimRows c h) st, r)) \<and>
    (\<forall>i. r \<noteq> Inr (Inr i)) \<and>
    (\<forall>ah'. r = Inl ah' \<longrightarrow> late ah' \<and> grantOf t ah r =
      [\<lparr>cn_digest = as_legacyDigest c, cn_nonce = sh_nonce h, cn_timestamp = timestampMs h, cn_clock = t\<rparr>])"
proof (cases ah)
  case (ClaimNonce d k now rows)
  with assms(1,2) have [simp]: "d = c" "now = t" "k = h" by simp_all
  have free: "\<not> list_ex (\<lambda>r. nr_nonce r = sh_nonce h \<and> nr_credential_digest r \<in> set (nonceNamespaces c)) L"
    if "\<forall>r \<in> set L. \<not> claims c h r" for L using that by (auto simp: list_ex_iff claims_def)
  have d: "remdups (nonceNamespaces c) = nonceNamespaces c" by (simp add: nonceNamespaces_def)
  have adv: "advanceAuth cfg t True True ah (withNonces L st) =
      (withNonces (L @ claimRows c h) st, claimedStep c h t rows (length (nonceNamespaces c)))" if "\<forall>r \<in> set L. \<not> claims c h r" for L
    using free [OF that] by (simp add: ClaimNonce runAgent_def claimAgentNonceNamespacesSql_def d Let_def claimRows_def)
  from assms(4) adv [OF assms(3)] have "s = withNonces (N @ claimRows c h) st" "r = claimedStep c h t rows (length (nonceNamespaces c))" by simp_all
  with adv show ?thesis by (auto simp: ClaimNonce claimedStep_def authRejected_def split: if_splits)
qed (use assms(1) in simp_all)

lemma claim_taken:
  assumes "claiming t c ah" "signedHeaders (as_request c) t = Inr h" "q \<in> set M" "claims c h q"
  shows "advanceAuth cfg t True True ah (withNonces M st) = (withNonces M st, Inr (Inl (AgentError ''CONFLICT'' 409 False)))"
proof (cases ah)
  case (ClaimNonce d k now rows)
  with assms(1,2) have [simp]: "d = c" "now = t" "k = h" by simp_all
  have "list_ex (\<lambda>r. nr_nonce r = sh_nonce h \<and> nr_credential_digest r \<in> set (nonceNamespaces c)) M"
    using assms(3,4) by (auto simp: list_ex_iff claims_def)
  moreover have "as_legacyDigest c \<in> set (nonceNamespaces c)" by (simp add: nonceNamespaces_def)
  then have "length (nonceNamespaces c) \<noteq> 0" by auto
  ultimately show ?thesis
    by (simp add: ClaimNonce runAgent_def claimAgentNonceNamespacesSql_def claimedStep_def authRejected_def)
qed (use assms(1) in simp_all)

section \<open>A call and its repetition\<close>

lemma kept_claims: "r \<in> set (keptAt t ah N) \<Longrightarrow> r \<in> set N"
  by (auto simp: keptAt_def deleteOldest_def split: authHandler.splits)

lemma kept_current: "r \<in> set N \<Longrightarrow> t \<le> nr_expires_at r \<Longrightarrow> r \<in> set (keptAt t ah N)"
  by (auto simp: keptAt_def deleteOldest_def dest!: in_set_takeD split: authHandler.splits)

lemma late_run:
  assumes "late ah" "callRun cfg t n ah (withNonces N st) = ((s, r), gs)"
  shows "agent_request_nonces s = N \<and> gs = [] \<and> callRun cfg t n ah (withNonces M st) = ((withNonces M s, r), [])"
  using assms
proof (induction n arbitrary: ah st gs)
  case (Suc n)
  obtain s1 r1 where a: "advanceAuth cfg t True True ah (withNonces N st) = (s1, r1)" by fastforce
  note l = late_step [OF Suc.prems(1) a]
  show ?case
  proof (cases r1)
    case (Inl ah')
    obtain q gs1 where q: "callRun cfg t n ah' s1 = (q, gs1)" by fastforce
    have "s1 = withNonces N s1" using l by (metis agentStore.surjective agentStore.update_convs(2))
    then have c: "callRun cfg t n ah' (withNonces N s1) = ((s, r), gs1)" using q Suc.prems(2) a Inl by (cases q) simp
    have "late ah'" using l [of M] Inl by simp
    note ih = Suc.IH [OF this c]
    have "gs = grantOf t ah r1 @ gs1" "q = (s, r)" using Suc.prems(2) a Inl q by simp_all
    with ih l [of M] l [of N] a Inl show ?thesis by (simp add: case_prod_beta)
  next
    case (Inr x)
    with Suc.prems(2) a have "s1 = s" "r = Inr x" "gs = []" by simp_all
    with l [of M] l [of N] Inr show ?thesis by simp
  qed
qed auto

lemma early_run:
  assumes "early t c ah \<or> claiming t c ah" "signedHeaders (as_request c) t = Inr h"
    and "callRun cfg t n ah (withNonces N st) = ((s, Inr (Inr i)), gs)"
  shows "gs = [\<lparr>cn_digest = as_legacyDigest c, cn_nonce = sh_nonce h, cn_timestamp = timestampMs h, cn_clock = t\<rparr>] \<and>
    (\<exists>L. agent_request_nonces s = L @ claimRows c h \<and> (\<forall>r \<in> set L. \<not> claims c h r)) \<and>
    (\<forall>M. (\<forall>r \<in> set M. \<not> claims c h r) \<longrightarrow> (\<exists>s'. callRun cfg t n ah (withNonces M st) = ((s', Inr (Inr i)), gs))) \<and>
    (\<forall>M q. q \<in> set M \<and> claims c h q \<and> t \<le> nr_expires_at q \<longrightarrow>
       (\<exists>s'. callRun cfg t n ah (withNonces M st) = ((s', Inr (Inl (AgentError ''CONFLICT'' 409 False))), [])))"
  using assms(1,3)
proof (induction n arbitrary: ah st N gs)
  case (Suc n)
  obtain s1 r1 where a: "advanceAuth cfg t True True ah (withNonces N st) = (s1, r1)" by fastforce
  show ?case
  proof (cases "early t c ah")
    case True
    note e = early_step [OF True a]
    then obtain ah' where r1: "r1 = Inl ah'" using Suc.prems(2) a e [of N] by (cases r1) auto
    obtain q gs1 where q: "callRun cfg t n ah' s1 = (q, gs1)" by fastforce
    have g: "q = (s, Inr (Inr i))" "gs = gs1" using Suc.prems(2) a r1 q e [of N] by simp_all
    have "callRun cfg t n ah' (withNonces (agent_request_nonces s1) s1) = ((s, Inr (Inr i)), gs)" using q g by simp
    from Suc.IH [OF _ this] e [of N] r1 have ih: "gs = [\<lparr>cn_digest = as_legacyDigest c, cn_nonce = sh_nonce h, cn_timestamp = timestampMs h, cn_clock = t\<rparr>]"
      "\<exists>L. agent_request_nonces s = L @ claimRows c h \<and> (\<forall>r \<in> set L. \<not> claims c h r)"
      "\<And>M. \<forall>r \<in> set M. \<not> claims c h r \<Longrightarrow> \<exists>s'. callRun cfg t n ah' (withNonces M s1) = ((s', Inr (Inr i)), gs)"
      "\<And>M q. q \<in> set M \<and> claims c h q \<and> t \<le> nr_expires_at q \<Longrightarrow>
         \<exists>s'. callRun cfg t n ah' (withNonces M s1) = ((s', Inr (Inl (AgentError ''CONFLICT'' 409 False))), [])" by blast+
    have step: "callRun cfg t (Suc n) ah (withNonces M st) = callRun cfg t n ah' (withNonces (keptAt t ah M) s1)" for M
      using e [of M] r1 by (simp add: case_prod_beta)
    have "\<exists>s'. callRun cfg t (Suc n) ah (withNonces M st) = ((s', Inr (Inr i)), gs)" if "\<forall>r \<in> set M. \<not> claims c h r" for M
      unfolding step by (rule ih(3)) (use that kept_claims in blast)
    moreover have "\<exists>s'. callRun cfg t (Suc n) ah (withNonces M st) = ((s', Inr (Inl (AgentError ''CONFLICT'' 409 False))), [])"
      if "q \<in> set M \<and> claims c h q \<and> t \<le> nr_expires_at q" for M q
      unfolding step by (rule ih(4) [of q]) (use that kept_current in blast)
    ultimately show ?thesis using ih(1,2) by simp
  next
    case False
    then have cl: "claiming t c ah" using Suc.prems(1) by simp
    have free: "\<forall>r \<in> set N. \<not> claims c h r"
    proof (rule ccontr)
      assume "\<not> (\<forall>r \<in> set N. \<not> claims c h r)"
      then obtain q where "q \<in> set N" "claims c h q" by blast
      from claim_taken [OF cl assms(2) this, of cfg st] Suc.prems(2) show False by simp
    qed
    note f = claim_free [OF cl assms(2) free a]
    then obtain ah' where r1: "r1 = Inl ah'" using Suc.prems(2) a by (cases r1) auto
    obtain q gs1 where q: "callRun cfg t n ah' s1 = (q, gs1)" by fastforce
    have g: "q = (s, Inr (Inr i))" "gs = grantOf t ah r1 @ gs1" using Suc.prems(2) a r1 q by simp_all
    have run: "callRun cfg t n ah' (withNonces (N @ claimRows c h) st) = ((s, Inr (Inr i)), gs1)" using f q g(1) by simp
    note l = late_run [OF _ run]
    have late_: "late ah'" "grantOf t ah r1 = [\<lparr>cn_digest = as_legacyDigest c, cn_nonce = sh_nonce h, cn_timestamp = timestampMs h, cn_clock = t\<rparr>]"
      using f r1 by simp_all
    have "callRun cfg t (Suc n) ah (withNonces M st) = ((withNonces (M @ claimRows c h) s, Inr (Inr i)), gs)"
      if "\<forall>r \<in> set M. \<not> claims c h r" for M
      using f that r1 l [OF late_(1), of "M @ claimRows c h"] g(2) l [OF late_(1), of "[]"] by (simp add: case_prod_beta)
    moreover have "callRun cfg t (Suc n) ah (withNonces M st) = ((withNonces M st, Inr (Inl (AgentError ''CONFLICT'' 409 False))), [])"
      if "q \<in> set M" "claims c h q" for M q
      using claim_taken [OF cl assms(2) that, of cfg st] by simp
    moreover have "gs = grantOf t ah r1" "agent_request_nonces s = N @ claimRows c h" using l [OF late_(1), of "[]"] g(2) by simp_all
    ultimately show ?thesis using late_(2) free by auto
  qed
qed simp

lemma signedHeaders_end:
  assumes "signedHeaders q t1 = Inr h" "t = timestampMs h + 5 * 60000"
  shows "signedHeaders q t = Inr h"
  using assms by (auto simp: signedHeaders_def andThen_def Let_def throwIf_def AGENT_TIMESTAMP_WINDOW_def split: sum.splits if_splits)

section \<open>Properties\<close>

lemma accepted_call:
  assumes "advanceAuth cfg clk performed replied h st = (st', Inr (Inr identity))"
  shows "\<exists>c headers checked rows. h = AssertCurrent c headers checked rows \<and>
    COUNT_CURRENT_AUTHORIZATIONS rows (activeLookup c) (ac_isoText cfg checked) st = length rows \<and>
    identity = agentIdentity c headers rows"
  using assms
  by (cases h) (auto simp: authRejected_def selectedStep_def claimedStep_def split: prod.splits option.splits sum.splits if_splits)


text \<open>
  C9: A signed call is let in once while its time stamp is valid. In every reachable state, under every
  interleaving of calls, rotations of the lookup keys and runs of the maintenance, if one credential has
  claimed one nonce twice, the second claim came at or after the end of the five minutes for which the
  time stamp of the first was accepted.
\<close>

theorem agent_nonce_once:
  assumes "agent_reachable cfg s" "i < j" "j < length (granted s)"
    and "cn_digest (granted s ! i) = cn_digest (granted s ! j)" "cn_nonce (granted s ! i) = cn_nonce (granted s ! j)"
  shows "cn_timestamp (granted s ! i) + 5 * 60000 \<le> cn_clock (granted s ! j)"
  using guardedD(4) [OF guarded_reachable [OF assms(1)]] assms(2-5)
  by (auto simp: sorted_wrt_iff_nth_less laterWindow_def AGENT_TIMESTAMP_WINDOW_def)

theorem agent_nonce_once_witness:
  "cn_timestamp (granted fixedRepeated ! 0) + 5 * 60000 \<le> cn_clock (granted fixedRepeated ! 1)"
proof (rule agent_nonce_once [OF fixedRepeated_reachable])
  obtain a b where g: "granted fixedRepeated = [a, b]" "cn_digest a = cn_digest b" "cn_nonce a = cn_nonce b"
    using fixedRepeated_granted by (cases "granted fixedRepeated"; cases "tl (granted fixedRepeated)") auto
  then show "1 < length (granted fixedRepeated)"
    "cn_digest (granted fixedRepeated ! 0) = cn_digest (granted fixedRepeated ! 1)"
    "cn_nonce (granted fixedRepeated ! 0) = cn_nonce (granted fixedRepeated ! 1)" by simp_all
qed simp

text \<open>
  C11: The end of the window is included by the check of the time stamp and excluded by the maintenance, which
  deletes a nonce in the millisecond its window ends. Let a call have been let in, and let the clock show the
  end of its window: the same call, with the same time stamp and nonce, is refused as a conflict by the store
  the first one left, and is let in a second time as soon as the maintenance has run on that store, if it
  would be let in at that moment with no nonce stored, so that neither the rate limits nor a change of its
  authorizations keeps it out.
\<close>

theorem nonce_reused_at_window_end:
  assumes first: "callRun cfg t1 n (CountEdge c) st0 = ((st1, Inr (Inr i1)), gs1)"
    and window: "signedHeaders (as_request c) t1 = Inr h" "t = timestampMs h + 5 * 60000"
    and still: "callRun cfg t m (CountEdge c) (withNonces [] st1) = ((st2, Inr (Inr i2)), gs2)"
    and maintained: "maintainNonces t st1 = Inr (st3, k)"
  shows "(\<exists>st'. callRun cfg t m (CountEdge c) st1 = ((st', Inr (Inl (AgentError ''CONFLICT'' 409 False))), [])) \<and>
    (\<exists>st'. callRun cfg t m (CountEdge c) st3 = ((st', Inr (Inr i2)), gs2)) \<and>
    gs1 = [\<lparr>cn_digest = as_legacyDigest c, cn_nonce = sh_nonce h, cn_timestamp = timestampMs h, cn_clock = t1\<rparr>] \<and>
    gs2 = [\<lparr>cn_digest = as_legacyDigest c, cn_nonce = sh_nonce h, cn_timestamp = timestampMs h, cn_clock = t\<rparr>]"
proof -
  have e: "early u c (CountEdge c) \<or> claiming u c (CountEdge c)" for u by simp
  have "callRun cfg t1 n (CountEdge c) (withNonces (agent_request_nonces st0) st0) = ((st1, Inr (Inr i1)), gs1)" using first by simp
  from early_run [OF e window(1) this] obtain L where
    one: "gs1 = [\<lparr>cn_digest = as_legacyDigest c, cn_nonce = sh_nonce h, cn_timestamp = timestampMs h, cn_clock = t1\<rparr>]"
      "agent_request_nonces st1 = L @ claimRows c h" "\<forall>r \<in> set L. \<not> claims c h r" by blast
  note two = early_run [OF e signedHeaders_end [OF window] still]
  let ?q = "\<lparr>nr_credential_digest = as_legacyDigest c, nr_nonce = sh_nonce h, nr_expires_at = t\<rparr>"
  have "?q \<in> set (agent_request_nonces st1)" "claims c h ?q"
    using one(2) window(2) by (simp_all add: claimRows_def nonceNamespaces_def claims_def AGENT_TIMESTAMP_WINDOW_def)
  with two have "\<exists>st'. callRun cfg t m (CountEdge c) (withNonces (agent_request_nonces st1) st1) =
      ((st', Inr (Inl (AgentError ''CONFLICT'' 409 False))), [])" by (metis NonceRow.select_convs(3) order_refl)
  moreover have "st3 = withNonces (agent_request_nonces st3) st1" "\<forall>r \<in> set (agent_request_nonces st3). \<not> claims c h r"
    using maintained one(2,3) window(2) by (auto simp: maintainNonces_def claimRows_def AGENT_TIMESTAMP_WINDOW_def)
  with two have "\<exists>st'. callRun cfg t m (CountEdge c) st3 = ((st', Inr (Inr i2)), gs2)" by metis
  ultimately show ?thesis using one(1) two by simp
qed

lemma fixedCall_runs:
  "case authenticateAgentRequest fixedConfig fixedLookups fixedCall of Inr (CountEdge c) \<Rightarrow>
     (case callRun fixedConfig fixedTime 9 (CountEdge c) (agents fixedStart) of
        ((st1, Inr (Inr i)), gs) \<Rightarrow>
          (case callRun fixedConfig (fixedTime + 5 * 60000) 9 (CountEdge c) (withNonces [] st1) of
             ((st2, Inr (Inr i2)), gs2) \<Rightarrow> True | _ \<Rightarrow> False) \<and>
          (case signedHeaders (as_request c) fixedTime of Inr h \<Rightarrow> timestampMs h = fixedTime | _ \<Rightarrow> False)
      | _ \<Rightarrow> False)
   | _ \<Rightarrow> False"
  by code_simp

theorem nonce_reused_at_window_end_witness:
  "\<exists>c st1 st3 k i gs. maintainNonces (fixedTime + 5 * 60000) st1 = Inr (st3, k) \<and>
     (\<exists>st'. callRun fixedConfig (fixedTime + 5 * 60000) 9 (CountEdge c) st1 =
        ((st', Inr (Inl (AgentError ''CONFLICT'' 409 False))), [])) \<and>
     (\<exists>st'. callRun fixedConfig (fixedTime + 5 * 60000) 9 (CountEdge c) st3 = ((st', Inr (Inr i)), gs)) \<and> length gs = 1"
proof -
  have "\<exists>c. authenticateAgentRequest fixedConfig fixedLookups fixedCall = Inr (CountEdge c)"
    using fixedCall_runs by (simp split: sum.splits authHandler.splits)
  then obtain c where c: "authenticateAgentRequest fixedConfig fixedLookups fixedCall = Inr (CountEdge c)" by blast
  obtain st1 x gs where one: "callRun fixedConfig fixedTime 9 (CountEdge c) (agents fixedStart) = ((st1, x), gs)" by (metis prod.exhaust)
  have "\<exists>i. x = Inr (Inr i)"
    using fixedCall_runs by (simp add: c one split: sum.splits)
  then obtain i where x: "x = Inr (Inr i)" by blast
  obtain st2 y gs2 where two: "callRun fixedConfig (fixedTime + 5 * 60000) 9 (CountEdge c) (withNonces [] st1) = ((st2, y), gs2)"
    by (metis prod.exhaust)
  have y: "(case y of Inr (Inr i2) \<Rightarrow> True | _ \<Rightarrow> False) \<and>
      (case signedHeaders (as_request c) fixedTime of Inr h \<Rightarrow> timestampMs h = fixedTime | _ \<Rightarrow> False)"
    using fixedCall_runs two by (simp add: c one x)
  have "\<exists>i2. y = Inr (Inr i2)" using conjunct1 [OF y] by (simp split: sum.splits)
  then obtain i2 where i2: "y = Inr (Inr i2)" by blast
  have "\<exists>h. signedHeaders (as_request c) fixedTime = Inr h \<and> timestampMs h = fixedTime" using conjunct2 [OF y] by (simp split: sum.splits)
  then obtain h where r: "callRun fixedConfig fixedTime 9 (CountEdge c) (agents fixedStart) = ((st1, Inr (Inr i)), gs)"
      "callRun fixedConfig (fixedTime + 5 * 60000) 9 (CountEdge c) (withNonces [] st1) = ((st2, Inr (Inr i2)), gs2)"
      "signedHeaders (as_request c) fixedTime = Inr h" "timestampMs h = fixedTime"
    using one x two i2 by blast
  obtain st3 k where m: "maintainNonces (fixedTime + 5 * 60000) st1 = Inr (st3, k)" by (simp add: maintainNonces_def)
  have "fixedTime + 5 * 60000 = timestampMs h + 5 * 60000" using r(4) by simp
  from nonce_reused_at_window_end [OF r(1,3) this r(2) m] m show ?thesis by force
qed

text \<open>
  C10: A call that is let in carries a signature of its token over its time stamp, nonce, job and body, its
  time stamp was within five minutes of the clock when it was checked, and every authorization it gets is,
  at its last access to the database, an approved row of that revision under the active lookup key of its
  credential, of an active supplier whose supply is enabled. Its expiry is compared, as in the code, with the
  earlier time at which the time stamp was checked: one that ends between the two is still let in.
\<close>

theorem agent_identity_current:
  assumes "agent_reachable cfg s" "h \<in> set (calling s)"
    and "advanceAuth cfg (now_ms s) performed replied h (agents s) = (st, Inr (Inr identity))"
  shows "\<exists>c headers checked. h = AssertCurrent c headers checked (case h of AssertCurrent _ _ _ rows \<Rightarrow> rows) \<and>
     id_gatewayToken identity = as_token c \<and> id_signedJobId identity = sh_jobId headers \<and>
     signatureMatches cfg (as_token c) (as_request c) headers \<and>
     checked \<le> now_ms s \<and> \<bar>checked - timestampMs headers\<bar> \<le> 5 * 60000 \<and>
     (\<forall>(requestId, revision, provider, model) \<in> set (id_authorizations identity).
        \<exists>ar \<in> set (authorization_requests (ag_database (agents s))). ar_request_id ar = requestId \<and>
          ar_authorization_revision ar = revision \<and> supplyingAuthorization (ac_isoText cfg checked) (ag_database (agents s)) ar \<and>
          boundTo (activeLookup c) ar)"
proof -
  note g = guarded_reachable [OF assms(1)]
  from accepted_call [OF assms(3)] obtain c headers checked rows where h: "h = AssertCurrent c headers checked rows"
    "COUNT_CURRENT_AUTHORIZATIONS rows (activeLookup c) (ac_isoText cfg checked) (agents s) = length rows"
    "identity = agentIdentity c headers rows" by blast
  have n: "checked \<le> now_ms s" "\<bar>checked - timestampMs headers\<bar> \<le> AGENT_TIMESTAMP_WINDOW" "signedCall cfg c headers rows"
    using guardedD(2) [OF g assms(2)] h(1) by simp_all
  have "\<exists>ar \<in> set (authorization_requests (ag_database (agents s))). ar_request_id ar = ar_request_id r \<and>
      ar_authorization_revision ar = ar_authorization_revision r \<and>
      supplyingAuthorization (ac_isoText cfg checked) (ag_database (agents s)) ar \<and> boundTo (activeLookup c) ar" if "r \<in> set rows" for r
    by (rule count_covers [OF h(2) [unfolded COUNT_CURRENT_AUTHORIZATIONS_def]])
      (use that n(3) guardedD(1) [OF g] in \<open>simp_all add: signedCall_def requestKeysDistinct_def\<close>)
  then have rows: "\<forall>(requestId, revision, provider, model) \<in> set (id_authorizations identity).
        \<exists>ar \<in> set (authorization_requests (ag_database (agents s))). ar_request_id ar = requestId \<and>
          ar_authorization_revision ar = revision \<and> supplyingAuthorization (ac_isoText cfg checked) (ag_database (agents s)) ar \<and>
          boundTo (activeLookup c) ar"
    unfolding h(3) agentIdentity_def by simp
  have "id_gatewayToken identity = as_token c" "id_signedJobId identity = sh_jobId headers"
    by (simp_all add: h(3) agentIdentity_def)
  moreover have "signatureMatches cfg (as_token c) (as_request c) headers" using n(3) by (simp add: signedCall_def)
  moreover have "\<bar>checked - timestampMs headers\<bar> \<le> 5 * 60000" using n(2) by (simp add: AGENT_TIMESTAMP_WINDOW_def)
  moreover have "h = AssertCurrent c headers checked (case h of AssertCurrent _ _ _ rows \<Rightarrow> rows)" by (simp add: h(1))
  ultimately show ?thesis using rows n(1) by blast
qed

theorem agent_identity_current_witness:
  "\<exists>h \<in> set (calling fixedAlmost). \<exists>c headers checked rows. h = AssertCurrent c headers checked rows \<and>
     signatureMatches fixedConfig (as_token c) (as_request c) headers"
proof -
  obtain h st i where "h \<in> set (calling fixedAlmost)"
    "advanceAuth fixedConfig (now_ms fixedAlmost) True True h (agents fixedAlmost) = (st, Inr (Inr i))"
    using fixedAlmost_calling by (auto split: list.splits prod.splits sum.splits)
  from agent_identity_current [OF fixedAlmost_reachable this] this(1) show ?thesis by blast
qed

end
