(* ===== verification/Spec2Isabelle.thy ===== *)
theory Spec2Isabelle
  imports Supplier CapacityOffer Scenario NodeScenario WorkerScenario FileScenario PrivacyService AgentScenario
begin

text \<open>
  Verification development for the token-streaming marketplace: buyers submit inference jobs and file
  tasks, suppliers lend authorized capacity of their provider accounts, and a control plane authorizes,
  meters and settles the work.

  \<^bold>\<open>The program and its parts.\<close> The web control plane (\<^verbatim>\<open>apps/web/server\<close>) is a set of stateless handlers
  over one D1 database. Its pure rules are in \<^verbatim>\<open>packages/marketplace-domain\<close>, its texts and shapes in
  \<^verbatim>\<open>packages/protocol\<close>. It calls supplier nodes (\<^verbatim>\<open>apps/supplier-node\<close>) over signed HTTP requests; a node
  checks the signature, keeps a replay journal, bounds its own load, calls the provider and signs evidence.
  File tasks are leased by a supplier's worker and executed in segments with checkpoints.

  \<^bold>\<open>Theories and sources.\<close>
  \<^item> \<open>Prelude\<close>, \<open>JsValue\<close>, \<open>Json\<close>, \<open>Utf8\<close>: JavaScript as far as the sources use it. Numbers are \<open>jsnum\<close>
    with the rounding \<open>dbl\<close> of a double where sums can leave the safe range; values of type \<open>unknown\<close> live in
    a heap of objects; strings are Latin-1 texts except in file tasks, where they are UTF-16 code units.
  \<^item> \<open>Validation\<close>, \<open>Settlement\<close>, \<open>Supplier\<close>, \<open>CapacityOffer\<close>, \<open>Evidence\<close>: the files of
    \<^verbatim>\<open>packages/marketplace-domain/src\<close> of the same names (settlement also with privacy and cancellation,
    evidence with artifact evidence, gateway attestation and the signed texts of \<^verbatim>\<open>packages/protocol\<close>).
    A function that throws returns \<open>Inl\<close> of its error.
  \<^item> \<open>Database\<close>: the tables of \<^verbatim>\<open>apps/web/db/schema.ts\<close> as records of lists of rows, a statement as a
    function \<open>stmt\<close> that gives the new database and the number of changes or a constraint error, and a batch
    (\<open>runBatch\<close>), which takes effect as a whole or not at all. SQL arithmetic is 64 bit with overflow to error.
  \<^item> \<open>Ledger\<close>: the gates of \<^verbatim>\<open>financial-invariants.ts\<close> and the inference handlers of
    \<^verbatim>\<open>marketplace-service.ts\<close> as sequences of batches. \<open>ArtifactTasks\<close>: reservation, lease, checkpoint,
    completion, failure and cancellation of file tasks (\<^verbatim>\<open>artifact-service.ts\<close>, \<^verbatim>\<open>artifact-worker-service.ts\<close>).
    \<open>Lifecycle\<close> and \<open>SupplyDesk\<close>: registration, review, withdrawal, revocation, rotation and supply state.
    \<open>RuntimePolicy\<close>: \<^verbatim>\<open>runtime-policy.ts\<close>.
  \<^item> \<open>Solvency\<close>, \<open>Capacity\<close>, \<open>Conservation\<close>, \<open>Market\<close>, \<open>Progress\<close>: the control plane as a transition system
    whose steps are the single batches of the handlers, so that the interleavings of concurrent requests are
    its runs. Locales state what a step must keep (a supported invariant of a statement, a batch and a
    handler) and are interpreted on the statements of the model. \<open>Scenario\<close>: its runs on concrete inputs.
  \<^item> \<open>ReplayJournal\<close>, \<open>ReplaySafety\<close>, \<open>ReplayProgress\<close>: \<^verbatim>\<open>replay-journal.ts\<close>, its file as a text, each
    file-system call with an outcome that is an argument. \<open>SupplierNode\<close>, \<open>NodeSafety\<close>: \<^verbatim>\<open>runtime.ts\<close>,
    \<^verbatim>\<open>signature.ts\<close>, \<^verbatim>\<open>capacity.ts\<close>. \<open>Gateway\<close>: the control plane's side of the same call.
    \<open>NodeScenario\<close>: runs of the node.
  \<^item> \<open>ArtifactExecutor\<close>, \<open>ArtifactRun\<close>, \<open>ArtifactResume\<close>, \<open>ArtifactBounds\<close>, \<open>ArtifactReduce\<close>:
    \<^verbatim>\<open>artifact-executor.ts\<close>. The chunk generator is the list it yields with the way it ends; provider,
    checkpoint handler and abort signal are functions of the number of the call. \<open>ArtifactScenario\<close>: its runs.
  \<^item> \<open>CheckpointStore\<close>, \<open>CheckpointSafety\<close>: \<^verbatim>\<open>apps/supplier-agent/src/artifact-checkpoint-store.ts\<close>, a directory of
    JSON envelopes with the outcome of every file-system call as an argument. \<open>SupplierWorker\<close>,
    \<open>WorkerSafety\<close>: \<^verbatim>\<open>artifact-worker.ts\<close> and \<open>executeArtifactTask\<close> of \<^verbatim>\<open>runtime.ts\<close>, which compose the store,
    the executor and the calls to the control plane. \<open>WorkerScenario\<close>: runs of both.
  \<^item> \<open>ArtifactStore\<close>: the tables of chunks and of queued object deletions, the object store as a map from keys to
    contents, and the statements of \<^verbatim>\<open>artifact-service.ts\<close>, \<^verbatim>\<open>artifact-storage-invariants.ts\<close> and
    \<^verbatim>\<open>privacy-invariants.ts\<close> on them. \<open>ArtifactFiles\<close>: upload, completion, cleanup and purge (\<^verbatim>\<open>privacy-service.ts\<close>)
    as programs; a value of \<open>fileHandler\<close> is a handler stopped before an access, and \<open>advanceFile\<close> makes the
    access, which may be done, fail, or take effect with its reply lost. \<open>PrivacyService\<close>: purge requests and the
    purge of an inference.
  \<^item> \<open>ArtifactStorage\<close>, \<open>StorageSteps\<close>, \<open>StorageSafety\<close>, \<open>ArtifactWhole\<close>: any number of these programs at once, as a
    transition system, with what each stop relies on, what an access may change (\<open>frame\<close>, \<open>filesKept\<close>) and the two
    invariants that follow. \<open>FileScenario\<close>: their consequences, and runs of the programs.
  \<^item> \<open>AgentStore\<close>, \<open>AgentAuth\<close>: the nonce and rate-limit tables and \<open>authenticateAgentRequest\<close> (\<^verbatim>\<open>agent-auth.ts\<close>,
    \<^verbatim>\<open>agent-auth-invariants.ts\<close>, \<^verbatim>\<open>rate-limit.ts\<close>) as a program in the same manner. \<open>AgentSafety\<close>: any number of calls
    at once with the maintenance of the nonces. \<open>AgentScenario\<close>: its properties and a run.

  \<^bold>\<open>What is shown.\<close> In every reachable state of the control plane no buyer is overdrawn, no offer carries more
  work than it published, every settlement is paid once and balances; final states stay final and expired
  reservations and leases are released. A review of an authorization has a single writer. A supplier node
  executes a request once in its protection window across crashes and restarts, only for authentic calls,
  within its rate limits; its restart loses no claim; its evidence is accepted by the control plane. A file task
  shows the verified file to the provider once, within the limits of the task and the node, and a resumed task ends like one that was
  never interrupted. The checkpoint store gives back what was written until its life time ends, which no
  rewriting extends; a lost report of a checkpoint, when an earlier one was received, ends its task. The object of a ready chunk is in the object
  store as it was uploaded, no stored object is out of sight of the deletion queue, and a ready file is whole,
  whatever uploads, completions, cleanups and purges run at once and wherever they fail, under the bound on handlers
  below and save for the one lost reply that \<open>lost_reply_loses_object\<close> shows. A signed call of a supplier agent is let in once in the window of its time
  stamp, up to its last millisecond (\<open>nonce_reused_at_window_end\<close>), with current authorizations only. The domain rules have their functional properties, round trips and bounds.

  \<^bold>\<open>Parameters and assumptions.\<close> SHA-256, HMAC, random identifiers, the clock and \<open>Date.parse\<close> are arguments
  of the definitions that use them; where a theorem needs that digests are hexadecimal or do not collide on
  the texts at hand, this is a hypothesis with an instance. The JSON parser has twice as much fuel as the text has
  characters, plus two; \<open>parser_adequate\<close> shows that more fuel changes no result. The loops of the executor end by
  their measures: the bytes left, the summaries left, and 32 rounds. The properties of the file store assume that
  a handler takes at most \<open>H\<close> milliseconds with \<open>2 * H\<close> less than a day (the platform ends requests after minutes)
  and that the random identifiers of uploads are new; the time columns of the two chunk tables are milliseconds.

  \<^bold>\<open>Not modelled.\<close> Command line, web pages and routes, database bootstrap, providers, desktop tooling and
  storage of the coding agent: input and output around the core. Key management, the maintenance runner
  of the control plane and the desktop process of the supplier agent are future work; the manifest names each with its reason.
\<close>

end
